(* ===== verification/Studio_Prelude.thy ===== *)
theory Studio_Prelude
  imports Complex_Main "HOL-Library.List_Lexorder" "HOL-Library.Char_ord"
begin

section \<open>Shared vocabulary and automation\<close>

text \<open>
  What every component of the development uses: identifiers and instants, JSON values and
  the HTTP error the services raise, the outcome of a request handler, and list-backed
  tables standing for the PostgreSQL tables the SQLAlchemy session reads and writes.

  Conventions.
  \<^item> A UUID is a \<open>nat\<close>: its canonical text is a fixed-width lower-case hexadecimal, so
    comparing texts and comparing numbers agree.
  \<^item> An instant is an \<open>int\<close> count of microseconds (the resolution of \<open>datetime\<close>); a
    duration given in seconds is scaled by \<open>seconds\<close>.
  \<^item> A Python \<open>raise HTTPException\<close> is the left summand of an \<open>http_error + 'a\<close>.
  \<^item> A handler that touches the database returns the database it leaves committed
    together with its result: a raise before the commit returns the database unchanged.
  \<^item> A table is the list of its rows; \<open>tbl_get\<close> is a primary-key read, \<open>tbl_put\<close> an
    insert or an update in place, and a \<open>SELECT ... WHERE\<close> is a \<open>filter\<close>.
\<close>

type_synonym uuid = nat
type_synonym timestamp = int

definition seconds :: "int \<Rightarrow> timestamp" where
  "seconds n = n * 1000000"

datatype jval =
    JNull
  | JBool bool
  | JInt int
  | JText string
  | JUuid uuid
  | JTime timestamp
  | JNum rat
  | JList "jval list"
  | JObj "(string \<times> jval) list"

datatype http_error = HTTPException (http_status: nat) (http_detail: jval)

type_synonym 'a fallible = "http_error + 'a"
type_synonym ('s, 'a) outcome = "'s \<times> 'a fallible"

named_theorems guard_simps \<open>guards and early returns of the services\<close>
named_theorems model_defs \<open>definitions of handlers, for unfolding\<close>
named_theorems frame_simps \<open>what an operation leaves untouched\<close>

subsection \<open>Early returns\<close>

definition raise_if :: "bool \<Rightarrow> http_error \<Rightarrow> unit fallible" where
  "raise_if b e = (if b then Inl e else Inr ())"

fun and_then :: "unit fallible \<Rightarrow> 'a fallible \<Rightarrow> 'a fallible" where
  "and_then (Inl e) r = Inl e"
| "and_then (Inr ()) r = r"

definition passes :: "'a fallible \<Rightarrow> bool" where
  "passes r \<longleftrightarrow> (\<exists>x. r = Inr x)"

text \<open>A handler that leaves the database alone when its guard raises.\<close>

definition guarded :: "unit fallible \<Rightarrow> 's \<Rightarrow> ('s, 'a) outcome \<Rightarrow> ('s, 'a) outcome" where
  "guarded g d k = (case g of Inl e \<Rightarrow> (d, Inl e) | Inr _ \<Rightarrow> k)"

lemma guarded_simps [simp]:
  "guarded (Inl e) d k = (d, Inl e)" "guarded (Inr u) d k = k"
  by (simp_all add: guarded_def)

lemma guarded_pass [simp]: "g = Inr () \<Longrightarrow> guarded g d k = k"
  by simp

lemma guarded_eq_pair:
  "guarded g d k = (d', r) \<longleftrightarrow> (\<exists>e. g = Inl e \<and> d' = d \<and> r = Inl e) \<or> (g = Inr () \<and> k = (d', r))"
  by (cases g) auto

lemma guarded_eq_Inr:
  "guarded g d k = (d', Inr x) \<longleftrightarrow> g = Inr () \<and> k = (d', Inr x)"
  by (auto simp: guarded_eq_pair)

lemma raise_if_simps [simp]:
  "raise_if True e = Inl e" "raise_if False e = Inr ()"
  by (simp_all add: raise_if_def)

lemma raise_if_eq_Inr [simp, guard_simps]: "raise_if b e = Inr u \<longleftrightarrow> \<not> b"
  by (simp add: raise_if_def)

lemma raise_if_eq_Inl [simp, guard_simps]: "raise_if b e = Inl e' \<longleftrightarrow> b \<and> e' = e"
  by (auto simp: raise_if_def)

lemma and_then_eq_Inr [simp, guard_simps]:
  "and_then g r = Inr x \<longleftrightarrow> g = Inr () \<and> r = Inr x"
  by (cases "(g, r)" rule: and_then.cases) auto

lemma and_then_eq_Inl [simp, guard_simps]:
  "and_then g r = Inl e \<longleftrightarrow> g = Inl e \<or> (g = Inr () \<and> r = Inl e)"
  by (cases "(g, r)" rule: and_then.cases) auto

lemma passes_simps [simp]: "passes (Inr x)" "\<not> passes (Inl e)"
  by (simp_all add: passes_def)

lemma passes_unit [simp]: "passes (r :: unit fallible) \<longleftrightarrow> r = Inr ()"
  by (auto simp: passes_def)

lemma passes_and_then [simp]: "passes (and_then g r) \<longleftrightarrow> g = Inr () \<and> passes r"
  by (auto simp: passes_def)

lemma unit_fallible_cases:
  obtains (raised) e where "(r :: unit fallible) = Inl e" | (passed) "r = Inr ()"
  by (cases r) auto

subsection \<open>Fallible values\<close>

definition on_ok :: "'a fallible \<Rightarrow> 's \<Rightarrow> ('a \<Rightarrow> ('s, 'b) outcome) \<Rightarrow> ('s, 'b) outcome" where
  "on_ok r d k = (case r of Inl e \<Rightarrow> (d, Inl e) | Inr x \<Rightarrow> k x)"

lemma on_ok_simps [simp]: "on_ok (Inl e) d k = (d, Inl e)" "on_ok (Inr x) d k = k x"
  by (simp_all add: on_ok_def)

lemma on_ok_eq_Inr: "on_ok r d k = (d', Inr y) \<longleftrightarrow> (\<exists>x. r = Inr x \<and> k x = (d', Inr y))"
  by (cases r) auto

lemma on_ok_eq_pair:
  "on_ok r d k = (d', o') \<longleftrightarrow> (\<exists>e. r = Inl e \<and> d' = d \<and> o' = Inl e) \<or> (\<exists>x. r = Inr x \<and> k x = (d', o'))"
  by (cases r) auto

definition and_get :: "'a fallible \<Rightarrow> ('a \<Rightarrow> 'b fallible) \<Rightarrow> 'b fallible" where
  "and_get r k = (case r of Inl e \<Rightarrow> Inl e | Inr x \<Rightarrow> k x)"

lemma and_get_simps [simp]: "and_get (Inl e) k = Inl e" "and_get (Inr x) k = k x"
  by (simp_all add: and_get_def)

lemma and_get_eq_Inr: "and_get r k = Inr y \<longleftrightarrow> (\<exists>x. r = Inr x \<and> k x = Inr y)"
  by (cases r) auto

definition found :: "http_error \<Rightarrow> 'a option \<Rightarrow> 'a fallible" where
  "found e x = (case x of None \<Rightarrow> Inl e | Some v \<Rightarrow> Inr v)"

lemma found_eq_Inr [simp]: "found e x = Inr v \<longleftrightarrow> x = Some v"
  by (simp add: found_def split: option.split)

subsection \<open>Tables\<close>

fun tbl_get :: "('r \<Rightarrow> 'k) \<Rightarrow> 'r list \<Rightarrow> 'k \<Rightarrow> 'r option" where
  "tbl_get key [] k = None"
| "tbl_get key (r # rs) k = (if key r = k then Some r else tbl_get key rs k)"

fun tbl_put :: "('r \<Rightarrow> 'k) \<Rightarrow> 'r \<Rightarrow> 'r list \<Rightarrow> 'r list" where
  "tbl_put key x [] = [x]"
| "tbl_put key x (r # rs) = (if key r = key x then x # rs else r # tbl_put key x rs)"

definition tbl_wf :: "('r \<Rightarrow> 'k) \<Rightarrow> 'r list \<Rightarrow> bool" where
  "tbl_wf key rs \<longleftrightarrow> distinct (map key rs)"

lemma tbl_get_key: "tbl_get key rs k = Some r \<Longrightarrow> key r = k"
  by (induction rs) (auto split: if_splits)

lemma tbl_get_mem: "tbl_get key rs k = Some r \<Longrightarrow> r \<in> set rs"
  by (induction rs) (auto split: if_splits)

lemma tbl_get_put [simp]:
  "tbl_get key (tbl_put key x rs) k = (if k = key x then Some x else tbl_get key rs k)"
  by (induction rs) auto

lemma tbl_put_keys:
  "key ` set (tbl_put key x rs) = insert (key x) (key ` set rs)"
  by (induction rs) auto

lemma tbl_wf_put [intro]: "tbl_wf key rs \<Longrightarrow> tbl_wf key (tbl_put key x rs)"
proof (induction rs)
  case (Cons r rs)
  then show ?case
    using tbl_put_keys [of key x rs] by (auto simp: tbl_wf_def)
qed (simp add: tbl_wf_def)

lemma tbl_get_None_iff: "tbl_get key rs k = None \<longleftrightarrow> k \<notin> key ` set rs"
  by (induction rs) auto

lemma tbl_get_of_mem: "tbl_wf key rs \<Longrightarrow> r \<in> set rs \<Longrightarrow> tbl_get key rs (key r) = Some r"
  by (induction rs) (auto simp: tbl_wf_def image_iff)

lemma tbl_put_set:
  "tbl_wf key rs \<Longrightarrow> set (tbl_put key x rs) = insert x {r \<in> set rs. key r \<noteq> key x}"
  by (induction rs) (auto simp: tbl_wf_def image_iff)

lemma tbl_get_filter: "tbl_wf key rs \<Longrightarrow> tbl_get key rs k = Some r \<Longrightarrow> filter (\<lambda>x. key x = k) rs = [r]"
  by (induction rs) (auto simp: tbl_wf_def filter_empty_conv image_iff split: if_splits)

lemmas table_laws = tbl_get_put tbl_wf_put tbl_get_key tbl_get_mem tbl_get_of_mem

subsection \<open>Lists\<close>

lemma filter_False_conv: "filter P xs = [] \<longleftrightarrow> (\<forall>x \<in> set xs. \<not> P x)"
  by (simp add: filter_empty_conv)

lemma filter_sorted_split:
  fixes f :: "'a \<Rightarrow> 'k :: linorder"
  assumes "sorted_wrt (\<lambda>a b. f a < f b) xs"
  shows "xs = filter (\<lambda>x. f x \<le> s) xs @ filter (\<lambda>x. s < f x) xs"
  using assms
proof (induction xs)
  case (Cons x xs)
  show ?case
  proof (cases "f x \<le> s")
    case True
    with Cons show ?thesis by auto
  next
    case False
    with Cons.prems have "\<forall>y \<in> set xs. s < f y" by fastforce
    then have "filter (\<lambda>x. f x \<le> s) xs = []" and "filter (\<lambda>x. s < f x) xs = xs"
      by (auto simp: filter_empty_conv not_le)
    with False show ?thesis by simp
  qed
qed simp

definition py_sorted_set :: "'a :: linorder list \<Rightarrow> 'a list" where
  "py_sorted_set xs = remdups (sort xs)"

lemma set_py_sorted_set [simp]: "set (py_sorted_set xs) = set xs"
  by (simp add: py_sorted_set_def)

lemma distinct_py_sorted_set [simp]: "distinct (py_sorted_set xs)"
  by (simp add: py_sorted_set_def)

lemma sorted_py_sorted_set [simp]: "sorted (py_sorted_set xs)"
  by (simp add: py_sorted_set_def sorted_remdups)

subsection \<open>Truth of a value\<close>

text \<open>Python's \<open>bool(v)\<close>.\<close>

fun truthy :: "jval \<Rightarrow> bool" where
  "truthy JNull = False"
| "truthy (JBool b) = b"
| "truthy (JInt i) = (i \<noteq> 0)"
| "truthy (JNum q) = (q \<noteq> 0)"
| "truthy (JText t) = (t \<noteq> [])"
| "truthy (JList xs) = (xs \<noteq> [])"
| "truthy (JObj fs) = (fs \<noteq> [])"
| "truthy (JUuid u) = True"
| "truthy (JTime t) = True"

subsection \<open>Text\<close>

definition py_space :: "char \<Rightarrow> bool" where
  "py_space c \<longleftrightarrow> (let n = of_char c :: nat in
     (9 \<le> n \<and> n \<le> 13) \<or> (28 \<le> n \<and> n \<le> 32) \<or> n = 133 \<or> n = 160)"

definition py_strip :: "string \<Rightarrow> string" where
  "py_strip s = rev (dropWhile py_space (rev (dropWhile py_space s)))"

definition is_digit :: "char \<Rightarrow> bool" where
  "is_digit c \<longleftrightarrow> (let n = of_char c :: nat in 48 \<le> n \<and> n \<le> 57)"

definition decimal_value :: "string \<Rightarrow> nat" where
  "decimal_value s = foldl (\<lambda>v c. 10 * v + (of_char c - 48)) 0 s"

subsection \<open>Decimal text\<close>

fun show_nat :: "nat \<Rightarrow> string" where
  "show_nat n = (if n < 10 then [char_of (48 + n)] else show_nat (n div 10) @ [char_of (48 + n mod 10)])"

declare show_nat.simps [simp del]

definition show_int :: "int \<Rightarrow> string" where
  "show_int i = (if i < 0 then CHR ''-'' # show_nat (nat (- i)) else show_nat (nat i))"

end
