(* ===== verification/Studio_Data.thy ===== *)
theory Studio_Data
  imports Studio_Prelude
begin

section \<open>Data model of the server\<close>

text \<open>
  The vocabularies of \<open>studio_contracts\<close> and the SQLAlchemy rows the services work on,
  together with the database record \<open>db\<close> that groups their tables. The string enums
  become datatypes with one constructor per member; a row becomes a record whose fields
  keep the column names behind a one-letter prefix. Audit columns nobody reads
  (\<open>created_at\<close>/\<open>updated_at\<close> of most tables, \<open>readable_id\<close>) are left out.
\<close>

subsection \<open>Vocabularies\<close>

datatype role = Role_ADMIN | Role_DEVELOPER | Role_AGENT | Role_READONLY

datatype task_status = TaskStatus_CREATED | TaskStatus_IN_PROGRESS | TaskStatus_BLOCKED
  | TaskStatus_COMPLETED

fun task_status_value :: "task_status \<Rightarrow> string" where
  "task_status_value TaskStatus_CREATED = ''created''"
| "task_status_value TaskStatus_IN_PROGRESS = ''in_progress''"
| "task_status_value TaskStatus_BLOCKED = ''blocked''"
| "task_status_value TaskStatus_COMPLETED = ''completed''"

datatype resource_type = ResourceType_FILE | ResourceType_FOLDER

fun resource_type_value :: "resource_type \<Rightarrow> string" where
  "resource_type_value ResourceType_FILE = ''file''"
| "resource_type_value ResourceType_FOLDER = ''folder''"

datatype claim_status = ClaimStatus_ACTIVE | ClaimStatus_RELEASED | ClaimStatus_EXPIRED

fun claim_status_value :: "claim_status \<Rightarrow> string" where
  "claim_status_value ClaimStatus_ACTIVE = ''active''"
| "claim_status_value ClaimStatus_RELEASED = ''released''"
| "claim_status_value ClaimStatus_EXPIRED = ''expired''"

datatype launch_status = LS_REQUESTED | LS_ACCEPTED | LS_PREPARING | LS_RUNNING
  | LS_SUCCEEDED | LS_FAILED | LS_CANCELLED | LS_REJECTED | LS_EXPIRED

fun launch_status_value :: "launch_status \<Rightarrow> string" where
  "launch_status_value LS_REQUESTED = ''requested''"
| "launch_status_value LS_ACCEPTED = ''accepted''"
| "launch_status_value LS_PREPARING = ''preparing''"
| "launch_status_value LS_RUNNING = ''running''"
| "launch_status_value LS_SUCCEEDED = ''succeeded''"
| "launch_status_value LS_FAILED = ''failed''"
| "launch_status_value LS_CANCELLED = ''cancelled''"
| "launch_status_value LS_REJECTED = ''rejected''"
| "launch_status_value LS_EXPIRED = ''expired''"

datatype launch_actor = Actor_REQUESTER | Actor_MACHINE | Actor_SERVER

datatype launch_reason = LR_NONE | LR_NOT_OPTED_IN | LR_PROJECT_NOT_REGISTERED
  | LR_HARNESS_NOT_ALLOWED | LR_HARNESS_NOT_FOUND | LR_AGENT_NOT_FOUND | LR_CAPACITY_REACHED
  | LR_PREPARATION_FAILED | LR_HARNESS_EXITED | LR_CANCELLED_BY_REQUESTER
  | LR_EXPIRED_UNPULLED | LR_EXPIRED_TIMEOUT

fun launch_reason_value :: "launch_reason \<Rightarrow> string" where
  "launch_reason_value LR_NONE = ''none''"
| "launch_reason_value LR_NOT_OPTED_IN = ''not_opted_in''"
| "launch_reason_value LR_PROJECT_NOT_REGISTERED = ''project_not_registered''"
| "launch_reason_value LR_HARNESS_NOT_ALLOWED = ''harness_not_allowed''"
| "launch_reason_value LR_HARNESS_NOT_FOUND = ''harness_not_found''"
| "launch_reason_value LR_AGENT_NOT_FOUND = ''agent_not_found''"
| "launch_reason_value LR_CAPACITY_REACHED = ''capacity_reached''"
| "launch_reason_value LR_PREPARATION_FAILED = ''preparation_failed''"
| "launch_reason_value LR_HARNESS_EXITED = ''harness_exited''"
| "launch_reason_value LR_CANCELLED_BY_REQUESTER = ''cancelled_by_requester''"
| "launch_reason_value LR_EXPIRED_UNPULLED = ''expired_unpulled''"
| "launch_reason_value LR_EXPIRED_TIMEOUT = ''expired_timeout''"

datatype budget_mode = BM_ALERT_ONLY | BM_ENFORCE

datatype budget_period = BP_DAY | BP_MONTH | BP_LIFETIME

datatype unknown_cost_policy = UC_CHARGE_RESERVATION | UC_IGNORE

datatype late_usage_policy = LU_HOLD_RESERVATION | LU_RELEASE

datatype budget_metric = MT_COST | MT_TOKENS | MT_SLOTS

datatype budget_alert_code = BA_THRESHOLD_REACHED | BA_LIMIT_EXCEEDED | BA_SLOTS_EXHAUSTED
  | BA_UNKNOWN_USAGE | BA_ENFORCE_PENDING_APPROVAL

datatype reservation_status = BR_HELD | BR_SETTLED | BR_RELEASED

datatype settle_basis = SB_MEASURED | SB_RESERVATION | SB_NONE

datatype usage_coverage = Cov_UNKNOWN | Cov_MEASURED | Cov_ESTIMATED

datatype cached_tokens_scope = Cached_INCLUDED_IN_INPUT | Cached_ADDITIONAL_TO_INPUT

text \<open>
  \<open>EventType\<close> is a string enum: an event type is its text, and the members the services
  emit are abbreviations.
\<close>

type_synonym event_type = string

abbreviation TASK_CREATED :: event_type where "TASK_CREATED \<equiv> ''task.created''"
abbreviation TASK_STARTED :: event_type where "TASK_STARTED \<equiv> ''task.started''"
abbreviation TASK_UPDATED :: event_type where "TASK_UPDATED \<equiv> ''task.updated''"
abbreviation TASK_BLOCKED :: event_type where "TASK_BLOCKED \<equiv> ''task.blocked''"
abbreviation TASK_COMPLETED :: event_type where "TASK_COMPLETED \<equiv> ''task.completed''"
abbreviation TASK_LAUNCH_REQUESTED :: event_type where "TASK_LAUNCH_REQUESTED \<equiv> ''task_launch.requested''"
abbreviation TASK_LAUNCH_ACCEPTED :: event_type where "TASK_LAUNCH_ACCEPTED \<equiv> ''task_launch.accepted''"
abbreviation TASK_LAUNCH_REJECTED :: event_type where "TASK_LAUNCH_REJECTED \<equiv> ''task_launch.rejected''"
abbreviation TASK_LAUNCH_CANCELLED :: event_type where "TASK_LAUNCH_CANCELLED \<equiv> ''task_launch.cancelled''"
abbreviation TASK_LAUNCH_EXPIRED :: event_type where "TASK_LAUNCH_EXPIRED \<equiv> ''task_launch.expired''"
abbreviation TASK_LAUNCH_FINISHED :: event_type where "TASK_LAUNCH_FINISHED \<equiv> ''task_launch.finished''"
abbreviation SESSION_STARTED :: event_type where "SESSION_STARTED \<equiv> ''session.started''"
abbreviation SESSION_ENDED :: event_type where "SESSION_ENDED \<equiv> ''session.ended''"
abbreviation RESOURCE_CLAIMED :: event_type where "RESOURCE_CLAIMED \<equiv> ''resource.claimed''"
abbreviation RESOURCE_RENEWED :: event_type where "RESOURCE_RENEWED \<equiv> ''resource.renewed''"
abbreviation RESOURCE_RELEASED :: event_type where "RESOURCE_RELEASED \<equiv> ''resource.released''"
abbreviation RESOURCE_CONFLICT :: event_type where "RESOURCE_CONFLICT \<equiv> ''resource.conflict''"

text \<open>
  An event id is a random \<open>uuid4\<close> or a \<open>uuid5\<close> derived from a namespace and a name.
  Ids are kept symbolic: equal ids come from equal namespaces and names, which is what
  \<open>uuid5\<close> is used for (a SHA-1 collision is outside the model).
\<close>

datatype event_id = Uuid4 uuid | Uuid5 string "jval list"

datatype actor_type = Actor_user | Actor_agent | Actor_system

datatype machine_status = MS_ONLINE | MS_IDLE | MS_OFFLINE

subsection \<open>Rows\<close>

record user_row =
  u_id :: uuid
  u_role :: role

record harness_report =
  h_harness_id :: string
  h_detected :: bool
  h_configured :: bool

record machine_capabilities =
  mc_accepts_launches :: bool
  mc_project_ids :: "uuid list"
  mc_max_launches :: int
  mc_running_launches :: int
  mc_launch_safety :: "bool option"
  mc_launch_profiles :: "bool option"
  mc_harnesses :: "harness_report list"

record launch_scope =
  ls_launch_id :: uuid
  ls_project_id :: uuid
  ls_task_id :: uuid

record machine_row =
  m_id :: uuid
  m_owner_user_id :: uuid
  m_display_name :: string
  m_last_seen_at :: "timestamp option"
  m_capabilities :: "machine_capabilities option"
  m_capabilities_reported_at :: "timestamp option"
  m_launch_scope :: "launch_scope option"

record agent_row =
  a_id :: uuid
  a_owner_user_id :: "uuid option"
  a_machine_id :: "uuid option"
  a_stable_key :: "string option"

record membership_row =
  pm_user_id :: uuid
  pm_project_id :: uuid

record grant_row =
  g_machine_id :: uuid
  g_user_id :: uuid
  g_project_id :: "uuid option"
  g_expires_at :: "timestamp option"
  g_granted_by_user_id :: uuid
  g_created_at :: timestamp

record task_row =
  t_id :: uuid
  t_project_id :: uuid
  t_title :: string
  t_description :: "string option"
  t_status :: task_status
  t_claimed_by_machine_id :: "uuid option"
  t_claimed_by_agent_id :: "uuid option"
  t_version :: int
  t_updated_at :: timestamp
  t_handoff_cursor_seq :: "int option"

record claim_row =
  c_id :: uuid
  c_project_id :: uuid
  c_task_id :: "uuid option"
  c_resource_path :: string
  c_resource_type :: resource_type
  c_claimed_by_machine_id :: uuid
  c_claimed_by_agent_id :: "uuid option"
  c_status :: claim_status
  c_ttl_seconds :: int
  c_renewed_at :: "timestamp option"
  c_expires_at :: timestamp
  c_released_at :: "timestamp option"

record launch_row =
  l_id :: uuid
  l_project_id :: uuid
  l_task_id :: uuid
  l_machine_id :: uuid
  l_requested_by_user_id :: uuid
  l_harness_id :: string
  l_agent_stable_key :: "string option"
  l_status :: launch_status
  l_reason_code :: launch_reason
  l_session_id :: "uuid option"
  l_output_excerpt :: "string option"
  l_expires_at :: timestamp
  l_finished_at :: "timestamp option"
  l_created_at :: timestamp
  l_attempt :: int
  l_retry_of_launch_id :: "uuid option"
  l_replay_basis :: "jval option"
  l_allow_production :: bool
  l_profile_key :: "string option"
  l_profile_contract_version :: "int option"
  l_profile_digest :: "string option"
  l_version :: int

record session_row =
  s_id :: uuid
  s_task_id :: "uuid option"
  s_machine_id :: "uuid option"
  s_agent_id :: "uuid option"
  s_started_at :: timestamp
  s_ended_at :: "timestamp option"
  s_last_activity_at :: "timestamp option"
  s_sync_cursor_seq :: "int option"

record event_row =
  e_id :: event_id
  e_type :: event_type
  e_project_id :: uuid
  e_task_id :: "uuid option"
  e_machine_id :: "uuid option"
  e_actor_type :: actor_type
  e_actor_id :: uuid
  e_client_timestamp :: timestamp
  e_payload :: "(string \<times> jval) list"

text \<open>
  A money amount (\<open>Decimal\<close>) is an exact rational: PostgreSQL's \<open>numeric(18, 8)\<close> and
  Python's 28 significant digits do not round in the sums the services form.
\<close>

record policy_fields =
  pf_mode :: budget_mode
  pf_period :: budget_period
  pf_currency :: string
  pf_cost_limit :: "rat option"
  pf_token_limit :: "int option"
  pf_max_active_launches :: "int option"
  pf_reservation_cost :: "rat option"
  pf_reservation_tokens :: "int option"
  pf_unknown_cost :: unknown_cost_policy
  pf_late_usage :: late_usage_policy
  pf_settle_after_seconds :: int
  pf_alert_thresholds :: "int list"

record policy_row =
  bp_id :: uuid
  bp_project_id :: uuid
  bp_fields :: policy_fields
  bp_proposed_by_user_id :: "uuid option"
  bp_approved_by_user_id :: "uuid option"
  bp_approved_at :: "timestamp option"
  bp_version :: int

record budget_alert =
  ba_code :: budget_alert_code
  ba_metric :: "budget_metric option"
  ba_threshold :: "int option"

record reservation_row =
  br_id :: uuid
  br_project_id :: uuid
  br_policy_id :: uuid
  br_task_launch_id :: uuid
  br_status :: reservation_status
  br_reserved_cost :: "rat option"
  br_reserved_tokens :: "int option"
  br_settle_basis :: "settle_basis option"
  br_alerts :: "budget_alert list"
  br_created_at :: timestamp
  br_settled_at :: "timestamp option"
  br_version :: int

record usage_row =
  ul_id :: uuid
  ul_project_id :: uuid
  ul_task_launch_id :: "uuid option"
  ul_period_start :: timestamp
  ul_tokens_in :: "int option"
  ul_tokens_in_coverage :: usage_coverage
  ul_tokens_out :: "int option"
  ul_tokens_out_coverage :: usage_coverage
  ul_tokens_cached :: "int option"
  ul_tokens_cached_coverage :: usage_coverage
  ul_cached_tokens_scope :: cached_tokens_scope
  ul_cost :: "rat option"
  ul_cost_coverage :: usage_coverage
  ul_cost_currency :: "string option"

subsection \<open>The database\<close>

text \<open>
  \<open>db_events\<close> is the \<open>events\<close> table in \<open>seq\<close> order, \<open>db_published\<close> what
  \<open>publish_event\<close> has fanned out to the realtime stream.
\<close>

record db =
  db_users :: "user_row list"
  db_machines :: "machine_row list"
  db_agents :: "agent_row list"
  db_memberships :: "membership_row list"
  db_grants :: "grant_row list"
  db_tasks :: "task_row list"
  db_claims :: "claim_row list"
  db_launches :: "launch_row list"
  db_sessions :: "session_row list"
  db_projects :: "uuid list"
  db_policies :: "policy_row list"
  db_reservations :: "reservation_row list"
  db_usage :: "usage_row list"
  db_events :: "event_row list"
  db_published :: "event_row list"

definition empty_db :: db where
  "empty_db = \<lparr>db_users = [], db_machines = [], db_agents = [], db_memberships = [],
     db_grants = [], db_tasks = [], db_claims = [], db_launches = [], db_sessions = [],
     db_projects = [], db_policies = [], db_reservations = [], db_usage = [],
     db_events = [], db_published = []\<rparr>"

definition put_task :: "task_row \<Rightarrow> db \<Rightarrow> db" where
  "put_task t d = d\<lparr>db_tasks := tbl_put t_id t (db_tasks d)\<rparr>"

definition put_claim :: "claim_row \<Rightarrow> db \<Rightarrow> db" where
  "put_claim c d = d\<lparr>db_claims := tbl_put c_id c (db_claims d)\<rparr>"

definition put_launch :: "launch_row \<Rightarrow> db \<Rightarrow> db" where
  "put_launch l d = d\<lparr>db_launches := tbl_put l_id l (db_launches d)\<rparr>"

definition put_session :: "session_row \<Rightarrow> db \<Rightarrow> db" where
  "put_session s d = d\<lparr>db_sessions := tbl_put s_id s (db_sessions d)\<rparr>"

definition get_task_row :: "db \<Rightarrow> uuid \<Rightarrow> task_row option" where
  "get_task_row d = tbl_get t_id (db_tasks d)"

definition get_claim_row :: "db \<Rightarrow> uuid \<Rightarrow> claim_row option" where
  "get_claim_row d = tbl_get c_id (db_claims d)"

definition get_launch_row :: "db \<Rightarrow> uuid \<Rightarrow> launch_row option" where
  "get_launch_row d = tbl_get l_id (db_launches d)"

definition get_session_row :: "db \<Rightarrow> uuid \<Rightarrow> session_row option" where
  "get_session_row d = tbl_get s_id (db_sessions d)"

lemma put_task_frame [simp, frame_simps]:
  "db_claims (put_task t d) = db_claims d" "db_launches (put_task t d) = db_launches d"
  "db_sessions (put_task t d) = db_sessions d" "db_events (put_task t d) = db_events d"
  "db_agents (put_task t d) = db_agents d" "db_published (put_task t d) = db_published d"
  "db_machines (put_task t d) = db_machines d" "db_projects (put_task t d) = db_projects d"
  "db_policies (put_task t d) = db_policies d" "db_usage (put_task t d) = db_usage d"
  "db_reservations (put_task t d) = db_reservations d" "db_grants (put_task t d) = db_grants d"
  by (simp_all add: put_task_def)

lemma put_claim_frame [simp, frame_simps]:
  "db_tasks (put_claim c d) = db_tasks d" "db_launches (put_claim c d) = db_launches d"
  "db_sessions (put_claim c d) = db_sessions d" "db_events (put_claim c d) = db_events d"
  "db_agents (put_claim c d) = db_agents d" "db_published (put_claim c d) = db_published d"
  "db_machines (put_claim c d) = db_machines d" "db_projects (put_claim c d) = db_projects d"
  "db_policies (put_claim c d) = db_policies d" "db_usage (put_claim c d) = db_usage d"
  "db_reservations (put_claim c d) = db_reservations d" "db_grants (put_claim c d) = db_grants d"
  by (simp_all add: put_claim_def)

lemma put_launch_frame [simp, frame_simps]:
  "db_tasks (put_launch l d) = db_tasks d" "db_claims (put_launch l d) = db_claims d"
  "db_sessions (put_launch l d) = db_sessions d" "db_events (put_launch l d) = db_events d"
  "db_agents (put_launch l d) = db_agents d" "db_published (put_launch l d) = db_published d"
  "db_machines (put_launch l d) = db_machines d" "db_projects (put_launch l d) = db_projects d"
  "db_policies (put_launch l d) = db_policies d" "db_usage (put_launch l d) = db_usage d"
  "db_reservations (put_launch l d) = db_reservations d" "db_grants (put_launch l d) = db_grants d"
  by (simp_all add: put_launch_def)

lemma put_session_frame [simp, frame_simps]:
  "db_tasks (put_session s d) = db_tasks d" "db_claims (put_session s d) = db_claims d"
  "db_launches (put_session s d) = db_launches d" "db_events (put_session s d) = db_events d"
  "db_agents (put_session s d) = db_agents d" "db_published (put_session s d) = db_published d"
  "db_machines (put_session s d) = db_machines d" "db_projects (put_session s d) = db_projects d"
  "db_policies (put_session s d) = db_policies d" "db_usage (put_session s d) = db_usage d"
  "db_reservations (put_session s d) = db_reservations d" "db_grants (put_session s d) = db_grants d"
  by (simp_all add: put_session_def)

lemma get_put_task [simp]:
  "get_task_row (put_task t d) k = (if k = t_id t then Some t else get_task_row d k)"
  by (simp add: get_task_row_def put_task_def)

lemma get_put_claim [simp]:
  "get_claim_row (put_claim c d) k = (if k = c_id c then Some c else get_claim_row d k)"
  by (simp add: get_claim_row_def put_claim_def)

lemma get_put_launch [simp]:
  "get_launch_row (put_launch l d) k = (if k = l_id l then Some l else get_launch_row d k)"
  by (simp add: get_launch_row_def put_launch_def)

lemma get_put_session [simp]:
  "get_session_row (put_session s d) k = (if k = s_id s then Some s else get_session_row d k)"
  by (simp add: get_session_row_def put_session_def)

end
