(* ===== verification/Authz.thy ===== *)
theory Authz
  imports Studio_Data
begin

section \<open>Authorization (\<open>services/authz.py\<close>)\<close>

text \<open>
  The principal of a request, the project, role and ownership gates every service runs
  before it writes, and the clauses that filter a list. The interface \<open>access_gate\<close>
  states what a gate and a list filter owe each other: a list shows a row exactly when
  reading that row would pass. It is interpreted for project rows, for rows with a nullable
  project column and for transfers.
\<close>

subsection \<open>Roles, weakest to strongest\<close>

fun role_strength :: "role \<Rightarrow> nat" where
  "role_strength Role_READONLY = 0"
| "role_strength Role_AGENT = 1"
| "role_strength Role_DEVELOPER = 2"
| "role_strength Role_ADMIN = 3"

lemma role_strength_inj: "role_strength r = role_strength r' \<Longrightarrow> r = r'"
  by (cases r; cases r') simp_all

instantiation role :: linorder
begin

definition less_eq_role :: "role \<Rightarrow> role \<Rightarrow> bool" where
  "less_eq_role r r' \<longleftrightarrow> role_strength r \<le> role_strength r'"

definition less_role :: "role \<Rightarrow> role \<Rightarrow> bool" where
  "less_role r r' \<longleftrightarrow> role_strength r < role_strength r'"

instance
  by standard (auto simp: less_eq_role_def less_role_def intro: role_strength_inj)

end

subsection \<open>The principal\<close>

text \<open>\<open>ProjectScope\<close> is the sentinel \<open>ALL_PROJECTS\<close> of an admin or a frozen set of ids.\<close>

datatype project_scope = ALL_PROJECTS | Projects "uuid set"

datatype project_action = ReadAction | WriteAction

fun project_action_text :: "project_action \<Rightarrow> string" where
  "project_action_text ReadAction = ''read''"
| "project_action_text WriteAction = ''write''"

record principal =
  p_machine :: machine_row
  p_user :: user_row
  p_role :: role
  p_scope :: project_scope
  p_human_authenticated :: bool

definition owns_agent :: "agent_row option \<Rightarrow> machine_row \<Rightarrow> bool" where
  "owns_agent agent machine =
     (case agent of
        None \<Rightarrow> False
      | Some a \<Rightarrow>
          (case a_owner_user_id a of
             Some owner \<Rightarrow> owner = m_owner_user_id machine
           | None \<Rightarrow> a_machine_id a = Some (m_id machine)))"

definition forbidden :: "string \<Rightarrow> string \<Rightarrow> http_error" where
  "forbidden resource action =
     HTTPException 403 (JObj [(''error_code'', JText ''forbidden''),
       (''resource'', JText resource), (''action'', JText action)])"

definition load_project_scope :: "db \<Rightarrow> uuid \<Rightarrow> role \<Rightarrow> project_scope" where
  "load_project_scope d user_id role =
     (if role = Role_ADMIN then ALL_PROJECTS
      else Projects (set (map pm_project_id
             (filter (\<lambda>r. pm_user_id r = user_id) (db_memberships d)))))"

definition load_principal :: "db \<Rightarrow> machine_row \<Rightarrow> principal fallible" where
  "load_principal d machine =
     (case tbl_get u_id (db_users d) (m_owner_user_id machine) of
        None \<Rightarrow> Inl (HTTPException 401 (JText ''machine owner not found''))
      | Some user \<Rightarrow>
          (let role = u_role user;
               project_scope = load_project_scope d (u_id user) role;
               scope =
                 (case m_launch_scope machine of
                    None \<Rightarrow> project_scope
                  | Some ls \<Rightarrow>
                      (let allowed = (case project_scope of ALL_PROJECTS \<Rightarrow> True
                                        | Projects ps \<Rightarrow> ls_project_id ls \<in> ps)
                       in if allowed then Projects {ls_project_id ls} else Projects {}))
           in Inr \<lparr>p_machine = machine, p_user = user, p_role = role, p_scope = scope,
                   p_human_authenticated = False\<rparr>))"

definition with_created_project :: "principal \<Rightarrow> uuid \<Rightarrow> principal" where
  "with_created_project p project_id =
     (case p_scope p of
        ALL_PROJECTS \<Rightarrow> p
      | Projects ps \<Rightarrow> p\<lparr>p_scope := Projects (ps \<union> {project_id})\<rparr>)"

subsection \<open>Gates\<close>

definition has_project_access :: "principal \<Rightarrow> uuid \<Rightarrow> bool" where
  "has_project_access p project_id =
     (case p_scope p of ALL_PROJECTS \<Rightarrow> True | Projects ps \<Rightarrow> project_id \<in> ps)"

definition has_any_project :: "principal \<Rightarrow> bool" where
  "has_any_project p = (case p_scope p of ALL_PROJECTS \<Rightarrow> True | Projects ps \<Rightarrow> ps \<noteq> {})"

definition ensure_project_access :: "principal \<Rightarrow> uuid \<Rightarrow> project_action \<Rightarrow> unit fallible" where
  "ensure_project_access p project_id action =
     raise_if (\<not> has_project_access p project_id)
       (forbidden ''project'' (project_action_text action))"

definition ensure_shared_access :: "principal \<Rightarrow> project_action \<Rightarrow> unit fallible" where
  "ensure_shared_access p action =
     raise_if (\<not> has_any_project p) (forbidden ''project'' (project_action_text action))"

definition ensure_can_write :: "principal \<Rightarrow> string \<Rightarrow> unit fallible" where
  "ensure_can_write p resource =
     raise_if (p_role p = Role_READONLY) (forbidden resource ''write'')"

definition ensure_can_provision :: "principal \<Rightarrow> string \<Rightarrow> unit fallible" where
  "ensure_can_provision p resource =
     raise_if (p_role p \<notin> {Role_ADMIN, Role_DEVELOPER}) (forbidden resource ''provision'')"

definition ensure_machine_owned ::
  "principal \<Rightarrow> uuid option \<Rightarrow> string \<Rightarrow> string \<Rightarrow> unit fallible" where
  "ensure_machine_owned p owner_machine_id resource action =
     and_then (ensure_can_write p resource)
       (if p_role p = Role_ADMIN then Inr ()
        else raise_if (owner_machine_id \<noteq> None \<and> owner_machine_id \<noteq> Some (m_id (p_machine p)))
               (forbidden resource action))"

record transfer_row =
  x_id :: uuid
  x_sender_user_id :: uuid
  x_recipient_user_id :: "uuid option"

definition ensure_transfer_access :: "principal \<Rightarrow> transfer_row \<Rightarrow> string \<Rightarrow> unit fallible" where
  "ensure_transfer_access p transfer action =
     (let is_sender = (x_sender_user_id transfer = u_id (p_user p));
          is_recipient = (x_recipient_user_id transfer = Some (u_id (p_user p)));
          is_broadcast = (x_recipient_user_id transfer = None);
          is_admin = (p_role p = Role_ADMIN)
      in if action = ''read'' then
           (if is_sender \<or> is_recipient \<or> is_broadcast \<or> is_admin then Inr ()
            else Inl (forbidden ''transfer'' action))
         else if is_admin \<or> is_sender then ensure_can_write p ''transfer''
         else Inl (forbidden ''transfer'' action))"

subsection \<open>List filters\<close>

text \<open>
  A SQL clause is a predicate on the filtered column, and \<open>None\<close> means no filter. The
  flag \<open>nullable\<close> is \<open>column.nullable\<close>.
\<close>

definition project_visibility_clause ::
  "principal \<Rightarrow> bool \<Rightarrow> (uuid option \<Rightarrow> bool) option" where
  "project_visibility_clause p nullable =
     (case p_scope p of
        ALL_PROJECTS \<Rightarrow> None
      | Projects ps \<Rightarrow>
          (if ps = {} then Some (\<lambda>_. False)
           else (let clause = (\<lambda>v. case v of None \<Rightarrow> False | Some pid \<Rightarrow> pid \<in> ps)
                 in if nullable then Some (\<lambda>v. clause v \<or> v = None) else Some clause)))"

definition transfer_visibility_clause :: "principal \<Rightarrow> (transfer_row \<Rightarrow> bool) option" where
  "transfer_visibility_clause p =
     (if p_role p = Role_ADMIN then None
      else Some (\<lambda>x. x_sender_user_id x = u_id (p_user p)
                   \<or> x_recipient_user_id x = Some (u_id (p_user p))
                   \<or> x_recipient_user_id x = None))"

definition where_clause :: "('r \<Rightarrow> bool) option \<Rightarrow> 'r list \<Rightarrow> 'r list" where
  "where_clause clause rows = (case clause of None \<Rightarrow> rows | Some c \<Rightarrow> filter c rows)"

subsection \<open>Gates and filters agree\<close>

lemmas gate_defs = ensure_project_access_def ensure_shared_access_def ensure_can_write_def
  ensure_can_provision_def ensure_machine_owned_def

lemma ensure_project_access_iff [simp, guard_simps]:
  "ensure_project_access p pid act = Inr () \<longleftrightarrow> has_project_access p pid"
  by (simp add: ensure_project_access_def)

lemma ensure_can_write_iff [simp, guard_simps]:
  "ensure_can_write p res = Inr () \<longleftrightarrow> p_role p \<noteq> Role_READONLY"
  by (simp add: ensure_can_write_def)

lemma ensure_machine_owned_iff [guard_simps]:
  "ensure_machine_owned p own res act = Inr () \<longleftrightarrow>
     p_role p \<noteq> Role_READONLY
     \<and> (p_role p = Role_ADMIN \<or> own = None \<or> own = Some (m_id (p_machine p)))"
  by (auto simp: ensure_machine_owned_def)

locale access_gate =
  fixes ensure :: "principal \<Rightarrow> 'r \<Rightarrow> unit fallible"
    and clause :: "principal \<Rightarrow> ('r \<Rightarrow> bool) option"
  assumes clause_iff_ensure:
    "(case clause p of None \<Rightarrow> True | Some c \<Rightarrow> c r) \<longleftrightarrow> ensure p r = Inr ()"
begin

lemma list_is_gated: "where_clause (clause p) rows = filter (\<lambda>r. ensure p r = Inr ()) rows"
proof -
  have "(case clause p of None \<Rightarrow> rows | Some c \<Rightarrow> filter c rows) =
        filter (\<lambda>r. case clause p of None \<Rightarrow> True | Some c \<Rightarrow> c r) rows"
    by (cases "clause p") simp_all
  then show ?thesis
    by (simp add: where_clause_def clause_iff_ensure)
qed

lemma listed_passes: "r \<in> set (where_clause (clause p) rows) \<Longrightarrow> ensure p r = Inr ()"
  by (simp add: list_is_gated)

lemma refused_unlisted: "ensure p r = Inl e \<Longrightarrow> r \<notin> set (where_clause (clause p) rows)"
  by (simp add: list_is_gated)

end

definition project_clause_of :: "('r \<Rightarrow> uuid) \<Rightarrow> principal \<Rightarrow> ('r \<Rightarrow> bool) option" where
  "project_clause_of key p =
     map_option (\<lambda>c r. c (Some (key r))) (project_visibility_clause p False)"

definition shared_clause_of :: "('r \<Rightarrow> uuid option) \<Rightarrow> principal \<Rightarrow> ('r \<Rightarrow> bool) option" where
  "shared_clause_of key p = map_option (\<lambda>c r. c (key r)) (project_visibility_clause p True)"

definition ensure_shared_row ::
  "('r \<Rightarrow> uuid option) \<Rightarrow> principal \<Rightarrow> 'r \<Rightarrow> unit fallible" where
  "ensure_shared_row key p r =
     (case key r of None \<Rightarrow> ensure_shared_access p ReadAction
      | Some pid \<Rightarrow> ensure_project_access p pid ReadAction)"

interpretation project_gate: access_gate
  "\<lambda>p r. ensure_project_access p (key r) ReadAction" "project_clause_of key"
  for key :: "'r \<Rightarrow> uuid"
  by unfold_locales
    (auto simp: project_clause_of_def project_visibility_clause_def has_project_access_def Let_def
       split: project_scope.splits)

interpretation shared_gate: access_gate "ensure_shared_row key" "shared_clause_of key"
  for key :: "'r \<Rightarrow> uuid option"
  by unfold_locales
    (auto simp: shared_clause_of_def ensure_shared_row_def project_visibility_clause_def
       has_project_access_def ensure_shared_access_def has_any_project_def Let_def
       split: project_scope.splits option.splits)

interpretation transfer_gate: access_gate
  "\<lambda>p x. ensure_transfer_access p x ''read''" transfer_visibility_clause
  by unfold_locales (auto simp: transfer_visibility_clause_def ensure_transfer_access_def Let_def)

subsection \<open>Properties\<close>

text \<open>A filtered list of a nullable project column shows exactly the rows a read
  of that row would be allowed to see: a project row needs access to its project, a
  project-less row needs at least one project. The list never reveals a refused row and
  never hides a readable one.\<close>

theorem shared_list_is_gated:
  "where_clause (shared_clause_of key p) rows =
     filter (\<lambda>r. ensure_shared_row key p r = Inr ()) rows"
  by (rule shared_gate.list_is_gated)

text \<open>The transfer list shows exactly the transfers whose read gate passes:
  sender, recipient, broadcast or admin, nothing else.\<close>

theorem transfer_list_is_gated:
  "where_clause (transfer_visibility_clause p) rows =
     filter (\<lambda>x. ensure_transfer_access p x ''read'' = Inr ()) rows"
  by (rule transfer_gate.list_is_gated)

lemma load_principal_cases:
  assumes "load_principal d m = Inr p"
  obtains user where "tbl_get u_id (db_users d) (m_owner_user_id m) = Some user"
    and "p_machine p = m" and "p_user p = user" and "p_role p = u_role user"
    and "p_scope p =
      (case m_launch_scope m of None \<Rightarrow> load_project_scope d (u_id user) (u_role user)
       | Some ls \<Rightarrow>
          if (case load_project_scope d (u_id user) (u_role user) of ALL_PROJECTS \<Rightarrow> True
              | Projects ps \<Rightarrow> ls_project_id ls \<in> ps)
          then Projects {ls_project_id ls} else Projects {})"
  using assms by (auto simp: load_principal_def Let_def split: option.splits if_splits)

text \<open>An ephemeral launch credential confines its request: every project it can
  reach is the launch's own project, and only if the machine's owner can reach that
  project without the credential.\<close>

theorem launch_credential_confines:
  assumes "load_principal d m = Inr p" and "m_launch_scope m = Some ls"
    and "has_project_access p pid"
  shows "pid = ls_project_id ls
    \<and> (\<exists>q. load_principal d (m\<lparr>m_launch_scope := None\<rparr>) = Inr q \<and> has_project_access q pid)"
proof -
  from assms(1) obtain user where user: "tbl_get u_id (db_users d) (m_owner_user_id m) = Some user"
    and scope: "p_scope p =
      (if (case load_project_scope d (u_id user) (u_role user) of ALL_PROJECTS \<Rightarrow> True
           | Projects ps \<Rightarrow> ls_project_id ls \<in> ps)
       then Projects {ls_project_id ls} else Projects {})"
    by (rule load_principal_cases) (simp add: assms(2))
  from assms(3) scope have "pid = ls_project_id ls"
    by (auto simp: has_project_access_def split: if_splits)
  with assms(3) scope user show ?thesis
    by (auto simp: has_project_access_def load_principal_def Let_def
        split: if_splits project_scope.splits)
qed

definition sample_machine :: machine_row where
  "sample_machine = \<lparr>m_id = 10, m_owner_user_id = 1, m_display_name = ''desk'',
     m_last_seen_at = None, m_capabilities = None, m_capabilities_reported_at = None,
     m_launch_scope = None\<rparr>"

definition sample_users :: db where
  "sample_users = empty_db\<lparr>db_users := [\<lparr>u_id = 1, u_role = Role_DEVELOPER\<rparr>],
     db_memberships := [\<lparr>pm_user_id = 1, pm_project_id = 5\<rparr>, \<lparr>pm_user_id = 1, pm_project_id = 6\<rparr>]\<rparr>"

definition sample_scope :: launch_scope where
  "sample_scope = \<lparr>ls_launch_id = 70, ls_project_id = 5, ls_task_id = 30\<rparr>"

lemma launch_credential_confines_witness:
  "\<exists>p. load_principal sample_users (sample_machine\<lparr>m_launch_scope := Some sample_scope\<rparr>) = Inr p
     \<and> has_project_access p 5 \<and> \<not> has_project_access p 6"
proof -
  let ?m = "sample_machine\<lparr>m_launch_scope := Some sample_scope\<rparr>"
  obtain p where p: "load_principal sample_users ?m = Inr p" and acc: "has_project_access p 5"
    by (simp add: load_principal_def sample_users_def sample_machine_def sample_scope_def
        empty_db_def load_project_scope_def has_project_access_def)
  have "\<not> has_project_access p 6"
    using launch_credential_confines [OF p, of sample_scope 6]
    by (auto simp: sample_scope_def)
  with p acc show ?thesis by blast
qed

text \<open>The gates are monotone in role strength: whatever a role may write,
  provision or mutate as an owner, every stronger role may as well.\<close>

theorem gates_monotone_in_role:
  assumes "r \<le> r'"
  shows "(ensure_can_write (p\<lparr>p_role := r\<rparr>) res = Inr ()
            \<longrightarrow> ensure_can_write (p\<lparr>p_role := r'\<rparr>) res = Inr ())
    \<and> (ensure_can_provision (p\<lparr>p_role := r\<rparr>) res = Inr ()
            \<longrightarrow> ensure_can_provision (p\<lparr>p_role := r'\<rparr>) res = Inr ())
    \<and> (ensure_machine_owned (p\<lparr>p_role := r\<rparr>) own res act = Inr ()
            \<longrightarrow> ensure_machine_owned (p\<lparr>p_role := r'\<rparr>) own res act = Inr ())"
  using assms
  by (cases r; cases r')
    (auto simp: ensure_can_provision_def ensure_machine_owned_iff less_eq_role_def)

definition sample_principal :: principal where
  "sample_principal = \<lparr>p_machine = sample_machine, p_user = \<lparr>u_id = 1, u_role = Role_DEVELOPER\<rparr>,
     p_role = Role_DEVELOPER, p_scope = Projects {5, 6}, p_human_authenticated = False\<rparr>"

lemma gates_monotone_in_role_witness:
  "ensure_machine_owned (sample_principal\<lparr>p_role := Role_ADMIN\<rparr>) (Some 10) ''claim'' ''renew''
     = Inr ()"
  using gates_monotone_in_role
    [of Role_AGENT Role_ADMIN sample_principal "''claim''" "Some 10" "''renew''"]
  by (simp add: less_eq_role_def ensure_machine_owned_iff sample_principal_def sample_machine_def)

end
