(* ===== verification/Events.thy ===== *)
theory Events
  imports Authz
begin

section \<open>The audit trail (\<open>services/events.py\<close>)\<close>

text \<open>
  The append-only event log every mutation writes in its own transaction, and the identity
  check of a client-submitted event. \<open>stage_event\<close> inserts without committing;
  \<open>create_event\<close> inserts, commits and publishes; both are idempotent on the event id. The
  log is a list in \<open>seq\<close> order, so the \<open>seq\<close> of a row is its position.
\<close>

definition find_event :: "db \<Rightarrow> event_id \<Rightarrow> event_row option" where
  "find_event d i = tbl_get e_id (db_events d) i"

definition insert_and_notify :: "db \<Rightarrow> event_row \<Rightarrow> db" where
  "insert_and_notify d ev = d\<lparr>db_events := db_events d @ [ev]\<rparr>"

definition publish_event :: "event_row \<Rightarrow> db \<Rightarrow> db" where
  "publish_event ev d = d\<lparr>db_published := db_published d @ [ev]\<rparr>"

definition stage_event :: "db \<Rightarrow> event_row \<Rightarrow> db \<times> event_row" where
  "stage_event d ev =
     (case find_event d (e_id ev) of
        Some existing \<Rightarrow> (d, existing)
      | None \<Rightarrow> (insert_and_notify d ev, ev))"

definition create_event :: "db \<Rightarrow> event_row \<Rightarrow> db \<times> event_row" where
  "create_event d ev =
     (case find_event d (e_id ev) of
        Some existing \<Rightarrow> (d, existing)
      | None \<Rightarrow> (publish_event ev (insert_and_notify d ev), ev))"

definition starts_with :: "string \<Rightarrow> string \<Rightarrow> bool" where
  "starts_with s prefix = (take (length prefix) s = prefix)"

definition conflict409 :: "string \<Rightarrow> string \<Rightarrow> http_error" where
  "conflict409 code message =
     HTTPException 409 (JObj [(''error_code'', JText code), (''message'', JText message)])"

definition resolve_event_identity :: "db \<Rightarrow> principal \<Rightarrow> event_row \<Rightarrow> event_row fallible" where
  "resolve_event_identity d p ev =
     (let machine = p_machine p in
      and_then (ensure_project_access p (e_project_id ev) WriteAction)
     (and_then (ensure_can_write p ''event'')
     (and_then (raise_if (starts_with (e_type ev) ''coordination.'')
        (HTTPException 422 (JObj [(''error_code'', JText ''coordination_reserved''),
           (''message'', JText (''coordination.* events are emitted only through ''
              @ ''POST /api/v1/coordination (studio_coordinate)''))])))
     (and_then (raise_if (e_machine_id ev \<noteq> None \<and> e_machine_id ev \<noteq> Some (m_id machine))
        (conflict409 ''machine_id_mismatch''
           ''machine_id does not match the authenticated machine''))
     (and_then
        (case e_actor_type ev of
           Actor_user \<Rightarrow>
             raise_if (e_actor_id ev \<noteq> m_owner_user_id machine)
               (conflict409 ''actor_id_mismatch''
                  (''actor_id must be the authenticated machine's owner '' @ ''for actor_type=user''))
         | Actor_agent \<Rightarrow>
             raise_if (\<not> owns_agent (tbl_get a_id (db_agents d) (e_actor_id ev)) machine)
               (conflict409 ''actor_not_owned''
                  ''actor_id must be an agent attached to the authenticated machine'')
         | Actor_system \<Rightarrow>
             raise_if (e_actor_id ev \<noteq> m_id machine)
               (conflict409 ''actor_not_owned''
                  (''actor_id must be the authenticated machine's own id ''
                     @ ''for actor_type=system'')))
        (Inr (ev\<lparr>e_machine_id := Some (m_id machine)\<rparr>)))))))"

definition event_seqs :: "db \<Rightarrow> (nat \<times> event_row) list" where
  "event_seqs d = zip [1..<Suc (length (db_events d))] (db_events d)"

lemma event_seqs_sorted: "sorted_wrt (\<lambda>a b. fst a < fst b) (event_seqs d)"
  by (auto simp: event_seqs_def sorted_wrt_iff_nth_less simp del: upt_Suc)

lemma length_filter_event_seqs: "length (filter Q (event_seqs d)) \<le> length (db_events d)"
  using length_filter_le [of Q "event_seqs d"] by (simp add: event_seqs_def)

definition list_events_after ::
  "db \<Rightarrow> principal \<Rightarrow> uuid \<Rightarrow> nat option \<Rightarrow> nat \<Rightarrow> (nat \<times> event_row) list fallible" where
  "list_events_after d p project_id after_seq limit =
     and_then (ensure_project_access p project_id ReadAction)
       (Inr (take limit
          (filter (\<lambda>(seq, e). e_project_id e = project_id
                   \<and> (case after_seq of None \<Rightarrow> True | Some s \<Rightarrow> s < seq))
             (event_seqs d))))"

subsection \<open>Laws of the log\<close>

lemma stage_event_fresh [simp]:
  "find_event d (e_id ev) = None \<Longrightarrow> stage_event d ev = (insert_and_notify d ev, ev)"
  by (simp add: stage_event_def)

lemma stage_event_frame [simp, frame_simps]:
  "db_tasks (fst (stage_event d ev)) = db_tasks d"
  "db_claims (fst (stage_event d ev)) = db_claims d"
  "db_launches (fst (stage_event d ev)) = db_launches d"
  "db_sessions (fst (stage_event d ev)) = db_sessions d"
  "db_agents (fst (stage_event d ev)) = db_agents d"
  "db_machines (fst (stage_event d ev)) = db_machines d"
  "db_published (fst (stage_event d ev)) = db_published d"
  "db_projects (fst (stage_event d ev)) = db_projects d"
  "db_policies (fst (stage_event d ev)) = db_policies d"
  "db_reservations (fst (stage_event d ev)) = db_reservations d"
  "db_usage (fst (stage_event d ev)) = db_usage d"
  by (simp_all add: stage_event_def insert_and_notify_def split: option.split)

lemma publish_event_frame [simp, frame_simps]:
  "db_tasks (publish_event ev d) = db_tasks d" "db_claims (publish_event ev d) = db_claims d"
  "db_launches (publish_event ev d) = db_launches d"
  "db_sessions (publish_event ev d) = db_sessions d"
  "db_agents (publish_event ev d) = db_agents d" "db_events (publish_event ev d) = db_events d"
  "db_machines (publish_event ev d) = db_machines d"
  "db_projects (publish_event ev d) = db_projects d"
  "db_policies (publish_event ev d) = db_policies d"
  "db_reservations (publish_event ev d) = db_reservations d"
  "db_usage (publish_event ev d) = db_usage d"
  by (simp_all add: publish_event_def)

lemma get_row_frames [simp, frame_simps]:
  "get_task_row (fst (stage_event d ev)) = get_task_row d"
  "get_claim_row (fst (stage_event d ev)) = get_claim_row d"
  "get_launch_row (fst (stage_event d ev)) = get_launch_row d"
  "get_session_row (fst (stage_event d ev)) = get_session_row d"
  "get_task_row (publish_event ev d) = get_task_row d"
  "get_claim_row (publish_event ev d) = get_claim_row d"
  "get_launch_row (publish_event ev d) = get_launch_row d"
  "get_session_row (publish_event ev d) = get_session_row d"
  by (simp_all add: get_task_row_def get_claim_row_def get_launch_row_def get_session_row_def
      fun_eq_iff)

lemma stage_event_events:
  "db_events (fst (stage_event d ev)) =
     (if find_event d (e_id ev) = None then db_events d @ [ev] else db_events d)"
  by (simp add: stage_event_def insert_and_notify_def split: option.split)

definition log_wf :: "db \<Rightarrow> bool" where
  "log_wf d \<longleftrightarrow> tbl_wf e_id (db_events d)"

lemma log_wf_stage [intro]: "log_wf d \<Longrightarrow> log_wf (fst (stage_event d ev))"
  by (auto simp: log_wf_def stage_event_events find_event_def tbl_wf_def tbl_get_None_iff image_iff)

lemma log_wf_publish [simp]: "log_wf (publish_event ev d) = log_wf d"
  by (simp add: log_wf_def)

lemma tbl_get_append:
  "tbl_get key (xs @ ys) k = (case tbl_get key xs k of None \<Rightarrow> tbl_get key ys k | Some r \<Rightarrow> Some r)"
  by (induction xs) auto

lemma find_event_staged:
  "find_event (fst (stage_event d ev)) (e_id ev) = Some (snd (stage_event d ev))"
  by (auto simp: stage_event_def insert_and_notify_def find_event_def tbl_get_append
      split: option.split)

lemma stage_event_keeps:
  "find_event d i = Some e \<Longrightarrow> find_event (fst (stage_event d ev)) i = Some e"
  by (auto simp: stage_event_def insert_and_notify_def find_event_def tbl_get_append
      split: option.split)

lemma stage_event_idem: "fst (stage_event (fst (stage_event d ev)) ev) = fst (stage_event d ev)"
  using find_event_staged [of d ev] by (simp add: stage_event_def [of "fst (stage_event d ev)"])

subsection \<open>Properties\<close>

text \<open>A replayed event never creates a second row: creating the same event id
  again returns the row stored first, whatever the replay carries, leaves the log and the
  realtime stream untouched, and event ids stay unique in the log.\<close>

theorem create_event_replay:
  assumes "log_wf d" and "e_id ev' = e_id ev"
  shows "create_event (fst (create_event d ev)) ev'
       = (fst (create_event d ev), snd (create_event d ev))
    \<and> log_wf (fst (create_event d ev))"
proof -
  have "find_event (fst (create_event d ev)) (e_id ev) = Some (snd (create_event d ev))"
    by (auto simp: create_event_def insert_and_notify_def publish_event_def find_event_def
        tbl_get_append split: option.split)
  moreover have "log_wf (fst (create_event d ev))"
    using assms(1) log_wf_stage [OF assms(1), of ev]
    by (auto simp: create_event_def stage_event_def split: option.splits)
  ultimately show ?thesis
    using assms(2) by (simp add: create_event_def [of "fst (create_event d ev)"])
qed

definition sample_event :: event_row where
  "sample_event = \<lparr>e_id = Uuid4 900, e_type = ''git.commit'', e_project_id = 5, e_task_id = None,
     e_machine_id = None, e_actor_type = Actor_system, e_actor_id = 10, e_client_timestamp = 0,
     e_payload = []\<rparr>"

lemma create_event_replay_witness:
  "snd (create_event (fst (create_event empty_db sample_event))
          (sample_event\<lparr>e_type := ''git.branch.changed''\<rparr>)) = sample_event"
  using create_event_replay
    [of empty_db "sample_event\<lparr>e_type := ''git.branch.changed''\<rparr>" sample_event]
  by (simp add: log_wf_def tbl_wf_def empty_db_def create_event_def find_event_def)

text \<open>A client-submitted event is bound to its authenticated machine: when the
  identity check accepts it, the stored machine is the caller's, the project is accessible
  and writable, the type is not a reserved coordination type, and the actor is the machine's
  owner, an agent the machine owns, or the machine itself.\<close>

theorem resolved_event_identity:
  assumes "resolve_event_identity d p ev = Inr ev'"
  shows "e_machine_id ev' = Some (m_id (p_machine p))
    \<and> has_project_access p (e_project_id ev') \<and> p_role p \<noteq> Role_READONLY
    \<and> \<not> starts_with (e_type ev') ''coordination.''
    \<and> (case e_actor_type ev' of
         Actor_user \<Rightarrow> e_actor_id ev' = m_owner_user_id (p_machine p)
       | Actor_agent \<Rightarrow> owns_agent (tbl_get a_id (db_agents d) (e_actor_id ev')) (p_machine p)
       | Actor_system \<Rightarrow> e_actor_id ev' = m_id (p_machine p))"
  using assms by (cases "e_actor_type ev") (auto simp: resolve_event_identity_def Let_def)

lemma resolved_event_identity_witness:
  "\<exists>ev'. resolve_event_identity empty_db sample_principal sample_event = Inr ev'
     \<and> e_machine_id ev' = Some 10"
proof -
  obtain ev' where ev': "resolve_event_identity empty_db sample_principal sample_event = Inr ev'"
    by (simp add: resolve_event_identity_def sample_principal_def sample_event_def
        sample_machine_def has_project_access_def starts_with_def gate_defs Let_def)
  from resolved_event_identity [OF this] have "e_machine_id ev' = Some 10"
    by (simp add: sample_principal_def sample_machine_def)
  with ev' show ?thesis by blast
qed

text \<open>The realtime catch-up loses nothing and repeats nothing: without a limit
  cut, a consumer that resumes after the last \<open>seq\<close> it saw receives exactly the
  project's later events, so two consecutive reads concatenate to the whole history.\<close>

theorem catch_up_complete:
  assumes "has_project_access p pid" and "length (db_events d) \<le> limit"
  shows "\<exists>all old new. list_events_after d p pid None limit = Inr all
    \<and> list_events_after d p pid (Some s) limit = Inr new
    \<and> old = filter (\<lambda>(q, _). q \<le> s) all \<and> all = old @ new"
proof -
  let ?all = "filter (\<lambda>(q, e). e_project_id e = pid) (event_seqs d)"
  let ?new = "filter (\<lambda>(q, e). e_project_id e = pid \<and> s < q) (event_seqs d)"
  have "?all = filter (\<lambda>x. fst x \<le> s) ?all @ filter (\<lambda>x. s < fst x) ?all"
    by (intro filter_sorted_split sorted_wrt_filter event_seqs_sorted)
  moreover have "filter (\<lambda>x. s < fst x) ?all = ?new"
    and "filter (\<lambda>x. fst x \<le> s) ?all = filter (\<lambda>(q, _). q \<le> s) ?all"
    by (auto intro!: filter_cong)
  ultimately have "?all = filter (\<lambda>(q, _). q \<le> s) ?all @ ?new" by metis
  moreover have "length (filter Q (event_seqs d)) \<le> limit" for Q
    using length_filter_event_seqs assms(2) by (rule order_trans)
  then have "list_events_after d p pid None limit = Inr ?all"
    and "list_events_after d p pid (Some s) limit = Inr ?new"
    using assms(1) by (simp_all add: list_events_after_def)
  ultimately show ?thesis by blast
qed

lemma catch_up_complete_witness:
  "\<exists>all. list_events_after (empty_db\<lparr>db_events := [sample_event]\<rparr>) sample_principal 5 None 1
     = Inr all"
  using catch_up_complete
    [of sample_principal 5 "empty_db\<lparr>db_events := [sample_event]\<rparr>" 1 0]
  by (auto simp: sample_principal_def has_project_access_def empty_db_def)

end
