(* ===== verification/Versioning.thy ===== *)
theory Versioning
  imports Events
begin

section \<open>Optimistic concurrency as an interface\<close>

text \<open>
  Several services take an \<open>expected_version\<close>, compare it with the locked row and bump the
  version of the row they write. The interface \<open>versioned_write\<close> states that contract
  (\<open>VersionMixin\<close>: a stale write never silently overwrites); what follows from it for any
  interleaving of writers is proved once here and inherited by every service that
  interprets it. A client request is any value \<open>'q\<close>; requests of all clients reach the
  row one at a time, because every writer locks it (\<open>SELECT ... FOR UPDATE\<close>).
\<close>

locale versioned_write =
  fixes version_of :: "'s \<Rightarrow> uuid \<Rightarrow> int option"
    and attempt :: "'q \<Rightarrow> uuid \<Rightarrow> int \<Rightarrow> 's \<Rightarrow> ('s, 'a) outcome"
  assumes success_checks:
      "attempt q k v d = (d', Inr x) \<Longrightarrow> version_of d k = Some v \<and> version_of d' k = Some (v + 1)"
    and attempt_monotone:
      "attempt q k v d = (d', r) \<Longrightarrow> version_of d k = Some n \<Longrightarrow> \<exists>m \<ge> n. version_of d' k = Some m"
begin

fun run :: "uuid \<Rightarrow> ('q \<times> int) list \<Rightarrow> 's \<Rightarrow> 's \<times> int list" where
  "run k [] d = (d, [])"
| "run k ((q, v) # ws) d =
     (case attempt q k v d of
        (d', Inl e) \<Rightarrow> run k ws d'
      | (d', Inr x) \<Rightarrow> (case run k ws d' of (d'', vs) \<Rightarrow> (d'', v # vs)))"

lemma run_successes:
  assumes "version_of d k = Some n"
  shows "sorted_wrt (<) (snd (run k ws d)) \<and> (\<forall>v \<in> set (snd (run k ws d)). n \<le> v)"
  using assms
proof (induction ws arbitrary: d n)
  case (Cons w ws)
  obtain q v where w: "w = (q, v)" by (cases w)
  obtain d' r where att: "attempt q k v d = (d', r)" by (cases "attempt q k v d")
  show ?case
  proof (cases r)
    case (Inl e)
    from attempt_monotone [OF att Cons.prems] obtain m
      where "m \<ge> n" and "version_of d' k = Some m" by blast
    from Cons.IH [OF this(2)] \<open>m \<ge> n\<close> w att Inl show ?thesis by force
  next
    case (Inr x)
    from success_checks [of q k v d d' x] att Inr Cons.prems
    have "v = n" and "version_of d' k = Some (n + 1)" by auto
    from Cons.IH [OF this(2)] \<open>v = n\<close> w att Inr show ?thesis
      by (fastforce split: prod.splits)
  qed
qed simp

lemma no_lost_update:
  assumes "attempt q k v d = (d', Inr x)"
  shows "\<not> (\<exists>d'' y. attempt q' k v d' = (d'', Inr y))"
  using success_checks [OF assms] success_checks [of q' k v d'] by force

lemma one_success_per_version:
  assumes "version_of d k = Some n"
  shows "distinct (snd (run k ws d))"
  using run_successes [OF assms] by (metis strict_sorted_iff)

end

end
