(* ===== verification/Tasks.thy ===== *)
theory Tasks
  imports Versioning "HOL-Library.Multiset" "HOL-Library.Product_Lexorder"
begin

section \<open>Tasks (\<open>services/tasks.py\<close>)\<close>

text \<open>
  The unit of work of the platform: creation, versioned update, exclusive claim and release,
  each committed atomically with its event. A handler receives the row the caller read
  (\<open>task\<close>) and re-reads it under \<open>FOR UPDATE\<close> (\<open>refresh\<close>), so a row that moved in
  between is seen; a vanished row makes \<open>session.refresh\<close> raise. \<open>now\<close> is the instant of the
  request and \<open>eid\<close> the fresh id of its event.
\<close>

definition refresh_error :: http_error where
  "refresh_error = HTTPException 500 (JText ''Could not refresh instance'')"

definition version_conflict :: "int \<Rightarrow> http_error" where
  "version_conflict server_version =
     HTTPException 409 (JObj [(''error_code'', JText ''version_conflict''),
       (''server_version'', JInt server_version)])"

definition already_claimed :: http_error where
  "already_claimed = HTTPException 409 (JObj [(''error_code'', JText ''already_claimed'')])"

fun status_event_type :: "task_status \<Rightarrow> event_type" where
  "status_event_type TaskStatus_IN_PROGRESS = TASK_STARTED"
| "status_event_type TaskStatus_BLOCKED = TASK_BLOCKED"
| "status_event_type TaskStatus_COMPLETED = TASK_COMPLETED"
| "status_event_type TaskStatus_CREATED = TASK_UPDATED"

definition list_tasks ::
  "db \<Rightarrow> principal \<Rightarrow> uuid option \<Rightarrow> nat \<Rightarrow> nat \<Rightarrow> task_status list \<Rightarrow> bool
     \<Rightarrow> task_row list fallible" where
  "list_tasks d p project_id limit offset statuses mine =
     (let ordered = sort_key (\<lambda>t. (- t_updated_at t, t_id t)) (db_tasks d);
          owned = set (map m_id (filter (\<lambda>m. m_owner_user_id m = u_id (p_user p)) (db_machines d)));
          wanted = (\<lambda>t. (statuses = [] \<or> t_status t \<in> set statuses)
             \<and> (mine \<longrightarrow> (\<exists>m \<in> owned. t_claimed_by_machine_id t = Some m)));
          page = (\<lambda>rows. take limit (drop offset rows))
      in case project_id of
           Some pid \<Rightarrow>
             and_then (ensure_project_access p pid ReadAction)
               (Inr (page (filter (\<lambda>t. t_project_id t = pid \<and> wanted t) ordered)))
         | None \<Rightarrow>
             Inr (page (filter wanted (where_clause (project_clause_of t_project_id p) ordered))))"

definition read_task :: "db \<Rightarrow> principal \<Rightarrow> uuid \<Rightarrow> task_row option fallible" where
  "read_task d p task_id =
     (case get_task_row d task_id of
        None \<Rightarrow> Inr None
      | Some t \<Rightarrow> and_then (ensure_project_access p (t_project_id t) ReadAction) (Inr (Some t)))"

definition authorize_create_task :: "principal \<Rightarrow> uuid \<Rightarrow> unit fallible" where
  "authorize_create_task p project_id =
     and_then (ensure_project_access p project_id WriteAction) (ensure_can_write p ''task'')"

definition event_actor :: "db \<Rightarrow> principal \<Rightarrow> uuid option \<Rightarrow> actor_type \<times> uuid" where
  "event_actor d p agent_id =
     (case agent_id of
        None \<Rightarrow> (Actor_user, u_id (p_user p))
      | Some i \<Rightarrow>
          (case tbl_get a_id (db_agents d) i of
             Some a \<Rightarrow> if owns_agent (Some a) (p_machine p) then (Actor_agent, a_id a)
                        else (Actor_user, u_id (p_user p))
           | None \<Rightarrow> (Actor_user, u_id (p_user p))))"

definition task_event ::
  "db \<Rightarrow> principal \<Rightarrow> timestamp \<Rightarrow> uuid \<Rightarrow> task_row \<Rightarrow> event_type \<Rightarrow> (string \<times> jval) list
     \<Rightarrow> uuid option \<Rightarrow> event_row" where
  "task_event d p now eid task event_type payload agent_id =
     (case event_actor d p agent_id of (actor_type, actor_id) \<Rightarrow>
        \<lparr>e_id = Uuid4 eid, e_type = event_type, e_project_id = t_project_id task,
         e_task_id = Some (t_id task), e_machine_id = Some (m_id (p_machine p)),
         e_actor_type = actor_type, e_actor_id = actor_id, e_client_timestamp = now,
         e_payload = [(''status'', JText (task_status_value (t_status task))),
                      (''version'', JInt (t_version task))] @ payload\<rparr>)"

definition task_commit_with_event ::
  "db \<Rightarrow> principal \<Rightarrow> timestamp \<Rightarrow> uuid \<Rightarrow> task_row \<Rightarrow> event_type \<Rightarrow> (string \<times> jval) list
     \<Rightarrow> uuid option \<Rightarrow> (db, task_row) outcome" where
  "task_commit_with_event d p now eid task event_type payload agent_id =
     (let (d1, ev) = stage_event (put_task task d)
            (task_event d p now eid task event_type payload agent_id)
      in (publish_event ev d1, Inr task))"

definition create_task ::
  "db \<Rightarrow> principal \<Rightarrow> timestamp \<Rightarrow> uuid \<Rightarrow> uuid \<Rightarrow> uuid \<Rightarrow> string \<Rightarrow> string option
     \<Rightarrow> (db, task_row) outcome" where
  "create_task d p now new_id eid project_id title description =
     guarded (authorize_create_task p project_id) d
          (let task = \<lparr>t_id = new_id, t_project_id = project_id, t_title = title,
                 t_description = description, t_status = TaskStatus_CREATED,
                 t_claimed_by_machine_id = None, t_claimed_by_agent_id = None,
                 t_version = 1, t_updated_at = now, t_handoff_cursor_seq = None\<rparr>
           in task_commit_with_event d p now eid task TASK_CREATED
                [(''transition'', JText ''created'')] None)"

record task_update =
  tu_title :: "string option"
  tu_description :: "string option"
  tu_status :: "task_status option"

definition apply_task_update :: "task_update \<Rightarrow> task_row \<Rightarrow> task_row" where
  "apply_task_update u t =
     (let t1 = (case tu_title u of None \<Rightarrow> t | Some v \<Rightarrow> t\<lparr>t_title := v\<rparr>);
          t2 = (case tu_description u of None \<Rightarrow> t1 | Some v \<Rightarrow> t1\<lparr>t_description := Some v\<rparr>);
          t3 = (case tu_status u of None \<Rightarrow> t2 | Some v \<Rightarrow> t2\<lparr>t_status := v\<rparr>)
      in t3\<lparr>t_version := t_version t3 + 1\<rparr>)"

definition updated_event_type :: "task_status \<Rightarrow> task_status \<Rightarrow> event_type" where
  "updated_event_type previous_status status =
     (if status \<noteq> previous_status then status_event_type status else TASK_UPDATED)"

definition update_task ::
  "db \<Rightarrow> principal \<Rightarrow> timestamp \<Rightarrow> uuid \<Rightarrow> task_row \<Rightarrow> task_update \<Rightarrow> int
     \<Rightarrow> (db, task_row) outcome" where
  "update_task d p now eid task task_in expected_version =
     guarded (and_then (ensure_project_access p (t_project_id task) WriteAction)
             (ensure_can_write p ''task'')) d
          (case get_task_row d (t_id task) of
             None \<Rightarrow> (d, Inl refresh_error)
           | Some t \<Rightarrow>
               if t_version t \<noteq> expected_version then (d, Inl (version_conflict (t_version t)))
               else
                 (let previous_status = t_status t;
                      t' = (apply_task_update task_in t)\<lparr>t_updated_at := now\<rparr>;
                      event_type = updated_event_type previous_status (t_status t')
                  in task_commit_with_event d p now eid t' event_type
                       [(''transition'', JText ''updated''),
                        (''previous_status'', JText (task_status_value previous_status))]
                       (t_claimed_by_agent_id t')))"

definition authorize_claim :: "principal \<Rightarrow> task_row \<Rightarrow> unit fallible" where
  "authorize_claim p task =
     and_then (ensure_project_access p (t_project_id task) WriteAction)
       (ensure_can_write p ''task'')"

definition claim_task ::
  "db \<Rightarrow> principal \<Rightarrow> timestamp \<Rightarrow> uuid \<Rightarrow> task_row \<Rightarrow> uuid \<Rightarrow> uuid option
     \<Rightarrow> (db, task_row) outcome" where
  "claim_task d p now eid task machine_id agent_id =
     guarded (authorize_claim p task) d
          (case get_task_row d (t_id task) of
             None \<Rightarrow> (d, Inl refresh_error)
           | Some t \<Rightarrow>
               if t_claimed_by_machine_id t \<noteq> None
                  \<and> (t_claimed_by_machine_id t \<noteq> Some machine_id
                     \<or> t_claimed_by_agent_id t \<noteq> agent_id)
               then (d, Inl already_claimed)
               else if t_status t = TaskStatus_IN_PROGRESS
                  \<and> t_claimed_by_machine_id t = Some machine_id
                  \<and> t_claimed_by_agent_id t = agent_id
               then (d, Inr t)
               else
                 task_commit_with_event d p now eid
                   (t\<lparr>t_claimed_by_machine_id := Some machine_id, t_claimed_by_agent_id := agent_id,
                      t_status := TaskStatus_IN_PROGRESS, t_version := t_version t + 1,
                      t_updated_at := now\<rparr>)
                   TASK_STARTED
                   [(''transition'', JText ''claimed''),
                    (''previous_status'', JText (task_status_value (t_status t)))]
                   agent_id)"

definition release_task ::
  "db \<Rightarrow> principal \<Rightarrow> timestamp \<Rightarrow> uuid \<Rightarrow> task_row \<Rightarrow> int option \<Rightarrow> (db, task_row) outcome" where
  "release_task d p now eid task expected_version =
     guarded (and_then (ensure_project_access p (t_project_id task) WriteAction)
             (ensure_machine_owned p (t_claimed_by_machine_id task) ''task'' ''release'')) d
          (case get_task_row d (t_id task) of
             None \<Rightarrow> (d, Inl refresh_error)
           | Some t \<Rightarrow>
               guarded (ensure_machine_owned p (t_claimed_by_machine_id t) ''task'' ''release'') d
                    (if expected_version \<noteq> None \<and> expected_version \<noteq> Some (t_version t)
                    then (d, Inl (version_conflict (t_version t)))
                    else
                      task_commit_with_event d p now eid
                        (t\<lparr>t_claimed_by_machine_id := None, t_claimed_by_agent_id := None,
                           t_version := t_version t + 1, t_updated_at := now\<rparr>)
                        TASK_UPDATED [(''transition'', JText ''released'')]
                        (t_claimed_by_agent_id t)))"

subsection \<open>Laws of the handlers\<close>

lemma task_commit_unfold:
  "task_commit_with_event d p now eid t ty pl ag =
     (publish_event (snd (stage_event (put_task t d) (task_event d p now eid t ty pl ag)))
        (fst (stage_event (put_task t d) (task_event d p now eid t ty pl ag))), Inr t)"
  by (simp add: task_commit_with_event_def case_prod_beta)

lemma task_commit_result [simp]:
  "snd (task_commit_with_event d p now eid t ty pl ag) = Inr t"
  "get_task_row (fst (task_commit_with_event d p now eid t ty pl ag)) k =
     (if k = t_id t then Some t else get_task_row d k)"
  by (simp_all add: task_commit_unfold)

lemma task_commit_frame [simp, frame_simps]:
  "db_claims (fst (task_commit_with_event d p now eid t ty pl ag)) = db_claims d"
  "db_launches (fst (task_commit_with_event d p now eid t ty pl ag)) = db_launches d"
  "db_agents (fst (task_commit_with_event d p now eid t ty pl ag)) = db_agents d"
  by (simp_all add: task_commit_unfold)

lemma find_event_put_task [simp]: "find_event (put_task t d) i = find_event d i"
  by (simp add: find_event_def)

lemma task_commit_events:
  "find_event d (Uuid4 eid) = None \<Longrightarrow>
     db_events (fst (task_commit_with_event d p now eid t ty pl ag)) =
       db_events d @ [task_event d p now eid t ty pl ag]"
  by (simp add: task_commit_unfold stage_event_events)
    (simp add: task_event_def split: prod.split)

lemma task_commit_eq:
  "task_commit_with_event d p now eid t ty pl ag =
     (fst (task_commit_with_event d p now eid t ty pl ag), Inr t)"
  by (metis prod.collapse task_commit_result(1))

lemma apply_task_update_simps [simp]:
  "t_id (apply_task_update u t) = t_id t" "t_project_id (apply_task_update u t) = t_project_id t"
  "t_version (apply_task_update u t) = t_version t + 1"
  "t_claimed_by_machine_id (apply_task_update u t) = t_claimed_by_machine_id t"
  "t_claimed_by_agent_id (apply_task_update u t) = t_claimed_by_agent_id t"
  by (simp_all add: apply_task_update_def Let_def split: option.splits)

lemma get_task_row_id: "get_task_row d k = Some t \<Longrightarrow> t_id t = k"
  unfolding get_task_row_def by (rule tbl_get_key)

text \<open>Each handler either returns the database as it was or commits one row with one event.\<close>

lemma task_commit_pair:
  "task_commit_with_event d p now eid t ty pl ag = (d', r) \<longleftrightarrow>
     d' = fst (task_commit_with_event d p now eid t ty pl ag) \<and> r = Inr t"
  by (metis fst_conv prod.collapse snd_conv task_commit_result(1))

definition task_event_types :: "event_type set" where
  "task_event_types =
     {TASK_CREATED, TASK_STARTED, TASK_BLOCKED, TASK_COMPLETED, TASK_UPDATED}"

lemma task_event_types_simps [simp]:
  "TASK_CREATED \<in> task_event_types" "TASK_STARTED \<in> task_event_types"
  "TASK_BLOCKED \<in> task_event_types" "TASK_COMPLETED \<in> task_event_types"
  "TASK_UPDATED \<in> task_event_types"
  by (simp_all add: task_event_types_def)

lemma status_event_type_task [simp]: "status_event_type s \<in> task_event_types"
  by (cases s) (simp_all add: task_event_types_def)

lemma updated_event_type_task [simp]: "updated_event_type s s' \<in> task_event_types"
  by (simp add: updated_event_type_def)

lemma create_task_cases:
  assumes "create_task d p now nid eid pid title descr = (d', r)"
  shows "(d' = d \<and> (\<exists>e. r = Inl e)) \<or>
    (\<exists>t pl. t_id t = nid \<and> t_project_id t = pid \<and> t_version t = 1
       \<and> t_status t = TaskStatus_CREATED \<and> t_claimed_by_machine_id t = None \<and> r = Inr t
       \<and> has_project_access p pid \<and> p_role p \<noteq> Role_READONLY
       \<and> d' = fst (task_commit_with_event d p now eid t TASK_CREATED pl None))"
  using assms
  by (auto simp: create_task_def guarded_eq_pair task_commit_pair authorize_create_task_def Let_def)

lemma update_task_cases:
  assumes "update_task d p now eid task u v = (d', r)"
  shows "(d' = d \<and> (\<exists>e. r = Inl e)) \<or>
    (\<exists>t t' ty pl. get_task_row d (t_id task) = Some t \<and> t_id t = t_id task \<and> t_version t = v
       \<and> t' = (apply_task_update u t)\<lparr>t_updated_at := now\<rparr> \<and> r = Inr t'
       \<and> ty \<in> task_event_types
       \<and> d' = fst (task_commit_with_event d p now eid t' ty pl (t_claimed_by_agent_id t'))
       \<and> has_project_access p (t_project_id task) \<and> p_role p \<noteq> Role_READONLY)"
  using assms
  by (auto simp: update_task_def guarded_eq_pair task_commit_pair Let_def get_task_row_id
      intro!: updated_event_type_task split: option.splits if_splits)

lemma claim_task_cases:
  assumes "claim_task d p now eid task m a = (d', r)"
  shows "(d' = d \<and> (\<exists>e. r = Inl e)) \<or>
    (\<exists>t. get_task_row d (t_id task) = Some t \<and> t_id t = t_id task \<and> d' = d \<and> r = Inr t
       \<and> t_status t = TaskStatus_IN_PROGRESS \<and> t_claimed_by_machine_id t = Some m
       \<and> t_claimed_by_agent_id t = a) \<or>
    (\<exists>t t' pl. get_task_row d (t_id task) = Some t \<and> t_id t = t_id task
       \<and> (t_claimed_by_machine_id t = None
           \<or> t_claimed_by_machine_id t = Some m \<and> t_claimed_by_agent_id t = a)
       \<and> t' = t\<lparr>t_claimed_by_machine_id := Some m, t_claimed_by_agent_id := a,
              t_status := TaskStatus_IN_PROGRESS, t_version := t_version t + 1,
              t_updated_at := now\<rparr> \<and> r = Inr t'
       \<and> d' = fst (task_commit_with_event d p now eid t' TASK_STARTED pl a))"
  using assms
  by (auto simp: claim_task_def guarded_eq_pair task_commit_pair get_task_row_id
      split: option.splits if_splits)

lemma release_task_cases:
  assumes "release_task d p now eid task v = (d', r)"
  shows "(d' = d \<and> (\<exists>e. r = Inl e)) \<or>
    (\<exists>t t' pl ag. get_task_row d (t_id task) = Some t \<and> t_id t = t_id task
       \<and> t' = t\<lparr>t_claimed_by_machine_id := None, t_claimed_by_agent_id := None,
              t_version := t_version t + 1, t_updated_at := now\<rparr> \<and> r = Inr t'
       \<and> (v = None \<or> v = Some (t_version t))
       \<and> (p_role p = Role_ADMIN \<or> t_claimed_by_machine_id t = None
           \<or> t_claimed_by_machine_id t = Some (m_id (p_machine p)))
       \<and> d' = fst (task_commit_with_event d p now eid t' TASK_UPDATED pl ag))"
  using assms
  by (auto simp: release_task_def guarded_eq_pair task_commit_pair ensure_machine_owned_iff get_task_row_id
      split: option.splits if_splits)

subsection \<open>Updates honour the version contract\<close>

definition task_version_of :: "db \<Rightarrow> uuid \<Rightarrow> int option" where
  "task_version_of d k = map_option t_version (get_task_row d k)"

type_synonym task_patch = "principal \<times> timestamp \<times> uuid \<times> task_row \<times> task_update"

definition attempt_update :: "task_patch \<Rightarrow> uuid \<Rightarrow> int \<Rightarrow> db \<Rightarrow> (db, task_row) outcome" where
  "attempt_update q k v d =
     (case q of (p, now, eid, task, u) \<Rightarrow> update_task d p now eid (task\<lparr>t_id := k\<rparr>) u v)"

interpretation task_updates: versioned_write task_version_of attempt_update
proof
  fix q k v d d' and x :: task_row
  assume "attempt_update q k v d = (d', Inr x)"
  then obtain p now eid task u where
    "update_task d p now eid (task\<lparr>t_id := k\<rparr>) u v = (d', Inr x)"
    by (cases q) (auto simp: attempt_update_def)
  from update_task_cases [OF this]
  show "task_version_of d k = Some v \<and> task_version_of d' k = Some (v + 1)"
    by (auto simp: task_version_of_def dest: get_task_row_id)
next
  fix q k v d d' n and r :: "task_row fallible"
  assume att: "attempt_update q k v d = (d', r)" and n: "task_version_of d k = Some n"
  from att obtain p now eid task u where
    "update_task d p now eid (task\<lparr>t_id := k\<rparr>) u v = (d', r)"
    by (cases q) (auto simp: attempt_update_def)
  from update_task_cases [OF this] n show "\<exists>m \<ge> n. task_version_of d' k = Some m"
    by (auto simp: task_version_of_def dest: get_task_row_id)
qed

text \<open>No lost update on tasks: among any sequence of updates of one task, from any
  clients and with any patches, at most one succeeds per expected version, and the versions
  that succeed are strictly increasing.\<close>

theorem task_no_lost_update:
  assumes "task_version_of d k = Some n"
  shows "sorted_wrt (<) (snd (versioned_write.run attempt_update k ws d))"
  using task_updates.run_successes [OF assms] by blast

definition sample_task :: task_row where
  "sample_task = \<lparr>t_id = 30, t_project_id = 5, t_title = ''Ship'', t_description = None,
     t_status = TaskStatus_CREATED, t_claimed_by_machine_id = None,
     t_claimed_by_agent_id = None, t_version = 1, t_updated_at = 0, t_handoff_cursor_seq = None\<rparr>"

definition sample_db :: db where
  "sample_db = empty_db\<lparr>db_tasks := [sample_task]\<rparr>"

lemma task_no_lost_update_witness:
  "sorted_wrt (<) (snd (versioned_write.run attempt_update 30
     [((sample_principal, 1, 901, sample_task, \<lparr>tu_title = Some ''A'', tu_description = None,
         tu_status = None\<rparr>), 1),
      ((sample_principal, 2, 902, sample_task, \<lparr>tu_title = Some ''B'', tu_description = None,
         tu_status = None\<rparr>), 1)] sample_db))"
  by (rule task_no_lost_update [where n = 1])
    (simp add: task_version_of_def get_task_row_def sample_db_def sample_task_def)

subsection \<open>Claims are exclusive\<close>

text \<open>Property C11. A claimed task is held exclusively: once a claim by a machine and agent has
  succeeded, the same claim replayed answers the same row and writes nothing (no version
  bump, no second event), and a claim by any other holder is refused with
  \<open>already_claimed\<close> and writes nothing.\<close>

theorem task_claim_exclusive:
  assumes "claim_task d p now eid task m a = (d', Inr t)"
    and "t_id task' = t_id task" and "authorize_claim p' task' = Inr ()"
  shows "claim_task d' p' now' eid' task' m' a' =
    (d', if m' = m \<and> a' = a then Inr t else Inl already_claimed)"
proof -
  have "get_task_row d' (t_id task) = Some t \<and> t_status t = TaskStatus_IN_PROGRESS
      \<and> t_claimed_by_machine_id t = Some m \<and> t_claimed_by_agent_id t = a"
    using claim_task_cases [OF assms(1)] by (auto dest: get_task_row_id)
  then show ?thesis
    using assms(2,3) by (auto simp: claim_task_def)
qed

lemma task_claim_exclusive_witness:
  "\<exists>d' t. claim_task sample_db sample_principal 1 901 sample_task 10 None = (d', Inr t)
     \<and> claim_task d' sample_principal 2 902 sample_task 11 None = (d', Inl already_claimed)"
proof -
  obtain d' t where c: "claim_task sample_db sample_principal 1 901 sample_task 10 None = (d', Inr t)"
    by (simp add: claim_task_def authorize_claim_def sample_principal_def has_project_access_def
        sample_task_def sample_db_def get_task_row_def task_commit_unfold gate_defs
        )
  have "authorize_claim sample_principal sample_task = Inr ()"
    by (simp add: authorize_claim_def sample_principal_def has_project_access_def sample_task_def)
  from task_claim_exclusive [OF c refl this, of 2 902 11 None] c show ?thesis by auto
qed

subsection \<open>Task requests as steps\<close>

text \<open>One request of any client. Fresh identifiers are premises: \<open>uuid4\<close> never repeats an id
  in use.\<close>

inductive task_step :: "db \<Rightarrow> db \<Rightarrow> bool" where
  created: "create_task d p now nid eid pid title descr = (d', r) \<Longrightarrow>
    find_event d (Uuid4 eid) = None \<Longrightarrow> get_task_row d nid = None \<Longrightarrow> task_step d d'"
| updated: "update_task d p now eid task u v = (d', r) \<Longrightarrow>
    find_event d (Uuid4 eid) = None \<Longrightarrow> task_step d d'"
| claimed: "claim_task d p now eid task m a = (d', r) \<Longrightarrow>
    find_event d (Uuid4 eid) = None \<Longrightarrow> task_step d d'"
| released: "release_task d p now eid task w = (d', r) \<Longrightarrow>
    find_event d (Uuid4 eid) = None \<Longrightarrow> task_step d d'"

text \<open>What every step amounts to: nothing, or one row written together with its event.\<close>

definition task_write :: "db \<Rightarrow> task_row \<Rightarrow> event_row \<Rightarrow> db \<Rightarrow> bool" where
  "task_write d t ev d' \<longleftrightarrow>
     (\<forall>k. get_task_row d' k = (if k = t_id t then Some t else get_task_row d k))
     \<and> db_events d' = db_events d @ [ev]
     \<and> t_version t = (case get_task_row d (t_id t) of None \<Rightarrow> 1 | Some s \<Rightarrow> t_version s + 1)
     \<and> e_task_id ev = Some (t_id t)
     \<and> e_type ev \<in> task_event_types
     \<and> map_of (e_payload ev) ''version'' = Some (JInt (t_version t))"

lemma task_commit_write:
  assumes "find_event d (Uuid4 eid) = None"
    and "t_version t = (case get_task_row d (t_id t) of None \<Rightarrow> 1 | Some s \<Rightarrow> t_version s + 1)"
    and "ty \<in> task_event_types"
  shows "task_write d t (task_event d p now eid t ty pl ag)
    (fst (task_commit_with_event d p now eid t ty pl ag))"
  using assms
  by (auto simp: task_write_def task_commit_events task_event_def split: prod.splits)

lemma task_step_write:
  assumes "task_step d d'"
  shows "d' = d \<or> (\<exists>t ev. task_write d t ev d')"
  using assms
proof cases
  case (created p now nid eid pid title descr r)
  from create_task_cases [OF created(1)] created(2,3) show ?thesis
    by (fastforce intro: task_commit_write)
next
  case (updated p now eid task u v r)
  from update_task_cases [OF updated(1)] updated(2) show ?thesis
    by (fastforce intro: task_commit_write)
next
  case (claimed p now eid task m a r)
  from claim_task_cases [OF claimed(1)] claimed(2) show ?thesis
    by (fastforce intro: task_commit_write)
next
  case (released p now eid task w r)
  from release_task_cases [OF released(1)] released(2) show ?thesis
    by (fastforce intro: task_commit_write)
qed

inductive task_reachable :: "db \<Rightarrow> bool" where
  start: "db_tasks d = [] \<Longrightarrow> db_events d = [] \<Longrightarrow> task_reachable d"
| step: "task_reachable d \<Longrightarrow> task_step d d' \<Longrightarrow> task_reachable d'"

text \<open>The versions the log records for a task, oldest first.\<close>

definition logged_versions :: "db \<Rightarrow> uuid \<Rightarrow> jval list" where
  "logged_versions d k =
     map (\<lambda>e. case map_of (e_payload e) ''version'' of None \<Rightarrow> JNull | Some v \<Rightarrow> v)
       (filter (\<lambda>e. e_task_id e = Some k
          \<and> e_type e \<in> task_event_types)
          (db_events d))"

definition audit_complete :: "db \<Rightarrow> bool" where
  "audit_complete d \<longleftrightarrow>
     (\<forall>k. logged_versions d k =
        (case get_task_row d k of None \<Rightarrow> [] | Some t \<Rightarrow> map JInt [1..t_version t])
      \<and> (\<forall>t. get_task_row d k = Some t \<longrightarrow> 1 \<le> t_version t))"

lemma task_write_audit: "task_write d t ev d' \<Longrightarrow> audit_complete d \<Longrightarrow> audit_complete d'"
  by (fastforce simp: audit_complete_def task_write_def logged_versions_def upto_rec2
      split: option.splits)



text \<open>Only the holding machine or an admin takes a task away from its holder: if a
  request changes the machine holding a task, that request is a release by an admin or by a
  principal of the holding machine itself.\<close>

theorem task_holder_protected:
  assumes "get_task_row d k = Some t" and "t_claimed_by_machine_id t = Some h"
    and "get_task_row d' k = Some t'" and "t_claimed_by_machine_id t' \<noteq> Some h"
  shows "update_task d p now eid task u v \<noteq> (d', r)
    \<and> claim_task d p now eid task m a \<noteq> (d', r)
    \<and> (release_task d p now eid task w = (d', r) \<longrightarrow>
         p_role p = Role_ADMIN \<or> m_id (p_machine p) = h)"
proof (intro conjI impI notI)
  assume "update_task d p now eid task u v = (d', r)"
  from update_task_cases [OF this] assms show False
    by (auto split: if_splits)
next
  assume "claim_task d p now eid task m a = (d', r)"
  from claim_task_cases [OF this] assms show False
    by (auto split: if_splits)
next
  assume "release_task d p now eid task w = (d', r)"
  from release_task_cases [OF this] assms show "p_role p = Role_ADMIN \<or> m_id (p_machine p) = h"
    by (auto split: if_splits)
qed

lemma task_holder_protected_witness:
  "\<exists>d d' t t'. get_task_row d 30 = Some t \<and> t_claimed_by_machine_id t = Some 10
     \<and> get_task_row d' 30 = Some t' \<and> t_claimed_by_machine_id t' \<noteq> Some 10
     \<and> release_task d sample_principal 1 901 t None = (d', Inr t')
     \<and> m_id (p_machine sample_principal) = 10"
proof -
  let ?t = "sample_task\<lparr>t_claimed_by_machine_id := Some 10\<rparr>"
  let ?d = "empty_db\<lparr>db_tasks := [?t]\<rparr>"
  let ?r = "release_task ?d sample_principal 1 901 ?t None"
  obtain t' where r: "snd ?r = Inr t'" and g: "get_task_row (fst ?r) 30 = Some t'"
    and n: "t_claimed_by_machine_id t' = None"
    by (simp add: release_task_def sample_principal_def sample_machine_def has_project_access_def
        gate_defs get_task_row_def sample_task_def task_commit_unfold)
      (simp add: stage_event_def insert_and_notify_def publish_event_def put_task_def empty_db_def
        find_event_def)
  have d: "get_task_row ?d 30 = Some ?t" by (simp add: get_task_row_def sample_task_def)
  have "p_role sample_principal = Role_ADMIN \<or> m_id (p_machine sample_principal) = 10"
    using task_holder_protected [OF d _ g, of 10 sample_principal 1 901 ?t _ 0 "snd ?r" 0 None None] n
    by (simp add: prod_eq_iff)
  then have "m_id (p_machine sample_principal) = 10" by (simp add: sample_principal_def)
  with d r g n show ?thesis
    by (intro exI [of _ ?d] exI [of _ "fst ?r"] exI [of _ ?t] exI [of _ t'])
      (simp add: prod_eq_iff)
qed

subsection \<open>Listing is stable\<close>

text \<open>The task list does not depend on the physical row order: two tables with the
  same rows (ids being unique) give the same page for every filter, limit and offset, so
  consecutive pages never skip or repeat a row.\<close>

theorem list_tasks_order_independent:
  assumes "tbl_wf t_id rows" and "mset rows' = mset rows"
  shows "list_tasks (d\<lparr>db_tasks := rows'\<rparr>) p pid limit offset sts mine =
         list_tasks (d\<lparr>db_tasks := rows\<rparr>) p pid limit offset sts mine"
proof -
  let ?k = "\<lambda>t. (- t_updated_at t, t_id t)"
  have "inj_on ?k (set rows')"
    using assms by (auto simp: tbl_wf_def distinct_map inj_on_def dest!: mset_eq_setD)
  then have "sort_key ?k rows' = sort_key ?k rows"
    using assms(2) by (intro sort_key_inj_key_eq) simp_all
  then show ?thesis by (simp add: list_tasks_def)
qed

lemma list_tasks_order_independent_witness:
  "list_tasks (empty_db\<lparr>db_tasks := [sample_task, sample_task\<lparr>t_id := 31\<rparr>]\<rparr>)
     sample_principal (Some 5) 1 1 [] False =
   list_tasks (empty_db\<lparr>db_tasks := [sample_task\<lparr>t_id := 31\<rparr>, sample_task]\<rparr>)
     sample_principal (Some 5) 1 1 [] False"
  by (rule list_tasks_order_independent) (simp_all add: tbl_wf_def sample_task_def)

end
