(* ===== verification/Roadmap_Graph.thy ===== *)
theory Roadmap_Graph
  imports Studio_Prelude
begin

section \<open>The dependency-cycle rule (\<open>studio_contracts/roadmaps.py\<close>)\<close>

text \<open>
  \<open>find_dependency_cycle\<close> is the anti-cycle rule shared by document validation and by the
  edits of a persisted plan: an iterative, colour-marking depth-first search over the step
  keys. A Python \<open>dict\<close> is an association list with distinct keys (\<open>edges\<close>), a colour is
  0 (unseen), 1 (on the current path) or 2 (done). The interface \<open>cycle_detector\<close> states
  what callers may rely on; the search is proved to meet it.
\<close>

type_synonym 'k edges = "('k \<times> 'k list) list"

definition targets :: "('k :: linorder) edges \<Rightarrow> 'k \<Rightarrow> 'k list" where
  "targets edges node = (case map_of edges node of None \<Rightarrow> [] | Some ts \<Rightarrow> sort ts)"

definition has_key :: "'k edges \<Rightarrow> 'k \<Rightarrow> bool" where
  "has_key edges k \<longleftrightarrow> map_of edges k \<noteq> None"

definition index_of :: "'k \<Rightarrow> 'k list \<Rightarrow> nat" where
  "index_of x xs = length (takeWhile (\<lambda>y. y \<noteq> x) xs)"

subsection \<open>The search loop\<close>

text \<open>
  One iteration of the inner \<open>while stack\<close>. The stack is a list with its top first, the
  path a list in push order. A node is coloured and appended when it is first popped
  (index 0), a successor on the path closes a cycle, an unseen successor is pushed, and an
  exhausted node is coloured done and leaves the path.
\<close>

type_synonym 'k search = "('k \<Rightarrow> nat) \<times> ('k \<times> nat) list \<times> 'k list"

definition unseen_keys :: "'k edges \<Rightarrow> ('k \<Rightarrow> nat) \<Rightarrow> 'k set" where
  "unseen_keys edges color = {k \<in> fst ` set edges. color k = 0}"

definition fresh_top :: "'k edges \<Rightarrow> ('k \<Rightarrow> nat) \<Rightarrow> ('k \<times> nat) list \<Rightarrow> bool" where
  "fresh_top edges color stack \<longleftrightarrow>
     (case stack of [] \<Rightarrow> False | (n, i) # _ \<Rightarrow> i = 0 \<and> n \<in> unseen_keys edges color)"

definition work_left :: "('k :: linorder) edges \<Rightarrow> ('k \<times> nat) list \<Rightarrow> nat" where
  "work_left edges stack = sum_list (map (\<lambda>(n, i). Suc (length (targets edges n) - i)) stack)"

lemma finite_unseen_keys [simp]: "finite (unseen_keys edges color)"
  by (simp add: unseen_keys_def)

lemma unseen_keys_mark:
  "c \<noteq> 0 \<Longrightarrow> unseen_keys edges (color(n := c)) = unseen_keys edges color - {n}"
  by (auto simp: unseen_keys_def)

lemma card_unseen_keys_mark:
  "n \<in> unseen_keys edges color \<Longrightarrow> c \<noteq> 0 \<Longrightarrow>
     card (unseen_keys edges (color(n := c))) < card (unseen_keys edges color)"
  unfolding unseen_keys_mark by (rule psubset_card_mono) auto

function cycle_search ::
  "('k :: linorder) edges \<Rightarrow> ('k \<Rightarrow> nat) \<Rightarrow> ('k \<times> nat) list \<Rightarrow> 'k list
     \<Rightarrow> 'k list + ('k \<Rightarrow> nat)" where
  "cycle_search edges color [] path = Inr color"
| "cycle_search edges color ((node, index) # stack) path =
     (if index = 0 \<and> color node = 2 then cycle_search edges color stack path
      else
        (let color1 = (if index = 0 then color(node := 1) else color);
             path1 = (if index = 0 then path @ [node] else path);
             ts = targets edges node
         in if index < length ts then
              (let target = ts ! index; state = color1 target
               in if state = 1 then Inl (drop (index_of target path1) path1 @ [target])
                  else if state = 0 \<and> has_key edges target
                  then cycle_search edges color1 ((target, 0) # (node, Suc index) # stack) path1
                  else cycle_search edges color1 ((node, Suc index) # stack) path1)
            else cycle_search edges (color1(node := 2)) stack (butlast path1)))"
  by pat_completeness auto

termination
proof (relation "measures
    [\<lambda>(edges, color, stack, path). card (unseen_keys edges color),
     \<lambda>(edges, color, stack, path). if fresh_top edges color stack then 0 else 1,
     \<lambda>(edges, color, stack, path). work_left edges stack]", goal_cases)
  case (2 edges color node index stack path)
  then show ?case by (auto simp: fresh_top_def unseen_keys_def work_left_def)
next
  case (3 edges color node index stack path color1 path1 ts target state)
  show ?case
  proof (cases "index = 0 \<and> node \<in> unseen_keys edges color")
    case True
    with 3 show ?thesis by (simp add: card_unseen_keys_mark)
  next
    case False
    then have "unseen_keys edges color1 = unseen_keys edges color"
      using 3 by (auto simp: unseen_keys_mark)
    moreover have "target \<in> unseen_keys edges color1"
      using 3 by (auto simp: unseen_keys_def has_key_def map_of_eq_None_iff)
    ultimately show ?thesis using False by (auto simp: fresh_top_def)
  qed
next
  case (4 edges color node index stack path color1 path1 ts target state)
  show ?case
  proof (cases "index = 0 \<and> node \<in> unseen_keys edges color")
    case True
    with 4 show ?thesis by (simp add: card_unseen_keys_mark)
  next
    case False
    then have "unseen_keys edges color1 = unseen_keys edges color"
      using 4 by (auto simp: unseen_keys_mark)
    then show ?thesis using False 4 by (auto simp: fresh_top_def work_left_def)
  qed
next
  case (5 edges color node index stack path color1 path1 ts)
  have u: "unseen_keys edges (color1(node := 2)) = unseen_keys edges color - {node}"
    using 5 by (auto simp: unseen_keys_def)
  show ?case
  proof (cases "node \<in> unseen_keys edges color")
    case True
    then have "card (unseen_keys edges color - {node}) < card (unseen_keys edges color)"
      by (intro psubset_card_mono) auto
    with u show ?thesis by simp
  next
    case False
    with u 5 show ?thesis by (auto simp: fresh_top_def work_left_def)
  qed
qed simp

declare cycle_search.simps [simp del]

lemma has_key_iff: "has_key edges k \<longleftrightarrow> k \<in> fst ` set edges"
  by (auto simp: has_key_def map_of_eq_None_iff)

fun search_from ::
  "('k :: linorder) edges \<Rightarrow> ('k \<Rightarrow> nat) \<Rightarrow> 'k list \<Rightarrow> 'k list option" where
  "search_from edges color [] = None"
| "search_from edges color (start # starts) =
     (if color start \<noteq> 0 then search_from edges color starts
      else case cycle_search edges color [(start, 0)] [] of
             Inl cycle \<Rightarrow> Some cycle
           | Inr color' \<Rightarrow> search_from edges color' starts)"

definition find_dependency_cycle :: "('k :: linorder) edges \<Rightarrow> 'k list option" where
  "find_dependency_cycle edges = search_from edges (\<lambda>_. 0) (sort (map fst edges))"

subsection \<open>The graph and its cycles\<close>

definition dep_edges :: "('k :: linorder) edges \<Rightarrow> ('k \<times> 'k) set" where
  "dep_edges edges = {(n, t). has_key edges n \<and> t \<in> set (targets edges n)}"

fun chain :: "('k \<times> 'k) set \<Rightarrow> 'k list \<Rightarrow> bool" where
  "chain R [] = True"
| "chain R [x] = True"
| "chain R (x # y # zs) = ((x, y) \<in> R \<and> chain R (y # zs))"

definition closed_walk :: "('k \<times> 'k) set \<Rightarrow> 'k list \<Rightarrow> bool" where
  "closed_walk R w \<longleftrightarrow> 2 \<le> length w \<and> hd w = last w \<and> chain R w"

locale cycle_detector =
  fixes detect :: "('k :: linorder) edges \<Rightarrow> 'k list option"
  assumes none_acyclic: "detect edges = None \<Longrightarrow> acyclic (dep_edges edges)"
    and some_walk: "detect edges = Some w \<Longrightarrow> closed_walk (dep_edges edges) w"
begin

lemma chain_trancl: "chain R (x # xs) \<Longrightarrow> xs \<noteq> [] \<Longrightarrow> (x, last xs) \<in> R\<^sup>+"
proof (induction xs arbitrary: x)
  case (Cons y ys)
  then show ?case
    by (cases ys) (auto intro: trancl_into_trancl2)
qed simp

lemma some_cyclic:
  assumes "detect edges = Some w" shows "\<not> acyclic (dep_edges edges)"
proof -
  from some_walk [OF assms] obtain x xs where "w = x # xs" "xs \<noteq> []" "x = last xs"
    and "chain (dep_edges edges) (x # xs)"
    by (cases w) (auto simp: closed_walk_def split: if_splits)
  then show ?thesis using chain_trancl unfolding acyclic_def by metis
qed

lemma decides: "detect edges = None \<longleftrightarrow> acyclic (dep_edges edges)"
  using none_acyclic some_cyclic by fastforce

end

subsection \<open>The search meets the interface\<close>

lemma chain_drop: "chain R xs \<Longrightarrow> chain R (drop n xs)"
proof (induction R xs arbitrary: n rule: chain.induct)
  case (3 R x y zs)
  then show ?case by (cases n) auto
qed (auto simp: drop_Cons split: nat.splits)

lemma chain_snoc: "chain R (xs @ [x]) \<Longrightarrow> (x, y) \<in> R \<Longrightarrow> chain R (xs @ [x, y])"
  by (induction R xs rule: chain.induct) auto

lemma drop_index_of:
  assumes "x \<in> set xs"
  obtains ys where "drop (index_of x xs) xs = x # ys"
proof -
  from assms have "dropWhile (\<lambda>y. y \<noteq> x) xs \<noteq> []" by simp
  then obtain y ys where eq: "dropWhile (\<lambda>y. y \<noteq> x) xs = y # ys"
    by (cases "dropWhile (\<lambda>y. y \<noteq> x) xs") auto
  then have "y = x" by (metis (mono_tags, lifting) dropWhile_eq_Cons_conv)
  with eq that show thesis by (simp add: index_of_def dropWhile_eq_drop)
qed

lemma acyclic_add_source:
  assumes "acyclic R" "n \<notin> Range R" "n \<notin> T"
  shows "acyclic (R \<union> {n} \<times> T)" (is "acyclic ?S")
proof (rule acyclicI, rule allI, rule notI)
  fix x assume cyc: "(x, x) \<in> ?S\<^sup>+"
  have tgt: "y \<noteq> n" if "(x, y) \<in> ?S\<^sup>+" for x y
    using that assms(2,3) by cases auto
  have "(x, y) \<in> R\<^sup>+" if "(x, y) \<in> ?S\<^sup>+" "x \<noteq> n" for y
    using that
  proof (induction rule: trancl_induct)
    case (step y z)
    then show ?case using tgt [OF step.hyps(1)] by (auto intro: trancl_into_trancl)
  qed auto
  with cyc tgt [OF cyc] assms(1) show False by (auto simp: acyclic_def)
qed

definition settled :: "'k edges \<Rightarrow> ('k \<Rightarrow> nat) \<Rightarrow> 'k \<Rightarrow> bool" where
  "settled edges color t \<longleftrightarrow> (has_key edges t \<longrightarrow> color t = 2)"

definition blacks :: "('k :: linorder) edges \<Rightarrow> ('k \<Rightarrow> nat) \<Rightarrow> bool" where
  "blacks edges color \<longleftrightarrow>
     (\<forall>n. color n = 2 \<longrightarrow> (\<forall>t \<in> set (targets edges n). settled edges color t)) \<and>
     acyclic {(n, t). color n = 2 \<and> t \<in> set (targets edges n)}"

definition grays :: "('k \<Rightarrow> nat) \<Rightarrow> 'k list \<Rightarrow> bool" where
  "grays color path \<longleftrightarrow> distinct path \<and> (\<forall>n. color n = 1 \<longleftrightarrow> n \<in> set path) \<and> (\<forall>n. color n \<le> 2)"

text \<open>The frames below the top one: each waits for the node just above it.\<close>

fun below :: "('k :: linorder) edges \<Rightarrow> ('k \<Rightarrow> nat) \<Rightarrow> 'k \<Rightarrow> ('k \<times> nat) list \<Rightarrow> bool" where
  "below edges color c [] = True"
| "below edges color c ((n, i) # fs) =
     (0 < i \<and> i \<le> length (targets edges n) \<and> targets edges n ! (i - 1) = c \<and>
      (\<forall>j < i - 1. settled edges color (targets edges n ! j)) \<and> has_key edges n \<and>
      below edges color n fs)"

definition active ::
  "('k :: linorder) edges \<Rightarrow> ('k \<Rightarrow> nat) \<Rightarrow> 'k \<Rightarrow> nat \<Rightarrow> ('k \<times> nat) list \<Rightarrow> 'k list \<Rightarrow> bool" where
  "active edges color n i fs path \<longleftrightarrow>
     has_key edges n \<and> below edges color n fs \<and> rev path = n # map fst fs \<and>
     i \<le> length (targets edges n) \<and> (\<forall>j < i. settled edges color (targets edges n ! j)) \<and>
     grays color path \<and> blacks edges color"

definition search_inv ::
  "('k :: linorder) edges \<Rightarrow> ('k \<Rightarrow> nat) \<Rightarrow> ('k \<times> nat) list \<Rightarrow> 'k list \<Rightarrow> bool" where
  "search_inv edges color stack path \<longleftrightarrow>
     (case stack of
        [] \<Rightarrow> path = [] \<and> grays color path \<and> blacks edges color
      | (n, i) # fs \<Rightarrow>
          if i = 0
          then has_key edges n \<and> color n = 0 \<and> below edges color n fs \<and>
               rev path = map fst fs \<and> grays color path \<and> blacks edges color
          else active edges color n i fs path)"

lemma settled_mono:
  "settled edges color t \<Longrightarrow> (\<And>n. color n = 2 \<Longrightarrow> color' n = 2) \<Longrightarrow> settled edges color' t"
  by (simp add: settled_def)

lemma below_mono:
  "below edges color c fs \<Longrightarrow> (\<And>n. color n = 2 \<Longrightarrow> color' n = 2) \<Longrightarrow> below edges color' c fs"
  by (induction fs arbitrary: c) (auto simp: settled_def)

lemma blacks_mark_gray:
  assumes "blacks edges color" "color n = 0" shows "blacks edges (color(n := 1))"
proof -
  have "{(m, t). (color(n := 1)) m = 2 \<and> t \<in> set (targets edges m)}
        = {(m, t). color m = 2 \<and> t \<in> set (targets edges m)}"
    using assms(2) by (auto split: if_splits)
  moreover have "settled edges (color(n := 1)) t" if "settled edges color t" for t
    using that assms(2) by (auto simp: settled_def)
  ultimately show ?thesis using assms unfolding blacks_def by (auto split: if_splits)
qed

lemma blacks_mark_black:
  assumes b: "blacks edges color" and g: "color n = 1" and k: "has_key edges n"
    and d: "\<forall>t \<in> set (targets edges n). settled edges color t"
  shows "blacks edges (color(n := 2))"
proof -
  let ?R = "{(m, t). color m = 2 \<and> t \<in> set (targets edges m)}"
  have "n \<notin> Range ?R" using b g k by (auto simp: blacks_def settled_def)
  moreover have "n \<notin> set (targets edges n)" using d g k by (auto simp: settled_def)
  ultimately have "acyclic (?R \<union> {n} \<times> set (targets edges n))"
    using b by (intro acyclic_add_source) (auto simp: blacks_def)
  moreover have "{(m, t). (color(n := 2)) m = 2 \<and> t \<in> set (targets edges m)}
      = ?R \<union> {n} \<times> set (targets edges n)" by (auto split: if_splits)
  moreover have "settled edges (color(n := 2)) t" if "settled edges color t" for t
    using that by (auto simp: settled_def)
  ultimately show ?thesis using b d unfolding blacks_def by auto
qed

lemma search_inv_enter:
  assumes "search_inv edges color ((n, i) # fs) path"
  shows "active edges (if i = 0 then color(n := 1) else color) n i fs
           (if i = 0 then path @ [n] else path)"
proof (cases "i = 0")
  case True
  with assms have a: "has_key edges n" "color n = 0" "below edges color n fs"
    "rev path = map fst fs" "grays color path" "blacks edges color"
    by (auto simp: search_inv_def)
  have new: "n \<notin> set path" using a(2,5) unfolding grays_def by (metis zero_neq_one)
  have "below edges (color(n := 1)) n fs" by (rule below_mono [OF a(3)]) (use a(2) in auto)
  moreover have "grays (color(n := 1)) (path @ [n])"
    using a(2,5) new by (auto simp: grays_def)
  ultimately show ?thesis using True a blacks_mark_gray by (auto simp: active_def)
qed (use assms in \<open>simp add: search_inv_def\<close>)

lemma active_push:
  assumes "active edges color n i fs path" "i < length (targets edges n)"
    and "color (targets edges n ! i) = 0" "has_key edges (targets edges n ! i)"
  shows "search_inv edges color ((targets edges n ! i, 0) # (n, Suc i) # fs) path"
  using assms by (auto simp: active_def search_inv_def)

lemma active_skip:
  assumes "active edges color n i fs path" "i < length (targets edges n)"
    and "settled edges color (targets edges n ! i)"
  shows "search_inv edges color ((n, Suc i) # fs) path"
  using assms by (auto simp: active_def search_inv_def less_Suc_eq)

lemma grays_finish:
  assumes "grays color (path @ [n])" shows "grays (color(n := 2)) path"
  using assms by (auto simp: grays_def)

lemma active_finish:
  assumes a: "active edges color n i fs path" and i: "\<not> i < length (targets edges n)"
  shows "search_inv edges (color(n := 2)) fs (butlast path)"
proof -
  from a have path: "path = rev (map fst fs) @ [n]"
    by (metis active_def rev_rev_ident rev.simps(2))
  have g: "grays (color(n := 2)) (rev (map fst fs))"
    using a path grays_finish by (auto simp: active_def)
  have "\<forall>t \<in> set (targets edges n). settled edges color t"
    using a i by (metis active_def in_set_conv_nth leI le_antisym)
  moreover have "color n = 1" using a path by (auto simp: active_def grays_def)
  ultimately have b: "blacks edges (color(n := 2))"
    using a by (intro blacks_mark_black) (auto simp: active_def)
  have low: "below edges (color(n := 2)) n fs" using a by (auto simp: active_def intro: below_mono)
  show ?thesis
  proof (cases fs)
    case (Cons f gs)
    obtain m j where f: "f = (m, j)" by fastforce
    have "settled edges (color(n := 2)) (targets edges m ! k)" if "k < j" for k
    proof (cases "k = j - 1")
      case True
      then show ?thesis using low Cons f by (auto simp: settled_def)
    qed (use low Cons f that in \<open>auto simp: less_diff_conv\<close>)
    moreover have "butlast path = rev (map fst fs)" using path by simp
    ultimately show ?thesis using Cons f low g b by (simp add: search_inv_def active_def)
  qed (use g b path in \<open>simp add: search_inv_def\<close>)
qed

lemma below_chain: "below edges color c fs \<Longrightarrow> chain (dep_edges edges) (rev (map fst fs) @ [c])"
proof (induction fs arbitrary: c)
  case (Cons f gs)
  obtain n i where f: "f = (n, i)" by fastforce
  with Cons.prems have "(n, c) \<in> dep_edges edges" by (auto simp: dep_edges_def)
  with Cons f show ?case using chain_snoc [of _ "rev (map fst gs)" n c] by auto
qed simp

lemma active_cycle:
  assumes a: "active edges color n i fs path" and i: "i < length (targets edges n)"
    and c: "color (targets edges n ! i) = 1"
  shows "closed_walk (dep_edges edges)
           (drop (index_of (targets edges n ! i) path) path @ [targets edges n ! i])"
proof -
  let ?t = "targets edges n ! i"
  from a have path: "path = rev (map fst fs) @ [n]"
    by (metis active_def rev_rev_ident rev.simps(2))
  have "chain (dep_edges edges) (rev (map fst fs) @ [n])" using a by (auto simp: active_def below_chain)
  moreover have "(n, ?t) \<in> dep_edges edges" using a i by (auto simp: active_def dep_edges_def)
  ultimately have ch: "chain (dep_edges edges) (path @ [?t])" using path chain_snoc by auto
  have mem: "?t \<in> set path" using a c by (auto simp: active_def grays_def)
  then obtain ys where ys: "drop (index_of ?t path) path = ?t # ys" by (rule drop_index_of)
  then have "index_of ?t path \<le> length path" by (metis drop_all list.distinct(1) nat_le_linear)
  then have "drop (index_of ?t path) (path @ [?t]) = (?t # ys) @ [?t]" using ys by simp
  then have "chain (dep_edges edges) ((?t # ys) @ [?t])" using chain_drop [OF ch] by metis
  then show ?thesis using ys by (simp add: closed_walk_def)
qed

lemma color_cases: "grays color path \<Longrightarrow> color n = 0 \<or> color n = 1 \<or> color n = 2"
  unfolding grays_def by (metis One_nat_def le_SucE le_zero_eq numeral_2_eq_2)

lemma active_settled:
  "active edges color n i fs path \<Longrightarrow> color t \<noteq> 1 \<Longrightarrow> \<not> (color t = 0 \<and> has_key edges t)
     \<Longrightarrow> settled edges color t"
  using color_cases [of color path t] by (auto simp: active_def settled_def)

definition search_outcome ::
  "('k :: linorder) edges \<Rightarrow> ('k \<Rightarrow> nat) \<Rightarrow> ('k \<times> nat) list \<Rightarrow> 'k list + ('k \<Rightarrow> nat) \<Rightarrow> bool" where
  "search_outcome edges color stack r \<longleftrightarrow>
     (case r of
        Inl w \<Rightarrow> closed_walk (dep_edges edges) w
      | Inr color' \<Rightarrow> search_inv edges color' [] [] \<and> (\<forall>n. color n = 2 \<longrightarrow> color' n = 2) \<and>
                      (\<forall>n \<in> fst ` set stack. color' n = 2))"

lemma search_outcome_weaken:
  "search_outcome edges color' stack' r \<Longrightarrow> (\<And>n. color n = 2 \<Longrightarrow> color' n = 2) \<Longrightarrow>
     (\<And>n. n \<in> fst ` set stack \<Longrightarrow> n \<in> fst ` set stack' \<or> color' n = 2) \<Longrightarrow>
     search_outcome edges color stack r"
  by (auto simp: search_outcome_def split: sum.splits) fastforce

lemma cycle_search_outcome:
  "search_inv edges color stack path \<Longrightarrow>
     search_outcome edges color stack (cycle_search edges color stack path)"
proof (induction edges color stack path rule: cycle_search.induct)
  case (1 edges color path)
  then show ?case by (auto simp: cycle_search.simps search_outcome_def search_inv_def)
next
  case (2 edges color node index stack path)
  let ?c = "if index = 0 then color(node := 1) else color"
  let ?p = "if index = 0 then path @ [node] else path"
  let ?t = "targets edges node ! index"
  have nb: "\<not> (index = 0 \<and> color node = 2)" using 2(5) by (auto simp: search_inv_def)
  have a: "active edges ?c node index stack ?p" by (rule search_inv_enter) (rule 2(5))
  have mono: "?c n = 2" if "color n = 2" for n using that nb by auto
  consider (cyc) "index < length (targets edges node)" "?c ?t = 1"
    | (push) "index < length (targets edges node)" "?c ?t = 0" "has_key edges ?t"
    | (skip) "index < length (targets edges node)" "?c ?t \<noteq> 1" "\<not> (?c ?t = 0 \<and> has_key edges ?t)"
    | (fin) "\<not> index < length (targets edges node)"
    by fastforce
  then show ?case
  proof cases
    case cyc
    then have "cycle_search edges color ((node, index) # stack) path
        = Inl (drop (index_of ?t ?p) ?p @ [?t])"
      using nb by (subst cycle_search.simps) (simp only: Let_def if_False if_True; simp?)
    with active_cycle [OF a cyc] show ?thesis by (simp add: search_outcome_def)
  next
    case push
    then have e: "cycle_search edges color ((node, index) # stack) path
        = cycle_search edges ?c ((?t, 0) # (node, Suc index) # stack) ?p"
      using nb by (subst cycle_search.simps) (simp only: Let_def if_False if_True; simp?)
    have "search_outcome edges ?c ((?t, 0) # (node, Suc index) # stack)
        (cycle_search edges ?c ((?t, 0) # (node, Suc index) # stack) ?p)"
      using 2(2) [OF nb refl refl refl push(1) refl refl _ _ active_push [OF a push]] push by simp
    then show ?thesis unfolding e by (rule search_outcome_weaken) (use mono in auto)
  next
    case skip
    then have e: "cycle_search edges color ((node, index) # stack) path
        = cycle_search edges ?c ((node, Suc index) # stack) ?p"
      using nb by (subst cycle_search.simps) (simp only: Let_def if_False if_True; simp?)
    have "search_outcome edges ?c ((node, Suc index) # stack)
        (cycle_search edges ?c ((node, Suc index) # stack) ?p)"
      using 2(3) [OF nb refl refl refl skip(1) refl refl _ _
          active_skip [OF a skip(1) active_settled [OF a skip(2,3)]]] skip by simp
    then show ?thesis unfolding e by (rule search_outcome_weaken) (use mono in auto)
  next
    case fin
    then have e: "cycle_search edges color ((node, index) # stack) path
        = cycle_search edges (?c(node := 2)) stack (butlast ?p)"
      using nb by (subst cycle_search.simps) (simp only: Let_def if_False if_True; simp?)
    have "search_outcome edges (?c(node := 2)) stack
        (cycle_search edges (?c(node := 2)) stack (butlast ?p))"
      by (rule 2(4) [OF nb refl refl refl fin active_finish [OF a fin]])
    then show ?thesis unfolding e by (rule search_outcome_weaken) (use mono in auto)
  qed
qed

lemma search_from_some:
  "search_from edges color starts = Some w \<Longrightarrow> search_inv edges color [] [] \<Longrightarrow>
     set starts \<subseteq> fst ` set edges \<Longrightarrow> closed_walk (dep_edges edges) w"
proof (induction edges color starts rule: search_from.induct)
  case (2 edges color start starts)
  have "search_outcome edges color [(start, 0)] (cycle_search edges color [(start, 0)] [])"
    if "color start = 0"
    by (rule cycle_search_outcome) (use that 2(4,5) in \<open>auto simp: search_inv_def has_key_iff\<close>)
  then show ?case using 2
    by (auto simp: search_outcome_def split: if_splits sum.splits)
qed simp

lemma search_from_none:
  "search_from edges color starts = None \<Longrightarrow> search_inv edges color [] [] \<Longrightarrow>
     set starts \<subseteq> fst ` set edges \<Longrightarrow>
     \<exists>color'. search_inv edges color' [] [] \<and> (\<forall>n. color n = 2 \<longrightarrow> color' n = 2) \<and>
              (\<forall>n \<in> set starts. color' n = 2)"
proof (induction edges color starts rule: search_from.induct)
  case (2 edges color start starts)
  show ?case
  proof (cases "color start = 0")
    case True
    then have "search_inv edges color [(start, 0)] []"
      using 2(4,5) by (auto simp: search_inv_def has_key_iff)
    then have "search_outcome edges color [(start, 0)] (cycle_search edges color [(start, 0)] [])"
      by (rule cycle_search_outcome)
    with True 2(2,3,5) show ?thesis
      by (auto simp: search_outcome_def split: sum.splits)
  next
    case False
    then have "color start = 2" using 2(4) color_cases [of color "[]" start]
      by (auto simp: search_inv_def grays_def)
    then show ?thesis using False 2(1,3,4,5) by fastforce
  qed
qed auto

lemma search_inv_start: "search_inv edges (\<lambda>_. 0) [] []"
  by (simp add: search_inv_def grays_def blacks_def acyclic_def)

interpretation dependency_rule: cycle_detector find_dependency_cycle
proof unfold_locales
  fix edges :: "('a :: linorder) edges"
  assume "find_dependency_cycle edges = None"
  then obtain color' where c: "search_inv edges color' [] []" "\<forall>n \<in> fst ` set edges. color' n = 2"
    using search_from_none [OF _ search_inv_start, of edges "sort (map fst edges)"]
    by (auto simp: find_dependency_cycle_def)
  then have "dep_edges edges \<subseteq> {(n, t). color' n = 2 \<and> t \<in> set (targets edges n)}"
    by (auto simp: dep_edges_def has_key_iff)
  moreover have "acyclic {(n, t). color' n = 2 \<and> t \<in> set (targets edges n)}"
    using c(1) by (simp add: search_inv_def blacks_def)
  ultimately show "acyclic (dep_edges edges)" by (rule acyclic_subset [rotated])
next
  fix edges :: "('a :: linorder) edges" and w
  assume "find_dependency_cycle edges = Some w"
  then show "closed_walk (dep_edges edges) w"
    using search_from_some [OF _ search_inv_start, of edges "sort (map fst edges)"]
    by (simp add: find_dependency_cycle_def)
qed

text \<open>Property C4. On every finite dependency graph the search returns a verdict, and the
  verdict is right: it returns no cycle exactly when the graph is acyclic, and what it returns
  otherwise is a closed walk \<open>[a, b, ..., a]\<close> of the graph, as the 422 and 409 answers
  report it.\<close>

theorem find_dependency_cycle_correct:
  "(find_dependency_cycle edges = None \<longleftrightarrow> acyclic (dep_edges edges)) \<and>
   pred_option (closed_walk (dep_edges edges)) (find_dependency_cycle edges)"
  using dependency_rule.decides [of edges] dependency_rule.some_walk [of edges]
  by (cases "find_dependency_cycle edges") auto

end
