(* ===== verification/Lifecycle.thy ===== *)
theory Lifecycle
  imports Studio_Prelude
begin

section \<open>Closed lifecycles as an interface\<close>

text \<open>
  Roadmaps and task launches both move through a closed transition table: a pair absent from
  the table is refused, and some states are final. \<open>lifecycle\<close> states that contract for a
  table \<open>next\<close> over any labels (a transition name, or the target state itself), and
  \<open>one_way_lifecycle\<close> the stronger one of a table without a way back. A run is a list of
  attempted moves; a refused move leaves the state alone, as the services' 409 does.
\<close>

locale lifecycle =
  fixes step :: "'s \<Rightarrow> 'l \<Rightarrow> 's option"
    and final :: "'s \<Rightarrow> bool"
  assumes final_stuck: "final s \<Longrightarrow> step s l = None"
begin

fun run :: "'s \<Rightarrow> 'l list \<Rightarrow> 's" where
  "run s [] = s"
| "run s (l # ls) = (case step s l of None \<Rightarrow> run s ls | Some s' \<Rightarrow> run s' ls)"

lemma run_append: "run s (xs @ ys) = run (run s xs) ys"
  by (induction xs arbitrary: s) (auto split: option.splits)

lemma final_forever: "final s \<Longrightarrow> run s ls = s"
  by (induction ls) (simp_all add: final_stuck)

lemma final_prefix: "final (run s xs) \<Longrightarrow> run s (xs @ ys) = run s xs"
  by (simp add: run_append final_forever)

lemma run_invariant:
  assumes "\<And>s l s'. P s \<Longrightarrow> step s l = Some s' \<Longrightarrow> P s'" and "P s"
  shows "P (run s ls)"
  using assms(2) by (induction ls arbitrary: s) (auto split: option.splits intro: assms(1))

end

locale one_way_lifecycle = lifecycle +
  fixes stage :: "'a \<Rightarrow> nat"
  assumes stage_grows: "step s l = Some s' \<Longrightarrow> stage s < stage s'"
begin

fun accepted :: "'a \<Rightarrow> 'b list \<Rightarrow> nat" where
  "accepted s [] = 0"
| "accepted s (l # ls) = (case step s l of None \<Rightarrow> accepted s ls | Some s' \<Rightarrow> Suc (accepted s' ls))"

lemma accepted_bound: "stage s + accepted s ls \<le> stage (run s ls)"
proof (induction ls arbitrary: s)
  case (Cons l ls)
  show ?case
  proof (cases "step s l")
    case (Some s')
    with stage_grows [OF Some] Cons.IH [of s'] show ?thesis by simp
  qed (simp add: Cons.IH)
qed simp

lemma run_monotone: "stage s \<le> stage (run s ls)"
  using accepted_bound [of s ls] by linarith

lemma no_return: "step s l = Some s' \<Longrightarrow> run s' ls \<noteq> s"
  using run_monotone [of s' ls] stage_grows [of s l s'] by auto

end

end
