(* ===== verification/Roadmap_Rules.thy ===== *)
theory Roadmap_Rules
  imports Roadmap_Graph Lifecycle
begin

section \<open>The pure roadmap rules (\<open>studio_contracts/roadmaps.py\<close>)\<close>

text \<open>
  The closed vocabularies, the lifecycle table and its authority rule, the neutral document
  with its bounds, its semantic validation, and the derivations every lane shares (step
  state, availability, progress, hydration counts). String enums are datatypes, a Pydantic
  model is a record, and a field constraint (\<open>min_length\<close>, \<open>max_length\<close>, \<open>pattern\<close>) is part
  of the record's schema predicate.
\<close>

subsection \<open>Vocabularies\<close>

datatype roadmap_status = RS_DRAFT | RS_PROPOSED | RS_ACTIVE | RS_COMPLETED | RS_ARCHIVED

datatype roadmap_origin = RO_MANUAL | RO_AI_PROPOSAL | RO_IMPORT

datatype step_state =
  SS_NOT_STARTED | SS_IN_PROGRESS | SS_BLOCKED | SS_DONE | SS_SKIPPED

datatype step_state_override = SO_DONE | SO_SKIPPED

datatype task_status_value = TV_CREATED | TV_IN_PROGRESS | TV_BLOCKED | TV_COMPLETED

datatype roadmap_transition =
    RT_SUBMIT | RT_APPROVE | RT_REQUEST_CHANGES | RT_REJECT | RT_ACTIVATE | RT_COMPLETE
  | RT_REOPEN | RT_ARCHIVE

datatype write_kind = WK_CONTENT | WK_PROGRESS | WK_LINK | WK_HYDRATION_APPLY | WK_PROPOSAL

datatype review_decision = RD_APPROVE | RD_REQUEST_CHANGES | RD_REJECT

fun roadmap_status_value :: "roadmap_status \<Rightarrow> string" where
  "roadmap_status_value RS_DRAFT = ''draft''"
| "roadmap_status_value RS_PROPOSED = ''proposed''"
| "roadmap_status_value RS_ACTIVE = ''active''"
| "roadmap_status_value RS_COMPLETED = ''completed''"
| "roadmap_status_value RS_ARCHIVED = ''archived''"

fun roadmap_transition_value :: "roadmap_transition \<Rightarrow> string" where
  "roadmap_transition_value RT_SUBMIT = ''submit''"
| "roadmap_transition_value RT_APPROVE = ''approve''"
| "roadmap_transition_value RT_REQUEST_CHANGES = ''request_changes''"
| "roadmap_transition_value RT_REJECT = ''reject''"
| "roadmap_transition_value RT_ACTIVATE = ''activate''"
| "roadmap_transition_value RT_COMPLETE = ''complete''"
| "roadmap_transition_value RT_REOPEN = ''reopen''"
| "roadmap_transition_value RT_ARCHIVE = ''archive''"

fun write_kind_value :: "write_kind \<Rightarrow> string" where
  "write_kind_value WK_CONTENT = ''content''"
| "write_kind_value WK_PROGRESS = ''progress''"
| "write_kind_value WK_LINK = ''link''"
| "write_kind_value WK_HYDRATION_APPLY = ''hydration_apply''"
| "write_kind_value WK_PROPOSAL = ''proposal''"

fun review_decision_value :: "review_decision \<Rightarrow> string" where
  "review_decision_value RD_APPROVE = ''approve''"
| "review_decision_value RD_REQUEST_CHANGES = ''request_changes''"
| "review_decision_value RD_REJECT = ''reject''"

subsection \<open>Lifecycle and authority\<close>

fun transition_target :: "roadmap_status \<Rightarrow> roadmap_transition \<Rightarrow> roadmap_status option" where
  "transition_target RS_DRAFT RT_SUBMIT = Some RS_PROPOSED"
| "transition_target RS_DRAFT RT_ACTIVATE = Some RS_ACTIVE"
| "transition_target RS_DRAFT RT_ARCHIVE = Some RS_ARCHIVED"
| "transition_target RS_PROPOSED RT_APPROVE = Some RS_ACTIVE"
| "transition_target RS_PROPOSED RT_REQUEST_CHANGES = Some RS_DRAFT"
| "transition_target RS_PROPOSED RT_REJECT = Some RS_ARCHIVED"
| "transition_target RS_ACTIVE RT_COMPLETE = Some RS_COMPLETED"
| "transition_target RS_ACTIVE RT_ARCHIVE = Some RS_ARCHIVED"
| "transition_target RS_COMPLETED RT_REOPEN = Some RS_ACTIVE"
| "transition_target RS_COMPLETED RT_ARCHIVE = Some RS_ARCHIVED"
| "transition_target _ _ = None"

definition writer_transitions :: "(roadmap_status \<times> roadmap_transition) set" where
  "writer_transitions = {(RS_DRAFT, RT_SUBMIT), (RS_DRAFT, RT_ARCHIVE)}"

definition transitions_requiring_comment :: "roadmap_transition set" where
  "transitions_requiring_comment = {RT_REQUEST_CHANGES, RT_REJECT, RT_REOPEN}"

definition transition_requires_provision :: "roadmap_status \<Rightarrow> roadmap_transition \<Rightarrow> bool" where
  "transition_requires_provision s t \<longleftrightarrow> (s, t) \<notin> writer_transitions"

record write_provenance =
  wp_origin :: roadmap_origin
  wp_agent_id :: "uuid option"

definition is_agent_write :: "bool \<Rightarrow> write_provenance \<Rightarrow> bool" where
  "is_agent_write role_is_agent provenance \<longleftrightarrow>
     role_is_agent \<or> wp_agent_id provenance \<noteq> None \<or> wp_origin provenance = RO_AI_PROPOSAL"

fun allowed_writes :: "roadmap_status \<Rightarrow> write_kind set" where
  "allowed_writes RS_DRAFT = {WK_CONTENT, WK_PROGRESS, WK_LINK}"
| "allowed_writes RS_PROPOSED = {}"
| "allowed_writes RS_ACTIVE = {WK_CONTENT, WK_PROGRESS, WK_LINK, WK_HYDRATION_APPLY, WK_PROPOSAL}"
| "allowed_writes RS_COMPLETED = {}"
| "allowed_writes RS_ARCHIVED = {}"

definition write_allowed :: "roadmap_status \<Rightarrow> write_kind \<Rightarrow> bool" where
  "write_allowed s k \<longleftrightarrow> k \<in> allowed_writes s"

interpretation roadmap_lifecycle: lifecycle transition_target "\<lambda>s. s = RS_ARCHIVED"
  by unfold_locales (case_tac l, auto)

subsection \<open>The neutral document and its schema\<close>

abbreviation MAX_TITLE :: nat where "MAX_TITLE \<equiv> 200"
abbreviation MAX_OBJECTIVE :: nat where "MAX_OBJECTIVE \<equiv> 2000"
abbreviation MAX_CONTEXT :: nat where "MAX_CONTEXT \<equiv> 4000"
abbreviation MAX_INSTRUCTIONS :: nat where "MAX_INSTRUCTIONS \<equiv> 8000"
abbreviation MAX_NOTES :: nat where "MAX_NOTES \<equiv> 4000"
abbreviation MAX_COMMENT :: nat where "MAX_COMMENT \<equiv> 2000"
abbreviation MAX_CRITERIA :: nat where "MAX_CRITERIA \<equiv> 20"
abbreviation MAX_CRITERION_LENGTH :: nat where "MAX_CRITERION_LENGTH \<equiv> 500"
abbreviation MAX_PHASES :: nat where "MAX_PHASES \<equiv> 30"
abbreviation MAX_STEPS_PER_PHASE :: nat where "MAX_STEPS_PER_PHASE \<equiv> 50"
abbreviation MAX_STEPS :: nat where "MAX_STEPS \<equiv> 300"
abbreviation MAX_DEPENDENCIES_PER_STEP :: nat where "MAX_DEPENDENCIES_PER_STEP \<equiv> 20"
abbreviation MAX_TASK_PLAN_PER_STEP :: nat where "MAX_TASK_PLAN_PER_STEP \<equiv> 20"
abbreviation MAX_TASK_PLAN :: nat where "MAX_TASK_PLAN \<equiv> 500"
abbreviation MAX_METADATA_KEYS :: nat where "MAX_METADATA_KEYS \<equiv> 20"
abbreviation MAX_METADATA_KEY_LENGTH :: nat where "MAX_METADATA_KEY_LENGTH \<equiv> 64"
abbreviation MAX_METADATA_VALUE_LENGTH :: nat where "MAX_METADATA_VALUE_LENGTH \<equiv> 500"

type_synonym metadata = "(string \<times> jval) list"

fun metadata_items_error :: "metadata \<Rightarrow> string option" where
  "metadata_items_error [] = None"
| "metadata_items_error ((key, item) # rest) =
     (if key = [] \<or> length key > MAX_METADATA_KEY_LENGTH
      then Some ''metadata keys must be 1..64 characters''
      else if (case item of JText s \<Rightarrow> length s > MAX_METADATA_VALUE_LENGTH | _ \<Rightarrow> False)
      then Some ''metadata string values allow at most 500''
      else metadata_items_error rest)"

definition check_metadata :: "metadata \<Rightarrow> string + metadata" where
  "check_metadata value =
     (if length value > MAX_METADATA_KEYS then Inl ''metadata allows at most 20 keys''
      else case metadata_items_error value of Some e \<Rightarrow> Inl e | None \<Rightarrow> Inr value)"

definition ascii_alnum :: "char \<Rightarrow> bool" where
  "ascii_alnum c \<longleftrightarrow> (CHR ''A'' \<le> c \<and> c \<le> CHR ''Z'') \<or> (CHR ''a'' \<le> c \<and> c \<le> CHR ''z'')
     \<or> (CHR ''0'' \<le> c \<and> c \<le> CHR ''9'')"

definition key_ok :: "string \<Rightarrow> bool" where
  "key_ok s \<longleftrightarrow> (case s of [] \<Rightarrow> False
     | c # cs \<Rightarrow> ascii_alnum c \<and> length cs \<le> 63 \<and>
         list_all (\<lambda>x. ascii_alnum x \<or> x \<in> set ''._-'') cs)"

definition text_within :: "nat \<Rightarrow> string option \<Rightarrow> bool" where
  "text_within n t \<longleftrightarrow> (case t of None \<Rightarrow> True | Some s \<Rightarrow> length s \<le> n)"

definition title_ok :: "string \<Rightarrow> bool" where
  "title_ok s \<longleftrightarrow> 1 \<le> length s \<and> length s \<le> MAX_TITLE"

record task_plan_item =
  tp_hydration_key :: string
  tp_title :: string
  tp_description :: "string option"

record step_content =
  sc_key :: string
  sc_title :: string
  sc_objective :: "string option"
  sc_context :: "string option"
  sc_instructions :: "string option"
  sc_acceptance_criteria :: "string list"
  sc_notes :: "string option"
  sc_metadata :: metadata
  sc_depends_on :: "string list"
  sc_tasks :: "task_plan_item list"

record phase_content =
  pc_key :: string
  pc_title :: string
  pc_objective :: "string option"
  pc_steps :: "step_content list"

record roadmap_document =
  rd_title :: string
  rd_objective :: "string option"
  rd_context :: "string option"
  rd_metadata :: metadata
  rd_phases :: "phase_content list"
  rd_exported_at :: "timestamp option"
  rd_revision_no :: "int option"

definition metadata_ok :: "metadata \<Rightarrow> bool" where
  "metadata_ok m \<longleftrightarrow> distinct (map fst m) \<and> check_metadata m = Inr m"

definition plan_item_schema :: "task_plan_item \<Rightarrow> bool" where
  "plan_item_schema i \<longleftrightarrow> key_ok (tp_hydration_key i) \<and> title_ok (tp_title i)
     \<and> text_within MAX_CONTEXT (tp_description i)"

definition step_schema :: "step_content \<Rightarrow> bool" where
  "step_schema s \<longleftrightarrow> key_ok (sc_key s) \<and> title_ok (sc_title s)
     \<and> text_within MAX_OBJECTIVE (sc_objective s) \<and> text_within MAX_CONTEXT (sc_context s)
     \<and> text_within MAX_INSTRUCTIONS (sc_instructions s)
     \<and> length (sc_acceptance_criteria s) \<le> MAX_CRITERIA
     \<and> list_all (\<lambda>c. 1 \<le> length c \<and> length c \<le> MAX_CRITERION_LENGTH) (sc_acceptance_criteria s)
     \<and> text_within MAX_NOTES (sc_notes s) \<and> metadata_ok (sc_metadata s)
     \<and> length (sc_depends_on s) \<le> MAX_DEPENDENCIES_PER_STEP \<and> list_all key_ok (sc_depends_on s)
     \<and> length (sc_tasks s) \<le> MAX_TASK_PLAN_PER_STEP \<and> list_all plan_item_schema (sc_tasks s)"

definition phase_schema :: "phase_content \<Rightarrow> bool" where
  "phase_schema p \<longleftrightarrow> key_ok (pc_key p) \<and> title_ok (pc_title p)
     \<and> text_within MAX_OBJECTIVE (pc_objective p)
     \<and> length (pc_steps p) \<le> MAX_STEPS_PER_PHASE \<and> list_all step_schema (pc_steps p)"

definition document_schema :: "roadmap_document \<Rightarrow> bool" where
  "document_schema d \<longleftrightarrow> title_ok (rd_title d) \<and> text_within MAX_OBJECTIVE (rd_objective d)
     \<and> text_within MAX_CONTEXT (rd_context d) \<and> metadata_ok (rd_metadata d)
     \<and> length (rd_phases d) \<le> MAX_PHASES \<and> list_all phase_schema (rd_phases d)"

subsection \<open>Semantic validation\<close>

datatype validation_reason =
    VR_DUPLICATE_PHASE_KEY | VR_DUPLICATE_STEP_KEY | VR_DUPLICATE_HYDRATION_KEY
  | VR_UNKNOWN_DEPENDENCY | VR_SELF_DEPENDENCY | VR_DEPENDENCY_CYCLE | VR_DUPLICATE_DEPENDENCY
  | VR_LIMIT_EXCEEDED | VR_INVALID_REORDER

fun validation_reason_value :: "validation_reason \<Rightarrow> string" where
  "validation_reason_value VR_DUPLICATE_PHASE_KEY = ''duplicate_phase_key''"
| "validation_reason_value VR_DUPLICATE_STEP_KEY = ''duplicate_step_key''"
| "validation_reason_value VR_DUPLICATE_HYDRATION_KEY = ''duplicate_hydration_key''"
| "validation_reason_value VR_UNKNOWN_DEPENDENCY = ''unknown_dependency''"
| "validation_reason_value VR_SELF_DEPENDENCY = ''self_dependency''"
| "validation_reason_value VR_DEPENDENCY_CYCLE = ''dependency_cycle''"
| "validation_reason_value VR_DUPLICATE_DEPENDENCY = ''duplicate_dependency''"
| "validation_reason_value VR_LIMIT_EXCEEDED = ''limit_exceeded''"
| "validation_reason_value VR_INVALID_REORDER = ''invalid_reorder''"

type_synonym validation_error = "validation_reason \<times> string"

fun scan_steps ::
  "string list \<Rightarrow> nat \<Rightarrow> nat \<Rightarrow> step_content list
     \<Rightarrow> validation_error list + string list \<times> nat \<times> nat" where
  "scan_steps keys steps tasks [] = Inr (keys, steps, tasks)"
| "scan_steps keys steps tasks (s # ss) =
     (if sc_key s \<in> set keys then Inl [(VR_DUPLICATE_STEP_KEY, ''steps.'' @ sc_key s)]
      else if \<not> distinct (map tp_hydration_key (sc_tasks s))
      then Inl [(VR_DUPLICATE_HYDRATION_KEY, ''steps.'' @ sc_key s @ ''.tasks'')]
      else scan_steps (sc_key s # keys) (steps + 1) (tasks + length (sc_tasks s)) ss)"

fun scan_phases ::
  "string list \<Rightarrow> string list \<Rightarrow> nat \<Rightarrow> nat \<Rightarrow> phase_content list
     \<Rightarrow> validation_error list + string list \<times> nat \<times> nat" where
  "scan_phases phase_keys keys steps tasks [] = Inr (keys, steps, tasks)"
| "scan_phases phase_keys keys steps tasks (p # ps) =
     (if pc_key p \<in> set phase_keys then Inl [(VR_DUPLICATE_PHASE_KEY, ''phases.'' @ pc_key p)]
      else case scan_steps keys steps tasks (pc_steps p) of
             Inl e \<Rightarrow> Inl e
           | Inr (keys', steps', tasks') \<Rightarrow>
               scan_phases (pc_key p # phase_keys) keys' steps' tasks' ps)"

fun check_targets :: "string list \<Rightarrow> string \<Rightarrow> string list \<Rightarrow> validation_error list" where
  "check_targets keys own [] = []"
| "check_targets keys own (k # ks) =
     (if k = own then [(VR_SELF_DEPENDENCY, ''steps.'' @ own @ ''.depends_on'')]
      else if k \<notin> set keys then [(VR_UNKNOWN_DEPENDENCY, ''steps.'' @ own @ ''.depends_on'')]
      else check_targets keys own ks)"

fun check_dependencies :: "string list \<Rightarrow> step_content list \<Rightarrow> validation_error list" where
  "check_dependencies keys [] = []"
| "check_dependencies keys (s # ss) =
     (if \<not> distinct (sc_depends_on s)
      then [(VR_DUPLICATE_DEPENDENCY, ''steps.'' @ sc_key s @ ''.depends_on'')]
      else case check_targets keys (sc_key s) (sc_depends_on s) of
             [] \<Rightarrow> check_dependencies keys ss
           | e # es \<Rightarrow> e # es)"

definition document_steps :: "roadmap_document \<Rightarrow> step_content list" where
  "document_steps d = concat (map pc_steps (rd_phases d))"

definition document_edges :: "roadmap_document \<Rightarrow> string edges" where
  "document_edges d = map (\<lambda>s. (sc_key s, sc_depends_on s)) (document_steps d)"

definition roadmap_document_errors :: "roadmap_document \<Rightarrow> validation_error list" where
  "roadmap_document_errors d =
     (case scan_phases [] [] 0 0 (rd_phases d) of
        Inl e \<Rightarrow> e
      | Inr (keys, steps, tasks) \<Rightarrow>
          if steps > MAX_STEPS \<or> tasks > MAX_TASK_PLAN then [(VR_LIMIT_EXCEEDED, ''steps'')]
          else case check_dependencies keys (document_steps d) of
                 e # es \<Rightarrow> e # es
               | [] \<Rightarrow>
                   (if find_dependency_cycle (document_edges d) \<noteq> None
                    then [(VR_DEPENDENCY_CYCLE, ''steps'')] else []))"

subsection \<open>Derived state and progress\<close>

definition derive_step_state ::
  "step_state_override option \<Rightarrow> task_status_value list \<Rightarrow> step_state" where
  "derive_step_state override task_statuses =
     (if override = Some SO_SKIPPED then SS_SKIPPED
      else if override = Some SO_DONE then SS_DONE
      else if task_statuses \<noteq> [] \<and> list_all (\<lambda>s. s = TV_COMPLETED) task_statuses then SS_DONE
      else if list_ex (\<lambda>s. s = TV_BLOCKED) task_statuses then SS_BLOCKED
      else if list_ex (\<lambda>s. s = TV_IN_PROGRESS) task_statuses then SS_IN_PROGRESS
      else SS_NOT_STARTED)"

definition waiting_on :: "string list \<Rightarrow> (string \<rightharpoonup> step_state) \<Rightarrow> string list" where
  "waiting_on depends_on states =
     sort (filter (\<lambda>k. states k \<notin> {Some SS_DONE, Some SS_SKIPPED}) depends_on)"

record progress =
  pr_done :: nat
  pr_total :: nat
  pr_skipped :: nat
  pr_ratio :: rat

definition compute_progress :: "step_state list \<Rightarrow> progress" where
  "compute_progress states =
     (let skipped = length (filter (\<lambda>s. s = SS_SKIPPED) states);
          counted = filter (\<lambda>s. s \<noteq> SS_SKIPPED) states;
          n_done = length (filter (\<lambda>s. s = SS_DONE) counted);
          total = length counted
      in \<lparr>pr_done = n_done, pr_total = total, pr_skipped = skipped,
          pr_ratio = (if total = 0 then 1 else of_nat n_done / of_nat total)\<rparr>)"

datatype hydration_action = HA_CREATE | HA_REUSE | HA_SKIP

record hydration_counts =
  hc_create :: nat
  hc_reuse :: nat
  hc_skip :: nat

definition count_hydration :: "hydration_action list \<Rightarrow> hydration_counts" where
  "count_hydration actions =
     \<lparr>hc_create = count_list actions HA_CREATE, hc_reuse = count_list actions HA_REUSE,
      hc_skip = count_list actions HA_SKIP\<rparr>"

subsection \<open>Cross-field validators of the write models\<close>

definition blank :: "string option \<Rightarrow> bool" where
  "blank comment \<longleftrightarrow> list_all py_space (case comment of None \<Rightarrow> [] | Some c \<Rightarrow> c)"

definition step_progress_consistent ::
  "step_state_override option \<Rightarrow> bool \<Rightarrow> nat list option \<Rightarrow> string + unit" where
  "step_progress_consistent state_override clear_state_override criteria_checked =
     (if (case criteria_checked of None \<Rightarrow> False | Some cs \<Rightarrow> \<not> distinct cs)
      then Inl ''criteria_checked must not repeat an index''
      else if clear_state_override \<and> state_override \<noteq> None
      then Inl ''clear_state_override excludes state_override''
      else Inr ())"

definition transition_request_ok :: "roadmap_transition \<Rightarrow> string option \<Rightarrow> string + unit" where
  "transition_request_ok transition comment =
     (if transition \<in> transitions_requiring_comment \<and> blank comment
      then Inl (''comment is required for transition '' @ roadmap_transition_value transition)
      else Inr ())"

definition proposal_review_ok :: "review_decision \<Rightarrow> string option \<Rightarrow> string + unit" where
  "proposal_review_ok decision comment =
     (if decision \<noteq> RD_APPROVE \<and> blank comment
      then Inl (''comment is required for decision '' @ review_decision_value decision)
      else Inr ())"

subsection \<open>What validation decides\<close>

definition depends_relation :: "roadmap_document \<Rightarrow> (string \<times> string) set" where
  "depends_relation d = {(sc_key s, k) | s k. s \<in> set (document_steps d) \<and> k \<in> set (sc_depends_on s)}"

definition well_formed_plan :: "roadmap_document \<Rightarrow> bool" where
  "well_formed_plan d \<longleftrightarrow>
     distinct (map pc_key (rd_phases d)) \<and> distinct (map sc_key (document_steps d)) \<and>
     length (document_steps d) \<le> MAX_STEPS \<and>
     (\<Sum>s \<leftarrow> document_steps d. length (sc_tasks s)) \<le> MAX_TASK_PLAN \<and>
     (\<forall>s \<in> set (document_steps d).
        distinct (map tp_hydration_key (sc_tasks s)) \<and> distinct (sc_depends_on s) \<and>
        set (sc_depends_on s) \<subseteq> sc_key ` set (document_steps d)) \<and>
     acyclic (depends_relation d)"

definition fresh_steps :: "string list \<Rightarrow> step_content list \<Rightarrow> bool" where
  "fresh_steps keys ss \<longleftrightarrow> distinct (map sc_key ss) \<and> set (map sc_key ss) \<inter> set keys = {} \<and>
     (\<forall>s \<in> set ss. distinct (map tp_hydration_key (sc_tasks s)))"

definition fresh_phases :: "string list \<Rightarrow> phase_content list \<Rightarrow> bool" where
  "fresh_phases keys ps \<longleftrightarrow> distinct (map pc_key ps) \<and> set (map pc_key ps) \<inter> set keys = {}"

definition plan_size :: "step_content list \<Rightarrow> nat" where
  "plan_size ss = (\<Sum>s \<leftarrow> ss. length (sc_tasks s))"

lemma fresh_steps_append:
  "fresh_steps keys (xs @ ys) \<longleftrightarrow> fresh_steps keys xs \<and> fresh_steps (rev (map sc_key xs) @ keys) ys"
  by (auto simp: fresh_steps_def)

lemma fresh_steps_Cons:
  "fresh_steps keys (s # ss) \<longleftrightarrow> sc_key s \<notin> set keys \<and>
     distinct (map tp_hydration_key (sc_tasks s)) \<and> fresh_steps (sc_key s # keys) ss"
  by (auto simp: fresh_steps_def)

lemma fresh_phases_Cons:
  "fresh_phases keys (p # ps) \<longleftrightarrow> pc_key p \<notin> set keys \<and> fresh_phases (pc_key p # keys) ps"
  by (auto simp: fresh_phases_def)

lemma scan_steps_cases:
  "(\<exists>e es. scan_steps keys n m ss = Inl (e # es) \<and> \<not> fresh_steps keys ss) \<or>
   (scan_steps keys n m ss = Inr (rev (map sc_key ss) @ keys, n + length ss, m + plan_size ss)
      \<and> fresh_steps keys ss)"
proof (induction ss arbitrary: keys n m)
  case (Cons s ss)
  from Cons.IH [of "sc_key s # keys" "n + 1" "m + length (sc_tasks s)"]
  show ?case by (auto simp: fresh_steps_Cons plan_size_def)
qed (simp add: fresh_steps_def plan_size_def)

lemma scan_phases_cases:
  "(\<exists>e es. scan_phases pks keys n m ps = Inl (e # es) \<and>
      \<not> (fresh_phases pks ps \<and> fresh_steps keys (concat (map pc_steps ps)))) \<or>
   (scan_phases pks keys n m ps =
      Inr (rev (map sc_key (concat (map pc_steps ps))) @ keys,
        n + length (concat (map pc_steps ps)), m + plan_size (concat (map pc_steps ps))) \<and>
      fresh_phases pks ps \<and> fresh_steps keys (concat (map pc_steps ps)))"
proof (induction ps arbitrary: pks keys n m)
  case (Cons p ps)
  let ?ss = "pc_steps p"
  from scan_steps_cases [of keys n m ?ss]
  show ?case
  proof
    assume "\<exists>e es. scan_steps keys n m ?ss = Inl (e # es) \<and> \<not> fresh_steps keys ?ss"
    then show ?thesis by (auto simp: fresh_phases_Cons fresh_steps_append)
  next
    assume "scan_steps keys n m ?ss
        = Inr (rev (map sc_key ?ss) @ keys, n + length ?ss, m + plan_size ?ss)
      \<and> fresh_steps keys ?ss"
    with Cons.IH [of "pc_key p # pks" "rev (map sc_key ?ss) @ keys" "n + length ?ss"
        "m + plan_size ?ss"]
    show ?thesis by (auto simp: fresh_phases_Cons fresh_steps_append plan_size_def)
  qed
qed (simp add: fresh_phases_def fresh_steps_def plan_size_def)

lemma check_targets_empty:
  "check_targets keys own ks = [] \<longleftrightarrow> own \<notin> set ks \<and> set ks \<subseteq> set keys"
  by (induction ks) auto

lemma check_dependencies_empty:
  "check_dependencies keys ss = [] \<longleftrightarrow>
     (\<forall>s \<in> set ss. distinct (sc_depends_on s) \<and> sc_key s \<notin> set (sc_depends_on s)
        \<and> set (sc_depends_on s) \<subseteq> set keys)"
  by (induction ss) (auto simp: check_targets_empty [symmetric] split: list.splits)

lemma document_dep_edges:
  assumes "distinct (map sc_key (document_steps d))"
  shows "dep_edges (document_edges d) = depends_relation d"
proof -
  have "map_of (document_edges d) (sc_key s) = Some (sc_depends_on s)"
    if "s \<in> set (document_steps d)" for s
    using that assms by (auto simp: document_edges_def comp_def intro!: map_of_is_SomeI)
  then show ?thesis
    unfolding dep_edges_def depends_relation_def targets_def has_key_iff
    by (force simp: document_edges_def)
qed

text \<open>Validation, as the fact the writes rest on; the property below states it.\<close>

lemma validation_exact:
  "roadmap_document_errors d = [] \<longleftrightarrow> well_formed_plan d"
proof -
  let ?ss = "document_steps d"
  from scan_phases_cases [of "[]" "[]" 0 0 "rd_phases d"]
  show ?thesis
  proof
    assume "\<exists>e es. scan_phases [] [] 0 0 (rd_phases d) = Inl (e # es) \<and>
      \<not> (fresh_phases [] (rd_phases d) \<and> fresh_steps [] (concat (map pc_steps (rd_phases d))))"
    then show ?thesis
      by (auto simp: roadmap_document_errors_def well_formed_plan_def document_steps_def
          fresh_phases_def fresh_steps_def)
  next
    assume a: "scan_phases [] [] 0 0 (rd_phases d) =
        Inr (rev (map sc_key (concat (map pc_steps (rd_phases d)))) @ [],
          0 + length (concat (map pc_steps (rd_phases d))),
          0 + plan_size (concat (map pc_steps (rd_phases d)))) \<and>
      fresh_phases [] (rd_phases d) \<and> fresh_steps [] (concat (map pc_steps (rd_phases d)))"
    then have dk: "distinct (map sc_key ?ss)" by (simp add: fresh_steps_def document_steps_def)
    have cyc: "find_dependency_cycle (document_edges d) = None \<longleftrightarrow> acyclic (depends_relation d)"
      using dependency_rule.decides [of "document_edges d"] document_dep_edges [OF dk] by simp
    have self: "sc_key s \<notin> set (sc_depends_on s)"
      if "acyclic (depends_relation d)" "s \<in> set ?ss" for s
      using that by (auto simp: depends_relation_def acyclic_def)
    have "roadmap_document_errors d = [] \<longleftrightarrow> length ?ss \<le> MAX_STEPS \<and> plan_size ?ss \<le> MAX_TASK_PLAN \<and>
        check_dependencies (rev (map sc_key ?ss)) ?ss = [] \<and> acyclic (depends_relation d)"
      using a cyc by (auto simp: roadmap_document_errors_def document_steps_def split: list.splits)
    then show ?thesis
      using a self
      by (auto simp: well_formed_plan_def check_dependencies_empty plan_size_def fresh_phases_def
          fresh_steps_def document_steps_def [symmetric])
  qed
qed

text \<open>Property C5. Validation of an imported or proposed document is exact: no error is
  reported exactly for the plans whose phase, step and hydration keys are unique where they
  must be, that stay within the step and task limits, whose dependencies name other steps of
  the plan once each, and whose dependency graph is acyclic.\<close>

theorem roadmap_document_errors_correct:
  "roadmap_document_errors d = [] \<longleftrightarrow> well_formed_plan d"
  by (rule validation_exact)

subsection \<open>Authority over the lifecycle\<close>

text \<open>What a writer without provisioning rights can do to a roadmap.\<close>

definition writer_step :: "roadmap_status \<Rightarrow> roadmap_transition \<Rightarrow> roadmap_status option" where
  "writer_step s t = (if transition_requires_provision s t then None else transition_target s t)"

interpretation writer_lifecycle: lifecycle writer_step "\<lambda>s. s \<noteq> RS_DRAFT"
  by unfold_locales (auto simp: writer_step_def transition_requires_provision_def writer_transitions_def)

lemma writer_step_targets: "writer_step RS_DRAFT t = Some s \<Longrightarrow> s \<in> {RS_PROPOSED, RS_ARCHIVED}"
  by (cases t) (auto simp: writer_step_def transition_requires_provision_def writer_transitions_def
      split: if_splits)

text \<open>Whatever transitions a writer without provisioning rights requests, and in
  whatever order, the roadmap keeps its status, except that a draft may end up proposed or
  archived: such a writer never activates, approves, completes or archives an approved plan.\<close>

theorem writer_never_activates:
  "writer_lifecycle.run s ts = s \<or>
   (s = RS_DRAFT \<and> writer_lifecycle.run s ts \<in> {RS_PROPOSED, RS_ARCHIVED})"
proof (cases "s = RS_DRAFT")
  case True
  have "writer_lifecycle.run RS_DRAFT ts \<in> {RS_DRAFT, RS_PROPOSED, RS_ARCHIVED}"
    by (rule writer_lifecycle.run_invariant)
      (auto simp: writer_lifecycle.final_stuck dest: writer_step_targets)
  with True show ?thesis by auto
qed (simp add: writer_lifecycle.final_forever)

subsection \<open>What progress means\<close>

lemma filter_length_complement:
  "length (filter P xs) + length (filter (\<lambda>x. \<not> P x) xs) = length xs"
  by (induction xs) auto

lemma length_filter_eq: "length (filter P xs) = length xs \<longleftrightarrow> list_all P xs"
  using filter_length_complement [of P xs] by (auto simp: list_all_iff filter_empty_conv)

text \<open>Progress is a well-defined fraction of the steps that count: the steps done
  never exceed the total, total and skipped account for every step, the ratio lies between 0
  and 1, and it is 1 exactly when every step is done or skipped.\<close>

theorem compute_progress_exact:
  "pr_done (compute_progress ss) \<le> pr_total (compute_progress ss) \<and>
   pr_total (compute_progress ss) + pr_skipped (compute_progress ss) = length ss \<and>
   0 \<le> pr_ratio (compute_progress ss) \<and> pr_ratio (compute_progress ss) \<le> 1 \<and>
   (pr_ratio (compute_progress ss) = 1 \<longleftrightarrow> list_all (\<lambda>s. s = SS_DONE \<or> s = SS_SKIPPED) ss)"
proof -
  let ?counted = "filter (\<lambda>s. s \<noteq> SS_SKIPPED) ss"
  let ?done = "length (filter (\<lambda>s. s = SS_DONE) ?counted)"
  have le: "?done \<le> length ?counted" by (rule length_filter_le)
  have all: "?done = length ?counted \<longleftrightarrow> list_all (\<lambda>s. s = SS_DONE \<or> s = SS_SKIPPED) ss"
    unfolding length_filter_eq by (auto simp: list_all_iff)
  have "length ?counted = 0 \<Longrightarrow> list_all (\<lambda>s. s = SS_DONE \<or> s = SS_SKIPPED) ss"
    by (auto simp: filter_empty_conv list_all_iff)
  then show ?thesis
    using le all filter_length_complement [of "\<lambda>s. s = SS_SKIPPED" ss]
    by (auto simp: compute_progress_def Let_def divide_le_eq_1 zero_le_divide_iff)
qed

text \<open>A step's state is derived, never guessed: the override wins; otherwise the
  state depends only on which task statuses occur (not on their order or number), a step
  without tasks is not started, it is done exactly when it has tasks and all are completed,
  and blocked exactly when one is blocked.\<close>

theorem derive_step_state_exact:
  "derive_step_state (Some SO_SKIPPED) ts = SS_SKIPPED \<and>
   derive_step_state (Some SO_DONE) ts = SS_DONE \<and>
   (derive_step_state None ts = SS_DONE \<longleftrightarrow> set ts = {TV_COMPLETED}) \<and>
   (derive_step_state None ts = SS_BLOCKED \<longleftrightarrow> TV_BLOCKED \<in> set ts) \<and>
   (derive_step_state None ts = SS_IN_PROGRESS
      \<longleftrightarrow> TV_IN_PROGRESS \<in> set ts \<and> TV_BLOCKED \<notin> set ts) \<and>
   (derive_step_state None ts = SS_NOT_STARTED
      \<longleftrightarrow> set ts \<subseteq> {TV_CREATED, TV_COMPLETED} \<and> set ts \<noteq> {TV_COMPLETED})"
proof -
  have all: "ts \<noteq> [] \<and> list_all (\<lambda>s. s = TV_COMPLETED) ts \<longleftrightarrow> set ts = {TV_COMPLETED}"
    by (cases ts) (auto simp: list_all_iff)
  have ex: "list_ex (\<lambda>s. s = v) ts \<longleftrightarrow> v \<in> set ts" for v by (auto simp: list_ex_iff)
  have "set ts \<subseteq> {TV_CREATED, TV_COMPLETED} \<longleftrightarrow> TV_BLOCKED \<notin> set ts \<and> TV_IN_PROGRESS \<notin> set ts"
  proof
    assume a: "TV_BLOCKED \<notin> set ts \<and> TV_IN_PROGRESS \<notin> set ts"
    show "set ts \<subseteq> {TV_CREATED, TV_COMPLETED}"
    proof
      fix x assume "x \<in> set ts" with a show "x \<in> {TV_CREATED, TV_COMPLETED}" by (cases x) auto
    qed
  qed auto
  then show ?thesis unfolding derive_step_state_def all ex by auto
qed

end
