(* ===== verification/Ordered_Lists.thy ===== *)
theory Ordered_Lists
  imports Roadmap_Graph "HOL-Library.Multiset"
begin

section \<open>Rows put in bulk, and lists read back in order\<close>

text \<open>
  Generic facts the roadmap components share: a table after a run of \<open>tbl_put\<close>s, the order a
  \<open>sort\<close> with distinct keys produces, positions in a list, and acyclicity under a renaming of
  the nodes or a disjoint union of graphs.
\<close>

subsection \<open>Tables\<close>

lemma fold_tbl_put_wf: "tbl_wf key rs \<Longrightarrow> tbl_wf key (fold (tbl_put key) rows rs)"
  by (induction rows arbitrary: rs) (auto intro: tbl_wf_put)

lemma fold_tbl_put_set:
  assumes "distinct (map key rows)" and "tbl_wf key rs"
  shows "set (fold (tbl_put key) rows rs) = set rows \<union> {r \<in> set rs. key r \<notin> key ` set rows}"
  using assms
proof (induction rows arbitrary: rs)
  case (Cons x xs)
  have wf: "tbl_wf key (tbl_put key x rs)" using Cons.prems(2) by (rule tbl_wf_put)
  have "set (fold (tbl_put key) (x # xs) rs)
      = set xs \<union> {r \<in> insert x {r \<in> set rs. key r \<noteq> key x}. key r \<notin> key ` set xs}"
    using Cons.IH [OF _ wf] Cons.prems by (simp add: tbl_put_set)
  then show ?case using Cons.prems(1) by auto
qed simp

lemma tbl_get_fold_put:
  assumes "distinct (map key rows)"
  shows "tbl_get key (fold (tbl_put key) rows rs) k
    = (case tbl_get key rows k of None \<Rightarrow> tbl_get key rs k | Some r \<Rightarrow> Some r)"
  using assms
proof (induction rows arbitrary: rs)
  case (Cons x xs)
  have "tbl_get key xs (key x) = None" using Cons.prems by (auto simp: tbl_get_None_iff)
  with Cons show ?case by (auto split: option.split)
qed simp

subsection \<open>Sorting and positions\<close>

lemma sort_key_unique:
  fixes f :: "'a \<Rightarrow> 'b :: linorder"
  assumes "mset xs = mset ys" and "sorted_wrt (\<lambda>a b. f a < f b) ys"
  shows "sort_key f xs = ys"
proof (rule properties_for_sort_key)
  show "mset ys = mset xs" using assms(1) by simp
  have strict: "sorted_wrt (<) (map f ys)" using assms(2) by (simp add: sorted_wrt_map)
  then have d: "distinct (map f ys)" and "sorted (map f ys)" by (simp_all add: strict_sorted_iff)
  then have "inj_on f (set ys)" by (simp add: distinct_map)
  show "sorted (map f ys)" by fact
  show "filter (\<lambda>x. f k = f x) ys = filter (\<lambda>x. f k = f x) xs" if "k \<in> set ys" for k
  proof -
    have eq: "filter (\<lambda>x. f k = f x) zs = filter (\<lambda>x. x = k) zs" if "set zs = set ys" for zs
      using that \<open>inj_on f (set ys)\<close> \<open>k \<in> set ys\<close> by (intro filter_cong) (auto simp: inj_on_def)
    have "mset (filter (\<lambda>x. x = k) xs) = mset (filter (\<lambda>x. x = k) ys)" using assms(1) by simp
    moreover have "filter (\<lambda>x. x = k) zs = replicate (count_list zs k) k" for zs
      by (induction zs) auto
    ultimately have "filter (\<lambda>x. x = k) xs = filter (\<lambda>x. x = k) ys"
      by (metis size_mset length_replicate)
    then show ?thesis using eq [of xs] eq [of ys] mset_eq_setD [OF assms(1)] by simp
  qed
qed

lemma sort_key_twice:
  fixes f :: "'a \<Rightarrow> 'b :: linorder" and g :: "'a \<Rightarrow> 'c :: linorder"
  assumes "mset xs = mset ys" and "sorted_wrt (\<lambda>a b. f a < f b \<or> (f a = f b \<and> g a < g b)) ys"
  shows "sort_key f (sort_key g xs) = ys"
proof (rule properties_for_sort_key)
  show "mset ys = mset (sort_key g xs)" using assms(1) by simp
  show "sorted (map f ys)" using assms(2) by (induction ys) (auto simp: less_imp_le)
  fix k assume "k \<in> set ys"
  have "sorted_wrt (\<lambda>a b. g a < g b) (filter (\<lambda>x. f k = f x) ys)"
    using assms(2) by (induction ys) auto
  moreover have "mset (filter (\<lambda>x. f k = f x) xs) = mset (filter (\<lambda>x. f k = f x) ys)"
    using assms(1) by simp
  ultimately have "sort_key g (filter (\<lambda>x. f k = f x) xs) = filter (\<lambda>x. f k = f x) ys"
    by (intro sort_key_unique)
  then show "filter (\<lambda>x. f k = f x) ys = filter (\<lambda>x. f k = f x) (sort_key g xs)"
    by (simp add: filter_sort)
qed

lemma insort_key_map:
  "map h (insort_key (\<lambda>x. g (h x)) x xs) = insort_key g (h x) (map h xs)"
  by (induction xs) auto

lemma sort_key_map: "sort_key g (map h xs) = map h (sort_key (\<lambda>x. g (h x)) xs)"
  by (induction xs) (simp_all add: insort_key_map)

lemma sort_key_cong_on:
  assumes "\<And>x. x \<in> set xs \<Longrightarrow> f x = g x"
  shows "sort_key f xs = sort_key g xs"
  using assms
proof (induction xs)
  case (Cons x xs)
  have "insort_key f x ys = insort_key g x ys" if "\<And>y. y \<in> set (x # ys) \<Longrightarrow> f y = g y" for ys
    using that by (induction ys) auto
  from this [of "sort_key g xs"] Cons show ?case by simp
qed simp

lemma index_of_map:
  assumes "inj_on h (insert x (set xs))"
  shows "index_of (h x) (map h xs) = index_of x xs"
  using assms by (induction xs) (auto simp: index_of_def inj_on_def)

lemma index_of_less: "x \<in> set xs \<Longrightarrow> index_of x xs < length xs"
  by (induction xs) (auto simp: index_of_def)

lemma index_of_nth: "distinct xs \<Longrightarrow> i < length xs \<Longrightarrow> index_of (xs ! i) xs = i"
proof (induction xs arbitrary: i)
  case (Cons x xs)
  then show ?case by (cases i) (auto simp: index_of_def)
qed simp

lemma map_enumerate_snd: "map (\<lambda>(i, x). f x) (enumerate n xs) = map f xs"
  by (induction xs arbitrary: n) auto

lemma sorted_enumerate:
  assumes "\<And>i x. pos (f i x) = i"
  shows "sorted_wrt (\<lambda>a b. (pos a :: nat) < pos b) (map (\<lambda>(i, x). f i x) (enumerate n xs))"
  using assms by (induction xs arbitrary: n) (auto simp: in_set_enumerate_eq)

lemma find_unique:
  assumes "tbl_wf key xs" and "x \<in> set xs" and "key x = k" and "\<And>y. y \<in> set xs \<Longrightarrow> P y \<longleftrightarrow> key y = k"
  shows "find P xs = Some x"
proof -
  obtain y where y: "find P xs = Some y" using assms(2-4) by (cases "find P xs") (auto simp: find_None_iff)
  then have "y \<in> set xs" "P y" by (auto simp: find_Some_iff)
  then have "key y = key x" using assms(3,4) by simp
  then show ?thesis using y assms(1,2) \<open>y \<in> set xs\<close> by (auto simp: tbl_wf_def distinct_map inj_on_def)
qed

subsection \<open>Acyclic graphs\<close>

lemma trancl_map_inj:
  assumes "(x, y) \<in> (map_prod f f ` R)\<^sup>+" and "inj_on f (Field R)"
  shows "\<exists>a b. x = f a \<and> y = f b \<and> (a, b) \<in> R\<^sup>+"
  using assms(1)
proof (induction rule: trancl_induct)
  case (step y z)
  then obtain a b c d where xy: "x = f a" "y = f b" "(a, b) \<in> R\<^sup>+" and yz: "y = f c" "z = f d" "(c, d) \<in> R"
    by auto
  have "b \<in> Field R" using xy(3) by (metis FieldI2 trancl.cases)
  then have "b = c" using assms(2) xy yz by (auto simp: inj_on_def Field_def)
  with xy yz show ?case by (blast intro: trancl_into_trancl)
qed auto

lemma acyclic_map_inj:
  assumes "acyclic R" and "inj_on f (Field R)"
  shows "acyclic (map_prod f f ` R)"
proof (rule acyclicI, intro allI notI)
  fix x assume "(x, x) \<in> (map_prod f f ` R)\<^sup>+"
  from trancl_map_inj [OF this assms(2)] obtain a b where
    ab: "x = f a" "x = f b" "(a, b) \<in> R\<^sup>+" by blast
  have "a \<in> Field R" "b \<in> Field R"
    using ab(3) by (metis FieldI1 tranclD, metis FieldI2 trancl.cases)
  then have "a = b" using ab assms(2) by (auto simp: inj_on_def)
  with ab assms(1) show False by (auto simp: acyclic_def)
qed

lemma acyclic_union_disjoint:
  assumes "acyclic R" and "acyclic S" and "Field R \<inter> Field S = {}"
  shows "acyclic (R \<union> S)"
proof (rule acyclicI, intro allI notI)
  have split: "(x, y) \<in> R\<^sup>+ \<or> (x, y) \<in> S\<^sup>+" if "(x, y) \<in> (R \<union> S)\<^sup>+" for x y
    using that
  proof (induction rule: trancl_induct)
    case (step y z)
    have f: "y \<in> Field Q" if "(x, y) \<in> Q\<^sup>+" for Q :: "('a \<times> 'a) set"
      using that by (metis FieldI2 trancl.cases)
    have only: "(y, z) \<in> R \<Longrightarrow> y \<in> Field R" "(y, z) \<in> S \<Longrightarrow> y \<in> Field S"
      by (auto simp: Field_def)
    from step.IH show ?case
    proof
      assume r: "(x, y) \<in> R\<^sup>+"
      then have "(y, z) \<in> R" using f [of R] only step.hyps(2) assms(3) by blast
      with r show ?thesis by (blast intro: trancl_into_trancl)
    next
      assume s: "(x, y) \<in> S\<^sup>+"
      then have "(y, z) \<in> S" using f [of S] only step.hyps(2) assms(3) by blast
      with s show ?thesis by (blast intro: trancl_into_trancl)
    qed
  qed auto
  fix x assume "(x, x) \<in> (R \<union> S)\<^sup>+"
  with split assms(1,2) show False by (auto simp: acyclic_def)
qed

end
