(* ===== verification/Roadmap_Plan.thy ===== *)
theory Roadmap_Plan
  imports Tasks Roadmap_Rules Ordered_Lists
begin

section \<open>The persisted plan and its read models (\<open>services/roadmap_support.py\<close>)\<close>

text \<open>
  The roadmap tables (\<open>db/models/roadmap.py\<close>), the plan tree one request loads from them, the
  views derived from the tree, the neutral document it exports and the diff of two documents.
  \<open>plan_db\<close> is the database the roadmap services see: the tables of \<open>db\<close> and those of the
  plan. A JSON column (\<open>metadata\<close>, \<open>task_plan\<close>, \<open>content\<close>) holds the value that was dumped into
  it. Row stamps (\<open>created_at\<close>, \<open>updated_at\<close>) are kept where the code orders by them.
\<close>

subsection \<open>Rows\<close>

record provenance_cols =
  pv_origin :: roadmap_origin
  pv_actor_type :: actor_type
  pv_actor_id :: uuid
  pv_agent_id :: "uuid option"
  pv_machine_id :: "uuid option"

record roadmap_row =
  rm_id :: uuid
  rm_project_id :: uuid
  rm_title :: string
  rm_objective :: "string option"
  rm_context :: "string option"
  rm_status :: roadmap_status
  rm_metadata :: metadata
  rm_revision_no :: int
  rm_approved_revision_no :: "int option"
  rm_version :: int
  rm_created_at :: timestamp
  rm_prov :: provenance_cols

record phase_row =
  ph_id :: uuid
  ph_roadmap_id :: uuid
  ph_key :: string
  ph_position :: nat
  ph_title :: string
  ph_objective :: "string option"
  ph_version :: int
  ph_prov :: provenance_cols

record step_row =
  sp_id :: uuid
  sp_roadmap_id :: uuid
  sp_phase_id :: uuid
  sp_key :: string
  sp_position :: nat
  sp_title :: string
  sp_objective :: "string option"
  sp_context :: "string option"
  sp_instructions :: "string option"
  sp_acceptance_criteria :: "string list"
  sp_criteria_checked :: "nat list"
  sp_notes :: "string option"
  sp_metadata :: metadata
  sp_task_plan :: "task_plan_item list"
  sp_state_override :: "step_state_override option"
  sp_state_override_reason :: "string option"
  sp_version :: int
  sp_prov :: provenance_cols

record dependency_row =
  dp_step_id :: uuid
  dp_depends_on_step_id :: uuid
  dp_roadmap_id :: uuid

record link_row =
  lk_id :: uuid
  lk_step_id :: uuid
  lk_task_id :: uuid
  lk_hydration_key :: "string option"
  lk_created_at :: timestamp
  lk_prov :: provenance_cols

datatype revision_kind = RK_PROPOSAL | RK_SNAPSHOT | RK_REVIEW

datatype revision_status = RN_PENDING | RN_APPROVED | RN_CHANGES_REQUESTED | RN_REJECTED | RN_SUPERSEDED

record revision_row =
  rn_id :: uuid
  rn_roadmap_id :: uuid
  rn_revision_no :: int
  rn_kind :: revision_kind
  rn_status :: "revision_status option"
  rn_base_revision_no :: "int option"
  rn_summary :: "string option"
  rn_content :: "roadmap_document option"
  rn_reviewed_by_user_id :: "uuid option"
  rn_reviewed_at :: "timestamp option"
  rn_review_comment :: "string option"
  rn_prov :: provenance_cols

record plan_db =
  pl_db :: db
  pl_roadmaps :: "roadmap_row list"
  pl_phases :: "phase_row list"
  pl_steps :: "step_row list"
  pl_deps :: "dependency_row list"
  pl_links :: "link_row list"
  pl_revisions :: "revision_row list"

definition get_roadmap_row :: "plan_db \<Rightarrow> uuid \<Rightarrow> roadmap_row option" where
  "get_roadmap_row pl = tbl_get rm_id (pl_roadmaps pl)"

definition put_roadmap :: "roadmap_row \<Rightarrow> plan_db \<Rightarrow> plan_db" where
  "put_roadmap r pl = pl\<lparr>pl_roadmaps := tbl_put rm_id r (pl_roadmaps pl)\<rparr>"

definition put_phase :: "phase_row \<Rightarrow> plan_db \<Rightarrow> plan_db" where
  "put_phase r pl = pl\<lparr>pl_phases := tbl_put ph_id r (pl_phases pl)\<rparr>"

definition put_step :: "step_row \<Rightarrow> plan_db \<Rightarrow> plan_db" where
  "put_step r pl = pl\<lparr>pl_steps := tbl_put sp_id r (pl_steps pl)\<rparr>"

definition put_revision :: "revision_row \<Rightarrow> plan_db \<Rightarrow> plan_db" where
  "put_revision r pl = pl\<lparr>pl_revisions := tbl_put rn_id r (pl_revisions pl)\<rparr>"

definition add_dependencies :: "dependency_row list \<Rightarrow> plan_db \<Rightarrow> plan_db" where
  "add_dependencies es pl = pl\<lparr>pl_deps := pl_deps pl @ es\<rparr>"

definition add_link :: "link_row \<Rightarrow> plan_db \<Rightarrow> plan_db" where
  "add_link l pl = pl\<lparr>pl_links := pl_links pl @ [l]\<rparr>"

text \<open>\<open>ON DELETE CASCADE\<close>: the dependencies and links of a step go with it.\<close>

definition delete_steps :: "(step_row \<Rightarrow> bool) \<Rightarrow> plan_db \<Rightarrow> plan_db" where
  "delete_steps gone pl =
     (let ids = map sp_id (filter gone (pl_steps pl))
      in pl\<lparr>pl_steps := filter (\<lambda>s. \<not> gone s) (pl_steps pl),
            pl_deps := filter (\<lambda>e. dp_step_id e \<notin> set ids \<and> dp_depends_on_step_id e \<notin> set ids) (pl_deps pl),
            pl_links := filter (\<lambda>l. lk_step_id l \<notin> set ids) (pl_links pl)\<rparr>)"

definition delete_phases :: "(phase_row \<Rightarrow> bool) \<Rightarrow> plan_db \<Rightarrow> plan_db" where
  "delete_phases gone pl =
     (let ids = map ph_id (filter gone (pl_phases pl));
          pl' = delete_steps (\<lambda>s. sp_phase_id s \<in> set ids) pl
      in pl'\<lparr>pl_phases := filter (\<lambda>p. \<not> gone p) (pl_phases pl')\<rparr>)"

subsection \<open>The plan tree\<close>

record roadmap_tree =
  tr_roadmap :: roadmap_row
  tr_phases :: "phase_row list"
  tr_steps :: "step_row list"
  tr_deps :: "uuid \<Rightarrow> uuid list"
  tr_links :: "uuid \<Rightarrow> link_row list"
  tr_task_status :: "uuid \<Rightarrow> task_status_value option"

definition steps_of :: "roadmap_tree \<Rightarrow> uuid \<Rightarrow> step_row list" where
  "steps_of t phase_id = filter (\<lambda>s. sp_phase_id s = phase_id) (tr_steps t)"

definition step_by_key :: "roadmap_tree \<Rightarrow> string \<Rightarrow> step_row option" where
  "step_by_key t key = find (\<lambda>s. sp_key s = key) (tr_steps t)"

definition phase_by_key :: "roadmap_tree \<Rightarrow> string \<Rightarrow> phase_row option" where
  "phase_by_key t key = find (\<lambda>p. ph_key p = key) (tr_phases t)"

text \<open>A dependency stays inside its roadmap, so the lookup of its key does not fail.\<close>

definition key_of :: "roadmap_tree \<Rightarrow> uuid \<Rightarrow> string" where
  "key_of t step_id =
     (case find (\<lambda>s. sp_id s = step_id) (tr_steps t) of Some s \<Rightarrow> sp_key s | None \<Rightarrow> [])"

definition depends_on_keys :: "roadmap_tree \<Rightarrow> step_row \<Rightarrow> string list" where
  "depends_on_keys t s =
     map (key_of t) (sort_key (\<lambda>i. index_of i (map sp_id (tr_steps t))) (tr_deps t (sp_id s)))"

definition tree_edges :: "roadmap_tree \<Rightarrow> string edges" where
  "tree_edges t = map (\<lambda>s. (sp_key s, depends_on_keys t s)) (tr_steps t)"

definition tree_state :: "roadmap_tree \<Rightarrow> step_row \<Rightarrow> step_state" where
  "tree_state t s =
     derive_step_state (sp_state_override s)
       (List.map_filter (\<lambda>l. tr_task_status t (lk_task_id l)) (tr_links t (sp_id s)))"

definition tree_states :: "roadmap_tree \<Rightarrow> string \<Rightarrow> step_state option" where
  "tree_states t = map_of (map (\<lambda>s. (sp_key s, tree_state t s)) (tr_steps t))"

fun task_status_of :: "task_status \<Rightarrow> task_status_value" where
  "task_status_of TaskStatus_CREATED = TV_CREATED"
| "task_status_of TaskStatus_IN_PROGRESS = TV_IN_PROGRESS"
| "task_status_of TaskStatus_BLOCKED = TV_BLOCKED"
| "task_status_of TaskStatus_COMPLETED = TV_COMPLETED"

text \<open>Plan order of the hydration key, then creation order, then the id.\<close>

definition plan_index :: "step_row \<Rightarrow> string \<Rightarrow> nat" where
  "plan_index s hydration_key =
     (let keys = map tp_hydration_key (sp_task_plan s)
      in case map_of (rev (zip keys [0..<length keys])) hydration_key of
           Some i \<Rightarrow> i
         | None \<Rightarrow> length (remdups keys))"

definition link_order :: "step_row \<Rightarrow> link_row \<Rightarrow> nat \<times> timestamp \<times> uuid" where
  "link_order s l =
     (plan_index s (case lk_hydration_key l of Some k \<Rightarrow> k | None \<Rightarrow> []), lk_created_at l, lk_id l)"

definition roadmap_phases :: "plan_db \<Rightarrow> roadmap_row \<Rightarrow> phase_row list" where
  "roadmap_phases pl r =
     sort_key (\<lambda>p. (ph_position p, ph_key p))
       (filter (\<lambda>p. ph_roadmap_id p = rm_id r) (pl_phases pl))"

definition roadmap_steps :: "plan_db \<Rightarrow> roadmap_row \<Rightarrow> step_row list" where
  "roadmap_steps pl r =
     sort_key (\<lambda>s. index_of (sp_phase_id s) (map ph_id (roadmap_phases pl r)))
       (sort_key (\<lambda>s. (sp_position s, sp_key s))
         (filter (\<lambda>s. sp_roadmap_id s = rm_id r) (pl_steps pl)))"

definition step_links :: "plan_db \<Rightarrow> step_row list \<Rightarrow> uuid \<Rightarrow> link_row list" where
  "step_links pl steps step_id =
     (case find (\<lambda>s. sp_id s = step_id) steps of
        None \<Rightarrow> []
      | Some s \<Rightarrow> sort_key (link_order s) (filter (\<lambda>l. lk_step_id l = step_id) (pl_links pl)))"

definition load_tree :: "plan_db \<Rightarrow> roadmap_row \<Rightarrow> roadmap_tree" where
  "load_tree pl r =
     (let steps = roadmap_steps pl r
      in \<lparr>tr_roadmap = r, tr_phases = roadmap_phases pl r, tr_steps = steps,
          tr_deps = (\<lambda>i. map dp_depends_on_step_id
            (filter (\<lambda>e. dp_step_id e = i) (filter (\<lambda>e. dp_roadmap_id e = rm_id r) (pl_deps pl)))),
          tr_links = step_links pl steps,
          tr_task_status = (\<lambda>i. map_option (\<lambda>t. task_status_of (t_status t)) (get_task_row (pl_db pl) i))\<rparr>)"

subsection \<open>Views\<close>

record step_view =
  sv_step :: step_row
  sv_depends_on :: "string list"
  sv_linked_tasks :: "(uuid \<times> string option \<times> roadmap_origin) list"
  sv_state :: step_state
  sv_available :: bool
  sv_waiting_on :: "string list"
  sv_completed :: nat
  sv_total :: nat

definition step_finished :: "step_state \<Rightarrow> bool" where
  "step_finished st \<longleftrightarrow> st = SS_DONE \<or> st = SS_SKIPPED"

definition build_step_view :: "roadmap_tree \<Rightarrow> step_row \<Rightarrow> step_view" where
  "build_step_view t s =
     (let depends_on = depends_on_keys t s;
          links = tr_links t (sp_id s);
          state = tree_state t s;
          waiting = waiting_on depends_on (tree_states t)
      in \<lparr>sv_step = s, sv_depends_on = depends_on,
          sv_linked_tasks = map (\<lambda>l. (lk_task_id l, lk_hydration_key l, pv_origin (lk_prov l))) links,
          sv_state = state, sv_available = (\<not> step_finished state \<and> waiting = []),
          sv_waiting_on = waiting,
          sv_completed = length (filter (\<lambda>l. tr_task_status t (lk_task_id l) = Some TV_COMPLETED) links),
          sv_total = length links\<rparr>)"

definition tree_progress :: "roadmap_tree \<Rightarrow> uuid option \<Rightarrow> progress" where
  "tree_progress t phase_id =
     compute_progress (map (tree_state t)
       (filter (\<lambda>s. phase_id = None \<or> phase_id = Some (sp_phase_id s)) (tr_steps t)))"

record phase_view =
  fv_phase :: phase_row
  fv_progress :: progress
  fv_steps :: "step_view list"

record roadmap_summary =
  ry_roadmap :: roadmap_row
  ry_progress :: progress
  ry_current_step_key :: "string option"

record roadmap_view =
  rw_summary :: roadmap_summary
  rw_phases :: "phase_view list"

definition build_roadmap :: "roadmap_tree \<Rightarrow> roadmap_view" where
  "build_roadmap t =
     (let current = map_option sp_key (find (\<lambda>s. sv_available (build_step_view t s)) (tr_steps t))
      in \<lparr>rw_summary = \<lparr>ry_roadmap = tr_roadmap t, ry_progress = tree_progress t None,
            ry_current_step_key = current\<rparr>,
          rw_phases = map (\<lambda>p. \<lparr>fv_phase = p, fv_progress = tree_progress t (Some (ph_id p)),
            fv_steps = map (build_step_view t) (steps_of t (ph_id p))\<rparr>) (tr_phases t)\<rparr>)"

fun first_open_step :: "roadmap_tree \<Rightarrow> step_row list \<Rightarrow> string option" where
  "first_open_step t [] = None"
| "first_open_step t (s # ss) =
     (if step_finished (tree_state t s) then first_open_step t ss
      else if waiting_on (depends_on_keys t s) (tree_states t) = [] then Some (sp_key s)
      else first_open_step t ss)"

definition build_summary :: "roadmap_tree \<Rightarrow> roadmap_summary" where
  "build_summary t =
     \<lparr>ry_roadmap = tr_roadmap t, ry_progress = tree_progress t None,
      ry_current_step_key = first_open_step t (tr_steps t)\<rparr>"

subsection \<open>The neutral document\<close>

definition step_content_of :: "roadmap_tree \<Rightarrow> step_row \<Rightarrow> step_content" where
  "step_content_of t s =
     \<lparr>sc_key = sp_key s, sc_title = sp_title s, sc_objective = sp_objective s,
      sc_context = sp_context s, sc_instructions = sp_instructions s,
      sc_acceptance_criteria = sp_acceptance_criteria s, sc_notes = sp_notes s,
      sc_metadata = sp_metadata s, sc_depends_on = depends_on_keys t s, sc_tasks = sp_task_plan s\<rparr>"

definition phase_content_of :: "roadmap_tree \<Rightarrow> phase_row \<Rightarrow> phase_content" where
  "phase_content_of t p =
     \<lparr>pc_key = ph_key p, pc_title = ph_title p, pc_objective = ph_objective p,
      pc_steps = map (step_content_of t) (steps_of t (ph_id p))\<rparr>"

definition build_document :: "roadmap_tree \<Rightarrow> roadmap_document" where
  "build_document t =
     \<lparr>rd_title = rm_title (tr_roadmap t), rd_objective = rm_objective (tr_roadmap t),
      rd_context = rm_context (tr_roadmap t), rd_metadata = rm_metadata (tr_roadmap t),
      rd_phases = map (phase_content_of t) (tr_phases t),
      rd_exported_at = None, rd_revision_no = None\<rparr>"

definition text_or_none :: "string option \<Rightarrow> string option" where
  "text_or_none v = (if v = Some [] then None else v)"

subsection \<open>Diff of two documents\<close>

datatype diff_scope = DS_ROADMAP | DS_PHASE | DS_STEP | DS_DEPENDENCY | DS_TASK_PLAN

datatype diff_change = DC_ADDED | DC_REMOVED | DC_CHANGED

record diff_entry =
  de_scope :: diff_scope
  de_key :: "string option"
  de_change :: diff_change
  de_fields :: "string list"

definition py_dict :: "('k \<times> 'v) list \<Rightarrow> 'k \<Rightarrow> 'v option" where
  "py_dict items = map_of (rev items)"

text \<open>Two JSON objects are equal whatever the order of their members.\<close>

definition same_metadata :: "metadata \<Rightarrow> metadata \<Rightarrow> bool" where
  "same_metadata m m' \<longleftrightarrow> set m = set m'"

definition entry :: "diff_scope \<Rightarrow> string option \<Rightarrow> diff_change \<Rightarrow> string list \<Rightarrow> diff_entry" where
  "entry scope key change names =
     \<lparr>de_scope = scope, de_key = key, de_change = change, de_fields = names\<rparr>"

definition changed_names :: "(string \<times> bool) list \<Rightarrow> string list" where
  "changed_names tests = map fst (filter snd tests)"

definition entry_if :: "string list \<Rightarrow> diff_scope \<Rightarrow> string option \<Rightarrow> diff_change \<Rightarrow> diff_entry list" where
  "entry_if names scope key change = (if names = [] then [] else [entry scope key change names])"

definition diff_header :: "roadmap_document option \<Rightarrow> roadmap_document \<Rightarrow> diff_entry list" where
  "diff_header base proposal =
     (case base of
        None \<Rightarrow> [entry DS_ROADMAP None DC_ADDED []]
      | Some b \<Rightarrow>
          entry_if (changed_names
            [(''title'', rd_title b \<noteq> rd_title proposal),
             (''objective'', rd_objective b \<noteq> rd_objective proposal),
             (''context'', rd_context b \<noteq> rd_context proposal),
             (''metadata'', \<not> same_metadata (rd_metadata b) (rd_metadata proposal))])
            DS_ROADMAP None DC_CHANGED)"

definition diff_phase :: "string \<Rightarrow> phase_content option \<Rightarrow> phase_content option \<Rightarrow> diff_entry list" where
  "diff_phase key previous current =
     (case (previous, current) of
        (None, _) \<Rightarrow> [entry DS_PHASE (Some key) DC_ADDED []]
      | (Some _, None) \<Rightarrow> [entry DS_PHASE (Some key) DC_REMOVED []]
      | (Some old, Some new) \<Rightarrow>
          entry_if (changed_names [(''title'', pc_title old \<noteq> pc_title new),
              (''objective'', pc_objective old \<noteq> pc_objective new)])
            DS_PHASE (Some key) DC_CHANGED)"

definition diff_task_plan :: "task_plan_item list \<Rightarrow> task_plan_item list \<Rightarrow> string list" where
  "diff_task_plan old new =
     (let old_plan = py_dict (map (\<lambda>i. (tp_hydration_key i, tp_title i)) old);
          new_plan = py_dict (map (\<lambda>i. (tp_hydration_key i, tp_title i)) new);
          old_keys = map tp_hydration_key old; new_keys = map tp_hydration_key new
      in map (\<lambda>k. ''+'' @ k) (py_sorted_set (filter (\<lambda>k. k \<notin> set old_keys) new_keys)) @
         map (\<lambda>k. ''-'' @ k) (py_sorted_set (filter (\<lambda>k. k \<notin> set new_keys) old_keys)) @
         map (\<lambda>k. ''~'' @ k) (filter (\<lambda>k. old_plan k \<noteq> new_plan k)
           (py_sorted_set (filter (\<lambda>k. k \<in> set new_keys) old_keys))))"

definition diff_step ::
  "string \<Rightarrow> (string \<times> step_content) option \<Rightarrow> (string \<times> step_content) option \<Rightarrow> diff_entry list" where
  "diff_step key previous current =
     (case (previous, current) of
        (None, _) \<Rightarrow> [entry DS_STEP (Some key) DC_ADDED []]
      | (Some _, None) \<Rightarrow> [entry DS_STEP (Some key) DC_REMOVED []]
      | (Some (old_phase, old), Some (new_phase, new)) \<Rightarrow>
          entry_if (changed_names
            [(''phase'', old_phase \<noteq> new_phase),
             (''title'', sc_title old \<noteq> sc_title new),
             (''objective'', sc_objective old \<noteq> sc_objective new),
             (''context'', sc_context old \<noteq> sc_context new),
             (''instructions'', sc_instructions old \<noteq> sc_instructions new),
             (''acceptance_criteria'', sc_acceptance_criteria old \<noteq> sc_acceptance_criteria new),
             (''notes'', sc_notes old \<noteq> sc_notes new),
             (''metadata'', \<not> same_metadata (sc_metadata old) (sc_metadata new))])
            DS_STEP (Some key) DC_CHANGED @
          entry_if (py_sorted_set (filter (\<lambda>k. k \<notin> set (sc_depends_on old)) (sc_depends_on new)))
            DS_DEPENDENCY (Some key) DC_ADDED @
          entry_if (py_sorted_set (filter (\<lambda>k. k \<notin> set (sc_depends_on new)) (sc_depends_on old)))
            DS_DEPENDENCY (Some key) DC_REMOVED @
          entry_if (diff_task_plan (sc_tasks old) (sc_tasks new)) DS_TASK_PLAN (Some key) DC_CHANGED)"

definition phases_by_key :: "roadmap_document option \<Rightarrow> (string \<times> phase_content) list" where
  "phases_by_key document =
     (case document of None \<Rightarrow> [] | Some d \<Rightarrow> map (\<lambda>p. (pc_key p, p)) (rd_phases d))"

definition steps_by_key :: "roadmap_document option \<Rightarrow> (string \<times> string \<times> step_content) list" where
  "steps_by_key document =
     (case document of
        None \<Rightarrow> []
      | Some d \<Rightarrow> concat (map (\<lambda>p. map (\<lambda>s. (sc_key s, pc_key p, s)) (pc_steps p)) (rd_phases d)))"

definition compute_diff :: "roadmap_document option \<Rightarrow> roadmap_document \<Rightarrow> diff_entry list" where
  "compute_diff base proposal =
     (let bp = phases_by_key base; pp = phases_by_key (Some proposal);
          bs = steps_by_key base; ps = steps_by_key (Some proposal)
      in diff_header base proposal @
         concat (map (\<lambda>k. diff_phase k (py_dict bp k) (py_dict pp k))
           (py_sorted_set (map fst bp @ map fst pp))) @
         concat (map (\<lambda>k. diff_step k (py_dict bs k) (py_dict ps k))
           (py_sorted_set (map fst bs @ map fst ps))))"

end
