(* ===== verification/Roadmap_Writes.thy ===== *)
theory Roadmap_Writes
  imports Roadmap_Plan
begin

section \<open>Guards, revisions and document application (\<open>services/roadmap_support.py\<close>)\<close>

text \<open>
  What every roadmap mutation shares: the errors, the server-derived provenance, the lock and
  the write guard, the append-only revisions with their snapshots, the application of a
  reviewed document and the staging of the events. A handler runs in one transaction: a raise
  returns the database unchanged. The ids the database and \<open>uuid4\<close> draw are supplied by
  \<open>plan_ids\<close>: a phase or step created by a request is named by its key.
\<close>

subsection \<open>Errors\<close>

definition roadmap_error :: "nat \<Rightarrow> string \<Rightarrow> (string \<times> jval) list \<Rightarrow> http_error" where
  "roadmap_error status code members =
     HTTPException status (JObj ((''error_code'', JText code) # members))"

definition not_found :: "string \<Rightarrow> http_error" where
  "not_found what = roadmap_error 404 ''not_found'' [(''message'', JText what)]"

definition reference_not_found :: "string \<Rightarrow> http_error" where
  "reference_not_found what = roadmap_error 404 ''reference_not_found'' [(''message'', JText what)]"

definition invalid_state :: "roadmap_status \<Rightarrow> string \<Rightarrow> roadmap_transition option \<Rightarrow> http_error" where
  "invalid_state s message transition =
     roadmap_error 409 ''invalid_state''
       ([(''message'', JText message), (''status'', JText (roadmap_status_value s))] @
        (case transition of None \<Rightarrow> [] | Some t \<Rightarrow> [(''transition'', JText (roadmap_transition_value t))]))"

definition invalid_roadmap :: "string \<Rightarrow> string \<Rightarrow> http_error" where
  "invalid_roadmap reason field_name =
     roadmap_error 422 ''invalid_roadmap'' [(''reason'', JText reason), (''field'', JText field_name)]"

definition step_has_links :: http_error where
  "step_has_links = roadmap_error 409 ''step_has_links'' []"

definition limit_exceeded :: "string \<Rightarrow> http_error" where
  "limit_exceeded limit = roadmap_error 422 ''limit_exceeded'' [(''limit'', JText limit)]"

definition check_version :: "int \<Rightarrow> int \<Rightarrow> unit fallible" where
  "check_version current expected =
     raise_if (current \<noteq> expected)
       (roadmap_error 409 ''version_conflict'' [(''server_version'', JInt current)])"

subsection \<open>Provenance, lock and write guard\<close>

definition resolve_provenance :: "db \<Rightarrow> principal \<Rightarrow> write_provenance \<Rightarrow> provenance_cols fallible" where
  "resolve_provenance d p declared =
     (case wp_agent_id declared of
        Some i \<Rightarrow>
          (let agent = tbl_get a_id (db_agents d) i
           in if owns_agent agent (p_machine p)
              then Inr \<lparr>pv_origin = wp_origin declared, pv_actor_type = Actor_agent, pv_actor_id = i,
                     pv_agent_id = Some i, pv_machine_id = Some (m_id (p_machine p))\<rparr>
              else Inl (roadmap_error 409 ''actor_not_owned''
                     [(''message'', JText ''agent_id must be an agent attached to the authenticated machine'')]))
      | None \<Rightarrow>
          Inr \<lparr>pv_origin = wp_origin declared, pv_actor_type = Actor_user, pv_actor_id = u_id (p_user p),
             pv_agent_id = None, pv_machine_id = Some (m_id (p_machine p))\<rparr>)"

definition lock_roadmap :: "plan_db \<Rightarrow> uuid \<Rightarrow> roadmap_row fallible" where
  "lock_roadmap pl i = found (not_found ''roadmap'') (get_roadmap_row pl i)"

definition ensure_roadmap_access :: "plan_db \<Rightarrow> principal \<Rightarrow> uuid \<Rightarrow> project_action \<Rightarrow> roadmap_row fallible" where
  "ensure_roadmap_access pl p i action =
     and_get (found (not_found ''roadmap'') (get_roadmap_row pl i)) (\<lambda>r.
       and_then (ensure_project_access p (rm_project_id r) action) (Inr r))"

definition authorize_roadmap_write :: "plan_db \<Rightarrow> principal \<Rightarrow> uuid \<Rightarrow> unit fallible" where
  "authorize_roadmap_write pl p i =
     and_get (ensure_roadmap_access pl p i WriteAction) (\<lambda>_. ensure_can_write p ''roadmap'')"

definition authorize_roadmap_create :: "principal \<Rightarrow> uuid \<Rightarrow> unit fallible" where
  "authorize_roadmap_create p project_id =
     and_then (ensure_project_access p project_id WriteAction) (ensure_can_write p ''roadmap'')"

definition guard_write :: "principal \<Rightarrow> roadmap_row \<Rightarrow> write_kind \<Rightarrow> write_provenance \<Rightarrow> unit fallible" where
  "guard_write p r kind declared =
     and_then (ensure_project_access p (rm_project_id r) WriteAction)
     (and_then (ensure_can_write p ''roadmap'')
     (and_then (raise_if (\<not> write_allowed (rm_status r) kind)
        (invalid_state (rm_status r) (''a '' @ roadmap_status_value (rm_status r) @
           '' roadmap does not accept '' @ write_kind_value kind) None))
       (raise_if (kind = WK_CONTENT \<and> rm_status r = RS_ACTIVE \<and>
            is_agent_write (p_role p = Role_AGENT) declared)
          (invalid_state (rm_status r)
            ''content changes by an agent on an active roadmap require a proposal'' None))))"

subsection \<open>Revisions\<close>

record plan_ids =
  pi_roadmap :: uuid
  pi_phase :: "string \<Rightarrow> uuid"
  pi_step :: "string \<Rightarrow> uuid"
  pi_revision :: uuid
  pi_event :: "nat \<Rightarrow> uuid"
  pi_task :: "nat \<Rightarrow> uuid"
  pi_link :: "nat \<Rightarrow> uuid"

definition revisions_of :: "plan_db \<Rightarrow> uuid \<Rightarrow> revision_row list" where
  "revisions_of pl roadmap_id = filter (\<lambda>v. rn_roadmap_id v = roadmap_id) (pl_revisions pl)"

definition next_revision_no :: "plan_db \<Rightarrow> roadmap_row \<Rightarrow> int" where
  "next_revision_no pl r =
     (case map rn_revision_no (revisions_of pl (rm_id r)) of
        [] \<Rightarrow> max 0 (rm_revision_no r) + 1
      | n # ns \<Rightarrow> max (fold max ns n) (rm_revision_no r) + 1)"

definition new_revision ::
  "uuid \<Rightarrow> roadmap_row \<Rightarrow> provenance_cols \<Rightarrow> revision_kind \<Rightarrow> int \<Rightarrow> roadmap_document
     \<Rightarrow> revision_status option \<Rightarrow> int option \<Rightarrow> string option \<Rightarrow> revision_row" where
  "new_revision i r prov kind revision_no document status base summary =
     \<lparr>rn_id = i, rn_roadmap_id = rm_id r, rn_revision_no = revision_no, rn_kind = kind,
      rn_status = status, rn_base_revision_no = base, rn_summary = summary,
      rn_content = Some document, rn_reviewed_by_user_id = None, rn_reviewed_at = None,
      rn_review_comment = None, rn_prov = prov\<rparr>"

definition record_snapshot ::
  "plan_db \<Rightarrow> uuid \<Rightarrow> roadmap_row \<Rightarrow> provenance_cols \<Rightarrow> plan_db \<times> roadmap_row" where
  "record_snapshot pl i r prov =
     (let revision_no = next_revision_no pl r;
          r' = r\<lparr>rm_revision_no := revision_no, rm_approved_revision_no := Some revision_no\<rparr>;
          pl' = put_roadmap r' pl;
          document = build_document (load_tree pl' r')
      in (put_revision (new_revision i r' prov RK_SNAPSHOT revision_no document None None None) pl', r'))"

subsection \<open>Events of the unit of work\<close>

record pending_event =
  pe_type :: event_type
  pe_payload :: "(string \<times> jval) list"

definition updated_event :: "roadmap_row \<Rightarrow> string \<Rightarrow> string option \<Rightarrow> pending_event" where
  "updated_event r entity key =
     \<lparr>pe_type = ''roadmap.updated'',
      pe_payload = [(''roadmap_id'', JUuid (rm_id r)), (''revision_no'', JInt (rm_revision_no r)),
        (''status'', JText (roadmap_status_value (rm_status r))), (''entity'', JText entity)] @
        (case key of None \<Rightarrow> [] | Some k \<Rightarrow> [(''key'', JText k)])\<rparr>"

definition content_changed ::
  "plan_db \<Rightarrow> uuid \<Rightarrow> roadmap_row \<Rightarrow> provenance_cols \<Rightarrow> string \<Rightarrow> string option
     \<Rightarrow> plan_db \<times> roadmap_row \<times> pending_event" where
  "content_changed pl i r prov entity key =
     (let r1 = r\<lparr>rm_version := rm_version r + 1\<rparr>;
          pl1 = put_roadmap r1 pl;
          (pl2, r2) = (if rm_status r1 = RS_ACTIVE then record_snapshot pl1 i r1 prov else (pl1, r1))
      in (pl2, r2, updated_event r2 entity key))"

definition roadmap_event ::
  "principal \<Rightarrow> timestamp \<Rightarrow> uuid \<Rightarrow> roadmap_row \<Rightarrow> provenance_cols \<Rightarrow> pending_event \<Rightarrow> event_row" where
  "roadmap_event p now i r prov item =
     \<lparr>e_id = Uuid4 i, e_type = pe_type item, e_project_id = rm_project_id r, e_task_id = None,
      e_machine_id = Some (m_id (p_machine p)), e_actor_type = pv_actor_type prov,
      e_actor_id = pv_actor_id prov, e_client_timestamp = now, e_payload = pe_payload item\<rparr>"

fun stage_all :: "db \<Rightarrow> event_row list \<Rightarrow> db \<times> event_row list" where
  "stage_all d [] = (d, [])"
| "stage_all d (ev # evs) =
     (let (d1, stored) = stage_event d ev; (d2, rest) = stage_all d1 evs in (d2, stored # rest))"

definition finish_result ::
  "plan_db \<Rightarrow> principal \<Rightarrow> timestamp \<Rightarrow> (nat \<Rightarrow> uuid) \<Rightarrow> roadmap_row \<Rightarrow> provenance_cols
     \<Rightarrow> pending_event list \<Rightarrow> plan_db" where
  "finish_result pl p now eids r prov pending =
     (let (d, staged) = stage_all (pl_db pl)
            (map (\<lambda>(i, item). roadmap_event p now (eids i) r prov item) (enumerate 0 pending))
      in pl\<lparr>pl_db := fold publish_event staged d\<rparr>)"

definition finish ::
  "plan_db \<Rightarrow> principal \<Rightarrow> timestamp \<Rightarrow> (nat \<Rightarrow> uuid) \<Rightarrow> roadmap_row \<Rightarrow> provenance_cols
     \<Rightarrow> pending_event list \<Rightarrow> (plan_db, roadmap_view) outcome" where
  "finish pl p now eids r prov pending =
     (let pl' = finish_result pl p now eids r prov pending
      in (pl', Inr (build_roadmap (load_tree pl' r))))"

subsection \<open>Applying a reviewed document\<close>

definition new_phase_row :: "uuid \<Rightarrow> roadmap_row \<Rightarrow> provenance_cols \<Rightarrow> nat \<Rightarrow> phase_content \<Rightarrow> phase_row" where
  "new_phase_row i r prov position ph =
     \<lparr>ph_id = i, ph_roadmap_id = rm_id r, ph_key = pc_key ph, ph_position = position,
      ph_title = pc_title ph, ph_objective = text_or_none (pc_objective ph), ph_version = 1,
      ph_prov = prov\<rparr>"

definition new_step_row ::
  "uuid \<Rightarrow> roadmap_row \<Rightarrow> uuid \<Rightarrow> provenance_cols \<Rightarrow> nat \<Rightarrow> step_content \<Rightarrow> step_row" where
  "new_step_row i r phase_id prov position s =
     \<lparr>sp_id = i, sp_roadmap_id = rm_id r, sp_phase_id = phase_id, sp_key = sc_key s,
      sp_position = position, sp_title = sc_title s, sp_objective = text_or_none (sc_objective s),
      sp_context = text_or_none (sc_context s), sp_instructions = text_or_none (sc_instructions s),
      sp_acceptance_criteria = sc_acceptance_criteria s, sp_criteria_checked = [],
      sp_notes = text_or_none (sc_notes s), sp_metadata = sc_metadata s,
      sp_task_plan = sc_tasks s, sp_state_override = None, sp_state_override_reason = None,
      sp_version = 1, sp_prov = prov\<rparr>"

definition merge_phase ::
  "roadmap_tree \<Rightarrow> (string \<Rightarrow> uuid) \<Rightarrow> provenance_cols \<Rightarrow> nat \<Rightarrow> phase_content \<Rightarrow> phase_row" where
  "merge_phase t ids prov position ph =
     (case phase_by_key t (pc_key ph) of
        None \<Rightarrow> new_phase_row (ids (pc_key ph)) (tr_roadmap t) prov position ph
      | Some row \<Rightarrow> row\<lparr>ph_position := position, ph_title := pc_title ph,
          ph_objective := text_or_none (pc_objective ph), ph_version := ph_version row + 1\<rparr>)"

definition merge_step ::
  "roadmap_tree \<Rightarrow> (string \<Rightarrow> uuid) \<Rightarrow> provenance_cols \<Rightarrow> uuid \<Rightarrow> nat \<Rightarrow> step_content \<Rightarrow> step_row" where
  "merge_step t ids prov phase_id position s =
     (case step_by_key t (sc_key s) of
        None \<Rightarrow> new_step_row (ids (sc_key s)) (tr_roadmap t) phase_id prov position s
      | Some row \<Rightarrow> row\<lparr>
          sp_criteria_checked :=
            (if sc_acceptance_criteria s \<noteq> sp_acceptance_criteria row then [] else sp_criteria_checked row),
          sp_phase_id := phase_id, sp_position := position, sp_title := sc_title s,
          sp_objective := text_or_none (sc_objective s), sp_context := text_or_none (sc_context s),
          sp_instructions := text_or_none (sc_instructions s),
          sp_acceptance_criteria := sc_acceptance_criteria s, sp_notes := text_or_none (sc_notes s),
          sp_metadata := sc_metadata s, sp_task_plan := sc_tasks s, sp_version := sp_version row + 1\<rparr>)"

definition merged_phases :: "roadmap_tree \<Rightarrow> plan_ids \<Rightarrow> provenance_cols \<Rightarrow> roadmap_document \<Rightarrow> phase_row list" where
  "merged_phases t ids prov doc =
     map (\<lambda>(position, ph). merge_phase t (pi_phase ids) prov position ph) (enumerate 0 (rd_phases doc))"

definition merged_steps_of ::
  "roadmap_tree \<Rightarrow> plan_ids \<Rightarrow> provenance_cols \<Rightarrow> uuid \<Rightarrow> step_content list \<Rightarrow> step_row list" where
  "merged_steps_of t ids prov phase_id ss =
     map (\<lambda>(position, s). merge_step t (pi_step ids) prov phase_id position s) (enumerate 0 ss)"

definition merged_steps :: "roadmap_tree \<Rightarrow> plan_ids \<Rightarrow> provenance_cols \<Rightarrow> roadmap_document \<Rightarrow> step_row list" where
  "merged_steps t ids prov doc =
     concat (map2 (\<lambda>row ph. merged_steps_of t ids prov (ph_id row) (pc_steps ph))
       (merged_phases t ids prov doc) (rd_phases doc))"

definition step_id_for :: "roadmap_tree \<Rightarrow> (string \<Rightarrow> uuid) \<Rightarrow> string \<Rightarrow> uuid" where
  "step_id_for t ids key = (case step_by_key t key of None \<Rightarrow> ids key | Some row \<Rightarrow> sp_id row)"

definition document_dependencies ::
  "(string \<Rightarrow> uuid) \<Rightarrow> uuid \<Rightarrow> roadmap_document \<Rightarrow> dependency_row list" where
  "document_dependencies id_of roadmap_id doc =
     concat (map (\<lambda>s. map (\<lambda>k. \<lparr>dp_step_id = id_of (sc_key s), dp_depends_on_step_id = id_of k,
       dp_roadmap_id = roadmap_id\<rparr>) (sc_depends_on s)) (document_steps doc))"

definition reconcile_document ::
  "plan_db \<Rightarrow> plan_ids \<Rightarrow> roadmap_tree \<Rightarrow> roadmap_document \<Rightarrow> provenance_cols \<Rightarrow> plan_db fallible" where
  "reconcile_document pl ids t doc prov =
     (let rid = rm_id (tr_roadmap t);
          phase_keys = map pc_key (rd_phases doc);
          step_keys = map sc_key (document_steps doc)
      in if list_ex (\<lambda>s. sp_key s \<notin> set step_keys \<and> tr_links t (sp_id s) \<noteq> []) (tr_steps t)
         then Inl step_has_links
         else
           (let pl1 = fold put_phase (merged_phases t ids prov doc) pl;
                pl2 = fold put_step (merged_steps t ids prov doc) pl1;
                pl3 = delete_steps (\<lambda>s. sp_roadmap_id s = rid \<and> sp_key s \<notin> set step_keys) pl2;
                pl4 = delete_phases (\<lambda>p. ph_roadmap_id p = rid \<and> ph_key p \<notin> set phase_keys) pl3;
                pl5 = pl4\<lparr>pl_deps := filter (\<lambda>e. dp_roadmap_id e \<noteq> rid) (pl_deps pl4)\<rparr>
            in Inr (add_dependencies
                 (document_dependencies (step_id_for t (pi_step ids)) rid doc) pl5)))"

end
