(* ===== verification/Roadmap_Structure.thy ===== *)
theory Roadmap_Structure
  imports Roadmap_Writes
begin

section \<open>Structure and progress operations (\<open>services/roadmap_structure.py\<close>)\<close>

text \<open>
  Phases, steps, reordering, dependencies, task links and bounded progress. Every operation
  locks its roadmap, checks the write matrix and the optimistic version, applies the change
  and answers the resulting roadmap.
\<close>

definition open_roadmap ::
  "plan_db \<Rightarrow> principal \<Rightarrow> uuid \<Rightarrow> write_kind \<Rightarrow> write_provenance \<Rightarrow> int option
     \<Rightarrow> (roadmap_row \<times> provenance_cols \<times> roadmap_tree) fallible" where
  "open_roadmap pl p roadmap_id kind declared expected =
     and_get (lock_roadmap pl roadmap_id) (\<lambda>r.
     and_then (guard_write p r kind declared)
     (and_get (resolve_provenance (pl_db pl) p declared) (\<lambda>prov.
     and_then (case expected of None \<Rightarrow> Inr () | Some v \<Rightarrow> check_version (rm_version r) v)
       (Inr (r, prov, load_tree pl r)))))"

definition the_phase :: "roadmap_tree \<Rightarrow> string \<Rightarrow> phase_row fallible" where
  "the_phase t key = found (reference_not_found (''phase '' @ key)) (phase_by_key t key)"

definition the_step :: "roadmap_tree \<Rightarrow> string \<Rightarrow> step_row fallible" where
  "the_step t key = found (reference_not_found (''step '' @ key)) (step_by_key t key)"

definition duplicate_key :: "string \<Rightarrow> http_error" where
  "duplicate_key field_name = roadmap_error 409 ''duplicate_key'' [(''field'', JText field_name)]"

definition check_plan :: "roadmap_tree \<Rightarrow> string \<Rightarrow> task_plan_item list \<Rightarrow> unit fallible" where
  "check_plan t step_key items =
     and_then (raise_if (\<not> distinct (map tp_hydration_key items))
        (invalid_roadmap ''duplicate_hydration_key'' (''steps.'' @ step_key @ ''.tasks'')))
       (raise_if ((\<Sum>s \<leftarrow> filter (\<lambda>s. sp_key s \<noteq> step_key) (tr_steps t). length (sp_task_plan s))
          + length items > MAX_TASK_PLAN)
          (limit_exceeded ''task_plan''))"

definition require_draft :: "roadmap_row \<Rightarrow> unit fallible" where
  "require_draft r =
     raise_if (rm_status r \<noteq> RS_DRAFT)
       (invalid_state (rm_status r)
         (''phases and steps can only be deleted from a draft roadmap; mark a step '' @
          ''`skipped` instead'') None)"

definition reposition_phases :: "phase_row list \<Rightarrow> plan_db \<Rightarrow> plan_db" where
  "reposition_phases rows = fold put_phase (map (\<lambda>(i, r). r\<lparr>ph_position := i\<rparr>) (enumerate 0 rows))"

definition reposition_steps :: "step_row list \<Rightarrow> plan_db \<Rightarrow> plan_db" where
  "reposition_steps rows = fold put_step (map (\<lambda>(i, r). r\<lparr>sp_position := i\<rparr>) (enumerate 0 rows))"

text \<open>The bookkeeping of an applied content change and the answer.\<close>

definition changed_and_finished ::
  "plan_db \<Rightarrow> principal \<Rightarrow> timestamp \<Rightarrow> plan_ids \<Rightarrow> roadmap_row \<Rightarrow> provenance_cols
     \<Rightarrow> string \<Rightarrow> string option \<Rightarrow> (plan_db, roadmap_view) outcome" where
  "changed_and_finished pl p now ids r prov entity key =
     (let (pl', r', event) = content_changed pl (pi_revision ids) r prov entity key
      in finish pl' p now (pi_event ids) r' prov [event])"

subsection \<open>Phases\<close>

record phase_create =
  cp_key :: string
  cp_title :: string
  cp_objective :: "string option"
  cp_expected_roadmap_version :: int
  cp_provenance :: write_provenance

definition create_phase ::
  "plan_db \<Rightarrow> principal \<Rightarrow> timestamp \<Rightarrow> plan_ids \<Rightarrow> uuid \<Rightarrow> phase_create \<Rightarrow> (plan_db, roadmap_view) outcome" where
  "create_phase pl p now ids roadmap_id payload =
     on_ok (open_roadmap pl p roadmap_id WK_CONTENT (cp_provenance payload)
         (Some (cp_expected_roadmap_version payload))) pl (\<lambda>(r, prov, t).
       guarded (and_then (raise_if (phase_by_key t (cp_key payload) \<noteq> None) (duplicate_key ''key''))
           (raise_if (length (tr_phases t) \<ge> MAX_PHASES) (limit_exceeded ''phases''))) pl
         (let row = new_phase_row (pi_phase ids (cp_key payload)) r prov (length (tr_phases t))
                \<lparr>pc_key = cp_key payload, pc_title = cp_title payload,
                 pc_objective = cp_objective payload, pc_steps = []\<rparr>
          in changed_and_finished (put_phase row pl) p now ids r prov ''phase'' (Some (cp_key payload))))"

record phase_update =
  up_title :: "string option"
  up_objective :: "string option"
  up_provenance :: write_provenance

definition patch_text :: "string option \<Rightarrow> string option \<Rightarrow> string option" where
  "patch_text old new = (case new of None \<Rightarrow> old | Some v \<Rightarrow> text_or_none (Some v))"

definition patch :: "'a \<Rightarrow> 'a option \<Rightarrow> 'a" where
  "patch old new = (case new of None \<Rightarrow> old | Some v \<Rightarrow> v)"

definition update_phase ::
  "plan_db \<Rightarrow> principal \<Rightarrow> timestamp \<Rightarrow> plan_ids \<Rightarrow> uuid \<Rightarrow> string \<Rightarrow> phase_update \<Rightarrow> int
     \<Rightarrow> (plan_db, roadmap_view) outcome" where
  "update_phase pl p now ids roadmap_id key payload expected_version =
     on_ok (open_roadmap pl p roadmap_id WK_CONTENT (up_provenance payload) None) pl (\<lambda>(r, prov, t).
     on_ok (the_phase t key) pl (\<lambda>ph.
       guarded (check_version (ph_version ph) expected_version) pl
         (changed_and_finished (put_phase (ph\<lparr>ph_title := patch (ph_title ph) (up_title payload),
              ph_objective := patch_text (ph_objective ph) (up_objective payload),
              ph_version := ph_version ph + 1\<rparr>) pl)
            p now ids r prov ''phase'' (Some key))))"

definition check_permutation :: "string list \<Rightarrow> string list \<Rightarrow> string \<Rightarrow> unit fallible" where
  "check_permutation current ordered field_name =
     raise_if (\<not> distinct ordered \<or> set ordered \<noteq> set current)
       (invalid_roadmap ''invalid_reorder'' field_name)"

record reorder =
  ro_ordered_keys :: "string list"
  ro_expected_roadmap_version :: int
  ro_provenance :: write_provenance

definition reorder_phases ::
  "plan_db \<Rightarrow> principal \<Rightarrow> timestamp \<Rightarrow> plan_ids \<Rightarrow> uuid \<Rightarrow> reorder \<Rightarrow> (plan_db, roadmap_view) outcome" where
  "reorder_phases pl p now ids roadmap_id payload =
     on_ok (open_roadmap pl p roadmap_id WK_CONTENT (ro_provenance payload)
         (Some (ro_expected_roadmap_version payload))) pl (\<lambda>(r, prov, t).
       guarded (check_permutation (map ph_key (tr_phases t)) (ro_ordered_keys payload) ''ordered_keys'') pl
         (changed_and_finished
            (reposition_phases (List.map_filter (phase_by_key t) (ro_ordered_keys payload)) pl)
            p now ids r prov ''phase_order'' None))"

definition delete_phase ::
  "plan_db \<Rightarrow> principal \<Rightarrow> timestamp \<Rightarrow> plan_ids \<Rightarrow> uuid \<Rightarrow> string \<Rightarrow> int \<Rightarrow> write_provenance
     \<Rightarrow> (plan_db, roadmap_view) outcome" where
  "delete_phase pl p now ids roadmap_id key expected declared =
     on_ok (open_roadmap pl p roadmap_id WK_CONTENT declared (Some expected)) pl (\<lambda>(r, prov, t).
     guarded (require_draft r) pl
     (on_ok (the_phase t key) pl (\<lambda>ph.
       guarded (raise_if (list_ex (\<lambda>s. tr_links t (sp_id s) \<noteq> []) (steps_of t (ph_id ph))) step_has_links) pl
         (changed_and_finished
            (reposition_phases (filter (\<lambda>o'. ph_id o' \<noteq> ph_id ph) (tr_phases t))
              (delete_phases (\<lambda>o'. ph_id o' = ph_id ph) pl))
            p now ids r prov ''phase'' (Some key)))))"

subsection \<open>Steps\<close>

record step_create =
  cs_content :: step_content
  cs_expected_roadmap_version :: int
  cs_provenance :: write_provenance

fun the_steps :: "roadmap_tree \<Rightarrow> string list \<Rightarrow> step_row list fallible" where
  "the_steps t [] = Inr []"
| "the_steps t (k # ks) = and_get (the_step t k) (\<lambda>s. and_get (the_steps t ks) (\<lambda>ss. Inr (s # ss)))"

definition create_step ::
  "plan_db \<Rightarrow> principal \<Rightarrow> timestamp \<Rightarrow> plan_ids \<Rightarrow> uuid \<Rightarrow> string \<Rightarrow> step_create
     \<Rightarrow> (plan_db, roadmap_view) outcome" where
  "create_step pl p now ids roadmap_id phase_key payload =
     on_ok (open_roadmap pl p roadmap_id WK_CONTENT (cs_provenance payload)
         (Some (cs_expected_roadmap_version payload))) pl (\<lambda>(r, prov, t).
     on_ok (the_phase t phase_key) pl (\<lambda>ph.
       (let c = cs_content payload; place = ''steps.'' @ sc_key c @ ''.depends_on'' in
        guarded
          (and_then (raise_if (step_by_key t (sc_key c) \<noteq> None) (duplicate_key ''content.key''))
          (and_then (raise_if (length (tr_steps t) \<ge> MAX_STEPS) (limit_exceeded ''steps''))
          (and_then (raise_if (length (steps_of t (ph_id ph)) \<ge> MAX_STEPS_PER_PHASE)
             (limit_exceeded ''steps_per_phase''))
          (and_then (raise_if (\<not> distinct (sc_depends_on c)) (invalid_roadmap ''duplicate_dependency'' place))
            (raise_if (sc_key c \<in> set (sc_depends_on c)) (invalid_roadmap ''self_dependency'' place)))))) pl
        (on_ok (the_steps t (sc_depends_on c)) pl (\<lambda>targets.
         guarded (check_plan t (sc_key c) (sc_tasks c)) pl
          (let new_id = pi_step ids (sc_key c);
               row = new_step_row new_id r (ph_id ph) prov (length (steps_of t (ph_id ph))) c;
               edges = map (\<lambda>s. \<lparr>dp_step_id = new_id, dp_depends_on_step_id = sp_id s,
                 dp_roadmap_id = rm_id r\<rparr>) targets
           in changed_and_finished (add_dependencies edges (put_step row pl))
                p now ids r prov ''step'' (Some (sc_key c))))))))"

record step_update =
  us_title :: "string option"
  us_objective :: "string option"
  us_context :: "string option"
  us_instructions :: "string option"
  us_acceptance_criteria :: "string list option"
  us_metadata :: "metadata option"
  us_tasks :: "task_plan_item list option"
  us_provenance :: write_provenance

definition patched_step :: "step_update \<Rightarrow> step_row \<Rightarrow> step_row" where
  "patched_step u s =
     s\<lparr>sp_title := patch (sp_title s) (us_title u),
       sp_objective := patch_text (sp_objective s) (us_objective u),
       sp_context := patch_text (sp_context s) (us_context u),
       sp_instructions := patch_text (sp_instructions s) (us_instructions u),
       sp_criteria_checked :=
         (case us_acceptance_criteria u of
            None \<Rightarrow> sp_criteria_checked s
          | Some cs \<Rightarrow> if cs \<noteq> sp_acceptance_criteria s then [] else sp_criteria_checked s),
       sp_acceptance_criteria := patch (sp_acceptance_criteria s) (us_acceptance_criteria u),
       sp_metadata := patch (sp_metadata s) (us_metadata u),
       sp_task_plan := patch (sp_task_plan s) (us_tasks u),
       sp_version := sp_version s + 1\<rparr>"

definition update_step ::
  "plan_db \<Rightarrow> principal \<Rightarrow> timestamp \<Rightarrow> plan_ids \<Rightarrow> uuid \<Rightarrow> string \<Rightarrow> step_update \<Rightarrow> int
     \<Rightarrow> (plan_db, roadmap_view) outcome" where
  "update_step pl p now ids roadmap_id key payload expected_version =
     on_ok (open_roadmap pl p roadmap_id WK_CONTENT (us_provenance payload) None) pl (\<lambda>(r, prov, t).
     on_ok (the_step t key) pl (\<lambda>s.
       guarded (and_then (check_version (sp_version s) expected_version)
           (case us_tasks payload of None \<Rightarrow> Inr () | Some items \<Rightarrow> check_plan t key items)) pl
         (changed_and_finished (put_step (patched_step payload s) pl) p now ids r prov ''step'' (Some key))))"

definition reorder_steps ::
  "plan_db \<Rightarrow> principal \<Rightarrow> timestamp \<Rightarrow> plan_ids \<Rightarrow> uuid \<Rightarrow> string \<Rightarrow> reorder
     \<Rightarrow> (plan_db, roadmap_view) outcome" where
  "reorder_steps pl p now ids roadmap_id phase_key payload =
     on_ok (open_roadmap pl p roadmap_id WK_CONTENT (ro_provenance payload)
         (Some (ro_expected_roadmap_version payload))) pl (\<lambda>(r, prov, t).
     on_ok (the_phase t phase_key) pl (\<lambda>ph.
       (let siblings = steps_of t (ph_id ph) in
        guarded (check_permutation (map sp_key siblings) (ro_ordered_keys payload) ''ordered_keys'') pl
          (changed_and_finished
             (reposition_steps (List.map_filter (\<lambda>k. find (\<lambda>s. sp_key s = k) siblings)
               (ro_ordered_keys payload)) pl)
             p now ids r prov ''step_order'' (Some phase_key)))))"

definition delete_step ::
  "plan_db \<Rightarrow> principal \<Rightarrow> timestamp \<Rightarrow> plan_ids \<Rightarrow> uuid \<Rightarrow> string \<Rightarrow> int \<Rightarrow> write_provenance
     \<Rightarrow> (plan_db, roadmap_view) outcome" where
  "delete_step pl p now ids roadmap_id key expected declared =
     on_ok (open_roadmap pl p roadmap_id WK_CONTENT declared (Some expected)) pl (\<lambda>(r, prov, t).
     guarded (require_draft r) pl
     (on_ok (the_step t key) pl (\<lambda>s.
       guarded (raise_if (tr_links t (sp_id s) \<noteq> []) step_has_links) pl
         (changed_and_finished
            (reposition_steps (filter (\<lambda>o'. sp_id o' \<noteq> sp_id s) (steps_of t (sp_phase_id s)))
              (delete_steps (\<lambda>o'. sp_id o' = sp_id s) pl))
            p now ids r prov ''step'' (Some key)))))"

subsection \<open>Progress\<close>

record step_progress_update =
  ps_state_override :: "step_state_override option"
  ps_clear_state_override :: bool
  ps_state_override_reason :: "string option"
  ps_notes :: "string option"
  ps_criteria_checked :: "nat list option"
  ps_provenance :: write_provenance

definition progressed_step :: "step_progress_update \<Rightarrow> step_row \<Rightarrow> step_row" where
  "progressed_step u s =
     (let s1 =
        (if ps_clear_state_override u
         then s\<lparr>sp_state_override := None, sp_state_override_reason := None\<rparr>
         else case ps_state_override u of None \<Rightarrow> s | Some v \<Rightarrow> s\<lparr>sp_state_override := Some v\<rparr>);
          s2 = (case ps_state_override_reason u of
                  None \<Rightarrow> s1
                | Some v \<Rightarrow> if ps_clear_state_override u then s1
                    else s1\<lparr>sp_state_override_reason := text_or_none (Some v)\<rparr>);
          s3 = s2\<lparr>sp_notes := patch_text (sp_notes s2) (ps_notes u)\<rparr>;
          s4 = (case ps_criteria_checked u of None \<Rightarrow> s3
                | Some cs \<Rightarrow> s3\<lparr>sp_criteria_checked := sort cs\<rparr>)
      in s4\<lparr>sp_version := sp_version s4 + 1\<rparr>)"

definition override_moved :: "step_progress_update \<Rightarrow> step_row \<Rightarrow> bool" where
  "override_moved u s \<longleftrightarrow>
     (if ps_clear_state_override u then sp_state_override s \<noteq> None
      else ps_state_override u \<noteq> None \<and> sp_state_override s \<noteq> ps_state_override u)"

definition update_step_progress ::
  "plan_db \<Rightarrow> principal \<Rightarrow> timestamp \<Rightarrow> plan_ids \<Rightarrow> uuid \<Rightarrow> string \<Rightarrow> step_progress_update \<Rightarrow> int
     \<Rightarrow> (plan_db, roadmap_view) outcome" where
  "update_step_progress pl p now ids roadmap_id key payload expected_version =
     on_ok (open_roadmap pl p roadmap_id WK_PROGRESS (ps_provenance payload) None) pl (\<lambda>(r, prov, t).
     on_ok (the_step t key) pl (\<lambda>s.
       guarded (and_then (check_version (sp_version s) expected_version)
           (raise_if (case ps_criteria_checked payload of None \<Rightarrow> False
               | Some cs \<Rightarrow> list_ex (\<lambda>i. i \<ge> length (sp_acceptance_criteria s)) cs)
             (invalid_roadmap ''limit_exceeded'' (''steps.'' @ key @ ''.criteria_checked'')))) pl
         (let r' = (if override_moved payload s then r\<lparr>rm_version := rm_version r + 1\<rparr> else r);
              pl' = put_roadmap r' (put_step (progressed_step payload s) pl)
          in finish pl' p now (pi_event ids) r' prov [updated_event r' ''step_progress'' (Some key)])))"

subsection \<open>Dependencies\<close>

record dependency_change =
  dg_step_key :: string
  dg_depends_on_key :: string
  dg_expected_roadmap_version :: int
  dg_provenance :: write_provenance

definition edges_with :: "roadmap_tree \<Rightarrow> step_row \<Rightarrow> string \<Rightarrow> string edges" where
  "edges_with t s target_key =
     map (\<lambda>(k, ks). if k = sp_key s then (k, ks @ [target_key]) else (k, ks)) (tree_edges t)"

definition add_dependency ::
  "plan_db \<Rightarrow> principal \<Rightarrow> timestamp \<Rightarrow> plan_ids \<Rightarrow> uuid \<Rightarrow> dependency_change \<Rightarrow> (plan_db, roadmap_view) outcome" where
  "add_dependency pl p now ids roadmap_id payload =
     on_ok (open_roadmap pl p roadmap_id WK_CONTENT (dg_provenance payload)
         (Some (dg_expected_roadmap_version payload))) pl (\<lambda>(r, prov, t).
     on_ok (the_step t (dg_step_key payload)) pl (\<lambda>s.
     on_ok (the_step t (dg_depends_on_key payload)) pl (\<lambda>target.
       guarded (raise_if (sp_id s = sp_id target)
           (invalid_roadmap ''self_dependency'' (''steps.'' @ sp_key s @ ''.depends_on''))) pl
         (if sp_id target \<in> set (tr_deps t (sp_id s)) then finish pl p now (pi_event ids) r prov []
          else guarded (raise_if (length (tr_deps t (sp_id s)) \<ge> MAX_DEPENDENCIES_PER_STEP)
                 (limit_exceeded ''dependencies_per_step'')) pl
           (case find_dependency_cycle (edges_with t s (sp_key target)) of
              Some path \<Rightarrow> (pl, Inl (roadmap_error 409 ''dependency_cycle''
                [(''path'', JList (map JText path))]))
            | None \<Rightarrow>
                changed_and_finished
                  (add_dependencies [\<lparr>dp_step_id = sp_id s, dp_depends_on_step_id = sp_id target,
                     dp_roadmap_id = rm_id r\<rparr>] pl)
                  p now ids r prov ''dependency'' (Some (sp_key s)))))))"

definition remove_dependency ::
  "plan_db \<Rightarrow> principal \<Rightarrow> timestamp \<Rightarrow> plan_ids \<Rightarrow> uuid \<Rightarrow> dependency_change \<Rightarrow> (plan_db, roadmap_view) outcome" where
  "remove_dependency pl p now ids roadmap_id payload =
     on_ok (open_roadmap pl p roadmap_id WK_CONTENT (dg_provenance payload)
         (Some (dg_expected_roadmap_version payload))) pl (\<lambda>(r, prov, t).
     on_ok (the_step t (dg_step_key payload)) pl (\<lambda>s.
     on_ok (the_step t (dg_depends_on_key payload)) pl (\<lambda>target.
       if sp_id target \<notin> set (tr_deps t (sp_id s)) then finish pl p now (pi_event ids) r prov []
       else changed_and_finished
              (pl\<lparr>pl_deps := filter (\<lambda>e. \<not> (dp_step_id e = sp_id s \<and>
                 dp_depends_on_step_id e = sp_id target)) (pl_deps pl)\<rparr>)
              p now ids r prov ''dependency'' (Some (sp_key s)))))"

subsection \<open>Task links\<close>

abbreviation MAX_LINKS_PER_STEP :: nat where "MAX_LINKS_PER_STEP \<equiv> 50"

definition touched :: "step_row \<Rightarrow> step_row" where
  "touched s = s\<lparr>sp_version := sp_version s + 1\<rparr>"

definition link_task ::
  "plan_db \<Rightarrow> principal \<Rightarrow> timestamp \<Rightarrow> plan_ids \<Rightarrow> uuid \<Rightarrow> string \<Rightarrow> uuid \<Rightarrow> write_provenance
     \<Rightarrow> (plan_db, roadmap_view) outcome" where
  "link_task pl p now ids roadmap_id key task_id declared =
     on_ok (open_roadmap pl p roadmap_id WK_LINK declared None) pl (\<lambda>(r, prov, t).
     on_ok (the_step t key) pl (\<lambda>s.
     on_ok (found (reference_not_found ''task'') (get_task_row (pl_db pl) task_id)) pl (\<lambda>task.
       guarded (raise_if (t_project_id task \<noteq> rm_project_id r)
           (roadmap_error 422 ''task_project_mismatch''
             [(''message'', JText ''the task belongs to another project'')])) pl
         (let links = tr_links t (sp_id s) in
          if list_ex (\<lambda>l. lk_task_id l = t_id task) links then finish pl p now (pi_event ids) r prov []
          else guarded (raise_if (length links \<ge> MAX_LINKS_PER_STEP) (limit_exceeded ''links_per_step'')) pl
            (let r' = r\<lparr>rm_version := rm_version r + 1\<rparr>;
                 pl' = put_roadmap r' (put_step (touched s) (add_link
                   \<lparr>lk_id = pi_link ids 0, lk_step_id = sp_id s, lk_task_id = t_id task,
                    lk_hydration_key = None, lk_created_at = now, lk_prov = prov\<rparr> pl))
             in finish pl' p now (pi_event ids) r' prov [updated_event r' ''link'' (Some key)])))))"

definition unlink_task ::
  "plan_db \<Rightarrow> principal \<Rightarrow> timestamp \<Rightarrow> plan_ids \<Rightarrow> uuid \<Rightarrow> string \<Rightarrow> uuid \<Rightarrow> write_provenance
     \<Rightarrow> (plan_db, roadmap_view) outcome" where
  "unlink_task pl p now ids roadmap_id key task_id declared =
     on_ok (open_roadmap pl p roadmap_id WK_LINK declared None) pl (\<lambda>(r, prov, t).
     on_ok (the_step t key) pl (\<lambda>s.
       (let hit = (\<lambda>l. lk_step_id l = sp_id s \<and> lk_task_id l = task_id) in
        if \<not> list_ex hit (pl_links pl) then finish pl p now (pi_event ids) r prov []
        else
          (let r' = r\<lparr>rm_version := rm_version r + 1\<rparr>;
               pl' = put_roadmap r' (put_step (touched s)
                 (pl\<lparr>pl_links := filter (\<lambda>l. \<not> hit l) (pl_links pl)\<rparr>))
           in finish pl' p now (pi_event ids) r' prov [updated_event r' ''link'' (Some key)]))))"

end
