(* ===== verification/Roadmap_Service.thy ===== *)
theory Roadmap_Service
  imports Roadmap_Structure
begin

section \<open>The roadmap service (\<open>services/roadmaps.py\<close>, \<open>services/roadmap_hydration.py\<close>)\<close>

text \<open>
  Reads, creation and import, header edits, lifecycle transitions, revisions and proposals,
  and hydration. The unique index on active roadmaps is the check \<open>flush_status\<close> makes after
  the status was written.
\<close>

subsection \<open>Reads\<close>

definition newest_roadmaps :: "roadmap_row list \<Rightarrow> roadmap_row list" where
  "newest_roadmaps rs = sort_key (\<lambda>r. - rm_created_at r) (sort_key rm_id rs)"

definition list_roadmaps ::
  "plan_db \<Rightarrow> principal \<Rightarrow> uuid \<Rightarrow> roadmap_status option \<Rightarrow> nat \<Rightarrow> nat \<Rightarrow> roadmap_summary list fallible" where
  "list_roadmaps pl p project_id status limit offset =
     and_then (ensure_project_access p project_id ReadAction)
     (and_then (raise_if (project_id \<notin> set (db_projects (pl_db pl))) (not_found ''project''))
       (Inr (map (\<lambda>r. build_summary (load_tree pl r))
         (take limit (drop offset (newest_roadmaps
           (filter (\<lambda>r. rm_project_id r = project_id \<and> (status = None \<or> status = Some (rm_status r)))
             (pl_roadmaps pl))))))))"

definition get_roadmap :: "plan_db \<Rightarrow> principal \<Rightarrow> uuid \<Rightarrow> roadmap_view fallible" where
  "get_roadmap pl p i =
     and_get (ensure_roadmap_access pl p i ReadAction) (\<lambda>r. Inr (build_roadmap (load_tree pl r)))"

definition export_roadmap :: "plan_db \<Rightarrow> principal \<Rightarrow> timestamp \<Rightarrow> uuid \<Rightarrow> roadmap_document fallible" where
  "export_roadmap pl p now i =
     and_get (ensure_roadmap_access pl p i ReadAction) (\<lambda>r.
       Inr ((build_document (load_tree pl r))\<lparr>rd_exported_at := Some now, rd_revision_no := Some (rm_revision_no r)\<rparr>))"

subsection \<open>Creation and import\<close>

definition require_project :: "plan_db \<Rightarrow> uuid \<Rightarrow> unit fallible" where
  "require_project pl project_id =
     raise_if (project_id \<notin> set (db_projects (pl_db pl))) (reference_not_found ''project'')"

definition new_roadmap ::
  "uuid \<Rightarrow> uuid \<Rightarrow> timestamp \<Rightarrow> provenance_cols \<Rightarrow> string \<Rightarrow> string option \<Rightarrow> string option \<Rightarrow> metadata
     \<Rightarrow> roadmap_row" where
  "new_roadmap i project_id now prov title objective context' meta =
     \<lparr>rm_id = i, rm_project_id = project_id, rm_title = title, rm_objective = text_or_none objective,
      rm_context = text_or_none context', rm_status = RS_DRAFT, rm_metadata = meta,
      rm_revision_no = 0, rm_approved_revision_no = None, rm_version = 1, rm_created_at = now,
      rm_prov = prov\<rparr>"

definition status_members :: "roadmap_row \<Rightarrow> (string \<times> jval) list" where
  "status_members r =
     [(''roadmap_id'', JUuid (rm_id r)), (''revision_no'', JInt (rm_revision_no r)),
      (''status'', JText (roadmap_status_value (rm_status r)))]"

definition created_event :: "roadmap_row \<Rightarrow> pending_event" where
  "created_event r = \<lparr>pe_type = ''roadmap.created'', pe_payload = status_members r\<rparr>"

record roadmap_create =
  rc_project_id :: uuid
  rc_title :: string
  rc_objective :: "string option"
  rc_context :: "string option"
  rc_metadata :: metadata
  rc_provenance :: write_provenance

definition create_roadmap ::
  "plan_db \<Rightarrow> principal \<Rightarrow> timestamp \<Rightarrow> plan_ids \<Rightarrow> roadmap_create \<Rightarrow> (plan_db, roadmap_view) outcome" where
  "create_roadmap pl p now ids payload =
     guarded (authorize_roadmap_create p (rc_project_id payload)) pl
     (on_ok (resolve_provenance (pl_db pl) p (rc_provenance payload)) pl (\<lambda>prov.
       guarded (require_project pl (rc_project_id payload)) pl
         (let r = new_roadmap (pi_roadmap ids) (rc_project_id payload) now prov (rc_title payload)
                    (rc_objective payload) (rc_context payload) (rc_metadata payload)
          in finish (put_roadmap r pl) p now (pi_event ids) r prov [created_event r])))"

definition document_phase_rows ::
  "roadmap_row \<Rightarrow> plan_ids \<Rightarrow> provenance_cols \<Rightarrow> roadmap_document \<Rightarrow> phase_row list" where
  "document_phase_rows r ids prov doc =
     map (\<lambda>(i, ph). new_phase_row (pi_phase ids (pc_key ph)) r prov i ph) (enumerate 0 (rd_phases doc))"

definition document_step_rows ::
  "roadmap_row \<Rightarrow> plan_ids \<Rightarrow> provenance_cols \<Rightarrow> roadmap_document \<Rightarrow> step_row list" where
  "document_step_rows r ids prov doc =
     concat (map (\<lambda>ph. map (\<lambda>(i, s). new_step_row (pi_step ids (sc_key s)) r (pi_phase ids (pc_key ph)) prov i s)
       (enumerate 0 (pc_steps ph))) (rd_phases doc))"

definition insert_document ::
  "plan_db \<Rightarrow> roadmap_row \<Rightarrow> plan_ids \<Rightarrow> roadmap_document \<Rightarrow> provenance_cols \<Rightarrow> plan_db" where
  "insert_document pl r ids doc prov =
     add_dependencies (document_dependencies (pi_step ids) (rm_id r) doc)
       (fold put_step (document_step_rows r ids prov doc)
         (fold put_phase (document_phase_rows r ids prov doc) pl))"

text \<open>\<open>draft -> proposed\<close>: the content is frozen as a \<open>proposal\<close> revision.\<close>

definition submit_draft ::
  "plan_db \<Rightarrow> uuid \<Rightarrow> roadmap_row \<Rightarrow> provenance_cols \<Rightarrow> plan_db \<times> roadmap_row \<times> pending_event" where
  "submit_draft pl i r prov =
     (let revision_no = next_revision_no pl r;
          r1 = r\<lparr>rm_revision_no := revision_no\<rparr>;
          document = build_document (load_tree (put_roadmap r1 pl) r1);
          r2 = r1\<lparr>rm_status := RS_PROPOSED\<rparr>;
          pl' = put_revision (new_revision i r1 prov RK_PROPOSAL revision_no document (Some RN_PENDING)
                  (rm_approved_revision_no r1) None) (put_roadmap r2 pl)
      in (pl', r2, \<lparr>pe_type = ''roadmap.proposed'',
           pe_payload = status_members r2 @ [(''transition'', JText ''submit'')]\<rparr>))"

record roadmap_import =
  im_project_id :: uuid
  im_document :: roadmap_document
  im_submit :: bool
  im_provenance :: write_provenance

definition first_error :: "validation_error list \<Rightarrow> unit fallible" where
  "first_error errors =
     (case errors of [] \<Rightarrow> Inr ()
      | (reason, place) # _ \<Rightarrow> Inl (invalid_roadmap (validation_reason_value reason) place))"

definition import_roadmap ::
  "plan_db \<Rightarrow> principal \<Rightarrow> timestamp \<Rightarrow> plan_ids \<Rightarrow> roadmap_import \<Rightarrow> (plan_db, roadmap_view) outcome" where
  "import_roadmap pl p now ids payload =
     guarded (authorize_roadmap_create p (im_project_id payload)) pl
     (on_ok (resolve_provenance (pl_db pl) p (im_provenance payload)) pl (\<lambda>prov.
       guarded (and_then (first_error (roadmap_document_errors (im_document payload)))
           (require_project pl (im_project_id payload))) pl
         (let doc = im_document payload;
              r = new_roadmap (pi_roadmap ids) (im_project_id payload) now prov (rd_title doc)
                    (rd_objective doc) (rd_context doc) (rd_metadata doc);
              pl1 = insert_document (put_roadmap r pl) r ids doc prov
          in if im_submit payload
             then (let (pl2, r2, event) = submit_draft pl1 (pi_revision ids) r prov
                   in finish pl2 p now (pi_event ids) r2 prov [created_event r, event])
             else finish pl1 p now (pi_event ids) r prov [created_event r])))"

subsection \<open>Header edit\<close>

record roadmap_update =
  ru_title :: "string option"
  ru_objective :: "string option"
  ru_context :: "string option"
  ru_metadata :: "metadata option"
  ru_provenance :: write_provenance

definition update_roadmap ::
  "plan_db \<Rightarrow> principal \<Rightarrow> timestamp \<Rightarrow> plan_ids \<Rightarrow> uuid \<Rightarrow> roadmap_update \<Rightarrow> int
     \<Rightarrow> (plan_db, roadmap_view) outcome" where
  "update_roadmap pl p now ids roadmap_id payload expected_version =
     on_ok (lock_roadmap pl roadmap_id) pl (\<lambda>r.
     guarded (guard_write p r WK_CONTENT (ru_provenance payload)) pl
     (on_ok (resolve_provenance (pl_db pl) p (ru_provenance payload)) pl (\<lambda>prov.
       guarded (check_version (rm_version r) expected_version) pl
         (changed_and_finished pl p now ids
            (r\<lparr>rm_title := patch (rm_title r) (ru_title payload),
               rm_objective := patch_text (rm_objective r) (ru_objective payload),
               rm_context := patch_text (rm_context r) (ru_context payload),
               rm_metadata := patch (rm_metadata r) (ru_metadata payload)\<rparr>)
            prov ''roadmap'' None))))"

subsection \<open>Lifecycle\<close>

definition pending_proposals :: "plan_db \<Rightarrow> uuid \<Rightarrow> revision_row list" where
  "pending_proposals pl roadmap_id =
     filter (\<lambda>v. rn_kind v = RK_PROPOSAL \<and> rn_status v = Some RN_PENDING) (revisions_of pl roadmap_id)"

definition newest_revision :: "revision_row list \<Rightarrow> revision_row option" where
  "newest_revision vs = (case sort_key (\<lambda>v. - rn_revision_no v) vs of [] \<Rightarrow> None | v # _ \<Rightarrow> Some v)"

definition pending_proposal :: "plan_db \<Rightarrow> uuid \<Rightarrow> revision_row option" where
  "pending_proposal pl roadmap_id = newest_revision (pending_proposals pl roadmap_id)"

definition active_roadmap_exists :: http_error where
  "active_roadmap_exists =
     roadmap_error 409 ''active_roadmap_exists''
       [(''message'', JText ''the project already has an active roadmap'')]"

definition other_active :: "plan_db \<Rightarrow> roadmap_row \<Rightarrow> bool" where
  "other_active pl r =
     list_ex (\<lambda>o'. rm_project_id o' = rm_project_id r \<and> rm_status o' = RS_ACTIVE \<and> rm_id o' \<noteq> rm_id r)
       (pl_roadmaps pl)"

definition ensure_no_other_active :: "plan_db \<Rightarrow> roadmap_row \<Rightarrow> unit fallible" where
  "ensure_no_other_active pl r = raise_if (other_active pl r) active_roadmap_exists"

definition flush_status :: "plan_db \<Rightarrow> roadmap_row \<Rightarrow> plan_db fallible" where
  "flush_status pl r =
     (if rm_status r = RS_ACTIVE \<and> other_active pl r then Inl active_roadmap_exists
      else Inr (put_roadmap r pl))"

fun transition_event :: "roadmap_transition \<Rightarrow> event_type" where
  "transition_event RT_APPROVE = ''roadmap.approved''"
| "transition_event RT_REQUEST_CHANGES = ''roadmap.changes_requested''"
| "transition_event RT_REJECT = ''roadmap.rejected''"
| "transition_event RT_ACTIVATE = ''roadmap.activated''"
| "transition_event RT_REOPEN = ''roadmap.activated''"
| "transition_event RT_COMPLETE = ''roadmap.completed''"
| "transition_event RT_ARCHIVE = ''roadmap.archived''"
| "transition_event RT_SUBMIT = ''roadmap.proposed''"

record transition_request =
  tq_transition :: roadmap_transition
  tq_expected_version :: int
  tq_comment :: "string option"
  tq_provenance :: write_provenance

definition review_verdict :: "roadmap_transition \<Rightarrow> revision_status" where
  "review_verdict tr =
     (case tr of RT_APPROVE \<Rightarrow> RN_APPROVED | RT_REQUEST_CHANGES \<Rightarrow> RN_CHANGES_REQUESTED | _ \<Rightarrow> RN_REJECTED)"

definition reviewed :: "principal \<Rightarrow> timestamp \<Rightarrow> string option \<Rightarrow> revision_status \<Rightarrow> revision_row \<Rightarrow> revision_row" where
  "reviewed p now comment verdict v =
     v\<lparr>rn_status := Some verdict, rn_reviewed_by_user_id := Some (u_id (p_user p)),
       rn_reviewed_at := Some now, rn_review_comment := comment\<rparr>"

text \<open>After the status was flushed: the review of the pending proposal, or a first snapshot.\<close>

definition settle_transition ::
  "plan_db \<Rightarrow> principal \<Rightarrow> timestamp \<Rightarrow> uuid \<Rightarrow> roadmap_row \<Rightarrow> provenance_cols \<Rightarrow> transition_request
     \<Rightarrow> revision_row option \<Rightarrow> plan_db \<times> roadmap_row" where
  "settle_transition pl p now i r prov payload proposal =
     (case proposal of
        Some v \<Rightarrow>
          (let r' = (if tq_transition payload = RT_APPROVE
                     then r\<lparr>rm_approved_revision_no := Some (rn_revision_no v)\<rparr> else r)
           in (put_roadmap r' (put_revision (reviewed p now (tq_comment payload)
                 (review_verdict (tq_transition payload)) v) pl), r'))
      | None \<Rightarrow>
          if tq_transition payload \<in> {RT_ACTIVATE, RT_APPROVE} then record_snapshot pl i r prov
          else (pl, r))"

definition transition_payload :: "roadmap_row \<Rightarrow> transition_request \<Rightarrow> (string \<times> jval) list" where
  "transition_payload r payload =
     status_members r @ [(''transition'', JText (roadmap_transition_value (tq_transition payload)))] @
     (if tq_transition payload \<in> {RT_APPROVE, RT_REQUEST_CHANGES, RT_REJECT}
      then [(''scope'', JText ''roadmap'')] else []) @
     (case tq_comment payload of
        None \<Rightarrow> [] | Some c \<Rightarrow> if c = [] then [] else [(''comment'', JText c)])"

definition apply_transition ::
  "plan_db \<Rightarrow> principal \<Rightarrow> timestamp \<Rightarrow> plan_ids \<Rightarrow> roadmap_row \<Rightarrow> provenance_cols \<Rightarrow> roadmap_status
     \<Rightarrow> transition_request \<Rightarrow> (plan_db, roadmap_view) outcome" where
  "apply_transition pl p now ids r prov target payload =
     (let r1 = r\<lparr>rm_version := rm_version r + 1\<rparr> in
      if tq_transition payload = RT_SUBMIT
      then (let (pl', r', event) = submit_draft pl (pi_revision ids) r1 prov
            in finish pl' p now (pi_event ids) r' prov [event])
      else
        (let proposal = (if rm_status r = RS_PROPOSED then pending_proposal pl (rm_id r) else None);
             r2 = r1\<lparr>rm_status := target\<rparr>
         in case flush_status pl r2 of
              Inl e \<Rightarrow> (pl, Inl e)
            | Inr pl2 \<Rightarrow>
                (let (pl3, r3) = settle_transition pl2 p now (pi_revision ids) r2 prov payload proposal;
                     body = transition_payload r3 payload;
                     events = [\<lparr>pe_type = transition_event (tq_transition payload), pe_payload = body\<rparr>] @
                       (if tq_transition payload = RT_APPROVE
                        then [\<lparr>pe_type = ''roadmap.activated'', pe_payload = body\<rparr>] else [])
                 in finish pl3 p now (pi_event ids) r3 prov events)))"

definition transition_roadmap ::
  "plan_db \<Rightarrow> principal \<Rightarrow> timestamp \<Rightarrow> plan_ids \<Rightarrow> uuid \<Rightarrow> transition_request
     \<Rightarrow> (plan_db, roadmap_view) outcome" where
  "transition_roadmap pl p now ids roadmap_id payload =
     on_ok (lock_roadmap pl roadmap_id) pl (\<lambda>r.
     guarded (and_then (ensure_project_access p (rm_project_id r) WriteAction)
         (and_then (ensure_can_write p ''roadmap'')
           (if transition_requires_provision (rm_status r) (tq_transition payload)
            then ensure_can_provision p ''roadmap'' else Inr ()))) pl
     (on_ok (resolve_provenance (pl_db pl) p (tq_provenance payload)) pl (\<lambda>prov.
       if rm_status r = RS_ACTIVE \<and> tq_transition payload = RT_ACTIVATE
       then (pl, Inr (build_roadmap (load_tree pl r)))
       else
         guarded (check_version (rm_version r) (tq_expected_version payload)) pl
         (case transition_target (rm_status r) (tq_transition payload) of
            None \<Rightarrow> (pl, Inl (invalid_state (rm_status r)
              (''transition '' @ roadmap_transition_value (tq_transition payload) @ '' is not allowed'')
              (Some (tq_transition payload))))
          | Some target \<Rightarrow>
              guarded (if target = RS_ACTIVE then ensure_no_other_active pl r else Inr ()) pl
                (apply_transition pl p now ids r prov target payload)))))"

definition submit_roadmap ::
  "plan_db \<Rightarrow> principal \<Rightarrow> timestamp \<Rightarrow> plan_ids \<Rightarrow> uuid \<Rightarrow> write_provenance \<Rightarrow> (plan_db, unit) outcome" where
  "submit_roadmap pl p now ids roadmap_id declared =
     on_ok (get_roadmap pl p roadmap_id) pl (\<lambda>current.
       (let r = ry_roadmap (rw_summary current) in
        if rm_status r \<noteq> RS_DRAFT then (pl, Inr ())
        else (case transition_roadmap pl p now ids roadmap_id
                \<lparr>tq_transition = RT_SUBMIT, tq_expected_version = rm_version r, tq_comment = None,
                 tq_provenance = declared\<rparr> of
                (pl', Inl e) \<Rightarrow> (pl', Inl e)
              | (pl', Inr _) \<Rightarrow> (pl', Inr ()))))"

subsection \<open>Revisions and proposals\<close>

fun revision_kind_value :: "revision_kind \<Rightarrow> string" where
  "revision_kind_value RK_PROPOSAL = ''proposal''"
| "revision_kind_value RK_SNAPSHOT = ''snapshot''"
| "revision_kind_value RK_REVIEW = ''review''"

fun revision_status_value :: "revision_status option \<Rightarrow> string" where
  "revision_status_value None = ''None''"
| "revision_status_value (Some RN_PENDING) = ''pending''"
| "revision_status_value (Some RN_APPROVED) = ''approved''"
| "revision_status_value (Some RN_CHANGES_REQUESTED) = ''changes_requested''"
| "revision_status_value (Some RN_REJECTED) = ''rejected''"
| "revision_status_value (Some RN_SUPERSEDED) = ''superseded''"

definition revision_at :: "plan_db \<Rightarrow> uuid \<Rightarrow> int \<Rightarrow> revision_row option" where
  "revision_at pl roadmap_id n =
     (case sort_key (\<lambda>v. revision_kind_value (rn_kind v))
        (filter (\<lambda>v. rn_revision_no v = n) (revisions_of pl roadmap_id)) of
        [] \<Rightarrow> None | v # _ \<Rightarrow> Some v)"

definition proposal_at :: "plan_db \<Rightarrow> uuid \<Rightarrow> int \<Rightarrow> revision_row option" where
  "proposal_at pl roadmap_id n =
     find (\<lambda>v. rn_revision_no v = n \<and> rn_kind v = RK_PROPOSAL) (revisions_of pl roadmap_id)"

definition list_revisions ::
  "plan_db \<Rightarrow> principal \<Rightarrow> uuid \<Rightarrow> revision_kind option \<Rightarrow> revision_status option
     \<Rightarrow> revision_row list fallible" where
  "list_revisions pl p roadmap_id kind status =
     and_get (ensure_roadmap_access pl p roadmap_id ReadAction) (\<lambda>_.
       Inr (sort_key (\<lambda>v. - rn_revision_no v)
         (filter (\<lambda>v. (kind = None \<or> kind = Some (rn_kind v)) \<and> (status = None \<or> status = rn_status v))
           (revisions_of pl roadmap_id))))"

definition get_revision :: "plan_db \<Rightarrow> principal \<Rightarrow> uuid \<Rightarrow> int \<Rightarrow> revision_row fallible" where
  "get_revision pl p roadmap_id n =
     and_get (ensure_roadmap_access pl p roadmap_id ReadAction) (\<lambda>_.
       found (reference_not_found ''revision'') (revision_at pl roadmap_id n))"

record proposal_create =
  pp_base_revision_no :: int
  pp_document :: roadmap_document
  pp_submit :: bool
  pp_summary :: "string option"
  pp_provenance :: write_provenance

definition revised_roadmap :: "roadmap_row \<Rightarrow> roadmap_document \<Rightarrow> roadmap_row" where
  "revised_roadmap r doc =
     r\<lparr>rm_title := rd_title doc, rm_objective := text_or_none (rd_objective doc),
       rm_context := text_or_none (rd_context doc), rm_metadata := rd_metadata doc,
       rm_version := rm_version r + 1\<rparr>"

text \<open>A revised draft is submitted, or frozen as the next snapshot.\<close>

definition close_revision ::
  "plan_db \<Rightarrow> principal \<Rightarrow> timestamp \<Rightarrow> plan_ids \<Rightarrow> roadmap_row \<Rightarrow> proposal_create \<Rightarrow> provenance_cols
     \<Rightarrow> (plan_db, revision_row option) outcome" where
  "close_revision pl p now ids r payload prov =
     (if pp_submit payload
      then (let (pl1, r1, event) = submit_draft pl (pi_revision ids) r prov;
                v = map_option (\<lambda>v. v\<lparr>rn_summary := pp_summary payload\<rparr>) (pending_proposal pl1 (rm_id r1));
                pl2 = (case v of None \<Rightarrow> pl1 | Some w \<Rightarrow> put_revision w pl1)
            in (finish_result pl2 p now (pi_event ids) r1 prov [event], Inr v))
      else (let n = next_revision_no pl r;
                r1 = r\<lparr>rm_revision_no := n\<rparr>;
                v = new_revision (pi_revision ids) r1 prov RK_SNAPSHOT n (pp_document payload) None
                      (Some (pp_base_revision_no payload)) (pp_summary payload)
            in (finish_result (put_revision v (put_roadmap r1 pl)) p now (pi_event ids) r1 prov
                  [\<lparr>pe_type = ''roadmap.updated'',
                    pe_payload = status_members r1 @ [(''entity'', JText ''document'')]\<rparr>], Inr (Some v))))"

definition revise_draft ::
  "plan_db \<Rightarrow> principal \<Rightarrow> timestamp \<Rightarrow> plan_ids \<Rightarrow> roadmap_row \<Rightarrow> proposal_create
     \<Rightarrow> (plan_db, revision_row option) outcome" where
  "revise_draft pl p now ids r payload =
     guarded (and_then (guard_write p r WK_CONTENT (pp_provenance payload))
         (and_then (raise_if (pp_base_revision_no payload \<noteq> rm_revision_no r)
            (roadmap_error 409 ''version_conflict'' [(''server_revision_no'', JInt (rm_revision_no r))]))
           (first_error (roadmap_document_errors (pp_document payload))))) pl
     (on_ok (resolve_provenance (pl_db pl) p (pp_provenance payload)) pl (\<lambda>prov.
      on_ok (reconcile_document pl ids (load_tree pl r) (pp_document payload) prov) pl (\<lambda>pl1.
       (let r1 = revised_roadmap r (pp_document payload)
        in close_revision (put_roadmap r1 pl1) p now ids r1 payload prov))))"

definition create_proposal ::
  "plan_db \<Rightarrow> principal \<Rightarrow> timestamp \<Rightarrow> plan_ids \<Rightarrow> uuid \<Rightarrow> proposal_create
     \<Rightarrow> (plan_db, revision_row option) outcome" where
  "create_proposal pl p now ids roadmap_id payload =
     on_ok (lock_roadmap pl roadmap_id) pl (\<lambda>r.
       if rm_status r = RS_PROPOSED
       then guarded (and_then (ensure_project_access p (rm_project_id r) WriteAction)
                (ensure_can_write p ''roadmap'')) pl
              (pl, Inl (invalid_state RS_PROPOSED
                ''request_changes by an authorized reviewer is required before revising a proposed roadmap; then revise the draft with its current revision_no'' None))
       else if rm_status r = RS_DRAFT then revise_draft pl p now ids r payload
       else
         guarded (guard_write p r WK_PROPOSAL (pp_provenance payload)) pl
         (on_ok (resolve_provenance (pl_db pl) p (pp_provenance payload)) pl (\<lambda>prov.
           guarded (first_error (roadmap_document_errors (pp_document payload))) pl
           (let pl1 = fold put_revision (map (\<lambda>v. v\<lparr>rn_status := Some RN_SUPERSEDED\<rparr>)
                        (pending_proposals pl (rm_id r))) pl;
                v = new_revision (pi_revision ids) r prov RK_PROPOSAL (next_revision_no pl1 r)
                      (pp_document payload) (Some RN_PENDING) (Some (pp_base_revision_no payload))
                      (pp_summary payload);
                event = \<lparr>pe_type = ''roadmap.proposed'',
                  pe_payload = [(''roadmap_id'', JUuid (rm_id r)), (''revision_no'', JInt (rn_revision_no v)),
                    (''base_revision_no'', JInt (pp_base_revision_no payload)),
                    (''status'', JText (roadmap_status_value (rm_status r))),
                    (''scope'', JText ''revision'')]\<rparr>
            in (finish_result (put_revision v pl1) p now (pi_event ids) r prov [event], Inr (Some v))))))"

definition proposal_diff ::
  "plan_db \<Rightarrow> principal \<Rightarrow> uuid \<Rightarrow> int \<Rightarrow> (int option \<times> diff_entry list) fallible" where
  "proposal_diff pl p roadmap_id n =
     and_get (ensure_roadmap_access pl p roadmap_id ReadAction) (\<lambda>_.
     and_get (found (reference_not_found ''revision'') (proposal_at pl roadmap_id n)) (\<lambda>v.
     and_get (found (not_found ''content'') (rn_content v)) (\<lambda>proposal.
       (let base = (case rn_base_revision_no v of
              None \<Rightarrow> None
            | Some b \<Rightarrow> (case revision_at pl roadmap_id b of None \<Rightarrow> None | Some w \<Rightarrow> rn_content w))
        in Inr (rn_base_revision_no v, compute_diff base proposal)))))"

record proposal_review =
  pw_decision :: review_decision
  pw_expected_version :: int
  pw_comment :: "string option"

definition decide_proposal ::
  "plan_db \<Rightarrow> plan_ids \<Rightarrow> roadmap_row \<Rightarrow> revision_row \<Rightarrow> review_decision
     \<Rightarrow> (plan_db \<times> roadmap_row \<times> revision_status \<times> event_type) fallible" where
  "decide_proposal pl ids r v decision =
     (case decision of
        RD_APPROVE \<Rightarrow>
          and_then (raise_if (rn_base_revision_no v \<noteq> rm_approved_revision_no r)
            (roadmap_error 409 ''base_revision_stale''
              (case rm_approved_revision_no r of None \<Rightarrow> [] | Some n \<Rightarrow> [(''server_revision_no'', JInt n)])))
          (and_get (found (not_found ''content'') (rn_content v)) (\<lambda>doc.
           and_get (reconcile_document pl ids (load_tree pl r) doc (rn_prov v)) (\<lambda>pl1.
             (let r1 = r\<lparr>rm_version := rm_version r + 1, rm_revision_no := rn_revision_no v,
                         rm_approved_revision_no := Some (rn_revision_no v)\<rparr>
              in Inr (put_roadmap r1 pl1, r1, RN_APPROVED, ''roadmap.approved'')))))
      | RD_REQUEST_CHANGES \<Rightarrow> Inr (pl, r, RN_CHANGES_REQUESTED, ''roadmap.changes_requested'')
      | RD_REJECT \<Rightarrow> Inr (pl, r, RN_REJECTED, ''roadmap.rejected''))"

text \<open>The verdict on the revision and the event, once the decision took effect.\<close>

definition close_review ::
  "principal \<Rightarrow> timestamp \<Rightarrow> plan_ids \<Rightarrow> revision_row \<Rightarrow> proposal_review \<Rightarrow> provenance_cols
     \<Rightarrow> plan_db \<times> roadmap_row \<times> revision_status \<times> event_type \<Rightarrow> (plan_db, roadmap_view) outcome" where
  "close_review p now ids v payload prov decided =
     (case decided of (pl1, r1, verdict, event_type) \<Rightarrow>
       (let v' = reviewed p now (pw_comment payload) verdict v;
            body = [(''roadmap_id'', JUuid (rm_id r1)), (''revision_no'', JInt (rn_revision_no v)),
                (''base_revision_no'', case rn_base_revision_no v of None \<Rightarrow> JNull | Some b \<Rightarrow> JInt b),
                (''status'', JText (roadmap_status_value (rm_status r1))), (''scope'', JText ''revision'')] @
              (case pw_comment payload of None \<Rightarrow> [] | Some c \<Rightarrow> if c = [] then [] else [(''comment'', JText c)])
        in finish (put_revision v' pl1) p now (pi_event ids) r1 prov
             [\<lparr>pe_type = event_type, pe_payload = body\<rparr>]))"

definition review_proposal ::
  "plan_db \<Rightarrow> principal \<Rightarrow> timestamp \<Rightarrow> plan_ids \<Rightarrow> uuid \<Rightarrow> int \<Rightarrow> proposal_review
     \<Rightarrow> (plan_db, roadmap_view) outcome" where
  "review_proposal pl p now ids roadmap_id n payload =
     on_ok (lock_roadmap pl roadmap_id) pl (\<lambda>r.
     guarded (and_then (ensure_project_access p (rm_project_id r) WriteAction)
         (and_then (ensure_can_write p ''roadmap'') (ensure_can_provision p ''roadmap''))) pl
     (on_ok (found (reference_not_found ''revision'') (proposal_at pl roadmap_id n)) pl (\<lambda>v.
       guarded (and_then (raise_if (rm_status r \<noteq> RS_ACTIVE)
           (invalid_state (rm_status r) ''a proposal can only be reviewed while the roadmap is active'' None))
         (and_then (raise_if (rn_status v \<noteq> Some RN_PENDING)
           (invalid_state (rm_status r) (''proposal '' @ show_int n @ '' is '' @
              revision_status_value (rn_status v) @ '', not pending'') None))
           (check_version (rm_version r) (pw_expected_version payload)))) pl
       (on_ok (resolve_provenance (pl_db pl) p \<lparr>wp_origin = RO_MANUAL, wp_agent_id = None\<rparr>) pl (\<lambda>prov.
        on_ok (decide_proposal pl ids r v (pw_decision payload)) pl (close_review p now ids v payload prov))))))"

end
