(* ===== verification/Roadmap_Documents.thy ===== *)
theory Roadmap_Documents
  imports Roadmap_Service
begin

section \<open>What the plan stores and what it exports\<close>

text \<open>
  Well-formed plan tables, the effect of applying a document on them, and the document a plan
  exports. The main result: whatever was stored before, after a validated document is applied
  the exported document is that document in normal form, other roadmaps are untouched, kept
  steps keep their identity and their task links, and the tables stay well formed.
\<close>

subsection \<open>Well-formed plan tables\<close>

definition phase_slot :: "phase_row \<Rightarrow> uuid \<times> string" where
  "phase_slot p = (ph_roadmap_id p, ph_key p)"

definition step_slot :: "step_row \<Rightarrow> uuid \<times> string" where
  "step_slot s = (sp_roadmap_id s, sp_key s)"

definition steps_placed :: "plan_db \<Rightarrow> bool" where
  "steps_placed pl \<longleftrightarrow> (\<forall>s \<in> set (pl_steps pl). \<exists>p \<in> set (pl_phases pl).
     ph_id p = sp_phase_id s \<and> ph_roadmap_id p = sp_roadmap_id s)"

definition step_in :: "plan_db \<Rightarrow> uuid \<Rightarrow> uuid \<Rightarrow> bool" where
  "step_in pl roadmap_id i \<longleftrightarrow> (\<exists>s \<in> set (pl_steps pl). sp_id s = i \<and> sp_roadmap_id s = roadmap_id)"

definition deps_inside :: "plan_db \<Rightarrow> bool" where
  "deps_inside pl \<longleftrightarrow> (\<forall>e \<in> set (pl_deps pl).
     step_in pl (dp_roadmap_id e) (dp_step_id e) \<and> step_in pl (dp_roadmap_id e) (dp_depends_on_step_id e))"

definition edges_of :: "dependency_row list \<Rightarrow> (uuid \<times> uuid) set" where
  "edges_of es = (\<lambda>e. (dp_step_id e, dp_depends_on_step_id e)) ` set es"

definition tables_wf :: "plan_db \<Rightarrow> bool" where
  "tables_wf pl \<longleftrightarrow> tbl_wf ph_id (pl_phases pl) \<and> tbl_wf sp_id (pl_steps pl) \<and>
     tbl_wf phase_slot (pl_phases pl) \<and> tbl_wf step_slot (pl_steps pl) \<and>
     steps_placed pl \<and> deps_inside pl \<and> acyclic (edges_of (pl_deps pl))"

definition fresh_ids :: "plan_ids \<Rightarrow> plan_db \<Rightarrow> bool" where
  "fresh_ids ids pl \<longleftrightarrow> inj (pi_phase ids) \<and> inj (pi_step ids) \<and>
     (\<forall>k. pi_phase ids k \<notin> ph_id ` set (pl_phases pl)) \<and> (\<forall>k. pi_step ids k \<notin> sp_id ` set (pl_steps pl))"

lemma set_roadmap_phases [simp]:
  "set (roadmap_phases pl r) = {p \<in> set (pl_phases pl). ph_roadmap_id p = rm_id r}"
  by (simp add: roadmap_phases_def)

lemma set_roadmap_steps [simp]:
  "set (roadmap_steps pl r) = {s \<in> set (pl_steps pl). sp_roadmap_id s = rm_id r}"
  by (simp add: roadmap_steps_def)

lemma load_tree_simps [simp]:
  "tr_roadmap (load_tree pl r) = r" "tr_phases (load_tree pl r) = roadmap_phases pl r"
  "tr_steps (load_tree pl r) = roadmap_steps pl r"
  by (simp_all add: load_tree_def Let_def)

lemma distinct_filter_map: "distinct (map f xs) \<Longrightarrow> distinct (map f (filter P xs))"
  by (induction xs) auto

lemma tbl_wf_filter [intro]: "tbl_wf key xs \<Longrightarrow> tbl_wf key (filter P xs)"
  by (simp add: tbl_wf_def distinct_filter_map)

lemma tbl_wf_sort [simp]: "tbl_wf key (sort_key f xs) \<longleftrightarrow> tbl_wf key xs"
proof -
  have "mset (map key (sort_key f xs)) = mset (map key xs)" by simp
  then show ?thesis unfolding tbl_wf_def by (metis mset_eq_imp_distinct_iff)
qed

lemma tbl_wf_coarser:
  assumes "tbl_wf slot xs"
    and "\<And>x y. x \<in> set xs \<Longrightarrow> y \<in> set xs \<Longrightarrow> P x \<Longrightarrow> P y \<Longrightarrow> k x = k y \<Longrightarrow> slot x = slot y"
  shows "tbl_wf k (filter P xs)"
  using assms by (induction xs) (auto simp: tbl_wf_def image_iff)

lemma roadmap_rows_wf:
  assumes "tables_wf pl"
  shows "tbl_wf ph_id (roadmap_phases pl r)" and "tbl_wf sp_id (roadmap_steps pl r)"
    and "tbl_wf ph_key (roadmap_phases pl r)" and "tbl_wf sp_key (roadmap_steps pl r)"
proof -
  show "tbl_wf ph_id (roadmap_phases pl r)" "tbl_wf sp_id (roadmap_steps pl r)"
    using assms by (auto simp: roadmap_phases_def roadmap_steps_def tables_wf_def)
  have "tbl_wf ph_key (filter (\<lambda>p. ph_roadmap_id p = rm_id r) (pl_phases pl))"
  proof (rule tbl_wf_coarser)
    show "tbl_wf phase_slot (pl_phases pl)" using assms by (simp add: tables_wf_def)
  qed (simp add: phase_slot_def)
  moreover have "tbl_wf sp_key (filter (\<lambda>s. sp_roadmap_id s = rm_id r) (pl_steps pl))"
  proof (rule tbl_wf_coarser)
    show "tbl_wf step_slot (pl_steps pl)" using assms by (simp add: tables_wf_def)
  qed (simp add: step_slot_def)
  ultimately show "tbl_wf ph_key (roadmap_phases pl r)" "tbl_wf sp_key (roadmap_steps pl r)"
    by (simp_all add: roadmap_phases_def roadmap_steps_def)
qed

lemma find_Some_key:
  assumes "tbl_wf key xs"
  shows "find (\<lambda>x. key x = k) xs = Some x \<longleftrightarrow> x \<in> set xs \<and> key x = k"
proof
  assume "find (\<lambda>x. key x = k) xs = Some x" then show "x \<in> set xs \<and> key x = k" by (auto simp: find_Some_iff)
next
  assume "x \<in> set xs \<and> key x = k" then show "find (\<lambda>x. key x = k) xs = Some x"
    by (intro find_unique [OF assms]) auto
qed

lemma find_None_key: "find (\<lambda>x. key x = k) xs = None \<longleftrightarrow> k \<notin> key ` set xs"
  by (auto simp: find_None_iff)

lemma phase_by_key_iff:
  assumes "tables_wf pl"
  shows "phase_by_key (load_tree pl r) k = Some p \<longleftrightarrow>
    p \<in> set (pl_phases pl) \<and> ph_roadmap_id p = rm_id r \<and> ph_key p = k"
  by (auto simp: phase_by_key_def find_Some_key [OF roadmap_rows_wf(3) [OF assms]])

lemma step_by_key_iff:
  assumes "tables_wf pl"
  shows "step_by_key (load_tree pl r) k = Some s \<longleftrightarrow>
    s \<in> set (pl_steps pl) \<and> sp_roadmap_id s = rm_id r \<and> sp_key s = k"
  by (auto simp: step_by_key_def find_Some_key [OF roadmap_rows_wf(4) [OF assms]])

lemma no_links_iff:
  assumes "tables_wf pl" and "s \<in> set (pl_steps pl)" and "sp_roadmap_id s = rm_id r"
  shows "tr_links (load_tree pl r) (sp_id s) = [] \<longleftrightarrow> sp_id s \<notin> lk_step_id ` set (pl_links pl)"
proof -
  have "find (\<lambda>x. sp_id x = sp_id s) (roadmap_steps pl r) = Some s"
    using assms by (simp add: find_Some_key [OF roadmap_rows_wf(2)])
  then have "tr_links (load_tree pl r) (sp_id s)
      = sort_key (link_order s) (filter (\<lambda>l. lk_step_id l = sp_id s) (pl_links pl))"
    by (simp add: load_tree_def Let_def step_links_def)
  moreover have "sort_key (link_order s) ls = [] \<longleftrightarrow> ls = []" for ls
    by (metis length_0_conv length_sort)
  ultimately show ?thesis by (auto simp: filter_empty_conv image_iff)
qed

subsection \<open>The rows a document is merged into\<close>

definition phase_id_for :: "roadmap_tree \<Rightarrow> (string \<Rightarrow> uuid) \<Rightarrow> string \<Rightarrow> uuid" where
  "phase_id_for t ids key = (case phase_by_key t key of None \<Rightarrow> ids key | Some row \<Rightarrow> ph_id row)"

lemma merge_phase_simps [simp]:
  "ph_id (merge_phase t f prov i ph) = phase_id_for t f (pc_key ph)"
  "ph_position (merge_phase t f prov i ph) = i" "ph_title (merge_phase t f prov i ph) = pc_title ph"
  "ph_objective (merge_phase t f prov i ph) = text_or_none (pc_objective ph)"
  by (auto simp: merge_phase_def phase_id_for_def new_phase_row_def split: option.split)

lemma merge_step_simps [simp]:
  "sp_id (merge_step t f prov pid i s) = step_id_for t f (sc_key s)"
  "sp_position (merge_step t f prov pid i s) = i" "sp_phase_id (merge_step t f prov pid i s) = pid"
  "sp_title (merge_step t f prov pid i s) = sc_title s"
  "sp_objective (merge_step t f prov pid i s) = text_or_none (sc_objective s)"
  "sp_context (merge_step t f prov pid i s) = text_or_none (sc_context s)"
  "sp_instructions (merge_step t f prov pid i s) = text_or_none (sc_instructions s)"
  "sp_acceptance_criteria (merge_step t f prov pid i s) = sc_acceptance_criteria s"
  "sp_notes (merge_step t f prov pid i s) = text_or_none (sc_notes s)"
  "sp_metadata (merge_step t f prov pid i s) = sc_metadata s"
  "sp_task_plan (merge_step t f prov pid i s) = sc_tasks s"
  by (auto simp: merge_step_def step_id_for_def new_step_row_def split: option.split)

lemma merge_keys:
  assumes "tables_wf pl"
  shows "ph_key (merge_phase (load_tree pl r) f prov i ph) = pc_key ph"
    and "ph_roadmap_id (merge_phase (load_tree pl r) f prov i ph) = rm_id r"
    and "sp_key (merge_step (load_tree pl r) f prov pid i s) = sc_key s"
    and "sp_roadmap_id (merge_step (load_tree pl r) f prov pid i s) = rm_id r"
  by (auto simp: merge_phase_def merge_step_def new_phase_row_def new_step_row_def
      phase_by_key_iff [OF assms] step_by_key_iff [OF assms] split: option.split)

lemma lookup_id_inj:
  assumes look: "\<And>k x. look k = Some x \<Longrightarrow> x \<in> A \<and> key x = k"
    and old: "inj_on idf A" and new: "inj ids" and fresh: "\<And>k. ids k \<notin> idf ` A"
  shows "inj (\<lambda>k. case look k of None \<Rightarrow> ids k | Some x \<Rightarrow> idf x)"
proof (rule injI)
  fix a b
  assume eq: "(case look a of None \<Rightarrow> ids a | Some x \<Rightarrow> idf x) = (case look b of None \<Rightarrow> ids b | Some x \<Rightarrow> idf x)"
  have ne: "ids k \<noteq> idf x" if "look j = Some x" for j k x using look [OF that] fresh by blast
  show "a = b"
  proof (cases "look a")
    case None
    then show ?thesis using eq ne new by (cases "look b") (auto simp: inj_eq)
  next
    case (Some x)
    show ?thesis
    proof (cases "look b")
      case None
      with Some eq ne [OF Some, of b] show ?thesis by simp
    next
      case Some': (Some y)
      have "idf x = idf y" using eq Some Some' by simp
      then have "x = y" using old look [OF Some] look [OF Some'] by (auto simp: inj_on_def)
      then show ?thesis using look [OF Some] look [OF Some'] by simp
    qed
  qed
qed

lemma phase_id_inj:
  assumes "tables_wf pl" and "fresh_ids ids pl"
  shows "inj (phase_id_for (load_tree pl r) (pi_phase ids))"
  unfolding phase_id_for_def
  using assms by (intro lookup_id_inj [where A = "set (pl_phases pl)" and key = ph_key])
    (auto simp: phase_by_key_iff tables_wf_def tbl_wf_def distinct_map fresh_ids_def)

lemma step_id_inj:
  assumes "tables_wf pl" and "fresh_ids ids pl"
  shows "inj (step_id_for (load_tree pl r) (pi_step ids))"
  unfolding step_id_for_def
  using assms by (intro lookup_id_inj [where A = "set (pl_steps pl)" and key = sp_key])
    (auto simp: step_by_key_iff tables_wf_def tbl_wf_def distinct_map fresh_ids_def)

subsection \<open>Applying a document\<close>

text \<open>What applying a document relies on: the validation without its size limits.\<close>

definition sound_plan :: "roadmap_document \<Rightarrow> bool" where
  "sound_plan d \<longleftrightarrow> distinct (map pc_key (rd_phases d)) \<and> distinct (map sc_key (document_steps d)) \<and>
     (\<forall>s \<in> set (document_steps d). set (sc_depends_on s) \<subseteq> sc_key ` set (document_steps d)) \<and>
     acyclic (depends_relation d)"

lemma valid_sound: "roadmap_document_errors d = [] \<Longrightarrow> sound_plan d"
  by (auto simp: validation_exact well_formed_plan_def sound_plan_def)

text \<open>A validated document was applied to a well-formed plan with unused identifiers.\<close>

definition applied ::
  "plan_db \<Rightarrow> plan_ids \<Rightarrow> roadmap_row \<Rightarrow> roadmap_document \<Rightarrow> provenance_cols \<Rightarrow> plan_db \<Rightarrow> bool" where
  "applied pl ids r doc prov pl' \<longleftrightarrow> tables_wf pl \<and> fresh_ids ids pl \<and> sound_plan doc \<and>
     reconcile_document pl ids (load_tree pl r) doc prov = Inr pl'"

abbreviation kept_phase_id :: "plan_db \<Rightarrow> plan_ids \<Rightarrow> roadmap_row \<Rightarrow> string \<Rightarrow> uuid" where
  "kept_phase_id pl ids r \<equiv> phase_id_for (load_tree pl r) (pi_phase ids)"

abbreviation kept_step_id :: "plan_db \<Rightarrow> plan_ids \<Rightarrow> roadmap_row \<Rightarrow> string \<Rightarrow> uuid" where
  "kept_step_id pl ids r \<equiv> step_id_for (load_tree pl r) (pi_step ids)"

lemma map_enumerate [simp]: "map (\<lambda>x. f (snd x)) (enumerate n xs) = map f xs"
  by (induction xs arbitrary: n) auto

lemma merged_phases_map:
  assumes "\<And>i ph. f (merge_phase t (pi_phase ids) prov i ph) = g ph"
  shows "map f (merged_phases t ids prov doc) = map g (rd_phases doc)"
  using assms by (simp add: merged_phases_def comp_def case_prod_unfold)

lemma merged_steps_concat:
  "merged_steps t ids prov doc =
     concat (map (\<lambda>ph. merged_steps_of t ids prov (phase_id_for t (pi_phase ids) (pc_key ph)) (pc_steps ph))
       (rd_phases doc))"
proof -
  have zip: "map2 (\<lambda>row ph. F (ph_id row) ph) rows phs = map (\<lambda>ph. F (h ph) ph) phs"
    if "map ph_id rows = map h phs"
    for F :: "uuid \<Rightarrow> phase_content \<Rightarrow> step_row list" and rows :: "phase_row list" and phs h
    using that by (induction phs arbitrary: rows) (auto simp: map_eq_Cons_conv)
  have "map ph_id (merged_phases t ids prov doc)
      = map (\<lambda>ph. phase_id_for t (pi_phase ids) (pc_key ph)) (rd_phases doc)"
    by (rule merged_phases_map) simp
  from zip [OF this, of "\<lambda>i ph. merged_steps_of t ids prov i (pc_steps ph)"]
  show ?thesis by (simp add: merged_steps_def)
qed

lemma merged_steps_map:
  assumes "\<And>pid i s. f (merge_step t (pi_step ids) prov pid i s) = g s"
  shows "map f (merged_steps t ids prov doc) = map g (document_steps doc)"
  using assms
  by (simp add: merged_steps_concat merged_steps_of_def document_steps_def map_concat comp_def
      case_prod_unfold)

lemmas merged_ids =
  merged_phases_map [where f = ph_id, OF merge_phase_simps(1)]
  merged_steps_map [where f = sp_id, OF merge_step_simps(1)]

lemma merged_keys:
  assumes "tables_wf pl"
  shows "map ph_key (merged_phases (load_tree pl r) ids prov doc) = map pc_key (rd_phases doc)"
    and "map sp_key (merged_steps (load_tree pl r) ids prov doc) = map sc_key (document_steps doc)"
  by (rule merged_phases_map merged_steps_map, simp add: merge_keys [OF assms])+

lemma merged_roadmap:
  assumes "tables_wf pl"
  shows "p \<in> set (merged_phases (load_tree pl r) ids prov doc) \<Longrightarrow> ph_roadmap_id p = rm_id r"
    and "s \<in> set (merged_steps (load_tree pl r) ids prov doc) \<Longrightarrow> sp_roadmap_id s = rm_id r"
  by (auto simp: merged_phases_def merged_steps_concat merged_steps_of_def merge_keys [OF assms])

lemma merged_distinct:
  assumes "applied pl ids r doc prov pl'"
  shows "distinct (map ph_id (merged_phases (load_tree pl r) ids prov doc))"
    and "distinct (map sp_id (merged_steps (load_tree pl r) ids prov doc))"
    and "distinct (map ph_key (merged_phases (load_tree pl r) ids prov doc))"
    and "distinct (map sp_key (merged_steps (load_tree pl r) ids prov doc))"
proof -
  have w: "tables_wf pl" "fresh_ids ids pl" "distinct (map pc_key (rd_phases doc))"
      "distinct (map sc_key (document_steps doc))"
    using assms by (simp_all add: applied_def sound_plan_def)
  have d: "distinct (map (\<lambda>x. f (k x)) xs)" if "inj f" "distinct (map k xs)" for f k xs
    using that by (simp add: distinct_map inj_on_def)
  show "distinct (map ph_id (merged_phases (load_tree pl r) ids prov doc))"
    "distinct (map sp_id (merged_steps (load_tree pl r) ids prov doc))"
    using d [OF phase_id_inj [OF w(1,2)] w(3)] d [OF step_id_inj [OF w(1,2)] w(4)]
    by (simp_all add: merged_ids)
  show "distinct (map ph_key (merged_phases (load_tree pl r) ids prov doc))"
    "distinct (map sp_key (merged_steps (load_tree pl r) ids prov doc))"
    using w by (simp_all add: merged_keys [OF w(1)])
qed

lemma fold_put_phase: "fold put_phase rows pl = pl\<lparr>pl_phases := fold (tbl_put ph_id) rows (pl_phases pl)\<rparr>"
  by (induction rows arbitrary: pl) (simp_all add: put_phase_def)

lemma fold_put_step: "fold put_step rows pl = pl\<lparr>pl_steps := fold (tbl_put sp_id) rows (pl_steps pl)\<rparr>"
  by (induction rows arbitrary: pl) (simp_all add: put_step_def)


lemma fold_put_others:
  assumes wf: "tbl_wf key rs" and d: "distinct (map key rows)"
    and hit: "\<And>x y. x \<in> set rs \<Longrightarrow> mine x \<Longrightarrow> y \<in> set rows \<Longrightarrow> name x = name y \<Longrightarrow> key x = key y"
    and foreign: "\<And>x y. x \<in> set rs \<Longrightarrow> \<not> mine x \<Longrightarrow> y \<in> set rows \<Longrightarrow> key x \<noteq> key y"
    and new: "\<And>y. y \<in> set rows \<Longrightarrow> mine y" and names: "name ` set rows = names"
  shows "set (filter (\<lambda>x. \<not> (mine x \<and> name x \<notin> names)) (fold (tbl_put key) rows rs))
    = set rows \<union> {x \<in> set rs. \<not> mine x}"
proof -
  have own: "key x \<in> key ` set rows" if x: "x \<in> set rs" "mine x" and n: "name x \<in> names" for x
  proof -
    from n names obtain y where y: "y \<in> set rows" "name x = name y" by blast
    from hit [OF x this] y(1) show ?thesis by simp
  qed
  have kept: "x \<in> set rows \<Longrightarrow> name x \<in> names" for x using names by blast
  have other: "key x \<notin> key ` set rows" if "x \<in> set rs" "\<not> mine x" for x
    using that foreign by blast
  show ?thesis
    by (rule set_eqI) (use own kept other in \<open>simp add: fold_tbl_put_set [OF d wf], blast\<close>)
qed

lemma delete_steps_steps [simp]: "pl_steps (delete_steps gone pl) = filter (\<lambda>s. \<not> gone s) (pl_steps pl)"
  by (simp add: delete_steps_def Let_def)

lemma delete_steps_frame [simp]:
  "pl_phases (delete_steps gone pl) = pl_phases pl" "pl_roadmaps (delete_steps gone pl) = pl_roadmaps pl"
  "pl_revisions (delete_steps gone pl) = pl_revisions pl" "pl_db (delete_steps gone pl) = pl_db pl"
  by (simp_all add: delete_steps_def Let_def)

lemma delete_steps_none:
  assumes "\<And>s. s \<in> set (pl_steps pl) \<Longrightarrow> \<not> gone s"
  shows "delete_steps gone pl = pl"
proof -
  have "filter gone (pl_steps pl) = []" "filter (\<lambda>s. \<not> gone s) (pl_steps pl) = pl_steps pl"
    using assms by (simp_all add: filter_empty_conv)
  then show ?thesis by (simp add: delete_steps_def)
qed

text \<open>What a reconciliation leaves in each table.\<close>

lemma reconcile_cases:
  assumes "reconcile_document pl ids t doc prov = Inr pl'"
  defines "rid \<equiv> rm_id (tr_roadmap t)"
  defines "pl2 \<equiv> pl\<lparr>pl_phases := fold (tbl_put ph_id) (merged_phases t ids prov doc) (pl_phases pl),
      pl_steps := fold (tbl_put sp_id) (merged_steps t ids prov doc) (pl_steps pl)\<rparr>"
  defines "pl4 \<equiv> delete_phases (\<lambda>p. ph_roadmap_id p = rid \<and> ph_key p \<notin> set (map pc_key (rd_phases doc)))
      (delete_steps (\<lambda>s. sp_roadmap_id s = rid \<and> sp_key s \<notin> set (map sc_key (document_steps doc))) pl2)"
  shows "\<And>s. s \<in> set (tr_steps t) \<Longrightarrow> tr_links t (sp_id s) \<noteq> [] \<Longrightarrow> sp_key s \<in> set (map sc_key (document_steps doc))"
    and "pl' = add_dependencies (document_dependencies (step_id_for t (pi_step ids)) rid doc)
      (pl4\<lparr>pl_deps := filter (\<lambda>e. dp_roadmap_id e \<noteq> rid) (pl_deps pl4)\<rparr>)"
  using assms(1)
  by (auto simp: reconcile_document_def Let_def fold_put_phase fold_put_step pl4_def pl2_def rid_def
      list_ex_iff split: if_splits)


lemma kept_phase_id_own:
  assumes "tables_wf pl" "p \<in> set (pl_phases pl)" "ph_roadmap_id p = rm_id r"
  shows "kept_phase_id pl ids r (ph_key p) = ph_id p"
  using phase_by_key_iff [OF assms(1), of r "ph_key p" p] assms(2,3) by (simp add: phase_id_for_def)

lemma kept_step_id_own:
  assumes "tables_wf pl" "s \<in> set (pl_steps pl)" "sp_roadmap_id s = rm_id r"
  shows "kept_step_id pl ids r (sp_key s) = sp_id s"
  using step_by_key_iff [OF assms(1), of r "sp_key s" s] assms(2,3) by (simp add: step_id_for_def)

lemma id_unique: "tbl_wf key xs \<Longrightarrow> x \<in> set xs \<Longrightarrow> y \<in> set xs \<Longrightarrow> key x = key y \<Longrightarrow> x = y"
  by (auto simp: tbl_wf_def distinct_map inj_on_def)

lemma kept_phase_id_foreign:
  assumes "tables_wf pl" "fresh_ids ids pl" "p \<in> set (pl_phases pl)" "ph_roadmap_id p \<noteq> rm_id r"
  shows "ph_id p \<noteq> kept_phase_id pl ids r k"
proof (cases "phase_by_key (load_tree pl r) k")
  case None
  then show ?thesis using assms(2,3) by (force simp: phase_id_for_def fresh_ids_def)
next
  case (Some q)
  then have "q \<in> set (pl_phases pl)" "ph_roadmap_id q = rm_id r"
    using phase_by_key_iff [OF assms(1)] by auto
  then show ?thesis
    using Some assms id_unique [of ph_id "pl_phases pl" p q] by (auto simp: phase_id_for_def tables_wf_def)
qed

lemma kept_step_id_foreign:
  assumes "tables_wf pl" "fresh_ids ids pl" "s \<in> set (pl_steps pl)" "sp_roadmap_id s \<noteq> rm_id r"
  shows "sp_id s \<noteq> kept_step_id pl ids r k"
proof (cases "step_by_key (load_tree pl r) k")
  case None
  then show ?thesis using assms(2,3) by (force simp: step_id_for_def fresh_ids_def)
next
  case (Some q)
  then have "q \<in> set (pl_steps pl)" "sp_roadmap_id q = rm_id r"
    using step_by_key_iff [OF assms(1)] by auto
  then show ?thesis
    using Some assms id_unique [of sp_id "pl_steps pl" s q] by (auto simp: step_id_for_def tables_wf_def)
qed

lemma merged_row_ids:
  assumes "tables_wf pl"
  shows "p \<in> set (merged_phases (load_tree pl r) ids prov doc) \<Longrightarrow> ph_id p = kept_phase_id pl ids r (ph_key p)"
    and "s \<in> set (merged_steps (load_tree pl r) ids prov doc) \<Longrightarrow> sp_id s = kept_step_id pl ids r (sp_key s)"
  by (auto simp: merged_phases_def merged_steps_concat merged_steps_of_def merge_keys [OF assms])

lemma applied_rows:
  assumes "applied pl ids r doc prov pl'"
  defines "mp \<equiv> merged_phases (load_tree pl r) ids prov doc"
    and "ms \<equiv> merged_steps (load_tree pl r) ids prov doc"
  shows "set (filter (\<lambda>p. \<not> (ph_roadmap_id p = rm_id r \<and> ph_key p \<notin> set (map pc_key (rd_phases doc))))
      (fold (tbl_put ph_id) mp (pl_phases pl))) = set mp \<union> {p \<in> set (pl_phases pl). ph_roadmap_id p \<noteq> rm_id r}"
    and "set (filter (\<lambda>s. \<not> (sp_roadmap_id s = rm_id r \<and> sp_key s \<notin> set (map sc_key (document_steps doc))))
      (fold (tbl_put sp_id) ms (pl_steps pl))) = set ms \<union> {s \<in> set (pl_steps pl). sp_roadmap_id s \<noteq> rm_id r}"
proof -
  have w: "tables_wf pl" "fresh_ids ids pl" using assms(1) by (simp_all add: applied_def)
  have wf: "tbl_wf ph_id (pl_phases pl)" "tbl_wf sp_id (pl_steps pl)" using w(1) by (simp_all add: tables_wf_def)
  note own = merged_row_ids [OF w(1), where r = r and ids = ids and prov = prov and doc = doc, folded mp_def ms_def]
  show "set (filter (\<lambda>p. \<not> (ph_roadmap_id p = rm_id r \<and> ph_key p \<notin> set (map pc_key (rd_phases doc))))
      (fold (tbl_put ph_id) mp (pl_phases pl))) = set mp \<union> {p \<in> set (pl_phases pl). ph_roadmap_id p \<noteq> rm_id r}"
  proof (rule fold_put_others)
    show "tbl_wf ph_id (pl_phases pl)" by (rule wf)
    show "distinct (map ph_id mp)" using merged_distinct(1) [OF assms(1)] by (simp add: mp_def)
    show "ph_key ` set mp = set (map pc_key (rd_phases doc))"
      using arg_cong [OF merged_keys(1) [OF w(1), of r ids prov doc], of set] by (simp add: mp_def)
  qed (use own kept_phase_id_own [OF w(1)] kept_phase_id_foreign [OF w] merged_roadmap(1) [OF w(1)] mp_def
      in \<open>metis\<close>)+
  show "set (filter (\<lambda>s. \<not> (sp_roadmap_id s = rm_id r \<and> sp_key s \<notin> set (map sc_key (document_steps doc))))
      (fold (tbl_put sp_id) ms (pl_steps pl))) = set ms \<union> {s \<in> set (pl_steps pl). sp_roadmap_id s \<noteq> rm_id r}"
  proof (rule fold_put_others)
    show "tbl_wf sp_id (pl_steps pl)" by (rule wf)
    show "distinct (map sp_id ms)" using merged_distinct(2) [OF assms(1)] by (simp add: ms_def)
    show "sp_key ` set ms = set (map sc_key (document_steps doc))"
      using arg_cong [OF merged_keys(2) [OF w(1), of r ids prov doc], of set] by (simp add: ms_def)
  qed (use own kept_step_id_own [OF w(1)] kept_step_id_foreign [OF w] merged_roadmap(2) [OF w(1)] ms_def
      in \<open>metis\<close>)+
qed


lemma delete_phases_unplaced:
  assumes "\<And>s p. s \<in> set (pl_steps pl) \<Longrightarrow> p \<in> set (pl_phases pl) \<Longrightarrow> gone p \<Longrightarrow> sp_phase_id s \<noteq> ph_id p"
  shows "delete_phases gone pl = pl\<lparr>pl_phases := filter (\<lambda>p. \<not> gone p) (pl_phases pl)\<rparr>"
proof -
  have "delete_steps (\<lambda>s. sp_phase_id s \<in> set (map ph_id (filter gone (pl_phases pl)))) pl = pl"
    using assms by (intro delete_steps_none) auto
  then show ?thesis by (simp add: delete_phases_def)
qed

lemma merged_step_phase:
  assumes "s \<in> set (merged_steps t ids prov doc)"
  shows "\<exists>p \<in> set (merged_phases t ids prov doc). sp_phase_id s = ph_id p"
proof -
  from assms obtain ph where ph: "ph \<in> set (rd_phases doc)"
      and s: "sp_phase_id s = phase_id_for t (pi_phase ids) (pc_key ph)"
    by (auto simp: merged_steps_concat merged_steps_of_def)
  have "map ph_id (merged_phases t ids prov doc) = map (\<lambda>x. phase_id_for t (pi_phase ids) (pc_key x)) (rd_phases doc)"
    by (rule merged_ids(1))
  from arg_cong [OF this, of set] ph
  have "phase_id_for t (pi_phase ids) (pc_key ph) \<in> ph_id ` set (merged_phases t ids prov doc)" by auto
  with s show ?thesis by auto
qed

lemma merged_key_in_doc:
  assumes "tables_wf pl"
  shows "p \<in> set (merged_phases (load_tree pl r) ids prov doc) \<Longrightarrow> ph_key p \<in> set (map pc_key (rd_phases doc))"
    and "s \<in> set (merged_steps (load_tree pl r) ids prov doc) \<Longrightarrow> sp_key s \<in> set (map sc_key (document_steps doc))"
  using arg_cong [OF merged_keys(1) [OF assms, of r ids prov doc], of set]
    arg_cong [OF merged_keys(2) [OF assms, of r ids prov doc], of set]
  by auto

lemma applied_step3:
  assumes A: "applied pl ids r doc prov pl'"
  defines "rid \<equiv> rm_id r" and "ms \<equiv> merged_steps (load_tree pl r) ids prov doc"
  defines "gone \<equiv> \<lambda>s. sp_roadmap_id s = rid \<and> sp_key s \<notin> set (map sc_key (document_steps doc))"
  defines "steps1 \<equiv> fold (tbl_put sp_id) ms (pl_steps pl)"
  shows "s \<in> set steps1 \<Longrightarrow> gone s \<Longrightarrow> s \<in> set (pl_steps pl)"
    and "s \<in> set steps1 \<Longrightarrow> gone s \<Longrightarrow> sp_id s \<notin> lk_step_id ` set (pl_links pl)"
    and "e \<in> set (pl_deps pl) \<Longrightarrow> dp_roadmap_id e \<noteq> rid \<Longrightarrow> s \<in> set steps1 \<Longrightarrow> gone s \<Longrightarrow>
      dp_step_id e \<noteq> sp_id s \<and> dp_depends_on_step_id e \<noteq> sp_id s"
proof -
  have w: "tables_wf pl" using A by (simp add: applied_def)
  have wf: "tbl_wf sp_id (pl_steps pl)" using w by (simp add: tables_wf_def)
  have old: "s \<in> set (pl_steps pl)" if "s \<in> set steps1" "gone s" for s
  proof -
    have "s \<in> set ms \<or> s \<in> set (pl_steps pl)"
      using that(1) fold_tbl_put_set [OF merged_distinct(2) [OF A] wf] by (auto simp: steps1_def ms_def)
    then show ?thesis using merged_key_in_doc(2) [OF w] that(2) by (auto simp: ms_def gone_def)
  qed
  then show "s \<in> set steps1 \<Longrightarrow> gone s \<Longrightarrow> s \<in> set (pl_steps pl)" .
  have kept: "s \<in> set (roadmap_steps pl r) \<Longrightarrow> tr_links (load_tree pl r) (sp_id s) \<noteq> [] \<Longrightarrow>
      sp_key s \<in> set (map sc_key (document_steps doc))" for s
    using A reconcile_cases(1) [of pl ids "load_tree pl r" doc prov pl' s] by (simp add: applied_def)
  show "sp_id s \<notin> lk_step_id ` set (pl_links pl)" if s: "s \<in> set steps1" "gone s"
    using old [OF s] s(2) kept [of s] no_links_iff [OF w old [OF s], of r] by (auto simp: gone_def rid_def)
  show "dp_step_id e \<noteq> sp_id s \<and> dp_depends_on_step_id e \<noteq> sp_id s"
    if e: "e \<in> set (pl_deps pl)" "dp_roadmap_id e \<noteq> rid" and s: "s \<in> set steps1" "gone s"
  proof -
    have "step_in pl (dp_roadmap_id e) (dp_step_id e)" "step_in pl (dp_roadmap_id e) (dp_depends_on_step_id e)"
      using w e(1) by (auto simp: tables_wf_def deps_inside_def)
    then obtain a b where "a \<in> set (pl_steps pl)" "sp_id a = dp_step_id e" "sp_roadmap_id a = dp_roadmap_id e"
      "b \<in> set (pl_steps pl)" "sp_id b = dp_depends_on_step_id e" "sp_roadmap_id b = dp_roadmap_id e"
      unfolding step_in_def by blast
    then show ?thesis
      using id_unique [OF wf _ old [OF s]] e(2) s(2) unfolding gone_def by metis
  qed
qed


lemma applied_placed:
  assumes A: "applied pl ids r doc prov pl'"
  defines "mp \<equiv> merged_phases (load_tree pl r) ids prov doc"
    and "ms \<equiv> merged_steps (load_tree pl r) ids prov doc"
  assumes s: "s \<in> set ms \<union> {s \<in> set (pl_steps pl). sp_roadmap_id s \<noteq> rm_id r}"
    and p: "p \<in> set (fold (tbl_put ph_id) mp (pl_phases pl))"
    and gone: "ph_roadmap_id p = rm_id r" "ph_key p \<notin> set (map pc_key (rd_phases doc))"
  shows "sp_phase_id s \<noteq> ph_id p"
proof
  assume eq: "sp_phase_id s = ph_id p"
  have w: "tables_wf pl" using A by (simp add: applied_def)
  have wf: "tbl_wf ph_id (pl_phases pl)" using w by (simp add: tables_wf_def)
  have wf1: "tbl_wf ph_id (fold (tbl_put ph_id) mp (pl_phases pl))" by (rule fold_tbl_put_wf [OF wf])
  have set1: "set (fold (tbl_put ph_id) mp (pl_phases pl)) = set mp \<union> {x \<in> set (pl_phases pl). ph_id x \<notin> ph_id ` set mp}"
    using fold_tbl_put_set [OF merged_distinct(1) [OF A] wf] by (simp add: mp_def)
  from s show False
  proof
    assume "s \<in> set ms"
    then obtain q where q: "q \<in> set mp" "sp_phase_id s = ph_id q"
      using merged_step_phase unfolding ms_def mp_def by blast
    then have "q = p" using id_unique [OF wf1 _ p] eq set1 by auto
    with q(1) gone(2) merged_key_in_doc(1) [OF w] show False unfolding mp_def by blast
  next
    assume "s \<in> {s \<in> set (pl_steps pl). sp_roadmap_id s \<noteq> rm_id r}"
    then obtain q where q: "q \<in> set (pl_phases pl)" "ph_id q = sp_phase_id s" "ph_roadmap_id q \<noteq> rm_id r"
      using w by (auto simp: tables_wf_def steps_placed_def)
    moreover have "p \<in> set (pl_phases pl)"
      using p set1 gone merged_key_in_doc(1) [OF w] unfolding mp_def by blast
    ultimately have "q = p" using id_unique [OF wf] eq by metis
    with q gone show False by simp
  qed
qed

theorem applied_tables:
  assumes A: "applied pl ids r doc prov pl'"
  defines "mp \<equiv> merged_phases (load_tree pl r) ids prov doc"
    and "ms \<equiv> merged_steps (load_tree pl r) ids prov doc"
  shows "set (pl_phases pl') = set mp \<union> {p \<in> set (pl_phases pl). ph_roadmap_id p \<noteq> rm_id r}"
    and "set (pl_steps pl') = set ms \<union> {s \<in> set (pl_steps pl). sp_roadmap_id s \<noteq> rm_id r}"
    and "tbl_wf ph_id (pl_phases pl')" and "tbl_wf sp_id (pl_steps pl')"
    and "pl_deps pl' = filter (\<lambda>e. dp_roadmap_id e \<noteq> rm_id r) (pl_deps pl) @
      document_dependencies (kept_step_id pl ids r) (rm_id r) doc"
    and "pl_links pl' = pl_links pl" and "pl_roadmaps pl' = pl_roadmaps pl"
    and "pl_revisions pl' = pl_revisions pl" and "pl_db pl' = pl_db pl"
proof -
  let ?goneS = "\<lambda>s. sp_roadmap_id s = rm_id r \<and> sp_key s \<notin> set (map sc_key (document_steps doc))"
  let ?goneP = "\<lambda>p. ph_roadmap_id p = rm_id r \<and> ph_key p \<notin> set (map pc_key (rd_phases doc))"
  define phases1 where "phases1 = fold (tbl_put ph_id) mp (pl_phases pl)"
  define steps1 where "steps1 = fold (tbl_put sp_id) ms (pl_steps pl)"
  let ?pl2 = "pl\<lparr>pl_phases := phases1, pl_steps := steps1\<rparr>"
  have w: "tables_wf pl" using A by (simp add: applied_def)
  have wf: "tbl_wf ph_id phases1" "tbl_wf sp_id steps1"
    using w by (simp_all add: tables_wf_def phases1_def steps1_def fold_tbl_put_wf)
  note rows = applied_rows [OF A, folded mp_def ms_def, folded phases1_def steps1_def]
  note s3 = applied_step3 [OF A, folded ms_def, folded steps1_def]
  let ?ids = "map sp_id (filter ?goneS steps1)"
  have links: "filter (\<lambda>l. lk_step_id l \<notin> set ?ids) (pl_links pl) = pl_links pl"
  proof (rule filter_True, rule ballI, rule notI)
    fix l assume l: "l \<in> set (pl_links pl)" "lk_step_id l \<in> set ?ids"
    then obtain s where s: "s \<in> set steps1" "?goneS s" "sp_id s = lk_step_id l" by auto
    then have "sp_id s \<in> lk_step_id ` set (pl_links pl)" using l(1) by simp
    with s3(2) [OF s(1,2)] show False by contradiction
  qed
  let ?pl3 = "delete_steps ?goneS ?pl2"
  have "set (pl_steps ?pl3) = set ms \<union> {s \<in> set (pl_steps pl). sp_roadmap_id s \<noteq> rm_id r}"
    using rows(2) by simp
  then have d4: "delete_phases ?goneP ?pl3 = ?pl3\<lparr>pl_phases := filter (\<lambda>p. \<not> ?goneP p) (pl_phases ?pl3)\<rparr>"
    by (intro delete_phases_unplaced)
      (use applied_placed [OF A, folded mp_def ms_def, folded phases1_def] in auto)
  have deps: "filter (\<lambda>e. dp_roadmap_id e \<noteq> rm_id r)
      (filter (\<lambda>e. dp_step_id e \<notin> set ?ids \<and> dp_depends_on_step_id e \<notin> set ?ids) (pl_deps pl))
    = filter (\<lambda>e. dp_roadmap_id e \<noteq> rm_id r) (pl_deps pl)"
    unfolding filter_filter by (rule filter_cong [OF refl]) (use s3(3) in auto)
  have "pl' = add_dependencies (document_dependencies (kept_step_id pl ids r) (rm_id r) doc)
      ((?pl3\<lparr>pl_phases := filter (\<lambda>p. \<not> ?goneP p) (pl_phases ?pl3)\<rparr>)
        \<lparr>pl_deps := filter (\<lambda>e. dp_roadmap_id e \<noteq> rm_id r) (pl_deps ?pl3)\<rparr>)"
    using A reconcile_cases(2) [of pl ids "load_tree pl r" doc prov pl'] d4
    by (simp add: applied_def mp_def ms_def phases1_def steps1_def)
  then show "set (pl_phases pl') = set mp \<union> {p \<in> set (pl_phases pl). ph_roadmap_id p \<noteq> rm_id r}"
    "set (pl_steps pl') = set ms \<union> {s \<in> set (pl_steps pl). sp_roadmap_id s \<noteq> rm_id r}"
    "tbl_wf ph_id (pl_phases pl')" "tbl_wf sp_id (pl_steps pl')"
    "pl_links pl' = pl_links pl" "pl_roadmaps pl' = pl_roadmaps pl"
    "pl_revisions pl' = pl_revisions pl" "pl_db pl' = pl_db pl"
    "pl_deps pl' = filter (\<lambda>e. dp_roadmap_id e \<noteq> rm_id r) (pl_deps pl) @
      document_dependencies (kept_step_id pl ids r) (rm_id r) doc"
    using rows wf links deps
    by (simp_all only: add_dependencies_def delete_steps_def Let_def plan_db.simps) (auto)
qed

end
