(* ===== verification/Roadmap_Export.thy ===== *)
theory Roadmap_Export
  imports Roadmap_Documents
begin

section \<open>The document a plan exports\<close>

text \<open>
  Reading the tree back after a document was applied: phases and steps come back in the
  document's order, dependencies as a set sorted by plan order, empty texts as absent. That
  normal form is a fixed point, so exporting and importing again changes nothing.
\<close>

subsection \<open>Normal form\<close>

definition plan_keys :: "roadmap_document \<Rightarrow> string list" where
  "plan_keys d = map sc_key (document_steps d)"

definition normal_step :: "string list \<Rightarrow> step_content \<Rightarrow> step_content" where
  "normal_step keys s =
     s\<lparr>sc_objective := text_or_none (sc_objective s), sc_context := text_or_none (sc_context s),
       sc_instructions := text_or_none (sc_instructions s), sc_notes := text_or_none (sc_notes s),
       sc_depends_on := sort_key (\<lambda>k. index_of k keys) (sc_depends_on s)\<rparr>"

definition normal_phase :: "string list \<Rightarrow> phase_content \<Rightarrow> phase_content" where
  "normal_phase keys p =
     p\<lparr>pc_objective := text_or_none (pc_objective p), pc_steps := map (normal_step keys) (pc_steps p)\<rparr>"

definition normal_document :: "roadmap_document \<Rightarrow> roadmap_document" where
  "normal_document d =
     d\<lparr>rd_objective := text_or_none (rd_objective d), rd_context := text_or_none (rd_context d),
       rd_phases := map (normal_phase (plan_keys d)) (rd_phases d),
       rd_exported_at := None, rd_revision_no := None\<rparr>"

lemma text_or_none_twice [simp]: "text_or_none (text_or_none v) = text_or_none v"
  by (simp add: text_or_none_def)

lemma normal_step_key [simp]: "sc_key (normal_step keys s) = sc_key s"
  by (simp add: normal_step_def)

lemma document_steps_normal: "document_steps (normal_document d) = map (normal_step (plan_keys d)) (document_steps d)"
  by (simp add: document_steps_def normal_document_def normal_phase_def map_concat comp_def)

lemma plan_keys_normal [simp]: "plan_keys (normal_document d) = plan_keys d"
  by (simp add: plan_keys_def document_steps_normal comp_def)

lemma sort_key_idem: "sort_key f (sort_key f xs) = sort_key f xs"
  by (simp add: sort_key_id_if_sorted sorted_sort_key)

lemma normal_document_twice: "normal_document (normal_document d) = normal_document d"
proof -
  have "normal_phase keys (normal_phase keys p) = normal_phase keys p" for keys p
    by (simp add: normal_phase_def normal_step_def sort_key_idem comp_def)
  then show ?thesis using plan_keys_normal [of d] by (simp add: normal_document_def comp_def)
qed

subsection \<open>Rows read back in document order\<close>

lemma sorted_wrt_concat_map:
  assumes "\<And>x. x \<in> set xs \<Longrightarrow> sorted_wrt R (F x)"
    and "sorted_wrt (\<lambda>x y. \<forall>a \<in> set (F x). \<forall>b \<in> set (F y). R a b) xs"
  shows "sorted_wrt R (concat (map F xs))"
  using assms by (induction xs) (auto simp: sorted_wrt_append)

lemma sorted_wrt_index:
  assumes "distinct (map h xs)"
  shows "sorted_wrt (\<lambda>x y. index_of (h x) (map h xs) < index_of (h y) (map h xs)) xs"
  using index_of_nth [OF assms] by (simp add: sorted_wrt_iff_nth_less)

lemma mset_filter_part:
  assumes "set xs = set ys \<union> {x \<in> set zs. \<not> P x}" and "\<And>y. y \<in> set ys \<Longrightarrow> P y"
    and "distinct xs" and "distinct ys"
  shows "mset (filter P xs) = mset ys"
  by (rule set_eq_iff_mset_eq_distinct [THEN iffD1]) (use assms in auto)

lemma tbl_wf_distinct: "tbl_wf key xs \<Longrightarrow> distinct xs"
  by (simp add: tbl_wf_def distinct_map)

lemma phases_read_back:
  assumes A: "applied pl ids r doc prov pl'" and rid: "rm_id r' = rm_id r"
  shows "roadmap_phases pl' r' = merged_phases (load_tree pl r) ids prov doc"
  unfolding roadmap_phases_def
proof (rule sort_key_unique)
  let ?mp = "merged_phases (load_tree pl r) ids prov doc"
  have w: "tables_wf pl" using A by (simp add: applied_def)
  show "mset (filter (\<lambda>p. ph_roadmap_id p = rm_id r') (pl_phases pl')) = mset ?mp"
    unfolding rid
    by (rule mset_filter_part [OF applied_tables(1) [OF A]])
      (use merged_roadmap(1) [OF w] tbl_wf_distinct [OF applied_tables(3) [OF A]] merged_distinct(1) [OF A]
        in \<open>auto simp: distinct_map\<close>)
  have "sorted_wrt (\<lambda>a b. ph_position a < ph_position b) ?mp"
    unfolding merged_phases_def by (rule sorted_enumerate) simp
  then show "sorted_wrt (\<lambda>a b. (ph_position a, ph_key a) < (ph_position b, ph_key b)) ?mp"
    by (rule sorted_wrt_mono_rel [rotated]) simp
qed

lemma steps_read_back:
  assumes A: "applied pl ids r doc prov pl'" and rid: "rm_id r' = rm_id r"
  shows "roadmap_steps pl' r' = merged_steps (load_tree pl r) ids prov doc"
  unfolding roadmap_steps_def
proof (rule sort_key_twice)
  let ?ms = "merged_steps (load_tree pl r) ids prov doc"
  let ?h = "\<lambda>ph. kept_phase_id pl ids r (pc_key ph)"
  let ?f = "\<lambda>s. index_of (sp_phase_id s) (map ph_id (roadmap_phases pl' r'))"
  let ?R = "\<lambda>a b. ?f a < ?f b \<or> ?f a = ?f b \<and> (sp_position a, sp_key a) < (sp_position b, sp_key b)"
  have w: "tables_wf pl" using A by (simp add: applied_def)
  show "mset (filter (\<lambda>s. sp_roadmap_id s = rm_id r') (pl_steps pl')) = mset ?ms"
    unfolding rid
    by (rule mset_filter_part [OF applied_tables(2) [OF A]])
      (use merged_roadmap(2) [OF w] tbl_wf_distinct [OF applied_tables(4) [OF A]] merged_distinct(2) [OF A]
        in \<open>auto simp: distinct_map\<close>)
  have idx: "map ph_id (roadmap_phases pl' r') = map ?h (rd_phases doc)"
    by (simp add: phases_read_back [OF A rid] merged_ids)
  have d: "distinct (map ?h (rd_phases doc))"
    using merged_distinct(1) [OF A] by (simp add: merged_ids)
  show "sorted_wrt ?R ?ms"
    unfolding merged_steps_concat
  proof (rule sorted_wrt_concat_map)
    fix ph
    have "sorted_wrt (\<lambda>a b. sp_position a < sp_position b)
        (merged_steps_of (load_tree pl r) ids prov (?h ph) (pc_steps ph))"
      unfolding merged_steps_of_def by (rule sorted_enumerate) simp
    moreover have "sp_phase_id s = ?h ph"
      if "s \<in> set (merged_steps_of (load_tree pl r) ids prov (?h ph) (pc_steps ph))" for s
      using that by (auto simp: merged_steps_of_def)
    ultimately show "sorted_wrt ?R (merged_steps_of (load_tree pl r) ids prov (?h ph) (pc_steps ph))"
      by (auto elim!: sorted_wrt_mono_rel [rotated])
  next
    show "sorted_wrt (\<lambda>x y. \<forall>a \<in> set (merged_steps_of (load_tree pl r) ids prov (?h x) (pc_steps x)).
        \<forall>b \<in> set (merged_steps_of (load_tree pl r) ids prov (?h y) (pc_steps y)). ?R a b) (rd_phases doc)"
      by (rule sorted_wrt_mono_rel [OF _ sorted_wrt_index [OF d]])
        (auto simp: merged_steps_of_def idx)
  qed
qed


lemma map_enumerate_cong:
  assumes "\<And>i x. x \<in> set xs \<Longrightarrow> f (i, x) = g x"
  shows "map f (enumerate n xs) = map g xs"
  using assms by (induction xs arbitrary: n) auto

subsection \<open>Dependencies read back\<close>

lemma document_dependencies_of:
  assumes "inj id_of" and "distinct (map sc_key ss)" and "s \<in> set ss"
  shows "filter (\<lambda>e. dp_step_id e = id_of (sc_key s))
      (concat (map (\<lambda>s. map (\<lambda>k. \<lparr>dp_step_id = id_of (sc_key s), dp_depends_on_step_id = id_of k,
        dp_roadmap_id = rid\<rparr>) (sc_depends_on s)) ss))
    = map (\<lambda>k. \<lparr>dp_step_id = id_of (sc_key s), dp_depends_on_step_id = id_of k, dp_roadmap_id = rid\<rparr>)
        (sc_depends_on s)"
  using assms(2,3)
proof (induction ss)
  case (Cons x xs)
  let ?row = "\<lambda>s k. \<lparr>dp_step_id = id_of (sc_key s), dp_depends_on_step_id = id_of k, dp_roadmap_id = rid\<rparr>"
  have none: "filter (\<lambda>e. dp_step_id e = id_of (sc_key s)) (map (?row y) ks) = []"
    if "sc_key y \<noteq> sc_key s" for y ks
    using that assms(1) by (auto simp: filter_empty_conv inj_eq)
  show ?case
  proof (cases "x = s")
    case True
    have "filter (\<lambda>e. dp_step_id e = id_of (sc_key s)) (concat (map (\<lambda>s. map (?row s) (sc_depends_on s)) xs)) = []"
    proof -
      have "sc_key y \<noteq> sc_key s" if "y \<in> set xs" for y
        using imageI [OF that, of sc_key] Cons.prems(1) True by auto
      then show ?thesis using assms(1) by (auto simp: filter_empty_conv inj_eq)
    qed
    moreover have "filter (\<lambda>e. dp_step_id e = id_of (sc_key s)) (map (?row s) ks) = map (?row s) ks" for ks
      by (simp add: filter_id_conv)
    ultimately show ?thesis using True by simp
  next
    case False
    then have "sc_key x \<noteq> sc_key s" using Cons.prems by auto
    with none [of x "sc_depends_on x"] Cons False show ?thesis by simp
  qed
qed simp

lemma deps_read_back:
  assumes A: "applied pl ids r doc prov pl'" and rid: "rm_id r' = rm_id r" and s: "s \<in> set (document_steps doc)"
  shows "tr_deps (load_tree pl' r') (kept_step_id pl ids r (sc_key s)) = map (kept_step_id pl ids r) (sc_depends_on s)"
proof -
  have w: "tables_wf pl" "fresh_ids ids pl" "distinct (map sc_key (document_steps doc))"
    using A by (simp_all add: applied_def sound_plan_def)
  have "filter (\<lambda>e. dp_roadmap_id e = rm_id r) (pl_deps pl')
      = document_dependencies (kept_step_id pl ids r) (rm_id r) doc"
    unfolding applied_tables(5) [OF A]
    by (auto simp: document_dependencies_def filter_empty_conv filter_id_conv)
  then show ?thesis
    using document_dependencies_of [OF step_id_inj [OF w(1,2)] w(3) s, of r "rm_id r"]
    by (simp add: load_tree_def Let_def rid document_dependencies_def comp_def)
qed

lemma step_ids_read_back:
  assumes A: "applied pl ids r doc prov pl'" and rid: "rm_id r' = rm_id r"
  shows "map sp_id (roadmap_steps pl' r') = map (kept_step_id pl ids r) (plan_keys doc)"
  by (simp add: steps_read_back [OF A rid] merged_ids plan_keys_def)

lemma key_read_back:
  assumes A: "applied pl ids r doc prov pl'" and rid: "rm_id r' = rm_id r" and k: "k \<in> set (plan_keys doc)"
  shows "key_of (load_tree pl' r') (kept_step_id pl ids r k) = k"
proof -
  let ?ms = "merged_steps (load_tree pl r) ids prov doc"
  have w: "tables_wf pl" "fresh_ids ids pl" using A by (simp_all add: applied_def)
  have "k \<in> sp_key ` set ?ms"
    using k arg_cong [OF merged_keys(2) [OF w(1), of r ids prov doc], of set] by (simp add: plan_keys_def)
  then obtain s where s: "s \<in> set ?ms" "sp_key s = k" by blast
  have "tbl_wf sp_id ?ms" using merged_distinct(2) [OF A] by (simp add: tbl_wf_def)
  then have "find (\<lambda>x. sp_id x = kept_step_id pl ids r k) ?ms = Some s"
    using s merged_row_ids(2) [OF w(1) s(1)] by (simp add: find_Some_key)
  with s show ?thesis by (simp add: key_of_def steps_read_back [OF A rid])
qed

lemma depends_on_read_back:
  assumes A: "applied pl ids r doc prov pl'" and rid: "rm_id r' = rm_id r"
    and s: "s \<in> set (document_steps doc)" and row: "sp_id row = kept_step_id pl ids r (sc_key s)"
  shows "depends_on_keys (load_tree pl' r') row = sort_key (\<lambda>k. index_of k (plan_keys doc)) (sc_depends_on s)"
proof -
  let ?id = "kept_step_id pl ids r"
  have w: "tables_wf pl" "fresh_ids ids pl" using A by (simp_all add: applied_def)
  have inj: "inj ?id" by (rule step_id_inj [OF w])
  have known: "k \<in> set (plan_keys doc)" if "k \<in> set (sc_depends_on s)" for k
    using A s that by (auto simp: applied_def sound_plan_def plan_keys_def)
  have "sort_key (\<lambda>i. index_of i (map ?id (plan_keys doc))) (map ?id (sc_depends_on s))
      = map ?id (sort_key (\<lambda>k. index_of k (plan_keys doc)) (sc_depends_on s))"
  proof -
    have "index_of (?id k) (map ?id (plan_keys doc)) = index_of k (plan_keys doc)" for k
      by (rule index_of_map) (rule inj_on_subset [OF inj subset_UNIV])
    then show ?thesis by (simp add: sort_key_map)
  qed
  then show ?thesis
    using key_read_back [OF A rid] known
    by (simp add: depends_on_keys_def row deps_read_back [OF A rid s] step_ids_read_back [OF A rid])
      (rule map_idI, simp)
qed

subsection \<open>The exported document\<close>

lemma steps_of_read_back:
  assumes A: "applied pl ids r doc prov pl'" and rid: "rm_id r' = rm_id r" and ph: "ph \<in> set (rd_phases doc)"
  shows "steps_of (load_tree pl' r') (kept_phase_id pl ids r (pc_key ph))
    = merged_steps_of (load_tree pl r) ids prov (kept_phase_id pl ids r (pc_key ph)) (pc_steps ph)"
proof -
  have w: "tables_wf pl" "fresh_ids ids pl" "distinct (map pc_key (rd_phases doc))"
    using A by (simp_all add: applied_def sound_plan_def)
  let ?h = "\<lambda>ph. kept_phase_id pl ids r (pc_key ph)"
  let ?F = "\<lambda>ph. merged_steps_of (load_tree pl r) ids prov (?h ph) (pc_steps ph)"
  have own: "filter (\<lambda>s. sp_phase_id s = ?h ph) (?F ph) = ?F ph" for ph
    by (auto simp: merged_steps_of_def filter_id_conv)
  have "filter (\<lambda>s. sp_phase_id s = ?h ph) (concat (map ?F phs)) = ?F ph"
    if "distinct (map ?h phs)" "ph \<in> set phs" for phs
    using that
  proof (induction phs)
    case (Cons x xs)
    have none: "filter (\<lambda>s. sp_phase_id s = ?h ph) (?F y) = []" if "?h y \<noteq> ?h ph" for y
      using that by (auto simp: merged_steps_of_def filter_empty_conv)
    show ?case
    proof (cases "x = ph")
      case True
      have "filter (\<lambda>s. sp_phase_id s = ?h ph) (concat (map ?F xs)) = []"
      proof -
        have "?h y \<noteq> ?h ph" if "y \<in> set xs" for y
          using imageI [OF that, of ?h] Cons.prems(1) True by auto
        then show ?thesis by (auto simp: filter_empty_conv merged_steps_of_def)
      qed
      with True own show ?thesis by simp
    next
      case False
      then have "?h x \<noteq> ?h ph" "ph \<in> set xs" using Cons.prems by auto
      with none [of x] Cons show ?thesis by simp
    qed
  qed simp
  moreover have "distinct (map ?h (rd_phases doc))"
    using merged_distinct(1) [OF A] by (simp add: merged_ids)
  ultimately show ?thesis
    using ph by (simp add: steps_of_def steps_read_back [OF A rid] merged_steps_concat)
qed

theorem phases_exported:
  assumes A: "applied pl ids r doc prov pl'" and rid: "rm_id r' = rm_id r"
  shows "rd_phases (build_document (load_tree pl' r')) = rd_phases (normal_document doc)"
proof -
  let ?t = "load_tree pl r" and ?t' = "load_tree pl' r'"
  have w: "tables_wf pl" using A by (simp add: applied_def)
  have step: "step_content_of ?t' (merge_step ?t (pi_step ids) prov pid i s) = normal_step (plan_keys doc) s"
    if "s \<in> set (document_steps doc)" for pid i s
    using depends_on_read_back [OF A rid that, of "merge_step ?t (pi_step ids) prov pid i s"]
    by (simp add: step_content_of_def normal_step_def merge_keys [OF w])
  have phase: "phase_content_of ?t' (merge_phase ?t (pi_phase ids) prov i ph) = normal_phase (plan_keys doc) ph"
    if "ph \<in> set (rd_phases doc)" for i ph
  proof -
    have "map (step_content_of ?t') (merged_steps_of ?t ids prov pid (pc_steps ph))
        = map (normal_step (plan_keys doc)) (pc_steps ph)" for pid
      using that step unfolding merged_steps_of_def map_map
      by (intro map_enumerate_cong) (auto simp: document_steps_def)
    then show ?thesis
      by (simp add: phase_content_of_def normal_phase_def merge_keys [OF w] steps_of_read_back [OF A rid that])
  qed
  have "map (phase_content_of ?t') (merged_phases ?t ids prov doc) = map (normal_phase (plan_keys doc)) (rd_phases doc)"
    using phase unfolding merged_phases_def map_map by (intro map_enumerate_cong) simp
  then show ?thesis
    by (simp add: build_document_def normal_document_def phases_read_back [OF A rid])
qed


subsection \<open>Well-formed tables stay well formed\<close>

lemma tbl_wf_via:
  assumes "tbl_wf key xs" and "\<And>x y. x \<in> set xs \<Longrightarrow> y \<in> set xs \<Longrightarrow> k x = k y \<Longrightarrow> x = y"
  shows "tbl_wf k xs"
  using assms by (auto simp: tbl_wf_def distinct_map inj_on_def)

lemma applied_slots:
  assumes A: "applied pl ids r doc prov pl'"
  shows "tbl_wf phase_slot (pl_phases pl')" and "tbl_wf step_slot (pl_steps pl')"
proof -
  have w: "tables_wf pl" using A by (simp add: applied_def)
  have old: "tbl_wf phase_slot (pl_phases pl)" "tbl_wf step_slot (pl_steps pl)"
    using w by (simp_all add: tables_wf_def)
  have new: "tbl_wf ph_key (merged_phases (load_tree pl r) ids prov doc)"
    "tbl_wf sp_key (merged_steps (load_tree pl r) ids prov doc)"
    using merged_distinct(3,4) [OF A] by (simp_all add: tbl_wf_def)
  show "tbl_wf phase_slot (pl_phases pl')"
    using applied_tables(1) [OF A] id_unique [OF old(1)] id_unique [OF new(1)] merged_roadmap(1) [OF w]
    by (intro tbl_wf_via [OF applied_tables(3) [OF A]]) (auto simp: phase_slot_def)
  show "tbl_wf step_slot (pl_steps pl')"
    using applied_tables(2) [OF A] id_unique [OF old(2)] id_unique [OF new(2)] merged_roadmap(2) [OF w]
    by (intro tbl_wf_via [OF applied_tables(4) [OF A]]) (auto simp: step_slot_def)
qed

lemma applied_steps_placed:
  assumes A: "applied pl ids r doc prov pl'"
  shows "steps_placed pl'"
  unfolding steps_placed_def
proof
  fix s assume "s \<in> set (pl_steps pl')"
  have w: "tables_wf pl" using A by (simp add: applied_def)
  consider "s \<in> set (merged_steps (load_tree pl r) ids prov doc)"
    | "s \<in> set (pl_steps pl)" "sp_roadmap_id s \<noteq> rm_id r"
    using \<open>s \<in> set (pl_steps pl')\<close> applied_tables(2) [OF A] by blast
  then show "\<exists>p \<in> set (pl_phases pl'). ph_id p = sp_phase_id s \<and> ph_roadmap_id p = sp_roadmap_id s"
  proof cases
    case 1
    from merged_step_phase [OF 1] obtain p where
      p: "p \<in> set (merged_phases (load_tree pl r) ids prov doc)" "sp_phase_id s = ph_id p" by blast
    then have "p \<in> set (pl_phases pl')" using applied_tables(1) [OF A] by blast
    with p show ?thesis using merged_roadmap(1) [OF w p(1)] merged_roadmap(2) [OF w 1] by auto
  next
    case 2
    then obtain p where p: "p \<in> set (pl_phases pl)" "ph_id p = sp_phase_id s" "ph_roadmap_id p = sp_roadmap_id s"
      using w unfolding tables_wf_def steps_placed_def by blast
    with 2(2) have "p \<in> set (pl_phases pl')" using applied_tables(1) [OF A] by simp
    with p show ?thesis by blast
  qed
qed

lemma step_in_applied:
  assumes A: "applied pl ids r doc prov pl'"
  shows "rid \<noteq> rm_id r \<Longrightarrow> step_in pl rid i \<Longrightarrow> step_in pl' rid i"
    and "k \<in> set (plan_keys doc) \<Longrightarrow> step_in pl' (rm_id r) (kept_step_id pl ids r k)"
proof -
  have w: "tables_wf pl" using A by (simp add: applied_def)
  show "rid \<noteq> rm_id r \<Longrightarrow> step_in pl rid i \<Longrightarrow> step_in pl' rid i"
    using applied_tables(2) [OF A] unfolding step_in_def by blast
  assume "k \<in> set (plan_keys doc)"
  then have "kept_step_id pl ids r k \<in> set (map sp_id (merged_steps (load_tree pl r) ids prov doc))"
    by (auto simp: merged_ids plan_keys_def)
  then obtain s where s: "s \<in> set (merged_steps (load_tree pl r) ids prov doc)"
      "sp_id s = kept_step_id pl ids r k" by auto
  then have "s \<in> set (pl_steps pl')" using applied_tables(2) [OF A] by simp
  with s merged_roadmap(2) [OF w s(1)] show "step_in pl' (rm_id r) (kept_step_id pl ids r k)"
    unfolding step_in_def by blast
qed

lemma document_dependencies_keys:
  assumes "sound_plan doc" and "e \<in> set (document_dependencies id_of rid doc)"
  shows "dp_roadmap_id e = rid \<and> (\<exists>j k. dp_step_id e = id_of j \<and> dp_depends_on_step_id e = id_of k \<and>
    (j, k) \<in> depends_relation doc \<and> j \<in> set (plan_keys doc) \<and> k \<in> set (plan_keys doc))"
proof -
  from assms(2) obtain s k where s: "s \<in> set (document_steps doc)" "k \<in> set (sc_depends_on s)"
      and e: "e = \<lparr>dp_step_id = id_of (sc_key s), dp_depends_on_step_id = id_of k, dp_roadmap_id = rid\<rparr>"
    by (auto simp: document_dependencies_def)
  have "k \<in> set (plan_keys doc)"
    using assms(1) s unfolding sound_plan_def plan_keys_def by auto
  moreover have "(sc_key s, k) \<in> depends_relation doc" "sc_key s \<in> set (plan_keys doc)"
    using s unfolding depends_relation_def plan_keys_def by auto
  ultimately show ?thesis unfolding e by auto
qed

lemma edges_of_document:
  "edges_of (document_dependencies id_of rid doc) = map_prod id_of id_of ` depends_relation doc"
  by (force simp: edges_of_def document_dependencies_def depends_relation_def)

lemma applied_deps_inside:
  assumes A: "applied pl ids r doc prov pl'"
  shows "deps_inside pl'"
  unfolding deps_inside_def
proof
  fix e assume "e \<in> set (pl_deps pl')"
  have w: "tables_wf pl" "sound_plan doc" using A by (simp_all add: applied_def)
  consider "e \<in> set (pl_deps pl)" "dp_roadmap_id e \<noteq> rm_id r"
    | "e \<in> set (document_dependencies (kept_step_id pl ids r) (rm_id r) doc)"
    using \<open>e \<in> set (pl_deps pl')\<close> applied_tables(5) [OF A] by auto
  then show "step_in pl' (dp_roadmap_id e) (dp_step_id e) \<and> step_in pl' (dp_roadmap_id e) (dp_depends_on_step_id e)"
  proof cases
    case 1
    then show ?thesis
      using w step_in_applied(1) [OF A] by (auto simp: tables_wf_def deps_inside_def)
  next
    case 2
    then show ?thesis
      using document_dependencies_keys [OF w(2)] step_in_applied(2) [OF A] by metis
  qed
qed

lemma applied_acyclic:
  assumes A: "applied pl ids r doc prov pl'"
  shows "acyclic (edges_of (pl_deps pl'))"
proof -
  let ?id = "kept_step_id pl ids r"
  have w: "tables_wf pl" "fresh_ids ids pl" "sound_plan doc" using A by (simp_all add: applied_def)
  let ?old = "edges_of (filter (\<lambda>e. dp_roadmap_id e \<noteq> rm_id r) (pl_deps pl))"
  let ?new = "edges_of (document_dependencies ?id (rm_id r) doc)"
  have "?old \<subseteq> edges_of (pl_deps pl)" by (auto simp: edges_of_def)
  then have old: "acyclic ?old" using w(1) by (auto simp: tables_wf_def intro: acyclic_subset)
  have new: "acyclic ?new"
    unfolding edges_of_document
    by (rule acyclic_map_inj)
      (use w(3) in \<open>simp add: sound_plan_def\<close>, rule inj_on_subset [OF step_id_inj [OF w(1,2)] subset_UNIV])
  have foreign: "i \<noteq> ?id k" if "i \<in> Field ?old" for i k
  proof -
    from that obtain e where e: "e \<in> set (pl_deps pl)" "dp_roadmap_id e \<noteq> rm_id r"
        "i = dp_step_id e \<or> i = dp_depends_on_step_id e"
      by (auto simp: Field_def edges_of_def)
    then have "step_in pl (dp_roadmap_id e) i" using w(1) by (auto simp: tables_wf_def deps_inside_def)
    then show ?thesis
      using kept_step_id_foreign [OF w(1,2)] e(2) unfolding step_in_def by metis
  qed
  have "Field ?new \<subseteq> range ?id" by (auto simp: Field_def edges_of_document)
  with foreign have "Field ?old \<inter> Field ?new = {}" by blast
  then have "acyclic (?old \<union> ?new)" by (rule acyclic_union_disjoint [OF old new])
  moreover have "edges_of (pl_deps pl') = ?old \<union> ?new"
    by (simp add: applied_tables(5) [OF A] edges_of_def image_Un)
  ultimately show ?thesis by simp
qed

theorem applied_tables_wf: "applied pl ids r doc prov pl' \<Longrightarrow> tables_wf pl'"
  unfolding tables_wf_def
  by (intro conjI applied_tables(3,4) applied_slots applied_steps_placed applied_deps_inside applied_acyclic)


subsection \<open>What is exported is a sound document\<close>

lemma step_found:
  "tables_wf pl \<Longrightarrow> s \<in> set (roadmap_steps pl r) \<Longrightarrow> find (\<lambda>x. sp_id x = sp_id s) (roadmap_steps pl r) = Some s"
  using roadmap_rows_wf(2) by (simp add: find_Some_key)

definition own_edges :: "plan_db \<Rightarrow> uuid \<Rightarrow> (uuid \<times> uuid) set" where
  "own_edges pl rid = edges_of (filter (\<lambda>e. dp_roadmap_id e = rid) (pl_deps pl))"

lemma tree_key:
  assumes "tables_wf pl" and "s \<in> set (pl_steps pl)" "sp_roadmap_id s = rm_id r"
  shows "key_of (load_tree pl r) (sp_id s) = sp_key s"
proof -
  have "find (\<lambda>x. sp_id x = sp_id s) (roadmap_steps pl r) = Some s"
    by (rule step_found [OF assms(1)]) (simp add: assms)
  then show ?thesis by (simp add: key_of_def)
qed

lemma own_edges_ends:
  assumes "tables_wf pl" and "(a, b) \<in> own_edges pl (rm_id r)"
  shows "(\<exists>s \<in> set (roadmap_steps pl r). sp_id s = a) \<and> (\<exists>s \<in> set (roadmap_steps pl r). sp_id s = b)"
proof -
  from assms(2) obtain e where "e \<in> set (pl_deps pl)" "dp_roadmap_id e = rm_id r" "dp_step_id e = a"
      "dp_depends_on_step_id e = b"
    by (auto simp: own_edges_def edges_of_def)
  then have "step_in pl (rm_id r) a" "step_in pl (rm_id r) b"
    using assms(1) by (auto simp: tables_wf_def deps_inside_def)
  then show ?thesis by (auto simp: step_in_def)
qed

lemma distinct_grouped:
  assumes "distinct (map g ps)" and "distinct ss"
  shows "distinct (concat (map (\<lambda>p. filter (\<lambda>s. f s = g p) ss) ps))"
  using assms(1)
proof (induction ps)
  case (Cons p ps)
  have "g q \<noteq> g p" if "q \<in> set ps" for q using Cons.prems imageI [OF that, of g] by auto
  with Cons assms(2) show ?case by auto
qed simp

lemma exported_steps:
  "document_steps (build_document (load_tree pl r)) = map (step_content_of (load_tree pl r))
     (concat (map (\<lambda>p. filter (\<lambda>s. sp_phase_id s = ph_id p) (roadmap_steps pl r)) (roadmap_phases pl r)))"
  by (simp add: document_steps_def build_document_def phase_content_of_def steps_of_def map_concat comp_def)

lemma exported_step_set:
  assumes "tables_wf pl"
  shows "set (document_steps (build_document (load_tree pl r))) = step_content_of (load_tree pl r) ` set (roadmap_steps pl r)"
proof -
  have "\<exists>p \<in> set (roadmap_phases pl r). sp_phase_id s = ph_id p" if s: "s \<in> set (roadmap_steps pl r)" for s
  proof -
    from s have "s \<in> set (pl_steps pl)" "sp_roadmap_id s = rm_id r" by auto
    moreover from this(1) assms obtain p where "p \<in> set (pl_phases pl)" "ph_id p = sp_phase_id s" "ph_roadmap_id p = sp_roadmap_id s"
      by (auto simp: tables_wf_def steps_placed_def)
    ultimately show ?thesis by (intro bexI [of _ p]) auto
  qed
  then show ?thesis unfolding exported_steps by auto
qed

lemma exported_edges:
  assumes w: "tables_wf pl" and s: "s \<in> set (roadmap_steps pl r)" and k: "k \<in> set (depends_on_keys (load_tree pl r) s)"
  shows "\<exists>b. (sp_id s, b) \<in> own_edges pl (rm_id r) \<and> k = key_of (load_tree pl r) b"
proof -
  from k obtain b where "b \<in> set (tr_deps (load_tree pl r) (sp_id s))" and kb: "k = key_of (load_tree pl r) b"
    by (auto simp: depends_on_keys_def)
  then obtain e where "e \<in> set (pl_deps pl)" "dp_roadmap_id e = rm_id r" "dp_step_id e = sp_id s" "dp_depends_on_step_id e = b"
    by (auto simp: load_tree_def Let_def)
  then have "(sp_id s, b) \<in> own_edges pl (rm_id r)" by (force simp: own_edges_def edges_of_def)
  with kb show ?thesis by blast
qed

lemma exported_sound:
  assumes w: "tables_wf pl"
  shows "sound_plan (build_document (load_tree pl r))"
proof -
  let ?t = "load_tree pl r" and ?d = "build_document (load_tree pl r)"
  let ?rows = "concat (map (\<lambda>p. filter (\<lambda>s. sp_phase_id s = ph_id p) (roadmap_steps pl r)) (roadmap_phases pl r))"
  have key: "sc_key (step_content_of ?t s) = sp_key s" "sc_depends_on (step_content_of ?t s) = depends_on_keys ?t s" for s
    by (simp_all add: step_content_of_def)
  have phases: "distinct (map pc_key (rd_phases ?d))"
    using roadmap_rows_wf(3) [OF w, of r] by (simp add: build_document_def phase_content_of_def comp_def tbl_wf_def)
  have "distinct ?rows"
    by (rule distinct_grouped)
      (use roadmap_rows_wf(1,2) [OF w, of r] in \<open>auto simp: tbl_wf_def distinct_map\<close>)
  moreover have "set ?rows \<subseteq> set (roadmap_steps pl r)" by auto
  then have "inj_on sp_key (set ?rows)"
    using roadmap_rows_wf(4) [OF w, of r] unfolding tbl_wf_def distinct_map by (meson inj_on_subset)
  ultimately have steps: "distinct (map sc_key (document_steps ?d))"
    unfolding exported_steps by (simp add: comp_def key distinct_map)
  have known: "key_of ?t b = sp_key s' \<and> s' \<in> set (roadmap_steps pl r)"
    if "s' \<in> set (roadmap_steps pl r)" "sp_id s' = b" for s' b
    using tree_key [OF w, of s' r] that by auto
  have inside: "k \<in> sc_key ` set (document_steps ?d)"
    if "s \<in> set (roadmap_steps pl r)" "k \<in> set (depends_on_keys ?t s)" for s k
  proof -
    from exported_edges [OF w that] obtain b where b: "(sp_id s, b) \<in> own_edges pl (rm_id r)" "k = key_of ?t b" by blast
    then obtain s' where "s' \<in> set (roadmap_steps pl r)" "sp_id s' = b" using own_edges_ends [OF w] by blast
    with known b(2) have "k = sp_key s'" "s' \<in> set (roadmap_steps pl r)" by auto
    then show ?thesis unfolding exported_step_set [OF w] image_image key by simp
  qed
  have own: "acyclic (own_edges pl (rm_id r))"
  proof (rule acyclic_subset)
    show "acyclic (edges_of (pl_deps pl))" using w by (simp add: tables_wf_def)
  qed (auto simp: own_edges_def edges_of_def)
  have inj: "inj_on (key_of ?t) (Field (own_edges pl (rm_id r)))"
  proof (rule inj_onI)
    fix a b assume "a \<in> Field (own_edges pl (rm_id r))" "b \<in> Field (own_edges pl (rm_id r))" "key_of ?t a = key_of ?t b"
    moreover from this(1,2) obtain s s' where "s \<in> set (roadmap_steps pl r)" "sp_id s = a"
        "s' \<in> set (roadmap_steps pl r)" "sp_id s' = b"
      using own_edges_ends [OF w] unfolding Field_def Domain_iff Range_iff Un_iff by metis
    ultimately show "a = b"
      using known id_unique [OF roadmap_rows_wf(4) [OF w, of r], of s s'] by auto
  qed
  have "depends_relation ?d \<subseteq> map_prod (key_of ?t) (key_of ?t) ` own_edges pl (rm_id r)"
  proof
    fix x assume "x \<in> depends_relation ?d"
    then obtain s k where s: "s \<in> set (roadmap_steps pl r)" "k \<in> set (depends_on_keys ?t s)" "x = (sp_key s, k)"
      unfolding depends_relation_def exported_step_set [OF w] using key by auto
    from exported_edges [OF w s(1,2)] obtain b where b: "(sp_id s, b) \<in> own_edges pl (rm_id r)" "k = key_of ?t b" by blast
    have "x = map_prod (key_of ?t) (key_of ?t) (sp_id s, b)" using known [OF s(1) refl] s(3) b(2) by simp
    with b(1) show "x \<in> map_prod (key_of ?t) (key_of ?t) ` own_edges pl (rm_id r)" by blast
  qed
  then have "acyclic (depends_relation ?d)" by (rule acyclic_subset [OF acyclic_map_inj [OF own inj]])
  with phases steps inside show ?thesis
    unfolding sound_plan_def exported_step_set [OF w] by (auto simp: key)
qed

end
