(* ===== verification/Roadmap_Hydration.thy ===== *)
theory Roadmap_Hydration
  imports Roadmap_Service
begin

section \<open>Hydration (\<open>services/roadmap_hydration.py\<close>)\<close>

text \<open>
  Materialising the task plan of steps as tasks. Preview and apply share \<open>plan_hydration\<close>; apply
  creates one task and one link per item to create, in one transaction.
\<close>

datatype hydration_reason = HR_STEP_DONE | HR_STEP_SKIPPED | HR_ROADMAP_NOT_ACTIVE

record hydration_item =
  hi_step_key :: string
  hi_hydration_key :: string
  hi_action :: hydration_action
  hi_title :: string
  hi_task_id :: "uuid option"
  hi_reason :: "hydration_reason option"

record planned_item =
  pn_step :: step_row
  pn_plan :: task_plan_item
  pn_item :: hydration_item

record hydration_result =
  hy_roadmap_id :: uuid
  hy_roadmap_version :: int
  hy_applied :: bool
  hy_applicable :: bool
  hy_not_applicable_reason :: "hydration_reason option"
  hy_items :: "hydration_item list"
  hy_counts :: hydration_counts

definition linked_tasks :: "roadmap_tree \<Rightarrow> step_row \<Rightarrow> string \<Rightarrow> uuid option" where
  "linked_tasks t s =
     py_dict (List.map_filter (\<lambda>l. map_option (\<lambda>k. (k, lk_task_id l)) (lk_hydration_key l))
       (tr_links t (sp_id s)))"

definition plan_item :: "roadmap_tree \<Rightarrow> step_row \<Rightarrow> task_plan_item \<Rightarrow> planned_item" where
  "plan_item t s i =
     (let existing = linked_tasks t s (tp_hydration_key i);
          (action, reason) =
            (if tree_state t s = SS_DONE then (HA_SKIP, Some HR_STEP_DONE)
             else if tree_state t s = SS_SKIPPED then (HA_SKIP, Some HR_STEP_SKIPPED)
             else if existing \<noteq> None then (HA_REUSE, None)
             else (HA_CREATE, None))
      in \<lparr>pn_step = s, pn_plan = i,
          pn_item = \<lparr>hi_step_key = sp_key s, hi_hydration_key = tp_hydration_key i, hi_action = action,
            hi_title = tp_title i, hi_task_id = existing, hi_reason = reason\<rparr>\<rparr>)"

definition plan_hydration :: "roadmap_tree \<Rightarrow> string list option \<Rightarrow> planned_item list fallible" where
  "plan_hydration t step_keys =
     (case step_keys of
        Some keys \<Rightarrow>
          (case filter (\<lambda>k. step_by_key t k = None) keys of
             unknown # _ \<Rightarrow> Inl (reference_not_found (''step '' @ unknown))
           | [] \<Rightarrow> Inr (concat (map (\<lambda>s. map (plan_item t s) (sp_task_plan s))
               (filter (\<lambda>s. sp_key s \<in> set keys) (tr_steps t)))))
      | None \<Rightarrow> Inr (concat (map (\<lambda>s. map (plan_item t s) (sp_task_plan s)) (tr_steps t))))"

definition hydration_result_of :: "roadmap_row \<Rightarrow> hydration_item list \<Rightarrow> bool \<Rightarrow> hydration_result" where
  "hydration_result_of r items applied =
     (let active = (rm_status r = RS_ACTIVE)
      in \<lparr>hy_roadmap_id = rm_id r, hy_roadmap_version = rm_version r, hy_applied = applied,
          hy_applicable = active,
          hy_not_applicable_reason = (if active then None else Some HR_ROADMAP_NOT_ACTIVE),
          hy_items = items, hy_counts = count_hydration (map hi_action items)\<rparr>)"

definition preview_hydration ::
  "plan_db \<Rightarrow> principal \<Rightarrow> uuid \<Rightarrow> string list option \<Rightarrow> hydration_result fallible" where
  "preview_hydration pl p roadmap_id step_keys =
     and_get (ensure_roadmap_access pl p roadmap_id ReadAction) (\<lambda>r.
     and_then (raise_if (rm_status r = RS_ARCHIVED)
       (invalid_state RS_ARCHIVED ''an archived roadmap cannot be hydrated'' None))
     (and_get (plan_hydration (load_tree pl r) step_keys) (\<lambda>planned.
       Inr (hydration_result_of r (map pn_item planned) False))))"

text \<open>\<open>add_task\<close>: the same authorization and row as a unitary creation, without its event.\<close>

definition add_task ::
  "db \<Rightarrow> principal \<Rightarrow> timestamp \<Rightarrow> uuid \<Rightarrow> uuid \<Rightarrow> string \<Rightarrow> string option \<Rightarrow> (db \<times> task_row) fallible" where
  "add_task d p now new_id project_id title description =
     and_then (authorize_create_task p project_id)
       (let task = \<lparr>t_id = new_id, t_project_id = project_id, t_title = title,
              t_description = description, t_status = TaskStatus_CREATED,
              t_claimed_by_machine_id = None, t_claimed_by_agent_id = None,
              t_version = 1, t_updated_at = now, t_handoff_cursor_seq = None\<rparr>
        in Inr (put_task task d, task))"

fun apply_items ::
  "plan_db \<Rightarrow> principal \<Rightarrow> timestamp \<Rightarrow> plan_ids \<Rightarrow> nat \<Rightarrow> roadmap_row \<Rightarrow> provenance_cols
     \<Rightarrow> planned_item list \<Rightarrow> (plan_db \<times> hydration_item list) fallible" where
  "apply_items pl p now ids i r prov [] = Inr (pl, [])"
| "apply_items pl p now ids i r prov (e # es) =
     (if hi_action (pn_item e) \<noteq> HA_CREATE
      then and_get (apply_items pl p now ids i r prov es) (\<lambda>(pl', items). Inr (pl', pn_item e # items))
      else and_get (add_task (pl_db pl) p now (pi_task ids i) (rm_project_id r)
               (tp_title (pn_plan e)) (tp_description (pn_plan e))) (\<lambda>(d, task).
             let pl1 = add_link \<lparr>lk_id = pi_link ids i, lk_step_id = sp_id (pn_step e),
                   lk_task_id = t_id task, lk_hydration_key = Some (tp_hydration_key (pn_plan e)),
                   lk_created_at = now, lk_prov = prov\<rparr> (pl\<lparr>pl_db := d\<rparr>)
             in and_get (apply_items pl1 p now ids (Suc i) r prov es) (\<lambda>(pl', items).
                  Inr (pl', (pn_item e)\<lparr>hi_task_id := Some (t_id task)\<rparr> # items))))"

definition hydrated_event :: "roadmap_row \<Rightarrow> hydration_counts \<Rightarrow> pending_event" where
  "hydrated_event r c =
     \<lparr>pe_type = ''roadmap.hydrated'',
      pe_payload = status_members r @ [(''counts'', JObj [(''create'', JInt (int (hc_create c))),
        (''reuse'', JInt (int (hc_reuse c))), (''skip'', JInt (int (hc_skip c)))])]\<rparr>"

record hydration_apply =
  ha_step_keys :: "string list option"
  ha_expected_version :: int
  ha_provenance :: write_provenance

definition close_hydration ::
  "principal \<Rightarrow> timestamp \<Rightarrow> plan_ids \<Rightarrow> roadmap_row \<Rightarrow> provenance_cols \<Rightarrow> plan_db \<times> hydration_item list
     \<Rightarrow> (plan_db, hydration_result) outcome" where
  "close_hydration p now ids r prov applied =
     (let result = hydration_result_of r (snd applied) True;
          pending = (if hc_create (hy_counts result) > 0 then [hydrated_event r (hy_counts result)] else [])
      in (finish_result (fst applied) p now (pi_event ids) r prov pending, Inr result))"

definition apply_hydration ::
  "plan_db \<Rightarrow> principal \<Rightarrow> timestamp \<Rightarrow> plan_ids \<Rightarrow> uuid \<Rightarrow> hydration_apply
     \<Rightarrow> (plan_db, hydration_result) outcome" where
  "apply_hydration pl p now ids roadmap_id payload =
     on_ok (lock_roadmap pl roadmap_id) pl (\<lambda>r.
     guarded (guard_write p r WK_HYDRATION_APPLY (ha_provenance payload)) pl
     (on_ok (resolve_provenance (pl_db pl) p (ha_provenance payload)) pl (\<lambda>prov.
     guarded (check_version (rm_version r) (ha_expected_version payload)) pl
     (on_ok (plan_hydration (load_tree pl r) (ha_step_keys payload)) pl (\<lambda>planned.
      on_ok (apply_items pl p now ids 0 r prov planned) pl (close_hydration p now ids r prov))))))"

end
