(* ===== verification/Roadmap_Import.thy ===== *)
theory Roadmap_Import
  imports Roadmap_Export Roadmap_Hydration
begin

section \<open>Import, approval and draft revision as document applications\<close>

text \<open>
  An import inserts the document as if it had been reconciled with an empty plan; an approved
  proposal and a revised draft reconcile it with the current one. What the database holds
  afterwards and what it exports follows from the lemmas on applied documents.
\<close>

subsection \<open>Well-formed plans\<close>

definition rows_owned :: "plan_db \<Rightarrow> bool" where
  "rows_owned pl \<longleftrightarrow> (\<forall>p \<in> set (pl_phases pl). ph_roadmap_id p \<in> rm_id ` set (pl_roadmaps pl)) \<and>
     (\<forall>v \<in> set (pl_revisions pl). rn_roadmap_id v \<in> rm_id ` set (pl_roadmaps pl))"

definition unused_ids :: "plan_ids \<Rightarrow> plan_db \<Rightarrow> bool" where
  "unused_ids ids pl \<longleftrightarrow> fresh_ids ids pl \<and> pi_roadmap ids \<notin> rm_id ` set (pl_roadmaps pl) \<and>
     pi_revision ids \<notin> rn_id ` set (pl_revisions pl)"

lemma tables_wf_cong:
  assumes "pl_phases pl' = pl_phases pl" "pl_steps pl' = pl_steps pl" "pl_deps pl' = pl_deps pl"
  shows "tables_wf pl' = tables_wf pl"
  using assms by (simp add: tables_wf_def steps_placed_def deps_inside_def step_in_def)

lemma fresh_ids_cong:
  assumes "pl_phases pl' = pl_phases pl" "pl_steps pl' = pl_steps pl"
  shows "fresh_ids ids pl' = fresh_ids ids pl"
  using assms by (simp add: fresh_ids_def)

lemma load_tree_cong:
  assumes "pl_phases pl' = pl_phases pl" "pl_steps pl' = pl_steps pl" "pl_deps pl' = pl_deps pl"
    "pl_links pl' = pl_links pl" "pl_db pl' = pl_db pl"
  shows "load_tree pl' r = load_tree pl r"
proof -
  have "roadmap_phases pl' r = roadmap_phases pl r" "roadmap_steps pl' r = roadmap_steps pl r"
    using assms by (simp_all add: roadmap_phases_def roadmap_steps_def)
  moreover have "step_links pl' = step_links pl" using assms by (simp add: step_links_def fun_eq_iff cong: option.case_cong)
  ultimately show ?thesis using assms by (simp add: load_tree_def Let_def)
qed

lemma build_document_cong:
  assumes "pl_phases pl' = pl_phases pl" "pl_steps pl' = pl_steps pl" "pl_deps pl' = pl_deps pl"
  shows "build_document (load_tree pl' r) = build_document (load_tree pl r)"
proof -
  have "roadmap_phases pl' r = roadmap_phases pl r" "roadmap_steps pl' r = roadmap_steps pl r"
    using assms by (simp_all add: roadmap_phases_def roadmap_steps_def)
  then have tr: "tr_phases (load_tree pl' r) = tr_phases (load_tree pl r)"
      "tr_steps (load_tree pl' r) = tr_steps (load_tree pl r)"
      "tr_deps (load_tree pl' r) = tr_deps (load_tree pl r)"
    using assms by (simp_all add: load_tree_def Let_def)
  then have "step_content_of (load_tree pl' r) = step_content_of (load_tree pl r)"
    by (simp add: step_content_of_def depends_on_keys_def key_of_def fun_eq_iff)
  with tr have "phase_content_of (load_tree pl' r) = phase_content_of (load_tree pl r)"
    by (simp add: phase_content_of_def steps_of_def fun_eq_iff)
  with tr show ?thesis by (simp add: build_document_def)
qed

subsection \<open>Inserting is reconciling with nothing\<close>

definition no_rows :: "plan_db \<Rightarrow> roadmap_row \<Rightarrow> bool" where
  "no_rows pl r \<longleftrightarrow> (\<forall>p \<in> set (pl_phases pl). ph_roadmap_id p \<noteq> rm_id r) \<and>
     (\<forall>s \<in> set (pl_steps pl). sp_roadmap_id s \<noteq> rm_id r)"

lemma tbl_put_subset: "set (tbl_put key x rs) \<subseteq> insert x (set rs)"
  by (induction rs) auto

lemma fold_tbl_put_subset: "set (fold (tbl_put key) rows rs) \<subseteq> set rows \<union> set rs"
proof (induction rows arbitrary: rs)
  case (Cons x xs)
  from Cons.IH [of "tbl_put key x rs"] tbl_put_subset [of key x rs] show ?case by auto
qed simp

lemma empty_tree_lookup:
  assumes "no_rows pl r"
  shows "phase_by_key (load_tree pl r) k = None" and "step_by_key (load_tree pl r) k = None"
    and "roadmap_steps pl r = []"
proof -
  have "filter (\<lambda>p. ph_roadmap_id p = rm_id r) (pl_phases pl) = []"
    "filter (\<lambda>s. sp_roadmap_id s = rm_id r) (pl_steps pl) = []"
    using assms by (simp_all add: no_rows_def filter_empty_conv)
  then show "phase_by_key (load_tree pl r) k = None" "step_by_key (load_tree pl r) k = None"
    "roadmap_steps pl r = []"
    by (simp_all add: phase_by_key_def step_by_key_def roadmap_phases_def roadmap_steps_def)
qed

lemma merged_empty:
  assumes "no_rows pl r"
  shows "merged_phases (load_tree pl r) ids prov doc = document_phase_rows r ids prov doc"
    and "merged_steps (load_tree pl r) ids prov doc = document_step_rows r ids prov doc"
    and "kept_step_id pl ids r = pi_step ids"
  by (simp_all add: merged_phases_def document_phase_rows_def merged_steps_concat merged_steps_of_def
      document_step_rows_def merge_phase_def merge_step_def phase_id_for_def step_id_for_def
      empty_tree_lookup [OF assms] fun_eq_iff)

lemma insert_is_reconcile:
  assumes "no_rows pl r" and "deps_inside pl"
  shows "reconcile_document pl ids (load_tree pl r) doc prov = Inr (insert_document pl r ids doc prov)"
proof -
  let ?mp = "document_phase_rows r ids prov doc" and ?ms = "document_step_rows r ids prov doc"
  let ?pl2 = "fold put_step ?ms (fold put_phase ?mp pl)"
  have keys: "p \<in> set ?mp \<Longrightarrow> ph_key p \<in> set (map pc_key (rd_phases doc))"
    "s \<in> set ?ms \<Longrightarrow> sp_key s \<in> set (map sc_key (document_steps doc))" for p s
    by (force simp: document_phase_rows_def document_step_rows_def new_phase_row_def new_step_row_def
        document_steps_def in_set_enumerate_eq)+
  have "\<not> (sp_roadmap_id s = rm_id r \<and> sp_key s \<notin> set (map sc_key (document_steps doc)))"
    if "s \<in> set (pl_steps ?pl2)" for s
    using that fold_tbl_put_subset [of sp_id ?ms "pl_steps pl"] keys(2) assms(1)
    by (auto simp: fold_put_step fold_put_phase no_rows_def)
  then have d3: "delete_steps (\<lambda>s. sp_roadmap_id s = rm_id r \<and> sp_key s \<notin> set (map sc_key (document_steps doc))) ?pl2 = ?pl2"
    by (rule delete_steps_none)
  have nogone: "\<not> (ph_roadmap_id p = rm_id r \<and> ph_key p \<notin> set (map pc_key (rd_phases doc)))"
    if "p \<in> set (pl_phases ?pl2)" for p
    using that fold_tbl_put_subset [of ph_id ?mp "pl_phases pl"] keys(1) assms(1)
    by (auto simp: fold_put_step fold_put_phase no_rows_def)
  have d4: "delete_phases (\<lambda>p. ph_roadmap_id p = rm_id r \<and> ph_key p \<notin> set (map pc_key (rd_phases doc))) ?pl2 = ?pl2"
    using nogone by (subst delete_phases_unplaced) (auto simp: filter_id_conv)
  have "filter (\<lambda>e. dp_roadmap_id e \<noteq> rm_id r) (pl_deps pl) = pl_deps pl"
    using assms by (auto simp: filter_id_conv deps_inside_def step_in_def no_rows_def)
  then have "?pl2\<lparr>pl_deps := filter (\<lambda>e. dp_roadmap_id e \<noteq> rm_id r) (pl_deps ?pl2)\<rparr> = ?pl2"
    by (simp add: fold_put_step fold_put_phase)
  then show ?thesis
    using d3 d4
    by (simp add: reconcile_document_def Let_def merged_empty [OF assms(1)] empty_tree_lookup [OF assms(1)]
        insert_document_def del: set_map)
qed

lemma insert_applied:
  assumes "no_rows pl r" "tables_wf pl" "fresh_ids ids pl" "sound_plan doc"
  shows "applied pl ids r doc prov (insert_document pl r ids doc prov)"
  using assms insert_is_reconcile [OF assms(1)] by (simp add: applied_def tables_wf_def)


subsection \<open>What the shared endings leave alone\<close>

lemma finish_result_frame [simp]:
  "pl_roadmaps (finish_result pl p now e r prov evs) = pl_roadmaps pl"
  "pl_phases (finish_result pl p now e r prov evs) = pl_phases pl"
  "pl_steps (finish_result pl p now e r prov evs) = pl_steps pl"
  "pl_deps (finish_result pl p now e r prov evs) = pl_deps pl"
  "pl_links (finish_result pl p now e r prov evs) = pl_links pl"
  "pl_revisions (finish_result pl p now e r prov evs) = pl_revisions pl"
  by (simp_all add: finish_result_def Let_def case_prod_unfold)

lemma put_frame [simp]:
  "pl_phases (put_roadmap r pl) = pl_phases pl" "pl_steps (put_roadmap r pl) = pl_steps pl"
  "pl_deps (put_roadmap r pl) = pl_deps pl" "pl_links (put_roadmap r pl) = pl_links pl"
  "pl_revisions (put_roadmap r pl) = pl_revisions pl" "pl_db (put_roadmap r pl) = pl_db pl"
  "pl_roadmaps (put_roadmap r pl) = tbl_put rm_id r (pl_roadmaps pl)"
  "pl_phases (put_revision v pl) = pl_phases pl" "pl_steps (put_revision v pl) = pl_steps pl"
  "pl_deps (put_revision v pl) = pl_deps pl" "pl_links (put_revision v pl) = pl_links pl"
  "pl_roadmaps (put_revision v pl) = pl_roadmaps pl" "pl_db (put_revision v pl) = pl_db pl"
  "pl_revisions (put_revision v pl) = tbl_put rn_id v (pl_revisions pl)"
  by (simp_all add: put_roadmap_def put_revision_def)

lemma insert_document_frame [simp]:
  "pl_roadmaps (insert_document pl r ids doc prov) = pl_roadmaps pl"
  "pl_revisions (insert_document pl r ids doc prov) = pl_revisions pl"
  "pl_links (insert_document pl r ids doc prov) = pl_links pl"
  "pl_db (insert_document pl r ids doc prov) = pl_db pl"
  by (simp_all add: insert_document_def add_dependencies_def fold_put_step fold_put_phase)

lemma and_get_and_then: "and_get (and_then g r) k = and_then g (and_get r k)"
  by (cases "(g, r)" rule: and_then.cases) simp_all

lemma export_value:
  assumes "tbl_get rm_id (pl_roadmaps pl) i = Some r"
  shows "export_roadmap pl q later i = and_then (ensure_project_access q (rm_project_id r) ReadAction)
    (Inr ((build_document (load_tree pl r))\<lparr>rd_exported_at := Some later, rd_revision_no := Some (rm_revision_no r)\<rparr>))"
proof -
  have "get_roadmap_row pl i = Some r" using assms by (simp add: get_roadmap_row_def)
  then show ?thesis by (simp add: export_roadmap_def ensure_roadmap_access_def found_def and_get_and_then)
qed

lemma document_exported:
  assumes A: "applied pl ids r doc prov pl1" and r': "rm_id r' = rm_id r" "rm_title r' = rd_title doc"
      "rm_objective r' = text_or_none (rd_objective doc)" "rm_context r' = text_or_none (rd_context doc)"
      "rm_metadata r' = rd_metadata doc"
    and same: "pl_phases pl' = pl_phases pl1" "pl_steps pl' = pl_steps pl1" "pl_deps pl' = pl_deps pl1"
  shows "build_document (load_tree pl' r') = normal_document doc"
proof -
  have "rd_phases (build_document (load_tree pl' r')) = rd_phases (normal_document doc)"
    using phases_exported [OF A r'(1)] build_document_cong [OF same] by simp
  then show ?thesis
    using r' by (simp add: build_document_def normal_document_def)
qed

subsection \<open>Import then export\<close>

lemma first_error_Inr [simp]: "first_error es = Inr u \<longleftrightarrow> es = []"
  by (cases es) (auto simp: first_error_def split: prod.splits)

definition imported_roadmap :: "plan_ids \<Rightarrow> timestamp \<Rightarrow> provenance_cols \<Rightarrow> roadmap_import \<Rightarrow> roadmap_row" where
  "imported_roadmap ids now prov payload =
     new_roadmap (pi_roadmap ids) (im_project_id payload) now prov (rd_title (im_document payload))
       (rd_objective (im_document payload)) (rd_context (im_document payload)) (rd_metadata (im_document payload))"

definition stored_roadmap :: "plan_db \<Rightarrow> plan_ids \<Rightarrow> timestamp \<Rightarrow> provenance_cols \<Rightarrow> roadmap_import \<Rightarrow> roadmap_row" where
  "stored_roadmap pl ids now prov payload =
     (let r = imported_roadmap ids now prov payload
      in if im_submit payload then r\<lparr>rm_revision_no := next_revision_no pl r, rm_status := RS_PROPOSED\<rparr> else r)"

definition imported_plan :: "plan_db \<Rightarrow> plan_ids \<Rightarrow> timestamp \<Rightarrow> provenance_cols \<Rightarrow> roadmap_import \<Rightarrow> plan_db" where
  "imported_plan pl ids now prov payload =
     (let r = imported_roadmap ids now prov payload
      in insert_document (put_roadmap r pl) r ids (im_document payload) prov)"

lemma stored_roadmap_simps [simp]:
  "rm_id (stored_roadmap pl ids now prov payload) = pi_roadmap ids"
  "rm_project_id (stored_roadmap pl ids now prov payload) = im_project_id payload"
  "rm_title (stored_roadmap pl ids now prov payload) = rd_title (im_document payload)"
  "rm_objective (stored_roadmap pl ids now prov payload) = text_or_none (rd_objective (im_document payload))"
  "rm_context (stored_roadmap pl ids now prov payload) = text_or_none (rd_context (im_document payload))"
  "rm_metadata (stored_roadmap pl ids now prov payload) = rd_metadata (im_document payload)"
  "rm_status (stored_roadmap pl ids now prov payload) = (if im_submit payload then RS_PROPOSED else RS_DRAFT)"
  by (simp_all add: stored_roadmap_def imported_roadmap_def new_roadmap_def Let_def)

lemma imported_roadmap_id [simp]: "rm_id (imported_roadmap ids now prov payload) = pi_roadmap ids"
  by (simp add: imported_roadmap_def new_roadmap_def)

lemma tbl_put_same_key [simp]: "key x = key y \<Longrightarrow> tbl_put key x (tbl_put key y rs) = tbl_put key x rs"
  by (induction rs) auto

lemma import_roadmap_cases:
  assumes "import_roadmap pl p now ids payload = (pl', Inr view)"
  obtains prov where "roadmap_document_errors (im_document payload) = []"
    and "pl_phases pl' = pl_phases (imported_plan pl ids now prov payload)"
    and "pl_steps pl' = pl_steps (imported_plan pl ids now prov payload)"
    and "pl_deps pl' = pl_deps (imported_plan pl ids now prov payload)"
    and "pl_links pl' = pl_links pl"
    and "pl_roadmaps pl' = tbl_put rm_id (stored_roadmap pl ids now prov payload) (pl_roadmaps pl)"
proof -
  from assms obtain prov where errs: "roadmap_document_errors (im_document payload) = []"
    and result: "(let r = imported_roadmap ids now prov payload; pl1 = imported_plan pl ids now prov payload
          in if im_submit payload
             then (let (pl2, r2, event) = submit_draft pl1 (pi_revision ids) r prov
                   in finish pl2 p now (pi_event ids) r2 prov [created_event r, event])
             else finish pl1 p now (pi_event ids) r prov [created_event r]) = (pl', Inr view)"
    by (auto simp: import_roadmap_def guarded_eq_Inr on_ok_eq_Inr imported_roadmap_def imported_plan_def Let_def)
  have "next_revision_no (insert_document (put_roadmap r pl) r ids doc prov) r = next_revision_no pl r" for r doc
    by (simp add: next_revision_no_def revisions_of_def)
  then show ?thesis
    using that [OF errs, of prov] result
    by (auto simp: submit_draft_def finish_def Let_def imported_plan_def stored_roadmap_def split: if_splits)
qed

lemma unused_unowned:
  assumes "rows_owned pl" and "unused_ids ids pl"
  shows "p \<in> set (pl_phases pl) \<Longrightarrow> ph_roadmap_id p \<noteq> pi_roadmap ids"
    and "v \<in> set (pl_revisions pl) \<Longrightarrow> rn_roadmap_id v \<noteq> pi_roadmap ids"
  using assms unfolding rows_owned_def unused_ids_def by metis+

lemma step_phase_exists:
  "tables_wf pl \<Longrightarrow> s \<in> set (pl_steps pl) \<Longrightarrow>
     \<exists>p \<in> set (pl_phases pl). ph_id p = sp_phase_id s \<and> ph_roadmap_id p = sp_roadmap_id s"
  by (simp add: tables_wf_def steps_placed_def)

lemma import_applied:
  fixes prov now
  assumes wf: "tables_wf pl" and own: "rows_owned pl" and ids: "unused_ids ids pl"
    and doc: "roadmap_document_errors (im_document payload) = []"
  defines "r \<equiv> imported_roadmap ids now prov payload"
  shows "applied (put_roadmap r pl) ids r (im_document payload) prov
    (insert_document (put_roadmap r pl) r ids (im_document payload) prov)"
proof (rule insert_applied)
  have rid: "rm_id r = pi_roadmap ids" by (simp add: r_def imported_roadmap_def new_roadmap_def)
  have "sp_roadmap_id s \<noteq> rm_id r" if s: "s \<in> set (pl_steps pl)" for s
  proof -
    obtain p where "p \<in> set (pl_phases pl)" "ph_roadmap_id p = sp_roadmap_id s"
      using step_phase_exists [OF wf s] by blast
    with unused_unowned(1) [OF own ids, of p] rid show ?thesis by simp
  qed
  then show "no_rows (put_roadmap r pl) r"
    using unused_unowned(1) [OF own ids] rid by (simp add: no_rows_def)
  show "tables_wf (put_roadmap r pl)" using wf tables_wf_cong [of "put_roadmap r pl" pl] by simp
  show "fresh_ids ids (put_roadmap r pl)"
    using ids fresh_ids_cong [of "put_roadmap r pl" pl] by (simp add: unused_ids_def)
  show "sound_plan (im_document payload)"
    using doc by (rule valid_sound)
qed

text \<open>Property C29. Importing a document and exporting the roadmap gives the document back in
  normal form (empty texts as absent, dependencies in plan order), stamped with the export and
  the revision number, for every reader the project admits; whatever else the database holds.
  The normal form is a fixed point, so a second import and export changes nothing.\<close>

theorem import_export_roundtrip:
  assumes "tables_wf pl" and "rows_owned pl" and "unused_ids ids pl"
    and "import_roadmap pl p now ids payload = (pl', Inr view)"
  shows "export_roadmap pl' q later (pi_roadmap ids) =
      and_then (ensure_project_access q (im_project_id payload) ReadAction)
        (Inr ((normal_document (im_document payload))\<lparr>rd_exported_at := Some later,
          rd_revision_no := Some (if im_submit payload then 1 else 0)\<rparr>)) \<and>
    normal_document (normal_document (im_document payload)) = normal_document (im_document payload)"
proof -
  let ?doc = "im_document payload"
  from import_roadmap_cases [OF assms(4)] obtain prov where errs: "roadmap_document_errors ?doc = []"
    and same: "pl_phases pl' = pl_phases (imported_plan pl ids now prov payload)"
      "pl_steps pl' = pl_steps (imported_plan pl ids now prov payload)"
      "pl_deps pl' = pl_deps (imported_plan pl ids now prov payload)"
    and rows: "pl_roadmaps pl' = tbl_put rm_id (stored_roadmap pl ids now prov payload) (pl_roadmaps pl)" .
  let ?r = "stored_roadmap pl ids now prov payload"
  have "revisions_of pl (pi_roadmap ids) = []"
    using unused_unowned(2) [OF assms(2,3)] by (simp add: revisions_of_def filter_empty_conv)
  then have no: "rm_revision_no ?r = (if im_submit payload then 1 else 0)"
    by (simp add: stored_roadmap_def imported_roadmap_def new_roadmap_def next_revision_no_def Let_def)
  have "build_document (load_tree pl' ?r) = normal_document ?doc"
    by (rule document_exported [OF import_applied [OF assms(1-3) errs]])
      (use same in \<open>simp_all add: imported_plan_def Let_def\<close>)
  moreover have "tbl_get rm_id (pl_roadmaps pl') (pi_roadmap ids) = Some ?r"
    by (simp add: rows)
  ultimately show ?thesis using no by (simp add: export_value normal_document_twice)
qed


subsection \<open>Approval of a proposal\<close>

definition foreign_rows_kept :: "uuid \<Rightarrow> plan_db \<Rightarrow> plan_db \<Rightarrow> bool" where
  "foreign_rows_kept rid pl pl' \<longleftrightarrow>
     {p \<in> set (pl_phases pl'). ph_roadmap_id p \<noteq> rid} = {p \<in> set (pl_phases pl). ph_roadmap_id p \<noteq> rid} \<and>
     {s \<in> set (pl_steps pl'). sp_roadmap_id s \<noteq> rid} = {s \<in> set (pl_steps pl). sp_roadmap_id s \<noteq> rid} \<and>
     filter (\<lambda>e. dp_roadmap_id e \<noteq> rid) (pl_deps pl') = filter (\<lambda>e. dp_roadmap_id e \<noteq> rid) (pl_deps pl)"

definition steps_survive :: "uuid \<Rightarrow> roadmap_document \<Rightarrow> plan_db \<Rightarrow> plan_db \<Rightarrow> bool" where
  "steps_survive rid doc pl pl' \<longleftrightarrow>
     (\<forall>s \<in> set (pl_steps pl). sp_roadmap_id s = rid \<longrightarrow>
        (if sp_key s \<in> set (plan_keys doc)
         then \<exists>s' \<in> set (pl_steps pl'). sp_id s' = sp_id s \<and> sp_key s' = sp_key s
           \<and> sp_state_override s' = sp_state_override s \<and> sp_version s' = sp_version s + 1
         else sp_id s \<notin> sp_id ` set (pl_steps pl') \<and> sp_id s \<notin> lk_step_id ` set (pl_links pl)))"

lemma applied_foreign:
  assumes A: "applied pl ids r doc prov pl'"
  shows "foreign_rows_kept (rm_id r) pl pl'"
proof -
  have w: "tables_wf pl" using A by (simp add: applied_def)
  have "filter (\<lambda>e. dp_roadmap_id e \<noteq> rm_id r) (document_dependencies (kept_step_id pl ids r) (rm_id r) doc) = []"
    by (auto simp: document_dependencies_def filter_empty_conv)
  then show ?thesis
    using applied_tables(1,2,5) [OF A] merged_roadmap [OF w] unfolding foreign_rows_kept_def by auto
qed

lemma merge_step_existing:
  assumes "tables_wf pl" "s \<in> set (pl_steps pl)" "sp_roadmap_id s = rm_id r" "sc_key c = sp_key s"
  shows "sp_id (merge_step (load_tree pl r) f prov pid i c) = sp_id s"
    and "sp_state_override (merge_step (load_tree pl r) f prov pid i c) = sp_state_override s"
    and "sp_version (merge_step (load_tree pl r) f prov pid i c) = sp_version s + 1"
  using step_by_key_iff [OF assms(1), of r "sp_key s" s] assms(2-4)
  by (simp_all add: merge_step_def step_id_for_def)

lemma applied_survive:
  assumes A: "applied pl ids r doc prov pl'"
  shows "steps_survive (rm_id r) doc pl pl'"
  unfolding steps_survive_def
proof (intro ballI impI)
  fix s assume s: "s \<in> set (pl_steps pl)" "sp_roadmap_id s = rm_id r"
  let ?ms = "merged_steps (load_tree pl r) ids prov doc"
  have w: "tables_wf pl" "fresh_ids ids pl" using A by (simp_all add: applied_def)
  note set' = applied_tables(2) [OF A]
  show "if sp_key s \<in> set (plan_keys doc)
    then \<exists>s' \<in> set (pl_steps pl'). sp_id s' = sp_id s \<and> sp_key s' = sp_key s
           \<and> sp_state_override s' = sp_state_override s \<and> sp_version s' = sp_version s + 1
    else sp_id s \<notin> sp_id ` set (pl_steps pl') \<and> sp_id s \<notin> lk_step_id ` set (pl_links pl)"
  proof (cases "sp_key s \<in> set (plan_keys doc)")
    case True
    then have "sp_key s \<in> sp_key ` set ?ms"
      using arg_cong [OF merged_keys(2) [OF w(1), of r ids prov doc], of set] by (simp add: plan_keys_def)
    then obtain s' where s': "s' \<in> set ?ms" "sp_key s' = sp_key s" by auto
    from s'(1) obtain pid i c where c: "s' = merge_step (load_tree pl r) (pi_step ids) prov pid i c"
      by (auto simp: merged_steps_concat merged_steps_of_def)
    with s'(2) have "sc_key c = sp_key s" by (simp add: merge_keys [OF w(1)])
    note kept = merge_step_existing [OF w(1) s this, of "pi_step ids" prov pid i, folded c]
    have "s' \<in> set (pl_steps pl')" using s'(1) set' by simp
    with kept s'(2) True show ?thesis by auto
  next
    case False
    have "sp_id s \<noteq> sp_id x" if x: "x \<in> set (pl_steps pl')" for x
    proof (cases "x \<in> set ?ms")
      case True
      then have "sp_key x \<in> set (plan_keys doc)" "sp_id x = kept_step_id pl ids r (sp_key x)"
        using merged_key_in_doc(2) [OF w(1)] merged_row_ids(2) [OF w(1)] by (auto simp: plan_keys_def)
      then show ?thesis
        using kept_step_id_own [OF w(1) s] step_id_inj [OF w] False by (metis injD)
    next
      case x2: False
      then have "x \<in> set (pl_steps pl)" "sp_roadmap_id x \<noteq> rm_id r" using x set' by auto
      then show ?thesis using s w(1) id_unique [of sp_id "pl_steps pl" s x] by (auto simp: tables_wf_def)
    qed
    moreover have "sp_id s \<notin> lk_step_id ` set (pl_links pl)"
    proof -
      have "tr_links (load_tree pl r) (sp_id s) = []"
        using reconcile_cases(1) [of pl ids "load_tree pl r" doc prov pl' s] A s False
        by (auto simp: applied_def plan_keys_def)
      then show ?thesis using no_links_iff [OF w(1) s] by simp
    qed
    ultimately show ?thesis using False by auto
  qed
qed

definition approved_roadmap :: "roadmap_row \<Rightarrow> revision_row \<Rightarrow> roadmap_row" where
  "approved_roadmap r v =
     r\<lparr>rm_version := rm_version r + 1, rm_revision_no := rn_revision_no v,
       rm_approved_revision_no := Some (rn_revision_no v)\<rparr>"

lemma get_roadmap_row_id: "get_roadmap_row pl i = Some r \<Longrightarrow> rm_id r = i"
  by (auto simp: get_roadmap_row_def dest: tbl_get_key)

lemma approval_cases:
  assumes "get_roadmap_row pl i = Some r" and "proposal_at pl i n = Some v"
    and "review_proposal pl p now ids i n payload = (pl', Inr view)" and "pw_decision payload = RD_APPROVE"
  obtains doc pl1 where "rn_content v = Some doc"
    and "reconcile_document pl ids (load_tree pl r) doc (rn_prov v) = Inr pl1"
    and "pl_phases pl' = pl_phases pl1" and "pl_steps pl' = pl_steps pl1" and "pl_deps pl' = pl_deps pl1"
    and "pl_links pl' = pl_links pl1" and "pl_roadmaps pl' = tbl_put rm_id (approved_roadmap r v) (pl_roadmaps pl1)"
    and "rn_base_revision_no v = rm_approved_revision_no r" and "rm_status r = RS_ACTIVE"
    and "rn_status v = Some RN_PENDING" and "rm_version r = pw_expected_version payload"
proof -
  have lock: "lock_roadmap pl i = Inr r" using assms(1) by (simp add: lock_roadmap_def)
  have hit: "found (reference_not_found ''revision'') (proposal_at pl i n) = Inr v" using assms(2) by simp
  from assms(3) obtain prov x where guards: "rm_status r = RS_ACTIVE" "rn_status v = Some RN_PENDING"
      "rm_version r = pw_expected_version payload"
    and x: "decide_proposal pl ids r v (pw_decision payload) = Inr x"
    and closed: "close_review p now ids v payload prov x = (pl', Inr view)"
    unfolding review_proposal_def lock hit on_ok_simps on_ok_eq_Inr guarded_eq_Inr and_then_eq_Inr
      raise_if_eq_Inr check_version_def by blast
  obtain pl1 r1 verdict ev where xs: "x = (pl1, r1, verdict, ev)" by (cases x) blast
  obtain v' evs where pl': "pl' = finish_result (put_revision v' pl1) p now (pi_event ids) r1 prov evs"
    using closed by (auto simp: close_review_def xs finish_def Let_def)
  have decided: "decide_proposal pl ids r v RD_APPROVE = Inr (pl1, r1, verdict, ev)"
    using x xs assms(4) by simp
  from decided obtain doc pl0 where doc: "rn_base_revision_no v = rm_approved_revision_no r"
      "rn_content v = Some doc" "reconcile_document pl ids (load_tree pl r) doc (rn_prov v) = Inr pl0"
    and pl1: "pl1 = put_roadmap (approved_roadmap r v) pl0"
    by (auto simp: decide_proposal_def and_get_eq_Inr Let_def approved_roadmap_def)
  show ?thesis by (rule that [OF doc(2,3)]) (simp_all add: pl' pl1 guards doc(1))
qed



text \<open>An approval never touches the roadmap's header: title, objective, context
  and metadata exported after it are those before it, whatever header the approved proposal
  holds, while the roadmap names that proposal's revision as approved.\<close>

theorem approval_keeps_header:
  assumes "get_roadmap_row pl i = Some r" and "proposal_at pl i n = Some v"
    and "pw_decision payload = RD_APPROVE" and "review_proposal pl p now ids i n payload = (pl', Inr view)"
  shows "\<exists>r'. get_roadmap_row pl' i = Some r' \<and>
    rm_approved_revision_no r' = Some (rn_revision_no v) \<and> rm_revision_no r' = rn_revision_no v \<and>
    (let d = build_document (load_tree pl r); d' = build_document (load_tree pl' r')
     in rd_title d' = rd_title d \<and> rd_objective d' = rd_objective d \<and> rd_context d' = rd_context d \<and>
        rd_metadata d' = rd_metadata d)"
proof -
  have "get_roadmap_row pl' i = Some (approved_roadmap r v)"
    by (rule approval_cases [OF assms(1,2,4,3)])
      (use get_roadmap_row_id [OF assms(1)] in \<open>simp add: get_roadmap_row_def approved_roadmap_def\<close>)
  then show ?thesis by (simp add: approved_roadmap_def build_document_def Let_def)
qed

subsection \<open>Revision of a draft\<close>

lemma draft_revision_cases:
  assumes "get_roadmap_row pl i = Some r" and "rm_status r = RS_DRAFT"
    and "create_proposal pl p now ids i payload = (pl', Inr out)"
  obtains prov pl1 n s where "roadmap_document_errors (pp_document payload) = []"
    and "pp_base_revision_no payload = rm_revision_no r"
    and "reconcile_document pl ids (load_tree pl r) (pp_document payload) prov = Inr pl1"
    and "pl_phases pl' = pl_phases pl1" and "pl_steps pl' = pl_steps pl1" and "pl_deps pl' = pl_deps pl1"
    and "pl_links pl' = pl_links pl1"
    and "pl_roadmaps pl' = tbl_put rm_id ((revised_roadmap r (pp_document payload))\<lparr>rm_revision_no := n, rm_status := s\<rparr>)
      (pl_roadmaps pl1)"
    and "s = (if pp_submit payload then RS_PROPOSED else RS_DRAFT)"
proof -
  have lock: "lock_roadmap pl i = Inr r" using assms(1) by (simp add: lock_roadmap_def)
  have "revise_draft pl p now ids r payload = (pl', Inr out)"
    using assms(2,3) by (simp add: create_proposal_def lock)
  then obtain prov pl1 where guards: "pp_base_revision_no payload = rm_revision_no r"
      "roadmap_document_errors (pp_document payload) = []"
    and pl1: "reconcile_document pl ids (load_tree pl r) (pp_document payload) prov = Inr pl1"
    and closed: "close_revision (put_roadmap (revised_roadmap r (pp_document payload)) pl1) p now ids
      (revised_roadmap r (pp_document payload)) payload prov = (pl', Inr out)"
    unfolding revise_draft_def on_ok_eq_Inr guarded_eq_Inr and_then_eq_Inr raise_if_eq_Inr first_error_Inr
      Let_def by blast
  have draft: "(revised_roadmap r doc)\<lparr>rm_revision_no := n, rm_status := RS_DRAFT\<rparr>
      = (revised_roadmap r doc)\<lparr>rm_revision_no := n\<rparr>" for doc n
    using assms(2) by (cases r) (simp add: revised_roadmap_def)
  have ident: "rm_id (revised_roadmap r doc) = rm_id r" for doc by (simp add: revised_roadmap_def)
  show ?thesis
    by (rule that [OF guards(2,1) pl1, of "if pp_submit payload then RS_PROPOSED else RS_DRAFT"
          "next_revision_no (put_roadmap (revised_roadmap r (pp_document payload)) pl1)
            (revised_roadmap r (pp_document payload))"])
      (use closed ident draft in
        \<open>auto simp: close_revision_def Let_def submit_draft_def split: option.splits if_splits\<close>)
qed

text \<open>Revising a draft with a document, submitted or not, replaces the whole plan by
  it: the exported document is the revised one in normal form, header included; kept steps keep
  their identity and links, and nothing of another roadmap changes.\<close>

theorem draft_revision_replaces:
  assumes "tables_wf pl" and "fresh_ids ids pl" and "get_roadmap_row pl i = Some r" and "rm_status r = RS_DRAFT"
    and "create_proposal pl p now ids i payload = (pl', Inr out)"
  shows "\<exists>r'. get_roadmap_row pl' i = Some r' \<and>
    rm_status r' = (if pp_submit payload then RS_PROPOSED else RS_DRAFT) \<and>
    build_document (load_tree pl' r') = normal_document (pp_document payload) \<and>
    steps_survive i (pp_document payload) pl pl' \<and> pl_links pl' = pl_links pl \<and>
    foreign_rows_kept i pl pl' \<and> tables_wf pl'"
proof -
  have rid: "rm_id r = i" by (rule get_roadmap_row_id [OF assms(3)])
  from draft_revision_cases [OF assms(3-5)] obtain prov pl1 n s where
      errs: "roadmap_document_errors (pp_document payload) = []"
    and pl1: "reconcile_document pl ids (load_tree pl r) (pp_document payload) prov = Inr pl1"
    and same: "pl_phases pl' = pl_phases pl1" "pl_steps pl' = pl_steps pl1" "pl_deps pl' = pl_deps pl1"
    and links: "pl_links pl' = pl_links pl1"
    and rows: "pl_roadmaps pl' = tbl_put rm_id
      ((revised_roadmap r (pp_document payload))\<lparr>rm_revision_no := n, rm_status := s\<rparr>) (pl_roadmaps pl1)"
    and s: "s = (if pp_submit payload then RS_PROPOSED else RS_DRAFT)" by metis
  let ?r' = "(revised_roadmap r (pp_document payload))\<lparr>rm_revision_no := n, rm_status := s\<rparr>"
  have A: "applied pl ids r (pp_document payload) prov pl1"
    using assms(1,2) errs pl1 by (simp add: applied_def valid_sound)
  have "get_roadmap_row pl' i = Some ?r'"
    using rid by (simp add: get_roadmap_row_def rows revised_roadmap_def)
  moreover have "build_document (load_tree pl' ?r') = normal_document (pp_document payload)"
    by (rule document_exported [OF A _ _ _ _ _ same]) (simp_all add: revised_roadmap_def)
  moreover have "steps_survive i (pp_document payload) pl pl'" "foreign_rows_kept i pl pl'" "tables_wf pl'"
    using applied_survive [OF A] applied_foreign [OF A] applied_tables_wf [OF A] tables_wf_cong [OF same] same rid
    by (simp_all add: steps_survive_def foreign_rows_kept_def)
  ultimately show ?thesis using links s applied_tables(6) [OF A] by auto
qed

end
