(* ===== verification/Hydration_Laws.thy ===== *)
theory Hydration_Laws
  imports Roadmap_Import
begin

section \<open>What hydration guarantees\<close>

text \<open>
  An apply does what the preview announced: one task and one link per item to create, nothing
  else; every existing task and link stays. Hydrating again creates nothing and leaves the
  database exactly as it is.
\<close>

definition fresh_task_ids :: "plan_ids \<Rightarrow> plan_db \<Rightarrow> bool" where
  "fresh_task_ids ids pl \<longleftrightarrow> inj (pi_task ids) \<and> (\<forall>k. pi_task ids k \<notin> t_id ` set (db_tasks (pl_db pl)))"

definition to_create :: "planned_item list \<Rightarrow> planned_item list" where
  "to_create es = filter (\<lambda>e. hi_action (pn_item e) = HA_CREATE) es"

definition link_of_item :: "link_row \<Rightarrow> uuid \<times> string option" where
  "link_of_item l = (lk_step_id l, lk_hydration_key l)"

definition item_slot :: "planned_item \<Rightarrow> uuid \<times> string option" where
  "item_slot e = (sp_id (pn_step e), Some (tp_hydration_key (pn_plan e)))"

definition new_task_of :: "uuid \<Rightarrow> task_row \<Rightarrow> planned_item \<Rightarrow> bool" where
  "new_task_of project_id t e \<longleftrightarrow> t_project_id t = project_id \<and> t_title t = tp_title (pn_plan e) \<and>
     t_description t = tp_description (pn_plan e) \<and> t_status t = TaskStatus_CREATED \<and>
     t_claimed_by_machine_id t = None \<and> t_version t = 1"

definition same_plan :: "plan_db \<Rightarrow> plan_db \<Rightarrow> bool" where
  "same_plan pl pl' \<longleftrightarrow> pl_roadmaps pl' = pl_roadmaps pl \<and> pl_phases pl' = pl_phases pl \<and>
     pl_steps pl' = pl_steps pl \<and> pl_deps pl' = pl_deps pl \<and> pl_revisions pl' = pl_revisions pl"

lemma same_plan_refl [simp]: "same_plan pl pl" by (simp add: same_plan_def)

lemma same_plan_trans: "same_plan a b \<Longrightarrow> same_plan b c \<Longrightarrow> same_plan a c"
  by (simp add: same_plan_def)

lemma tbl_put_new: "key x \<notin> key ` set rs \<Longrightarrow> tbl_put key x rs = rs @ [x]"
  by (induction rs) auto

lemma apply_items_effect:
  assumes "apply_items pl p now ids i r prov es = Inr (pl', items)"
    and "inj (pi_task ids)" and "\<And>k. k \<ge> i \<Longrightarrow> pi_task ids k \<notin> t_id ` set (db_tasks (pl_db pl))"
  shows "\<exists>ts ls. db_tasks (pl_db pl') = db_tasks (pl_db pl) @ ts \<and> pl_links pl' = pl_links pl @ ls \<and>
    list_all2 (new_task_of (rm_project_id r)) ts (to_create es) \<and>
    map link_of_item ls = map item_slot (to_create es) \<and> map lk_task_id ls = map t_id ts \<and>
    same_plan pl pl' \<and> map hi_action items = map (\<lambda>e. hi_action (pn_item e)) es \<and>
    map hi_hydration_key items = map (\<lambda>e. hi_hydration_key (pn_item e)) es \<and>
    (to_create es = [] \<longrightarrow> pl' = pl)"
  using assms(1,3)
proof (induction es arbitrary: pl i items)
  case Nil
  then show ?case by (simp add: to_create_def)
next
  case (Cons e es)
  show ?case
  proof (cases "hi_action (pn_item e) = HA_CREATE")
    case False
    with Cons.prems(1) obtain items' where "apply_items pl p now ids i r prov es = Inr (pl', items')"
      and "items = pn_item e # items'"
      by (auto simp: and_get_eq_Inr)
    with Cons.IH [OF this(1) Cons.prems(2)] False show ?thesis by (simp add: to_create_def)
  next
    case True
    let ?task = "\<lparr>t_id = pi_task ids i, t_project_id = rm_project_id r, t_title = tp_title (pn_plan e),
        t_description = tp_description (pn_plan e), t_status = TaskStatus_CREATED,
        t_claimed_by_machine_id = None, t_claimed_by_agent_id = None, t_version = 1, t_updated_at = now, t_handoff_cursor_seq = None\<rparr>"
    let ?link = "\<lparr>lk_id = pi_link ids i, lk_step_id = sp_id (pn_step e), lk_task_id = pi_task ids i,
        lk_hydration_key = Some (tp_hydration_key (pn_plan e)), lk_created_at = now, lk_prov = prov\<rparr>"
    let ?pl1 = "add_link ?link (pl\<lparr>pl_db := put_task ?task (pl_db pl)\<rparr>)"
    from Cons.prems(1) True obtain items' where rest: "apply_items ?pl1 p now ids (Suc i) r prov es = Inr (pl', items')"
      and items: "items = (pn_item e)\<lparr>hi_task_id := Some (pi_task ids i)\<rparr> # items'"
      by (auto simp: and_get_eq_Inr add_task_def Let_def)
    have new: "db_tasks (pl_db ?pl1) = db_tasks (pl_db pl) @ [?task]"
      using Cons.prems(2) [of i] by (simp add: add_link_def put_task_def tbl_put_new)
    have "pi_task ids k \<notin> t_id ` set (db_tasks (pl_db ?pl1))" if "Suc i \<le> k" for k
      using Cons.prems(2) [of k] that assms(2) unfolding new by (auto simp: inj_eq)
    from Cons.IH [OF rest this] obtain ts ls where IH:
      "db_tasks (pl_db pl') = db_tasks (pl_db ?pl1) @ ts" "pl_links pl' = pl_links ?pl1 @ ls"
      "list_all2 (new_task_of (rm_project_id r)) ts (to_create es)"
      "map link_of_item ls = map item_slot (to_create es)" "map lk_task_id ls = map t_id ts"
      "same_plan ?pl1 pl'" "map hi_action items' = map (\<lambda>e. hi_action (pn_item e)) es"
      "map hi_hydration_key items' = map (\<lambda>e. hi_hydration_key (pn_item e)) es"
      by blast
    have "same_plan pl ?pl1" by (simp add: same_plan_def add_link_def)
    then have same: "same_plan pl pl'" using IH(6) by (rule same_plan_trans)
    have head: "new_task_of (rm_project_id r) ?task e" "link_of_item ?link = item_slot e"
      by (simp_all add: new_task_of_def link_of_item_def item_slot_def)
    have create: "to_create (e # es) = e # to_create es" using True by (simp add: to_create_def)
    show ?thesis
      unfolding create
      by (rule exI [of _ "?task # ts"], rule exI [of _ "?link # ls"])
        (use IH(1-5,7,8) same new items head in \<open>simp add: add_link_def\<close>)
  qed
qed

lemma stage_all_tasks [simp]: "db_tasks (fst (stage_all d evs)) = db_tasks d"
proof (induction evs arbitrary: d)
  case (Cons ev evs)
  from Cons.IH [of "fst (stage_event d ev)"] show ?case
    by (simp add: case_prod_unfold Let_def)
qed simp

lemma fold_publish_tasks [simp]: "db_tasks (fold publish_event evs d) = db_tasks d"
  by (induction evs arbitrary: d) simp_all

lemma finish_result_tasks [simp]: "db_tasks (pl_db (finish_result pl p now e r prov evs)) = db_tasks (pl_db pl)"
  by (simp add: finish_result_def Let_def case_prod_unfold)

lemma finish_result_nothing [simp]: "finish_result pl p now e r prov [] = pl"
  by (simp add: finish_result_def)

lemma apply_hydration_cases:
  assumes "apply_hydration pl p now ids i payload = (pl', Inr res)"
  obtains r prov planned pl1 items where "get_roadmap_row pl i = Some r" and "rm_status r = RS_ACTIVE"
    and "plan_hydration (load_tree pl r) (ha_step_keys payload) = Inr planned"
    and "apply_items pl p now ids 0 r prov planned = Inr (pl1, items)"
    and "res = hydration_result_of r items True"
    and "pl' = finish_result pl1 p now (pi_event ids) r prov
      (if hc_create (hy_counts res) > 0 then [hydrated_event r (hy_counts res)] else [])"
proof -
  from assms obtain r prov planned x where
    r: "lock_roadmap pl i = Inr r" "guard_write p r WK_HYDRATION_APPLY (ha_provenance payload) = Inr ()"
    and planned: "plan_hydration (load_tree pl r) (ha_step_keys payload) = Inr planned"
    and x: "apply_items pl p now ids 0 r prov planned = Inr x"
    and fin: "close_hydration p now ids r prov x = (pl', Inr res)"
    unfolding apply_hydration_def on_ok_eq_Inr guarded_eq_Inr by blast
  obtain pl1 items where xs: "x = (pl1, items)" by (cases x)
  have "rm_status r = RS_ACTIVE"
    using r(2) by (cases "rm_status r") (auto simp: guard_write_def write_allowed_def)
  with that [of r planned prov pl1 items] r(1) planned x fin show ?thesis
    by (auto simp: xs Let_def lock_roadmap_def close_hydration_def)
qed

lemma actions_to_create: "length (to_create es) = count_list (map (\<lambda>e. hi_action (pn_item e)) es) HA_CREATE"
  by (induction es) (simp_all add: to_create_def)


subsection \<open>Apply does what the preview announced\<close>

text \<open>An apply does what the preview of the same steps announced, item by item, and
  the counts agree. It appends exactly one task per announced creation, a fresh one in the
  roadmap's project with the planned title and description, and one link per new task, from
  the item's step and hydration key to that task; every existing task and link stays, and
  roadmaps, phases, steps, dependencies and revisions do not change.\<close>

theorem hydration_applies_preview:
  assumes "fresh_task_ids ids pl" and "preview_hydration pl q i (ha_step_keys payload) = Inr prev"
    and "apply_hydration pl p now ids i payload = (pl', Inr res)"
  shows "map hi_action (hy_items res) = map hi_action (hy_items prev) \<and>
    map hi_hydration_key (hy_items res) = map hi_hydration_key (hy_items prev) \<and>
    hy_counts res = hy_counts prev \<and> same_plan pl pl' \<and>
    (\<exists>ts ls created. db_tasks (pl_db pl') = db_tasks (pl_db pl) @ ts \<and> pl_links pl' = pl_links pl @ ls \<and>
      length created = hc_create (hy_counts prev) \<and>
      list_all2 (\<lambda>t e. \<exists>r. get_roadmap_row pl i = Some r \<and> new_task_of (rm_project_id r) t e) ts created \<and>
      map link_of_item ls = map item_slot created \<and> map lk_task_id ls = map t_id ts)"
proof -
  from apply_hydration_cases [OF assms(3)] obtain r prov planned pl1 items where
    r: "get_roadmap_row pl i = Some r"
    and planned: "plan_hydration (load_tree pl r) (ha_step_keys payload) = Inr planned"
    and run: "apply_items pl p now ids 0 r prov planned = Inr (pl1, items)"
    and res: "res = hydration_result_of r items True"
    and pl': "pl' = finish_result pl1 p now (pi_event ids) r prov
      (if hc_create (hy_counts res) > 0 then [hydrated_event r (hy_counts res)] else [])" by metis
  have prev: "prev = hydration_result_of r (map pn_item planned) False"
    using assms(2) r planned
    by (auto simp: preview_hydration_def ensure_roadmap_access_def and_get_eq_Inr)
  have fresh: "inj (pi_task ids)" "\<And>k. 0 \<le> k \<Longrightarrow> pi_task ids k \<notin> t_id ` set (db_tasks (pl_db pl))"
    using assms(1) by (simp_all add: fresh_task_ids_def)
  from apply_items_effect [OF run fresh] obtain ts ls where eff:
    "db_tasks (pl_db pl1) = db_tasks (pl_db pl) @ ts" "pl_links pl1 = pl_links pl @ ls"
    "list_all2 (new_task_of (rm_project_id r)) ts (to_create planned)"
    "map link_of_item ls = map item_slot (to_create planned)" "map lk_task_id ls = map t_id ts"
    "same_plan pl pl1" "map hi_action items = map (\<lambda>e. hi_action (pn_item e)) planned"
    "map hi_hydration_key items = map (\<lambda>e. hi_hydration_key (pn_item e)) planned" by blast
  have counts: "hy_counts res = hy_counts prev" "length (to_create planned) = hc_create (hy_counts prev)"
    by (simp_all add: res prev hydration_result_of_def Let_def eff(7) count_hydration_def actions_to_create comp_def)
  have "same_plan pl pl'" using eff(6) by (simp add: pl' same_plan_def)
  moreover have "list_all2 (\<lambda>t e. \<exists>r. get_roadmap_row pl i = Some r \<and> new_task_of (rm_project_id r) t e) ts (to_create planned)"
    using eff(3) r by simp
  moreover have "db_tasks (pl_db pl') = db_tasks (pl_db pl) @ ts" "pl_links pl' = pl_links pl @ ls"
    using eff(1,2) by (simp_all add: pl')
  ultimately show ?thesis
    using counts eff(4,5,7,8) by (auto simp: res prev hydration_result_of_def Let_def comp_def)
qed

subsection \<open>Hydrating twice\<close>

lemma py_dict_None: "py_dict xs k = None \<longleftrightarrow> k \<notin> fst ` set xs"
  by (simp add: py_dict_def map_of_eq_None_iff)

lemma set_map_filter_pairs:
  "fst ` set (List.map_filter (\<lambda>l. map_option (\<lambda>k. (k, g l)) (f l)) ls) = {k. \<exists>l \<in> set ls. f l = Some k}"
  by (induction ls) (auto simp: List.map_filter_simps split: option.splits)

lemma linked_iff:
  assumes "find (\<lambda>x. sp_id x = sp_id s) (roadmap_steps pl r) = Some s'"
  shows "linked_tasks (load_tree pl r) s k \<noteq> None \<longleftrightarrow>
    (\<exists>l \<in> set (pl_links pl). lk_step_id l = sp_id s \<and> lk_hydration_key l = Some k)"
proof -
  have "set (tr_links (load_tree pl r) (sp_id s)) = {l \<in> set (pl_links pl). lk_step_id l = sp_id s}"
    using assms by (simp add: load_tree_def Let_def step_links_def)
  then show ?thesis by (auto simp: linked_tasks_def py_dict_None set_map_filter_pairs)
qed

lemma plan_item_simps [simp]:
  "pn_step (plan_item t s x) = s" "pn_plan (plan_item t s x) = x"
  by (simp_all add: plan_item_def Let_def case_prod_unfold)

lemma plan_item_create:
  "hi_action (pn_item (plan_item t s x)) = HA_CREATE \<longleftrightarrow>
     \<not> step_finished (tree_state t s) \<and> linked_tasks t s (tp_hydration_key x) = None"
  by (auto simp: plan_item_def Let_def step_finished_def)

definition selected_steps :: "string list option \<Rightarrow> step_row list \<Rightarrow> step_row list" where
  "selected_steps keys ss = (case keys of None \<Rightarrow> ss | Some ks \<Rightarrow> filter (\<lambda>s. sp_key s \<in> set ks) ss)"

lemma plan_hydration_value:
  assumes "plan_hydration t keys = Inr planned"
  shows "planned = concat (map (\<lambda>s. map (plan_item t s) (sp_task_plan s)) (selected_steps keys (tr_steps t)))"
  using assms by (auto simp: plan_hydration_def selected_steps_def split: option.splits list.splits)

lemma planned_mem:
  assumes "plan_hydration t keys = Inr planned"
  shows "e \<in> set planned \<longleftrightarrow> (\<exists>s \<in> set (selected_steps keys (tr_steps t)). \<exists>x \<in> set (sp_task_plan s). e = plan_item t s x)"
  unfolding plan_hydration_value [OF assms] by auto

lemma selected_subset: "set (selected_steps keys ss) \<subseteq> set ss"
  by (auto simp: selected_steps_def split: option.splits)

definition links_to_tasks :: "plan_db \<Rightarrow> bool" where
  "links_to_tasks pl \<longleftrightarrow> (\<forall>l \<in> set (pl_links pl). lk_task_id l \<in> t_id ` set (db_tasks (pl_db pl)))"

lemma same_plan_steps: "same_plan pl pl' \<Longrightarrow> roadmap_steps pl' r = roadmap_steps pl r"
  by (simp add: same_plan_def roadmap_steps_def roadmap_phases_def)

lemma tree_state_kept:
  assumes same: "same_plan pl pl'" and links: "pl_links pl' = pl_links pl @ ls"
    and tasks: "db_tasks (pl_db pl') = db_tasks (pl_db pl) @ ts" and valid: "links_to_tasks pl"
    and none: "\<And>l. l \<in> set ls \<Longrightarrow> lk_step_id l \<noteq> sp_id s"
  shows "tree_state (load_tree pl' r) s = tree_state (load_tree pl r) s"
proof -
  have "filter (\<lambda>l. lk_step_id l = sp_id s) ls = []" using none by (simp add: filter_empty_conv)
  then have l: "tr_links (load_tree pl' r) (sp_id s) = tr_links (load_tree pl r) (sp_id s)"
    by (simp add: load_tree_def Let_def step_links_def same_plan_steps [OF same] links cong: option.case_cong)
  have sub: "set (tr_links (load_tree pl r) (sp_id s)) \<subseteq> set (pl_links pl)"
    by (auto simp: load_tree_def Let_def step_links_def split: option.splits)
  have "tr_task_status (load_tree pl' r) (lk_task_id l) = tr_task_status (load_tree pl r) (lk_task_id l)"
    if "l \<in> set (tr_links (load_tree pl r) (sp_id s))" for l
  proof -
    have "tbl_get t_id (db_tasks (pl_db pl)) (lk_task_id l) \<noteq> None"
      using that sub valid by (auto simp: links_to_tasks_def tbl_get_None_iff)
    then show ?thesis
      by (auto simp: load_tree_def Let_def get_task_row_def tasks tbl_get_append)
  qed
  then have "List.map_filter (\<lambda>l. tr_task_status (load_tree pl' r) (lk_task_id l)) (tr_links (load_tree pl r) (sp_id s))
      = List.map_filter (\<lambda>l. tr_task_status (load_tree pl r) (lk_task_id l)) (tr_links (load_tree pl r) (sp_id s))"
    by (auto simp: List.map_filter_def intro!: map_cong filter_cong)
  then show ?thesis by (simp add: tree_state_def l)
qed

lemma nothing_left_to_create:
  assumes wf: "tables_wf pl" and valid: "links_to_tasks pl" and same: "same_plan pl pl'"
    and links: "pl_links pl' = pl_links pl @ ls" and tasks: "db_tasks (pl_db pl') = db_tasks (pl_db pl) @ ts"
    and made: "map link_of_item ls = map item_slot (to_create planned)"
    and p: "plan_hydration (load_tree pl r) keys = Inr planned"
    and p': "plan_hydration (load_tree pl' r) keys = Inr planned'"
  shows "to_create planned' = []"
proof -
  let ?t = "load_tree pl r" and ?t' = "load_tree pl' r"
  have steps: "tr_steps ?t' = tr_steps ?t" using same_plan_steps [OF same] by simp
  have made_set: "link_of_item ` set ls = item_slot ` set (to_create planned)"
    using arg_cong [OF made, of set] by simp
  have "hi_action (pn_item e) \<noteq> HA_CREATE" if "e \<in> set planned'" for e
  proof
    assume create: "hi_action (pn_item e) = HA_CREATE"
    from that obtain s x where s: "s \<in> set (selected_steps keys (tr_steps ?t))" "x \<in> set (sp_task_plan s)"
      and e: "e = plan_item ?t' s x" unfolding planned_mem [OF p'] steps by blast
    have mem: "s \<in> set (roadmap_steps pl r)" using s(1) selected_subset by fastforce
    have open': "\<not> step_finished (tree_state ?t' s)" "linked_tasks ?t' s (tp_hydration_key x) = None"
      using create unfolding e plan_item_create by auto
    have unlinked: "\<not> (\<exists>l \<in> set (pl_links pl'). lk_step_id l = sp_id s \<and> lk_hydration_key l = Some (tp_hydration_key x))"
      using open'(2) linked_iff [of s pl' r s "tp_hydration_key x"] step_found [OF wf mem] same_plan_steps [OF same]
      by simp
    have item: "plan_item ?t s x \<in> set planned" unfolding planned_mem [OF p] using s by blast
    have old: "hi_action (pn_item (plan_item ?t s x)) \<noteq> HA_CREATE"
    proof
      assume "hi_action (pn_item (plan_item ?t s x)) = HA_CREATE"
      then have "plan_item ?t s x \<in> set (to_create planned)" using item by (simp add: to_create_def)
      then have "item_slot (plan_item ?t s x) \<in> link_of_item ` set ls" unfolding made_set by (rule imageI)
      then obtain l where "l \<in> set ls" "link_of_item l = (sp_id s, Some (tp_hydration_key x))"
        by (auto simp: item_slot_def)
      with unlinked links show False by (auto simp: link_of_item_def)
    qed
    moreover have "linked_tasks ?t s (tp_hydration_key x) = None"
      using unlinked links linked_iff [of s pl r s "tp_hydration_key x"] step_found [OF wf mem] by auto
    ultimately have closed: "step_finished (tree_state ?t s)" unfolding plan_item_create by simp
    have "lk_step_id l \<noteq> sp_id s" if l: "l \<in> set ls" for l
    proof
      assume eq: "lk_step_id l = sp_id s"
      have "link_of_item l \<in> item_slot ` set (to_create planned)" using l made_set by blast
      then obtain e' where e': "e' \<in> set planned" "hi_action (pn_item e') = HA_CREATE" "sp_id (pn_step e') = sp_id s"
        using eq by (auto simp: to_create_def item_slot_def link_of_item_def)
      from e'(1) obtain s' x' where s': "s' \<in> set (selected_steps keys (tr_steps ?t))" "e' = plan_item ?t s' x'"
        unfolding planned_mem [OF p] by blast
      have "s' \<in> set (roadmap_steps pl r)" using s'(1) selected_subset by fastforce
      then have "s' = s" using id_unique [OF roadmap_rows_wf(2) [OF wf]] mem e'(3) s'(2) by auto
      with e'(2) closed show False unfolding s'(2) plan_item_create by simp
    qed
    from tree_state_kept [OF same links tasks valid this] closed open'(1) show False by simp
  qed
  then show ?thesis by (simp add: to_create_def filter_empty_conv)
qed

text \<open>Hydration is idempotent: once an apply succeeded, hydrating the same steps
  again, by whoever and whenever, creates nothing and leaves the database exactly as the first
  apply left it - no task, no link, no event.\<close>

theorem hydration_idempotent:
  assumes "tables_wf pl" and "links_to_tasks pl" and "fresh_task_ids ids pl" and "fresh_task_ids ids' pl'"
    and "apply_hydration pl p now ids i payload = (pl', Inr res)"
    and "apply_hydration pl' p' now' ids' i payload' = (pl'', Inr res')"
    and "ha_step_keys payload' = ha_step_keys payload"
  shows "pl'' = pl' \<and> hc_create (hy_counts res') = 0"
proof -
  from apply_hydration_cases [OF assms(5)] obtain r prov planned pl1 items where
    r: "get_roadmap_row pl i = Some r"
    and planned: "plan_hydration (load_tree pl r) (ha_step_keys payload) = Inr planned"
    and run: "apply_items pl p now ids 0 r prov planned = Inr (pl1, items)"
    and pl': "pl' = finish_result pl1 p now (pi_event ids) r prov
      (if hc_create (hy_counts res) > 0 then [hydrated_event r (hy_counts res)] else [])" by metis
  from apply_hydration_cases [OF assms(6)] obtain r' prov' planned' pl2 items' where
    r': "get_roadmap_row pl' i = Some r'"
    and planned': "plan_hydration (load_tree pl' r') (ha_step_keys payload) = Inr planned'"
    and run': "apply_items pl' p' now' ids' 0 r' prov' planned' = Inr (pl2, items')"
    and res': "res' = hydration_result_of r' items' True"
    and pl'': "pl'' = finish_result pl2 p' now' (pi_event ids') r' prov'
      (if hc_create (hy_counts res') > 0 then [hydrated_event r' (hy_counts res')] else [])"
    unfolding assms(7) by metis
  have fresh: "inj (pi_task ids)" "\<And>k. 0 \<le> k \<Longrightarrow> pi_task ids k \<notin> t_id ` set (db_tasks (pl_db pl))"
    and fresh': "inj (pi_task ids')" "\<And>k. 0 \<le> k \<Longrightarrow> pi_task ids' k \<notin> t_id ` set (db_tasks (pl_db pl'))"
    using assms(3,4) by (simp_all add: fresh_task_ids_def)
  from apply_items_effect [OF run fresh] obtain ts ls where eff:
    "db_tasks (pl_db pl1) = db_tasks (pl_db pl) @ ts" "pl_links pl1 = pl_links pl @ ls"
    "map link_of_item ls = map item_slot (to_create planned)" "same_plan pl pl1" by blast
  have same: "same_plan pl pl'" and links: "pl_links pl' = pl_links pl @ ls"
    and tasks: "db_tasks (pl_db pl') = db_tasks (pl_db pl) @ ts"
    using eff by (simp_all add: pl' same_plan_def)
  have "r' = r" using r r' same by (simp add: get_roadmap_row_def same_plan_def)
  then have none: "to_create planned' = []"
    using nothing_left_to_create [OF assms(1,2) same links tasks eff(3) planned] planned' by blast
  from apply_items_effect [OF run' fresh'] none
  have "pl2 = pl'" "map hi_action items' = map (\<lambda>e. hi_action (pn_item e)) planned'" by blast+
  moreover have "hc_create (hy_counts res') = 0"
    using calculation(2) actions_to_create [of planned'] none
    by (simp add: res' hydration_result_of_def Let_def count_hydration_def)
  ultimately show ?thesis by (simp add: pl'')
qed

end
