(* ===== verification/Plan_Invariant.thy ===== *)
theory Plan_Invariant
  imports Hydration_Laws
begin

section \<open>The invariant of the plan tables\<close>

text \<open>
  Every operation of the roadmap services keeps the plan well formed: one row per key, at most
  one active roadmap per project, every row owned by its roadmap, steps inside phases of their
  roadmap, acyclic dependencies inside one roadmap, and one revision per number. \<open>plan_step\<close>
  is one request of any kind; the invariant holds in every reachable database.
\<close>

definition one_active :: "roadmap_row list \<Rightarrow> bool" where
  "one_active rs \<longleftrightarrow> (\<forall>a \<in> set rs. \<forall>b \<in> set rs.
     rm_status a = RS_ACTIVE \<longrightarrow> rm_status b = RS_ACTIVE \<longrightarrow> rm_project_id a = rm_project_id b \<longrightarrow> rm_id a = rm_id b)"

definition revision_slot :: "revision_row \<Rightarrow> uuid \<times> int" where
  "revision_slot v = (rn_roadmap_id v, rn_revision_no v)"

definition plan_wf :: "plan_db \<Rightarrow> bool" where
  "plan_wf pl \<longleftrightarrow> tbl_wf rm_id (pl_roadmaps pl) \<and> one_active (pl_roadmaps pl) \<and>
     tbl_wf rn_id (pl_revisions pl) \<and> tbl_wf revision_slot (pl_revisions pl) \<and>
     rows_owned pl \<and> tables_wf pl \<and>
     (\<forall>v \<in> set (pl_revisions pl). pred_option sound_plan (rn_content v))"

subsection \<open>What the invariant depends on\<close>

definition roadmap_head :: "roadmap_row \<Rightarrow> uuid \<times> uuid \<times> roadmap_status" where
  "roadmap_head r = (rm_id r, rm_project_id r, rm_status r)"

definition phase_head :: "phase_row \<Rightarrow> uuid \<times> uuid \<times> string" where
  "phase_head p = (ph_id p, ph_roadmap_id p, ph_key p)"

definition step_head :: "step_row \<Rightarrow> uuid \<times> uuid \<times> uuid \<times> string" where
  "step_head s = (sp_id s, sp_roadmap_id s, sp_phase_id s, sp_key s)"

definition revision_head :: "revision_row \<Rightarrow> uuid \<times> uuid \<times> int \<times> roadmap_document option" where
  "revision_head v = (rn_id v, rn_roadmap_id v, rn_revision_no v, rn_content v)"

lemma head_fields:
  "rm_id = fst \<circ> roadmap_head" "rm_project_id = (\<lambda>h. fst (snd h)) \<circ> roadmap_head"
  "rm_status = (\<lambda>h. snd (snd h)) \<circ> roadmap_head"
  "ph_id = fst \<circ> phase_head" "ph_roadmap_id = (\<lambda>h. fst (snd h)) \<circ> phase_head" "phase_slot = snd \<circ> phase_head"
  "sp_id = fst \<circ> step_head" "sp_roadmap_id = (\<lambda>h. fst (snd h)) \<circ> step_head"
  "sp_phase_id = (\<lambda>h. fst (snd (snd h))) \<circ> step_head"
  "step_slot = (\<lambda>h. (fst (snd h), snd (snd (snd h)))) \<circ> step_head"
  "rn_id = fst \<circ> revision_head" "revision_slot = (\<lambda>h. (fst (snd h), fst (snd (snd h)))) \<circ> revision_head"
  "rn_roadmap_id = (\<lambda>h. fst (snd h)) \<circ> revision_head"
  by (simp_all add: fun_eq_iff roadmap_head_def phase_head_def step_head_def revision_head_def phase_slot_def
      step_slot_def revision_slot_def)

lemma tbl_wf_head: "map h xs = map h ys \<Longrightarrow> tbl_wf (f \<circ> h) xs = tbl_wf (f \<circ> h) ys"
  unfolding tbl_wf_def by (metis map_map)

lemma one_active_head:
  assumes "map roadmap_head xs = map roadmap_head ys" shows "one_active xs = one_active ys"
proof -
  have chr: "one_active zs \<longleftrightarrow> (\<forall>a \<in> roadmap_head ` set zs. \<forall>b \<in> roadmap_head ` set zs.
      snd (snd a) = RS_ACTIVE \<longrightarrow> snd (snd b) = RS_ACTIVE \<longrightarrow> fst (snd a) = fst (snd b) \<longrightarrow> fst a = fst b)" for zs
    by (simp add: one_active_def roadmap_head_def)
  have "roadmap_head ` set xs = roadmap_head ` set ys" using assms by (metis image_set)
  then show ?thesis unfolding chr by (simp only:)
qed

lemma tables_wf_head:
  assumes p: "map phase_head (pl_phases pl') = map phase_head (pl_phases pl)"
    and s: "map step_head (pl_steps pl') = map step_head (pl_steps pl)" and d: "pl_deps pl' = pl_deps pl"
  shows "tables_wf pl' = tables_wf pl"
proof -
  have P: "phase_head ` set (pl_phases pl') = phase_head ` set (pl_phases pl)"
    and S: "step_head ` set (pl_steps pl') = step_head ` set (pl_steps pl)"
    using p s by (metis image_set)+
  have chr: "steps_placed q \<longleftrightarrow> (\<forall>s \<in> step_head ` set (pl_steps q). \<exists>p \<in> phase_head ` set (pl_phases q).
      fst p = fst (snd (snd s)) \<and> fst (snd p) = fst (snd s))" for q
    by (simp add: steps_placed_def phase_head_def step_head_def)
  have placed: "steps_placed pl' = steps_placed pl" unfolding chr P S by (rule refl)
  have chr2: "step_in q rid i \<longleftrightarrow> (\<exists>s \<in> step_head ` set (pl_steps q). fst s = i \<and> fst (snd s) = rid)" for q rid i
    by (simp add: step_in_def step_head_def)
  have "step_in pl' = step_in pl" unfolding fun_eq_iff chr2 S by simp
  moreover have "tbl_wf ph_id (pl_phases pl') = tbl_wf ph_id (pl_phases pl)"
    "tbl_wf phase_slot (pl_phases pl') = tbl_wf phase_slot (pl_phases pl)"
    "tbl_wf sp_id (pl_steps pl') = tbl_wf sp_id (pl_steps pl)"
    "tbl_wf step_slot (pl_steps pl') = tbl_wf step_slot (pl_steps pl)"
    using tbl_wf_head [OF p] tbl_wf_head [OF s] by (simp_all only: head_fields)
  ultimately show ?thesis using d placed by (simp add: tables_wf_def deps_inside_def)
qed

lemma rows_owned_head:
  assumes "map roadmap_head (pl_roadmaps pl') = map roadmap_head (pl_roadmaps pl)"
    and "map phase_head (pl_phases pl') = map phase_head (pl_phases pl)"
    and "map revision_head (pl_revisions pl') = map revision_head (pl_revisions pl)"
  shows "rows_owned pl' = rows_owned pl"
proof -
  have chr: "rows_owned q \<longleftrightarrow> (\<forall>p \<in> phase_head ` set (pl_phases q). fst (snd p) \<in> fst ` roadmap_head ` set (pl_roadmaps q)) \<and>
      (\<forall>v \<in> revision_head ` set (pl_revisions q). fst (snd v) \<in> fst ` roadmap_head ` set (pl_roadmaps q))" for q
    by (simp add: rows_owned_def phase_head_def revision_head_def roadmap_head_def image_image)
  have "roadmap_head ` set (pl_roadmaps pl') = roadmap_head ` set (pl_roadmaps pl)"
    "phase_head ` set (pl_phases pl') = phase_head ` set (pl_phases pl)"
    "revision_head ` set (pl_revisions pl') = revision_head ` set (pl_revisions pl)"
    using assms by (metis image_set)+
  then show ?thesis unfolding chr by (simp only:)
qed

lemma plan_wf_head:
  assumes "map roadmap_head (pl_roadmaps pl') = map roadmap_head (pl_roadmaps pl)"
    and "map phase_head (pl_phases pl') = map phase_head (pl_phases pl)"
    and "map step_head (pl_steps pl') = map step_head (pl_steps pl)" and "pl_deps pl' = pl_deps pl"
    and "map revision_head (pl_revisions pl') = map revision_head (pl_revisions pl)"
  shows "plan_wf pl' = plan_wf pl"
proof -
  have chr: "(\<forall>v \<in> set (pl_revisions q). pred_option sound_plan (rn_content v))
      \<longleftrightarrow> (\<forall>h \<in> revision_head ` set (pl_revisions q). pred_option sound_plan (snd (snd (snd h))))" for q
    by (simp add: revision_head_def)
  have "revision_head ` set (pl_revisions pl') = revision_head ` set (pl_revisions pl)"
    using assms(5) by (metis image_set)
  then have "(\<forall>v \<in> set (pl_revisions pl'). pred_option sound_plan (rn_content v))
      = (\<forall>v \<in> set (pl_revisions pl). pred_option sound_plan (rn_content v))"
    unfolding chr by (simp only:)
  then show ?thesis
    using tables_wf_head [OF assms(2-4)] rows_owned_head [OF assms(1,2,5)] one_active_head [OF assms(1)]
      tbl_wf_head [OF assms(1), of fst] tbl_wf_head [OF assms(5), of fst]
      tbl_wf_head [OF assms(5), of "\<lambda>h. (fst (snd h), fst (snd (snd h)))"]
    by (simp add: plan_wf_def head_fields(1,11,12))
qed

lemma tbl_put_head:
  assumes "tbl_get key rs (key x) = Some y" and "h y = h x"
  shows "map h (tbl_put key x rs) = map h rs"
  using assms by (induction rs) (auto split: if_splits)

lemma fold_put_head:
  assumes "\<And>x. x \<in> set rows \<Longrightarrow> \<exists>y. tbl_get key rs (key x) = Some y \<and> h y = h x"
  shows "map h (fold (tbl_put key) rows rs) = map h rs"
  using assms
proof (induction rows arbitrary: rs)
  case (Cons x xs)
  obtain y where y: "tbl_get key rs (key x) = Some y" "h y = h x" using Cons.prems by auto
  have "\<exists>y. tbl_get key (tbl_put key x rs) (key z) = Some y \<and> h y = h z" if z: "z \<in> set xs" for z
  proof (cases "key z = key x")
    case True
    obtain w where "tbl_get key rs (key z) = Some w" "h w = h z" using Cons.prems z by auto
    with True y show ?thesis by simp
  qed (use Cons.prems z in auto)
  then have "map h (fold (tbl_put key) xs (tbl_put key x rs)) = map h (tbl_put key x rs)" by (rule Cons.IH)
  with tbl_put_head [OF y] show ?case by simp
qed simp


subsection \<open>Shared endings\<close>

lemma plan_wf_db [simp]: "plan_wf (pl\<lparr>pl_db := d\<rparr>) = plan_wf pl"
  by (rule plan_wf_head) simp_all

lemma plan_wf_links [simp]: "plan_wf (pl\<lparr>pl_links := ls\<rparr>) = plan_wf pl"
  by (rule plan_wf_head) simp_all

lemma plan_wf_finish_result [simp]: "plan_wf (finish_result pl p now e r prov evs) = plan_wf pl"
  by (rule plan_wf_head) simp_all

lemma plan_wf_finish [simp]: "plan_wf (fst (finish pl p now e r prov evs)) = plan_wf pl"
  by (simp add: finish_def Let_def)

lemma plan_wf_put_roadmap:
  assumes "get_roadmap_row pl (rm_id r) = Some r0" and "roadmap_head r0 = roadmap_head r"
  shows "plan_wf (put_roadmap r pl) = plan_wf pl"
  by (rule plan_wf_head) (use assms in \<open>simp_all add: get_roadmap_row_def tbl_put_head\<close>)

lemma next_revision_no_above:
  assumes "v \<in> set (pl_revisions pl)" "rn_roadmap_id v = rm_id r"
  shows "rn_revision_no v < next_revision_no pl r"
proof -
  have le: "x \<le> fold max ns n" if "x \<in> set (n # ns)" for x n :: int and ns
    using Max.set_eq_fold [of n ns] Max_ge [OF finite_set that] by simp
  have mem: "rn_revision_no v \<in> set (map rn_revision_no (revisions_of pl (rm_id r)))"
    using assms by (auto simp: revisions_of_def)
  show ?thesis
  proof (cases "map rn_revision_no (revisions_of pl (rm_id r))")
    case (Cons n ns)
    with le [of "rn_revision_no v" n ns] mem show ?thesis by (simp add: next_revision_no_def)
  qed (use mem in simp)
qed

lemma tbl_wf_snoc: "tbl_wf key (xs @ [x]) \<longleftrightarrow> tbl_wf key xs \<and> key x \<notin> key ` set xs"
  by (auto simp: tbl_wf_def)

lemma plan_wf_new_revision:
  assumes wf: "plan_wf pl" and id: "rn_id v \<notin> rn_id ` set (pl_revisions pl)"
    and slot: "\<And>w. w \<in> set (pl_revisions pl) \<Longrightarrow> rn_roadmap_id w = rn_roadmap_id v \<Longrightarrow> rn_revision_no w \<noteq> rn_revision_no v"
    and own: "rn_roadmap_id v \<in> rm_id ` set (pl_roadmaps pl)" and content: "pred_option sound_plan (rn_content v)"
  shows "plan_wf (put_revision v pl)"
proof -
  have "revision_slot v \<notin> revision_slot ` set (pl_revisions pl)"
    using slot by (fastforce simp: revision_slot_def)
  then have "tbl_wf rn_id (pl_revisions (put_revision v pl))" "tbl_wf revision_slot (pl_revisions (put_revision v pl))"
    using wf id by (simp_all add: plan_wf_def tbl_put_new tbl_wf_snoc)
  moreover have "tables_wf (put_revision v pl)"
    using wf tables_wf_cong [of "put_revision v pl" pl] by (simp add: plan_wf_def)
  moreover have "rows_owned (put_revision v pl)"
    using wf own id by (simp add: plan_wf_def rows_owned_def tbl_put_new)
  moreover have "\<forall>w \<in> set (pl_revisions (put_revision v pl)). pred_option sound_plan (rn_content w)"
    using wf content id by (simp add: plan_wf_def tbl_put_new)
  ultimately show ?thesis using wf by (simp add: plan_wf_def)
qed

lemma plan_wf_put_revision_same:
  assumes "v0 \<in> set (pl_revisions pl)" and "plan_wf pl" and "revision_head v0 = revision_head v"
  shows "plan_wf (put_revision v pl)"
proof -
  have "rn_id v0 = rn_id v" using assms(3) by (simp add: revision_head_def)
  then have "tbl_get rn_id (pl_revisions pl) (rn_id v) = Some v0"
    using assms(1,2) tbl_get_of_mem [of rn_id "pl_revisions pl" v0] by (simp add: plan_wf_def)
  with assms(2,3) show ?thesis
    using plan_wf_head [of "put_revision v pl" pl] by (simp add: tbl_put_head)
qed

text \<open>The roadmap a handler holds is the stored one, up to columns the invariant ignores.\<close>

definition held :: "plan_db \<Rightarrow> roadmap_row \<Rightarrow> bool" where
  "held pl r \<longleftrightarrow> (\<exists>r0. get_roadmap_row pl (rm_id r) = Some r0 \<and> roadmap_head r0 = roadmap_head r)"

lemma held_get: "get_roadmap_row pl i = Some r \<Longrightarrow> held pl r"
  using get_roadmap_row_id by (auto simp: held_def)

lemma held_put: "rm_id r' = rm_id r \<Longrightarrow> roadmap_head r' = roadmap_head r \<Longrightarrow> held (put_roadmap r' pl) r"
  by (simp add: held_def get_roadmap_row_def)

lemma held_owned: "held pl r \<Longrightarrow> rm_id r \<in> rm_id ` set (pl_roadmaps pl)"
  unfolding held_def get_roadmap_row_def by (metis imageI tbl_get_key tbl_get_mem)

lemma plan_wf_put_held [simp]: "held pl r \<Longrightarrow> plan_wf (put_roadmap r pl) = plan_wf pl"
  using plan_wf_put_roadmap by (auto simp: held_def)

lemma held_same: "held pl r \<Longrightarrow> roadmap_head r' = roadmap_head r \<Longrightarrow> held pl r'"
  by (auto simp: held_def roadmap_head_def)

lemma plan_wf_snapshot:
  assumes "plan_wf pl" "held pl r" "i \<notin> rn_id ` set (pl_revisions pl)"
  shows "plan_wf (fst (record_snapshot pl i r prov)) \<and> roadmap_head (snd (record_snapshot pl i r prov)) = roadmap_head r"
proof -
  let ?r' = "r\<lparr>rm_revision_no := next_revision_no pl r, rm_approved_revision_no := Some (next_revision_no pl r)\<rparr>"
  have head: "roadmap_head ?r' = roadmap_head r" by (simp add: roadmap_head_def)
  have wf: "plan_wf (put_roadmap ?r' pl)" using assms(1,2) held_same [OF _ head] by simp
  have ne: "rn_revision_no w \<noteq> next_revision_no pl r"
    if "w \<in> set (pl_revisions pl)" "rn_roadmap_id w = rm_id r" for w
    using next_revision_no_above [OF that] by simp
  have "plan_wf (put_revision (new_revision i ?r' prov RK_SNAPSHOT (next_revision_no pl r) doc None None None)
      (put_roadmap ?r' pl))" if "sound_plan doc" for doc
    by (rule plan_wf_new_revision [OF wf])
      (use assms(3) ne held_owned [OF held_put [of ?r' ?r']] that in
        \<open>auto simp: new_revision_def\<close>)
  moreover have "tables_wf (put_roadmap ?r' pl)" using wf by (simp add: plan_wf_def)
  ultimately show ?thesis by (simp add: record_snapshot_def Let_def head exported_sound)
qed

lemma plan_wf_changed:
  assumes "plan_wf pl" "held pl r" "pi_revision ids \<notin> rn_id ` set (pl_revisions pl)"
  shows "plan_wf (fst (changed_and_finished pl p now ids r prov entity key))"
proof -
  let ?r1 = "r\<lparr>rm_version := rm_version r + 1\<rparr>"
  have head: "roadmap_head ?r1 = roadmap_head r" by (simp add: roadmap_head_def)
  have wf: "plan_wf (put_roadmap ?r1 pl)" using assms(1,2) held_same [OF _ head] by simp
  have "held (put_roadmap ?r1 pl) ?r1" by (rule held_put) simp_all
  with plan_wf_snapshot [OF wf this, of "pi_revision ids" prov] assms(3) wf show ?thesis
    by (auto simp: changed_and_finished_def content_changed_def Let_def case_prod_unfold)
qed

subsection \<open>Guards keep\<close>

lemma on_ok_keeps: "P d \<Longrightarrow> (\<And>x. r = Inr x \<Longrightarrow> P (fst (k x))) \<Longrightarrow> P (fst (on_ok r d k))"
  by (cases r) simp_all

lemma guarded_keeps: "P d \<Longrightarrow> (g = Inr () \<Longrightarrow> P (fst k)) \<Longrightarrow> P (fst (guarded g d k))"
  by (cases g) simp_all

lemma open_roadmap_cases:
  assumes "open_roadmap pl p i kind declared expected = Inr x"
  obtains r prov where "x = (r, prov, load_tree pl r)" and "get_roadmap_row pl i = Some r"
  using assms by (auto simp: open_roadmap_def and_get_eq_Inr lock_roadmap_def)

lemma open_keeps:
  assumes "P pl" and "\<And>r prov. get_roadmap_row pl i = Some r \<Longrightarrow> P (fst (k (r, prov, load_tree pl r)))"
  shows "P (fst (on_ok (open_roadmap pl p i kind declared expected) pl k))"
proof (rule on_ok_keeps [where P = P])
  show "P (fst (k x))" if "open_roadmap pl p i kind declared expected = Inr x" for x
    by (rule open_roadmap_cases [OF that]) (simp add: assms(2))
qed (rule assms(1))


subsection \<open>Changes of phases and steps\<close>

lemma plan_wfD:
  assumes "plan_wf pl"
  shows "tbl_wf ph_id (pl_phases pl)" "tbl_wf sp_id (pl_steps pl)" "tables_wf pl" "rows_owned pl"
    "tbl_wf rm_id (pl_roadmaps pl)"
  using assms by (simp_all add: plan_wf_def tables_wf_def)

lemma plan_wf_put_phases:
  assumes "plan_wf pl" and "\<And>x. x \<in> set rows \<Longrightarrow> \<exists>y \<in> set (pl_phases pl). phase_head y = phase_head x"
  shows "plan_wf (fold put_phase rows pl)"
proof -
  have "\<exists>y. tbl_get ph_id (pl_phases pl) (ph_id x) = Some y \<and> phase_head y = phase_head x" if x: "x \<in> set rows" for x
  proof -
    obtain y where y: "y \<in> set (pl_phases pl)" "phase_head y = phase_head x" using assms(2) [OF x] by blast
    then have "ph_id y = ph_id x" by (simp add: phase_head_def)
    then show ?thesis using tbl_get_of_mem [OF plan_wfD(1) [OF assms(1)] y(1)] y(2) by auto
  qed
  then have "map phase_head (fold (tbl_put ph_id) rows (pl_phases pl)) = map phase_head (pl_phases pl)"
    by (rule fold_put_head)
  then show ?thesis using assms(1) plan_wf_head [of "fold put_phase rows pl" pl] by (simp add: fold_put_phase)
qed

lemma plan_wf_put_steps:
  assumes "plan_wf pl" and "\<And>x. x \<in> set rows \<Longrightarrow> \<exists>y \<in> set (pl_steps pl). step_head y = step_head x"
  shows "plan_wf (fold put_step rows pl)"
proof -
  have "\<exists>y. tbl_get sp_id (pl_steps pl) (sp_id x) = Some y \<and> step_head y = step_head x" if x: "x \<in> set rows" for x
  proof -
    obtain y where y: "y \<in> set (pl_steps pl)" "step_head y = step_head x" using assms(2) [OF x] by blast
    then have "sp_id y = sp_id x" by (simp add: step_head_def)
    then show ?thesis using tbl_get_of_mem [OF plan_wfD(2) [OF assms(1)] y(1)] y(2) by auto
  qed
  then have "map step_head (fold (tbl_put sp_id) rows (pl_steps pl)) = map step_head (pl_steps pl)"
    by (rule fold_put_head)
  then show ?thesis using assms(1) plan_wf_head [of "fold put_step rows pl" pl] by (simp add: fold_put_step)
qed

lemma plan_wf_put_phase:
  "plan_wf pl \<Longrightarrow> y \<in> set (pl_phases pl) \<Longrightarrow> phase_head y = phase_head x \<Longrightarrow> plan_wf (put_phase x pl)"
  using plan_wf_put_phases [of pl "[x]"] by auto

lemma plan_wf_put_step:
  "plan_wf pl \<Longrightarrow> y \<in> set (pl_steps pl) \<Longrightarrow> step_head y = step_head x \<Longrightarrow> plan_wf (put_step x pl)"
  using plan_wf_put_steps [of pl "[x]"] by auto

lemma plan_wf_reposition_phases:
  assumes "plan_wf pl" and "\<And>x. x \<in> set rows \<Longrightarrow> \<exists>y \<in> set (pl_phases pl). phase_head y = phase_head x"
  shows "plan_wf (reposition_phases rows pl)"
  unfolding reposition_phases_def
proof (rule plan_wf_put_phases [OF assms(1)])
  fix x assume "x \<in> set (map (\<lambda>(i, r). r\<lparr>ph_position := i\<rparr>) (enumerate 0 rows))"
  then obtain r i where ir: "(i, r) \<in> set (enumerate 0 rows)" and x: "x = r\<lparr>ph_position := i\<rparr>" by auto
  from ir have "r \<in> set rows" by (auto simp: in_set_enumerate_eq)
  then show "\<exists>y \<in> set (pl_phases pl). phase_head y = phase_head x" using assms(2) [of r] x by (simp add: phase_head_def)
qed

lemma plan_wf_reposition_steps:
  assumes "plan_wf pl" and "\<And>x. x \<in> set rows \<Longrightarrow> \<exists>y \<in> set (pl_steps pl). step_head y = step_head x"
  shows "plan_wf (reposition_steps rows pl)"
  unfolding reposition_steps_def
proof (rule plan_wf_put_steps [OF assms(1)])
  fix x assume "x \<in> set (map (\<lambda>(i, r). r\<lparr>sp_position := i\<rparr>) (enumerate 0 rows))"
  then obtain r i where ir: "(i, r) \<in> set (enumerate 0 rows)" and x: "x = r\<lparr>sp_position := i\<rparr>" by auto
  from ir have "r \<in> set rows" by (auto simp: in_set_enumerate_eq)
  then show "\<exists>y \<in> set (pl_steps pl). step_head y = step_head x" using assms(2) [of r] x by (simp add: step_head_def)
qed

lemma plan_wf_new_phase:
  assumes wf: "plan_wf pl" and "ph_id x \<notin> ph_id ` set (pl_phases pl)"
    and "phase_slot x \<notin> phase_slot ` set (pl_phases pl)" and "ph_roadmap_id x \<in> rm_id ` set (pl_roadmaps pl)"
  shows "plan_wf (put_phase x pl)"
  using assms
  by (auto simp: plan_wf_def tables_wf_def put_phase_def tbl_put_new tbl_wf_snoc rows_owned_def steps_placed_def
      deps_inside_def step_in_def)

lemma plan_wf_new_step:
  assumes wf: "plan_wf pl" and "sp_id x \<notin> sp_id ` set (pl_steps pl)"
    and "step_slot x \<notin> step_slot ` set (pl_steps pl)"
    and "q \<in> set (pl_phases pl)" "ph_id q = sp_phase_id x" "ph_roadmap_id q = sp_roadmap_id x"
  shows "plan_wf (put_step x pl)"
proof -
  have "pl_steps (put_step x pl) = pl_steps pl @ [x]" using assms(2) by (simp add: put_step_def tbl_put_new)
  moreover have "steps_placed (put_step x pl)"
    using assms(4-6) plan_wfD(3) [OF wf] calculation
    by (auto simp: steps_placed_def tables_wf_def put_step_def)
  ultimately show ?thesis
    using assms(1-3)
    by (auto simp: plan_wf_def tables_wf_def put_step_def tbl_wf_snoc rows_owned_def deps_inside_def step_in_def)
qed

lemma plan_wf_fewer:
  assumes wf: "plan_wf pl" and "pl_roadmaps pl' = pl_roadmaps pl" "pl_revisions pl' = pl_revisions pl"
    and phases: "pl_phases pl' = filter P (pl_phases pl)" and steps: "pl_steps pl' = filter Q (pl_steps pl)"
    and deps: "set (pl_deps pl') \<subseteq> set (pl_deps pl)"
    and placed: "\<And>s p. s \<in> set (pl_steps pl) \<Longrightarrow> Q s \<Longrightarrow> p \<in> set (pl_phases pl) \<Longrightarrow> ph_id p = sp_phase_id s \<Longrightarrow> P p"
    and kept: "\<And>e s. e \<in> set (pl_deps pl') \<Longrightarrow> s \<in> set (pl_steps pl) \<Longrightarrow>
      sp_id s = dp_step_id e \<or> sp_id s = dp_depends_on_step_id e \<Longrightarrow> Q s"
  shows "plan_wf pl'"
proof -
  have w: "tables_wf pl" "rows_owned pl" using wf by (simp_all add: plan_wf_def)
  have "steps_placed pl'"
    unfolding steps_placed_def
  proof
    fix s assume s: "s \<in> set (pl_steps pl')"
    then obtain p where "p \<in> set (pl_phases pl)" "ph_id p = sp_phase_id s" "ph_roadmap_id p = sp_roadmap_id s"
      using step_phase_exists [OF w(1)] steps by auto
    with s placed show "\<exists>p \<in> set (pl_phases pl'). ph_id p = sp_phase_id s \<and> ph_roadmap_id p = sp_roadmap_id s"
      by (auto simp: phases steps)
  qed
  moreover have "deps_inside pl'"
    unfolding deps_inside_def
  proof
    fix e assume e: "e \<in> set (pl_deps pl')"
    then have "step_in pl (dp_roadmap_id e) (dp_step_id e)" "step_in pl (dp_roadmap_id e) (dp_depends_on_step_id e)"
      using w(1) deps by (auto simp: tables_wf_def deps_inside_def)
    then show "step_in pl' (dp_roadmap_id e) (dp_step_id e) \<and> step_in pl' (dp_roadmap_id e) (dp_depends_on_step_id e)"
      using kept [OF e] unfolding step_in_def steps set_filter by blast
  qed
  moreover have "edges_of (pl_deps pl') \<subseteq> edges_of (pl_deps pl)" using deps by (auto simp: edges_of_def)
  then have "acyclic (edges_of (pl_deps pl'))" using w(1) by (auto simp: tables_wf_def intro: acyclic_subset)
  moreover have "rows_owned pl'" using w(2) assms(2,3) by (auto simp: rows_owned_def phases)
  ultimately show ?thesis using wf assms(2,3) by (auto simp: plan_wf_def tables_wf_def phases steps)
qed

lemma plan_wf_delete_steps: "plan_wf pl \<Longrightarrow> plan_wf (delete_steps gone pl)"
proof (rule plan_wf_fewer [where P = "\<lambda>_. True" and Q = "\<lambda>s. \<not> gone s"])
  fix e s assume "e \<in> set (pl_deps (delete_steps gone pl))" "s \<in> set (pl_steps pl)"
    "sp_id s = dp_step_id e \<or> sp_id s = dp_depends_on_step_id e"
  then show "\<not> gone s" by (force simp: delete_steps_def Let_def)
qed (auto simp: delete_steps_def Let_def)

lemma plan_wf_delete_phases:
  assumes "plan_wf pl" shows "plan_wf (delete_phases gone pl)"
proof -
  let ?in = "\<lambda>s. sp_phase_id s \<in> set (map ph_id (filter gone (pl_phases pl)))"
  have wf: "plan_wf (delete_steps ?in pl)" by (rule plan_wf_delete_steps [OF assms])
  have unplaced: "sp_phase_id s \<noteq> ph_id p"
    if "s \<in> set (pl_steps (delete_steps ?in pl))" "p \<in> set (pl_phases pl)" "gone p" for s p
    using that by auto
  have "plan_wf ((delete_steps ?in pl)\<lparr>pl_phases := filter (\<lambda>p. \<not> gone p) (pl_phases pl)\<rparr>)"
  proof (rule plan_wf_fewer [OF wf, where P = "\<lambda>p. \<not> gone p" and Q = "\<lambda>_. True"])
    fix s p assume "s \<in> set (pl_steps (delete_steps ?in pl))" "p \<in> set (pl_phases (delete_steps ?in pl))"
      "ph_id p = sp_phase_id s"
    then show "\<not> gone p" using unplaced [of s p] by auto
  qed simp_all
  then show ?thesis by (simp add: delete_phases_def Let_def)
qed

end
