(* ===== verification/Plan_Operations.thy ===== *)
theory Plan_Operations
  imports Plan_Invariant
begin

section \<open>Every roadmap operation keeps the invariant\<close>

text \<open>
  One lemma per operation: whatever the request, the database it commits is well formed when
  the one it found was. The identifiers the request draws are unused, as \<open>uuid4\<close> guarantees.
\<close>

subsection \<open>Phases and steps\<close>

lemma put_rows_frame [simp]:
  "pl_roadmaps (put_phase x pl) = pl_roadmaps pl" "pl_revisions (put_phase x pl) = pl_revisions pl"
  "pl_roadmaps (put_step y pl) = pl_roadmaps pl" "pl_revisions (put_step y pl) = pl_revisions pl"
  "pl_roadmaps (add_dependencies es pl) = pl_roadmaps pl" "pl_revisions (add_dependencies es pl) = pl_revisions pl"
  "pl_roadmaps (reposition_phases ps pl) = pl_roadmaps pl" "pl_revisions (reposition_phases ps pl) = pl_revisions pl"
  "pl_roadmaps (reposition_steps ss pl) = pl_roadmaps pl" "pl_revisions (reposition_steps ss pl) = pl_revisions pl"
  "pl_roadmaps (delete_phases gp pl) = pl_roadmaps pl" "pl_revisions (delete_phases gp pl) = pl_revisions pl"
  by (simp_all add: put_phase_def put_step_def add_dependencies_def reposition_phases_def reposition_steps_def
      fold_put_phase fold_put_step delete_phases_def Let_def)

lemma changed_keeps:
  assumes "plan_wf pl1" and "pl_roadmaps pl1 = pl_roadmaps pl" and "pl_revisions pl1 = pl_revisions pl"
    and "get_roadmap_row pl i = Some r" and "roadmap_head r' = roadmap_head r" and "unused_ids ids pl"
  shows "plan_wf (fst (changed_and_finished pl1 p now ids r' prov entity key))"
proof (rule plan_wf_changed [OF assms(1)])
  have "held pl r'" using held_same [OF held_get [OF assms(4)]] assms(5) by simp
  then show "held pl1 r'" using assms(2) by (simp add: held_def get_roadmap_row_def)
  show "pi_revision ids \<notin> rn_id ` set (pl_revisions pl1)" using assms(3,6) by (simp add: unused_ids_def)
qed

lemma tree_row:
  assumes "tables_wf pl"
  shows "the_phase (load_tree pl r) k = Inr ph \<Longrightarrow> ph \<in> set (pl_phases pl) \<and> ph_roadmap_id ph = rm_id r"
    and "the_step (load_tree pl r) k = Inr s \<Longrightarrow> s \<in> set (pl_steps pl) \<and> sp_roadmap_id s = rm_id r \<and> sp_key s = k"
  by (auto simp: the_phase_def the_step_def phase_by_key_iff [OF assms] step_by_key_iff [OF assms])

lemma open_wf:
  assumes "plan_wf pl"
    and "\<And>r prov. get_roadmap_row pl i = Some r \<Longrightarrow> plan_wf (fst (k r prov (load_tree pl r)))"
  shows "plan_wf (fst (on_ok (open_roadmap pl p i kind declared expected) pl (\<lambda>(r, prov, t). k r prov t)))"
  by (rule open_keeps [where P = plan_wf]) (simp_all add: assms)

lemmas keeps = open_wf on_ok_keeps [where P = plan_wf] guarded_keeps [where P = plan_wf]

lemma no_phase_slot: "phase_by_key (load_tree pl r) k = None \<Longrightarrow> (rm_id r, k) \<notin> phase_slot ` set (pl_phases pl)"
  by (auto simp: phase_by_key_def find_None_iff phase_slot_def)

lemma no_step_slot: "step_by_key (load_tree pl r) k = None \<Longrightarrow> (rm_id r, k) \<notin> step_slot ` set (pl_steps pl)"
  by (auto simp: step_by_key_def find_None_iff step_slot_def)

lemma plan_wf_created_phase:
  assumes "plan_wf pl" "unused_ids ids pl" "get_roadmap_row pl i = Some r"
    and "phase_by_key (load_tree pl r) (pc_key c) = None"
  shows "plan_wf (put_phase (new_phase_row (pi_phase ids (pc_key c)) r prov n c) pl)"
  using assms no_phase_slot [OF assms(4)] held_owned [OF held_get [OF assms(3)]]
  by (intro plan_wf_new_phase) (simp_all add: new_phase_row_def unused_ids_def fresh_ids_def phase_slot_def)

lemma create_phase_wf:
  assumes wf: "plan_wf pl" and ids: "unused_ids ids pl"
  shows "plan_wf (fst (create_phase pl p now ids i payload))"
  unfolding create_phase_def Let_def
proof (intro keeps wf changed_keeps [where pl = pl])
  fix r prov assume r: "get_roadmap_row pl i = Some r"
    and g: "and_then (raise_if (phase_by_key (load_tree pl r) (cp_key payload) \<noteq> None) (duplicate_key ''key''))
       (raise_if (MAX_PHASES \<le> length (tr_phases (load_tree pl r))) (limit_exceeded ''phases'')) = Inr ()"
  show "plan_wf (put_phase (new_phase_row (pi_phase ids (cp_key payload)) r prov (length (tr_phases (load_tree pl r)))
      \<lparr>pc_key = cp_key payload, pc_title = cp_title payload, pc_objective = cp_objective payload, pc_steps = []\<rparr>) pl)"
    using plan_wf_created_phase [OF wf ids r, of "\<lparr>pc_key = cp_key payload, pc_title = cp_title payload,
      pc_objective = cp_objective payload, pc_steps = []\<rparr>"] g by simp
qed (simp_all add: ids)

lemma update_phase_wf:
  assumes wf: "plan_wf pl" and ids: "unused_ids ids pl"
  shows "plan_wf (fst (update_phase pl p now ids i key payload v))"
  unfolding update_phase_def
proof (intro keeps wf changed_keeps [where pl = pl])
  fix r prov ph assume "the_phase (load_tree pl r) key = Inr ph"
  then show "plan_wf (put_phase (ph\<lparr>ph_title := patch (ph_title ph) (up_title payload),
      ph_objective := patch_text (ph_objective ph) (up_objective payload), ph_version := ph_version ph + 1\<rparr>) pl)"
    using tree_row(1) [OF plan_wfD(3) [OF wf]]
    by (intro plan_wf_put_phase [OF wf, of ph]) (simp_all add: phase_head_def)
qed (simp_all add: ids)


lemma in_map_filter: "x \<in> set (List.map_filter f xs) \<longleftrightarrow> (\<exists>y \<in> set xs. f y = Some x)"
  by (induction xs) (auto simp: List.map_filter_simps split: option.splits)

lemma find_Some_mem: "find P xs = Some x \<Longrightarrow> x \<in> set xs"
  by (auto simp: find_Some_iff)

lemma reorder_phases_wf:
  assumes wf: "plan_wf pl" and ids: "unused_ids ids pl"
  shows "plan_wf (fst (reorder_phases pl p now ids i payload))"
  unfolding reorder_phases_def
proof (intro keeps wf changed_keeps [where pl = pl] plan_wf_reposition_phases)
  fix r x assume "x \<in> set (List.map_filter (phase_by_key (load_tree pl r)) (ro_ordered_keys payload))"
  then show "\<exists>y \<in> set (pl_phases pl). phase_head y = phase_head x"
    by (auto simp: in_map_filter phase_by_key_iff [OF plan_wfD(3) [OF wf]])
qed (simp_all add: ids)

lemma delete_phases_phases [simp]: "pl_phases (delete_phases gone pl) = filter (\<lambda>p. \<not> gone p) (pl_phases pl)"
  by (simp add: delete_phases_def Let_def)

lemma delete_phase_wf:
  assumes wf: "plan_wf pl" and ids: "unused_ids ids pl"
  shows "plan_wf (fst (delete_phase pl p now ids i key expected declared))"
  unfolding delete_phase_def
proof (intro keeps wf changed_keeps [where pl = pl] plan_wf_reposition_phases plan_wf_delete_phases)
  fix r ph x assume "x \<in> set (filter (\<lambda>o'. ph_id o' \<noteq> ph_id ph) (tr_phases (load_tree pl r)))"
  then show "\<exists>y \<in> set (pl_phases (delete_phases (\<lambda>o'. ph_id o' = ph_id ph) pl)). phase_head y = phase_head x"
    by auto
qed (simp_all add: ids)

lemma the_steps_rows:
  assumes "tables_wf pl" and "the_steps (load_tree pl r) ks = Inr ss" and "s \<in> set ss"
  shows "s \<in> set (pl_steps pl) \<and> sp_roadmap_id s = rm_id r"
  using assms(2,3) by (induction ks arbitrary: ss) (auto simp: and_get_eq_Inr dest: tree_row(2) [OF assms(1)])

lemma plan_wf_new_edges:
  assumes wf: "plan_wf pl" and new: "step_in pl rid n" and unused: "n \<notin> Field (edges_of (pl_deps pl))"
    and "\<And>s. s \<in> set ss \<Longrightarrow> step_in pl rid (sp_id s) \<and> sp_id s \<noteq> n"
  shows "plan_wf (add_dependencies (map (\<lambda>s. \<lparr>dp_step_id = n, dp_depends_on_step_id = sp_id s, dp_roadmap_id = rid\<rparr>) ss) pl)"
proof -
  let ?es = "map (\<lambda>s. \<lparr>dp_step_id = n, dp_depends_on_step_id = sp_id s, dp_roadmap_id = rid\<rparr>) ss"
  have edges: "edges_of (pl_deps pl @ ?es) = edges_of (pl_deps pl) \<union> {n} \<times> (sp_id ` set ss)"
    by (simp add: edges_of_def image_Un image_image) auto
  have "acyclic (edges_of (pl_deps pl) \<union> {n} \<times> (sp_id ` set ss))"
    by (rule acyclic_add_source)
      (use plan_wfD(3) [OF wf] unused assms(4) in \<open>auto simp: tables_wf_def Field_def\<close>)
  moreover have "deps_inside (add_dependencies ?es pl)"
    using plan_wfD(3) [OF wf] new assms(4)
    by (auto simp: tables_wf_def deps_inside_def add_dependencies_def step_in_def)
  ultimately show ?thesis
    using wf unfolding plan_wf_def tables_wf_def
    by (simp add: add_dependencies_def edges rows_owned_def steps_placed_def)
qed

lemma field_edges_in:
  assumes "tables_wf pl" and "n \<in> Field (edges_of (pl_deps pl))"
  shows "n \<in> sp_id ` set (pl_steps pl)"
proof -
  from assms(2) obtain e where e: "e \<in> set (pl_deps pl)" "n = dp_step_id e \<or> n = dp_depends_on_step_id e"
    by (auto simp: Field_def edges_of_def)
  then have "step_in pl (dp_roadmap_id e) n" using assms(1) by (auto simp: tables_wf_def deps_inside_def)
  then show ?thesis by (auto simp: step_in_def)
qed

lemma plan_wf_created_step:
  assumes wf: "plan_wf pl" and ids: "unused_ids ids pl" and r: "get_roadmap_row pl i = Some r"
    and none: "step_by_key (load_tree pl r) (sc_key c) = None"
    and ph: "ph \<in> set (pl_phases pl)" "ph_roadmap_id ph = rm_id r"
    and ss: "the_steps (load_tree pl r) (sc_depends_on c) = Inr ss"
  shows "plan_wf (add_dependencies (map (\<lambda>s. \<lparr>dp_step_id = pi_step ids (sc_key c), dp_depends_on_step_id = sp_id s,
      dp_roadmap_id = rm_id r\<rparr>) ss) (put_step (new_step_row (pi_step ids (sc_key c)) r (ph_id ph) prov n c) pl))"
proof -
  let ?row = "new_step_row (pi_step ids (sc_key c)) r (ph_id ph) prov n c"
  let ?pl = "put_step ?row pl"
  note w = plan_wfD(3) [OF wf]
  have fresh: "pi_step ids (sc_key c) \<notin> sp_id ` set (pl_steps pl)"
    using ids by (simp add: unused_ids_def fresh_ids_def)
  have wf1: "plan_wf ?pl"
    by (rule plan_wf_new_step [OF wf _ _ ph(1)])
      (use fresh no_step_slot [OF none] ph(2) in \<open>simp_all add: new_step_row_def step_slot_def\<close>)
  have steps: "pl_steps ?pl = pl_steps pl @ [?row]" "pl_deps ?pl = pl_deps pl"
    using fresh by (simp_all add: put_step_def tbl_put_new new_step_row_def)
  show ?thesis
  proof (rule plan_wf_new_edges [OF wf1])
    show "step_in ?pl (rm_id r) (pi_step ids (sc_key c))"
      unfolding step_in_def steps by (simp add: new_step_row_def)
    show "pi_step ids (sc_key c) \<notin> Field (edges_of (pl_deps ?pl))"
      using field_edges_in [OF w] fresh by (auto simp: steps)
    fix s assume "s \<in> set ss"
    then have "s \<in> set (pl_steps pl)" "sp_roadmap_id s = rm_id r" using the_steps_rows [OF w ss] by auto
    then show "step_in ?pl (rm_id r) (sp_id s) \<and> sp_id s \<noteq> pi_step ids (sc_key c)"
      using fresh by (intro conjI) (auto simp: step_in_def steps, metis imageI)
  qed
qed

lemma create_step_wf:
  assumes wf: "plan_wf pl" and ids: "unused_ids ids pl"
  shows "plan_wf (fst (create_step pl p now ids i phase_key payload))"
  unfolding create_step_def Let_def
proof (intro keeps wf changed_keeps [where pl = pl] plan_wf_created_step [OF wf ids])
  fix r prov ph assume "the_phase (load_tree pl r) phase_key = Inr ph"
  then show "ph \<in> set (pl_phases pl)" "ph_roadmap_id ph = rm_id r"
    using tree_row(1) [OF plan_wfD(3) [OF wf]] by auto
qed (simp_all add: ids)

lemma update_step_wf:
  assumes wf: "plan_wf pl" and ids: "unused_ids ids pl"
  shows "plan_wf (fst (update_step pl p now ids i key payload v))"
  unfolding update_step_def
proof (intro keeps wf changed_keeps [where pl = pl])
  fix r prov s assume "the_step (load_tree pl r) key = Inr s"
  then show "plan_wf (put_step (patched_step payload s) pl)"
    using tree_row(2) [OF plan_wfD(3) [OF wf]]
    by (intro plan_wf_put_step [OF wf, of s]) (simp_all add: step_head_def patched_step_def)
qed (simp_all add: ids)

lemma reorder_steps_wf:
  assumes wf: "plan_wf pl" and ids: "unused_ids ids pl"
  shows "plan_wf (fst (reorder_steps pl p now ids i phase_key payload))"
  unfolding reorder_steps_def Let_def
proof (intro keeps wf changed_keeps [where pl = pl] plan_wf_reposition_steps)
  fix r ph x
  assume "x \<in> set (List.map_filter (\<lambda>k. find (\<lambda>s. sp_key s = k) (steps_of (load_tree pl r) (ph_id ph))) (ro_ordered_keys payload))"
  then show "\<exists>y \<in> set (pl_steps pl). step_head y = step_head x"
    unfolding in_map_filter by (auto simp: steps_of_def dest!: find_Some_mem)
qed (simp_all add: ids)


lemma delete_step_wf:
  assumes wf: "plan_wf pl" and ids: "unused_ids ids pl"
  shows "plan_wf (fst (delete_step pl p now ids i key expected declared))"
  unfolding delete_step_def
proof (intro keeps wf changed_keeps [where pl = pl] plan_wf_reposition_steps plan_wf_delete_steps)
  fix r s x assume "x \<in> set (filter (\<lambda>o'. sp_id o' \<noteq> sp_id s) (steps_of (load_tree pl r) (sp_phase_id s)))"
  then show "\<exists>y \<in> set (pl_steps (delete_steps (\<lambda>o'. sp_id o' = sp_id s) pl)). step_head y = step_head x"
    by (auto simp: steps_of_def)
qed (simp_all add: ids)

subsection \<open>Progress and links\<close>

lemma plan_wf_touch:
  assumes wf: "plan_wf pl" and r: "get_roadmap_row pl i = Some r" and s: "s \<in> set (pl_steps pl)"
    and "step_head s = step_head s'" and "roadmap_head r = roadmap_head r'"
  shows "plan_wf (put_roadmap r' (put_step s' pl))"
proof -
  have "plan_wf (put_step s' pl)" by (rule plan_wf_put_step [OF wf s assms(4)])
  moreover have "held (put_step s' pl) r'"
    using held_same [OF held_get [OF r]] assms(5) by (simp add: held_def get_roadmap_row_def)
  ultimately show ?thesis by simp
qed

lemma progressed_head: "step_head (progressed_step u s) = step_head s"
  by (simp add: progressed_step_def step_head_def Let_def split: option.splits)

lemma touched_head: "step_head (touched s) = step_head s"
  by (simp add: touched_def step_head_def)

lemma bumped_head: "roadmap_head (r\<lparr>rm_version := v\<rparr>) = roadmap_head r"
  by (simp add: roadmap_head_def)

lemma update_step_progress_wf:
  assumes wf: "plan_wf pl"
  shows "plan_wf (fst (update_step_progress pl p now ids i key payload v))"
  unfolding update_step_progress_def Let_def
proof (intro keeps wf, unfold plan_wf_finish)
  fix r prov s assume r: "get_roadmap_row pl i = Some r" and "the_step (load_tree pl r) key = Inr s"
  then show "plan_wf (put_roadmap (if override_moved payload s then r\<lparr>rm_version := rm_version r + 1\<rparr> else r)
      (put_step (progressed_step payload s) pl))"
    using tree_row(2) [OF plan_wfD(3) [OF wf]]
    by (intro plan_wf_touch [OF wf r, of s]) (simp_all add: progressed_head bumped_head)
qed

lemma link_task_wf:
  assumes wf: "plan_wf pl"
  shows "plan_wf (fst (link_task pl p now ids i key task_id declared))"
proof -
  have linked: "plan_wf (put_roadmap (r\<lparr>rm_version := rm_version r + 1\<rparr>) (put_step (touched s) (add_link l pl)))"
    if r: "get_roadmap_row pl i = Some r" and s: "the_step (load_tree pl r) key = Inr s" for r s l
  proof (rule plan_wf_touch [where s = s])
    show "plan_wf (add_link l pl)" using wf plan_wf_head [of "add_link l pl" pl] by (simp add: add_link_def)
    show "s \<in> set (pl_steps (add_link l pl))"
      using tree_row(2) [OF plan_wfD(3) [OF wf] s] by (simp add: add_link_def)
    show "get_roadmap_row (add_link l pl) i = Some r" using r by (simp add: add_link_def get_roadmap_row_def)
  qed (simp_all add: touched_head bumped_head)
  show ?thesis
    unfolding link_task_def Let_def
    by (intro keeps wf) (simp add: wf, intro impI keeps wf, simp add: linked)
qed

lemma unlink_task_wf:
  assumes wf: "plan_wf pl"
  shows "plan_wf (fst (unlink_task pl p now ids i key task_id declared))"
proof -
  have unlinked: "plan_wf (put_roadmap (r\<lparr>rm_version := rm_version r + 1\<rparr>) (put_step (touched s) (pl\<lparr>pl_links := ls\<rparr>)))"
    if r: "get_roadmap_row pl i = Some r" and s: "the_step (load_tree pl r) key = Inr s" for r s ls
    by (rule plan_wf_touch [where s = s and i = i and r = r])
      (use wf r tree_row(2) [OF plan_wfD(3) [OF wf] s] in
        \<open>simp_all add: touched_head bumped_head get_roadmap_row_def\<close>)
  show ?thesis
    unfolding unlink_task_def Let_def
    by (intro keeps wf) (simp add: wf unlinked)
qed

subsection \<open>Dependencies\<close>

lemma acyclic_image:
  assumes "acyclic S" and "\<And>a b. (a, b) \<in> R \<Longrightarrow> (f a, f b) \<in> S"
  shows "acyclic R"
proof (rule acyclicI, intro allI notI)
  have "(a, b) \<in> R\<^sup>+ \<Longrightarrow> (f a, f b) \<in> S\<^sup>+" for a b
    by (induction rule: trancl_induct) (auto intro: assms(2) trancl_into_trancl)
  then show "(x, x) \<in> R\<^sup>+ \<Longrightarrow> False" for x using assms(1) by (auto simp: acyclic_def)
qed

lemma tree_edges_key:
  assumes w: "tables_wf pl" and "(a, b) \<in> own_edges pl (rm_id r)"
  shows "\<exists>s \<in> set (roadmap_steps pl r). sp_id s = a \<and> key_of (load_tree pl r) a = sp_key s \<and>
    key_of (load_tree pl r) b \<in> set (depends_on_keys (load_tree pl r) s) \<and>
    key_of (load_tree pl r) b \<in> sp_key ` set (roadmap_steps pl r)"
proof -
  from assms(2) obtain e where e: "e \<in> set (pl_deps pl)" "dp_roadmap_id e = rm_id r" "dp_step_id e = a"
      "dp_depends_on_step_id e = b"
    by (auto simp: own_edges_def edges_of_def)
  then have "step_in pl (rm_id r) a" "step_in pl (rm_id r) b" using w by (auto simp: tables_wf_def deps_inside_def)
  then obtain s s' where s: "s \<in> set (pl_steps pl)" "sp_id s = a" "sp_roadmap_id s = rm_id r"
    and s': "s' \<in> set (pl_steps pl)" "sp_id s' = b" "sp_roadmap_id s' = rm_id r" unfolding step_in_def by blast
  have "b \<in> set (tr_deps (load_tree pl r) a)" using e by (force simp: load_tree_def Let_def)
  then have "key_of (load_tree pl r) b \<in> set (depends_on_keys (load_tree pl r) s)"
    using s(2) by (simp add: depends_on_keys_def)
  moreover have "key_of (load_tree pl r) a = sp_key s" "key_of (load_tree pl r) b = sp_key s'"
    using tree_key [OF w s(1,3)] tree_key [OF w s'(1,3)] s(2) s'(2) by simp_all
  ultimately show ?thesis using s s' by auto
qed


lemma tree_edges_lookup:
  assumes w: "tables_wf pl" and "s \<in> set (roadmap_steps pl r)"
  shows "map_of (edges_with (load_tree pl r) x k) (sp_key s)
    = Some (depends_on_keys (load_tree pl r) s @ (if sp_key s = sp_key x then [k] else []))"
proof -
  have "map_of (map (\<lambda>s. (sp_key s, g s)) ss) (sp_key s) = Some (g s)" if "tbl_wf sp_key ss" "s \<in> set ss" for g ss
    using that by (induction ss) (auto simp: tbl_wf_def rev_image_eqI)
  from this [OF roadmap_rows_wf(4) [OF w] assms(2)] have
    "map_of (map (\<lambda>s. (sp_key s, depends_on_keys (load_tree pl r) s @ (if sp_key s = sp_key x then [k] else [])))
      (roadmap_steps pl r)) (sp_key s)
    = Some (depends_on_keys (load_tree pl r) s @ (if sp_key s = sp_key x then [k] else []))" by fast
  moreover have "edges_with (load_tree pl r) x k
    = map (\<lambda>s. (sp_key s, depends_on_keys (load_tree pl r) s @ (if sp_key s = sp_key x then [k] else [])))
      (roadmap_steps pl r)"
    by (simp add: edges_with_def tree_edges_def comp_def)
  ultimately show ?thesis by simp
qed

lemma dep_edges_mem: "map_of es a = Some ts \<Longrightarrow> b \<in> set ts \<Longrightarrow> (a, b) \<in> dep_edges es"
  by (simp add: dep_edges_def has_key_def targets_def)

text \<open>The key-level check admits a dependency only when the stored edges stay acyclic.\<close>

lemma checked_dependency_acyclic:
  assumes w: "tables_wf pl" and s: "s \<in> set (roadmap_steps pl r)" and x: "x \<in> set (roadmap_steps pl r)"
    and ok: "find_dependency_cycle (edges_with (load_tree pl r) s (sp_key x)) = None"
  shows "acyclic (insert (sp_id s, sp_id x) (edges_of (pl_deps pl)))"
proof -
  let ?es = "edges_with (load_tree pl r) s (sp_key x)"
  let ?own = "insert (sp_id s, sp_id x) (own_edges pl (rm_id r))"
  let ?rest = "edges_of (filter (\<lambda>e. dp_roadmap_id e \<noteq> rm_id r) (pl_deps pl))"
  have mine: "s \<in> set (pl_steps pl)" "sp_roadmap_id s = rm_id r" "x \<in> set (pl_steps pl)" "sp_roadmap_id x = rm_id r"
    using s x by auto
  have "acyclic (dep_edges ?es)" using ok dependency_rule.decides by blast
  moreover have "(key_of (load_tree pl r) a, key_of (load_tree pl r) b) \<in> dep_edges ?es" if "(a, b) \<in> ?own" for a b
  proof (cases "(a, b) = (sp_id s, sp_id x)")
    case True
    then show ?thesis
      using tree_key [OF w mine(1,2)] tree_key [OF w mine(3,4)] tree_edges_lookup [OF w s, of s "sp_key x"]
      by (auto intro: dep_edges_mem)
  next
    case False
    with that have "(a, b) \<in> own_edges pl (rm_id r)" by auto
    from tree_edges_key [OF w this] obtain y where y: "y \<in> set (roadmap_steps pl r)" "sp_id y = a"
      "key_of (load_tree pl r) a = sp_key y" "key_of (load_tree pl r) b \<in> set (depends_on_keys (load_tree pl r) y)" by blast
    then show ?thesis using tree_edges_lookup [OF w y(1), of s "sp_key x"] by (auto intro: dep_edges_mem)
  qed
  ultimately have own: "acyclic ?own" by (rule acyclic_image)
  have "?rest \<subseteq> edges_of (pl_deps pl)" by (auto simp: edges_of_def)
  then have rest: "acyclic ?rest" using w by (auto simp: tables_wf_def intro: acyclic_subset)
  have in_rid: "\<exists>y. y \<in> set (pl_steps pl) \<and> sp_id y = n \<and> sp_roadmap_id y = rm_id r" if "n \<in> Field ?own" for n
  proof -
    consider "n = sp_id s" | "n = sp_id x" | "n \<in> Field (own_edges pl (rm_id r))"
      using \<open>n \<in> Field ?own\<close> by (auto simp: Field_insert)
    then show ?thesis
    proof cases
      case 3
      then obtain e where "e \<in> set (pl_deps pl)" "dp_roadmap_id e = rm_id r" "n = dp_step_id e \<or> n = dp_depends_on_step_id e"
        by (auto simp: own_edges_def edges_of_def Field_def)
      then have "step_in pl (rm_id r) n" using w by (auto simp: tables_wf_def deps_inside_def)
      then show ?thesis by (auto simp: step_in_def)
    qed (use mine in blast)+
  qed
  have "n \<notin> Field ?rest" if n: "n \<in> Field ?own" for n
  proof
    assume "n \<in> Field ?rest"
    then obtain e where e: "e \<in> set (pl_deps pl)" "dp_roadmap_id e \<noteq> rm_id r" "n = dp_step_id e \<or> n = dp_depends_on_step_id e"
      by (auto simp: edges_of_def Field_def)
    then have "step_in pl (dp_roadmap_id e) n" using w by (auto simp: tables_wf_def deps_inside_def)
    then obtain z where z: "z \<in> set (pl_steps pl)" "sp_id z = n" "sp_roadmap_id z = dp_roadmap_id e"
      unfolding step_in_def by blast
    from in_rid [OF n] obtain y where y: "y \<in> set (pl_steps pl)" "sp_id y = n" "sp_roadmap_id y = rm_id r" by blast
    have "y = z" using id_unique [of sp_id "pl_steps pl" y z] w y z by (simp add: tables_wf_def)
    with y z e(2) show False by simp
  qed
  then have "acyclic (?own \<union> ?rest)" by (intro acyclic_union_disjoint [OF own rest]) auto
  moreover have "insert (sp_id s, sp_id x) (edges_of (pl_deps pl)) = ?own \<union> ?rest"
    by (auto simp: own_edges_def edges_of_def)
  ultimately show ?thesis by simp
qed

lemma add_dependency_wf:
  assumes wf: "plan_wf pl" and ids: "unused_ids ids pl"
  shows "plan_wf (fst (add_dependency pl p now ids i payload))"
proof -
  have added: "plan_wf (add_dependencies [\<lparr>dp_step_id = sp_id s, dp_depends_on_step_id = sp_id x, dp_roadmap_id = rm_id r\<rparr>] pl)"
    if s: "the_step (load_tree pl r) k = Inr s" and x: "the_step (load_tree pl r) k' = Inr x"
      and ok: "find_dependency_cycle (edges_with (load_tree pl r) s (sp_key x)) = None" for r s x k k'
  proof -
    note w = plan_wfD(3) [OF wf]
    have mem: "s \<in> set (roadmap_steps pl r)" "x \<in> set (roadmap_steps pl r)"
      using tree_row(2) [OF w s] tree_row(2) [OF w x] by simp_all
    let ?pl = "add_dependencies [\<lparr>dp_step_id = sp_id s, dp_depends_on_step_id = sp_id x, dp_roadmap_id = rm_id r\<rparr>] pl"
    have "edges_of (pl_deps ?pl) = insert (sp_id s, sp_id x) (edges_of (pl_deps pl))"
      by (simp add: add_dependencies_def edges_of_def image_Un)
    then have "acyclic (edges_of (pl_deps ?pl))" using checked_dependency_acyclic [OF w mem ok] by simp
    moreover have "deps_inside ?pl"
      using w mem by (auto simp: tables_wf_def deps_inside_def add_dependencies_def step_in_def)
    ultimately show ?thesis
      using wf unfolding plan_wf_def tables_wf_def
      by (simp add: add_dependencies_def rows_owned_def steps_placed_def)
  qed
  show ?thesis
    unfolding add_dependency_def
    by (intro keeps wf) (auto simp: wf ids intro!: keeps changed_keeps [where pl = pl] added split: option.split)
qed

lemma remove_dependency_wf:
  assumes wf: "plan_wf pl" and ids: "unused_ids ids pl"
  shows "plan_wf (fst (remove_dependency pl p now ids i payload))"
proof -
  have "plan_wf (pl\<lparr>pl_deps := filter P (pl_deps pl)\<rparr>)" for P
    by (rule plan_wf_fewer [OF wf, where P = "\<lambda>_. True" and Q = "\<lambda>_. True"]) auto
  then show ?thesis
    unfolding remove_dependency_def
    by (intro keeps wf) (auto simp: wf ids intro!: changed_keeps [where pl = pl])
qed


subsection \<open>Creation, import and header edits\<close>

lemma one_active_mono:
  "one_active rs \<Longrightarrow> (\<And>x. x \<in> set rs' \<Longrightarrow> rm_status x = RS_ACTIVE \<Longrightarrow> x \<in> set rs) \<Longrightarrow> one_active rs'"
  unfolding one_active_def by blast

lemma plan_wf_new_roadmap:
  assumes wf: "plan_wf pl" and new: "rm_id r \<notin> rm_id ` set (pl_roadmaps pl)" and "rm_status r \<noteq> RS_ACTIVE"
  shows "plan_wf (put_roadmap r pl)"
proof -
  have rows: "pl_roadmaps (put_roadmap r pl) = pl_roadmaps pl @ [r]" using new by (simp add: tbl_put_new)
  have "one_active (pl_roadmaps pl)" using wf by (simp add: plan_wf_def)
  then have "one_active (pl_roadmaps pl @ [r])"
    by (rule one_active_mono) (use assms(3) in auto)
  moreover have "rows_owned (put_roadmap r pl)"
    using wf new by (simp add: plan_wf_def rows_owned_def tbl_put_new)
  moreover have "tables_wf (put_roadmap r pl)"
    using wf tables_wf_cong [of "put_roadmap r pl" pl] by (simp add: plan_wf_def)
  moreover have "tbl_wf rm_id (pl_roadmaps pl @ [r])" using wf new by (simp add: plan_wf_def tbl_wf_snoc)
  ultimately show ?thesis using wf unfolding plan_wf_def rows by simp
qed

lemma create_roadmap_wf:
  assumes wf: "plan_wf pl" and ids: "unused_ids ids pl"
  shows "plan_wf (fst (create_roadmap pl p now ids payload))"
  unfolding create_roadmap_def Let_def
  by (intro keeps wf, unfold plan_wf_finish, rule plan_wf_new_roadmap [OF wf])
    (use ids in \<open>simp_all add: unused_ids_def new_roadmap_def\<close>)

text \<open>A document applied to the tables keeps the invariant.\<close>

lemma plan_wf_applied:
  assumes wf: "plan_wf pl" and A: "applied pl ids r doc prov pl'" and own: "rm_id r \<in> rm_id ` set (pl_roadmaps pl)"
  shows "plan_wf pl'"
proof -
  have w: "tables_wf pl" using A by (simp add: applied_def)
  have "rows_owned pl'"
    using wf own applied_tables(1,7,8) [OF A] merged_roadmap(1) [OF w]
    by (auto simp: plan_wf_def rows_owned_def)
  then show ?thesis
    using wf applied_tables_wf [OF A] applied_tables(7,8) [OF A] by (simp add: plan_wf_def)
qed

lemma plan_wf_submit:
  assumes wf: "plan_wf pl" and h: "held pl r" and i: "i \<notin> rn_id ` set (pl_revisions pl)"
  shows "plan_wf (fst (submit_draft pl i r prov))"
proof -
  obtain r0 where r0: "get_roadmap_row pl (rm_id r) = Some r0" "roadmap_head r0 = roadmap_head r"
    using h by (auto simp: held_def)
  let ?r1 = "r\<lparr>rm_revision_no := next_revision_no pl r\<rparr>"
  let ?r2 = "?r1\<lparr>rm_status := RS_PROPOSED\<rparr>"
  have set': "set (pl_roadmaps (put_roadmap ?r2 pl)) = insert ?r2 {x \<in> set (pl_roadmaps pl). rm_id x \<noteq> rm_id r}"
    using tbl_put_set [OF plan_wfD(5) [OF wf], of ?r2] by simp
  have "one_active (pl_roadmaps pl)" using wf by (simp add: plan_wf_def)
  then have "one_active (pl_roadmaps (put_roadmap ?r2 pl))"
    by (rule one_active_mono) (unfold set', auto)
  moreover have "tbl_wf rm_id (pl_roadmaps (put_roadmap ?r2 pl))"
    using tbl_wf_put [OF plan_wfD(5) [OF wf]] by simp
  moreover have ids: "rm_id ` set (pl_roadmaps (put_roadmap ?r2 pl)) = rm_id ` set (pl_roadmaps pl)"
    using held_owned [OF h] by (auto simp: tbl_put_keys)
  then have "rows_owned (put_roadmap ?r2 pl)"
    using plan_wfD(4) [OF wf] unfolding rows_owned_def by simp
  moreover have "tables_wf (put_roadmap ?r2 pl)"
    using wf tables_wf_cong [of "put_roadmap ?r2 pl" pl] by (simp add: plan_wf_def)
  ultimately have wf2: "plan_wf (put_roadmap ?r2 pl)" using wf by (simp add: plan_wf_def)
  have ne: "rn_revision_no w \<noteq> next_revision_no pl r"
    if "w \<in> set (pl_revisions pl)" "rn_roadmap_id w = rm_id r" for w
    using next_revision_no_above [OF that] by simp
  have "plan_wf (put_revision (new_revision i ?r1 prov RK_PROPOSAL (next_revision_no pl r) doc (Some RN_PENDING)
      (rm_approved_revision_no ?r1) None) (put_roadmap ?r2 pl))" if "sound_plan doc" for doc
    by (rule plan_wf_new_revision [OF wf2])
      (use i ne held_owned [OF h] ids that in \<open>auto simp: new_revision_def\<close>)
  moreover have "tables_wf (put_roadmap ?r1 pl)"
    using wf tables_wf_cong [of "put_roadmap ?r1 pl" pl] by (simp add: plan_wf_def)
  ultimately show ?thesis by (simp add: submit_draft_def Let_def exported_sound)
qed

lemma import_roadmap_wf:
  assumes wf: "plan_wf pl" and ids: "unused_ids ids pl"
  shows "plan_wf (fst (import_roadmap pl p now ids payload))"
proof -
  have imported: "plan_wf (imported_plan pl ids now prov payload) \<and>
      held (imported_plan pl ids now prov payload) (imported_roadmap ids now prov payload) \<and>
      pl_revisions (imported_plan pl ids now prov payload) = pl_revisions pl"
    if errs: "roadmap_document_errors (im_document payload) = []" for prov
  proof -
    let ?r = "imported_roadmap ids now prov payload"
    have "rm_status ?r = RS_DRAFT" by (simp add: imported_roadmap_def new_roadmap_def)
    then have wf1: "plan_wf (put_roadmap ?r pl)"
      by (intro plan_wf_new_roadmap [OF wf]) (use ids in \<open>simp_all add: unused_ids_def\<close>)
    have A: "applied (put_roadmap ?r pl) ids ?r (im_document payload) prov
        (insert_document (put_roadmap ?r pl) ?r ids (im_document payload) prov)"
      by (rule import_applied [OF plan_wfD(3,4) [OF wf] ids errs])
    have h: "held (put_roadmap ?r pl) ?r" by (rule held_put) simp_all
    have "plan_wf (insert_document (put_roadmap ?r pl) ?r ids (im_document payload) prov)"
      by (rule plan_wf_applied [OF wf1 A held_owned [OF h]])
    moreover have "held (insert_document (put_roadmap ?r pl) ?r ids (im_document payload) prov) ?r"
      using h by (simp add: held_def get_roadmap_row_def)
    ultimately show ?thesis by (simp add: imported_plan_def Let_def)
  qed
  have submitted: "plan_wf (fst (submit_draft (imported_plan pl ids now prov payload) (pi_revision ids)
      (imported_roadmap ids now prov payload) prov))"
    if errs: "roadmap_document_errors (im_document payload) = []" for prov
    by (rule plan_wf_submit) (use imported [OF errs, of prov] ids in \<open>simp_all add: unused_ids_def\<close>)
  have eq: "import_roadmap pl p now ids payload =
     guarded (authorize_roadmap_create p (im_project_id payload)) pl
     (on_ok (resolve_provenance (pl_db pl) p (im_provenance payload)) pl (\<lambda>prov.
       guarded (and_then (first_error (roadmap_document_errors (im_document payload)))
           (require_project pl (im_project_id payload))) pl
         (let r = imported_roadmap ids now prov payload; pl1 = imported_plan pl ids now prov payload
          in if im_submit payload
             then (let (pl2, r2, event) = submit_draft pl1 (pi_revision ids) r prov
                   in finish pl2 p now (pi_event ids) r2 prov [created_event r, event])
             else finish pl1 p now (pi_event ids) r prov [created_event r])))"
    by (simp add: import_roadmap_def imported_roadmap_def imported_plan_def Let_def)
  show ?thesis
    unfolding eq
    by (intro keeps wf) (use imported submitted in \<open>auto simp: Let_def case_prod_unfold\<close>)
qed

lemma update_roadmap_wf:
  assumes wf: "plan_wf pl" and ids: "unused_ids ids pl"
  shows "plan_wf (fst (update_roadmap pl p now ids i payload v))"
  unfolding update_roadmap_def
proof (intro keeps wf)
  fix r prov assume "lock_roadmap pl i = Inr r"
  then have r: "get_roadmap_row pl i = Some r" by (simp add: lock_roadmap_def)
  show "plan_wf (fst (changed_and_finished pl p now ids
            (r\<lparr>rm_title := patch (rm_title r) (ru_title payload),
               rm_objective := patch_text (rm_objective r) (ru_objective payload),
               rm_context := patch_text (rm_context r) (ru_context payload),
               rm_metadata := patch (rm_metadata r) (ru_metadata payload)\<rparr>)
            prov ''roadmap'' None))"
    by (rule changed_keeps [OF wf refl refl r _ ids]) (simp add: roadmap_head_def)
qed


subsection \<open>Lifecycle\<close>

lemma pending_mem:
  assumes "pending_proposal pl rid = Some v" shows "v \<in> set (pending_proposals pl rid)"
proof -
  from assms obtain vs where "sort_key (\<lambda>v. - rn_revision_no v) (pending_proposals pl rid) = v # vs"
    by (auto simp: pending_proposal_def newest_revision_def split: list.splits)
  from arg_cong [OF this, of set] show ?thesis by simp
qed

lemma pending_in: "pending_proposal pl rid = Some v \<Longrightarrow> v \<in> set (pl_revisions pl)"
  using pending_mem by (fastforce simp: pending_proposals_def revisions_of_def)

lemma reviewed_head: "revision_head (reviewed p now c verdict v) = revision_head v"
  by (simp add: reviewed_def revision_head_def)

lemma flush_status_wf:
  assumes wf: "plan_wf pl" and r: "get_roadmap_row pl (rm_id r) = Some r0" and "rm_project_id r0 = rm_project_id r"
    and f: "flush_status pl r = Inr pl'"
  shows "plan_wf pl' \<and> held pl' r \<and> pl_revisions pl' = pl_revisions pl"
proof -
  have pl': "pl' = put_roadmap r pl" and ok: "rm_status r = RS_ACTIVE \<Longrightarrow> \<not> other_active pl r"
    using f by (auto simp: flush_status_def split: if_splits)
  have set': "set (pl_roadmaps pl') = insert r {x \<in> set (pl_roadmaps pl). rm_id x \<noteq> rm_id r}"
    using tbl_put_set [OF plan_wfD(5) [OF wf], of r] by (simp add: pl')
  have act: "one_active (pl_roadmaps pl)" using wf by (simp add: plan_wf_def)
  have lone: "rm_id x = rm_id r" if "x \<in> set (pl_roadmaps pl)" "rm_status x = RS_ACTIVE" "rm_status r = RS_ACTIVE"
      "rm_project_id x = rm_project_id r" for x
    using ok [OF that(3)] that by (auto simp: other_active_def list_ex_iff)
  have "one_active (pl_roadmaps pl')"
    unfolding one_active_def
  proof (intro ballI impI)
    fix a b assume a: "a \<in> set (pl_roadmaps pl')" "rm_status a = RS_ACTIVE"
      and b: "b \<in> set (pl_roadmaps pl')" "rm_status b = RS_ACTIVE" and eq: "rm_project_id a = rm_project_id b"
    consider "a = r" | "b = r" | "a \<in> set (pl_roadmaps pl)" "b \<in> set (pl_roadmaps pl)"
      using a(1) b(1) unfolding set' by blast
    then show "rm_id a = rm_id b"
    proof cases
      case 1
      then show ?thesis using lone [of b] a b eq unfolding set' by auto
    next
      case 2
      then show ?thesis using lone [of a] a b eq unfolding set' by auto
    next
      case 3
      then show ?thesis using act a b eq unfolding one_active_def by blast
    qed
  qed
  moreover have "tbl_wf rm_id (pl_roadmaps pl')" using tbl_wf_put [OF plan_wfD(5) [OF wf]] by (simp add: pl')
  moreover have "rm_id ` set (pl_roadmaps pl') = rm_id ` set (pl_roadmaps pl)"
    using held_owned [OF held_get [OF r]] get_roadmap_row_id [OF r] by (auto simp: pl' tbl_put_keys)
  then have "rows_owned pl'" using plan_wfD(4) [OF wf] unfolding rows_owned_def by (simp add: pl')
  moreover have "tables_wf pl'" using plan_wfD(3) [OF wf] tables_wf_cong [of pl' pl] by (simp add: pl')
  ultimately have "plan_wf pl'" using wf by (simp add: plan_wf_def pl')
  then show ?thesis by (simp add: pl' held_put)
qed

lemma settle_transition_wf:
  assumes wf: "plan_wf pl" and h: "held pl r" and i: "i \<notin> rn_id ` set (pl_revisions pl)"
    and src: "\<And>v. proposal = Some v \<Longrightarrow> v \<in> set (pl_revisions pl)"
  shows "plan_wf (fst (settle_transition pl p now i r prov payload proposal))"
proof (cases proposal)
  case None
  then show ?thesis using plan_wf_snapshot [OF wf h i, of prov] wf by (auto simp: settle_transition_def)
next
  case (Some v)
  have "plan_wf (put_revision (reviewed p now (tq_comment payload) (review_verdict (tq_transition payload)) v) pl)"
    by (rule plan_wf_put_revision_same [OF src [OF Some] wf]) (simp add: reviewed_head)
  moreover have "held pl (r\<lparr>rm_approved_revision_no := n\<rparr>)" for n
    by (rule held_same [OF h]) (simp add: roadmap_head_def)
  then have "held (put_revision w pl) (r\<lparr>rm_approved_revision_no := n\<rparr>)" "held (put_revision w pl) r" for w n
    using h by (simp_all add: held_def get_roadmap_row_def)
  ultimately show ?thesis by (simp add: settle_transition_def Some Let_def)
qed

lemma apply_transition_wf:
  assumes wf: "plan_wf pl" and ids: "unused_ids ids pl" and r: "get_roadmap_row pl i = Some r"
  shows "plan_wf (fst (apply_transition pl p now ids r prov target payload))"
proof -
  have i: "pi_revision ids \<notin> rn_id ` set (pl_revisions pl)" using ids by (simp add: unused_ids_def)
  let ?r1 = "r\<lparr>rm_version := rm_version r + 1\<rparr>"
  show ?thesis
  proof (cases "tq_transition payload = RT_SUBMIT")
    case True
    have "held pl ?r1" by (rule held_same [OF held_get [OF r] bumped_head])
    from plan_wf_submit [OF wf this i, of prov] True show ?thesis
      by (simp add: apply_transition_def Let_def case_prod_unfold)
  next
    case False
    let ?r2 = "?r1\<lparr>rm_status := target\<rparr>"
    define proposal where "proposal = (if rm_status r = RS_PROPOSED then pending_proposal pl (rm_id r) else None)"
    have src: "proposal = Some v \<Longrightarrow> v \<in> set (pl_revisions pl)" for v
      using pending_in by (auto simp: proposal_def split: if_splits)
    show ?thesis
    proof (cases "flush_status pl ?r2")
      case (Inl e)
      then show ?thesis using wf False by (simp add: apply_transition_def Let_def)
    next
      case (Inr pl2)
      have "get_roadmap_row pl (rm_id ?r2) = Some r" using r get_roadmap_row_id [OF r] by simp
      from flush_status_wf [OF wf this _ Inr] have f: "plan_wf pl2" "held pl2 ?r2" "pl_revisions pl2 = pl_revisions pl"
        by simp_all
      have "plan_wf (fst (settle_transition pl2 p now (pi_revision ids) ?r2 prov payload proposal))"
        by (rule settle_transition_wf [OF f(1,2)]) (use i src f(3) in simp_all)
      then show ?thesis
        using False Inr by (simp add: apply_transition_def Let_def case_prod_unfold proposal_def)
    qed
  qed
qed

lemma transition_roadmap_wf:
  assumes wf: "plan_wf pl" and ids: "unused_ids ids pl"
  shows "plan_wf (fst (transition_roadmap pl p now ids i payload))"
  unfolding transition_roadmap_def
  by (intro keeps wf)
    (auto simp: wf lock_roadmap_def split: option.split intro!: keeps apply_transition_wf [OF wf ids])

lemma submit_roadmap_wf:
  assumes wf: "plan_wf pl" and ids: "unused_ids ids pl"
  shows "plan_wf (fst (submit_roadmap pl p now ids i declared))"
proof -
  have "plan_wf (fst (case transition_roadmap pl p now ids i req of
      (pl', Inl e) \<Rightarrow> (pl', Inl e) | (pl', Inr _) \<Rightarrow> (pl', Inr ())))" for req
    using transition_roadmap_wf [OF wf ids, of p now i req]
    by (cases "transition_roadmap pl p now ids i req") (auto split: sum.split)
  then show ?thesis
    unfolding submit_roadmap_def Let_def by (intro keeps wf) (simp add: wf)
qed


subsection \<open>Proposals\<close>

lemma reconcile_wf:
  assumes wf: "plan_wf pl" and ids: "unused_ids ids pl" and r: "get_roadmap_row pl i = Some r" and doc: "sound_plan doc"
    and run: "reconcile_document pl ids (load_tree pl r) doc prov = Inr pl'"
  shows "plan_wf pl' \<and> pl_roadmaps pl' = pl_roadmaps pl \<and> pl_revisions pl' = pl_revisions pl"
proof -
  have A: "applied pl ids r doc prov pl'"
    using plan_wfD(3) [OF wf] ids doc run by (simp add: applied_def unused_ids_def)
  show ?thesis
    using plan_wf_applied [OF wf A held_owned [OF held_get [OF r]]] applied_tables(7,8) [OF A] by simp
qed

lemma close_revision_wf:
  assumes wf: "plan_wf pl" and h: "held pl r" and i: "pi_revision ids \<notin> rn_id ` set (pl_revisions pl)"
    and doc: "sound_plan (pp_document payload)"
  shows "plan_wf (fst (close_revision pl p now ids r payload prov))"
proof (cases "pp_submit payload")
  case True
  let ?pl1 = "fst (submit_draft pl (pi_revision ids) r prov)"
  have wf1: "plan_wf ?pl1" by (rule plan_wf_submit [OF wf h i])
  have "plan_wf (case map_option (\<lambda>v. v\<lparr>rn_summary := x\<rparr>) (pending_proposal ?pl1 k) of
      None \<Rightarrow> ?pl1 | Some w \<Rightarrow> put_revision w ?pl1)" for x k
  proof (cases "pending_proposal ?pl1 k")
    case (Some v)
    have "plan_wf (put_revision (v\<lparr>rn_summary := x\<rparr>) ?pl1)"
      by (rule plan_wf_put_revision_same [OF pending_in [OF Some] wf1]) (simp add: revision_head_def)
    with Some show ?thesis by simp
  qed (simp add: wf1)
  with True show ?thesis by (simp add: close_revision_def Let_def case_prod_unfold)
next
  case False
  let ?n = "next_revision_no pl r"
  let ?r1 = "r\<lparr>rm_revision_no := ?n\<rparr>"
  have head: "roadmap_head ?r1 = roadmap_head r" by (simp add: roadmap_head_def)
  have wf1: "plan_wf (put_roadmap ?r1 pl)" using wf held_same [OF h head] by simp
  have ne: "rn_revision_no w \<noteq> ?n" if "w \<in> set (pl_revisions pl)" "rn_roadmap_id w = rm_id r" for w
    using next_revision_no_above [OF that] by simp
  have "plan_wf (put_revision (new_revision (pi_revision ids) ?r1 prov RK_SNAPSHOT ?n (pp_document payload) None b s)
      (put_roadmap ?r1 pl))" for b s
    by (rule plan_wf_new_revision [OF wf1])
      (use i ne doc held_owned [OF held_put [of ?r1 ?r1]] in \<open>auto simp: new_revision_def\<close>)
  with False show ?thesis by (simp add: close_revision_def Let_def)
qed

lemma revise_draft_wf:
  assumes wf: "plan_wf pl" and ids: "unused_ids ids pl" and r: "get_roadmap_row pl i = Some r"
  shows "plan_wf (fst (revise_draft pl p now ids r payload))"
  unfolding revise_draft_def Let_def
proof (intro keeps wf close_revision_wf)
  fix prov pl1
  let ?r1 = "revised_roadmap r (pp_document payload)"
  assume g: "and_then (guard_write p r WK_CONTENT (pp_provenance payload))
         (and_then (raise_if (pp_base_revision_no payload \<noteq> rm_revision_no r)
            (roadmap_error 409 ''version_conflict'' [(''server_revision_no'', JInt (rm_revision_no r))]))
           (first_error (roadmap_document_errors (pp_document payload)))) = Inr ()"
    and run: "reconcile_document pl ids (load_tree pl r) (pp_document payload) prov = Inr pl1"
  have doc: "sound_plan (pp_document payload)" using g by (auto intro: valid_sound)
  note R = reconcile_wf [OF wf ids r doc run]
  have head: "roadmap_head ?r1 = roadmap_head r" by (simp add: revised_roadmap_def roadmap_head_def)
  have "held pl1 ?r1" using held_same [OF held_get [OF r] head] R by (simp add: held_def get_roadmap_row_def)
  then show "plan_wf (put_roadmap ?r1 pl1)" using R by simp
  show "held (put_roadmap ?r1 pl1) ?r1" by (rule held_put) simp_all
  show "pi_revision ids \<notin> rn_id ` set (pl_revisions (put_roadmap ?r1 pl1))"
    using ids R by (simp add: unused_ids_def)
  show "sound_plan (pp_document payload)" by (rule doc)
qed

lemma supersede_wf:
  assumes "plan_wf pl" and "set vs \<subseteq> set (pl_revisions pl)"
  shows "map revision_head (pl_revisions (fold put_revision (map (\<lambda>v. v\<lparr>rn_status := s\<rparr>) vs) pl))
      = map revision_head (pl_revisions pl) \<and>
    pl_roadmaps (fold put_revision (map (\<lambda>v. v\<lparr>rn_status := s\<rparr>) vs) pl) = pl_roadmaps pl \<and>
    plan_wf (fold put_revision (map (\<lambda>v. v\<lparr>rn_status := s\<rparr>) vs) pl)"
proof -
  let ?rows = "map (\<lambda>v. v\<lparr>rn_status := s\<rparr>) vs"
  have fold: "fold put_revision rows q = q\<lparr>pl_revisions := fold (tbl_put rn_id) rows (pl_revisions q)\<rparr>" for rows q
    by (induction rows arbitrary: q) (simp_all add: put_revision_def)
  have "map revision_head (fold (tbl_put rn_id) ?rows (pl_revisions pl)) = map revision_head (pl_revisions pl)"
  proof (rule fold_put_head)
    fix x assume "x \<in> set ?rows"
    then obtain v where v: "v \<in> set vs" "x = v\<lparr>rn_status := s\<rparr>" by auto
    then have "tbl_get rn_id (pl_revisions pl) (rn_id v) = Some v"
      using assms by (intro tbl_get_of_mem) (auto simp: plan_wf_def)
    with v(2) show "\<exists>y. tbl_get rn_id (pl_revisions pl) (rn_id x) = Some y \<and> revision_head y = revision_head x"
      by (simp add: revision_head_def)
  qed
  then show ?thesis
    using assms(1) plan_wf_head [of "fold put_revision ?rows pl" pl] by (simp add: fold)
qed

lemma create_proposal_wf:
  assumes wf: "plan_wf pl" and ids: "unused_ids ids pl"
  shows "plan_wf (fst (create_proposal pl p now ids i payload))"
proof -
  have proposed: "plan_wf (put_revision (new_revision (pi_revision ids) r prov RK_PROPOSAL (next_revision_no pl1 r)
      (pp_document payload) st base summary) pl1)"
    if r: "get_roadmap_row pl i = Some r" and doc: "roadmap_document_errors (pp_document payload) = []"
      and pl1: "pl1 = fold put_revision (map (\<lambda>v. v\<lparr>rn_status := Some RN_SUPERSEDED\<rparr>) (pending_proposals pl (rm_id r))) pl"
    for r prov st base summary pl1
  proof (rule plan_wf_new_revision)
    have sub: "set (pending_proposals pl (rm_id r)) \<subseteq> set (pl_revisions pl)"
      by (auto simp: pending_proposals_def revisions_of_def)
    note S = supersede_wf [OF wf sub, of "Some RN_SUPERSEDED", folded pl1]
    show "plan_wf pl1" using S by blast
    have "rn_id ` set (pl_revisions pl1) = rn_id ` set (pl_revisions pl)"
      using S by (metis (no_types, lifting) head_fields(11) image_comp image_set)
    then show "rn_id (new_revision (pi_revision ids) r prov RK_PROPOSAL (next_revision_no pl1 r)
      (pp_document payload) st base summary) \<notin> rn_id ` set (pl_revisions pl1)"
      using ids by (simp add: new_revision_def unused_ids_def)
    show "rn_revision_no w \<noteq> rn_revision_no (new_revision (pi_revision ids) r prov RK_PROPOSAL (next_revision_no pl1 r)
      (pp_document payload) st base summary)"
      if "w \<in> set (pl_revisions pl1)" "rn_roadmap_id w = rn_roadmap_id (new_revision (pi_revision ids) r prov RK_PROPOSAL
        (next_revision_no pl1 r) (pp_document payload) st base summary)" for w
      using next_revision_no_above [of w pl1 r] that by (simp add: new_revision_def)
  qed (use held_owned [OF held_get [OF r]] doc supersede_wf [OF wf, of "pending_proposals pl (rm_id r)"] in
      \<open>auto simp: new_revision_def pl1 pending_proposals_def revisions_of_def intro: valid_sound\<close>)
  show ?thesis
    unfolding create_proposal_def Let_def
    by (intro keeps wf)
      (auto simp: wf lock_roadmap_def intro!: keeps revise_draft_wf [OF wf ids] proposed)
qed

lemma proposal_at_in: "proposal_at pl i n = Some v \<Longrightarrow> v \<in> set (pl_revisions pl)"
  by (auto simp: proposal_at_def revisions_of_def dest!: find_Some_mem)

lemma decide_proposal_wf:
  assumes wf: "plan_wf pl" and ids: "unused_ids ids pl" and r: "get_roadmap_row pl i = Some r"
    and v: "v \<in> set (pl_revisions pl)" and d: "decide_proposal pl ids r v decision = Inr (pl1, r1, verdict, ev)"
  shows "plan_wf pl1 \<and> pl_revisions pl1 = pl_revisions pl"
proof (cases decision)
  case RD_APPROVE
  with d obtain doc pl0 where doc: "rn_content v = Some doc"
    and run: "reconcile_document pl ids (load_tree pl r) doc (rn_prov v) = Inr pl0"
    and pl1: "pl1 = put_roadmap (approved_roadmap r v) pl0"
    by (auto simp: decide_proposal_def and_get_eq_Inr Let_def approved_roadmap_def)
  have "sound_plan doc" using wf v doc by (auto simp: plan_wf_def)
  note R = reconcile_wf [OF wf ids r this run]
  have "roadmap_head (approved_roadmap r v) = roadmap_head r" by (simp add: approved_roadmap_def roadmap_head_def)
  then have "held pl0 (approved_roadmap r v)"
    using held_same [OF held_get [OF r]] R by (simp add: held_def get_roadmap_row_def)
  with R show ?thesis by (simp add: pl1)
qed (use d wf in \<open>auto simp: decide_proposal_def\<close>)

lemma review_proposal_wf:
  assumes wf: "plan_wf pl" and ids: "unused_ids ids pl"
  shows "plan_wf (fst (review_proposal pl p now ids i n payload))"
  unfolding review_proposal_def
proof (intro keeps wf)
  fix r v prov x
  assume r: "lock_roadmap pl i = Inr r" and v: "found (reference_not_found ''revision'') (proposal_at pl i n) = Inr v"
    and x: "decide_proposal pl ids r v (pw_decision payload) = Inr x"
  obtain pl1 r1 verdict ev where xs: "x = (pl1, r1, verdict, ev)" by (cases x) blast
  have vin: "v \<in> set (pl_revisions pl)" using v proposal_at_in by auto
  have row: "get_roadmap_row pl i = Some r" using r by (simp add: lock_roadmap_def)
  from decide_proposal_wf [OF wf ids row vin x [unfolded xs]] have D: "plan_wf pl1" "pl_revisions pl1 = pl_revisions pl" by auto
  have "plan_wf (put_revision (reviewed p now (pw_comment payload) verdict v) pl1)"
    by (rule plan_wf_put_revision_same [of v]) (use D vin in \<open>simp_all add: reviewed_head\<close>)
  then show "plan_wf (fst (close_review p now ids v payload prov x))"
    by (simp add: close_review_def xs Let_def)
qed

subsection \<open>Hydration\<close>

lemma apply_items_wf:
  "apply_items pl p now ids n r prov es = Inr (pl', items) \<Longrightarrow> plan_wf pl \<Longrightarrow> plan_wf pl'"
proof (induction es arbitrary: pl n items)
  case (Cons e es)
  have add: "plan_wf (add_link l (q\<lparr>pl_db := d\<rparr>))" if "plan_wf q" for l q d
    using that plan_wf_head [of "add_link l (q\<lparr>pl_db := d\<rparr>)" q] by (simp add: add_link_def)
  show ?case
    using Cons.prems Cons.IH add by (fastforce simp: and_get_eq_Inr Let_def split: if_splits)
qed simp

lemma apply_hydration_wf:
  assumes wf: "plan_wf pl"
  shows "plan_wf (fst (apply_hydration pl p now ids i payload))"
  unfolding apply_hydration_def
proof (intro keeps wf)
  fix r prov planned x assume "apply_items pl p now ids 0 r prov planned = Inr x"
  then have "plan_wf (fst x)" using apply_items_wf [OF _ wf] by (cases x) auto
  then show "plan_wf (fst (close_hydration p now ids r prov x))" by (simp add: close_hydration_def Let_def)
qed

end
