(* ===== verification/Plan_Reachable.thy ===== *)
theory Plan_Reachable
  imports Plan_Operations
begin

section \<open>Reachable plans\<close>

text \<open>
  One request of any kind is one step; the invariant of the operations gives the invariant of
  every reachable database. On a well-formed plan the read models are exact: the summary a
  list shows agrees with the full view, and a plan with open steps always has one to work on.
\<close>

inductive plan_step :: "plan_db \<Rightarrow> plan_db \<Rightarrow> bool" where
  create_roadmap: "unused_ids ids pl \<Longrightarrow> plan_step pl (fst (create_roadmap pl p now ids create))"
| import_roadmap: "unused_ids ids pl \<Longrightarrow> plan_step pl (fst (import_roadmap pl p now ids import))"
| update_roadmap: "unused_ids ids pl \<Longrightarrow> plan_step pl (fst (update_roadmap pl p now ids i header version))"
| transition: "unused_ids ids pl \<Longrightarrow> plan_step pl (fst (transition_roadmap pl p now ids i request))"
| submit: "unused_ids ids pl \<Longrightarrow> plan_step pl (fst (submit_roadmap pl p now ids i declared))"
| create_phase: "unused_ids ids pl \<Longrightarrow> plan_step pl (fst (create_phase pl p now ids i new_phase))"
| update_phase: "unused_ids ids pl \<Longrightarrow> plan_step pl (fst (update_phase pl p now ids i key phase_patch version))"
| reorder_phases: "unused_ids ids pl \<Longrightarrow> plan_step pl (fst (reorder_phases pl p now ids i order))"
| delete_phase: "unused_ids ids pl \<Longrightarrow> plan_step pl (fst (delete_phase pl p now ids i key version declared))"
| create_step: "unused_ids ids pl \<Longrightarrow> plan_step pl (fst (create_step pl p now ids i key new_step))"
| update_step: "unused_ids ids pl \<Longrightarrow> plan_step pl (fst (update_step pl p now ids i key step_patch version))"
| reorder_steps: "unused_ids ids pl \<Longrightarrow> plan_step pl (fst (reorder_steps pl p now ids i key order))"
| delete_step: "unused_ids ids pl \<Longrightarrow> plan_step pl (fst (delete_step pl p now ids i key version declared))"
| progress: "unused_ids ids pl \<Longrightarrow> plan_step pl (fst (update_step_progress pl p now ids i key made version))"
| add_dependency: "unused_ids ids pl \<Longrightarrow> plan_step pl (fst (add_dependency pl p now ids i change))"
| remove_dependency: "unused_ids ids pl \<Longrightarrow> plan_step pl (fst (remove_dependency pl p now ids i change))"
| link: "unused_ids ids pl \<Longrightarrow> plan_step pl (fst (link_task pl p now ids i key task_id declared))"
| unlink: "unused_ids ids pl \<Longrightarrow> plan_step pl (fst (unlink_task pl p now ids i key task_id declared))"
| propose: "unused_ids ids pl \<Longrightarrow> plan_step pl (fst (create_proposal pl p now ids i proposal))"
| review: "unused_ids ids pl \<Longrightarrow> plan_step pl (fst (review_proposal pl p now ids i n verdict))"
| hydrate: "unused_ids ids pl \<Longrightarrow> plan_step pl (fst (apply_hydration pl p now ids i request'))"
| elsewhere: "plan_step pl (pl\<lparr>pl_db := d\<rparr>)"

inductive plan_reachable :: "plan_db \<Rightarrow> bool" where
  start: "plan_reachable \<lparr>pl_db = d, pl_roadmaps = [], pl_phases = [], pl_steps = [], pl_deps = [],
    pl_links = [], pl_revisions = []\<rparr>"
| step: "plan_reachable pl \<Longrightarrow> plan_step pl pl' \<Longrightarrow> plan_reachable pl'"

lemmas operations_wf = create_roadmap_wf import_roadmap_wf update_roadmap_wf transition_roadmap_wf
  submit_roadmap_wf create_phase_wf update_phase_wf reorder_phases_wf delete_phase_wf create_step_wf
  update_step_wf reorder_steps_wf delete_step_wf update_step_progress_wf add_dependency_wf
  remove_dependency_wf link_task_wf unlink_task_wf create_proposal_wf review_proposal_wf apply_hydration_wf

lemma plan_step_wf: "plan_step pl pl' \<Longrightarrow> plan_wf pl \<Longrightarrow> plan_wf pl'"
  by (induction rule: plan_step.induct) (simp_all add: operations_wf)

lemma plan_reachable_wf: "plan_reachable pl \<Longrightarrow> plan_wf pl"
proof (induction rule: plan_reachable.induct)
  case (start d)
  show ?case
    by (simp add: plan_wf_def tbl_wf_def one_active_def rows_owned_def tables_wf_def steps_placed_def deps_inside_def
        edges_of_def acyclic_def)
qed (rule plan_step_wf)



subsection \<open>The read models\<close>

lemma tree_state_lookup:
  assumes "tables_wf pl" "s \<in> set (roadmap_steps pl r)"
  shows "tree_states (load_tree pl r) (sp_key s) = Some (tree_state (load_tree pl r) s)"
proof -
  have "map_of (map (\<lambda>s. (sp_key s, g s)) ss) (sp_key s) = Some (g s)" if "tbl_wf sp_key ss" "s \<in> set ss" for g ss
    using that by (induction ss) (auto simp: tbl_wf_def rev_image_eqI)
  from this [OF roadmap_rows_wf(4) [OF assms(1)] assms(2)] show ?thesis by (simp add: tree_states_def)
qed

lemma find_Some_holds: "find P xs = Some x \<Longrightarrow> P x"
  by (auto simp: find_Some_iff)

lemma first_open_step_find:
  "first_open_step t ss = map_option sp_key (find (\<lambda>s. sv_available (build_step_view t s)) ss)"
  by (induction ss) (auto simp: build_step_view_def Let_def)

text \<open>The summary a list of roadmaps shows - computed without building the views -
  is the summary of the full read model.\<close>

theorem summary_is_view_summary: "build_summary t = rw_summary (build_roadmap t)"
  by (simp add: build_summary_def build_roadmap_def Let_def first_open_step_find)

lemma some_step_ready:
  assumes w: "tables_wf pl" and s: "s \<in> set (roadmap_steps pl r)" and "\<not> step_finished (tree_state (load_tree pl r) s)"
  shows "\<exists>s \<in> set (roadmap_steps pl r). \<not> step_finished (tree_state (load_tree pl r) s) \<and>
    waiting_on (depends_on_keys (load_tree pl r) s) (tree_states (load_tree pl r)) = []"
proof -
  let ?t = "load_tree pl r"
  let ?U = "sp_id ` {s \<in> set (roadmap_steps pl r). \<not> step_finished (tree_state ?t s)}"
  have "own_edges pl (rm_id r) \<subseteq> edges_of (pl_deps pl)" by (auto simp: own_edges_def edges_of_def)
  then have "acyclic (own_edges pl (rm_id r))" using w by (auto simp: tables_wf_def intro: acyclic_subset)
  moreover have "finite (own_edges pl (rm_id r))" by (simp add: own_edges_def edges_of_def)
  ultimately have "wf ((own_edges pl (rm_id r))\<inverse>)" by (rule finite_acyclic_wf_converse [rotated])
  moreover have "sp_id s \<in> ?U" using s assms(3) by blast
  ultimately obtain z where z: "z \<in> ?U" "\<And>y. (y, z) \<in> (own_edges pl (rm_id r))\<inverse> \<Longrightarrow> y \<notin> ?U"
    by (rule wfE_min) blast
  then obtain x where x: "x \<in> set (roadmap_steps pl r)" "\<not> step_finished (tree_state ?t x)" "z = sp_id x" by blast
  have "tree_states ?t k \<in> {Some SS_DONE, Some SS_SKIPPED}" if k: "k \<in> set (depends_on_keys ?t x)" for k
  proof -
    from exported_edges [OF w x(1) k] obtain b where b: "(sp_id x, b) \<in> own_edges pl (rm_id r)" "k = key_of ?t b" by blast
    then obtain y where y: "y \<in> set (roadmap_steps pl r)" "sp_id y = b" using own_edges_ends [OF w] by blast
    have "b \<notin> ?U" using z(2) b(1) x(3) by blast
    then have "step_finished (tree_state ?t y)" using y by blast
    moreover have "k = sp_key y" using tree_key [OF w, of y r] y b(2) by auto
    ultimately show ?thesis using tree_state_lookup [OF w y(1)] by (auto simp: step_finished_def)
  qed
  then have "waiting_on (depends_on_keys ?t x) (tree_states ?t) = []"
    by (auto simp: waiting_on_def filter_empty_conv)
  with x show ?thesis by blast
qed

text \<open>Property C30. A plan never deadlocks: in every reachable database a roadmap has a step ready
  to work on - not finished, waiting on nothing, and shown as its current step - exactly as
  long as it has an unfinished step.\<close>

theorem plan_never_stuck:
  assumes "plan_reachable pl"
  shows "ry_current_step_key (build_summary (load_tree pl r)) \<noteq> None \<longleftrightarrow>
    (\<exists>s \<in> set (roadmap_steps pl r). \<not> step_finished (tree_state (load_tree pl r) s))"
proof
  assume "ry_current_step_key (build_summary (load_tree pl r)) \<noteq> None"
  then obtain s where "find (\<lambda>s. sv_available (build_step_view (load_tree pl r) s)) (roadmap_steps pl r) = Some s"
    by (auto simp: build_summary_def first_open_step_find)
  then have "s \<in> set (roadmap_steps pl r)" "sv_available (build_step_view (load_tree pl r) s)"
    using find_Some_mem find_Some_holds by fast+
  then show "\<exists>s \<in> set (roadmap_steps pl r). \<not> step_finished (tree_state (load_tree pl r) s)"
    by (auto simp: build_step_view_def Let_def)
next
  have w: "tables_wf pl" using plan_reachable_wf [OF assms] by (simp add: plan_wf_def)
  assume "\<exists>s \<in> set (roadmap_steps pl r). \<not> step_finished (tree_state (load_tree pl r) s)"
  then obtain s where "s \<in> set (roadmap_steps pl r)" "sv_available (build_step_view (load_tree pl r) s)"
    using some_step_ready [OF w] by (auto simp: build_step_view_def Let_def)
  then show "ry_current_step_key (build_summary (load_tree pl r)) \<noteq> None"
    by (auto simp: build_summary_def first_open_step_find find_None_iff)
qed

end
