(* ===== verification/Plan_Witnesses.thy ===== *)
theory Plan_Witnesses
  imports Plan_Reachable
begin

section \<open>Concrete plans\<close>

text \<open>
  The roadmap properties applied to concrete requests: an import into an empty database, an
  active roadmap with a pending proposal and a task plan, and the same roadmap as a draft.
\<close>

subsection \<open>Samples\<close>

fun text_code :: "string \<Rightarrow> nat" where
  "text_code [] = 0"
| "text_code (c # cs) = Suc (of_char c) + 257 * text_code cs"

lemma text_code_inj: "text_code xs = text_code ys \<Longrightarrow> xs = ys"
proof (induction xs arbitrary: ys)
  case Nil
  then show ?case by (cases ys) auto
next
  case (Cons c cs)
  from Cons.prems obtain e es where ys: "ys = e # es" by (cases ys) auto
  have lt: "Suc (of_char z) < (257 :: nat)" for z :: char
    using mod_less_divisor [of 256 "of_char z :: nat"] by (simp add: of_char_mod_256)
  have split: "(Suc (of_char z) + 257 * n) mod 257 = Suc (of_char z)" "(Suc (of_char z) + 257 * n) div 257 = n"
    for z :: char and n :: nat
  proof -
    have "(a + 257 * n) mod 257 = a" "(a + 257 * n) div 257 = n" if "a < 257" for a n :: nat using that by simp_all
    from this [OF lt [of z]] show "(Suc (of_char z) + 257 * n) mod 257 = Suc (of_char z)"
      "(Suc (of_char z) + 257 * n) div 257 = n" by blast+
  qed
  have "Suc (of_char c) = Suc (of_char e)" "text_code cs = text_code es"
    using Cons.prems split [of c "text_code cs"] split [of e "text_code es"] unfolding ys text_code.simps by metis+
  with Cons.IH ys show ?case by simp
qed

definition sample_plan_ids :: "nat \<Rightarrow> plan_ids" where
  "sample_plan_ids n = \<lparr>pi_roadmap = n, pi_phase = (\<lambda>k. n + 10 * text_code k), pi_step = (\<lambda>k. n + 10 * text_code k),
     pi_revision = n, pi_event = (\<lambda>j. n + 10 * j), pi_task = (\<lambda>j. n + 10 * j), pi_link = (\<lambda>j. n + 10 * j)\<rparr>"

lemma sample_plan_ids_fresh:
  assumes "\<forall>p \<in> set (pl_phases pl). ph_id p mod 10 \<noteq> n" and "\<forall>s \<in> set (pl_steps pl). sp_id s mod 10 \<noteq> n" and "n < 10"
  shows "fresh_ids (sample_plan_ids n) pl"
proof -
  have "n + 10 * m \<noteq> x" if "x mod 10 \<noteq> n" for m x :: nat using that assms(3) by auto
  then show ?thesis
    using assms(1,2) text_code_inj by (fastforce simp: fresh_ids_def sample_plan_ids_def inj_def)
qed

lemma outcome_value: "\<not> isl (snd x) \<Longrightarrow> \<exists>v. x = (fst x, Inr v)"
  by (cases x; cases "snd x") auto

definition reviewer :: principal where
  "reviewer = sample_principal\<lparr>p_role := Role_ADMIN\<rparr>"

definition by_hand :: write_provenance where
  "by_hand = \<lparr>wp_origin = RO_MANUAL, wp_agent_id = None\<rparr>"

definition sample_tasks :: "task_plan_item list" where
  "sample_tasks = [\<lparr>tp_hydration_key = ''t'', tp_title = ''T'', tp_description = None\<rparr>]"

definition sample_step :: "string \<Rightarrow> string list \<Rightarrow> task_plan_item list \<Rightarrow> step_content" where
  "sample_step key deps tasks = \<lparr>sc_key = key, sc_title = key, sc_objective = Some [], sc_context = None,
     sc_instructions = None, sc_acceptance_criteria = [], sc_notes = None, sc_metadata = [],
     sc_depends_on = deps, sc_tasks = tasks\<rparr>"

definition sample_document :: roadmap_document where
  "sample_document = \<lparr>rd_title = ''Plan'', rd_objective = Some [], rd_context = None, rd_metadata = [],
     rd_phases = [\<lparr>pc_key = ''p'', pc_title = ''P'', pc_objective = None,
         pc_steps = [sample_step ''a'' [] sample_tasks, sample_step ''b'' [''a''] []]\<rparr>,
       \<lparr>pc_key = ''q'', pc_title = ''Q'', pc_objective = None, pc_steps = [sample_step ''c'' [''b'', ''a''] []]\<rparr>],
     rd_exported_at = None, rd_revision_no = None\<rparr>"

definition empty_plan :: plan_db where
  "empty_plan = \<lparr>pl_db = empty_db\<lparr>db_projects := [5], db_tasks := [sample_task]\<rparr>, pl_roadmaps = [], pl_phases = [],
     pl_steps = [], pl_deps = [], pl_links = [], pl_revisions = []\<rparr>"

definition sample_import :: roadmap_import where
  "sample_import = \<lparr>im_project_id = 5, im_document = sample_document, im_submit = False, im_provenance = by_hand\<rparr>"

definition imported_sample :: plan_db where
  "imported_sample = fst (import_roadmap empty_plan reviewer 0 (sample_plan_ids 1) sample_import)"

lemma empty_plan_unused: "unused_ids (sample_plan_ids n) empty_plan" if "n < 10"
  using that sample_plan_ids_fresh [of empty_plan n] by (simp add: unused_ids_def empty_plan_def)

lemma empty_plan_reachable: "plan_reachable empty_plan"
  unfolding empty_plan_def by (rule plan_reachable.start)

lemma empty_plan_wf: "tables_wf empty_plan" "rows_owned empty_plan"
  using plan_reachable_wf [OF empty_plan_reachable] by (simp_all add: plan_wf_def)

lemma import_sample_ok: "\<exists>view. import_roadmap empty_plan reviewer 0 (sample_plan_ids 1) sample_import = (imported_sample, Inr view)"
proof -
  have "\<not> isl (snd (import_roadmap empty_plan reviewer 0 (sample_plan_ids 1) sample_import))" by code_simp
  then show ?thesis unfolding imported_sample_def by (rule outcome_value)
qed

lemma imported_reachable: "plan_reachable imported_sample"
  unfolding imported_sample_def
  by (intro plan_reachable.step [OF empty_plan_reachable] plan_step.import_roadmap empty_plan_unused) simp

text \<open>What the imported plan holds, computed once.\<close>

definition sample_facts :: "plan_db \<Rightarrow> bool" where
  "sample_facts pl \<longleftrightarrow> length (pl_steps pl) = 3 \<and>
     map_option (\<lambda>r. ry_current_step_key (build_summary (load_tree pl r))) (get_roadmap_row pl 1) = Some (Some ''a'')"

lemma imported_facts: "sample_facts imported_sample" by code_simp

subsection \<open>Import and the invariant\<close>

lemma import_export_roundtrip_witness:
  "export_roadmap imported_sample reviewer 9 1
    = Inr ((normal_document sample_document)\<lparr>rd_exported_at := Some 9, rd_revision_no := Some 0\<rparr>)"
proof -
  obtain view where "import_roadmap empty_plan reviewer 0 (sample_plan_ids 1) sample_import = (imported_sample, Inr view)"
    using import_sample_ok by blast
  from import_export_roundtrip [OF empty_plan_wf empty_plan_unused this, of reviewer 9]
  show ?thesis
    by (simp add: sample_import_def sample_plan_ids_def ensure_project_access_def has_project_access_def
        reviewer_def sample_principal_def raise_if_def)
qed



lemma plan_never_stuck_witness:
  "plan_reachable imported_sample \<and> (\<exists>r. get_roadmap_row imported_sample 1 = Some r \<and>
     ry_current_step_key (build_summary (load_tree imported_sample r)) = Some ''a'' \<and>
     (\<exists>s \<in> set (roadmap_steps imported_sample r). \<not> step_finished (tree_state (load_tree imported_sample r) s)))"
proof -
  from imported_facts obtain r where "get_roadmap_row imported_sample 1 = Some r"
    "ry_current_step_key (build_summary (load_tree imported_sample r)) = Some ''a''" by (auto simp: sample_facts_def)
  then show ?thesis using plan_never_stuck [OF imported_reachable, of r] imported_reachable by auto
qed


subsection \<open>An active roadmap under review\<close>

definition sample_prov :: provenance_cols where
  "sample_prov = \<lparr>pv_origin = RO_MANUAL, pv_actor_type = Actor_user, pv_actor_id = 1, pv_agent_id = None,
     pv_machine_id = Some 10\<rparr>"

definition sample_roadmap :: roadmap_row where
  "sample_roadmap = \<lparr>rm_id = 1, rm_project_id = 5, rm_title = ''Plan'', rm_objective = None, rm_context = None,
     rm_status = RS_ACTIVE, rm_metadata = [], rm_revision_no = 1, rm_approved_revision_no = Some 1, rm_version = 7,
     rm_created_at = 0, rm_prov = sample_prov\<rparr>"

definition sample_phase :: phase_row where
  "sample_phase = \<lparr>ph_id = 11, ph_roadmap_id = 1, ph_key = ''p'', ph_position = 0, ph_title = ''P'', ph_objective = None,
     ph_version = 1, ph_prov = sample_prov\<rparr>"

definition step_a :: step_row where
  "step_a = \<lparr>sp_id = 21, sp_roadmap_id = 1, sp_phase_id = 11, sp_key = ''a'', sp_position = 0, sp_title = ''A'',
     sp_objective = None, sp_context = None, sp_instructions = None, sp_acceptance_criteria = [],
     sp_criteria_checked = [], sp_notes = None, sp_metadata = [], sp_task_plan = sample_tasks,
     sp_state_override = None, sp_state_override_reason = None, sp_version = 1, sp_prov = sample_prov\<rparr>"

definition step_b :: step_row where
  "step_b = step_a\<lparr>sp_id := 22, sp_key := ''b'', sp_position := 1, sp_title := ''B'', sp_task_plan := []\<rparr>"

definition proposed_document :: roadmap_document where
  "proposed_document = \<lparr>rd_title = ''New plan'', rd_objective = None, rd_context = None, rd_metadata = [],
     rd_phases = [\<lparr>pc_key = ''p'', pc_title = ''P'', pc_objective = None,
       pc_steps = [sample_step ''c'' [] [], sample_step ''a'' [''c''] sample_tasks]\<rparr>],
     rd_exported_at = None, rd_revision_no = None\<rparr>"

definition sample_proposal :: revision_row where
  "sample_proposal = \<lparr>rn_id = 42, rn_roadmap_id = 1, rn_revision_no = 2, rn_kind = RK_PROPOSAL,
     rn_status = Some RN_PENDING, rn_base_revision_no = Some 1, rn_summary = None, rn_content = Some proposed_document,
     rn_reviewed_by_user_id = None, rn_reviewed_at = None, rn_review_comment = None, rn_prov = sample_prov\<rparr>"

definition plan_sample :: "roadmap_row \<Rightarrow> plan_db" where
  "plan_sample r = empty_plan\<lparr>pl_roadmaps := [r], pl_phases := [sample_phase], pl_steps := [step_a, step_b],
     pl_deps := [\<lparr>dp_step_id = 22, dp_depends_on_step_id = 21, dp_roadmap_id = 1\<rparr>], pl_revisions := [sample_proposal]\<rparr>"

lemma plan_sample_wf: "tables_wf (plan_sample r)"
proof -
  have "acyclic (edges_of [\<lparr>dp_step_id = 22, dp_depends_on_step_id = 21, dp_roadmap_id = 1\<rparr>])"
    using acyclic_add_source [of "{}" "22 :: nat" "{21}"] by (simp add: edges_of_def acyclic_def)
  then show ?thesis
    by (simp add: tables_wf_def plan_sample_def sample_phase_def step_a_def step_b_def tbl_wf_def step_slot_def
        steps_placed_def deps_inside_def step_in_def)
qed

lemma plan_sample_fresh: "fresh_ids (sample_plan_ids n) (plan_sample r)" if "n < 10" "n \<noteq> 1" "n \<noteq> 2"
  using that by (intro sample_plan_ids_fresh) (simp_all add: plan_sample_def sample_phase_def step_a_def step_b_def)

definition approval :: proposal_review where
  "approval = \<lparr>pw_decision = RD_APPROVE, pw_expected_version = 7, pw_comment = None\<rparr>"

definition approved_sample :: plan_db where
  "approved_sample = fst (review_proposal (plan_sample sample_roadmap) reviewer 5 (sample_plan_ids 4) 1 2 approval)"

lemma approval_sample_ok:
  "\<exists>view. review_proposal (plan_sample sample_roadmap) reviewer 5 (sample_plan_ids 4) 1 2 approval = (approved_sample, Inr view)"
proof -
  have "\<not> isl (snd (review_proposal (plan_sample sample_roadmap) reviewer 5 (sample_plan_ids 4) 1 2 approval))" by code_simp
  then show ?thesis unfolding approved_sample_def by (rule outcome_value)
qed

lemma plan_sample_rows:
  "get_roadmap_row (plan_sample sample_roadmap) 1 = Some sample_roadmap"
  "proposal_at (plan_sample sample_roadmap) 1 2 = Some sample_proposal"
  by (simp_all add: get_roadmap_row_def plan_sample_def sample_roadmap_def proposal_at_def revisions_of_def sample_proposal_def)


lemma approval_keeps_header_witness:
  "\<exists>r'. get_roadmap_row approved_sample 1 = Some r' \<and> rm_approved_revision_no r' = Some 2 \<and>
     rd_title (build_document (load_tree approved_sample r')) = ''Plan'' \<and> rd_title proposed_document = ''New plan''"
proof -
  obtain view where ok: "review_proposal (plan_sample sample_roadmap) reviewer 5 (sample_plan_ids 4) 1 2 approval
      = (approved_sample, Inr view)" using approval_sample_ok by blast
  from approval_keeps_header [OF plan_sample_rows _ ok] show ?thesis
    by (auto simp: sample_proposal_def approval_def sample_roadmap_def build_document_def proposed_document_def Let_def)
qed

subsection \<open>The same roadmap as a draft\<close>

definition draft_sample :: roadmap_row where
  "draft_sample = sample_roadmap\<lparr>rm_status := RS_DRAFT\<rparr>"

definition revision_request :: proposal_create where
  "revision_request = \<lparr>pp_base_revision_no = 1, pp_document = proposed_document, pp_submit = False, pp_summary = None,
     pp_provenance = by_hand\<rparr>"

definition revised_sample :: plan_db where
  "revised_sample = fst (create_proposal (plan_sample draft_sample) reviewer 5 (sample_plan_ids 4) 1 revision_request)"

lemma draft_revision_replaces_witness:
  "\<exists>r'. get_roadmap_row revised_sample 1 = Some r' \<and> rm_status r' = RS_DRAFT \<and>
     build_document (load_tree revised_sample r') = normal_document proposed_document"
proof -
  have "\<not> isl (snd (create_proposal (plan_sample draft_sample) reviewer 5 (sample_plan_ids 4) 1 revision_request))"
    by code_simp
  then obtain v where ok: "create_proposal (plan_sample draft_sample) reviewer 5 (sample_plan_ids 4) 1 revision_request
      = (revised_sample, Inr v)" unfolding revised_sample_def using outcome_value by blast
  have "get_roadmap_row (plan_sample draft_sample) 1 = Some draft_sample"
    by (simp add: get_roadmap_row_def plan_sample_def draft_sample_def sample_roadmap_def)
  from draft_revision_replaces [OF plan_sample_wf plan_sample_fresh this _ ok] show ?thesis
    by (auto simp: draft_sample_def revision_request_def)
qed

subsection \<open>Hydration of the active roadmap\<close>

definition hydrate_all :: hydration_apply where
  "hydrate_all = \<lparr>ha_step_keys = None, ha_expected_version = 7, ha_provenance = by_hand\<rparr>"

definition hydrated_sample :: plan_db where
  "hydrated_sample = fst (apply_hydration (plan_sample sample_roadmap) reviewer 5 (sample_plan_ids 4) 1 hydrate_all)"

lemma task_ids_fresh: "fresh_task_ids (sample_plan_ids n) pl"
  if "n < 10" "\<forall>t \<in> set (db_tasks (pl_db pl)). t_id t mod 10 \<noteq> n"
proof -
  have "n + 10 * m \<noteq> x" if "x mod 10 \<noteq> n" for m x :: nat using that \<open>n < 10\<close> by auto
  then show ?thesis using that(2) by (fastforce simp: fresh_task_ids_def sample_plan_ids_def inj_def)
qed

lemma hydration_sample_ok:
  "\<exists>res. apply_hydration (plan_sample sample_roadmap) reviewer 5 (sample_plan_ids 4) 1 hydrate_all = (hydrated_sample, Inr res)
     \<and> hc_create (hy_counts res) = 1"
proof -
  have "map_sum (\<lambda>_. ()) (\<lambda>res. hc_create (hy_counts res))
      (snd (apply_hydration (plan_sample sample_roadmap) reviewer 5 (sample_plan_ids 4) 1 hydrate_all)) = Inr 1" by code_simp
  then show ?thesis
    unfolding hydrated_sample_def
    by (cases "apply_hydration (plan_sample sample_roadmap) reviewer 5 (sample_plan_ids 4) 1 hydrate_all";
        cases "snd (apply_hydration (plan_sample sample_roadmap) reviewer 5 (sample_plan_ids 4) 1 hydrate_all)") auto
qed

lemma sample_tasks_fresh: "fresh_task_ids (sample_plan_ids 4) (plan_sample sample_roadmap)"
  by (rule task_ids_fresh) (simp_all add: plan_sample_def empty_plan_def sample_task_def)

lemma hydration_applies_preview_witness:
  "\<exists>prev ts. preview_hydration (plan_sample sample_roadmap) reviewer 1 None = Inr prev \<and> hc_create (hy_counts prev) = 1 \<and>
     db_tasks (pl_db hydrated_sample) = db_tasks (pl_db (plan_sample sample_roadmap)) @ ts \<and> length ts = 1"
proof -
  have "\<not> isl (preview_hydration (plan_sample sample_roadmap) reviewer 1 None)" by code_simp
  then obtain prev where prev: "preview_hydration (plan_sample sample_roadmap) reviewer 1 (ha_step_keys hydrate_all) = Inr prev"
    by (cases "preview_hydration (plan_sample sample_roadmap) reviewer 1 None") (auto simp: hydrate_all_def)
  obtain res where ok: "apply_hydration (plan_sample sample_roadmap) reviewer 5 (sample_plan_ids 4) 1 hydrate_all
      = (hydrated_sample, Inr res)" "hc_create (hy_counts res) = 1" using hydration_sample_ok by blast
  from hydration_applies_preview [OF sample_tasks_fresh prev ok(1)] obtain ts created where
    "hy_counts res = hy_counts prev" "db_tasks (pl_db hydrated_sample) = db_tasks (pl_db (plan_sample sample_roadmap)) @ ts"
    "length created = hc_create (hy_counts prev)"
    "list_all2 (\<lambda>t e. \<exists>r. get_roadmap_row (plan_sample sample_roadmap) 1 = Some r \<and> new_task_of (rm_project_id r) t e) ts created"
    by blast
  with prev ok(2) show ?thesis by (auto simp: hydrate_all_def dest: list_all2_lengthD)
qed

lemma hydration_idempotent_witness:
  "fst (apply_hydration hydrated_sample reviewer 6 (sample_plan_ids 5) 1 hydrate_all) = hydrated_sample"
proof -
  obtain res where ok: "apply_hydration (plan_sample sample_roadmap) reviewer 5 (sample_plan_ids 4) 1 hydrate_all
      = (hydrated_sample, Inr res)" using hydration_sample_ok by blast
  have "\<not> isl (snd (apply_hydration hydrated_sample reviewer 6 (sample_plan_ids 5) 1 hydrate_all))" by code_simp
  then obtain pl'' res' where again: "apply_hydration hydrated_sample reviewer 6 (sample_plan_ids 5) 1 hydrate_all = (pl'', Inr res')"
    using outcome_value by metis
  have fresh: "fresh_task_ids (sample_plan_ids 5) hydrated_sample"
  proof (rule task_ids_fresh)
    have "list_all (\<lambda>t. t_id t mod 10 \<noteq> 5) (db_tasks (pl_db hydrated_sample))" by code_simp
    then show "\<forall>t \<in> set (db_tasks (pl_db hydrated_sample)). t_id t mod 10 \<noteq> 5" by (simp add: list_all_iff)
  qed simp
  have "links_to_tasks (plan_sample sample_roadmap)" by (simp add: links_to_tasks_def plan_sample_def empty_plan_def)
  from hydration_idempotent [OF plan_sample_wf this sample_tasks_fresh fresh ok again refl] again show ?thesis by simp
qed

end
