(* ===== verification/Claims.thy ===== *)
theory Claims
  imports Tasks "HOL-Library.Sublist"
begin

section \<open>Resource claims (\<open>services/claims.py\<close>)\<close>

text \<open>
  Soft locks on files and folders: they warn, never block. A claim is live while its status
  is \<open>active\<close> and its expiry lies ahead. A handler gets the row its session loaded
  (\<open>claim\<close>) without a lock: it decides on that copy and its \<open>UPDATE\<close> writes only the
  changed columns of the stored row (\<open>update_claim_row\<close>). The path overlap rule is refined
  to prefixes of path components, and \<open>overlap\<close> is the interface its consumers rely on.
\<close>

subsection \<open>Overlap\<close>

definition rstrip_slash :: "string \<Rightarrow> string" where
  "rstrip_slash s = rev (dropWhile (\<lambda>c. c = CHR ''/'') (rev s))"

definition claim_conflicts :: "string \<Rightarrow> resource_type \<Rightarrow> string \<Rightarrow> resource_type \<Rightarrow> bool" where
  "claim_conflicts a_path a_type b_path b_type =
     (if a_path = b_path then True
      else if a_type = ResourceType_FOLDER
              \<and> starts_with b_path (rstrip_slash a_path @ ''/'') then True
      else if b_type = ResourceType_FOLDER
              \<and> starts_with a_path (rstrip_slash b_path @ ''/'') then True
      else False)"

definition paths_conflict :: "string \<Rightarrow> resource_type \<Rightarrow> string \<Rightarrow> resource_type \<Rightarrow> bool" where
  "paths_conflict = claim_conflicts"

subsection \<open>Reads\<close>

definition active_claims :: "db \<Rightarrow> timestamp \<Rightarrow> uuid \<Rightarrow> claim_row list" where
  "active_claims d now project_id =
     filter (\<lambda>c. c_project_id c = project_id \<and> c_status c = ClaimStatus_ACTIVE
        \<and> now < c_expires_at c) (db_claims d)"

definition list_claims :: "db \<Rightarrow> principal \<Rightarrow> uuid option \<Rightarrow> claim_row list fallible" where
  "list_claims d p project_id =
     (case project_id of
        Some pid \<Rightarrow>
          and_then (ensure_project_access p pid ReadAction)
            (Inr (filter (\<lambda>c. c_project_id c = pid) (db_claims d)))
      | None \<Rightarrow> Inr (where_clause (project_clause_of c_project_id p) (db_claims d)))"

definition claims_clash :: "claim_row \<Rightarrow> claim_row \<Rightarrow> bool" where
  "claims_clash a b =
     claim_conflicts (c_resource_path a) (c_resource_type a) (c_resource_path b) (c_resource_type b)"

definition has_conflict :: "db \<Rightarrow> timestamp \<Rightarrow> claim_row \<Rightarrow> bool" where
  "has_conflict d now claim =
     list_ex (\<lambda>other. c_id other \<noteq> c_id claim \<and> claims_clash claim other)
       (active_claims d now (c_project_id claim))"

definition get_claim :: "db \<Rightarrow> uuid \<Rightarrow> claim_row fallible" where
  "get_claim d claim_id =
     (case get_claim_row d claim_id of
        None \<Rightarrow> Inl (HTTPException 404 (JText ''claim not found''))
      | Some c \<Rightarrow> Inr c)"

subsection \<open>Writes\<close>

fun opt_uuid :: "uuid option \<Rightarrow> jval" where
  "opt_uuid None = JNull"
| "opt_uuid (Some u) = JUuid u"

definition claim_payload :: "claim_row \<Rightarrow> (string \<times> jval) list" where
  "claim_payload c =
     [(''claim_id'', JUuid (c_id c)),
      (''resource_path'', JText (c_resource_path c)),
      (''resource_type'', JText (resource_type_value (c_resource_type c))),
      (''status'', JText (claim_status_value (c_status c))),
      (''claimed_by_machine_id'', JUuid (c_claimed_by_machine_id c)),
      (''expires_at'', JTime (c_expires_at c))]"

text \<open>The \<open>UPDATE\<close> of some columns of one row; an update that matches no row is an error.\<close>

definition update_claim_row :: "db \<Rightarrow> uuid \<Rightarrow> (claim_row \<Rightarrow> claim_row) \<Rightarrow> db option" where
  "update_claim_row d k f =
     (case get_claim_row d k of None \<Rightarrow> None | Some c \<Rightarrow> Some (put_claim (f c) d))"

definition claim_commit_with_event ::
  "db \<Rightarrow> principal \<Rightarrow> timestamp \<Rightarrow> uuid \<Rightarrow> claim_row \<Rightarrow> event_type \<Rightarrow> (string \<times> jval) list \<Rightarrow> db"
where
  "claim_commit_with_event d p now eid claim event_type extra =
     (let (actor_type, actor_id) = event_actor d p (c_claimed_by_agent_id claim);
          (d1, ev) = stage_event d
            \<lparr>e_id = Uuid4 eid, e_type = event_type, e_project_id = c_project_id claim,
             e_task_id = c_task_id claim, e_machine_id = Some (m_id (p_machine p)),
             e_actor_type = actor_type, e_actor_id = actor_id, e_client_timestamp = now,
             e_payload = claim_payload claim @ extra\<rparr>
      in publish_event ev d1)"

definition authorize_create_claim :: "principal \<Rightarrow> uuid \<Rightarrow> unit fallible" where
  "authorize_create_claim p project_id =
     and_then (ensure_project_access p project_id WriteAction) (ensure_can_write p ''claim'')"

record claim_create =
  cc_project_id :: uuid
  cc_task_id :: "uuid option"
  cc_resource_path :: string
  cc_resource_type :: resource_type
  cc_ttl_seconds :: int

definition create_claim ::
  "db \<Rightarrow> principal \<Rightarrow> timestamp \<Rightarrow> uuid \<Rightarrow> uuid \<Rightarrow> claim_create \<Rightarrow> uuid \<Rightarrow> uuid option
     \<Rightarrow> (db, claim_row) outcome" where
  "create_claim d p now new_id eid claim_in machine_id agent_id =
     guarded (authorize_create_claim p (cc_project_id claim_in)) d
       (let claim = \<lparr>c_id = new_id, c_project_id = cc_project_id claim_in,
              c_task_id = cc_task_id claim_in, c_resource_path = cc_resource_path claim_in,
              c_resource_type = cc_resource_type claim_in, c_claimed_by_machine_id = machine_id,
              c_claimed_by_agent_id = agent_id, c_status = ClaimStatus_ACTIVE,
              c_ttl_seconds = cc_ttl_seconds claim_in, c_renewed_at = None,
              c_expires_at = now + seconds (cc_ttl_seconds claim_in), c_released_at = None\<rparr>
        in (claim_commit_with_event (put_claim claim d) p now eid claim RESOURCE_CLAIMED [],
            Inr claim))"

definition renew_claim ::
  "db \<Rightarrow> principal \<Rightarrow> timestamp \<Rightarrow> uuid \<Rightarrow> claim_row \<Rightarrow> (db, claim_row) outcome" where
  "renew_claim d p now eid claim =
     guarded (and_then (ensure_project_access p (c_project_id claim) WriteAction)
        (ensure_machine_owned p (Some (c_claimed_by_machine_id claim)) ''claim'' ''renew'')) d
       (if c_status claim = ClaimStatus_RELEASED then (d, Inr claim)
        else
          (let f = (\<lambda>c. c\<lparr>c_renewed_at := Some now,
                        c_expires_at := now + seconds (c_ttl_seconds claim)\<rparr>)
           in case update_claim_row d (c_id claim) f of
                None \<Rightarrow> (d, Inl refresh_error)
              | Some d1 \<Rightarrow>
                  (claim_commit_with_event d1 p now eid (f claim) RESOURCE_RENEWED [],
                   Inr (f claim))))"

definition release_claim ::
  "db \<Rightarrow> principal \<Rightarrow> timestamp \<Rightarrow> uuid \<Rightarrow> claim_row \<Rightarrow> (db, claim_row) outcome" where
  "release_claim d p now eid claim =
     guarded (and_then (ensure_project_access p (c_project_id claim) WriteAction)
        (ensure_machine_owned p (Some (c_claimed_by_machine_id claim)) ''claim'' ''release'')) d
       (if c_status claim = ClaimStatus_RELEASED then (d, Inr claim)
        else
          (let f = (\<lambda>c. c\<lparr>c_status := ClaimStatus_RELEASED, c_released_at := Some now\<rparr>)
           in case update_claim_row d (c_id claim) f of
                None \<Rightarrow> (d, Inl refresh_error)
              | Some d1 \<Rightarrow>
                  (claim_commit_with_event d1 p now eid (f claim) RESOURCE_RELEASED
                     [(''previous_status'', JText (claim_status_value (c_status claim)))],
                   Inr (f claim))))"

text \<open>The server-side release stages its event without committing: the caller commits. Its
  event id derives from the claim id alone.\<close>

definition claim_released_event :: "claim_row \<Rightarrow> claim_row \<Rightarrow> uuid \<Rightarrow> timestamp \<Rightarrow> event_row" where
  "claim_released_event claim claim' emitter now =
     \<lparr>e_id = Uuid5 ''studio-os/claim-released'' [JUuid (c_id claim)],
      e_type = RESOURCE_RELEASED, e_project_id = c_project_id claim,
      e_task_id = c_task_id claim, e_machine_id = Some emitter,
      e_actor_type = Actor_system, e_actor_id = emitter, e_client_timestamp = now,
      e_payload = claim_payload claim'
        @ [(''previous_status'', JText (claim_status_value (c_status claim)))]\<rparr>"

definition release_claim_server_side ::
  "db \<Rightarrow> timestamp \<Rightarrow> claim_row \<Rightarrow> uuid \<Rightarrow> db \<times> claim_row" where
  "release_claim_server_side d now claim emitter_machine_id =
     (if c_status claim = ClaimStatus_RELEASED then (d, claim)
      else
        (let f = (\<lambda>c. c\<lparr>c_status := ClaimStatus_RELEASED, c_released_at := Some now\<rparr>);
             d1 = (case update_claim_row d (c_id claim) f of None \<Rightarrow> d | Some d1 \<Rightarrow> d1)
         in (fst (stage_event d1 (claim_released_event claim (f claim) emitter_machine_id now)),
             f claim)))"

fun release_each ::
  "db \<Rightarrow> principal \<Rightarrow> timestamp \<Rightarrow> (nat \<Rightarrow> uuid) \<Rightarrow> nat \<Rightarrow> claim_row list
     \<Rightarrow> (db, claim_row list) outcome" where
  "release_each d p now eids i [] = (d, Inr [])"
| "release_each d p now eids i (c # cs) =
     (case release_claim d p now (eids i) c of
        (d1, Inl e) \<Rightarrow> (d1, Inl e)
      | (d1, Inr c') \<Rightarrow>
          (case release_each d1 p now eids (Suc i) cs of
             (d2, Inl e) \<Rightarrow> (d2, Inl e)
           | (d2, Inr cs') \<Rightarrow> (d2, Inr (c' # cs'))))"

definition task_claim_releasable :: "principal \<Rightarrow> task_row \<Rightarrow> uuid option \<Rightarrow> claim_row \<Rightarrow> bool" where
  "task_claim_releasable p task agent_id claim \<longleftrightarrow>
     c_claimed_by_machine_id claim = m_id (p_machine p)
     \<and> \<not> (c_claimed_by_agent_id claim \<noteq> agent_id
          \<and> (c_claimed_by_agent_id claim \<noteq> None
             \<or> t_claimed_by_agent_id task \<notin> {None, agent_id}))"

definition release_task_claims_by_task ::
  "db \<Rightarrow> principal \<Rightarrow> timestamp \<Rightarrow> (nat \<Rightarrow> uuid) \<Rightarrow> task_row \<Rightarrow> uuid option
     \<Rightarrow> (db, claim_row list) outcome" where
  "release_task_claims_by_task d p now eids task agent_id =
     guarded (ensure_project_access p (t_project_id task) WriteAction) d
       (release_each d p now eids 0
          (filter (task_claim_releasable p task agent_id)
            (filter (\<lambda>c. c_task_id c = Some (t_id task) \<and> c_status c = ClaimStatus_ACTIVE)
              (db_claims d))))"

subsection \<open>The overlap interface\<close>

locale overlap =
  fixes clash :: "'r \<Rightarrow> 'r \<Rightarrow> bool"
  assumes clash_refl: "clash a a"
    and clash_sym: "clash a b \<Longrightarrow> clash b a"
begin

lemma mutual: "clash a b \<longleftrightarrow> clash b a"
  by (blast intro: clash_sym)

lemma seen_by_both:
  "a \<in> set rs \<Longrightarrow> b \<in> set rs \<Longrightarrow> clash a b \<Longrightarrow>
     list_ex (clash a) (filter (\<lambda>r. r = b) rs) \<and> list_ex (clash b) (filter (\<lambda>r. r = a) rs)"
  by (auto simp: list_ex_iff intro: clash_sym)

end

interpretation claim_overlap: overlap claims_clash
  by unfold_locales (auto simp: claims_clash_def claim_conflicts_def split: if_splits)

subsection \<open>Overlap of path components\<close>

text \<open>A path is a non-empty list of components without separators; \<open>path_text a n\<close> spells it
  with \<open>n\<close> trailing slashes.\<close>

definition component :: "string \<Rightarrow> bool" where
  "component c \<longleftrightarrow> c \<noteq> [] \<and> CHR ''/'' \<notin> set c"

fun join_path :: "string list \<Rightarrow> string" where
  "join_path [] = []"
| "join_path [c] = c"
| "join_path (c # cs) = c @ ''/'' @ join_path cs"

definition path_text :: "string list \<Rightarrow> nat \<Rightarrow> string" where
  "path_text a n = join_path a @ replicate n (CHR ''/'')"

definition wf_path :: "string list \<Rightarrow> bool" where
  "wf_path a \<longleftrightarrow> a \<noteq> [] \<and> (\<forall>c \<in> set a. component c)"

lemma starts_with_prefix: "starts_with s p \<longleftrightarrow> prefix p s"
  by (auto simp: starts_with_def prefix_def) (metis append_take_drop_id)

lemma prefix_component:
  assumes "CHR ''/'' \<notin> set x" and "CHR ''/'' \<notin> set y"
  shows "prefix (x @ CHR ''/'' # t) (y @ CHR ''/'' # s) \<longleftrightarrow> x = y \<and> prefix t s"
  using assms
proof (induction x arbitrary: y)
  case Nil
  then show ?case by (cases y) auto
next
  case (Cons c x)
  then show ?case by (cases y) auto
qed

lemma prefix_last_component:
  assumes "CHR ''/'' \<notin> set x" and "CHR ''/'' \<notin> set y"
  shows "prefix (x @ CHR ''/'' # t) (y @ replicate m (CHR ''/''))
     \<longleftrightarrow> x = y \<and> 0 < m \<and> prefix t (replicate (m - 1) (CHR ''/''))"
proof (cases m)
  case 0
  with assms(2) show ?thesis by (auto simp: prefix_def)
next
  case (Suc k)
  with prefix_component [OF assms] show ?thesis by simp
qed

lemma join_path_ends: "wf_path a \<Longrightarrow> join_path a \<noteq> [] \<and> last (join_path a) \<noteq> CHR ''/''
    \<and> hd (join_path a) \<noteq> CHR ''/''"
  by (induction a rule: join_path.induct)
    (auto simp: wf_path_def component_def, (metis hd_in_set last_in_set)+)

lemma rstrip_slash_path_text: "wf_path a \<Longrightarrow> rstrip_slash (path_text a n) = join_path a"
proof -
  assume "wf_path a"
  then have "rev (join_path a) \<noteq> []" and "hd (rev (join_path a)) \<noteq> CHR ''/''"
    using join_path_ends by (auto simp: hd_rev)
  then have "dropWhile (\<lambda>c. c = CHR ''/'') (rev (join_path a)) = rev (join_path a)"
    by (cases "rev (join_path a)") auto
  moreover have "dropWhile (\<lambda>c. c = CHR ''/'') (replicate n (CHR ''/'') @ l)
      = dropWhile (\<lambda>c. c = CHR ''/'') l" for l
    by (induction n) auto
  ultimately show ?thesis by (simp add: rstrip_slash_def path_text_def)
qed

lemma prefix_path_text:
  assumes "wf_path a" and "wf_path b"
  shows "prefix (join_path a @ ''/'') (path_text b m) \<longleftrightarrow> strict_prefix a b \<or> (a = b \<and> 0 < m)"
  using assms
proof (induction a arbitrary: b rule: join_path.induct)
  case (2 c)
  show ?case
  proof (cases b rule: join_path.cases)
    case (2 y)
    with "2.prems" show ?thesis
      by (auto simp: wf_path_def component_def path_text_def prefix_last_component strict_prefix_def)
  next
    case (3 y z r)
    with "2.prems" show ?thesis
      using prefix_component [of c y "[]"]
      by (auto simp: wf_path_def component_def path_text_def strict_prefix_def)
  qed (use "2.prems" in \<open>simp add: wf_path_def\<close>)
next
  case (3 c c2 r)
  have wf: "wf_path (c2 # r)" using "3.prems" by (auto simp: wf_path_def)
  show ?case
  proof (cases b rule: join_path.cases)
    case (2 y)
    have "\<not> prefix (join_path (c2 # r) @ ''/'') (replicate k (CHR ''/''))" for k
      using join_path_ends [OF wf] by (cases "join_path (c2 # r)"; cases k) auto
    with 2 "3.prems" show ?thesis
      using prefix_last_component [of c y "join_path (c2 # r) @ ''/''" m]
      by (auto simp: wf_path_def component_def path_text_def strict_prefix_def)
  next
    case (3 y z r')
    have "wf_path (z # r')" using 3 "3.prems" by (auto simp: wf_path_def)
    from "3.IH" [OF wf this] 3 "3.prems" show ?thesis
      using prefix_component [of c y "join_path (c2 # r) @ ''/''"]
      by (auto simp: wf_path_def component_def path_text_def strict_prefix_def)
  qed (use "3.prems" in \<open>simp add: wf_path_def\<close>)
qed (simp add: wf_path_def)

lemma join_path_inj:
  assumes "wf_path a" and "wf_path b" and "path_text a n = path_text b m"
  shows "a = b \<and> n = m"
proof -
  have "join_path a = join_path b"
    using assms rstrip_slash_path_text [of a n] rstrip_slash_path_text [of b m] by simp
  moreover from this assms(3) have "n = m" by (simp add: path_text_def)
  moreover have "prefix (join_path a @ ''/'') (path_text b 1)"
    and "prefix (join_path b @ ''/'') (path_text a 1)"
    using \<open>join_path a = join_path b\<close> by (simp_all add: path_text_def)
  then have "a = b"
    using assms(1,2) by (auto simp: prefix_path_text strict_prefix_def dest: prefix_order.antisym)
  ultimately show ?thesis by blast
qed

subsection \<open>Properties\<close>

text \<open>Property C7. The overlap rule is the tree order on paths, whatever the trailing slashes:
  two claims clash exactly when they name the same path, or one is a folder and the other
  lies strictly below it. A sibling that merely shares a textual prefix (\<open>src\<close> and
  \<open>src2\<close>) never clashes.\<close>

theorem claim_conflicts_is_tree_order:
  assumes "wf_path a" and "wf_path b"
  shows "claim_conflicts (path_text a n) ta (path_text b m) tb \<longleftrightarrow>
     (a = b \<and> (n = m \<or> (ta = ResourceType_FOLDER \<and> 0 < m) \<or> (tb = ResourceType_FOLDER \<and> 0 < n)))
     \<or> (ta = ResourceType_FOLDER \<and> strict_prefix a b)
     \<or> (tb = ResourceType_FOLDER \<and> strict_prefix b a)"
  using assms join_path_inj [OF assms, of n m] prefix_path_text [OF assms, of m]
    prefix_path_text [OF assms(2,1), of n]
  by (auto simp: claim_conflicts_def starts_with_prefix rstrip_slash_path_text)

lemma claim_conflicts_is_tree_order_witness:
  "claim_conflicts (path_text [''src''] 1) ResourceType_FOLDER
      (path_text [''src'', ''a''] 0) ResourceType_FILE
   \<and> \<not> claim_conflicts (path_text [''src''] 0) ResourceType_FOLDER
      (path_text [''src2''] 0) ResourceType_FILE"
  using claim_conflicts_is_tree_order
      [of "[''src'']" "[''src'', ''a'']" 1 ResourceType_FOLDER 0 ResourceType_FILE]
    claim_conflicts_is_tree_order
      [of "[''src'']" "[''src2'']" 0 ResourceType_FOLDER 0 ResourceType_FILE]
  by (simp add: wf_path_def component_def strict_prefix_def)

definition sample_claim :: claim_row where
  "sample_claim = \<lparr>c_id = 40, c_project_id = 5, c_task_id = Some 30, c_resource_path = ''src'',
     c_resource_type = ResourceType_FOLDER, c_claimed_by_machine_id = 10,
     c_claimed_by_agent_id = None, c_status = ClaimStatus_ACTIVE, c_ttl_seconds = 60,
     c_renewed_at = None, c_expires_at = 100, c_released_at = None\<rparr>"

text \<open>Nobody is warned alone: when a live claim has a conflict, there is another
  live claim of the same project it clashes with, and that claim has a conflict too.\<close>

theorem conflict_is_mutual:
  assumes "a \<in> set (active_claims d now pid)" and "has_conflict d now a"
  shows "\<exists>b \<in> set (active_claims d now pid).
    c_id b \<noteq> c_id a \<and> claims_clash b a \<and> has_conflict d now b"
proof -
  from assms obtain b where b: "b \<in> set (active_claims d now pid)" "c_id b \<noteq> c_id a" "claims_clash a b"
    by (auto simp: has_conflict_def list_ex_iff active_claims_def)
  have sym: "claims_clash b a" using b(3) by (rule claim_overlap.clash_sym)
  have "c_project_id b = pid" using b(1) by (simp add: active_claims_def)
  then have "has_conflict d now b"
    using assms(1) b(2) sym unfolding has_conflict_def list_ex_iff
    by (intro bexI [of _ a]) auto
  with b sym show ?thesis by blast
qed

lemma conflict_is_mutual_witness:
  "has_conflict (empty_db\<lparr>db_claims := [sample_claim,
     sample_claim\<lparr>c_id := 41, c_resource_path := ''src/a'', c_resource_type := ResourceType_FILE\<rparr>]\<rparr>) 0
     (sample_claim\<lparr>c_id := 41, c_resource_path := ''src/a'', c_resource_type := ResourceType_FILE\<rparr>)"
proof -
  let ?b = "sample_claim\<lparr>c_id := 41, c_resource_path := ''src/a'', c_resource_type := ResourceType_FILE\<rparr>"
  let ?d = "empty_db\<lparr>db_claims := [sample_claim, ?b]\<rparr>"
  have act: "active_claims ?d 0 5 = [sample_claim, ?b]"
    by (simp add: active_claims_def sample_claim_def)
  have "has_conflict ?d 0 sample_claim"
    by (simp add: has_conflict_def active_claims_def sample_claim_def claims_clash_def
        claim_conflicts_def starts_with_def rstrip_slash_def)
  from conflict_is_mutual [of sample_claim ?d 0 5, OF _ this] act
  show ?thesis by (auto simp: sample_claim_def)
qed

lemma claim_commit_frame [simp, frame_simps]:
  "db_claims (claim_commit_with_event d p now eid c ty ex) = db_claims d"
  "db_tasks (claim_commit_with_event d p now eid c ty ex) = db_tasks d"
  "db_launches (claim_commit_with_event d p now eid c ty ex) = db_launches d"
  by (simp_all add: claim_commit_with_event_def case_prod_beta Let_def)

lemma get_claim_commit [simp]:
  "get_claim_row (claim_commit_with_event d p now eid c ty ex) = get_claim_row d"
  by (simp add: get_claim_row_def fun_eq_iff)

lemma get_claim_row_id: "get_claim_row d k = Some c \<Longrightarrow> c_id c = k"
  unfolding get_claim_row_def by (rule tbl_get_key)

text \<open>A soft lock lives exactly as long as it is renewed: after a successful
  renewal the stored claim is live at every instant before the renewal plus its TTL and at
  none from there on, and a renewal of a released claim changes nothing at all.\<close>

theorem renew_extends_exactly:
  assumes "renew_claim d p now eid claim = (d', Inr c')"
    and "get_claim_row d (c_id claim) = Some claim" and "c_status claim = ClaimStatus_ACTIVE"
  shows "get_claim_row d' (c_id claim) = Some c'
    \<and> (c' \<in> set (active_claims d' t (c_project_id c'))
        \<longleftrightarrow> t < now + seconds (c_ttl_seconds claim))
    \<and> renew_claim d p now eid (claim\<lparr>c_status := ClaimStatus_RELEASED\<rparr>)
        = (d, Inr (claim\<lparr>c_status := ClaimStatus_RELEASED\<rparr>))"
proof -
  let ?c = "claim\<lparr>c_renewed_at := Some now, c_expires_at := now + seconds (c_ttl_seconds claim)\<rparr>"
  have c': "c' = ?c" and d': "db_claims d' = tbl_put c_id ?c (db_claims d)"
    and ok: "has_project_access p (c_project_id claim)"
      "ensure_machine_owned p (Some (c_claimed_by_machine_id claim)) ''claim'' ''renew'' = Inr ()"
    using assms by (auto simp: renew_claim_def guarded_eq_pair update_claim_row_def Let_def
        put_claim_def split: option.splits)
  have g: "get_claim_row d' (c_id claim) = Some ?c"
    using d' by (simp add: get_claim_row_def)
  then have "?c \<in> set (db_claims d')"
    unfolding get_claim_row_def by (rule tbl_get_mem)
  then show ?thesis
    using g c' ok assms(3) by (auto simp: active_claims_def renew_claim_def)
qed

lemma renew_extends_exactly_witness:
  "\<exists>d' c'. renew_claim (empty_db\<lparr>db_claims := [sample_claim]\<rparr>) sample_principal 50 903 sample_claim
       = (d', Inr c') \<and> get_claim_row d' 40 = Some c'"
proof -
  let ?d = "empty_db\<lparr>db_claims := [sample_claim]\<rparr>"
  have g: "get_claim_row ?d (c_id sample_claim) = Some sample_claim"
    by (simp add: get_claim_row_def)
  obtain d' c' where r: "renew_claim ?d sample_principal 50 903 sample_claim = (d', Inr c')"
    using g by (simp add: renew_claim_def update_claim_row_def Let_def ensure_machine_owned_iff
        has_project_access_def sample_principal_def sample_claim_def sample_machine_def)
  from renew_extends_exactly [OF r g] r show ?thesis by (auto simp: sample_claim_def)
qed

text \<open>Overlapping server-side releases converge: two expiries that both loaded the
  claim while it was active, one after the other and at any instants, leave the claim
  released and exactly one \<open>resource.released\<close> row under the claim's derived event id.\<close>

theorem server_release_converges:
  assumes "log_wf d" and "get_claim_row d (c_id claim) = Some claim"
    and "c_status claim = ClaimStatus_ACTIVE"
    and "d1 = fst (release_claim_server_side d now claim m)"
    and "d2 = fst (release_claim_server_side d1 now' claim m')"
  shows "(\<exists>c. get_claim_row d2 (c_id claim) = Some c \<and> c_status c = ClaimStatus_RELEASED)
    \<and> db_events d2 = db_events d1
    \<and> length (filter (\<lambda>e. e_id e = Uuid5 ''studio-os/claim-released'' [JUuid (c_id claim)])
          (db_events d2)) = 1"
proof -
  let ?i = "Uuid5 ''studio-os/claim-released'' [JUuid (c_id claim)]"
  have found: "find_event d1 ?i \<noteq> None"
    using assms(2-4) find_event_staged
    by (simp add: release_claim_server_side_def Let_def update_claim_row_def)
      (metis (no_types, lifting) claim_released_event_def event_row.select_convs(1) option.discI)
  have wf: "log_wf d1"
    using assms(1-4) by (simp add: release_claim_server_side_def Let_def update_claim_row_def)
      (metis log_wf_def log_wf_stage put_claim_frame(4))
  have g1: "\<exists>c. get_claim_row d1 (c_id claim) = Some c"
    using assms(2-4) by (simp add: release_claim_server_side_def Let_def update_claim_row_def)
  have ev: "db_events d2 = db_events d1"
    using assms(3,5) g1 found
    by (auto simp: release_claim_server_side_def Let_def update_claim_row_def stage_event_events
        claim_released_event_def find_event_def)
  obtain e where "find_event d1 ?i = Some e" using found by blast
  with wf have "filter (\<lambda>e. e_id e = ?i) (db_events d1) = [e]"
    unfolding log_wf_def find_event_def by (rule tbl_get_filter)
  moreover obtain c where "get_claim_row d1 (c_id claim) = Some c" and "c_id c = c_id claim"
    using g1 get_claim_row_id by blast
  ultimately show ?thesis
    using ev assms(3,5)
    by (auto simp: release_claim_server_side_def Let_def update_claim_row_def)
qed

lemma server_release_converges_witness:
  "db_events (fst (release_claim_server_side (fst (release_claim_server_side
       (empty_db\<lparr>db_claims := [sample_claim]\<rparr>) 200 sample_claim 10)) 201 sample_claim 10))
   = db_events (fst (release_claim_server_side
       (empty_db\<lparr>db_claims := [sample_claim]\<rparr>) 200 sample_claim 10))"
  using server_release_converges
    [of "empty_db\<lparr>db_claims := [sample_claim]\<rparr>" sample_claim, OF _ _ _ refl refl, of 200 10 201 10]
  by (simp add: log_wf_def tbl_wf_def empty_db_def get_claim_row_def sample_claim_def)

subsection \<open>Releasing the claims of a task\<close>

lemma release_claim_cases:
  assumes "release_claim d p now eid c = (d', r)"
  shows "(d' = d \<and> (\<exists>e. r = Inl e)) \<or> (d' = d \<and> r = Inr c \<and> c_status c = ClaimStatus_RELEASED)
    \<or> (\<exists>s c'. get_claim_row d (c_id c) = Some s \<and> c_id s = c_id c \<and> r = Inr c'
        \<and> db_claims d' = tbl_put c_id
            (s\<lparr>c_status := ClaimStatus_RELEASED, c_released_at := Some now\<rparr>) (db_claims d))"
  using assms
  by (auto simp: release_claim_def guarded_eq_pair update_claim_row_def Let_def put_claim_def
      get_claim_row_id split: option.splits if_splits)

lemma release_each_spec:
  assumes "release_each d p now eids i cs = (d', r)"
  shows "(\<forall>k. k \<notin> c_id ` set cs \<longrightarrow> get_claim_row d' k = get_claim_row d k)
    \<and> (\<forall>k s. get_claim_row d k = Some s \<longrightarrow> (\<exists>s'. get_claim_row d' k = Some s'
         \<and> (c_status s = ClaimStatus_RELEASED \<longrightarrow> c_status s' = ClaimStatus_RELEASED)))
    \<and> (\<forall>rs. r = Inr rs \<longrightarrow> (\<forall>c \<in> set cs. c_status c \<noteq> ClaimStatus_RELEASED \<longrightarrow>
         (\<exists>s'. get_claim_row d' (c_id c) = Some s' \<and> c_status s' = ClaimStatus_RELEASED)))"
  using assms
proof (induction cs arbitrary: d d' i r)
  case (Cons c cs)
  obtain d1 r1 where rel: "release_claim d p now (eids i) c = (d1, r1)"
    by (cases "release_claim d p now (eids i) c")
  have step: "(\<forall>k. k \<noteq> c_id c \<longrightarrow> get_claim_row d1 k = get_claim_row d k)
      \<and> (\<forall>k s. get_claim_row d k = Some s \<longrightarrow> (\<exists>s'. get_claim_row d1 k = Some s'
           \<and> (c_status s = ClaimStatus_RELEASED \<longrightarrow> c_status s' = ClaimStatus_RELEASED)))
      \<and> (\<forall>x. r1 = Inr x \<longrightarrow> c_status c \<noteq> ClaimStatus_RELEASED \<longrightarrow>
           (\<exists>s'. get_claim_row d1 (c_id c) = Some s' \<and> c_status s' = ClaimStatus_RELEASED))"
    using release_claim_cases [OF rel] by (auto simp: get_claim_row_def)
  show ?case
  proof (cases r1)
    case (Inl e)
    with Cons.prems rel have "d' = d1" and "r = Inl e" by auto
    with step show ?thesis by auto
  next
    case (Inr c')
    obtain d2 r2 where rest: "release_each d1 p now eids (Suc i) cs = (d2, r2)"
      by (cases "release_each d1 p now eids (Suc i) cs")
    with Cons.prems rel Inr have d': "d' = d2" and r: "\<And>rs. r = Inr rs \<Longrightarrow> \<exists>rs'. r2 = Inr rs'"
      by (auto split: sum.splits)
    note ih = Cons.IH [OF rest]
    have "\<forall>rs. r = Inr rs \<longrightarrow> c_status c \<noteq> ClaimStatus_RELEASED \<longrightarrow>
        (\<exists>s'. get_claim_row d2 (c_id c) = Some s' \<and> c_status s' = ClaimStatus_RELEASED)"
      using step ih Inr by metis
    moreover have "\<forall>k s. get_claim_row d k = Some s \<longrightarrow> (\<exists>s'. get_claim_row d2 k = Some s'
        \<and> (c_status s = ClaimStatus_RELEASED \<longrightarrow> c_status s' = ClaimStatus_RELEASED))"
      using step ih by metis
    ultimately show ?thesis
      using step ih d' r by (simp add: ball_Un)
  qed
qed auto

text \<open>Releasing the claims of a task is exact: every active claim of the task that
  the caller's machine holds for this agent (or unattributed, when no other agent holds the
  task) ends up released, and every other claim row, of another machine, another agent or
  another task, is left exactly as it was.\<close>

theorem release_task_claims_exact:
  assumes "release_task_claims_by_task d p now eids task ag = (d', Inr rs)"
    and "tbl_wf c_id (db_claims d)" and "c \<in> set (db_claims d)"
  shows "if c_task_id c = Some (t_id task) \<and> c_status c = ClaimStatus_ACTIVE
            \<and> task_claim_releasable p task ag c
         then \<exists>s. get_claim_row d' (c_id c) = Some s \<and> c_status s = ClaimStatus_RELEASED
         else get_claim_row d' (c_id c) = Some c"
proof -
  let ?cs = "filter (task_claim_releasable p task ag)
    (filter (\<lambda>c. c_task_id c = Some (t_id task) \<and> c_status c = ClaimStatus_ACTIVE) (db_claims d))"
  have "release_each d p now eids 0 ?cs = (d', Inr rs)"
    using assms(1) by (simp add: release_task_claims_by_task_def guarded_eq_Inr)
  note spec = release_each_spec [OF this]
  have c: "get_claim_row d (c_id c) = Some c"
    using assms(2,3) by (simp add: get_claim_row_def tbl_get_of_mem)
  show ?thesis
  proof (cases "c \<in> set ?cs")
    case True
    with spec show ?thesis by auto
  next
    case False
    have "c_id c \<notin> c_id ` set ?cs"
      using False assms(2,3) by (auto simp: tbl_wf_def distinct_map inj_on_def)
    with spec c False assms(3) show ?thesis by (simp split: if_splits)
  qed
qed

lemma release_task_claims_exact_witness:
  "\<exists>d' rs s. release_task_claims_by_task (empty_db\<lparr>db_claims := [sample_claim]\<rparr>) sample_principal 7
     (\<lambda>i. 950 + i) sample_task None = (d', Inr rs)
     \<and> get_claim_row d' 40 = Some s \<and> c_status s = ClaimStatus_RELEASED"
proof -
  let ?d = "empty_db\<lparr>db_claims := [sample_claim]\<rparr>"
  obtain d' rs where r: "release_task_claims_by_task ?d sample_principal 7 (\<lambda>i. 950 + i) sample_task None
      = (d', Inr rs)"
    by (simp add: release_task_claims_by_task_def task_claim_releasable_def sample_principal_def
        sample_task_def sample_claim_def sample_machine_def has_project_access_def
        release_claim_def ensure_machine_owned_iff Let_def update_claim_row_def get_claim_row_def)
  from release_task_claims_exact [OF r, of sample_claim] r show ?thesis
    by (auto simp: tbl_wf_def sample_claim_def sample_task_def task_claim_releasable_def
        sample_principal_def sample_machine_def)
qed

end
