(* ===== verification/Launch_Rules.thy ===== *)
theory Launch_Rules
  imports Studio_Data Lifecycle
begin

section \<open>The launch contract (\<open>studio_contracts/task_launch.py\<close>)\<close>

text \<open>
  The closed transition table of a task launch with the actor each transition belongs to,
  its terminal statuses and the bounds of the contract. The table is an instance of
  \<open>one_way_lifecycle\<close>: a launch only moves forward and takes at most four moves.
\<close>

abbreviation LAUNCH_DEFAULT_TTL_SECONDS :: int where "LAUNCH_DEFAULT_TTL_SECONDS \<equiv> 7200"
abbreviation LAUNCH_MAX_TTL_SECONDS :: int where "LAUNCH_MAX_TTL_SECONDS \<equiv> 86400"
abbreviation LAUNCH_MAX_OUTPUT_CHARS :: nat where "LAUNCH_MAX_OUTPUT_CHARS \<equiv> 4000"
abbreviation LAUNCH_POLL_MAX :: nat where "LAUNCH_POLL_MAX \<equiv> 20"

fun launch_terminal :: "launch_status \<Rightarrow> bool" where
  "launch_terminal LS_SUCCEEDED = True"
| "launch_terminal LS_FAILED = True"
| "launch_terminal LS_CANCELLED = True"
| "launch_terminal LS_REJECTED = True"
| "launch_terminal LS_EXPIRED = True"
| "launch_terminal _ = False"

fun allowed_transition :: "launch_status \<Rightarrow> launch_status \<Rightarrow> launch_actor option" where
  "allowed_transition LS_REQUESTED LS_ACCEPTED = Some Actor_MACHINE"
| "allowed_transition LS_REQUESTED LS_REJECTED = Some Actor_MACHINE"
| "allowed_transition LS_REQUESTED LS_CANCELLED = Some Actor_REQUESTER"
| "allowed_transition LS_REQUESTED LS_EXPIRED = Some Actor_SERVER"
| "allowed_transition LS_ACCEPTED LS_PREPARING = Some Actor_MACHINE"
| "allowed_transition LS_ACCEPTED LS_FAILED = Some Actor_MACHINE"
| "allowed_transition LS_ACCEPTED LS_CANCELLED = Some Actor_REQUESTER"
| "allowed_transition LS_ACCEPTED LS_EXPIRED = Some Actor_SERVER"
| "allowed_transition LS_PREPARING LS_RUNNING = Some Actor_MACHINE"
| "allowed_transition LS_PREPARING LS_FAILED = Some Actor_MACHINE"
| "allowed_transition LS_PREPARING LS_CANCELLED = Some Actor_REQUESTER"
| "allowed_transition LS_PREPARING LS_EXPIRED = Some Actor_SERVER"
| "allowed_transition LS_RUNNING LS_SUCCEEDED = Some Actor_MACHINE"
| "allowed_transition LS_RUNNING LS_FAILED = Some Actor_MACHINE"
| "allowed_transition LS_RUNNING LS_CANCELLED = Some Actor_REQUESTER"
| "allowed_transition LS_RUNNING LS_EXPIRED = Some Actor_SERVER"
| "allowed_transition _ _ = None"

definition move_launch :: "launch_status \<Rightarrow> launch_status \<Rightarrow> launch_status option" where
  "move_launch s t = (if allowed_transition s t = None then None else Some t)"

fun launch_stage :: "launch_status \<Rightarrow> nat" where
  "launch_stage LS_REQUESTED = 0"
| "launch_stage LS_ACCEPTED = 1"
| "launch_stage LS_PREPARING = 2"
| "launch_stage LS_RUNNING = 3"
| "launch_stage _ = 4"

lemma allowed_transition_stage:
  "allowed_transition s t \<noteq> None \<Longrightarrow> launch_stage s < launch_stage t"
  by (cases "(s, t)" rule: allowed_transition.cases) auto

lemma allowed_transition_terminal: "launch_terminal s \<Longrightarrow> allowed_transition s t = None"
  by (cases s) auto

lemma launch_stage_terminal: "launch_terminal s \<longleftrightarrow> launch_stage s = 4"
  by (cases s) auto

interpretation launch_lifecycle: one_way_lifecycle move_launch launch_terminal launch_stage
  by unfold_locales
    (use allowed_transition_stage in \<open>auto simp: move_launch_def allowed_transition_terminal
      split: if_splits\<close>)

lemma allowed_transition_server:
  "allowed_transition s t = Some Actor_SERVER \<longleftrightarrow> \<not> launch_terminal s \<and> t = LS_EXPIRED"
  by (cases "(s, t)" rule: allowed_transition.cases) auto

lemma allowed_transition_requester:
  "allowed_transition s t = Some Actor_REQUESTER \<longleftrightarrow> \<not> launch_terminal s \<and> t = LS_CANCELLED"
  by (cases "(s, t)" rule: allowed_transition.cases) auto

end
