(* ===== verification/Budgets.thy ===== *)
theory Budgets
  imports Versioning Launch_Rules
begin

section \<open>Launch budgets (\<open>services/budgets.py\<close>)\<close>

text \<open>
  A project's budget policy, the reservations its admitted launches hold, and the meters
  recomputed from the usage ledger at every read. Admission locks the policy row, settles the
  reservations of finished runs, then admits or refuses; it never writes before the caller's
  commit, so a refusal returns the database unchanged.
\<close>

subsection \<open>Validation of the policy fields (\<open>studio_contracts/budgets.py\<close>)\<close>

definition check_thresholds :: "int list \<Rightarrow> string + int list" where
  "check_thresholds thresholds =
     (if list_ex (\<lambda>t. t < 1 \<or> 100 < t) thresholds \<or> \<not> distinct thresholds
      then Inl ''alert thresholds are distinct percentages in 1..100''
      else Inr (sort thresholds))"

definition falsy_num :: "'a :: zero option \<Rightarrow> bool" where
  "falsy_num x = (x = None \<or> x = Some 0)"

definition check_enforceable :: "policy_fields \<Rightarrow> string + policy_fields" where
  "check_enforceable f =
     (if pf_mode f \<noteq> BM_ENFORCE then Inr f
      else if pf_cost_limit f = None \<and> pf_token_limit f = None \<and> falsy_num (pf_max_active_launches f)
      then Inl ''enforce mode needs at least one limit''
      else if pf_cost_limit f \<noteq> None \<and> falsy_num (pf_reservation_cost f)
      then Inl ''an enforced cost_limit needs a positive reservation_cost''
      else if pf_token_limit f \<noteq> None \<and> falsy_num (pf_reservation_tokens f)
      then Inl ''an enforced token_limit needs a positive reservation_tokens''
      else Inr f)"

definition opt_all :: "('a \<Rightarrow> bool) \<Rightarrow> 'a option \<Rightarrow> bool" where
  "opt_all P x = (case x of None \<Rightarrow> True | Some v \<Rightarrow> P v)"

lemma opt_all_simps [simp]: "opt_all P None" "opt_all P (Some v) = P v"
  by (simp_all add: opt_all_def)

definition budget_cost :: "rat \<Rightarrow> bool" where
  "budget_cost v \<longleftrightarrow> 0 \<le> v \<and> v \<le> 999999999999999999 / 100000000 \<and> snd (quotient_of v) dvd 100000000"

definition budget_tokens :: "int \<Rightarrow> bool" where
  "budget_tokens v \<longleftrightarrow> 0 \<le> v \<and> v \<le> 2 ^ 63 - 1"

definition currency_code :: "string \<Rightarrow> bool" where
  "currency_code c \<longleftrightarrow> length c = 3 \<and> list_all (\<lambda>x. x \<in> set ''ABCDEFGHIJKLMNOPQRSTUVWXYZ'') c"

definition policy_schema :: "policy_fields \<Rightarrow> bool" where
  "policy_schema f \<longleftrightarrow>
     currency_code (pf_currency f) \<and>
     opt_all budget_cost (pf_cost_limit f) \<and> opt_all budget_cost (pf_reservation_cost f) \<and>
     opt_all budget_tokens (pf_token_limit f) \<and> opt_all budget_tokens (pf_reservation_tokens f) \<and>
     opt_all (\<lambda>v. 1 \<le> v \<and> v \<le> 1000) (pf_max_active_launches f) \<and>
     0 \<le> pf_settle_after_seconds f \<and> pf_settle_after_seconds f \<le> 30 * 24 * 3600 \<and>
     length (pf_alert_thresholds f) \<le> 10 \<and>
     check_thresholds (pf_alert_thresholds f) = Inr (pf_alert_thresholds f) \<and>
     check_enforceable f = Inr f"

subsection \<open>Modes and periods\<close>

definition effective_mode :: "policy_row option \<Rightarrow> budget_mode" where
  "effective_mode policy =
     (case policy of
        None \<Rightarrow> BM_ALERT_ONLY
      | Some row \<Rightarrow>
          (if pf_mode (bp_fields row) \<noteq> BM_ENFORCE \<or> bp_approved_at row = None
           then BM_ALERT_ONLY else BM_ENFORCE))"

datatype approval_status = AS_NOT_REQUIRED | AS_PENDING | AS_APPROVED

datatype ceiling_guarantee = CG_NONE | CG_ADMISSION_ONLY

definition guarantee :: "budget_mode \<Rightarrow> ceiling_guarantee" where
  "guarantee mode = (if mode = BM_ENFORCE then CG_ADMISSION_ONLY else CG_NONE)"

definition approval_of :: "policy_row \<Rightarrow> approval_status" where
  "approval_of row =
     (if pf_mode (bp_fields row) \<noteq> BM_ENFORCE then AS_NOT_REQUIRED
      else if bp_approved_at row = None then AS_PENDING
      else AS_APPROVED)"

text \<open>
  \<open>datetime.replace\<close> on a UTC instant: midnight of its day, or of the first of its month.
  The day of the month is the proleptic Gregorian one of \<open>datetime\<close>, computed from the
  days since 1970-01-01.
\<close>

abbreviation day_length :: timestamp where "day_length \<equiv> 86400000000"

definition day_of_month :: "int \<Rightarrow> int" where
  "day_of_month days =
     (let z = days + 719468;
          doe = z mod 146097;
          yoe = (doe - doe div 1460 + doe div 36524 - doe div 146096) div 365;
          doy = doe - (365 * yoe + yoe div 4 - yoe div 100);
          mp = (5 * doy + 2) div 153
      in doy - (153 * mp + 2) div 5 + 1)"

definition period_start :: "budget_period \<Rightarrow> timestamp \<Rightarrow> timestamp option" where
  "period_start period now =
     (let midnight = now - now mod day_length in
      case period of
        BP_DAY \<Rightarrow> Some midnight
      | BP_MONTH \<Rightarrow> Some (midnight - (day_of_month (now div day_length) - 1) * day_length)
      | BP_LIFETIME \<Rightarrow> None)"

subsection \<open>Policy writes\<close>

definition budget_conflict :: "string \<Rightarrow> (string \<times> jval) list \<Rightarrow> http_error" where
  "budget_conflict code details = HTTPException 409 (JObj ((''error_code'', JText code) # details))"

definition budget_version_conflict :: "int \<Rightarrow> http_error" where
  "budget_version_conflict v = budget_conflict ''version_conflict'' [(''server_version'', JInt v)]"

definition ensure_policy_writer :: "principal \<Rightarrow> uuid \<Rightarrow> unit fallible" where
  "ensure_policy_writer p project_id =
     and_then (raise_if (m_launch_scope (p_machine p) \<noteq> None) (forbidden ''budget_policy'' ''write''))
     (and_then (ensure_project_access p project_id WriteAction)
        (ensure_can_write p ''budget_policy''))"

definition get_policy :: "db \<Rightarrow> uuid \<Rightarrow> policy_row option" where
  "get_policy d project_id = tbl_get bp_project_id (db_policies d) project_id"

definition put_policy_row :: "policy_row \<Rightarrow> db \<Rightarrow> db" where
  "put_policy_row row d = d\<lparr>db_policies := tbl_put bp_project_id row (db_policies d)\<rparr>"

definition same_creation :: "policy_row \<Rightarrow> principal \<Rightarrow> policy_fields \<Rightarrow> bool" where
  "same_creation row p new_fields \<longleftrightarrow>
     bp_version row = 1 \<and> bp_proposed_by_user_id row = Some (u_id (p_user p)) \<and>
     bp_fields row = new_fields"

text \<open>
  \<open>put_policy\<close>: \<open>seen\<close> is what its first locked read returned. When that read found no
  row, another request may insert one before the \<open>INSERT ... ON CONFLICT DO NOTHING\<close>, so
  the insert and the second read run on the database of that moment. A row that was found
  is locked, so it is still the stored one.
\<close>

definition new_policy :: "uuid \<Rightarrow> uuid \<Rightarrow> principal \<Rightarrow> policy_fields \<Rightarrow> policy_row" where
  "new_policy new_id project_id p new_fields =
     \<lparr>bp_id = new_id, bp_project_id = project_id, bp_fields = new_fields,
      bp_proposed_by_user_id = Some (u_id (p_user p)), bp_approved_by_user_id = None,
      bp_approved_at = None, bp_version = 1\<rparr>"

definition clear_approval :: "policy_row \<Rightarrow> policy_row" where
  "clear_approval row = row\<lparr>bp_approved_by_user_id := None, bp_approved_at := None\<rparr>"

definition replace_policy :: "policy_row \<Rightarrow> principal \<Rightarrow> policy_fields \<Rightarrow> policy_row" where
  "replace_policy row p new_fields =
     row\<lparr>bp_fields := new_fields, bp_proposed_by_user_id := Some (u_id (p_user p)),
         bp_version := bp_version row + 1\<rparr>"

definition put_policy ::
  "policy_row option \<Rightarrow> db \<Rightarrow> principal \<Rightarrow> uuid \<Rightarrow> uuid \<Rightarrow> policy_fields \<Rightarrow> int option
     \<Rightarrow> (db, policy_row) outcome" where
  "put_policy seen d p new_id project_id new_fields expected_version =
     guarded (and_then (ensure_policy_writer p project_id)
        (raise_if (project_id \<notin> set (db_projects d))
           (HTTPException 404 (JText ''project not found'')))) d
       (case (seen, expected_version) of
          (Some row, None) \<Rightarrow>
            (if \<not> same_creation row p new_fields then (d, Inl (budget_version_conflict (bp_version row)))
             else (d, Inr row))
        | (None, Some _) \<Rightarrow> (d, Inl (budget_version_conflict 0))
        | (None, None) \<Rightarrow>
            (let d1 = (case get_policy d project_id of
                         None \<Rightarrow> put_policy_row (new_policy new_id project_id p new_fields) d
                       | Some _ \<Rightarrow> d)
             in case get_policy d1 project_id of
                  None \<Rightarrow> (d, Inl (HTTPException 500 (JText ''assertion failed'')))
                | Some row \<Rightarrow>
                    if \<not> same_creation row p new_fields
                    then (d, Inl (budget_version_conflict (bp_version row)))
                    else (put_policy_row (clear_approval row) d1, Inr (clear_approval row)))
        | (Some row, Some v) \<Rightarrow>
            (if v \<noteq> bp_version row then (d, Inl (budget_version_conflict (bp_version row)))
             else (let row' = clear_approval (replace_policy row p new_fields)
                   in (put_policy_row row' d, Inr row'))))"

definition approve_policy ::
  "db \<Rightarrow> principal \<Rightarrow> timestamp \<Rightarrow> uuid \<Rightarrow> int \<Rightarrow> (db, policy_row) outcome" where
  "approve_policy d p now project_id expected_version =
     guarded (and_then (ensure_policy_writer p project_id)
        (raise_if (p_role p \<noteq> Role_ADMIN) (forbidden ''budget_policy'' ''approve''))) d
       (case get_policy d project_id of
          None \<Rightarrow> (d, Inl (HTTPException 404 (JText ''budget policy not found'')))
        | Some row \<Rightarrow>
            if bp_version row \<noteq> expected_version
            then (d, Inl (budget_version_conflict (bp_version row)))
            else if pf_mode (bp_fields row) \<noteq> BM_ENFORCE \<or> bp_approved_at row \<noteq> None
            then (d, Inl (budget_conflict ''budget_approval_not_pending'' []))
            else (let row' = row\<lparr>bp_approved_by_user_id := Some (u_id (p_user p)),
                                 bp_approved_at := Some now,
                                 bp_version := bp_version row + 1\<rparr>
                  in (put_policy_row row' d, Inr row')))"

subsection \<open>Usage and meters\<close>

record launch_usage =
  lu_cost :: rat
  lu_cost_known :: nat
  lu_cost_unknown :: nat
  lu_tokens :: rat
  lu_tokens_known :: nat
  lu_tokens_unknown :: nat

record meters =
  mt_consumed :: "budget_metric \<Rightarrow> rat"
  mt_held :: "budget_metric \<Rightarrow> rat"
  mt_unknown :: "budget_metric \<Rightarrow> nat"
  mt_active :: int

text \<open>
  \<open>_usage_columns\<close>. Under the ledger's check constraints a known cost has a currency and
  the cache scope is never null, so SQL's three-valued conditions take two values.
\<close>

definition cost_is_known :: "string \<Rightarrow> usage_row \<Rightarrow> bool" where
  "cost_is_known currency e \<longleftrightarrow>
     ul_cost_coverage e \<noteq> Cov_UNKNOWN \<and> ul_cost_currency e = Some currency"

definition tokens_are_known :: "usage_row \<Rightarrow> bool" where
  "tokens_are_known e \<longleftrightarrow>
     ul_tokens_in_coverage e \<noteq> Cov_UNKNOWN \<and> ul_tokens_out_coverage e \<noteq> Cov_UNKNOWN \<and>
     (ul_cached_tokens_scope e \<noteq> Cached_ADDITIONAL_TO_INPUT \<or>
      ul_tokens_cached_coverage e \<noteq> Cov_UNKNOWN)"

definition coalesce0 :: "'a :: zero option \<Rightarrow> 'a" where
  "coalesce0 x = (case x of None \<Rightarrow> 0 | Some v \<Rightarrow> v)"

definition tokens_total :: "usage_row \<Rightarrow> int" where
  "tokens_total e =
     coalesce0 (ul_tokens_in e) + coalesce0 (ul_tokens_out e) +
     (if ul_cached_tokens_scope e = Cached_ADDITIONAL_TO_INPUT then coalesce0 (ul_tokens_cached e)
      else 0)"

definition usage_columns :: "string \<Rightarrow> usage_row list \<Rightarrow> launch_usage" where
  "usage_columns currency es =
     \<lparr>lu_cost = (\<Sum>e \<leftarrow> es. if cost_is_known currency e then coalesce0 (ul_cost e) else 0),
      lu_cost_known = length (filter (cost_is_known currency) es),
      lu_cost_unknown = length (filter (\<lambda>e. \<not> cost_is_known currency e) es),
      lu_tokens = (\<Sum>e \<leftarrow> es. if tokens_are_known e then of_int (tokens_total e) else 0),
      lu_tokens_known = length (filter tokens_are_known es),
      lu_tokens_unknown = length (filter (\<lambda>e. \<not> tokens_are_known e) es)\<rparr>"

definition in_window :: "timestamp option \<Rightarrow> timestamp \<Rightarrow> bool" where
  "in_window start t = (case start of None \<Rightarrow> True | Some s \<Rightarrow> s \<le> t)"

definition window_reservations :: "db \<Rightarrow> policy_row \<Rightarrow> timestamp option \<Rightarrow> reservation_row list" where
  "window_reservations d policy start =
     filter (\<lambda>r. br_project_id r = bp_project_id policy \<and> in_window start (br_created_at r))
       (db_reservations d)"

definition charge_of ::
  "reservation_row \<Rightarrow> rat \<Rightarrow> rat \<Rightarrow> nat \<Rightarrow> nat \<Rightarrow> policy_row \<Rightarrow> rat" where
  "charge_of reservation reserved actual known unknown policy =
     (if br_status reservation = BR_HELD then max actual reserved
      else if unknown \<noteq> 0 \<and> pf_unknown_cost (bp_fields policy) = UC_CHARGE_RESERVATION
      then max actual reserved
      else if known = 0 \<and> br_settle_basis reservation = Some SB_RESERVATION then reserved
      else actual)"

definition launch_spent :: "db \<Rightarrow> policy_row \<Rightarrow> uuid \<Rightarrow> launch_usage" where
  "launch_spent d policy launch_id =
     usage_columns (pf_currency (bp_fields policy))
       (filter (\<lambda>e. ul_project_id e = bp_project_id policy \<and> ul_task_launch_id e = Some launch_id)
         (db_usage d))"

text \<open>The tuple \<open>(reserved, actual, known, unknown)\<close> of a metric.\<close>

fun metric_figures :: "budget_metric \<Rightarrow> reservation_row \<Rightarrow> launch_usage \<Rightarrow> rat \<times> rat \<times> nat \<times> nat" where
  "metric_figures MT_COST r u = (coalesce0 (br_reserved_cost r), lu_cost u, lu_cost_known u, lu_cost_unknown u)"
| "metric_figures MT_TOKENS r u =
     (of_int (coalesce0 (br_reserved_tokens r)), lu_tokens u, lu_tokens_known u, lu_tokens_unknown u)"
| "metric_figures MT_SLOTS r u = (0, 0, 0, 0)"

definition reservation_charge :: "db \<Rightarrow> policy_row \<Rightarrow> budget_metric \<Rightarrow> reservation_row \<Rightarrow> rat" where
  "reservation_charge d policy m r =
     (case metric_figures m r (launch_spent d policy (br_task_launch_id r)) of
        (reserved, actual, known, unknown) \<Rightarrow> charge_of r reserved actual known unknown policy)"

definition reservation_outstanding :: "db \<Rightarrow> policy_row \<Rightarrow> budget_metric \<Rightarrow> reservation_row \<Rightarrow> rat" where
  "reservation_outstanding d policy m r =
     (case metric_figures m r (launch_spent d policy (br_task_launch_id r)) of
        (reserved, actual, known, unknown) \<Rightarrow>
          if br_status r = BR_HELD then max 0 (reserved - actual) else 0)"

definition reservation_unknown :: "db \<Rightarrow> policy_row \<Rightarrow> budget_metric \<Rightarrow> reservation_row \<Rightarrow> nat" where
  "reservation_unknown d policy m r =
     (case metric_figures m r (launch_spent d policy (br_task_launch_id r)) of
        (reserved, actual, known, unknown) \<Rightarrow> unknown)"

text \<open>Usage of no launch, or of a launch without a reservation.\<close>

definition has_reservation :: "db \<Rightarrow> uuid \<Rightarrow> bool" where
  "has_reservation d launch_id \<longleftrightarrow> list_ex (\<lambda>r. br_task_launch_id r = launch_id) (db_reservations d)"

definition outside_usage :: "db \<Rightarrow> policy_row \<Rightarrow> timestamp option \<Rightarrow> usage_row list" where
  "outside_usage d policy start =
     filter (\<lambda>e. ul_project_id e = bp_project_id policy \<and>
        (case ul_task_launch_id e of
           None \<Rightarrow> True
         | Some l \<Rightarrow> \<not> has_reservation d l) \<and>
        in_window start (ul_period_start e)) (db_usage d)"

fun loose_amount :: "budget_metric \<Rightarrow> launch_usage \<Rightarrow> rat" where
  "loose_amount MT_COST u = lu_cost u"
| "loose_amount MT_TOKENS u = lu_tokens u"
| "loose_amount MT_SLOTS u = 0"

fun loose_unknown :: "budget_metric \<Rightarrow> launch_usage \<Rightarrow> nat" where
  "loose_unknown MT_COST u = lu_cost_unknown u"
| "loose_unknown MT_TOKENS u = lu_tokens_unknown u"
| "loose_unknown MT_SLOTS u = 0"

definition active_launches :: "db \<Rightarrow> uuid \<Rightarrow> timestamp \<Rightarrow> nat" where
  "active_launches d project_id now =
     length (filter (\<lambda>r. br_project_id r = project_id \<and> br_status r = BR_HELD \<and>
        (case get_launch_row d (br_task_launch_id r) of
           None \<Rightarrow> False
         | Some l \<Rightarrow> \<not> launch_terminal (l_status l) \<and> now < l_expires_at l)) (db_reservations d))"

definition compute_meters :: "db \<Rightarrow> policy_row \<Rightarrow> timestamp option \<Rightarrow> timestamp \<Rightarrow> meters" where
  "compute_meters d policy start now =
     (let rs = window_reservations d policy start;
          loose = usage_columns (pf_currency (bp_fields policy)) (outside_usage d policy start)
      in \<lparr>mt_consumed = (\<lambda>m. (\<Sum>r \<leftarrow> rs. reservation_charge d policy m r
                            - reservation_outstanding d policy m r) + loose_amount m loose),
          mt_held = (\<lambda>m. \<Sum>r \<leftarrow> rs. reservation_outstanding d policy m r),
          mt_unknown = (\<lambda>m. (\<Sum>r \<leftarrow> rs. reservation_unknown d policy m r) + loose_unknown m loose),
          mt_active = int (active_launches d (bp_project_id policy) now)\<rparr>)"

subsection \<open>Reconciliation\<close>

definition never_ran :: "launch_row \<Rightarrow> bool" where
  "never_ran l \<longleftrightarrow> l_session_id l = None \<and>
     (l_status l \<in> {LS_REJECTED, LS_REQUESTED} \<or> l_reason_code l = LR_EXPIRED_UNPULLED)"

definition run_over :: "timestamp \<Rightarrow> launch_row \<Rightarrow> bool" where
  "run_over now l \<longleftrightarrow> launch_terminal (l_status l) \<or> l_expires_at l \<le> now"

definition usage_reported :: "db \<Rightarrow> uuid \<Rightarrow> bool" where
  "usage_reported d launch_id \<longleftrightarrow> list_ex (\<lambda>e. ul_task_launch_id e = Some launch_id) (db_usage d)"

text \<open>What becomes of the reservation of a finished run; \<open>None\<close> is the \<open>continue\<close>.\<close>

definition settle_decision ::
  "db \<Rightarrow> policy_row \<Rightarrow> timestamp \<Rightarrow> launch_row \<Rightarrow> (reservation_status \<times> settle_basis) option" where
  "settle_decision d policy now l =
     (let ended = (case l_finished_at l of Some t \<Rightarrow> t | None \<Rightarrow> l_expires_at l);
          grace = seconds (pf_settle_after_seconds (bp_fields policy))
      in if usage_reported d (l_id l) then Some (BR_SETTLED, SB_MEASURED)
         else if never_ran l then Some (BR_RELEASED, SB_NONE)
         else if now < ended + grace then None
         else if pf_late_usage (bp_fields policy) = LU_HOLD_RESERVATION
         then Some (BR_SETTLED, SB_RESERVATION)
         else Some (BR_RELEASED, SB_NONE))"

definition pending_settlement ::
  "db \<Rightarrow> policy_row \<Rightarrow> timestamp \<Rightarrow> reservation_row \<Rightarrow> (reservation_status \<times> settle_basis) option" where
  "pending_settlement d policy now r =
     (if br_project_id r = bp_project_id policy \<and> br_status r = BR_HELD
      then (case get_launch_row d (br_task_launch_id r) of
              None \<Rightarrow> None
            | Some l \<Rightarrow> if run_over now l then settle_decision d policy now l else None)
      else None)"

definition reconcile_row :: "db \<Rightarrow> policy_row \<Rightarrow> timestamp \<Rightarrow> reservation_row \<Rightarrow> reservation_row" where
  "reconcile_row d policy now r =
     (case pending_settlement d policy now r of
        None \<Rightarrow> r
      | Some (st, basis) \<Rightarrow>
          r\<lparr>br_status := st, br_settle_basis := Some basis, br_settled_at := Some now,
            br_version := br_version r + 1\<rparr>)"

definition reconcile :: "db \<Rightarrow> policy_row \<Rightarrow> timestamp \<Rightarrow> db \<times> nat" where
  "reconcile d policy now =
     (d\<lparr>db_reservations := map (reconcile_row d policy now) (db_reservations d)\<rparr>,
      length (filter (\<lambda>r. pending_settlement d policy now r \<noteq> None) (db_reservations d)))"

subsection \<open>Admission\<close>

definition budget_limits :: "policy_row \<Rightarrow> (budget_metric \<times> rat \<times> rat) list" where
  "budget_limits policy =
     (let f = bp_fields policy in
      (case pf_cost_limit f of
         None \<Rightarrow> [] | Some c \<Rightarrow> [(MT_COST, c, coalesce0 (pf_reservation_cost f))]) @
      (case pf_token_limit f of
         None \<Rightarrow> []
       | Some t \<Rightarrow> [(MT_TOKENS, of_int t, of_int (coalesce0 (pf_reservation_tokens f)))]))"

record admission =
  ad_policy_id :: uuid
  ad_reserved_cost :: "rat option"
  ad_reserved_tokens :: "int option"
  ad_alerts :: "budget_alert list"

fun refusal_reason :: "budget_metric \<Rightarrow> string" where
  "refusal_reason MT_COST = ''budget_cost_exhausted''"
| "refusal_reason MT_TOKENS = ''budget_tokens_exhausted''"
| "refusal_reason MT_SLOTS = ''budget_slots_exhausted''"

fun metric_value :: "budget_metric \<Rightarrow> string" where
  "metric_value MT_COST = ''cost''"
| "metric_value MT_TOKENS = ''tokens''"
| "metric_value MT_SLOTS = ''slots''"

definition refuse ::
  "budget_metric \<Rightarrow> rat \<Rightarrow> rat \<Rightarrow> rat \<Rightarrow> rat \<Rightarrow> timestamp option \<Rightarrow> http_error" where
  "refuse m limit consumed held requested start =
     HTTPException 409 (JObj [(''error_code'', JText ''budget_refused''),
       (''reason'', JText (refusal_reason m)), (''metric'', JText (metric_value m)),
       (''limit'', JNum limit), (''consumed'', JNum consumed), (''held'', JNum held),
       (''requested'', JNum requested),
       (''period_start'', case start of None \<Rightarrow> JNull | Some t \<Rightarrow> JTime t),
       (''ceiling_guarantee'', JText ''admission_only'')])"

definition alert :: "budget_alert_code \<Rightarrow> budget_metric option \<Rightarrow> int option \<Rightarrow> budget_alert" where
  "alert code m threshold = \<lparr>ba_code = code, ba_metric = m, ba_threshold = threshold\<rparr>"

definition threshold_alerts :: "int list \<Rightarrow> budget_metric \<Rightarrow> rat \<Rightarrow> rat \<Rightarrow> rat \<Rightarrow> budget_alert list" where
  "threshold_alerts thresholds m limit before after =
     map (\<lambda>t. alert BA_THRESHOLD_REACHED (Some m) (Some t))
       (filter (\<lambda>t. let mark = limit * of_int t / 100 in
          (before < mark \<and> mark \<le> after) \<or> (before = after \<and> mark \<le> after \<and> t = 100)) thresholds)"

fun admit_limits ::
  "budget_mode \<Rightarrow> int list \<Rightarrow> meters \<Rightarrow> timestamp option \<Rightarrow> (budget_metric \<times> rat \<times> rat) list
     \<Rightarrow> budget_alert list fallible" where
  "admit_limits mode thresholds mts start [] = Inr []"
| "admit_limits mode thresholds mts start ((m, limit, requested) # rest) =
     (let consumed = mt_consumed mts m; held = mt_held mts m;
          before = consumed + held; after = before + requested
      in if limit < after \<and> mode = BM_ENFORCE
         then Inl (refuse m limit consumed held requested start)
         else (case admit_limits mode thresholds mts start rest of
                 Inl e \<Rightarrow> Inl e
               | Inr later \<Rightarrow>
                   Inr ((if limit < after then [alert BA_LIMIT_EXCEEDED (Some m) None] else [])
                     @ threshold_alerts thresholds m limit before after
                     @ (if mt_unknown mts m \<noteq> 0 then [alert BA_UNKNOWN_USAGE (Some m) None] else [])
                     @ later)))"

definition slots_full :: "policy_row \<Rightarrow> meters \<Rightarrow> bool" where
  "slots_full policy mts =
     (case pf_max_active_launches (bp_fields policy) of None \<Rightarrow> False | Some n \<Rightarrow> n \<le> mt_active mts)"

definition decide_admission :: "db \<Rightarrow> uuid \<Rightarrow> timestamp \<Rightarrow> (db, admission option) outcome" where
  "decide_admission d project_id now =
     (case get_policy d project_id of
        None \<Rightarrow> (d, Inr None)
      | Some policy \<Rightarrow>
          (let d1 = fst (reconcile d policy now);
               f = bp_fields policy;
               start = period_start (pf_period f) now;
               mts = compute_meters d1 policy start now;
               mode = effective_mode (Some policy)
           in if slots_full policy mts \<and> mode = BM_ENFORCE
              then (d, Inl (refuse MT_SLOTS (of_int (the (pf_max_active_launches f)))
                      (of_int (mt_active mts)) 0 1 start))
              else (case admit_limits mode (pf_alert_thresholds f) mts start (budget_limits policy) of
                      Inl e \<Rightarrow> (d, Inl e)
                    | Inr alerts \<Rightarrow>
                        (d1, Inr (Some \<lparr>ad_policy_id = bp_id policy,
                           ad_reserved_cost = pf_reservation_cost f,
                           ad_reserved_tokens = pf_reservation_tokens f,
                           ad_alerts =
                             (if pf_mode f = BM_ENFORCE \<and> mode = BM_ALERT_ONLY
                              then [alert BA_ENFORCE_PENDING_APPROVAL None None] else []) @
                             (if slots_full policy mts
                              then [alert BA_SLOTS_EXHAUSTED (Some MT_SLOTS) None] else []) @
                             alerts\<rparr>)))))"

definition new_reservation ::
  "uuid \<Rightarrow> timestamp \<Rightarrow> uuid \<Rightarrow> uuid \<Rightarrow> admission \<Rightarrow> reservation_row" where
  "new_reservation new_id created_at project_id launch_id a =
     \<lparr>br_id = new_id, br_project_id = project_id, br_policy_id = ad_policy_id a,
      br_task_launch_id = launch_id, br_status = BR_HELD,
      br_reserved_cost = ad_reserved_cost a, br_reserved_tokens = ad_reserved_tokens a,
      br_settle_basis = None, br_alerts = ad_alerts a, br_created_at = created_at,
      br_settled_at = None, br_version = 1\<rparr>"

definition reservation_of :: "db \<Rightarrow> uuid \<Rightarrow> reservation_row option" where
  "reservation_of d launch_id = tbl_get br_task_launch_id (db_reservations d) launch_id"

definition record_reservation ::
  "db \<Rightarrow> uuid \<Rightarrow> timestamp \<Rightarrow> uuid \<Rightarrow> uuid \<Rightarrow> admission \<Rightarrow> db \<times> reservation_row" where
  "record_reservation d new_id created_at project_id launch_id a =
     (case reservation_of d launch_id of
        Some row \<Rightarrow> (d, row)
      | None \<Rightarrow>
          (let row = new_reservation new_id created_at project_id launch_id a
           in (d\<lparr>db_reservations := db_reservations d @ [row]\<rparr>, row)))"

subsection \<open>Status reads\<close>

record budget_meter =
  bm_metric :: budget_metric
  bm_limit :: rat
  bm_consumed :: rat
  bm_held :: rat
  bm_unknown_entries :: nat

record budget_status =
  bs_project_id :: uuid
  bs_policy :: "policy_row option"
  bs_effective_mode :: budget_mode
  bs_ceiling_guarantee :: ceiling_guarantee
  bs_period_start :: "timestamp option"
  bs_meters :: "budget_meter list"
  bs_active_launches :: int
  bs_reservations :: "reservation_row list"

abbreviation BUDGET_STATUS_MAX_RESERVATIONS :: nat where "BUDGET_STATUS_MAX_RESERVATIONS \<equiv> 50"

definition recent_reservations :: "reservation_row list \<Rightarrow> reservation_row list" where
  "recent_reservations rs =
     take BUDGET_STATUS_MAX_RESERVATIONS
       (sort_key (\<lambda>r. - br_created_at r) (filter (\<lambda>r. br_status r = BR_HELD) rs) @
        sort_key (\<lambda>r. - br_created_at r) (filter (\<lambda>r. br_status r \<noteq> BR_HELD) rs))"

definition build_status :: "db \<Rightarrow> uuid \<Rightarrow> timestamp \<Rightarrow> budget_status" where
  "build_status d project_id now =
     (case get_policy d project_id of
        None \<Rightarrow>
          \<lparr>bs_project_id = project_id, bs_policy = None, bs_effective_mode = BM_ALERT_ONLY,
           bs_ceiling_guarantee = CG_NONE, bs_period_start = None, bs_meters = [],
           bs_active_launches = 0, bs_reservations = []\<rparr>
      | Some policy \<Rightarrow>
          (let start = period_start (pf_period (bp_fields policy)) now;
               mts = compute_meters d policy start now;
               mode = effective_mode (Some policy)
           in \<lparr>bs_project_id = project_id, bs_policy = Some policy, bs_effective_mode = mode,
               bs_ceiling_guarantee = guarantee mode, bs_period_start = start,
               bs_meters =
                 map (\<lambda>(m, limit, _). \<lparr>bm_metric = m, bm_limit = limit,
                        bm_consumed = mt_consumed mts m, bm_held = mt_held mts m,
                        bm_unknown_entries = mt_unknown mts m\<rparr>) (budget_limits policy) @
                 (case pf_max_active_launches (bp_fields policy) of
                    None \<Rightarrow> []
                  | Some n \<Rightarrow> [\<lparr>bm_metric = MT_SLOTS, bm_limit = of_int n,
                      bm_consumed = of_int (mt_active mts), bm_held = 0,
                      bm_unknown_entries = 0\<rparr>]),
               bs_active_launches = mt_active mts,
               bs_reservations = recent_reservations (window_reservations d policy start)\<rparr>))"

definition get_status :: "db \<Rightarrow> principal \<Rightarrow> timestamp \<Rightarrow> uuid \<Rightarrow> budget_status fallible" where
  "get_status d p now project_id =
     and_then (ensure_project_access p project_id ReadAction)
     (and_then (raise_if (project_id \<notin> set (db_projects d))
        (HTTPException 404 (JText ''project not found'')))
       (Inr (build_status d project_id now)))"

definition reconcile_project ::
  "db \<Rightarrow> principal \<Rightarrow> timestamp \<Rightarrow> uuid \<Rightarrow> (db, budget_status) outcome" where
  "reconcile_project d p now project_id =
     guarded (ensure_policy_writer p project_id) d
       (case get_policy d project_id of
          None \<Rightarrow> (d, Inl (HTTPException 404 (JText ''budget policy not found'')))
        | Some policy \<Rightarrow>
            (let d1 = fst (reconcile d policy now) in (d1, Inr (build_status d1 project_id now))))"

subsection \<open>Reconciliation settles once and never charges more\<close>

lemma reconcile_frame [simp]:
  "db_launches (fst (reconcile d policy now)) = db_launches d"
  "db_usage (fst (reconcile d policy now)) = db_usage d"
  "db_policies (fst (reconcile d policy now)) = db_policies d"
  "db_tasks (fst (reconcile d policy now)) = db_tasks d"
  "db_claims (fst (reconcile d policy now)) = db_claims d"
  "db_sessions (fst (reconcile d policy now)) = db_sessions d"
  "db_events (fst (reconcile d policy now)) = db_events d"
  "db_reservations (fst (reconcile d policy now)) =
     map (reconcile_row d policy now) (db_reservations d)"
  "get_launch_row (fst (reconcile d policy now)) = get_launch_row d"
  by (simp_all add: reconcile_def get_launch_row_def fun_eq_iff)

lemma list_ex_map: "list_ex P (map f xs) = list_ex (P \<circ> f) xs"
  by (induction xs) auto

lemma reconcile_row_keeps [simp]:
  "br_project_id (reconcile_row d policy now r) = br_project_id r"
  "br_task_launch_id (reconcile_row d policy now r) = br_task_launch_id r"
  "br_created_at (reconcile_row d policy now r) = br_created_at r"
  "br_reserved_cost (reconcile_row d policy now r) = br_reserved_cost r"
  "br_reserved_tokens (reconcile_row d policy now r) = br_reserved_tokens r"
  by (simp_all add: reconcile_row_def split: option.split prod.split)

lemma has_reservation_reconcile [simp]:
  "has_reservation (fst (reconcile d policy now)) = has_reservation d"
  by (simp add: has_reservation_def list_ex_map comp_def fun_eq_iff)

lemma pending_settlement_cong:
  "db_launches d' = db_launches d \<Longrightarrow> db_usage d' = db_usage d \<Longrightarrow>
     pending_settlement d' policy now r = pending_settlement d policy now r"
  by (auto simp: pending_settlement_def settle_decision_def usage_reported_def get_launch_row_def
      split: option.split)

lemma pending_settlement_not_held:
  "pending_settlement d policy now r = Some (st, basis) \<Longrightarrow> st \<noteq> BR_HELD"
  by (auto simp: pending_settlement_def settle_decision_def Let_def split: if_splits option.splits)

lemma pending_settlement_settled [simp]:
  "pending_settlement d policy now (reconcile_row d policy now r) = None"
proof (cases "pending_settlement d policy now r")
  case (Some x)
  then have "br_status (reconcile_row d policy now r) \<noteq> BR_HELD"
    by (cases x) (auto simp: reconcile_row_def dest: pending_settlement_not_held)
  then show ?thesis by (simp add: pending_settlement_def)
qed (simp add: reconcile_row_def)

text \<open>Reconciliation is idempotent: replayed at the same instant, after a crash
  or by a second admission, it settles nothing more and changes no row.\<close>

theorem reconcile_idempotent:
  "reconcile (fst (reconcile d policy now)) policy now = (fst (reconcile d policy now), 0)"
proof -
  let ?d = "fst (reconcile d policy now)"
  have pend: "pending_settlement ?d policy now r = pending_settlement d policy now r" for r
    by (rule pending_settlement_cong) simp_all
  have "reconcile_row ?d policy now (reconcile_row d policy now r) = reconcile_row d policy now r" for r
    by (simp add: reconcile_row_def [of ?d] pend)
  then have "map (reconcile_row ?d policy now) (db_reservations ?d) = db_reservations ?d"
    by simp
  moreover have "filter (\<lambda>r. pending_settlement ?d policy now r \<noteq> None) (db_reservations ?d) = []"
    by (auto simp: filter_empty_conv pend)
  ultimately show ?thesis by (simp add: reconcile_def [of ?d])
qed

definition committed :: "db \<Rightarrow> policy_row \<Rightarrow> timestamp option \<Rightarrow> timestamp \<Rightarrow> budget_metric \<Rightarrow> rat" where
  "committed d policy start now m =
     mt_consumed (compute_meters d policy start now) m + mt_held (compute_meters d policy start now) m"

lemma sum_list_diff_add:
  "(\<Sum>r \<leftarrow> rs. f r - g r) + (\<Sum>r \<leftarrow> rs. g r) = (\<Sum>r \<leftarrow> rs. f r :: 'a :: ab_group_add)"
  by (induction rs) (simp_all add: algebra_simps)

lemma add_swap: "a + b = c \<Longrightarrow> (a + l) + b = c + (l :: 'a :: ab_group_add)"
  by (simp add: algebra_simps)

lemma committed_eq:
  "committed d policy start now m =
     (\<Sum>r \<leftarrow> window_reservations d policy start. reservation_charge d policy m r) +
     loose_amount m (usage_columns (pf_currency (bp_fields policy)) (outside_usage d policy start))"
proof -
  let ?rs = "window_reservations d policy start"
  let ?f = "reservation_charge d policy m" and ?g = "reservation_outstanding d policy m"
  define loose where "loose = loose_amount m
    (usage_columns (pf_currency (bp_fields policy)) (outside_usage d policy start))"
  have "committed d policy start now m = ((\<Sum>r \<leftarrow> ?rs. ?f r - ?g r) + loose) + (\<Sum>r \<leftarrow> ?rs. ?g r)"
    by (simp only: committed_def compute_meters_def Let_def meters.simps loose_def)
  also have "\<dots> = (\<Sum>r \<leftarrow> ?rs. ?f r) + loose"
    by (rule add_swap) (rule sum_list_diff_add)
  finally show ?thesis by (simp only: loose_def)
qed

lemma charge_of_le: "charge_of r reserved actual known unknown policy \<le> max actual reserved"
  by (simp add: charge_of_def)

lemma reconcile_row_charge:
  "reservation_charge d policy m (reconcile_row d policy now r) \<le> reservation_charge d policy m r"
proof (cases "pending_settlement d policy now r")
  case (Some x)
  then have "br_status r = BR_HELD"
    by (auto simp: pending_settlement_def split: if_splits)
  moreover have "metric_figures m (reconcile_row d policy now r) u = metric_figures m r u" for u
    by (cases m) simp_all
  ultimately show ?thesis
    using charge_of_le by (simp add: reservation_charge_def charge_of_def [of r] split: prod.split)
qed (simp add: reconcile_row_def)

lemma reservation_charge_cong:
  "db_usage d' = db_usage d \<Longrightarrow> reservation_charge d' policy m r = reservation_charge d policy m r"
  by (simp add: reservation_charge_def launch_spent_def)

text \<open>Settling finished runs can only free budget: for every metric the amount a
  policy counts as consumed or held never grows by a reconciliation, whatever the window.\<close>

theorem reconcile_frees_budget:
  "committed (fst (reconcile d policy now)) policy start now' m \<le> committed d policy start now' m"
proof -
  let ?d = "fst (reconcile d policy now)"
  have win: "window_reservations ?d policy start
      = map (reconcile_row d policy now) (window_reservations d policy start)"
    by (simp add: window_reservations_def filter_map comp_def)
  have out: "outside_usage ?d policy start = outside_usage d policy start"
    by (simp add: outside_usage_def cong: option.case_cong)
  have "(\<Sum>r \<leftarrow> window_reservations ?d policy start. reservation_charge ?d policy m r)
      = (\<Sum>r \<leftarrow> window_reservations d policy start.
           reservation_charge d policy m (reconcile_row d policy now r))"
    unfolding win by (simp add: comp_def reservation_charge_cong [of ?d d, OF reconcile_frame(2)])
  also have "\<dots> \<le> (\<Sum>r \<leftarrow> window_reservations d policy start. reservation_charge d policy m r)"
    by (rule sum_list_mono) (rule reconcile_row_charge)
  finally show ?thesis by (simp add: committed_eq out)
qed

subsection \<open>An enforced admission stays within the limits\<close>

definition within_limits :: "db \<Rightarrow> policy_row \<Rightarrow> timestamp option \<Rightarrow> timestamp \<Rightarrow> bool" where
  "within_limits d policy start now \<longleftrightarrow>
     (\<forall>(m, limit, requested) \<in> set (budget_limits policy). committed d policy start now m \<le> limit) \<and>
     opt_all (\<lambda>n. int (active_launches d (bp_project_id policy) now) \<le> n)
       (pf_max_active_launches (bp_fields policy))"

lemma admit_limits_enforced:
  "admit_limits BM_ENFORCE ts mts start ls = Inr as \<Longrightarrow> (m, limit, requested) \<in> set ls \<Longrightarrow>
     mt_consumed mts m + mt_held mts m + requested \<le> limit"
  by (induction ls arbitrary: as) (auto simp: Let_def not_less split: if_splits sum.splits)

lemma admit_limits_alert_only: "\<exists>as. admit_limits BM_ALERT_ONLY ts mts start ls = Inr as"
  by (induction ls) (auto simp: Let_def)

lemma decide_admission_enforced:
  assumes "decide_admission d pid now = (d1, Inr (Some a))" and "get_policy d pid = Some policy"
    and "effective_mode (Some policy) = BM_ENFORCE"
  shows "d1 = fst (reconcile d policy now)"
    and "ad_reserved_cost a = pf_reservation_cost (bp_fields policy)"
    and "ad_reserved_tokens a = pf_reservation_tokens (bp_fields policy)"
    and "\<And>m limit requested. (m, limit, requested) \<in> set (budget_limits policy) \<Longrightarrow>
      committed d1 policy (period_start (pf_period (bp_fields policy)) now) now m + requested \<le> limit"
    and "opt_all (\<lambda>n. int (active_launches d1 (bp_project_id policy) now) < n)
      (pf_max_active_launches (bp_fields policy))"
proof -
  let ?d1 = "fst (reconcile d policy now)"
  let ?start = "period_start (pf_period (bp_fields policy)) now"
  let ?mts = "compute_meters ?d1 policy ?start now"
  obtain as where as: "admit_limits BM_ENFORCE (pf_alert_thresholds (bp_fields policy)) ?mts ?start
      (budget_limits policy) = Inr as"
    and slots: "\<not> slots_full policy ?mts" and d1: "d1 = ?d1"
    and a: "ad_reserved_cost a = pf_reservation_cost (bp_fields policy)"
      "ad_reserved_tokens a = pf_reservation_tokens (bp_fields policy)"
    using assms by (auto simp: decide_admission_def Let_def split: if_splits sum.splits)
  show "d1 = ?d1" "ad_reserved_cost a = pf_reservation_cost (bp_fields policy)"
    "ad_reserved_tokens a = pf_reservation_tokens (bp_fields policy)" by (fact d1 a)+
  show "committed d1 policy ?start now m + requested \<le> limit"
    if "(m, limit, requested) \<in> set (budget_limits policy)" for m limit requested
    using admit_limits_enforced [OF as that] by (simp only: committed_def d1)
  show "opt_all (\<lambda>n. int (active_launches d1 (bp_project_id policy) now) < n)
      (pf_max_active_launches (bp_fields policy))"
    using slots by (auto simp: slots_full_def compute_meters_def Let_def d1 opt_all_def not_le
        split: option.splits)
qed

lemma launch_spent_unreported:
  assumes "\<not> usage_reported d l"
  shows "launch_spent d policy l = usage_columns (pf_currency (bp_fields policy)) []"
proof -
  have "filter (\<lambda>e. ul_project_id e = bp_project_id policy \<and> ul_task_launch_id e = Some l) (db_usage d) = []"
    using assms by (auto simp: usage_reported_def list_ex_iff filter_empty_conv)
  then show ?thesis by (simp add: launch_spent_def)
qed

lemma fresh_reservation_charge:
  assumes "\<not> usage_reported d l" and "policy_schema (bp_fields policy)"
    and "(m, limit, requested) \<in> set (budget_limits policy)"
    and "ad_reserved_cost a = pf_reservation_cost (bp_fields policy)"
    and "ad_reserved_tokens a = pf_reservation_tokens (bp_fields policy)"
  shows "reservation_charge d policy m (new_reservation i t pid l a) = requested" and "0 \<le> requested"
proof -
  have spent: "launch_spent d policy l = usage_columns (pf_currency (bp_fields policy)) []"
    by (rule launch_spent_unreported) (rule assms(1))
  have m: "(m = MT_COST \<and> requested = coalesce0 (pf_reservation_cost (bp_fields policy))) \<or>
      (m = MT_TOKENS \<and> requested = of_int (coalesce0 (pf_reservation_tokens (bp_fields policy))))"
    using assms(3) by (auto simp: budget_limits_def Let_def split: option.splits)
  have cost: "0 \<le> coalesce0 (pf_reservation_cost (bp_fields policy))"
    and tokens: "0 \<le> coalesce0 (pf_reservation_tokens (bp_fields policy))"
    using assms(2) by (auto simp: policy_schema_def budget_cost_def budget_tokens_def coalesce0_def opt_all_def split: option.splits)
  show "0 \<le> requested" using m cost tokens by auto
  show "reservation_charge d policy m (new_reservation i t pid l a) = requested"
    using m cost tokens assms(4,5)
    by (auto simp: reservation_charge_def new_reservation_def spent usage_columns_def charge_of_def)
qed

lemma has_reservation_iff: "has_reservation d l \<longleftrightarrow> reservation_of d l \<noteq> None"
  by (auto simp: has_reservation_def reservation_of_def list_ex_iff tbl_get_None_iff image_iff)

lemma outside_usage_add:
  assumes "\<not> usage_reported d l"
  shows "outside_usage (d\<lparr>db_reservations := db_reservations d @ [new_reservation i t pid l a]\<rparr>) policy start
    = outside_usage d policy start"
proof -
  have "ul_task_launch_id e \<noteq> Some l" if "e \<in> set (db_usage d)" for e
    using that assms by (auto simp: usage_reported_def list_ex_iff)
  then show ?thesis
    by (auto simp: outside_usage_def has_reservation_def new_reservation_def intro!: filter_cong
        split: option.split)
qed

text \<open>Holding one more reservation raises the committed amount by what it reserves.\<close>

lemma committed_add_reservation:
  assumes "reservation_of d l = None" and "\<not> usage_reported d l" and "policy_schema (bp_fields policy)"
    and "(m, limit, requested) \<in> set (budget_limits policy)"
    and "ad_reserved_cost a = pf_reservation_cost (bp_fields policy)"
    and "ad_reserved_tokens a = pf_reservation_tokens (bp_fields policy)"
  shows "committed (fst (record_reservation d i t pid l a)) policy start now m
    \<le> committed d policy start now m + requested"
proof -
  let ?r = "new_reservation i t pid l a"
  let ?d = "d\<lparr>db_reservations := db_reservations d @ [?r]\<rparr>"
  have charge: "reservation_charge ?d policy m r = reservation_charge d policy m r" for r
    by (rule reservation_charge_cong) simp
  note fresh = fresh_reservation_charge(1) [OF assms(2-6), of i t pid]
    fresh_reservation_charge(2) [OF assms(2-6)]
  have "(\<Sum>r \<leftarrow> window_reservations ?d policy start. reservation_charge ?d policy m r)
      \<le> (\<Sum>r \<leftarrow> window_reservations d policy start. reservation_charge d policy m r) + requested"
    using fresh by (simp add: window_reservations_def charge)
  then show ?thesis
    by (simp add: committed_eq record_reservation_def assms(1) Let_def outside_usage_add [OF assms(2)])
qed

lemma active_launches_add:
  assumes "reservation_of d (l_id l) = None"
  shows "active_launches (fst (record_reservation (put_launch l d) i t pid (l_id l) a)) pid' now
    \<le> Suc (active_launches d pid' now)"
proof -
  have "br_task_launch_id r \<noteq> l_id l" if "r \<in> set (db_reservations d)" for r
    using that assms by (auto simp: reservation_of_def tbl_get_None_iff image_iff)
  then have eq: "filter (\<lambda>r. br_project_id r = pid' \<and> br_status r = BR_HELD \<and>
        (case get_launch_row (put_launch l d) (br_task_launch_id r) of
           None \<Rightarrow> False | Some l \<Rightarrow> \<not> launch_terminal (l_status l) \<and> now < l_expires_at l))
        (db_reservations d)
      = filter (\<lambda>r. br_project_id r = pid' \<and> br_status r = BR_HELD \<and>
        (case get_launch_row d (br_task_launch_id r) of
           None \<Rightarrow> False | Some l \<Rightarrow> \<not> launch_terminal (l_status l) \<and> now < l_expires_at l))
        (db_reservations d)"
    by (intro filter_cong) auto
  have "get_launch_row (put_launch l d\<lparr>db_reservations := rs\<rparr>) = get_launch_row (put_launch l d)" for rs
    by (simp add: get_launch_row_def fun_eq_iff)
  then show ?thesis
    using assms eq by (simp add: active_launches_def record_reservation_def reservation_of_def Let_def)
qed

text \<open>Property C3. Under an approved \<open>enforce\<close> policy an admitted launch keeps the project
  within every limit: once its row and its reservation are written, what is consumed or held
  stays at or below each limited metric and the live launches at or below the slots. The
  launch is new (no reservation, no usage yet), and the policy satisfies its schema.\<close>

theorem admission_within_limits:
  assumes "decide_admission d pid now = (d1, Inr (Some a))" and "get_policy d pid = Some policy"
    and "effective_mode (Some policy) = BM_ENFORCE" and "policy_schema (bp_fields policy)"
    and "reservation_of d (l_id l) = None" and "\<not> usage_reported d (l_id l)"
  shows "within_limits
    (fst (record_reservation (put_launch l d1) new_id created_at pid (l_id l) a)) policy
    (period_start (pf_period (bp_fields policy)) now) now"
proof -
  let ?start = "period_start (pf_period (bp_fields policy)) now"
  let ?d = "put_launch l d1"
  note adm = decide_admission_enforced [OF assms(1-3)]
  have "reservation_of d1 k = None \<longleftrightarrow> reservation_of d k = None" for k
    using has_reservation_reconcile [of d policy now] adm(1) has_reservation_iff by metis
  then have none: "reservation_of d1 (l_id l) = None" using assms(5) by blast
  then have none': "reservation_of ?d (l_id l) = None" by (simp add: reservation_of_def)
  have unrep: "\<not> usage_reported ?d (l_id l)" using assms(6) adm(1) by (simp add: usage_reported_def)
  have has: "has_reservation ?d k = has_reservation d1 k" for k by (simp add: has_reservation_def)
  have same: "committed ?d policy ?start now m = committed d1 policy ?start now m" for m
    by (simp add: committed_eq window_reservations_def outside_usage_def has
        reservation_charge_cong [of ?d d1] cong: option.case_cong)
  have "committed (fst (record_reservation ?d new_id created_at pid (l_id l) a)) policy ?start now m
      \<le> limit" if "(m, limit, requested) \<in> set (budget_limits policy)" for m limit requested
    using committed_add_reservation [OF none' unrep assms(4) that adm(2,3),
        of new_id created_at pid ?start now] adm(4) [OF that] same by fastforce
  moreover have "opt_all (\<lambda>n. int (active_launches
      (fst (record_reservation ?d new_id created_at pid (l_id l) a)) (bp_project_id policy) now) \<le> n)
      (pf_max_active_launches (bp_fields policy))"
    using active_launches_add [OF none, of new_id created_at pid a "bp_project_id policy" now] adm(5)
    by (auto simp: opt_all_def split: option.splits)
  ultimately show ?thesis by (auto simp: within_limits_def)
qed

text \<open>Only an approved \<open>enforce\<close> policy refuses: without a policy, under
  \<open>alert_only\<close>, or while the approval is pending, every admission passes, and a refusal
  leaves the database as it was.\<close>

theorem admission_refused_only_enforced:
  "decide_admission d pid now = (d1, Inl e) \<Longrightarrow>
     effective_mode (get_policy d pid) = BM_ENFORCE \<and> d1 = d \<and> http_status e = 409"
proof -
  assume a: "decide_admission d pid now = (d1, Inl e)"
  have st: "admit_limits mode ts mts start ls = Inl e' \<Longrightarrow> http_status e' = 409" for mode ts mts start ls e'
    by (induction ls) (auto simp: Let_def refuse_def split: if_splits sum.splits)
  from a obtain policy where p: "get_policy d pid = Some policy"
    by (auto simp: decide_admission_def split: option.splits)
  have "effective_mode (Some policy) = BM_ENFORCE"
  proof (rule ccontr)
    assume "effective_mode (Some policy) \<noteq> BM_ENFORCE"
    then have "effective_mode (Some policy) = BM_ALERT_ONLY"
      by (cases "effective_mode (Some policy)") auto
    moreover obtain as where "admit_limits BM_ALERT_ONLY (pf_alert_thresholds (bp_fields policy))
        (compute_meters (fst (reconcile d policy now)) policy
          (period_start (pf_period (bp_fields policy)) now) now)
        (period_start (pf_period (bp_fields policy)) now) (budget_limits policy) = Inr as"
      using admit_limits_alert_only by blast
    ultimately show False using a p by (simp add: decide_admission_def Let_def)
  qed
  with a p st show ?thesis
    by (auto simp: decide_admission_def Let_def refuse_def split: if_splits sum.splits)
qed

definition sample_fields :: policy_fields where
  "sample_fields = \<lparr>pf_mode = BM_ENFORCE, pf_period = BP_LIFETIME, pf_currency = ''EUR'',
     pf_cost_limit = Some 10, pf_token_limit = None, pf_max_active_launches = Some 2,
     pf_reservation_cost = Some 4, pf_reservation_tokens = None,
     pf_unknown_cost = UC_CHARGE_RESERVATION, pf_late_usage = LU_HOLD_RESERVATION,
     pf_settle_after_seconds = 3600, pf_alert_thresholds = [80, 100]\<rparr>"

definition sample_policy :: policy_row where
  "sample_policy = \<lparr>bp_id = 70, bp_project_id = 5, bp_fields = sample_fields,
     bp_proposed_by_user_id = Some 1, bp_approved_by_user_id = Some 2, bp_approved_at = Some 0,
     bp_version = 2\<rparr>"

definition sample_launch :: launch_row where
  "sample_launch = \<lparr>l_id = 40, l_project_id = 5, l_task_id = 30, l_machine_id = 10,
     l_requested_by_user_id = 1, l_harness_id = ''claude'', l_agent_stable_key = None,
     l_status = LS_REQUESTED, l_reason_code = LR_NONE, l_session_id = None,
     l_output_excerpt = None, l_expires_at = seconds 7200, l_finished_at = None,
     l_created_at = 0, l_attempt = 1, l_retry_of_launch_id = None, l_replay_basis = None,
     l_allow_production = False, l_profile_key = None, l_profile_contract_version = None,
     l_profile_digest = None, l_version = 1\<rparr>"

definition budget_db :: db where
  "budget_db = empty_db\<lparr>db_projects := [5], db_policies := [sample_policy]\<rparr>"

lemma sample_schema: "policy_schema sample_fields"
  by (simp add: policy_schema_def sample_fields_def check_thresholds_def check_enforceable_def
      falsy_num_def currency_code_def budget_cost_def)

lemmas budget_eval = decide_admission_def get_policy_def budget_db_def empty_db_def reconcile_def
  compute_meters_def window_reservations_def outside_usage_def usage_columns_def
  active_launches_def budget_limits_def slots_full_def effective_mode_def sample_policy_def
  sample_fields_def threshold_alerts_def coalesce0_def Let_def

lemma admission_within_limits_witness:
  "\<exists>d1 a. decide_admission budget_db 5 0 = (d1, Inr (Some a)) \<and>
     within_limits (fst (record_reservation (put_launch sample_launch d1) 80 0 5 40 a))
       sample_policy None 0"
proof -
  obtain d1 a where da: "decide_admission budget_db 5 0 = (d1, Inr (Some a))"
    by (simp add: budget_eval)
  have "within_limits (fst (record_reservation (put_launch sample_launch d1) 80 0 5
      (l_id sample_launch) a)) sample_policy (period_start (pf_period (bp_fields sample_policy)) 0) 0"
    by (rule admission_within_limits [OF da])
      (simp_all add: budget_eval reservation_of_def usage_reported_def sample_schema [unfolded sample_fields_def])
  with da show ?thesis by (auto simp: period_start_def sample_policy_def sample_fields_def sample_launch_def Let_def)
qed

lemma admission_refused_only_enforced_witness:
  "\<exists>d1 e. decide_admission (budget_db\<lparr>db_policies := [sample_policy\<lparr>bp_fields :=
      sample_fields\<lparr>pf_cost_limit := Some 3\<rparr>\<rparr>]\<rparr>) 5 0 = (d1, Inl e) \<and> http_status e = 409"
proof -
  obtain d1 e where "decide_admission (budget_db\<lparr>db_policies := [sample_policy\<lparr>bp_fields :=
      sample_fields\<lparr>pf_cost_limit := Some 3\<rparr>\<rparr>]\<rparr>) 5 0 = (d1, Inl e)"
    by (simp add: budget_eval)
  from admission_refused_only_enforced [OF this] this show ?thesis by blast
qed

subsection \<open>Only an administrator makes a policy enforce\<close>

definition policies_wf :: "db \<Rightarrow> bool" where
  "policies_wf d \<longleftrightarrow>
     (\<forall>row \<in> set (db_policies d). 1 \<le> bp_version row \<and> (bp_version row = 1 \<longrightarrow> bp_approved_at row = None))"

lemma get_put_policy [simp]:
  "get_policy (put_policy_row row d) k = (if k = bp_project_id row then Some row else get_policy d k)"
  by (simp add: get_policy_def put_policy_row_def)

lemma get_policy_project: "get_policy d k = Some row \<Longrightarrow> bp_project_id row = k"
  unfolding get_policy_def by (rule tbl_get_key)

lemma policy_row_updates [simp]:
  "bp_project_id (clear_approval row) = bp_project_id row"
  "bp_version (clear_approval row) = bp_version row"
  "bp_fields (clear_approval row) = bp_fields row"
  "bp_approved_at (clear_approval row) = None"
  "bp_project_id (replace_policy row p f) = bp_project_id row"
  "bp_version (replace_policy row p f) = bp_version row + 1"
  "bp_project_id (new_policy i k p f) = k" "bp_version (new_policy i k p f) = 1"
  "bp_approved_at (new_policy i k p f) = None"
  by (simp_all add: clear_approval_def replace_policy_def new_policy_def)

lemma effective_mode_cleared [simp]: "effective_mode (Some (clear_approval row)) = BM_ALERT_ONLY"
  by (simp add: effective_mode_def)

lemma put_policy_cases:
  assumes "put_policy seen d p new_id pid f expected = (d', r)"
  shows "(d' = d \<and> (\<exists>e. r = Inl e)) \<or>
    (\<exists>row. seen = Some row \<and> expected = None \<and> same_creation row p f \<and> d' = d \<and> r = Inr row) \<or>
    (\<exists>row. seen = None \<and> expected = None \<and> bp_version row = 1 \<and> bp_project_id row = pid \<and>
       (get_policy d pid = None \<and> d' = put_policy_row (clear_approval row) (put_policy_row row d) \<or>
        get_policy d pid = Some row \<and> d' = put_policy_row (clear_approval row) d) \<and>
       r = Inr (clear_approval row)) \<or>
    (\<exists>row. seen = Some row \<and> expected = Some (bp_version row) \<and>
       d' = put_policy_row (clear_approval (replace_policy row p f)) d \<and>
       r = Inr (clear_approval (replace_policy row p f)))"
  using assms
  by (auto simp: put_policy_def guarded_eq_pair Let_def same_creation_def get_policy_project
      split: option.splits if_splits)

text \<open>A policy write never makes a project enforce: whatever \<open>put_policy\<close> did, the
  project's policy is either the row it was before or one in effective \<open>alert_only\<close>, no
  other project's policy moved, and the row it returns is not enforced.\<close>

theorem put_policy_never_enforces:
  assumes "policies_wf d" and "seen = None \<or> seen = get_policy d pid"
    and "put_policy seen d p new_id pid f expected = (d', r)"
  shows "(get_policy d' pid = get_policy d pid \<or> effective_mode (get_policy d' pid) = BM_ALERT_ONLY) \<and>
    (\<forall>k. k \<noteq> pid \<longrightarrow> get_policy d' k = get_policy d k) \<and>
    (\<forall>row. r = Inr row \<longrightarrow> effective_mode (Some row) = BM_ALERT_ONLY)"
proof -
  have fresh: "effective_mode (Some row) = BM_ALERT_ONLY"
    if "seen = Some row" "same_creation row p f" for row
  proof -
    from that assms(2) have "row \<in> set (db_policies d)"
      by (auto simp: get_policy_def dest: sym intro: tbl_get_mem)
    with assms(1) that show ?thesis
      by (auto simp: policies_wf_def same_creation_def effective_mode_def)
  qed
  have key: "bp_project_id row = pid" if "seen = Some row" for row
    using that assms(2) get_policy_project by auto
  from put_policy_cases [OF assms(3)] show ?thesis
    using fresh key by (elim disjE exE conjE) auto
qed

lemma put_policy_never_enforces_witness:
  "\<exists>d' r. put_policy (get_policy budget_db 5) budget_db
      (sample_principal\<lparr>p_machine := sample_machine\<lparr>m_launch_scope := None\<rparr>\<rparr>) 71 5 sample_fields (Some 2) = (d', r)
    \<and> effective_mode (get_policy d' 5) = BM_ALERT_ONLY"
proof -
  let ?p = "sample_principal\<lparr>p_machine := sample_machine\<lparr>m_launch_scope := None\<rparr>\<rparr>"
  obtain d' row where put: "put_policy (get_policy budget_db 5) budget_db ?p 71 5 sample_fields (Some 2)
      = (d', Inr row)" and ne: "get_policy d' 5 \<noteq> get_policy budget_db 5"
    by (simp add: put_policy_def get_policy_def budget_db_def empty_db_def sample_policy_def guarded_def
        ensure_policy_writer_def sample_principal_def sample_machine_def gate_defs
        has_project_access_def put_policy_row_def replace_policy_def clear_approval_def Let_def)
  have "policies_wf budget_db"
    by (simp add: policies_wf_def budget_db_def sample_policy_def)
  from put_policy_never_enforces [OF this _ put] ne put show ?thesis by auto
qed

text \<open>Enforcement needs an explicit administrator: a successful approval comes
  from an \<open>admin\<close> outside any launch, on the stored policy at the expected version, whose
  fields it keeps; the policy then enforces and its version grows by one.\<close>

theorem approve_policy_needs_admin:
  assumes "approve_policy d p now pid v = (d', Inr row)"
  shows "p_role p = Role_ADMIN \<and> m_launch_scope (p_machine p) = None \<and>
    (\<exists>old. get_policy d pid = Some old \<and> bp_version old = v \<and> bp_fields row = bp_fields old \<and>
       effective_mode (Some old) = BM_ALERT_ONLY) \<and>
    effective_mode (Some row) = BM_ENFORCE \<and> get_policy d' pid = Some row \<and> bp_version row = v + 1"
proof -
  from assms obtain old where old: "get_policy d pid = Some old" and v: "bp_version old = v"
    and mode: "pf_mode (bp_fields old) = BM_ENFORCE" and pending: "bp_approved_at old = None"
    and row: "row = old\<lparr>bp_approved_by_user_id := Some (u_id (p_user p)), bp_approved_at := Some now,
        bp_version := bp_version old + 1\<rparr>" and d': "d' = put_policy_row row d"
    and gate: "p_role p = Role_ADMIN" "m_launch_scope (p_machine p) = None"
    by (auto simp: approve_policy_def guarded_eq_Inr ensure_policy_writer_def Let_def
        split: option.splits if_splits)
  from old have "bp_project_id old = pid" by (rule get_policy_project)
  with old v mode pending row d' gate show ?thesis by (simp add: effective_mode_def)
qed

lemma approve_policy_needs_admin_witness:
  "\<exists>d' row. approve_policy (budget_db\<lparr>db_policies := [sample_policy\<lparr>bp_approved_at := None\<rparr>]\<rparr>)
      (sample_principal\<lparr>p_machine := sample_machine\<lparr>m_launch_scope := None\<rparr>, p_role := Role_ADMIN\<rparr>)
      9 5 2 = (d', Inr row) \<and> effective_mode (Some row) = BM_ENFORCE"
proof -
  obtain d' row where "approve_policy (budget_db\<lparr>db_policies := [sample_policy\<lparr>bp_approved_at := None\<rparr>]\<rparr>)
      (sample_principal\<lparr>p_machine := sample_machine\<lparr>m_launch_scope := None\<rparr>, p_role := Role_ADMIN\<rparr>)
      9 5 2 = (d', Inr row)"
    by (simp add: approve_policy_def get_policy_def budget_db_def empty_db_def sample_policy_def
        sample_fields_def ensure_policy_writer_def sample_principal_def sample_machine_def gate_defs
        has_project_access_def Let_def)
  from approve_policy_needs_admin [OF this] this show ?thesis by blast
qed

subsection \<open>Policy writes check their version\<close>

datatype policy_request =
    PutPolicy principal uuid policy_fields
  | ApprovePolicy principal timestamp

definition policy_version :: "db \<Rightarrow> uuid \<Rightarrow> int option" where
  "policy_version d pid = map_option bp_version (get_policy d pid)"

fun policy_attempt :: "policy_request \<Rightarrow> uuid \<Rightarrow> int \<Rightarrow> db \<Rightarrow> (db, policy_row) outcome" where
  "policy_attempt (PutPolicy p new_id f) pid v d =
     put_policy (get_policy d pid) d p new_id pid f (Some v)"
| "policy_attempt (ApprovePolicy p now) pid v d = approve_policy d p now pid v"

lemma policy_attempt_cases:
  assumes "policy_attempt q pid v d = (d', r)"
  shows "(d' = d \<and> (\<exists>e. r = Inl e)) \<or>
    (\<exists>row. get_policy d pid = Some row \<and> bp_version row = v \<and> policy_version d' pid = Some (v + 1))"
proof (cases q)
  note key = get_policy_project [of d pid]
  case (PutPolicy p new_id f)
  with assms have "put_policy (get_policy d pid) d p new_id pid f (Some v) = (d', r)" by simp
  from put_policy_cases [OF this] show ?thesis
    by (auto simp: policy_version_def key)
next
  case (ApprovePolicy p now)
  with assms show ?thesis
    by (auto simp: approve_policy_def guarded_eq_pair Let_def policy_version_def
        dest: get_policy_project split: option.splits if_splits)
qed

interpretation policy_writes: versioned_write policy_version policy_attempt
proof unfold_locales
  fix q k v and d d' :: db and x
  assume "policy_attempt q k v d = (d', Inr x)"
  from policy_attempt_cases [OF this]
  show "policy_version d k = Some v \<and> policy_version d' k = Some (v + 1)"
    by (auto simp: policy_version_def)
next
  fix q k v and d d' :: db and r n
  assume "policy_attempt q k v d = (d', r)" and n: "policy_version d k = Some n"
  from policy_attempt_cases [OF this(1)] show "\<exists>m \<ge> n. policy_version d' k = Some m"
    using n by (auto simp: policy_version_def)
qed

text \<open>Concurrent editors of a policy cannot overwrite each other: among any
  sequence of replacements and approvals, by any principals, no two succeed against the same
  version of a project's policy.\<close>

theorem policy_no_lost_update:
  assumes "get_policy d pid = Some policy"
  shows "distinct (snd (policy_writes.run pid requests d))"
  by (rule policy_writes.one_success_per_version [of _ _ "bp_version policy"])
    (simp add: policy_version_def assms)

lemma policy_no_lost_update_witness:
  "distinct (snd (policy_writes.run 5 [(ApprovePolicy sample_principal 1, 2), (ApprovePolicy sample_principal 2, 2)]
     budget_db))"
  by (rule policy_no_lost_update [of _ _ sample_policy])
    (simp add: get_policy_def budget_db_def sample_policy_def)

subsection \<open>Accounting windows\<close>

lemma day_of_month_samples:
  "day_of_month 0 = 1" "day_of_month 58 = 28" "day_of_month 59 = 1" "day_of_month 11016 = 29"
  "day_of_month 19782 = 29" "day_of_month 20453 = 31" "day_of_month (-1) = 31"
  by code_simp+

lemma div_between:
  fixes k n :: int
  assumes "0 < k"
  shows "k * (n div k) \<le> n \<and> n < k * (n div k) + k"
proof -
  obtain q r where qr: "q = n div k" "r = n mod k" by simp
  have "k * q + r = n" "0 \<le> r" "r < k" using assms by (simp_all add: qr)
  then show ?thesis unfolding qr(1) [symmetric] by linarith
qed

lemma month_arith:
  fixes doy mp e :: int
  assumes "153 * mp \<le> 5 * doy + 2 \<and> 5 * doy + 2 < 153 * mp + 153"
    and "5 * e \<le> 153 * mp + 2 \<and> 153 * mp + 2 < 5 * e + 5"
  shows "0 \<le> doy - e \<and> doy - e \<le> 30"
proof -
  have "5 * e < 5 * (doy + 1)" using assms by auto
  moreover have "5 * doy < 5 * (e + 31)" using assms by auto
  ultimately show ?thesis by simp
qed

lemma month_offset:
  assumes "mp = (5 * doy + 2) div 153"
  shows "0 \<le> doy - (153 * mp + 2) div 5 \<and> doy - (153 * mp + 2) div 5 \<le> (30 :: int)"
  by (rule month_arith [OF div_between [of 153 "5 * doy + 2", folded assms, OF zero_less_numeral]
        div_between [of 5 "153 * mp + 2", OF zero_less_numeral]])

lemma day_of_month_bounds: "1 \<le> day_of_month days \<and> day_of_month days \<le> 31"
proof -
  have "\<exists>doy mp. mp = (5 * doy + 2) div 153 \<and> day_of_month days = doy - (153 * mp + 2) div 5 + 1"
    unfolding day_of_month_def Let_def by blast
  with month_offset show ?thesis by fastforce
qed

text \<open>The accounting window is the current UTC day or month: it starts at a
  midnight not after the instant of the read, less than a day (less than 31 days and never
  before the same day's midnight is passed) earlier; a lifetime budget has no start.\<close>

theorem period_start_window:
  "(case period_start period now of
      None \<Rightarrow> period = BP_LIFETIME
    | Some s \<Rightarrow> s mod day_length = 0 \<and> s \<le> now \<and>
        (period = BP_DAY \<longrightarrow> now < s + day_length) \<and>
        (period = BP_MONTH \<longrightarrow> now < s + 31 * day_length))"
proof -
  define m where "m = (now div day_length) * day_length"
  have mid: "now - now mod day_length = m" by (simp add: m_def minus_mod_eq_div_mult)
  have m: "m \<le> now" "now < m + day_length" "m mod day_length = 0"
    using div_between [of day_length now] by (simp_all add: m_def mult.commute)
  define k where "k = day_of_month (now div day_length) - 1"
  have k: "0 \<le> k" "k \<le> 30" using day_of_month_bounds [of "now div day_length"] by (auto simp: k_def)
  have "m - k * day_length = (now div day_length - k) * day_length"
    by (simp add: m_def algebra_simps)
  then have month: "(m - k * day_length) mod day_length = 0" by simp
  have "period_start BP_DAY now = Some m" "period_start BP_MONTH now = Some (m - k * day_length)"
    "period_start BP_LIFETIME now = None"
    by (simp_all only: period_start_def Let_def mid k_def budget_period.case)
  then show ?thesis using m k month by (cases period) simp_all
qed

lemma period_start_window_witness:
  "\<exists>s. period_start BP_MONTH (40 * day_length + 7) = Some s \<and> s mod day_length = 0 \<and>
     40 * day_length + 7 < s + 31 * day_length"
proof -
  obtain s where s: "period_start BP_MONTH (40 * day_length + 7) = Some s"
    by (simp add: period_start_def Let_def)
  from period_start_window [of BP_MONTH "40 * day_length + 7"] s show ?thesis by simp
qed

end
