(* ===== verification/Presence.thy ===== *)
theory Presence
  imports Authz
begin

section \<open>Machine presence and launch grants (\<open>services/heartbeats.py\<close>, \<open>services/launch_grants.py\<close>)\<close>

text \<open>
  The presence of a machine is derived from its last heartbeat at read time, never stored.
  A launch grant lets another user start work on a machine; the owner and the admins need
  none, and no grant widens project access. The stored capability blob is the record
  \<open>parse_stored_capabilities\<close> reads from it (\<open>None\<close> for an absent or unreadable one).
\<close>

record settings =
  st_heartbeat_interval_seconds :: int
  st_heartbeat_offline_after_seconds :: int
  st_launch_activity_grace_seconds :: int

definition default_settings :: settings where
  "default_settings = \<lparr>st_heartbeat_interval_seconds = 30,
     st_heartbeat_offline_after_seconds = 90, st_launch_activity_grace_seconds = 900\<rparr>"

subsection \<open>Presence\<close>

text \<open>\<open>heartbeat_interval_seconds * 1.5\<close> seconds are \<open>interval * 1500000\<close> microseconds.\<close>

definition derive_status :: "settings \<Rightarrow> timestamp \<Rightarrow> machine_row \<Rightarrow> machine_status" where
  "derive_status st now machine =
     (case m_last_seen_at machine of
        None \<Rightarrow> MS_OFFLINE
      | Some seen \<Rightarrow>
          (let age = now - seen
           in if age \<le> st_heartbeat_interval_seconds st * 1500000 then MS_ONLINE
              else if age \<le> seconds (st_heartbeat_offline_after_seconds st) then MS_IDLE
              else MS_OFFLINE))"

definition put_machine :: "machine_row \<Rightarrow> db \<Rightarrow> db" where
  "put_machine m d = d\<lparr>db_machines := tbl_put m_id m (db_machines d)\<rparr>"

definition get_machine_row :: "db \<Rightarrow> uuid \<Rightarrow> machine_row option" where
  "get_machine_row d = tbl_get m_id (db_machines d)"

lemma get_put_machine [simp]:
  "get_machine_row (put_machine m d) k = (if k = m_id m then Some m else get_machine_row d k)"
  by (simp add: get_machine_row_def put_machine_def)

record heartbeat_request =
  hb_machine_id :: uuid
  hb_capabilities :: "machine_capabilities option"

definition record_heartbeat ::
  "db \<Rightarrow> timestamp \<Rightarrow> machine_row \<Rightarrow> heartbeat_request \<Rightarrow> (db, machine_row) outcome" where
  "record_heartbeat d now machine req =
     guarded (raise_if (hb_machine_id req \<noteq> m_id machine)
        (HTTPException 409 (JObj [(''error_code'', JText ''machine_id_mismatch''),
           (''message'', JText ''machine_id does not match the authenticated machine'')]))) d
       (let seen = machine\<lparr>m_last_seen_at := Some now\<rparr>;
            machine' = (case hb_capabilities req of
               None \<Rightarrow> seen
             | Some c \<Rightarrow> seen\<lparr>m_capabilities := Some c, m_capabilities_reported_at := Some now\<rparr>)
        in (put_machine machine' d, Inr machine'))"

fun presence_rank :: "machine_status \<Rightarrow> nat" where
  "presence_rank MS_OFFLINE = 0"
| "presence_rank MS_IDLE = 1"
| "presence_rank MS_ONLINE = 2"

text \<open>Presence only fades: without a new heartbeat a machine's derived status
  never improves as time passes, whatever the thresholds, and under non-negative thresholds
  a heartbeat makes the machine online at the instant it is recorded.\<close>

theorem presence_fades:
  assumes "now \<le> later"
  shows "presence_rank (derive_status st later machine) \<le> presence_rank (derive_status st now machine)
    \<and> (\<forall>d req d' m'. 0 \<le> st_heartbeat_interval_seconds st \<longrightarrow>
        record_heartbeat d now machine req = (d', Inr m') \<longrightarrow>
        derive_status st now m' = MS_ONLINE \<and> get_machine_row d' (m_id machine) = Some m')"
proof (intro conjI allI impI)
  show "presence_rank (derive_status st later machine) \<le> presence_rank (derive_status st now machine)"
    using assms by (auto simp: derive_status_def Let_def split: option.split)
  fix d req d' m'
  assume "0 \<le> st_heartbeat_interval_seconds st" "record_heartbeat d now machine req = (d', Inr m')"
  then show "derive_status st now m' = MS_ONLINE" "get_machine_row d' (m_id machine) = Some m'"
    by (auto simp: record_heartbeat_def guarded_eq_Inr Let_def derive_status_def split: option.splits)
qed

lemma presence_fades_witness:
  "presence_rank (derive_status default_settings (seconds 300) (sample_machine\<lparr>m_last_seen_at := Some 0\<rparr>))
   \<le> presence_rank (derive_status default_settings (seconds 10) (sample_machine\<lparr>m_last_seen_at := Some 0\<rparr>))"
  using presence_fades [of "seconds 10" "seconds 300" default_settings
      "sample_machine\<lparr>m_last_seen_at := Some 0\<rparr>"]
  by (simp add: seconds_def)

subsection \<open>Launch grants\<close>

definition grant_not_found :: "string \<Rightarrow> http_error" where
  "grant_not_found what =
     HTTPException 404 (JObj [(''error_code'', JText ''not_found''),
       (''message'', JText (what @ '' not found''))])"

definition get_managed_machine ::
  "db \<Rightarrow> principal \<Rightarrow> uuid \<Rightarrow> string \<Rightarrow> machine_row fallible" where
  "get_managed_machine d p machine_id action =
     (let machine = get_machine_row d machine_id
      in if p_role p = Role_ADMIN
         then (case machine of None \<Rightarrow> Inl (grant_not_found ''machine'') | Some m \<Rightarrow> Inr m)
         else (case machine of
                 None \<Rightarrow> Inl (forbidden ''machine_launch_grant'' action)
               | Some m \<Rightarrow>
                   if m_owner_user_id m \<noteq> u_id (p_user p) \<or> p_role p = Role_READONLY
                   then Inl (forbidden ''machine_launch_grant'' action)
                   else Inr m))"

definition list_grants :: "db \<Rightarrow> machine_row \<Rightarrow> grant_row list" where
  "list_grants d machine =
     sort_key g_created_at (sort_key g_user_id
       (filter (\<lambda>g. g_machine_id g = m_id machine) (db_grants d)))"

definition find_grant :: "db \<Rightarrow> uuid \<Rightarrow> uuid \<Rightarrow> grant_row option" where
  "find_grant d machine_id user_id =
     tbl_get (\<lambda>g. (g_machine_id g, g_user_id g)) (db_grants d) (machine_id, user_id)"

definition grant_launch ::
  "db \<Rightarrow> principal \<Rightarrow> timestamp \<Rightarrow> machine_row \<Rightarrow> uuid \<Rightarrow> uuid option \<Rightarrow> timestamp option
     \<Rightarrow> (db, grant_row \<times> bool) outcome" where
  "grant_launch d p now machine user_id project_id expires_at =
     guarded
       (and_then (raise_if (tbl_get u_id (db_users d) user_id = None) (grant_not_found ''user''))
       (and_then
          (case project_id of
             None \<Rightarrow> Inr ()
           | Some pid \<Rightarrow>
               and_then (ensure_project_access p pid WriteAction)
                 (raise_if (pid \<notin> set (db_projects d)) (grant_not_found ''project'')))
          (raise_if (case expires_at of None \<Rightarrow> False | Some e \<Rightarrow> e \<le> now)
             (HTTPException 422 (JObj [(''error_code'', JText ''validation_error''),
                (''message'', JText ''expires_at must be in the future'')]))))) d
       (case find_grant d (m_id machine) user_id of
          Some row \<Rightarrow> (d, Inr (row, False))
        | None \<Rightarrow>
            (let row = \<lparr>g_machine_id = m_id machine, g_user_id = user_id, g_project_id = project_id,
                        g_expires_at = expires_at, g_granted_by_user_id = u_id (p_user p),
                        g_created_at = now\<rparr>
             in (d\<lparr>db_grants := db_grants d @ [row]\<rparr>, Inr (row, True))))"

definition revoke_grant :: "db \<Rightarrow> machine_row \<Rightarrow> uuid \<Rightarrow> db" where
  "revoke_grant d machine user_id =
     d\<lparr>db_grants := filter (\<lambda>g. \<not> (g_machine_id g = m_id machine \<and> g_user_id g = user_id)) (db_grants d)\<rparr>"

definition can_launch :: "db \<Rightarrow> timestamp \<Rightarrow> principal \<Rightarrow> machine_row \<Rightarrow> uuid \<Rightarrow> bool" where
  "can_launch d now p machine project_id =
     (if p_role p = Role_READONLY \<or> \<not> has_project_access p project_id then False
      else if p_role p = Role_ADMIN \<or> m_owner_user_id machine = u_id (p_user p) then True
      else list_ex (\<lambda>g. g_machine_id g = m_id machine \<and> g_user_id g = u_id (p_user p)
             \<and> (g_project_id g = None \<or> g_project_id g = Some project_id)
             \<and> (case g_expires_at g of None \<Rightarrow> True | Some e \<Rightarrow> now < e)) (db_grants d))"

definition ensure_can_launch ::
  "db \<Rightarrow> timestamp \<Rightarrow> principal \<Rightarrow> machine_row \<Rightarrow> uuid \<Rightarrow> unit fallible" where
  "ensure_can_launch d now p machine project_id =
     raise_if (\<not> can_launch d now p machine project_id) (forbidden ''task_launch'' ''create'')"

lemma find_grant_None:
  "find_grant d mid uid = None \<longleftrightarrow> (\<forall>g \<in> set (db_grants d). \<not> (g_machine_id g = mid \<and> g_user_id g = uid))"
  by (auto simp: find_grant_def tbl_get_None_iff image_iff)

text \<open>A grant opens exactly what it says: right after a new grant its user may
  launch on the machine in a project he can write to, only in the granted project if one was
  named and only until it expires; after a revocation a user who is neither the owner nor an
  admin can launch on that machine no more, and nobody else's rights moved.\<close>

theorem grant_then_revoke:
  assumes "grant_launch d p now machine user_id project_id expires_at = (d', Inr (row, True))"
    and "u_id (p_user q) = user_id" and "p_role q \<noteq> Role_ADMIN" and "m_owner_user_id machine \<noteq> user_id"
  shows "(can_launch d' t q machine pid \<longleftrightarrow>
      p_role q \<noteq> Role_READONLY \<and> has_project_access q pid \<and>
      (project_id = None \<or> project_id = Some pid) \<and>
      (case expires_at of None \<Rightarrow> True | Some e \<Rightarrow> t < e)) \<and>
    \<not> can_launch (revoke_grant d' machine user_id) t q machine pid \<and>
    (m_id m \<noteq> m_id machine \<or> u_id (p_user r) \<noteq> user_id \<longrightarrow>
      can_launch (revoke_grant d' machine user_id) t r m pid = can_launch d t r m pid)"
proof (intro conjI [of "_ = _"] conjI [of "\<not> _"] impI)
  from assms(1) have none: "find_grant d (m_id machine) user_id = None"
    and d': "db_grants d' = db_grants d @ [\<lparr>g_machine_id = m_id machine, g_user_id = user_id,
      g_project_id = project_id, g_expires_at = expires_at, g_granted_by_user_id = u_id (p_user p),
      g_created_at = now\<rparr>]"
    by (auto simp: grant_launch_def guarded_eq_Inr Let_def split: option.splits)
  show "can_launch d' t q machine pid \<longleftrightarrow>
      p_role q \<noteq> Role_READONLY \<and> has_project_access q pid \<and>
      (project_id = None \<or> project_id = Some pid) \<and>
      (case expires_at of None \<Rightarrow> True | Some e \<Rightarrow> t < e)"
    using assms(2-4) none by (auto simp: can_launch_def d' find_grant_None list_ex_iff)
  show "\<not> can_launch (revoke_grant d' machine user_id) t q machine pid"
    using assms(2-4) by (auto simp: can_launch_def revoke_grant_def list_ex_iff)
  show "can_launch (revoke_grant d' machine user_id) t r m pid = can_launch d t r m pid"
    if "m_id m \<noteq> m_id machine \<or> u_id (p_user r) \<noteq> user_id"
    using that by (auto simp: can_launch_def revoke_grant_def d' list_ex_iff)
qed

lemma grant_then_revoke_witness:
  "\<exists>d'. grant_launch (empty_db\<lparr>db_users := [\<lparr>u_id = 4, u_role = Role_DEVELOPER\<rparr>]\<rparr>) sample_principal 0
      sample_machine 4 None None = (d', Inr (\<lparr>g_machine_id = 10, g_user_id = 4, g_project_id = None,
        g_expires_at = None, g_granted_by_user_id = 1, g_created_at = 0\<rparr>, True)) \<and>
    can_launch d' 7 (sample_principal\<lparr>p_user := \<lparr>u_id = 4, u_role = Role_DEVELOPER\<rparr>\<rparr>) sample_machine 5"
proof -
  let ?q = "sample_principal\<lparr>p_user := \<lparr>u_id = 4, u_role = Role_DEVELOPER\<rparr>\<rparr>"
  obtain d' where g: "grant_launch (empty_db\<lparr>db_users := [\<lparr>u_id = 4, u_role = Role_DEVELOPER\<rparr>]\<rparr>)
      sample_principal 0 sample_machine 4 None None = (d', Inr (\<lparr>g_machine_id = 10, g_user_id = 4,
        g_project_id = None, g_expires_at = None, g_granted_by_user_id = 1, g_created_at = 0\<rparr>, True))"
    by (simp add: grant_launch_def empty_db_def find_grant_def sample_principal_def sample_machine_def Let_def)
  have "can_launch d' 7 ?q sample_machine 5"
    using grant_then_revoke [OF g, of ?q 7 5]
    by (simp add: sample_principal_def sample_machine_def has_project_access_def)
  with g show ?thesis by blast
qed

end
