(* ===== verification/Launches.thy ===== *)
theory Launches
  imports Claims Budgets Presence
begin

section \<open>Task launches (\<open>services/task_launches.py\<close>)\<close>

text \<open>
  The request to start a task on a machine, from its admission to its terminal status, with
  the lazy server-side expiry every read and write runs first. Handlers get the row copy the
  session loaded (\<open>seen\<close>); \<open>report\<close>, \<open>cancel\<close> and \<open>retry\<close> re-read it under
  \<open>FOR UPDATE\<close>, the reads do not, and an \<open>UPDATE\<close> writes the columns the handler changed
  (\<open>update_launch_row\<close>) into whatever row is stored by then. \<open>now\<close> is the instant of the
  request, \<open>eid\<close> the fresh id of its event. The work-profile pin (the Library resolver) and
  the replay confirmation are arguments: they belong to services modelled elsewhere.
\<close>

subsection \<open>Requests\<close>

record launch_create =
  lc_task_id :: uuid
  lc_machine_id :: uuid
  lc_harness_id :: string
  lc_agent_stable_key :: "string option"
  lc_profile_key :: "string option"
  lc_allow_production :: bool
  lc_expires_in_seconds :: int

definition launch_create_schema :: "launch_create \<Rightarrow> bool" where
  "launch_create_schema r \<longleftrightarrow> 60 \<le> lc_expires_in_seconds r \<and> lc_expires_in_seconds r \<le> LAUNCH_MAX_TTL_SECONDS"

record profile_pin =
  pin_contract_version :: int
  pin_digest :: string

record launch_report =
  lr_expected_version :: int
  lr_status :: launch_status
  lr_reason_code :: launch_reason
  lr_session_id :: "uuid option"
  lr_output_excerpt :: "string option"

record launch_retry =
  rt_expires_in_seconds :: int
  rt_replay :: "string option"

definition launch_retry_schema :: "launch_retry \<Rightarrow> bool" where
  "launch_retry_schema r \<longleftrightarrow> 60 \<le> rt_expires_in_seconds r \<and> rt_expires_in_seconds r \<le> LAUNCH_MAX_TTL_SECONDS"

subsection \<open>Rows and events\<close>

definition update_launch_row :: "db \<Rightarrow> uuid \<Rightarrow> (launch_row \<Rightarrow> launch_row) \<Rightarrow> db" where
  "update_launch_row d k f =
     (case get_launch_row d k of None \<Rightarrow> d | Some l \<Rightarrow> put_launch (f l) d)"

fun launch_event_type :: "launch_status \<Rightarrow> event_type option" where
  "launch_event_type LS_REQUESTED = Some TASK_LAUNCH_REQUESTED"
| "launch_event_type LS_ACCEPTED = Some TASK_LAUNCH_ACCEPTED"
| "launch_event_type LS_REJECTED = Some TASK_LAUNCH_REJECTED"
| "launch_event_type LS_CANCELLED = Some TASK_LAUNCH_CANCELLED"
| "launch_event_type LS_EXPIRED = Some TASK_LAUNCH_EXPIRED"
| "launch_event_type LS_SUCCEEDED = Some TASK_LAUNCH_FINISHED"
| "launch_event_type LS_FAILED = Some TASK_LAUNCH_FINISHED"
| "launch_event_type _ = None"

definition launch_event_payload :: "launch_row \<Rightarrow> string \<Rightarrow> (string \<times> jval) list" where
  "launch_event_payload l previous_status =
     [(''launch_id'', JUuid (l_id l)), (''machine_id'', JUuid (l_machine_id l)),
      (''harness_id'', JText (l_harness_id l)),
      (''status'', JText (launch_status_value (l_status l))),
      (''previous_status'', JText previous_status),
      (''reason_code'', JText (launch_reason_value (l_reason_code l)))]"

definition launch_event ::
  "principal \<Rightarrow> timestamp \<Rightarrow> uuid \<Rightarrow> launch_row \<Rightarrow> event_type \<Rightarrow> string \<Rightarrow> actor_type \<times> uuid \<Rightarrow> event_row" where
  "launch_event p now eid l event_type previous_status actor =
     \<lparr>e_id = Uuid4 eid, e_type = event_type, e_project_id = l_project_id l,
      e_task_id = Some (l_task_id l), e_machine_id = Some (m_id (p_machine p)),
      e_actor_type = fst actor, e_actor_id = snd actor, e_client_timestamp = now,
      e_payload = launch_event_payload l previous_status\<rparr>"

definition launch_commit :: "db \<Rightarrow> event_row \<Rightarrow> db" where
  "launch_commit d ev = (let (d1, stored) = stage_event d ev in publish_event stored d1)"

subsection \<open>Authorization of a creation\<close>

definition error_code :: "nat \<Rightarrow> string \<Rightarrow> http_error" where
  "error_code st code = HTTPException st (JObj [(''error_code'', JText code)])"

definition reference_profiles :: "string list" where
  "reference_profiles = [''coding'', ''architecture-read-only'']"

definition authorize_profile_request :: "launch_create \<Rightarrow> unit fallible" where
  "authorize_profile_request r =
     (case lc_profile_key r of
        None \<Rightarrow> Inr ()
      | Some key \<Rightarrow>
          and_then (raise_if (lc_agent_stable_key r = None) (error_code 422 ''profile_requires_agent''))
            (raise_if (key \<notin> set reference_profiles)
               (HTTPException 422 (JObj [(''error_code'', JText ''unknown_profile''),
                  (''profile_key'', JText key)]))))"

definition authorize_production_request :: "principal \<Rightarrow> launch_create \<Rightarrow> unit fallible" where
  "authorize_production_request p r =
     raise_if (lc_allow_production r \<and> \<not> p_human_authenticated p)
       (error_code 403 ''production_approval_requires_user_session'')"

definition authorize_create ::
  "db \<Rightarrow> settings \<Rightarrow> timestamp \<Rightarrow> principal \<Rightarrow> uuid \<Rightarrow> task_row \<Rightarrow> machine_row \<Rightarrow> launch_create
     \<Rightarrow> unit fallible" where
  "authorize_create d st now p project_id task machine r =
     and_then (ensure_project_access p project_id WriteAction)
     (and_then (ensure_can_write p ''task_launch'')
     (and_then (authorize_profile_request r)
     (and_then (authorize_production_request p r)
     (and_then (raise_if (t_project_id task \<noteq> project_id \<or> lc_task_id r \<noteq> t_id task)
        (error_code 409 ''task_project_mismatch''))
     (and_then (raise_if (lc_machine_id r \<noteq> m_id machine) (error_code 409 ''launch_machine_mismatch''))
     (and_then (ensure_can_launch d now p machine project_id)
       (case (m_capabilities machine, m_capabilities_reported_at machine) of
          (Some caps, Some reported_at) \<Rightarrow>
            and_then (raise_if (seconds (st_heartbeat_offline_after_seconds st) < now - reported_at)
               (error_code 409 ''machine_capabilities_stale''))
            (and_then (raise_if (derive_status st now machine \<noteq> MS_ONLINE)
               (error_code 409 ''machine_offline''))
            (and_then (raise_if (\<not> mc_accepts_launches caps) (error_code 409 ''machine_not_opted_in''))
            (and_then (raise_if (project_id \<notin> set (mc_project_ids caps))
               (error_code 409 ''project_not_registered''))
            (and_then (raise_if (mc_launch_safety caps \<noteq> Some True)
               (error_code 409 ''launch_safety_unsupported_by_machine''))
              (raise_if (lc_profile_key r \<noteq> None \<and> mc_launch_profiles caps \<noteq> Some True)
                 (error_code 409 ''profile_unsupported_by_machine''))))))
        | _ \<Rightarrow> Inl (error_code 409 ''machine_capabilities_missing''))))))))"

subsection \<open>Creation\<close>

text \<open>Budget admission, row, reservation and event in one transaction: a refusal anywhere
  leaves the database as it was. \<open>pin\<close> is what \<open>resolve_profile_pin\<close> answered.\<close>

record launch_ids =
  id_launch :: uuid
  id_event :: uuid
  id_reservation :: uuid

definition new_launch ::
  "timestamp \<Rightarrow> principal \<Rightarrow> uuid \<Rightarrow> uuid \<Rightarrow> launch_create \<Rightarrow> int \<Rightarrow> uuid option \<Rightarrow> jval option
     \<Rightarrow> profile_pin option \<Rightarrow> launch_row" where
  "new_launch now p new_id project_id r attempt retry_of replay_basis pin =
     \<lparr>l_id = new_id, l_project_id = project_id, l_task_id = lc_task_id r,
      l_machine_id = lc_machine_id r, l_requested_by_user_id = u_id (p_user p),
      l_harness_id = lc_harness_id r, l_agent_stable_key = lc_agent_stable_key r,
      l_status = LS_REQUESTED, l_reason_code = LR_NONE, l_session_id = None,
      l_output_excerpt = None, l_expires_at = now + seconds (lc_expires_in_seconds r),
      l_finished_at = None, l_created_at = now, l_attempt = attempt,
      l_retry_of_launch_id = retry_of, l_replay_basis = replay_basis,
      l_allow_production = lc_allow_production r, l_profile_key = lc_profile_key r,
      l_profile_contract_version = map_option pin_contract_version pin,
      l_profile_digest = map_option pin_digest pin, l_version = 1\<rparr>"

definition reserve_admitted ::
  "db \<Rightarrow> launch_ids \<Rightarrow> timestamp \<Rightarrow> uuid \<Rightarrow> admission option \<Rightarrow> db" where
  "reserve_admitted d ids now project_id adm =
     (case adm of
        None \<Rightarrow> d
      | Some a \<Rightarrow> fst (record_reservation d (id_reservation ids) now project_id (id_launch ids) a))"

definition stage_launch ::
  "db \<Rightarrow> principal \<Rightarrow> timestamp \<Rightarrow> launch_ids \<Rightarrow> uuid \<Rightarrow> launch_create \<Rightarrow> int \<Rightarrow> uuid option
     \<Rightarrow> jval option \<Rightarrow> profile_pin option fallible \<Rightarrow> (db, launch_row \<times> event_row) outcome" where
  "stage_launch d p now ids project_id r attempt retry_of replay_basis pin =
     (case decide_admission d project_id now of
        (_, Inl e) \<Rightarrow> (d, Inl e)
      | (d1, Inr adm) \<Rightarrow>
          guarded (authorize_production_request p r) d
            (case pin of
               Inl e \<Rightarrow> (d, Inl e)
             | Inr pinned \<Rightarrow>
                 (let launch = new_launch now p (id_launch ids) project_id r attempt retry_of
                                 replay_basis pinned;
                      d2 = put_launch launch d1;
                      d3 = reserve_admitted d2 ids now project_id adm;
                      ev = launch_event p now (id_event ids) launch TASK_LAUNCH_REQUESTED []
                             (event_actor d p None);
                      (d4, stored) = stage_event d3 ev
                  in (d4, Inr (launch, stored)))))"

definition create_launch ::
  "db \<Rightarrow> principal \<Rightarrow> timestamp \<Rightarrow> launch_ids \<Rightarrow> uuid \<Rightarrow> launch_create \<Rightarrow> int \<Rightarrow> uuid option
     \<Rightarrow> jval option \<Rightarrow> profile_pin option fallible \<Rightarrow> (db, launch_row) outcome" where
  "create_launch d p now ids project_id r attempt retry_of replay_basis pin =
     (case stage_launch d p now ids project_id r attempt retry_of replay_basis pin of
        (d', Inl e) \<Rightarrow> (d', Inl e)
      | (d', Inr (launch, ev)) \<Rightarrow> (publish_event ev d', Inr launch))"

subsection \<open>Expiry\<close>

definition linked_open_session :: "db \<Rightarrow> launch_row \<Rightarrow> session_row option" where
  "linked_open_session d l =
     (case l_session_id l of
        None \<Rightarrow> None
      | Some sid \<Rightarrow>
          (case get_session_row d sid of
             None \<Rightarrow> None
           | Some s \<Rightarrow> if s_ended_at s \<noteq> None then None else Some s))"

definition session_ended_id :: "uuid \<Rightarrow> event_id" where
  "session_ended_id session_id =
     Uuid5 ''studio-os/session-events'' [JUuid session_id, JText SESSION_ENDED]"

definition close_session_server_side ::
  "db \<Rightarrow> timestamp \<Rightarrow> session_row \<Rightarrow> uuid \<Rightarrow> uuid \<Rightarrow> string \<Rightarrow> db" where
  "close_session_server_side d now s project_id emitter reason =
     fst (stage_event (put_session (s\<lparr>s_ended_at := Some now, s_last_activity_at := Some now\<rparr>) d)
       \<lparr>e_id = session_ended_id (s_id s), e_type = SESSION_ENDED, e_project_id = project_id,
        e_task_id = s_task_id s, e_machine_id = Some emitter, e_actor_type = Actor_system,
        e_actor_id = emitter, e_client_timestamp = now,
        e_payload = [(''session_id'', JUuid (s_id s)), (''reason'', JText reason)]\<rparr>)"

definition close_session_of_expired_launch :: "db \<Rightarrow> timestamp \<Rightarrow> launch_row \<Rightarrow> db" where
  "close_session_of_expired_launch d now l =
     (case linked_open_session d l of
        None \<Rightarrow> d
      | Some s \<Rightarrow> close_session_server_side d now s (l_project_id l) (l_machine_id l) ''launch_expired'')"

definition claims_of_launch :: "db \<Rightarrow> launch_row \<Rightarrow> claim_row list" where
  "claims_of_launch d l =
     filter (\<lambda>c. c_task_id c = Some (l_task_id l) \<and> c_status c = ClaimStatus_ACTIVE
        \<and> c_claimed_by_machine_id c = l_machine_id l) (db_claims d)"

definition release_claims_of_expired_launch :: "db \<Rightarrow> timestamp \<Rightarrow> launch_row \<Rightarrow> db" where
  "release_claims_of_expired_launch d now l =
     fold (\<lambda>c d. fst (release_claim_server_side d now c (l_machine_id l))) (claims_of_launch d l) d"

definition hard_deadline :: "launch_row \<Rightarrow> timestamp" where
  "hard_deadline l = l_created_at l + seconds LAUNCH_MAX_TTL_SECONDS"

definition expired_launch :: "timestamp \<Rightarrow> launch_row \<Rightarrow> launch_row" where
  "expired_launch now l =
     l\<lparr>l_status := LS_EXPIRED,
       l_reason_code := (if l_status l = LS_REQUESTED then LR_EXPIRED_UNPULLED else LR_EXPIRED_TIMEOUT),
       l_finished_at := Some now, l_version := l_version l + 1\<rparr>"

text \<open>The activity rule: the linked session is open, was active inside the grace window, and
  the hard deadline is ahead.\<close>

definition prolonged_until :: "db \<Rightarrow> settings \<Rightarrow> timestamp \<Rightarrow> launch_row \<Rightarrow> timestamp option" where
  "prolonged_until d st now l =
     (case linked_open_session d l of
        None \<Rightarrow> None
      | Some s \<Rightarrow>
          (let activity = (case s_last_activity_at s of Some t \<Rightarrow> t | None \<Rightarrow> s_started_at s);
               grace = seconds (st_launch_activity_grace_seconds st)
           in if now < hard_deadline l \<and> now - activity \<le> grace
              then Some (min (now + grace) (hard_deadline l)) else None))"

text \<open>
  The columns an expiry changed are those of the loaded copy: status, reason, end and
  version (computed from the copy's version) overwrite the stored row's.
\<close>

definition store_expiry :: "launch_row \<Rightarrow> launch_row \<Rightarrow> launch_row" where
  "store_expiry expired stored =
     stored\<lparr>l_status := l_status expired, l_reason_code := l_reason_code expired,
       l_finished_at := l_finished_at expired, l_version := l_version expired\<rparr>"

definition expire_launch_if_overdue ::
  "db \<Rightarrow> settings \<Rightarrow> timestamp \<Rightarrow> uuid \<Rightarrow> principal \<Rightarrow> launch_row \<Rightarrow> db \<times> launch_row" where
  "expire_launch_if_overdue d st now eid p l =
     (if launch_terminal (l_status l) then (d, l)
      else if now < l_expires_at l then (d, l)
      else case prolonged_until d st now l of
             Some t \<Rightarrow>
               (update_launch_row d (l_id l) (\<lambda>r. r\<lparr>l_expires_at := t\<rparr>), l\<lparr>l_expires_at := t\<rparr>)
           | None \<Rightarrow>
               (let l' = expired_launch now l;
                    d1 = update_launch_row d (l_id l) (store_expiry l');
                    d2 = close_session_of_expired_launch d1 now l;
                    d3 = release_claims_of_expired_launch d2 now l
                in (launch_commit d3 (launch_event p now eid l' TASK_LAUNCH_EXPIRED
                      (launch_status_value (l_status l)) (Actor_system, m_id (p_machine p))), l')))"

text \<open>
  With \<open>persist_extension=False\<close> an extension waits for the caller's commit, so a later
  raise rolls it back; an expiry has committed by itself.
\<close>

definition after_rollback :: "db \<Rightarrow> launch_row \<Rightarrow> db \<times> launch_row \<Rightarrow> db" where
  "after_rollback d l expired = (if l_status (snd expired) = l_status l then d else fst expired)"

subsection \<open>Reads\<close>

definition get_launch ::
  "launch_row option \<Rightarrow> db \<Rightarrow> settings \<Rightarrow> timestamp \<Rightarrow> uuid \<Rightarrow> principal
     \<Rightarrow> (db, launch_row option) outcome" where
  "get_launch seen d st now eid p =
     (case seen of
        None \<Rightarrow> (d, Inr None)
      | Some l \<Rightarrow>
          (let (d1, l1) = expire_launch_if_overdue d st now eid p l
           in guarded (ensure_project_access p (l_project_id l1) ReadAction) d1 (d1, Inr (Some l1))))"

fun expire_each ::
  "db \<Rightarrow> settings \<Rightarrow> timestamp \<Rightarrow> (nat \<Rightarrow> uuid) \<Rightarrow> nat \<Rightarrow> principal \<Rightarrow> launch_row list
     \<Rightarrow> db \<times> launch_row list" where
  "expire_each d st now eids i p [] = (d, [])"
| "expire_each d st now eids i p (l # ls) =
     (let (d1, l1) = expire_launch_if_overdue d st now (eids i) p l;
          (d2, ls2) = expire_each d1 st now eids (Suc i) p ls
      in (d2, l1 # ls2))"

definition oldest_first :: "launch_row list \<Rightarrow> launch_row list" where
  "oldest_first ls = sort_key l_created_at (sort_key l_id ls)"

definition list_launches ::
  "db \<Rightarrow> settings \<Rightarrow> timestamp \<Rightarrow> (nat \<Rightarrow> uuid) \<Rightarrow> principal \<Rightarrow> uuid \<Rightarrow> nat \<Rightarrow> nat
     \<Rightarrow> (db, launch_row list) outcome" where
  "list_launches d st now eids p project_id limit offset =
     guarded (ensure_project_access p project_id ReadAction) d
       (let rows = take limit (drop offset (oldest_first
              (where_clause (project_clause_of l_project_id p)
                (filter (\<lambda>l. l_project_id l = project_id) (db_launches d)))));
            (d1, ls) = expire_each d st now eids 0 p rows
        in (d1, Inr ls))"

fun sweep_overdue ::
  "db \<Rightarrow> settings \<Rightarrow> timestamp \<Rightarrow> (nat \<Rightarrow> uuid) \<Rightarrow> nat \<Rightarrow> principal \<Rightarrow> launch_row list
     \<Rightarrow> (db, nat) outcome" where
  "sweep_overdue d st now eids i p [] = (d, Inr i)"
| "sweep_overdue d st now eids i p (l # ls) =
     guarded (ensure_project_access p (l_project_id l) ReadAction) d
       (sweep_overdue (fst (expire_launch_if_overdue d st now (eids i) p l)) st now eids (Suc i) p ls)"

definition expire_overdue_launches ::
  "db \<Rightarrow> settings \<Rightarrow> timestamp \<Rightarrow> (nat \<Rightarrow> uuid) \<Rightarrow> principal \<Rightarrow> (db, nat) outcome" where
  "expire_overdue_launches d st now eids p =
     sweep_overdue d st now eids 0 p
       (filter (\<lambda>l. l_expires_at l \<le> now \<and> \<not> launch_terminal (l_status l)) (db_launches d))"

definition pull_pending ::
  "db \<Rightarrow> settings \<Rightarrow> timestamp \<Rightarrow> (nat \<Rightarrow> uuid) \<Rightarrow> principal \<Rightarrow> uuid \<Rightarrow> (db, launch_row list) outcome" where
  "pull_pending d st now eids p machine_id =
     guarded (raise_if (machine_id \<noteq> m_id (p_machine p)) (forbidden ''task_launch'' ''pull'')) d
       (case get_machine_row d machine_id of
          None \<Rightarrow> (d, Inl (HTTPException 404 (JText ''machine not found'')))
        | Some machine \<Rightarrow>
            (let rows = take (LAUNCH_POLL_MAX + 1) (oldest_first
                   (filter (\<lambda>l. l_machine_id l = machine_id \<and> \<not> launch_terminal (l_status l))
                     (db_launches d)));
                 (d1, ls) = expire_each d st now eids 0 p rows;
                 profiles = (case m_capabilities machine of None \<Rightarrow> False
                               | Some c \<Rightarrow> mc_launch_profiles c = Some True);
                 safety = (case m_capabilities machine of None \<Rightarrow> False
                             | Some c \<Rightarrow> mc_launch_safety c = Some True)
             in (d1, Inr (take LAUNCH_POLL_MAX
                   (filter (\<lambda>l. \<not> launch_terminal (l_status l) \<and> safety
                      \<and> (profiles \<or> l_profile_key l = None)) ls)))))"

subsection \<open>Derived views\<close>

datatype protocol_status = PS_NOT_APPLICABLE | PS_AWAITING | PS_UNVERIFIED | PS_HANDED_OFF

record launch_protocol =
  lp_status :: protocol_status
  lp_session_id :: "uuid option"
  lp_task_status :: "task_status option"

fun never_ran_status :: "launch_status \<Rightarrow> bool" where
  "never_ran_status LS_REJECTED = True"
| "never_ran_status LS_CANCELLED = True"
| "never_ran_status LS_EXPIRED = True"
| "never_ran_status _ = False"

definition derive_protocol ::
  "launch_row \<Rightarrow> session_row option \<Rightarrow> task_row option \<Rightarrow> bool \<Rightarrow> launch_protocol" where
  "derive_protocol l work_session task stopped_while_running =
     (case (work_session, map_option s_ended_at work_session) of
        (Some s, Some (Some _)) \<Rightarrow>
          \<lparr>lp_status = PS_HANDED_OFF, lp_session_id = Some (s_id s),
           lp_task_status = map_option t_status task\<rparr>
      | _ \<Rightarrow>
          (if \<not> launch_terminal (l_status l)
           then \<lparr>lp_status = PS_AWAITING, lp_session_id = l_session_id l, lp_task_status = None\<rparr>
           else if never_ran_status (l_status l) \<and> work_session = None \<and> \<not> stopped_while_running
           then \<lparr>lp_status = PS_NOT_APPLICABLE, lp_session_id = None, lp_task_status = None\<rparr>
           else \<lparr>lp_status = PS_UNVERIFIED, lp_session_id = l_session_id l, lp_task_status = None\<rparr>))"

datatype recovery_state = RV_OK | RV_STALE | RV_OFFLINE_WIP | RV_FAILED

datatype recovery_reason = RR_NONE | RR_LAUNCH_FAILED | RR_LAUNCH_EXPIRED | RR_MACHINE_OFFLINE

record launch_recovery =
  rv_state :: recovery_state
  rv_reason :: recovery_reason
  rv_machine_status :: machine_status
  rv_stale_since :: "timestamp option"

fun decided_status :: "launch_status \<Rightarrow> bool" where
  "decided_status LS_ACCEPTED = True"
| "decided_status LS_PREPARING = True"
| "decided_status LS_RUNNING = True"
| "decided_status _ = False"

definition derive_recovery ::
  "settings \<Rightarrow> timestamp \<Rightarrow> launch_row \<Rightarrow> machine_row option \<Rightarrow> launch_recovery" where
  "derive_recovery st now l machine =
     (let ms = (case machine of None \<Rightarrow> MS_OFFLINE | Some m \<Rightarrow> derive_status st now m);
          last_seen = (case machine of None \<Rightarrow> None | Some m \<Rightarrow> m_last_seen_at m);
          offline = (ms = MS_OFFLINE)
      in if l_status l = LS_FAILED
         then \<lparr>rv_state = RV_FAILED, rv_reason = RR_LAUNCH_FAILED, rv_machine_status = ms,
               rv_stale_since = None\<rparr>
         else if l_status l = LS_EXPIRED
         then \<lparr>rv_state = RV_STALE, rv_reason = RR_LAUNCH_EXPIRED, rv_machine_status = ms,
               rv_stale_since = Some (l_expires_at l)\<rparr>
         else if offline \<and> decided_status (l_status l)
         then \<lparr>rv_state = RV_OFFLINE_WIP, rv_reason = RR_MACHINE_OFFLINE, rv_machine_status = ms,
               rv_stale_since = last_seen\<rparr>
         else if offline \<and> l_status l = LS_REQUESTED
         then \<lparr>rv_state = RV_STALE, rv_reason = RR_MACHINE_OFFLINE, rv_machine_status = ms,
               rv_stale_since = last_seen\<rparr>
         else \<lparr>rv_state = RV_OK, rv_reason = RR_NONE, rv_machine_status = ms, rv_stale_since = None\<rparr>)"

definition payload_get :: "(string \<times> jval) list \<Rightarrow> string \<Rightarrow> jval option" where
  "payload_get payload k = map_of payload k"

definition stopped_while_running :: "db \<Rightarrow> launch_row \<Rightarrow> bool" where
  "stopped_while_running d l \<longleftrightarrow>
     never_ran_status (l_status l) \<and> l_session_id l = None \<and>
     list_ex (\<lambda>e. e_type e \<in> {TASK_LAUNCH_CANCELLED, TASK_LAUNCH_EXPIRED} \<and>
        payload_get (e_payload e) ''launch_id'' = Some (JUuid (l_id l)) \<and>
        payload_get (e_payload e) ''previous_status'' = Some (JText (launch_status_value LS_RUNNING)))
       (db_events d)"

definition protocol_view ::
  "db \<Rightarrow> settings \<Rightarrow> timestamp \<Rightarrow> launch_row \<Rightarrow> launch_row \<times> launch_protocol \<times> launch_recovery" where
  "protocol_view d st now l =
     (l,
      derive_protocol l (case l_session_id l of None \<Rightarrow> None | Some sid \<Rightarrow> get_session_row d sid)
        (get_task_row d (l_task_id l)) (stopped_while_running d l),
      derive_recovery st now l (get_machine_row d (l_machine_id l)))"

subsection \<open>Machine reports\<close>

definition authorize_report :: "principal \<Rightarrow> launch_row \<Rightarrow> unit fallible" where
  "authorize_report p l =
     and_then (ensure_can_write p ''task_launch'')
       (raise_if (l_machine_id l \<noteq> m_id (p_machine p)) (forbidden ''task_launch'' ''report''))"

text \<open>Owned agents first, then those attached to the machine alone.\<close>

definition report_actor :: "db \<Rightarrow> principal \<Rightarrow> launch_row \<Rightarrow> actor_type \<times> uuid" where
  "report_actor d p l =
     (case l_agent_stable_key l of
        None \<Rightarrow> event_actor d p None
      | Some key \<Rightarrow>
          if key = [] then event_actor d p None
          else (let owned = filter (\<lambda>a. a_owner_user_id a = Some (u_id (p_user p))
                        \<and> a_stable_key a = Some key) (db_agents d);
                    attached = filter (\<lambda>a. a_owner_user_id a = None
                        \<and> a_machine_id a = Some (l_machine_id l) \<and> a_stable_key a = Some key) (db_agents d)
                in case owned @ attached of
                     [] \<Rightarrow> event_actor d p None
                   | a # _ \<Rightarrow> (Actor_agent, a_id a)))"

definition reportable_session :: "db \<Rightarrow> launch_row \<Rightarrow> uuid \<Rightarrow> bool" where
  "reportable_session d l sid =
     (case get_session_row d sid of
        None \<Rightarrow> False
      | Some s \<Rightarrow> s_machine_id s = Some (l_machine_id l) \<and> s_task_id s = Some (l_task_id l)
          \<and> s_ended_at s = None)"

definition reported_launch :: "timestamp \<Rightarrow> launch_report \<Rightarrow> launch_row \<Rightarrow> launch_row" where
  "reported_launch now r l =
     l\<lparr>l_status := lr_status r, l_reason_code := lr_reason_code r,
       l_session_id := (case lr_session_id r of None \<Rightarrow> l_session_id l | Some s \<Rightarrow> Some s),
       l_output_excerpt := lr_output_excerpt r,
       l_finished_at := (if launch_terminal (lr_status r) then Some now else l_finished_at l),
       l_version := l_version l + 1\<rparr>"

definition launch_version_conflict :: "int \<Rightarrow> http_error" where
  "launch_version_conflict v = version_conflict v"

text \<open>The decision on the locked row, after the expiry: everything up to the first write.\<close>

definition report_guard :: "db \<Rightarrow> launch_report \<Rightarrow> launch_row \<Rightarrow> unit fallible" where
  "report_guard d r l =
     and_then (raise_if (l_version l \<noteq> lr_expected_version r) (launch_version_conflict (l_version l)))
     (and_then (raise_if (allowed_transition (l_status l) (lr_status r) = None)
        (error_code 409 ''invalid_launch_transition''))
     (and_then (raise_if (allowed_transition (l_status l) (lr_status r) \<noteq> Some Actor_MACHINE)
        (forbidden ''task_launch'' ''report''))
       (raise_if (case lr_session_id r of None \<Rightarrow> False | Some sid \<Rightarrow> \<not> reportable_session d l sid)
          (error_code 409 ''invalid_launch_session''))))"

definition report_launch ::
  "db \<Rightarrow> settings \<Rightarrow> timestamp \<Rightarrow> uuid \<Rightarrow> uuid \<Rightarrow> principal \<Rightarrow> launch_row \<Rightarrow> launch_report
     \<Rightarrow> (db, launch_row) outcome" where
  "report_launch d st now exp_eid eid p seen r =
     guarded (and_then (authorize_report p seen) (ensure_project_access p (l_project_id seen) ReadAction)) d
       (case get_launch_row d (l_id seen) of
          None \<Rightarrow> (d, Inl refresh_error)
        | Some l \<Rightarrow>
            (let (d1, l1) = expire_launch_if_overdue d st now exp_eid p l
             in guarded (report_guard d1 r l1) (after_rollback d l (d1, l1))
                  (let l2 = reported_launch now r l1;
                       d2 = put_launch l2 d1
                   in case launch_event_type (lr_status r) of
                        None \<Rightarrow> (d2, Inr l2)
                      | Some event_type \<Rightarrow>
                          (launch_commit d2 (launch_event p now eid l2 event_type
                             (launch_status_value (l_status l1)) (report_actor d2 p l2)), Inr l2))))"

subsection \<open>Cancellation\<close>

definition may_recover :: "principal \<Rightarrow> launch_row \<Rightarrow> string \<Rightarrow> unit fallible" where
  "may_recover p l action =
     and_then (ensure_can_write p ''task_launch'')
     (and_then (ensure_project_access p (l_project_id l) WriteAction)
       (raise_if (p_role p \<noteq> Role_ADMIN \<and> l_requested_by_user_id l \<noteq> u_id (p_user p))
          (forbidden ''task_launch'' action)))"

definition cancelled_launch :: "timestamp \<Rightarrow> launch_row \<Rightarrow> launch_row" where
  "cancelled_launch now l =
     l\<lparr>l_status := LS_CANCELLED, l_reason_code := LR_CANCELLED_BY_REQUESTER,
       l_finished_at := Some now, l_version := l_version l + 1\<rparr>"

definition cancel_guard :: "int \<Rightarrow> launch_row \<Rightarrow> unit fallible" where
  "cancel_guard expected_version l =
     and_then (raise_if (l_version l \<noteq> expected_version) (launch_version_conflict (l_version l)))
     (and_then (raise_if (allowed_transition (l_status l) LS_CANCELLED = None)
        (error_code 409 ''invalid_launch_transition''))
       (raise_if (allowed_transition (l_status l) LS_CANCELLED \<noteq> Some Actor_REQUESTER)
          (forbidden ''task_launch'' ''cancel'')))"

definition cancel_launch ::
  "db \<Rightarrow> settings \<Rightarrow> timestamp \<Rightarrow> uuid \<Rightarrow> uuid \<Rightarrow> principal \<Rightarrow> launch_row \<Rightarrow> int
     \<Rightarrow> (db, launch_row) outcome" where
  "cancel_launch d st now exp_eid eid p seen expected_version =
     guarded (may_recover p seen ''cancel'') d
       (case get_launch_row d (l_id seen) of
          None \<Rightarrow> (d, Inl refresh_error)
        | Some l \<Rightarrow>
            (let (d1, l1) = expire_launch_if_overdue d st now exp_eid p l
             in guarded (cancel_guard expected_version l1) (after_rollback d l (d1, l1))
                  (let l2 = cancelled_launch now l1;
                       d2 = put_launch l2 d1
                   in (launch_commit d2 (launch_event p now eid l2 TASK_LAUNCH_CANCELLED
                         (launch_status_value (l_status l1)) (event_actor d2 p None)), Inr l2))))"

subsection \<open>Retry\<close>

definition existing_retry :: "db \<Rightarrow> launch_row \<Rightarrow> launch_row option" where
  "existing_retry d l = find (\<lambda>r. l_retry_of_launch_id r = Some (l_id l)) (db_launches d)"

definition basis_digest :: "jval option \<Rightarrow> jval option" where
  "basis_digest basis = (case basis of Some (JObj fs) \<Rightarrow> map_of fs ''preview_digest'' | _ \<Rightarrow> None)"

definition retry_request :: "launch_row \<Rightarrow> launch_retry \<Rightarrow> launch_create" where
  "retry_request l rt =
     \<lparr>lc_task_id = l_task_id l, lc_machine_id = l_machine_id l, lc_harness_id = l_harness_id l,
      lc_agent_stable_key = l_agent_stable_key l, lc_profile_key = l_profile_key l,
      lc_allow_production = False, lc_expires_in_seconds = rt_expires_in_seconds rt\<rparr>"

text \<open>
  \<open>pin\<close> and \<open>confirm\<close> stand for the Library resolver and the replay preview. The expiry
  commits, whatever happens next; a refusal later leaves that database.
\<close>

definition retry_launch ::
  "db \<Rightarrow> settings \<Rightarrow> timestamp \<Rightarrow> uuid \<Rightarrow> launch_ids \<Rightarrow> principal \<Rightarrow> launch_row \<Rightarrow> launch_retry
     \<Rightarrow> (db \<Rightarrow> launch_create \<Rightarrow> profile_pin option fallible)
     \<Rightarrow> (db \<Rightarrow> launch_row \<Rightarrow> string \<Rightarrow> jval fallible) \<Rightarrow> (db, launch_row) outcome" where
  "retry_launch d st now exp_eid ids p seen rt pin confirm =
     guarded (may_recover p seen ''retry'') d
       (case get_launch_row d (l_id seen) of
          None \<Rightarrow> (d, Inl refresh_error)
        | Some l0 \<Rightarrow>
            (let (d1, l) = expire_launch_if_overdue d st now exp_eid p l0
             in case existing_retry d1 l of
                  Some existing \<Rightarrow>
                    (case rt_replay rt of
                       Some digest \<Rightarrow>
                         if basis_digest (l_replay_basis existing) \<noteq> Some (JText digest)
                         then (d1, Inl (HTTPException 409 (JObj [(''error_code'', JText ''replay_refused''),
                                 (''codes'', JList [JText ''already_retried''])])))
                         else (d1, Inr existing)
                     | None \<Rightarrow> (d1, Inr existing))
                | None \<Rightarrow>
                    if \<not> launch_terminal (l_status l)
                    then (d1, Inl (HTTPException 409 (JObj [(''error_code'', JText ''launch_not_terminal''),
                            (''status'', JText (launch_status_value (l_status l)))])))
                    else (case (get_machine_row d1 (l_machine_id l), get_task_row d1 (l_task_id l)) of
                            (Some machine, Some task) \<Rightarrow>
                              guarded (authorize_create d1 st now p (l_project_id l) task machine
                                  (retry_request l rt)) d1
                                (case (case rt_replay rt of
                                         None \<Rightarrow> Inr None
                                       | Some digest \<Rightarrow>
                                           (case confirm d1 l digest of
                                              Inl e \<Rightarrow> Inl e | Inr basis \<Rightarrow> Inr (Some basis))) of
                                   Inl e \<Rightarrow> (d1, Inl e)
                                 | Inr basis \<Rightarrow>
                                     create_launch d1 p now ids (l_project_id l) (retry_request l rt)
                                       (l_attempt l + 1) (Some (l_id l)) basis (pin d1 (retry_request l rt)))
                          | _ \<Rightarrow> (d1, Inl (HTTPException 404 (JText ''launch target not found''))))))"

subsection \<open>Linking a work session\<close>

definition linkable :: "launch_row \<Rightarrow> session_row \<Rightarrow> bool" where
  "linkable l s \<longleftrightarrow> l_session_id l = None \<and> Some (l_machine_id l) = s_machine_id s
     \<and> Some (l_task_id l) = s_task_id s \<and> decided_status (l_status l)"

definition newest :: "launch_row list \<Rightarrow> launch_row option" where
  "newest ls = (case sort_key (\<lambda>l. - l_created_at l) ls of [] \<Rightarrow> None | l # _ \<Rightarrow> Some l)"

definition link_session_to_launch :: "db \<Rightarrow> session_row \<Rightarrow> uuid option \<Rightarrow> db" where
  "link_session_to_launch d s launch_id =
     (if s_task_id s = None \<or> s_machine_id s = None then d
      else case launch_id of
             Some k \<Rightarrow>
               (case get_launch_row d k of
                  None \<Rightarrow> d
                | Some l \<Rightarrow>
                    if l_session_id l = Some (s_id s) then d
                    else if \<not> linkable l s then d
                    else put_launch (l\<lparr>l_session_id := Some (s_id s)\<rparr>) d)
           | None \<Rightarrow>
               (case newest (filter (\<lambda>l. linkable l s) (db_launches d)) of
                  None \<Rightarrow> d
                | Some l \<Rightarrow> put_launch (l\<lparr>l_session_id := Some (s_id s)\<rparr>) d))"

end
