(* ===== verification/Launch_Safety.thy ===== *)
theory Launch_Safety
  imports Launches
begin

section \<open>Safety of the launch lifecycle\<close>

text \<open>
  What the launch service guarantees. The first group follows every operation on the
  \<open>task_launches\<close> table: rows keep their identity and move only along the contract's table
  (\<open>launch_moves\<close>), one step of the version at a time. The second group states the effects of
  an expiry, a report, a cancellation and a retry. Operations work on the stored row, as
  \<open>SELECT ... FOR UPDATE\<close> gives it; the last section shows what a read with a stale copy does.
\<close>

subsection \<open>Frames\<close>

lemma get_launch_row_id: "get_launch_row d k = Some l \<Longrightarrow> l_id l = k"
  unfolding get_launch_row_def by (rule tbl_get_key)

lemma get_session_row_id: "get_session_row d k = Some s \<Longrightarrow> s_id s = k"
  unfolding get_session_row_def by (rule tbl_get_key)

lemma launch_commit_frame [simp]:
  "db_launches (launch_commit d ev) = db_launches d"
  "db_claims (launch_commit d ev) = db_claims d"
  "db_sessions (launch_commit d ev) = db_sessions d"
  "db_reservations (launch_commit d ev) = db_reservations d"
  "get_launch_row (launch_commit d ev) = get_launch_row d"
  "get_session_row (launch_commit d ev) = get_session_row d"
  "get_claim_row (launch_commit d ev) = get_claim_row d"
  by (simp_all add: launch_commit_def Let_def split_beta)

lemma put_session_get_launch [simp]: "get_launch_row (put_session s d) = get_launch_row d"
  by (simp add: get_launch_row_def fun_eq_iff)

lemma put_claim_get [simp]:
  "get_launch_row (put_claim c d) = get_launch_row d"
  "get_session_row (put_claim c d) = get_session_row d"
  by (simp_all add: get_launch_row_def get_session_row_def fun_eq_iff)

lemma close_session_frame [simp]:
  "db_launches (close_session_of_expired_launch d now l) = db_launches d"
  "db_claims (close_session_of_expired_launch d now l) = db_claims d"
  by (simp_all add: close_session_of_expired_launch_def close_session_server_side_def
      split: option.split)

lemma release_server_frame [simp]:
  "db_launches (fst (release_claim_server_side d now c m)) = db_launches d"
  "db_sessions (fst (release_claim_server_side d now c m)) = db_sessions d"
  by (simp_all add: release_claim_server_side_def Let_def update_claim_row_def split: option.split)

lemma fold_release_frame [simp]:
  "db_launches (fold (\<lambda>c d. fst (release_claim_server_side d now c m)) cs d) = db_launches d"
  "db_sessions (fold (\<lambda>c d. fst (release_claim_server_side d now c m)) cs d) = db_sessions d"
  by (induction cs arbitrary: d) simp_all

lemma release_claims_frame [simp]:
  "db_launches (release_claims_of_expired_launch d now l) = db_launches d"
  "db_sessions (release_claims_of_expired_launch d now l) = db_sessions d"
  by (simp_all add: release_claims_of_expired_launch_def)

lemma expire_cases:
  assumes "expire_launch_if_overdue d st now eid p l = (d', l')"
  shows "(d' = d \<and> l' = l \<and> (launch_terminal (l_status l) \<or> now < l_expires_at l)) \<or>
    (\<not> launch_terminal (l_status l) \<and> l_expires_at l \<le> now \<and>
      ((\<exists>t. prolonged_until d st now l = Some t \<and> l' = l\<lparr>l_expires_at := t\<rparr> \<and>
          d' = update_launch_row d (l_id l) (\<lambda>r. r\<lparr>l_expires_at := t\<rparr>)) \<or>
       (prolonged_until d st now l = None \<and> l' = expired_launch now l \<and>
          db_launches d' = db_launches (update_launch_row d (l_id l) (store_expiry l')))))"
  using assms
  by (auto simp: expire_launch_if_overdue_def Let_def split: if_splits option.splits)

lemma get_launch_row_cong: "db_launches d' = db_launches d \<Longrightarrow> get_launch_row d' k = get_launch_row d k"
  by (simp add: get_launch_row_def)

lemma update_fresh:
  "get_launch_row d (l_id l) = Some l \<Longrightarrow> update_launch_row d (l_id l) f = put_launch (f l) d"
  by (simp add: update_launch_row_def)

lemma expired_launch_simps [simp]:
  "l_id (expired_launch now l) = l_id l" "l_status (expired_launch now l) = LS_EXPIRED"
  "l_version (expired_launch now l) = l_version l + 1"
  "l_machine_id (expired_launch now l) = l_machine_id l"
  "l_project_id (expired_launch now l) = l_project_id l"
  "l_task_id (expired_launch now l) = l_task_id l"
  "l_session_id (expired_launch now l) = l_session_id l"
  "store_expiry (expired_launch now l) l = expired_launch now l"
  by (simp_all add: expired_launch_def store_expiry_def)

text \<open>On the stored row an expiry check is one of three writes of that row.\<close>

lemma expire_fresh:
  assumes "expire_launch_if_overdue d st now eid p l = (d', l')" and "get_launch_row d (l_id l) = Some l"
  shows "(d' = d \<and> l' = l) \<or>
    (\<not> launch_terminal (l_status l) \<and> db_launches d' = db_launches (put_launch l' d) \<and>
      ((\<exists>t. prolonged_until d st now l = Some t \<and> l' = l\<lparr>l_expires_at := t\<rparr>) \<or>
       l' = expired_launch now l))"
  using expire_cases [OF assms(1)] by (auto simp: update_fresh [OF assms(2)])

subsection \<open>Rows only move along the table\<close>

definition same_launch :: "launch_row \<Rightarrow> launch_row \<Rightarrow> bool" where
  "same_launch l l' \<longleftrightarrow>
     l_id l' = l_id l \<and> l_project_id l' = l_project_id l \<and> l_task_id l' = l_task_id l \<and>
     l_machine_id l' = l_machine_id l \<and> l_requested_by_user_id l' = l_requested_by_user_id l \<and>
     l_harness_id l' = l_harness_id l \<and> l_agent_stable_key l' = l_agent_stable_key l \<and>
     l_created_at l' = l_created_at l \<and> l_attempt l' = l_attempt l \<and>
     l_retry_of_launch_id l' = l_retry_of_launch_id l \<and> l_replay_basis l' = l_replay_basis l \<and>
     l_allow_production l' = l_allow_production l \<and> l_profile_key l' = l_profile_key l \<and>
     l_profile_contract_version l' = l_profile_contract_version l \<and>
     l_profile_digest l' = l_profile_digest l"

definition same_verdict :: "launch_row \<Rightarrow> launch_row \<Rightarrow> bool" where
  "same_verdict l l' \<longleftrightarrow>
     l_status l' = l_status l \<and> l_reason_code l' = l_reason_code l \<and>
     l_finished_at l' = l_finished_at l \<and> l_output_excerpt l' = l_output_excerpt l \<and>
     l_version l' = l_version l"

definition launch_moves :: "launch_row \<Rightarrow> launch_row \<Rightarrow> bool" where
  "launch_moves l l' \<longleftrightarrow> same_launch l l' \<and>
     l_expires_at l' \<le> max (l_expires_at l) (hard_deadline l) \<and>
     (same_verdict l l' \<and> (launch_terminal (l_status l) \<longrightarrow> l' = l) \<or>
      allowed_transition (l_status l) (l_status l') \<noteq> None \<and> l_version l' = l_version l + 1 \<and>
      (if launch_terminal (l_status l') then l_finished_at l' \<noteq> None
       else l_finished_at l' = l_finished_at l))"

lemma launch_moves_refl [simp]: "launch_moves l l"
  by (simp add: launch_moves_def same_launch_def same_verdict_def)

lemma launch_moves_terminal: "launch_moves\<^sup>*\<^sup>* l l' \<Longrightarrow> launch_terminal (l_status l) \<Longrightarrow> l' = l"
  by (induction rule: rtranclp_induct)
    (auto simp: launch_moves_def allowed_transition_terminal)

lemma launch_moves_same: "launch_moves\<^sup>*\<^sup>* l l' \<Longrightarrow> same_launch l l'"
  by (induction rule: rtranclp_induct) (auto simp: launch_moves_def same_launch_def)

lemma launch_moves_stage: "launch_moves\<^sup>*\<^sup>* l l' \<Longrightarrow> launch_stage (l_status l) \<le> launch_stage (l_status l')"
proof (induction rule: rtranclp_induct)
  case (step l' l'')
  have "launch_stage (l_status l') \<le> launch_stage (l_status l'')"
    using step.hyps(2) allowed_transition_stage [of "l_status l'" "l_status l''"]
    by (auto simp: launch_moves_def same_verdict_def)
  with step.IH show ?case by simp
qed simp

lemma launch_moves_version: "launch_moves\<^sup>*\<^sup>* l l' \<Longrightarrow> l_version l \<le> l_version l'"
  by (induction rule: rtranclp_induct) (auto simp: launch_moves_def same_verdict_def)

lemma extension_moves:
  "\<not> launch_terminal (l_status l) \<Longrightarrow> t \<le> hard_deadline l \<Longrightarrow> launch_moves l (l\<lparr>l_expires_at := t\<rparr>)"
  "\<not> launch_terminal (l_status l) \<Longrightarrow> launch_moves l (l\<lparr>l_session_id := s\<rparr>)"
  by (simp_all add: launch_moves_def same_launch_def same_verdict_def)

lemma expired_moves: "\<not> launch_terminal (l_status l) \<Longrightarrow> launch_moves l (expired_launch now l)"
  using allowed_transition_server [of "l_status l" LS_EXPIRED]
  by (simp add: launch_moves_def same_launch_def expired_launch_def)

lemma prolonged_until_bound: "prolonged_until d st now l = Some t \<Longrightarrow> t \<le> hard_deadline l"
  by (auto simp: prolonged_until_def Let_def split: option.splits if_splits)

definition born :: "launch_row \<Rightarrow> bool" where
  "born l \<longleftrightarrow> l_status l = LS_REQUESTED \<and> l_version l = 1 \<and> l_session_id l = None \<and>
     l_finished_at l = None \<and> l_expires_at l \<le> hard_deadline l"

definition launch_origin :: "db \<Rightarrow> uuid \<Rightarrow> launch_row \<Rightarrow> bool" where
  "launch_origin d k l' \<longleftrightarrow>
     (\<exists>l. (get_launch_row d k = Some l \<or> get_launch_row d k = None \<and> born l) \<and> launch_moves\<^sup>*\<^sup>* l l')"

text \<open>The table's constraints: primary key and \<open>uq_task_launches_retry_of\<close>.\<close>

definition retries_unique :: "launch_row list \<Rightarrow> bool" where
  "retries_unique ls \<longleftrightarrow>
     (\<forall>a \<in> set ls. \<forall>b \<in> set ls. l_retry_of_launch_id a \<noteq> None \<longrightarrow>
        l_retry_of_launch_id a = l_retry_of_launch_id b \<longrightarrow> a = b)"

definition launches_wf :: "db \<Rightarrow> bool" where
  "launches_wf d \<longleftrightarrow> tbl_wf l_id (db_launches d) \<and> retries_unique (db_launches d)"

lemma launches_wf_put:
  assumes "launches_wf d"
    and "\<And>a. a \<in> set (db_launches d) \<Longrightarrow> l_id a \<noteq> l_id l \<Longrightarrow>
      l_retry_of_launch_id l = None \<or> l_retry_of_launch_id a \<noteq> l_retry_of_launch_id l"
    and "db_launches d' = db_launches (put_launch l d)"
  shows "launches_wf d'"
proof -
  have rows: "set (db_launches d') = insert l {a \<in> set (db_launches d). l_id a \<noteq> l_id l}"
    using assms(1,3) by (simp add: launches_wf_def put_launch_def tbl_put_set)
  have "retries_unique (db_launches d')"
    unfolding retries_unique_def rows
  proof (intro ballI impI)
    fix a b
    assume a: "a \<in> insert l {a \<in> set (db_launches d). l_id a \<noteq> l_id l}"
      and b: "b \<in> insert l {a \<in> set (db_launches d). l_id a \<noteq> l_id l}"
      and same: "l_retry_of_launch_id a \<noteq> None" "l_retry_of_launch_id a = l_retry_of_launch_id b"
    from a b same assms(2) have "a = l \<longleftrightarrow> b = l" by fastforce
    then show "a = b" using a b same assms(1) by (auto simp: launches_wf_def retries_unique_def)
  qed
  then show ?thesis using assms(1,3) by (auto simp: launches_wf_def put_launch_def)
qed

definition launches_follow :: "db \<Rightarrow> db \<Rightarrow> bool" where
  "launches_follow d d' \<longleftrightarrow> (launches_wf d \<longrightarrow> launches_wf d') \<and>
     (\<forall>k l. get_launch_row d k = Some l \<longrightarrow>
        (\<exists>l'. get_launch_row d' k = Some l' \<and> launch_moves\<^sup>*\<^sup>* l l')) \<and>
     (\<forall>k l'. get_launch_row d' k = Some l' \<longrightarrow> launch_origin d k l')"

lemma follow_cong: "db_launches d' = db_launches d \<Longrightarrow> launches_follow d d'"
  by (auto simp: launches_follow_def launch_origin_def launches_wf_def get_launch_row_def)

lemma follow_refl [simp]: "launches_follow d d"
  by (rule follow_cong) (rule refl)

lemma follow_row:
  "launches_follow d d' \<Longrightarrow> get_launch_row d k = Some l \<Longrightarrow>
     \<exists>l'. get_launch_row d' k = Some l' \<and> launch_moves\<^sup>*\<^sup>* l l'"
  by (simp add: launches_follow_def)

lemma follow_keeps_rows: "launches_follow d d' \<Longrightarrow> get_launch_row d' k = None \<Longrightarrow> get_launch_row d k = None"
  using follow_row [of d d' k] by (cases "get_launch_row d k") auto

lemma follow_trans [trans]:
  assumes "launches_follow d d'" "launches_follow d' d''" shows "launches_follow d d''"
  unfolding launches_follow_def
proof (intro conjI allI impI)
  show "launches_wf d''" if "launches_wf d" using that assms by (simp add: launches_follow_def)
  fix k l assume "get_launch_row d k = Some l"
  with assms(1) obtain l' where "get_launch_row d' k = Some l'" "launch_moves\<^sup>*\<^sup>* l l'"
    unfolding launches_follow_def by blast
  moreover from this(1) assms(2) obtain l'' where "get_launch_row d'' k = Some l''" "launch_moves\<^sup>*\<^sup>* l' l''"
    unfolding launches_follow_def by blast
  ultimately show "\<exists>l'. get_launch_row d'' k = Some l' \<and> launch_moves\<^sup>*\<^sup>* l l'"
    by (blast intro: rtranclp_trans)
next
  fix k l'' assume "get_launch_row d'' k = Some l''"
  with assms(2) have "launch_origin d' k l''" by (simp add: launches_follow_def)
  then obtain l' where l': "get_launch_row d' k = Some l' \<or> get_launch_row d' k = None \<and> born l'"
    and m: "launch_moves\<^sup>*\<^sup>* l' l''" by (auto simp: launch_origin_def)
  from l' show "launch_origin d k l''"
  proof
    assume "get_launch_row d' k = Some l'"
    with assms(1) have "launch_origin d k l'" by (simp add: launches_follow_def)
    with m show ?thesis unfolding launch_origin_def by (blast intro: rtranclp_trans)
  next
    assume "get_launch_row d' k = None \<and> born l'"
    with m follow_keeps_rows [OF assms(1)] show ?thesis unfolding launch_origin_def by blast
  qed
qed

lemma follow_put:
  assumes "get_launch_row d (l_id l) = Some l" and "launch_moves l l'"
    and "db_launches d' = db_launches (put_launch l' d)"
  shows "launches_follow d d'"
proof -
  have id: "l_id l' = l_id l" using assms(2) by (simp add: launch_moves_def same_launch_def)
  have "get_launch_row d' k = (if k = l_id l' then Some l' else get_launch_row d k)" for k
    using get_launch_row_cong [OF assms(3)] by simp
  moreover have "launches_wf d'" if wf: "launches_wf d"
  proof (rule launches_wf_put [OF wf _ assms(3)])
    fix a assume a: "a \<in> set (db_launches d)" "l_id a \<noteq> l_id l'"
    have "l \<in> set (db_launches d)" using assms(1) unfolding get_launch_row_def by (rule tbl_get_mem)
    moreover have "l_retry_of_launch_id l' = l_retry_of_launch_id l"
      using assms(2) by (simp add: launch_moves_def same_launch_def)
    ultimately show "l_retry_of_launch_id l' = None \<or> l_retry_of_launch_id a \<noteq> l_retry_of_launch_id l'"
      using wf a id by (auto simp: launches_wf_def retries_unique_def)
  qed
  ultimately show ?thesis using assms(1,2) id by (auto simp: launches_follow_def launch_origin_def)
qed

lemma follow_new:
  assumes "get_launch_row d (l_id l) = None" and "born l" and "db_launches d' = db_launches (put_launch l d)"
    and "l_retry_of_launch_id l = None \<or>
      (\<forall>a \<in> set (db_launches d). l_retry_of_launch_id a \<noteq> l_retry_of_launch_id l)"
  shows "launches_follow d d'"
proof -
  have "get_launch_row d' k = (if k = l_id l then Some l else get_launch_row d k)" for k
    using get_launch_row_cong [OF assms(3)] by simp
  moreover have "launches_wf d'" if "launches_wf d"
    by (rule launches_wf_put [OF that _ assms(3)]) (use assms(4) in auto)
  ultimately show ?thesis using assms(1,2) by (auto simp: launches_follow_def launch_origin_def)
qed

lemma expire_moves:
  assumes "expire_launch_if_overdue d st now eid p l = (d', l')" and "get_launch_row d (l_id l) = Some l"
  shows "launches_follow d d'" and "get_launch_row d' k = (if k = l_id l then Some l' else get_launch_row d k)"
    and "launch_moves l l'" and "l_id l' = l_id l"
proof -
  show moves: "launch_moves l l'"
    using expire_fresh [OF assms] by (auto intro: extension_moves expired_moves dest: prolonged_until_bound)
  then show id: "l_id l' = l_id l" by (simp add: launch_moves_def same_launch_def)
  from expire_fresh [OF assms] consider "d' = d" "l' = l" | "db_launches d' = db_launches (put_launch l' d)"
    by blast
  then show "launches_follow d d'" "get_launch_row d' k = (if k = l_id l then Some l' else get_launch_row d k)"
    using assms(2) id moves by (cases; auto intro: follow_put simp: get_launch_row_cong [of d' "put_launch l' d"])+
qed

subsection \<open>Every operation follows the table\<close>

lemma expire_each_follow:
  assumes "expire_each d st now eids i p ls = (d', ls')" and "distinct (map l_id ls)"
    and "\<forall>l \<in> set ls. get_launch_row d (l_id l) = Some l"
  shows "launches_follow d d'"
  using assms
proof (induction ls arbitrary: d i ls' d')
  case (Cons l ls)
  obtain d1 l1 where e: "expire_launch_if_overdue d st now (eids i) p l = (d1, l1)" by fastforce
  obtain d2 ls2 where r: "expire_each d1 st now eids (Suc i) p ls = (d2, ls2)" by fastforce
  have d': "d' = d2" using Cons.prems(1) e r by simp
  have "get_launch_row d (l_id l) = Some l" using Cons.prems(3) by simp
  note m = expire_moves [OF e this]
  have "\<forall>l \<in> set ls. get_launch_row d1 (l_id l) = Some l"
    using Cons.prems(2,3) m(2) by (auto simp: image_iff)
  then have "launches_follow d1 d2" using Cons.IH [OF r] Cons.prems(2) by simp
  with m(1) show ?case unfolding d' by (rule follow_trans)
qed simp

lemma stored_rows:
  assumes "launches_wf d" and "set ls \<subseteq> set (db_launches d)"
  shows "\<forall>l \<in> set ls. get_launch_row d (l_id l) = Some l"
  using assms tbl_get_of_mem [of l_id] unfolding launches_wf_def get_launch_row_def by fastforce

lemma wf_distinct_ids:
  "launches_wf d \<Longrightarrow> distinct (map l_id (filter P (db_launches d)))"
  by (simp add: launches_wf_def tbl_wf_def distinct_map_filter)

lemma distinct_map_sort_key: "distinct (map f (sort_key g xs)) = distinct (map f xs)"
  by (simp add: distinct_map inj_on_def)

lemma oldest_first_simps [simp]:
  "set (oldest_first ls) = set ls" "distinct (map l_id (oldest_first ls)) = distinct (map l_id ls)"
  by (simp_all add: oldest_first_def distinct_map_sort_key)

lemma distinct_take_drop: "distinct (map f xs) \<Longrightarrow> distinct (map f (take n (drop m xs)))"
  by (simp add: take_map [symmetric] drop_map [symmetric])

lemma distinct_take: "distinct (map f xs) \<Longrightarrow> distinct (map f (take n xs))"
  by (simp add: take_map [symmetric])

lemma list_launches_follow:
  assumes "launches_wf d" and "list_launches d st now eids p pid limit offset = (d', r)"
  shows "launches_follow d d'"
proof -
  define rows where "rows = take limit (drop offset (oldest_first
    (where_clause (project_clause_of l_project_id p) (filter (\<lambda>l. l_project_id l = pid) (db_launches d)))))"
  have "distinct (map l_id (where_clause (project_clause_of l_project_id p)
      (filter (\<lambda>l. l_project_id l = pid) (db_launches d))))"
    using wf_distinct_ids [OF assms(1)] by (auto simp: where_clause_def distinct_map_filter split: option.split)
  then have dis: "distinct (map l_id rows)"
    unfolding rows_def by (intro distinct_take_drop) simp
  have "set rows \<subseteq> set (db_launches d)"
    unfolding rows_def
    by (auto simp: where_clause_def dest!: in_set_takeD in_set_dropD split: option.splits)
  then have fresh: "\<forall>l \<in> set rows. get_launch_row d (l_id l) = Some l"
    using stored_rows assms(1) by blast
  from assms(2) show ?thesis
    using expire_each_follow [OF _ dis fresh]
    by (auto simp: list_launches_def guarded_eq_pair Let_def rows_def [symmetric] split: prod.splits)
qed

lemma pull_pending_follow:
  assumes "launches_wf d" and "pull_pending d st now eids p mid = (d', r)"
  shows "launches_follow d d'"
proof -
  define rows where "rows = take 21 (oldest_first
    (filter (\<lambda>l. l_machine_id l = mid \<and> \<not> launch_terminal (l_status l)) (db_launches d)))"
  have dis: "distinct (map l_id rows)"
    unfolding rows_def by (rule distinct_take) (simp add: wf_distinct_ids [OF assms(1)])
  have "set rows \<subseteq> set (db_launches d)"
    unfolding rows_def by (auto dest!: in_set_takeD)
  then have fresh: "\<forall>l \<in> set rows. get_launch_row d (l_id l) = Some l"
    using stored_rows assms(1) by blast
  from assms(2) show ?thesis
    using expire_each_follow [OF _ dis fresh]
    by (auto simp: pull_pending_def guarded_eq_pair Let_def rows_def [symmetric]
        split: prod.splits option.splits)
qed

lemma sweep_follow:
  assumes "sweep_overdue d st now eids i p ls = (d', r)" and "distinct (map l_id ls)"
    and "\<forall>l \<in> set ls. get_launch_row d (l_id l) = Some l"
  shows "launches_follow d d'"
  using assms
proof (induction ls arbitrary: d i d' r)
  case (Cons l ls)
  obtain d1 l1 where e: "expire_launch_if_overdue d st now (eids i) p l = (d1, l1)" by fastforce
  have "get_launch_row d (l_id l) = Some l" using Cons.prems(3) by simp
  note m = expire_moves [OF e this]
  have fresh: "\<forall>l \<in> set ls. get_launch_row d1 (l_id l) = Some l"
    using Cons.prems(2,3) m(2) by (auto simp: image_iff)
  from Cons.prems(1) consider "d' = d" | "sweep_overdue d1 st now eids (Suc i) p ls = (d', r)"
    by (auto simp: guarded_eq_pair e)
  then show ?case
  proof cases
    case 2
    then have "launches_follow d1 d'" using Cons.IH [OF 2 _ fresh] Cons.prems(2) by simp
    with m(1) show ?thesis by (rule follow_trans)
  qed simp
qed simp

lemma reserve_admitted_frame [simp]:
  "db_launches (reserve_admitted d ids now pid adm) = db_launches d"
  "db_sessions (reserve_admitted d ids now pid adm) = db_sessions d"
  "db_claims (reserve_admitted d ids now pid adm) = db_claims d"
  by (simp_all add: reserve_admitted_def record_reservation_def Let_def split: option.split)

lemma decide_admission_frame:
  "decide_admission d pid now = (d1, x) \<Longrightarrow> db_launches d1 = db_launches d"
  by (auto simp: decide_admission_def Let_def split: option.splits if_splits sum.splits)

lemma create_launch_cases:
  assumes "create_launch d p now ids pid r attempt retry_of basis pin = (d', res)"
  shows "(d' = d \<and> (\<exists>e. res = Inl e)) \<or>
    (\<exists>d1 adm pinned launch ev.
       decide_admission d pid now = (d1, Inr adm) \<and> authorize_production_request p r = Inr () \<and>
       pin = Inr pinned \<and>
       launch = new_launch now p (id_launch ids) pid r attempt retry_of basis pinned \<and>
       ev = launch_event p now (id_event ids) launch TASK_LAUNCH_REQUESTED [] (event_actor d p None) \<and>
       d' = launch_commit (reserve_admitted (put_launch launch d1) ids now pid adm) ev \<and>
       res = Inr launch)"
proof -
  obtain d1 x where adm: "decide_admission d pid now = (d1, x)" by fastforce
  show ?thesis
    by (cases x; cases "authorize_production_request p r"; cases pin)
      (use assms adm in \<open>auto simp: create_launch_def stage_launch_def launch_commit_def Let_def split_beta\<close>)
qed

lemma new_launch_id [simp]: "l_id (new_launch now p i pid r attempt retry_of basis pin) = i"
  by (simp add: new_launch_def)

lemma create_launch_follow:
  assumes "create_launch d p now ids pid r attempt retry_of basis pin = (d', res)"
    and "get_launch_row d (id_launch ids) = None" and "launch_create_schema r"
    and "retry_of = None \<or> (\<forall>a \<in> set (db_launches d). l_retry_of_launch_id a \<noteq> retry_of)"
  shows "launches_follow d d'"
  using create_launch_cases [OF assms(1)]
proof
  assume "\<exists>d1 adm pinned launch ev.
       decide_admission d pid now = (d1, Inr adm) \<and> authorize_production_request p r = Inr () \<and>
       pin = Inr pinned \<and>
       launch = new_launch now p (id_launch ids) pid r attempt retry_of basis pinned \<and>
       ev = launch_event p now (id_event ids) launch TASK_LAUNCH_REQUESTED [] (event_actor d p None) \<and>
       d' = launch_commit (reserve_admitted (put_launch launch d1) ids now pid adm) ev \<and>
       res = Inr launch"
  then obtain d1 adm pinned where adm: "decide_admission d pid now = (d1, Inr adm)"
    and d': "db_launches d' = db_launches
      (put_launch (new_launch now p (id_launch ids) pid r attempt retry_of basis pinned) d1)"
    by auto
  have "db_launches d' = db_launches
      (put_launch (new_launch now p (id_launch ids) pid r attempt retry_of basis pinned) d)"
    using d' decide_admission_frame [OF adm] by (simp add: put_launch_def)
  then show ?thesis
    by (rule follow_new [rotated 2])
      (use assms(2-4) in \<open>auto simp: born_def new_launch_def hard_deadline_def launch_create_schema_def seconds_def\<close>)
qed auto

lemma report_guard_allowed:
  "report_guard d r l = Inr () \<Longrightarrow> allowed_transition (l_status l) (lr_status r) = Some Actor_MACHINE
     \<and> l_version l = lr_expected_version r"
  by (auto simp: report_guard_def)

lemma reported_moves:
  "allowed_transition (l_status l) (lr_status r) \<noteq> None \<Longrightarrow> launch_moves l (reported_launch now r l)"
  by (simp add: launch_moves_def same_launch_def reported_launch_def)

lemma cancelled_moves:
  "allowed_transition (l_status l) LS_CANCELLED \<noteq> None \<Longrightarrow> launch_moves l (cancelled_launch now l)"
  by (simp add: launch_moves_def same_launch_def cancelled_launch_def)

lemma after_rollback_follow:
  "launches_follow d d1 \<Longrightarrow> launches_follow d (after_rollback d l (d1, l1))"
  by (simp add: after_rollback_def)

lemma get_stored:
  assumes "get_launch_row d (l_id seen) = Some l"
  shows "get_launch_row d (l_id l) = Some l" and "l_id l = l_id seen"
  using assms get_launch_row_id by metis+

lemma report_launch_follow:
  assumes "report_launch d st now e1 e2 p seen r = (d', res)"
  shows "launches_follow d d'"
proof (cases "get_launch_row d (l_id seen)")
  case (Some l)
  obtain d1 l1 where e: "expire_launch_if_overdue d st now e1 p l = (d1, l1)" by fastforce
  note m = expire_moves [OF e get_stored(1) [OF Some]]
  from assms Some e consider "d' = d" | "d' = after_rollback d l (d1, l1)"
    | "report_guard d1 r l1 = Inr ()" "db_launches d' = db_launches (put_launch (reported_launch now r l1) d1)"
    by (auto simp: report_launch_def guarded_eq_pair Let_def split: option.splits)
  then show ?thesis
  proof cases
    case 3
    have "launches_follow d1 d'"
      by (rule follow_put [OF _ reported_moves 3(2)]) (use m(2,4) report_guard_allowed [OF 3(1)] in auto)
    with m(1) show ?thesis by (rule follow_trans)
  qed (simp_all add: m(1) after_rollback_follow)
qed (use assms in \<open>auto simp: report_launch_def guarded_eq_pair\<close>)

lemma cancel_guard_allowed:
  "cancel_guard v l = Inr () \<Longrightarrow> allowed_transition (l_status l) LS_CANCELLED = Some Actor_REQUESTER
     \<and> l_version l = v"
  by (auto simp: cancel_guard_def)

lemma cancel_launch_follow:
  assumes "cancel_launch d st now e1 e2 p seen v = (d', res)"
  shows "launches_follow d d'"
proof (cases "get_launch_row d (l_id seen)")
  case (Some l)
  obtain d1 l1 where e: "expire_launch_if_overdue d st now e1 p l = (d1, l1)" by fastforce
  note m = expire_moves [OF e get_stored(1) [OF Some]]
  from assms Some e consider "d' = d" | "d' = after_rollback d l (d1, l1)"
    | "cancel_guard v l1 = Inr ()" "db_launches d' = db_launches (put_launch (cancelled_launch now l1) d1)"
    by (auto simp: cancel_launch_def guarded_eq_pair Let_def)
  then show ?thesis
  proof cases
    case 3
    have "launches_follow d1 d'"
      by (rule follow_put [OF _ cancelled_moves 3(2)]) (use m(2,4) cancel_guard_allowed [OF 3(1)] in auto)
    with m(1) show ?thesis by (rule follow_trans)
  qed (simp_all add: m(1) after_rollback_follow)
qed (use assms in \<open>auto simp: cancel_launch_def guarded_eq_pair\<close>)

text \<open>What a retry does after its locked re-read and expiry.\<close>

lemma retry_launch_cases:
  assumes "retry_launch d st now e1 ids p seen rt pin confirm = (d', res)"
    and "get_launch_row d (l_id seen) = Some l0"
    and "expire_launch_if_overdue d st now e1 p l0 = (d1, l)"
  shows "(d' = d \<and> (\<exists>e. res = Inl e)) \<or> (d' = d1 \<and> (\<exists>e. res = Inl e)) \<or>
    (d' = d1 \<and> (\<exists>x. existing_retry d1 l = Some x \<and> res = Inr x)) \<or>
    (existing_retry d1 l = None \<and> launch_terminal (l_status l) \<and>
      (\<exists>machine task basis.
         get_machine_row d1 (l_machine_id l) = Some machine \<and> get_task_row d1 (l_task_id l) = Some task \<and>
         authorize_create d1 st now p (l_project_id l) task machine (retry_request l rt) = Inr () \<and>
         create_launch d1 p now ids (l_project_id l) (retry_request l rt) (l_attempt l + 1) (Some (l_id l))
           basis (pin d1 (retry_request l rt)) = (d', res)))"
  using assms
  by (auto simp: retry_launch_def guarded_eq_pair Let_def split: option.splits if_splits sum.splits prod.splits)

lemma retry_launch_follow:
  assumes "retry_launch d st now e1 ids p seen rt pin confirm = (d', res)"
    and "get_launch_row d (id_launch ids) = None" and "launch_retry_schema rt"
  shows "launches_follow d d'"
proof (cases "get_launch_row d (l_id seen)")
  case (Some l0)
  obtain d1 l where e: "expire_launch_if_overdue d st now e1 p l0 = (d1, l)" by fastforce
  note m = expire_moves [OF e get_stored(1) [OF Some]]
  have "id_launch ids \<noteq> l_id l0" using assms(2) Some get_stored(2) [OF Some] by auto
  then have none: "get_launch_row d1 (id_launch ids) = None" using m(2) assms(2) by simp
  have schema: "launch_create_schema (retry_request l rt)"
    using assms(3) by (simp add: launch_create_schema_def launch_retry_schema_def retry_request_def)
  have "launches_follow d1 d'"
    if "create_launch d1 p now ids (l_project_id l) (retry_request l rt) (l_attempt l + 1) (Some (l_id l))
        basis (pin d1 (retry_request l rt)) = (d', res)" "existing_retry d1 l = None" for basis
    using that(2) by (intro create_launch_follow [OF that(1) none schema])
      (auto simp: existing_retry_def find_None_iff)
  with retry_launch_cases [OF assms(1) Some e] show ?thesis
    using m(1) by (auto intro: follow_trans)
qed (use assms(1) in \<open>auto simp: retry_launch_def guarded_eq_pair\<close>)

lemma linkable_not_terminal: "linkable l s \<Longrightarrow> \<not> launch_terminal (l_status l)"
  by (cases "l_status l") (auto simp: linkable_def)

lemma newest_mem: "newest ls = Some l \<Longrightarrow> l \<in> set ls"
proof -
  assume "newest ls = Some l"
  then have "l \<in> set (sort_key (\<lambda>l. - l_created_at l) ls)"
    by (auto simp: newest_def simp del: set_sort split: list.splits)
  then show ?thesis by simp
qed

lemma link_follow:
  assumes "launches_wf d" shows "launches_follow d (link_session_to_launch d s k)"
proof -
  have put: "launches_follow d (put_launch (l\<lparr>l_session_id := Some (s_id s)\<rparr>) d)"
    if "linkable l s" "get_launch_row d (l_id l) = Some l" for l
    by (rule follow_put [OF that(2) extension_moves(2)]) (use linkable_not_terminal [OF that(1)] in auto)
  have stored: "linkable l s \<and> get_launch_row d (l_id l) = Some l"
    if "newest (filter (\<lambda>l. linkable l s) (db_launches d)) = Some l" for l
    using newest_mem [OF that] stored_rows [OF assms, of "db_launches d"] by auto
  show ?thesis
  proof (cases k)
    case None
    show ?thesis
    proof (cases "newest (filter (\<lambda>l. linkable l s) (db_launches d))")
      case (Some l)
      then have "launches_follow d (put_launch (l\<lparr>l_session_id := Some (s_id s)\<rparr>) d)"
        using put stored by blast
      then show ?thesis by (simp add: link_session_to_launch_def None Some)
    qed (simp add: link_session_to_launch_def None)
  next
    case (Some i)
    show ?thesis
    proof (cases "get_launch_row d i")
      case (Some l)
      then have "get_launch_row d (l_id l) = Some l" by (simp add: get_launch_row_id)
      with put have "linkable l s \<Longrightarrow> launches_follow d (put_launch (l\<lparr>l_session_id := Some (s_id s)\<rparr>) d)"
        by blast
      then show ?thesis by (simp add: link_session_to_launch_def \<open>k = Some i\<close> Some)
    qed (simp add: link_session_to_launch_def Some)
  qed
qed

lemma launches_wf_single: "launches_wf (d\<lparr>db_launches := [l]\<rparr>)"
  by (simp add: launches_wf_def tbl_wf_def retries_unique_def)

subsection \<open>Histories of the launch table\<close>

text \<open>
  One request at a time, each on the stored rows, as the row locks order them; a new launch
  has a fresh id, and requests satisfy their schema. Operations of the other services leave
  the table alone.
\<close>

inductive launch_step :: "db \<Rightarrow> db \<Rightarrow> bool" where
  create: "create_launch d p now ids pid r 1 None None pin = (d', res) \<Longrightarrow> launch_create_schema r \<Longrightarrow>
    get_launch_row d (id_launch ids) = None \<Longrightarrow> launch_step d d'"
| get: "get_launch (get_launch_row d k) d st now eid p = (d', res1) \<Longrightarrow> launch_step d d'"
| list: "list_launches d st now eids p pid limit offset = (d', res2) \<Longrightarrow> launch_step d d'"
| sweep: "expire_overdue_launches d st now eids p = (d', res3) \<Longrightarrow> launch_step d d'"
| pull: "pull_pending d st now eids p mid = (d', res2) \<Longrightarrow> launch_step d d'"
| report: "report_launch d st now e1 e2 p seen rep = (d', res) \<Longrightarrow> launch_step d d'"
| cancel: "cancel_launch d st now e1 e2 p seen v = (d', res) \<Longrightarrow> launch_step d d'"
| retry: "retry_launch d st now e1 ids p seen rt pinf confirm = (d', res) \<Longrightarrow> launch_retry_schema rt \<Longrightarrow>
    get_launch_row d (id_launch ids) = None \<Longrightarrow> launch_step d d'"
| link: "link_session_to_launch d s kopt = d' \<Longrightarrow> launch_step d d'"
| other: "db_launches d' = db_launches d \<Longrightarrow> launch_step d d'"

lemma get_launch_follow:
  assumes "get_launch (get_launch_row d k) d st now eid p = (d', res)"
  shows "launches_follow d d'"
proof (cases "get_launch_row d k")
  case (Some l)
  obtain d1 l1 where e: "expire_launch_if_overdue d st now eid p l = (d1, l1)" by fastforce
  have "get_launch_row d (l_id l) = Some l" using Some get_launch_row_id by metis
  with assms Some e expire_moves(1) [OF e] show ?thesis
    by (auto simp: get_launch_def guarded_eq_pair)
qed (use assms in \<open>simp add: get_launch_def\<close>)

lemma sweep_overdue_follow:
  assumes "launches_wf d" and "expire_overdue_launches d st now eids p = (d', res)"
  shows "launches_follow d d'"
  using assms(2) unfolding expire_overdue_launches_def
  by (rule sweep_follow) (use assms(1) wf_distinct_ids stored_rows [OF assms(1), of "db_launches d"] in auto)

lemma launch_step_follow: "launch_step d d' \<Longrightarrow> launches_wf d \<Longrightarrow> launches_follow d d'"
  by (induction rule: launch_step.induct)
    (auto intro: create_launch_follow get_launch_follow list_launches_follow sweep_overdue_follow
      pull_pending_follow report_launch_follow cancel_launch_follow retry_launch_follow link_follow
      follow_cong)

lemma launch_steps_follow: "launch_step\<^sup>*\<^sup>* d d' \<Longrightarrow> launches_wf d \<Longrightarrow> launches_follow d d'"
proof (induction rule: rtranclp_induct)
  case (step d1 d2)
  then have f: "launches_follow d d1" by simp
  with step.prems have "launches_wf d1" by (simp add: launches_follow_def)
  with f step.hyps(2) show ?case using launch_step_follow follow_trans by blast
qed simp



definition launch_row_ok :: "launch_row \<Rightarrow> bool" where
  "launch_row_ok l \<longleftrightarrow>
     (launch_terminal (l_status l) \<longleftrightarrow> l_finished_at l \<noteq> None) \<and>
     1 \<le> l_version l \<and> l_version l \<le> 1 + int (launch_stage (l_status l)) \<and>
     l_expires_at l \<le> hard_deadline l"

lemma same_launch_deadline: "same_launch l l' \<Longrightarrow> hard_deadline l' = hard_deadline l"
  by (simp add: same_launch_def hard_deadline_def)

lemma launch_moves_ok: "launch_moves l l' \<Longrightarrow> launch_row_ok l \<Longrightarrow> launch_row_ok l'"
  using allowed_transition_stage [of "l_status l" "l_status l'"] same_launch_deadline [of l l']
    allowed_transition_terminal [of "l_status l" "l_status l'"]
  by (auto simp: launch_moves_def launch_row_ok_def same_verdict_def split: if_splits)

lemma launch_moves_star_ok: "launch_moves\<^sup>*\<^sup>* l l' \<Longrightarrow> launch_row_ok l \<Longrightarrow> launch_row_ok l'"
  by (induction rule: rtranclp_induct) (auto intro: launch_moves_ok)

text \<open>In every history that starts without launches, each launch is finished
  exactly when its status is terminal, its version is between 1 and one more than its stage
  (so at most 5 writes ever count), and its expiry, prolongations included, never passes
  the hard deadline of one day after its creation.\<close>

theorem launch_rows_ok:
  assumes "launch_step\<^sup>*\<^sup>* d d'" and "db_launches d = []" and "get_launch_row d' k = Some l"
  shows "(launch_terminal (l_status l) \<longleftrightarrow> l_finished_at l \<noteq> None) \<and>
    1 \<le> l_version l \<and> l_version l \<le> 1 + int (launch_stage (l_status l)) \<and>
    l_expires_at l \<le> l_created_at l + seconds LAUNCH_MAX_TTL_SECONDS"
proof -
  have wf: "launches_wf d" by (simp add: launches_wf_def retries_unique_def tbl_wf_def assms(2))
  have none: "get_launch_row d k = None" by (simp add: get_launch_row_def assms(2))
  from launch_steps_follow [OF assms(1) wf] assms(3) have "launch_origin d k l"
    by (simp add: launches_follow_def)
  with none obtain l0 where "born l0" "launch_moves\<^sup>*\<^sup>* l0 l" by (auto simp: launch_origin_def)
  moreover from this(1) have "launch_row_ok l0" by (simp add: born_def launch_row_ok_def)
  ultimately have "launch_row_ok l" using launch_moves_star_ok by blast
  then show ?thesis by (simp add: launch_row_ok_def hard_deadline_def)
qed

definition sample_request :: launch_create where
  "sample_request = \<lparr>lc_task_id = 30, lc_machine_id = 10, lc_harness_id = ''claude'',
     lc_agent_stable_key = None, lc_profile_key = None, lc_allow_production = False,
     lc_expires_in_seconds = 7200\<rparr>"

definition sample_ids :: launch_ids where
  "sample_ids = \<lparr>id_launch = 40, id_event = 900, id_reservation = 80\<rparr>"

lemma create_without_policy:
  "get_policy d pid = None \<Longrightarrow> lc_allow_production r = False \<Longrightarrow>
   create_launch d p now ids pid r attempt retry_of basis (Inr pin) =
     (let launch = new_launch now p (id_launch ids) pid r attempt retry_of basis pin
      in (launch_commit (put_launch launch d) (launch_event p now (id_event ids) launch
            TASK_LAUNCH_REQUESTED [] (event_actor d p None)), Inr launch))"
  by (simp add: create_launch_def stage_launch_def decide_admission_def authorize_production_request_def
      reserve_admitted_def launch_commit_def Let_def split_beta)

lemma launch_rows_ok_witness:
  "\<exists>d l. get_launch_row d 40 = Some l \<and> l_version l \<le> 1 + int (launch_stage (l_status l)) \<and>
     l_status l = LS_REQUESTED"
proof -
  let ?l = "new_launch 0 sample_principal 40 5 sample_request 1 None None None"
  obtain d where c: "create_launch empty_db sample_principal 0 sample_ids 5 sample_request 1 None None
      (Inr None) = (d, Inr ?l)" and g: "get_launch_row d 40 = Some ?l"
    by (simp add: create_without_policy get_policy_def empty_db_def sample_request_def sample_ids_def Let_def)
  have "launch_step empty_db d"
    by (rule launch_step.create [OF c])
      (simp_all add: launch_create_schema_def sample_request_def get_launch_row_def empty_db_def)
  then have "launch_step\<^sup>*\<^sup>* empty_db d" by blast
  from launch_rows_ok [OF this _ g] have "l_version ?l \<le> 1 + int (launch_stage (l_status ?l))"
    by (simp add: empty_db_def)
  with g show ?thesis by (intro exI [of _ d] exI [of _ ?l]) (simp add: new_launch_def)
qed

subsection \<open>Versions: at most one write per version\<close>

datatype launch_write =
    ReportWrite settings timestamp uuid uuid principal launch_row launch_report
  | CancelWrite settings timestamp uuid uuid principal launch_row

definition launch_version :: "db \<Rightarrow> uuid \<Rightarrow> int option" where
  "launch_version d k = map_option l_version (get_launch_row d k)"

fun launch_attempt :: "launch_write \<Rightarrow> uuid \<Rightarrow> int \<Rightarrow> db \<Rightarrow> (db, launch_row) outcome" where
  "launch_attempt (ReportWrite st now e1 e2 p seen r) k v d =
     report_launch d st now e1 e2 p (seen\<lparr>l_id := k\<rparr>) (r\<lparr>lr_expected_version := v\<rparr>)"
| "launch_attempt (CancelWrite st now e1 e2 p seen) k v d =
     cancel_launch d st now e1 e2 p (seen\<lparr>l_id := k\<rparr>) v"

lemma expire_same_version:
  assumes "expire_launch_if_overdue d st now eid p l = (d', l')"
    and "allowed_transition (l_status l') t \<noteq> None"
  shows "l_version l' = l_version l" and "l_status l' = l_status l"
  using expire_cases [OF assms(1)] assms(2) allowed_transition_terminal [of LS_EXPIRED t] by auto

lemma report_launch_success:
  assumes "report_launch d st now e1 e2 p seen r = (d', Inr l2)"
  shows "\<exists>l d1 l1. get_launch_row d (l_id seen) = Some l \<and>
    expire_launch_if_overdue d st now e1 p l = (d1, l1) \<and> report_guard d1 r l1 = Inr () \<and>
    l2 = reported_launch now r l1 \<and> get_launch_row d' (l_id seen) = Some l2 \<and>
    l_version l1 = l_version l \<and> l_status l1 = l_status l \<and>
    authorize_report p seen = Inr () \<and> has_project_access p (l_project_id seen)"
proof -
  from assms obtain l where l: "get_launch_row d (l_id seen) = Some l"
    by (auto simp: report_launch_def guarded_eq_Inr split: option.splits)
  obtain d1 l1 where e: "expire_launch_if_overdue d st now e1 p l = (d1, l1)" by fastforce
  have g: "report_guard d1 r l1 = Inr ()" and l2: "l2 = reported_launch now r l1"
    and d': "db_launches d' = db_launches (put_launch l2 d1)"
    and auth: "authorize_report p seen = Inr ()" "has_project_access p (l_project_id seen)"
    using assms l e
    by (auto simp: report_launch_def guarded_eq_Inr Let_def split: option.splits)
  have "allowed_transition (l_status l1) (lr_status r) \<noteq> None" using report_guard_allowed [OF g] by simp
  note same = expire_same_version [OF e this]
  have "l_id l1 = l_id seen" using expire_moves(4) [OF e get_stored(1) [OF l]] get_stored(2) [OF l] by simp
  then have "get_launch_row d' (l_id seen) = Some l2"
    using get_launch_row_cong [OF d'] l2 by (simp add: reported_launch_def)
  with l e g l2 same auth show ?thesis by blast
qed

lemma cancel_launch_success:
  assumes "cancel_launch d st now e1 e2 p seen v = (d', Inr l2)"
  shows "\<exists>l d1 l1. get_launch_row d (l_id seen) = Some l \<and>
    expire_launch_if_overdue d st now e1 p l = (d1, l1) \<and> cancel_guard v l1 = Inr () \<and>
    l2 = cancelled_launch now l1 \<and> get_launch_row d' (l_id seen) = Some l2 \<and>
    l_version l1 = l_version l \<and> l_status l1 = l_status l \<and> may_recover p seen ''cancel'' = Inr ()"
proof -
  from assms obtain l where l: "get_launch_row d (l_id seen) = Some l"
    by (auto simp: cancel_launch_def guarded_eq_Inr split: option.splits)
  obtain d1 l1 where e: "expire_launch_if_overdue d st now e1 p l = (d1, l1)" by fastforce
  have g: "cancel_guard v l1 = Inr ()" and l2: "l2 = cancelled_launch now l1"
    and d': "db_launches d' = db_launches (put_launch l2 d1)"
    and auth: "may_recover p seen ''cancel'' = Inr ()"
    using assms l e by (auto simp: cancel_launch_def guarded_eq_Inr Let_def)
  have "allowed_transition (l_status l1) LS_CANCELLED \<noteq> None" using cancel_guard_allowed [OF g] by simp
  note same = expire_same_version [OF e this]
  have "l_id l1 = l_id seen" using expire_moves(4) [OF e get_stored(1) [OF l]] get_stored(2) [OF l] by simp
  then have "get_launch_row d' (l_id seen) = Some l2"
    using get_launch_row_cong [OF d'] l2 by (simp add: cancelled_launch_def)
  with l e g l2 same auth show ?thesis by blast
qed

interpretation launch_writes: versioned_write launch_version launch_attempt
proof unfold_locales
  fix q k v and d d' :: db and x
  assume a: "launch_attempt q k v d = (d', Inr x)"
  show "launch_version d k = Some v \<and> launch_version d' k = Some (v + 1)"
  proof (cases q)
    case (ReportWrite st now e1 e2 p seen r)
    with a have "report_launch d st now e1 e2 p (seen\<lparr>l_id := k\<rparr>) (r\<lparr>lr_expected_version := v\<rparr>) = (d', Inr x)"
      by simp
    from report_launch_success [OF this] show ?thesis
      by (auto simp: launch_version_def reported_launch_def dest: report_guard_allowed)
  next
    case (CancelWrite st now e1 e2 p seen)
    with a have "cancel_launch d st now e1 e2 p (seen\<lparr>l_id := k\<rparr>) v = (d', Inr x)" by simp
    from cancel_launch_success [OF this] show ?thesis
      by (auto simp: launch_version_def cancelled_launch_def dest: cancel_guard_allowed)
  qed
next
  fix q k v and d d' :: db and r n
  assume a: "launch_attempt q k v d = (d', r)" and n: "launch_version d k = Some n"
  from a have "launches_follow d d'"
    by (cases q) (auto intro: report_launch_follow cancel_launch_follow)
  with n show "\<exists>m \<ge> n. launch_version d' k = Some m"
    by (auto simp: launch_version_def dest!: follow_row dest: launch_moves_version)
qed



subsection \<open>Who drives a launch\<close>

text \<open>Only the target machine reports and only the requester or an admin cancels:
  a successful report comes from the launch's own machine along a machine transition, a
  successful cancellation from its requester or an admin, both by a writer with access to
  the project, and neither from a terminal launch. The caller's copy names the stored launch.\<close>

theorem launch_writes_authorized:
  assumes "get_launch_row d (l_id seen) = Some l" and "same_launch l seen"
  shows "(report_launch d st now e1 e2 p seen r = (d', Inr l2) \<longrightarrow>
      l_machine_id l = m_id (p_machine p) \<and> p_role p \<noteq> Role_READONLY \<and>
      has_project_access p (l_project_id l) \<and>
      allowed_transition (l_status l) (l_status l2) = Some Actor_MACHINE \<and> \<not> launch_terminal (l_status l)) \<and>
    (cancel_launch d st now e1 e2 p seen v = (d', Inr l2) \<longrightarrow>
      (p_role p = Role_ADMIN \<or> l_requested_by_user_id l = u_id (p_user p)) \<and> p_role p \<noteq> Role_READONLY \<and>
      has_project_access p (l_project_id l) \<and> l_status l2 = LS_CANCELLED \<and> \<not> launch_terminal (l_status l))"
proof (intro conjI [of "_ \<longrightarrow> _"] impI)
  assume "report_launch d st now e1 e2 p seen r = (d', Inr l2)"
  from report_launch_success [OF this] assms obtain d1 l1 where
    g: "report_guard d1 r l1 = Inr ()" and l2: "l2 = reported_launch now r l1"
    and st: "l_status l1 = l_status l" and auth: "authorize_report p seen = Inr ()"
    and acc: "has_project_access p (l_project_id seen)" by auto
  have tr: "allowed_transition (l_status l) (lr_status r) = Some Actor_MACHINE"
    using report_guard_allowed [OF g] st by simp
  then have "\<not> launch_terminal (l_status l)" using allowed_transition_terminal by fastforce
  with tr l2 auth acc assms(2) show "l_machine_id l = m_id (p_machine p) \<and> p_role p \<noteq> Role_READONLY \<and>
      has_project_access p (l_project_id l) \<and>
      allowed_transition (l_status l) (l_status l2) = Some Actor_MACHINE \<and> \<not> launch_terminal (l_status l)"
    by (auto simp: authorize_report_def reported_launch_def same_launch_def gate_defs)
next
  assume "cancel_launch d st now e1 e2 p seen v = (d', Inr l2)"
  from cancel_launch_success [OF this] assms obtain d1 l1 where
    g: "cancel_guard v l1 = Inr ()" and l2: "l2 = cancelled_launch now l1"
    and st: "l_status l1 = l_status l" and auth: "may_recover p seen ''cancel'' = Inr ()" by auto
  have "\<not> launch_terminal (l_status l)"
    using cancel_guard_allowed [OF g] st allowed_transition_terminal by fastforce
  with l2 auth assms(2) show "(p_role p = Role_ADMIN \<or> l_requested_by_user_id l = u_id (p_user p)) \<and>
      p_role p \<noteq> Role_READONLY \<and> has_project_access p (l_project_id l) \<and> l_status l2 = LS_CANCELLED \<and>
      \<not> launch_terminal (l_status l)"
    by (auto simp: may_recover_def cancelled_launch_def same_launch_def gate_defs)
qed

lemma launch_writes_authorized_witness:
  "\<exists>d' l2. cancel_launch (empty_db\<lparr>db_launches := [sample_launch]\<rparr>) default_settings 0 900 901
     sample_principal sample_launch 1 = (d', Inr l2) \<and> l_status l2 = LS_CANCELLED"
proof -
  let ?d = "empty_db\<lparr>db_launches := [sample_launch]\<rparr>"
  have g: "get_launch_row ?d (l_id sample_launch) = Some sample_launch" by (simp add: get_launch_row_def)
  have s: "same_launch sample_launch sample_launch" by (simp add: same_launch_def)
  obtain d' l2 where c: "cancel_launch ?d default_settings 0 900 901 sample_principal sample_launch 1
      = (d', Inr l2)"
    using g by (simp add: cancel_launch_def may_recover_def sample_principal_def sample_launch_def
        gate_defs has_project_access_def cancel_guard_def expire_launch_if_overdue_def seconds_def Let_def)
  with launch_writes_authorized [OF g s] show ?thesis by blast
qed

subsection \<open>One retry per attempt\<close>

lemma existing_retry_stored:
  assumes "existing_retry d l = Some a" and "launches_wf d"
  shows "get_launch_row d (l_id a) = Some a" and "l_retry_of_launch_id a = Some (l_id l)"
proof -
  from assms(1) show "l_retry_of_launch_id a = Some (l_id l)"
    by (auto simp: existing_retry_def find_Some_iff)
  from assms(1) have "a \<in> set (db_launches d)" by (auto simp: existing_retry_def find_Some_iff)
  then show "get_launch_row d (l_id a) = Some a" using stored_rows [OF assms(2), of "[a]"] by simp
qed

text \<open>What a successful retry returns is stored and points at the attempt it retries; a new
  attempt inherits the job, counts one more and never inherits production approval.\<close>

lemma retry_launch_success:
  assumes "retry_launch d st now e1 ids p seen rt pin confirm = (d', Inr a)"
    and "launches_wf d" and "get_launch_row d (l_id seen) = Some l0"
  shows "get_launch_row d' (l_id a) = Some a" and "l_retry_of_launch_id a = Some (l_id seen)"
    and "(\<exists>d1. existing_retry d1 l0 = Some a \<and> get_launch_row d1 (l_id a) = Some a) \<or>
      (l_id a = id_launch ids \<and> l_attempt a = l_attempt l0 + 1 \<and> l_task_id a = l_task_id l0 \<and>
       l_machine_id a = l_machine_id l0 \<and> l_harness_id a = l_harness_id l0 \<and>
       l_agent_stable_key a = l_agent_stable_key l0 \<and> l_profile_key a = l_profile_key l0 \<and>
       \<not> l_allow_production a \<and> l_status a = LS_REQUESTED)"
proof -
  obtain d1 l where e: "expire_launch_if_overdue d st now e1 p l0 = (d1, l)" by fastforce
  note m = expire_moves [OF e get_stored(1) [OF assms(3)]]
  have wf1: "launches_wf d1" using m(1) assms(2) by (simp add: launches_follow_def)
  have same: "same_launch l0 l" using m(3) by (simp add: launch_moves_def)
  have id: "l_id l = l_id seen" using m(4) get_stored(2) [OF assms(3)] by simp
  have new: "\<exists>pinned. a = new_launch now p (id_launch ids) (l_project_id l) (retry_request l rt)
        (l_attempt l + 1) (Some (l_id l)) basis pinned \<and> get_launch_row d' (l_id a) = Some a"
    if "create_launch d1 p now ids (l_project_id l) (retry_request l rt) (l_attempt l + 1) (Some (l_id l))
        basis (pin d1 (retry_request l rt)) = (d', Inr a)" for basis
  proof -
    from create_launch_cases [OF that] obtain d2 adm pinned ev where
      a: "a = new_launch now p (id_launch ids) (l_project_id l) (retry_request l rt)
        (l_attempt l + 1) (Some (l_id l)) basis pinned"
      and d': "d' = launch_commit (reserve_admitted (put_launch a d2) ids now (l_project_id l) adm) ev"
      by auto
    have "get_launch_row d' k = get_launch_row (put_launch a d2) k" for k
      by (rule get_launch_row_cong) (simp add: d')
    with a show ?thesis by auto
  qed
  from retry_launch_cases [OF assms(1,3) e] consider
      (old) "d' = d1" "existing_retry d1 l = Some a"
    | (fresh) basis where "create_launch d1 p now ids (l_project_id l) (retry_request l rt)
        (l_attempt l + 1) (Some (l_id l)) basis (pin d1 (retry_request l rt)) = (d', Inr a)"
    by auto
  then have "get_launch_row d' (l_id a) = Some a \<and> l_retry_of_launch_id a = Some (l_id seen) \<and>
    ((\<exists>d1. existing_retry d1 l0 = Some a \<and> get_launch_row d1 (l_id a) = Some a) \<or>
      (l_id a = id_launch ids \<and> l_attempt a = l_attempt l0 + 1 \<and> l_task_id a = l_task_id l0 \<and>
       l_machine_id a = l_machine_id l0 \<and> l_harness_id a = l_harness_id l0 \<and>
       l_agent_stable_key a = l_agent_stable_key l0 \<and> l_profile_key a = l_profile_key l0 \<and>
       \<not> l_allow_production a \<and> l_status a = LS_REQUESTED))"
  proof cases
    case old
    have "existing_retry d1 l0 = Some a" using old(2) m(4) by (simp add: existing_retry_def)
    with existing_retry_stored [OF old(2) wf1] old(1) id show ?thesis by auto
  next
    case fresh
    from new [OF fresh] obtain pinned where
      a: "a = new_launch now p (id_launch ids) (l_project_id l) (retry_request l rt) (l_attempt l + 1)
        (Some (l_id l)) basis pinned" and g: "get_launch_row d' (l_id a) = Some a" by blast
    have "l_attempt a = l_attempt l0 + 1 \<and> l_task_id a = l_task_id l0 \<and>
       l_machine_id a = l_machine_id l0 \<and> l_harness_id a = l_harness_id l0 \<and>
       l_agent_stable_key a = l_agent_stable_key l0 \<and> l_profile_key a = l_profile_key l0"
      using same unfolding a by (simp add: new_launch_def retry_request_def same_launch_def)
    with a g id show ?thesis by (simp add: new_launch_def retry_request_def)
  qed
  then show "get_launch_row d' (l_id a) = Some a" and "l_retry_of_launch_id a = Some (l_id seen)"
    and "(\<exists>d1. existing_retry d1 l0 = Some a \<and> get_launch_row d1 (l_id a) = Some a) \<or>
      (l_id a = id_launch ids \<and> l_attempt a = l_attempt l0 + 1 \<and> l_task_id a = l_task_id l0 \<and>
       l_machine_id a = l_machine_id l0 \<and> l_harness_id a = l_harness_id l0 \<and>
       l_agent_stable_key a = l_agent_stable_key l0 \<and> l_profile_key a = l_profile_key l0 \<and>
       \<not> l_allow_production a \<and> l_status a = LS_REQUESTED)" by blast+
qed

text \<open>Property C6. An attempt is retried at most once, whoever asks and however often: if two
  retries of the same launch succeed with any requests in between, they return the same
  attempt, which points at the launch it retries.\<close>

theorem retry_converges:
  assumes "launches_wf d" and "get_launch_row d (l_id seen) = Some l0"
    and "retry_launch d st now e1 ids p seen rt pin confirm = (d1, Inr a)"
    and "get_launch_row d (id_launch ids) = None" and "launch_retry_schema rt"
    and "launch_step\<^sup>*\<^sup>* d1 d2"
    and "retry_launch d2 st' now' e1' ids' p' seen' rt' pin' confirm' = (d3, Inr b)"
    and "l_id seen' = l_id seen" and "get_launch_row d2 (id_launch ids') = None" and "launch_retry_schema rt'"
  shows "l_id b = l_id a \<and> l_retry_of_launch_id b = Some (l_id seen)"
proof -
  have f1: "launches_follow d d1" by (rule retry_launch_follow [OF assms(3-5)])
  then have wf1: "launches_wf d1" using assms(1) by (simp add: launches_follow_def)
  have f2: "launches_follow d1 d2" by (rule launch_steps_follow [OF assms(6) wf1])
  then have wf2: "launches_wf d2" using wf1 by (simp add: launches_follow_def)
  have f3: "launches_follow d2 d3" by (rule retry_launch_follow [OF assms(7,9,10)])
  then have wf3: "launches_wf d3" using wf2 by (simp add: launches_follow_def)
  note A = retry_launch_success(1,2) [OF assms(3,1,2)]
  from follow_row [OF follow_trans [OF f2 f3] A(1)] obtain a' where
    a': "get_launch_row d3 (l_id a) = Some a'" and "same_launch a a'" using launch_moves_same by blast
  then have ra: "l_retry_of_launch_id a' = Some (l_id seen)" "l_id a' = l_id a"
    using A(2) by (simp_all add: same_launch_def)
  from follow_row [OF f1 assms(2)] follow_row [OF f2] obtain l2
    where "get_launch_row d2 (l_id seen') = Some l2" using assms(8) by fastforce
  note B = retry_launch_success(1,2) [OF assms(7) wf2 this]
  have "a' \<in> set (db_launches d3)" "b \<in> set (db_launches d3)"
    using a' B(1) unfolding get_launch_row_def by (auto dest: tbl_get_mem)
  with wf3 ra B(2) assms(8) have "a' = b"
    unfolding launches_wf_def retries_unique_def by (metis option.distinct(1))
  with ra B(2) assms(8) show ?thesis by simp
qed

definition failed_launch :: launch_row where
  "failed_launch = sample_launch\<lparr>l_status := LS_FAILED, l_finished_at := Some 5, l_version := 3\<rparr>"

definition retry_attempt :: launch_row where
  "retry_attempt = sample_launch\<lparr>l_id := 41, l_attempt := 2, l_retry_of_launch_id := Some 40\<rparr>"

definition retried_db :: db where
  "retried_db = empty_db\<lparr>db_launches := [failed_launch, retry_attempt]\<rparr>"

lemma retry_converges_witness:
  "\<exists>d3 b. retry_launch retried_db default_settings 9 910 (sample_ids\<lparr>id_launch := 43\<rparr>) sample_principal
      failed_launch \<lparr>rt_expires_in_seconds = 60, rt_replay = None\<rparr> (\<lambda>_ _. Inr None) (\<lambda>_ _ _. Inr JNull)
      = (d3, Inr b) \<and> l_id b = 41 \<and> l_retry_of_launch_id b = Some 40"
proof -
  let ?rt = "\<lparr>rt_expires_in_seconds = 60, rt_replay = None\<rparr> :: launch_retry"
  let ?run = "\<lambda>i e. retry_launch retried_db default_settings 9 e (sample_ids\<lparr>id_launch := i\<rparr>) sample_principal
      failed_launch ?rt (\<lambda>_ _. Inr None) (\<lambda>_ _ _. Inr JNull)"
  have ids: "l_id failed_launch = 40" "l_id retry_attempt = 41" "l_retry_of_launch_id failed_launch = None"
    "l_retry_of_launch_id retry_attempt = Some 40" "l_status failed_launch = LS_FAILED"
    "l_project_id failed_launch = 5" "l_requested_by_user_id failed_launch = 1"
    by (simp_all add: failed_launch_def retry_attempt_def sample_launch_def)
  have rows: "db_launches retried_db = [failed_launch, retry_attempt]" by (simp add: retried_db_def)
  have g: "get_launch_row retried_db 40 = Some failed_launch" "get_launch_row retried_db 42 = None"
    "get_launch_row retried_db 43 = None" by (simp_all add: get_launch_row_def rows ids)
  have wf: "launches_wf retried_db" by (simp add: launches_wf_def tbl_wf_def retries_unique_def rows ids)
  have run: "?run i e = (retried_db, Inr retry_attempt)" for i e
    by (simp add: retry_launch_def may_recover_def sample_principal_def gate_defs has_project_access_def
        ids g expire_launch_if_overdue_def existing_retry_def rows)
  have s: "launch_retry_schema ?rt" by (simp add: launch_retry_schema_def)
  have "l_id retry_attempt = l_id retry_attempt \<and> l_retry_of_launch_id retry_attempt = Some (l_id failed_launch)"
    by (rule retry_converges [OF wf _ run [of 909 42] _ s _ run [of 910 43] refl _ s])
      (simp_all add: ids g sample_ids_def)
  then show ?thesis using run [of 910 43] ids by auto
qed

end
