(* ===== verification/Launch_Expiry.thy ===== *)
theory Launch_Expiry
  imports Launch_Safety
begin

section \<open>Admission, expiry and what reads derive\<close>

text \<open>
  The gate every creation and retry passes, the effects of an expiry on the session and the
  claims behind a launch, the proof of protocol a reader derives, and the limit of the lazy
  expiry: a read expires the copy it loaded, not the row as it is by then.
\<close>

subsection \<open>Admission to a machine\<close>

text \<open>No launch is created, directly or as a retry, on a machine that may not run
  it: the gate passes only for a writer with access to the project who owns the machine, is
  an admin or holds a live grant, on an online machine whose recent report opts in, lists
  the project and supports launch safety (and profiles, when one is asked for), and
  production needs a human session.\<close>

theorem authorize_create_requires:
  assumes "authorize_create d st now p pid task machine r = Inr ()"
  shows "has_project_access p pid \<and> p_role p \<noteq> Role_READONLY \<and> can_launch d now p machine pid \<and>
    derive_status st now machine = MS_ONLINE \<and> t_project_id task = pid \<and> lc_task_id r = t_id task \<and>
    lc_machine_id r = m_id machine \<and> (lc_allow_production r \<longrightarrow> p_human_authenticated p) \<and>
    (\<exists>caps reported. m_capabilities machine = Some caps \<and> m_capabilities_reported_at machine = Some reported \<and>
       now - reported \<le> seconds (st_heartbeat_offline_after_seconds st) \<and>
       mc_accepts_launches caps \<and> pid \<in> set (mc_project_ids caps) \<and> mc_launch_safety caps = Some True \<and>
       (lc_profile_key r \<noteq> None \<longrightarrow> lc_agent_stable_key r \<noteq> None \<and> mc_launch_profiles caps = Some True))"
  using assms
  by (auto simp: authorize_create_def authorize_profile_request_def authorize_production_request_def
      ensure_can_launch_def gate_defs not_less split: option.splits)

definition ready_machine :: machine_row where
  "ready_machine = sample_machine\<lparr>m_launch_scope := None, m_last_seen_at := Some 0,
     m_capabilities := Some \<lparr>mc_accepts_launches = True, mc_project_ids = [5], mc_max_launches = 1,
       mc_running_launches = 0, mc_launch_safety = Some True, mc_launch_profiles = None, mc_harnesses = []\<rparr>,
     m_capabilities_reported_at := Some 0\<rparr>"

lemma authorize_create_requires_witness:
  "authorize_create empty_db default_settings 1 sample_principal 5 sample_task ready_machine
     (sample_request\<lparr>lc_task_id := t_id sample_task\<rparr>) = Inr () \<and>
   derive_status default_settings 1 ready_machine = MS_ONLINE"
proof -
  have "authorize_create empty_db default_settings 1 sample_principal 5 sample_task ready_machine
     (sample_request\<lparr>lc_task_id := t_id sample_task\<rparr>) = Inr ()"
    by (simp add: authorize_create_def authorize_profile_request_def authorize_production_request_def
        ensure_can_launch_def can_launch_def gate_defs has_project_access_def sample_principal_def
        sample_task_def ready_machine_def sample_machine_def sample_request_def default_settings_def
        derive_status_def seconds_def Let_def)
  with authorize_create_requires [OF this] show ?thesis by blast
qed

subsection \<open>What an expiry leaves behind\<close>

definition released :: "timestamp \<Rightarrow> claim_row \<Rightarrow> claim_row" where
  "released now c = c\<lparr>c_status := ClaimStatus_RELEASED, c_released_at := Some now\<rparr>"

lemma release_server_fresh:
  assumes "get_claim_row d (c_id c) = Some c" and "c_status c \<noteq> ClaimStatus_RELEASED"
  shows "get_claim_row (fst (release_claim_server_side d now c m)) k
      = (if k = c_id c then Some (released now c) else get_claim_row d k)"
    and "tbl_wf c_id (db_claims d) \<Longrightarrow> tbl_wf c_id (db_claims (fst (release_claim_server_side d now c m)))"
proof -
  from assms have "fst (release_claim_server_side d now c m)
      = fst (stage_event (put_claim (released now c) d) (claim_released_event c (released now c) m now))"
    by (simp add: release_claim_server_side_def Let_def update_claim_row_def released_def)
  moreover have "c_id (released now c) = c_id c" by (simp add: released_def)
  moreover have "db_claims (put_claim (released now c) d) = tbl_put c_id (released now c) (db_claims d)"
    by (simp add: put_claim_def)
  ultimately show "get_claim_row (fst (release_claim_server_side d now c m)) k
      = (if k = c_id c then Some (released now c) else get_claim_row d k)"
    and "tbl_wf c_id (db_claims d) \<Longrightarrow> tbl_wf c_id (db_claims (fst (release_claim_server_side d now c m)))"
    by auto
qed

lemma fold_release:
  assumes "\<forall>c \<in> set cs. get_claim_row d (c_id c) = Some c \<and> c_status c \<noteq> ClaimStatus_RELEASED"
    and "distinct (map c_id cs)" and "tbl_wf c_id (db_claims d)"
  shows "tbl_wf c_id (db_claims (fold (\<lambda>c d. fst (release_claim_server_side d now c m)) cs d))
      \<and> get_claim_row (fold (\<lambda>c d. fst (release_claim_server_side d now c m)) cs d) k
      = (if k \<in> c_id ` set cs then map_option (released now) (get_claim_row d k) else get_claim_row d k)"
  using assms
proof (induction cs arbitrary: d)
  case (Cons c cs)
  let ?d = "fst (release_claim_server_side d now c m)"
  have c: "get_claim_row d (c_id c) = Some c" "c_status c \<noteq> ClaimStatus_RELEASED"
    using Cons.prems(1) by auto
  note step = release_server_fresh [OF c, of now m]
  have fresh: "\<forall>c' \<in> set cs. get_claim_row ?d (c_id c') = Some c' \<and> c_status c' \<noteq> ClaimStatus_RELEASED"
    using Cons.prems(1,2) by (auto simp: step(1) image_iff)
  have dis: "distinct (map c_id cs)" using Cons.prems(2) by simp
  have wf: "tbl_wf c_id (db_claims ?d)" by (rule step(2)) (rule Cons.prems(3))
  show ?case using Cons.IH [OF fresh dis wf] Cons.prems(2) c(1) by (auto simp: step(1))
qed simp

lemma claims_of_launch_fresh:
  assumes "tbl_wf c_id (db_claims d)"
  shows "\<forall>c \<in> set (claims_of_launch d l). get_claim_row d (c_id c) = Some c \<and> c_status c \<noteq> ClaimStatus_RELEASED"
    and "distinct (map c_id (claims_of_launch d l))"
  using assms tbl_get_of_mem [OF assms]
  by (auto simp: claims_of_launch_def get_claim_row_def tbl_wf_def distinct_map_filter)

lemma claims_of_launch_cong: "db_claims d' = db_claims d \<Longrightarrow> claims_of_launch d' l = claims_of_launch d l"
  by (simp add: claims_of_launch_def)

lemma linked_open_session_cong: "db_sessions d' = db_sessions d \<Longrightarrow> linked_open_session d' l = linked_open_session d l"
  by (auto simp: linked_open_session_def get_session_row_def split: option.split)

lemma update_launch_row_frame [simp]:
  "db_claims (update_launch_row d k f) = db_claims d"
  "db_sessions (update_launch_row d k f) = db_sessions d"
  by (simp_all add: update_launch_row_def split: option.split)

text \<open>Releasing the claims of a run leaves none of them active and touches no other claim.\<close>

lemma released_claims:
  assumes wf: "tbl_wf c_id (db_claims d)"
  shows "claims_of_launch (release_claims_of_expired_launch d now l) l = []"
    and "get_claim_row d k = Some c \<Longrightarrow> c \<notin> set (claims_of_launch d l) \<Longrightarrow>
      get_claim_row (release_claims_of_expired_launch d now l) k = Some c"
proof -
  let ?d = "release_claims_of_expired_launch d now l" and ?cs = "set (claims_of_launch d l)"
  note rel = fold_release [OF claims_of_launch_fresh [OF wf, of l] wf, of now "l_machine_id l"]
  have wf': "tbl_wf c_id (db_claims ?d)" using rel by (simp add: release_claims_of_expired_launch_def)
  have get: "get_claim_row ?d k = (if k \<in> c_id ` ?cs
      then map_option (released now) (get_claim_row d k) else get_claim_row d k)" for k
    using rel [of k] by (simp add: release_claims_of_expired_launch_def)
  have "False" if c: "c \<in> set (claims_of_launch ?d l)" for c
  proof (cases "c_id c \<in> c_id ` ?cs")
    case True
    with get [of "c_id c"] c claims_of_launch_fresh(1) [OF wf', of l]
    have "map_option (released now) (get_claim_row d (c_id c)) = Some c" by simp
    moreover have "c_status c = ClaimStatus_ACTIVE" using c by (simp add: claims_of_launch_def)
    ultimately show False by (auto simp: released_def)
  next
    case False
    with claims_of_launch_fresh(1) [OF wf'] get c have "get_claim_row d (c_id c) = Some c" by force
    then have "c \<in> set (db_claims d)" unfolding get_claim_row_def by (rule tbl_get_mem)
    with c False show False by (auto simp: claims_of_launch_def)
  qed
  then show "claims_of_launch ?d l = []" by (metis list.set_intros(1) neq_Nil_conv)
  assume c: "get_claim_row d k = Some c" "c \<notin> ?cs"
  have "k \<notin> c_id ` ?cs"
  proof
    assume "k \<in> c_id ` ?cs"
    then obtain c' where "c' \<in> ?cs" "k = c_id c'" by blast
    then show False using claims_of_launch_fresh(1) [OF wf] c by force
  qed
  with c show "get_claim_row ?d k = Some c" by (simp add: get)
qed



subsection \<open>Activity keeps a launch alive, up to its hard deadline\<close>

text \<open>Activity prolongs an overdue launch, but never past one day after its
  creation: an overdue launch whose linked open session was active within the grace window
  keeps its status and version and gets a later expiry before the hard deadline, and once the
  hard deadline is reached an overdue launch always expires.\<close>

theorem prolongation_is_bounded:
  assumes "expire_launch_if_overdue d st now eid p l = (d', l')" and "\<not> launch_terminal (l_status l)"
    and "l_expires_at l \<le> now" and "0 \<le> st_launch_activity_grace_seconds st"
  shows "((\<exists>s. linked_open_session d l = Some s \<and> now < hard_deadline l \<and>
      now - (case s_last_activity_at s of Some t \<Rightarrow> t | None \<Rightarrow> s_started_at s)
        \<le> seconds (st_launch_activity_grace_seconds st)) \<longrightarrow>
      l_status l' = l_status l \<and> l_version l' = l_version l \<and>
      now \<le> l_expires_at l' \<and> l_expires_at l' \<le> hard_deadline l) \<and>
    (hard_deadline l \<le> now \<longrightarrow> l_status l' = LS_EXPIRED)"
proof (intro conjI [of "_ \<longrightarrow> _"] impI)
  assume "\<exists>s. linked_open_session d l = Some s \<and> now < hard_deadline l \<and>
      now - (case s_last_activity_at s of Some t \<Rightarrow> t | None \<Rightarrow> s_started_at s)
        \<le> seconds (st_launch_activity_grace_seconds st)"
  then have "prolonged_until d st now l
      = Some (min (now + seconds (st_launch_activity_grace_seconds st)) (hard_deadline l))"
    and "now < hard_deadline l"
    by (auto simp: prolonged_until_def Let_def)
  with assms show "l_status l' = l_status l \<and> l_version l' = l_version l \<and>
      now \<le> l_expires_at l' \<and> l_expires_at l' \<le> hard_deadline l"
    by (auto simp: expire_launch_if_overdue_def seconds_def)
next
  assume "hard_deadline l \<le> now"
  then have "prolonged_until d st now l = None"
    by (auto simp: prolonged_until_def Let_def split: option.split)
  with assms(1-3) show "l_status l' = LS_EXPIRED"
    by (auto simp: expire_launch_if_overdue_def Let_def)
qed

lemma prolongation_is_bounded_witness:
  "\<exists>d' l'. expire_launch_if_overdue (empty_db\<lparr>db_launches := [sample_launch]\<rparr>) default_settings (seconds 90000)
     900 sample_principal sample_launch = (d', l') \<and> l_status l' = LS_EXPIRED"
proof -
  let ?d = "empty_db\<lparr>db_launches := [sample_launch]\<rparr>"
  obtain d' l' where e: "expire_launch_if_overdue ?d default_settings (seconds 90000) 900 sample_principal
      sample_launch = (d', l')" by fastforce
  have "l_status l' = LS_EXPIRED"
    using prolongation_is_bounded [OF e]
    by (simp add: sample_launch_def hard_deadline_def seconds_def default_settings_def)
  with e show ?thesis by blast
qed

subsection \<open>The proof of protocol\<close>

text \<open>Only a closed work session proves a handoff: the derived status is
  \<open>handed_off\<close> exactly when the linked session exists and has ended, whatever the launch
  became; without one a live launch awaits, and a launch that ran to \<open>succeeded\<close> or
  \<open>failed\<close>, or was stopped while running, is unverified, never \<open>not_applicable\<close>.\<close>

theorem protocol_needs_closed_session:
  "(lp_status (derive_protocol l s t stopped) = PS_HANDED_OFF \<longleftrightarrow> (\<exists>x. s = Some x \<and> s_ended_at x \<noteq> None)) \<and>
   (lp_status (derive_protocol l s t stopped) = PS_AWAITING \<longleftrightarrow>
      (\<forall>x. s = Some x \<longrightarrow> s_ended_at x = None) \<and> \<not> launch_terminal (l_status l)) \<and>
   (lp_status (derive_protocol l s t stopped) = PS_NOT_APPLICABLE \<longleftrightarrow>
      s = None \<and> l_status l \<in> {LS_REJECTED, LS_CANCELLED, LS_EXPIRED} \<and> \<not> stopped)"
  by (cases "l_status l") (auto simp: derive_protocol_def split: option.splits)

subsection \<open>Reads expire the copy they loaded\<close>

text \<open>\<open>get_launch\<close> decides on the copy its unlocked read returned: when that copy
  is live, overdue and not prolonged, the stored row becomes \<open>expired\<close> at one more than
  the copy's version whatever it is by then, so a report committed in between, even a
  terminal one, is overwritten and its version reused.\<close>

theorem stale_read_overwrites:
  assumes "get_launch_row d (l_id seen) = Some stored" and "\<not> launch_terminal (l_status seen)"
    and "l_expires_at seen \<le> now" and "prolonged_until d st now seen = None"
  shows "\<exists>l. get_launch_row (fst (get_launch (Some seen) d st now eid p)) (l_id seen) = Some l \<and>
    l_status l = LS_EXPIRED \<and> l_version l = l_version seen + 1"
proof -
  obtain d1 l1 where e: "expire_launch_if_overdue d st now eid p seen = (d1, l1)" by fastforce
  have "l1 = expired_launch now seen" and "db_launches d1 = db_launches
      (put_launch (store_expiry (expired_launch now seen) stored) d)"
    using expire_cases [OF e] assms by (auto simp: update_launch_row_def)
  then have "get_launch_row d1 (l_id seen) = Some (store_expiry (expired_launch now seen) stored)"
    using get_launch_row_cong [of d1] get_launch_row_id [OF assms(1)] by (simp add: store_expiry_def)
  then have "\<exists>l. get_launch_row d1 (l_id seen) = Some l \<and> l_status l = LS_EXPIRED \<and>
      l_version l = l_version seen + 1"
    by (simp add: store_expiry_def)
  then show ?thesis by (simp add: get_launch_def e guarded_def split: sum.split)
qed

lemma stale_read_overwrites_witness:
  "let running = sample_launch\<lparr>l_status := LS_RUNNING, l_version := 4\<rparr>;
       succeeded = reported_launch (seconds 7199) \<lparr>lr_expected_version = 4, lr_status = LS_SUCCEEDED,
         lr_reason_code = LR_NONE, lr_session_id = None, lr_output_excerpt = None\<rparr> running
   in launch_moves running succeeded \<and> launch_terminal (l_status succeeded) \<and>
      (\<exists>l. get_launch_row (fst (get_launch (Some running) (empty_db\<lparr>db_launches := [succeeded]\<rparr>)
          default_settings (seconds 7200) 900 sample_principal)) 40 = Some l \<and>
        l_status l = LS_EXPIRED \<and> l_version l = l_version succeeded)"
proof -
  let ?running = "sample_launch\<lparr>l_status := LS_RUNNING, l_version := 4\<rparr>"
  let ?rep = "\<lparr>lr_expected_version = 4, lr_status = LS_SUCCEEDED, lr_reason_code = LR_NONE,
    lr_session_id = None, lr_output_excerpt = None\<rparr> :: launch_report"
  let ?succeeded = "reported_launch (seconds 7199) ?rep ?running"
  have m: "launch_moves ?running ?succeeded" by (rule reported_moves) simp
  have "\<exists>l. get_launch_row (fst (get_launch (Some ?running) (empty_db\<lparr>db_launches := [?succeeded]\<rparr>)
          default_settings (seconds 7200) 900 sample_principal)) (l_id ?running) = Some l \<and>
        l_status l = LS_EXPIRED \<and> l_version l = l_version ?running + 1"
    by (rule stale_read_overwrites [of _ _ ?succeeded])
      (simp_all add: get_launch_row_def reported_launch_def sample_launch_def prolonged_until_def
        linked_open_session_def)
  with m show ?thesis by (simp add: reported_launch_def sample_launch_def)
qed

end
