(* ===== verification/Api_Client.thy ===== *)
theory Api_Client
  imports Studio_Prelude
begin

section \<open>The client's request loop (\<open>studio_client/errors.py, retry.py, api_client.py\<close>)\<close>

text \<open>
  The typed errors a response becomes, the whitelist of retryable ones, the bounded backoff
  and \<open>StudioApiClient._request\<close>, a \<open>while True\<close> loop. The network is a parameter: the
  reply to the \<open>n\<close>-th attempt, and the jitter \<open>random.random()\<close> draws before the \<open>n\<close>-th
  retry. Delays are exact rationals of seconds.
\<close>

subsection \<open>Errors\<close>

datatype error_class =
    StudioApiError
  | AuthenticationError
  | ForbiddenError
  | NotFoundError
  | ConflictError
  | ClientUpgradeRequiredError
  | QuotaError
  | ServerError
  | TransportError

record api_error =
  ae_class :: error_class
  ae_status_code :: nat
  ae_error_code :: "string option"
  ae_message :: string
  ae_details :: "(string \<times> jval) list"

definition error_text :: "api_error \<Rightarrow> string" where
  "error_text e =
     show_nat (ae_status_code e) @ '' '' @
       (case ae_error_code e of None \<Rightarrow> ae_message e | Some c \<Rightarrow> if c = [] then ae_message e else c)"

text \<open>The text of a JSON value; only that of a non-string is left open.\<close>

fun py_str :: "(jval \<Rightarrow> string) \<Rightarrow> jval \<Rightarrow> string" where
  "py_str show (JText t) = t"
| "py_str show v = show v"

definition member :: "(string \<times> jval) list \<Rightarrow> string \<Rightarrow> jval" where
  "member fs k = (case map_of fs k of None \<Rightarrow> JNull | Some v \<Rightarrow> v)"

definition parse_detail ::
  "(jval \<Rightarrow> string) \<Rightarrow> (string \<times> jval) list \<Rightarrow> string option \<times> string \<times> (string \<times> jval) list" where
  "parse_detail show detail =
     (let code = member detail ''error_code''; message = member detail ''message''
      in (if truthy code then Some (py_str show code) else None,
          (if truthy message then py_str show message
           else if truthy code then py_str show code else ''request failed''),
          filter (\<lambda>(k, _). k \<noteq> ''error_code'' \<and> k \<noteq> ''message'') detail))"

definition parse_error_body ::
  "(jval \<Rightarrow> string) \<Rightarrow> jval option \<Rightarrow> string option \<times> string \<times> (string \<times> jval) list" where
  "parse_error_body show body =
     (case body of
        Some (JObj fs) \<Rightarrow>
          (case (case map_of fs ''detail'' of None \<Rightarrow> JObj fs | Some d \<Rightarrow> d) of
             JObj detail \<Rightarrow> parse_detail show detail
           | JText detail \<Rightarrow> (None, detail, [])
           | _ \<Rightarrow> (None, ''request failed'', []))
      | _ \<Rightarrow> (None, ''request failed'', []))"

definition status_error :: "nat \<Rightarrow> error_class" where
  "status_error n =
     (if n = 401 then AuthenticationError else if n = 403 then ForbiddenError
      else if n = 404 then NotFoundError else if n = 409 then ConflictError
      else if n = 413 then QuotaError else if n = 426 then ClientUpgradeRequiredError
      else if n = 507 then QuotaError
      else if n \<ge> 500 then ServerError else StudioApiError)"

definition error_from_response :: "(jval \<Rightarrow> string) \<Rightarrow> nat \<Rightarrow> jval option \<Rightarrow> api_error" where
  "error_from_response show status body =
     (let (code, message, details) = parse_error_body show body
      in \<lparr>ae_class = status_error status, ae_status_code = status, ae_error_code = code,
          ae_message = message, ae_details = details\<rparr>)"

definition transport_error :: "string \<Rightarrow> api_error" where
  "transport_error message =
     \<lparr>ae_class = TransportError, ae_status_code = 0, ae_error_code = None, ae_message = message,
      ae_details = []\<rparr>"

text \<open>\<open>QuotaError.remaining_bytes\<close>; \<open>int\<close> truncates a float toward zero.\<close>

definition number_of :: "jval \<Rightarrow> int option" where
  "number_of v =
     (case v of
        JInt i \<Rightarrow> Some i
      | JNum q \<Rightarrow> Some (if 0 \<le> q then \<lfloor>q\<rfloor> else \<lceil>q\<rceil>)
      | JBool b \<Rightarrow> Some (if b then 1 else 0)
      | _ \<Rightarrow> None)"

definition remaining_bytes :: "api_error \<Rightarrow> int option" where
  "remaining_bytes e =
     (case number_of (member (ae_details e) ''remaining_bytes'') of
        Some n \<Rightarrow> Some n
      | None \<Rightarrow>
          (case (number_of (member (ae_details e) ''quota_bytes''),
                 number_of (member (ae_details e) ''consumed_bytes'')) of
             (Some quota, Some consumed) \<Rightarrow> Some (quota - consumed)
           | _ \<Rightarrow> None))"

subsection \<open>Retry policy\<close>

definition is_retryable :: "api_error \<Rightarrow> bool" where
  "is_retryable e =
     (if ae_class e = TransportError \<or> ae_class e = ServerError then True
      else if ae_class e = ConflictError then ae_error_code e = Some ''idempotency_key_in_progress''
      else ae_status_code e = 429)"

record retry_policy =
  rp_max_attempts :: nat
  rp_backoff_initial :: rat
  rp_backoff_max :: rat

definition retry_policy_ok :: "retry_policy \<Rightarrow> bool" where
  "retry_policy_ok p \<longleftrightarrow> 1 \<le> rp_max_attempts p \<and> 0 < rp_backoff_initial p \<and> 0 < rp_backoff_max p"

definition delay_for :: "retry_policy \<Rightarrow> rat \<Rightarrow> nat \<Rightarrow> rat" where
  "delay_for p jitter attempt =
     min (rp_backoff_initial p * 2 ^ (attempt - 1)) (rp_backoff_max p) * (1 / 2 + jitter / 2)"

subsection \<open>The loop\<close>

datatype http_reply =
    Timed_Out
  | Transport_Failed
  | Response nat "jval option" string

definition retry_after :: "nat \<Rightarrow> string \<Rightarrow> nat" where
  "retry_after status header =
     (let value = py_strip header
      in if status = 429 \<and> value \<noteq> [] \<and> list_all is_digit value \<and> length value \<le> 10
         then decimal_value value else 0)"

definition read_reply ::
  "(jval \<Rightarrow> string) \<Rightarrow> string \<Rightarrow> string \<Rightarrow> http_reply \<Rightarrow> (api_error \<times> nat) + jval option" where
  "read_reply show method path reply =
     (case reply of
        Timed_Out \<Rightarrow> Inl (transport_error (''timeout calling '' @ method @ '' '' @ path), 0)
      | Transport_Failed \<Rightarrow> Inl (transport_error (''transport error calling '' @ method @ '' '' @ path), 0)
      | Response status body header \<Rightarrow>
          if status < 400 then Inr body
          else Inl (error_from_response show status body, retry_after status header))"

definition gives_up :: "retry_policy \<Rightarrow> bool \<Rightarrow> nat \<Rightarrow> api_error \<Rightarrow> nat \<Rightarrow> bool" where
  "gives_up p can_retry attempt e wait \<longleftrightarrow>
     \<not> can_retry \<or> rp_max_attempts p \<le> attempt \<or> \<not> is_retryable e \<or> rp_backoff_max p < of_nat wait"

text \<open>The result, and the seconds slept before each further attempt.\<close>

partial_function (option) request_loop ::
  "retry_policy \<Rightarrow> bool \<Rightarrow> (nat \<Rightarrow> (api_error \<times> nat) + jval option) \<Rightarrow> (nat \<Rightarrow> rat) \<Rightarrow> nat \<Rightarrow> rat list
     \<Rightarrow> ((api_error + jval option) \<times> rat list) option" where
  "request_loop p can_retry reply jitter attempt slept =
     (case reply attempt of
        Inr body \<Rightarrow> Some (Inr body, slept)
      | Inl (e, wait) \<Rightarrow>
          if gives_up p can_retry attempt e wait then Some (Inl e, slept)
          else request_loop p can_retry reply jitter (Suc attempt)
                 (slept @ [max (of_nat wait) (delay_for p (jitter attempt) attempt)]))"

definition upper :: "string \<Rightarrow> string" where
  "upper s = map (\<lambda>c. if ''a'' \<le> [c] \<and> [c] \<le> ''z'' then char_of (of_char c - 32 :: nat) else c) s"

definition request ::
  "(jval \<Rightarrow> string) \<Rightarrow> retry_policy \<Rightarrow> string \<Rightarrow> string \<Rightarrow> bool \<Rightarrow> (nat \<Rightarrow> http_reply) \<Rightarrow> (nat \<Rightarrow> rat)
     \<Rightarrow> ((api_error + jval option) \<times> rat list) option" where
  "request show p method path idempotent reply jitter =
     request_loop p (idempotent \<or> upper method = ''GET'' \<or> upper method = ''HEAD'')
       (\<lambda>n. read_reply show method path (reply n)) jitter 1 []"

subsection \<open>The loop ends\<close>

lemma delay_bounds:
  assumes "retry_policy_ok p" and "0 \<le> jitter" and "jitter < 1"
  shows "0 < delay_for p jitter attempt" and "delay_for p jitter attempt < rp_backoff_max p"
proof -
  let ?b = "min (rp_backoff_initial p * 2 ^ (attempt - 1)) (rp_backoff_max p)"
  have b: "0 < ?b" "?b \<le> rp_backoff_max p" using assms(1) by (simp_all add: retry_policy_ok_def)
  show "0 < delay_for p jitter attempt"
    unfolding delay_for_def using b(1) assms(2) by (intro mult_pos_pos) auto
  have "?b * (1 / 2 + jitter / 2) < ?b * 1"
    using b(1) assms(3) by (intro mult_strict_left_mono) auto
  with b(2) show "delay_for p jitter attempt < rp_backoff_max p" unfolding delay_for_def by linarith
qed

lemma request_loop_ends:
  assumes "retry_policy_ok p" and "\<And>n. 0 \<le> jitter n \<and> jitter n < 1"
    and "length slept < attempt" and "attempt \<le> rp_max_attempts p"
    and "\<forall>s \<in> set slept. 0 < s \<and> s \<le> rp_backoff_max p" and "\<not> can_retry \<longrightarrow> slept = []"
  shows "\<exists>r sleeps. request_loop p can_retry reply jitter attempt slept = Some (r, sleeps) \<and>
    length sleeps < rp_max_attempts p \<and> (\<forall>s \<in> set sleeps. 0 < s \<and> s \<le> rp_backoff_max p) \<and>
    (\<not> can_retry \<longrightarrow> sleeps = [])"
  using assms(3-6)
proof (induction "rp_max_attempts p - attempt" arbitrary: attempt slept rule: less_induct)
  case less
  show ?case
  proof (cases "reply attempt")
    case (Inr body)
    with less.prems show ?thesis by (subst request_loop.simps) auto
  next
    case (Inl ew)
    obtain e wait where ew: "ew = (e, wait)" by (cases ew)
    show ?thesis
    proof (cases "gives_up p can_retry attempt e wait")
      case True
      with Inl ew less.prems show ?thesis by (subst request_loop.simps) auto
    next
      case False
      let ?s = "max (of_nat wait) (delay_for p (jitter attempt) attempt)"
      have s: "0 < ?s \<and> ?s \<le> rp_backoff_max p"
        using delay_bounds [OF assms(1), of "jitter attempt" attempt] assms(2) [of attempt] False
        by (auto simp: gives_up_def max_def)
      have "attempt < rp_max_attempts p" "can_retry" using False by (auto simp: gives_up_def)
      with less.hyps [of "Suc attempt" "slept @ [?s]"] less.prems s Inl ew False show ?thesis
        by (subst request_loop.simps) (auto simp: Ball_def)
    qed
  qed
qed

text \<open>The client's retry loop always ends: whatever the network answers, a request sends
  at most \<open>max_attempts\<close> times, never sleeps longer than the backoff bound, and a call that is
  neither declared idempotent nor a read is sent exactly once.\<close>

theorem request_terminates:
  assumes "retry_policy_ok p" and "\<forall>n. 0 \<le> jitter n \<and> jitter n < 1"
  shows "\<exists>r sleeps. request show p method path idempotent reply jitter = Some (r, sleeps) \<and>
    length sleeps < rp_max_attempts p \<and> (\<forall>s \<in> set sleeps. 0 < s \<and> s \<le> rp_backoff_max p) \<and>
    (\<not> (idempotent \<or> upper method = ''GET'' \<or> upper method = ''HEAD'') \<longrightarrow> sleeps = [])"
  unfolding request_def using assms
  by (intro request_loop_ends) (auto simp: retry_policy_ok_def)

lemma request_terminates_witness:
  "\<exists>r sleeps. request (\<lambda>_. []) \<lparr>rp_max_attempts = 3, rp_backoff_initial = 1 / 2, rp_backoff_max = 20\<rparr>
     ''POST'' ''/api/v1/tasks'' False (\<lambda>_. Timed_Out) (\<lambda>_. 0) = Some (r, sleeps) \<and> sleeps = []"
proof -
  have "upper ''POST'' = ''POST''" by (simp add: upper_def)
  with request_terminates [of "\<lparr>rp_max_attempts = 3, rp_backoff_initial = 1 / 2, rp_backoff_max = 20\<rparr>"
      "\<lambda>_. 0" "\<lambda>_. []" "''POST''" "''/api/v1/tasks''" False "\<lambda>_. Timed_Out"]
  show ?thesis by (fastforce simp: retry_policy_ok_def)
qed

text \<open>A definitive refusal is never sent again, and a lost connection is until the attempts are used up.\<close>

lemma request_loop_stops:
  "reply attempt = Inl (e, wait) \<Longrightarrow> \<not> is_retryable e \<Longrightarrow>
     request_loop p can_retry reply jitter attempt slept = Some (Inl e, slept)"
  by (subst request_loop.simps) (simp add: gives_up_def)

end
