(* ===== verification/Outbox.thy ===== *)
theory Outbox
  imports Api_Client
begin

section \<open>The offline outbox (\<open>studio_client/outbox/store.py, replay.py\<close>)\<close>

text \<open>
  The client's durable queue: work created offline is enqueued under an id its caller chose,
  replayed in creation order once the server answers, and kept in \<open>dead_letter\<close> when the
  server refuses it for good. A SQLite table is the list of its rows in insertion order; a
  transaction is one update of the store. The server is a parameter: a state \<open>'s\<close> and what
  sending a row does to it, which includes what the network loses. Instants are supplied by
  the caller. The multipart upload state kept in the same file is modelled as finite maps.
\<close>

subsection \<open>Rows and tables\<close>

datatype outbox_table = OT_EVENTS | OT_MUTATIONS | OT_MARKERS

record queued_row =
  qr_id :: string
  qr_attempt_count :: nat
  qr_next_attempt_at :: timestamp
  qr_created_at :: timestamp
  qr_last_error :: "string option"
  qr_payload :: "(string \<times> jval) list"
  qr_extra :: "(string \<times> jval) list"

record dead_row =
  dl_id :: string
  dl_source_table :: outbox_table
  dl_row :: queued_row
  dl_error :: string
  dl_failed_at :: timestamp

record upload_row =
  mu_upload_id :: string
  mu_file_path :: string
  mu_part_size_bytes :: nat
  mu_part_urls :: "nat \<Rightarrow> string option"
  mu_completed_parts :: "nat \<Rightarrow> string option"
  mu_created_at :: timestamp
  mu_part_urls_expires_at :: "timestamp option"

record identity_binding =
  ib_server_origin :: string
  ib_profile_id :: string
  ib_machine_id :: uuid
  ib_project_id :: "uuid option"
  ib_workspace_id :: "uuid option"

text \<open>
  Of \<open>sync_state\<close> the store itself reads one key, \<open>daemon.identity_binding\<close>: it is \<open>ob_binding\<close>, and
  \<open>ob_sync_state\<close> holds the keys of the callers.
\<close>

record outbox =
  ob_pending :: "outbox_table \<Rightarrow> queued_row list"
  ob_dead :: "dead_row list"
  ob_uploads :: "string \<Rightarrow> upload_row option"
  ob_binding :: "identity_binding option"
  ob_sync_state :: "string \<Rightarrow> jval option"

definition empty_outbox :: outbox where
  "empty_outbox = \<lparr>ob_pending = (\<lambda>_. []), ob_dead = [], ob_uploads = (\<lambda>_. None),
     ob_binding = None, ob_sync_state = (\<lambda>_. None)\<rparr>"

definition with_table :: "outbox_table \<Rightarrow> (queued_row list \<Rightarrow> queued_row list) \<Rightarrow> outbox \<Rightarrow> outbox" where
  "with_table t f ob = ob\<lparr>ob_pending := (ob_pending ob)(t := f (ob_pending ob t))\<rparr>"

subsection \<open>Identity\<close>

definition binding_mismatches :: "identity_binding \<Rightarrow> identity_binding \<Rightarrow> string list" where
  "binding_mismatches entry active =
     (if ib_server_origin entry \<noteq> ib_server_origin active then [''server_origin''] else []) @
     (if ib_profile_id entry \<noteq> ib_profile_id active then [''profile_id''] else []) @
     (if ib_machine_id entry \<noteq> ib_machine_id active then [''machine_id''] else []) @
     (if ib_project_id entry \<noteq> None \<and> ib_project_id entry \<noteq> ib_project_id active
      then [''project_id''] else []) @
     (if ib_workspace_id entry \<noteq> None \<and> ib_workspace_id entry \<noteq> ib_workspace_id active
      then [''workspace_id''] else [])"

datatype replay_verdict = ALLOW | REFUSE_IDENTITY_MISMATCH

definition decide_outbox_replay ::
  "identity_binding \<Rightarrow> identity_binding \<Rightarrow> replay_verdict \<times> string list" where
  "decide_outbox_replay entry active =
     (let mismatched = binding_mismatches entry active
      in if mismatched = [] then (ALLOW, []) else (REFUSE_IDENTITY_MISMATCH, mismatched))"

text \<open>\<open>OutboxIdentityError\<close> carries the mismatched names.\<close>

definition assert_identity :: "outbox \<Rightarrow> identity_binding \<Rightarrow> string list + unit" where
  "assert_identity ob active =
     (case ob_binding ob of
        None \<Rightarrow> Inl [''binding_missing'']
      | Some existing \<Rightarrow>
          (case decide_outbox_replay existing active of
             (ALLOW, _) \<Rightarrow> Inr ()
           | (REFUSE_IDENTITY_MISMATCH, mismatched) \<Rightarrow> Inl mismatched))"

definition has_queued_work :: "outbox \<Rightarrow> bool" where
  "has_queued_work ob \<longleftrightarrow>
     ob_pending ob OT_EVENTS \<noteq> [] \<or> ob_pending ob OT_MUTATIONS \<noteq> [] \<or> ob_pending ob OT_MARKERS \<noteq> [] \<or>
     ob_dead ob \<noteq> [] \<or> (\<exists>t. ob_uploads ob t \<noteq> None)"

definition bind_identity :: "outbox \<Rightarrow> identity_binding \<Rightarrow> outbox \<times> (string list + unit)" where
  "bind_identity ob active =
     (case ob_binding ob of
        Some existing \<Rightarrow> (ob, assert_identity ob active)
      | None \<Rightarrow>
          if has_queued_work ob then (ob, Inl [''binding_missing''])
          else (ob\<lparr>ob_binding := Some active\<rparr>, Inr ()))"

subsection \<open>Queue operations\<close>

definition pending_count :: "outbox \<Rightarrow> nat" where
  "pending_count ob =
     length (ob_pending ob OT_EVENTS) + length (ob_pending ob OT_MUTATIONS) +
     length (ob_pending ob OT_MARKERS)"

definition oldest_pending_at :: "outbox \<Rightarrow> timestamp option" where
  "oldest_pending_at ob =
     (case map qr_created_at (concat (map (ob_pending ob) [OT_EVENTS, OT_MUTATIONS, OT_MARKERS])) of
        [] \<Rightarrow> None | t # ts \<Rightarrow> Some (fold min ts t))"

text \<open>\<open>INSERT OR IGNORE\<close>: the result says whether a row was inserted.\<close>

definition enqueue :: "outbox \<Rightarrow> outbox_table \<Rightarrow> queued_row \<Rightarrow> outbox \<times> bool" where
  "enqueue ob t r =
     (if qr_id r \<in> qr_id ` set (ob_pending ob t) then (ob, False)
      else (with_table t (\<lambda>rs. rs @ [r]) ob, True))"

definition new_row :: "string \<Rightarrow> timestamp \<Rightarrow> (string \<times> jval) list \<Rightarrow> (string \<times> jval) list \<Rightarrow> queued_row" where
  "new_row i now payload extra =
     \<lparr>qr_id = i, qr_attempt_count = 0, qr_next_attempt_at = now, qr_created_at = now,
      qr_last_error = None, qr_payload = payload, qr_extra = extra\<rparr>"

definition enqueue_mutation ::
  "outbox \<Rightarrow> timestamp \<Rightarrow> string \<Rightarrow> string \<Rightarrow> string \<Rightarrow> string \<Rightarrow> (string \<times> jval) list \<Rightarrow> outbox \<times> bool" where
  "enqueue_mutation ob now idempotency_key kind method path payload =
     enqueue ob OT_MUTATIONS (new_row idempotency_key now payload
       [(''kind'', JText kind), (''method'', JText method), (''path'', JText path)])"

definition enqueue_marker ::
  "outbox \<Rightarrow> timestamp \<Rightarrow> string \<Rightarrow> string \<Rightarrow> (string \<times> jval) list \<Rightarrow> outbox \<times> bool" where
  "enqueue_marker ob now marker_id marker_type payload =
     enqueue ob OT_MARKERS (new_row marker_id now payload [(''marker_type'', JText marker_type)])"

record event_create =
  ec_event_id :: string
  ec_event_type :: string
  ec_project_id :: string
  ec_task_id :: "string option"
  ec_machine_id :: "string option"
  ec_actor_type :: string
  ec_actor_id :: string
  ec_client_timestamp :: timestamp
  ec_payload :: "(string \<times> jval) list"
  ec_schema_version :: int

definition opt_text :: "string option \<Rightarrow> jval" where
  "opt_text v = (case v of None \<Rightarrow> JNull | Some t \<Rightarrow> JText t)"

definition event_row :: "timestamp \<Rightarrow> event_create \<Rightarrow> queued_row" where
  "event_row now ev =
     new_row (ec_event_id ev) now (ec_payload ev)
       [(''event_type'', JText (ec_event_type ev)), (''project_id'', JText (ec_project_id ev)),
        (''task_id'', opt_text (ec_task_id ev)), (''machine_id'', opt_text (ec_machine_id ev)),
        (''actor_type'', JText (ec_actor_type ev)), (''actor_id'', JText (ec_actor_id ev)),
        (''client_timestamp'', JTime (ec_client_timestamp ev)),
        (''schema_version'', JInt (ec_schema_version ev))]"

definition enqueue_event :: "outbox \<Rightarrow> timestamp \<Rightarrow> event_create \<Rightarrow> outbox \<times> bool" where
  "enqueue_event ob now ev = enqueue ob OT_EVENTS (event_row now ev)"

text \<open>\<open>ORDER BY created_at ASC LIMIT ?\<close>; rows of one instant keep their insertion order.\<close>

definition list_pending :: "outbox \<Rightarrow> outbox_table \<Rightarrow> bool \<Rightarrow> timestamp \<Rightarrow> nat \<Rightarrow> queued_row list" where
  "list_pending ob t ready_only now limit =
     take limit (sort_key qr_created_at
       (filter (\<lambda>r. ready_only \<longrightarrow> qr_next_attempt_at r \<le> now) (ob_pending ob t)))"

definition mark_succeeded :: "outbox_table \<Rightarrow> string \<Rightarrow> outbox \<Rightarrow> outbox" where
  "mark_succeeded t i = with_table t (filter (\<lambda>r. qr_id r \<noteq> i))"

text \<open>A delay in seconds, cut to the microsecond as \<open>timedelta\<close> rounds it.\<close>

definition delay_micros :: "rat \<Rightarrow> timestamp" where
  "delay_micros d = round (d * 1000000)"

definition mark_failed ::
  "retry_policy \<Rightarrow> rat \<Rightarrow> timestamp \<Rightarrow> outbox_table \<Rightarrow> string \<Rightarrow> string \<Rightarrow> outbox \<Rightarrow> outbox" where
  "mark_failed policy jitter now t i error =
     with_table t (map (\<lambda>r. if qr_id r = i
       then r\<lparr>qr_attempt_count := qr_attempt_count r + 1,
              qr_next_attempt_at := now + delay_micros (delay_for policy jitter (qr_attempt_count r + 1)),
              qr_last_error := Some error\<rparr>
       else r))"

text \<open>
  The id is the primary key of \<open>dead_letter\<close>: a second insertion raises \<open>IntegrityError\<close>, and the
  transaction rolls back.
\<close>

definition move_to_dead_letter ::
  "timestamp \<Rightarrow> outbox_table \<Rightarrow> string \<Rightarrow> string \<Rightarrow> outbox \<Rightarrow> outbox option" where
  "move_to_dead_letter now t i error ob =
     (case find (\<lambda>r. qr_id r = i) (ob_pending ob t) of
        None \<Rightarrow> Some ob
      | Some r \<Rightarrow>
          if i \<in> dl_id ` set (ob_dead ob) then None
          else Some (mark_succeeded t i (ob\<lparr>ob_dead := ob_dead ob @
            [\<lparr>dl_id = i, dl_source_table = t, dl_row = r, dl_error = error, dl_failed_at = now\<rparr>]\<rparr>)))"

definition get_sync_state :: "outbox \<Rightarrow> string \<Rightarrow> jval option" where
  "get_sync_state ob key = ob_sync_state ob key"

definition set_sync_state :: "string \<Rightarrow> jval \<Rightarrow> outbox \<Rightarrow> outbox" where
  "set_sync_state key value ob = ob\<lparr>ob_sync_state := (ob_sync_state ob)(key \<mapsto> value)\<rparr>"

text \<open>
  \<open>LIKE 'project_access_denied %'\<close>: the underscores match any character and letters match in either
  case. The id is then read with \<open>^project_access_denied project=(\S+):\<close>, whose group is greedy.
\<close>

definition like_char :: "char \<Rightarrow> char \<Rightarrow> bool" where
  "like_char pat c \<longleftrightarrow> pat = CHR 0x5F \<or> upper [pat] = upper [c]"

definition like_denied :: "string \<Rightarrow> bool" where
  "like_denied e \<longleftrightarrow> length (''project_access_denied '') \<le> length e \<and>
     list_all2 like_char ''project_access_denied '' (take (length (''project_access_denied '')) e)"

definition denied_project :: "string \<Rightarrow> string option" where
  "denied_project e =
     (let prefix = ''project_access_denied project='';
          run = takeWhile (\<lambda>c. \<not> py_space c) (drop (length prefix) e);
          group = rev (drop 1 (dropWhile (\<lambda>c. c \<noteq> CHR '':'') (rev run)))
      in if take (length prefix) e = prefix \<and> group \<noteq> [] then Some group else None)"

definition project_access_denied_since :: "outbox \<Rightarrow> timestamp \<Rightarrow> nat \<times> string list" where
  "project_access_denied_since ob since =
     (let rows = sort_key dl_failed_at
            (filter (\<lambda>d. like_denied (dl_error d) \<and> since \<le> dl_failed_at d) (ob_dead ob));
          project = (\<lambda>d. case denied_project (dl_error d) of Some p \<Rightarrow> p | None \<Rightarrow> ''unknown'')
      in (length rows, rev (remdups (rev (map project rows)))))"

subsection \<open>Multipart uploads\<close>

definition save_multipart_upload ::
  "timestamp \<Rightarrow> string \<Rightarrow> string \<Rightarrow> string \<Rightarrow> nat \<Rightarrow> (nat \<Rightarrow> string option) \<Rightarrow> timestamp option
     \<Rightarrow> outbox \<Rightarrow> outbox" where
  "save_multipart_upload now transfer_id upload_id file_path part_size_bytes part_urls expires ob =
     ob\<lparr>ob_uploads := (ob_uploads ob)(transfer_id \<mapsto>
       \<lparr>mu_upload_id = upload_id, mu_file_path = file_path, mu_part_size_bytes = part_size_bytes,
        mu_part_urls = part_urls, mu_completed_parts = (\<lambda>_. None), mu_created_at = now,
        mu_part_urls_expires_at = expires\<rparr>)\<rparr>"

definition update_part_urls ::
  "string \<Rightarrow> (nat \<Rightarrow> string option) \<Rightarrow> timestamp \<Rightarrow> (nat \<Rightarrow> string option) \<Rightarrow> outbox \<Rightarrow> outbox" where
  "update_part_urls transfer_id part_urls expires uploaded_parts ob =
     (case ob_uploads ob transfer_id of
        None \<Rightarrow> ob
      | Some u \<Rightarrow> ob\<lparr>ob_uploads := (ob_uploads ob)(transfer_id \<mapsto>
          u\<lparr>mu_part_urls := mu_part_urls u ++ part_urls,
            mu_completed_parts := mu_completed_parts u ++ uploaded_parts,
            mu_part_urls_expires_at := Some expires\<rparr>)\<rparr>)"

definition record_completed_part :: "string \<Rightarrow> nat \<Rightarrow> string \<Rightarrow> outbox \<Rightarrow> outbox" where
  "record_completed_part transfer_id part_number etag ob =
     (case ob_uploads ob transfer_id of
        None \<Rightarrow> ob
      | Some u \<Rightarrow> ob\<lparr>ob_uploads := (ob_uploads ob)(transfer_id \<mapsto>
          u\<lparr>mu_completed_parts := (mu_completed_parts u)(part_number \<mapsto> etag)\<rparr>)\<rparr>)"

definition get_multipart_upload :: "outbox \<Rightarrow> string \<Rightarrow> upload_row option" where
  "get_multipart_upload ob transfer_id = ob_uploads ob transfer_id"

definition delete_multipart_upload :: "string \<Rightarrow> outbox \<Rightarrow> outbox" where
  "delete_multipart_upload transfer_id ob = ob\<lparr>ob_uploads := (ob_uploads ob)(transfer_id := None)\<rparr>"

subsection \<open>Classifying a refusal\<close>

definition is_project_access_denied :: "api_error \<Rightarrow> bool" where
  "is_project_access_denied e \<longleftrightarrow>
     ae_class e = ForbiddenError \<and> member (ae_details e) ''resource'' = JText ''project''"

definition has_prefix :: "string \<Rightarrow> string \<Rightarrow> bool" where
  "has_prefix prefix s \<longleftrightarrow> take (length prefix) s = prefix"

definition row_path :: "queued_row \<Rightarrow> string" where
  "row_path r = (case member (qr_extra r) ''path'' of JText p \<Rightarrow> p | _ \<Rightarrow> [])"

text \<open>\<open>^/api/v1/vault/notes(?:/|$)\<close>; \<open>$\<close> also matches before a final newline.\<close>

definition is_vault_note_row :: "outbox_table \<Rightarrow> queued_row \<Rightarrow> bool" where
  "is_vault_note_row t r \<longleftrightarrow>
     t = OT_MUTATIONS \<and> has_prefix ''/api/v1/vault/notes'' (row_path r) \<and>
     (let rest = drop 19 (row_path r)
      in rest = [] \<or> rest = [CHR 0x0A] \<or> hd rest = CHR ''/'')"

definition is_vault_version_conflict :: "api_error \<Rightarrow> bool" where
  "is_vault_version_conflict e \<longleftrightarrow>
     ae_class e = ConflictError \<and> ae_error_code e = Some ''version_conflict''"

definition is_vault_secret_rejection :: "api_error \<Rightarrow> bool" where
  "is_vault_secret_rejection e \<longleftrightarrow>
     ae_status_code e = 422 \<and> ae_error_code e = Some ''secret_detected''"

definition hex_or_dash :: "char \<Rightarrow> bool" where
  "hex_or_dash c \<longleftrightarrow> c \<in> set ''0123456789abcdefABCDEF-''"

text \<open>The search for \<open>/projects/([0-9a-fA-F-]{36})(?:/|$|\?)\<close>, leftmost match first.\<close>

definition project_at :: "string \<Rightarrow> string option" where
  "project_at s =
     (let i = take 36 (drop 10 s); rest = drop 46 s
      in if has_prefix ''/projects/'' s \<and> length i = 36 \<and> list_all hex_or_dash i \<and>
            (rest = [] \<or> rest = [CHR 0x0A] \<or> hd rest = CHR ''/'' \<or> hd rest = CHR 0x3F)
         then Some i else None)"

fun project_in_path :: "string \<Rightarrow> string option" where
  "project_in_path [] = None"
| "project_in_path (c # cs) =
     (case project_at (c # cs) of Some i \<Rightarrow> Some i | None \<Rightarrow> project_in_path cs)"

definition row_project_id :: "(jval \<Rightarrow> string) \<Rightarrow> outbox_table \<Rightarrow> queued_row \<Rightarrow> string option" where
  "row_project_id show t r =
     (let extra = member (qr_extra r) ''project_id''; payload = member (qr_payload r) ''project_id'';
          candidate = (if truthy extra then extra else payload)
      in if truthy candidate then Some (py_str show candidate)
         else if t = OT_MUTATIONS then project_in_path (row_path r) else None)"

subsection \<open>A replay pass\<close>

record replay_outcome =
  ro_succeeded :: nat
  ro_dead_lettered :: nat
  ro_stopped_on_transient_error :: bool
  ro_identity_mismatch :: bool
  ro_project_access_denied :: "string list"
  ro_vault_conflicts :: "string list"
  ro_vault_secret_rejections :: "string list"

definition fresh_outcome :: replay_outcome where
  "fresh_outcome = \<lparr>ro_succeeded = 0, ro_dead_lettered = 0, ro_stopped_on_transient_error = False,
     ro_identity_mismatch = False, ro_project_access_denied = [], ro_vault_conflicts = [],
     ro_vault_secret_rejections = []\<rparr>"

text \<open>The reason recorded for a definitive refusal, and the outcome it is counted in.\<close>

definition refusal ::
  "(jval \<Rightarrow> string) \<Rightarrow> outbox_table \<Rightarrow> queued_row \<Rightarrow> api_error \<Rightarrow> replay_outcome \<Rightarrow> string \<times> replay_outcome" where
  "refusal show t r e out =
     (if is_project_access_denied e
      then (let p = (case row_project_id show t r of Some i \<Rightarrow> (if i = [] then ''unknown'' else i)
                     | None \<Rightarrow> ''unknown'')
            in (''project_access_denied project='' @ p @ '': '' @ error_text e,
                if p \<in> set (ro_project_access_denied out) then out
                else out\<lparr>ro_project_access_denied := ro_project_access_denied out @ [p]\<rparr>))
      else if is_vault_note_row t r \<and> is_vault_version_conflict e
      then (''vault_version_conflict note='' @ qr_id r @ '': '' @ error_text e,
            out\<lparr>ro_vault_conflicts := ro_vault_conflicts out @ [qr_id r]\<rparr>)
      else if is_vault_note_row t r \<and> is_vault_secret_rejection e
      then (''vault_secret_detected note='' @ qr_id r @ '': '' @ error_text e,
            out\<lparr>ro_vault_secret_rejections := ro_vault_secret_rejections out @ [qr_id r]\<rparr>)
      else (error_text e, out))"

type_synonym 's sender = "outbox_table \<Rightarrow> queued_row \<Rightarrow> 's \<Rightarrow> 's \<times> (api_error + unit)"

text \<open>A pass ends with its outcome, or with the \<open>IntegrityError\<close> of \<open>dead_letter\<close>.\<close>

datatype pass_result = Pass replay_outcome | Integrity_Error

fun replay_rows ::
  "(jval \<Rightarrow> string) \<Rightarrow> 's sender \<Rightarrow> retry_policy \<Rightarrow> rat \<Rightarrow> timestamp \<Rightarrow> (outbox_table \<times> queued_row) list
     \<Rightarrow> 's \<Rightarrow> outbox \<Rightarrow> replay_outcome \<Rightarrow> ('s \<times> outbox) \<times> pass_result" where
  "replay_rows show send policy jitter now [] s ob out = ((s, ob), Pass out)"
| "replay_rows show send policy jitter now ((t, r) # rest) s ob out =
     (case send t r s of
        (s', Inr _) \<Rightarrow>
          replay_rows show send policy jitter now rest s' (mark_succeeded t (qr_id r) ob)
            (out\<lparr>ro_succeeded := ro_succeeded out + 1\<rparr>)
      | (s', Inl e) \<Rightarrow>
          if is_retryable e
          then ((s', mark_failed policy jitter now t (qr_id r) (error_text e) ob),
                Pass (out\<lparr>ro_stopped_on_transient_error := True\<rparr>))
          else (case refusal show t r e out of
                  (reason, out') \<Rightarrow>
                    (case move_to_dead_letter now t (qr_id r) reason ob of
                       None \<Rightarrow> ((s', ob), Integrity_Error)
                     | Some ob' \<Rightarrow>
                         replay_rows show send policy jitter now rest s' ob'
                           (out'\<lparr>ro_dead_lettered := ro_dead_lettered out' + 1\<rparr>))))"

definition ready_rows :: "outbox \<Rightarrow> timestamp \<Rightarrow> nat \<Rightarrow> (outbox_table \<times> queued_row) list" where
  "ready_rows ob now limit =
     sort_key (\<lambda>(t, r). qr_created_at r)
       (concat (map (\<lambda>t. map (Pair t) (list_pending ob t True now limit)) [OT_EVENTS, OT_MUTATIONS]))"

definition replay_ready ::
  "(jval \<Rightarrow> string) \<Rightarrow> 's sender \<Rightarrow> retry_policy \<Rightarrow> rat \<Rightarrow> timestamp \<Rightarrow> nat \<Rightarrow> identity_binding option
     \<Rightarrow> 's \<Rightarrow> outbox \<Rightarrow> ('s \<times> outbox) \<times> pass_result" where
  "replay_ready show send policy jitter now limit active s ob =
     (case (case active of None \<Rightarrow> Inr () | Some b \<Rightarrow> assert_identity ob b) of
        Inl _ \<Rightarrow> ((s, ob), Pass (fresh_outcome\<lparr>ro_identity_mismatch := True\<rparr>))
      | Inr _ \<Rightarrow> replay_rows show send policy jitter now (ready_rows ob now limit) s ob fresh_outcome)"

text \<open>What a row is sent as.\<close>

definition event_from_row :: "queued_row \<Rightarrow> event_create option" where
  "event_from_row r =
     (let text = (\<lambda>k. case member (qr_extra r) k of JText t \<Rightarrow> Some t | _ \<Rightarrow> None)
      in case (text ''event_type'', text ''project_id'', text ''actor_type'', text ''actor_id'',
               member (qr_extra r) ''client_timestamp'', member (qr_extra r) ''schema_version'') of
           (Some ty, Some p, Some aty, Some ai, JTime ct, JInt v) \<Rightarrow>
             Some \<lparr>ec_event_id = qr_id r, ec_event_type = ty, ec_project_id = p,
               ec_task_id = (case text ''task_id'' of Some [] \<Rightarrow> None | x \<Rightarrow> x),
               ec_machine_id = (case text ''machine_id'' of Some [] \<Rightarrow> None | x \<Rightarrow> x),
               ec_actor_type = aty, ec_actor_id = ai, ec_client_timestamp = ct,
               ec_payload = qr_payload r, ec_schema_version = v\<rparr>
         | _ \<Rightarrow> None)"

end
