(* ===== verification/Outbox_Laws.thy ===== *)
theory Outbox_Laws
  imports Outbox Ordered_Lists
begin

section \<open>What the outbox promises\<close>

text \<open>
  No enqueued work is lost, a pass attempts its ready rows in creation order and resolves each
  before the next, an event is replayed as it was enqueued - and the two ways the order and
  the progress across passes break.
\<close>

subsection \<open>Nothing is lost\<close>

text \<open>A sender that also records what the server acknowledged.\<close>

definition acked :: "'s sender \<Rightarrow> ('s \<times> (outbox_table \<times> string) list) sender" where
  "acked send t r sa =
     (case send t r (fst sa) of
        (s', Inr u) \<Rightarrow> ((s', snd sa @ [(t, qr_id r)]), Inr u)
      | (s', Inl e) \<Rightarrow> ((s', snd sa), Inl e))"

lemma acked_answers:
  "send t r (fst sa) = (s', Inr u) \<Longrightarrow> acked send t r sa = ((s', snd sa @ [(t, qr_id r)]), Inr u)"
  "send t r (fst sa) = (s', Inl e) \<Longrightarrow> acked send t r sa = ((s', snd sa), Inl e)"
  by (simp_all add: acked_def)

lemma acked_grows: "acked send t r sa = (sa', res) \<Longrightarrow> set (snd sa) \<subseteq> set (snd sa')"
  unfolding acked_def by (auto split: prod.split_asm sum.split_asm)

text \<open>
  Histories: work is enqueued, whole passes run, a pass dies after some rows, possibly with the
  next row sent and not yet marked, and the other operations leave the queues alone. \<open>E\<close>
  collects what was ever enqueued.
\<close>

inductive outbox_history ::
  "(jval \<Rightarrow> string) \<Rightarrow> 's sender \<Rightarrow> 's \<Rightarrow> 's \<times> (outbox_table \<times> string) list \<Rightarrow> outbox
     \<Rightarrow> (outbox_table \<times> string) set \<Rightarrow> bool" for txt_of send s0 where
  start: "outbox_history txt_of send s0 (s0, []) empty_outbox {}"
| enqueued: "outbox_history txt_of send s0 sa ob E \<Longrightarrow> enqueue ob t r = (ob', b) \<Longrightarrow>
     outbox_history txt_of send s0 sa ob' (insert (t, qr_id r) E)"
| passed: "outbox_history txt_of send s0 sa ob E \<Longrightarrow>
     replay_ready txt_of (acked send) policy jitter now limit bnd sa ob = ((sa', ob'), res) \<Longrightarrow>
     outbox_history txt_of send s0 sa' ob' E"
| died: "outbox_history txt_of send s0 sa ob E \<Longrightarrow>
     replay_rows txt_of (acked send) policy jitter now (take n (ready_rows ob now limit)) sa ob out
       = ((sa', ob'), res) \<Longrightarrow>
     outbox_history txt_of send s0 sa' ob' E"
| sent_unmarked: "outbox_history txt_of send s0 sa ob E \<Longrightarrow> acked send t r sa = (sa', res) \<Longrightarrow>
     outbox_history txt_of send s0 sa' ob E"
| unrelated: "outbox_history txt_of send s0 sa ob E \<Longrightarrow> ob_pending ob' = ob_pending ob \<Longrightarrow>
     ob_dead ob' = ob_dead ob \<Longrightarrow> outbox_history txt_of send s0 sa ob' E"

definition accounted :: "outbox \<Rightarrow> (outbox_table \<times> string) list \<Rightarrow> outbox_table \<times> string \<Rightarrow> bool" where
  "accounted ob acks x \<longleftrightarrow>
     snd x \<in> qr_id ` set (ob_pending ob (fst x)) \<or> x \<in> set acks \<or>
     x \<in> (\<lambda>d. (dl_source_table d, dl_id d)) ` set (ob_dead ob)"

lemma pending_with_table [simp]:
  "ob_pending (with_table t f ob) t' = (if t' = t then f (ob_pending ob t) else ob_pending ob t')"
  by (simp add: with_table_def)

lemma dead_with_table [simp]: "ob_dead (with_table t f ob) = ob_dead ob"
  by (simp add: with_table_def)

lemma accounted_enqueue:
  assumes "enqueue ob t r = (ob', b)"
  shows "accounted ob acks x \<Longrightarrow> accounted ob' acks x" and "accounted ob' acks (t, qr_id r)"
  using assms by (auto simp: enqueue_def accounted_def split: if_splits)

lemma accounted_succeeded:
  "accounted ob acks x \<Longrightarrow> accounted (mark_succeeded t i ob) (acks @ [(t, i)]) x"
  by (cases x) (auto simp: accounted_def mark_succeeded_def image_iff)

lemma failed_ids: "qr_id ` set (ob_pending (mark_failed policy jitter now t i e ob) t') = qr_id ` set (ob_pending ob t')"
proof -
  have "qr_id ` set (map (\<lambda>r. if qr_id r = i then f r else r) rs) = qr_id ` set rs"
    if "\<And>r. qr_id (f r) = qr_id r" for f :: "queued_row \<Rightarrow> queued_row" and rs
    using that by (induction rs) auto
  then show ?thesis by (simp add: mark_failed_def)
qed

lemma accounted_failed: "accounted (mark_failed policy jitter now t i e ob) acks x = accounted ob acks x"
  by (simp add: accounted_def failed_ids) (simp add: mark_failed_def)

lemma accounted_dead:
  assumes "move_to_dead_letter now t i e ob = Some ob'" and "accounted ob acks x"
  shows "accounted ob' acks x"
  using assms by (cases x)
    (auto simp: move_to_dead_letter_def mark_succeeded_def accounted_def image_iff
      split: option.splits if_splits)

lemma accounted_replay:
  assumes "replay_rows txt_of (acked send) policy jitter now rows sa ob out = ((sa', ob'), res)"
    and "accounted ob (snd sa) x"
  shows "accounted ob' (snd sa') x"
  using assms
proof (induction rows arbitrary: sa ob out)
  case (Cons tr rest)
  obtain t r where tr: "tr = (t, r)" by (cases tr)
  obtain s' answer where sent: "send t r (fst sa) = (s', answer)" by (cases "send t r (fst sa)")
  show ?case
  proof (cases answer)
    case (Inr u)
    with sent have "acked send t r sa = ((s', snd sa @ [(t, qr_id r)]), Inr ())"
      by (simp add: acked_answers)
    with Cons.prems(1) tr have rec: "replay_rows txt_of (acked send) policy jitter now rest
        (s', snd sa @ [(t, qr_id r)]) (mark_succeeded t (qr_id r) ob)
        (out\<lparr>ro_succeeded := ro_succeeded out + 1\<rparr>) = ((sa', ob'), res)"
      by simp
    show ?thesis
      by (rule Cons.IH [OF rec]) (simp add: accounted_succeeded [OF Cons.prems(2)])
  next
    case (Inl e)
    with sent have lost: "acked send t r sa = ((s', snd sa), Inl e)" by (simp add: acked_answers)
    show ?thesis
    proof (cases "is_retryable e")
      case True
      with Cons.prems tr lost show ?thesis by (auto simp: accounted_failed)
    next
      case False
      with Cons.prems tr lost show ?thesis
        by (auto split: prod.split_asm option.split_asm) (metis Cons.IH accounted_dead snd_conv)
    qed
  qed
qed simp

text \<open>Property C28. Offline work is never lost: in every history - passes against any server and any
  network, a client that dies at any point of a pass, work enqueued at any time - each row
  ever enqueued is still pending, was acknowledged by the server, or sits in \<open>dead_letter\<close>.\<close>

theorem outbox_nothing_lost:
  assumes "outbox_history txt_of send s0 sa ob E" and "x \<in> E"
  shows "accounted ob (snd sa) x"
  using assms
proof (induction arbitrary: x)
  case (enqueued sa ob E t r ob' b)
  then show ?case using accounted_enqueue [OF enqueued.hyps(2)] by (cases "x = (t, qr_id r)") auto
next
  case (passed sa ob E policy jitter now limit bnd sa' ob' res)
  then show ?case
    using accounted_replay [of txt_of send policy jitter now "ready_rows ob now limit" sa ob fresh_outcome sa' ob' res]
    by (auto simp: replay_ready_def split: sum.splits)
next
  case (died sa ob E policy jitter now n limit out sa' ob' res)
  then show ?case using accounted_replay by blast
next
  case (sent_unmarked sa ob E t r sa' res)
  then have "set (snd sa) \<subseteq> set (snd sa')" by (blast dest: acked_grows)
  with sent_unmarked.IH [OF sent_unmarked.prems] show ?case by (auto simp: accounted_def)
next
  case (unrelated sa ob E ob')
  then show ?case by (simp add: accounted_def)
qed simp


lemma replay_preserves:
  assumes "replay_rows txt_of send policy jitter now rows s ob out = ((s', ob'), res)" and "P s"
    and "\<And>t r s s' a. P s \<Longrightarrow> send t r s = (s', a) \<Longrightarrow> P s'"
  shows "P s'"
  using assms(1,2)
proof (induction rows arbitrary: s ob out)
  case (Cons tr rest)
  obtain t r where tr: "tr = (t, r)" by (cases tr)
  obtain s1 a where sent: "send t r s = (s1, a)" by (cases "send t r s")
  with assms(3) Cons.prems(2) have "P s1" by blast
  with Cons tr sent show ?case
    by (cases a) (auto split: if_splits prod.split_asm option.split_asm)
qed simp

lemma history_preserves:
  assumes "outbox_history txt_of send s0 sa ob E" and "P (s0, [])"
    and "\<And>t r sa sa' a. P sa \<Longrightarrow> acked send t r sa = (sa', a) \<Longrightarrow> P sa'"
  shows "P sa"
  using assms(1)
proof induction
  case (passed sa ob E policy jitter now limit bnd sa' ob' res)
  then show ?case
    using replay_preserves [of txt_of "acked send" policy jitter now _ sa ob _ sa' ob' res P] assms(3)
    by (auto simp: replay_ready_def split: sum.splits option.splits)
next
  case (died sa ob E policy jitter now n limit out sa' ob' res)
  then show ?case using replay_preserves [of txt_of "acked send" _ _ _ _ sa ob _ sa' ob' res P] assms(3) by blast
next
  case (sent_unmarked sa ob E t r sa' res)
  then show ?case using assms(3) by blast
qed (use assms(2) in auto)

subsection \<open>The order of a pass\<close>

text \<open>A sender that also records each attempt and its answer.\<close>

definition logged :: "'s sender \<Rightarrow> ('s \<times> ((outbox_table \<times> queued_row) \<times> (api_error + unit)) list) sender" where
  "logged send t r sl = (case send t r (fst sl) of (s', a) \<Rightarrow> ((s', snd sl @ [((t, r), a)]), a))"

definition transient :: "api_error + unit \<Rightarrow> bool" where
  "transient a \<longleftrightarrow> (case a of Inl e \<Rightarrow> is_retryable e | Inr _ \<Rightarrow> False)"

lemma transient_simps [simp]: "transient (Inl e) = is_retryable e" "\<not> transient (Inr u)"
  by (simp_all add: transient_def)

lemma logged_pass:
  assumes "replay_rows txt_of (logged send) policy jitter now rows (s, l0) ob out = (((s', l), ob'), res)"
  shows "\<exists>l1. l = l0 @ l1 \<and> map fst l1 = take (length l1) rows \<and>
    (\<forall>a \<in> set (butlast l1). \<not> transient (snd a)) \<and>
    (length l1 < length rows \<longrightarrow> l1 \<noteq> [] \<and> (res \<noteq> Integrity_Error \<longrightarrow> transient (snd (last l1))))"
  using assms
proof (induction rows arbitrary: s l0 ob out)
  case (Cons tr rest)
  obtain t r where tr: "tr = (t, r)" by (cases tr)
  obtain s1 a where sent: "send t r s = (s1, a)" by (cases "send t r s")
  have grow: ?case
    if "replay_rows txt_of (logged send) policy jitter now rest (s1, l0 @ [((t, r), a)]) ob1 out1
          = (((s', l), ob'), res)" and "\<not> transient a" for ob1 out1
  proof -
    from Cons.IH [OF that(1)] obtain l1 where l1: "l = (l0 @ [((t, r), a)]) @ l1"
      "map fst l1 = take (length l1) rest" "\<forall>a \<in> set (butlast l1). \<not> transient (snd a)"
      "length l1 < length rest \<longrightarrow> l1 \<noteq> [] \<and> (res \<noteq> Integrity_Error \<longrightarrow> transient (snd (last l1)))"
      by auto
    then show ?thesis using that(2) tr by (intro exI [of _ "((t, r), a) # l1"]) (auto split: if_splits)
  qed
  have sent': "logged send t r (s, l0) = ((s1, l0 @ [((t, r), a)]), a)"
    using sent by (simp add: logged_def)
  show ?case
  proof (cases a)
    case (Inr u)
    with Cons.prems tr sent' have rec: "replay_rows txt_of (logged send) policy jitter now rest
        (s1, l0 @ [((t, r), a)]) (mark_succeeded t (qr_id r) ob) (out\<lparr>ro_succeeded := ro_succeeded out + 1\<rparr>)
        = (((s', l), ob'), res)"
      by simp
    show ?thesis by (rule grow [OF rec]) (simp add: Inr)
  next
    case (Inl e)
    have stop: ?thesis if "l = l0 @ [((t, r), a)]" and "transient a \<or> res = Integrity_Error"
      using that tr by (intro exI [of _ "[((t, r), a)]"]) auto
    have again: ?thesis
      if "replay_rows txt_of (logged send) policy jitter now rest (s1, l0 @ [((t, r), Inl e)]) ob1 out1
            = (((s', l), ob'), res)" and "\<not> is_retryable e" for ob1 out1
      by (rule grow [of ob1 out1]) (use that Inl in simp_all)
    from Cons.prems tr sent' Inl show ?thesis
      by (simp split: if_splits prod.split_asm option.split_asm)
        (use stop again Inl in \<open>auto simp del: ex_simps\<close>)
  qed
qed simp

lemma ready_rows_sorted: "sorted (map (\<lambda>(t, r). qr_created_at r) (ready_rows ob now limit))"
  by (simp add: ready_rows_def)

text \<open>A replay pass never skips ahead: the rows it attempts are, in this order, an initial
  part of its ready rows sorted by creation time; every attempt but the last was resolved - accepted,
  or refused for good - before the next was made; and a pass that leaves ready rows unattempted
  stopped on a transient failure or on the integrity error of \<open>dead_letter\<close>.\<close>

theorem replay_never_skips:
  assumes "replay_ready txt_of (logged send) policy jitter now limit bnd (s, []) ob = (((s', attempts), ob'), res)"
    and "res \<noteq> Pass (fresh_outcome\<lparr>ro_identity_mismatch := True\<rparr>)"
  shows "map fst attempts = take (length attempts) (ready_rows ob now limit)
    \<and> sorted (map (\<lambda>((t, r), a). qr_created_at r) attempts)
    \<and> (\<forall>a \<in> set (butlast attempts). \<not> transient (snd a))
    \<and> (length attempts < length (ready_rows ob now limit) \<longrightarrow>
         attempts \<noteq> [] \<and> (res = Integrity_Error \<or> transient (snd (last attempts))))"
proof -
  from assms have run: "replay_rows txt_of (logged send) policy jitter now (ready_rows ob now limit) (s, []) ob
      fresh_outcome = (((s', attempts), ob'), res)"
    by (auto simp: replay_ready_def split: sum.splits)
  from logged_pass [OF run] have l: "map fst attempts = take (length attempts) (ready_rows ob now limit)"
    "\<forall>a \<in> set (butlast attempts). \<not> transient (snd a)"
    "length attempts < length (ready_rows ob now limit) \<longrightarrow>
       attempts \<noteq> [] \<and> (res \<noteq> Integrity_Error \<longrightarrow> transient (snd (last attempts)))"
    by auto
  have "map (\<lambda>((t, r), a). qr_created_at r) attempts
      = take (length attempts) (map (\<lambda>(t, r). qr_created_at r) (ready_rows ob now limit))"
    using arg_cong [OF l(1), of "map (\<lambda>(t, r). qr_created_at r)"]
    by (simp add: comp_def case_prod_unfold take_map)
  then have "sorted (map (\<lambda>((t, r), a). qr_created_at r) attempts)"
    using sorted_wrt_take [OF ready_rows_sorted] by simp
  with l show ?thesis by blast
qed

subsection \<open>Two ways the queue breaks\<close>

lemma ready_row_pending:
  assumes "(t, r) \<in> set (ready_rows ob now limit)"
  shows "r \<in> set (ob_pending ob t)"
proof -
  have "set (list_pending ob t True now limit) \<subseteq> set (ob_pending ob t)" for t
    unfolding list_pending_def using set_take_subset by fastforce
  with assms show ?thesis by (auto simp: ready_rows_def)
qed

text \<open>The primary key of \<open>dead_letter\<close> stops the queue for good: when the oldest ready row
  carries an id that is dead-lettered already and the server refuses it definitively, the pass
  ends with SQLite's integrity error, which is no \<open>StudioApiError\<close>, and leaves the queue exactly as
  it was - the next pass meets the same row, and no younger row is ever sent.\<close>

theorem dead_letter_blocks_queue:
  assumes "ready_rows ob now limit = (t, r) # rest" and "qr_id r \<in> dl_id ` set (ob_dead ob)"
    and "send t r s = (s', Inl e)" and "\<not> is_retryable e"
  shows "replay_ready txt_of send policy jitter now limit None s ob = ((s', ob), Integrity_Error)"
proof -
  have "r \<in> set (ob_pending ob t)" using ready_row_pending [of t r ob now limit] assms(1) by simp
  then have "find (\<lambda>x. qr_id x = qr_id r) (ob_pending ob t) \<noteq> None" by (auto simp: find_None_iff)
  then show ?thesis
    using assms by (auto simp: replay_ready_def move_to_dead_letter_def split: prod.split option.split)
qed

text \<open>A queue of two mutations, the second a second younger, and a server that is unreachable once.\<close>

definition two_rows :: outbox where
  "two_rows = fst (enqueue_mutation (fst (enqueue_mutation empty_outbox 0 ''a'' ''note'' ''POST'' ''/x'' []))
     (seconds 1) ''b'' ''note'' ''POST'' ''/x'' [])"

definition unreachable_once :: "nat sender" where
  "unreachable_once t r n = (Suc n, if n = 0 then Inl (transport_error ''down'') else Inr ())"

definition default_policy :: retry_policy where
  "default_policy = \<lparr>rp_max_attempts = 3, rp_backoff_initial = 1 / 2, rp_backoff_max = 20\<rparr>"

definition attempted_ids :: "(('a \<times> ((outbox_table \<times> queued_row) \<times> 'b) list) \<times> outbox) \<times> pass_result \<Rightarrow> string list" where
  "attempted_ids run = map (\<lambda>((t, r), _). qr_id r) (snd (fst (fst run)))"

lemmas pass_simps = Let_def enqueue_mutation_def enqueue_def new_row_def empty_outbox_def with_table_def
  replay_ready_def ready_rows_def list_pending_def logged_def transport_error_def is_retryable_def
  mark_failed_def mark_succeeded_def move_to_dead_letter_def delay_micros_def delay_for_def
  default_policy_def seconds_def fresh_outcome_def

text \<open>Across passes a younger row overtakes an older one that has not landed: the first pass
  fails on \<open>a\<close> and stops, \<open>a\<close> is rescheduled by its backoff, and a pass started before that - the
  daemon's drain when it stops - finds only the younger \<open>b\<close> ready and sends it, while \<open>a\<close> is still
  pending. The docstring of \<open>OutboxReplayer\<close> states the opposite.\<close>

theorem outbox_overtakes:
  "let first = replay_ready (\<lambda>_. []) (logged unreachable_once) default_policy 1 (seconds 2) 100 None (0, []) two_rows;
       ob = snd (fst first);
       second = replay_ready (\<lambda>_. []) (logged unreachable_once) default_policy 1 (seconds 2 + 1) 100 None (1, []) ob
   in attempted_ids first = [''a''] \<and> attempted_ids second = [''b''] \<and>
      map qr_id (ob_pending (snd (fst second)) OT_MUTATIONS) = [''a'']"
  by (simp add: pass_simps two_rows_def unreachable_once_def attempted_ids_def)

subsection \<open>Replaying an event\<close>

lemma event_of_row:
  assumes "ec_task_id ev \<noteq> Some []" and "ec_machine_id ev \<noteq> Some []"
  shows "event_from_row (event_row now ev) = Some ev"
proof -
  have text_back: "(case opt_text v of JText t \<Rightarrow> Some t | _ \<Rightarrow> None) = v" for v
    by (simp add: opt_text_def split: option.split)
  have nonempty: "(case v of Some [] \<Rightarrow> None | x \<Rightarrow> x) = v" if "v \<noteq> Some []" for v :: "string option"
    using that by (simp split: option.split list.split)
  show ?thesis
    by (simp add: event_from_row_def event_row_def new_row_def member_def text_back nonempty assms)
qed

text \<open>An event survives the queue: enqueued under a fresh id it is stored as one row, and what a
  pass later sends from that row is the event itself, whatever its payload and optional fields.
  (Ids are the texts of UUIDs, hence never empty.)\<close>

theorem event_roundtrip:
  assumes "ec_event_id ev \<notin> qr_id ` set (ob_pending ob OT_EVENTS)"
    and "ec_task_id ev \<noteq> Some []" and "ec_machine_id ev \<noteq> Some []"
  shows "enqueue_event ob now ev = (with_table OT_EVENTS (\<lambda>rs. rs @ [event_row now ev]) ob, True)
    \<and> event_from_row (event_row now ev) = Some ev"
  using assms by (simp add: event_of_row enqueue_event_def enqueue_def) (simp add: event_row_def new_row_def)

subsection \<open>The properties at work\<close>

lemma two_rows_history:
  "\<exists>E. outbox_history txt_of send s0 (s0, []) two_rows E \<and> (OT_MUTATIONS, ''a'') \<in> E"
proof -
  obtain ob1 b1 where q1: "enqueue_mutation empty_outbox 0 ''a'' ''note'' ''POST'' ''/x'' [] = (ob1, b1)"
    by (cases "enqueue_mutation empty_outbox 0 ''a'' ''note'' ''POST'' ''/x'' []")
  obtain ob2 b2 where q2: "enqueue_mutation ob1 (seconds 1) ''b'' ''note'' ''POST'' ''/x'' [] = (ob2, b2)"
    by (cases "enqueue_mutation ob1 (seconds 1) ''b'' ''note'' ''POST'' ''/x'' []")
  have "outbox_history txt_of send s0 (s0, []) ob2 (insert (OT_MUTATIONS, ''b'') (insert (OT_MUTATIONS, ''a'') {}))"
    using outbox_history.enqueued [OF outbox_history.enqueued [OF outbox_history.start
        q1 [unfolded enqueue_mutation_def]] q2 [unfolded enqueue_mutation_def], of txt_of send s0]
    by (simp add: new_row_def)
  then show ?thesis using q1 q2 by (auto simp: two_rows_def)
qed

lemma outbox_nothing_lost_witness:
  "\<exists>E. outbox_history (\<lambda>_. []) unreachable_once 0 (0, []) two_rows E \<and> (OT_MUTATIONS, ''a'') \<in> E \<and>
     accounted two_rows [] (OT_MUTATIONS, ''a'')"
proof -
  obtain E where E: "outbox_history (\<lambda>_. []) unreachable_once 0 (0, []) two_rows E" "(OT_MUTATIONS, ''a'') \<in> E"
    using two_rows_history [of "\<lambda>_. []" unreachable_once 0] by blast
  from outbox_nothing_lost [OF E] E show ?thesis by (intro exI [of _ E] conjI) simp_all
qed

lemma replay_never_skips_witness:
  "\<exists>attempts. map fst attempts = take 1 (ready_rows two_rows (seconds 2) 100) \<and>
     transient (snd (last attempts)) \<and> length (ready_rows two_rows (seconds 2) 100) = 2"
proof -
  have n: "length (ready_rows two_rows (seconds 2) 100) = 2" by (simp add: pass_simps two_rows_def)
  obtain ob' where run: "replay_ready (\<lambda>_. []) (logged unreachable_once) default_policy 1 (seconds 2) 100 None
      (0, []) two_rows = (((1, [(hd (ready_rows two_rows (seconds 2) 100), Inl (transport_error ''down''))]), ob'),
        Pass (fresh_outcome\<lparr>ro_stopped_on_transient_error := True\<rparr>))"
    by (simp add: pass_simps two_rows_def unreachable_once_def)
  from replay_never_skips [OF run] n show ?thesis
    by (intro exI [of _ "[(hd (ready_rows two_rows (seconds 2) 100), Inl (transport_error ''down''))]"])
      (simp add: fresh_outcome_def)
qed

text \<open>The row \<open>a\<close> again, after it was refused for good and enqueued a second time.\<close>

definition refused :: api_error where
  "refused = \<lparr>ae_class = StudioApiError, ae_status_code = 422, ae_error_code = None, ae_message = ''no'', ae_details = []\<rparr>"

definition blocked :: outbox where
  "blocked = fst (enqueue_mutation (snd (fst (replay_ready (\<lambda>_. []) (\<lambda>t r s. (s, Inl refused)) default_policy 1
      (seconds 2) 100 None () (fst (enqueue_mutation empty_outbox 0 ''a'' ''note'' ''POST'' ''/x'' [])))))
    (seconds 3) ''a'' ''note'' ''POST'' ''/x'' [])"

lemma dead_letter_blocks_queue_witness:
  "replay_ready (\<lambda>_. []) (\<lambda>t r s. (s, Inl refused)) default_policy 1 (seconds 4) 100 None () blocked
     = (((), blocked), Integrity_Error)"
proof -
  have ready: "ready_rows blocked (seconds 4) 100
      = [(OT_MUTATIONS, new_row ''a'' (seconds 3) []
          [(''kind'', JText ''note''), (''method'', JText ''POST''), (''path'', JText ''/x'')])]"
    by (simp add: blocked_def pass_simps refused_def refusal_def is_project_access_denied_def is_vault_note_row_def
        is_vault_version_conflict_def is_vault_secret_rejection_def)
  have dead: "qr_id (new_row ''a'' (seconds 3) []
      [(''kind'', JText ''note''), (''method'', JText ''POST''), (''path'', JText ''/x'')]) \<in> dl_id ` set (ob_dead blocked)"
    by (simp add: blocked_def pass_simps refused_def refusal_def is_project_access_denied_def is_vault_note_row_def
        is_vault_version_conflict_def is_vault_secret_rejection_def)
  show ?thesis
    by (rule dead_letter_blocks_queue [OF ready dead, of _ _ _ refused])
      (simp_all add: refused_def is_retryable_def)
qed

lemma event_roundtrip_witness:
  "event_from_row (event_row 5 \<lparr>ec_event_id = ''e'', ec_event_type = ''task.created'', ec_project_id = ''p'',
      ec_task_id = None, ec_machine_id = Some ''m'', ec_actor_type = ''agent'', ec_actor_id = ''a'',
      ec_client_timestamp = 4, ec_payload = [(''n'', JInt 1)], ec_schema_version = 1\<rparr>)
    = Some \<lparr>ec_event_id = ''e'', ec_event_type = ''task.created'', ec_project_id = ''p'',
      ec_task_id = None, ec_machine_id = Some ''m'', ec_actor_type = ''agent'', ec_actor_id = ''a'',
      ec_client_timestamp = 4, ec_payload = [(''n'', JInt 1)], ec_schema_version = 1\<rparr>"
  using event_roundtrip [of _ empty_outbox 5] by (simp add: empty_outbox_def)

end
