(* ===== verification/Idempotency.thy ===== *)
theory Idempotency
  imports Studio_Prelude
begin

section \<open>Idempotent creation (\<open>services/idempotency.py\<close>)\<close>

text \<open>
  A replayable \<open>POST\<close> reserves its pair (idempotency key, endpoint) in the table before the
  business creation runs, and a later request with the same pair answers the stored response.
  Every database round trip is one atomic step: the unique constraint arbitrates \<open>_reserve\<close>
  and the \<open>WHERE\<close> clause of the update arbitrates \<open>_reclaim_if_abandoned\<close>. The table is a map
  from the pair, which is the unique constraint. The first part has the steps and the request
  as one uninterrupted caller runs it; the second lets any number of callers interleave their
  steps, crash, and be slow. The digest of the body is a parameter of a request.
\<close>

subsection \<open>The table and its steps\<close>

type_synonym idem_key = "string \<times> string"

datatype idem_status = Idem_PENDING | Idem_COMPLETED

record idem_row =
  ik_request_hash :: string
  ik_status :: idem_status
  ik_response_status :: "nat option"
  ik_response_body :: "jval option"
  ik_created_at :: timestamp

type_synonym idem_table = "idem_key \<Rightarrow> idem_row option"

definition PENDING_RECLAIM :: timestamp where
  "PENDING_RECLAIM = seconds 30"

text \<open>
  The loop adds \<open>0.05\<close> to a double from \<open>0.0\<close> while it is below \<open>5.0\<close>: rounding leaves the
  hundredth sum just below the bound, so the loop reads 101 times.
\<close>

definition POLL_ROUNDS :: nat where
  "POLL_ROUNDS = 101"

definition key_in_progress :: http_error where
  "key_in_progress = HTTPException 409 (JObj [(''error_code'', JText ''idempotency_key_in_progress'')])"

definition reject_payload_mismatch :: http_error where
  "reject_payload_mismatch =
     HTTPException 409 (JObj [(''error_code'', JText ''idempotency_key_payload_mismatch'')])"

definition pending_row :: "string \<Rightarrow> timestamp \<Rightarrow> idem_row" where
  "pending_row h now =
     \<lparr>ik_request_hash = h, ik_status = Idem_PENDING, ik_response_status = None,
      ik_response_body = None, ik_created_at = now\<rparr>"

definition reserve :: "idem_table \<Rightarrow> idem_key \<Rightarrow> string \<Rightarrow> timestamp \<Rightarrow> idem_table \<times> bool" where
  "reserve t k h now =
     (case t k of None \<Rightarrow> (t(k \<mapsto> pending_row h now), True) | Some r \<Rightarrow> (t, False))"

definition reclaim_if_abandoned :: "idem_table \<Rightarrow> idem_key \<Rightarrow> string \<Rightarrow> timestamp \<Rightarrow> idem_table \<times> bool" where
  "reclaim_if_abandoned t k h now =
     (case t k of
        None \<Rightarrow> (t, False)
      | Some r \<Rightarrow>
          if ik_status r = Idem_PENDING \<and> ik_created_at r < now - PENDING_RECLAIM
          then (t(k \<mapsto> r\<lparr>ik_request_hash := h, ik_created_at := now\<rparr>), True)
          else (t, False))"

definition completed_row :: "idem_table \<Rightarrow> idem_key \<Rightarrow> idem_row option" where
  "completed_row t k =
     (case t k of None \<Rightarrow> None | Some r \<Rightarrow> if ik_status r = Idem_COMPLETED then Some r else None)"

definition complete :: "idem_table \<Rightarrow> idem_key \<Rightarrow> nat \<Rightarrow> jval \<Rightarrow> idem_table" where
  "complete t k response_status body =
     (case t k of
        None \<Rightarrow> t
      | Some r \<Rightarrow> t(k \<mapsto> r\<lparr>ik_status := Idem_COMPLETED, ik_response_status := Some response_status,
          ik_response_body := Some body\<rparr>))"

definition removable :: "idem_table \<Rightarrow> idem_key \<Rightarrow> bool" where
  "removable t k = (case t k of None \<Rightarrow> False | Some r \<Rightarrow> ik_status r = Idem_PENDING)"

definition release :: "idem_table \<Rightarrow> idem_key \<Rightarrow> idem_table" where
  "release t k = (if removable t k then t(k := None) else t)"

definition replay_response :: "idem_row \<Rightarrow> string \<Rightarrow> jval fallible" where
  "replay_response r h =
     and_then (raise_if (ik_request_hash r \<noteq> h) reject_payload_mismatch)
       (Inr (case ik_response_body r of Some b \<Rightarrow> b | None \<Rightarrow> JNull))"

text \<open>A waiting caller sees the table \<open>seen i\<close> at its \<open>i\<close>-th read.\<close>

fun await_completion :: "(nat \<Rightarrow> idem_table) \<Rightarrow> idem_key \<Rightarrow> nat \<Rightarrow> nat \<Rightarrow> idem_row fallible" where
  "await_completion seen k i 0 = Inl key_in_progress"
| "await_completion seen k i (Suc rounds) =
     (case completed_row (seen i) k of
        Some r \<Rightarrow> Inr r
      | None \<Rightarrow> await_completion seen k (Suc i) rounds)"

definition resolve_existing :: "(nat \<Rightarrow> idem_table) \<Rightarrow> idem_key \<Rightarrow> idem_row fallible" where
  "resolve_existing seen k =
     (case completed_row (seen 0) k of
        Some r \<Rightarrow> Inr r
      | None \<Rightarrow> await_completion seen k 1 POLL_ROUNDS)"

definition run_idempotent_dict ::
  "idem_table \<Rightarrow> 's \<Rightarrow> timestamp \<Rightarrow> (nat \<Rightarrow> idem_table) \<Rightarrow> string option \<Rightarrow> string \<Rightarrow> string
     \<Rightarrow> ('s \<Rightarrow> ('s, jval) outcome) \<Rightarrow> nat \<Rightarrow> (idem_table \<times> 's, jval) outcome" where
  "run_idempotent_dict t s now seen idempotency_key endpoint request_hash create response_status =
     (case idempotency_key of
        None \<Rightarrow> (case create s of (s', r) \<Rightarrow> ((t, s'), r))
      | Some key \<Rightarrow>
          (let k = (key, endpoint);
               (t1, reserved) = reserve t k request_hash now;
               (t2, won) = (if reserved then (t1, True) else reclaim_if_abandoned t1 k request_hash now)
           in if won
              then (case create s of
                      (s', Inl e) \<Rightarrow> ((release t2 k, s'), Inl e)
                    | (s', Inr result) \<Rightarrow> ((complete t2 k response_status result, s'), Inr result))
              else ((t2, s), and_get (resolve_existing seen k) (\<lambda>r. replay_response r request_hash))))"

text \<open>The HTTP wrapper: the digest, the dump and the validation of the models are parameters.\<close>

definition run_idempotent ::
  "('b \<Rightarrow> string) \<Rightarrow> ('m \<Rightarrow> jval) \<Rightarrow> (jval \<Rightarrow> 'm fallible) \<Rightarrow> idem_table \<Rightarrow> 's \<Rightarrow> timestamp
     \<Rightarrow> (nat \<Rightarrow> idem_table) \<Rightarrow> 'b \<Rightarrow> string option \<Rightarrow> string \<Rightarrow> ('s \<Rightarrow> ('s, 'm) outcome) \<Rightarrow> nat
     \<Rightarrow> (idem_table \<times> 's, 'm) outcome" where
  "run_idempotent hash_request dump validate t s now seen body idempotency_key endpoint create status_code =
     (case idempotency_key of
        None \<Rightarrow> (case create s of (s', r) \<Rightarrow> ((t, s'), r))
      | Some key \<Rightarrow>
          (case run_idempotent_dict t s now seen (Some key) endpoint (hash_request body)
                  (\<lambda>s. case create s of (s', Inl e) \<Rightarrow> (s', Inl e) | (s', Inr m) \<Rightarrow> (s', Inr (dump m)))
                  status_code of
             (st, Inl e) \<Rightarrow> (st, Inl e)
           | (st, Inr dumped) \<Rightarrow> (st, validate dumped)))"

subsection \<open>Concurrent callers\<close>

text \<open>
  A caller is known by a number, and \<open>idem_step reqs c\<close> is one step of caller \<open>c\<close>; \<open>reqs\<close> gives its request. \<open>iw_table\<close> and \<open>iw_now\<close> are the
  database and the clock, \<open>iw_pc\<close> says where each caller stands, \<open>iw_created\<close> is the business
  table: which caller's creation took effect, with which body. \<open>iw_reserved\<close>, \<open>iw_reclaimed\<close>,
  \<open>iw_failed\<close> and \<open>iw_released\<close> record history only.
\<close>

record idem_request =
  ir_key :: idem_key
  ir_hash :: string
  ir_status :: nat

datatype idem_pc =
    At_Reserve
  | At_Reclaim
  | At_Poll nat
  | At_Create
  | At_Complete jval
  | At_Release http_error
  | Answered "jval fallible"
  | Crashed

record idem_world =
  iw_table :: idem_table
  iw_now :: timestamp
  iw_pc :: "nat \<Rightarrow> idem_pc"
  iw_created :: "nat \<Rightarrow> jval option"
  iw_reserved :: "nat set"
  iw_reclaimed :: "nat set"
  iw_failed :: "nat set"
  iw_released :: "nat set"

definition moved :: "nat \<Rightarrow> idem_pc \<Rightarrow> idem_world \<Rightarrow> idem_world" where
  "moved c pc w = w\<lparr>iw_pc := (iw_pc w)(c := pc)\<rparr>"

definition polled :: "idem_request \<Rightarrow> nat \<Rightarrow> idem_table \<Rightarrow> idem_pc" where
  "polled q n t =
     (case completed_row t (ir_key q) of
        Some r \<Rightarrow> Answered (replay_response r (ir_hash q))
      | None \<Rightarrow> if n < POLL_ROUNDS then At_Poll (Suc n) else Answered (Inl key_in_progress))"

inductive idem_step :: "(nat \<Rightarrow> idem_request) \<Rightarrow> nat \<Rightarrow> idem_world \<Rightarrow> idem_world \<Rightarrow> bool" for reqs c where
  tick: "0 \<le> dt \<Longrightarrow> idem_step reqs c w (w\<lparr>iw_now := iw_now w + dt\<rparr>)"
| reserve_won: "iw_pc w c = At_Reserve \<Longrightarrow>
     reserve (iw_table w) (ir_key (reqs c)) (ir_hash (reqs c)) (iw_now w) = (t, True) \<Longrightarrow>
     idem_step reqs c w (moved c At_Create w\<lparr>iw_table := t, iw_reserved := insert c (iw_reserved w)\<rparr>)"
| reserve_lost: "iw_pc w c = At_Reserve \<Longrightarrow>
     reserve (iw_table w) (ir_key (reqs c)) (ir_hash (reqs c)) (iw_now w) = (t, False) \<Longrightarrow>
     idem_step reqs c w (moved c At_Reclaim w\<lparr>iw_table := t\<rparr>)"
| reclaim_won: "iw_pc w c = At_Reclaim \<Longrightarrow>
     reclaim_if_abandoned (iw_table w) (ir_key (reqs c)) (ir_hash (reqs c)) (iw_now w) = (t, True) \<Longrightarrow>
     idem_step reqs c w (moved c At_Create w\<lparr>iw_table := t, iw_reclaimed := insert c (iw_reclaimed w)\<rparr>)"
| reclaim_lost: "iw_pc w c = At_Reclaim \<Longrightarrow>
     reclaim_if_abandoned (iw_table w) (ir_key (reqs c)) (ir_hash (reqs c)) (iw_now w) = (t, False) \<Longrightarrow>
     idem_step reqs c w (moved c (At_Poll 0) w\<lparr>iw_table := t\<rparr>)"
| poll: "iw_pc w c = At_Poll n \<Longrightarrow>
     idem_step reqs c w (moved c (polled (reqs c) n (iw_table w)) w)"
| create_ok: "iw_pc w c = At_Create \<Longrightarrow>
     idem_step reqs c w (moved c (At_Complete b) w\<lparr>iw_created := (iw_created w)(c \<mapsto> b)\<rparr>)"
| create_failed: "iw_pc w c = At_Create \<Longrightarrow>
     idem_step reqs c w (moved c (At_Release e) w\<lparr>iw_failed := insert c (iw_failed w)\<rparr>)"
| complete: "iw_pc w c = At_Complete b \<Longrightarrow>
     idem_step reqs c w (moved c (Answered (Inr b)) w
       \<lparr>iw_table := complete (iw_table w) (ir_key (reqs c)) (ir_status (reqs c)) b\<rparr>)"
| release: "iw_pc w c = At_Release e \<Longrightarrow>
     idem_step reqs c w (moved c (Answered (Inl e)) w
       \<lparr>iw_table := release (iw_table w) (ir_key (reqs c)),
        iw_released := (if removable (iw_table w) (ir_key (reqs c))
          then insert c (iw_released w) else iw_released w)\<rparr>)"
| crash: "(\<forall>r. iw_pc w c \<noteq> Answered r) \<Longrightarrow> idem_step reqs c w (moved c Crashed w)"

definition idem_start :: "timestamp \<Rightarrow> idem_world" where
  "idem_start now =
     \<lparr>iw_table = (\<lambda>_. None), iw_now = now, iw_pc = (\<lambda>_. At_Reserve), iw_created = (\<lambda>_. None),
      iw_reserved = {}, iw_reclaimed = {}, iw_failed = {}, iw_released = {}\<rparr>"

definition idem_reachable :: "(nat \<Rightarrow> idem_request) \<Rightarrow> idem_world \<Rightarrow> bool" where
  "idem_reachable reqs w \<longleftrightarrow> (\<exists>now. (\<lambda>v v'. \<exists>c. idem_step reqs c v v')\<^sup>*\<^sup>* (idem_start now) w)"

definition callers_of :: "(nat \<Rightarrow> idem_request) \<Rightarrow> idem_key \<Rightarrow> nat set" where
  "callers_of reqs k = {c. ir_key (reqs c) = k}"

subsection \<open>At most one creation per reservation\<close>

lemma reserve_cases:
  "reserve t k h now = (t', won) \<longleftrightarrow>
     (t k = None \<and> won \<and> t' = t(k \<mapsto> pending_row h now)) \<or> (t k \<noteq> None \<and> \<not> won \<and> t' = t)"
  by (auto simp: reserve_def split: option.splits)

lemma reclaim_lost_keeps: "reclaim_if_abandoned t k h now = (t', False) \<Longrightarrow> t' = t"
  by (auto simp: reclaim_if_abandoned_def split: option.splits if_splits)

lemma reclaim_won_row:
  assumes "reclaim_if_abandoned t k h now = (t', True)"
  shows "\<exists>r. t k = Some r \<and> ik_status r = Idem_PENDING \<and> ik_created_at r < now - PENDING_RECLAIM \<and>
    t' = t(k \<mapsto> r\<lparr>ik_request_hash := h, ik_created_at := now\<rparr>)"
  using assms by (auto simp: reclaim_if_abandoned_def split: option.splits if_splits)

text \<open>What the history says of a caller, by where it stands.\<close>

fun pc_ok :: "bool \<Rightarrow> bool \<Rightarrow> bool \<Rightarrow> jval option \<Rightarrow> idem_pc \<Rightarrow> bool" where
  "pc_ok won failed released created At_Create \<longleftrightarrow> won \<and> \<not> failed \<and> created = None"
| "pc_ok won failed released created (At_Complete b) \<longleftrightarrow> created = Some b"
| "pc_ok won failed released created (At_Release e) \<longleftrightarrow> failed \<and> \<not> released"
| "pc_ok won failed released created (Answered r) \<longleftrightarrow> True"
| "pc_ok won failed released created Crashed \<longleftrightarrow> True"
| "pc_ok won failed released created pc \<longleftrightarrow> \<not> won"

definition own_ok :: "idem_world \<Rightarrow> nat \<Rightarrow> bool" where
  "own_ok w c \<longleftrightarrow>
     pc_ok (c \<in> iw_reserved w \<or> c \<in> iw_reclaimed w) (c \<in> iw_failed w) (c \<in> iw_released w)
       (iw_created w c) (iw_pc w c) \<and>
     (c \<in> iw_released w \<longrightarrow> c \<in> iw_failed w) \<and>
     (c \<in> iw_failed w \<or> iw_created w c \<noteq> None \<longrightarrow> c \<in> iw_reserved w \<or> c \<in> iw_reclaimed w) \<and>
     (c \<in> iw_failed w \<longrightarrow> iw_created w c = None)"

definition books :: "idem_world \<Rightarrow> bool" where
  "books w \<longleftrightarrow> (\<forall>c. own_ok w c) \<and> finite (iw_reserved w) \<and> finite (iw_reclaimed w)"

definition same_caller :: "idem_world \<Rightarrow> idem_world \<Rightarrow> nat \<Rightarrow> bool" where
  "same_caller w w' d \<longleftrightarrow>
     (d \<in> iw_reserved w' \<longleftrightarrow> d \<in> iw_reserved w) \<and> (d \<in> iw_reclaimed w' \<longleftrightarrow> d \<in> iw_reclaimed w) \<and>
     (d \<in> iw_failed w' \<longleftrightarrow> d \<in> iw_failed w) \<and> (d \<in> iw_released w' \<longleftrightarrow> d \<in> iw_released w) \<and>
     iw_created w' d = iw_created w d \<and> iw_pc w' d = iw_pc w d"

lemma own_ok_same: "same_caller w w' d \<Longrightarrow> own_ok w d \<Longrightarrow> own_ok w' d"
  by (simp add: same_caller_def own_ok_def)

lemma books_intro:
  assumes "books w" and "\<And>d. d \<noteq> c \<Longrightarrow> same_caller w w' d" and "own_ok w' c"
    and "finite (iw_reserved w')" and "finite (iw_reclaimed w')"
  shows "books w'"
  using assms own_ok_same unfolding books_def by metis

definition reservations_match :: "(nat \<Rightarrow> idem_request) \<Rightarrow> idem_key \<Rightarrow> idem_world \<Rightarrow> bool" where
  "reservations_match reqs k w \<longleftrightarrow>
     card (iw_reserved w \<inter> callers_of reqs k)
       = card (iw_released w \<inter> callers_of reqs k) + (if iw_table w k = None then 0 else 1)"

lemma polled_ok: "pc_ok False f r x (polled q n t)"
  by (auto simp: polled_def split: option.split)

lemma books_step:
  assumes step: "idem_step reqs c w w'" and "books w"
  shows "books w'"
proof (rule books_intro [OF assms(2)])
  show "same_caller w w' d" if "d \<noteq> c" for d
    using step that by (cases rule: idem_step.cases) (simp_all add: same_caller_def moved_def)
  have "own_ok w c" using assms(2) by (simp add: books_def)
  with step show "own_ok w' c"
    by (cases rule: idem_step.cases) (auto simp: own_ok_def moved_def polled_ok)
  show "finite (iw_reserved w')" "finite (iw_reclaimed w')"
    using step assms(2) by (cases rule: idem_step.cases; simp add: books_def moved_def)+
qed

lemma card_insert_callers:
  assumes "finite S"
  shows "card (insert c S \<inter> callers_of reqs k)
    = card (S \<inter> callers_of reqs k) + (if ir_key (reqs c) = k \<and> c \<notin> S then 1 else 0)"
  using assms by (auto simp: callers_of_def Int_insert_left insert_absorb)

lemma matched_step:
  assumes "idem_step reqs c w w'" and "books w" and "reservations_match reqs k w"
  shows "reservations_match reqs k w'"
proof -
  have fin: "finite (iw_reserved w)" "finite (iw_released w)"
    using assms(2) finite_subset [of "iw_released w" "iw_reserved w \<union> iw_reclaimed w"]
    by (auto simp: books_def own_ok_def)
  have own: "own_ok w c" using assms(2) by (simp add: books_def)
  show ?thesis
    using assms(1)
  proof (cases rule: idem_step.cases)
    case (reserve_won t)
    with own assms(3) fin show ?thesis
      by (auto simp: own_ok_def reservations_match_def moved_def reserve_cases card_insert_callers)
  next
    case (reclaim_won t)
    with assms(3) show ?thesis
      by (auto simp: reservations_match_def moved_def dest!: reclaim_won_row)
  next
    case (release e)
    with own assms(3) fin show ?thesis
      by (auto simp: own_ok_def reservations_match_def moved_def release_def removable_def card_insert_callers
          split: option.splits)
  qed (use assms(3) in \<open>auto simp: reservations_match_def moved_def reserve_cases complete_def
      dest!: reclaim_lost_keeps split: option.splits\<close>)
qed

lemma reachable_books:
  assumes "idem_reachable reqs w"
  shows "books w \<and> reservations_match reqs k w"
proof -
  obtain now where "(\<lambda>v v'. \<exists>c. idem_step reqs c v v')\<^sup>*\<^sup>* (idem_start now) w"
    using assms by (auto simp: idem_reachable_def)
  then show ?thesis
  proof (induction rule: rtranclp_induct)
    case base
    show ?case by (simp add: books_def own_ok_def reservations_match_def idem_start_def)
  next
    case (step v w)
    then show ?case using books_step matched_step by blast
  qed
qed

lemma creations_bounded:
  assumes "books w" and "reservations_match reqs k w"
  shows "card ({c. iw_created w c \<noteq> None} \<inter> callers_of reqs k)
    \<le> 1 + card (iw_reclaimed w \<inter> callers_of reqs k)"
proof -
  let ?K = "callers_of reqs k" and ?C = "{c. iw_created w c \<noteq> None}"
  have fin: "finite (iw_reserved w)" "finite (iw_reclaimed w)" using assms(1) by (simp_all add: books_def)
  have sub: "iw_failed w \<union> ?C \<subseteq> iw_reserved w \<union> iw_reclaimed w" and rel: "iw_released w \<subseteq> iw_failed w"
    using assms(1) by (auto simp: books_def own_ok_def)
  then have finF: "finite (iw_failed w)" and finC: "finite ?C"
    using fin by (auto intro: finite_subset [of _ "iw_reserved w \<union> iw_reclaimed w"])
  have "card (?C \<inter> ?K) + card (iw_failed w \<inter> ?K) = card (?C \<inter> ?K \<union> iw_failed w \<inter> ?K)"
    using finF finC assms(1) by (subst card_Un_disjoint) (auto simp: books_def own_ok_def)
  also have "\<dots> \<le> card (iw_reserved w \<inter> ?K \<union> iw_reclaimed w \<inter> ?K)"
    using sub fin by (intro card_mono) auto
  also have "\<dots> \<le> card (iw_reserved w \<inter> ?K) + card (iw_reclaimed w \<inter> ?K)" by (rule card_Un_le)
  also have "\<dots> \<le> card (iw_released w \<inter> ?K) + 1 + card (iw_reclaimed w \<inter> ?K)"
    using assms(2) by (simp add: reservations_match_def)
  also have "card (iw_released w \<inter> ?K) \<le> card (iw_failed w \<inter> ?K)"
    using rel finF by (intro card_mono) auto
  finally show ?thesis by simp
qed

text \<open>Property C18. A key is created at most once per reservation: in any interleaving of any number
  of callers, crashes included, the number of creations that took effect for one key and
  endpoint is at most one more than the number of times an abandoned reservation of it was
  reclaimed. Without a reclaim the creation ran at most once.\<close>

theorem idempotent_creations_bounded:
  assumes "idem_reachable reqs w"
  shows "card ({c. iw_created w c \<noteq> None} \<inter> callers_of reqs k)
    \<le> 1 + card (iw_reclaimed w \<inter> callers_of reqs k)"
  using reachable_books [OF assms] creations_bounded by blast

subsection \<open>One answer per key\<close>

fun owner :: "idem_pc \<Rightarrow> bool" where
  "owner At_Create = True"
| "owner (At_Complete b) = True"
| "owner (At_Release e) = True"
| "owner pc = False"

lemma owner_polled [simp]: "\<not> owner (polled q n t)"
  by (simp add: polled_def split: option.split)

definition answers :: "idem_table \<Rightarrow> idem_request \<Rightarrow> jval \<Rightarrow> bool" where
  "answers t q b \<longleftrightarrow> (\<exists>r. t (ir_key q) = Some r \<and> ik_status r = Idem_COMPLETED \<and>
     replay_response r (ir_hash q) = Inr b)"

definition one_answer :: "(nat \<Rightarrow> idem_request) \<Rightarrow> idem_key \<Rightarrow> idem_world \<Rightarrow> bool" where
  "one_answer reqs k w \<longleftrightarrow>
     (\<forall>c \<in> callers_of reqs k. \<forall>d \<in> callers_of reqs k.
        owner (iw_pc w c) \<longrightarrow> owner (iw_pc w d) \<longrightarrow> c = d) \<and>
     (\<forall>c \<in> callers_of reqs k. owner (iw_pc w c) \<longrightarrow>
        (\<exists>r. iw_table w k = Some r \<and> ik_status r = Idem_PENDING \<and> ik_request_hash r = ir_hash (reqs c))) \<and>
     (\<forall>c \<in> callers_of reqs k. \<forall>b. iw_pc w c = Answered (Inr b) \<longrightarrow> answers (iw_table w) (reqs c) b) \<and>
     (\<forall>r. iw_table w k = Some r \<longrightarrow> ik_status r = Idem_COMPLETED \<longrightarrow>
        (\<exists>c \<in> callers_of reqs k. \<exists>b. ik_response_body r = Some b \<and> iw_created w c = Some b))"

lemma answers_cong: "t' (ir_key q) = t (ir_key q) \<Longrightarrow> answers t' q = answers t q"
  by (simp add: answers_def fun_eq_iff)

lemma one_answer_frame:
  assumes inv: "one_answer reqs k w" and table: "iw_table w' k = iw_table w k"
    and owners: "\<And>d. ir_key (reqs d) = k \<Longrightarrow> owner (iw_pc w' d) \<Longrightarrow> owner (iw_pc w d)"
    and answered: "\<And>d b. ir_key (reqs d) = k \<Longrightarrow> iw_pc w' d = Answered (Inr b) \<Longrightarrow>
      iw_pc w d = Answered (Inr b) \<or> answers (iw_table w) (reqs d) b"
    and created: "\<And>d b. iw_created w d = Some b \<Longrightarrow> iw_created w' d = Some b"
  shows "one_answer reqs k w'"
proof -
  have same: "answers (iw_table w') (reqs d) = answers (iw_table w) (reqs d)" if "ir_key (reqs d) = k" for d
    by (rule answers_cong) (simp add: that table)
  note facts = inv [unfolded one_answer_def callers_of_def]
  have "answers (iw_table w') (reqs d) b" if "ir_key (reqs d) = k" "iw_pc w' d = Answered (Inr b)" for d b
    using answered [OF that] facts that(1) by (auto simp: same)
  moreover have "c = d" if "ir_key (reqs c) = k" "ir_key (reqs d) = k" "owner (iw_pc w' c)" "owner (iw_pc w' d)" for c d
    using owners [OF that(1,3)] owners [OF that(2,4)] facts that(1,2) by blast
  ultimately show ?thesis
    using facts owners created by (fastforce simp: one_answer_def callers_of_def table)
qed

lemma one_answer_step:
  assumes step: "idem_step reqs c w w'" and "books w" and inv: "one_answer reqs k w"
    and fresh: "iw_reclaimed w' \<inter> callers_of reqs k = {}"
  shows "one_answer reqs k w'"
proof -
  have own: "own_ok w c" using assms(2) by (simp add: books_def)
  note facts = inv [unfolded one_answer_def callers_of_def]
  show ?thesis
    using step
  proof (cases rule: idem_step.cases)
    case (reserve_won t)
    with facts show ?thesis
      by (auto simp: one_answer_def callers_of_def moved_def reserve_cases pending_row_def answers_def)
  next
    case (poll n)
    with facts show ?thesis
      by (auto simp: one_answer_def callers_of_def moved_def answers_def polled_def completed_row_def
          split: option.splits if_splits)
  next
    case (reclaim_won t)
    then have "c \<notin> callers_of reqs k" using fresh by auto
    with reclaim_won facts show ?thesis
      by (auto simp: one_answer_def callers_of_def moved_def answers_def dest!: reclaim_won_row)
  next
    case (complete b)
    then have pc: "owner (iw_pc w c)" and created: "iw_created w c = Some b"
      using own by (simp_all add: own_ok_def)
    show ?thesis
    proof (cases "ir_key (reqs c) = k")
      case False
      then have "complete (iw_table w) (ir_key (reqs c)) n b k = iw_table w k" for n
        by (simp add: complete_def split: option.split)
      with complete facts False show ?thesis
        by (simp add: one_answer_def callers_of_def moved_def answers_def)
    next
      case True
      obtain r where r: "iw_table w k = Some r" "ik_status r = Idem_PENDING"
          "ik_request_hash r = ir_hash (reqs c)"
        using facts pc True by blast
      have alone: "d = c" if "ir_key (reqs d) = k" "owner (iw_pc w d)" for d
        using facts pc True that by blast
      have unanswered: "iw_pc w d \<noteq> Answered (Inr x)" if "ir_key (reqs d) = k" for d x
        using facts that r by (auto simp: answers_def)
      define r' where "r' = r\<lparr>ik_status := Idem_COMPLETED, ik_response_status := Some (ir_status (reqs c)),
        ik_response_body := Some b\<rparr>"
      have w': "iw_table w' = (iw_table w)(k \<mapsto> r')" "iw_pc w' = (iw_pc w)(c := Answered (Inr b))"
          "iw_created w' = iw_created w"
        using complete True r by (simp_all add: moved_def complete_def r'_def)
      have closed: "ik_status r' = Idem_COMPLETED" "ik_response_body r' = Some b"
          "ik_request_hash r' = ir_hash (reqs c)"
        using r by (simp_all add: r'_def)
      have free: "\<not> owner (iw_pc w' d)" if "ir_key (reqs d) = k" for d
        using alone that by (auto simp: w')
      have last: "d = c \<and> x = b" if "ir_key (reqs d) = k" "iw_pc w' d = Answered (Inr x)" for d x
        using unanswered that by (auto simp: w' split: if_splits)
      have "answers (iw_table w') (reqs c) b"
        using True by (simp add: answers_def w' closed replay_response_def)
      then have answered: "answers (iw_table w') (reqs d) x"
        if "ir_key (reqs d) = k" "iw_pc w' d = Answered (Inr x)" for d x
        using last [OF that] by blast
      have "\<exists>e. ir_key (reqs e) = k \<and> iw_created w' e = Some b" using True created w'(3) by auto
      then show ?thesis
        using free answered by (simp add: one_answer_def callers_of_def w'(1) closed)
    qed
  next
    case (release e)
    with facts show ?thesis
      by (auto simp: one_answer_def callers_of_def moved_def answers_def release_def removable_def
          split: option.splits)
  next
    case (create_ok b)
    with own show ?thesis
      by (intro one_answer_frame [OF inv]) (auto simp: moved_def own_ok_def split: if_splits)
  qed (intro one_answer_frame [OF inv]; auto simp: moved_def reserve_cases
      dest!: reclaim_lost_keeps split: if_splits)+
qed

lemma reclaimed_grows: "idem_step reqs c w w' \<Longrightarrow> iw_reclaimed w \<subseteq> iw_reclaimed w'"
  by (cases rule: idem_step.cases) (auto simp: moved_def)

lemma reachable_one_answer:
  assumes "idem_reachable reqs w" and "iw_reclaimed w \<inter> callers_of reqs k = {}"
  shows "one_answer reqs k w"
proof -
  obtain now where "(\<lambda>v v'. \<exists>c. idem_step reqs c v v')\<^sup>*\<^sup>* (idem_start now) w"
    using assms(1) by (auto simp: idem_reachable_def)
  then have "books w \<and> (iw_reclaimed w \<inter> callers_of reqs k = {} \<longrightarrow> one_answer reqs k w)"
  proof (induction rule: rtranclp_induct)
    case base
    show ?case by (simp add: books_def own_ok_def one_answer_def idem_start_def)
  next
    case (step v w)
    then obtain c where c: "idem_step reqs c v w" by blast
    then have "iw_reclaimed v \<subseteq> iw_reclaimed w" by (rule reclaimed_grows)
    with step.IH books_step [OF c] one_answer_step [OF c] show ?case by blast
  qed
  with assms(2) show ?thesis by blast
qed

text \<open>One answer per key: as long as no reservation of a key was reclaimed, all requests
  with that key and endpoint that got a response got the same one, carried the same digest,
  and that response is the body of a creation that took effect.\<close>

theorem idempotent_one_answer:
  assumes "idem_reachable reqs w" and "iw_reclaimed w \<inter> callers_of reqs k = {}"
    and "ir_key (reqs c) = k" and "ir_key (reqs d) = k"
    and "iw_pc w c = Answered (Inr a)" and "iw_pc w d = Answered (Inr b)"
  shows "a = b \<and> ir_hash (reqs c) = ir_hash (reqs d) \<and>
    (\<exists>e. ir_key (reqs e) = k \<and> iw_created w e = Some a)"
proof -
  note inv = reachable_one_answer [OF assms(1,2), unfolded one_answer_def callers_of_def]
  have "answers (iw_table w) (reqs c) a" "answers (iw_table w) (reqs d) b"
    using inv assms(3-6) by blast+
  then obtain r where r: "iw_table w k = Some r" "ik_status r = Idem_COMPLETED"
      "replay_response r (ir_hash (reqs c)) = Inr a" "replay_response r (ir_hash (reqs d)) = Inr b"
    using assms(3,4) by (auto simp: answers_def)
  moreover obtain e x where "ir_key (reqs e) = k" "ik_response_body r = Some x" "iw_created w e = Some x"
    using inv r(1,2) by blast
  ultimately show ?thesis by (auto simp: replay_response_def)
qed

subsection \<open>A slow owner is indistinguishable from a crashed one\<close>

lemma reach_start: "idem_reachable reqs (idem_start now)"
  by (auto simp: idem_reachable_def)

lemma reach_step: "idem_reachable reqs v \<Longrightarrow> idem_step reqs c v w \<Longrightarrow> idem_reachable reqs w"
  unfolding idem_reachable_def by (blast intro: rtranclp.rtrancl_into_rtrancl)

lemma slow_run:
  "\<exists>w. idem_reachable (\<lambda>_. q) w \<and> iw_created w 1 = Some b \<and> iw_created w 2 = Some b' \<and>
     (\<forall>c. iw_pc w c \<noteq> Crashed)"
proof -
  let ?reqs = "\<lambda>_ :: nat. q" and ?t = "[ir_key q \<mapsto> pending_row (ir_hash q) 0]"
  let ?late = "seconds 31"
  let ?t' = "[ir_key q \<mapsto> pending_row (ir_hash q) ?late]"
  have w1: "idem_reachable ?reqs (moved 1 At_Create (idem_start 0)\<lparr>iw_table := ?t, iw_reserved := {1}\<rparr>)"
    (is "idem_reachable _ ?w1")
    using reach_step [OF reach_start [of ?reqs 0] idem_step.reserve_won [of _ 1]]
    by (simp add: idem_start_def reserve_def)
  have w2: "idem_reachable ?reqs (?w1\<lparr>iw_now := ?late\<rparr>)" (is "idem_reachable _ ?w2")
    using reach_step [OF w1 idem_step.tick [of ?late ?reqs 1]] by (simp add: moved_def idem_start_def seconds_def)
  have w3: "idem_reachable ?reqs (moved 2 At_Reclaim ?w2)" (is "idem_reachable _ ?w3")
    using reach_step [OF w2 idem_step.reserve_lost [of _ 2 ?reqs ?t]]
    by (simp add: moved_def idem_start_def reserve_def)
  have w4: "idem_reachable ?reqs (moved 2 At_Create ?w3\<lparr>iw_table := ?t', iw_reclaimed := {2}\<rparr>)"
    (is "idem_reachable _ ?w4")
    using reach_step [OF w3 idem_step.reclaim_won [of _ 2 ?reqs ?t']]
    by (simp add: moved_def idem_start_def reclaim_if_abandoned_def pending_row_def seconds_def
        PENDING_RECLAIM_def)
  have w5: "idem_reachable ?reqs (moved 2 (At_Complete b') ?w4\<lparr>iw_created := [2 \<mapsto> b']\<rparr>)"
    (is "idem_reachable _ ?w5")
    using reach_step [OF w4 idem_step.create_ok [of _ 2 ?reqs b']] by (simp add: moved_def idem_start_def)
  have w6: "idem_reachable ?reqs (moved 1 (At_Complete b) ?w5\<lparr>iw_created := [2 \<mapsto> b', 1 \<mapsto> b]\<rparr>)"
    (is "idem_reachable _ ?w6")
    using reach_step [OF w5 idem_step.create_ok [of _ 1 ?reqs b]] by (simp add: moved_def idem_start_def)
  show ?thesis using w6 by (intro exI [of _ ?w6]) (simp add: moved_def idem_start_def)
qed

text \<open>A reservation older than thirty seconds is reclaimed whether its owner crashed or
  is merely slow: two requests with one key and one body can both run the business creation
  to the end although nobody crashed.\<close>

theorem slow_owner_creates_twice:
  "\<exists>w. idem_reachable (\<lambda>_. q) w \<and> iw_created w 1 = Some b \<and> iw_created w 2 = Some b' \<and>
     (\<forall>c. iw_pc w c \<noteq> Crashed)"
  by (rule slow_run)

subsection \<open>Waiting and replaying\<close>

lemma await_completion_exact:
  "await_completion seen k i rounds =
     (case find (\<lambda>j. completed_row (seen j) k \<noteq> None) [i..<i + rounds] of
        None \<Rightarrow> Inl key_in_progress
      | Some j \<Rightarrow> Inr (the (completed_row (seen j) k)))"
proof (induction rounds arbitrary: i)
  case (Suc rounds)
  show ?case
    by (simp add: upt_conv_Cons Suc.IH [of "Suc i"] del: upt_Suc split: option.split)
qed simp


lemma pending_row_hash [simp]: "ik_request_hash (pending_row h now) = h"
  by (simp add: pending_row_def)

lemma answered_completed:
  assumes "run_idempotent_dict t s now (\<lambda>_. t) (Some key) endpoint h create st = ((t', s'), Inr b)"
  shows "\<exists>r. t' (key, endpoint) = Some r \<and> ik_status r = Idem_COMPLETED \<and>
    ik_request_hash r = h \<and> (case ik_response_body r of Some x \<Rightarrow> x | None \<Rightarrow> JNull) = b"
proof -
  let ?k = "(key, endpoint)"
  have creates: ?thesis
    if row: "t2 ?k = Some r" "ik_request_hash r = h"
      and run: "(case create s of (s', Inl e) \<Rightarrow> ((release t2 ?k, s'), Inl e)
        | (s', Inr result) \<Rightarrow> ((complete t2 ?k st result, s'), Inr result)) = ((t', s'), Inr b)" for t2 r
    using run row by (auto simp: complete_def split: prod.splits sum.splits)
  show ?thesis
  proof (cases "t ?k")
    case None
    then show ?thesis
      using assms by (intro creates [of "t(?k \<mapsto> pending_row h now)" "pending_row h now"])
        (simp_all add: run_idempotent_dict_def reserve_def Let_def)
  next
    case (Some r)
    show ?thesis
    proof (cases "ik_status r = Idem_PENDING \<and> ik_created_at r < now - PENDING_RECLAIM")
      case True
      then show ?thesis
        using assms Some
        by (intro creates [of "t(?k \<mapsto> r\<lparr>ik_request_hash := h, ik_created_at := now\<rparr>)"
            "r\<lparr>ik_request_hash := h, ik_created_at := now\<rparr>"])
          (simp_all add: run_idempotent_dict_def reserve_def reclaim_if_abandoned_def Let_def)
    next
      case False
      then have "t' = t" "s' = s" and "and_get (resolve_existing (\<lambda>_. t) ?k) (\<lambda>r. replay_response r h) = Inr b"
        using assms Some
        by (auto simp: run_idempotent_dict_def reserve_def reclaim_if_abandoned_def Let_def)
      then show ?thesis
        by (auto simp: resolve_existing_def await_completion_exact completed_row_def replay_response_def
            and_get_eq_Inr find_Some_iff split: option.splits if_splits)
    qed
  qed
qed

text \<open>A replay is answered without any effect: once a request with a key succeeded, every
  later request with that key and endpoint leaves the table and the business state alone and
  answers the stored response, or the mismatch conflict when its body is another one -
  whatever creation it would have run.\<close>

theorem idempotent_replay:
  assumes "run_idempotent_dict t s now (\<lambda>_. t) (Some key) endpoint h create st = ((t', s'), Inr b)"
  shows "run_idempotent_dict t' s'' now' (\<lambda>_. t') (Some key) endpoint h' create' st' =
    ((t', s''), if h' = h then Inr b else Inl reject_payload_mismatch)"
proof -
  obtain r where "t' (key, endpoint) = Some r" "ik_status r = Idem_COMPLETED" "ik_request_hash r = h"
      "(case ik_response_body r of Some x \<Rightarrow> x | None \<Rightarrow> JNull) = b"
    using answered_completed [OF assms] by blast
  then show ?thesis
    by (auto simp: run_idempotent_dict_def reserve_def reclaim_if_abandoned_def resolve_existing_def
        completed_row_def replay_response_def Let_def)
qed

lemma idempotent_replay_witness:
  "run_idempotent_dict (\<lambda>_. None) (0 :: int) 0 (\<lambda>_ _. None) (Some ''k'') ''POST /tasks'' ''h''
      (\<lambda>n. (n + 1, Inr (JInt 7))) 201
    = (([(''k'', ''POST /tasks'') \<mapsto> \<lparr>ik_request_hash = ''h'', ik_status = Idem_COMPLETED,
         ik_response_status = Some 201, ik_response_body = Some (JInt 7), ik_created_at = 0\<rparr>], 1), Inr (JInt 7))
   \<and> run_idempotent_dict [(''k'', ''POST /tasks'') \<mapsto> \<lparr>ik_request_hash = ''h'', ik_status = Idem_COMPLETED,
         ik_response_status = Some 201, ik_response_body = Some (JInt 7), ik_created_at = 0\<rparr>] (1 :: int) 9
      (\<lambda>_. [(''k'', ''POST /tasks'') \<mapsto> \<lparr>ik_request_hash = ''h'', ik_status = Idem_COMPLETED,
         ik_response_status = Some 201, ik_response_body = Some (JInt 7), ik_created_at = 0\<rparr>])
      (Some ''k'') ''POST /tasks'' ''h'' (\<lambda>n. (n + 1, Inr (JInt 8))) 201
    = (([(''k'', ''POST /tasks'') \<mapsto> \<lparr>ik_request_hash = ''h'', ik_status = Idem_COMPLETED,
         ik_response_status = Some 201, ik_response_body = Some (JInt 7), ik_created_at = 0\<rparr>], 1), Inr (JInt 7))"
  (is "?first \<and> ?second")
proof -
  have first: ?first
    by (simp add: run_idempotent_dict_def reserve_def complete_def pending_row_def Let_def)
  show ?thesis using first idempotent_replay [OF first, of 1 9 "''h''"] by simp
qed

subsection \<open>Two requests, one creation\<close>

lemma replayed_run:
  "\<exists>w. idem_reachable (\<lambda>_. q) w \<and> iw_reclaimed w = {} \<and> iw_pc w 1 = Answered (Inr b) \<and>
     iw_pc w 2 = Answered (Inr b)"
proof -
  let ?reqs = "\<lambda>_ :: nat. q"
  let ?t = "[ir_key q \<mapsto> pending_row (ir_hash q) 0]"
  let ?t' = "complete ?t (ir_key q) (ir_status q) b"
  have w1: "idem_reachable ?reqs (moved 1 At_Create (idem_start 0)\<lparr>iw_table := ?t, iw_reserved := {1}\<rparr>)"
    (is "idem_reachable _ ?w1")
    using reach_step [OF reach_start [of ?reqs 0] idem_step.reserve_won [of _ 1]]
    by (simp add: idem_start_def reserve_def)
  have w2: "idem_reachable ?reqs (moved 1 (At_Complete b) ?w1\<lparr>iw_created := [1 \<mapsto> b]\<rparr>)"
    (is "idem_reachable _ ?w2")
    using reach_step [OF w1 idem_step.create_ok [of _ 1 ?reqs b]] by (simp add: moved_def idem_start_def)
  have w3: "idem_reachable ?reqs (moved 1 (Answered (Inr b)) ?w2\<lparr>iw_table := ?t'\<rparr>)"
    (is "idem_reachable _ ?w3")
    using reach_step [OF w2 idem_step.complete [of _ 1 b ?reqs]] by (simp add: moved_def)
  have w4: "idem_reachable ?reqs (moved 2 At_Reclaim ?w3)" (is "idem_reachable _ ?w4")
    using reach_step [OF w3 idem_step.reserve_lost [of _ 2 ?reqs ?t']]
    by (simp add: moved_def idem_start_def reserve_def complete_def)
  have w5: "idem_reachable ?reqs (moved 2 (At_Poll 0) ?w4)" (is "idem_reachable _ ?w5")
    using reach_step [OF w4 idem_step.reclaim_lost [of _ 2 ?reqs ?t']]
    by (simp add: moved_def reclaim_if_abandoned_def complete_def pending_row_def idem_start_def)
  have w6: "idem_reachable ?reqs (moved 2 (polled q 0 ?t') ?w5)" (is "idem_reachable _ ?w6")
    using reach_step [OF w5 idem_step.poll [of _ 2 0 ?reqs]] by (simp add: moved_def)
  show ?thesis
    using w6 by (intro exI [of _ ?w6])
      (simp add: moved_def idem_start_def polled_def completed_row_def complete_def pending_row_def
        replay_response_def)
qed

lemma idempotent_creations_bounded_witness:
  "\<exists>w :: idem_world. iw_created w 1 = Some JNull \<and> iw_created w 2 = Some JNull \<and>
     card ({c. iw_created w c \<noteq> None} \<inter>
       callers_of (\<lambda>_. \<lparr>ir_key = (''k'', ''POST /tasks''), ir_hash = ''h'', ir_status = 201\<rparr>) (''k'', ''POST /tasks''))
     \<le> 1 + card (iw_reclaimed w \<inter>
       callers_of (\<lambda>_. \<lparr>ir_key = (''k'', ''POST /tasks''), ir_hash = ''h'', ir_status = 201\<rparr>) (''k'', ''POST /tasks''))"
proof -
  obtain w where "idem_reachable (\<lambda>_. \<lparr>ir_key = (''k'', ''POST /tasks''), ir_hash = ''h'', ir_status = 201\<rparr>) w"
      "iw_created w 1 = Some JNull" "iw_created w 2 = Some JNull"
    using slow_run [of "\<lparr>ir_key = (''k'', ''POST /tasks''), ir_hash = ''h'', ir_status = 201\<rparr>" JNull JNull] by blast
  then show ?thesis using idempotent_creations_bounded by (intro exI [of _ w] conjI)
qed

lemma idempotent_one_answer_witness:
  "\<exists>w :: idem_world. iw_pc w 1 = Answered (Inr (JInt 7)) \<and> iw_pc w 2 = Answered (Inr (JInt 7)) \<and>
     (\<exists>e. iw_created w e = Some (JInt 7))"
proof -
  let ?q = "\<lparr>ir_key = (''k'', ''POST /tasks''), ir_hash = ''h'', ir_status = 201\<rparr>"
  obtain w where w: "idem_reachable (\<lambda>_. ?q) w" "iw_reclaimed w = {}" "iw_pc w 1 = Answered (Inr (JInt 7))"
      "iw_pc w 2 = Answered (Inr (JInt 7))"
    using replayed_run by blast
  have "iw_reclaimed w \<inter> callers_of (\<lambda>_. ?q) (ir_key ?q) = {}" using w(2) by simp
  from idempotent_one_answer [OF w(1) this refl refl w(3,4)] w(3,4) show ?thesis
    by (intro exI [of _ w]) auto
qed

end
