(* ===== verification/Outbox_Delivery.thy ===== *)
theory Outbox_Delivery
  imports Outbox_Laws Idempotency
begin

section \<open>From the outbox to the server\<close>

text \<open>
  The client's queue against the server's idempotency wrapper, over a network that loses requests
  and answers. A queued mutation is sent under its row id as \<open>Idempotency-Key\<close>; the server runs
  \<open>run_idempotent_dict\<close>, whose creation succeeds or is refused as \<open>accepts\<close> says and records the
  key it ran for. A request that reaches the server is finished before the next one arrives.
  The endpoint of the events is a parameter with a state of its own.
\<close>

datatype delivery = Delivered | Lost_Request | Lost_Answer

record 'e server =
  sv_table :: idem_table
  sv_made :: "idem_key list"
  sv_events :: 'e
  sv_requests :: nat

definition create_once :: "(queued_row \<Rightarrow> http_error option) \<Rightarrow> queued_row \<Rightarrow> idem_key
    \<Rightarrow> idem_key list \<Rightarrow> (idem_key list, jval) outcome" where
  "create_once accepts r k made =
     (case accepts r of
        Some e \<Rightarrow> (made, Inl e)
      | None \<Rightarrow> (made @ [k], Inr (JObj (qr_payload r))))"

definition endpoint_of :: "queued_row \<Rightarrow> string" where
  "endpoint_of r = (case member (qr_extra r) ''method'' of JText m \<Rightarrow> m | _ \<Rightarrow> []) @ '' '' @ row_path r"

definition answer_of :: "(jval \<Rightarrow> string) \<Rightarrow> jval fallible \<Rightarrow> api_error + unit" where
  "answer_of txt_of res =
     (case res of
        Inr _ \<Rightarrow> Inr ()
      | Inl e \<Rightarrow> Inl (error_from_response txt_of (http_status e) (Some (JObj [(''detail'', http_detail e)]))))"

definition handle_mutation ::
  "timestamp \<Rightarrow> (queued_row \<Rightarrow> string) \<Rightarrow> (queued_row \<Rightarrow> http_error option) \<Rightarrow> queued_row \<Rightarrow> 'e server
     \<Rightarrow> 'e server \<times> jval fallible" where
  "handle_mutation now digest accepts r sv =
     (case run_idempotent_dict (sv_table sv) (sv_made sv) now (\<lambda>_. sv_table sv) (Some (qr_id r))
             (endpoint_of r) (digest r) (create_once accepts r (qr_id r, endpoint_of r)) 201 of
        ((tab, made), res) \<Rightarrow> (sv\<lparr>sv_table := tab, sv_made := made\<rparr>, res))"

definition over_network ::
  "(nat \<Rightarrow> delivery) \<Rightarrow> (nat \<Rightarrow> timestamp) \<Rightarrow> (queued_row \<Rightarrow> string) \<Rightarrow> (queued_row \<Rightarrow> http_error option)
     \<Rightarrow> (jval \<Rightarrow> string) \<Rightarrow> (queued_row \<Rightarrow> 'e \<Rightarrow> 'e \<times> jval fallible) \<Rightarrow> 'e server sender" where
  "over_network fate clock digest accepts txt_of handle_event t r sv =
     (let n = sv_requests sv; sv1 = sv\<lparr>sv_requests := Suc n\<rparr>
      in if fate n = Lost_Request then (sv1, Inl (transport_error ''request lost''))
         else (case (if t = OT_EVENTS
                     then (case handle_event r (sv_events sv1) of (ev, res) \<Rightarrow> (sv1\<lparr>sv_events := ev\<rparr>, res))
                     else handle_mutation (clock n) digest accepts r sv1) of
                 (sv2, res) \<Rightarrow>
                   (sv2, if fate n = Lost_Answer then Inl (transport_error ''answer lost'')
                         else answer_of txt_of res)))"

definition fresh_server :: "'e \<Rightarrow> 'e server" where
  "fresh_server ev = \<lparr>sv_table = (\<lambda>_. None), sv_made = [], sv_events = ev, sv_requests = 0\<rparr>"

subsection \<open>The invariant of the server\<close>

definition made_once :: "'e server \<Rightarrow> bool" where
  "made_once sv \<longleftrightarrow> (\<forall>k. case sv_table sv k of
     None \<Rightarrow> count_list (sv_made sv) k = 0
   | Some r \<Rightarrow> ik_status r = Idem_COMPLETED \<and> count_list (sv_made sv) k = 1)"

lemma made_once_known:
  "made_once sv \<Longrightarrow> sv_table sv k = Some row \<Longrightarrow> ik_status row = Idem_COMPLETED \<and> count_list (sv_made sv) k = 1"
  unfolding made_once_def by (drule spec [of _ k]) simp

lemma made_once_unknown: "made_once sv \<Longrightarrow> sv_table sv k = None \<Longrightarrow> count_list (sv_made sv) k = 0"
  unfolding made_once_def by (drule spec [of _ k]) simp

lemma made_once_bound: "made_once sv \<Longrightarrow> count_list (sv_made sv) k \<le> 1"
  by (cases "sv_table sv k") (auto dest: made_once_known made_once_unknown)

lemma made_once_add:
  assumes "made_once sv" and "sv_table sv k = None" and "ik_status row = Idem_COMPLETED"
    and "sv_table sv' = (sv_table sv)(k \<mapsto> row)" and "sv_made sv' = sv_made sv @ [k]"
  shows "made_once sv'"
  unfolding made_once_def
proof
  fix j
  show "case sv_table sv' j of None \<Rightarrow> count_list (sv_made sv') j = 0
    | Some r \<Rightarrow> ik_status r = Idem_COMPLETED \<and> count_list (sv_made sv') j = 1"
    using assms made_once_unknown [OF assms(1,2)] made_once_known [OF assms(1), of j]
      made_once_unknown [OF assms(1), of j]
    by (cases "j = k"; cases "sv_table sv j") auto
qed

lemma made_once_cong: "sv_table sv' = sv_table sv \<Longrightarrow> sv_made sv' = sv_made sv \<Longrightarrow> made_once sv' = made_once sv"
  by (simp only: made_once_def)

text \<open>What one mutation that reaches the server does.\<close>

lemma handle_mutation_cases:
  assumes "made_once sv" and "handle_mutation now digest accepts r sv = (sv', res)"
  obtains (refused) e where "res = Inl e" "sv_table sv' = sv_table sv" "sv_made sv' = sv_made sv"
  | (known) "sv_table sv' = sv_table sv" "sv_made sv' = sv_made sv"
      "count_list (sv_made sv) (qr_id r, endpoint_of r) = 1"
  | (made) row where "sv_table sv (qr_id r, endpoint_of r) = None" "ik_status row = Idem_COMPLETED"
      "sv_table sv' = (sv_table sv)((qr_id r, endpoint_of r) \<mapsto> row)"
      "sv_made sv' = sv_made sv @ [(qr_id r, endpoint_of r)]"
proof (cases "sv_table sv (qr_id r, endpoint_of r)")
  case None
  show ?thesis
  proof (cases "accepts r")
    case None
    with assms(2) \<open>sv_table sv _ = None\<close> show ?thesis
      by (intro made) (auto simp: handle_mutation_def run_idempotent_dict_def reserve_def create_once_def
          complete_def pending_row_def Let_def)
  next
    case (Some e)
    with assms(2) None show ?thesis
      by (intro refused [of e]) (auto simp: handle_mutation_def run_idempotent_dict_def reserve_def
          create_once_def release_def removable_def pending_row_def Let_def)
  qed
next
  case (Some row)
  from made_once_known [OF assms(1) Some] assms(2) Some show ?thesis
    by (intro known) (auto simp: handle_mutation_def run_idempotent_dict_def reserve_def
        reclaim_if_abandoned_def Let_def)
qed

text \<open>What one send does: keys only get added, and an acknowledged mutation has its key.\<close>

definition delivered_ok :: "'e server \<times> (outbox_table \<times> string) list \<Rightarrow> bool" where
  "delivered_ok sa \<longleftrightarrow> made_once (fst sa) \<and>
     (\<forall>i. (OT_MUTATIONS, i) \<in> set (snd sa) \<longrightarrow> (\<exists>ep. count_list (sv_made (fst sa)) (i, ep) = 1))"

lemma handled_keeps:
  assumes "made_once sv" and "handle_mutation now digest accepts r sv = (sv', res)"
  shows "made_once sv' \<and> (\<forall>k. count_list (sv_made sv) k = 1 \<longrightarrow> count_list (sv_made sv') k = 1) \<and>
    (\<forall>b. res = Inr b \<longrightarrow> count_list (sv_made sv') (qr_id r, endpoint_of r) = 1)"
  using assms
proof (cases rule: handle_mutation_cases)
  case (refused e)
  then show ?thesis using assms(1) made_once_cong [of sv' sv] by simp
next
  case known
  then show ?thesis using assms(1) made_once_cong [of sv' sv] by simp
next
  case (made row)
  then show ?thesis
    using made_once_add [OF assms(1) made(1,2,3,4)] made_once_unknown [OF assms(1) made(1)] by auto
qed

lemma answer_of_ok: "answer_of txt_of res = Inr u \<Longrightarrow> \<exists>b. res = Inr b"
  by (cases res) (simp_all add: answer_of_def)

lemma send_keeps:
  assumes "made_once sv"
    and "over_network fate clock digest accepts txt_of handle_event t r sv = (sv', res)"
  shows "made_once sv' \<and> (\<forall>k. count_list (sv_made sv) k = 1 \<longrightarrow> count_list (sv_made sv') k = 1) \<and>
    (t \<noteq> OT_EVENTS \<and> res = Inr () \<longrightarrow> count_list (sv_made sv') (qr_id r, endpoint_of r) = 1)"
proof -
  let ?sv1 = "sv\<lparr>sv_requests := Suc (sv_requests sv)\<rparr>"
  have start: "made_once ?sv1" using assms(1) made_once_cong [of ?sv1 sv] by simp
  have event: "made_once (?sv1\<lparr>sv_events := ev\<rparr>)" for ev
    using start made_once_cong [of "?sv1\<lparr>sv_events := ev\<rparr>" ?sv1] by simp
  consider (lost) "fate (sv_requests sv) = Lost_Request"
    | (event) "fate (sv_requests sv) \<noteq> Lost_Request" "t = OT_EVENTS"
    | (mutation) "fate (sv_requests sv) \<noteq> Lost_Request" "t \<noteq> OT_EVENTS"
    by blast
  then show ?thesis
  proof cases
    case lost
    with assms(2) start show ?thesis by (auto simp: over_network_def Let_def)
  next
    case event
    with assms(2) \<open>\<And>ev. made_once (?sv1\<lparr>sv_events := ev\<rparr>)\<close> show ?thesis
      by (auto simp: over_network_def Let_def split: prod.split_asm)
  next
    case mutation
    obtain sv2 b where run: "handle_mutation (clock (sv_requests sv)) digest accepts r ?sv1 = (sv2, b)"
      by (cases "handle_mutation (clock (sv_requests sv)) digest accepts r ?sv1")
    with assms(2) mutation have "sv' = sv2" and res: "res = Inr () \<longrightarrow> answer_of txt_of b = Inr ()"
      by (auto simp: over_network_def Let_def split: if_splits)
    then show ?thesis using handled_keeps [OF start run] answer_of_ok [of txt_of b "()"] by auto
  qed
qed

subsection \<open>Delivery\<close>

lemma acked_delivered:
  assumes "delivered_ok sa"
    and "acked (over_network fate clock digest accepts txt_of handle_event) t r sa = (sa', a)"
  shows "delivered_ok sa'"
proof -
  obtain sv' b where sent: "over_network fate clock digest accepts txt_of handle_event t r (fst sa) = (sv', b)"
    by (cases "over_network fate clock digest accepts txt_of handle_event t r (fst sa)")
  have kept: "made_once sv'"
    "\<And>k. count_list (sv_made (fst sa)) k = 1 \<Longrightarrow> count_list (sv_made sv') k = 1"
    "t \<noteq> OT_EVENTS \<Longrightarrow> b = Inr () \<Longrightarrow> count_list (sv_made sv') (qr_id r, endpoint_of r) = 1"
    using assms(1) send_keeps [OF _ sent] by (auto simp only: delivered_ok_def)
  have old: "\<exists>ep. count_list (sv_made sv') (i, ep) = 1" if "(OT_MUTATIONS, i) \<in> set (snd sa)" for i
    using assms(1) kept(2) that unfolding delivered_ok_def by blast
  have "sa' = (sv', snd sa) \<or> (b = Inr () \<and> sa' = (sv', snd sa @ [(t, qr_id r)]))"
    using assms(2) sent by (cases b) (auto simp: acked_def)
  then show ?thesis
  proof
    assume "b = Inr () \<and> sa' = (sv', snd sa @ [(t, qr_id r)])"
    with kept(1) old show ?thesis using kept(3) unfolding delivered_ok_def by auto
  qed (use kept(1) old in \<open>simp add: delivered_ok_def\<close>)
qed



end
