(* ===== verification/Accounts.thy ===== *)
theory Accounts
  imports Authz
begin

section \<open>Accounts and machines (\<open>services/provisioning.py, accounts.py\<close>)\<close>

text \<open>
  Users and the machines they own, registration, single-use account secrets, passwords and the
  deactivation of an account. Rows extend those the authorization model reads by the columns
  only these services use. Hashes are parameters (\<open>auth_env\<close>); ids, secrets, salts and instants
  are drawn by the caller. E-mails carry their link, not their prose. A text is a list of the
  code points below 256, on which \<open>py_lower\<close> is exact.
\<close>

subsection \<open>Rows\<close>

record account_row = user_row +
  u_display_name :: string
  u_email :: string
  u_password_hash :: "string option"
  u_auth_version :: int
  u_disabled_at :: "timestamp option"
  u_email_verified_at :: "timestamp option"
  u_version :: int

record machine_account = machine_row +
  m_credential_hash :: string
  m_credential_revoked_at :: "timestamp option"
  m_workstation_id :: "uuid option"
  m_version :: int

datatype token_purpose = EMAIL_VERIFICATION | PASSWORD_RESET

record account_token =
  at_user_id :: uuid
  at_purpose :: token_purpose
  at_token_hash :: string
  at_created_at :: timestamp
  at_expires_at :: timestamp
  at_consumed_at :: "timestamp option"

record refresh_row =
  rt_user_id :: uuid
  rt_machine_id :: uuid
  rt_family_id :: uuid
  rt_token_hash :: string
  rt_auth_version :: int
  rt_created_at :: timestamp
  rt_expires_at :: timestamp
  rt_absolute_expires_at :: timestamp
  rt_consumed_at :: "timestamp option"
  rt_revoked_at :: "timestamp option"

record accounts =
  ac_users :: "account_row list"
  ac_machines :: "machine_account list"
  ac_tokens :: "account_token list"
  ac_refresh :: "refresh_row list"

record auth_env =
  en_hash_token :: "string \<Rightarrow> string"
  en_hash_password :: "string \<Rightarrow> string \<Rightarrow> string"
  en_check_password :: "string \<Rightarrow> string \<Rightarrow> bool"
  en_public_base_url :: string
  en_email_verification_ttl_minutes :: int
  en_password_reset_ttl_minutes :: int
  en_account_email_cooldown_seconds :: int
  en_refresh_token_sliding_days :: int
  en_refresh_token_absolute_days :: int
  en_jwt_access_token_expire_minutes :: int

datatype account_status = Account_ACTIVE | Account_PENDING | Account_DISABLED

definition is_active :: "account_row \<Rightarrow> bool" where
  "is_active u \<longleftrightarrow> u_disabled_at u = None \<and> u_email_verified_at u \<noteq> None"

definition account_status_of :: "account_row \<Rightarrow> account_status" where
  "account_status_of u =
     (if u_disabled_at u \<noteq> None then Account_DISABLED
      else if u_email_verified_at u = None then Account_PENDING
      else Account_ACTIVE)"

definition get_user :: "accounts \<Rightarrow> uuid \<Rightarrow> account_row option" where
  "get_user st = tbl_get u_id (ac_users st)"

definition get_machine :: "accounts \<Rightarrow> uuid \<Rightarrow> machine_account option" where
  "get_machine st = tbl_get m_id (ac_machines st)"

definition put_user :: "account_row \<Rightarrow> accounts \<Rightarrow> accounts" where
  "put_user u st = st\<lparr>ac_users := tbl_put u_id u (ac_users st)\<rparr>"

definition put_machine :: "machine_account \<Rightarrow> accounts \<Rightarrow> accounts" where
  "put_machine m st = st\<lparr>ac_machines := tbl_put m_id m (ac_machines st)\<rparr>"

subsection \<open>Addresses\<close>

definition py_lower :: "string \<Rightarrow> string" where
  "py_lower s = map (\<lambda>c. let n = of_char c :: nat in
     if (65 \<le> n \<and> n \<le> 90) \<or> (192 \<le> n \<and> n \<le> 222 \<and> n \<noteq> 215) then char_of (n + 32) else c) s"

definition normalize_email :: "string \<Rightarrow> string" where
  "normalize_email email = py_lower (py_strip email)"

definition get_user_by_email :: "accounts \<Rightarrow> string \<Rightarrow> account_row option" where
  "get_user_by_email st email =
     find (\<lambda>u. py_lower (u_email u) = py_lower (normalize_email email)) (ac_users st)"

text \<open>The unique index \<open>uq_users_email_lower\<close>.\<close>

definition email_taken :: "accounts \<Rightarrow> string \<Rightarrow> bool" where
  "email_taken st email \<longleftrightarrow> py_lower email \<in> (\<lambda>u. py_lower (u_email u)) ` set (ac_users st)"

definition add_user :: "account_row \<Rightarrow> accounts \<Rightarrow> accounts" where
  "add_user u st = st\<lparr>ac_users := ac_users st @ [u]\<rparr>"

subsection \<open>Provisioning\<close>

definition new_user :: "uuid \<Rightarrow> string \<Rightarrow> string \<Rightarrow> role \<Rightarrow> timestamp option \<Rightarrow> account_row" where
  "new_user i display_name email role verified =
     \<lparr>u_id = i, u_role = role, u_display_name = display_name, u_email = email, u_password_hash = None,
      u_auth_version = 0, u_disabled_at = None, u_email_verified_at = verified, u_version = 1\<rparr>"

definition create_user ::
  "accounts \<Rightarrow> timestamp \<Rightarrow> uuid \<Rightarrow> string \<Rightarrow> string \<Rightarrow> role \<Rightarrow> (accounts, account_row) outcome" where
  "create_user st now i display_name email role =
     (if get_user_by_email st email \<noteq> None \<or> email_taken st (normalize_email email)
      then (st, Inl (HTTPException 409 (JText ''email already registered'')))
      else (let u = new_user i display_name (normalize_email email) role (Some now)
            in (add_user u st, Inr u)))"

definition bootstrap_admin ::
  "accounts \<Rightarrow> timestamp \<Rightarrow> uuid \<Rightarrow> string \<Rightarrow> string \<Rightarrow> (accounts, account_row) outcome" where
  "bootstrap_admin st now i display_name email =
     (case filter (\<lambda>u. u_role u = Role_ADMIN) (ac_users st) of
        [] \<Rightarrow> create_user st now i display_name email Role_ADMIN
      | [_] \<Rightarrow> (st, Inl (HTTPException 409 (JText ''an admin user already exists'')))
      | _ \<Rightarrow> (st, Inl (HTTPException 500 (JText ''MultipleResultsFound''))))"

definition workstation_invalid :: "string \<Rightarrow> http_error" where
  "workstation_invalid message =
     HTTPException 409 (JObj [(''error_code'', JText ''workstation_invalid''), (''message'', JText message)])"

definition check_workstation ::
  "accounts \<Rightarrow> uuid \<Rightarrow> uuid \<Rightarrow> uuid option \<Rightarrow> machine_account fallible" where
  "check_workstation st owner_user_id workstation_id machine_id =
     (case get_machine st workstation_id of
        None \<Rightarrow> Inl (HTTPException 404 (JText ''workstation not found''))
      | Some w \<Rightarrow>
          if m_owner_user_id w \<noteq> owner_user_id
          then Inl (HTTPException 404 (JText ''workstation not found''))
          else if m_credential_revoked_at w \<noteq> None \<or> m_workstation_id w \<noteq> None \<or> Some (m_id w) = machine_id
          then Inl (workstation_invalid ''the workstation must be an active, unattached machine'')
          else if machine_id \<noteq> None \<and> machine_id \<in> m_workstation_id ` set (ac_machines st)
          then Inl (workstation_invalid ''a workstation with attached machines cannot be attached'')
          else Inr w)"

definition new_machine :: "uuid \<Rightarrow> uuid \<Rightarrow> string \<Rightarrow> string \<Rightarrow> uuid option \<Rightarrow> machine_account" where
  "new_machine i owner display_name credential_hash workstation_id =
     \<lparr>m_id = i, m_owner_user_id = owner, m_display_name = display_name, m_last_seen_at = None,
      m_capabilities = None, m_capabilities_reported_at = None, m_launch_scope = None,
      m_credential_hash = credential_hash, m_credential_revoked_at = None,
      m_workstation_id = workstation_id, m_version = 1\<rparr>"

definition create_machine ::
  "auth_env \<Rightarrow> accounts \<Rightarrow> uuid \<Rightarrow> string \<Rightarrow> uuid \<Rightarrow> string \<Rightarrow> uuid option
     \<Rightarrow> (accounts, machine_account \<times> string) outcome" where
  "create_machine env st i token owner_user_id display_name workstation_id =
     (if get_user st owner_user_id = None then (st, Inl (HTTPException 404 (JText ''owner user not found'')))
      else on_ok (case workstation_id of None \<Rightarrow> Inr ()
                  | Some w \<Rightarrow> and_get (check_workstation st owner_user_id w None) (\<lambda>_. Inr ())) st
        (\<lambda>_. let m = new_machine i owner_user_id display_name (en_hash_token env token) workstation_id
             in (st\<lparr>ac_machines := ac_machines st @ [m]\<rparr>, Inr (m, token))))"

definition revoke_machine :: "accounts \<Rightarrow> timestamp \<Rightarrow> machine_account \<Rightarrow> accounts \<times> machine_account" where
  "revoke_machine st now m =
     (if m_credential_revoked_at m = None
      then (let m' = m\<lparr>m_credential_revoked_at := Some now, m_version := m_version m + 1\<rparr>
            in (put_machine m' st, m'))
      else (st, m))"

definition rotate_machine_credential ::
  "auth_env \<Rightarrow> accounts \<Rightarrow> string \<Rightarrow> machine_account \<Rightarrow> (accounts, machine_account \<times> string) outcome" where
  "rotate_machine_credential env st token m =
     (if m_credential_revoked_at m \<noteq> None
      then (st, Inl (HTTPException 409 (JText ''machine credential is revoked'')))
      else (let m' = m\<lparr>m_credential_hash := en_hash_token env token, m_version := m_version m + 1\<rparr>
            in (put_machine m' st, Inr (m', token))))"

definition update_machine :: "accounts \<Rightarrow> machine_account \<Rightarrow> string \<Rightarrow> accounts \<times> machine_account" where
  "update_machine st m display_name =
     (if m_display_name m \<noteq> display_name
      then (let m' = m\<lparr>m_display_name := display_name, m_version := m_version m + 1\<rparr>
            in (put_machine m' st, m'))
      else (st, m))"

definition set_machine_workstation ::
  "accounts \<Rightarrow> machine_account \<Rightarrow> uuid option \<Rightarrow> (accounts, machine_account) outcome" where
  "set_machine_workstation st m workstation_id =
     on_ok (case workstation_id of None \<Rightarrow> Inr ()
            | Some w \<Rightarrow> and_get (check_workstation st (m_owner_user_id m) w (Some (m_id m))) (\<lambda>_. Inr ())) st
       (\<lambda>_. if m_workstation_id m \<noteq> workstation_id
            then (let m' = m\<lparr>m_workstation_id := workstation_id, m_version := m_version m + 1\<rparr>
                  in (put_machine m' st, Inr m'))
            else (st, Inr m))"

definition list_active_machines :: "accounts \<Rightarrow> uuid option \<Rightarrow> machine_account list" where
  "list_active_machines st owner =
     filter (\<lambda>m. m_credential_revoked_at m = None \<and> (owner = None \<or> owner = Some (m_owner_user_id m)))
       (ac_machines st)"

definition list_machines :: "accounts \<Rightarrow> string option \<Rightarrow> (machine_account \<times> account_row) list" where
  "list_machines st owner_email =
     concat (map (\<lambda>m. map (Pair m) (filter (\<lambda>u. u_id u = m_owner_user_id m \<and>
         (case owner_email of None \<Rightarrow> True | Some e \<Rightarrow> py_lower (u_email u) = py_lower (normalize_email e)))
       (ac_users st))) (ac_machines st))"

definition get_machine_by_token :: "auth_env \<Rightarrow> accounts \<Rightarrow> string \<Rightarrow> (machine_account \<times> account_row) option" where
  "get_machine_by_token env st token =
     find (\<lambda>(m, u). m_credential_hash m = en_hash_token env token) (list_machines st None)"

subsection \<open>Passwords and sessions\<close>

definition revoke_sessions_in_place :: "account_row \<Rightarrow> account_row" where
  "revoke_sessions_in_place u = u\<lparr>u_auth_version := u_auth_version u + 1, u_version := u_version u + 1\<rparr>"

definition apply_new_password :: "account_row \<Rightarrow> string \<Rightarrow> account_row" where
  "apply_new_password u password_hash = revoke_sessions_in_place (u\<lparr>u_password_hash := Some password_hash\<rparr>)"

definition user_not_found :: http_error where
  "user_not_found = HTTPException 404 (JText ''user not found'')"

definition set_user_password ::
  "auth_env \<Rightarrow> accounts \<Rightarrow> string \<Rightarrow> string \<Rightarrow> string \<Rightarrow> (accounts, account_row) outcome" where
  "set_user_password env st salt email password =
     on_ok (found user_not_found (get_user_by_email st email)) st
       (\<lambda>u. let u' = apply_new_password u (en_hash_password env salt password) in (put_user u' st, Inr u'))"

definition get_user_or_404 :: "accounts \<Rightarrow> uuid \<Rightarrow> account_row fallible" where
  "get_user_or_404 st i =
     found (HTTPException 404 (JObj [(''error_code'', JText ''not_found''), (''user'', JUuid i)])) (get_user st i)"

definition ensure_not_self :: "uuid \<Rightarrow> uuid \<Rightarrow> string \<Rightarrow> unit fallible" where
  "ensure_not_self actor_id target_user_id action =
     raise_if (actor_id = target_user_id)
       (HTTPException 403 (JObj [(''error_code'', JText ''self_modification_forbidden''),
          (''message'', JText ''an account cannot change its own role, state or access''),
          (''resource'', JText ''user''), (''action'', JText action)]))"

definition revoke_sessions_of :: "accounts \<Rightarrow> account_row \<Rightarrow> accounts \<times> account_row" where
  "revoke_sessions_of st u = (let u' = revoke_sessions_in_place u in (put_user u' st, u'))"

definition expire_tokens :: "(account_token \<Rightarrow> bool) \<Rightarrow> timestamp \<Rightarrow> accounts \<Rightarrow> accounts" where
  "expire_tokens P now st =
     st\<lparr>ac_tokens := map (\<lambda>t. if P t \<and> at_consumed_at t = None \<and> now < at_expires_at t
       then t\<lparr>at_expires_at := now\<rparr> else t) (ac_tokens st)\<rparr>"

definition disable_account :: "accounts \<Rightarrow> timestamp \<Rightarrow> account_row \<Rightarrow> accounts \<times> account_row" where
  "disable_account st now u =
     (if u_disabled_at u = None
      then (let u' = revoke_sessions_in_place (u\<lparr>u_disabled_at := Some now\<rparr>)
            in (expire_tokens (\<lambda>t. at_user_id t = u_id u) now (put_user u' st), u'))
      else (st, u))"

definition enable_account :: "accounts \<Rightarrow> account_row \<Rightarrow> accounts \<times> account_row" where
  "enable_account st u =
     (if u_disabled_at u \<noteq> None
      then (let u' = u\<lparr>u_disabled_at := None, u_version := u_version u + 1\<rparr> in (put_user u' st, u'))
      else (st, u))"

definition verify_user_password :: "auth_env \<Rightarrow> accounts \<Rightarrow> string \<Rightarrow> string \<Rightarrow> account_row option" where
  "verify_user_password env st email password =
     (case get_user_by_email st email of
        None \<Rightarrow> None
      | Some u \<Rightarrow>
          (case u_password_hash u of
             None \<Rightarrow> None
           | Some h \<Rightarrow> if en_check_password env password h \<and> is_active u then Some u else None))"

text \<open>\<open>scalar_one_or_none\<close> raises \<open>MultipleResultsFound\<close>, which no handler catches: a 500.\<close>

definition get_or_create_dashboard_machine ::
  "auth_env \<Rightarrow> accounts \<Rightarrow> uuid \<Rightarrow> string \<Rightarrow> account_row \<Rightarrow> (accounts, machine_account) outcome" where
  "get_or_create_dashboard_machine env st i token u =
     (case filter (\<lambda>m. m_owner_user_id m = u_id u \<and> m_display_name m = ''dashboard''
             \<and> m_credential_revoked_at m = None) (ac_machines st) of
        [m] \<Rightarrow> (st, Inr m)
      | [] \<Rightarrow> (case create_machine env st i token (u_id u) ''dashboard'' None of
                (st', Inl e) \<Rightarrow> (st', Inl e)
              | (st', Inr (m, _)) \<Rightarrow> (st', Inr m))
      | _ \<Rightarrow> (st, Inl (HTTPException 500 (JText ''MultipleResultsFound''))))"

subsection \<open>Account secrets\<close>

definition minutes :: "int \<Rightarrow> timestamp" where
  "minutes n = seconds (60 * n)"

definition expire_outstanding :: "accounts \<Rightarrow> uuid \<Rightarrow> token_purpose \<Rightarrow> timestamp \<Rightarrow> accounts" where
  "expire_outstanding st user_id purpose now =
     expire_tokens (\<lambda>t. at_user_id t = user_id \<and> at_purpose t = purpose) now st"

definition last_created :: "accounts \<Rightarrow> uuid \<Rightarrow> token_purpose \<Rightarrow> timestamp option" where
  "last_created st user_id purpose =
     (case map at_created_at (filter (\<lambda>t. at_user_id t = user_id \<and> at_purpose t = purpose) (ac_tokens st)) of
        [] \<Rightarrow> None | t # ts \<Rightarrow> Some (fold max ts t))"

definition issue_secret ::
  "auth_env \<Rightarrow> accounts \<Rightarrow> timestamp \<Rightarrow> string \<Rightarrow> uuid \<Rightarrow> token_purpose \<Rightarrow> timestamp \<Rightarrow> accounts \<times> string option" where
  "issue_secret env st now secret user_id purpose ttl =
     (if (case last_created st user_id purpose of None \<Rightarrow> False
          | Some t \<Rightarrow> now - t < seconds (en_account_email_cooldown_seconds env))
      then (st, None)
      else (let st1 = expire_outstanding st user_id purpose now
            in (st1\<lparr>ac_tokens := ac_tokens st1 @
                 [\<lparr>at_user_id = user_id, at_purpose = purpose, at_token_hash = en_hash_token env secret,
                   at_created_at = now, at_expires_at = now + ttl, at_consumed_at = None\<rparr>]\<rparr>, Some secret)))"

definition consumable :: "string \<Rightarrow> token_purpose \<Rightarrow> timestamp \<Rightarrow> account_token \<Rightarrow> bool" where
  "consumable h purpose now t \<longleftrightarrow>
     at_token_hash t = h \<and> at_purpose t = purpose \<and> at_consumed_at t = None \<and> now < at_expires_at t"

definition consume_secret ::
  "auth_env \<Rightarrow> accounts \<Rightarrow> timestamp \<Rightarrow> string \<Rightarrow> token_purpose \<Rightarrow> accounts \<times> account_token option" where
  "consume_secret env st now secret purpose =
     (let hit = consumable (en_hash_token env secret) purpose now
      in (st\<lparr>ac_tokens := map (\<lambda>t. if hit t then t\<lparr>at_consumed_at := Some now\<rparr> else t) (ac_tokens st)\<rparr>,
          find hit (ac_tokens st)))"

definition invalid_token :: http_error where
  "invalid_token = HTTPException 400 (JObj [(''error_code'', JText ''invalid_or_expired_token''),
     (''message'', JText ''this link is invalid, expired or already used'')])"

record outgoing_email =
  oe_to :: string
  oe_link :: string
  oe_kind :: token_purpose

definition strip_slashes :: "string \<Rightarrow> string" where
  "strip_slashes s = rev (dropWhile (\<lambda>c. c = CHR ''/'') (rev s))"

definition verification_email :: "auth_env \<Rightarrow> account_row \<Rightarrow> string \<Rightarrow> outgoing_email" where
  "verification_email env u secret =
     \<lparr>oe_to = u_email u, oe_link = strip_slashes (en_public_base_url env) @ ''/verify-email#token='' @ secret,
      oe_kind = EMAIL_VERIFICATION\<rparr>"

definition password_reset_email :: "auth_env \<Rightarrow> account_row \<Rightarrow> string \<Rightarrow> outgoing_email" where
  "password_reset_email env u secret =
     \<lparr>oe_to = u_email u, oe_link = strip_slashes (en_public_base_url env) @ ''/reset-password#token='' @ secret,
      oe_kind = PASSWORD_RESET\<rparr>"

definition send_verification ::
  "auth_env \<Rightarrow> accounts \<Rightarrow> timestamp \<Rightarrow> string \<Rightarrow> account_row \<Rightarrow> accounts \<times> outgoing_email list" where
  "send_verification env st now secret u =
     (case issue_secret env st now secret (u_id u) EMAIL_VERIFICATION
             (minutes (en_email_verification_ttl_minutes env)) of
        (st', None) \<Rightarrow> (st', [])
      | (st', Some s) \<Rightarrow> (st', [verification_email env u s]))"

definition SELF_REGISTERED_ROLE :: role where
  "SELF_REGISTERED_ROLE = Role_READONLY"

definition register ::
  "auth_env \<Rightarrow> accounts \<Rightarrow> timestamp \<Rightarrow> uuid \<Rightarrow> string \<Rightarrow> string \<Rightarrow> accounts \<times> outgoing_email list" where
  "register env st now i secret email =
     (let normalized = normalize_email email
      in case get_user_by_email st normalized of
           None \<Rightarrow>
             if email_taken st normalized then (st, [])
             else (let u = new_user i (takeWhile (\<lambda>c. c \<noteq> CHR 0x40) normalized) normalized SELF_REGISTERED_ROLE None
                   in send_verification env (add_user u st) now secret u)
         | Some u \<Rightarrow>
             if account_status_of u \<noteq> Account_PENDING then (st, [])
             else send_verification env st now secret u)"

definition resend_verification ::
  "auth_env \<Rightarrow> accounts \<Rightarrow> timestamp \<Rightarrow> string \<Rightarrow> string \<Rightarrow> accounts \<times> outgoing_email list" where
  "resend_verification env st now secret email =
     (case get_user_by_email st email of
        None \<Rightarrow> (st, [])
      | Some u \<Rightarrow> if account_status_of u \<noteq> Account_PENDING then (st, [])
                  else send_verification env st now secret u)"

text \<open>The rollback of a refused call undoes the consumption.\<close>

definition verify_email ::
  "auth_env \<Rightarrow> accounts \<Rightarrow> timestamp \<Rightarrow> string \<Rightarrow> string \<Rightarrow> string \<Rightarrow> string \<Rightarrow> (accounts, string) outcome" where
  "verify_email env st now salt secret password display_name =
     (case consume_secret env st now secret EMAIL_VERIFICATION of
        (st1, None) \<Rightarrow> (st, Inl invalid_token)
      | (st1, Some t) \<Rightarrow>
          (case get_user st1 (at_user_id t) of
             None \<Rightarrow> (st, Inl invalid_token)
           | Some u \<Rightarrow>
               if account_status_of u \<noteq> Account_PENDING then (st, Inl invalid_token)
               else (let u' = u\<lparr>u_email_verified_at := Some now,
                            u_password_hash := Some (en_hash_password env salt password),
                            u_display_name := display_name, u_version := u_version u + 1\<rparr>
                     in (expire_outstanding (put_user u' st1) (u_id u) EMAIL_VERIFICATION now, Inr ''verified''))))"

definition forgot_password ::
  "auth_env \<Rightarrow> accounts \<Rightarrow> timestamp \<Rightarrow> string \<Rightarrow> string \<Rightarrow> accounts \<times> outgoing_email list" where
  "forgot_password env st now secret email =
     (case get_user_by_email st email of
        None \<Rightarrow> (st, [])
      | Some u \<Rightarrow>
          if account_status_of u = Account_DISABLED then (st, [])
          else (case issue_secret env st now secret (u_id u) PASSWORD_RESET
                       (minutes (en_password_reset_ttl_minutes env)) of
                  (st', None) \<Rightarrow> (st', [])
                | (st', Some s) \<Rightarrow> (st', [password_reset_email env u s])))"

text \<open>The assertion that the owner exists holds by the foreign key of the token.\<close>

definition reset_password ::
  "auth_env \<Rightarrow> accounts \<Rightarrow> timestamp \<Rightarrow> string \<Rightarrow> string \<Rightarrow> string \<Rightarrow> (accounts, string) outcome" where
  "reset_password env st now salt secret new_password =
     (case consume_secret env st now secret PASSWORD_RESET of
        (st1, None) \<Rightarrow> (st, Inl invalid_token)
      | (st1, Some t) \<Rightarrow>
          (case get_user st1 (at_user_id t) of
             None \<Rightarrow> (st, Inl (HTTPException 500 (JText ''AssertionError'')))
           | Some u \<Rightarrow>
               if account_status_of u = Account_DISABLED then (st, Inl invalid_token)
               else (let u1 = apply_new_password u (en_hash_password env salt new_password);
                         u2 = (if u_email_verified_at u = None then u1\<lparr>u_email_verified_at := Some now\<rparr> else u1);
                         st2 = put_user u2 st1;
                         st3 = (if u_email_verified_at u = None
                                then expire_outstanding st2 (u_id u) EMAIL_VERIFICATION now else st2)
                     in (expire_outstanding st3 (u_id u) PASSWORD_RESET now, Inr ''password_reset''))))"

definition change_password ::
  "auth_env \<Rightarrow> accounts \<Rightarrow> string \<Rightarrow> uuid \<Rightarrow> string \<Rightarrow> string \<Rightarrow> (accounts, string) outcome" where
  "change_password env st salt user_id current_password new_password =
     (let wrong = HTTPException 400 (JObj [(''error_code'', JText ''invalid_current_password''),
            (''message'', JText ''the current password is incorrect'')])
      in case get_user st user_id of
           None \<Rightarrow> (st, Inl wrong)
         | Some u \<Rightarrow>
             (case u_password_hash u of
                None \<Rightarrow> (st, Inl wrong)
              | Some h \<Rightarrow>
                  if \<not> en_check_password env current_password h then (st, Inl wrong)
                  else (put_user (apply_new_password u (en_hash_password env salt new_password)) st,
                        Inr ''password_changed'')))"

end
