(* ===== verification/Refresh_Tokens.thy ===== *)
theory Refresh_Tokens
  imports Accounts Launch_Rules
begin

section \<open>Sessions of a person and of a launch (\<open>refresh_tokens.py, jwt_auth.py, launch_credentials.py\<close>)\<close>

text \<open>
  Login, access tokens, rotating refresh tokens and the credential of one launch. A JWT is the
  claims it carries: signing and verifying are the library's. The rows of a machine as
  \<open>resolve_machine\<close> returns it are compared by their machine columns.
\<close>

subsection \<open>Refresh tokens\<close>

definition days :: "int \<Rightarrow> timestamp" where
  "days n = seconds (86400 * n)"

record issued_refresh =
  rs_secret :: string
  rs_expires_at :: timestamp

definition sliding_expiry :: "auth_env \<Rightarrow> timestamp \<Rightarrow> timestamp \<Rightarrow> timestamp" where
  "sliding_expiry env now absolute = min (now + days (en_refresh_token_sliding_days env)) absolute"

definition new_refresh_row ::
  "auth_env \<Rightarrow> timestamp \<Rightarrow> string \<Rightarrow> uuid \<Rightarrow> uuid \<Rightarrow> uuid \<Rightarrow> int \<Rightarrow> timestamp \<Rightarrow> refresh_row" where
  "new_refresh_row env now secret user_id machine_id family_id auth_version absolute =
     \<lparr>rt_user_id = user_id, rt_machine_id = machine_id, rt_family_id = family_id,
      rt_token_hash = en_hash_token env secret, rt_auth_version = auth_version, rt_created_at = now,
      rt_expires_at = sliding_expiry env now absolute, rt_absolute_expires_at = absolute,
      rt_consumed_at = None, rt_revoked_at = None\<rparr>"

definition add_refresh :: "refresh_row \<Rightarrow> accounts \<Rightarrow> accounts" where
  "add_refresh r st = st\<lparr>ac_refresh := ac_refresh st @ [r]\<rparr>"

definition issue_refresh ::
  "auth_env \<Rightarrow> accounts \<Rightarrow> timestamp \<Rightarrow> string \<Rightarrow> uuid \<Rightarrow> account_row \<Rightarrow> machine_account
     \<Rightarrow> accounts \<times> issued_refresh" where
  "issue_refresh env st now secret family_id u m =
     (let r = new_refresh_row env now secret (u_id u) (m_id m) family_id (u_auth_version u)
            (now + days (en_refresh_token_absolute_days env))
      in (add_refresh r st, \<lparr>rs_secret = secret, rs_expires_at = rt_expires_at r\<rparr>))"

definition revoke_family :: "uuid \<Rightarrow> timestamp \<Rightarrow> accounts \<Rightarrow> accounts" where
  "revoke_family family_id now st =
     st\<lparr>ac_refresh := map (\<lambda>r. if rt_family_id r = family_id \<and> rt_revoked_at r = None
       then r\<lparr>rt_revoked_at := Some now\<rparr> else r) (ac_refresh st)\<rparr>"

definition session_owner :: "accounts \<Rightarrow> refresh_row \<Rightarrow> (account_row \<times> machine_account) option" where
  "session_owner st r =
     (case get_machine st (rt_machine_id r) of
        None \<Rightarrow> None
      | Some m \<Rightarrow>
          if m_credential_revoked_at m \<noteq> None \<or> m_owner_user_id m \<noteq> rt_user_id r then None
          else (case get_user st (rt_user_id r) of
                  None \<Rightarrow> None
                | Some u \<Rightarrow>
                    if \<not> is_active u \<or> u_auth_version u \<noteq> rt_auth_version r then None else Some (u, m)))"

definition rotatable :: "string \<Rightarrow> timestamp \<Rightarrow> refresh_row \<Rightarrow> bool" where
  "rotatable h now r \<longleftrightarrow>
     rt_token_hash r = h \<and> rt_consumed_at r = None \<and> rt_revoked_at r = None \<and> now < rt_expires_at r"

definition consume_refresh :: "string \<Rightarrow> timestamp \<Rightarrow> accounts \<Rightarrow> accounts" where
  "consume_refresh h now st =
     st\<lparr>ac_refresh := map (\<lambda>r. if rotatable h now r then r\<lparr>rt_consumed_at := Some now\<rparr> else r) (ac_refresh st)\<rparr>"

definition refuse_unconsumable :: "string \<Rightarrow> timestamp \<Rightarrow> accounts \<Rightarrow> accounts" where
  "refuse_unconsumable h now st =
     (case find (\<lambda>r. rt_token_hash r = h) (ac_refresh st) of
        None \<Rightarrow> st
      | Some r \<Rightarrow>
          if rt_revoked_at r \<noteq> None then st
          else if rt_consumed_at r \<noteq> None then revoke_family (rt_family_id r) now st
          else st)"

definition rotate_refresh ::
  "auth_env \<Rightarrow> accounts \<Rightarrow> timestamp \<Rightarrow> string \<Rightarrow> string
     \<Rightarrow> accounts \<times> (account_row \<times> machine_account \<times> issued_refresh) option" where
  "rotate_refresh env st now successor secret =
     (let h = en_hash_token env secret
      in case find (rotatable h now) (ac_refresh st) of
           None \<Rightarrow> (refuse_unconsumable h now st, None)
         | Some r \<Rightarrow>
             (let st1 = consume_refresh h now st
              in case session_owner st1 r of
                   None \<Rightarrow> (revoke_family (rt_family_id r) now st1, None)
                 | Some (u, m) \<Rightarrow>
                     (let r' = new_refresh_row env now successor (u_id u) (m_id m) (rt_family_id r)
                            (rt_auth_version r) (rt_absolute_expires_at r)
                      in (add_refresh r' st1,
                          Some (u, m, \<lparr>rs_secret = successor, rs_expires_at = rt_expires_at r'\<rparr>)))))"

definition revoke_refresh :: "auth_env \<Rightarrow> accounts \<Rightarrow> timestamp \<Rightarrow> string \<Rightarrow> accounts" where
  "revoke_refresh env st now secret =
     (case find (\<lambda>r. rt_token_hash r = en_hash_token env secret) (ac_refresh st) of
        None \<Rightarrow> st
      | Some r \<Rightarrow> revoke_family (rt_family_id r) now st)"

subsection \<open>Access tokens and login\<close>

record access_token =
  jw_user_id :: uuid
  jw_machine_id :: uuid
  jw_auth_version :: int
  jw_exp :: timestamp

definition access_token_lifetime_seconds :: "auth_env \<Rightarrow> int" where
  "access_token_lifetime_seconds env = en_jwt_access_token_expire_minutes env * 60"

definition create_access_token :: "auth_env \<Rightarrow> timestamp \<Rightarrow> account_row \<Rightarrow> machine_account \<Rightarrow> access_token" where
  "create_access_token env now u m =
     \<lparr>jw_user_id = u_id u, jw_machine_id = m_id m, jw_auth_version = u_auth_version u,
      jw_exp = now + seconds (access_token_lifetime_seconds env)\<rparr>"

definition resolve_jwt_machine :: "accounts \<Rightarrow> access_token \<Rightarrow> machine_account option" where
  "resolve_jwt_machine st claims =
     (case get_machine st (jw_machine_id claims) of
        None \<Rightarrow> None
      | Some m \<Rightarrow>
          if m_credential_revoked_at m \<noteq> None \<or> m_owner_user_id m \<noteq> jw_user_id claims then None
          else (case get_user st (jw_user_id claims) of
                  None \<Rightarrow> None
                | Some u \<Rightarrow>
                    if \<not> is_active u \<or> u_auth_version u \<noteq> jw_auth_version claims then None else Some m))"

record token_response =
  tr_access_token :: access_token
  tr_expires_in :: int
  tr_refresh :: "issued_refresh option"

definition login ::
  "auth_env \<Rightarrow> accounts \<Rightarrow> timestamp \<Rightarrow> uuid \<Rightarrow> string \<Rightarrow> uuid \<Rightarrow> string \<Rightarrow> string \<Rightarrow> string \<Rightarrow> bool
     \<Rightarrow> (accounts, token_response) outcome" where
  "login env st now i machine_token family_id secret email password persistent =
     (case verify_user_password env st email password of
        None \<Rightarrow> (st, Inl (HTTPException 401 (JText ''invalid email or password'')))
      | Some u \<Rightarrow>
          (case get_or_create_dashboard_machine env st i machine_token u of
             (st1, Inl e) \<Rightarrow> (st1, Inl e)
           | (st1, Inr m) \<Rightarrow>
               (let answer = (\<lambda>r. \<lparr>tr_access_token = create_access_token env now u m,
                      tr_expires_in = access_token_lifetime_seconds env, tr_refresh = r\<rparr>)
                in if persistent
                   then (case issue_refresh env st1 now secret family_id u m of
                           (st2, r) \<Rightarrow> (st2, Inr (answer (Some r))))
                   else (st1, Inr (answer None)))))"

definition refresh ::
  "auth_env \<Rightarrow> accounts \<Rightarrow> timestamp \<Rightarrow> string \<Rightarrow> string \<Rightarrow> (accounts, token_response) outcome" where
  "refresh env st now successor refresh_token =
     (case rotate_refresh env st now successor refresh_token of
        (st', None) \<Rightarrow> (st', Inl (HTTPException 401 (JText ''invalid or expired refresh token'')))
      | (st', Some (u, m, r)) \<Rightarrow>
          (st', Inr \<lparr>tr_access_token = create_access_token env now u m,
             tr_expires_in = access_token_lifetime_seconds env, tr_refresh = Some r\<rparr>))"

subsection \<open>The credential of one launch\<close>

record launch_credential =
  lc_launch_id :: uuid
  lc_machine_id :: uuid
  lc_project_id :: uuid
  lc_task_id :: uuid
  lc_credential_hash :: string
  lc_expires_at :: timestamp
  lc_revoked_at :: "timestamp option"

definition issuable :: "launch_status \<Rightarrow> bool" where
  "issuable s \<longleftrightarrow> s = LS_ACCEPTED \<or> s = LS_PREPARING \<or> s = LS_RUNNING"

definition LAUNCH_REST_ALLOWLIST :: "(string \<times> string) set" where
  "LAUNCH_REST_ALLOWLIST =
     {(''POST'', ''/api/v1/agents/ensure''), (''POST'', ''/api/v1/agents/resolve-identity''),
      (''GET'', ''/api/v1/agents''), (''GET'', ''/api/v1/capabilities''),
      (''POST'', ''/api/v1/usage''), (''POST'', ''/api/v1/usage/corrections'')}"

definition LAUNCH_MCP_ALLOWLIST :: "string set" where
  "LAUNCH_MCP_ALLOWLIST =
     {''studio_prepare_context'', ''studio_start_work'', ''studio_start_session'', ''studio_end_session'',
      ''studio_sync'', ''studio_coordinate'', ''studio_log_ai_work'', ''studio_handoff'',
      ''studio_register_agent'', ''studio_resolve_agent_identity'', ''studio_discover_capabilities'',
      ''studio_get_task'', ''studio_update_task'', ''studio_claim_task'', ''studio_release_task'',
      ''studio_claim_resource'', ''studio_claim_resources'', ''studio_release_resource'',
      ''studio_get_resource_claims'', ''studio_get_decisions'', ''studio_add_decision''}"

definition scope_denied :: http_error where
  "scope_denied = HTTPException 403 (JObj [(''error_code'', JText ''launch_credential_scope'')])"

text \<open>\<open>method\<close> is upper case already.\<close>

definition ensure_rest_allowed :: "'a machine_row_scheme \<Rightarrow> string \<Rightarrow> string option \<Rightarrow> unit fallible" where
  "ensure_rest_allowed m method route_path =
     raise_if (m_launch_scope m \<noteq> None \<and>
         (case route_path of None \<Rightarrow> True | Some p \<Rightarrow> (method, p) \<notin> LAUNCH_REST_ALLOWLIST)) scope_denied"

definition ensure_tool_allowed :: "'a machine_row_scheme \<Rightarrow> string option \<Rightarrow> unit fallible" where
  "ensure_tool_allowed m tool_name =
     raise_if (m_launch_scope m \<noteq> None \<and>
         (case tool_name of None \<Rightarrow> True | Some n \<Rightarrow> n \<notin> LAUNCH_MCP_ALLOWLIST)) scope_denied"

text \<open>A credential opens its launch's machine: the row of the join, tagged with its scope.\<close>

definition credential_opens ::
  "accounts \<Rightarrow> launch_row list \<Rightarrow> timestamp \<Rightarrow> string \<Rightarrow> launch_credential \<Rightarrow> bool" where
  "credential_opens st launches now h c \<longleftrightarrow>
     lc_credential_hash c = h \<and> lc_revoked_at c = None \<and> now < lc_expires_at c \<and>
     (case tbl_get l_id launches (lc_launch_id c) of
        None \<Rightarrow> False | Some l \<Rightarrow> \<not> launch_terminal (l_status l) \<and> now < l_expires_at l) \<and>
     (case get_machine st (lc_machine_id c) of
        None \<Rightarrow> False
      | Some m \<Rightarrow> m_credential_revoked_at m = None \<and>
          (case get_user st (m_owner_user_id m) of None \<Rightarrow> False | Some u \<Rightarrow> is_active u))"

definition resolve_launch_credential ::
  "auth_env \<Rightarrow> accounts \<Rightarrow> launch_row list \<Rightarrow> launch_credential list \<Rightarrow> timestamp \<Rightarrow> string
     \<Rightarrow> machine_account option" where
  "resolve_launch_credential env st launches creds now token =
     (case find (credential_opens st launches now (en_hash_token env token)) creds of
        None \<Rightarrow> None
      | Some c \<Rightarrow> map_option (\<lambda>m. m\<lparr>m_launch_scope := Some \<lparr>ls_launch_id = lc_launch_id c,
            ls_project_id = lc_project_id c, ls_task_id = lc_task_id c\<rparr>\<rparr>) (get_machine st (lc_machine_id c)))"

definition resolve_machine ::
  "auth_env \<Rightarrow> accounts \<Rightarrow> launch_row list \<Rightarrow> launch_credential list \<Rightarrow> timestamp \<Rightarrow> string
     \<Rightarrow> machine_account option" where
  "resolve_machine env st launches creds now token =
     (case find (\<lambda>m. m_credential_hash m = en_hash_token env token \<and> m_credential_revoked_at m = None \<and>
             (case get_user st (m_owner_user_id m) of None \<Rightarrow> False | Some u \<Rightarrow> is_active u)) (ac_machines st) of
        Some m \<Rightarrow> Some m
      | None \<Rightarrow> resolve_launch_credential env st launches creds now token)"

definition issue_credential ::
  "auth_env \<Rightarrow> launch_credential list \<Rightarrow> timestamp \<Rightarrow> string \<Rightarrow> principal \<Rightarrow> launch_row
     \<Rightarrow> (launch_credential list, string \<times> timestamp) outcome" where
  "issue_credential env creds now token p l =
     guarded (and_then (ensure_can_write p ''task_launch'')
        (and_then (ensure_project_access p (l_project_id l) ReadAction)
          (and_then (raise_if (l_machine_id l \<noteq> m_id (p_machine p) \<or> m_launch_scope (p_machine p) \<noteq> None)
             (forbidden ''task_launch'' ''credential''))
            (raise_if (\<not> issuable (l_status l) \<or> l_expires_at l \<le> now)
               (HTTPException 409 (JObj [(''error_code'', JText ''launch_not_active'')])))))) creds
       (let revoked = map (\<lambda>c. if lc_launch_id c = l_id l \<and> lc_revoked_at c = None
              then c\<lparr>lc_revoked_at := Some now\<rparr> else c) creds
        in (revoked @ [\<lparr>lc_launch_id = l_id l, lc_machine_id = l_machine_id l, lc_project_id = l_project_id l,
              lc_task_id = l_task_id l, lc_credential_hash = en_hash_token env token,
              lc_expires_at = l_expires_at l, lc_revoked_at = None\<rparr>], Inr (token, l_expires_at l)))"

end
