(* ===== verification/Account_Safety.thy ===== *)
theory Account_Safety
  imports Refresh_Tokens
begin

section \<open>Reachable account states\<close>

text \<open>
  Every operation on accounts, machines and sessions as one step, with the clock; what is drawn
  is new (\<open>secrets.token_urlsafe(32)\<close>, \<open>uuid4\<close>). Then what holds in every reachable state: a
  refresh secret rotates once, a replayed one ends its family, one secret of a family is live,
  a revocation of sessions is final, an account secret works once, workstations never nest.
\<close>

subsection \<open>Operations\<close>

datatype account_op =
    Create_User uuid string string role
  | Bootstrap_Admin uuid string string
  | Register uuid string string
  | Resend_Verification string string
  | Verify_Email string string string string
  | Forgot_Password string string
  | Reset_Password string string string
  | Change_Password string uuid string string
  | Set_User_Password string string string
  | Revoke_Sessions uuid
  | Disable_Account uuid
  | Enable_Account uuid
  | Create_Machine uuid string uuid string "uuid option"
  | Revoke_Machine uuid
  | Rotate_Credential uuid string
  | Rename_Machine uuid string
  | Set_Workstation uuid "uuid option"
  | Login uuid string uuid string string string bool
  | Refresh string string
  | Logout string

fun on_user :: "accounts \<Rightarrow> uuid \<Rightarrow> (account_row \<Rightarrow> accounts) \<Rightarrow> accounts" where
  "on_user st i k = (case get_user st i of None \<Rightarrow> st | Some u \<Rightarrow> k u)"

fun on_machine :: "accounts \<Rightarrow> uuid \<Rightarrow> (machine_account \<Rightarrow> accounts) \<Rightarrow> accounts" where
  "on_machine st i k = (case get_machine st i of None \<Rightarrow> st | Some m \<Rightarrow> k m)"

fun perform :: "auth_env \<Rightarrow> timestamp \<Rightarrow> account_op \<Rightarrow> accounts \<Rightarrow> accounts" where
  "perform env now (Create_User i name email role) st = fst (create_user st now i name email role)"
| "perform env now (Bootstrap_Admin i name email) st = fst (bootstrap_admin st now i name email)"
| "perform env now (Register i secret email) st = fst (register env st now i secret email)"
| "perform env now (Resend_Verification secret email) st = fst (resend_verification env st now secret email)"
| "perform env now (Verify_Email salt secret pw name) st = fst (verify_email env st now salt secret pw name)"
| "perform env now (Forgot_Password secret email) st = fst (forgot_password env st now secret email)"
| "perform env now (Reset_Password salt secret pw) st = fst (reset_password env st now salt secret pw)"
| "perform env now (Change_Password salt i old new) st = fst (change_password env st salt i old new)"
| "perform env now (Set_User_Password salt email pw) st = fst (set_user_password env st salt email pw)"
| "perform env now (Revoke_Sessions i) st = on_user st i (\<lambda>u. fst (revoke_sessions_of st u))"
| "perform env now (Disable_Account i) st = on_user st i (\<lambda>u. fst (disable_account st now u))"
| "perform env now (Enable_Account i) st = on_user st i (\<lambda>u. fst (enable_account st u))"
| "perform env now (Create_Machine i token owner name w) st = fst (create_machine env st i token owner name w)"
| "perform env now (Revoke_Machine i) st = on_machine st i (\<lambda>m. fst (revoke_machine st now m))"
| "perform env now (Rotate_Credential i token) st =
     on_machine st i (\<lambda>m. fst (rotate_machine_credential env st token m))"
| "perform env now (Rename_Machine i name) st = on_machine st i (\<lambda>m. fst (update_machine st m name))"
| "perform env now (Set_Workstation i w) st = on_machine st i (\<lambda>m. fst (set_machine_workstation st m w))"
| "perform env now (Login i token family secret email pw persistent) st =
     fst (login env st now i token family secret email pw persistent)"
| "perform env now (Refresh successor secret) st = fst (refresh env st now successor secret)"
| "perform env now (Logout secret) st = revoke_refresh env st now secret"

definition fresh_hash :: "auth_env \<Rightarrow> accounts \<Rightarrow> string \<Rightarrow> bool" where
  "fresh_hash env st secret \<longleftrightarrow>
     en_hash_token env secret \<notin> rt_token_hash ` set (ac_refresh st) \<union> at_token_hash ` set (ac_tokens st)"

fun fresh_draws :: "auth_env \<Rightarrow> account_op \<Rightarrow> accounts \<Rightarrow> bool" where
  "fresh_draws env (Create_User i name email role) st = (i \<notin> u_id ` set (ac_users st))"
| "fresh_draws env (Bootstrap_Admin i name email) st = (i \<notin> u_id ` set (ac_users st))"
| "fresh_draws env (Register i secret email) st = (i \<notin> u_id ` set (ac_users st) \<and> fresh_hash env st secret)"
| "fresh_draws env (Resend_Verification secret email) st = fresh_hash env st secret"
| "fresh_draws env (Forgot_Password secret email) st = fresh_hash env st secret"
| "fresh_draws env (Create_Machine i token owner name w) st = (i \<notin> m_id ` set (ac_machines st))"
| "fresh_draws env (Login i token family secret email pw persistent) st =
     (i \<notin> m_id ` set (ac_machines st) \<and> family \<notin> rt_family_id ` set (ac_refresh st) \<and> fresh_hash env st secret)"
| "fresh_draws env (Refresh successor secret) st = fresh_hash env st successor"
| "fresh_draws env _ st = True"

inductive account_step :: "auth_env \<Rightarrow> timestamp \<times> accounts \<Rightarrow> timestamp \<times> accounts \<Rightarrow> bool" for env where
  "now \<le> now' \<Longrightarrow> fresh_draws env op st \<Longrightarrow> account_step env (now, st) (now', perform env now' op st)"

inductive_cases account_stepE [elim!]: "account_step env (now, st) (now', st')"

abbreviation account_steps :: "auth_env \<Rightarrow> timestamp \<times> accounts \<Rightarrow> timestamp \<times> accounts \<Rightarrow> bool" where
  "account_steps env \<equiv> (account_step env)\<^sup>*\<^sup>*"

definition no_accounts :: accounts where
  "no_accounts = \<lparr>ac_users = [], ac_machines = [], ac_tokens = [], ac_refresh = []\<rparr>"

definition account_reachable :: "auth_env \<Rightarrow> timestamp \<Rightarrow> accounts \<Rightarrow> bool" where
  "account_reachable env now st \<longleftrightarrow> (\<exists>t. account_steps env (t, no_accounts) (now, st))"

lemma account_reachable_step:
  "account_reachable env now st \<Longrightarrow> account_steps env (now, st) (now', st') \<Longrightarrow> account_reachable env now' st'"
  by (meson account_reachable_def rtranclp_trans)

lemma account_invariant:
  assumes "account_reachable env now st" and "P no_accounts"
    and "\<And>now op st. P st \<Longrightarrow> fresh_draws env op st \<Longrightarrow> P (perform env now op st)"
  shows "P st"
proof -
  from assms(1) obtain t where "account_steps env (t, no_accounts) (now, st)"
    by (auto simp: account_reachable_def)
  then show ?thesis
  proof (induction "(now, st)" arbitrary: now st rule: rtranclp_induct)
    case (step y)
    then show ?case using assms(3) by (cases y) auto
  qed (use assms(2) in auto)
qed

lemma steps_induct [consumes 1, case_names refl step]:
  assumes "account_steps env (now, st) (now', st')"
    and "P now st"
    and "\<And>n1 n2 op st1. account_steps env (now, st) (n1, st1) \<Longrightarrow> P n1 st1 \<Longrightarrow> n1 \<le> n2 \<Longrightarrow>
      fresh_draws env op st1 \<Longrightarrow> P n2 (perform env n2 op st1)"
  shows "P now' st'"
  using assms(1)
proof (induction "(now', st')" arbitrary: now' st' rule: rtranclp_induct)
  case (step y)
  then show ?case using assms(3) by (cases y) auto
qed (use assms(2) in auto)

lemma perform_steps:
  "now \<le> now' \<Longrightarrow> fresh_draws env op st \<Longrightarrow> account_steps env (now, st) (now', perform env now' op st)"
  by (rule r_into_rtranclp) (rule account_step.intros)

subsection \<open>What operations do to the refresh rows\<close>

definition row_evolves :: "refresh_row \<Rightarrow> refresh_row \<Rightarrow> bool" where
  "row_evolves r r' \<longleftrightarrow> (\<exists>c v. r' = r\<lparr>rt_consumed_at := c, rt_revoked_at := v\<rparr> \<and>
     (rt_consumed_at r \<noteq> None \<longrightarrow> c = rt_consumed_at r) \<and> (rt_revoked_at r \<noteq> None \<longrightarrow> v = rt_revoked_at r))"

text \<open>The only operations that write refresh rows.\<close>

inductive refresh_change :: "auth_env \<Rightarrow> timestamp \<Rightarrow> accounts \<Rightarrow> refresh_row list \<Rightarrow> bool" for env now st where
  unchanged: "refresh_change env now st (ac_refresh st)"
| revoked: "refresh_change env now st (ac_refresh (revoke_family f now st))"
| issued: "fresh_hash env st secret \<Longrightarrow> f \<notin> rt_family_id ` set (ac_refresh st) \<Longrightarrow> get_user st i = Some u \<Longrightarrow>
     refresh_change env now st (ac_refresh st @
       [new_refresh_row env now secret i m f (u_auth_version u) (now + days (en_refresh_token_absolute_days env))])"
| rotated: "fresh_hash env st secret \<Longrightarrow> find (rotatable h now) (ac_refresh st) = Some r \<Longrightarrow>
     session_owner st r = Some (u, m) \<Longrightarrow>
     refresh_change env now st (ac_refresh (consume_refresh h now st) @
       [new_refresh_row env now secret (u_id u) (m_id m) (rt_family_id r) (rt_auth_version r)
          (rt_absolute_expires_at r)])"
| ownerless: "find (rotatable h now) (ac_refresh st) = Some r \<Longrightarrow>
     refresh_change env now st (ac_refresh (revoke_family (rt_family_id r) now (consume_refresh h now st)))"

lemma refresh_frame [simp]:
  "ac_refresh (put_user u st) = ac_refresh st" "ac_refresh (put_machine m st) = ac_refresh st"
  "ac_refresh (add_user u st) = ac_refresh st" "ac_refresh (expire_tokens P now st) = ac_refresh st"
  "ac_refresh (expire_outstanding st i p now) = ac_refresh st"
  by (simp_all add: put_user_def put_machine_def add_user_def expire_tokens_def expire_outstanding_def)

lemma issue_secret_frame [simp]:
  "ac_refresh (fst (issue_secret env st now secret i p ttl)) = ac_refresh st"
  "ac_users (fst (issue_secret env st now secret i p ttl)) = ac_users st"
  "ac_machines (fst (issue_secret env st now secret i p ttl)) = ac_machines st"
  by (simp_all add: issue_secret_def Let_def expire_outstanding_def expire_tokens_def)

lemma issued_frame:
  assumes "issue_secret env st now secret i p ttl = (st', x)"
  shows "ac_refresh st' = ac_refresh st" and "ac_users st' = ac_users st" and "ac_machines st' = ac_machines st"
  using issue_secret_frame [of env st now secret i p ttl] assms by simp_all

lemma send_verification_frame [simp]:
  "ac_refresh (fst (send_verification env st now secret u)) = ac_refresh st"
  "ac_users (fst (send_verification env st now secret u)) = ac_users st"
  "ac_machines (fst (send_verification env st now secret u)) = ac_machines st"
  by (auto simp: send_verification_def dest: issued_frame split: prod.split option.split)

lemma consume_frame [simp]:
  "ac_refresh (fst (consume_secret env st now secret p)) = ac_refresh st"
  "ac_users (fst (consume_secret env st now secret p)) = ac_users st"
  "ac_machines (fst (consume_secret env st now secret p)) = ac_machines st"
  by (simp_all add: consume_secret_def Let_def)

lemma consumed_frame:
  assumes "consume_secret env st now secret p = (st', x)"
  shows "ac_refresh st' = ac_refresh st" and "ac_users st' = ac_users st" and "ac_machines st' = ac_machines st"
  using consume_frame [of env st now secret p] assms by simp_all

lemma account_refresh_frame [simp]:
  "ac_refresh (fst (create_user st now i name email role)) = ac_refresh st"
  "ac_refresh (fst (bootstrap_admin st now i name email)) = ac_refresh st"
  "ac_refresh (fst (register env st now i secret email)) = ac_refresh st"
  "ac_refresh (fst (resend_verification env st now secret email)) = ac_refresh st"
  "ac_refresh (fst (forgot_password env st now secret email)) = ac_refresh st"
  "ac_refresh (fst (change_password env st salt i old new)) = ac_refresh st"
  "ac_refresh (fst (set_user_password env st salt email pw)) = ac_refresh st"
  "ac_refresh (fst (verify_email env st now salt secret pw name)) = ac_refresh st"
  "ac_refresh (fst (reset_password env st now salt secret pw)) = ac_refresh st"
  by (auto simp: create_user_def bootstrap_admin_def register_def resend_verification_def forgot_password_def
      change_password_def set_user_password_def verify_email_def reset_password_def Let_def found_def
      dest: issued_frame consumed_frame split: option.split list.split prod.split)

lemma user_machine_refresh_frame [simp]:
  "ac_refresh (fst (revoke_sessions_of st u)) = ac_refresh st"
  "ac_refresh (fst (disable_account st now u)) = ac_refresh st"
  "ac_refresh (fst (enable_account st u)) = ac_refresh st"
  "ac_refresh (fst (create_machine env st i token owner name w)) = ac_refresh st"
  "ac_refresh (fst (revoke_machine st now m)) = ac_refresh st"
  "ac_refresh (fst (rotate_machine_credential env st token m)) = ac_refresh st"
  "ac_refresh (fst (update_machine st m name)) = ac_refresh st"
  "ac_refresh (fst (set_machine_workstation st m w)) = ac_refresh st"
  by (auto simp: revoke_sessions_of_def disable_account_def enable_account_def create_machine_def
      revoke_machine_def rotate_machine_credential_def update_machine_def set_machine_workstation_def
      Let_def on_ok_def split: sum.split)

lemma dashboard_frame:
  assumes "get_or_create_dashboard_machine env st i token u = (st', r)"
  shows "ac_refresh st' = ac_refresh st" and "ac_users st' = ac_users st" and "ac_tokens st' = ac_tokens st"
  using assms
  by (auto simp: get_or_create_dashboard_machine_def create_machine_def Let_def on_ok_def
      split: list.splits prod.splits sum.splits if_splits)

lemma logged_in_user: "verify_user_password env st email pw = Some u \<Longrightarrow> u \<in> set (ac_users st)"
  by (auto simp: verify_user_password_def get_user_by_email_def find_Some_iff split: option.splits if_splits)

text \<open>Ids are unique.\<close>

definition ids_ok :: "accounts \<Rightarrow> bool" where
  "ids_ok st \<longleftrightarrow> tbl_wf u_id (ac_users st) \<and> tbl_wf m_id (ac_machines st)"

lemma get_user_of_mem: "ids_ok st \<Longrightarrow> u \<in> set (ac_users st) \<Longrightarrow> get_user st (u_id u) = Some u"
  by (simp add: ids_ok_def get_user_def tbl_get_of_mem)

lemma login_refresh:
  "ac_refresh (fst (login env st now i token family secret email pw persistent)) = ac_refresh st \<or>
   (\<exists>u (m :: machine_account). u \<in> set (ac_users st) \<and> ac_refresh (fst (login env st now i token family secret email pw persistent))
     = ac_refresh st @ [new_refresh_row env now secret (u_id u) (m_id m) family (u_auth_version u)
         (now + days (en_refresh_token_absolute_days env))])"
proof (cases "verify_user_password env st email pw")
  case None
  then show ?thesis by (simp add: login_def)
next
  case (Some u)
  obtain st1 r where dash: "get_or_create_dashboard_machine env st i token u = (st1, r)"
    by (cases "get_or_create_dashboard_machine env st i token u")
  note same = dashboard_frame [OF dash]
  show ?thesis
  proof (cases r)
    case (Inl e)
    with Some dash same show ?thesis by (simp add: login_def)
  next
    case (Inr m)
    with Some dash same logged_in_user [OF Some] show ?thesis
      by (auto simp: login_def issue_refresh_def add_refresh_def Let_def)
  qed
qed

lemma session_owner_same:
  "ac_users st' = ac_users st \<Longrightarrow> ac_machines st' = ac_machines st \<Longrightarrow> session_owner st' r = session_owner st r"
proof -
  assume same: "ac_users st' = ac_users st" "ac_machines st' = ac_machines st"
  have "get_user st' = get_user st" "get_machine st' = get_machine st"
    using same by (simp_all add: get_user_def get_machine_def fun_eq_iff)
  then show ?thesis unfolding session_owner_def by (simp split: option.split)
qed

lemma session_owner_consume [simp]: "session_owner (consume_refresh h now st) r = session_owner st r"
  by (rule session_owner_same) (simp_all add: consume_refresh_def)

lemma rotated_cases:
  assumes "rotate_refresh env st now successor secret = (st1, Some (u, m, issued))"
  shows "\<exists>r. find (rotatable (en_hash_token env secret) now) (ac_refresh st) = Some r \<and> session_owner st r = Some (u, m)
    \<and> st1 = add_refresh (new_refresh_row env now successor (u_id u) (m_id m) (rt_family_id r) (rt_auth_version r)
        (rt_absolute_expires_at r)) (consume_refresh (en_hash_token env secret) now st)
    \<and> issued = \<lparr>rs_secret = successor, rs_expires_at = sliding_expiry env now (rt_absolute_expires_at r)\<rparr>"
  using assms by (auto simp: rotate_refresh_def new_refresh_row_def Let_def split: option.splits prod.splits)

lemma rotate_refresh_cases:
  "refresh_change env now st (ac_refresh (fst (rotate_refresh env st now successor secret)))"
  if "fresh_hash env st successor"
proof (cases "find (rotatable (en_hash_token env secret) now) (ac_refresh st)")
  case None
  then show ?thesis
    using refresh_change.unchanged [of env now st] refresh_change.revoked [of env now st]
    by (simp add: rotate_refresh_def refuse_unconsumable_def Let_def split: option.split)
next
  case (Some r)
  show ?thesis
  proof (cases "session_owner st r")
    case None
    with Some refresh_change.ownerless [OF Some] show ?thesis
      by (simp add: rotate_refresh_def Let_def)
  next
    case owner: (Some um)
    obtain u m where um: "um = (u, m)" by (cases um)
    with owner refresh_change.rotated [OF that Some, of u m] Some show ?thesis
      by (simp add: rotate_refresh_def Let_def add_refresh_def)
  qed
qed

lemma perform_refresh:
  assumes "ids_ok st" and "fresh_draws env op st"
  shows "refresh_change env now st (ac_refresh (perform env now op st))"
proof (cases op)
  case (Login i token family secret email pw persistent)
  show ?thesis
    using login_refresh [of env st now i token family secret email pw persistent]
      refresh_change.unchanged [of env now st] refresh_change.issued [of env st secret family _ _ now]
      get_user_of_mem [OF assms(1)] assms(2) Login
    by (auto simp: Login simp del: fst_conv)
next
  case (Refresh successor secret)
  have "fst (refresh env st now successor secret) = fst (rotate_refresh env st now successor secret)"
    by (simp add: refresh_def split: prod.split option.split)
  with rotate_refresh_cases [of env st successor now secret] assms(2) Refresh show ?thesis by simp
next
  case (Logout secret)
  then show ?thesis
    using refresh_change.unchanged [of env now st] refresh_change.revoked [of env now st]
    by (auto simp: revoke_refresh_def split: option.split)
qed (use refresh_change.unchanged [of env now st] in \<open>auto split: option.split\<close>)

subsection \<open>Users\<close>

definition users_evolve :: "accounts \<Rightarrow> accounts \<Rightarrow> bool" where
  "users_evolve st st' \<longleftrightarrow> (\<forall>i u. get_user st i = Some u \<longrightarrow>
     (\<exists>u'. get_user st' i = Some u' \<and> u_role u' = u_role u \<and> u_auth_version u \<le> u_auth_version u'))"

lemma users_evolve_refl: "ac_users st' = ac_users st \<Longrightarrow> users_evolve st st'"
  by (simp add: users_evolve_def get_user_def)

lemma users_evolve_trans: "users_evolve a b \<Longrightarrow> users_evolve b c \<Longrightarrow> users_evolve a c"
  unfolding users_evolve_def by (fastforce dest: order_trans)

lemma users_frame [simp]:
  "ac_users (put_machine m st) = ac_users st" "ac_users (expire_tokens P now st) = ac_users st"
  "ac_users (expire_outstanding st i p now) = ac_users st" "ac_machines (put_user u st) = ac_machines st"
  "ac_machines (add_user u st) = ac_machines st" "ac_machines (expire_tokens P now st) = ac_machines st"
  "ac_machines (expire_outstanding st i p now) = ac_machines st"
  by (simp_all add: put_machine_def expire_tokens_def expire_outstanding_def put_user_def add_user_def)

lemma put_user_evolves:
  assumes "get_user st (u_id u) = Some u0" and "u_role u = u_role u0" and "u_auth_version u0 \<le> u_auth_version u"
    and "ac_users st' = ac_users (put_user u st)"
  shows "users_evolve st st'"
  using assms by (auto simp: users_evolve_def get_user_def put_user_def)

lemma add_user_evolves:
  assumes "u_id u \<notin> u_id ` set (ac_users st)" and "ac_users st' = ac_users (add_user u st)"
  shows "users_evolve st st'"
proof -
  have "tbl_get u_id (xs @ [u]) i = (case tbl_get u_id xs i of None \<Rightarrow> if u_id u = i then Some u else None | Some x \<Rightarrow> Some x)"
    for xs i by (induction xs) auto
  with assms(2) show ?thesis by (auto simp: users_evolve_def get_user_def add_user_def)
qed

lemma get_user_id: "get_user st i = Some u \<Longrightarrow> u_id u = i"
  unfolding get_user_def by (rule tbl_get_key)

lemma user_by_email: "ids_ok st \<Longrightarrow> get_user_by_email st e = Some u \<Longrightarrow> get_user st (u_id u) = Some u"
  by (auto simp: get_user_by_email_def find_Some_iff intro!: get_user_of_mem)

text \<open>What an operation leaves of the users: as they are, one more, or one of them changed.\<close>

inductive users_change :: "accounts \<Rightarrow> account_row list \<Rightarrow> bool" for st where
  users_unchanged: "users_change st (ac_users st)"
| user_added: "u_id u \<notin> u_id ` set (ac_users st) \<Longrightarrow> users_change st (ac_users st @ [u])"
| user_changed: "get_user st (u_id u) = Some u0 \<Longrightarrow> u_role u = u_role u0 \<Longrightarrow>
     u_auth_version u0 \<le> u_auth_version u \<Longrightarrow> users_change st (tbl_put u_id u (ac_users st))"

lemma create_user_users:
  "ac_users (fst (create_user st now i name email role)) = ac_users st \<or>
   (\<exists>u. u_id u = i \<and> ac_users (fst (create_user st now i name email role)) = ac_users st @ [u])"
  by (auto simp: create_user_def Let_def add_user_def new_user_def)

lemma bootstrap_users:
  "ac_users (fst (bootstrap_admin st now i name email)) = ac_users st \<or>
   (\<exists>u. u_id u = i \<and> ac_users (fst (bootstrap_admin st now i name email)) = ac_users st @ [u])"
  using create_user_users [of st now i name email Role_ADMIN]
  by (auto simp: bootstrap_admin_def split: list.split)

lemma register_users:
  "ac_users (fst (register env st now i secret email)) = ac_users st \<or>
   (\<exists>u. u_id u = i \<and> u_role u = Role_READONLY \<and>
      ac_users (fst (register env st now i secret email)) = ac_users st @ [u])"
  by (auto simp: register_def Let_def add_user_def new_user_def SELF_REGISTERED_ROLE_def split: option.split)

lemma mail_users [simp]:
  "ac_users (fst (resend_verification env st now secret email)) = ac_users st"
  "ac_users (fst (forgot_password env st now secret email)) = ac_users st"
  by (auto simp: resend_verification_def forgot_password_def dest: issued_frame
      split: option.split prod.split)

lemma machine_users [simp]:
  "ac_users (fst (create_machine env st i token owner name w)) = ac_users st"
  "ac_users (fst (revoke_machine st now m)) = ac_users st"
  "ac_users (fst (rotate_machine_credential env st token m)) = ac_users st"
  "ac_users (fst (update_machine st m name)) = ac_users st"
  "ac_users (fst (set_machine_workstation st m w)) = ac_users st"
  by (auto simp: create_machine_def revoke_machine_def rotate_machine_credential_def update_machine_def
      set_machine_workstation_def Let_def on_ok_def split: sum.split)

lemma refresh_users [simp]:
  "ac_users (revoke_family f now st) = ac_users st" "ac_users (consume_refresh h now st) = ac_users st"
  "ac_users (add_refresh r st) = ac_users st" "ac_users (refuse_unconsumable h now st) = ac_users st"
  "ac_users (revoke_refresh env st now secret) = ac_users st"
  "ac_users (fst (refresh env st now successor secret)) = ac_users st"
  by (auto simp: revoke_family_def consume_refresh_def add_refresh_def refuse_unconsumable_def revoke_refresh_def
      refresh_def rotate_refresh_def Let_def split: option.splits prod.splits)

lemma login_users [simp]: "ac_users (fst (login env st now i token family secret email pw persistent)) = ac_users st"
  by (auto simp: login_def issue_refresh_def add_refresh_def Let_def dashboard_frame
      split: option.split prod.split sum.split)

lemma rewritten_user:
  assumes "get_user st i = Some u" and "u_id u' = u_id u" and "u_role u' = u_role u"
    and "u_auth_version u \<le> u_auth_version u'"
  shows "users_change st (tbl_put u_id u' (ac_users st))"
  using assms user_changed [of st u' u] get_user_id [OF assms(1)] by simp

lemma secret_users:
  assumes "ids_ok st"
  shows "users_change st (ac_users (fst (verify_email env st now salt secret pw name)))"
    and "users_change st (ac_users (fst (reset_password env st now salt secret pw)))"
    and "users_change st (ac_users (fst (change_password env st salt i old new)))"
    and "users_change st (ac_users (fst (set_user_password env st salt email pw)))"
proof -
  note keep = users_unchanged [of st]
  note change = apply_new_password_def revoke_sessions_in_place_def put_user_def Let_def
  have got: "get_user st' j = get_user st j" if "consume_secret env st now secret p = (st', x)" for st' p x j
    using consumed_frame(2) [OF that] by (simp add: get_user_def)
  show "users_change st (ac_users (fst (verify_email env st now salt secret pw name)))"
    using keep by (auto simp: verify_email_def change got consumed_frame
        intro: rewritten_user split: option.split prod.split)
  show "users_change st (ac_users (fst (reset_password env st now salt secret pw)))"
    using keep by (auto simp: reset_password_def change got consumed_frame
        intro: rewritten_user split: option.split prod.split)
  show "users_change st (ac_users (fst (change_password env st salt i old new)))"
    using keep by (auto simp: change_password_def change intro: rewritten_user split: option.split)
  show "users_change st (ac_users (fst (set_user_password env st salt email pw)))"
    using keep by (auto simp: set_user_password_def change found_def dest: user_by_email [OF assms]
        intro: rewritten_user split: option.split)
qed

lemma perform_users:
  assumes "ids_ok st" and "fresh_draws env op st"
  shows "users_change st (ac_users (perform env now op st))"
proof -
  note keep = users_unchanged [of st]
  note change = revoke_sessions_of_def disable_account_def enable_account_def revoke_sessions_in_place_def
    put_user_def Let_def
  have on_user: "users_change st (ac_users (on_user st i k))"
    if "\<And>u. get_user st i = Some u \<Longrightarrow> users_change st (ac_users (k u))" for i k
    using that keep by (simp split: option.split)
  have on_machine: "users_change st (ac_users (on_machine st i k))"
    if "\<And>m. ac_users (k m) = ac_users st" for i k
    using that keep by (simp split: option.split)
  show ?thesis
  proof (cases op)
    case (Create_User i name email role)
    with assms(2) keep create_user_users [of st now i name email role] user_added [of _ st] show ?thesis
      by auto
  next
    case (Bootstrap_Admin i name email)
    with assms(2) keep bootstrap_users [of st now i name email] user_added [of _ st] show ?thesis by auto
  next
    case (Register i secret email)
    with assms(2) keep register_users [of env st now i secret email] user_added [of _ st] show ?thesis by auto
  next
    case (Revoke_Sessions i)
    show ?thesis unfolding Revoke_Sessions perform.simps
      by (rule on_user) (auto simp: change intro: rewritten_user)
  next
    case (Disable_Account i)
    show ?thesis unfolding Disable_Account perform.simps
      by (rule on_user) (auto simp: change intro: rewritten_user keep)
  next
    case (Enable_Account i)
    show ?thesis unfolding Enable_Account perform.simps
      by (rule on_user) (auto simp: change intro: rewritten_user keep)
  qed (use keep secret_users [OF assms(1)] on_machine in \<open>auto simp del: on_machine.simps\<close>)
qed

lemma users_change_evolves: "users_change st us \<Longrightarrow> users_evolve st (st'\<lparr>ac_users := us\<rparr>)"
  by (cases rule: users_change.cases)
    (auto intro: users_evolve_refl add_user_evolves put_user_evolves simp: add_user_def put_user_def)

lemma perform_users_evolve:
  assumes "ids_ok st" and "fresh_draws env op st"
  shows "users_evolve st (perform env now op st)"
  using users_change_evolves [OF perform_users [OF assms, of now], of "perform env now op st"] by simp

subsection \<open>Machines\<close>

text \<open>
  A machine is added or changed only with a workstation that is another, unattached machine of
  the same owner, and never attached while others are attached to it.
\<close>

definition workstation_ok :: "accounts \<Rightarrow> uuid \<Rightarrow> uuid \<Rightarrow> uuid option \<Rightarrow> bool" where
  "workstation_ok st owner i w \<longleftrightarrow> (case w of None \<Rightarrow> True
     | Some j \<Rightarrow> (\<exists>x. get_machine st j = Some x \<and> m_owner_user_id x = owner \<and> m_workstation_id x = None \<and> j \<noteq> i))"

inductive machines_change :: "accounts \<Rightarrow> machine_account list \<Rightarrow> bool" for st where
  machines_unchanged: "machines_change st (ac_machines st)"
| machine_added: "m_id m \<notin> m_id ` set (ac_machines st) \<Longrightarrow>
     workstation_ok st (m_owner_user_id m) (m_id m) (m_workstation_id m) \<Longrightarrow>
     machines_change st (ac_machines st @ [m])"
| machine_changed: "get_machine st (m_id m) = Some m0 \<Longrightarrow> m_owner_user_id m = m_owner_user_id m0 \<Longrightarrow>
     m_workstation_id m = m_workstation_id m0 \<or>
       workstation_ok st (m_owner_user_id m) (m_id m) (m_workstation_id m) \<and>
       (m_workstation_id m \<noteq> None \<longrightarrow> Some (m_id m) \<notin> m_workstation_id ` set (ac_machines st)) \<Longrightarrow>
     machines_change st (tbl_put m_id m (ac_machines st))"

lemma get_machine_id: "get_machine st i = Some m \<Longrightarrow> m_id m = i"
  unfolding get_machine_def by (rule tbl_get_key)

lemma checked_workstation:
  assumes "check_workstation st owner w i = Inr x"
  shows "get_machine st w = Some x" and "m_owner_user_id x = owner" and "m_workstation_id x = None"
    and "m_id x = w" and "i \<noteq> Some w" and "i \<noteq> None \<Longrightarrow> i \<notin> m_workstation_id ` set (ac_machines st)"
  using assms get_machine_id [of st w]
  by (auto simp: check_workstation_def split: option.splits if_splits)

lemma create_machine_machines:
  assumes "i \<notin> m_id ` set (ac_machines st)"
  shows "machines_change st (ac_machines (fst (create_machine env st i token owner name w)))"
proof -
  note keep = machines_unchanged [of st]
  have other: "j \<noteq> i" if "get_machine st j = Some x" for j x
    using that assms get_machine_id [OF that] by (auto simp: get_machine_def dest: tbl_get_mem)
  show ?thesis
    using keep assms other checked_workstation [of st owner "the w" None]
    by (auto simp: create_machine_def Let_def on_ok_def and_get_def new_machine_def workstation_ok_def
        intro!: machine_added split: sum.splits option.splits)
qed

lemma set_workstation_machines:
  assumes "get_machine st i = Some m"
  shows "machines_change st (ac_machines (fst (set_machine_workstation st m w)))"
proof (cases w)
  case None
  then show ?thesis
    using assms machines_unchanged [of st] get_machine_id [OF assms]
    by (auto simp: set_machine_workstation_def Let_def put_machine_def workstation_ok_def
        intro!: machine_changed)
next
  case (Some j)
  show ?thesis
  proof (cases "check_workstation st (m_owner_user_id m) j (Some (m_id m))")
    case (Inl e)
    with Some machines_unchanged [of st] show ?thesis by (simp add: set_machine_workstation_def)
  next
    case (Inr x)
    with Some assms machines_unchanged [of st] get_machine_id [OF assms] checked_workstation [OF Inr]
    show ?thesis
      by (auto simp: set_machine_workstation_def Let_def put_machine_def workstation_ok_def
          intro!: machine_changed)
  qed
qed

lemma account_machines [simp]:
  "ac_machines (fst (create_user st now i name email role)) = ac_machines st"
  "ac_machines (fst (bootstrap_admin st now i name email)) = ac_machines st"
  "ac_machines (fst (register env st now i secret email)) = ac_machines st"
  "ac_machines (fst (resend_verification env st now secret email)) = ac_machines st"
  "ac_machines (fst (forgot_password env st now secret email)) = ac_machines st"
  "ac_machines (fst (change_password env st salt i old new)) = ac_machines st"
  "ac_machines (fst (set_user_password env st salt email pw)) = ac_machines st"
  "ac_machines (fst (verify_email env st now salt secret pw name)) = ac_machines st"
  "ac_machines (fst (reset_password env st now salt secret pw)) = ac_machines st"
  by (auto simp: create_user_def bootstrap_admin_def register_def resend_verification_def forgot_password_def
      change_password_def set_user_password_def verify_email_def reset_password_def Let_def found_def
      dest: issued_frame consumed_frame split: option.split list.split prod.split)

lemma session_machines [simp]:
  "ac_machines (fst (revoke_sessions_of st u)) = ac_machines st"
  "ac_machines (fst (disable_account st now u)) = ac_machines st"
  "ac_machines (fst (enable_account st u)) = ac_machines st"
  "ac_machines (revoke_family f now st) = ac_machines st" "ac_machines (consume_refresh h now st) = ac_machines st"
  "ac_machines (add_refresh r st) = ac_machines st" "ac_machines (refuse_unconsumable h now st) = ac_machines st"
  "ac_machines (revoke_refresh env st now secret) = ac_machines st"
  "ac_machines (fst (refresh env st now successor secret)) = ac_machines st"
  by (auto simp: revoke_sessions_of_def disable_account_def enable_account_def revoke_family_def
      consume_refresh_def add_refresh_def refuse_unconsumable_def revoke_refresh_def
      refresh_def rotate_refresh_def Let_def split: option.splits prod.splits)

lemma login_machines:
  "ac_machines (fst (login env st now i token family secret email pw persistent)) = ac_machines st \<or>
   (\<exists>owner. ac_machines (fst (login env st now i token family secret email pw persistent))
     = ac_machines (fst (create_machine env st i token owner ''dashboard'' None)))"
proof (cases "verify_user_password env st email pw")
  case None
  then show ?thesis by (simp add: login_def)
next
  case (Some u)
  obtain st1 r where dash: "get_or_create_dashboard_machine env st i token u = (st1, r)"
    by (cases "get_or_create_dashboard_machine env st i token u")
  have "ac_machines st1 = ac_machines st \<or>
      ac_machines st1 = ac_machines (fst (create_machine env st i token (u_id u) ''dashboard'' None))"
    using dash by (auto simp: get_or_create_dashboard_machine_def split: list.splits prod.splits sum.splits)
  moreover have "ac_machines (fst (login env st now i token family secret email pw persistent)) = ac_machines st1"
    using Some dash by (cases r) (auto simp: login_def issue_refresh_def add_refresh_def Let_def)
  ultimately show ?thesis by metis
qed

lemma rewritten_machine:
  assumes "get_machine st i = Some m0" and "m_id m = m_id m0" and "m_owner_user_id m = m_owner_user_id m0"
    and "m_workstation_id m = m_workstation_id m0"
  shows "machines_change st (tbl_put m_id m (ac_machines st))"
  using assms machine_changed [of st m m0] get_machine_id [OF assms(1)] by simp

lemma perform_machines:
  assumes "fresh_draws env op st"
  shows "machines_change st (ac_machines (perform env now op st))"
proof -
  note keep = machines_unchanged [of st]
  have same: "machines_change st (ac_machines (on_machine st i k))"
    if "\<And>m. get_machine st i = Some m \<Longrightarrow> machines_change st (ac_machines (k m))" for i k
    using that keep by (simp split: option.split)
  show ?thesis
  proof (cases op)
    case (Create_Machine i token owner name w)
    with assms create_machine_machines show ?thesis by simp
  next
    case (Login i token family secret email pw persistent)
    with assms keep create_machine_machines login_machines [of env st now i token family secret email pw persistent]
    show ?thesis by auto
  next
    case (Revoke_Machine i)
    show ?thesis unfolding Revoke_Machine perform.simps
      by (rule same) (auto simp: revoke_machine_def put_machine_def Let_def keep
          intro: rewritten_machine)
  next
    case (Rotate_Credential i token)
    show ?thesis unfolding Rotate_Credential perform.simps
      by (rule same) (auto simp: rotate_machine_credential_def put_machine_def Let_def keep
          intro: rewritten_machine)
  next
    case (Rename_Machine i name)
    show ?thesis unfolding Rename_Machine perform.simps
      by (rule same) (auto simp: update_machine_def put_machine_def Let_def keep
          intro: rewritten_machine)
  next
    case (Set_Workstation i w)
    show ?thesis unfolding Set_Workstation perform.simps by (rule same) (rule set_workstation_machines)
  qed (use keep in \<open>auto split: option.split\<close>)
qed

lemma tbl_wf_append: "tbl_wf key rs \<Longrightarrow> key r \<notin> key ` set rs \<Longrightarrow> tbl_wf key (rs @ [r])"
  by (simp add: tbl_wf_def)

lemma perform_ids_ok:
  assumes "ids_ok st" and "fresh_draws env op st"
  shows "ids_ok (perform env now op st)"
proof -
  have "tbl_wf u_id us" if "users_change st us" for us
    using that assms(1) by (cases rule: users_change.cases) (auto simp: ids_ok_def intro: tbl_wf_append)
  moreover have "tbl_wf m_id ms" if "machines_change st ms" for ms
    using that assms(1) by (cases rule: machines_change.cases) (auto simp: ids_ok_def intro: tbl_wf_append)
  ultimately show ?thesis
    using perform_users [OF assms, of now] perform_machines [OF assms(2), of now] by (simp add: ids_ok_def)
qed

lemma reachable_ids_ok: "account_reachable env now st \<Longrightarrow> ids_ok st"
proof (erule account_invariant)
  show "ids_ok no_accounts" by (simp add: ids_ok_def no_accounts_def tbl_wf_def)
qed (rule perform_ids_ok)

definition stations_ok :: "machine_account list \<Rightarrow> bool" where
  "stations_ok ms \<longleftrightarrow> (\<forall>m \<in> set ms. \<forall>j. m_workstation_id m = Some j \<longrightarrow>
     (\<exists>x. tbl_get m_id ms j = Some x \<and> m_owner_user_id x = m_owner_user_id m \<and> m_workstation_id x = None \<and>
       j \<noteq> m_id m))"

lemma tbl_get_snoc:
  "tbl_get key (rs @ [r]) k = (case tbl_get key rs k of None \<Rightarrow> if key r = k then Some r else None | Some x \<Rightarrow> Some x)"
  by (induction rs) auto

lemma stations_change:
  assumes "machines_change st ms" and "ids_ok st" and "stations_ok (ac_machines st)"
  shows "stations_ok ms"
  using assms(1)
proof cases
  case machines_unchanged
  with assms(3) show ?thesis by simp
next
  case (machine_added m)
  then show ?thesis
    using assms(3) by (fastforce simp: stations_ok_def workstation_ok_def get_machine_def tbl_get_snoc split: option.splits)
next
  case (machine_changed m m0)
  have wf: "tbl_wf m_id (ac_machines st)" using assms(2) by (simp add: ids_ok_def)
  have old: "m0 \<in> set (ac_machines st)" "m_id m0 = m_id m"
    using machine_changed(2) tbl_get_mem tbl_get_key by (fastforce simp: get_machine_def)+
  show ?thesis
    unfolding stations_ok_def machine_changed(1)
  proof (intro ballI allI impI)
    fix x j
    assume x: "x \<in> set (tbl_put m_id m (ac_machines st))" and j: "m_workstation_id x = Some j"
    then consider (new) "x = m" | (old) "x \<in> set (ac_machines st)" "m_id x \<noteq> m_id m"
      by (auto simp: tbl_put_set [OF wf])
    then have "\<exists>y. tbl_get m_id (ac_machines st) j = Some y \<and> m_owner_user_id y = m_owner_user_id x \<and>
        m_workstation_id y = None \<and> j \<noteq> m_id x \<and> (j = m_id m \<longrightarrow> m_workstation_id m = None)"
    proof cases
      case new
      with machine_changed(3,4) j old assms(3) show ?thesis
        by (fastforce simp: stations_ok_def workstation_ok_def get_machine_def)
    next
      case x: old
      then obtain y where y: "tbl_get m_id (ac_machines st) j = Some y" "m_owner_user_id y = m_owner_user_id x"
          "m_workstation_id y = None" "j \<noteq> m_id x"
        using j assms(3) unfolding stations_ok_def by blast
      have "Some j \<in> m_workstation_id ` set (ac_machines st)" using x(1) j by force
      with machine_changed(2,4) y show ?thesis by (auto simp: get_machine_def)
    qed
    then obtain y where y: "tbl_get m_id (ac_machines st) j = Some y" "m_owner_user_id y = m_owner_user_id x"
        "m_workstation_id y = None" "j \<noteq> m_id x" "j = m_id m \<longrightarrow> m_workstation_id m = None"
      by blast
    then show "\<exists>y. tbl_get m_id (tbl_put m_id m (ac_machines st)) j = Some y \<and>
        m_owner_user_id y = m_owner_user_id x \<and> m_workstation_id y = None \<and> j \<noteq> m_id x"
      using machine_changed(2,3) old tbl_get_key [OF y(1)] by (auto simp: get_machine_def)
  qed
qed

subsection \<open>Refresh rows\<close>

definition alive :: "refresh_row \<Rightarrow> bool" where
  "alive r \<longleftrightarrow> rt_consumed_at r = None \<and> rt_revoked_at r = None"

definition same_family :: "refresh_row \<Rightarrow> refresh_row \<Rightarrow> bool" where
  "same_family r r' \<longleftrightarrow> rt_family_id r = rt_family_id r'"

definition relatives :: "refresh_row \<Rightarrow> refresh_row \<Rightarrow> bool" where
  "relatives r r' \<longleftrightarrow> rt_user_id r = rt_user_id r' \<and> rt_auth_version r = rt_auth_version r' \<and>
     rt_absolute_expires_at r = rt_absolute_expires_at r' \<and> (rt_revoked_at r = None \<longleftrightarrow> rt_revoked_at r' = None) \<and>
     (alive r \<longrightarrow> alive r' \<longrightarrow> rt_token_hash r = rt_token_hash r')"

definition rows_ok :: "refresh_row list \<Rightarrow> bool" where
  "rows_ok rs \<longleftrightarrow> tbl_wf rt_token_hash rs \<and>
     (\<forall>r \<in> set rs. rt_expires_at r \<le> rt_absolute_expires_at r) \<and>
     (\<forall>r \<in> set rs. \<forall>r' \<in> set rs. same_family r r' \<longrightarrow> relatives r r')"

lemma session_owner_row:
  assumes "session_owner st r = Some (u, m)"
  shows "get_user st (rt_user_id r) = Some u" and "u_id u = rt_user_id r" and "u_auth_version u = rt_auth_version r"
    and "is_active u" and "get_machine st (rt_machine_id r) = Some m" and "m_id m = rt_machine_id r"
    and "m_credential_revoked_at m = None" and "m_owner_user_id m = rt_user_id r"
  using assms get_user_id [of st] get_machine_id [of st]
  by (auto simp: session_owner_def split: option.splits if_splits)

lemma rows_ok_map:
  assumes "rows_ok rs"
    and "\<And>r. r \<in> set rs \<Longrightarrow> rt_token_hash (f r) = rt_token_hash r \<and> rt_family_id (f r) = rt_family_id r \<and>
      rt_expires_at (f r) = rt_expires_at r \<and> rt_absolute_expires_at (f r) = rt_absolute_expires_at r"
    and "\<And>r r'. r \<in> set rs \<Longrightarrow> r' \<in> set rs \<Longrightarrow> same_family r r' \<Longrightarrow> relatives r r' \<Longrightarrow> relatives (f r) (f r')"
  shows "rows_ok (map f rs)"
proof -
  have "map rt_token_hash (map f rs) = map rt_token_hash rs" using assms(2) by (induction rs) auto
  then have "tbl_wf rt_token_hash (map f rs)" using assms(1) by (simp only: rows_ok_def tbl_wf_def)
  moreover have "relatives (f r) (f r')" if "r \<in> set rs" "r' \<in> set rs" "rt_family_id (f r) = rt_family_id (f r')" for r r'
    using assms(1,2,3) that unfolding rows_ok_def same_family_def by metis
  ultimately show ?thesis
    using assms(1,2) by (auto simp: rows_ok_def same_family_def)
qed

lemma rows_ok_revoke:
  assumes "rows_ok (ac_refresh st)"
  shows "rows_ok (ac_refresh (revoke_family f now st))"
  unfolding revoke_family_def
  by (simp, rule rows_ok_map [OF assms]) (auto simp: relatives_def same_family_def alive_def)

lemma rows_ok_consume:
  assumes "rows_ok (ac_refresh st)"
  shows "rows_ok (ac_refresh (consume_refresh h now st))"
  unfolding consume_refresh_def
  by (simp, rule rows_ok_map [OF assms]) (auto simp: relatives_def alive_def)

lemma rows_ok_add:
  assumes "rows_ok rs" and "rt_token_hash r \<notin> rt_token_hash ` set rs" and "rt_expires_at r \<le> rt_absolute_expires_at r"
    and "\<And>x. x \<in> set rs \<Longrightarrow> rt_family_id x = rt_family_id r \<Longrightarrow> rt_user_id x = rt_user_id r \<and>
      rt_auth_version x = rt_auth_version r \<and> rt_absolute_expires_at x = rt_absolute_expires_at r \<and>
      rt_revoked_at x = None \<and> rt_consumed_at x \<noteq> None"
    and "rt_revoked_at r = None"
  shows "rows_ok (rs @ [r])"
proof -
  have new: "relatives x r \<and> relatives r x" if "x \<in> set rs" "same_family x r \<or> same_family r x" for x
    using assms(4) [OF that(1)] assms(5) that(2) by (auto simp: relatives_def alive_def same_family_def)
  have self: "relatives r r" by (simp add: relatives_def)
  show ?thesis
    using assms(1,2,3) new self tbl_wf_append [of rt_token_hash rs r] by (auto simp: rows_ok_def)
qed

lemma same_hash_same_row:
  "rows_ok rs \<Longrightarrow> x \<in> set rs \<Longrightarrow> y \<in> set rs \<Longrightarrow> rt_token_hash x = rt_token_hash y \<Longrightarrow> x = y"
  unfolding rows_ok_def tbl_wf_def distinct_map by (blast dest: inj_onD)

lemma rotatable_unique:
  assumes "rows_ok rs" and "find (rotatable h now) rs = Some r"
  shows "r \<in> set rs" and "rotatable h now r" and "rt_token_hash r = h"
    and "x \<in> set rs \<Longrightarrow> rt_token_hash x = h \<Longrightarrow> x = r"
proof -
  show mem: "r \<in> set rs" and rot: "rotatable h now r" using assms(2) by (auto simp: find_Some_iff)
  then show h: "rt_token_hash r = h" by (simp add: rotatable_def)
  show "x = r" if "x \<in> set rs" "rt_token_hash x = h"
    using same_hash_same_row [OF assms(1) that(1) mem] that(2) h by simp
qed

lemma fresh_hash_consume [simp]: "rt_token_hash ` set (ac_refresh (consume_refresh h now st)) = rt_token_hash ` set (ac_refresh st)"
proof -
  have "map rt_token_hash (ac_refresh (consume_refresh h now st)) = map rt_token_hash (ac_refresh st)"
    by (simp add: consume_refresh_def)
  from arg_cong [OF this, of set] show ?thesis by simp
qed

lemma refresh_change_rows_ok:
  assumes "refresh_change env now st rs" and "rows_ok (ac_refresh st)"
  shows "rows_ok rs"
  using assms(1)
proof cases
  case (revoked f)
  with assms(2) rows_ok_revoke show ?thesis by simp
next
  case (issued secret f i u m)
  then show ?thesis
    by (auto intro!: rows_ok_add assms(2) simp: new_refresh_row_def fresh_hash_def sliding_expiry_def)
next
  case (rotated secret h r u m)
  note r = rotatable_unique [OF assms(2) rotated(3)]
  note owner = session_owner_row [OF rotated(4)]
  have "rt_user_id x = rt_user_id r \<and> rt_auth_version x = rt_auth_version r \<and>
      rt_absolute_expires_at x = rt_absolute_expires_at r \<and> rt_revoked_at x = None \<and> rt_consumed_at x \<noteq> None"
    if x: "x \<in> set (ac_refresh (consume_refresh h now st))" "rt_family_id x = rt_family_id r" for x
  proof -
    from x(1) obtain y where y: "y \<in> set (ac_refresh st)"
        "x = (if rotatable h now y then y\<lparr>rt_consumed_at := Some now\<rparr> else y)"
      by (auto simp: consume_refresh_def)
    with x(2) have "same_family y r" by (auto simp: same_family_def split: if_splits)
    then have rel: "relatives y r" using assms(2) y(1) r(1) by (simp add: rows_ok_def)
    have "alive r" using r(2) by (simp add: rotatable_def alive_def)
    show ?thesis
    proof (cases "rotatable h now y")
      case True
      then have "rt_token_hash y = h" by (simp add: rotatable_def)
      then have "y = r" by (rule r(4) [OF y(1)])
      with True y(2) show ?thesis by (simp add: rotatable_def)
    next
      case False
      with y have "x = y" by simp
      moreover have "\<not> alive y"
        using False rel \<open>alive r\<close> r(2,3,4) y(1) by (auto simp: relatives_def)
      ultimately show ?thesis using rel \<open>alive r\<close> by (auto simp: relatives_def alive_def)
    qed
  qed
  then show ?thesis
    unfolding rotated(1) using rotated(2) owner
    by (intro rows_ok_add rows_ok_consume assms(2))
      (auto simp: new_refresh_row_def fresh_hash_def sliding_expiry_def)
next
  case (ownerless h r)
  with assms(2) rows_ok_revoke rows_ok_consume show ?thesis by simp
qed (use assms(2) in simp)

text \<open>A refresh row never carries a newer session version than its owner.\<close>

definition versions_ok :: "accounts \<Rightarrow> bool" where
  "versions_ok st \<longleftrightarrow> (\<forall>r \<in> set (ac_refresh st). \<exists>u. get_user st (rt_user_id r) = Some u \<and>
     rt_auth_version r \<le> u_auth_version u)"

definition accounts_ok :: "accounts \<Rightarrow> bool" where
  "accounts_ok st \<longleftrightarrow> ids_ok st \<and> rows_ok (ac_refresh st) \<and> stations_ok (ac_machines st)"

lemma perform_accounts_ok:
  assumes "accounts_ok st" and "fresh_draws env op st"
  shows "accounts_ok (perform env now op st)"
  using assms perform_ids_ok refresh_change_rows_ok [OF perform_refresh] stations_change [OF perform_machines]
  by (auto simp: accounts_ok_def)

lemma reachable_accounts_ok: "account_reachable env now st \<Longrightarrow> accounts_ok st"
proof (erule account_invariant)
  show "accounts_ok no_accounts"
    by (simp add: accounts_ok_def ids_ok_def rows_ok_def stations_ok_def no_accounts_def tbl_wf_def)
qed (rule perform_accounts_ok)

lemma steps_accounts_ok:
  "account_reachable env now st \<Longrightarrow> account_steps env (now, st) (now', st') \<Longrightarrow> accounts_ok st'"
  by (rule reachable_accounts_ok [OF account_reachable_step])

lemma steps_users_evolve:
  assumes "account_steps env (now, st) (now', st')" and "account_reachable env now st"
  shows "users_evolve st st'"
proof (rule steps_induct [OF assms(1)])
  fix n1 n2 op st1
  assume "account_steps env (now, st) (n1, st1)" "users_evolve st st1" "fresh_draws env op st1"
  then show "users_evolve st (perform env n2 op st1)"
    using perform_users_evolve steps_accounts_ok [OF assms(2)] users_evolve_trans
    by (metis accounts_ok_def)
qed (simp add: users_evolve_refl)

text \<open>How a refresh row ages.\<close>

definition ages :: "refresh_row \<Rightarrow> refresh_row \<Rightarrow> bool" where
  "ages r r' \<longleftrightarrow> rt_token_hash r' = rt_token_hash r \<and> rt_family_id r' = rt_family_id r \<and>
     rt_user_id r' = rt_user_id r \<and> rt_auth_version r' = rt_auth_version r \<and>
     (rt_consumed_at r \<noteq> None \<longrightarrow> rt_consumed_at r' \<noteq> None) \<and>
     (rt_revoked_at r \<noteq> None \<longrightarrow> rt_revoked_at r' \<noteq> None)"

lemma ages_refl: "ages r r" by (simp add: ages_def)

lemma ages_trans: "ages a b \<Longrightarrow> ages b c \<Longrightarrow> ages a c"
  by (simp add: ages_def)

lemma ages_map: "(\<And>r. ages r (f r)) \<Longrightarrow> r \<in> set rs \<Longrightarrow> \<exists>r' \<in> set (map f rs). ages r r'"
  by auto

lemma ages_revoke: "r \<in> set (ac_refresh st) \<Longrightarrow> \<exists>r' \<in> set (ac_refresh (revoke_family f now st)). ages r r'"
  using ages_map [of "\<lambda>r. if rt_family_id r = f \<and> rt_revoked_at r = None then r\<lparr>rt_revoked_at := Some now\<rparr> else r"]
  by (simp add: revoke_family_def ages_def)

lemma ages_consume: "r \<in> set (ac_refresh st) \<Longrightarrow> \<exists>r' \<in> set (ac_refresh (consume_refresh h now st)). ages r r'"
  using ages_map [of "\<lambda>r. if rotatable h now r then r\<lparr>rt_consumed_at := Some now\<rparr> else r"]
  by (simp add: consume_refresh_def ages_def)

lemma refresh_change_ages:
  assumes "refresh_change env now st rs" and "r \<in> set (ac_refresh st)"
  shows "\<exists>r' \<in> set rs. ages r r'"
  using assms(1)
proof cases
  case (rotated secret h r0 u m)
  with ages_consume [OF assms(2), of h now] show ?thesis by auto
next
  case (ownerless h r0)
  from ages_consume [OF assms(2), of h now] obtain r1 where r1: "r1 \<in> set (ac_refresh (consume_refresh h now st))"
    "ages r r1" by blast
  from ages_revoke [OF r1(1), of "rt_family_id r0" now] r1(2) ownerless ages_trans show ?thesis by blast
next
  case (issued secret f i u m)
  then show ?thesis using assms(2) ages_refl [of r] by (auto intro: bexI [of _ r])
qed (use assms(2) ages_refl [of r] ages_revoke [OF assms(2)] in \<open>auto intro: bexI [of _ r]\<close>)

lemma steps_ages:
  assumes "account_steps env (now, st) (now', st')" and "account_reachable env now st" and "r \<in> set (ac_refresh st)"
  shows "\<exists>r' \<in> set (ac_refresh st'). ages r r'"
proof (rule steps_induct [OF assms(1)])
  fix n1 n2 op st1
  assume st1: "account_steps env (now, st) (n1, st1)" "\<exists>r' \<in> set (ac_refresh st1). ages r r'"
    "fresh_draws env op st1"
  then have "ids_ok st1" using steps_accounts_ok [OF assms(2)] by (simp add: accounts_ok_def)
  with st1 perform_refresh refresh_change_ages ages_trans
  show "\<exists>r' \<in> set (ac_refresh (perform env n2 op st1)). ages r r'" by meson
qed (use assms(3) ages_refl in auto)

lemma spent_never_rotates:
  assumes "accounts_ok st" and "r \<in> set (ac_refresh st)" and "rt_consumed_at r \<noteq> None \<or> rt_revoked_at r \<noteq> None"
    and "rt_token_hash r = en_hash_token env secret"
  shows "snd (rotate_refresh env st now successor secret) = None"
proof -
  have "\<not> rotatable (en_hash_token env secret) now x" if "x \<in> set (ac_refresh st)" for x
  proof
    assume x: "rotatable (en_hash_token env secret) now x"
    then have "rt_token_hash x = rt_token_hash r" using assms(4) by (simp add: rotatable_def)
    with assms(1,2) that have "x = r" unfolding accounts_ok_def by (blast intro: same_hash_same_row)
    with x assms(3) show False by (auto simp: rotatable_def)
  qed
  then have "find (rotatable (en_hash_token env secret) now) (ac_refresh st) = None"
    by (auto simp: find_None_iff)
  then show ?thesis by (simp add: rotate_refresh_def Let_def)
qed

lemma rotated_row:
  assumes "accounts_ok st" and "refresh env st now successor secret = (st', Inr resp)"
  shows "\<exists>r' \<in> set (ac_refresh st'). rt_token_hash r' = en_hash_token env secret \<and> rt_consumed_at r' \<noteq> None"
proof -
  let ?h = "en_hash_token env secret"
  obtain r where r: "find (rotatable ?h now) (ac_refresh st) = Some r"
    using assms(2) by (auto simp: refresh_def rotate_refresh_def Let_def split: prod.splits option.splits)
  have rows: "rows_ok (ac_refresh st)" using assms(1) by (simp add: accounts_ok_def)
  note u = rotatable_unique [OF rows r]
  have "set (ac_refresh (consume_refresh ?h now st)) \<subseteq> set (ac_refresh st')"
    using assms(2) r by (auto simp: refresh_def rotate_refresh_def Let_def add_refresh_def
        split: prod.splits option.splits)
  moreover have "r\<lparr>rt_consumed_at := Some now\<rparr> \<in> set (ac_refresh (consume_refresh ?h now st))"
    using u(1,2) by (auto simp: consume_refresh_def intro!: image_eqI [of _ _ r])
  ultimately show ?thesis using u(3) by (intro bexI [of _ "r\<lparr>rt_consumed_at := Some now\<rparr>"]) auto
qed

lemma refresh_fails: "snd (rotate_refresh env st now successor secret) = None \<Longrightarrow>
    \<exists>e. snd (refresh env st now successor secret) = Inl e"
  by (cases "rotate_refresh env st now successor secret") (auto simp: refresh_def)

text \<open>Property C12. A refresh secret is good for one session renewal: once a refresh with it succeeded, no later
  refresh with it does, whatever happens in between.\<close>

theorem refresh_rotates_once:
  assumes "account_reachable env now st" and "refresh env st now s1 secret = (st1, Inr resp)"
    and "fresh_hash env st s1" and "account_steps env (now, st1) (now2, st2)"
  shows "\<exists>e. snd (refresh env st2 now2 s2 secret) = Inl e"
proof -
  have step: "account_steps env (now, st) (now, st1)"
    using account_step.intros [of now now env "Refresh s1 secret" st] assms(2,3) by auto
  have r1: "account_reachable env now st1" using account_reachable_step [OF assms(1) step] .
  obtain r where r: "r \<in> set (ac_refresh st1)" "rt_token_hash r = en_hash_token env secret" "rt_consumed_at r \<noteq> None"
    using rotated_row [OF reachable_accounts_ok [OF assms(1)] assms(2)] by blast
  obtain r' where "r' \<in> set (ac_refresh st2)" "ages r r'" using steps_ages [OF assms(4) r1 r(1)] by blast
  then show ?thesis
    using refresh_fails [OF spent_never_rotates [OF steps_accounts_ok [OF r1 assms(4)]]] r(2,3)
    by (auto simp: ages_def)
qed

lemma rotate_refuses_spent:
  assumes "accounts_ok st" and "r \<in> set (ac_refresh st)" and "rt_token_hash r = en_hash_token env secret"
    and "rt_consumed_at r \<noteq> None"
  shows "\<exists>r' \<in> set (ac_refresh (fst (rotate_refresh env st now successor secret))). rt_token_hash r' = rt_token_hash r
    \<and> rt_family_id r' = rt_family_id r \<and> rt_revoked_at r' \<noteq> None"
proof -
  let ?h = "en_hash_token env secret"
  have unique: "x = r" if "x \<in> set (ac_refresh st)" "rt_token_hash x = ?h" for x
    using same_hash_same_row [of "ac_refresh st" x r] assms(1,2,3) that by (simp add: accounts_ok_def)
  have "snd (rotate_refresh env st now successor secret) = None"
    using spent_never_rotates assms by blast
  then have none: "find (rotatable ?h now) (ac_refresh st) = None"
    using assms(4) unique by (auto simp: find_None_iff rotatable_def)
  have "find (\<lambda>r. rt_token_hash r = ?h) (ac_refresh st) \<noteq> None" using assms(2,3) by (auto simp: find_None_iff)
  then have "find (\<lambda>r. rt_token_hash r = ?h) (ac_refresh st) = Some r"
    using unique by (auto simp: find_Some_iff dest: nth_mem)
  with none have run: "fst (rotate_refresh env st now successor secret)
      = (if rt_revoked_at r \<noteq> None then st else revoke_family (rt_family_id r) now st)"
    using assms(4) by (simp add: rotate_refresh_def refuse_unconsumable_def Let_def)
  show ?thesis
  proof (cases "rt_revoked_at r")
    case None
    then have "r\<lparr>rt_revoked_at := Some now\<rparr> \<in> set (ac_refresh (revoke_family (rt_family_id r) now st))"
      using assms(2) by (auto simp: revoke_family_def intro!: image_eqI [of _ _ r])
    with run None show ?thesis by (intro bexI [of _ "r\<lparr>rt_revoked_at := Some now\<rparr>"]) auto
  next
    case (Some t)
    with run assms(2) show ?thesis by (intro bexI [of _ r]) auto
  qed
qed

text \<open>A family with a revoked row is dead in every later state.\<close>

lemma dead_family:
  assumes "account_reachable env now st" and "account_steps env (now, st) (now', st')"
    and "r \<in> set (ac_refresh st)" and "rt_revoked_at r \<noteq> None"
    and "x \<in> set (ac_refresh st')" and "rt_family_id x = rt_family_id r" and "rt_token_hash x = en_hash_token env secret"
  shows "snd (rotate_refresh env st' now'' successor secret) = None"
proof -
  obtain r' where r': "r' \<in> set (ac_refresh st')" "ages r r'" using steps_ages [OF assms(2,1,3)] by blast
  have ok: "accounts_ok st'" using steps_accounts_ok [OF assms(1,2)] .
  have "same_family x r'" using r'(2) assms(6) by (simp add: same_family_def ages_def)
  then have "relatives x r'" using ok r'(1) assms(5) by (simp add: accounts_ok_def rows_ok_def)
  then have "rt_revoked_at x \<noteq> None" using r'(2) assms(4) by (auto simp: relatives_def ages_def)
  then show ?thesis using spent_never_rotates [OF ok assms(5)] assms(7) by blast
qed


text \<open>In every reachable state at most one secret of a family is live, no secret outlives the absolute bound
  its family was given at login, and all secrets of a family belong to the same person at the same
  session version.\<close>

theorem refresh_families_ok:
  assumes "account_reachable env now st" and "r \<in> set (ac_refresh st)" and "r' \<in> set (ac_refresh st)"
    and "rt_family_id r = rt_family_id r'"
  shows "(alive r \<and> alive r' \<longrightarrow> r = r') \<and> rt_expires_at r \<le> rt_absolute_expires_at r'
    \<and> rt_user_id r = rt_user_id r' \<and> rt_auth_version r = rt_auth_version r'"
proof -
  have ok: "rows_ok (ac_refresh st)" using reachable_accounts_ok [OF assms(1)] by (simp add: accounts_ok_def)
  with assms have rel: "relatives r r'" by (auto simp: rows_ok_def same_family_def)
  then have "alive r \<and> alive r' \<longrightarrow> r = r'"
    using same_hash_same_row [OF ok assms(2,3)] by (simp add: relatives_def)
  moreover have "rt_expires_at r \<le> rt_absolute_expires_at r'"
    using rel ok assms(2) unfolding relatives_def rows_ok_def by metis
  ultimately show ?thesis using rel by (simp add: relatives_def)
qed

subsection \<open>Ended sessions stay ended\<close>

lemma versions_ok_perform:
  assumes "accounts_ok st" and "versions_ok st" and "fresh_draws env op st"
  shows "versions_ok (perform env now op st)"
proof -
  have ids: "ids_ok st" and rows: "rows_ok (ac_refresh st)" using assms(1) by (simp_all add: accounts_ok_def)
  have up: "\<exists>u. get_user (perform env now op st) (rt_user_id r) = Some u \<and> rt_auth_version r \<le> u_auth_version u"
    if "get_user st (rt_user_id r) = Some u" "rt_auth_version r \<le> u_auth_version u" for r u
    using perform_users_evolve [OF ids assms(3), of now] that by (fastforce simp: users_evolve_def)
  have row: "\<exists>u. get_user st (rt_user_id r) = Some u \<and> rt_auth_version r \<le> u_auth_version u"
    if "r \<in> set rs" "refresh_change env now st rs" for r rs
    using that(2,1)
  proof cases
    case (rotated secret h r0 u m)
    note owner = session_owner_row [OF rotated(4)]
    with rotated that(1) assms(2) show ?thesis
      by (auto simp: versions_ok_def new_refresh_row_def consume_refresh_def split: if_splits)
  qed (use assms(2) in \<open>auto simp: versions_ok_def new_refresh_row_def revoke_family_def consume_refresh_def
      split: if_splits\<close>)
  show ?thesis
    using row [OF _ perform_refresh [OF ids assms(3)]] up by (fastforce simp: versions_ok_def)
qed

lemma reachable_versions_ok: "account_reachable env now st \<Longrightarrow> accounts_ok st \<and> versions_ok st"
proof (erule account_invariant)
  show "accounts_ok no_accounts \<and> versions_ok no_accounts"
    by (simp add: accounts_ok_def ids_ok_def rows_ok_def stations_ok_def no_accounts_def tbl_wf_def versions_ok_def)
qed (use perform_accounts_ok versions_ok_perform in blast)

text \<open>The operations that end the sessions of a person.\<close>

definition ends_sessions :: "auth_env \<Rightarrow> timestamp \<Rightarrow> account_op \<Rightarrow> accounts \<Rightarrow> uuid \<Rightarrow> bool" where
  "ends_sessions env now op st i \<longleftrightarrow>
     op = Revoke_Sessions i \<or>
     (op = Disable_Account i \<and> (\<forall>u. get_user st i = Some u \<longrightarrow> u_disabled_at u = None)) \<or>
     (\<exists>salt old new. op = Change_Password salt i old new \<and> (\<exists>b. snd (change_password env st salt i old new) = Inr b)) \<or>
     (\<exists>salt secret pw t. op = Reset_Password salt secret pw \<and> (\<exists>b. snd (reset_password env st now salt secret pw) = Inr b)
        \<and> snd (consume_secret env st now secret PASSWORD_RESET) = Some t \<and> at_user_id t = i) \<or>
     (\<exists>salt email pw u. op = Set_User_Password salt email pw \<and> get_user_by_email st email = Some u \<and> u_id u = i)"

lemma get_user_put [simp]: "get_user (put_user u st) k = (if k = u_id u then Some u else get_user st k)"
  by (simp add: get_user_def put_user_def)

lemma get_user_expire [simp]:
  "get_user (expire_tokens P now st) = get_user st" "get_user (expire_outstanding st i p now) = get_user st"
  by (simp_all add: get_user_def)

lemma ending_bumps_version:
  assumes "ends_sessions env now op st i" and "ids_ok st" and "get_user st i = Some u"
  shows "\<exists>u'. get_user (perform env now op st) i = Some u' \<and> u_auth_version u < u_auth_version u'"
proof -
  note change = apply_new_password_def revoke_sessions_in_place_def Let_def
  have id: "u_id u = i" using get_user_id [OF assms(3)] .
  from assms(1) consider (revoke) "op = Revoke_Sessions i" | (disable) "op = Disable_Account i" "u_disabled_at u = None"
    | (change) salt old new b where "op = Change_Password salt i old new" "snd (change_password env st salt i old new) = Inr b"
    | (reset) salt secret pw t b where "op = Reset_Password salt secret pw"
        "snd (reset_password env st now salt secret pw) = Inr b"
        "snd (consume_secret env st now secret PASSWORD_RESET) = Some t" "at_user_id t = i"
    | (set) salt email pw u0 where "op = Set_User_Password salt email pw" "get_user_by_email st email = Some u0" "u_id u0 = i"
    using assms(3) unfolding ends_sessions_def by (elim disjE exE conjE) auto
  then show ?thesis
  proof cases
    case revoke
    with assms(3) id show ?thesis by (simp add: revoke_sessions_of_def change)
  next
    case disable
    with assms(3) id show ?thesis by (simp add: disable_account_def change)
  next
    case (change salt old new b)
    with assms(3) id show ?thesis by (auto simp: change_password_def apply_new_password_def
        revoke_sessions_in_place_def Let_def split: option.splits if_splits)
  next
    case (reset salt secret pw t b)
    obtain st1 where c: "consume_secret env st now secret PASSWORD_RESET = (st1, Some t)"
      using reset(3) by (cases "consume_secret env st now secret PASSWORD_RESET") simp
    have got: "get_user st1 i = Some u" using consumed_frame(2) [OF c] assms(3) by (simp add: get_user_def)
    with reset(2,4) c have live: "account_status_of u \<noteq> Account_DISABLED"
      by (auto simp: reset_password_def)
    show ?thesis
      unfolding reset(1) perform.simps using got live c id reset(4)
      by (cases "u_email_verified_at u")
        (simp_all add: reset_password_def apply_new_password_def revoke_sessions_in_place_def Let_def)
  next
    case (set salt email pw u0)
    with user_by_email [OF assms(2) set(2)] assms(3) have "u0 = u" by simp
    with set id show ?thesis
      by (simp add: set_user_password_def found_def apply_new_password_def revoke_sessions_in_place_def Let_def)
  qed
qed

lemma outdated_never_rotates:
  assumes "accounts_ok st" and "r \<in> set (ac_refresh st)" and "rt_token_hash r = en_hash_token env secret"
    and "get_user st (rt_user_id r) = Some u" and "rt_auth_version r < u_auth_version u"
  shows "snd (rotate_refresh env st now successor secret) = None"
proof (cases "find (rotatable (en_hash_token env secret) now) (ac_refresh st)")
  case None
  then show ?thesis by (simp add: rotate_refresh_def Let_def)
next
  case (Some x)
  have "rows_ok (ac_refresh st)" using assms(1) by (simp add: accounts_ok_def)
  note x = rotatable_unique [OF this Some]
  have "x = r" using x(4) [OF assms(2,3)] by simp
  then have "session_owner (consume_refresh h now st) x = None" for h
    using assms(4,5) by (auto simp: session_owner_def get_user_def split: option.split)
  with Some show ?thesis by (simp add: rotate_refresh_def Let_def)
qed

text \<open>Property C14. Ending the sessions of a person is final: after a password change or reset, an administrator's
  revocation or a deactivation - even one that is lifted later - no refresh secret and no access
  token handed out before is ever accepted again, whatever happens afterwards.\<close>

theorem ended_sessions_stay_ended:
  assumes "account_reachable env t st" and "ends_sessions env now op st i" and "fresh_draws env op st" and "t \<le> now"
    and "account_steps env (now, perform env now op st) (now', st')" and "get_user st i = Some u"
  shows "(\<forall>r \<in> set (ac_refresh st). rt_user_id r = i \<and> rt_token_hash r = en_hash_token env secret \<longrightarrow>
       (\<exists>e. snd (refresh env st' now' successor secret) = Inl e))
    \<and> (\<forall>claims. jw_user_id claims = i \<and> jw_auth_version claims \<le> u_auth_version u \<longrightarrow>
       resolve_jwt_machine st' claims = None)"
proof -
  let ?st1 = "perform env now op st"
  have ok: "accounts_ok st" "versions_ok st" using reachable_versions_ok [OF assms(1)] by simp_all
  have step: "account_steps env (t, st) (now, ?st1)"
    by (rule r_into_rtranclp) (rule account_step.intros [OF assms(4,3)])
  have r1: "account_reachable env now ?st1" using account_reachable_step [OF assms(1) step] .
  obtain u1 where u1: "get_user ?st1 i = Some u1" "u_auth_version u < u_auth_version u1"
    using ending_bumps_version [OF assms(2) _ assms(6)] ok(1) by (auto simp: accounts_ok_def)
  obtain u2 where u2: "get_user st' i = Some u2" "u_auth_version u1 \<le> u_auth_version u2"
    using steps_users_evolve [OF assms(5) r1] u1(1) by (auto simp: users_evolve_def)
  have "\<exists>e. snd (refresh env st' now' successor secret) = Inl e"
    if r: "r \<in> set (ac_refresh st)" "rt_user_id r = i" "rt_token_hash r = en_hash_token env secret" for r
  proof -
    have "account_steps env (t, st) (now', st')" using step assms(5) by simp
    then obtain r' where r': "r' \<in> set (ac_refresh st')" "ages r r'" using steps_ages assms(1) r(1) by blast
    have "rt_auth_version r \<le> u_auth_version u"
      using ok(2) r(1,2) assms(6) by (auto simp: versions_ok_def)
    with u1 u2 r r' steps_accounts_ok [OF r1 assms(5)] show ?thesis
      by (intro refresh_fails outdated_never_rotates [of st' r' env secret u2]) (auto simp: ages_def)
  qed
  moreover have "resolve_jwt_machine st' claims = None" if "jw_user_id claims = i" "jw_auth_version claims \<le> u_auth_version u" for claims
    using that u1(2) u2 by (auto simp: resolve_jwt_machine_def split: option.split)
  ultimately show ?thesis by blast
qed

text \<open>Self-registration never leads to rights: the account it creates is pending, without password and
  \<open>readonly\<close>, and in every later state it still has that role.\<close>

theorem registration_grants_nothing:
  assumes "account_reachable env t st" and "i \<notin> u_id ` set (ac_users st)" and "fresh_hash env st secret" and "t \<le> now"
    and "get_user (fst (register env st now i secret email)) i = Some u"
    and "account_steps env (now, fst (register env st now i secret email)) (now', st')"
  shows "account_status_of u = Account_PENDING \<and> u_password_hash u = None \<and>
    (\<exists>u'. get_user st' i = Some u' \<and> u_role u' = Role_READONLY)"
proof -
  let ?st1 = "fst (register env st now i secret email)"
  have "account_steps env (t, st) (now, ?st1)"
    using account_step.intros [of t now env "Register i secret email" st] assms(2,3,4) by auto
  then have r1: "account_reachable env now ?st1" using account_reachable_step [OF assms(1)] by blast
  have "get_user st i = None" using assms(2) by (simp add: get_user_def tbl_get_None_iff)
  then have "u_role u = Role_READONLY \<and> account_status_of u = Account_PENDING \<and> u_password_hash u = None"
    using assms(5)
    by (auto simp: register_def Let_def add_user_def get_user_def tbl_get_snoc new_user_def account_status_of_def
        SELF_REGISTERED_ROLE_def split: option.splits if_splits)
  with steps_users_evolve [OF assms(6) r1] assms(5) show ?thesis by (fastforce simp: users_evolve_def)
qed

text \<open>Workstations never nest: in every reachable state the workstation of a machine is an existing,
  unattached other machine of the same owner.\<close>

theorem workstations_never_nest:
  assumes "account_reachable env now st" and "m \<in> set (ac_machines st)" and "m_workstation_id m = Some j"
  shows "\<exists>w. get_machine st j = Some w \<and> m_workstation_id w = None \<and> m_owner_user_id w = m_owner_user_id m \<and> j \<noteq> m_id m"
  using reachable_accounts_ok [OF assms(1)] assms(2,3)
  by (auto simp: accounts_ok_def stations_ok_def get_machine_def)

end
