(* ===== verification/Account_Secrets.thy ===== *)
theory Account_Secrets
  imports Account_Safety
begin

section \<open>Account secrets, lock-outs and launch credentials\<close>

text \<open>
  A mailed secret works once and only the newest one works; a deactivated account has no way in;
  a launch credential lives no longer than its launch. Then two ways a session goes wrong: a
  second machine named \<open>dashboard\<close> makes every login fail, and a logout that meets a renewal
  leaves the session alive.
\<close>

subsection \<open>How the mailed secrets change\<close>

definition token_ages :: "account_token \<Rightarrow> account_token \<Rightarrow> bool" where
  "token_ages t t' \<longleftrightarrow> at_token_hash t' = at_token_hash t \<and> at_user_id t' = at_user_id t \<and> at_purpose t' = at_purpose t \<and>
     at_expires_at t' \<le> at_expires_at t \<and> (at_consumed_at t \<noteq> None \<longrightarrow> at_consumed_at t' \<noteq> None)"

definition outstanding :: "timestamp \<Rightarrow> account_token \<Rightarrow> bool" where
  "outstanding now t \<longleftrightarrow> at_consumed_at t = None \<and> now < at_expires_at t"

inductive tokens_change :: "auth_env \<Rightarrow> timestamp \<Rightarrow> accounts \<Rightarrow> account_token list \<Rightarrow> bool" for env now st where
  aged: "\<forall>t. token_ages t (f t) \<Longrightarrow> tokens_change env now st (map f (ac_tokens st))"
| mailed: "\<forall>t. token_ages t (f t) \<Longrightarrow> en_hash_token env secret \<notin> at_token_hash ` set (ac_tokens st) \<Longrightarrow>
     \<forall>t. at_user_id t = i \<and> at_purpose t = p \<longrightarrow> \<not> outstanding now (f t) \<Longrightarrow>
     tokens_change env now st (map f (ac_tokens st) @
       [\<lparr>at_user_id = i, at_purpose = p, at_token_hash = en_hash_token env secret, at_created_at = now,
         at_expires_at = e, at_consumed_at = None\<rparr>])"

lemma tokens_unchanged: "ac_tokens st' = ac_tokens st \<Longrightarrow> tokens_change env now st (ac_tokens st')"
  using aged [of id env now st] by (simp add: token_ages_def)

lemma tokens_expired: "tokens_change env now st (ac_tokens (expire_tokens P now st))"
  unfolding expire_tokens_def by (simp, rule aged) (simp add: token_ages_def)

lemma token_ages_trans: "token_ages a b \<Longrightarrow> token_ages b c \<Longrightarrow> token_ages a c"
  by (auto simp: token_ages_def)

lemma tokens_expired_again:
  assumes "ac_tokens st1 = map f (ac_tokens st)" and "\<forall>t. token_ages t (f t)"
  shows "\<exists>g. (\<forall>t. token_ages t (g t)) \<and> ac_tokens (expire_outstanding st1 i p now) = map g (ac_tokens st)"
proof -
  define k :: "account_token \<Rightarrow> account_token" where "k t = (if (at_user_id t = i \<and> at_purpose t = p) \<and> at_consumed_at t = None \<and> now < at_expires_at t
      then t\<lparr>at_expires_at := now\<rparr> else t)" for t
  have "token_ages t (k t)" for t by (simp add: k_def token_ages_def)
  then have "token_ages t (k (f t))" for t using assms(2) token_ages_trans by blast
  moreover have "ac_tokens (expire_outstanding st1 i p now) = map (k \<circ> f) (ac_tokens st)"
    by (simp add: expire_outstanding_def expire_tokens_def assms(1) k_def comp_def)
  ultimately show ?thesis by (intro exI [of _ "k \<circ> f"]) simp
qed

lemma token_frame [simp]:
  "ac_tokens (put_user u st) = ac_tokens st" "ac_tokens (put_machine m st) = ac_tokens st"
  "ac_tokens (add_user u st) = ac_tokens st" "ac_tokens (add_refresh r st) = ac_tokens st"
  "ac_tokens (revoke_family f now st) = ac_tokens st" "ac_tokens (consume_refresh h now st) = ac_tokens st"
  "ac_tokens (refuse_unconsumable h now st) = ac_tokens st" "ac_tokens (revoke_refresh env st now secret) = ac_tokens st"
  "ac_tokens (fst (create_machine env st i token owner name w)) = ac_tokens st"
  "ac_tokens (fst (revoke_machine st now m)) = ac_tokens st"
  "ac_tokens (fst (rotate_machine_credential env st token m)) = ac_tokens st"
  "ac_tokens (fst (update_machine st m name)) = ac_tokens st"
  "ac_tokens (fst (set_machine_workstation st m w)) = ac_tokens st"
  "ac_tokens (fst (create_user st now i name email role)) = ac_tokens st"
  "ac_tokens (fst (change_password env st salt i old new)) = ac_tokens st"
  "ac_tokens (fst (set_user_password env st salt email pw)) = ac_tokens st"
  "ac_tokens (fst (revoke_sessions_of st u)) = ac_tokens st" "ac_tokens (fst (enable_account st u)) = ac_tokens st"
  "ac_tokens (fst (refresh env st now successor secret)) = ac_tokens st"
  by (auto simp: put_user_def put_machine_def add_user_def add_refresh_def revoke_family_def consume_refresh_def
      refuse_unconsumable_def revoke_refresh_def create_machine_def revoke_machine_def rotate_machine_credential_def
      update_machine_def set_machine_workstation_def create_user_def change_password_def set_user_password_def
      revoke_sessions_of_def enable_account_def refresh_def rotate_refresh_def found_def on_ok_def Let_def
      split: option.split sum.split prod.split)

lemma bootstrap_tokens [simp]: "ac_tokens (fst (bootstrap_admin st now i name email)) = ac_tokens st"
  by (simp add: bootstrap_admin_def split: list.split)

lemma login_tokens [simp]: "ac_tokens (fst (login env st now i token family secret email pw persistent)) = ac_tokens st"
  by (auto simp: login_def issue_refresh_def Let_def dashboard_frame split: option.split prod.split sum.split)

lemma issued_tokens:
  assumes "issue_secret env st now secret i p ttl = (st', x)" and "ac_tokens st = ac_tokens st0"
    and "fresh_hash env st0 secret"
  shows "tokens_change env now st0 (ac_tokens st')"
proof (cases x)
  case None
  then have "st' = st" using assms(1) by (auto simp: issue_secret_def Let_def split: if_splits)
  with assms(2) show ?thesis by (simp add: tokens_unchanged)
next
  case (Some s)
  define k :: "account_token \<Rightarrow> account_token" where "k t = (if (at_user_id t = i \<and> at_purpose t = p) \<and> at_consumed_at t = None \<and> now < at_expires_at t
      then t\<lparr>at_expires_at := now\<rparr> else t)" for t
  have "ac_tokens st' = map k (ac_tokens st0) @ [\<lparr>at_user_id = i, at_purpose = p,
      at_token_hash = en_hash_token env secret, at_created_at = now, at_expires_at = now + ttl, at_consumed_at = None\<rparr>]"
    using assms(1,2) Some by (auto simp: issue_secret_def Let_def expire_outstanding_def expire_tokens_def k_def split: if_splits)
  moreover have "\<forall>t. token_ages t (k t)" "\<forall>t. at_user_id t = i \<and> at_purpose t = p \<longrightarrow> \<not> outstanding now (k t)"
    by (auto simp: k_def token_ages_def outstanding_def)
  ultimately show ?thesis using mailed [of k env secret st0 i p now] assms(3) by (simp add: fresh_hash_def)
qed

lemma send_tokens:
  assumes "ac_tokens st = ac_tokens st0" and "fresh_hash env st0 secret"
  shows "tokens_change env now st0 (ac_tokens (fst (send_verification env st now secret u)))"
  using issued_tokens [OF _ assms] by (auto simp: send_verification_def split: prod.split option.split)

lemma consumed_tokens:
  assumes "consume_secret env st now secret p = (st1, x)"
  shows "\<exists>f. (\<forall>t. token_ages t (f t)) \<and> ac_tokens st1 = map f (ac_tokens st)"
  using assms by (intro exI [of _ "\<lambda>t. if consumable (en_hash_token env secret) p now t then t\<lparr>at_consumed_at := Some now\<rparr> else t"])
    (auto simp: consume_secret_def Let_def token_ages_def)

lemma verify_tokens: "tokens_change env now st (ac_tokens (fst (verify_email env st now salt secret pw name)))"
proof -
  have "tokens_change env now st (ac_tokens (expire_outstanding (put_user u st1) i p now))"
    if "consume_secret env st now secret q = (st1, x)" for st1 x u i p q
  proof -
    from consumed_tokens [OF that] obtain f where f: "\<forall>t. token_ages t (f t)" "ac_tokens (put_user u st1) = map f (ac_tokens st)"
      by auto
    show ?thesis using tokens_expired_again [OF f(2,1), of i p now] aged by metis
  qed
  then show ?thesis using tokens_unchanged [of st st env now]
    by (auto simp: verify_email_def Let_def split: prod.split option.split)
qed

lemma reset_tokens: "tokens_change env now st (ac_tokens (fst (reset_password env st now salt secret pw)))"
proof -
  have once: "\<exists>g. (\<forall>t. token_ages t (g t)) \<and> ac_tokens (expire_outstanding (put_user u st1) i p now) = map g (ac_tokens st)"
    if "consume_secret env st now secret q = (st1, x)" for st1 x u i p q
  proof -
    from consumed_tokens [OF that] obtain f where f: "\<forall>t. token_ages t (f t)" "ac_tokens (put_user u st1) = map f (ac_tokens st)"
      by auto
    show ?thesis using tokens_expired_again [OF f(2,1)] .
  qed
  have twice: "tokens_change env now st (ac_tokens (expire_outstanding (expire_outstanding (put_user u st1) i p now) j q' now))"
    if "consume_secret env st now secret q = (st1, x)" for st1 x u i p q j q'
    using once [OF that, of u i p] tokens_expired_again aged by metis
  show ?thesis
    using once twice aged tokens_unchanged [of st st env now]
    by (auto simp: reset_password_def Let_def split: prod.split option.split) (metis (no_types, lifting))
qed

lemma perform_tokens:
  assumes "fresh_draws env op st"
  shows "tokens_change env now st (ac_tokens (perform env now op st))"
proof -
  have same: "tokens_change env now st (ac_tokens st)" by (simp add: tokens_unchanged)
  have disabled: "tokens_change env now st (ac_tokens (fst (disable_account st now u)))" for u
    using same aged [of "\<lambda>t. if at_user_id t = u_id u \<and> at_consumed_at t = None \<and> now < at_expires_at t
      then t\<lparr>at_expires_at := now\<rparr> else t" env now st]
    by (auto simp: disable_account_def Let_def expire_tokens_def token_ages_def)
  show ?thesis
  proof (cases op)
    case (Register i secret email)
    with assms same send_tokens [of _ st env secret now] show ?thesis
      by (auto simp: register_def Let_def split: option.split)
  next
    case (Resend_Verification secret email)
    with assms same send_tokens [of _ st env secret now] show ?thesis
      by (auto simp: resend_verification_def split: option.split)
  next
    case (Forgot_Password secret email)
    with assms same issued_tokens [of env st now secret _ _ _ _ _ st] show ?thesis
      by (auto simp: forgot_password_def split: option.split prod.split)
  qed (use same verify_tokens reset_tokens disabled in \<open>auto split: option.split\<close>)
qed

subsection \<open>A secret works once, and only the newest\<close>

definition tokens_ok :: "timestamp \<Rightarrow> account_token list \<Rightarrow> bool" where
  "tokens_ok now ts \<longleftrightarrow> tbl_wf at_token_hash ts \<and>
     (\<forall>t \<in> set ts. \<forall>t' \<in> set ts. at_user_id t = at_user_id t' \<and> at_purpose t = at_purpose t' \<and>
        outstanding now t \<and> outstanding now t' \<longrightarrow> at_token_hash t = at_token_hash t')"

lemma tokens_okI:
  assumes "tbl_wf at_token_hash ts"
    and "\<And>t t'. t \<in> set ts \<Longrightarrow> t' \<in> set ts \<Longrightarrow> at_user_id t = at_user_id t' \<Longrightarrow> at_purpose t = at_purpose t' \<Longrightarrow>
      outstanding now t \<Longrightarrow> outstanding now t' \<Longrightarrow> at_token_hash t = at_token_hash t'"
  shows "tokens_ok now ts"
  unfolding tokens_ok_def using assms by blast

lemma tokens_okD:
  "tokens_ok now ts \<Longrightarrow> t \<in> set ts \<Longrightarrow> t' \<in> set ts \<Longrightarrow> at_user_id t = at_user_id t' \<Longrightarrow>
     at_purpose t = at_purpose t' \<Longrightarrow> outstanding now t \<Longrightarrow> outstanding now t' \<Longrightarrow> at_token_hash t = at_token_hash t'"
  unfolding tokens_ok_def by blast

lemma tokens_ok_later: "now \<le> now' \<Longrightarrow> tokens_ok now ts \<Longrightarrow> tokens_ok now' ts"
  unfolding tokens_ok_def outstanding_def by (meson order_le_less_trans)

lemma aged_outstanding: "token_ages t t' \<Longrightarrow> outstanding now t' \<Longrightarrow> outstanding now t"
  by (auto simp: token_ages_def outstanding_def)

lemma tokens_ok_aged:
  assumes "tokens_ok now ts" and "\<forall>t. token_ages t (f t)"
  shows "tokens_ok now (map f ts)"
proof -
  have "map at_token_hash (map f ts) = map at_token_hash ts" using assms(2) by (simp add: token_ages_def)
  then have "tbl_wf at_token_hash (map f ts)" using assms(1) by (simp only: tokens_ok_def tbl_wf_def)
  then show ?thesis
  proof (rule tokens_okI)
    fix x x'
    assume x: "x \<in> set (map f ts)" "x' \<in> set (map f ts)" "at_user_id x = at_user_id x'" "at_purpose x = at_purpose x'"
      "outstanding now x" "outstanding now x'"
    then obtain t t' where t: "t \<in> set ts" "x = f t" "t' \<in> set ts" "x' = f t'" by auto
    have age: "token_ages t x" "token_ages t' x'" using assms(2) t by simp_all
    have "at_token_hash t = at_token_hash t'"
      using x(3,4) age
      by (intro tokens_okD [OF assms(1) t(1,3)] aged_outstanding [OF age(1) x(5)] aged_outstanding [OF age(2) x(6)])
        (simp_all add: token_ages_def)
    with age show "at_token_hash x = at_token_hash x'" by (simp add: token_ages_def)
  qed
qed

lemma tokens_change_ok:
  assumes "tokens_change env now st ts" and "tokens_ok now (ac_tokens st)"
  shows "tokens_ok now ts"
  using assms(1)
proof cases
  case (aged f)
  with tokens_ok_aged [OF assms(2)] show ?thesis by simp
next
  case (mailed f secret i p e)
  have ok: "tokens_ok now (map f (ac_tokens st))" using tokens_ok_aged [OF assms(2) mailed(2)] .
  have "at_token_hash ` set (map f (ac_tokens st)) = at_token_hash ` set (ac_tokens st)"
    using mailed(2) by (force simp: token_ages_def image_image)
  moreover have "\<not> outstanding now t" if "t \<in> set (map f (ac_tokens st))" "at_user_id t = i" "at_purpose t = p" for t
    using that mailed(2,4) by (auto simp: token_ages_def)
  ultimately have lone: "\<not> outstanding now x"
    if "x \<in> set (map f (ac_tokens st))" "at_user_id x = i" "at_purpose x = p" for x
    using that by blast
  have "tbl_wf at_token_hash ts"
    unfolding mailed(1) using ok mailed(3) \<open>_ ` set (map f _) = _\<close>
    by (intro tbl_wf_append) (simp_all add: tokens_ok_def)
  then show ?thesis
  proof (rule tokens_okI)
    fix x x'
    assume x: "x \<in> set ts" "x' \<in> set ts" "at_user_id x = at_user_id x'" "at_purpose x = at_purpose x'"
      "outstanding now x" "outstanding now x'"
    let ?old = "set (map f (ac_tokens st))"
    consider "x \<in> ?old" "x' \<in> ?old" | "x \<in> ?old" "at_user_id x' = i" "at_purpose x' = p"
      | "x' \<in> ?old" "at_user_id x = i" "at_purpose x = p" | "x = x'"
      using x(1,2) unfolding mailed(1) by force
    then show "at_token_hash x = at_token_hash x'"
    proof cases
      case 1
      then show ?thesis using tokens_okD [OF ok _ _ x(3-6)] by blast
    qed (use x lone in auto)
  qed
qed

lemma reachable_tokens_ok: "account_reachable env now st \<Longrightarrow> tokens_ok now (ac_tokens st)"
proof -
  assume "account_reachable env now st"
  then obtain t0 where run: "account_steps env (t0, no_accounts) (now, st)" by (auto simp: account_reachable_def)
  show ?thesis
  proof (rule steps_induct [OF run])
    show "tokens_ok t0 (ac_tokens no_accounts)" by (simp add: no_accounts_def tokens_ok_def tbl_wf_def)
  qed (use perform_tokens tokens_change_ok tokens_ok_later in blast)
qed

lemma token_steps_age:
  assumes "account_steps env (now, st) (now', st')" and "t \<in> set (ac_tokens st)"
  shows "\<exists>t' \<in> set (ac_tokens st'). token_ages t t'"
proof (rule steps_induct [OF assms(1)])
  show "\<exists>t' \<in> set (ac_tokens st). token_ages t t'" using assms(2) by (intro bexI [of _ t]) (auto simp: token_ages_def)
next
  fix n1 n2 op st1
  assume *: "\<exists>t' \<in> set (ac_tokens st1). token_ages t t'" "fresh_draws env op st1"
  then obtain t1 where t1: "t1 \<in> set (ac_tokens st1)" "token_ages t t1" by blast
  from perform_tokens [OF *(2), of n2] have "\<exists>t2 \<in> set (ac_tokens (perform env n2 op st1)). token_ages t1 t2"
    using t1(1) by cases auto
  with t1(2) token_ages_trans show "\<exists>t' \<in> set (ac_tokens (perform env n2 op st1)). token_ages t t'" by blast
qed

lemma spent_secret:
  assumes "tokens_ok now (ac_tokens st)" and "t \<in> set (ac_tokens st)" and "at_token_hash t = en_hash_token env secret"
    and "at_consumed_at t \<noteq> None"
  shows "snd (consume_secret env st now' secret p) = None"
proof -
  have "x = t" if "x \<in> set (ac_tokens st)" "at_token_hash x = at_token_hash t" for x
    using that assms(1,2) unfolding tokens_ok_def tbl_wf_def distinct_map by (blast dest: inj_onD)
  with assms(3,4) have "\<forall>x \<in> set (ac_tokens st). \<not> consumable (en_hash_token env secret) p now' x"
    by (auto simp: consumable_def)
  then show ?thesis by (simp add: consume_secret_def Let_def find_None_iff)
qed

lemma consumed_now:
  assumes "consume_secret env st now secret p = (st1, Some t)"
  shows "\<exists>t' \<in> set (ac_tokens st1). at_token_hash t' = en_hash_token env secret \<and> at_consumed_at t' \<noteq> None"
proof -
  have t: "t \<in> set (ac_tokens st)" "consumable (en_hash_token env secret) p now t"
    using assms by (auto simp: consume_secret_def Let_def find_Some_iff)
  then have "t\<lparr>at_consumed_at := Some now\<rparr> \<in> set (ac_tokens st1)"
    using assms by (auto simp: consume_secret_def Let_def intro!: image_eqI [of _ _ t])
  with t(2) show ?thesis by (intro bexI [of _ "t\<lparr>at_consumed_at := Some now\<rparr>"]) (auto simp: consumable_def)
qed

lemma expiry_keeps_consumed:
  assumes "t' \<in> set (ac_tokens st)" "at_token_hash t' = h \<and> at_consumed_at t' \<noteq> None"
  shows "\<exists>t' \<in> set (ac_tokens (expire_outstanding st i p now)). at_token_hash t' = h \<and> at_consumed_at t' \<noteq> None"
  using assms by (intro bexI [of _ t']) (auto simp: expire_outstanding_def expire_tokens_def image_iff intro!: bexI [of _ t'])

lemma used_secret_marked:
  assumes "snd (verify_email env st now salt secret pw name) = Inr b \<and> st1 = fst (verify_email env st now salt secret pw name)
    \<or> snd (reset_password env st now salt secret pw) = Inr b \<and> st1 = fst (reset_password env st now salt secret pw)"
  shows "\<exists>t' \<in> set (ac_tokens st1). at_token_hash t' = en_hash_token env secret \<and> at_consumed_at t' \<noteq> None"
proof -
  have "\<exists>t' \<in> set (ac_tokens (expire_outstanding (put_user u st2) i p now)). at_token_hash t' = en_hash_token env secret \<and> at_consumed_at t' \<noteq> None"
    if c: "consume_secret env st now secret q = (st2, Some t)" for st2 t u i p q
  proof -
    obtain t' where "t' \<in> set (ac_tokens st2)" "at_token_hash t' = en_hash_token env secret \<and> at_consumed_at t' \<noteq> None"
      using consumed_now [OF c] by blast
    then show ?thesis using expiry_keeps_consumed [of t' "put_user u st2"] by simp
  qed
  note once = this
  have twice: "\<exists>t' \<in> set (ac_tokens (expire_outstanding (expire_outstanding (put_user u st2) i p now) j q' now)).
      at_token_hash t' = en_hash_token env secret \<and> at_consumed_at t' \<noteq> None"
    if c: "consume_secret env st now secret q = (st2, Some t)" for st2 t u i p q j q'
    using once [OF c, of u i p] expiry_keeps_consumed by blast
  from assms show ?thesis
  proof (elim disjE conjE)
    assume ok: "snd (verify_email env st now salt secret pw name) = Inr b"
      and st1: "st1 = fst (verify_email env st now salt secret pw name)"
    obtain st2 t where c: "consume_secret env st now secret EMAIL_VERIFICATION = (st2, Some t)"
      using ok by (cases "consume_secret env st now secret EMAIL_VERIFICATION"; cases "snd (consume_secret env st now secret EMAIL_VERIFICATION)")
        (auto simp: verify_email_def)
    with ok obtain u where u: "get_user st2 (at_user_id t) = Some u" "account_status_of u = Account_PENDING"
      by (auto simp: verify_email_def Let_def split: option.split_asm if_split_asm)
    show ?thesis unfolding st1 using c u once [OF c] by (simp add: verify_email_def Let_def)
  next
    assume ok: "snd (reset_password env st now salt secret pw) = Inr b"
      and st1: "st1 = fst (reset_password env st now salt secret pw)"
    obtain st2 t where c: "consume_secret env st now secret PASSWORD_RESET = (st2, Some t)"
      using ok by (cases "consume_secret env st now secret PASSWORD_RESET"; cases "snd (consume_secret env st now secret PASSWORD_RESET)")
        (auto simp: reset_password_def)
    with ok obtain u where u: "get_user st2 (at_user_id t) = Some u" "account_status_of u \<noteq> Account_DISABLED"
      by (auto simp: reset_password_def Let_def split: option.split_asm if_split_asm)
    show ?thesis
      unfolding st1 using c u once [OF c] twice [OF c]
      by (cases "u_email_verified_at u") (simp_all add: reset_password_def Let_def)
  qed
qed

text \<open>A mailed secret works once: after a verification or a password reset with it succeeded, no later
  verification and no later reset with it succeeds, whatever happens in between, and such a call
  changes nothing.\<close>

theorem account_secret_works_once:
  assumes "account_reachable env t st" and "t \<le> now"
    and "snd (verify_email env st now salt secret pw name) = Inr b \<and> st1 = fst (verify_email env st now salt secret pw name)
      \<or> snd (reset_password env st now salt secret pw) = Inr b \<and> st1 = fst (reset_password env st now salt secret pw)"
    and "account_steps env (now, st1) (now', st')"
  shows "verify_email env st' now' salt' secret pw' name' = (st', Inl invalid_token)
    \<and> reset_password env st' now' salt' secret pw' = (st', Inl invalid_token)"
proof -
  have "account_steps env (t, st) (now, st1)"
    using assms(3) perform_steps [OF assms(2), of env "Verify_Email salt secret pw name" st]
      perform_steps [OF assms(2), of env "Reset_Password salt secret pw" st] by (elim disjE conjE) simp_all
  then have r1: "account_reachable env now st1" using account_reachable_step [OF assms(1)] by blast
  obtain t1 where t1: "t1 \<in> set (ac_tokens st1)" "at_token_hash t1 = en_hash_token env secret" "at_consumed_at t1 \<noteq> None"
    using used_secret_marked [OF assms(3)] by blast
  obtain t2 where t2: "t2 \<in> set (ac_tokens st')" "token_ages t1 t2" using token_steps_age [OF assms(4) t1(1)] by blast
  have ok: "tokens_ok now' (ac_tokens st')" using reachable_tokens_ok [OF account_reachable_step [OF r1 assms(4)]] .
  have none: "snd (consume_secret env st' now' secret p) = None" for p
    using spent_secret [OF ok t2(1)] t1 t2(2) by (simp add: token_ages_def)
  have "verify_email env st' now' salt' secret pw' name' = (st', Inl invalid_token)"
    using none [of EMAIL_VERIFICATION]
    by (cases "consume_secret env st' now' secret EMAIL_VERIFICATION") (simp add: verify_email_def)
  moreover have "reset_password env st' now' salt' secret pw' = (st', Inl invalid_token)"
    using none [of PASSWORD_RESET]
    by (cases "consume_secret env st' now' secret PASSWORD_RESET") (simp add: reset_password_def)
  ultimately show ?thesis ..
qed

text \<open>Only the newest mailed secret of a kind works: in every reachable state at most one secret per
  person and purpose can still be consumed.\<close>

theorem newest_secret_only:
  assumes "account_reachable env now st" and "t \<in> set (ac_tokens st)" and "t' \<in> set (ac_tokens st)"
    and "at_user_id t = at_user_id t'" and "at_purpose t = at_purpose t'"
    and "consumable h p now t" and "consumable h' p' now t'"
  shows "h = h'"
  using tokens_okD [OF reachable_tokens_ok [OF assms(1)] assms(2-5)] assms(6,7)
  by (simp add: outstanding_def consumable_def)

subsection \<open>Deactivated accounts and finished launches\<close>

text \<open>A deactivated account has no way in: in a reachable state its password, its access tokens, its
  refresh secrets, the tokens of all its machines, the credentials of launches on them and its
  mailed secrets are all refused.\<close>

theorem disabled_account_locked_out:
  assumes "account_reachable env t st" and "get_user st i = Some u" and "u_disabled_at u \<noteq> None"
  shows "(\<forall>email pw v. verify_user_password env st email pw = Some v \<longrightarrow> u_id v \<noteq> i)
    \<and> (\<forall>claims. jw_user_id claims = i \<longrightarrow> resolve_jwt_machine st claims = None)
    \<and> (\<forall>launches creds token m. resolve_machine env st launches creds now token = Some m \<longrightarrow> m_owner_user_id m \<noteq> i)
    \<and> (\<forall>secret successor v m r. snd (rotate_refresh env st now successor secret) = Some (v, m, r) \<longrightarrow> u_id v \<noteq> i)
    \<and> (\<forall>salt secret pw t1. snd (consume_secret env st now secret PASSWORD_RESET) = Some t1 \<and> at_user_id t1 = i \<longrightarrow>
         reset_password env st now salt secret pw = (st, Inl invalid_token))"
    (is "?password \<and> ?jwt \<and> ?machine \<and> ?refresh \<and> ?reset")
proof -
  have ids: "ids_ok st" using reachable_accounts_ok [OF assms(1)] by (simp add: accounts_ok_def)
  have dead: "\<not> is_active u" using assms(3) by (simp add: is_active_def)
  have ?password
  proof (intro allI impI notI)
    fix email pw v
    assume v: "verify_user_password env st email pw = Some v" "u_id v = i"
    then have "is_active v" by (auto simp: verify_user_password_def split: option.splits if_splits)
    moreover have "v = u" using get_user_of_mem [OF ids logged_in_user [OF v(1)]] v(2) assms(2) by simp
    ultimately show False using dead by simp
  qed
  moreover have ?jwt using assms(2) dead by (auto simp: resolve_jwt_machine_def split: option.split)
  moreover have ?machine
  proof (intro allI impI notI)
    fix launches creds token m
    assume m: "resolve_machine env st launches creds now token = Some m" "m_owner_user_id m = i"
    then show False using assms(2) dead
      by (auto simp: resolve_machine_def resolve_launch_credential_def credential_opens_def find_Some_iff
          split: option.splits)
  qed
  moreover have ?refresh
  proof (intro allI impI notI)
    fix secret successor v m r
    assume r: "snd (rotate_refresh env st now successor secret) = Some (v, m, r)" "u_id v = i"
    then obtain r0 where "session_owner st r0 = Some (v, m)"
      using rotated_cases [of env st now successor secret] by (metis surjective_pairing)
    with session_owner_row [OF this] assms(2) dead r(2) show False by simp
  qed
  moreover have ?reset
  proof (intro allI impI)
    fix salt secret pw t1
    assume t1: "snd (consume_secret env st now secret PASSWORD_RESET) = Some t1 \<and> at_user_id t1 = i"
    then obtain st1 where c: "consume_secret env st now secret PASSWORD_RESET = (st1, Some t1)"
      by (cases "consume_secret env st now secret PASSWORD_RESET") simp
    then have "get_user st1 i = Some u" using consumed_frame(2) [OF c] assms(2) by (simp add: get_user_def)
    with c t1 assms(3) show "reset_password env st now salt secret pw = (st, Inl invalid_token)"
      by (simp add: reset_password_def account_status_of_def)
  qed
  ultimately show ?thesis by blast
qed

text \<open>A launch credential lives no longer than its launch and opens nothing else: when one resolves, its
  launch exists, has not ended and is not past its deadline, the machine carries the scope of exactly
  that launch, and every REST route the machine may then call is on the allow list.\<close>

theorem launch_credential_lives_with_launch:
  assumes "resolve_launch_credential env st launches creds now token = Some m"
  shows "\<exists>l c. c \<in> set creds \<and> lc_credential_hash c = en_hash_token env token \<and>
      tbl_get l_id launches (lc_launch_id c) = Some l \<and> \<not> launch_terminal (l_status l) \<and> now < l_expires_at l \<and>
      m_id m = lc_machine_id c \<and>
      m_launch_scope m = Some \<lparr>ls_launch_id = l_id l, ls_project_id = lc_project_id c, ls_task_id = lc_task_id c\<rparr> \<and>
      (\<forall>method path. ensure_rest_allowed m method path = Inr () \<longrightarrow>
         (\<exists>p. path = Some p \<and> (method, p) \<in> LAUNCH_REST_ALLOWLIST))"
proof -
  from assms obtain c m0 where c: "find (credential_opens st launches now (en_hash_token env token)) creds = Some c"
      and m0: "get_machine st (lc_machine_id c) = Some m0"
      and m: "m = m0\<lparr>m_launch_scope := Some \<lparr>ls_launch_id = lc_launch_id c, ls_project_id = lc_project_id c,
        ls_task_id = lc_task_id c\<rparr>\<rparr>"
    by (auto simp: resolve_launch_credential_def split: option.splits)
  from c have opens: "c \<in> set creds" "credential_opens st launches now (en_hash_token env token) c"
    by (auto simp: find_Some_iff)
  then obtain l where l: "tbl_get l_id launches (lc_launch_id c) = Some l" "\<not> launch_terminal (l_status l)"
      "now < l_expires_at l" "lc_credential_hash c = en_hash_token env token"
    by (auto simp: credential_opens_def split: option.splits)
  show ?thesis
    using opens l m get_machine_id [OF m0] tbl_get_key [OF l(1)]
    by (intro exI [of _ l] exI [of _ c]) (auto simp: ensure_rest_allowed_def split: option.splits)
qed

subsection \<open>Two ways a session goes wrong\<close>

text \<open>A machine that is given the name \<open>dashboard\<close> locks its owner out: the login that worked before fails
  from then on with an internal error, although registering a machine is open to everyone and the
  name is free text.\<close>

theorem second_dashboard_locks_out:
  assumes "verify_user_password env st email pw = Some u" and "ids_ok st"
    and "get_or_create_dashboard_machine env st i1 t1 u = (st, Inr m)"
    and "create_machine env st i t (u_id u) ''dashboard'' None = (st', Inr x)"
  shows "login env st' now i2 t2 f s email pw persistent = (st', Inl (HTTPException 500 (JText ''MultipleResultsFound'')))"
proof -
  let ?mine = "\<lambda>m. m_owner_user_id m = u_id u \<and> m_display_name m = ''dashboard'' \<and> m_credential_revoked_at m = None"
  have one: "\<exists>a. filter ?mine (ac_machines st) = [a]"
    using assms(3) by (auto simp: get_or_create_dashboard_machine_def create_machine_def on_ok_def Let_def
        split: list.splits sum.splits if_splits)
      (metis (no_types, lifting) accounts.ext_inject accounts.surjective accounts.update_convs(2) self_append_conv not_Cons_self2)
  have st': "st' = st\<lparr>ac_machines := ac_machines st @ [new_machine i (u_id u) ''dashboard'' (en_hash_token env t) None]\<rparr>"
    using assms(4) by (auto simp: create_machine_def on_ok_def Let_def split: if_splits)
  then have "\<exists>a b. filter ?mine (ac_machines st') = [a, b]" using one by (auto simp: new_machine_def)
  moreover have "verify_user_password env st' email pw = Some u"
    using assms(1) by (simp add: st' verify_user_password_def get_user_by_email_def)
  ultimately show ?thesis by (auto simp: login_def get_or_create_dashboard_machine_def)
qed

text \<open>
  \<open>UPDATE ... WHERE family_id = ...\<close> under READ COMMITTED, PostgreSQL's default: the statement updates
  the rows committed when it started (those of \<open>snapshot\<close>), in their version at the time it gets
  their lock; a row inserted in between is not seen.
\<close>

definition revoke_family_seen :: "accounts \<Rightarrow> uuid \<Rightarrow> timestamp \<Rightarrow> accounts \<Rightarrow> accounts" where
  "revoke_family_seen snapshot family_id now st =
     st\<lparr>ac_refresh := map (\<lambda>r. if rt_token_hash r \<in> rt_token_hash ` set (ac_refresh snapshot)
           \<and> rt_family_id r = family_id \<and> rt_revoked_at r = None
       then r\<lparr>rt_revoked_at := Some now\<rparr> else r) (ac_refresh st)\<rparr>"

lemma find_last: "(\<And>x. x \<in> set xs \<Longrightarrow> \<not> P x) \<Longrightarrow> P y \<Longrightarrow> find P (xs @ [y]) = Some y"
  by (induction xs) auto

lemma revoke_family_seen_alone: "revoke_family_seen st f now st = revoke_family f now st"
  by (simp add: revoke_family_seen_def revoke_family_def)

text \<open>Property C34. A logout that meets a renewal of the same session does not end it: the revocation starts while the
  renewal holds the row of the old secret, waits for it, and then misses the successor the renewal
  inserted - which is still accepted after the logout was answered.\<close>

theorem logout_misses_renewal:
  assumes "account_reachable env t st" and "rotate_refresh env st now s1 secret = (st1, Some (u, m, issued))"
    and "fresh_hash env st s1" and "find (\<lambda>r. rt_token_hash r = en_hash_token env secret) (ac_refresh st) = Some r"
    and "now2 < rs_expires_at issued"
  shows "\<exists>resp. snd (refresh env (revoke_family_seen st (rt_family_id r) now st1) now2 s2 s1) = Inr resp"
proof -
  let ?h = "en_hash_token env secret"
  let ?after = "revoke_family_seen st (rt_family_id r) now st1"
  obtain r0 where r0: "find (rotatable ?h now) (ac_refresh st) = Some r0"
      and owner: "session_owner st r0 = Some (u, m)"
      and st1: "st1 = add_refresh (new_refresh_row env now s1 (u_id u) (m_id m) (rt_family_id r0)
        (rt_auth_version r0) (rt_absolute_expires_at r0)) (consume_refresh ?h now st)"
      and issued: "issued = \<lparr>rs_secret = s1, rs_expires_at = sliding_expiry env now (rt_absolute_expires_at r0)\<rparr>"
    using rotated_cases [OF assms(2)] by blast
  let ?new = "new_refresh_row env now s1 (u_id u) (m_id m) (rt_family_id r0) (rt_auth_version r0) (rt_absolute_expires_at r0)"
  note own = session_owner_row [OF owner]
  have old: "en_hash_token env s1 \<notin> rt_token_hash ` set (ac_refresh (consume_refresh ?h now st))"
    using assms(3) by (simp add: fresh_hash_def)
  have kept: "ac_refresh ?after = map (\<lambda>r'. if rt_token_hash r' \<in> rt_token_hash ` set (ac_refresh st)
        \<and> rt_family_id r' = rt_family_id r \<and> rt_revoked_at r' = None then r'\<lparr>rt_revoked_at := Some now\<rparr> else r')
        (ac_refresh (consume_refresh ?h now st)) @ [?new]"
    using assms(3) by (simp add: revoke_family_seen_def st1 add_refresh_def new_refresh_row_def fresh_hash_def)
  have others: "\<not> rotatable (en_hash_token env s1) now2 x"
    if "x \<in> set (map (\<lambda>r'. if rt_token_hash r' \<in> rt_token_hash ` set (ac_refresh st)
        \<and> rt_family_id r' = rt_family_id r \<and> rt_revoked_at r' = None then r'\<lparr>rt_revoked_at := Some now\<rparr> else r')
        (ac_refresh (consume_refresh ?h now st)))" for x
  proof -
    from that obtain y where "y \<in> set (ac_refresh (consume_refresh ?h now st))" "rt_token_hash x = rt_token_hash y"
      by (auto split: if_splits)
    then have "rt_token_hash x \<noteq> en_hash_token env s1" using imageI [of y _ rt_token_hash] old by metis
    then show ?thesis by (simp add: rotatable_def)
  qed
  have "rotatable (en_hash_token env s1) now2 ?new"
    using assms(5) issued by (simp add: rotatable_def new_refresh_row_def)
  then have "find (rotatable (en_hash_token env s1) now2) (ac_refresh ?after) = Some ?new"
    unfolding kept using others by (intro find_last) simp_all
  moreover have "session_owner ?after ?new = Some (u, m)"
  proof -
    have "session_owner ?after ?new = session_owner st ?new"
      by (rule session_owner_same) (simp_all add: revoke_family_seen_def st1)
    also have "\<dots> = Some (u, m)"
      using own by (simp add: session_owner_def new_refresh_row_def)
    finally show ?thesis .
  qed
  ultimately show ?thesis by (simp add: refresh_def rotate_refresh_def Let_def)
qed

end
