(* ===== verification/Account_Witnesses.thy ===== *)
theory Account_Witnesses
  imports Account_Secrets
begin

section \<open>A concrete installation\<close>

text \<open>
  One administrator with a dashboard session, a developer who registers, a machine attached to a
  workstation, a launch credential: every property of \<open>Account_Safety\<close> and \<open>Account_Secrets\<close>
  applied to states that the operations reach.
\<close>

fun account_run ::
  "auth_env \<Rightarrow> (timestamp \<times> account_op) list \<Rightarrow> timestamp \<times> accounts \<Rightarrow> (timestamp \<times> accounts) option" where
  "account_run env [] c = Some c"
| "account_run env ((now', op) # ops) (now, st) =
     (if now \<le> now' \<and> fresh_draws env op st then account_run env ops (now', perform env now' op st) else None)"

lemma account_run_steps: "account_run env ops c = Some c' \<Longrightarrow> account_steps env c c'"
proof (induction env ops c rule: account_run.induct)
  case (2 env now' op ops now st)
  then show ?case by (auto split: if_splits intro: rtranclp_trans [OF perform_steps])
qed simp

lemma account_run_reachable: "account_run env ops (t, no_accounts) = Some (now, st) \<Longrightarrow> account_reachable env now st"
  using account_run_steps account_reachable_def by blast

definition demo_env :: auth_env where
  "demo_env = \<lparr>en_hash_token = (\<lambda>s. CHR ''#'' # s), en_hash_password = (\<lambda>salt pw. salt @ pw),
     en_check_password = (\<lambda>pw h. h = ''s'' @ pw), en_public_base_url = ''https://studio'',
     en_email_verification_ttl_minutes = 60, en_password_reset_ttl_minutes = 60,
     en_account_email_cooldown_seconds = 60, en_refresh_token_sliding_days = 7,
     en_refresh_token_absolute_days = 30, en_jwt_access_token_expire_minutes = 15\<rparr>"

definition demo_person :: account_row where
  "demo_person = \<lparr>u_id = 1, u_role = Role_ADMIN, u_display_name = ''A'', u_email = ''a@b'',
     u_password_hash = Some ''spw'', u_auth_version = 1, u_disabled_at = None,
     u_email_verified_at = Some 0, u_version = 2\<rparr>"

definition demo_dashboard :: machine_account where
  "demo_dashboard = new_machine 2 1 ''dashboard'' ''#m'' None"

definition demo_refresh :: "string \<Rightarrow> refresh_row" where
  "demo_refresh s = new_refresh_row demo_env 0 s 1 2 3 1 (days 30)"

text \<open>After the first persistent login, and after its first renewal.\<close>

definition logged_in :: accounts where
  "logged_in = \<lparr>ac_users = [demo_person], ac_machines = [demo_dashboard], ac_tokens = [],
     ac_refresh = [demo_refresh ''r1'']\<rparr>"

definition renewed :: accounts where
  "renewed = \<lparr>ac_users = [demo_person], ac_machines = [demo_dashboard], ac_tokens = [],
     ac_refresh = [(demo_refresh ''r1'')\<lparr>rt_consumed_at := Some 0\<rparr>, demo_refresh ''r2'']\<rparr>"

lemmas demo_defs = demo_env_def demo_person_def demo_dashboard_def demo_refresh_def no_accounts_def

lemma reach_logged_in: "account_reachable demo_env 0 logged_in"
proof (rule account_run_reachable [of _ "[(0, Create_User 1 ''A'' ''a@b'' Role_ADMIN),
    (0, Set_User_Password ''s'' ''a@b'' ''pw''), (0, Login 2 ''m'' 3 ''r1'' ''a@b'' ''pw'' True)]" 0])
  show "account_run demo_env [(0, Create_User 1 ''A'' ''a@b'' Role_ADMIN),
    (0, Set_User_Password ''s'' ''a@b'' ''pw''), (0, Login 2 ''m'' 3 ''r1'' ''a@b'' ''pw'' True)] (0, no_accounts) =
    Some (0, logged_in)"
    unfolding logged_in_def by code_simp
qed

lemma reach_renewed: "account_reachable demo_env 0 renewed"
proof (rule account_reachable_step [OF reach_logged_in account_run_steps])
  show "account_run demo_env [(0, Refresh ''r2'' ''r1'')] (0, logged_in) = Some (0, renewed)"
    unfolding logged_in_def renewed_def by code_simp
qed

lemma renewal:
  "refresh demo_env logged_in 0 ''r2'' ''r1'' = (renewed, Inr (projr (snd (refresh demo_env logged_in 0 ''r2'' ''r1''))))"
  "fresh_hash demo_env logged_in ''r2''"
  unfolding logged_in_def renewed_def by code_simp+

lemma refresh_rotates_once_witness:
  "\<exists>e. snd (refresh demo_env (perform demo_env 6 (Refresh ''r3'' ''r2'') renewed) 6 ''x'' ''r1'') = Inl e"
proof (rule refresh_rotates_once [OF reach_logged_in renewal])
  show "account_steps demo_env (0, renewed) (6, perform demo_env 6 (Refresh ''r3'' ''r2'') renewed)"
    by (rule perform_steps) (unfold renewed_def, code_simp+)
qed


lemma refresh_families_ok_witness:
  "let r = (demo_refresh ''r1'')\<lparr>rt_consumed_at := Some 0\<rparr>; r' = demo_refresh ''r2'' in
     r \<in> set (ac_refresh renewed) \<and> r' \<in> set (ac_refresh renewed) \<and>
     (alive r \<and> alive r' \<longrightarrow> r = r') \<and> rt_expires_at r \<le> rt_absolute_expires_at r'
     \<and> rt_user_id r = rt_user_id r' \<and> rt_auth_version r = rt_auth_version r'"
  using refresh_families_ok [OF reach_renewed, of "(demo_refresh ''r1'')\<lparr>rt_consumed_at := Some 0\<rparr>" "demo_refresh ''r2''"]
  by (simp add: renewed_def Let_def demo_refresh_def new_refresh_row_def)

lemma ended_sessions_stay_ended_witness:
  "let st' = perform demo_env 9 (Login 6 ''m'' 7 ''r9'' ''a@b'' ''new'' True)
               (perform demo_env 5 (Change_Password ''s'' 1 ''pw'' ''new'') renewed)
   in (\<exists>e. snd (refresh demo_env st' 9 ''x'' ''r2'') = Inl e) \<and>
      resolve_jwt_machine st' (create_access_token demo_env 0 demo_person demo_dashboard) = None"
proof -
  let ?op = "Change_Password ''s'' 1 ''pw'' ''new''"
  have "ends_sessions demo_env 5 ?op renewed 1"
    unfolding ends_sessions_def renewed_def by (intro disjI2 disjI1 exI conjI) (rule refl, code_simp)
  moreover have "account_steps demo_env (5, perform demo_env 5 ?op renewed)
      (9, perform demo_env 9 (Login 6 ''m'' 7 ''r9'' ''a@b'' ''new'' True) (perform demo_env 5 ?op renewed))"
    by (rule perform_steps) (unfold renewed_def, code_simp+)
  moreover have "get_user renewed 1 = Some demo_person" unfolding renewed_def by code_simp
  moreover have "demo_refresh ''r2'' \<in> set (ac_refresh renewed)" by (simp add: renewed_def)
  ultimately show ?thesis
    using ended_sessions_stay_ended [OF reach_renewed, of 5 ?op 1 9 _ demo_person "''r2''" "''x''"]
    by (force simp: Let_def demo_defs new_refresh_row_def create_access_token_def new_machine_def)
qed

definition registered :: accounts where
  "registered = fst (register demo_env renewed 5 7 ''v'' ''c@d'')"

lemma registered_facts:
  "account_run demo_env [(5, Register 7 ''v'' ''c@d'')] (0, renewed) = Some (5, registered)"
  "fresh_hash demo_env renewed ''v''" "7 \<notin> u_id ` set (ac_users renewed)"
  "get_user registered 7 = Some (new_user 7 ''c'' ''c@d'' Role_READONLY None)"
  "snd (verify_email demo_env registered 6 ''s'' ''v'' ''pw'' ''C'') = Inr ''verified''"
  unfolding registered_def renewed_def by code_simp+

lemma reach_registered: "account_reachable demo_env 5 registered"
  using account_reachable_step [OF reach_renewed account_run_steps [OF registered_facts(1)]] .

lemma registration_grants_nothing_witness:
  "account_status_of (new_user 7 ''c'' ''c@d'' Role_READONLY None) = Account_PENDING \<and>
   (\<exists>u'. get_user (perform demo_env 6 (Verify_Email ''s'' ''v'' ''pw'' ''C'') registered) 7 = Some u' \<and> u_role u' = Role_READONLY)"
  using registration_grants_nothing [OF reach_renewed registered_facts(3,2), of 5 "''c@d''"] registered_facts(4)
    perform_steps [of 5 6 demo_env "Verify_Email ''s'' ''v'' ''pw'' ''C''" registered]
  by (simp add: registered_def del: perform.simps)

lemma account_secret_works_once_witness:
  "verify_email demo_env (fst (verify_email demo_env registered 6 ''s'' ''v'' ''pw'' ''C'')) 8 ''s'' ''v'' ''q'' ''D'' =
     (fst (verify_email demo_env registered 6 ''s'' ''v'' ''pw'' ''C''), Inl invalid_token)"
proof -
  let ?st = "fst (verify_email demo_env registered 6 ''s'' ''v'' ''pw'' ''C'')"
  have "account_steps demo_env (6, ?st) (8, perform demo_env 8 (Logout ''no'') ?st)"
    by (rule perform_steps) simp_all
  moreover have "perform demo_env 8 (Logout ''no'') ?st = ?st"
    unfolding registered_def renewed_def by code_simp
  ultimately show ?thesis
    using account_secret_works_once [OF reach_registered, of 6 "''s''" "''v''" "''pw''" "''C''" "''verified''" ?st 8 ?st
        "''s''" "''q''" "''D''"] registered_facts(5) by simp
qed

definition on_the_rig :: machine_account where
  "on_the_rig = new_machine 5 1 ''agent'' ''#t'' (Some 2)"

lemma workstations_never_nest_witness:
  "\<exists>w. get_machine (perform demo_env 5 (Create_Machine 5 ''t'' 1 ''agent'' (Some 2)) renewed) 2 = Some w \<and> m_workstation_id w = None
     \<and> m_owner_user_id w = m_owner_user_id on_the_rig \<and> 2 \<noteq> m_id on_the_rig"
proof (rule workstations_never_nest)
  show "account_reachable demo_env 5 (perform demo_env 5 (Create_Machine 5 ''t'' 1 ''agent'' (Some 2)) renewed)"
    by (rule account_reachable_step [OF reach_renewed perform_steps]) (unfold renewed_def, code_simp+)
qed (unfold renewed_def on_the_rig_def, code_simp+)

definition disabled :: accounts where
  "disabled = perform demo_env 5 (Disable_Account 1) renewed"

lemma disabled_account_locked_out_witness:
  "resolve_jwt_machine disabled (create_access_token demo_env 0 demo_person demo_dashboard) = None"
proof -
  have "account_reachable demo_env 5 disabled"
    unfolding disabled_def by (rule account_reachable_step [OF reach_renewed perform_steps]) simp_all
  moreover have "get_user disabled 1 = Some (demo_person\<lparr>u_disabled_at := Some 5, u_auth_version := 2, u_version := 3\<rparr>)"
    unfolding disabled_def renewed_def by code_simp
  moreover have "jw_user_id (create_access_token demo_env 0 demo_person demo_dashboard) = 1" by code_simp
  ultimately show ?thesis using disabled_account_locked_out [of demo_env 5 disabled 1] by simp
qed

definition demo_launch :: launch_row where
  "demo_launch = \<lparr>l_id = 40, l_project_id = 5, l_task_id = 30, l_machine_id = 2,
     l_requested_by_user_id = 1, l_harness_id = ''claude'', l_agent_stable_key = None,
     l_status = LS_RUNNING, l_reason_code = LR_NONE, l_session_id = None,
     l_output_excerpt = None, l_expires_at = seconds 7200, l_finished_at = None,
     l_created_at = 0, l_attempt = 1, l_retry_of_launch_id = None, l_replay_basis = None,
     l_allow_production = False, l_profile_key = None, l_profile_contract_version = None,
     l_profile_digest = None, l_version = 3\<rparr>"

definition demo_credential :: launch_credential where
  "demo_credential = \<lparr>lc_launch_id = 40, lc_machine_id = 2, lc_project_id = 5, lc_task_id = 30,
     lc_credential_hash = ''#c'', lc_expires_at = seconds 7200, lc_revoked_at = None\<rparr>"

definition tagged_dashboard :: machine_account where
  "tagged_dashboard = demo_dashboard\<lparr>m_launch_scope := Some \<lparr>ls_launch_id = 40, ls_project_id = 5, ls_task_id = 30\<rparr>\<rparr>"

lemma launch_credential_lives_with_launch_witness:
  "resolve_launch_credential demo_env renewed [demo_launch] [demo_credential] 9 ''c'' = Some tagged_dashboard \<and>
   (\<exists>l c. c \<in> set [demo_credential] \<and> lc_credential_hash c = en_hash_token demo_env ''c'' \<and>
      tbl_get l_id [demo_launch] (lc_launch_id c) = Some l \<and> \<not> launch_terminal (l_status l) \<and> 9 < l_expires_at l \<and>
      m_id tagged_dashboard = lc_machine_id c \<and>
      m_launch_scope tagged_dashboard = Some \<lparr>ls_launch_id = l_id l, ls_project_id = lc_project_id c, ls_task_id = lc_task_id c\<rparr> \<and>
      (\<forall>method path. ensure_rest_allowed tagged_dashboard method path = Inr () \<longrightarrow>
         (\<exists>p. path = Some p \<and> (method, p) \<in> LAUNCH_REST_ALLOWLIST)))"
proof (rule conjI [OF _ launch_credential_lives_with_launch])
  show "resolve_launch_credential demo_env renewed [demo_launch] [demo_credential] 9 ''c'' = Some tagged_dashboard"
    unfolding renewed_def by code_simp
  then show "resolve_launch_credential demo_env renewed [demo_launch] [demo_credential] 9 ''c'' = Some tagged_dashboard" .
qed

lemma second_dashboard_locks_out_witness:
  "login demo_env (perform demo_env 5 (Create_Machine 5 ''t'' 1 ''dashboard'' None) logged_in) 6 8 ''m2'' 9 ''r9'' ''a@b'' ''pw'' True =
     (perform demo_env 5 (Create_Machine 5 ''t'' 1 ''dashboard'' None) logged_in, Inl (HTTPException 500 (JText ''MultipleResultsFound'')))"
  by (rule second_dashboard_locks_out [of _ logged_in _ _ demo_person 8 "''m2''" demo_dashboard 5 "''t''" _
        "projr (snd (create_machine demo_env logged_in 5 ''t'' 1 ''dashboard'' None))"])
    (unfold logged_in_def, code_simp+)

lemma logout_misses_renewal_witness:
  "\<exists>resp. snd (refresh demo_env (revoke_family_seen logged_in 3 0 renewed) 5 ''r3'' ''r2'') = Inr resp"
proof -
  have rotated: "rotate_refresh demo_env logged_in 0 ''r2'' ''r1'' =
      (renewed, Some (demo_person, demo_dashboard, \<lparr>rs_secret = ''r2'', rs_expires_at = days 7\<rparr>))"
    unfolding logged_in_def renewed_def by code_simp
  have row: "find (\<lambda>r. rt_token_hash r = en_hash_token demo_env ''r1'') (ac_refresh logged_in) = Some (demo_refresh ''r1'')"
    unfolding logged_in_def by code_simp
  have "5 < days 7" "rt_family_id (demo_refresh ''r1'') = 3"
    by (simp_all add: days_def seconds_def demo_refresh_def new_refresh_row_def)
  then show ?thesis using logout_misses_renewal [OF reach_logged_in rotated renewal(2) row, of 5] by simp
qed

end
