(* ===== verification/Sessions.thy ===== *)
theory Sessions
  imports Launches
begin

section \<open>Work sessions (\<open>services/sessions.py\<close>)\<close>

text \<open>
  A session is the live presence of one agent identity of one machine on a task. It is started or
  resumed, touched by activity, and ended by its machine, by a start under another identity or by
  the server (\<open>close_session_server_side\<close> in \<open>Launches\<close>); its presence is derived when it is
  read. The contract and the column make the task of a new session non-null, so the branches of
  the code for a start without a task are dead and are left out. One request reads one clock.
\<close>

subsection \<open>Presence\<close>

record session_settings =
  ss_session_idle_after_seconds :: int
  ss_session_expire_after_seconds :: int

definition default_session_settings :: session_settings where
  "default_session_settings =
     \<lparr>ss_session_idle_after_seconds = 1800, ss_session_expire_after_seconds = 28800\<rparr>"

datatype session_status = Session_ACTIVE | Session_IDLE | Session_EXPIRED | Session_ENDED

definition effective_activity :: "session_row \<Rightarrow> timestamp" where
  "effective_activity s = (case s_last_activity_at s of Some t \<Rightarrow> t | None \<Rightarrow> s_started_at s)"

definition derive_session_status :: "session_settings \<Rightarrow> timestamp \<Rightarrow> session_row \<Rightarrow> session_status" where
  "derive_session_status st now s =
     (if s_ended_at s \<noteq> None then Session_ENDED
      else (let age = now - effective_activity s
            in if seconds (ss_session_expire_after_seconds st) < age then Session_EXPIRED
               else if seconds (ss_session_idle_after_seconds st) < age then Session_IDLE
               else Session_ACTIVE))"

definition derive_session_expiry :: "session_settings \<Rightarrow> session_row \<Rightarrow> timestamp option" where
  "derive_session_expiry st s =
     (if s_ended_at s \<noteq> None then None
      else Some (effective_activity s + seconds (ss_session_expire_after_seconds st)))"

subsection \<open>Events\<close>

definition derive_session_event_id :: "uuid \<Rightarrow> event_type \<Rightarrow> event_id" where
  "derive_session_event_id session_id event_type =
     Uuid5 ''studio-os/session-events'' [JUuid session_id, JText event_type]"

lemma session_ended_id_derived: "session_ended_id i = derive_session_event_id i SESSION_ENDED"
  by (simp add: session_ended_id_def derive_session_event_id_def)

definition session_project_id :: "db \<Rightarrow> session_row \<Rightarrow> uuid option" where
  "session_project_id d s =
     (case s_task_id s of None \<Rightarrow> None | Some t \<Rightarrow> map_option t_project_id (get_task_row d t))"

definition session_event ::
  "principal \<Rightarrow> timestamp \<Rightarrow> session_row \<Rightarrow> uuid \<Rightarrow> event_type \<Rightarrow> string option \<Rightarrow> event_row" where
  "session_event p now s project_id event_type reason =
     \<lparr>e_id = derive_session_event_id (s_id s) event_type, e_type = event_type,
      e_project_id = project_id, e_task_id = s_task_id s, e_machine_id = Some (m_id (p_machine p)),
      e_actor_type = (if s_agent_id s = None then Actor_system else Actor_agent),
      e_actor_id = (case s_agent_id s of None \<Rightarrow> m_id (p_machine p) | Some a \<Rightarrow> a),
      e_client_timestamp = now,
      e_payload = (''session_id'', JUuid (s_id s)) #
        (case reason of None \<Rightarrow> [] | Some r \<Rightarrow> [(''reason'', JText r)])\<rparr>"

definition emit_session_event ::
  "db \<Rightarrow> principal \<Rightarrow> timestamp \<Rightarrow> session_row \<Rightarrow> event_type \<Rightarrow> string option \<Rightarrow> db" where
  "emit_session_event d p now s event_type reason =
     (case session_project_id d s of
        None \<Rightarrow> d
      | Some project_id \<Rightarrow> fst (create_event d (session_event p now s project_id event_type reason)))"

subsection \<open>Starting and resuming\<close>

record session_create =
  sc_task_id :: uuid
  sc_machine_id :: uuid
  sc_agent_id :: "uuid option"

definition ensure_task_project_access ::
  "db \<Rightarrow> principal \<Rightarrow> uuid option \<Rightarrow> project_action \<Rightarrow> unit fallible" where
  "ensure_task_project_access d p task_id action =
     (case task_id of
        None \<Rightarrow> Inr ()
      | Some t \<Rightarrow>
          (case get_task_row d t of
             None \<Rightarrow> Inr ()
           | Some task \<Rightarrow> ensure_project_access p (t_project_id task) action))"

definition authorize_start :: "db \<Rightarrow> principal \<Rightarrow> uuid option \<Rightarrow> uuid option \<Rightarrow> unit fallible" where
  "authorize_start d p task_id agent_id =
     and_then (ensure_task_project_access d p task_id WriteAction)
    (and_then (ensure_can_write p ''session'')
       (raise_if (case agent_id of None \<Rightarrow> False
          | Some a \<Rightarrow> \<not> owns_agent (tbl_get a_id (db_agents d) a) (p_machine p))
          (error_code 409 ''actor_not_owned'')))"

definition scoped_launch_id :: "principal \<Rightarrow> uuid option" where
  "scoped_launch_id p = map_option ls_launch_id (m_launch_scope (p_machine p))"

definition find_open_session :: "db \<Rightarrow> uuid \<Rightarrow> uuid option \<Rightarrow> uuid \<Rightarrow> session_row option" where
  "find_open_session d task_id agent_id machine_id =
     (case sort_key (\<lambda>s. - s_started_at s)
        (filter (\<lambda>s. s_task_id s = Some task_id \<and> s_machine_id s = Some machine_id
           \<and> s_ended_at s = None \<and> s_agent_id s = agent_id) (db_sessions d)) of
        [] \<Rightarrow> None | s # _ \<Rightarrow> Some s)"

definition closed_session :: "timestamp \<Rightarrow> session_row \<Rightarrow> session_row" where
  "closed_session now s = s\<lparr>s_ended_at := Some now, s_last_activity_at := Some now\<rparr>"

definition other_identity :: "session_create \<Rightarrow> session_row \<Rightarrow> bool" where
  "other_identity sc s \<longleftrightarrow>
     s_task_id s = Some (sc_task_id sc) \<and> s_machine_id s = Some (sc_machine_id sc) \<and> s_ended_at s = None
     \<and> (case sc_agent_id sc of None \<Rightarrow> s_agent_id s \<noteq> None
        | Some a \<Rightarrow> s_agent_id s = None \<or> s_agent_id s \<noteq> Some a)"

definition close_sessions_for_another_identity ::
  "db \<Rightarrow> session_create \<Rightarrow> timestamp \<Rightarrow> db \<times> session_row list" where
  "close_sessions_for_another_identity d sc now =
     (let rows = map (closed_session now) (filter (other_identity sc) (db_sessions d))
      in (fold put_session rows d, rows))"

definition new_session :: "db \<Rightarrow> timestamp \<Rightarrow> uuid \<Rightarrow> session_create \<Rightarrow> session_row" where
  "new_session d now i sc =
     \<lparr>s_id = i, s_task_id = Some (sc_task_id sc), s_machine_id = Some (sc_machine_id sc),
      s_agent_id = sc_agent_id sc, s_started_at = now, s_ended_at = None,
      s_last_activity_at = Some now,
      s_sync_cursor_seq = (case get_task_row d (sc_task_id sc) of None \<Rightarrow> None
                           | Some t \<Rightarrow> t_handoff_cursor_seq t)\<rparr>"

text \<open>The foreign keys of \<open>work_sessions\<close>; the \<open>IntegrityError\<close> of the commit is not caught.\<close>

definition session_keys_exist :: "db \<Rightarrow> session_create \<Rightarrow> bool" where
  "session_keys_exist d sc \<longleftrightarrow>
     get_task_row d (sc_task_id sc) \<noteq> None \<and> tbl_get m_id (db_machines d) (sc_machine_id sc) \<noteq> None
     \<and> (case sc_agent_id sc of None \<Rightarrow> True | Some a \<Rightarrow> tbl_get a_id (db_agents d) a \<noteq> None)"

definition session_integrity_error :: http_error where
  "session_integrity_error = HTTPException 500 (JText ''IntegrityError'')"

definition emit_superseded :: "principal \<Rightarrow> timestamp \<Rightarrow> session_row list \<Rightarrow> db \<Rightarrow> db" where
  "emit_superseded p now superseded d =
     fold (\<lambda>s d. emit_session_event d p now s SESSION_ENDED (Some ''identity_changed'')) superseded d"

definition start_session ::
  "db \<Rightarrow> principal \<Rightarrow> timestamp \<Rightarrow> uuid \<Rightarrow> session_create \<Rightarrow> (db, session_row) outcome" where
  "start_session d p now i sc =
     guarded (and_then (authorize_start d p (Some (sc_task_id sc)) (sc_agent_id sc))
        (ensure_machine_owned p (Some (sc_machine_id sc)) ''session'' ''start'')) d
       (case close_sessions_for_another_identity d sc now of
          (d1, superseded) \<Rightarrow>
            if \<not> session_keys_exist d sc then (d, Inl session_integrity_error)
            else
              (let s = new_session d1 now i sc;
                   d2 = link_session_to_launch (put_session s d1) s (scoped_launch_id p);
                   d3 = emit_superseded p now superseded d2
               in (emit_session_event d3 p now s SESSION_STARTED None, Inr s)))"

text \<open>What a resume does once no session can be resumed: \<open>d1\<close> has the expired one closed.\<close>

definition start_afresh ::
  "db \<Rightarrow> db \<Rightarrow> session_row option \<Rightarrow> principal \<Rightarrow> timestamp \<Rightarrow> uuid \<Rightarrow> session_create
     \<Rightarrow> (db, session_row \<times> bool) outcome" where
  "start_afresh d d1 expired p now i sc =
     (case close_sessions_for_another_identity d1 sc now of
        (d2, superseded) \<Rightarrow>
          if \<not> session_keys_exist d sc then (d, Inl session_integrity_error)
          else
            (let s = new_session d2 now i sc;
                 d3 = put_session s d2;
                 d4 = (case expired of None \<Rightarrow> d3 | Some x \<Rightarrow> emit_session_event d3 p now x SESSION_ENDED None);
                 d5 = link_session_to_launch (emit_superseded p now superseded d4) s (scoped_launch_id p)
             in (emit_session_event d5 p now s SESSION_STARTED None, Inr (s, False))))"

definition resume_or_start_session ::
  "db \<Rightarrow> session_settings \<Rightarrow> principal \<Rightarrow> timestamp \<Rightarrow> uuid \<Rightarrow> session_create
     \<Rightarrow> (db, session_row \<times> bool) outcome" where
  "resume_or_start_session d st p now i sc =
     guarded (and_then (authorize_start d p (Some (sc_task_id sc)) (sc_agent_id sc))
        (ensure_machine_owned p (Some (sc_machine_id sc)) ''session'' ''resume'')) d
       (case find_open_session d (sc_task_id sc) (sc_agent_id sc) (sc_machine_id sc) of
          None \<Rightarrow> start_afresh d d None p now i sc
        | Some s \<Rightarrow>
            if derive_session_status st now s \<noteq> Session_EXPIRED
            then (let s' = s\<lparr>s_last_activity_at := Some now\<rparr>
                  in (link_session_to_launch (put_session s' d) s' (scoped_launch_id p), Inr (s', True)))
            else start_afresh d (put_session (closed_session now s) d) (Some (closed_session now s)) p now i sc)"

subsection \<open>Ending and touching\<close>

definition release_session_claims ::
  "db \<Rightarrow> principal \<Rightarrow> timestamp \<Rightarrow> (nat \<Rightarrow> uuid) \<Rightarrow> session_row \<Rightarrow> (db, claim_row list) outcome" where
  "release_session_claims d p now eids s =
     (case s_task_id s of
        None \<Rightarrow> (d, Inr [])
      | Some t \<Rightarrow>
          (case get_task_row d t of
             None \<Rightarrow> (d, Inr [])
           | Some task \<Rightarrow> release_task_claims_by_task d p now eids task (s_agent_id s)))"

definition end_session ::
  "db \<Rightarrow> principal \<Rightarrow> timestamp \<Rightarrow> (nat \<Rightarrow> uuid) \<Rightarrow> uuid \<Rightarrow> (db, session_row) outcome" where
  "end_session d p now eids session_id =
     on_ok (found (HTTPException 404 (JText ''session not found'')) (get_session_row d session_id)) d
       (\<lambda>s. guarded (and_then (ensure_task_project_access d p (s_task_id s) WriteAction)
              (ensure_machine_owned p (s_machine_id s) ''session'' ''end'')) d
          (case release_session_claims d p now eids s of
             (d1, Inl e) \<Rightarrow> (d1, Inl e)
           | (d1, Inr _) \<Rightarrow>
               if s_ended_at s \<noteq> None then (d1, Inr s)
               else (let s' = closed_session now s
                     in (emit_session_event (put_session s' d1) p now s' SESSION_ENDED None, Inr s'))))"

definition touch_session :: "db \<Rightarrow> timestamp \<Rightarrow> uuid \<Rightarrow> db \<times> session_row option" where
  "touch_session d now session_id =
     (case get_session_row d session_id of
        None \<Rightarrow> (d, None)
      | Some s \<Rightarrow> (let s' = s\<lparr>s_last_activity_at := Some now\<rparr> in (put_session s' d, Some s')))"

text \<open>\<open>GREATEST\<close> ignores \<open>NULL\<close>.\<close>

definition greatest :: "int option \<Rightarrow> int \<Rightarrow> int" where
  "greatest cursor seq = (case cursor of None \<Rightarrow> seq | Some c \<Rightarrow> max c seq)"

definition ack_sync_cursor :: "db \<Rightarrow> uuid \<Rightarrow> int \<Rightarrow> db \<times> session_row option" where
  "ack_sync_cursor d session_id seq =
     (case get_session_row d session_id of
        None \<Rightarrow> (d, None)
      | Some s \<Rightarrow>
          (let s' = s\<lparr>s_sync_cursor_seq := Some (greatest (s_sync_cursor_seq s) seq)\<rparr>
           in (put_session s' d, Some s')))"

definition ack_handoff_cursor :: "db \<Rightarrow> uuid \<Rightarrow> int \<Rightarrow> db \<times> task_row option" where
  "ack_handoff_cursor d task_id seq =
     (case get_task_row d task_id of
        None \<Rightarrow> (d, None)
      | Some t \<Rightarrow>
          (let t' = t\<lparr>t_handoff_cursor_seq := Some (greatest (t_handoff_cursor_seq t) seq)\<rparr>
           in (put_task t' d, Some t')))"

subsection \<open>Listing\<close>

record session_query =
  sq_task_id :: "uuid option"
  sq_agent_id :: "uuid option"
  sq_open_only :: bool
  sq_project_id :: "uuid option"
  sq_since :: "timestamp option"
  sq_until :: "timestamp option"
  sq_offset :: nat
  sq_limit :: "nat option"

definition in_window :: "timestamp option \<Rightarrow> timestamp option \<Rightarrow> timestamp option \<Rightarrow> bool" where
  "in_window since until column \<longleftrightarrow>
     (case column of
        None \<Rightarrow> False
      | Some t \<Rightarrow> (case since of None \<Rightarrow> True | Some a \<Rightarrow> a \<le> t) \<and> (case until of None \<Rightarrow> True | Some b \<Rightarrow> t < b))"

definition session_selected :: "db \<Rightarrow> principal \<Rightarrow> session_query \<Rightarrow> session_row \<Rightarrow> bool" where
  "session_selected d p q s \<longleftrightarrow>
     (case sq_project_id q of None \<Rightarrow> True | Some k \<Rightarrow> session_project_id d s = Some k)
     \<and> (case sq_task_id q of
          Some t \<Rightarrow> s_task_id s = Some t
        | None \<Rightarrow>
            (case project_visibility_clause p False of
               None \<Rightarrow> True
             | Some clause \<Rightarrow> session_project_id d s \<noteq> None \<and> clause (session_project_id d s)))
     \<and> (case sq_agent_id q of None \<Rightarrow> True | Some a \<Rightarrow> s_agent_id s = Some a)
     \<and> (sq_open_only q \<longrightarrow> s_ended_at s = None)
     \<and> (sq_since q = None \<and> sq_until q = None
        \<or> in_window (sq_since q) (sq_until q) (Some (s_started_at s))
        \<or> in_window (sq_since q) (sq_until q) (s_ended_at s))"

definition list_sessions :: "db \<Rightarrow> principal \<Rightarrow> session_query \<Rightarrow> session_row list fallible" where
  "list_sessions d p q =
     (case and_then (case sq_project_id q of None \<Rightarrow> Inr () | Some k \<Rightarrow> ensure_project_access p k ReadAction)
             (ensure_task_project_access d p (sq_task_id q) ReadAction) of
        Inl e \<Rightarrow> Inl e
      | Inr _ \<Rightarrow>
          (let rows = drop (sq_offset q) (sort_key (\<lambda>s. - s_started_at s) (sort_key (\<lambda>s. - int (s_id s))
                 (filter (session_selected d p q) (db_sessions d))))
           in Inr (case sq_limit q of None \<Rightarrow> rows | Some n \<Rightarrow> take n rows)))"

end
