(* ===== verification/Session_Laws.thy ===== *)
theory Session_Laws
  imports Sessions Ordered_Lists
begin

section \<open>What work sessions guarantee\<close>

text \<open>
  Every session operation, the server-side close and whatever other services commit, as steps of a
  history. In every history the sessions of one machine open on one task belong to one agent
  identity, exactly the ended sessions have their \<open>session.ended\<close> event, and an ended session
  stays ended. Then what a resume converges to, and what ending a session twice does.
\<close>

subsection \<open>The log, seen through session events\<close>

definition logged :: "db \<Rightarrow> uuid \<Rightarrow> event_type \<Rightarrow> bool" where
  "logged d i event_type \<longleftrightarrow> find_event d (derive_session_event_id i event_type) \<noteq> None"

lemma derived_ids_eq [simp]:
  "derive_session_event_id i a = derive_session_event_id j b \<longleftrightarrow> i = j \<and> a = b"
  by (auto simp: derive_session_event_id_def)

lemma find_event_create:
  "find_event (fst (create_event d ev)) e =
     (if find_event d e = None \<and> e = e_id ev then Some ev else find_event d e)"
  by (auto simp: create_event_def find_event_def insert_and_notify_def publish_event_def tbl_get_append
      split: option.split)

lemma find_event_stage:
  "find_event (fst (stage_event d ev)) e =
     (if find_event d e = None \<and> e = e_id ev then Some ev else find_event d e)"
  by (auto simp: stage_event_def find_event_def insert_and_notify_def tbl_get_append split: option.split)

lemma logged_stage:
  "logged (fst (stage_event d ev)) i ty \<longleftrightarrow> logged d i ty \<or> e_id ev = derive_session_event_id i ty"
  by (auto simp: logged_def find_event_stage)

lemma create_event_frame [simp]:
  "db_sessions (fst (create_event d ev)) = db_sessions d" "db_tasks (fst (create_event d ev)) = db_tasks d"
  "db_machines (fst (create_event d ev)) = db_machines d" "db_agents (fst (create_event d ev)) = db_agents d"
  by (simp_all add: create_event_def insert_and_notify_def publish_event_def split: option.split)

lemma emit_frame [simp]:
  "db_sessions (emit_session_event d p now s ty r) = db_sessions d"
  "db_tasks (emit_session_event d p now s ty r) = db_tasks d"
  by (simp_all add: emit_session_event_def split: option.split)

lemma emit_get [simp]:
  "get_session_row (emit_session_event d p now s ty r) = get_session_row d"
  "get_task_row (emit_session_event d p now s ty r) = get_task_row d"
  by (simp_all add: get_session_row_def get_task_row_def fun_eq_iff)

definition has_task :: "db \<Rightarrow> session_row \<Rightarrow> bool" where
  "has_task d s \<longleftrightarrow> session_project_id d s \<noteq> None"

lemma same_tasks: "db_tasks d' = db_tasks d \<Longrightarrow> get_task_row d' = get_task_row d"
  by (simp add: get_task_row_def fun_eq_iff)

lemma has_task_cong: "s_task_id s = s_task_id r \<Longrightarrow> has_task d s = has_task d r"
  by (simp add: has_task_def session_project_id_def)

lemma has_task_same: "db_tasks d' = db_tasks d \<Longrightarrow> has_task d' = has_task d"
  unfolding has_task_def session_project_id_def fun_eq_iff by (simp only: same_tasks [of d' d] simp_thms)

lemma emit_has_task [simp]: "has_task (emit_session_event d p now s ty r) = has_task d"
  by (rule has_task_same) simp

lemma logged_emit:
  "logged (emit_session_event d p now s ty r) i ty' \<longleftrightarrow>
     logged d i ty' \<or> has_task d s \<and> i = s_id s \<and> ty' = ty"
  by (auto simp: logged_def emit_session_event_def has_task_def session_event_def find_event_create
      split: option.split)

lemma emit_superseded_frame [simp]:
  "db_sessions (emit_superseded p now rows d) = db_sessions d"
  "db_tasks (emit_superseded p now rows d) = db_tasks d"
  unfolding emit_superseded_def by (induction rows arbitrary: d) simp_all

lemma logged_superseded:
  "logged (emit_superseded p now rows d) i ty \<longleftrightarrow>
     logged d i ty \<or> ty = SESSION_ENDED \<and> (\<exists>s \<in> set rows. has_task d s \<and> i = s_id s)"
  unfolding emit_superseded_def by (induction rows arbitrary: d) (auto simp: logged_emit)

lemma link_frame [simp]:
  "db_sessions (link_session_to_launch d s k) = db_sessions d" "db_tasks (link_session_to_launch d s k) = db_tasks d"
  "db_events (link_session_to_launch d s k) = db_events d" "db_claims (link_session_to_launch d s k) = db_claims d"
  by (simp_all add: link_session_to_launch_def split: option.split)

lemma same_sessions: "db_sessions d' = db_sessions d \<Longrightarrow> get_session_row d' = get_session_row d"
  by (simp add: get_session_row_def fun_eq_iff)

lemma same_events: "db_events d' = db_events d \<Longrightarrow> logged d' = logged d"
  by (simp add: logged_def find_event_def fun_eq_iff)

lemma put_session_logged [simp]: "logged (put_session s d) = logged d" "logged (put_task t d) = logged d"
  by (rule same_events, simp)+

lemma release_claim_frame:
  assumes "release_claim d p now eid c = (d', r)"
  shows "db_sessions d' = db_sessions d \<and> db_tasks d' = db_tasks d \<and> logged d' = logged d"
  using assms
  by (auto simp: release_claim_def guarded_eq_pair update_claim_row_def claim_commit_with_event_def Let_def
      logged_def derive_session_event_id_def find_event_def fun_eq_iff stage_event_def insert_and_notify_def
      publish_event_def tbl_get_append split: option.splits if_splits prod.splits)

lemma release_each_frame:
  "release_each d p now eids n cs = (d', r) \<Longrightarrow>
     db_sessions d' = db_sessions d \<and> db_tasks d' = db_tasks d \<and> logged d' = logged d"
proof (induction cs arbitrary: d d' n r)
  case (Cons c cs)
  obtain d1 r1 where one: "release_claim d p now (eids n) c = (d1, r1)" by fastforce
  obtain d2 r2 where rest: "release_each d1 p now eids (Suc n) cs = (d2, r2)" by fastforce
  from Cons.prems one rest have "d' = d1 \<or> d' = d2" by (auto split: sum.splits)
  with release_claim_frame [OF one] Cons.IH [OF rest] show ?case by auto
qed simp

lemma release_session_claims_frame:
  "release_session_claims d p now eids s = (d', r) \<Longrightarrow>
     db_sessions d' = db_sessions d \<and> db_tasks d' = db_tasks d \<and> logged d' = logged d"
  by (auto simp: release_session_claims_def release_task_claims_by_task_def guarded_eq_pair
      dest: release_each_frame split: option.splits)

lemma has_task_frames [simp]:
  "has_task (put_session s d) = has_task d" "has_task (link_session_to_launch d s k) = has_task d"
  "has_task (emit_superseded p now rows d) = has_task d"
  by (rule has_task_same, simp)+

lemma link_get [simp]:
  "get_session_row (link_session_to_launch d s k) = get_session_row d" "logged (link_session_to_launch d s k) = logged d"
  by (rule same_sessions same_events, simp)+

lemma superseded_get [simp]: "get_session_row (emit_superseded p now rows d) = get_session_row d"
  by (rule same_sessions) simp

subsection \<open>What a start does to the rows and to the log\<close>

lemma put_sessions_frame [simp]:
  "db_tasks (fold put_session rows d) = db_tasks d" "db_events (fold put_session rows d) = db_events d"
  by (induction rows arbitrary: d) simp_all

lemma put_sessions_rows: "db_sessions (fold put_session rows d) = fold (tbl_put s_id) rows (db_sessions d)"
  by (induction rows arbitrary: d) (simp_all add: put_session_def)

lemma closed_session_id [simp]: "s_id (closed_session now s) = s_id s"
  by (simp add: closed_session_def)

lemma tbl_get_map: "(\<And>r. key (f r) = key r) \<Longrightarrow> tbl_get key (map f rs) k = map_option f (tbl_get key rs k)"
  by (induction rs) auto

lemma tbl_get_filtered:
  "tbl_wf key rs \<Longrightarrow> tbl_get key (filter P rs) k = (case tbl_get key rs k of None \<Rightarrow> None | Some r \<Rightarrow> if P r then Some r else None)"
proof (induction rs)
  case (Cons a rs)
  have "key a = k \<Longrightarrow> tbl_get key rs k = None \<and> tbl_get key (filter P rs) k = None"
    using Cons.prems by (auto simp: tbl_wf_def tbl_get_None_iff)
  with Cons show ?case by (auto simp: tbl_wf_def split: option.splits)
qed simp

lemma close_others:
  assumes "close_sessions_for_another_identity d sc now = (d', rows)" and "tbl_wf s_id (db_sessions d)"
  shows "get_session_row d' k =
      map_option (\<lambda>s. if other_identity sc s then closed_session now s else s) (get_session_row d k)"
    and "set rows = closed_session now ` {s \<in> set (db_sessions d). other_identity sc s}"
    and "tbl_wf s_id (db_sessions d')" and "db_tasks d' = db_tasks d" and "logged d' = logged d"
proof -
  let ?sel = "filter (other_identity sc) (db_sessions d)"
  have d': "d' = fold put_session rows d" and rows: "rows = map (closed_session now) ?sel"
    using assms(1) by (auto simp: close_sessions_for_another_identity_def Let_def)
  have ids: "map s_id rows = map s_id ?sel" by (simp add: rows)
  have dist: "distinct (map s_id rows)"
    unfolding ids using assms(2) by (simp add: tbl_wf_def distinct_map_filter)
  have sel: "tbl_get s_id rows k = map_option (closed_session now) (tbl_get s_id ?sel k)"
    unfolding rows by (rule tbl_get_map) simp
  show "get_session_row d' k =
      map_option (\<lambda>s. if other_identity sc s then closed_session now s else s) (get_session_row d k)"
    unfolding get_session_row_def d' put_sessions_rows tbl_get_fold_put [OF dist] sel
    using tbl_get_filtered [OF assms(2)] by (auto split: option.split)
  show "set rows = closed_session now ` {s \<in> set (db_sessions d). other_identity sc s}" by (simp add: rows)
  show "tbl_wf s_id (db_sessions d')" unfolding d' put_sessions_rows using assms(2) by (rule fold_tbl_put_wf)
  show "db_tasks d' = db_tasks d" by (simp add: d')
  show "logged d' = logged d" by (rule same_events) (simp add: d')
qed

definition open_session :: "session_row \<Rightarrow> bool" where
  "open_session s \<longleftrightarrow> s_ended_at s = None"

lemma other_identity_iff:
  "other_identity sc s \<longleftrightarrow> s_task_id s = Some (sc_task_id sc) \<and> s_machine_id s = Some (sc_machine_id sc)
     \<and> open_session s \<and> s_agent_id s \<noteq> sc_agent_id sc"
  by (auto simp: other_identity_def open_session_def split: option.splits)

text \<open>A start closes the sessions of \<open>P\<close>, adds its own row, and logs exactly that.\<close>

definition started :: "db \<Rightarrow> db \<Rightarrow> session_create \<Rightarrow> timestamp \<Rightarrow> session_row \<Rightarrow> (session_row \<Rightarrow> bool) \<Rightarrow> bool" where
  "started d d' sc now new P \<longleftrightarrow>
     tbl_wf s_id (db_sessions d') \<and> db_tasks d' = db_tasks d \<and>
     (\<forall>k. get_session_row d' k = (if k = s_id new then Some new
        else map_option (\<lambda>s. if open_session s \<and> P s then closed_session now s else s) (get_session_row d k))) \<and>
     (\<forall>k ty. logged d' k ty \<longleftrightarrow> logged d k ty
        \<or> ty = SESSION_ENDED \<and> (\<exists>s \<in> set (db_sessions d). open_session s \<and> P s \<and> has_task d s \<and> s_id s = k)
        \<or> ty = SESSION_STARTED \<and> k = s_id new \<and> has_task d new) \<and>
     session_keys_exist d sc \<and> open_session new \<and> s_task_id new = Some (sc_task_id sc)
     \<and> s_machine_id new = Some (sc_machine_id sc) \<and> s_agent_id new = sc_agent_id sc"

lemma has_task_closed [simp]: "has_task d (closed_session now s) = has_task d s"
  by (simp add: has_task_def session_project_id_def closed_session_def)

lemma other_open: "open_session s \<and> other_identity sc s \<longleftrightarrow> other_identity sc s"
  by (auto simp: other_identity_iff)

lemma new_session_fields:
  "s_id (new_session d now i sc) = i" "open_session (new_session d now i sc)"
  "s_task_id (new_session d now i sc) = Some (sc_task_id sc)"
  "s_machine_id (new_session d now i sc) = Some (sc_machine_id sc)"
  "s_agent_id (new_session d now i sc) = sc_agent_id sc"
  by (simp_all add: new_session_def open_session_def)

lemma get_session_id: "get_session_row d k = Some s \<Longrightarrow> s_id s = k"
  unfolding get_session_row_def by (rule tbl_get_key)

lemma start_session_started:
  assumes "start_session d p now i sc = (d', Inr s)" and "tbl_wf s_id (db_sessions d)"
  shows "s_id s = i \<and> started d d' sc now s (other_identity sc)"
proof -
  obtain d1 rows where c: "close_sessions_for_another_identity d sc now = (d1, rows)" by fastforce
  note close = close_others [OF c assms(2)]
  have wf: "tbl_wf s_id (db_sessions (put_session x d1))" for x
    using close(3) by (auto simp: put_session_def)
  from assms(1) c have s: "s = new_session d1 now i sc" and keys: "session_keys_exist d sc"
    and d': "d' = emit_session_event (emit_superseded p now rows (link_session_to_launch (put_session s d1) s (scoped_launch_id p)))
      p now s SESSION_STARTED None"
    by (auto simp: start_session_def guarded_eq_pair Let_def split: if_splits)
  have ht: "has_task d1 = has_task d" by (rule has_task_same) (rule close(4))
  note new = new_session_fields [of d1 now i sc, folded s]
  have rows: "get_session_row d' k = (if k = s_id s then Some s
      else map_option (\<lambda>s. if open_session s \<and> other_identity sc s then closed_session now s else s) (get_session_row d k))" for k
    by (auto simp: d' close(1) other_identity_iff option.map_comp intro!: option.map_cong)
  have log: "logged d' k ty \<longleftrightarrow> logged d k ty
      \<or> ty = SESSION_ENDED \<and> (\<exists>s \<in> set (db_sessions d). open_session s \<and> other_identity sc s \<and> has_task d s \<and> s_id s = k)
      \<or> ty = SESSION_STARTED \<and> k = s_id s \<and> has_task d s" for k ty
    unfolding d' logged_emit logged_superseded
    by (auto simp: close(2,5) ht other_identity_iff)
  show ?thesis
    unfolding started_def using wf [of s] rows log keys new close(4) by (simp add: d')
qed

lemma start_afresh_started:
  assumes "start_afresh d d None p now i sc = (d', Inr (s, b))" and "tbl_wf s_id (db_sessions d)"
  shows "s_id s = i \<and> \<not> b \<and> started d d' sc now s (other_identity sc)"
proof -
  obtain d1 rows where c: "close_sessions_for_another_identity d sc now = (d1, rows)" by fastforce
  note close = close_others [OF c assms(2)]
  have wf: "tbl_wf s_id (db_sessions (put_session x d1))" for x
    using close(3) by (auto simp: put_session_def)
  from assms(1) c have s: "s = new_session d1 now i sc" "\<not> b" and keys: "session_keys_exist d sc"
    and d': "d' = emit_session_event (link_session_to_launch (emit_superseded p now rows (put_session s d1))
      s (scoped_launch_id p)) p now s SESSION_STARTED None"
    by (auto simp: start_afresh_def Let_def split: if_splits)
  note new = new_session_fields [of d1 now i sc, folded s(1)]
  have ht: "has_task d1 = has_task d" by (rule has_task_same) (rule close(4))
  have rows: "get_session_row d' k = (if k = s_id s then Some s
      else map_option (\<lambda>s. if open_session s \<and> other_identity sc s then closed_session now s else s) (get_session_row d k))" for k
    by (simp add: d' close(1) other_open)
  have log: "logged d' k ty \<longleftrightarrow> logged d k ty
      \<or> ty = SESSION_ENDED \<and> (\<exists>s \<in> set (db_sessions d). open_session s \<and> other_identity sc s \<and> has_task d s \<and> s_id s = k)
      \<or> ty = SESSION_STARTED \<and> k = s_id s \<and> has_task d s" for k ty
    unfolding d' logged_emit link_get logged_superseded close(2,5) put_session_logged ht has_task_frames
    by (auto simp: other_identity_iff)
  show ?thesis
    unfolding started_def using wf [of s] rows log keys new s(2) close(4) by (simp add: d')
qed

lemma start_afresh_expired:
  assumes "start_afresh d (put_session (closed_session now x) d) (Some (closed_session now x)) p now i sc = (d', Inr (s, b))"
    and "tbl_wf s_id (db_sessions d)" and "get_session_row d (s_id x) = Some x" and "open_session x"
    and "\<not> other_identity sc x"
  shows "s_id s = i \<and> \<not> b \<and> started d d' sc now s (\<lambda>r. other_identity sc r \<or> s_id r = s_id x)"
proof -
  let ?d0 = "put_session (closed_session now x) d"
  obtain d1 rows where c: "close_sessions_for_another_identity ?d0 sc now = (d1, rows)" by fastforce
  have wf0: "tbl_wf s_id (db_sessions ?d0)" using assms(2) by (auto simp: put_session_def)
  note close = close_others [OF c wf0]
  have wf: "tbl_wf s_id (db_sessions (put_session x d1))" for x
    using close(3) by (auto simp: put_session_def)
  from assms(1) c have s: "s = new_session d1 now i sc" "\<not> b" and keys: "session_keys_exist d sc"
    and d': "d' = emit_session_event (link_session_to_launch (emit_superseded p now rows
      (emit_session_event (put_session s d1) p now (closed_session now x) SESSION_ENDED None)) s (scoped_launch_id p))
      p now s SESSION_STARTED None"
    by (auto simp: start_afresh_def Let_def split: if_splits)
  have ht: "has_task d1 = has_task d" by (rule has_task_same) (simp add: close(4))
  note new = new_session_fields [of d1 now i sc, folded s(1)]
  have set: "set (db_sessions ?d0) = insert (closed_session now x) {r \<in> set (db_sessions d). s_id r \<noteq> s_id x}"
    using tbl_put_set [OF assms(2), of "closed_session now x"] by (simp add: put_session_def)
  have nox: "\<not> other_identity sc (closed_session now x)" by (simp add: other_identity_iff open_session_def closed_session_def)
  have mem: "x \<in> set (db_sessions d)" using assms(3) by (simp add: get_session_row_def tbl_get_mem)
  have only: "r = x" if "r \<in> set (db_sessions d)" "s_id r = s_id x" for r
    using tbl_get_of_mem [OF assms(2) that(1)] that(2) assms(3) by (simp add: get_session_row_def)
  have others: "{r \<in> set (db_sessions ?d0). other_identity sc r} = {r \<in> set (db_sessions d). other_identity sc r}"
    using set nox only assms(5) by auto
  have rows: "get_session_row d' k = (if k = s_id s then Some s
      else map_option (\<lambda>s. if open_session s \<and> (other_identity sc s \<or> s_id s = s_id x) then closed_session now s else s)
        (get_session_row d k))" for k
    using nox assms(3,4)
    by (cases "get_session_row d k") (auto simp: d' close(1) other_identity_iff open_session_def dest: get_session_id)
  have log: "logged d' k ty \<longleftrightarrow> logged d k ty
      \<or> ty = SESSION_ENDED \<and> (\<exists>s \<in> set (db_sessions d). open_session s \<and> (other_identity sc s \<or> s_id s = s_id x) \<and> has_task d s \<and> s_id s = k)
      \<or> ty = SESSION_STARTED \<and> k = s_id s \<and> has_task d s" for k ty
    unfolding d' logged_emit link_get logged_superseded logged_emit close(2,5) put_session_logged ht
      has_task_frames emit_has_task others
    using only assms(4) mem other_open by auto
  show ?thesis
    unfolding started_def using wf [of s] rows log keys new s(2) close(4) by (simp add: d')
qed

subsection \<open>The invariant\<close>

definition one_identity :: "db \<Rightarrow> bool" where
  "one_identity d \<longleftrightarrow> (\<forall>k l s r. get_session_row d k = Some s \<and> get_session_row d l = Some r
     \<and> open_session s \<and> open_session r \<and> s_task_id s = s_task_id r \<and> s_machine_id s = s_machine_id r
     \<longrightarrow> s_agent_id s = s_agent_id r)"

definition sessions_ok :: "db \<Rightarrow> bool" where
  "sessions_ok d \<longleftrightarrow> tbl_wf s_id (db_sessions d)
     \<and> (\<forall>k s. get_session_row d k = Some s \<longrightarrow> has_task d s) \<and> one_identity d
     \<and> (\<forall>k. logged d k SESSION_ENDED \<longleftrightarrow> (\<exists>s. get_session_row d k = Some s \<and> \<not> open_session s))
     \<and> (\<forall>k. logged d k SESSION_STARTED \<longleftrightarrow> get_session_row d k \<noteq> None)"

lemma sessions_okI:
  assumes "tbl_wf s_id (db_sessions d)" and "\<And>k s. get_session_row d k = Some s \<Longrightarrow> has_task d s" and "one_identity d"
    and "\<And>k. logged d k SESSION_ENDED \<longleftrightarrow> (\<exists>s. get_session_row d k = Some s \<and> \<not> open_session s)"
    and "\<And>k. logged d k SESSION_STARTED \<longleftrightarrow> get_session_row d k \<noteq> None"
  shows "sessions_ok d"
  using assms by (simp add: sessions_ok_def)

lemma sessions_okD:
  assumes "sessions_ok d"
  shows "tbl_wf s_id (db_sessions d)" and "get_session_row d k = Some s \<Longrightarrow> has_task d s" and "one_identity d"
    and "logged d k SESSION_ENDED \<longleftrightarrow> (\<exists>s. get_session_row d k = Some s \<and> \<not> open_session s)"
    and "logged d k SESSION_STARTED \<longleftrightarrow> get_session_row d k \<noteq> None"
  using assms unfolding sessions_ok_def by blast+

text \<open>What may happen to a row: it keeps what it is, ends once, and its cursor only advances.\<close>

definition cursor_le :: "int option \<Rightarrow> int option \<Rightarrow> bool" where
  "cursor_le a b \<longleftrightarrow> (case a of None \<Rightarrow> True | Some x \<Rightarrow> (case b of None \<Rightarrow> False | Some y \<Rightarrow> x \<le> y))"

definition row_moves :: "session_row \<Rightarrow> session_row \<Rightarrow> bool" where
  "row_moves s s' \<longleftrightarrow> s_id s' = s_id s \<and> s_task_id s' = s_task_id s \<and> s_machine_id s' = s_machine_id s
     \<and> s_agent_id s' = s_agent_id s \<and> s_started_at s' = s_started_at s
     \<and> (s_ended_at s \<noteq> None \<longrightarrow> s_ended_at s' = s_ended_at s)
     \<and> cursor_le (s_sync_cursor_seq s) (s_sync_cursor_seq s')"

definition sessions_move :: "db \<Rightarrow> db \<Rightarrow> bool" where
  "sessions_move d d' \<longleftrightarrow>
     (\<forall>k s. get_session_row d k = Some s \<longrightarrow> (\<exists>s'. get_session_row d' k = Some s' \<and> row_moves s s'))"

lemma cursor_le_refl [simp]: "cursor_le a a"
  by (simp add: cursor_le_def split: option.split)

lemma cursor_le_trans: "cursor_le a b \<Longrightarrow> cursor_le b c \<Longrightarrow> cursor_le a c"
  by (auto simp: cursor_le_def split: option.splits)

lemma row_moves_refl [simp]: "row_moves s s"
  by (simp add: row_moves_def)

lemma row_moves_trans: "row_moves a b \<Longrightarrow> row_moves b c \<Longrightarrow> row_moves a c"
  by (auto simp: row_moves_def intro: cursor_le_trans)

lemma sessions_move_refl [simp]: "sessions_move d d"
  by (simp add: sessions_move_def)

lemma sessions_move_trans: "sessions_move a b \<Longrightarrow> sessions_move b c \<Longrightarrow> sessions_move a c"
  unfolding sessions_move_def using row_moves_trans by metis

lemma row_moves_closed: "open_session s \<Longrightarrow> row_moves s (closed_session now s)"
  by (simp add: row_moves_def closed_session_def open_session_def)

lemma closed_not_open [simp]: "\<not> open_session (closed_session now s)"
  by (simp add: open_session_def closed_session_def)

lemma session_mem: "tbl_wf s_id (db_sessions d) \<Longrightarrow> s \<in> set (db_sessions d) \<longleftrightarrow> get_session_row d (s_id s) = Some s"
  unfolding get_session_row_def using tbl_get_of_mem tbl_get_mem by metis

lemma one_identityD:
  "one_identity d \<Longrightarrow> get_session_row d k = Some s \<Longrightarrow> get_session_row d l = Some r \<Longrightarrow> open_session s \<Longrightarrow>
   open_session r \<Longrightarrow> s_task_id s = s_task_id r \<Longrightarrow> s_machine_id s = s_machine_id r \<Longrightarrow> s_agent_id s = s_agent_id r"
  unfolding one_identity_def by blast

lemma closed_differs: "open_session s \<Longrightarrow> closed_session now s \<noteq> s"
  by (metis closed_not_open)

lemma started_ok:
  assumes ok: "sessions_ok d" and fresh: "get_session_row d (s_id new) = None"
    and st: "started d d' sc now new P" and others: "\<And>s. other_identity sc s \<Longrightarrow> P s"
  shows "sessions_ok d' \<and> sessions_move d d'"
proof -
  let ?P = "\<lambda>s. open_session s \<and> P s"
  have wf: "tbl_wf s_id (db_sessions d')" and tasks: "has_task d' = has_task d"
    and keys: "session_keys_exist d sc" and new: "open_session new" "s_task_id new = Some (sc_task_id sc)"
      "s_machine_id new = Some (sc_machine_id sc)" "s_agent_id new = sc_agent_id sc"
    using st unfolding started_def by (auto intro: has_task_same)
  have row: "get_session_row d' k = (if k = s_id new then Some new
      else map_option (\<lambda>s. if ?P s then closed_session now s else s) (get_session_row d k))" for k
    using st unfolding started_def by blast
  have mem: "(\<exists>s \<in> set (db_sessions d). open_session s \<and> P s \<and> has_task d s \<and> s_id s = k) \<longleftrightarrow>
      (\<exists>s. get_session_row d k = Some s \<and> open_session s \<and> P s)" for k
  proof -
    have "get_session_row d (s_id s) = Some s" if "s \<in> set (db_sessions d)" for s
      using session_mem [OF sessions_okD(1) [OF ok]] that by blast
    moreover have "s \<in> set (db_sessions d) \<and> s_id s = k \<and> has_task d s" if "get_session_row d k = Some s" for s
      using sessions_okD(2) [OF ok that] get_session_id [OF that] that
      by (simp add: get_session_row_def tbl_get_mem)
    ultimately show ?thesis by blast
  qed
  have log: "logged d' k ty \<longleftrightarrow> logged d k ty
      \<or> ty = SESSION_ENDED \<and> (\<exists>s. get_session_row d k = Some s \<and> open_session s \<and> P s)
      \<or> ty = SESSION_STARTED \<and> k = s_id new \<and> has_task d new" for k ty
    using st mem [of k] unfolding started_def by blast
  have newtask: "has_task d new"
    using keys new(2) by (simp add: session_keys_exist_def has_task_def session_project_id_def)
  have old: "get_session_row d k = Some s" if "get_session_row d' k = Some s" "open_session s" "k \<noteq> s_id new" for k s
    using that row [of k] by (auto split: if_splits)
  have one: "one_identity d'"
  proof -
    have same_new: "s_agent_id s = s_agent_id new"
      if "get_session_row d' k = Some s" "open_session s" "s_task_id s = s_task_id new" "s_machine_id s = s_machine_id new" for k s
      using that row [of k] others [of s] new
      by (auto simp: other_identity_iff closed_differs split: if_splits)
    have "s_agent_id s = s_agent_id r"
      if h: "get_session_row d' k = Some s" "get_session_row d' l = Some r" "open_session s" "open_session r"
        "s_task_id s = s_task_id r" "s_machine_id s = s_machine_id r" for k l s r
    proof (cases "k = s_id new \<or> l = s_id new")
      case True
      then have "s = new \<or> r = new" using h(1,2) row by auto
      with same_new [OF h(1,3)] same_new [OF h(2,4)] h(5,6) show ?thesis by auto
    next
      case False
      with old h one_identityD [OF sessions_okD(3) [OF ok]] show ?thesis by blast
    qed
    then show ?thesis unfolding one_identity_def by blast
  qed
  show ?thesis
  proof
    show "sessions_ok d'"
    proof (rule sessions_okI [OF wf _ one])
      show "has_task d' s" if "get_session_row d' k = Some s" for k s
        using that row [of k] newtask sessions_okD(2) [OF ok] by (auto simp: tasks split: if_splits)
      show "logged d' k SESSION_ENDED \<longleftrightarrow> (\<exists>s. get_session_row d' k = Some s \<and> \<not> open_session s)" for k
        using sessions_okD(4) [OF ok, of k] row [of k] fresh new(1) unfolding log by (auto split: if_splits)
      show "logged d' k SESSION_STARTED \<longleftrightarrow> get_session_row d' k \<noteq> None" for k
        using sessions_okD(5) [OF ok, of k] row [of k] newtask unfolding log by auto
    qed
    show "sessions_move d d'"
      unfolding sessions_move_def using row fresh by (auto intro: row_moves_closed)
  qed
qed

lemma row_update_ok:
  assumes ok: "sessions_ok d" and s: "get_session_row d k = Some s" and moves: "row_moves s s'"
    and row: "\<And>j. get_session_row d' j = (if j = k then Some s' else get_session_row d j)"
    and wf: "tbl_wf s_id (db_sessions d')" and tasks: "db_tasks d' = db_tasks d"
    and log: "\<And>j ty. logged d' j ty \<longleftrightarrow> logged d j ty \<or> j = k \<and> ty = SESSION_ENDED \<and> \<not> open_session s'"
  shows "sessions_ok d' \<and> sessions_move d d'"
proof -
  have same: "s_task_id s' = s_task_id s" "s_machine_id s' = s_machine_id s" "s_agent_id s' = s_agent_id s"
    and ended: "open_session s' \<Longrightarrow> open_session s"
    using moves by (auto simp: row_moves_def open_session_def)
  have ht: "has_task d' = has_task d" by (rule has_task_same [OF tasks])
  have was: "\<exists>s0. get_session_row d j = Some s0 \<and> s_task_id s0 = s_task_id r \<and> s_machine_id s0 = s_machine_id r
      \<and> s_agent_id s0 = s_agent_id r \<and> (open_session r \<longrightarrow> open_session s0)" if "get_session_row d' j = Some r" for j r
    using that row [of j] s same ended by (cases "j = k") auto
  show ?thesis
  proof
    show "sessions_ok d'"
    proof (rule sessions_okI [OF wf])
      show "has_task d' r" if "get_session_row d' j = Some r" for j r
        using was [OF that] sessions_okD(2) [OF ok] has_task_cong unfolding ht by metis
      show "one_identity d'"
        using sessions_okD(3) [OF ok] was unfolding one_identity_def by (metis (no_types, lifting))
      show "logged d' j SESSION_ENDED \<longleftrightarrow> (\<exists>r. get_session_row d' j = Some r \<and> \<not> open_session r)" for j
        using sessions_okD(4) [OF ok, of j] row [of j] s ended unfolding log by auto
      show "logged d' j SESSION_STARTED \<longleftrightarrow> get_session_row d' j \<noteq> None" for j
        using sessions_okD(5) [OF ok, of j] row [of j] s unfolding log by auto
    qed
    show "sessions_move d d'" unfolding sessions_move_def using row s moves by auto
  qed
qed

subsection \<open>Histories\<close>

text \<open>
  \<open>Other\<close> is any commit of another service: it leaves the sessions and their events alone and
  deletes no task.
\<close>

inductive session_step :: "session_settings \<Rightarrow> db \<Rightarrow> db \<Rightarrow> bool" for st where
  Start: "get_session_row d i = None \<Longrightarrow> session_step st d (fst (start_session d p now i sc))"
| Resume: "get_session_row d i = None \<Longrightarrow> session_step st d (fst (resume_or_start_session d st p now i sc))"
| End: "session_step st d (fst (end_session d p now eids i))"
| Touch: "session_step st d (fst (touch_session d now i))"
| Ack_Sync: "session_step st d (fst (ack_sync_cursor d i seq))"
| Ack_Handoff: "session_step st d (fst (ack_handoff_cursor d t seq))"
| Expire: "session_step st d (close_session_of_expired_launch d now l)"
| Other: "db_sessions d' = db_sessions d \<Longrightarrow> logged d' = logged d \<Longrightarrow>
    (\<And>t. get_task_row d t \<noteq> None \<Longrightarrow> get_task_row d' t \<noteq> None) \<Longrightarrow> session_step st d d'"

abbreviation session_steps :: "session_settings \<Rightarrow> db \<Rightarrow> db \<Rightarrow> bool" where
  "session_steps st \<equiv> (session_step st)\<^sup>*\<^sup>*"

lemma has_task_mono:
  "(\<And>t. get_task_row d t \<noteq> None \<Longrightarrow> get_task_row d' t \<noteq> None) \<Longrightarrow> has_task d s \<Longrightarrow> has_task d' s"
  by (auto simp: has_task_def session_project_id_def split: option.splits)

lemma unchanged_ok:
  assumes "sessions_ok d" and "db_sessions d' = db_sessions d" and "logged d' = logged d"
    and "\<And>t. get_task_row d t \<noteq> None \<Longrightarrow> get_task_row d' t \<noteq> None"
  shows "sessions_ok d' \<and> sessions_move d d'"
proof -
  have row: "get_session_row d' = get_session_row d" by (rule same_sessions [OF assms(2)])
  have "one_identity d' = one_identity d" by (simp add: one_identity_def row)
  with assms(1) has_task_mono [OF assms(4)] show ?thesis
    unfolding sessions_ok_def sessions_move_def row assms(2,3) by auto
qed

lemma find_open_row:
  assumes "find_open_session d t a m = Some s" and "tbl_wf s_id (db_sessions d)"
  shows "get_session_row d (s_id s) = Some s \<and> open_session s \<and> s_task_id s = Some t \<and> s_machine_id s = Some m
    \<and> s_agent_id s = a"
proof -
  let ?sel = "filter (\<lambda>s. s_task_id s = Some t \<and> s_machine_id s = Some m \<and> s_ended_at s = None \<and> s_agent_id s = a)
    (db_sessions d)"
  have "s \<in> set (sort_key (\<lambda>s. - s_started_at s) ?sel)"
    using assms(1) by (simp add: find_open_session_def del: set_sort split: list.splits)
  then show ?thesis using session_mem [OF assms(2)] by (auto simp: open_session_def)
qed

lemma closing_ok:
  assumes ok: "sessions_ok d" and s: "get_session_row d (s_id s) = Some s" "open_session s"
    and rows: "db_sessions d' = db_sessions (put_session (closed_session now s) d)" and tasks: "db_tasks d' = db_tasks d"
    and log: "\<And>j ty. logged d' j ty \<longleftrightarrow> logged d j ty \<or> has_task d s \<and> j = s_id s \<and> ty = SESSION_ENDED"
  shows "sessions_ok d' \<and> sessions_move d d'"
proof (rule row_update_ok [OF ok s(1) row_moves_closed [OF s(2)]])
  have row: "get_session_row d' = get_session_row (put_session (closed_session now s) d)" by (rule same_sessions [OF rows])
  show "get_session_row d' j = (if j = s_id s then Some (closed_session now s) else get_session_row d j)" for j
    by (simp add: row)
  show "tbl_wf s_id (db_sessions d')"
    using sessions_okD(1) [OF ok] rows by (auto simp: put_session_def)
  show "logged d' j ty \<longleftrightarrow> logged d j ty \<or> j = s_id s \<and> ty = SESSION_ENDED \<and> \<not> open_session (closed_session now s)" for j ty
    using log [of j ty] sessions_okD(2) [OF ok s(1)] by auto
qed (rule tasks)

lemma touching_ok:
  assumes ok: "sessions_ok d" and s: "get_session_row d k = Some s"
    and moves: "row_moves s s'" "s_ended_at s' = s_ended_at s"
  shows "sessions_ok (put_session s' d) \<and> sessions_move d (put_session s' d)"
proof (rule row_update_ok [OF ok s moves(1)])
  have id: "s_id s' = k" using moves(1) get_session_id [OF s] by (simp add: row_moves_def)
  show "get_session_row (put_session s' d) j = (if j = k then Some s' else get_session_row d j)" for j
    by (simp add: id)
  show "tbl_wf s_id (db_sessions (put_session s' d))"
    using sessions_okD(1) [OF ok] by (auto simp: put_session_def)
  have "logged d j SESSION_ENDED" if "j = k" "\<not> open_session s'" for j
    using that sessions_okD(4) [OF ok, of k] s moves(2) by (auto simp: open_session_def)
  then show "logged (put_session s' d) j ty \<longleftrightarrow> logged d j ty \<or> j = k \<and> ty = SESSION_ENDED \<and> \<not> open_session s'" for j ty
    by auto
qed simp

subsection \<open>Every operation keeps the invariant\<close>

lemma start_ok:
  assumes "sessions_ok d" and "get_session_row d i = None"
  shows "sessions_ok (fst (start_session d p now i sc)) \<and> sessions_move d (fst (start_session d p now i sc))"
proof (cases "start_session d p now i sc")
  case (Pair d' r)
  show ?thesis
  proof (cases r)
    case (Inl e)
    with Pair have "d' = d" by (auto simp: start_session_def guarded_eq_pair Let_def split: prod.splits if_splits)
    with Pair assms(1) show ?thesis by simp
  next
    case (Inr s)
    with Pair start_session_started [of d p now i sc d' s] sessions_okD(1) [OF assms(1)]
    have "s_id s = i" "started d d' sc now s (other_identity sc)" by simp_all
    with started_ok [OF assms(1), of s d' sc now "other_identity sc"] assms(2) Pair show ?thesis by simp
  qed
qed

lemma start_afresh_fails: "start_afresh d d0 e p now i sc = (d', Inl x) \<Longrightarrow> d' = d"
  by (auto simp: start_afresh_def Let_def split: prod.splits if_splits)

lemma resume_ok:
  assumes "sessions_ok d" and "get_session_row d i = None"
  shows "sessions_ok (fst (resume_or_start_session d st p now i sc))
    \<and> sessions_move d (fst (resume_or_start_session d st p now i sc))"
proof -
  note wf = sessions_okD(1) [OF assms(1)]
  let ?found = "find_open_session d (sc_task_id sc) (sc_agent_id sc) (sc_machine_id sc)"
  have afresh: "sessions_ok (fst (start_afresh d d0 e p now i sc)) \<and> sessions_move d (fst (start_afresh d d0 e p now i sc))"
    if "\<And>d' s b. start_afresh d d0 e p now i sc = (d', Inr (s, b)) \<Longrightarrow>
      \<exists>P. s_id s = i \<and> started d d' sc now s P \<and> (\<forall>r. other_identity sc r \<longrightarrow> P r)" for d0 e
  proof (cases "start_afresh d d0 e p now i sc")
    case (Pair d' r)
    show ?thesis
    proof (cases r)
      case (Inl x)
      with Pair assms(1) show ?thesis by (auto dest: start_afresh_fails)
    next
      case (Inr y)
      obtain s b where y: "y = (s, b)" by fastforce
      from that [of d' s b] Pair Inr y started_ok [OF assms(1), of s d' sc now] assms(2) show ?thesis by auto
    qed
  qed
  have none: "sessions_ok (fst (start_afresh d d None p now i sc)) \<and> sessions_move d (fst (start_afresh d d None p now i sc))"
    by (rule afresh) (use start_afresh_started [OF _ wf] in blast)
  have expired: "sessions_ok (fst (start_afresh d (put_session (closed_session now x) d) (Some (closed_session now x)) p now i sc))
      \<and> sessions_move d (fst (start_afresh d (put_session (closed_session now x) d) (Some (closed_session now x)) p now i sc))"
    if "?found = Some x" for x
  proof (rule afresh)
    have x: "get_session_row d (s_id x) = Some x" "open_session x" "\<not> other_identity sc x"
      using find_open_row [OF that wf] by (auto simp: other_identity_iff)
    fix d' s b
    assume "start_afresh d (put_session (closed_session now x) d) (Some (closed_session now x)) p now i sc = (d', Inr (s, b))"
    from start_afresh_expired [OF this wf x]
    show "\<exists>P. s_id s = i \<and> started d d' sc now s P \<and> (\<forall>r. other_identity sc r \<longrightarrow> P r)" by blast
  qed
  have resumed: "sessions_ok (link_session_to_launch (put_session (x\<lparr>s_last_activity_at := Some now\<rparr>) d) y k)
      \<and> sessions_move d (link_session_to_launch (put_session (x\<lparr>s_last_activity_at := Some now\<rparr>) d) y k)"
    if "?found = Some x" for x y k
  proof -
    let ?s = "x\<lparr>s_last_activity_at := Some now\<rparr>"
    have t: "sessions_ok (put_session ?s d)" "sessions_move d (put_session ?s d)"
      using touching_ok [OF assms(1), of "s_id x" x ?s] find_open_row [OF that wf] by (simp_all add: row_moves_def)
    have "sessions_ok (link_session_to_launch (put_session ?s d) y k) \<and> sessions_move (put_session ?s d) (link_session_to_launch (put_session ?s d) y k)"
      by (rule unchanged_ok [OF t(1)]) (simp_all add: get_task_row_def)
    with t(2) show ?thesis using sessions_move_trans by blast
  qed
  show ?thesis
    using assms(1) none expired resumed
    by (simp add: resume_or_start_session_def guarded_def Let_def split: sum.split option.split)
qed

lemma emitted_ok:
  assumes "sessions_ok d" and "get_session_row d (s_id s) = Some s" and "open_session s"
  shows "sessions_ok (emit_session_event (put_session (closed_session now s) d) p now (closed_session now s) SESSION_ENDED r)
    \<and> sessions_move d (emit_session_event (put_session (closed_session now s) d) p now (closed_session now s) SESSION_ENDED r)"
  by (rule closing_ok [OF assms]) (simp_all add: logged_emit)

lemma end_ok:
  assumes "sessions_ok d"
  shows "sessions_ok (fst (end_session d p now eids i)) \<and> sessions_move d (fst (end_session d p now eids i))"
proof -
  have step: "sessions_ok d1 \<and> sessions_move d d1 \<and> get_session_row d1 = get_session_row d"
    if "release_session_claims d p now eids s = (d1, r)" for s d1 r
    using unchanged_ok [OF assms, of d1] release_session_claims_frame [OF that] same_sessions [of d1 d]
    by (simp add: get_task_row_def)
  have closing: "sessions_ok (emit_session_event (put_session (closed_session now s) d1) p now (closed_session now s) SESSION_ENDED None)
      \<and> sessions_move d (emit_session_event (put_session (closed_session now s) d1) p now (closed_session now s) SESSION_ENDED None)"
    if "release_session_claims d p now eids s = (d1, r)" "get_session_row d i = Some s" "s_ended_at s = None" for s d1 r
    using emitted_ok [of d1 s now p None] step [OF that(1)] that get_session_id [OF that(2)] sessions_move_trans
    by (auto simp: open_session_def)
  show ?thesis
    using assms step closing
    by (auto simp: end_session_def found_def guarded_def Let_def split: option.split sum.split prod.split)
qed

lemma session_step_ok:
  assumes "session_step st d d'" and "sessions_ok d"
  shows "sessions_ok d' \<and> sessions_move d d'"
  using assms
proof cases
  case (Start i p now sc)
  then show ?thesis using start_ok assms(2) by blast
next
  case (Resume i p now sc)
  then show ?thesis using resume_ok assms(2) by blast
next
  case (End p now eids i)
  then show ?thesis using end_ok assms(2) by blast
next
  case (Touch now i)
  then show ?thesis
    using assms(2) touching_ok [OF assms(2)] by (auto simp: touch_session_def Let_def row_moves_def split: option.split)
next
  case (Ack_Sync i seq)
  then show ?thesis
    using assms(2) touching_ok [OF assms(2)]
    by (auto simp: ack_sync_cursor_def Let_def row_moves_def cursor_le_def greatest_def split: option.split)
next
  case (Ack_Handoff t seq)
  then show ?thesis
    using assms(2) unchanged_ok [OF assms(2)] by (auto simp: ack_handoff_cursor_def Let_def split: option.split)
next
  case (Expire now l)
  show ?thesis
  proof (cases "linked_open_session d l")
    case None
    with Expire assms(2) show ?thesis by (simp add: close_session_of_expired_launch_def)
  next
    case (Some s)
    then have s: "get_session_row d (s_id s) = Some s" "open_session s"
      by (auto simp: linked_open_session_def open_session_def dest: get_session_id split: option.splits if_splits)
    with Expire Some sessions_okD(2) [OF assms(2)] show ?thesis
      by (intro closing_ok [OF assms(2) s])
        (auto simp: close_session_of_expired_launch_def close_session_server_side_def closed_session_def
          session_ended_id_derived logged_stage)
  qed
next
  case Other
  then show ?thesis using unchanged_ok [OF assms(2)] by blast
qed

lemma session_steps_ok:
  assumes "session_steps st d d'" and "sessions_ok d"
  shows "sessions_ok d' \<and> sessions_move d d'"
  using assms(1)
proof (induction rule: rtranclp_induct)
  case (step x y)
  then show ?case using session_step_ok [OF step.hyps(2)] sessions_move_trans by blast
qed (simp add: assms(2))

subsection \<open>Properties\<close>

definition no_sessions :: "db \<Rightarrow> bool" where
  "no_sessions d \<longleftrightarrow> db_sessions d = [] \<and> (\<forall>i ty. derive_session_event_id i ty \<notin> e_id ` set (db_events d))"

lemma no_sessions_ok: "no_sessions d \<Longrightarrow> sessions_ok d"
proof -
  assume none: "no_sessions d"
  then have "get_session_row d k = None" for k by (simp add: no_sessions_def get_session_row_def)
  moreover have "\<not> logged d i ty" for i ty
    using none by (simp add: no_sessions_def logged_def find_event_def tbl_get_None_iff)
  ultimately show ?thesis using none by (simp add: sessions_ok_def one_identity_def no_sessions_def tbl_wf_def)
qed



text \<open>Along every history a session keeps its task, machine, agent and start; once ended it stays ended
  with the same instant (it is never resumed), and its sync cursor never goes back.\<close>

theorem session_history_monotone:
  assumes "no_sessions d0" and "session_steps st d0 d" and "session_steps st d d'" and "get_session_row d i = Some s"
  shows "\<exists>s'. get_session_row d' i = Some s' \<and> s_task_id s' = s_task_id s \<and> s_machine_id s' = s_machine_id s
    \<and> s_agent_id s' = s_agent_id s \<and> s_started_at s' = s_started_at s
    \<and> (s_ended_at s \<noteq> None \<longrightarrow> s_ended_at s' = s_ended_at s)
    \<and> (\<forall>c. s_sync_cursor_seq s = Some c \<longrightarrow> (\<exists>c'. s_sync_cursor_seq s' = Some c' \<and> c \<le> c'))"
proof -
  have "sessions_ok d" using session_steps_ok [OF assms(2)] no_sessions_ok [OF assms(1)] by blast
  then have "sessions_move d d'" using session_steps_ok [OF assms(3)] by blast
  with assms(4) obtain s' where s': "get_session_row d' i = Some s'" "row_moves s s'" by (auto simp: sessions_move_def)
  then show ?thesis
    by (intro exI [of _ s']) (auto simp: row_moves_def cursor_le_def split: option.splits)
qed

subsection \<open>Resuming twice, ending twice\<close>

lemma tbl_put_map:
  "tbl_wf key rs \<Longrightarrow> tbl_get key rs (key x) \<noteq> None \<Longrightarrow> tbl_put key x rs = map (\<lambda>r. if key r = key x then x else r) rs"
proof (induction rs)
  case (Cons r rs)
  then show ?case
    by (cases "key r = key x") (auto simp: tbl_wf_def image_iff intro!: map_idI [symmetric])
qed simp

lemma sort_head_least: "sort_key f xs = y # ys \<Longrightarrow> x \<in> set xs \<Longrightarrow> f y \<le> f x"
  using sorted_sort_key [of f xs] set_sort [of f xs] by (cases "x = y") (auto simp del: sorted_sort_key set_sort)

lemma find_open_touched:
  assumes "find_open_session d t a m = Some s" and "tbl_wf s_id (db_sessions d)"
    and "db_sessions d' = db_sessions (put_session (s\<lparr>s_last_activity_at := act\<rparr>) d)"
  shows "find_open_session d' t a m = Some (s\<lparr>s_last_activity_at := act\<rparr>)"
proof -
  let ?g = "\<lambda>r. if s_id r = s_id s then s\<lparr>s_last_activity_at := act\<rparr> else r"
  let ?h = "\<lambda>r. if r = s then s\<lparr>s_last_activity_at := act\<rparr> else r"
  let ?P = "\<lambda>s. s_task_id s = Some t \<and> s_machine_id s = Some m \<and> s_ended_at s = None \<and> s_agent_id s = a"
  note s = find_open_row [OF assms(1,2)]
  have one: "r = s" if "r \<in> set (db_sessions d)" "s_id r = s_id s" for r
    using session_mem [OF assms(2)] that s by force
  have "db_sessions d' = map ?g (db_sessions d)"
    using s tbl_put_map [OF assms(2), of "s\<lparr>s_last_activity_at := act\<rparr>"]
    by (simp add: assms(3) put_session_def get_session_row_def)
  also have "\<dots> = map ?h (db_sessions d)" using one by auto
  finally have "filter ?P (db_sessions d') = map ?h (filter ?P (db_sessions d))"
    by (simp add: filter_map comp_def) (metis (mono_tags, lifting) session_row.simps)
  then have "sort_key (\<lambda>s. - s_started_at s) (filter ?P (db_sessions d'))
      = map ?h (sort_key (\<lambda>s. - s_started_at s) (filter ?P (db_sessions d)))"
    by (simp only: sort_key_map) (rule arg_cong [OF sort_key_cong_on], simp)
  with assms(1) show ?thesis by (auto simp: find_open_session_def split: list.splits)
qed

lemma find_open_newest:
  assumes "tbl_wf s_id (db_sessions d)" and "get_session_row d (s_id s) = Some s" and "open_session s"
    and "s_task_id s = Some t" and "s_machine_id s = Some m" and "s_agent_id s = a"
    and newest: "\<And>r. r \<in> set (db_sessions d) \<Longrightarrow> r \<noteq> s \<Longrightarrow> s_started_at r < s_started_at s"
  shows "find_open_session d t a m = Some s"
proof -
  define sel where "sel = filter (\<lambda>s. s_task_id s = Some t \<and> s_machine_id s = Some m \<and> s_ended_at s = None
    \<and> s_agent_id s = a) (db_sessions d)"
  have s: "s \<in> set sel"
    using assms(2-6) by (auto simp: sel_def get_session_row_def open_session_def dest: tbl_get_mem)
  have sub: "set sel \<subseteq> set (db_sessions d)" by (auto simp: sel_def)
  have found: "find_open_session d t a m = (case sort_key (\<lambda>s. - s_started_at s) sel of [] \<Rightarrow> None | s # _ \<Rightarrow> Some s)"
    by (simp add: find_open_session_def sel_def)
  show ?thesis
  proof (cases "sort_key (\<lambda>s. - s_started_at s) sel")
    case Nil
    then have "set sel = {}" using set_sort [of "\<lambda>s. - s_started_at s" sel] by simp
    with s show ?thesis by simp
  next
    case (Cons y ys)
    have "y \<in> set sel" using set_sort [of "\<lambda>s. - s_started_at s" sel] Cons by auto
    moreover have "- s_started_at y \<le> - s_started_at s" using sort_head_least [OF Cons s] .
    ultimately have "y = s" using newest [of y] sub by auto
    with Cons found show ?thesis by simp
  qed
qed

lemma resume_again:
  assumes "and_then (authorize_start d1 p (Some (sc_task_id sc)) (sc_agent_id sc))
      (ensure_machine_owned p (Some (sc_machine_id sc)) ''session'' ''resume'') = Inr ()"
    and "find_open_session d1 (sc_task_id sc) (sc_agent_id sc) (sc_machine_id sc) = Some s"
    and "s_last_activity_at s = Some now" and "s_ended_at s = None"
    and "now' - now \<le> seconds (ss_session_expire_after_seconds st)"
    and "tbl_wf s_id (db_sessions d1)"
  shows "\<exists>d2. resume_or_start_session d1 st p now' j sc = (d2, Inr (s\<lparr>s_last_activity_at := Some now'\<rparr>, True))
    \<and> s_id ` set (db_sessions d2) = s_id ` set (db_sessions d1)"
proof -
  have "derive_session_status st now' s \<noteq> Session_EXPIRED"
    using assms(3-5) by (simp add: derive_session_status_def effective_activity_def Let_def)
  moreover have "s_id ` set (db_sessions (put_session (s\<lparr>s_last_activity_at := Some now'\<rparr>) d1)) = s_id ` set (db_sessions d1)"
    using find_open_row [OF assms(2,6)]
    by (auto simp: put_session_def tbl_put_keys get_session_row_def dest!: tbl_get_mem)
  ultimately show ?thesis using assms(1,2) by (simp add: resume_or_start_session_def Let_def)
qed

lemma authorize_same:
  "db_tasks d' = db_tasks d \<Longrightarrow> db_agents d' = db_agents d \<Longrightarrow> authorize_start d' p t a = authorize_start d p t a"
  unfolding authorize_start_def ensure_task_project_access_def by (simp only: same_tasks [of d' d])

lemma emit_agents [simp]:
  "db_agents (emit_session_event d p now s ty r) = db_agents d"
  "db_agents (emit_superseded p now rows d) = db_agents d"
  "db_agents (link_session_to_launch d s k) = db_agents d"
  "db_agents (fold put_session rows d) = db_agents d"
proof -
  have emit: "db_agents (emit_session_event d p now s ty r) = db_agents d" for d s ty r
    by (simp add: emit_session_event_def split: option.split)
  then show "db_agents (emit_session_event d p now s ty r) = db_agents d" .
  show "db_agents (emit_superseded p now rows d) = db_agents d"
    unfolding emit_superseded_def by (induction rows arbitrary: d) (simp_all add: emit)
  show "db_agents (link_session_to_launch d s k) = db_agents d"
    by (simp add: link_session_to_launch_def split: option.split)
  show "db_agents (fold put_session rows d) = db_agents d"
    by (induction rows arbitrary: d) simp_all
qed

lemma start_afresh_agents:
  "start_afresh d d0 e p now i sc = (d', r) \<Longrightarrow> db_agents d0 = db_agents d \<Longrightarrow> db_agents d' = db_agents d"
  by (auto simp: start_afresh_def close_sessions_for_another_identity_def Let_def split: if_splits option.split)

lemma start_afresh_row:
  "start_afresh d d0 e p now i sc = (d', Inr (s, b)) \<Longrightarrow>
     s_started_at s = now \<and> s_last_activity_at s = Some now \<and> s_ended_at s = None"
  by (auto simp: start_afresh_def new_session_def Let_def split: if_splits prod.splits)

definition resumable :: "db \<Rightarrow> db \<Rightarrow> session_create \<Rightarrow> timestamp \<Rightarrow> session_row \<Rightarrow> bool" where
  "resumable d d1 sc now s \<longleftrightarrow> db_tasks d1 = db_tasks d \<and> db_agents d1 = db_agents d
     \<and> find_open_session d1 (sc_task_id sc) (sc_agent_id sc) (sc_machine_id sc) = Some s
     \<and> s_last_activity_at s = Some now \<and> s_ended_at s = None"

lemma afresh_resumable:
  assumes afresh: "start_afresh d d0 e p now i sc = (d1, Inr (s, b))" and "db_agents d0 = db_agents d"
    and started: "s_id s = i \<and> \<not> b \<and> started d d1 sc now s P"
    and older: "\<And>r. r \<in> set (db_sessions d) \<Longrightarrow> s_started_at r < now"
  shows "resumable d d1 sc now s"
proof -
  have wf1: "tbl_wf s_id (db_sessions d1)" using started unfolding started_def by blast
  have row: "get_session_row d1 k = (if k = s_id s then Some s
      else map_option (\<lambda>s. if open_session s \<and> P s then closed_session now s else s) (get_session_row d k))" for k
    using started unfolding started_def by blast
  have "s_started_at r < s_started_at s" if "r \<in> set (db_sessions d1)" "r \<noteq> s" for r
  proof -
    have "get_session_row d1 (s_id r) = Some r" using session_mem [OF wf1] that(1) by blast
    with row [of "s_id r"] that(2) obtain r0 where "get_session_row d (s_id r) = Some r0" "s_started_at r = s_started_at r0"
      by (cases "get_session_row d (s_id r)") (auto simp: closed_session_def split: if_splits)
    then show ?thesis
      using older [of r0] start_afresh_row [OF afresh] by (simp add: get_session_row_def tbl_get_mem)
  qed
  then have "find_open_session d1 (sc_task_id sc) (sc_agent_id sc) (sc_machine_id sc) = Some s"
    using find_open_newest [OF wf1, of s] row [of "s_id s"] started unfolding started_def by auto
  then show ?thesis
    using start_afresh_row [OF afresh] start_afresh_agents [OF afresh assms(2)] started
    unfolding started_def resumable_def by simp
qed

lemma resumed_resumable:
  assumes "resume_or_start_session d st p now i sc = (d1, Inr (s, b))" and wf: "tbl_wf s_id (db_sessions d)"
    and older: "\<And>r. r \<in> set (db_sessions d) \<Longrightarrow> s_started_at r < now"
  shows "resumable d d1 sc now s \<and> and_then (authorize_start d p (Some (sc_task_id sc)) (sc_agent_id sc))
      (ensure_machine_owned p (Some (sc_machine_id sc)) ''session'' ''resume'') = Inr ()"
proof -
  have gate: "and_then (authorize_start d p (Some (sc_task_id sc)) (sc_agent_id sc))
      (ensure_machine_owned p (Some (sc_machine_id sc)) ''session'' ''resume'') = Inr ()"
    using assms(1) by (auto simp: resume_or_start_session_def guarded_eq_pair)
  show ?thesis
  proof (cases "find_open_session d (sc_task_id sc) (sc_agent_id sc) (sc_machine_id sc)")
    case None
    then have a: "start_afresh d d None p now i sc = (d1, Inr (s, b))"
      using assms(1) gate by (simp add: resume_or_start_session_def)
    show ?thesis using afresh_resumable [OF a refl start_afresh_started [OF a wf] older] gate by simp
  next
    case (Some x)
    note x = find_open_row [OF Some wf]
    show ?thesis
    proof (cases "derive_session_status st now x = Session_EXPIRED")
      case True
      then have a: "start_afresh d (put_session (closed_session now x) d) (Some (closed_session now x)) p now i sc = (d1, Inr (s, b))"
        using assms(1) gate Some by (simp add: resume_or_start_session_def)
      have "\<not> other_identity sc x" using x by (simp add: other_identity_iff)
      with afresh_resumable [OF a _ start_afresh_expired [OF a wf] older] x gate show ?thesis by simp
    next
      case False
      then have "s = x\<lparr>s_last_activity_at := Some now\<rparr>"
        and "d1 = link_session_to_launch (put_session s d) s (scoped_launch_id p)"
        using assms(1) gate Some by (auto simp: resume_or_start_session_def Let_def)
      with find_open_touched [OF Some wf, of d1 "Some now"] x gate show ?thesis
        by (simp add: open_session_def resumable_def)
    qed
  qed
qed

text \<open>A resume converges: asked again before the presence expires, the server resumes the very session
  the first call resumed or started, and creates no row - so an agent that reconnects or retries
  keeps one session.\<close>

theorem resume_converges:
  assumes "sessions_ok d" and "get_session_row d i = None" and "\<And>r. r \<in> set (db_sessions d) \<Longrightarrow> s_started_at r < now"
    and "resume_or_start_session d st p now i sc = (d1, Inr (s, b))"
    and "now' - now \<le> seconds (ss_session_expire_after_seconds st)"
  shows "\<exists>d2 s'. resume_or_start_session d1 st p now' j sc = (d2, Inr (s', True)) \<and> s_id s' = s_id s
    \<and> s_id ` set (db_sessions d2) = s_id ` set (db_sessions d1)"
proof -
  have wf1: "tbl_wf s_id (db_sessions d1)"
    using sessions_okD(1) resume_ok [OF assms(1,2), of st p now sc] assms(4) by simp
  have r: "resumable d d1 sc now s" and gate: "and_then (authorize_start d p (Some (sc_task_id sc)) (sc_agent_id sc))
      (ensure_machine_owned p (Some (sc_machine_id sc)) ''session'' ''resume'') = Inr ()"
    using resumed_resumable [OF assms(4) sessions_okD(1) [OF assms(1)] assms(3)] by simp_all
  have "authorize_start d1 p t a = authorize_start d p t a" for t a
    using authorize_same [of d1 d] r by (simp add: resumable_def)
  with resume_again [of d1 p sc s now now' st j] r gate wf1 assms(5) show ?thesis
    unfolding resumable_def by fastforce
qed

text \<open>Property C35. Ending a session a second time is no harmless no-op: it releases the claims the agent has taken since,
  in a later session of the same task that is still open.\<close>

theorem second_end_releases_successor:
  assumes "end_session d p now eids i = (d', Inr x)" and "get_session_row d i = Some s" and "s_ended_at s \<noteq> None"
    and "r \<in> set (db_sessions d)" and "s_ended_at r = None" and "s_task_id r = s_task_id s"
    and "c \<in> set (db_claims d)" and "c_status c = ClaimStatus_ACTIVE" and "c_task_id c = s_task_id r"
    and "c_claimed_by_machine_id c = m_id (p_machine p)" and "c_claimed_by_agent_id c = s_agent_id s"
    and "tbl_wf c_id (db_claims d)" and "has_task d s"
  shows "x = s \<and> r \<in> set (db_sessions d') \<and>
    (\<exists>c'. get_claim_row d' (c_id c) = Some c' \<and> c_status c' = ClaimStatus_RELEASED)"
proof -
  obtain t task where t: "s_task_id s = Some t" "get_task_row d t = Some task"
    using assms(13) by (auto simp: has_task_def session_project_id_def split: option.splits)
  from t(2) have tid: "t_id task = t" unfolding get_task_row_def by (rule tbl_get_key)
  from assms(1-3) obtain d1 q where rel: "release_session_claims d p now eids s = (d1, q)"
    and d': "d' = d1" "x = s" and q: "\<exists>rs. q = Inr rs"
    by (auto simp: end_session_def found_def guarded_eq_pair split: prod.splits sum.splits)
  then obtain rs where each: "release_each d p now eids 0 (filter (task_claim_releasable p task (s_agent_id s))
      (filter (\<lambda>c. c_task_id c = Some t \<and> c_status c = ClaimStatus_ACTIVE) (db_claims d))) = (d1, Inr rs)"
    using t tid by (auto simp: release_session_claims_def release_task_claims_by_task_def guarded_eq_pair)
  have "c \<in> set (filter (task_claim_releasable p task (s_agent_id s))
      (filter (\<lambda>c. c_task_id c = Some t \<and> c_status c = ClaimStatus_ACTIVE) (db_claims d)))"
    using assms(6-11) t by (simp add: task_claim_releasable_def)
  with release_each_spec [OF each] assms(8) have "\<exists>c'. get_claim_row d1 (c_id c) = Some c' \<and> c_status c' = ClaimStatus_RELEASED"
    by (metis (no_types, lifting) claim_status.distinct)
  with release_session_claims_frame [OF rel] assms(4) d' show ?thesis by simp
qed

subsection \<open>A concrete history\<close>

definition session_db :: db where
  "session_db = empty_db\<lparr>db_tasks := [sample_task], db_machines := [sample_machine],
     db_agents := [\<lparr>a_id = 50, a_owner_user_id = Some 1, a_machine_id = Some 10, a_stable_key = None\<rparr>],
     db_claims := [sample_claim\<lparr>c_claimed_by_agent_id := Some 50\<rparr>]\<rparr>"

definition start_as :: "uuid option \<Rightarrow> session_create" where
  "start_as a = \<lparr>sc_task_id = 30, sc_machine_id = 10, sc_agent_id = a\<rparr>"

definition session_at :: "uuid \<Rightarrow> timestamp \<Rightarrow> timestamp option \<Rightarrow> session_row" where
  "session_at i t e = \<lparr>s_id = i, s_task_id = Some 30, s_machine_id = Some 10, s_agent_id = (if i = 100 then None else Some 50),
     s_started_at = t, s_ended_at = e, s_last_activity_at = Some (case e of None \<Rightarrow> t | Some x \<Rightarrow> x), s_sync_cursor_seq = None\<rparr>"

text \<open>A start without an agent, one as agent 50, which closes the first, and a resume of it; then
  another start of the same agent.\<close>

definition after_two :: db where
  "after_two = fst (start_session (fst (start_session session_db sample_principal 10 100 (start_as None)))
     sample_principal 20 101 (start_as (Some 50)))"

definition after_three :: db where
  "after_three = fst (start_session after_two sample_principal 30 102 (start_as (Some 50)))"

lemma history_rows:
  "db_sessions after_two = [session_at 100 10 (Some 20), session_at 101 20 None]"
  "db_sessions after_three = [session_at 100 10 (Some 20), session_at 101 20 None, session_at 102 30 None]"
  unfolding after_three_def after_two_def session_db_def by code_simp+

lemma history_steps:
  "session_steps default_session_settings session_db after_two"
  "session_steps default_session_settings after_two after_three"
proof -
  let ?st = default_session_settings
  let ?d1 = "fst (start_session session_db sample_principal 10 100 (start_as None))"
  have "get_session_row session_db 100 = None" "get_session_row ?d1 101 = None" "get_session_row after_two 102 = None"
    unfolding after_two_def session_db_def by code_simp+
  then have "session_step ?st session_db ?d1" "session_step ?st ?d1 after_two" "session_step ?st after_two after_three"
    unfolding after_three_def after_two_def by (auto intro: Start)
  then show "session_steps ?st session_db after_two" "session_steps ?st after_two after_three" by auto
qed

lemma session_db_empty: "no_sessions session_db"
  by (simp add: no_sessions_def session_db_def empty_db_def)



lemma session_history_monotone_witness:
  "\<exists>s'. get_session_row after_three 100 = Some s' \<and> s_ended_at s' = Some 20 \<and> s_agent_id s' = None"
proof -
  have "get_session_row after_two 100 = Some (session_at 100 10 (Some 20))"
    by (simp add: get_session_row_def history_rows(1)) (simp add: session_at_def)
  from session_history_monotone [OF session_db_empty history_steps this] show ?thesis by (auto simp: session_at_def)
qed

lemma after_three_ok: "sessions_ok after_three"
  using session_steps_ok [OF rtranclp_trans [OF history_steps] no_sessions_ok [OF session_db_empty]] by blast

lemma resume_converges_witness:
  "\<exists>d1 d2 s'. resume_or_start_session after_three default_session_settings sample_principal 40 103 (start_as (Some 50)) =
       (d1, Inr (session_at 102 30 None\<lparr>s_last_activity_at := Some 40\<rparr>, True))
     \<and> resume_or_start_session d1 default_session_settings sample_principal 60 104 (start_as (Some 50)) = (d2, Inr (s', True))
     \<and> s_id s' = 102 \<and> s_id ` set (db_sessions d2) = s_id ` set (db_sessions d1)"
proof -
  let ?r = "resume_or_start_session after_three default_session_settings sample_principal 40 103 (start_as (Some 50))"
  have "snd ?r = Inr (session_at 102 30 None\<lparr>s_last_activity_at := Some 40\<rparr>, True)"
    unfolding after_three_def after_two_def session_db_def by code_simp
  then have r: "?r = (fst ?r, Inr (session_at 102 30 None\<lparr>s_last_activity_at := Some 40\<rparr>, True))"
    by (metis prod.collapse)
  have "get_session_row after_three 103 = None" by (simp add: get_session_row_def history_rows(2)) (simp add: session_at_def)
  moreover have "s_started_at r < 40" if "r \<in> set (db_sessions after_three)" for r
    using that by (auto simp: history_rows(2) session_at_def)
  ultimately show ?thesis
    using resume_converges [OF after_three_ok _ _ r, of 60 104] r
    by (force simp: default_session_settings_def seconds_def session_at_def)
qed

text \<open>Session 101 has ended, 102 is open and agent 50 holds a claim when the end of 101 is repeated.\<close>

definition ended_once :: db where
  "ended_once = after_three\<lparr>db_sessions := [session_at 101 20 (Some 35), session_at 102 30 None]\<rparr>"

lemma second_end_releases_successor_witness:
  "\<exists>c'. get_claim_row (fst (end_session ended_once sample_principal 50 (\<lambda>k. 900 + k) 101)) 40 = Some c'
     \<and> c_status c' = ClaimStatus_RELEASED"
proof -
  let ?r = "end_session ended_once sample_principal 50 (\<lambda>k. 900 + k) 101"
  let ?c = "sample_claim\<lparr>c_claimed_by_agent_id := Some 50\<rparr>"
  have "snd ?r = Inr (session_at 101 20 (Some 35))"
    unfolding ended_once_def after_three_def after_two_def session_db_def by code_simp
  then have "?r = (fst ?r, Inr (session_at 101 20 (Some 35)))" by (metis prod.collapse)
  note ended = second_end_releases_successor [OF this, of "session_at 101 20 (Some 35)" "session_at 102 30 None" ?c]
  have "db_claims ended_once = [?c]" "has_task ended_once (session_at 101 20 (Some 35))"
    unfolding ended_once_def after_three_def after_two_def session_db_def has_task_def by code_simp+
  with ended show ?thesis
    by (simp add: ended_once_def get_session_row_def session_at_def tbl_wf_def)
      (simp add: sample_claim_def sample_principal_def sample_machine_def)
qed

end
