(* ===== verification/Projects.thy ===== *)
theory Projects
  imports Launches Accounts
begin

section \<open>Projects and their members (\<open>services/projects.py\<close>, \<open>routers/projects.py\<close>)\<close>

text \<open>
  Projects, the memberships that decide where a person may act, and the reads scoped by them.
  The handlers of the router are modelled with the admin and not-yourself gates they run first.
  Membership refines a relation between projects and people, and the access of a person who is
  no admin is that relation. Then the two reads of the event log that take filters.
\<close>

subsection \<open>State\<close>

record project_row =
  pj_id :: uuid
  pj_slug :: string
  pj_name :: string
  pj_description :: "string option"
  pj_archived :: bool

record member_row = membership_row +
  pm_granted_by_user_id :: "uuid option"
  pm_created_at :: timestamp

record project_store =
  ps_projects :: "project_row list"
  ps_members :: "member_row list"
  ps_users :: "uuid list"

definition not_found_error :: "string \<Rightarrow> uuid \<Rightarrow> http_error" where
  "not_found_error what i =
     HTTPException 404 (JObj [(''error_code'', JText ''not_found''), (what, JUuid i)])"

subsection \<open>Projects\<close>

definition list_projects :: "project_store \<Rightarrow> principal \<Rightarrow> project_row list" where
  "list_projects st p =
     where_clause (map_option (\<lambda>c r. c (Some (pj_id r))) (project_visibility_clause p False))
       (filter (\<lambda>r. \<not> pj_archived r) (ps_projects st))"

definition get_project :: "project_store \<Rightarrow> principal \<Rightarrow> uuid \<Rightarrow> project_row fallible" where
  "get_project st p project_id =
     and_then (ensure_project_access p project_id ReadAction)
       (found (not_found_error ''project'' project_id) (tbl_get pj_id (ps_projects st) project_id))"

definition has_member :: "project_store \<Rightarrow> uuid \<Rightarrow> uuid \<Rightarrow> bool" where
  "has_member st project_id user_id \<longleftrightarrow>
     (\<exists>m \<in> set (ps_members st). pm_project_id m = project_id \<and> pm_user_id m = user_id)"

text \<open>\<open>INSERT ... ON CONFLICT DO NOTHING\<close> on the primary key (project, user).\<close>

definition insert_member :: "timestamp \<Rightarrow> uuid \<Rightarrow> uuid \<Rightarrow> uuid \<Rightarrow> project_store \<Rightarrow> project_store" where
  "insert_member now project_id user_id granted_by st =
     (if has_member st project_id user_id then st
      else st\<lparr>ps_members := ps_members st @
        [\<lparr>pm_user_id = user_id, pm_project_id = project_id, pm_granted_by_user_id = Some granted_by,
          pm_created_at = now\<rparr>]\<rparr>)"

definition create_project ::
  "project_store \<Rightarrow> timestamp \<Rightarrow> uuid \<Rightarrow> string \<Rightarrow> string \<Rightarrow> string option \<Rightarrow> uuid option
     \<Rightarrow> (project_store, project_row) outcome" where
  "create_project st now i slug name description creator =
     (if slug \<in> pj_slug ` set (ps_projects st)
      then (st, Inl (HTTPException 409 (JObj [(''error_code'', JText ''conflict''),
              (''message'', JText ''project slug already exists''), (''slug'', JText slug)])))
      else
        (let r = \<lparr>pj_id = i, pj_slug = slug, pj_name = name, pj_description = description, pj_archived = False\<rparr>;
             st1 = st\<lparr>ps_projects := ps_projects st @ [r]\<rparr>
         in (case creator of None \<Rightarrow> st1 | Some u \<Rightarrow> insert_member now i u u st1, Inr r)))"

definition get_active_tasks :: "db \<Rightarrow> principal \<Rightarrow> uuid \<Rightarrow> task_row list fallible" where
  "get_active_tasks d p project_id =
     and_then (ensure_project_access p project_id ReadAction)
       (Inr (filter (\<lambda>t. t_project_id t = project_id \<and>
          t_status t \<in> {TaskStatus_CREATED, TaskStatus_IN_PROGRESS, TaskStatus_BLOCKED}) (db_tasks d)))"

definition get_active_claims :: "db \<Rightarrow> principal \<Rightarrow> timestamp \<Rightarrow> uuid \<Rightarrow> claim_row list fallible" where
  "get_active_claims d p now project_id =
     and_then (ensure_project_access p project_id ReadAction)
       (Inr (filter (\<lambda>c. c_project_id c = project_id \<and> c_status c = ClaimStatus_ACTIVE \<and> now < c_expires_at c)
          (db_claims d)))"

subsection \<open>Members\<close>

definition ensure_members_admin :: "principal \<Rightarrow> project_action \<Rightarrow> unit fallible" where
  "ensure_members_admin p action =
     raise_if (p_role p \<noteq> Role_ADMIN) (forbidden ''project_members'' (project_action_text action))"

definition ensure_project_and_user :: "project_store \<Rightarrow> uuid \<Rightarrow> uuid option \<Rightarrow> unit fallible" where
  "ensure_project_and_user st project_id user_id =
     and_then (raise_if (project_id \<notin> pj_id ` set (ps_projects st)) (not_found_error ''project'' project_id))
       (case user_id of None \<Rightarrow> Inr ()
        | Some u \<Rightarrow> raise_if (u \<notin> set (ps_users st)) (not_found_error ''user'' u))"

definition list_members :: "project_store \<Rightarrow> uuid \<Rightarrow> member_row list fallible" where
  "list_members st project_id =
     and_then (ensure_project_and_user st project_id None)
       (Inr (sort_key pm_created_at (sort_key pm_user_id
          (filter (\<lambda>m. pm_project_id m = project_id) (ps_members st)))))"

definition list_user_memberships :: "project_store \<Rightarrow> uuid \<Rightarrow> member_row list" where
  "list_user_memberships st user_id =
     sort_key pm_created_at (sort_key pm_project_id (filter (\<lambda>m. pm_user_id m = user_id) (ps_members st)))"

definition grant_member ::
  "project_store \<Rightarrow> timestamp \<Rightarrow> uuid \<Rightarrow> uuid \<Rightarrow> uuid \<Rightarrow> (project_store, member_row \<times> bool) outcome" where
  "grant_member st now project_id user_id granted_by =
     guarded (ensure_project_and_user st project_id (Some user_id)) st
       (let st' = insert_member now project_id user_id granted_by st
        in case find (\<lambda>m. pm_project_id m = project_id \<and> pm_user_id m = user_id) (ps_members st') of
             None \<Rightarrow> (st', Inl (HTTPException 500 (JText ''AssertionError'')))
           | Some m \<Rightarrow> (st', Inr (m, \<not> has_member st project_id user_id)))"

definition revoke_member :: "project_store \<Rightarrow> uuid \<Rightarrow> uuid \<Rightarrow> (project_store, bool) outcome" where
  "revoke_member st project_id user_id =
     guarded (ensure_project_and_user st project_id (Some user_id)) st
       (st\<lparr>ps_members := filter (\<lambda>m. \<not> (pm_project_id m = project_id \<and> pm_user_id m = user_id)) (ps_members st)\<rparr>,
        Inr (has_member st project_id user_id))"

definition grant_project_member ::
  "project_store \<Rightarrow> principal \<Rightarrow> timestamp \<Rightarrow> uuid \<Rightarrow> uuid \<Rightarrow> (project_store, member_row \<times> bool) outcome" where
  "grant_project_member st p now project_id user_id =
     guarded (and_then (ensure_members_admin p WriteAction) (ensure_not_self (u_id (p_user p)) user_id ''grant_access'')) st
       (grant_member st now project_id user_id (u_id (p_user p)))"

definition revoke_project_member ::
  "project_store \<Rightarrow> principal \<Rightarrow> uuid \<Rightarrow> uuid \<Rightarrow> (project_store, bool) outcome" where
  "revoke_project_member st p project_id user_id =
     guarded (and_then (ensure_members_admin p WriteAction) (ensure_not_self (u_id (p_user p)) user_id ''revoke_access'')) st
       (revoke_member st project_id user_id)"

text \<open>\<open>POST /projects\<close>: the role gate of the endpoint, then the creation for the caller.\<close>

definition create_own_project ::
  "project_store \<Rightarrow> principal \<Rightarrow> timestamp \<Rightarrow> uuid \<Rightarrow> string \<Rightarrow> string \<Rightarrow> string option
     \<Rightarrow> (project_store, project_row) outcome" where
  "create_own_project st p now i slug name description =
     guarded (raise_if (p_role p \<notin> {Role_ADMIN, Role_DEVELOPER}) (HTTPException 403 (JText ''insufficient role''))) st
       (create_project st now i slug name description (Some (u_id (p_user p))))"

subsection \<open>Membership as a relation\<close>

datatype member_call =
    Create_Project uuid string string "string option"
  | Grant_Member uuid uuid
  | Revoke_Member uuid uuid

fun member_handler :: "principal \<Rightarrow> timestamp \<Rightarrow> member_call \<Rightarrow> project_store \<Rightarrow> project_store" where
  "member_handler p now (Create_Project i slug name description) st =
     fst (create_own_project st p now i slug name description)"
| "member_handler p now (Grant_Member k u) st = fst (grant_project_member st p now k u)"
| "member_handler p now (Revoke_Member k u) st = fst (revoke_project_member st p k u)"

record member_view =
  mv_projects :: "uuid set"
  mv_slugs :: "string set"
  mv_users :: "uuid set"
  mv_members :: "(uuid \<times> uuid) set"

definition member_view :: "project_store \<Rightarrow> member_view" where
  "member_view st = \<lparr>mv_projects = pj_id ` set (ps_projects st), mv_slugs = pj_slug ` set (ps_projects st),
     mv_users = set (ps_users st), mv_members = (\<lambda>m. (pm_project_id m, pm_user_id m)) ` set (ps_members st)\<rparr>"

text \<open>What the calls mean: an administrator decides, about others, on existing rows.\<close>

definition may_decide :: "principal \<Rightarrow> uuid \<Rightarrow> uuid \<Rightarrow> member_view \<Rightarrow> bool" where
  "may_decide p k u v \<longleftrightarrow> p_role p = Role_ADMIN \<and> u \<noteq> u_id (p_user p) \<and> k \<in> mv_projects v \<and> u \<in> mv_users v"

fun member_spec :: "principal \<Rightarrow> member_call \<Rightarrow> member_view \<Rightarrow> member_view" where
  "member_spec p (Create_Project i slug name description) v =
     (if p_role p \<in> {Role_ADMIN, Role_DEVELOPER} \<and> slug \<notin> mv_slugs v
      then v\<lparr>mv_projects := insert i (mv_projects v), mv_slugs := insert slug (mv_slugs v),
             mv_members := insert (i, u_id (p_user p)) (mv_members v)\<rparr>
      else v)"
| "member_spec p (Grant_Member k u) v =
     (if may_decide p k u v then v\<lparr>mv_members := insert (k, u) (mv_members v)\<rparr> else v)"
| "member_spec p (Revoke_Member k u) v =
     (if may_decide p k u v then v\<lparr>mv_members := mv_members v - {(k, u)}\<rparr> else v)"

lemma has_member_iff: "has_member st k u \<longleftrightarrow> (k, u) \<in> mv_members (member_view st)"
  by (auto simp: has_member_def member_view_def)

lemma insert_member_view:
  "member_view (insert_member now k u g st) = (member_view st)\<lparr>mv_members := insert (k, u) (mv_members (member_view st))\<rparr>"
  by (auto simp: insert_member_def has_member_def member_view_def)

lemma revoked_view:
  "member_view (st\<lparr>ps_members := filter (\<lambda>m. \<not> (pm_project_id m = k \<and> pm_user_id m = u)) (ps_members st)\<rparr>) =
     (member_view st)\<lparr>mv_members := mv_members (member_view st) - {(k, u)}\<rparr>"
  by (auto simp: member_view_def)

lemma decision_gate:
  "and_then (and_then (ensure_members_admin p WriteAction) (ensure_not_self (u_id (p_user p)) u a))
     (ensure_project_and_user st k (Some u)) = Inr () \<longleftrightarrow> may_decide p k u (member_view st)"
  by (auto simp: may_decide_def ensure_members_admin_def ensure_not_self_def ensure_project_and_user_def member_view_def)

lemma gate_cases:
  fixes g h :: "unit fallible"
  shows "guarded g st (guarded h st x) = (if and_then g h = Inr () then x
    else (st, Inl (projl (and_then g h))))"
  by (cases g; cases h) auto

lemma member_handler_view:
  "member_view (member_handler p now call st) = member_spec p call (member_view st)"
proof (cases call)
  case (Create_Project i slug name description)
  show ?thesis
  proof (cases "p_role p \<in> {Role_ADMIN, Role_DEVELOPER} \<and> slug \<notin> pj_slug ` set (ps_projects st)")
    case True
    have "member_view (st\<lparr>ps_projects := ps_projects st @ [r]\<rparr>) =
        (member_view st)\<lparr>mv_projects := insert (pj_id r) (mv_projects (member_view st)),
          mv_slugs := insert (pj_slug r) (mv_slugs (member_view st))\<rparr>" for r
      by (simp add: member_view_def)
    with True Create_Project show ?thesis
      by (simp add: create_own_project_def create_project_def Let_def insert_member_view)
        (simp add: member_view_def)
  next
    case False
    have "member_handler p now call st = st"
      using False Create_Project
      by (auto simp: create_own_project_def create_project_def guarded_def raise_if_def split: sum.split)
    moreover have "member_spec p call (member_view st) = member_view st"
      using False Create_Project by (auto simp: member_view_def)
    ultimately show ?thesis by simp
  qed
next
  case (Grant_Member k u)
  then show ?thesis
    using decision_gate [of p u "''grant_access''" st k]
    by (auto simp: grant_project_member_def grant_member_def gate_cases Let_def insert_member_view split: option.split)
next
  case (Revoke_Member k u)
  then show ?thesis
    using decision_gate [of p u "''revoke_access''" st k]
    by (auto simp: revoke_project_member_def revoke_member_def gate_cases revoked_view [simplified])
qed

text \<open>Property C36. The membership handlers refine a relation between projects and people: whatever rows the store holds,
  a call changes the relation exactly as the specification says, a refused call not at all.\<close>

theorem membership_refines_relation:
  "member_view (member_handler p now call st) = member_spec p call (member_view st)"
  by (rule member_handler_view)

definition membership_db :: "project_store \<Rightarrow> db \<Rightarrow> db" where
  "membership_db st d = d\<lparr>db_memberships := map membership_row.truncate (ps_members st)\<rparr>"

lemma access_is_membership:
  assumes "load_principal (membership_db st d) m = Inr p" and "p_role p \<noteq> Role_ADMIN" and "m_launch_scope m = None"
  shows "has_project_access p k \<longleftrightarrow> (k, m_owner_user_id m) \<in> mv_members (member_view st)"
proof -
  from assms(1,3) obtain user where user: "tbl_get u_id (db_users d) (m_owner_user_id m) = Some user"
    and p: "p_role p = u_role user" "p_scope p = load_project_scope (membership_db st d) (u_id user) (u_role user)"
    by (auto simp: load_principal_def membership_db_def Let_def split: option.splits)
  have "u_id user = m_owner_user_id m" using user by (rule tbl_get_key)
  with p assms(2) show ?thesis
    by (auto simp: has_project_access_def load_project_scope_def membership_db_def member_view_def
        membership_row.truncate_def image_iff split: if_splits)
qed

fun member_run :: "(principal \<times> timestamp \<times> member_call) list \<Rightarrow> project_store \<Rightarrow> project_store" where
  "member_run [] st = st"
| "member_run ((p, now, call) # calls) st = member_run calls (member_handler p now call st)"

lemma stays_out:
  assumes "\<forall>(p, now, call) \<in> set calls. call \<noteq> Grant_Member k u \<and> (\<forall>s n e. call \<noteq> Create_Project k s n e)"
    and "(k, u) \<notin> mv_members (member_view st)"
  shows "(k, u) \<notin> mv_members (member_view (member_run calls st))"
  using assms
proof (induction calls st rule: member_run.induct)
  case (2 p now call calls st)
  have "(k, u) \<notin> mv_members (member_spec p call (member_view st))"
    using 2(2,3) by (cases call) auto
  with 2 show ?case by (simp add: member_handler_view)
qed simp

text \<open>A revocation holds until it is taken back: once an administrator has removed a member, no sequence of
  calls without a new grant gives that person access to the project, whatever machine they use.\<close>

theorem revocation_holds:
  assumes "snd (revoke_project_member st p k u) = Inr b"
    and "\<forall>(q, now, call) \<in> set calls. call \<noteq> Grant_Member k u \<and> (\<forall>s n e. call \<noteq> Create_Project k s n e)"
    and "load_principal (membership_db (member_run calls (fst (revoke_project_member st p k u))) d) m = Inr q"
    and "m_owner_user_id m = u" and "p_role q \<noteq> Role_ADMIN" and "m_launch_scope m = None"
  shows "\<not> has_project_access q k"
proof -
  have "may_decide p k u (member_view st)"
    using assms(1) decision_gate [of p u "''revoke_access''" st k]
    by (auto simp: revoke_project_member_def revoke_member_def gate_cases split: if_splits)
  then have "(k, u) \<notin> mv_members (member_view (fst (revoke_project_member st p k u)))"
    using member_handler_view [of p 0 "Revoke_Member k u" st] by simp
  with stays_out [OF assms(2)] access_is_membership [OF assms(3,5,6)] assms(4) show ?thesis by blast
qed

definition demo_admin :: principal where
  "demo_admin = sample_principal\<lparr>p_user := \<lparr>u_id = 1, u_role = Role_ADMIN\<rparr>, p_role := Role_ADMIN, p_scope := ALL_PROJECTS\<rparr>"

definition demo_store :: project_store where
  "demo_store = \<lparr>ps_projects = [\<lparr>pj_id = 5, pj_slug = ''game'', pj_name = ''Game'', pj_description = None, pj_archived = False\<rparr>],
     ps_members = [\<lparr>pm_user_id = 2, pm_project_id = 5, pm_granted_by_user_id = Some 1, pm_created_at = 0\<rparr>],
     ps_users = [1, 2, 3]\<rparr>"

definition demo_people :: db where
  "demo_people = empty_db\<lparr>db_users := [\<lparr>u_id = 2, u_role = Role_DEVELOPER\<rparr>]\<rparr>"

lemma revocation_holds_witness:
  "\<exists>q. load_principal (membership_db demo_store demo_people) (sample_machine\<lparr>m_owner_user_id := 2\<rparr>) = Inr q
     \<and> has_project_access q 5
   \<and> (\<exists>q. load_principal (membership_db (member_run [(demo_admin, 3, Grant_Member 5 3)]
        (fst (revoke_project_member demo_store demo_admin 5 2))) demo_people) (sample_machine\<lparr>m_owner_user_id := 2\<rparr>) = Inr q
     \<and> \<not> has_project_access q 5)"
proof -
  let ?m = "sample_machine\<lparr>m_owner_user_id := 2\<rparr>" and ?calls = "[(demo_admin, 3, Grant_Member 5 3)]"
  let ?st = "member_run ?calls (fst (revoke_project_member demo_store demo_admin 5 2))"
  note people = load_principal_def membership_db_def demo_people_def empty_db_def sample_machine_def load_project_scope_def
  have removed: "snd (revoke_project_member demo_store demo_admin 5 2) = Inr True" by code_simp
  have scope: "m_launch_scope ?m = None" "m_owner_user_id ?m = 2" by (simp_all add: sample_machine_def)
  obtain q where q: "load_principal (membership_db ?st demo_people) ?m = Inr q" "p_role q \<noteq> Role_ADMIN"
    by (simp add: people)
  have "\<not> has_project_access q 5"
    by (rule revocation_holds [OF removed _ q(1) scope(2) q(2) scope(1)]) simp
  with q(1) show ?thesis by (simp add: people demo_store_def has_project_access_def membership_row.truncate_def)
qed

subsection \<open>Reading the log with filters\<close>

text \<open>\<open>stamp\<close> is the \<open>server_timestamp\<close> the database gave the row of a \<open>seq\<close>.\<close>

record event_query =
  eq_project_id :: "uuid option"
  eq_task_id :: "uuid option"
  eq_since :: "timestamp option"
  eq_until :: "timestamp option"
  eq_event_type :: "event_type option"
  eq_limit :: nat
  eq_offset :: nat

definition event_selected :: "principal \<Rightarrow> (nat \<Rightarrow> timestamp) \<Rightarrow> event_query \<Rightarrow> nat \<times> event_row \<Rightarrow> bool" where
  "event_selected p stamp q row \<longleftrightarrow>
     (case row of (seq, e) \<Rightarrow>
       (case eq_project_id q of
          Some k \<Rightarrow> e_project_id e = k
        | None \<Rightarrow> (case project_visibility_clause p False of None \<Rightarrow> True | Some c \<Rightarrow> c (Some (e_project_id e))))
       \<and> (case eq_task_id q of None \<Rightarrow> True | Some t \<Rightarrow> e_task_id e = Some t)
       \<and> (case eq_since q of None \<Rightarrow> True | Some a \<Rightarrow> a \<le> stamp seq)
       \<and> (case eq_until q of None \<Rightarrow> True | Some b \<Rightarrow> stamp seq < b)
       \<and> (case eq_event_type q of None \<Rightarrow> True | Some ty \<Rightarrow> e_type e = ty))"

definition list_events ::
  "db \<Rightarrow> (nat \<Rightarrow> timestamp) \<Rightarrow> principal \<Rightarrow> event_query \<Rightarrow> (nat \<times> event_row) list fallible" where
  "list_events d stamp p q =
     and_then (case eq_project_id q of None \<Rightarrow> Inr () | Some k \<Rightarrow> ensure_project_access p k ReadAction)
    (and_then (case eq_task_id q of None \<Rightarrow> Inr () | Some t \<Rightarrow> and_get (read_task d p t) (\<lambda>_. Inr ()))
      (Inr (take (eq_limit q) (drop (eq_offset q)
        (sort_key (\<lambda>row. - stamp (fst row)) (rev (filter (event_selected p stamp q) (event_seqs d))))))))"

definition stream_access_still_valid :: "accounts \<Rightarrow> db \<Rightarrow> uuid \<Rightarrow> uuid \<Rightarrow> int option \<Rightarrow> bool" where
  "stream_access_still_valid acc d machine_id project_id jwt_auth_version =
     (case get_machine acc machine_id of
        None \<Rightarrow> False
      | Some m \<Rightarrow>
          if m_credential_revoked_at m \<noteq> None then False
          else (case get_user acc (m_owner_user_id m) of
                  None \<Rightarrow> False
                | Some u \<Rightarrow>
                    if \<not> is_active u \<or> (case jwt_auth_version of None \<Rightarrow> False | Some v \<Rightarrow> u_auth_version u \<noteq> v)
                    then False
                    else has_project_access
                      \<lparr>p_machine = machine_row.truncate m, p_user = user_row.truncate u, p_role = u_role u,
                       p_scope = load_project_scope d (u_id u) (u_role u), p_human_authenticated = False\<rparr>
                      project_id))"

end
