(* ===== verification/Transfers.thy ===== *)
theory Transfers
  imports Authz
begin

section \<open>File transfers (\<open>services/transfers.py\<close>, \<open>storage/provider.py\<close>)\<close>

text \<open>
  A transfer is a row with a lifecycle and an object in S3-compatible storage; the bytes never
  pass the server, which hands out presigned URLs and tracks what storage reports. Storage is
  a parameter: a record of its calls on a state of its own, each with whether it raised. Handlers get the row the router
  loaded. One request reads one clock; the object key's date is drawn by the caller.
\<close>

subsection \<open>Rows, settings and storage\<close>

datatype transfer_status = Transfer_CREATED | Transfer_UPLOADING | Transfer_READY
  | Transfer_DOWNLOADED | Transfer_EXPIRED | Transfer_DELETED

datatype transfer_category = Transfer_TEMPORARY | Transfer_BUILD | Transfer_ASSET | Transfer_RAW_RECORDING

record file_transfer = transfer_row +
  x_transfer_code :: string
  x_project_id :: "uuid option"
  x_task_id :: "uuid option"
  x_build_id :: "uuid option"
  x_category :: transfer_category
  x_filename :: string
  x_object_key :: string
  x_content_type :: string
  x_size_bytes :: int
  x_sha256 :: "string option"
  x_content_md5 :: "string option"
  x_status :: transfer_status
  x_expires_at :: "timestamp option"
  x_created_at :: timestamp
  x_uploaded_at :: "timestamp option"
  x_downloaded_at :: "timestamp option"
  x_deleted_at :: "timestamp option"

record transfer_create =
  tc_recipient_user_id :: "uuid option"
  tc_project_id :: "uuid option"
  tc_task_id :: "uuid option"
  tc_build_id :: "uuid option"
  tc_category :: transfer_category
  tc_filename :: string
  tc_content_type :: string
  tc_size_bytes :: int

record transfer_settings =
  ts_transfer_max_size_bytes :: int
  ts_transfer_project_quota_bytes :: int
  ts_presigned_url_ttl_seconds :: int

text \<open>The builds the row may refer to, by id, with their project.\<close>

record transfer_db =
  td_transfers :: "file_transfer list"
  td_builds :: "uuid \<Rightarrow> uuid option"

definition put_transfer :: "file_transfer \<Rightarrow> transfer_db \<Rightarrow> transfer_db" where
  "put_transfer x d = d\<lparr>td_transfers := tbl_put x_id x (td_transfers d)\<rparr>"

datatype head_result = Head "int option" string | Head_Missing | Head_Error

datatype parts_result = Parts "(nat \<times> string) list" | No_Such_Upload | Parts_Error

record pending_upload =
  pu_key :: string
  pu_upload_id :: string
  pu_initiated :: timestamp

record 's storage =
  so_presign_put :: "string \<Rightarrow> string \<Rightarrow> string \<Rightarrow> string"
  so_presign_upload_part :: "string \<Rightarrow> string \<Rightarrow> nat \<Rightarrow> string"
  so_presign_get :: "string \<Rightarrow> string"
  so_create_multipart_upload :: "string \<Rightarrow> string \<Rightarrow> 's \<Rightarrow> 's \<times> string"
  so_complete_multipart_upload :: "string \<Rightarrow> string \<Rightarrow> (nat \<times> string) list \<Rightarrow> 's \<Rightarrow> 's \<times> bool"
  so_list_parts :: "string \<Rightarrow> string \<Rightarrow> 's \<Rightarrow> parts_result"
  so_head_object :: "string \<Rightarrow> 's \<Rightarrow> head_result"
  so_list_multipart_uploads :: "'s \<Rightarrow> pending_upload list option"
  so_abort_multipart_upload :: "string \<Rightarrow> string \<Rightarrow> 's \<Rightarrow> 's \<times> bool"
  so_delete_object :: "string \<Rightarrow> 's \<Rightarrow> 's \<times> bool"

subsection \<open>Constants and keys\<close>

definition MULTIPART_THRESHOLD_BYTES :: int where
  "MULTIPART_THRESHOLD_BYTES = 128 * 1024 * 1024"

definition PART_SIZE_BYTES :: int where
  "PART_SIZE_BYTES = 64 * 1024 * 1024"

fun retention_days :: "transfer_category \<Rightarrow> int option" where
  "retention_days Transfer_TEMPORARY = Some 7"
| "retention_days Transfer_BUILD = Some 30"
| "retention_days _ = None"

definition safe_char :: "char \<Rightarrow> bool" where
  "safe_char c \<longleftrightarrow> (let n = of_char c :: nat in (65 \<le> n \<and> n \<le> 90) \<or> (97 \<le> n \<and> n \<le> 122)
     \<or> (48 \<le> n \<and> n \<le> 57) \<or> n = 46 \<or> n = 95 \<or> n = 45)"

text \<open>\<open>_UNSAFE_CHARS.sub("_", s)\<close>: each maximal run of unsafe characters becomes one underscore.\<close>

function sub_unsafe :: "string \<Rightarrow> string" where
  "sub_unsafe [] = []"
| "sub_unsafe (c # cs) =
     (if safe_char c then c # sub_unsafe cs
      else CHR ''_'' # sub_unsafe (dropWhile (\<lambda>c. \<not> safe_char c) cs))"
  by pat_completeness auto

termination
  by (relation "measure length") (auto simp: less_Suc_eq_le length_dropWhile_le)

definition safe_object_key :: "string \<Rightarrow> string \<Rightarrow> string \<Rightarrow> string \<Rightarrow> string" where
  "safe_object_key project_slug year_month transfer_id filename =
     ''studio/'' @ project_slug @ ''/'' @ year_month @ ''/'' @ transfer_id @ ''/'' @ take 200 (sub_unsafe filename)"

subsection \<open>Limits and creation\<close>

definition compute_consumption :: "transfer_db \<Rightarrow> uuid option \<Rightarrow> int" where
  "compute_consumption d project_id =
     sum_list (map x_size_bytes (filter (\<lambda>x. x_status x \<noteq> Transfer_DELETED \<and> x_project_id x = project_id)
       (td_transfers d)))"

definition opt_project :: "uuid option \<Rightarrow> jval" where
  "opt_project p = (case p of None \<Rightarrow> JNull | Some k \<Rightarrow> JUuid k)"

definition enforce_transfer_limits ::
  "transfer_db \<Rightarrow> transfer_settings \<Rightarrow> uuid option \<Rightarrow> int \<Rightarrow> unit fallible" where
  "enforce_transfer_limits d st project_id size_bytes =
     and_then (raise_if (ts_transfer_max_size_bytes st < size_bytes)
        (HTTPException 413 (JObj [(''error_code'', JText ''transfer_too_large''), (''size_bytes'', JInt size_bytes),
           (''max_size_bytes'', JInt (ts_transfer_max_size_bytes st))])))
       (let consumed = compute_consumption d project_id
        in raise_if (ts_transfer_project_quota_bytes st < consumed + size_bytes)
          (HTTPException 507 (JObj [(''error_code'', JText ''quota_exceeded''), (''project_id'', opt_project project_id),
             (''consumed_bytes'', JInt consumed), (''requested_bytes'', JInt size_bytes),
             (''quota_bytes'', JInt (ts_transfer_project_quota_bytes st))])))"

definition ensure_transfer_scope :: "principal \<Rightarrow> uuid option \<Rightarrow> project_action \<Rightarrow> unit fallible" where
  "ensure_transfer_scope p project_id action =
     (case project_id of None \<Rightarrow> ensure_shared_access p action | Some k \<Rightarrow> ensure_project_access p k action)"

definition authorize_create :: "principal \<Rightarrow> uuid option \<Rightarrow> unit fallible" where
  "authorize_create p project_id =
     and_then (ensure_transfer_scope p project_id WriteAction) (ensure_can_write p ''transfer'')"

definition transfer_error :: "nat \<Rightarrow> string \<Rightarrow> http_error" where
  "transfer_error code error_code = HTTPException code (JObj [(''error_code'', JText error_code)])"

definition check_build :: "transfer_db \<Rightarrow> transfer_create \<Rightarrow> unit fallible" where
  "check_build d tc =
     (case tc_build_id tc of
        None \<Rightarrow> Inr ()
      | Some b \<Rightarrow>
          (case td_builds d b of
             None \<Rightarrow> Inl (HTTPException 404 (JObj [(''error_code'', JText ''build_not_found''),
                       (''message'', JText ''build not found'')]))
           | Some k \<Rightarrow>
               raise_if (tc_project_id tc \<noteq> None \<and> tc_project_id tc \<noteq> Some k)
                 (HTTPException 409 (JObj [(''error_code'', JText ''build_project_mismatch''),
                    (''message'', JText ''build belongs to another project'')]))))"

definition new_transfer ::
  "principal \<Rightarrow> timestamp \<Rightarrow> uuid \<Rightarrow> string \<Rightarrow> string \<Rightarrow> transfer_create \<Rightarrow> file_transfer" where
  "new_transfer p now i code key tc =
     \<lparr>x_id = i, x_sender_user_id = u_id (p_user p), x_recipient_user_id = tc_recipient_user_id tc,
      x_transfer_code = code, x_project_id = tc_project_id tc, x_task_id = tc_task_id tc,
      x_build_id = tc_build_id tc, x_category = tc_category tc, x_filename = tc_filename tc,
      x_object_key = key, x_content_type = tc_content_type tc, x_size_bytes = tc_size_bytes tc,
      x_sha256 = None, x_content_md5 = None, x_status = Transfer_CREATED,
      x_expires_at = (case retention_days (tc_category tc) of None \<Rightarrow> None
                      | Some n \<Rightarrow> Some (now + seconds (86400 * n))),
      x_created_at = now, x_uploaded_at = None, x_downloaded_at = None, x_deleted_at = None\<rparr>"

definition create_transfer ::
  "transfer_db \<Rightarrow> transfer_settings \<Rightarrow> principal \<Rightarrow> timestamp \<Rightarrow> uuid \<Rightarrow> string \<Rightarrow> string \<Rightarrow> transfer_create
     \<Rightarrow> (transfer_db, file_transfer) outcome" where
  "create_transfer d st p now i code key tc =
     guarded (and_then (authorize_create p (tc_project_id tc))
       (and_then (enforce_transfer_limits d st (tc_project_id tc) (tc_size_bytes tc)) (check_build d tc))) d
       (let x = new_transfer p now i code key tc in (d\<lparr>td_transfers := td_transfers d @ [x]\<rparr>, Inr x))"

definition get_transfer :: "transfer_db \<Rightarrow> principal \<Rightarrow> uuid \<Rightarrow> file_transfer fallible" where
  "get_transfer d p transfer_id =
     and_get (found (HTTPException 404 (JText ''transfer not found'')) (tbl_get x_id (td_transfers d) transfer_id))
       (\<lambda>x. and_then (ensure_transfer_scope p (x_project_id x) ReadAction)
          (and_then (ensure_transfer_access p (transfer_row.truncate x) ''read'') (Inr x)))"

definition list_transfers :: "transfer_db \<Rightarrow> principal \<Rightarrow> uuid option \<Rightarrow> file_transfer list fallible" where
  "list_transfers d p project_id =
     and_then (case project_id of None \<Rightarrow> Inr () | Some k \<Rightarrow> ensure_project_access p k ReadAction)
       (Inr (where_clause (map_option (\<lambda>c x. c (transfer_row.truncate x)) (transfer_visibility_clause p))
         (case project_id of
            Some k \<Rightarrow> filter (\<lambda>x. x_project_id x = Some k) (td_transfers d)
          | None \<Rightarrow> where_clause (map_option (\<lambda>c x. c (x_project_id x)) (project_visibility_clause p True))
              (td_transfers d))))"

subsection \<open>Base64 and MD5 tags\<close>

text \<open>
  \<open>base64.b64decode\<close> as CPython decodes without \<open>validate\<close>: characters outside the alphabet are
  skipped, the padding that completes a group ends the decoding, and an incomplete group at the
  end is \<open>binascii.Error\<close>. The state is the place in the group, the bits left over and the pads seen.
\<close>

definition b64_value :: "char \<Rightarrow> nat option" where
  "b64_value c = (let n = of_char c :: nat in
     if 65 \<le> n \<and> n \<le> 90 then Some (n - 65)
     else if 97 \<le> n \<and> n \<le> 122 then Some (n - 71)
     else if 48 \<le> n \<and> n \<le> 57 then Some (n + 4)
     else if n = 43 then Some 62 else if n = 47 then Some 63 else None)"

fun a2b_base64 :: "string \<Rightarrow> nat \<Rightarrow> nat \<Rightarrow> nat \<Rightarrow> nat list option" where
  "a2b_base64 [] quad left pads = (if quad = 0 then Some [] else None)"
| "a2b_base64 (c # cs) quad left pads =
     (if c = CHR ''='' then
        (if 2 \<le> quad then (if 4 \<le> quad + (pads + 1) then Some [] else a2b_base64 cs quad left (pads + 1))
         else a2b_base64 cs quad left pads)
      else case b64_value c of
        None \<Rightarrow> a2b_base64 cs quad left pads
      | Some v \<Rightarrow>
          (if quad = 0 then a2b_base64 cs 1 v 0
           else if quad = 1 then map_option ((#) (left * 4 + v div 16)) (a2b_base64 cs 2 (v mod 16) 0)
           else if quad = 2 then map_option ((#) (left * 16 + v div 4)) (a2b_base64 cs 3 (v mod 4) 0)
           else map_option ((#) (left * 64 + v)) (a2b_base64 cs 0 0 0)))"

definition b64decode :: "string \<Rightarrow> nat list option" where
  "b64decode s = a2b_base64 s 0 0 0"

definition hex_digit :: "nat \<Rightarrow> char" where
  "hex_digit n = (if n < 10 then char_of (48 + n) else char_of (87 + n))"

definition hex_text :: "nat list \<Rightarrow> string" where
  "hex_text bytes = concat (map (\<lambda>b. [hex_digit (b div 16), hex_digit (b mod 16)]) bytes)"

definition strip_quotes :: "string \<Rightarrow> string" where
  "strip_quotes s = rev (dropWhile (\<lambda>c. c = CHR 0x22) (rev (dropWhile (\<lambda>c. c = CHR 0x22) s)))"

subsection \<open>Uploads\<close>

definition part_count :: "int \<Rightarrow> int" where
  "part_count n = (n + PART_SIZE_BYTES - 1) div PART_SIZE_BYTES"

definition part_numbers :: "int \<Rightarrow> nat list" where
  "part_numbers n = [1..<Suc (nat (part_count n))]"

datatype upload_response =
    Single_Upload string
  | Multipart_Upload string "(nat \<times> string) list" int timestamp

text \<open>A raise of storage that no handler catches is a 500.\<close>

definition storage_failure :: http_error where
  "storage_failure = HTTPException 500 (JText ''ClientError'')"

definition may_upload :: "principal \<Rightarrow> file_transfer \<Rightarrow> unit fallible" where
  "may_upload p x =
     and_then (ensure_transfer_scope p (x_project_id x) WriteAction)
       (ensure_transfer_access p (transfer_row.truncate x) ''write'')"

definition initiate_upload ::
  "'s storage \<Rightarrow> transfer_settings \<Rightarrow> transfer_db \<Rightarrow> 's \<Rightarrow> principal \<Rightarrow> timestamp \<Rightarrow> file_transfer \<Rightarrow> string option
     \<Rightarrow> (transfer_db \<times> 's, upload_response) outcome" where
  "initiate_upload so st d s p now x content_md5 =
     guarded (and_then (may_upload p x)
        (raise_if (x_status x = Transfer_READY) (transfer_error 409 ''transfer_already_ready''))) (d, s)
       (if x_size_bytes x \<le> MULTIPART_THRESHOLD_BYTES
        then (case content_md5 of
                None \<Rightarrow> ((d, s), Inl (transfer_error 422 ''missing_content_md5''))
              | Some md5 \<Rightarrow>
                  if md5 = [] then ((d, s), Inl (transfer_error 422 ''missing_content_md5''))
                  else ((put_transfer (x\<lparr>x_content_md5 := Some md5\<rparr>) d, s),
                        Inr (Single_Upload (so_presign_put so (x_object_key x) (x_content_type x) md5))))
        else (case so_create_multipart_upload so (x_object_key x) (x_content_type x) s of
                (s', upload_id) \<Rightarrow>
                  ((d, s'), Inr (Multipart_Upload upload_id
                     (map (\<lambda>n. (n, so_presign_upload_part so (x_object_key x) upload_id n)) (part_numbers (x_size_bytes x)))
                     PART_SIZE_BYTES (now + seconds (ts_presigned_url_ttl_seconds st))))))"

record parts_refresh =
  pr_part_urls :: "(nat \<times> string) list"
  pr_uploaded_parts :: "(nat \<times> string) list"
  pr_expires_at :: timestamp

definition refresh_upload_parts ::
  "'s storage \<Rightarrow> transfer_settings \<Rightarrow> 's \<Rightarrow> principal \<Rightarrow> timestamp \<Rightarrow> file_transfer \<Rightarrow> string \<Rightarrow> int option
     \<Rightarrow> int list option \<Rightarrow> parts_refresh fallible" where
  "refresh_upload_parts so st s p now x upload_id part_size requested_parts =
     and_then (may_upload p x)
    (and_then (raise_if (x_status x = Transfer_READY) (transfer_error 409 ''transfer_already_ready''))
    (and_then (case part_size of None \<Rightarrow> Inr ()
        | Some n \<Rightarrow> raise_if (n \<noteq> PART_SIZE_BYTES)
            (HTTPException 409 (JObj [(''error_code'', JText ''part_size_mismatch''), (''expected'', JInt PART_SIZE_BYTES),
               (''actual'', JInt n)])))
       (case so_list_parts so (x_object_key x) upload_id s of
          No_Such_Upload \<Rightarrow> Inl (transfer_error 409 ''unknown_upload_id'')
        | Parts_Error \<Rightarrow> Inl storage_failure
        | Parts uploaded \<Rightarrow>
            (let total = part_count (x_size_bytes x);
                 requested = (case requested_parts of Some ns \<Rightarrow> ns | None \<Rightarrow> map int (part_numbers (x_size_bytes x)))
             in case find (\<lambda>n. n < 1 \<or> total < n) requested of
                  Some n \<Rightarrow> Inl (HTTPException 422 (JObj [(''error_code'', JText ''invalid_part_number''),
                              (''part_number'', JInt n), (''part_count'', JInt total)]))
                | None \<Rightarrow>
                    Inr \<lparr>pr_part_urls = map (\<lambda>n. (n, so_presign_upload_part so (x_object_key x) upload_id n))
                           (rev (remdups (rev (filter (\<lambda>n. n \<notin> fst ` set uploaded) (map nat requested))))),
                         pr_uploaded_parts = uploaded,
                         pr_expires_at = now + seconds (ts_presigned_url_ttl_seconds st)\<rparr>))))"

text \<open>\<open>b64decode\<close> of a text that is not ASCII is a plain \<open>ValueError\<close>, which the handler does not catch.\<close>

definition is_ascii :: "string \<Rightarrow> bool" where
  "is_ascii s \<longleftrightarrow> list_all (\<lambda>c. of_char c < (128 :: nat)) s"

text \<open>Is the tag storage reports the MD5 the upload was presigned with?\<close>

definition tag_matches :: "string \<Rightarrow> string \<Rightarrow> bool" where
  "tag_matches content_md5 etag \<longleftrightarrow>
     (case b64decode content_md5 of None \<Rightarrow> [] | Some bytes \<Rightarrow> hex_text bytes) = strip_quotes etag"

definition size_mismatch :: "int \<Rightarrow> int \<Rightarrow> http_error" where
  "size_mismatch expected actual =
     HTTPException 422 (JObj [(''error_code'', JText ''size_mismatch''), (''expected'', JInt expected), (''actual'', JInt actual)])"

definition check_object :: "'s storage \<Rightarrow> 's \<Rightarrow> file_transfer \<Rightarrow> bool \<Rightarrow> unit fallible" where
  "check_object so s x multipart =
     (case so_head_object so (x_object_key x) s of
        Head_Missing \<Rightarrow> Inl (transfer_error 422 ''object_not_found'')
      | Head_Error \<Rightarrow> Inl storage_failure
      | Head actual etag \<Rightarrow>
          and_then (case actual of None \<Rightarrow> Inr ()
             | Some n \<Rightarrow> raise_if (n \<noteq> x_size_bytes x) (size_mismatch (x_size_bytes x) n))
            (case x_content_md5 x of
               None \<Rightarrow> Inr ()
             | Some md5 \<Rightarrow>
                 and_then (raise_if (\<not> multipart \<and> \<not> is_ascii md5) (HTTPException 500 (JText ''ValueError'')))
                   (raise_if (\<not> multipart \<and> md5 \<noteq> [] \<and> \<not> tag_matches md5 etag)
                     (transfer_error 422 ''content_md5_mismatch''))))"

definition completed_transfer :: "timestamp \<Rightarrow> string \<Rightarrow> file_transfer \<Rightarrow> file_transfer" where
  "completed_transfer now sha256 x = x\<lparr>x_sha256 := Some sha256, x_status := Transfer_READY, x_uploaded_at := Some now\<rparr>"

definition complete_upload ::
  "'s storage \<Rightarrow> transfer_db \<Rightarrow> 's \<Rightarrow> principal \<Rightarrow> timestamp \<Rightarrow> file_transfer \<Rightarrow> int \<Rightarrow> string \<Rightarrow> string option
     \<Rightarrow> (nat \<times> string) list option \<Rightarrow> (transfer_db \<times> 's, file_transfer) outcome" where
  "complete_upload so d s p now x size_bytes sha256 upload_id parts =
     guarded (and_then (may_upload p x)
        (raise_if (size_bytes \<noteq> x_size_bytes x) (size_mismatch (x_size_bytes x) size_bytes))) (d, s)
       (let ps = (case parts of None \<Rightarrow> [] | Some ps \<Rightarrow> ps);
            finish = (\<lambda>s. on_ok (check_object so s x (ps \<noteq> [])) (d, s)
              (\<lambda>_. let x' = completed_transfer now sha256 x in ((put_transfer x' d, s), Inr x')))
        in if ps = [] then finish s
           else (case upload_id of
                   None \<Rightarrow> ((d, s), Inl (transfer_error 422 ''missing_upload_id''))
                 | Some u \<Rightarrow>
                     if u = [] then ((d, s), Inl (transfer_error 422 ''missing_upload_id''))
                     else (case so_complete_multipart_upload so (x_object_key x) u ps s of
                             (s', False) \<Rightarrow> ((d, s'), Inl storage_failure)
                           | (s', True) \<Rightarrow> finish s')))"

definition get_download_url :: "'s storage \<Rightarrow> transfer_settings \<Rightarrow> timestamp \<Rightarrow> file_transfer \<Rightarrow> string \<times> timestamp" where
  "get_download_url so st now x =
     (so_presign_get so (x_object_key x), now + seconds (ts_presigned_url_ttl_seconds st))"

definition mark_downloaded :: "transfer_db \<Rightarrow> timestamp \<Rightarrow> file_transfer \<Rightarrow> transfer_db \<times> file_transfer" where
  "mark_downloaded d now x =
     (let x' = x\<lparr>x_downloaded_at := Some now, x_status := Transfer_DOWNLOADED\<rparr> in (put_transfer x' d, x'))"

subsection \<open>Removal\<close>

fun abort_all :: "'s storage \<Rightarrow> pending_upload list \<Rightarrow> 's \<Rightarrow> 's \<times> bool" where
  "abort_all so [] s = (s, True)"
| "abort_all so (u # us) s =
     (case so_abort_multipart_upload so (pu_key u) (pu_upload_id u) s of
        (s', False) \<Rightarrow> (s', False) | (s', True) \<Rightarrow> abort_all so us s')"

text \<open>\<open>list_multipart_uploads(prefix=key)\<close>, then the uploads of exactly this key.\<close>

definition abort_dangling_multipart_uploads :: "'s storage \<Rightarrow> string \<Rightarrow> 's \<Rightarrow> 's \<times> bool" where
  "abort_dangling_multipart_uploads so key s =
     (case so_list_multipart_uploads so s of
        None \<Rightarrow> (s, False)
      | Some us \<Rightarrow> abort_all so (filter (\<lambda>u. pu_key u = key) us) s)"

definition storage_unavailable :: http_error where
  "storage_unavailable = HTTPException 503 (JObj [(''error_code'', JText ''storage_unavailable''),
     (''resource'', JText ''transfer''), (''action'', JText ''delete'')])"

definition deleted_transfer :: "timestamp \<Rightarrow> file_transfer \<Rightarrow> file_transfer" where
  "deleted_transfer now x = x\<lparr>x_status := Transfer_DELETED, x_deleted_at := Some now\<rparr>"

definition do_delete ::
  "'s storage \<Rightarrow> transfer_db \<Rightarrow> 's \<Rightarrow> timestamp \<Rightarrow> file_transfer \<Rightarrow> (transfer_db \<times> 's, unit) outcome" where
  "do_delete so d s now x =
     (if x_status x = Transfer_DELETED then ((d, s), Inr ())
      else (case abort_dangling_multipart_uploads so (x_object_key x) s of
              (s1, False) \<Rightarrow> ((d, s1), Inl storage_unavailable)
            | (s1, True) \<Rightarrow>
                (case so_delete_object so (x_object_key x) s1 of
                   (s2, False) \<Rightarrow> ((d, s2), Inl storage_unavailable)
                 | (s2, True) \<Rightarrow> ((put_transfer (deleted_transfer now x) d, s2), Inr ()))))"

definition delete_transfer ::
  "'s storage \<Rightarrow> transfer_db \<Rightarrow> 's \<Rightarrow> principal \<Rightarrow> timestamp \<Rightarrow> file_transfer \<Rightarrow> (transfer_db \<times> 's, unit) outcome" where
  "delete_transfer so d s p now x = guarded (may_upload p x) (d, s) (do_delete so d s now x)"

text \<open>\<open>None\<close>: a call of storage raised.\<close>

definition abort_stale_multipart_uploads ::
  "'s storage \<Rightarrow> 's \<Rightarrow> timestamp \<Rightarrow> int \<Rightarrow> bool \<Rightarrow> 's \<times> pending_upload list option" where
  "abort_stale_multipart_uploads so s now older_than_days dry_run =
     (case so_list_multipart_uploads so s of
        None \<Rightarrow> (s, None)
      | Some us \<Rightarrow>
          (let stale = filter (\<lambda>u. pu_initiated u < now - seconds (86400 * older_than_days)) us
           in if dry_run then (s, Some stale)
              else (case abort_all so stale s of (s', ok) \<Rightarrow> (s', if ok then Some stale else None))))"

fun delete_each ::
  "'s storage \<Rightarrow> timestamp \<Rightarrow> file_transfer list \<Rightarrow> transfer_db \<times> 's \<Rightarrow> (transfer_db \<times> 's, unit) outcome" where
  "delete_each so now [] ds = (ds, Inr ())"
| "delete_each so now (x # xs) ds =
     (case do_delete so (fst ds) (snd ds) now x of
        (ds', Inl e) \<Rightarrow> (ds', Inl e)
      | (ds', Inr _) \<Rightarrow> delete_each so now xs ds')"

definition transfer_expired :: "timestamp \<Rightarrow> file_transfer \<Rightarrow> bool" where
  "transfer_expired now x \<longleftrightarrow>
     (case x_expires_at x of None \<Rightarrow> False | Some t \<Rightarrow> t \<le> now) \<and> x_status x \<noteq> Transfer_DELETED"

definition expire_transfers ::
  "'s storage \<Rightarrow> transfer_db \<Rightarrow> 's \<Rightarrow> timestamp \<Rightarrow> (transfer_db \<times> 's, file_transfer list) outcome" where
  "expire_transfers so d s now =
     (let expired = filter (transfer_expired now) (td_transfers d)
      in case delete_each so now expired (d, s) of
           (ds, Inl e) \<Rightarrow> (ds, Inl e)
         | (ds, Inr _) \<Rightarrow> (ds, Inr expired))"

subsection \<open>The parts of a file (\<open>studio_client/transfers.py\<close>)\<close>

text \<open>What the client sends as part \<open>n\<close>: \<open>seek((n - 1) * part_size)\<close>, then \<open>read(part_size)\<close>.\<close>

definition part_bytes :: "'a list \<Rightarrow> nat \<Rightarrow> nat \<Rightarrow> 'a list" where
  "part_bytes file part_size n = take part_size (drop ((n - 1) * part_size) file)"

end
