(* ===== verification/Transfer_Laws.thy ===== *)
theory Transfer_Laws
  imports Transfers
begin

section \<open>What transfers guarantee\<close>

text \<open>
  The quota holds along every history in which sizes are not negative and no deleted transfer is
  completed - and fails without either condition, neither of which the code enforces. Retention
  removes exactly what is due, a resumed upload is asked for exactly the parts storage lacks,
  and a file name cannot leave its directory in storage.
\<close>

subsection \<open>Keys\<close>

lemma sub_unsafe_safe: "c \<in> set (sub_unsafe s) \<Longrightarrow> safe_char c"
  by (induction s rule: sub_unsafe.induct) (auto simp: safe_char_def split: if_splits)

text \<open>Whatever a client calls its file, the last component of the storage key holds safe characters only
  - no separator, so the object stays in the directory of its transfer - and is at most 200 long.\<close>

theorem object_key_confined:
  "\<exists>name. safe_object_key slug ym i filename = ''studio/'' @ slug @ ''/'' @ ym @ ''/'' @ i @ ''/'' @ name
     \<and> (\<forall>c \<in> set name. safe_char c) \<and> CHR ''/'' \<notin> set name \<and> length name \<le> 200"
proof -
  have "safe_char c" if "c \<in> set (take 200 (sub_unsafe filename))" for c
    using that sub_unsafe_safe by (meson in_set_takeD)
  moreover have "\<not> safe_char CHR ''/''" by (simp add: safe_char_def)
  ultimately show ?thesis by (auto simp: safe_object_key_def)
qed

subsection \<open>Consumption\<close>

definition counted :: "uuid option \<Rightarrow> file_transfer \<Rightarrow> int" where
  "counted k x = (if x_status x \<noteq> Transfer_DELETED \<and> x_project_id x = k then x_size_bytes x else 0)"

lemma compute_consumption_sum: "compute_consumption d k = sum_list (map (counted k) (td_transfers d))"
proof -
  have "sum_list (map x_size_bytes (filter (\<lambda>x. x_status x \<noteq> Transfer_DELETED \<and> x_project_id x = k) xs))
      = sum_list (map (counted k) xs)" for xs
    by (induction xs) (simp_all add: counted_def)
  then show ?thesis by (simp add: compute_consumption_def)
qed

lemma sum_put:
  fixes f :: "'r \<Rightarrow> int"
  shows "tbl_get key rs (key x) = Some y \<Longrightarrow> sum_list (map f (tbl_put key x rs)) = sum_list (map f rs) - f y + f x"
  by (induction rs) (auto split: if_splits)

lemma consumption_put:
  assumes "tbl_get x_id (td_transfers d) (x_id x) = Some y"
  shows "compute_consumption (put_transfer x d) k = compute_consumption d k - counted k y + counted k x"
  using sum_put [of x_id "td_transfers d" x y "counted k"] assms
  by (simp add: compute_consumption_sum put_transfer_def)

definition loaded :: "transfer_db \<Rightarrow> file_transfer \<Rightarrow> bool" where
  "loaded d x \<longleftrightarrow> tbl_get x_id (td_transfers d) (x_id x) = Some x"

subsection \<open>Histories\<close>

text \<open>
  One call on a row as it is stored. \<open>tame\<close> are the two conditions of the quota theorem.
\<close>

datatype 's transfer_call =
    Create_Transfer principal uuid string string transfer_create
  | Initiate principal file_transfer "string option"
  | Complete principal file_transfer int string "string option" "(nat \<times> string) list option"
  | Delete principal file_transfer
  | Download file_transfer
  | Expire
  | Storage_Moves 's

fun answer_call ::
  "'s storage \<Rightarrow> transfer_settings \<Rightarrow> timestamp \<Rightarrow> 's transfer_call \<Rightarrow> transfer_db \<times> 's \<Rightarrow> transfer_db \<times> 's" where
  "answer_call so st now (Create_Transfer p i code key tc) (d, s) = (fst (create_transfer d st p now i code key tc), s)"
| "answer_call so st now (Initiate p x md5) (d, s) = fst (initiate_upload so st d s p now x md5)"
| "answer_call so st now (Complete p x n sha u parts) (d, s) = fst (complete_upload so d s p now x n sha u parts)"
| "answer_call so st now (Delete p x) (d, s) = fst (delete_transfer so d s p now x)"
| "answer_call so st now (Download x) (d, s) = (fst (mark_downloaded d now x), s)"
| "answer_call so st now Expire (d, s) = fst (expire_transfers so d s now)"
| "answer_call so st now (Storage_Moves s') (d, s) = (d, s')"

fun tame :: "'s transfer_call \<Rightarrow> transfer_db \<Rightarrow> bool" where
  "tame (Create_Transfer p i code key tc) d = (i \<notin> x_id ` set (td_transfers d) \<and> 0 \<le> tc_size_bytes tc)"
| "tame (Initiate p x md5) d = loaded d x"
| "tame (Complete p x n sha u parts) d = (loaded d x \<and> x_status x \<noteq> Transfer_DELETED)"
| "tame (Delete p x) d = loaded d x"
| "tame (Download x) d = (loaded d x \<and> x_status x \<noteq> Transfer_DELETED)"
| "tame Expire d = True"
| "tame (Storage_Moves s') d = True"

inductive transfer_step :: "'s storage \<Rightarrow> transfer_settings \<Rightarrow> transfer_db \<times> 's \<Rightarrow> transfer_db \<times> 's \<Rightarrow> bool" for so st where
  "tame call (fst ds) \<Longrightarrow> transfer_step so st ds (answer_call so st now call ds)"

definition quota_ok :: "transfer_settings \<Rightarrow> transfer_db \<Rightarrow> bool" where
  "quota_ok st d \<longleftrightarrow> tbl_wf x_id (td_transfers d) \<and> (\<forall>x \<in> set (td_transfers d). 0 \<le> x_size_bytes x)
     \<and> (\<forall>k. compute_consumption d k \<le> max 0 (ts_transfer_project_quota_bytes st))"

lemma put_transfer_ok:
  assumes "quota_ok st d" and "loaded d y" and "x_id x = x_id y" and "x_size_bytes x = x_size_bytes y"
    and "x_project_id x = x_project_id y" and "x_status y = Transfer_DELETED \<Longrightarrow> x_status x = Transfer_DELETED"
  shows "quota_ok st (put_transfer x d)"
proof -
  have y: "tbl_get x_id (td_transfers d) (x_id x) = Some y" "y \<in> set (td_transfers d)"
    using assms(2,3) by (auto simp: loaded_def dest: tbl_get_mem)
  have size: "0 \<le> x_size_bytes y" using assms(1) y(2) by (auto simp: quota_ok_def)
  have "counted k x \<le> counted k y" for k using assms(4-6) size by (auto simp: counted_def)
  then have "compute_consumption (put_transfer x d) k \<le> compute_consumption d k" for k
    using consumption_put [OF y(1), of k] by (smt (verit))
  moreover have "tbl_wf x_id (td_transfers (put_transfer x d))"
    using assms(1) by (auto simp: quota_ok_def put_transfer_def)
  moreover have "\<forall>z \<in> set (td_transfers (put_transfer x d)). 0 \<le> x_size_bytes z"
    using assms(1,4) size tbl_put_set [of x_id "td_transfers d" x] by (auto simp: quota_ok_def put_transfer_def)
  ultimately show ?thesis using assms(1) unfolding quota_ok_def by (meson order_trans)
qed

lemma create_transfer_ok:
  assumes "quota_ok st d" and "i \<notin> x_id ` set (td_transfers d)" and "0 \<le> tc_size_bytes tc"
  shows "quota_ok st (fst (create_transfer d st p now i code key tc))"
proof (cases "snd (create_transfer d st p now i code key tc)")
  case (Inl e)
  then have "fst (create_transfer d st p now i code key tc) = d"
    by (auto simp: create_transfer_def guarded_def Let_def split: sum.splits)
  with assms(1) show ?thesis by simp
next
  case (Inr x)
  then have limit: "compute_consumption d (tc_project_id tc) + tc_size_bytes tc \<le> ts_transfer_project_quota_bytes st"
    and d': "fst (create_transfer d st p now i code key tc) = d\<lparr>td_transfers := td_transfers d @ [new_transfer p now i code key tc]\<rparr>"
    using surjective_pairing [of "create_transfer d st p now i code key tc"]
    by (auto simp: create_transfer_def guarded_eq_Inr Let_def enforce_transfer_limits_def and_then_eq_Inr raise_if_eq_Inr)
  let ?x = "new_transfer p now i code key tc"
  have "compute_consumption (d\<lparr>td_transfers := td_transfers d @ [?x]\<rparr>) k = compute_consumption d k + counted k ?x" for k
    by (simp add: compute_consumption_sum)
  moreover have "counted k ?x = (if k = tc_project_id tc then tc_size_bytes tc else 0)" for k
    by (auto simp: counted_def new_transfer_def)
  ultimately have "compute_consumption (d\<lparr>td_transfers := td_transfers d @ [?x]\<rparr>) k \<le> max 0 (ts_transfer_project_quota_bytes st)" for k
    using assms(1) limit by (auto simp: quota_ok_def)
  with assms show ?thesis
    unfolding d' by (auto simp: quota_ok_def tbl_wf_def new_transfer_def)
qed

lemma initiate_rows:
  "td_transfers (fst (fst (initiate_upload so st d s p now x md5))) = td_transfers d
   \<or> (\<exists>m. fst (fst (initiate_upload so st d s p now x md5)) = put_transfer (x\<lparr>x_content_md5 := Some m\<rparr>) d)"
  by (auto simp: initiate_upload_def guarded_def split: sum.split option.split prod.split)

lemma complete_rows:
  "fst (fst (complete_upload so d s p now x n sha u parts)) = d
   \<or> fst (fst (complete_upload so d s p now x n sha u parts)) = put_transfer (completed_transfer now sha x) d"
  by (auto simp: complete_upload_def guarded_def on_ok_def Let_def split: sum.split option.split prod.split bool.split)

lemma do_delete_rows:
  "fst (fst (do_delete so d s now x)) = d \<or> fst (fst (do_delete so d s now x)) = put_transfer (deleted_transfer now x) d"
  by (auto simp: do_delete_def split: prod.split bool.split)

lemma deleted_put_ok: "quota_ok st d \<Longrightarrow> loaded d x \<Longrightarrow> quota_ok st (put_transfer (deleted_transfer now x) d)"
  by (rule put_transfer_ok) (auto simp: deleted_transfer_def)

lemma do_delete_ok: "quota_ok st d \<Longrightarrow> loaded d x \<Longrightarrow> quota_ok st (fst (fst (do_delete so d s now x)))"
  using do_delete_rows [of so d s now x] deleted_put_ok by auto

lemma loaded_put: "loaded d y \<Longrightarrow> x_id y \<noteq> x_id x \<Longrightarrow> loaded (put_transfer x d) y"
  by (simp add: loaded_def put_transfer_def)

lemma delete_each_ok:
  assumes "quota_ok st (fst ds)" and "\<And>x. x \<in> set xs \<Longrightarrow> loaded (fst ds) x" and "distinct (map x_id xs)"
  shows "quota_ok st (fst (fst (delete_each so now xs ds)))"
  using assms
proof (induction so now xs ds rule: delete_each.induct)
  case (2 so now x xs ds)
  obtain ds' r where one: "do_delete so (fst ds) (snd ds) now x = (ds', r)" by fastforce
  have rows: "fst ds' = fst ds \<or> fst ds' = put_transfer (deleted_transfer now x) (fst ds)"
    using do_delete_rows [of so "fst ds" "snd ds" now x] one by simp
  have ok: "quota_ok st (fst ds')" using do_delete_ok [OF 2(2), of x so "snd ds" now] 2(3) one by simp
  have "loaded (fst ds') y" if "y \<in> set xs" for y
    using rows 2(3) [of y] 2(4) that loaded_put [of "fst ds" y "deleted_transfer now x"]
    by (auto simp: deleted_transfer_def image_iff)
  with 2 ok one show ?case by (auto split: sum.split)
qed simp

lemma expire_ok: "quota_ok st d \<Longrightarrow> quota_ok st (fst (fst (expire_transfers so d s now)))"
proof -
  assume ok: "quota_ok st d"
  have "distinct (map x_id (filter (transfer_expired now) (td_transfers d)))"
    using ok by (simp add: quota_ok_def tbl_wf_def distinct_map_filter)
  moreover have "loaded d x" if "x \<in> set (filter (transfer_expired now) (td_transfers d))" for x
    using that ok tbl_get_of_mem [of x_id "td_transfers d" x] by (auto simp: loaded_def quota_ok_def)
  ultimately have "quota_ok st (fst (fst (delete_each so now (filter (transfer_expired now) (td_transfers d)) (d, s))))"
    using ok by (intro delete_each_ok) simp_all
  then show ?thesis by (auto simp: expire_transfers_def Let_def split: prod.split sum.split)
qed

lemma call_keeps_quota:
  assumes "quota_ok st d" and "tame call d"
  shows "quota_ok st (fst (answer_call so st now call (d, s)))"
proof (cases call)
  case (Initiate p x md5)
  then have x: "loaded d x" using assms(2) by simp
  have "quota_ok st (put_transfer (x\<lparr>x_content_md5 := Some m\<rparr>) d)" for m
    by (rule put_transfer_ok [OF assms(1) x]) simp_all
  moreover have "quota_ok st d'" if "td_transfers d' = td_transfers d" for d'
    using assms(1) that by (simp add: quota_ok_def compute_consumption_def)
  ultimately show ?thesis using initiate_rows [of so st d s p now x md5] Initiate by auto
next
  case (Complete p x n sha u parts)
  then have x: "loaded d x" "x_status x \<noteq> Transfer_DELETED" using assms(2) by simp_all
  have "quota_ok st (put_transfer (completed_transfer now sha x) d)"
    by (rule put_transfer_ok [OF assms(1) x(1)]) (simp_all add: completed_transfer_def x(2))
  with complete_rows [of so d s p now x n sha u parts] assms(1) Complete show ?thesis by auto
next
  case (Delete p x)
  with assms do_delete_ok [OF assms(1), of x so s now] show ?thesis
    by (auto simp: delete_transfer_def guarded_def split: sum.split)
next
  case (Download x)
  with assms show ?thesis
    by (simp add: mark_downloaded_def Let_def) (rule put_transfer_ok [OF assms(1)], auto)
qed (use assms create_transfer_ok expire_ok in auto)

lemma quota_histories:
  assumes "(transfer_step so st)\<^sup>*\<^sup>* ds ds'" and "quota_ok st (fst ds)"
  shows "quota_ok st (fst ds')"
  using assms(1)
proof (induction rule: rtranclp_induct)
  case (step y z)
  then obtain now call where "tame call (fst y)" "z = answer_call so st now call y" by (auto elim: transfer_step.cases)
  with step.IH call_keeps_quota [of st "fst y" call so now "snd y"] show ?case by simp
qed (rule assms(2))


text \<open>A negative size is accepted, because nothing bounds it from below, and lowers the consumption of its
  project by its amount: quota for uploads that were never paid for.\<close>

theorem negative_size_frees_quota:
  assumes "authorize_create p (tc_project_id tc) = Inr ()" and "tc_build_id tc = None" and "tc_size_bytes tc \<le> 0"
    and "compute_consumption d (tc_project_id tc) \<le> ts_transfer_project_quota_bytes st" and "0 \<le> ts_transfer_max_size_bytes st"
  shows "\<exists>d' x. create_transfer d st p now i code key tc = (d', Inr x)
    \<and> compute_consumption d' (tc_project_id tc) = compute_consumption d (tc_project_id tc) + tc_size_bytes tc"
proof -
  have "enforce_transfer_limits d st (tc_project_id tc) (tc_size_bytes tc) = Inr ()"
    using assms(3-5) by (simp add: enforce_transfer_limits_def Let_def)
  moreover have "counted (tc_project_id tc) (new_transfer p now i code key tc) = tc_size_bytes tc"
    by (simp add: counted_def new_transfer_def)
  ultimately show ?thesis
    using assms(1,2) by (simp add: create_transfer_def check_build_def Let_def compute_consumption_sum)
qed

text \<open>Property C37. A deleted transfer comes back: its upload can be initiated and completed again, its row is \<open>ready\<close> and
  its size counts again - without any limit being checked.\<close>

theorem deleted_transfer_revives:
  assumes "loaded d x" and "x_status x = Transfer_DELETED" and "may_upload p x = Inr ()"
    and "x_size_bytes x \<le> MULTIPART_THRESHOLD_BYTES" and "md5 \<noteq> []"
    and "check_object so s' (x\<lparr>x_content_md5 := Some md5\<rparr>) False = Inr ()"
  shows "\<exists>url d1 d2 y. initiate_upload so st d s p now x (Some md5) = ((d1, s), Inr (Single_Upload url))
    \<and> complete_upload so d1 s' p now' (x\<lparr>x_content_md5 := Some md5\<rparr>) (x_size_bytes x) sha None None = ((d2, s'), Inr y)
    \<and> x_status y = Transfer_READY \<and> loaded d2 y
    \<and> compute_consumption d2 (x_project_id x) = compute_consumption d (x_project_id x) + x_size_bytes x"
proof -
  let ?x = "x\<lparr>x_content_md5 := Some md5\<rparr>" and ?d1 = "put_transfer (x\<lparr>x_content_md5 := Some md5\<rparr>) d"
  let ?y = "completed_transfer now' sha ?x"
  have init: "initiate_upload so st d s p now x (Some md5) =
      ((?d1, s), Inr (Single_Upload (so_presign_put so (x_object_key x) (x_content_type x) md5)))"
    using assms(2-5) by (simp add: initiate_upload_def)
  have may: "may_upload p ?x = Inr ()"
    using assms(3) by (simp add: may_upload_def transfer_row.truncate_def)
  then have compl: "complete_upload so ?d1 s' p now' ?x (x_size_bytes x) sha None None = ((put_transfer ?y ?d1, s'), Inr ?y)"
    using assms(6) by (simp add: complete_upload_def Let_def)
  have "compute_consumption (put_transfer ?y ?d1) k = compute_consumption d k - counted k x + counted k ?y" for k
    using assms(1) consumption_put [of d ?x x k] consumption_put [of ?d1 ?y ?x k]
    by (simp add: loaded_def put_transfer_def completed_transfer_def counted_def)
  then have "compute_consumption (put_transfer ?y ?d1) (x_project_id x) = compute_consumption d (x_project_id x) + x_size_bytes x"
    using assms(2) by (simp add: counted_def completed_transfer_def)
  moreover have "loaded (put_transfer ?y ?d1) ?y" by (simp add: loaded_def put_transfer_def)
  ultimately show ?thesis using init compl by (auto simp: completed_transfer_def)
qed

subsection \<open>Parts\<close>

lemma parts_prefix:
  "concat (map (part_bytes file k) [1..<Suc n]) = take (n * k) file"
proof (induction n)
  case (Suc n)
  have "take (n * k) file @ take k (drop (n * k) file) = take (n * k + k) file" by (simp add: take_add)
  with Suc show ?case by (simp add: part_bytes_def add.commute)
qed simp

lemma part_count_covers:
  fixes n :: nat
  shows "n \<le> nat (part_count (int n)) * nat PART_SIZE_BYTES"
    and "m < nat (part_count (int n)) \<Longrightarrow> m * nat PART_SIZE_BYTES < n"
  by (simp_all add: part_count_def PART_SIZE_BYTES_def)

text \<open>The parts are the file: sending part 1 to the last one of a file of the declared size sends every byte
  once and in order, no part is empty and none exceeds the part size.\<close>

theorem parts_reassemble:
  "concat (map (part_bytes file (nat PART_SIZE_BYTES)) (part_numbers (int (length file)))) = file
   \<and> (\<forall>n \<in> set (part_numbers (int (length file))).
        part_bytes file (nat PART_SIZE_BYTES) n \<noteq> [] \<and> length (part_bytes file (nat PART_SIZE_BYTES) n) \<le> nat PART_SIZE_BYTES)"
proof
  show "concat (map (part_bytes file (nat PART_SIZE_BYTES)) (part_numbers (int (length file)))) = file"
    unfolding part_numbers_def parts_prefix using part_count_covers(1) by simp
  have "0 < nat PART_SIZE_BYTES" by (simp add: PART_SIZE_BYTES_def)
  moreover have "(n - 1) * nat PART_SIZE_BYTES < length file" if "n \<in> set (part_numbers (int (length file)))" for n
  proof (rule part_count_covers(2))
    have "1 \<le> n" "n < Suc (nat (part_count (int (length file))))" using that by (simp_all add: part_numbers_def del: upt_Suc)
    then show "n - 1 < nat (part_count (int (length file)))" by linarith
  qed
  ultimately show "\<forall>n \<in> set (part_numbers (int (length file))).
      part_bytes file (nat PART_SIZE_BYTES) n \<noteq> [] \<and> length (part_bytes file (nat PART_SIZE_BYTES) n) \<le> nat PART_SIZE_BYTES"
    by (auto simp: part_bytes_def not_le)
qed

text \<open>A refresh hands out an URL for exactly the parts of the upload that storage has not accepted yet, once
  each, and reports the accepted ones as storage does: a resumed upload never sends a part twice.\<close>

theorem refresh_names_missing_parts:
  assumes "refresh_upload_parts so st s p now x u ps None = Inr r" and "so_list_parts so (x_object_key x) u s = Parts uploaded"
  shows "set (map fst (pr_part_urls r)) = {n. 1 \<le> n \<and> int n \<le> part_count (x_size_bytes x)} - fst ` set uploaded
    \<and> distinct (map fst (pr_part_urls r)) \<and> pr_uploaded_parts r = uploaded"
proof -
  let ?missing = "rev (remdups (rev (filter (\<lambda>n. n \<notin> fst ` set uploaded) (part_numbers (x_size_bytes x)))))"
  have "map fst (pr_part_urls r) = ?missing" "pr_uploaded_parts r = uploaded"
    using assms by (auto simp: refresh_upload_parts_def Let_def comp_def split: option.splits)
  moreover have "set (part_numbers (x_size_bytes x)) = {n. 1 \<le> n \<and> int n \<le> part_count (x_size_bytes x)}"
    by (auto simp: part_numbers_def simp del: upt_Suc)
  ultimately show ?thesis by auto
qed

subsection \<open>Retention\<close>

lemma do_delete_done:
  "do_delete so d s now x = (ds, Inr u) \<Longrightarrow> x_status x \<noteq> Transfer_DELETED \<Longrightarrow> fst ds = put_transfer (deleted_transfer now x) d"
  by (auto simp: do_delete_def split: prod.splits bool.splits)

lemma delete_each_done:
  assumes "delete_each so now xs ds = (ds', Inr u)" and "distinct (map x_id xs)" and "\<forall>x \<in> set xs. x_status x \<noteq> Transfer_DELETED"
  shows "(\<forall>x \<in> set xs. loaded (fst ds') (deleted_transfer now x)) \<and>
    (\<forall>y. x_id y \<notin> x_id ` set xs \<longrightarrow> loaded (fst ds) y \<longrightarrow> loaded (fst ds') y) \<and>
    x_id ` set (td_transfers (fst ds')) = x_id ` set (td_transfers (fst ds)) \<union> x_id ` set xs"
  using assms
proof (induction so now xs ds arbitrary: u rule: delete_each.induct)
  case (2 so now x xs ds)
  obtain d1 r where one: "do_delete so (fst ds) (snd ds) now x = (d1, Inr r)"
    using 2(2) by (auto split: prod.splits sum.splits)
  have d1: "fst d1 = put_transfer (deleted_transfer now x) (fst ds)" using do_delete_done [OF one] 2(4) by simp
  have id: "x_id (deleted_transfer now x) = x_id x" by (simp add: deleted_transfer_def)
  have "loaded (fst d1) (deleted_transfer now x)" by (simp add: d1 loaded_def put_transfer_def)
  moreover have "x_id ` set (td_transfers (fst d1)) = insert (x_id x) (x_id ` set (td_transfers (fst ds)))"
    by (simp add: d1 put_transfer_def tbl_put_keys id)
  moreover have "loaded (fst d1) y" if "x_id y \<noteq> x_id x" "loaded (fst ds) y" for y
    using that by (simp add: d1 loaded_put id)
  moreover note 2(1) [OF one [symmetric] refl]
  ultimately show ?case using 2(2-4) one id by auto
qed simp

text \<open>The retention worker deletes exactly what is due: after a run that meets no storage failure every
  expired row is deleted, every other row is untouched, and a second run finds nothing to do.\<close>

theorem retention_exact:
  assumes "tbl_wf x_id (td_transfers d)" and "expire_transfers so d s now = ((d', s'), Inr xs)" and "x \<in> set (td_transfers d)"
  shows "loaded d' (if transfer_expired now x then deleted_transfer now x else x)"
proof -
  let ?due = "filter (transfer_expired now) (td_transfers d)"
  have each: "delete_each so now ?due (d, s) = ((d', s'), Inr ())"
    using assms(2) by (auto simp: expire_transfers_def Let_def split: prod.splits sum.splits)
  have dist: "distinct (map x_id ?due)" using assms(1) by (simp add: tbl_wf_def distinct_map_filter)
  have live: "\<forall>x \<in> set ?due. x_status x \<noteq> Transfer_DELETED" by (simp add: transfer_expired_def)
  note ran = delete_each_done [OF each dist live]
  show ?thesis
  proof (cases "transfer_expired now x")
    case True
    with ran assms(3) show ?thesis by simp
  next
    case False
    have "loaded d x" using assms(1,3) tbl_get_of_mem by (simp add: loaded_def)
    moreover have "x_id x \<notin> x_id ` set ?due"
      using False assms(1,3) by (auto simp: tbl_wf_def distinct_map inj_on_def)
    ultimately show ?thesis using False ran by simp
  qed
qed

subsection \<open>Concrete instances\<close>

text \<open>A storage that keeps the keys of its objects, with one object of five bytes per key and the upload id \<open>u1\<close>.\<close>

definition sample_storage :: "string list storage" where
  "sample_storage = \<lparr>so_presign_put = (\<lambda>k c m. ''put/'' @ k), so_presign_upload_part = (\<lambda>k u n. ''part/'' @ k),
     so_presign_get = (\<lambda>k. ''get/'' @ k), so_create_multipart_upload = (\<lambda>k c s. (s, ''u1'')),
     so_complete_multipart_upload = (\<lambda>k u ps s. (k # s, True)),
     so_list_parts = (\<lambda>k u s. if u = ''u1'' then Parts [(1, ''e1''), (3, ''e3'')] else No_Such_Upload),
     so_head_object = (\<lambda>k s. if k \<in> set s then Head (Some 5) [CHR 0x22, CHR ''6'', CHR ''9'', CHR 0x22] else Head_Missing),
     so_list_multipart_uploads = (\<lambda>s. Some []), so_abort_multipart_upload = (\<lambda>k u s. (s, True)),
     so_delete_object = (\<lambda>k s. (filter (\<lambda>x. x \<noteq> k) s, True))\<rparr>"

definition sample_transfer_settings :: transfer_settings where
  "sample_transfer_settings = \<lparr>ts_transfer_max_size_bytes = 1000000000, ts_transfer_project_quota_bytes = 100,
     ts_presigned_url_ttl_seconds = 900\<rparr>"

definition sample_sender :: principal where
  "sample_sender = sample_principal\<lparr>p_machine := sample_machine\<lparr>m_launch_scope := None\<rparr>\<rparr>"

definition sample_create :: "int \<Rightarrow> transfer_create" where
  "sample_create n = \<lparr>tc_recipient_user_id = None, tc_project_id = Some 5, tc_task_id = None, tc_build_id = None,
     tc_category = Transfer_BUILD, tc_filename = ''a b.zip'', tc_content_type = ''application/zip'', tc_size_bytes = n\<rparr>"

definition no_transfers :: transfer_db where
  "no_transfers = \<lparr>td_transfers = [], td_builds = (\<lambda>b. None)\<rparr>"

definition sample_key :: string where
  "sample_key = safe_object_key ''p5'' ''2026-01'' ''1'' ''a b.zip''"

definition sample_transfer :: "int \<Rightarrow> file_transfer" where
  "sample_transfer n = new_transfer sample_sender 0 1 ''TRF-1'' sample_key (sample_create n)"

definition one_transfer :: transfer_db where
  "one_transfer = no_transfers\<lparr>td_transfers := [sample_transfer 60]\<rparr>"

definition removed_transfer :: file_transfer where
  "removed_transfer = deleted_transfer 7 (sample_transfer 5)"

lemmas transfer_sample_defs = sample_storage_def sample_transfer_settings_def sample_sender_def sample_create_def
  no_transfers_def sample_key_def sample_transfer_def one_transfer_def removed_transfer_def

lemma sample_created:
  "create_transfer no_transfers sample_transfer_settings sample_sender 0 1 ''TRF-1'' sample_key (sample_create 60)
   = (one_transfer, Inr (sample_transfer 60))"
proof -
  have "and_then (authorize_create sample_sender (tc_project_id (sample_create 60)))
      (and_then (enforce_transfer_limits no_transfers sample_transfer_settings (tc_project_id (sample_create 60)) (tc_size_bytes (sample_create 60)))
        (check_build no_transfers (sample_create 60))) = Inr ()"
    by code_simp
  moreover have "td_transfers no_transfers = []" by (simp add: no_transfers_def)
  ultimately show ?thesis by (simp add: create_transfer_def Let_def one_transfer_def sample_transfer_def)
qed

lemma sample_step: "transfer_step sample_storage sample_transfer_settings (no_transfers, []) (one_transfer, [])"
proof -
  let ?call = "Create_Transfer sample_sender 1 ''TRF-1'' sample_key (sample_create 60)"
  have "tame ?call (fst (no_transfers, [] :: string list))" by (simp add: no_transfers_def sample_create_def)
  from transfer_step.intros [OF this, of sample_storage sample_transfer_settings 0] show ?thesis
    by (simp only: answer_call.simps sample_created fst_conv)
qed


lemma negative_size_frees_quota_witness:
  "\<exists>d' x. create_transfer one_transfer sample_transfer_settings sample_sender 0 2 ''TRF-2'' sample_key (sample_create (-60)) = (d', Inr x)
    \<and> compute_consumption d' (Some 5) = 0"
proof -
  have c: "compute_consumption one_transfer (Some 5) = 60" by code_simp
  have a: "authorize_create sample_sender (tc_project_id (sample_create (-60))) = Inr ()" by code_simp
  show ?thesis
    using negative_size_frees_quota [of sample_sender "sample_create (-60)" one_transfer sample_transfer_settings
        0 2 "''TRF-2''" sample_key] a c
    by (simp add: sample_create_def sample_transfer_settings_def)
qed

lemma deleted_transfer_revives_witness:
  "\<exists>y d2. x_status y = Transfer_READY \<and> loaded d2 y
    \<and> compute_consumption d2 (x_project_id removed_transfer) = compute_consumption (no_transfers\<lparr>td_transfers := [removed_transfer]\<rparr>) (x_project_id removed_transfer) + 5"
proof -
  have "loaded (no_transfers\<lparr>td_transfers := [removed_transfer]\<rparr>) removed_transfer" by (simp add: loaded_def)
  moreover have "may_upload sample_sender removed_transfer = Inr ()" by code_simp
  moreover have "check_object sample_storage [sample_key] (removed_transfer\<lparr>x_content_md5 := Some ''aQ==''\<rparr>) False = Inr ()"
    by code_simp
  moreover have "x_status removed_transfer = Transfer_DELETED" "x_size_bytes removed_transfer = 5" by code_simp+
  moreover have "(''aQ==''::string) \<noteq> []" by simp
  moreover have "x_size_bytes removed_transfer \<le> MULTIPART_THRESHOLD_BYTES" by code_simp
  ultimately show ?thesis
    using deleted_transfer_revives [of "no_transfers\<lparr>td_transfers := [removed_transfer]\<rparr>" removed_transfer sample_sender
        "''aQ==''" sample_storage "[sample_key]"]
    by metis
qed

lemma sample_refresh:
  "\<not> isl (refresh_upload_parts sample_storage sample_transfer_settings [] sample_sender 0 (sample_transfer 200000000) ''u1'' None None)"
  by code_simp

lemma refresh_names_missing_parts_witness:
  "\<exists>r. refresh_upload_parts sample_storage sample_transfer_settings [] sample_sender 0 (sample_transfer 200000000) ''u1'' None None = Inr r
    \<and> pr_uploaded_parts r = [(1, ''e1''), (3, ''e3'')]"
proof -
  obtain r where r: "refresh_upload_parts sample_storage sample_transfer_settings [] sample_sender 0 (sample_transfer 200000000) ''u1'' None None = Inr r"
    using sample_refresh by (cases "refresh_upload_parts sample_storage sample_transfer_settings [] sample_sender 0 (sample_transfer 200000000) ''u1'' None None") auto
  with refresh_names_missing_parts [OF r, of "[(1, ''e1''), (3, ''e3'')]"] show ?thesis by (simp add: sample_storage_def)
qed

lemma sample_expiry:
  "\<not> isl (snd (expire_transfers sample_storage one_transfer [sample_key] (seconds (86400 * 30))))"
  by code_simp

lemma retention_exact_witness:
  "\<exists>d' s' xs. expire_transfers sample_storage one_transfer [sample_key] (seconds (86400 * 30)) = ((d', s'), Inr xs)
    \<and> loaded d' (deleted_transfer (seconds (86400 * 30)) (sample_transfer 60))"
proof -
  let ?now = "seconds (86400 * 30)"
  obtain d' s' xs where run: "expire_transfers sample_storage one_transfer [sample_key] ?now = ((d', s'), Inr xs)"
    using sample_expiry
    by (cases "expire_transfers sample_storage one_transfer [sample_key] ?now", cases "snd (expire_transfers sample_storage one_transfer [sample_key] ?now)") auto
  have due: "transfer_expired ?now (sample_transfer 60)" by code_simp
  have "tbl_wf x_id (td_transfers one_transfer)" "sample_transfer 60 \<in> set (td_transfers one_transfer)"
    by (simp_all add: one_transfer_def tbl_wf_def)
  with retention_exact [OF _ run, of "sample_transfer 60"] due have "loaded d' (deleted_transfer ?now (sample_transfer 60))"
    by simp
  with run show ?thesis by blast
qed

end
