(* ===== verification/Coordination.thy ===== *)
theory Coordination
  imports Sessions
begin

section \<open>Coordination signals (\<open>services/coordination.py\<close>)\<close>

text \<open>
  A live session sends a short structured signal to a task of its project, or to one live session
  of that task. A signal is an event of the family \<open>coordination.*\<close>, which the generic event
  path refuses; it is read through \<open>sync\<close> only. Emission is limited per session and idempotent on
  the client's event id. Decisions are read by id: the project of a decision is a parameter.
\<close>

subsection \<open>Requests and payloads\<close>

definition COORDINATION_INTENTS :: "string list" where
  "COORDINATION_INTENTS = [''heads_up'', ''question'', ''blocked_by'', ''handoff'']"

definition COORDINATION_TEXT_MAX :: nat where "COORDINATION_TEXT_MAX = 280"

definition COORDINATION_REF_MAX :: nat where "COORDINATION_REF_MAX = 5"

definition COORDINATION_PATH_MAX :: nat where "COORDINATION_PATH_MAX = 260"

definition COORDINATION_SESSION_LIMIT :: nat where "COORDINATION_SESSION_LIMIT = 20"

definition COORDINATION_EVENT_PREFIX :: string where "COORDINATION_EVENT_PREFIX = ''coordination.''"

record coordination_refs =
  cr_task_ids :: "uuid list"
  cr_decision_ids :: "uuid list"
  cr_paths :: "string list"

record coordination_emit =
  ce_from_session_id :: uuid
  ce_intent :: string
  ce_task_id :: uuid
  ce_session_id :: "uuid option"
  ce_text :: string
  ce_refs :: coordination_refs
  ce_in_reply_to :: "event_id option"
  ce_event_id :: "event_id option"

text \<open>The field constraints Pydantic checks before the handler runs.\<close>

definition refs_schema :: "coordination_refs \<Rightarrow> bool" where
  "refs_schema r \<longleftrightarrow> length (cr_task_ids r) \<le> COORDINATION_REF_MAX
     \<and> length (cr_decision_ids r) \<le> COORDINATION_REF_MAX \<and> length (cr_paths r) \<le> COORDINATION_REF_MAX"

definition emit_schema :: "coordination_emit \<Rightarrow> bool" where
  "emit_schema b \<longleftrightarrow> ce_intent b \<in> set COORDINATION_INTENTS \<and> 1 \<le> length (ce_text b)
     \<and> length (ce_text b) \<le> COORDINATION_TEXT_MAX \<and> refs_schema (ce_refs b)"

text \<open>The text of an event id in a payload, kept symbolic as the id is.\<close>

fun event_id_value :: "event_id \<Rightarrow> jval" where
  "event_id_value (Uuid4 u) = JUuid u"
| "event_id_value (Uuid5 ns args) = JList (JText ns # args)"

fun event_id_of :: "jval \<Rightarrow> event_id option" where
  "event_id_of (JUuid u) = Some (Uuid4 u)"
| "event_id_of (JList (JText ns # args)) = Some (Uuid5 ns args)"
| "event_id_of v = None"

definition is_coordination :: "event_row \<Rightarrow> bool" where
  "is_coordination e \<longleftrightarrow> starts_with (e_type e) COORDINATION_EVENT_PREFIX"

definition sent_by :: "uuid \<Rightarrow> event_row \<Rightarrow> bool" where
  "sent_by session_id e \<longleftrightarrow> is_coordination e \<and> map_of (e_payload e) ''from_session_id'' = Some (JUuid session_id)"

definition invalid_coordination :: "string \<Rightarrow> http_error" where
  "invalid_coordination message =
     HTTPException 422 (JObj [(''error_code'', JText ''invalid_coordination''), (''message'', JText message)])"

definition session_not_found :: "string \<Rightarrow> http_error" where
  "session_not_found message =
     HTTPException 404 (JObj [(''error_code'', JText ''session_not_found''), (''message'', JText message)])"

definition task_not_found :: http_error where
  "task_not_found =
     HTTPException 404 (JObj [(''error_code'', JText ''not_found''), (''message'', JText ''task not found'')])"

subsection \<open>Emission\<close>

text \<open>What an emission answers: the event with its \<open>seq\<close>.\<close>

definition event_seq :: "db \<Rightarrow> event_id \<Rightarrow> nat option" where
  "event_seq d i = map_option fst (find (\<lambda>(seq, e). e_id e = i) (event_seqs d))"

record coordination_emitted =
  cm_event_id :: event_id
  cm_event_type :: string
  cm_seq :: "nat option"
  cm_task_id :: "uuid option"
  cm_session_id :: "jval option"

definition emitted :: "db \<Rightarrow> event_row \<Rightarrow> coordination_emitted" where
  "emitted d e =
     \<lparr>cm_event_id = e_id e, cm_event_type = e_type e, cm_seq = event_seq d (e_id e), cm_task_id = e_task_id e,
      cm_session_id = map_of (e_payload e) ''session_id''\<rparr>"

text \<open>A readable task of the emitter's project.\<close>

definition task_of_project :: "db \<Rightarrow> principal \<Rightarrow> uuid \<Rightarrow> string \<Rightarrow> uuid \<Rightarrow> task_row fallible" where
  "task_of_project d p project_id message i =
     and_get (read_task d p i) (\<lambda>t.
       case t of
         None \<Rightarrow> Inl (invalid_coordination message)
       | Some t \<Rightarrow> and_then (raise_if (t_project_id t \<noteq> project_id) (invalid_coordination message)) (Inr t))"

fun check_ref_tasks :: "db \<Rightarrow> principal \<Rightarrow> uuid \<Rightarrow> uuid list \<Rightarrow> unit fallible" where
  "check_ref_tasks d p project_id [] = Inr ()"
| "check_ref_tasks d p project_id (i # is) =
     and_get (task_of_project d p project_id ''every referenced task must exist in the same project'' i)
       (\<lambda>_. check_ref_tasks d p project_id is)"

definition check_refs :: "db \<Rightarrow> (uuid \<Rightarrow> uuid option) \<Rightarrow> principal \<Rightarrow> uuid \<Rightarrow> coordination_refs \<Rightarrow> unit fallible" where
  "check_refs d decisions p project_id r =
     and_then (raise_if (\<exists>path \<in> set (cr_paths r). COORDINATION_PATH_MAX < length path \<or> py_strip path = [])
        (invalid_coordination ''each path must be 1..260 characters''))
    (and_then (check_ref_tasks d p project_id (rev (remdups (rev (cr_task_ids r)))))
       (raise_if (\<exists>i \<in> set (cr_decision_ids r). decisions i \<noteq> Some project_id)
          (invalid_coordination ''every referenced decision must exist in the same project'')))"

definition check_target_session :: "db \<Rightarrow> task_row \<Rightarrow> uuid option \<Rightarrow> unit fallible" where
  "check_target_session d target session_id =
     (case session_id of
        None \<Rightarrow> Inr ()
      | Some i \<Rightarrow>
          (case get_session_row d i of
             None \<Rightarrow> Inl (invalid_coordination ''session_id must be a live session of the target task'')
           | Some s \<Rightarrow> raise_if (s_ended_at s \<noteq> None \<or> s_task_id s \<noteq> Some (t_id target))
               (invalid_coordination ''session_id must be a live session of the target task'')))"

definition check_reply :: "db \<Rightarrow> uuid \<Rightarrow> event_id option \<Rightarrow> unit fallible" where
  "check_reply d project_id in_reply_to =
     (case in_reply_to of
        None \<Rightarrow> Inr ()
      | Some i \<Rightarrow>
          (case find_event d i of
             None \<Rightarrow> Inl (invalid_coordination ''in_reply_to must be a coordination signal of the same project'')
           | Some parent \<Rightarrow> raise_if (e_project_id parent \<noteq> project_id \<or> \<not> is_coordination parent)
               (invalid_coordination ''in_reply_to must be a coordination signal of the same project'')))"

definition coordination_payload :: "uuid \<Rightarrow> session_row \<Rightarrow> coordination_emit \<Rightarrow> (string \<times> jval) list" where
  "coordination_payload target_id emitter b =
     [(''intent'', JText (ce_intent b)), (''task_id'', JUuid target_id), (''from_session_id'', JUuid (s_id emitter)),
      (''text'', JText (ce_text b)),
      (''refs'', JObj [(''task_ids'', JList (map JUuid (cr_task_ids (ce_refs b)))),
         (''decision_ids'', JList (map JUuid (cr_decision_ids (ce_refs b)))),
         (''paths'', JList (map JText (cr_paths (ce_refs b))))])]
     @ (case ce_session_id b of None \<Rightarrow> [] | Some i \<Rightarrow> [(''session_id'', JUuid i)])
     @ (case ce_in_reply_to b of None \<Rightarrow> [] | Some i \<Rightarrow> [(''in_reply_to'', event_id_value i)])"

definition coordination_event ::
  "principal \<Rightarrow> timestamp \<Rightarrow> uuid \<Rightarrow> uuid \<Rightarrow> task_row \<Rightarrow> session_row \<Rightarrow> coordination_emit \<Rightarrow> event_row" where
  "coordination_event p now eid project_id target emitter b =
     \<lparr>e_id = (case ce_event_id b of Some i \<Rightarrow> i | None \<Rightarrow> Uuid4 eid),
      e_type = COORDINATION_EVENT_PREFIX @ ce_intent b, e_project_id = project_id, e_task_id = Some (t_id target),
      e_machine_id = Some (m_id (p_machine p)),
      e_actor_type = (if s_agent_id emitter = None then Actor_system else Actor_agent),
      e_actor_id = (case s_agent_id emitter of None \<Rightarrow> m_id (p_machine p) | Some a \<Rightarrow> a),
      e_client_timestamp = now, e_payload = coordination_payload (t_id target) emitter b\<rparr>"

text \<open>The emitting session and its task; a session without one reads no task.\<close>

definition emitter_of :: "db \<Rightarrow> principal \<Rightarrow> uuid \<Rightarrow> (session_row \<times> task_row) fallible" where
  "emitter_of d p session_id =
     (case get_session_row d session_id of
        None \<Rightarrow> Inl (session_not_found ''unknown or ended emitting session'')
      | Some s \<Rightarrow>
          and_then (raise_if (s_ended_at s \<noteq> None) (session_not_found ''unknown or ended emitting session''))
            (and_get (case s_task_id s of None \<Rightarrow> Inr None | Some t \<Rightarrow> read_task d p t) (\<lambda>t.
               case t of
                 None \<Rightarrow> Inl task_not_found
               | Some t \<Rightarrow> and_then (ensure_machine_owned p (s_machine_id s) ''session'' ''coordinate'') (Inr (s, t)))))"

definition check_emission ::
  "db \<Rightarrow> (uuid \<Rightarrow> uuid option) \<Rightarrow> principal \<Rightarrow> uuid \<Rightarrow> coordination_emit \<Rightarrow> task_row fallible" where
  "check_emission d decisions p project_id b =
     and_get (task_of_project d p project_id ''target task must exist in the emitting session's project'' (ce_task_id b))
       (\<lambda>target.
          and_then (raise_if (t_status target = TaskStatus_COMPLETED) (conflict409 ''task_closed'' ''target task is completed''))
         (and_then (check_target_session d target (ce_session_id b))
         (and_then (check_refs d decisions p project_id (ce_refs b))
         (and_then (check_reply d project_id (ce_in_reply_to b))
         (and_then (raise_if (COORDINATION_SESSION_LIMIT \<le> length (filter (sent_by (ce_from_session_id b)) (db_events d)))
            (HTTPException 429 (JObj [(''error_code'', JText ''coordination_rate_limited''),
               (''message'', JText ''at most 20 signals per session'')])))
           (Inr target))))))"

definition replayed_signal :: "db \<Rightarrow> uuid \<Rightarrow> coordination_emit \<Rightarrow> event_row option fallible" where
  "replayed_signal d project_id b =
     (case ce_event_id b of
        None \<Rightarrow> Inr None
      | Some i \<Rightarrow>
          (case find_event d i of
             None \<Rightarrow> Inr None
           | Some e \<Rightarrow>
               and_then (raise_if (\<not> sent_by (ce_from_session_id b) e \<or> e_project_id e \<noteq> project_id)
                 (conflict409 ''event_id_conflict'' ''event_id already used by another event'')) (Inr (Some e))))"

definition emit ::
  "db \<Rightarrow> (uuid \<Rightarrow> uuid option) \<Rightarrow> principal \<Rightarrow> timestamp \<Rightarrow> uuid \<Rightarrow> coordination_emit
     \<Rightarrow> (db, coordination_emitted) outcome" where
  "emit d decisions p now eid b =
     guarded (ensure_can_write p ''coordination'') d
    (on_ok (emitter_of d p (ce_from_session_id b)) d (\<lambda>(emitter, emitter_task).
     on_ok (replayed_signal d (t_project_id emitter_task) b) d (\<lambda>existing.
       case existing of
         Some e \<Rightarrow> (d, Inr (emitted d e))
       | None \<Rightarrow>
           on_ok (check_emission d decisions p (t_project_id emitter_task) b) d (\<lambda>target.
             case create_event d (coordination_event p now eid (t_project_id emitter_task) target emitter b) of
               (d1, e) \<Rightarrow> (case touch_session d1 now (s_id emitter) of (d2, _) \<Rightarrow> (d2, Inr (emitted d1 e)))))))"

end
