(* ===== verification/Sync.thy ===== *)
theory Sync
  imports Coordination Roadmap_Service
begin

section \<open>Resynchronisation (\<open>services/sync.py\<close>)\<close>

text \<open>
  One call answers what changed since a session's cursor that concerns its task: the events after the
  cursor, filtered, those of one AI work entry collapsed into the latest, then the live claims that
  overlap, bounded by a number of items and of characters. The answer's \<open>next_cursor\<close>, acknowledged by
  the next call, advances the cursor. The length of an item's JSON is a parameter \<open>cost\<close> (Pydantic
  writes it). An overflow counter is a function: a reason the dict lacks counts 0.
\<close>

definition SYNC_DEFAULT_LIMIT :: int where "SYNC_DEFAULT_LIMIT = 50"
definition SYNC_MAX_LIMIT :: int where "SYNC_MAX_LIMIT = 200"
definition SYNC_SCAN_CAP :: nat where "SYNC_SCAN_CAP = 500"
definition MIN_MAX_CHARS :: int where "MIN_MAX_CHARS = 1000"
definition MAX_MAX_CHARS :: int where "MAX_MAX_CHARS = 50000"
definition DEFAULT_MAX_CHARS :: int where "DEFAULT_MAX_CHARS = 12000"
definition MAX_FILES :: nat where "MAX_FILES = 20"
definition MAX_PATH_CHARS :: nat where "MAX_PATH_CHARS = 500"

definition DECISION_EVENT_TYPES :: "string list" where
  "DECISION_EVENT_TYPES = [''decision.proposed'', ''decision.created'', ''decision.accepted'', ''decision.superseded'']"

definition AI_WORK_PREFIX :: string where "AI_WORK_PREFIX = ''ai_work.''"

datatype sync_why = Own_Task | Decision | Claim_Overlap | Roadmap_Dependency | Coordination_Signal

record coordination_signal =
  cg_event_id :: event_id
  cg_intent :: string
  cg_text :: string
  cg_refs :: coordination_refs
  cg_in_reply_to :: "event_id option"
  cg_from_session_id :: "uuid option"

datatype sync_item =
    Event_Item sync_why nat string "uuid option" "coordination_signal option"
  | Claim_Item "uuid option" uuid string

fun si_seq :: "sync_item \<Rightarrow> nat option" where
  "si_seq (Event_Item why seq type task signal) = Some seq"
| "si_seq (Claim_Item task claim path) = None"

record candidate =
  cd_why :: sync_why
  cd_work_id :: "jval option"
  cd_floor_seq :: "nat option"
  cd_item :: sync_item

subsection \<open>Reading an event\<close>

definition ai_work_id :: "event_row \<Rightarrow> jval option" where
  "ai_work_id e =
     (if \<not> starts_with (e_type e) AI_WORK_PREFIX then None
      else (case map_of (e_payload e) ''ai_work_id'' of
              None \<Rightarrow> None | Some v \<Rightarrow> if truthy v then Some v else None))"

fun uuid_of :: "jval \<Rightarrow> uuid option" where
  "uuid_of (JUuid u) = Some u"
| "uuid_of v = None"

fun text_of :: "jval \<Rightarrow> string option" where
  "text_of (JText t) = Some t"
| "text_of v = None"

text \<open>A list field of the references: absent is empty, anything but a short list of the right kind fails.\<close>

definition ref_list :: "(jval \<Rightarrow> 'a option) \<Rightarrow> jval option \<Rightarrow> 'a list option" where
  "ref_list decode v =
     (case v of
        None \<Rightarrow> Some []
      | Some (JList vs) \<Rightarrow> if length vs \<le> COORDINATION_REF_MAX then those (map decode vs) else None
      | Some _ \<Rightarrow> None)"

definition refs_of :: "(string \<times> jval) list \<Rightarrow> coordination_refs option" where
  "refs_of fs =
     (if \<exists>f \<in> set fs. fst f \<notin> {''task_ids'', ''decision_ids'', ''paths''} then None
      else case (ref_list uuid_of (map_of fs ''task_ids''), ref_list uuid_of (map_of fs ''decision_ids''),
                 ref_list text_of (map_of fs ''paths'')) of
             (Some ts, Some ds, Some ps) \<Rightarrow> Some \<lparr>cr_task_ids = ts, cr_decision_ids = ds, cr_paths = ps\<rparr>
           | _ \<Rightarrow> None)"

text \<open>\<open>payload.get(k)\<close> with \<open>None\<close> for an absent key and for \<open>null\<close>.\<close>

definition present :: "(string \<times> jval) list \<Rightarrow> string \<Rightarrow> jval option" where
  "present fs k = (case map_of fs k of None \<Rightarrow> None | Some v \<Rightarrow> if v = JNull then None else Some v)"

definition signal_of :: "event_row \<Rightarrow> coordination_signal option" where
  "signal_of e =
     (let intent = drop (length COORDINATION_EVENT_PREFIX) (e_type e); p = e_payload e;
          refs = (case map_of p ''refs'' of
                    None \<Rightarrow> refs_of []
                  | Some v \<Rightarrow> if \<not> truthy v then refs_of [] else (case v of JObj fs \<Rightarrow> refs_of fs | _ \<Rightarrow> None));
          reply = (case present p ''in_reply_to'' of None \<Rightarrow> Some None | Some v \<Rightarrow> map_option Some (event_id_of v));
          sender = (case present p ''from_session_id'' of None \<Rightarrow> Some None | Some v \<Rightarrow> map_option Some (uuid_of v))
      in case (present p ''text'', refs, reply, sender) of
           (Some (JText t), Some r, Some i, Some s) \<Rightarrow>
             if intent \<in> set COORDINATION_INTENTS
             then Some \<lparr>cg_event_id = e_id e, cg_intent = intent, cg_text = t, cg_refs = r, cg_in_reply_to = i,
                        cg_from_session_id = s\<rparr>
             else None
         | _ \<Rightarrow> None)"

subsection \<open>Collapsing AI work\<close>

definition first_floor :: "jval \<Rightarrow> candidate list \<Rightarrow> nat option" where
  "first_floor w cs = (case find (\<lambda>c. cd_work_id c = Some w) cs of None \<Rightarrow> None | Some c \<Rightarrow> cd_floor_seq c)"

fun survivors :: "candidate list \<Rightarrow> candidate list \<Rightarrow> candidate list" where
  "survivors all [] = []"
| "survivors all (c # cs) =
     (case cd_work_id c of
        None \<Rightarrow> c # survivors all cs
      | Some w \<Rightarrow>
          if Some w \<in> cd_work_id ` set cs then survivors all cs
          else c\<lparr>cd_floor_seq := first_floor w all\<rparr> # survivors all cs)"

definition collapse_ai_work :: "candidate list \<Rightarrow> candidate list" where
  "collapse_ai_work cs = survivors cs cs"

subsection \<open>Related tasks\<close>

text \<open>
  The depth-first closure of the two loops: \<open>succ\<close> are the dependencies or the children of a key, all
  of them keys of the plan (a key outside it would raise and never reaches the stack). The top of the
  stack is its head.
\<close>

lemma unseen_left: "k \<in> set keys \<Longrightarrow> k \<notin> set seen \<Longrightarrow> 0 < card (set keys - set seen)"
  by (rule card_gt_0_iff [THEN iffD2]) auto

function close_keys :: "string list \<Rightarrow> (string \<Rightarrow> string list) \<Rightarrow> string list \<Rightarrow> string list \<Rightarrow> string list \<Rightarrow> string list" where
  "close_keys keys succ mine [] seen = seen"
| "close_keys keys succ mine (k # stack) seen =
     (if k \<in> set seen \<or> k \<in> set mine \<or> k \<notin> set keys then close_keys keys succ mine stack seen
      else close_keys keys succ mine (rev (succ k) @ stack) (k # seen))"
  by pat_completeness auto

termination
  by (relation "inv_image (less_than <*lex*> less_than) (\<lambda>(keys, succ, mine, stack, seen). (card (set keys - set seen), length stack))")
    (auto dest: unseen_left)

definition plan_steps :: "roadmap_view \<Rightarrow> step_view list" where
  "plan_steps v = concat (map fv_steps (rw_phases v))"

definition sv_key :: "step_view \<Rightarrow> string" where
  "sv_key s = sp_key (sv_step s)"

definition known_deps :: "step_view list \<Rightarrow> string \<Rightarrow> string list" where
  "known_deps steps k =
     (case find (\<lambda>s. sv_key s = k) (rev steps) of
        None \<Rightarrow> [] | Some s \<Rightarrow> filter (\<lambda>d. d \<in> sv_key ` set steps) (sv_depends_on s))"

definition child_keys :: "step_view list \<Rightarrow> string \<Rightarrow> string list" where
  "child_keys steps k =
     concat (map (\<lambda>s. map (\<lambda>_. sv_key s) (filter (\<lambda>d. d = k \<and> d \<in> sv_key ` set steps) (sv_depends_on s))) steps)"

definition linked_ids :: "step_view \<Rightarrow> uuid list" where
  "linked_ids s = map fst (sv_linked_tasks s)"

definition my_keys :: "step_view list \<Rightarrow> uuid \<Rightarrow> string list" where
  "my_keys steps my_task = map sv_key (filter (\<lambda>s. my_task \<in> set (linked_ids s)) steps)"

definition related_of_steps :: "step_view list \<Rightarrow> uuid \<Rightarrow> uuid set" where
  "related_of_steps steps my_task =
     (let keys = map sv_key steps; mine = my_keys steps my_task;
          up = close_keys keys (known_deps steps) mine (rev (concat (map (known_deps steps) mine))) [];
          down = close_keys keys (child_keys steps) mine (rev (concat (map (child_keys steps) mine))) []
      in (\<Union>s \<in> set steps. if sv_key s \<in> set up \<union> set down then set (linked_ids s) else {}) - {my_task})"

definition related_task_ids :: "plan_db \<Rightarrow> principal \<Rightarrow> uuid \<Rightarrow> uuid \<Rightarrow> uuid set fallible" where
  "related_task_ids pl p project_id my_task =
     and_get (list_roadmaps pl p project_id (Some RS_ACTIVE) 1 0) (\<lambda>summaries.
       case summaries of
         [] \<Rightarrow> Inr {}
       | s # _ \<Rightarrow> and_get (get_roadmap pl p (rm_id (ry_roadmap s))) (\<lambda>v. Inr (related_of_steps (plan_steps v) my_task)))"

subsection \<open>Matching\<close>

text \<open>What the loop needs to know of the caller: its machine, session, task, related tasks and the sessions of its task.\<close>

record sync_view =
  vw_machine_id :: uuid
  vw_session_id :: "uuid option"
  vw_task_id :: uuid
  vw_related :: "uuid set"
  vw_sessions :: "session_row list"

definition target_state :: "sync_view \<Rightarrow> jval \<Rightarrow> (int \<times> bool) option" where
  "target_state v target =
     (case target of
        JUuid i \<Rightarrow>
          map_option (\<lambda>s. ((case s_sync_cursor_seq s of None \<Rightarrow> 0 | Some c \<Rightarrow> c), s_ended_at s \<noteq> None))
            (tbl_get s_id (vw_sessions v) i)
      | _ \<Rightarrow> None)"

datatype verdict = Ignored | Withheld | Concerns sync_why "coordination_signal option"

definition is_mine :: "sync_view \<Rightarrow> jval \<Rightarrow> bool" where
  "is_mine v j \<longleftrightarrow> (case vw_session_id v of None \<Rightarrow> False | Some i \<Rightarrow> j = JUuid i)"

definition match_signal :: "sync_view \<Rightarrow> nat \<Rightarrow> event_row \<Rightarrow> verdict" where
  "match_signal v seq e =
     (let p = e_payload e; on_task = (map_of p ''task_id'' = Some (JUuid (vw_task_id v)));
          target = present p ''session_id'';
          state = (case target of None \<Rightarrow> None | Some t \<Rightarrow> target_state v t)
      in if target \<noteq> None \<and> on_task \<and> \<not> is_mine v (the target)
            \<and> (case state of None \<Rightarrow> False | Some (cursor, ended) \<Rightarrow> \<not> ended \<and> cursor < int seq)
         then Withheld
         else if \<not> (case target of
                      None \<Rightarrow> on_task
                    | Some t \<Rightarrow> is_mine v t \<or>
                        (on_task \<and> (case state of None \<Rightarrow> False | Some (cursor, ended) \<Rightarrow> ended \<and> cursor < int seq)))
         then Ignored
         else if (case map_of p ''from_session_id'' of None \<Rightarrow> False | Some s \<Rightarrow> is_mine v s)
              \<and> (case target of None \<Rightarrow> True | Some t \<Rightarrow> is_mine v t)
         then Ignored
         else (case signal_of e of None \<Rightarrow> Ignored | Some s \<Rightarrow> Concerns Coordination_Signal (Some s)))"

definition match_event :: "sync_view \<Rightarrow> nat \<Rightarrow> event_row \<Rightarrow> verdict" where
  "match_event v seq e =
     (if \<not> is_coordination e \<and> e_machine_id e = Some (vw_machine_id v) then Ignored
      else if is_coordination e then match_signal v seq e
      else if e_type e \<in> set DECISION_EVENT_TYPES \<and> e_task_id e = Some (vw_task_id v) then Concerns Decision None
      else if e_task_id e = Some (vw_task_id v) then Concerns Own_Task None
      else if (case e_task_id e of None \<Rightarrow> False | Some t \<Rightarrow> t \<in> vw_related v) then Concerns Roadmap_Dependency None
      else Ignored)"

definition event_candidate :: "nat \<Rightarrow> event_row \<Rightarrow> sync_why \<Rightarrow> coordination_signal option \<Rightarrow> candidate" where
  "event_candidate seq e why signal =
     \<lparr>cd_why = why, cd_work_id = ai_work_id e, cd_floor_seq = Some seq,
      cd_item = Event_Item why seq (e_type e) (e_task_id e) signal\<rparr>"

fun matched_events :: "sync_view \<Rightarrow> (nat \<times> event_row) list \<Rightarrow> candidate list" where
  "matched_events v [] = []"
| "matched_events v ((seq, e) # es) =
     (case match_event v seq e of
        Concerns why signal \<Rightarrow> event_candidate seq e why signal # matched_events v es
      | _ \<Rightarrow> matched_events v es)"

definition withheld_seqs :: "sync_view \<Rightarrow> (nat \<times> event_row) list \<Rightarrow> nat list" where
  "withheld_seqs v es = map fst (filter (\<lambda>(seq, e). match_event v seq e = Withheld) es)"

definition claim_overlaps :: "(string \<times> resource_type) list \<Rightarrow> string list \<Rightarrow> claim_row \<Rightarrow> bool" where
  "claim_overlaps mine files c \<longleftrightarrow>
     list_ex (\<lambda>(path, kind). paths_conflict (c_resource_path c) (c_resource_type c) path kind) mine
     \<or> list_ex (\<lambda>path. paths_conflict (c_resource_path c) (c_resource_type c) path ResourceType_FILE) files"

definition claim_candidates :: "claim_row list \<Rightarrow> uuid \<Rightarrow> string list \<Rightarrow> candidate list" where
  "claim_candidates live my_task files =
     (let mine = map (\<lambda>c. (c_resource_path c, c_resource_type c)) (filter (\<lambda>c. c_task_id c = Some my_task) live)
      in map (\<lambda>c. \<lparr>cd_why = Claim_Overlap, cd_work_id = None, cd_floor_seq = None,
                   cd_item = Claim_Item (c_task_id c) (c_id c) (c_resource_path c)\<rparr>)
           (filter (\<lambda>c. c_task_id c \<noteq> Some my_task \<and> claim_overlaps mine files c)
             (sort_key c_resource_path (sort_key c_id live))))"

subsection \<open>Bounding\<close>

record bounded =
  bd_items :: "sync_item list"
  bd_chars :: int
  bd_overflow :: "sync_why \<Rightarrow> nat"
  bd_next :: int
  bd_blocked :: "nat option"

definition lower_block :: "nat option \<Rightarrow> nat option \<Rightarrow> nat option" where
  "lower_block blocked fl =
     (case fl of
        None \<Rightarrow> blocked
      | Some f \<Rightarrow> (case blocked of None \<Rightarrow> Some f | Some b \<Rightarrow> if f < b then Some f else blocked))"

definition leave_out :: "candidate \<Rightarrow> bounded \<Rightarrow> bounded" where
  "leave_out c b =
     b\<lparr>bd_overflow := (bd_overflow b)(cd_why c := Suc (bd_overflow b (cd_why c))),
       bd_blocked := lower_block (bd_blocked b) (cd_floor_seq c)\<rparr>"

definition take_item :: "(sync_item \<Rightarrow> int) \<Rightarrow> candidate \<Rightarrow> bounded \<Rightarrow> bounded" where
  "take_item cost c b =
     b\<lparr>bd_items := bd_items b @ [cd_item c], bd_chars := bd_chars b + cost (cd_item c),
       bd_next := (case si_seq (cd_item c) of None \<Rightarrow> bd_next b | Some s \<Rightarrow> max (bd_next b) (int s))\<rparr>"

definition fits :: "(sync_item \<Rightarrow> int) \<Rightarrow> int \<Rightarrow> int \<Rightarrow> candidate \<Rightarrow> bounded \<Rightarrow> bool" where
  "fits cost limit max_chars c b \<longleftrightarrow>
     \<not> (limit \<le> int (length (bd_items b)) \<or> max_chars < bd_chars b + cost (cd_item c))"

fun bound_items :: "(sync_item \<Rightarrow> int) \<Rightarrow> int \<Rightarrow> int \<Rightarrow> candidate list \<Rightarrow> bounded \<Rightarrow> bounded" where
  "bound_items cost limit max_chars [] b = b"
| "bound_items cost limit max_chars (c # cs) b =
     bound_items cost limit max_chars cs
       (if fits cost limit max_chars c b then take_item cost c b else leave_out c b)"

record sync_result =
  sr_next_cursor :: int
  sr_items :: "sync_item list"
  sr_overflow :: "sync_why \<Rightarrow> nat"
  sr_resync :: bool

definition compose_answer ::
  "(sync_item \<Rightarrow> int) \<Rightarrow> int \<Rightarrow> int \<Rightarrow> int \<Rightarrow> (nat \<times> event_row) list \<Rightarrow> nat list \<Rightarrow> candidate list \<Rightarrow> sync_result" where
  "compose_answer cost limit max_chars effective scanned withheld cs =
     (let truncated = (length scanned = SYNC_SCAN_CAP);
          b = bound_items cost limit max_chars cs
            \<lparr>bd_items = [], bd_chars = 0, bd_overflow = (\<lambda>_. 0)(Coordination_Signal := length withheld),
             bd_next = (if scanned \<noteq> [] \<and> truncated then max effective (int (fst (last scanned))) else effective),
             bd_blocked = (if withheld = [] then None else Some (Min (set withheld)))\<rparr>
      in \<lparr>sr_next_cursor = (case bd_blocked b of None \<Rightarrow> bd_next b | Some f \<Rightarrow> min (bd_next b) (int f - 1)),
          sr_items = bd_items b, sr_overflow = bd_overflow b, sr_resync = truncated\<rparr>)"

subsection \<open>The handler\<close>

record sync_request =
  sq_session :: "uuid option"
  sq_agent :: "uuid option"
  sq_task :: "uuid option"
  sq_ack :: "int option"
  sq_files :: "string list"
  sq_item_limit :: int
  sq_max_chars :: int

definition invalid_sync :: "string \<Rightarrow> http_error" where
  "invalid_sync message =
     HTTPException 422 (JObj [(''error_code'', JText ''invalid_sync_input''), (''message'', JText message)])"

definition clean_files :: "string list \<Rightarrow> string list" where
  "clean_files fs = filter (\<lambda>f. f \<noteq> []) (map py_strip fs)"

definition check_sync_input :: "sync_request \<Rightarrow> unit fallible" where
  "check_sync_input q =
     and_then (raise_if (\<not> (1 \<le> sq_item_limit q \<and> sq_item_limit q \<le> SYNC_MAX_LIMIT))
        (invalid_sync ''limit must be between 1 and 200''))
    (and_then (raise_if (\<not> (MIN_MAX_CHARS \<le> sq_max_chars q \<and> sq_max_chars q \<le> MAX_MAX_CHARS))
        (invalid_sync ''max_chars must be between 1000 and 50000''))
    (and_then (raise_if (MAX_FILES < length (clean_files (sq_files q))) (invalid_sync ''at most 20 files''))
    (and_then (raise_if (\<exists>f \<in> set (clean_files (sq_files q)). MAX_PATH_CHARS < length f)
        (invalid_sync ''each file must be at most 500 characters''))
    (and_then (raise_if (case sq_ack q of None \<Rightarrow> False | Some a \<Rightarrow> a < 0) (invalid_sync ''ack must be a non-negative seq''))
       (raise_if (sq_session q = None \<and> (sq_agent q = None \<or> sq_task q = None))
          (invalid_sync ''session_id or (agent_id and task_id) is required''))))))"

definition live_session :: "db \<Rightarrow> uuid option \<Rightarrow> session_row option fallible" where
  "live_session d session_id =
     (case session_id of
        None \<Rightarrow> Inr None
      | Some i \<Rightarrow>
          (case get_session_row d i of
             None \<Rightarrow> Inl (session_not_found ''unknown or ended session'')
           | Some s \<Rightarrow> and_then (raise_if (s_ended_at s \<noteq> None) (session_not_found ''unknown or ended session'')) (Inr (Some s))))"

definition sync_task :: "db \<Rightarrow> principal \<Rightarrow> uuid option \<Rightarrow> task_row fallible" where
  "sync_task d p task_id =
     and_get (case task_id of None \<Rightarrow> Inr None | Some t \<Rightarrow> read_task d p t) (found task_not_found)"

definition sync_owner :: "db \<Rightarrow> principal \<Rightarrow> session_row option \<Rightarrow> uuid option \<Rightarrow> unit fallible" where
  "sync_owner d p ws agent_id =
     (case ws of
        Some s \<Rightarrow> ensure_machine_owned p (s_machine_id s) ''session'' ''sync''
      | None \<Rightarrow>
          and_then (ensure_can_write p ''sync'')
            (raise_if (\<not> owns_agent (case agent_id of None \<Rightarrow> None | Some a \<Rightarrow> tbl_get a_id (db_agents d) a) (p_machine p))
              (conflict409 ''actor_not_owned'' ''agent_id must be an agent attached to the authenticated machine'')))"

definition effective_cursor :: "session_row option \<Rightarrow> int option \<Rightarrow> int" where
  "effective_cursor ws ack =
     (let stored = (case ws of None \<Rightarrow> None | Some s \<Rightarrow> s_sync_cursor_seq s);
          base = (case stored of None \<Rightarrow> 0 | Some c \<Rightarrow> c)
      in case ack of None \<Rightarrow> base | Some a \<Rightarrow> max base a)"

definition advance_session :: "db \<Rightarrow> timestamp \<Rightarrow> session_row option \<Rightarrow> int \<Rightarrow> db" where
  "advance_session d now ws effective =
     (case ws of
        None \<Rightarrow> d
      | Some s \<Rightarrow>
          fst (touch_session
            (if Some effective \<noteq> s_sync_cursor_seq s then fst (ack_sync_cursor d (s_id s) effective) else d) now (s_id s)))"

definition view_of :: "db \<Rightarrow> principal \<Rightarrow> session_row option \<Rightarrow> uuid \<Rightarrow> uuid set \<Rightarrow> sync_view" where
  "view_of d p ws my_task related =
     \<lparr>vw_machine_id = m_id (p_machine p), vw_session_id = map_option s_id ws, vw_task_id = my_task, vw_related = related,
      vw_sessions = filter (\<lambda>s. s_task_id s = Some my_task) (db_sessions d)\<rparr>"

definition answer_sync ::
  "(sync_item \<Rightarrow> int) \<Rightarrow> plan_db \<Rightarrow> principal \<Rightarrow> timestamp \<Rightarrow> sync_request \<Rightarrow> session_row option \<Rightarrow> task_row
     \<Rightarrow> sync_result fallible" where
  "answer_sync cost pl p now q ws task =
     (let effective = effective_cursor ws (sq_ack q) in
      and_get (related_task_ids pl p (t_project_id task) (t_id task)) (\<lambda>related.
      and_get (list_events_after (pl_db pl) p (t_project_id task) (Some (nat effective)) SYNC_SCAN_CAP) (\<lambda>scanned.
        let v = view_of (pl_db pl) p ws (t_id task) related
        in Inr (compose_answer cost (sq_item_limit q) (sq_max_chars q) effective scanned (withheld_seqs v scanned)
             (collapse_ai_work (matched_events v scanned)
              @ claim_candidates (active_claims (pl_db pl) now (t_project_id task)) (t_id task) (clean_files (sq_files q)))))))"

definition sync ::
  "(sync_item \<Rightarrow> int) \<Rightarrow> plan_db \<Rightarrow> principal \<Rightarrow> timestamp \<Rightarrow> sync_request \<Rightarrow> (plan_db, sync_result) outcome" where
  "sync cost pl p now q =
     guarded (check_sync_input q) pl
    (on_ok (live_session (pl_db pl) (sq_session q)) pl (\<lambda>ws.
     on_ok (sync_task (pl_db pl) p (case ws of Some s \<Rightarrow> s_task_id s | None \<Rightarrow> sq_task q)) pl (\<lambda>task.
     guarded (sync_owner (pl_db pl) p ws (sq_agent q)) pl
       (let pl' = pl\<lparr>pl_db := advance_session (pl_db pl) now ws (effective_cursor ws (sq_ack q))\<rparr>
        in (pl', answer_sync cost pl' p now q ws task)))))"

end
