(* ===== verification/Sync_Delivery.thy ===== *)
theory Sync_Delivery
  imports Sync
begin

section \<open>What a resynchronisation delivers\<close>

text \<open>
  The answer never skips: what concerns the task and lies at or below the cursor it hands out was
  delivered, by the event itself or by a later one of the same work entry. It stays within its bounds
  and its cursor never goes back. But the cursor stays below the first event of every work entry left
  out, and such an entry can be left out for ever.
\<close>

subsection \<open>Bounding\<close>

lemma bound_items_within:
  assumes "int (length (bd_items b)) \<le> limit" and "bd_chars b = sum_list (map cost (bd_items b))" and "bd_chars b \<le> max_chars"
  shows "int (length (bd_items (bound_items cost limit max_chars cs b))) \<le> limit
    \<and> sum_list (map cost (bd_items (bound_items cost limit max_chars cs b))) \<le> max_chars"
  using assms
  by (induction cs arbitrary: b) (auto simp: fits_def take_item_def leave_out_def)

lemma bound_items_keeps: "i \<in> set (bd_items b) \<Longrightarrow> i \<in> set (bd_items (bound_items cost limit max_chars cs b))"
  by (induction cs arbitrary: b) (auto simp: take_item_def leave_out_def)

definition blocked_by :: "bounded \<Rightarrow> nat \<Rightarrow> bool" where
  "blocked_by b f \<longleftrightarrow> (case bd_blocked b of None \<Rightarrow> False | Some k \<Rightarrow> k \<le> f)"

lemma blocked_by_step: "blocked_by b f \<Longrightarrow> blocked_by (take_item cost c b) f" "blocked_by b f \<Longrightarrow> blocked_by (leave_out c b) f"
  by (auto simp: take_item_def leave_out_def blocked_by_def lower_block_def split: option.splits)

lemma bound_items_blocked: "blocked_by b f \<Longrightarrow> blocked_by (bound_items cost limit max_chars cs b) f"
  by (induction cs arbitrary: b) (simp_all add: blocked_by_step)

lemma bound_items_cases:
  assumes "c \<in> set cs"
  shows "cd_item c \<in> set (bd_items (bound_items cost limit max_chars cs b))
    \<or> (\<forall>f. cd_floor_seq c = Some f \<longrightarrow> blocked_by (bound_items cost limit max_chars cs b) f)"
  using assms
proof (induction cs arbitrary: b)
  case (Cons c' cs)
  show ?case
  proof (cases "c = c'")
    case True
    show ?thesis
    proof (cases "fits cost limit max_chars c b")
      case True
      have "cd_item c \<in> set (bd_items (take_item cost c b))" by (simp add: take_item_def)
      then show ?thesis using True \<open>c = c'\<close> bound_items_keeps by auto
    next
      case False
      have "blocked_by (leave_out c b) f" if "cd_floor_seq c = Some f" for f
        using that by (auto simp: leave_out_def blocked_by_def lower_block_def split: option.splits)
      then show ?thesis using False \<open>c = c'\<close> bound_items_blocked by auto
    qed
  next
    case False
    with Cons.IH [of "if fits cost limit max_chars c' b then take_item cost c' b else leave_out c' b"] Cons.prems
    show ?thesis by simp
  qed
qed simp

lemma bound_items_next: "bd_next b \<le> bd_next (bound_items cost limit max_chars cs b)"
proof (induction cs arbitrary: b)
  case (Cons c cs)
  have "bd_next b \<le> bd_next (take_item cost c b)" "bd_next b = bd_next (leave_out c b)"
    by (auto simp: take_item_def leave_out_def split: option.split)
  with Cons show ?case by (auto intro: order_trans)
qed simp

text \<open>The cursor only rests on seqs the candidates stand for, a block only on their floors.\<close>

lemma bound_items_next_le:
  assumes "\<And>c s. c \<in> set cs \<Longrightarrow> si_seq (cd_item c) = Some s \<Longrightarrow> int s \<le> m" and "bd_next b \<le> m"
  shows "bd_next (bound_items cost limit max_chars cs b) \<le> m"
  using assms
proof (induction cs arbitrary: b)
  case (Cons c cs)
  have "bd_next (take_item cost c b) \<le> m" "bd_next (leave_out c b) \<le> m"
    using Cons.prems by (auto simp: take_item_def leave_out_def split: option.split)
  moreover have "int s \<le> m" if "c' \<in> set cs" "si_seq (cd_item c') = Some s" for c' s using that Cons.prems(1) [of c'] by simp
  ultimately show ?case using Cons.IH by simp
qed simp

lemma bound_items_block_ge:
  assumes "\<And>c f. c \<in> set cs \<Longrightarrow> cd_floor_seq c = Some f \<Longrightarrow> m < int f" and "\<And>f. bd_blocked b = Some f \<Longrightarrow> m < int f"
    and "bd_blocked (bound_items cost limit max_chars cs b) = Some f"
  shows "m < int f"
  using assms
proof (induction cs arbitrary: b)
  case (Cons c cs)
  let ?b = "if fits cost limit max_chars c b then take_item cost c b else leave_out c b"
  have "m < int g" if "bd_blocked ?b = Some g" for g
    using that Cons.prems(1) [of c] Cons.prems(2)
    by (auto simp: take_item_def leave_out_def lower_block_def split: if_splits option.splits)
  moreover have "m < int g" if "c' \<in> set cs" "cd_floor_seq c' = Some g" for c' g using that Cons.prems(1) [of c'] by simp
  ultimately show ?case using Cons.IH [of ?b] Cons.prems(3) by simp
qed simp

subsection \<open>Matching and collapsing\<close>

lemma matched_events_mem:
  "c \<in> set (matched_events v es) \<Longrightarrow>
     \<exists>seq e why signal. (seq, e) \<in> set es \<and> match_event v seq e = Concerns why signal \<and> c = event_candidate seq e why signal"
  by (induction v es rule: matched_events.induct) (auto split: verdict.splits)

lemma matched_events_of_mem:
  "(seq, e) \<in> set es \<Longrightarrow> match_event v seq e = Concerns why signal \<Longrightarrow> event_candidate seq e why signal \<in> set (matched_events v es)"
  by (induction v es rule: matched_events.induct) (auto split: verdict.splits)

lemma matched_events_sorted:
  assumes "sorted_wrt (\<lambda>a b. fst a < fst b) es"
  shows "sorted_wrt (\<lambda>c c'. \<exists>s s'. cd_floor_seq c = Some s \<and> cd_floor_seq c' = Some s' \<and> s < s') (matched_events v es)"
  using assms
proof (induction v es rule: matched_events.induct)
  case (2 v seq e es)
  then show ?case
    by (auto split: verdict.split dest!: matched_events_mem simp: event_candidate_def)
qed simp

lemma survivors_mem:
  "c \<in> set (survivors all cs) \<Longrightarrow>
     \<exists>c' \<in> set cs. cd_item c = cd_item c' \<and> cd_work_id c = cd_work_id c' \<and>
       cd_floor_seq c = (case cd_work_id c' of None \<Rightarrow> cd_floor_seq c' | Some w \<Rightarrow> first_floor w all)"
proof (induction all cs rule: survivors.induct)
  case (2 all c0 cs)
  show ?case
  proof (cases "c \<in> set (survivors all cs)")
    case True
    then show ?thesis using 2(1-3) by (cases "cd_work_id c0"; cases "cd_work_id c0 \<in> cd_work_id ` set cs") auto
  next
    case False
    then show ?thesis using 2(4) by (auto split: option.splits if_splits)
  qed
qed simp

lemma survivors_plain: "c \<in> set cs \<Longrightarrow> cd_work_id c = None \<Longrightarrow> c \<in> set (survivors all cs)"
  by (induction all cs rule: survivors.induct) (auto split: option.splits if_splits)

lemma survivors_work:
  assumes "c \<in> set cs" and "cd_work_id c = Some w"
    and "sorted_wrt (\<lambda>c c'. \<exists>s s'. cd_floor_seq c = Some s \<and> cd_floor_seq c' = Some s' \<and> s < s') cs"
    and "cd_floor_seq c = Some f"
  shows "\<exists>c' \<in> set cs. cd_work_id c' = Some w \<and> (\<exists>f'. cd_floor_seq c' = Some f' \<and> f \<le> f')
    \<and> c'\<lparr>cd_floor_seq := first_floor w all\<rparr> \<in> set (survivors all cs)"
  using assms
proof (induction all cs arbitrary: c f rule: survivors.induct)
  case (2 all c0 cs)
  show ?case
  proof (cases "c = c0 \<and> Some w \<notin> cd_work_id ` set cs")
    case True
    then show ?thesis using 2(5,7) by auto
  next
    case False
    obtain c1 f1 where c1: "c1 \<in> set cs" "cd_work_id c1 = Some w" "cd_floor_seq c1 = Some f1" "f \<le> f1"
    proof (cases "c = c0")
      case True
      with False obtain c1 where "c1 \<in> set cs" "cd_work_id c1 = Some w" by auto
      moreover from this(1) 2(6) True obtain s s' where "cd_floor_seq c = Some s" "cd_floor_seq c1 = Some s'" "s < s'" by auto
      ultimately show ?thesis using that 2(7) by auto
    next
      case False
      then show ?thesis using that 2(4,5,7) by auto
    qed
    have sorted: "sorted_wrt (\<lambda>c c'. \<exists>s s'. cd_floor_seq c = Some s \<and> cd_floor_seq c' = Some s' \<and> s < s') cs" using 2(6) by simp
    have "\<exists>c' \<in> set cs. cd_work_id c' = Some w \<and> (\<exists>f'. cd_floor_seq c' = Some f' \<and> f1 \<le> f')
        \<and> c'\<lparr>cd_floor_seq := first_floor w all\<rparr> \<in> set (survivors all cs)"
    proof (cases "cd_work_id c0")
      case None
      from 2(1) [OF None c1(1,2) sorted c1(3)] show ?thesis .
    next
      case (Some w0)
      show ?thesis
      proof (cases "Some w0 \<in> cd_work_id ` set cs")
        case True
        from 2(2) [OF Some True c1(1,2) sorted c1(3)] show ?thesis .
      next
        case F: False
        from 2(3) [OF Some F c1(1,2) sorted c1(3)] show ?thesis .
      qed
    qed
    then show ?thesis using c1(4) by (fastforce split: option.split)
  qed
qed simp

lemma first_floor_le:
  assumes "c \<in> set cs" and "cd_work_id c = Some w" and "cd_floor_seq c = Some f"
    and "sorted_wrt (\<lambda>c c'. \<exists>s s'. cd_floor_seq c = Some s \<and> cd_floor_seq c' = Some s' \<and> s < s') cs"
  shows "\<exists>g. first_floor w cs = Some g \<and> g \<le> f"
  using assms
proof (induction cs)
  case (Cons c0 cs)
  show ?case
  proof (cases "cd_work_id c0 = Some w")
    case True
    with Cons.prems show ?thesis by (auto simp: first_floor_def)
  next
    case False
    with Cons show ?thesis by (auto simp: first_floor_def)
  qed
qed simp

lemma first_floor_mem: "first_floor w cs = Some g \<Longrightarrow> \<exists>c \<in> set cs. cd_floor_seq c = Some g"
  by (auto simp: first_floor_def find_Some_iff split: option.splits)

subsection \<open>The answer\<close>

text \<open>An item delivers an event: it is that event's, or a later event's of the same work entry.\<close>

definition delivers :: "(nat \<times> event_row) list \<Rightarrow> sync_item \<Rightarrow> nat \<Rightarrow> event_row \<Rightarrow> bool" where
  "delivers es i seq e \<longleftrightarrow>
     (\<exists>seq' e'. (seq', e') \<in> set es \<and> si_seq i = Some seq' \<and>
        (seq' = seq \<or> (seq \<le> seq' \<and> ai_work_id e \<noteq> None \<and> ai_work_id e' = ai_work_id e)))"

definition sync_candidates :: "sync_view \<Rightarrow> (nat \<times> event_row) list \<Rightarrow> claim_row list \<Rightarrow> string list \<Rightarrow> candidate list" where
  "sync_candidates v scanned live fs =
     collapse_ai_work (matched_events v scanned) @ claim_candidates live (vw_task_id v) fs"

lemma claim_candidate_plain:
  "c \<in> set (claim_candidates live t fs) \<Longrightarrow> cd_floor_seq c = None \<and> si_seq (cd_item c) = None"
  by (auto simp: claim_candidates_def Let_def)

lemma sync_candidate_mem:
  assumes "c \<in> set (sync_candidates v scanned live fs)"
  shows "(cd_floor_seq c = None \<and> si_seq (cd_item c) = None) \<or>
    (\<exists>seq e. (seq, e) \<in> set scanned \<and> si_seq (cd_item c) = Some seq \<and> (\<forall>f. cd_floor_seq c = Some f \<longrightarrow> f \<in> fst ` set scanned))"
proof (cases "c \<in> set (claim_candidates live (vw_task_id v) fs)")
  case True
  then show ?thesis using claim_candidate_plain by blast
next
  case False
  with assms obtain c' where c': "c' \<in> set (matched_events v scanned)" "cd_item c = cd_item c'"
      "cd_floor_seq c = (case cd_work_id c' of None \<Rightarrow> cd_floor_seq c' | Some w \<Rightarrow> first_floor w (matched_events v scanned))"
    using survivors_mem unfolding sync_candidates_def collapse_ai_work_def by fastforce
  have floors: "f \<in> fst ` set scanned" if "c \<in> set (matched_events v scanned)" "cd_floor_seq c = Some f" for c f
    using matched_events_mem [OF that(1)] that(2) by (force simp: event_candidate_def)
  have "f \<in> fst ` set scanned" if "cd_floor_seq c = Some f" for f
    using that c'(1,3) floors first_floor_mem by (cases "cd_work_id c'") fastforce+
  then show ?thesis using matched_events_mem [OF c'(1)] c'(2) by (auto simp: event_candidate_def)
qed

lemma matched_survivor:
  assumes sorted: "sorted_wrt (\<lambda>a b. fst a < fst b) scanned"
    and mem: "(seq, e) \<in> set scanned" and match: "match_event v seq e = Concerns why signal"
  shows "\<exists>c \<in> set (sync_candidates v scanned live fs). delivers scanned (cd_item c) seq e \<and> (\<exists>f \<le> seq. cd_floor_seq c = Some f)"
proof -
  let ?cs = "matched_events v scanned" and ?c = "event_candidate seq e why signal"
  have c: "?c \<in> set ?cs" using matched_events_of_mem [OF mem match] .
  note order = matched_events_sorted [OF sorted, of v]
  show ?thesis
  proof (cases "ai_work_id e")
    case None
    then have "?c \<in> set (survivors ?cs ?cs)" using survivors_plain [OF c] by (simp add: event_candidate_def)
    then show ?thesis
      using mem by (intro bexI [of _ ?c]) (auto simp: delivers_def event_candidate_def sync_candidates_def collapse_ai_work_def)
  next
    case (Some w)
    have w: "cd_work_id ?c = Some w" "cd_floor_seq ?c = Some seq" using Some by (simp_all add: event_candidate_def)
    obtain c' f' where c': "c' \<in> set ?cs" "cd_work_id c' = Some w" "cd_floor_seq c' = Some f'" "seq \<le> f'"
        "c'\<lparr>cd_floor_seq := first_floor w ?cs\<rparr> \<in> set (survivors ?cs ?cs)"
      using survivors_work [OF c w(1) order w(2), of ?cs] by auto
    obtain g where g: "first_floor w ?cs = Some g" "g \<le> seq" using first_floor_le [OF c w order] by auto
    obtain s' e' why' signal' where e': "(s', e') \<in> set scanned" "c' = event_candidate s' e' why' signal'"
      using matched_events_mem [OF c'(1)] by blast
    have "delivers scanned (cd_item c') seq e"
      unfolding delivers_def using e' c'(2-4) Some by (intro exI [of _ s'] exI [of _ e']) (auto simp: event_candidate_def)
    then show ?thesis
      using c'(5) g by (intro bexI [of _ "c'\<lparr>cd_floor_seq := first_floor w ?cs\<rparr>"]) (auto simp: sync_candidates_def collapse_ai_work_def)
  qed
qed

lemma withheld_mem: "f \<in> set (withheld_seqs v es) \<longleftrightarrow> (\<exists>e. (f, e) \<in> set es \<and> match_event v f e = Withheld)"
  by (force simp: withheld_seqs_def)

abbreviation start_bounds :: "int \<Rightarrow> (nat \<times> event_row) list \<Rightarrow> nat list \<Rightarrow> bounded" where
  "start_bounds effective scanned withheld \<equiv>
     \<lparr>bd_items = [], bd_chars = 0, bd_overflow = (\<lambda>_. 0)(Coordination_Signal := length withheld),
      bd_next = (if scanned \<noteq> [] \<and> length scanned = SYNC_SCAN_CAP then max effective (int (fst (last scanned))) else effective),
      bd_blocked = (if withheld = [] then None else Some (Min (set withheld)))\<rparr>"

lemma compose_answer_eq:
  "compose_answer cost limit max_chars effective scanned withheld cs =
     (let b = bound_items cost limit max_chars cs (start_bounds effective scanned withheld)
      in \<lparr>sr_next_cursor = (case bd_blocked b of None \<Rightarrow> bd_next b | Some f \<Rightarrow> min (bd_next b) (int f - 1)),
          sr_items = bd_items b, sr_overflow = bd_overflow b, sr_resync = (length scanned = SYNC_SCAN_CAP)\<rparr>)"
  by (simp add: compose_answer_def Let_def)

lemma blocked_above_cursor:
  assumes "blocked_by (bound_items cost limit max_chars cs (start_bounds effective scanned withheld)) f"
  shows "sr_next_cursor (compose_answer cost limit max_chars effective scanned withheld cs) < int f"
  using assms by (auto simp: compose_answer_eq Let_def blocked_by_def split: option.splits)

lemma compose_delivers:
  assumes "sorted_wrt (\<lambda>a b. fst a < fst b) scanned" and "(seq, e) \<in> set scanned" and "match_event v seq e \<noteq> Ignored"
    and "int seq \<le> sr_next_cursor (compose_answer cost limit max_chars effective scanned (withheld_seqs v scanned)
           (sync_candidates v scanned live fs))"
  shows "\<exists>i \<in> set (sr_items (compose_answer cost limit max_chars effective scanned (withheld_seqs v scanned)
           (sync_candidates v scanned live fs))). delivers scanned i seq e"
proof (cases "match_event v seq e")
  case (Concerns why signal)
  then obtain c f where c: "c \<in> set (sync_candidates v scanned live fs)" "delivers scanned (cd_item c) seq e" "f \<le> seq" "cd_floor_seq c = Some f"
    using matched_survivor [OF assms(1,2) Concerns] by blast
  from bound_items_cases [OF c(1)] show ?thesis
  proof
    assume "\<forall>f. cd_floor_seq c = Some f \<longrightarrow> blocked_by (bound_items cost limit max_chars (sync_candidates v scanned live fs)
        (start_bounds effective scanned (withheld_seqs v scanned))) f"
    with c(4) blocked_above_cursor have "sr_next_cursor (compose_answer cost limit max_chars effective scanned
        (withheld_seqs v scanned) (sync_candidates v scanned live fs)) < int f" by blast
    with assms(4) c(3) show ?thesis by linarith
  qed (use c(2) in \<open>auto simp: compose_answer_eq Let_def\<close>)
next
  case Withheld
  then have w: "seq \<in> set (withheld_seqs v scanned)" using assms(2) withheld_mem by blast
  then have "blocked_by (start_bounds effective scanned (withheld_seqs v scanned)) seq"
    by (auto simp: blocked_by_def)
  from bound_items_blocked [OF this]
  have "blocked_by (bound_items cost limit max_chars (sync_candidates v scanned live fs)
      (start_bounds effective scanned (withheld_seqs v scanned))) seq" .
  from blocked_above_cursor [OF this] assms(4) show ?thesis by linarith
qed (use assms(3) in simp)

subsection \<open>The handler\<close>

definition project_events :: "db \<Rightarrow> uuid \<Rightarrow> int \<Rightarrow> (nat \<times> event_row) list" where
  "project_events d project_id effective =
     filter (\<lambda>(seq, e). e_project_id e = project_id \<and> nat effective < seq) (event_seqs d)"

lemma project_events_sorted: "sorted_wrt (\<lambda>a b. fst a < fst b) (project_events d project_id effective)"
  unfolding project_events_def using event_seqs_sorted by (rule sorted_wrt_filter)

lemma take_covers:
  assumes "sorted_wrt (\<lambda>a b. fst a < fst b) xs" and "x \<in> set xs"
    and "length xs \<le> n \<or> (take n xs \<noteq> [] \<and> fst x \<le> (fst (last (take n xs)) :: nat))"
  shows "x \<in> set (take n xs)"
proof (rule ccontr)
  assume out: "x \<notin> set (take n xs)"
  then have long: "\<not> length xs \<le> n" using assms(2) by auto
  have "x \<in> set (drop n xs)" using out assms(2) append_take_drop_id [of n xs] by (metis UnE set_append)
  moreover have "sorted_wrt (\<lambda>a b. fst a < fst b) (take n xs @ drop n xs)" using assms(1) by simp
  ultimately have "fst (last (take n xs)) < fst x"
    using long assms(3) last_in_set unfolding sorted_wrt_append by blast
  with long assms(3) show False by auto
qed

text \<open>What an answered call is made of.\<close>

lemma answer_syncD:
  assumes "answer_sync cost pl p now q ws task = Inr r"
  shows "\<exists>related. related_task_ids pl p (t_project_id task) (t_id task) = Inr related \<and>
    (let scanned = take SYNC_SCAN_CAP (project_events (pl_db pl) (t_project_id task) (effective_cursor ws (sq_ack q)));
         v = view_of (pl_db pl) p ws (t_id task) related
     in r = compose_answer cost (sq_item_limit q) (sq_max_chars q) (effective_cursor ws (sq_ack q)) scanned (withheld_seqs v scanned)
          (sync_candidates v scanned (active_claims (pl_db pl) now (t_project_id task)) (clean_files (sq_files q))))"
proof -
  have "vw_task_id (view_of (pl_db pl) p ws (t_id task) related) = t_id task" for related by (simp add: view_of_def)
  with assms show ?thesis
    unfolding answer_sync_def Let_def list_events_after_def project_events_def sync_candidates_def
    by (auto simp: and_get_eq_Inr)
qed

lemma compose_next_le:
  assumes "scanned \<noteq> []" and "\<And>x. x \<in> set scanned \<Longrightarrow> fst x \<le> fst (last scanned)" and "effective \<le> int (fst (last scanned))"
  shows "sr_next_cursor (compose_answer cost limit max_chars effective scanned withheld (sync_candidates v scanned live fs))
    \<le> int (fst (last scanned))"
proof -
  have "bd_next (bound_items cost limit max_chars (sync_candidates v scanned live fs) (start_bounds effective scanned withheld))
      \<le> int (fst (last scanned))"
  proof (rule bound_items_next_le)
    fix c seq assume "c \<in> set (sync_candidates v scanned live fs)" "si_seq (cd_item c) = Some seq"
    then obtain e where "(seq, e) \<in> set scanned" using sync_candidate_mem by fastforce
    then show "int seq \<le> int (fst (last scanned))" using assms(2) by fastforce
  qed (use assms in auto)
  then show ?thesis by (auto simp: compose_answer_eq Let_def split: option.split)
qed

lemma sorted_last:
  "sorted_wrt (\<lambda>a b. fst a < fst b) xs \<Longrightarrow> x \<in> set xs \<Longrightarrow> fst x \<le> (fst (last xs) :: nat)"
  by (induction xs) (auto simp: less_imp_le)

lemma scan_covers:
  fixes p effective d project_id
  defines "scanned \<equiv> take SYNC_SCAN_CAP (project_events d project_id effective)"
  assumes "(seq, e) \<in> set (project_events d project_id effective)"
    and "int seq \<le> sr_next_cursor (compose_answer cost limit max_chars effective scanned withheld (sync_candidates v scanned live fs))"
  shows "(seq, e) \<in> set scanned"
proof -
  let ?xs = "project_events d project_id effective"
  have cap: "0 < SYNC_SCAN_CAP" by (simp add: SYNC_SCAN_CAP_def)
  have ne: "scanned \<noteq> []" using assms(2) cap by (cases ?xs) (auto simp: scanned_def)
  have sorted: "sorted_wrt (\<lambda>a b. fst a < fst b) scanned"
    unfolding scanned_def using project_events_sorted by (rule sorted_wrt_take)
  have "last scanned \<in> set ?xs" using last_in_set [OF ne] by (auto simp: scanned_def dest: in_set_takeD)
  then have "effective \<le> int (fst (last scanned))" by (auto simp: project_events_def)
  with compose_next_le [OF ne sorted_last [OF sorted]] assms(3) have "seq \<le> fst (last scanned)"
    by (metis (no_types, lifting) of_nat_le_iff order_trans)
  with take_covers [OF project_events_sorted assms(2), of SYNC_SCAN_CAP] ne show ?thesis by (auto simp: scanned_def)
qed

lemma sync_done:
  "sync cost pl p now q = (pl', Inr r) \<longleftrightarrow>
     check_sync_input q = Inr () \<and> (\<exists>ws task. live_session (pl_db pl) (sq_session q) = Inr ws
       \<and> sync_task (pl_db pl) p (case ws of Some s \<Rightarrow> s_task_id s | None \<Rightarrow> sq_task q) = Inr task
       \<and> sync_owner (pl_db pl) p ws (sq_agent q) = Inr ()
       \<and> pl' = pl\<lparr>pl_db := advance_session (pl_db pl) now ws (effective_cursor ws (sq_ack q))\<rparr>
       \<and> answer_sync cost pl' p now q ws task = Inr r)"
  by (auto simp: sync_def guarded_eq_Inr on_ok_eq_Inr Let_def)

lemma advance_session_events: "db_events (advance_session d now ws effective) = db_events d"
  by (auto simp: advance_session_def touch_session_def ack_sync_cursor_def put_session_def Let_def split: option.split)

lemma event_seqs_pos: "(seq, e) \<in> set (event_seqs d) \<Longrightarrow> 0 < seq"
  by (auto simp: event_seqs_def simp del: upt_Suc dest!: set_zip_leftD)

lemma sync_delivers:
  assumes "sync cost pl p now q = (pl', Inr r)" and "live_session (pl_db pl) (sq_session q) = Inr ws"
    and "sync_task (pl_db pl) p (case ws of Some s \<Rightarrow> s_task_id s | None \<Rightarrow> sq_task q) = Inr task"
    and "related_task_ids pl' p (t_project_id task) (t_id task) = Inr related"
    and "(seq, e) \<in> set (event_seqs (pl_db pl))" and "e_project_id e = t_project_id task"
    and "effective_cursor ws (sq_ack q) < int seq" and "int seq \<le> sr_next_cursor r"
    and "match_event (view_of (pl_db pl') p ws (t_id task) related) seq e \<noteq> Ignored"
  shows "\<exists>i \<in> set (sr_items r). delivers (event_seqs (pl_db pl)) i seq e"
proof -
  have pl': "pl' = pl\<lparr>pl_db := advance_session (pl_db pl) now ws (effective_cursor ws (sq_ack q))\<rparr>"
    and ans: "answer_sync cost pl' p now q ws task = Inr r" using assms(1-3) unfolding sync_done by auto
  let ?eff = "effective_cursor ws (sq_ack q)" and ?v = "view_of (pl_db pl') p ws (t_id task) related"
  let ?es = "project_events (pl_db pl') (t_project_id task) ?eff"
  have seqs: "event_seqs (pl_db pl') = event_seqs (pl_db pl)" by (simp add: pl' event_seqs_def advance_session_events)
  have r: "r = compose_answer cost (sq_item_limit q) (sq_max_chars q) ?eff (take SYNC_SCAN_CAP ?es) (withheld_seqs ?v (take SYNC_SCAN_CAP ?es))
      (sync_candidates ?v (take SYNC_SCAN_CAP ?es) (active_claims (pl_db pl') now (t_project_id task)) (clean_files (sq_files q)))"
    using answer_syncD [OF ans] assms(4) by (auto simp: Let_def)
  have "0 < seq" using event_seqs_pos [OF assms(5)] .
  then have "(seq, e) \<in> set ?es" using assms(5-7) by (auto simp: project_events_def seqs)
  from scan_covers [OF this] have mem: "(seq, e) \<in> set (take SYNC_SCAN_CAP ?es)" using assms(8) unfolding r by blast
  have sorted: "sorted_wrt (\<lambda>a b. fst a < fst b) (take SYNC_SCAN_CAP ?es)" using project_events_sorted by (rule sorted_wrt_take)
  obtain i where i: "i \<in> set (sr_items r)" "delivers (take SYNC_SCAN_CAP ?es) i seq e"
    using compose_delivers [OF sorted mem assms(9)] assms(8) unfolding r by blast
  have "set (take SYNC_SCAN_CAP ?es) \<subseteq> set (event_seqs (pl_db pl))"
    by (auto simp: project_events_def seqs dest!: in_set_takeD)
  with i show ?thesis unfolding delivers_def by blast
qed

text \<open>Property C17. A resynchronisation never skips: every event of the project above the cursor it started from and at or below the
  cursor it hands out that concerns the caller is delivered by an item of the answer - by itself or by a later event of the same work
  entry - and no signal withheld for another live session lies below that cursor.\<close>

theorem sync_never_skips:
  assumes "sync cost pl p now q = (pl', Inr r)" and "live_session (pl_db pl) (sq_session q) = Inr ws"
    and "sync_task (pl_db pl) p (case ws of Some s \<Rightarrow> s_task_id s | None \<Rightarrow> sq_task q) = Inr task"
    and "related_task_ids pl' p (t_project_id task) (t_id task) = Inr related"
    and "(seq, e) \<in> set (event_seqs (pl_db pl))" and "e_project_id e = t_project_id task"
    and "effective_cursor ws (sq_ack q) < int seq" and "int seq \<le> sr_next_cursor r"
    and "match_event (view_of (pl_db pl') p ws (t_id task) related) seq e \<noteq> Ignored"
  shows "\<exists>i \<in> set (sr_items r). delivers (event_seqs (pl_db pl)) i seq e"
  by (rule sync_delivers [OF assms])

lemma compose_bounds:
  assumes "0 \<le> limit" and "0 \<le> max_chars" and "\<And>x. x \<in> set scanned \<Longrightarrow> effective < int (fst x)"
  shows "int (length (sr_items (compose_answer cost limit max_chars effective scanned (withheld_seqs v scanned) (sync_candidates v scanned live fs)))) \<le> limit
    \<and> sum_list (map cost (sr_items (compose_answer cost limit max_chars effective scanned (withheld_seqs v scanned) (sync_candidates v scanned live fs)))) \<le> max_chars
    \<and> effective \<le> sr_next_cursor (compose_answer cost limit max_chars effective scanned (withheld_seqs v scanned) (sync_candidates v scanned live fs))"
proof -
  let ?w = "withheld_seqs v scanned" and ?cs = "sync_candidates v scanned live fs"
  let ?b = "bound_items cost limit max_chars ?cs (start_bounds effective scanned ?w)"
  have "effective < int f" if "bd_blocked ?b = Some f" for f
  proof (rule bound_items_block_ge [OF _ _ that])
    fix c f assume "c \<in> set ?cs" "cd_floor_seq c = Some f"
    then show "effective < int f" using sync_candidate_mem assms(3) by fastforce
  next
    fix f assume "bd_blocked (start_bounds effective scanned ?w) = Some f"
    then have "f \<in> set ?w" using Min_in [of "set ?w"] by (auto split: if_splits)
    then show "effective < int f" using assms(3) withheld_mem by fastforce
  qed
  moreover have "effective \<le> bd_next ?b"
    using bound_items_next [of "start_bounds effective scanned ?w" cost limit max_chars ?cs] by (auto split: if_splits)
  moreover have "int (length (bd_items ?b)) \<le> limit \<and> sum_list (map cost (bd_items ?b)) \<le> max_chars"
    by (rule bound_items_within) (use assms(1,2) in auto)
  ultimately have "effective \<le> (case bd_blocked ?b of None \<Rightarrow> bd_next ?b | Some f \<Rightarrow> min (bd_next ?b) (int f - 1))"
    and "int (length (bd_items ?b)) \<le> limit" "sum_list (map cost (bd_items ?b)) \<le> max_chars"
    by (cases "bd_blocked ?b"; simp)+
  then show ?thesis by (simp only: compose_answer_eq Let_def sync_result.simps)
qed

lemma sync_within:
  assumes "sync cost pl p now q = (pl', Inr r)" and "live_session (pl_db pl) (sq_session q) = Inr ws"
  shows "int (length (sr_items r)) \<le> sq_item_limit q \<and> sum_list (map cost (sr_items r)) \<le> sq_max_chars q
    \<and> effective_cursor ws (sq_ack q) \<le> sr_next_cursor r"
proof -
  obtain task where ans: "answer_sync cost pl' p now q ws task = Inr r" and check: "check_sync_input q = Inr ()"
    using assms unfolding sync_done by auto
  let ?es = "project_events (pl_db pl') (t_project_id task) (effective_cursor ws (sq_ack q))"
  have lim: "0 \<le> sq_item_limit q" "0 \<le> sq_max_chars q" using check by (auto simp: check_sync_input_def MIN_MAX_CHARS_def)
  have "effective_cursor ws (sq_ack q) < int (fst x)" if "x \<in> set (take SYNC_SCAN_CAP ?es)" for x
    using in_set_takeD [OF that] by (auto simp: project_events_def)
  from compose_bounds [OF lim this] show ?thesis using answer_syncD [OF ans] by (auto simp: Let_def)
qed

text \<open>Property C39. The answer stays within the item limit and the character budget of its request, and its cursor never lies below
  the one it started from.\<close>

theorem sync_bounded:
  assumes "sync cost pl p now q = (pl', Inr r)" and "live_session (pl_db pl) (sq_session q) = Inr ws"
  shows "int (length (sr_items r)) \<le> sq_item_limit q \<and> sum_list (map cost (sr_items r)) \<le> sq_max_chars q
    \<and> effective_cursor ws (sq_ack q) \<le> sr_next_cursor r"
  by (rule sync_within [OF assms])

subsection \<open>An entry left out for ever\<close>

lemma tbl_put_same: "tbl_get key rs (key x) = Some x \<Longrightarrow> tbl_put key x rs = rs"
  by (induction rs) (auto split: if_splits)

definition advanced_session :: "timestamp \<Rightarrow> int \<Rightarrow> session_row \<Rightarrow> session_row" where
  "advanced_session now effective s = s\<lparr>s_sync_cursor_seq := Some effective, s_last_activity_at := Some now\<rparr>"

lemma advance_session_row:
  assumes "get_session_row d i = Some s" and "s_id s = i"
    and "case s_sync_cursor_seq s of None \<Rightarrow> True | Some c \<Rightarrow> c \<le> effective"
  shows "advance_session d now (Some s) effective = put_session (advanced_session now effective s) d"
proof -
  have twice: "tbl_put s_id y (tbl_put s_id x rs) = tbl_put s_id y rs" if "s_id x = s_id y" for x y and rs :: "session_row list"
    using that by (induction rs) auto
  show ?thesis
  proof (cases "Some effective = s_sync_cursor_seq s")
    case True
    then have "s\<lparr>s_last_activity_at := Some now\<rparr> = advanced_session now effective s" by (simp add: advanced_session_def)
    with True assms(1,2) show ?thesis by (simp add: advance_session_def touch_session_def Let_def)
  next
    case False
    have "greatest (s_sync_cursor_seq s) effective = effective"
      using assms(3) by (auto simp: greatest_def split: option.splits)
    with False assms(1,2) show ?thesis
      by (simp add: advance_session_def touch_session_def ack_sync_cursor_def advanced_session_def get_session_row_def put_session_def
          Let_def twice)
  qed
qed

lemma advance_session_again:
  assumes "get_session_row d (s_id s) = Some (advanced_session now effective s)"
  shows "advance_session d now (Some (advanced_session now effective s)) effective = d"
proof -
  let ?s = "advanced_session now effective s"
  have "advance_session d now (Some ?s) effective = put_session (advanced_session now effective ?s) d"
    by (rule advance_session_row [OF assms]) (simp_all add: advanced_session_def)
  also have "advanced_session now effective ?s = ?s" by (simp add: advanced_session_def)
  also have "put_session ?s d = d"
    using assms tbl_put_same [of s_id "db_sessions d" ?s] by (simp add: put_session_def get_session_row_def advanced_session_def)
  finally show ?thesis .
qed

lemma live_sessionD: "live_session d i = Inr (Some s) \<Longrightarrow> \<exists>j. i = Some j \<and> get_session_row d j = Some s \<and> s_ended_at s = None"
  by (auto simp: live_session_def split: option.splits)

lemma session_row_id: "get_session_row d i = Some s \<Longrightarrow> s_id s = i"
  by (auto simp: get_session_row_def dest: tbl_get_key)

text \<open>Property C22. A work entry can be left out for ever: when the first event above the cursor concerns the caller but the answer has no
  room for what stands for it (the entry's latest event lies behind as many others as the limit admits), the cursor does not move -
  acknowledging the answer changes nothing and brings the same answer again.\<close>

theorem left_out_entry_starves:
  assumes "sync cost pl p now q = (pl', Inr r)" and "live_session (pl_db pl) (sq_session q) = Inr (Some s)"
    and "sync_task (pl_db pl) p (s_task_id s) = Inr task"
    and "related_task_ids pl' p (t_project_id task) (t_id task) = Inr related"
    and "(seq, e) \<in> set (event_seqs (pl_db pl))" and "e_project_id e = t_project_id task"
    and "int seq = effective_cursor (Some s) (sq_ack q) + 1"
    and "match_event (view_of (pl_db pl') p (Some s) (t_id task) related) seq e \<noteq> Ignored"
    and "\<forall>i \<in> set (sr_items r). \<not> delivers (event_seqs (pl_db pl)) i seq e"
  shows "sync cost pl' p now (q\<lparr>sq_ack := Some (sr_next_cursor r)\<rparr>) = (pl', Inr r)"
proof -
  let ?eff = "effective_cursor (Some s) (sq_ack q)" and ?s = "advanced_session now (effective_cursor (Some s) (sq_ack q)) s"
  have "\<not> int seq \<le> sr_next_cursor r"
    using sync_delivers [OF assms(1,2) _ assms(4-6) _ _ assms(8)] assms(3,7,9) by auto
  moreover have "?eff \<le> sr_next_cursor r" using sync_within [OF assms(1,2)] by blast
  ultimately have cursor: "sr_next_cursor r = ?eff" using assms(7) by linarith
  obtain j where j: "sq_session q = Some j" "get_session_row (pl_db pl) j = Some s" "s_ended_at s = None"
    using live_sessionD [OF assms(2)] by blast
  have id: "s_id s = j" using session_row_id [OF j(2)] .
  have stored: "case s_sync_cursor_seq s of None \<Rightarrow> True | Some c \<Rightarrow> c \<le> ?eff"
    by (auto simp: effective_cursor_def split: option.split)
  have done': "check_sync_input q = Inr ()" "sync_owner (pl_db pl) p (Some s) (sq_agent q) = Inr ()"
      "answer_sync cost pl' p now q (Some s) task = Inr r"
      "pl' = pl\<lparr>pl_db := put_session ?s (pl_db pl)\<rparr>"
    using assms(1-3) advance_session_row [OF j(2) id stored, of now] by (auto simp: sync_done)
  have row: "get_session_row (pl_db pl') j = Some ?s"
    using id by (simp add: done'(4) get_session_row_def put_session_def advanced_session_def)
  have eff: "effective_cursor (Some ?s) (Some ?eff) = ?eff" by (simp add: effective_cursor_def advanced_session_def)
  have same: "advance_session (pl_db pl') now (Some ?s) ?eff = pl_db pl'" using advance_session_again row id by simp
  have "0 \<le> ?eff" using assms(7) event_seqs_pos [OF assms(5)] by linarith
  then have "check_sync_input (q\<lparr>sq_ack := Some ?eff\<rparr>) = Inr ()" using done'(1) by (auto simp: check_sync_input_def clean_files_def)
  moreover have "live_session (pl_db pl') (sq_session q) = Inr (Some ?s)"
    using row j(1,3) by (simp add: live_session_def advanced_session_def)
  moreover have "sync_task (pl_db pl') p (s_task_id ?s) = Inr task"
  proof -
    have "read_task (pl_db pl') p = read_task (pl_db pl) p"
      by (simp add: fun_eq_iff read_task_def get_task_row_def done'(4) put_session_def)
    with assms(3) show ?thesis by (cases "s_task_id s") (simp_all add: sync_task_def advanced_session_def)
  qed
  moreover have "sync_owner (pl_db pl') p (Some ?s) (sq_agent q) = Inr ()" using done'(2) by (simp add: sync_owner_def advanced_session_def)
  moreover have "view_of d p (Some ?s) t related = view_of d p (Some s) t related" for d t related
    by (simp add: view_of_def advanced_session_def)
  then have "answer_sync cost pl' p now (q\<lparr>sq_ack := Some ?eff\<rparr>) (Some ?s) task = Inr r"
    using done'(3) by (simp add: answer_sync_def eff)
  moreover have "pl' = pl'\<lparr>pl_db := advance_session (pl_db pl') now (Some ?s) ?eff\<rparr>" using same by simp
  ultimately show ?thesis
    unfolding cursor sync_done using eff by (intro conjI exI [of _ "Some ?s"] exI [of _ task]) simp_all
qed

end
