(* ===== verification/Sync_Signals.thy ===== *)
theory Sync_Signals
  imports Sync
begin

section \<open>Signals and related tasks\<close>

text \<open>
  A signal arrives as it was sent, a session sends at most its share of them whatever else happens, and
  an emission repeated under the same event id adds nothing. The tasks a resynchronisation follows are
  those of the steps the caller's steps depend on or are depended on by, transitively.
\<close>

subsection \<open>A signal arrives as it was sent\<close>

lemma event_id_value_of [simp]: "event_id_of (event_id_value i) = Some i"
  by (cases i) simp_all

lemma event_id_value_not_null [simp]: "event_id_value i \<noteq> JNull"
  by (cases i) simp_all

lemma those_map_Some: "those (map (\<lambda>x. Some (f x)) xs) = Some (map f xs)"
  by (induction xs) simp_all

lemma ref_list_value:
  "length xs \<le> COORDINATION_REF_MAX \<Longrightarrow> (\<And>x. decode (f x) = Some x) \<Longrightarrow> ref_list decode (Some (JList (map f xs))) = Some xs"
  using those_map_Some [of "\<lambda>x. x" xs] by (simp add: ref_list_def comp_def)

lemma refs_of_payload:
  assumes "refs_schema r"
  shows "refs_of [(''task_ids'', JList (map JUuid (cr_task_ids r))), (''decision_ids'', JList (map JUuid (cr_decision_ids r))),
    (''paths'', JList (map JText (cr_paths r)))] = Some r"
  using assms ref_list_value [of "cr_task_ids r" uuid_of JUuid] ref_list_value [of "cr_decision_ids r" uuid_of JUuid]
    ref_list_value [of "cr_paths r" text_of JText]
  by (simp add: refs_of_def refs_schema_def)

lemma payload_lookup:
  "map_of (coordination_payload t s b) ''text'' = Some (JText (ce_text b))"
  "map_of (coordination_payload t s b) ''task_id'' = Some (JUuid t)"
  "map_of (coordination_payload t s b) ''from_session_id'' = Some (JUuid (s_id s))"
  "map_of (coordination_payload t s b) ''session_id'' = map_option JUuid (ce_session_id b)"
  "map_of (coordination_payload t s b) ''in_reply_to'' = map_option event_id_value (ce_in_reply_to b)"
  "map_of (coordination_payload t s b) ''refs'' = Some (JObj [(''task_ids'', JList (map JUuid (cr_task_ids (ce_refs b)))),
     (''decision_ids'', JList (map JUuid (cr_decision_ids (ce_refs b)))), (''paths'', JList (map JText (cr_paths (ce_refs b))))])"
  by (simp_all add: coordination_payload_def split: option.split)

text \<open>Property C38. A signal is read exactly as it was sent: what a resynchronisation decodes from the event an emission stores is the intent,
  the text, the references, the reply and the sender of the request - no accepted signal is ever dropped as malformed.\<close>

theorem signal_roundtrip:
  assumes "emit_schema b"
  shows "signal_of (coordination_event p now eid project_id target emitter b) = Some
    \<lparr>cg_event_id = (case ce_event_id b of Some i \<Rightarrow> i | None \<Rightarrow> Uuid4 eid), cg_intent = ce_intent b, cg_text = ce_text b, cg_refs = ce_refs b,
     cg_in_reply_to = ce_in_reply_to b, cg_from_session_id = Some (s_id emitter)\<rparr>"
proof -
  have refs: "refs_schema (ce_refs b)" and intent: "ce_intent b \<in> set COORDINATION_INTENTS" using assms by (simp_all add: emit_schema_def)
  have "drop (length COORDINATION_EVENT_PREFIX) (COORDINATION_EVENT_PREFIX @ ce_intent b) = ce_intent b" by simp
  then show ?thesis
    unfolding signal_of_def coordination_event_def present_def
    using refs_of_payload [OF refs] intent by (cases "ce_in_reply_to b") (simp_all add: payload_lookup Let_def)
qed

subsection \<open>The limit\<close>

inductive signal_step :: "db \<Rightarrow> db \<Rightarrow> bool" where
  Emission: "signal_step d (fst (emit d decisions p now eid b))"
| Other: "db_events d' = db_events d @ es \<Longrightarrow> list_all (\<lambda>e. \<not> is_coordination e) es \<Longrightarrow> signal_step d d'"

definition signals_of :: "db \<Rightarrow> uuid \<Rightarrow> nat" where
  "signals_of d i = length (filter (sent_by i) (db_events d))"

lemma generic_path_refuses: "resolve_event_identity d p ev = Inr ev' \<Longrightarrow> \<not> is_coordination ev'"
  by (auto simp: resolve_event_identity_def Let_def is_coordination_def COORDINATION_EVENT_PREFIX_def)

lemma touch_session_events [simp]: "db_events (fst (touch_session d now i)) = db_events d"
  by (simp add: touch_session_def put_session_def Let_def split: option.split)

lemma sent_by_event: "sent_by i (coordination_event p now eid k target emitter b) \<longleftrightarrow> i = s_id emitter"
  by (auto simp: sent_by_def is_coordination_def coordination_event_def payload_lookup starts_with_def)

lemma emit_events:
  assumes "emit d decisions p now eid b = (d', r)"
  shows "db_events d' = db_events d \<or>
    (\<exists>target emitter. get_session_row d (ce_from_session_id b) = Some emitter \<and> signals_of d (ce_from_session_id b) < COORDINATION_SESSION_LIMIT
       \<and> db_events d' = db_events d @ [coordination_event p now eid (e_project_id (last (db_events d'))) target emitter b])"
proof (cases "db_events d' = db_events d")
  case False
  have can: "ensure_can_write p ''coordination'' = Inr ()"
    using assms False by (cases "ensure_can_write p ''coordination''") (auto simp: emit_def)
  obtain emitter t where row: "emitter_of d p (ce_from_session_id b) = Inr (emitter, t)"
    using assms False can by (cases "emitter_of d p (ce_from_session_id b)") (auto simp: emit_def)
  have fresh: "replayed_signal d (t_project_id t) b = Inr None"
    using assms False can row by (cases "replayed_signal d (t_project_id t) b") (auto simp: emit_def split: option.splits)
  obtain target where ok: "check_emission d decisions p (t_project_id t) b = Inr target"
    using assms False can row fresh by (cases "check_emission d decisions p (t_project_id t) b") (auto simp: emit_def)
  have d': "db_events d' = db_events (fst (create_event d (coordination_event p now eid (t_project_id t) target emitter b)))"
    using assms can row fresh ok touch_session_events by (auto simp: emit_def split: prod.splits) (metis fst_conv touch_session_events)
  have "get_session_row d (ce_from_session_id b) = Some emitter"
    using row by (auto simp: emitter_of_def and_get_eq_Inr split: option.splits)
  moreover have "signals_of d (ce_from_session_id b) < COORDINATION_SESSION_LIMIT"
    using ok by (auto simp: check_emission_def and_get_eq_Inr signals_of_def)
  moreover have "db_events d' = db_events d @ [coordination_event p now eid (t_project_id t) target emitter b]"
    using d' False by (auto simp: create_event_def insert_and_notify_def publish_event_def split: option.splits)
  moreover from this have "e_project_id (last (db_events d')) = t_project_id t" by (simp add: coordination_event_def)
  ultimately show ?thesis by auto
qed simp

lemma signal_step_limit:
  assumes "signal_step d d'" and "\<And>i. signals_of d i \<le> COORDINATION_SESSION_LIMIT"
  shows "signals_of d' i \<le> COORDINATION_SESSION_LIMIT"
  using assms(1)
proof cases
  case (Emission decisions p now eid b)
  obtain r where r: "emit d decisions p now eid b = (d', r)" using Emission by (cases "emit d decisions p now eid b") auto
  from emit_events [OF r] show ?thesis
  proof
    assume "db_events d' = db_events d"
    then show ?thesis using assms(2) [of i] by (simp add: signals_of_def)
  next
    assume "\<exists>target emitter. get_session_row d (ce_from_session_id b) = Some emitter \<and> signals_of d (ce_from_session_id b) < COORDINATION_SESSION_LIMIT
       \<and> db_events d' = db_events d @ [coordination_event p now eid (e_project_id (last (db_events d'))) target emitter b]"
    then obtain target emitter k where e: "get_session_row d (ce_from_session_id b) = Some emitter"
        "signals_of d (ce_from_session_id b) < COORDINATION_SESSION_LIMIT"
        "db_events d' = db_events d @ [coordination_event p now eid k target emitter b]" by blast
    have "s_id emitter = ce_from_session_id b" using e(1) by (auto simp: get_session_row_def dest: tbl_get_key)
    then show ?thesis using e(2,3) assms(2) [of i] by (auto simp: signals_of_def sent_by_event)
  qed
next
  case (Other es)
  then have "filter (sent_by i) es = []" by (auto simp: filter_empty_conv sent_by_def list_all_iff)
  with Other assms(2) [of i] show ?thesis by (simp add: signals_of_def)
qed

text \<open>Property C26. No session ever has more than its share of signals in the log: along every history of emissions, successful or refused,
  and of other handlers' events, the signals of each session stay within the limit.\<close>

theorem signals_limited:
  assumes "signal_step\<^sup>*\<^sup>* d d'" and "\<forall>i. signals_of d i \<le> COORDINATION_SESSION_LIMIT"
  shows "signals_of d' i \<le> COORDINATION_SESSION_LIMIT"
  using assms(1)
proof (induction arbitrary: i rule: rtranclp_induct)
  case base
  then show ?case using assms(2) by blast
next
  case (step y z)
  then show ?case using signal_step_limit by blast
qed

subsection \<open>Emitting again\<close>

lemma signal_event_found:
  "find_event (fst (create_event d ev)) (e_id ev) = Some (snd (create_event d ev))"
proof -
  have snoc: "tbl_get e_id (rs @ [ev]) (e_id ev) = (case tbl_get e_id rs (e_id ev) of Some r \<Rightarrow> Some r | None \<Rightarrow> Some ev)" for rs
    by (induction rs) auto
  show ?thesis
    by (auto simp: create_event_def find_event_def insert_and_notify_def publish_event_def snoc split: option.split)
qed

lemma create_event_tables [simp]:
  "db_sessions (fst (create_event d ev)) = db_sessions d" "db_tasks (fst (create_event d ev)) = db_tasks d"
  by (simp_all add: create_event_def insert_and_notify_def publish_event_def split: option.split)

lemma emitter_of_touched:
  assumes "emitter_of d p i = Inr (s, t)" and "db_sessions d' = db_sessions d" and "db_tasks d' = db_tasks d"
  shows "\<exists>s'. s_id s' = i \<and> emitter_of (fst (touch_session d' now (s_id s))) p i = Inr (s', t)"
proof -
  have row: "get_session_row d i = Some s" "s_ended_at s = None" "s_id s = i"
    using assms(1) by (auto simp: emitter_of_def and_get_eq_Inr get_session_row_def dest: tbl_get_key split: option.splits)
  let ?d = "fst (touch_session d' now (s_id s))" and ?s = "s\<lparr>s_last_activity_at := Some now\<rparr>"
  have row': "get_session_row d' i = Some s" using row(1) assms(2) by (simp add: get_session_row_def)
  have "get_session_row ?d i = Some ?s"
    using row' row(3) by (simp add: touch_session_def get_session_row_def put_session_def Let_def)
  moreover have "read_task ?d p = read_task d p"
    using row' row(3) assms(3) by (simp add: fun_eq_iff read_task_def get_task_row_def touch_session_def put_session_def Let_def)
  ultimately have "emitter_of ?d p i = Inr (?s, t)"
    using assms(1) row by (cases "s_task_id s") (auto simp: emitter_of_def and_get_eq_Inr split: option.splits)
  with row(3) show ?thesis by (intro exI [of _ ?s]) simp
qed

text \<open>An emission is idempotent on its event id: sent again it answers the same and leaves the database alone.\<close>

theorem emission_idempotent:
  assumes "emit d decisions p now eid b = (d1, Inr m)" and "ce_event_id b = Some i"
  shows "emit d1 decisions' p now' eid' b = (d1, Inr m)"
proof -
  have can: "ensure_can_write p ''coordination'' = Inr ()"
    using assms(1) by (cases "ensure_can_write p ''coordination''") (auto simp: emit_def)
  obtain s t where row: "emitter_of d p (ce_from_session_id b) = Inr (s, t)"
    using assms(1) can by (cases "emitter_of d p (ce_from_session_id b)") (auto simp: emit_def)
  obtain x where replay: "replayed_signal d (t_project_id t) b = Inr x"
    using assms(1) can row by (cases "replayed_signal d (t_project_id t) b") (auto simp: emit_def)
  show ?thesis
  proof (cases x)
    case (Some e)
    then have "d1 = d" "m = emitted d e" using assms(1) can row replay by (auto simp: emit_def)
    with Some can row replay show ?thesis by (simp add: emit_def)
  next
    case None
    obtain target where ok: "check_emission d decisions p (t_project_id t) b = Inr target"
      using assms(1) can row replay None by (cases "check_emission d decisions p (t_project_id t) b") (auto simp: emit_def)
    let ?ev = "coordination_event p now eid (t_project_id t) target s b"
    let ?d = "fst (create_event d ?ev)" and ?e = "snd (create_event d ?ev)"
    have d1: "d1 = fst (touch_session ?d now (s_id s))" and m: "m = emitted ?d ?e"
      using assms(1) can row replay None ok by (auto simp: emit_def split: prod.splits)
    obtain s' where s': "emitter_of d1 p (ce_from_session_id b) = Inr (s', t)"
      using emitter_of_touched [OF row, of ?d now] d1 by auto
    have id: "e_id ?ev = i" using assms(2) by (simp add: coordination_event_def)
    have "find_event d i = None"
      using replay None assms(2) by (auto simp: replayed_signal_def split: option.splits)
    then have e: "?e = ?ev" using id by (simp add: create_event_def)
    have found: "find_event d1 i = Some ?ev"
      using signal_event_found [of d ?ev] e id d1 touch_session_events [of ?d now "s_id s"] by (simp add: find_event_def)
    have sid: "s_id s = ce_from_session_id b"
      using row by (auto simp: emitter_of_def and_get_eq_Inr get_session_row_def dest: tbl_get_key split: option.splits)
    have "replayed_signal d1 (t_project_id t) b = Inr (Some ?ev)"
      using found sid assms(2) by (simp add: replayed_signal_def sent_by_event) (simp add: coordination_event_def)
    moreover have "emitted d1 ?ev = m"
      using d1 m e touch_session_events [of ?d now "s_id s"] by (simp add: emitted_def event_seq_def event_seqs_def)
    ultimately show ?thesis using can s' by (simp add: emit_def)
  qed
qed

subsection \<open>Related tasks\<close>

definition key_edges :: "(string \<Rightarrow> string list) \<Rightarrow> (string \<times> string) set" where
  "key_edges succ = {(a, b). b \<in> set (succ a)}"

lemma close_keys_sound:
  "k \<in> set (close_keys keys succ mine stack seen) \<Longrightarrow>
     k \<in> set seen \<or> (k \<in> set keys \<and> k \<notin> set mine \<and> (\<exists>a \<in> set stack. (a, k) \<in> (key_edges succ)\<^sup>*))"
proof (induction keys succ mine stack seen rule: close_keys.induct)
  case (2 keys succ mine k0 stack seen)
  show ?case
  proof (cases "k0 \<in> set seen \<or> k0 \<in> set mine \<or> k0 \<notin> set keys")
    case True
    with 2 show ?thesis by auto
  next
    case False
    have "(k0, k) \<in> (key_edges succ)\<^sup>*" if "(a, k) \<in> (key_edges succ)\<^sup>*" "a \<in> set (succ k0)" for a
      using that by (auto simp: key_edges_def intro: converse_rtrancl_into_rtrancl)
    with 2(2) [OF False] 2(3) False show ?thesis by auto
  qed
qed simp

lemma close_keys_closed:
  assumes "\<forall>k \<in> set seen. set (succ k) \<inter> set keys \<subseteq> set seen \<union> set mine \<union> set stack"
  shows "set seen \<union> (set stack \<inter> set keys - set mine) \<subseteq> set (close_keys keys succ mine stack seen)
    \<and> (\<forall>k \<in> set (close_keys keys succ mine stack seen). set (succ k) \<inter> set keys \<subseteq> set (close_keys keys succ mine stack seen) \<union> set mine)"
  using assms
proof (induction keys succ mine stack seen rule: close_keys.induct)
  case (2 keys succ mine k0 stack seen)
  show ?case
  proof (cases "k0 \<in> set seen \<or> k0 \<in> set mine \<or> k0 \<notin> set keys")
    case True
    then have "\<forall>k \<in> set seen. set (succ k) \<inter> set keys \<subseteq> set seen \<union> set mine \<union> set stack" using 2(3) by auto
    with 2(1) [OF True] True show ?thesis by auto
  next
    case False
    have "\<forall>k \<in> set (k0 # seen). set (succ k) \<inter> set keys \<subseteq> set (k0 # seen) \<union> set mine \<union> set (rev (succ k0) @ stack)" using 2(3) by auto
    from 2(2) [OF False this] False show ?thesis by auto
  qed
qed auto

lemma close_keys_reach:
  assumes "\<forall>k. set (succ k) \<subseteq> set keys"
  shows "set (close_keys keys succ mine (rev (concat (map succ mine))) [])
    = {k. k \<notin> set mine \<and> (\<exists>m \<in> set mine. (m, k) \<in> (key_edges succ)\<^sup>+)}"
proof (intro equalityI subsetI)
  fix k assume "k \<in> set (close_keys keys succ mine (rev (concat (map succ mine))) [])"
  from close_keys_sound [OF this] show "k \<in> {k. k \<notin> set mine \<and> (\<exists>m \<in> set mine. (m, k) \<in> (key_edges succ)\<^sup>+)}"
    by (auto simp: key_edges_def intro: rtrancl_into_trancl2)
next
  let ?S = "set (close_keys keys succ mine (rev (concat (map succ mine))) [])"
  have start: "(\<Union>m \<in> set mine. set (succ m)) - set mine \<subseteq> ?S" and closed: "\<forall>k \<in> ?S. set (succ k) \<subseteq> ?S \<union> set mine"
    using close_keys_closed [of "[]" succ keys mine "rev (concat (map succ mine))"] assms by (auto; blast)+
  fix k assume "k \<in> {k. k \<notin> set mine \<and> (\<exists>m \<in> set mine. (m, k) \<in> (key_edges succ)\<^sup>+)}"
  then obtain m where m: "k \<notin> set mine" "m \<in> set mine" "(m, k) \<in> (key_edges succ)\<^sup>+" by auto
  from m(3) have "k \<in> ?S \<union> set mine"
  proof (induction rule: trancl_induct)
    case (base y)
    then show ?case using start m(2) by (auto simp: key_edges_def)
  next
    case (step y z)
    then show ?case using start closed by (auto simp: key_edges_def)
  qed
  with m(1) show "k \<in> ?S" by blast
qed

lemma known_deps_keys: "set (known_deps steps k) \<subseteq> set (map sv_key steps)"
  by (auto simp: known_deps_def split: option.splits)

lemma child_keys_keys: "set (child_keys steps k) \<subseteq> set (map sv_key steps)"
  by (auto simp: child_keys_def)

lemma find_key:
  assumes "distinct (map sv_key steps)" and "s \<in> set steps"
  shows "find (\<lambda>s'. sv_key s' = sv_key s) (rev steps) = Some s"
proof -
  obtain s' where s': "find (\<lambda>s'. sv_key s' = sv_key s) (rev steps) = Some s'"
    using assms(2) by (cases "find (\<lambda>s'. sv_key s' = sv_key s) (rev steps)") (auto simp: find_None_iff)
  then obtain i where "i < length (rev steps)" "s' = rev steps ! i" "sv_key s' = sv_key s" by (auto simp: find_Some_iff)
  then have "s' \<in> set steps" "sv_key s' = sv_key s" using nth_mem [of i "rev steps"] by auto
  with assms s' show ?thesis by (simp add: distinct_map inj_on_def)
qed

lemma child_edges:
  assumes "distinct (map sv_key steps)"
  shows "key_edges (child_keys steps) = (key_edges (known_deps steps))\<inverse>"
proof -
  have "b \<in> set (child_keys steps a) \<longleftrightarrow> a \<in> set (known_deps steps b)" for a b
  proof (cases "\<exists>s \<in> set steps. sv_key s = b")
    case True
    then obtain s where s: "s \<in> set steps" "sv_key s = b" by blast
    have "s' = s" if "s' \<in> set steps" "sv_key s' = b" for s' using assms s that by (auto simp: distinct_map inj_on_def)
    have "b \<in> set (child_keys steps a) \<longleftrightarrow> (\<exists>s' \<in> set steps. sv_key s' = b \<and> a \<in> set (sv_depends_on s') \<and> a \<in> sv_key ` set steps)"
      by (auto simp: child_keys_def)
    also have "\<dots> \<longleftrightarrow> a \<in> set (sv_depends_on s) \<and> a \<in> sv_key ` set steps" using s \<open>\<And>s'. _ \<Longrightarrow> _ \<Longrightarrow> s' = s\<close> by blast
    finally show ?thesis using find_key [OF assms s(1)] s(2) by (simp add: known_deps_def)
  next
    case False
    then have "find (\<lambda>s. sv_key s = b) (rev steps) = None" by (auto simp: find_None_iff)
    with False show ?thesis by (auto simp: child_keys_def known_deps_def)
  qed
  then show ?thesis by (auto simp: key_edges_def)
qed

text \<open>Property C25. The tasks a resynchronisation follows are exactly those linked to a step that is not the caller's own and that one of the
  caller's steps depends on, or that depends on one, through any chain of dependencies.\<close>

theorem related_tasks_are_reachable:
  assumes "distinct (map sv_key steps)"
  shows "t \<in> related_of_steps steps my_task \<longleftrightarrow> t \<noteq> my_task \<and>
    (\<exists>s \<in> set steps. t \<in> set (linked_ids s) \<and> sv_key s \<notin> set (my_keys steps my_task) \<and>
       (\<exists>m \<in> set (my_keys steps my_task). (m, sv_key s) \<in> (key_edges (known_deps steps))\<^sup>+ \<or> (sv_key s, m) \<in> (key_edges (known_deps steps))\<^sup>+))"
proof -
  have up: "set (close_keys (map sv_key steps) (known_deps steps) (my_keys steps my_task) (rev (concat (map (known_deps steps) (my_keys steps my_task)))) [])
      = {k. k \<notin> set (my_keys steps my_task) \<and> (\<exists>m \<in> set (my_keys steps my_task). (m, k) \<in> (key_edges (known_deps steps))\<^sup>+)}"
    by (rule close_keys_reach) (use known_deps_keys in blast)
  have down: "set (close_keys (map sv_key steps) (child_keys steps) (my_keys steps my_task) (rev (concat (map (child_keys steps) (my_keys steps my_task)))) [])
      = {k. k \<notin> set (my_keys steps my_task) \<and> (\<exists>m \<in> set (my_keys steps my_task). (k, m) \<in> (key_edges (known_deps steps))\<^sup>+)}"
    using close_keys_reach [of "child_keys steps" "map sv_key steps" "my_keys steps my_task"] child_keys_keys
    by (simp add: child_edges [OF assms] trancl_converse)
  show ?thesis unfolding related_of_steps_def Let_def up down by auto
qed

end
