(* ===== verification/Sync_Witnesses.thy ===== *)
theory Sync_Witnesses
  imports Sync_Delivery Sync_Signals
begin

section \<open>Resynchronisation on a concrete log\<close>

text \<open>
  A session of machine 10 on task 30, and a log in which another machine starts a work entry, a
  decision is taken and the work entry completes. With room for one item the entry, whose latest
  event is the third, is left out by the decision on every call.
\<close>

definition other_event :: "uuid \<Rightarrow> event_type \<Rightarrow> (string \<times> jval) list \<Rightarrow> event_row" where
  "other_event i ty payload = \<lparr>e_id = Uuid4 i, e_type = ty, e_project_id = 5, e_task_id = Some 30, e_machine_id = Some 11,
     e_actor_type = Actor_system, e_actor_id = 11, e_client_timestamp = 0, e_payload = payload\<rparr>"

definition sync_log :: "event_row list" where
  "sync_log = [other_event 1 ''ai_work.started'' [(''ai_work_id'', JUuid 70)],
     other_event 2 ''decision.accepted'' [], other_event 3 ''ai_work.completed'' [(''ai_work_id'', JUuid 70)]]"

definition sync_session :: session_row where
  "sync_session = \<lparr>s_id = 50, s_task_id = Some 30, s_machine_id = Some 10, s_agent_id = None, s_started_at = 0, s_ended_at = None,
     s_last_activity_at = None, s_sync_cursor_seq = None\<rparr>"

definition sync_task_row :: task_row where
  "sync_task_row = \<lparr>t_id = 30, t_project_id = 5, t_title = ''t'', t_description = None, t_status = TaskStatus_IN_PROGRESS,
     t_claimed_by_machine_id = None, t_claimed_by_agent_id = None, t_version = 1, t_updated_at = 0, t_handoff_cursor_seq = None\<rparr>"

definition sync_plan :: plan_db where
  "sync_plan = \<lparr>pl_db = empty_db\<lparr>db_tasks := [sync_task_row], db_sessions := [sync_session], db_projects := [5], db_events := sync_log\<rparr>,
     pl_roadmaps = [], pl_phases = [], pl_steps = [], pl_deps = [], pl_links = [], pl_revisions = []\<rparr>"

definition synced_plan :: plan_db where
  "synced_plan = sync_plan\<lparr>pl_db := (pl_db sync_plan)\<lparr>db_sessions := [advanced_session 9 0 sync_session]\<rparr>\<rparr>"

definition sync_caller :: principal where
  "sync_caller = sample_principal\<lparr>p_machine := sample_machine\<lparr>m_launch_scope := None\<rparr>\<rparr>"

definition ten :: "sync_item \<Rightarrow> int" where
  "ten i = 10"

definition sync_query :: "int \<Rightarrow> sync_request" where
  "sync_query n = \<lparr>sq_session = Some 50, sq_agent = None, sq_task = None, sq_ack = None, sq_files = [], sq_item_limit = n,
     sq_max_chars = 12000\<rparr>"

definition decision_item :: sync_item where
  "decision_item = Event_Item Decision 2 ''decision.accepted'' (Some 30) None"

definition work_item :: sync_item where
  "work_item = Event_Item Own_Task 3 ''ai_work.completed'' (Some 30) None"

definition no_overflow :: "sync_why \<Rightarrow> nat" where
  "no_overflow w = 0"

lemmas sync_sample_defs = sync_plan_def sync_session_def sync_task_row_def sync_caller_def sync_query_def sample_principal_def
  sample_machine_def

lemma sample_session_row: "get_session_row (pl_db sync_plan) 50 = Some sync_session"
  by (simp add: sync_plan_def get_session_row_def sync_session_def)

lemma sample_live: "live_session (pl_db sync_plan) (sq_session (sync_query n)) = Inr (Some sync_session)"
  using sample_session_row by (simp add: live_session_def sync_query_def) (simp add: sync_session_def)

lemma sample_sync_task: "sync_task (pl_db sync_plan) sync_caller (s_task_id sync_session) = Inr sync_task_row"
  by (simp add: sync_task_def read_task_def get_task_row_def sync_sample_defs ensure_project_access_def has_project_access_def found_def)

lemma sample_related: "related_task_ids synced_plan sync_caller 5 30 = Inr {}"
  by (simp add: related_task_ids_def list_roadmaps_def synced_plan_def sync_sample_defs ensure_project_access_def has_project_access_def
      newest_roadmaps_def)

lemma sample_cursor: "effective_cursor (Some sync_session) (sq_ack (sync_query n)) = 0"
  by (simp add: effective_cursor_def sync_session_def sync_query_def)

lemma sample_advance: "sync_plan\<lparr>pl_db := advance_session (pl_db sync_plan) 9 (Some sync_session) 0\<rparr> = synced_plan"
proof -
  have "advance_session (pl_db sync_plan) 9 (Some sync_session) 0 = put_session (advanced_session 9 0 sync_session) (pl_db sync_plan)"
    by (rule advance_session_row [OF sample_session_row]) (simp_all add: sync_session_def)
  then show ?thesis by (simp add: synced_plan_def put_session_def sync_plan_def sync_session_def advanced_session_def)
qed

definition sample_view :: sync_view where
  "sample_view = view_of (pl_db synced_plan) sync_caller (Some sync_session) 30 {}"

definition scanned_log :: "(nat \<times> event_row) list" where
  "scanned_log = zip [1, 2, 3] sync_log"

lemma sample_events: "list_events_after (pl_db synced_plan) sync_caller 5 (Some 0) SYNC_SCAN_CAP = Inr scanned_log"
  by (simp add: list_events_after_def synced_plan_def sync_plan_def sync_log_def scanned_log_def event_seqs_def other_event_def
      sync_caller_def sample_principal_def sample_machine_def ensure_project_access_def has_project_access_def SYNC_SCAN_CAP_def upt_rec)

definition sample_result :: "int \<Rightarrow> sync_result" where
  "sample_result n = compose_answer ten n 12000 0 scanned_log (withheld_seqs sample_view scanned_log)
     (collapse_ai_work (matched_events sample_view scanned_log) @ claim_candidates [] 30 [])"

lemma sample_sync:
  assumes "1 \<le> n" and "n \<le> 200"
  shows "sync ten sync_plan sync_caller 9 (sync_query n) = (synced_plan, Inr (sample_result n))"
proof -
  have "check_sync_input (sync_query n) = Inr ()"
    using assms by (simp add: check_sync_input_def sync_query_def clean_files_def SYNC_MAX_LIMIT_def MIN_MAX_CHARS_def MAX_MAX_CHARS_def
        MAX_FILES_def)
  moreover have "sync_owner (pl_db sync_plan) sync_caller (Some sync_session) (sq_agent (sync_query n)) = Inr ()" by code_simp
  moreover have "active_claims (pl_db synced_plan) 9 5 = []" by (simp add: active_claims_def synced_plan_def sync_plan_def empty_db_def)
  then have "answer_sync ten synced_plan sync_caller 9 (sync_query n) (Some sync_session) sync_task_row = Inr (sample_result n)"
    using sample_related sample_cursor [of n] sample_events
    by (simp add: answer_sync_def sample_result_def sample_view_def sync_task_row_def sync_query_def clean_files_def Let_def)
  ultimately show ?thesis
    unfolding sync_done using sample_live [of n] sample_sync_task sample_advance sample_cursor [of n]
    by (intro conjI exI [of _ "Some sync_session"] exI [of _ sync_task_row]) simp_all
qed

lemma sample_view_eq: "view_of (pl_db synced_plan) sync_caller (Some sync_session) (t_id sync_task_row) {} = sample_view"
  by (simp add: sample_view_def sync_task_row_def)

lemma sample_related': "related_task_ids synced_plan sync_caller (t_project_id sync_task_row) (t_id sync_task_row) = Inr {}"
  using sample_related by (simp add: sync_task_row_def)

lemma sample_first: "(1, other_event 1 ''ai_work.started'' [(''ai_work_id'', JUuid 70)]) \<in> set (event_seqs (pl_db sync_plan))"
  by (simp add: event_seqs_def sync_plan_def sync_log_def upt_rec)

lemma sample_first_match: "match_event sample_view 1 (other_event 1 ''ai_work.started'' [(''ai_work_id'', JUuid 70)]) \<noteq> Ignored"
  by code_simp

lemma sample_items: "sr_items (sample_result 1) = [decision_item]" "sr_items (sample_result 2) = [decision_item, work_item]"
    "sr_next_cursor (sample_result 1) = 0" "sr_next_cursor (sample_result 2) = 3"
  by code_simp+

lemma sync_never_skips_witness:
  "\<exists>i \<in> {decision_item, work_item}.
     delivers (event_seqs (pl_db sync_plan)) i 1 (other_event 1 ''ai_work.started'' [(''ai_work_id'', JUuid 70)])"
  using sync_never_skips [OF sample_sync sample_live, of 2 sync_task_row "{}" 1]
    sample_sync_task sample_related' sample_first sample_first_match sample_items sample_cursor [of 2] sample_view_eq
  by (auto simp: other_event_def sync_task_row_def)

lemma sync_bounded_witness: "int (length (sr_items (sample_result 1))) \<le> 1 \<and> 0 \<le> sr_next_cursor (sample_result 1)"
  using sync_bounded [OF sample_sync sample_live, of 1] sample_cursor [of 1] by (simp add: sync_query_def)

lemma sample_left_out: "\<not> delivers (event_seqs (pl_db sync_plan)) decision_item 1 (other_event 1 ''ai_work.started'' [(''ai_work_id'', JUuid 70)])"
  by (auto simp: delivers_def decision_item_def event_seqs_def sync_plan_def sync_log_def other_event_def ai_work_id_def upt_rec
      AI_WORK_PREFIX_def starts_with_def)

lemma left_out_entry_starves_witness:
  "sync ten synced_plan sync_caller 9 ((sync_query 1)\<lparr>sq_ack := Some 0\<rparr>) = (synced_plan, Inr (sample_result 1))"
  using left_out_entry_starves [OF sample_sync sample_live sample_sync_task sample_related' sample_first, of 1]
    sample_first_match sample_items sample_cursor [of 1] sample_left_out sample_view_eq
  by (simp add: other_event_def sync_task_row_def)

definition sample_emit :: coordination_emit where
  "sample_emit = \<lparr>ce_from_session_id = 50, ce_intent = ''question'', ce_task_id = 30, ce_session_id = None, ce_text = ''who owns src?'',
     ce_refs = \<lparr>cr_task_ids = [30], cr_decision_ids = [], cr_paths = [''src'']\<rparr>, ce_in_reply_to = None, ce_event_id = Some (Uuid4 90)\<rparr>"

lemma sample_emit_schema: "emit_schema sample_emit"
  by code_simp

lemma signal_roundtrip_witness:
  "signal_of (coordination_event sync_caller 9 0 5 sync_task_row sync_session sample_emit) = Some
    \<lparr>cg_event_id = Uuid4 90, cg_intent = ''question'', cg_text = ''who owns src?'', cg_refs = ce_refs sample_emit, cg_in_reply_to = None,
     cg_from_session_id = Some 50\<rparr>"
  using signal_roundtrip [OF sample_emit_schema, of sync_caller 9 0 5 sync_task_row sync_session]
  by (simp add: sample_emit_def sync_session_def)

lemma signals_limited_witness:
  "signals_of (fst (emit (pl_db sync_plan) (\<lambda>_. None) sync_caller 9 0 sample_emit)) 50 \<le> COORDINATION_SESSION_LIMIT"
proof (rule signals_limited)
  show "signal_step\<^sup>*\<^sup>* (pl_db sync_plan) (fst (emit (pl_db sync_plan) (\<lambda>_. None) sync_caller 9 0 sample_emit))"
    using signal_step.Emission by (rule r_into_rtranclp)
  show "\<forall>i. signals_of (pl_db sync_plan) i \<le> COORDINATION_SESSION_LIMIT"
    by (simp add: signals_of_def sync_plan_def sync_log_def sent_by_def is_coordination_def other_event_def COORDINATION_EVENT_PREFIX_def
        starts_with_def)
qed

lemma sample_emission_ok: "\<not> isl (snd (emit (pl_db sync_plan) (\<lambda>_. None) sync_caller 9 0 sample_emit))"
  by code_simp

lemma emission_idempotent_witness:
  "\<exists>d1 m. emit (pl_db sync_plan) (\<lambda>_. None) sync_caller 9 0 sample_emit = (d1, Inr m)
     \<and> emit d1 (\<lambda>_. None) sync_caller 12 1 sample_emit = (d1, Inr m)"
proof -
  obtain d1 m where "emit (pl_db sync_plan) (\<lambda>_. None) sync_caller 9 0 sample_emit = (d1, Inr m)"
    using sample_emission_ok by (cases "emit (pl_db sync_plan) (\<lambda>_. None) sync_caller 9 0 sample_emit"; cases "snd (emit (pl_db sync_plan) (\<lambda>_. None) sync_caller 9 0 sample_emit)") auto
  with emission_idempotent [OF this, of "Uuid4 90" "\<lambda>_. None" 12 1] show ?thesis by (simp add: sample_emit_def)
qed

definition sample_step :: "string \<Rightarrow> string list \<Rightarrow> uuid \<Rightarrow> step_view" where
  "sample_step k deps t = \<lparr>sv_step = \<lparr>sp_id = 0, sp_roadmap_id = 0, sp_phase_id = 0, sp_key = k, sp_position = 0, sp_title = k,
       sp_objective = None, sp_context = None, sp_instructions = None, sp_acceptance_criteria = [], sp_criteria_checked = [],
       sp_notes = None, sp_metadata = [], sp_task_plan = [], sp_state_override = None, sp_state_override_reason = None,
       sp_version = 1, sp_prov = \<lparr>pv_origin = RO_MANUAL, pv_actor_type = Actor_user, pv_actor_id = 1, pv_agent_id = None,
         pv_machine_id = None\<rparr>\<rparr>,
     sv_depends_on = deps, sv_linked_tasks = [(t, None, RO_MANUAL)], sv_state = SS_NOT_STARTED, sv_available = True, sv_waiting_on = [],
     sv_completed = 0, sv_total = 1\<rparr>"

definition sample_steps :: "step_view list" where
  "sample_steps = [sample_step ''a'' [] 31, sample_step ''b'' [''a''] 32, sample_step ''c'' [''b''] 30]"

lemma related_tasks_are_reachable_witness: "31 \<in> related_of_steps sample_steps 30"
proof -
  have c: "(''c'', ''b'') \<in> key_edges (known_deps sample_steps)" "(''b'', ''a'') \<in> key_edges (known_deps sample_steps)"
    by (simp_all add: key_edges_def known_deps_def sample_steps_def sample_step_def sv_key_def)
  have "distinct (map sv_key sample_steps)" by (simp add: sample_steps_def sample_step_def sv_key_def)
  from related_tasks_are_reachable [OF this, of 31 30] trancl_into_trancl [OF r_into_trancl [OF c(1)] c(2)]
  show ?thesis by (auto simp: sample_steps_def sample_step_def sv_key_def linked_ids_def my_keys_def)
qed

end
