(* ===== verification/Admission.thy ===== *)
theory Admission
  imports Accounts Launches Roadmap_Service
begin

section \<open>Admission of a roadmap's tasks (\<open>services/eligibility.py\<close>, \<open>admission_rules.py\<close>, \<open>admission.py\<close>)\<close>

text \<open>
  Which of the caller's machines may take a launch and why the others may not; the dry run, a pure
  decision over a snapshot of one roadmap, its tasks and those machines; and the batch, which
  recomputes the dry run under locks and admits every item or none. The locks make the batch one
  step. The SHA-256 of the plan's JSON is a parameter of the members it covers. The machines are the
  rows of the accounts store, which has their credentials.
\<close>

subsection \<open>Eligible machines\<close>

datatype ineligibility_reason = IR_OFFLINE | IR_NO_CAPABILITIES_REPORT | IR_CAPABILITIES_STALE | IR_OWNER_NO_PROJECT_ACCESS
  | IR_PROJECT_NOT_REGISTERED | IR_LAUNCHES_NOT_ACCEPTED | IR_LAUNCH_SAFETY_UNSUPPORTED | IR_HARNESS_INCOMPATIBLE | IR_AT_CAPACITY

record machine_eligibility =
  me_machine_id :: uuid
  me_display_name :: string
  me_status :: machine_status
  me_eligible :: bool
  me_reasons :: "ineligibility_reason list"
  me_harnesses :: "harness_report list"
  me_free_slots :: int
  me_reported_at :: "timestamp option"

definition flag :: "bool \<Rightarrow> 'a \<Rightarrow> 'a list" where
  "flag b x = (if b then [x] else [])"

definition usable_harnesses :: "machine_capabilities \<Rightarrow> harness_report list" where
  "usable_harnesses c = filter (\<lambda>h. h_detected h \<and> h_configured h) (mc_harnesses c)"

definition free_slots_of :: "machine_capabilities \<Rightarrow> int \<Rightarrow> int" where
  "free_slots_of c unreported = max (mc_max_launches c - mc_running_launches c - unreported) 0"

definition capability_reasons :: "machine_capabilities \<Rightarrow> uuid \<Rightarrow> string option \<Rightarrow> int \<Rightarrow> ineligibility_reason list" where
  "capability_reasons c project_id harness_id unreported =
     flag (project_id \<notin> set (mc_project_ids c)) IR_PROJECT_NOT_REGISTERED
     @ flag (\<not> mc_accepts_launches c) IR_LAUNCHES_NOT_ACCEPTED
     @ flag (mc_launch_safety c \<noteq> Some True) IR_LAUNCH_SAFETY_UNSUPPORTED
     @ flag (case harness_id of Some h \<Rightarrow> \<forall>u \<in> set (usable_harnesses c). h_harness_id u \<noteq> h
             | None \<Rightarrow> usable_harnesses c = []) IR_HARNESS_INCOMPATIBLE
     @ flag (free_slots_of c unreported = 0) IR_AT_CAPACITY"

definition report_reasons :: "settings \<Rightarrow> timestamp \<Rightarrow> machine_row \<Rightarrow> ineligibility_reason list" where
  "report_reasons st now m =
     (case (m_capabilities m, m_capabilities_reported_at m) of
        (Some _, Some t) \<Rightarrow> flag (seconds (st_heartbeat_offline_after_seconds st) < now - t) IR_CAPABILITIES_STALE
      | _ \<Rightarrow> [IR_NO_CAPABILITIES_REPORT])"

definition evaluate ::
  "settings \<Rightarrow> timestamp \<Rightarrow> uuid \<Rightarrow> bool \<Rightarrow> string option \<Rightarrow> int \<Rightarrow> machine_row \<Rightarrow> machine_eligibility" where
  "evaluate st now project_id owner_has_access harness_id unreported m =
     (let status = derive_status st now m;
          reasons = flag (status \<noteq> MS_ONLINE) IR_OFFLINE @ report_reasons st now m
            @ flag (\<not> owner_has_access) IR_OWNER_NO_PROJECT_ACCESS
            @ (case m_capabilities m of None \<Rightarrow> [] | Some c \<Rightarrow> capability_reasons c project_id harness_id unreported)
      in \<lparr>me_machine_id = m_id m, me_display_name = m_display_name m, me_status = status, me_eligible = (reasons = []),
          me_reasons = reasons,
          me_harnesses = (case m_capabilities m of None \<Rightarrow> [] | Some c \<Rightarrow> mc_harnesses c),
          me_free_slots = (case m_capabilities m of None \<Rightarrow> 0 | Some c \<Rightarrow> free_slots_of c unreported),
          me_reported_at = m_capabilities_reported_at m\<rparr>)"

text \<open>The active launches the machine's last report cannot have counted.\<close>

definition unreported_launch :: "timestamp \<Rightarrow> machine_row \<Rightarrow> launch_row \<Rightarrow> bool" where
  "unreported_launch now m l \<longleftrightarrow> l_machine_id l = m_id m \<and>
     ((l_status l = LS_REQUESTED \<and> now < l_expires_at l)
      \<or> (l_status l \<in> {LS_ACCEPTED, LS_PREPARING, LS_RUNNING} \<and>
         (case m_capabilities_reported_at m of None \<Rightarrow> True | Some t \<Rightarrow> t < l_created_at l)))"

definition unreported_launches :: "db \<Rightarrow> timestamp \<Rightarrow> machine_row \<Rightarrow> int" where
  "unreported_launches d now m = int (length (filter (unreported_launch now m) (db_launches d)))"

definition owner_has_access :: "db \<Rightarrow> principal \<Rightarrow> uuid \<Rightarrow> uuid \<Rightarrow> bool" where
  "owner_has_access d p owner_id project_id \<longleftrightarrow>
     (if owner_id = u_id (p_user p) then has_project_access p project_id
      else case tbl_get u_id (db_users d) owner_id of
             None \<Rightarrow> False
           | Some owner \<Rightarrow> (case load_project_scope d owner_id (u_role owner) of ALL_PROJECTS \<Rightarrow> True | Projects ps \<Rightarrow> project_id \<in> ps))"

definition eligible_machines ::
  "db \<Rightarrow> accounts \<Rightarrow> principal \<Rightarrow> timestamp \<Rightarrow> settings \<Rightarrow> uuid \<Rightarrow> string option \<Rightarrow> machine_eligibility list" where
  "eligible_machines d ac p now st project_id harness_id =
     sort_key (\<lambda>r. \<not> me_eligible r) (sort_key me_display_name (sort_key me_machine_id
       (map (\<lambda>m. evaluate st now project_id (owner_has_access d p (m_owner_user_id m) project_id) harness_id
               (unreported_launches d now (machine_row.truncate m)) (machine_row.truncate m))
         (list_active_machines ac (if p_role p = Role_ADMIN then None else Some (u_id (p_user p)))))))"

subsection \<open>The rules\<close>

datatype exclusion_reason = EX_ROADMAP_NOT_ACTIVE | EX_DEPENDENCY_PENDING | EX_TASK_DATA_MISSING | EX_TASK_COMPLETED | EX_TASK_BLOCKED
  | EX_REVIEW_PENDING | EX_LAUNCH_ACTIVE | EX_TASK_CLAIMED_ELSEWHERE | EX_CLAIMS_HELD_ELSEWHERE | EX_NO_ELIGIBLE_MACHINE

record task_facts =
  tf_task_id :: uuid
  tf_title :: "string option"
  tf_status :: "task_status_value option"
  tf_claimed_by_machine_id :: "uuid option"
  tf_launch_active :: bool
  tf_review_pending :: bool
  tf_live_claim_machine_ids :: "uuid list"

record step_facts =
  sf_key :: string
  sf_state :: step_state
  sf_waiting_on :: "string list"
  sf_tasks :: "task_facts list"

record admission_snapshot =
  as_roadmap_id :: uuid
  as_project_id :: uuid
  as_roadmap_status :: roadmap_status
  as_roadmap_version :: int
  as_harness_id :: "string option"
  as_steps :: "step_facts list"
  as_machines :: "machine_eligibility list"

record admission_candidate =
  ac_task_id :: uuid
  ac_step_key :: string
  ac_title :: string
  ac_machine_ids :: "uuid list"

record admission_exclusion =
  ae_task_id :: uuid
  ae_step_key :: string
  ae_title :: "string option"
  ae_reasons :: "exclusion_reason list"
  ae_waiting_on :: "string list"

definition eligible_ids :: "admission_snapshot \<Rightarrow> uuid list" where
  "eligible_ids s = map me_machine_id (filter me_eligible (as_machines s))"

definition candidate_ids :: "admission_snapshot \<Rightarrow> task_facts \<Rightarrow> uuid list" where
  "candidate_ids s t =
     (case tf_claimed_by_machine_id t of
        None \<Rightarrow> eligible_ids s
      | Some m \<Rightarrow> if m \<in> set (eligible_ids s) then filter (\<lambda>i. i = m) (eligible_ids s) else eligible_ids s)"

definition status_reasons :: "task_status_value option \<Rightarrow> exclusion_reason list" where
  "status_reasons v =
     (case v of
        None \<Rightarrow> [EX_TASK_DATA_MISSING]
      | Some TV_COMPLETED \<Rightarrow> [EX_TASK_COMPLETED]
      | Some TV_BLOCKED \<Rightarrow> [EX_TASK_BLOCKED]
      | Some _ \<Rightarrow> [])"

definition exclusion_reasons :: "admission_snapshot \<Rightarrow> step_facts \<Rightarrow> task_facts \<Rightarrow> exclusion_reason list" where
  "exclusion_reasons s step t =
     flag (as_roadmap_status s \<noteq> RS_ACTIVE) EX_ROADMAP_NOT_ACTIVE
     @ flag (sf_waiting_on step \<noteq> []) EX_DEPENDENCY_PENDING
     @ status_reasons (tf_status t)
     @ flag (tf_review_pending t) EX_REVIEW_PENDING
     @ flag (tf_launch_active t) EX_LAUNCH_ACTIVE
     @ flag (case tf_claimed_by_machine_id t of None \<Rightarrow> False | Some m \<Rightarrow> m \<notin> set (eligible_ids s)) EX_TASK_CLAIMED_ELSEWHERE
     @ flag (\<exists>m \<in> set (tf_live_claim_machine_ids t). m \<notin> set (candidate_ids s t)) EX_CLAIMS_HELD_ELSEWHERE
     @ flag (candidate_ids s t = []) EX_NO_ELIGIBLE_MACHINE"

definition judge_task :: "admission_snapshot \<Rightarrow> step_facts \<Rightarrow> task_facts \<Rightarrow> admission_exclusion + admission_candidate" where
  "judge_task s step t =
     (let reasons = exclusion_reasons s step t
      in if reasons \<noteq> []
         then Inl \<lparr>ae_task_id = tf_task_id t, ae_step_key = sf_key step, ae_title = tf_title t, ae_reasons = reasons,
                   ae_waiting_on = sf_waiting_on step\<rparr>
         else Inr \<lparr>ac_task_id = tf_task_id t, ac_step_key = sf_key step,
                   ac_title = (case tf_title t of None \<Rightarrow> [] | Some x \<Rightarrow> x), ac_machine_ids = candidate_ids s t\<rparr>)"

definition open_steps :: "admission_snapshot \<Rightarrow> step_facts list" where
  "open_steps s = filter (\<lambda>step. sf_state step \<notin> {SS_DONE, SS_SKIPPED}) (as_steps s)"

definition verdicts :: "admission_snapshot \<Rightarrow> (admission_exclusion + admission_candidate) list" where
  "verdicts s = concat (map (\<lambda>step. map (judge_task s step) (sf_tasks step)) (open_steps s))"

text \<open>The members the digest covers.\<close>

record digest_payload =
  dg_roadmap_id :: uuid
  dg_roadmap_version :: int
  dg_roadmap_status :: roadmap_status
  dg_harness_id :: "string option"
  dg_launchable :: "admission_candidate list"
  dg_excluded :: "admission_exclusion list"
  dg_steps_without_tasks :: "string list"
  dg_machines :: "(uuid \<times> bool \<times> ineligibility_reason list) list"

record admission_dry_run =
  dr_roadmap_id :: uuid
  dr_project_id :: uuid
  dr_roadmap_status :: roadmap_status
  dr_roadmap_version :: int
  dr_harness_id :: "string option"
  dr_launchable :: "admission_candidate list"
  dr_excluded :: "admission_exclusion list"
  dr_steps_without_tasks :: "string list"
  dr_machines :: "machine_eligibility list"
  dr_plan_digest :: string
  dr_evaluated_at :: timestamp

definition plan_digest ::
  "(digest_payload \<Rightarrow> string) \<Rightarrow> admission_snapshot \<Rightarrow> admission_candidate list \<Rightarrow> admission_exclusion list \<Rightarrow> string list \<Rightarrow> string" where
  "plan_digest digest s launchable excluded without =
     digest \<lparr>dg_roadmap_id = as_roadmap_id s, dg_roadmap_version = as_roadmap_version s, dg_roadmap_status = as_roadmap_status s,
       dg_harness_id = as_harness_id s, dg_launchable = launchable, dg_excluded = excluded, dg_steps_without_tasks = without,
       dg_machines = map (\<lambda>m. (me_machine_id m, me_eligible m, me_reasons m)) (as_machines s)\<rparr>"

definition compose_dry_run :: "(digest_payload \<Rightarrow> string) \<Rightarrow> timestamp \<Rightarrow> admission_snapshot \<Rightarrow> admission_dry_run" where
  "compose_dry_run digest now s =
     (let launchable = List.map_filter (\<lambda>v. case v of Inl _ \<Rightarrow> None | Inr c \<Rightarrow> Some c) (verdicts s);
          excluded = List.map_filter (\<lambda>v. case v of Inl e \<Rightarrow> Some e | Inr _ \<Rightarrow> None) (verdicts s);
          without = map sf_key (filter (\<lambda>step. sf_tasks step = []) (open_steps s))
      in \<lparr>dr_roadmap_id = as_roadmap_id s, dr_project_id = as_project_id s, dr_roadmap_status = as_roadmap_status s,
          dr_roadmap_version = as_roadmap_version s, dr_harness_id = as_harness_id s, dr_launchable = launchable,
          dr_excluded = excluded, dr_steps_without_tasks = without, dr_machines = as_machines s,
          dr_plan_digest = plan_digest digest s launchable excluded without, dr_evaluated_at = now\<rparr>)"

subsection \<open>The dry run\<close>

text \<open>The task and the status of every work entry and decision: what the review queries read.\<close>

record review_tables =
  rv_ai_work :: "(uuid option \<times> string) list"
  rv_decisions :: "(uuid option \<times> string) list"

definition active_launch :: "launch_row \<Rightarrow> bool" where
  "active_launch l \<longleftrightarrow> l_status l \<in> {LS_REQUESTED, LS_ACCEPTED, LS_PREPARING, LS_RUNNING}"

definition launch_active :: "db \<Rightarrow> uuid \<Rightarrow> bool" where
  "launch_active d task_id \<longleftrightarrow> list_ex (\<lambda>l. l_task_id l = task_id \<and> active_launch l) (db_launches d)"

definition review_pending :: "review_tables \<Rightarrow> uuid \<Rightarrow> bool" where
  "review_pending rv task_id \<longleftrightarrow>
     (Some task_id, ''review_requested'') \<in> set (rv_ai_work rv) \<or> (Some task_id, ''proposed'') \<in> set (rv_decisions rv)"

definition live_claim_machines :: "db \<Rightarrow> timestamp \<Rightarrow> uuid \<Rightarrow> uuid \<Rightarrow> uuid list" where
  "live_claim_machines d now project_id task_id =
     map c_claimed_by_machine_id (filter (\<lambda>c. c_task_id c = Some task_id) (active_claims d now project_id))"

definition task_facts_of :: "db \<Rightarrow> review_tables \<Rightarrow> timestamp \<Rightarrow> uuid \<Rightarrow> uuid \<Rightarrow> task_facts" where
  "task_facts_of d rv now project_id task_id =
     (let task = get_task_row d task_id
      in \<lparr>tf_task_id = task_id, tf_title = map_option t_title task, tf_status = map_option (\<lambda>t. task_status_of (t_status t)) task,
          tf_claimed_by_machine_id = (case task of None \<Rightarrow> None | Some t \<Rightarrow> t_claimed_by_machine_id t),
          tf_launch_active = launch_active d task_id, tf_review_pending = review_pending rv task_id,
          tf_live_claim_machine_ids = live_claim_machines d now project_id task_id\<rparr>)"

definition step_facts_of :: "plan_db \<Rightarrow> review_tables \<Rightarrow> timestamp \<Rightarrow> roadmap_tree \<Rightarrow> step_row \<Rightarrow> step_facts" where
  "step_facts_of pl rv now t s =
     \<lparr>sf_key = sp_key s, sf_state = tree_state t s, sf_waiting_on = waiting_on (depends_on_keys t s) (tree_states t),
      sf_tasks = map (\<lambda>l. task_facts_of (pl_db pl) rv now (rm_project_id (tr_roadmap t)) (lk_task_id l)) (tr_links t (sp_id s))\<rparr>"

definition snapshot_of ::
  "plan_db \<Rightarrow> accounts \<Rightarrow> review_tables \<Rightarrow> principal \<Rightarrow> timestamp \<Rightarrow> settings \<Rightarrow> roadmap_row \<Rightarrow> string option \<Rightarrow> admission_snapshot" where
  "snapshot_of pl ac rv p now st r harness_id =
     (let t = load_tree pl r
      in \<lparr>as_roadmap_id = rm_id r, as_project_id = rm_project_id r, as_roadmap_status = rm_status r, as_roadmap_version = rm_version r,
          as_harness_id = harness_id, as_steps = map (step_facts_of pl rv now t) (tr_steps t),
          as_machines = eligible_machines (pl_db pl) ac p now st (rm_project_id r) harness_id\<rparr>)"

definition dry_run ::
  "(digest_payload \<Rightarrow> string) \<Rightarrow> plan_db \<Rightarrow> accounts \<Rightarrow> review_tables \<Rightarrow> principal \<Rightarrow> timestamp \<Rightarrow> settings \<Rightarrow> uuid \<Rightarrow> string option
     \<Rightarrow> admission_dry_run fallible" where
  "dry_run digest pl ac rv p now st roadmap_id harness_id =
     and_get (ensure_roadmap_access pl p roadmap_id ReadAction) (\<lambda>r.
       Inr (compose_dry_run digest now (snapshot_of pl ac rv p now st r harness_id)))"

subsection \<open>The batch\<close>

datatype refusal_code = RC_DUPLICATE_ITEM | RC_NOT_LAUNCHABLE | RC_MACHINE_NOT_ELIGIBLE | RC_BUDGET_REFUSED

record admission_refusal =
  rf_task_id :: uuid
  rf_machine_id :: uuid
  rf_reason :: refusal_code
  rf_exclusion_reasons :: "exclusion_reason list"
  rf_budget :: "jval option"

record batch_item =
  bi_task_id :: uuid
  bi_machine_id :: uuid

record batch_request =
  bq_plan_digest :: string
  bq_harness_id :: string
  bq_items :: "batch_item list"
  bq_agent_stable_key :: "string option"
  bq_profile_key :: "string option"
  bq_expires_in_seconds :: int

datatype batch_error = Raised http_error | Plan_Changed admission_dry_run | Batch_Refused "admission_refusal list"

record batch_result =
  ab_roadmap_id :: uuid
  ab_plan_digest :: string
  ab_launches :: "launch_row list"
  ab_admitted_at :: timestamp

definition authorize_admit :: "plan_db \<Rightarrow> principal \<Rightarrow> uuid \<Rightarrow> roadmap_row fallible" where
  "authorize_admit pl p roadmap_id =
     and_get (ensure_roadmap_access pl p roadmap_id WriteAction) (\<lambda>r. and_then (ensure_can_write p ''task_launch'') (Inr r))"

definition refusal :: "batch_item \<Rightarrow> refusal_code \<Rightarrow> exclusion_reason list \<Rightarrow> jval option \<Rightarrow> admission_refusal" where
  "refusal i reason exclusions budget =
     \<lparr>rf_task_id = bi_task_id i, rf_machine_id = bi_machine_id i, rf_reason = reason, rf_exclusion_reasons = exclusions, rf_budget = budget\<rparr>"

text \<open>The dicts keyed by task: the last entry of the list wins.\<close>

definition candidate_of :: "admission_dry_run \<Rightarrow> uuid \<Rightarrow> admission_candidate option" where
  "candidate_of plan task_id = find (\<lambda>c. ac_task_id c = task_id) (rev (dr_launchable plan))"

definition exclusions_of :: "admission_dry_run \<Rightarrow> uuid \<Rightarrow> exclusion_reason list" where
  "exclusions_of plan task_id =
     (case find (\<lambda>e. ae_task_id e = task_id) (rev (dr_excluded plan)) of None \<Rightarrow> [] | Some e \<Rightarrow> ae_reasons e)"

definition slots_in :: "admission_dry_run \<Rightarrow> uuid \<Rightarrow> int" where
  "slots_in plan m = (case find (\<lambda>e. me_machine_id e = m) (rev (dr_machines plan)) of None \<Rightarrow> 0 | Some e \<Rightarrow> me_free_slots e)"

record batch_state =
  bs_db :: db
  bs_slots :: "uuid \<Rightarrow> int"
  bs_seen :: "uuid list"
  bs_refusals :: "admission_refusal list"
  bs_staged :: "(launch_row \<times> event_row) list"

record batch_env =
  be_plan :: admission_dry_run
  be_accounts :: accounts
  be_principal :: principal
  be_now :: timestamp
  be_project_id :: uuid
  be_request :: batch_request
  be_pin :: "launch_create \<Rightarrow> profile_pin option fallible"

definition launch_request :: "batch_request \<Rightarrow> batch_item \<Rightarrow> launch_create" where
  "launch_request q i =
     \<lparr>lc_task_id = bi_task_id i, lc_machine_id = bi_machine_id i, lc_harness_id = bq_harness_id q,
      lc_agent_stable_key = bq_agent_stable_key q, lc_profile_key = bq_profile_key q, lc_allow_production = False,
      lc_expires_in_seconds = bq_expires_in_seconds q\<rparr>"

definition budget_refused :: "http_error \<Rightarrow> bool" where
  "budget_refused e \<longleftrightarrow> http_status e = 409 \<and>
     (case http_detail e of JObj fs \<Rightarrow> map_of fs ''error_code'' = Some (JText ''budget_refused'') | _ \<Rightarrow> False)"

definition refuse_item :: "batch_state \<Rightarrow> batch_item \<Rightarrow> refusal_code \<Rightarrow> exclusion_reason list \<Rightarrow> jval option \<Rightarrow> batch_state fallible" where
  "refuse_item s i reason exclusions budget = Inr (s\<lparr>bs_refusals := bs_refusals s @ [refusal i reason exclusions budget]\<rparr>)"

definition stage_item :: "batch_env \<Rightarrow> launch_ids \<Rightarrow> batch_item \<Rightarrow> batch_state \<Rightarrow> batch_state fallible" where
  "stage_item env ids i s =
     (let r = launch_request (be_request env) i
      in case stage_launch (bs_db s) (be_principal env) (be_now env) ids (be_project_id env) r 1 None None (be_pin env r) of
           (_, Inl e) \<Rightarrow> if budget_refused e then refuse_item s i RC_BUDGET_REFUSED [] (Some (http_detail e)) else Inl e
         | (d', Inr staged) \<Rightarrow> Inr (s\<lparr>bs_db := d', bs_staged := bs_staged s @ [staged]\<rparr>))"

definition admit_item :: "batch_env \<Rightarrow> launch_ids \<Rightarrow> batch_item \<Rightarrow> batch_state \<Rightarrow> batch_state fallible" where
  "admit_item env ids i s =
     (if bi_task_id i \<in> set (bs_seen s) then refuse_item s i RC_DUPLICATE_ITEM [] None
      else
        (let s1 = s\<lparr>bs_seen := bi_task_id i # bs_seen s\<rparr>
         in case candidate_of (be_plan env) (bi_task_id i) of
              None \<Rightarrow> refuse_item s1 i RC_NOT_LAUNCHABLE (exclusions_of (be_plan env) (bi_task_id i)) None
            | Some c \<Rightarrow>
                if bi_machine_id i \<notin> set (ac_machine_ids c) \<or> bs_slots s1 (bi_machine_id i) \<le> 0
                then refuse_item s1 i RC_MACHINE_NOT_ELIGIBLE [] None
                else
                  (let s2 = s1\<lparr>bs_slots := (bs_slots s1)(bi_machine_id i := bs_slots s1 (bi_machine_id i) - 1)\<rparr>
                   in case tbl_get m_id (ac_machines (be_accounts env)) (bi_machine_id i) of
                        None \<Rightarrow> refuse_item s2 i RC_MACHINE_NOT_ELIGIBLE [] None
                      | Some m \<Rightarrow>
                          (case ensure_can_launch (bs_db s2) (be_now env) (be_principal env) (machine_row.truncate m) (be_project_id env) of
                             Inl _ \<Rightarrow> refuse_item s2 i RC_MACHINE_NOT_ELIGIBLE [] None
                           | Inr _ \<Rightarrow> stage_item env ids i s2))))"

fun admit_items :: "batch_env \<Rightarrow> (nat \<Rightarrow> launch_ids) \<Rightarrow> nat \<Rightarrow> batch_item list \<Rightarrow> batch_state \<Rightarrow> batch_state fallible" where
  "admit_items env ids n [] s = Inr s"
| "admit_items env ids n (i # is) s = and_get (admit_item env (ids n) i s) (admit_items env ids (Suc n) is)"

definition start_state :: "db \<Rightarrow> admission_dry_run \<Rightarrow> batch_state" where
  "start_state d plan = \<lparr>bs_db = d, bs_slots = slots_in plan, bs_seen = [], bs_refusals = [], bs_staged = []\<rparr>"

definition admit_batch ::
  "(digest_payload \<Rightarrow> string) \<Rightarrow> (launch_create \<Rightarrow> profile_pin option fallible) \<Rightarrow> plan_db \<Rightarrow> accounts \<Rightarrow> review_tables \<Rightarrow> principal
     \<Rightarrow> timestamp \<Rightarrow> settings \<Rightarrow> (nat \<Rightarrow> launch_ids) \<Rightarrow> uuid \<Rightarrow> batch_request \<Rightarrow> plan_db \<times> (batch_error + batch_result)" where
  "admit_batch digest pin pl ac rv p now st ids roadmap_id q =
     (case authorize_admit pl p roadmap_id of
        Inl e \<Rightarrow> (pl, Inl (Raised e))
      | Inr r \<Rightarrow>
          (case dry_run digest pl ac rv p now st roadmap_id (Some (bq_harness_id q)) of
             Inl e \<Rightarrow> (pl, Inl (Raised e))
           | Inr plan \<Rightarrow>
               if dr_plan_digest plan \<noteq> bq_plan_digest q then (pl, Inl (Plan_Changed plan))
               else
                 (case admit_items \<lparr>be_plan = plan, be_accounts = ac, be_principal = p, be_now = now, be_project_id = rm_project_id r,
                         be_request = q, be_pin = pin\<rparr> ids 0 (bq_items q) (start_state (pl_db pl) plan) of
                    Inl e \<Rightarrow> (pl, Inl (Raised e))
                  | Inr s \<Rightarrow>
                      if bs_refusals s \<noteq> [] then (pl, Inl (Batch_Refused (bs_refusals s)))
                      else (pl\<lparr>pl_db := fold publish_event (map snd (bs_staged s)) (bs_db s)\<rparr>,
                            Inr \<lparr>ab_roadmap_id = rm_id r, ab_plan_digest = dr_plan_digest plan, ab_launches = map fst (bs_staged s),
                                 ab_admitted_at = now\<rparr>))))"

end
