(* ===== verification/Admission_Laws.thy ===== *)
theory Admission_Laws
  imports Admission Launch_Safety Hydration_Laws "HOL-Library.Multiset"
begin

section \<open>What an admission decides\<close>

text \<open>
  The dry run decides every linked task of every open step once, and a task is launchable exactly when
  a declarative condition holds. A batch launches what the plan allows and nothing else, within the
  slots of each machine, once per task - or changes nothing. A task linked to two steps is decided once
  for each, so it can be in both lists, and a batch then goes by the favourable one.
\<close>

subsection \<open>The dry run\<close>

lemma flag_eq_Nil [simp]: "flag b x = [] \<longleftrightarrow> \<not> b"
  by (simp add: flag_def)

definition allowed_machines :: "admission_snapshot \<Rightarrow> task_facts \<Rightarrow> uuid set" where
  "allowed_machines s t =
     {m \<in> set (eligible_ids s). case tf_claimed_by_machine_id t of None \<Rightarrow> True | Some holder \<Rightarrow> m = holder}"

definition admissible :: "admission_snapshot \<Rightarrow> step_facts \<Rightarrow> task_facts \<Rightarrow> bool" where
  "admissible s step t \<longleftrightarrow> as_roadmap_status s = RS_ACTIVE \<and> sf_waiting_on step = []
     \<and> tf_status t \<in> {Some TV_CREATED, Some TV_IN_PROGRESS} \<and> \<not> tf_review_pending t \<and> \<not> tf_launch_active t
     \<and> allowed_machines s t \<noteq> {} \<and> set (tf_live_claim_machine_ids t) \<subseteq> allowed_machines s t"

lemma candidate_ids_allowed:
  "(case tf_claimed_by_machine_id t of None \<Rightarrow> False | Some m \<Rightarrow> m \<notin> set (eligible_ids s)) \<or> set (candidate_ids s t) = allowed_machines s t"
  by (auto simp: candidate_ids_def allowed_machines_def split: option.split)

lemma exclusion_reasons_Nil: "exclusion_reasons s step t = [] \<longleftrightarrow> admissible s step t"
proof -
  let ?elsewhere = "case tf_claimed_by_machine_id t of None \<Rightarrow> False | Some m \<Rightarrow> m \<notin> set (eligible_ids s)"
  have status: "status_reasons v = [] \<longleftrightarrow> v \<in> {Some TV_CREATED, Some TV_IN_PROGRESS}" for v
    by (cases v rule: option.exhaust; cases "the v") (auto simp: status_reasons_def)
  have gone: "allowed_machines s t = {}" if ?elsewhere using that by (auto simp: allowed_machines_def split: option.splits)
  show ?thesis
  proof (cases ?elsewhere)
    case True
    then show ?thesis using gone by (simp add: exclusion_reasons_def admissible_def)
  next
    case False
    then have "set (candidate_ids s t) = allowed_machines s t" using candidate_ids_allowed by blast
    moreover from this have "candidate_ids s t = [] \<longleftrightarrow> allowed_machines s t = {}" by (metis set_empty)
    ultimately show ?thesis using False by (auto simp: exclusion_reasons_def admissible_def status)
  qed
qed

lemma mem_map_filter: "y \<in> set (List.map_filter f xs) \<longleftrightarrow> (\<exists>x \<in> set xs. f x = Some y)"
  by (induction xs) (auto simp: List.map_filter_simps split: option.split)

lemma right_case: "(case v of Inl _ \<Rightarrow> None | Inr c' \<Rightarrow> Some c') = Some c \<longleftrightarrow> v = Inr c"
  by (cases v) auto

lemma launchable_mem:
  "c \<in> set (dr_launchable (compose_dry_run digest now s)) \<longleftrightarrow>
     (\<exists>step \<in> set (open_steps s). \<exists>t \<in> set (sf_tasks step). judge_task s step t = Inr c)"
proof -
  have "c \<in> set (dr_launchable (compose_dry_run digest now s)) \<longleftrightarrow> Inr c \<in> set (verdicts s)"
    by (simp add: compose_dry_run_def Let_def mem_map_filter right_case)
  then show ?thesis by (force simp: verdicts_def)
qed

text \<open>Property C23. A task is offered for launch exactly when it is admissible: the roadmap is active, nothing its step depends on is unfinished, the
  task is created or in progress, has no review pending and no active launch, and there is a machine - the one holding the task, if one
  does - that is eligible and, with it alone or with the other eligible ones, covers every live claim of the task. The machines offered
  are exactly those.\<close>

theorem launchable_iff_admissible:
  "c \<in> set (dr_launchable (compose_dry_run digest now s)) \<longleftrightarrow>
     (\<exists>step t. step \<in> set (as_steps s) \<and> sf_state step \<noteq> SS_DONE \<and> sf_state step \<noteq> SS_SKIPPED \<and> t \<in> set (sf_tasks step) \<and> admissible s step t
        \<and> ac_task_id c = tf_task_id t \<and> ac_step_key c = sf_key step \<and> ac_title c = (case tf_title t of None \<Rightarrow> [] | Some x \<Rightarrow> x)
        \<and> ac_machine_ids c = filter (\<lambda>m. m \<in> allowed_machines s t) (eligible_ids s))"
proof -
  have ids: "candidate_ids s t = filter (\<lambda>m. m \<in> allowed_machines s t) (eligible_ids s)" if "admissible s step t" for step t
    using that by (auto simp: candidate_ids_def allowed_machines_def admissible_def split: option.splits intro!: filter_cong)
  have "judge_task s step t = Inr c \<longleftrightarrow> admissible s step t \<and> ac_task_id c = tf_task_id t \<and> ac_step_key c = sf_key step
      \<and> ac_title c = (case tf_title t of None \<Rightarrow> [] | Some x \<Rightarrow> x)
      \<and> ac_machine_ids c = filter (\<lambda>m. m \<in> allowed_machines s t) (eligible_ids s)" for step t
    using ids by (cases "admissible s step t") (auto simp: judge_task_def Let_def exclusion_reasons_Nil)
  then show ?thesis unfolding launchable_mem open_steps_def by auto
qed

text \<open>Property C24. The dry run decides everything once: counted with multiplicity, the launchable and the excluded entries together are the task
  links of the steps that are neither done nor skipped.\<close>

theorem dry_run_complete:
  "mset (map (\<lambda>c. (ac_step_key c, ac_task_id c)) (dr_launchable (compose_dry_run digest now s)))
     + mset (map (\<lambda>e. (ae_step_key e, ae_task_id e)) (dr_excluded (compose_dry_run digest now s)))
   = mset (concat (map (\<lambda>step. map (\<lambda>t. (sf_key step, tf_task_id t)) (sf_tasks step))
       (filter (\<lambda>step. sf_state step \<noteq> SS_DONE \<and> sf_state step \<noteq> SS_SKIPPED) (as_steps s))))"
proof -
  let ?key = "\<lambda>v. case v of Inl e \<Rightarrow> (ae_step_key e, ae_task_id e) | Inr c \<Rightarrow> (ac_step_key c, ac_task_id c)"
  have split: "mset (map (\<lambda>c. (ac_step_key c, ac_task_id c)) (List.map_filter (\<lambda>v. case v of Inl _ \<Rightarrow> None | Inr c \<Rightarrow> Some c) vs))
      + mset (map (\<lambda>e. (ae_step_key e, ae_task_id e)) (List.map_filter (\<lambda>v. case v of Inl e \<Rightarrow> Some e | Inr _ \<Rightarrow> None) vs)) = mset (map ?key vs)" for vs
    by (induction vs) (auto simp: map_filter_def split: sum.split)
  have "?key (judge_task s step t) = (sf_key step, tf_task_id t)" for step t by (simp add: judge_task_def Let_def)
  then have "map ?key (verdicts s) = concat (map (\<lambda>step. map (\<lambda>t. (sf_key step, tf_task_id t)) (sf_tasks step)) (open_steps s))"
    by (simp add: verdicts_def map_concat comp_def)
  then show ?thesis using split [of "verdicts s"] by (simp add: compose_dry_run_def Let_def open_steps_def)
qed

subsection \<open>The batch\<close>

lemma stage_launch_done:
  assumes "stage_launch d p now ids pid r attempt retry_of basis pin = (d', Inr (l, ev))"
  shows "l_id l = id_launch ids \<and> l_task_id l = lc_task_id r \<and> l_machine_id l = lc_machine_id r \<and> l_status l = LS_REQUESTED
    \<and> db_launches d' = tbl_put l_id l (db_launches d)"
proof -
  obtain d1 x where adm: "decide_admission d pid now = (d1, x)" by fastforce
  show ?thesis
    using assms adm decide_admission_frame [OF adm]
    by (cases x; cases "authorize_production_request p r"; cases pin)
      (auto simp: stage_launch_def Let_def split_beta new_launch_def put_launch_def)
qed

lemma admit_item_refusals:
  "admit_item env ids i s = Inr s' \<Longrightarrow> \<exists>rs. bs_refusals s' = bs_refusals s @ rs"
  by (auto simp: admit_item_def refuse_item_def stage_item_def Let_def split: if_splits option.splits sum.splits prod.splits)

lemma admit_items_refusals:
  "admit_items env ids n is s = Inr s' \<Longrightarrow> \<exists>rs. bs_refusals s' = bs_refusals s @ rs"
proof (induction env ids n "is" s rule: admit_items.induct)
  case (2 env ids n i "is" s)
  then obtain s1 where "admit_item env (ids n) i s = Inr s1" "admit_items env ids (Suc n) is s1 = Inr s'"
    by (auto simp: and_get_eq_Inr)
  with 2(1) admit_item_refusals show ?case by (metis append.assoc)
qed simp

text \<open>What an item that is not refused has done.\<close>

definition staged_by :: "batch_env \<Rightarrow> launch_ids \<Rightarrow> batch_item \<Rightarrow> batch_state \<Rightarrow> batch_state \<Rightarrow> bool" where
  "staged_by env ids i s s' \<longleftrightarrow> bi_task_id i \<notin> set (bs_seen s)
     \<and> (\<exists>c. candidate_of (be_plan env) (bi_task_id i) = Some c \<and> bi_machine_id i \<in> set (ac_machine_ids c))
     \<and> 0 < bs_slots s (bi_machine_id i) \<and> bs_slots s' = (bs_slots s)(bi_machine_id i := bs_slots s (bi_machine_id i) - 1)
     \<and> bs_seen s' = bi_task_id i # bs_seen s
     \<and> (\<exists>l ev. bs_staged s' = bs_staged s @ [(l, ev)] \<and> l_id l = id_launch ids \<and> l_task_id l = bi_task_id i
          \<and> l_machine_id l = bi_machine_id i \<and> l_status l = LS_REQUESTED \<and> db_launches (bs_db s') = tbl_put l_id l (db_launches (bs_db s)))"

lemma admit_item_staged:
  assumes "admit_item env ids i s = Inr s'" and "bs_refusals s' = []"
  shows "staged_by env ids i s s'"
  using assms
  by (auto simp: admit_item_def refuse_item_def stage_item_def Let_def staged_by_def launch_request_def dest!: stage_launch_done
      split: if_splits option.splits sum.splits prod.splits)

lemma admit_items_staged:
  assumes "admit_items env ids n is s = Inr s'" and "bs_refusals s' = []"
  shows "\<exists>new. bs_staged s' = bs_staged s @ new
    \<and> map (\<lambda>(l, ev). (l_task_id l, l_machine_id l)) new = map (\<lambda>i. (bi_task_id i, bi_machine_id i)) is
    \<and> map (\<lambda>(l, ev). l_id l) new = map (\<lambda>k. id_launch (ids k)) [n..<n + length is] \<and> (\<forall>x \<in> set new. l_status (fst x) = LS_REQUESTED)
    \<and> db_launches (bs_db s') = fold (\<lambda>(l, ev). tbl_put l_id l) new (db_launches (bs_db s))
    \<and> distinct (map bi_task_id is) \<and> set (map bi_task_id is) \<inter> set (bs_seen s) = {}
    \<and> (\<forall>i \<in> set is. \<exists>c. candidate_of (be_plan env) (bi_task_id i) = Some c \<and> bi_machine_id i \<in> set (ac_machine_ids c))
    \<and> (\<forall>m. int (length (filter (\<lambda>i. bi_machine_id i = m) is)) \<le> max 0 (bs_slots s m))"
  using assms
proof (induction env ids n "is" s rule: admit_items.induct)
  case (2 env ids n i "is" s)
  obtain s1 where one: "admit_item env (ids n) i s = Inr s1" and rest: "admit_items env ids (Suc n) is s1 = Inr s'"
    using 2(2) by (auto simp: and_get_eq_Inr)
  have "bs_refusals s1 = []" using admit_items_refusals [OF rest] 2(3) by auto
  then have st: "staged_by env (ids n) i s s1" by (rule admit_item_staged [OF one])
  then obtain l ev where l: "bs_staged s1 = bs_staged s @ [(l, ev)]" "l_id l = id_launch (ids n)" "l_task_id l = bi_task_id i"
      "l_machine_id l = bi_machine_id i" "l_status l = LS_REQUESTED" "db_launches (bs_db s1) = tbl_put l_id l (db_launches (bs_db s))"
    by (auto simp: staged_by_def)
  from 2(1) [OF rest 2(3)] obtain new where new: "bs_staged s' = bs_staged s1 @ new"
      "map (\<lambda>(l, ev). (l_task_id l, l_machine_id l)) new = map (\<lambda>i. (bi_task_id i, bi_machine_id i)) is"
      "map (\<lambda>(l, ev). l_id l) new = map (\<lambda>k. id_launch (ids k)) [Suc n..<Suc n + length is]" "\<forall>x \<in> set new. l_status (fst x) = LS_REQUESTED"
      "db_launches (bs_db s') = fold (\<lambda>(l, ev). tbl_put l_id l) new (db_launches (bs_db s1))"
      "distinct (map bi_task_id is)" "set (map bi_task_id is) \<inter> set (bs_seen s1) = {}"
      "\<forall>i \<in> set is. \<exists>c. candidate_of (be_plan env) (bi_task_id i) = Some c \<and> bi_machine_id i \<in> set (ac_machine_ids c)"
      "\<forall>m. int (length (filter (\<lambda>i. bi_machine_id i = m) is)) \<le> max 0 (bs_slots s1 m)"
    by blast
  have "int (length (filter (\<lambda>i. bi_machine_id i = m) (i # is))) \<le> max 0 (bs_slots s m)" for m
    using spec [OF new(9), of m] st by (auto simp: staged_by_def split: if_splits)
  moreover have "[n..<n + length (i # is)] = n # [Suc n..<Suc n + length is]" by (simp add: upt_rec)
  ultimately show ?case
    using l new st by (intro exI [of _ "(l, ev) # new"]) (auto simp: staged_by_def)
qed auto

lemma publish_all [simp]: "db_launches (fold publish_event evs d) = db_launches d"
  by (induction evs arbitrary: d) simp_all

lemma fold_put_new:
  assumes "distinct (map (\<lambda>(l, ev). l_id l) new)" and "(\<lambda>(l, ev). l_id l) ` set new \<inter> l_id ` set rs = {}"
  shows "fold (\<lambda>(l, ev). tbl_put l_id l) new rs = rs @ map fst new"
  using assms
proof (induction new arbitrary: rs)
  case (Cons x new)
  obtain l ev where x: "x = (l, ev)" by fastforce
  have "tbl_put l_id l rs = rs @ [l]" using Cons.prems(2) x by (intro tbl_put_new) auto
  moreover have "fold (\<lambda>(l, ev). tbl_put l_id l) new (rs @ [l]) = (rs @ [l]) @ map fst new"
    using Cons.prems x by (intro Cons.IH) (auto simp: image_iff)
  ultimately show ?case by (simp add: x)
qed simp

lemma candidate_of_mem: "candidate_of plan i = Some c \<Longrightarrow> c \<in> set (dr_launchable plan) \<and> ac_task_id c = i"
  by (auto simp: candidate_of_def find_Some_iff) (metis length_rev nth_mem set_rev)

lemma admit_batch_done:
  assumes "admit_batch digest pin pl ac rv p now st ids roadmap_id q = (pl', Inr res)"
  shows "\<exists>r plan env s. authorize_admit pl p roadmap_id = Inr r \<and> dry_run digest pl ac rv p now st roadmap_id (Some (bq_harness_id q)) = Inr plan
    \<and> dr_plan_digest plan = bq_plan_digest q \<and> be_plan env = plan
    \<and> admit_items env ids 0 (bq_items q) (start_state (pl_db pl) plan) = Inr s \<and> bs_refusals s = []
    \<and> ab_launches res = map fst (bs_staged s) \<and> pl' = pl\<lparr>pl_db := fold publish_event (map snd (bs_staged s)) (bs_db s)\<rparr>"
proof -
  obtain r where r: "authorize_admit pl p roadmap_id = Inr r"
    using assms by (auto simp: admit_batch_def split: sum.splits)
  obtain plan where plan: "dry_run digest pl ac rv p now st roadmap_id (Some (bq_harness_id q)) = Inr plan" "dr_plan_digest plan = bq_plan_digest q"
    using assms r by (auto simp: admit_batch_def split: sum.splits if_splits)
  let ?env = "\<lparr>be_plan = plan, be_accounts = ac, be_principal = p, be_now = now, be_project_id = rm_project_id r, be_request = q, be_pin = pin\<rparr>"
  obtain s where s: "admit_items ?env ids 0 (bq_items q) (start_state (pl_db pl) plan) = Inr s"
    using assms r plan by (auto simp: admit_batch_def split: sum.splits if_splits)
  have "bs_refusals s = []" using assms r plan s by (auto simp: admit_batch_def split: if_splits)
  with assms r plan s show ?thesis by (intro exI [of _ r] exI [of _ plan] exI [of _ ?env] exI [of _ s]) (auto simp: admit_batch_def)
qed

text \<open>Property C9. A batch is admitted whole and by the plan, or changes nothing: a refusal of any kind leaves every table as it was, and an admitted
  batch has launched each of its items on its machine, in order, no task twice, every task offered by the recomputed plan with that
  machine, the plan the one the caller confirmed, and no machine beyond its free slots.\<close>

theorem batch_whole_or_nothing:
  assumes "admit_batch digest pin pl ac rv p now st ids roadmap_id q = (pl', r)"
  shows "(\<exists>e. r = Inl e \<and> pl' = pl) \<or> (\<exists>res plan. r = Inr res
    \<and> dry_run digest pl ac rv p now st roadmap_id (Some (bq_harness_id q)) = Inr plan \<and> dr_plan_digest plan = bq_plan_digest q
    \<and> map (\<lambda>l. (l_task_id l, l_machine_id l)) (ab_launches res) = map (\<lambda>i. (bi_task_id i, bi_machine_id i)) (bq_items q)
    \<and> distinct (map bi_task_id (bq_items q))
    \<and> (\<forall>i \<in> set (bq_items q). \<exists>c \<in> set (dr_launchable plan). ac_task_id c = bi_task_id i \<and> bi_machine_id i \<in> set (ac_machine_ids c))
    \<and> (\<forall>m. int (length (filter (\<lambda>i. bi_machine_id i = m) (bq_items q))) \<le> max 0 (slots_in plan m)))"
proof (cases r)
  case (Inl e)
  then show ?thesis using assms by (auto simp: admit_batch_def split: sum.splits if_splits)
next
  case (Inr res)
  obtain rm plan env s where b: "dry_run digest pl ac rv p now st roadmap_id (Some (bq_harness_id q)) = Inr plan"
      "dr_plan_digest plan = bq_plan_digest q" "be_plan env = plan" "admit_items env ids 0 (bq_items q) (start_state (pl_db pl) plan) = Inr s"
      "bs_refusals s = []" "ab_launches res = map fst (bs_staged s)"
    using admit_batch_done [OF assms [unfolded Inr]] by blast
  note st = admit_items_staged [OF b(4,5)]
  have "map (\<lambda>l. (l_task_id l, l_machine_id l)) (ab_launches res) = map (\<lambda>i. (bi_task_id i, bi_machine_id i)) (bq_items q)"
    using st b(6) by (auto simp: start_state_def comp_def case_prod_beta')
  moreover have "\<exists>c \<in> set (dr_launchable plan). ac_task_id c = bi_task_id i \<and> bi_machine_id i \<in> set (ac_machine_ids c)" if "i \<in> set (bq_items q)" for i
    using st b(3) that candidate_of_mem by blast
  moreover have "distinct (map bi_task_id (bq_items q))" "int (length (filter (\<lambda>i. bi_machine_id i = m) (bq_items q))) \<le> max 0 (slots_in plan m)" for m
    using st by (auto simp: start_state_def)
  ultimately show ?thesis using Inr b(1,2) by blast
qed

lemma length_filter_count: "length (filter (\<lambda>x. f x = k) xs) = count (mset (map f xs)) k"
  by (induction xs) simp_all

lemma launchable_idle:
  assumes "dry_run digest pl ac rv p now st roadmap_id h = Inr plan" and "c \<in> set (dr_launchable plan)"
  shows "\<not> launch_active (pl_db pl) (ac_task_id c)"
proof -
  obtain r where plan: "plan = compose_dry_run digest now (snapshot_of pl ac rv p now st r h)" using assms(1) by (auto simp: dry_run_def and_get_eq_Inr)
  obtain step t where t: "step \<in> set (open_steps (snapshot_of pl ac rv p now st r h))" "t \<in> set (sf_tasks step)"
      "judge_task (snapshot_of pl ac rv p now st r h) step t = Inr c" using assms(2) unfolding plan launchable_mem by blast
  have "step \<in> step_facts_of pl rv now (load_tree pl r) ` set (tr_steps (load_tree pl r))"
    using t(1) by (auto simp: open_steps_def snapshot_of_def Let_def)
  then have "tf_launch_active t \<longleftrightarrow> launch_active (pl_db pl) (tf_task_id t)"
    using t(2) by (auto simp: step_facts_of_def task_facts_of_def Let_def)
  moreover have "exclusion_reasons (snapshot_of pl ac rv p now st r h) step t = []" "ac_task_id c = tf_task_id t"
    using t(3) by (auto simp: judge_task_def Let_def split: if_splits)
  ultimately show ?thesis by (simp add: exclusion_reasons_Nil admissible_def)
qed

text \<open>Property C10. After an admitted batch each of its tasks has exactly one active launch, the batch's own: the dry run left out every task with one, no
  task is admitted twice, and everything happens under the locks.\<close>

theorem batch_one_active_launch:
  assumes "admit_batch digest pin pl ac rv p now st ids roadmap_id q = (pl', Inr res)" and "i \<in> set (bq_items q)"
    and "distinct (map (\<lambda>k. id_launch (ids k)) [0..<length (bq_items q)])"
    and "\<forall>k < length (bq_items q). id_launch (ids k) \<notin> l_id ` set (db_launches (pl_db pl))"
  shows "length (filter (\<lambda>l. l_task_id l = bi_task_id i \<and> active_launch l) (db_launches (pl_db pl'))) = 1"
proof -
  obtain rm plan env s where b: "dry_run digest pl ac rv p now st roadmap_id (Some (bq_harness_id q)) = Inr plan" "be_plan env = plan"
      "admit_items env ids 0 (bq_items q) (start_state (pl_db pl) plan) = Inr s" "bs_refusals s = []"
      "pl' = pl\<lparr>pl_db := fold publish_event (map snd (bs_staged s)) (bs_db s)\<rparr>"
    using admit_batch_done [OF assms(1)] by blast
  define new where "new = bs_staged s"
  have new: "map (\<lambda>(l, ev). (l_task_id l, l_machine_id l)) new = map (\<lambda>i. (bi_task_id i, bi_machine_id i)) (bq_items q)"
      "map (\<lambda>(l, ev). l_id l) new = map (\<lambda>k. id_launch (ids k)) [0..<length (bq_items q)]" "\<forall>x \<in> set new. l_status (fst x) = LS_REQUESTED"
      "db_launches (bs_db s) = fold (\<lambda>(l, ev). tbl_put l_id l) new (db_launches (pl_db pl))" "distinct (map bi_task_id (bq_items q))"
      "\<forall>i \<in> set (bq_items q). \<exists>c. candidate_of plan (bi_task_id i) = Some c"
    using admit_items_staged [OF b(3,4)] b(2) by (auto simp: start_state_def new_def)
  have "(\<lambda>(l, ev). l_id l) ` set new = (\<lambda>k. id_launch (ids k)) ` {0..<length (bq_items q)}"
    using arg_cong [OF new(2), of set] by simp
  then have "(\<lambda>(l, ev). l_id l) ` set new \<inter> l_id ` set (db_launches (pl_db pl)) = {}" using assms(4) by auto
  then have "db_launches (bs_db s) = db_launches (pl_db pl) @ map fst new"
    unfolding new(4) by (intro fold_put_new) (simp_all only: new(2) assms(3))
  then have rows: "db_launches (pl_db pl') = db_launches (pl_db pl) @ map fst new" using b(5) by simp
  have "\<not> launch_active (pl_db pl) (bi_task_id i)" using new(6) assms(2) candidate_of_mem launchable_idle [OF b(1)] by metis
  then have "filter (\<lambda>l. l_task_id l = bi_task_id i \<and> active_launch l) (db_launches (pl_db pl)) = []"
    by (auto simp: launch_active_def list_ex_iff filter_empty_conv)
  moreover have tasks: "map l_task_id (map fst new) = map bi_task_id (bq_items q)"
    using arg_cong [OF new(1), of "map fst"] by (simp add: comp_def split_beta)
  have "filter (\<lambda>l. l_task_id l = bi_task_id i \<and> active_launch l) (map fst new) = filter (\<lambda>l. l_task_id l = bi_task_id i) (map fst new)"
    using new(3) by (intro filter_cong) (auto simp: active_launch_def)
  moreover have "length (filter (\<lambda>l. l_task_id l = bi_task_id i) (map fst new)) = count (mset (map l_task_id (map fst new))) (bi_task_id i)"
    by (rule length_filter_count)
  moreover have "count (mset (map bi_task_id (bq_items q))) (bi_task_id i) = 1"
    using new(5) assms(2) distinct_count_atmost_1 [of "map bi_task_id (bq_items q)"] by auto
  ultimately show ?thesis unfolding rows tasks by simp
qed


subsection \<open>A concrete plan\<close>

text \<open>One online machine with two slots; a roadmap of two steps that share task 30, the second waiting on the first.\<close>

definition admission_machine :: machine_account where
  "admission_machine = machine_row.extend (sample_machine\<lparr>m_last_seen_at := Some 0, m_capabilities_reported_at := Some 0,
       m_capabilities := Some \<lparr>mc_accepts_launches = True, mc_project_ids = [5], mc_max_launches = 2, mc_running_launches = 0,
         mc_launch_safety = Some True, mc_launch_profiles = None, mc_harnesses = [\<lparr>h_harness_id = ''codex'', h_detected = True, h_configured = True\<rparr>]\<rparr>\<rparr>)
     \<lparr>m_credential_hash = ''h'', m_credential_revoked_at = None, m_workstation_id = None, m_version = 1\<rparr>"

definition admission_accounts :: accounts where
  "admission_accounts = \<lparr>ac_users = [], ac_machines = [admission_machine], ac_tokens = [], ac_refresh = []\<rparr>"

definition sample_prov :: provenance_cols where
  "sample_prov = \<lparr>pv_origin = RO_MANUAL, pv_actor_type = Actor_user, pv_actor_id = 1, pv_agent_id = None, pv_machine_id = None\<rparr>"

definition admission_step :: "uuid \<Rightarrow> string \<Rightarrow> nat \<Rightarrow> step_row" where
  "admission_step i k n = \<lparr>sp_id = i, sp_roadmap_id = 60, sp_phase_id = 61, sp_key = k, sp_position = n, sp_title = k,
     sp_objective = None, sp_context = None, sp_instructions = None, sp_acceptance_criteria = [], sp_criteria_checked = [],
     sp_notes = None, sp_metadata = [], sp_task_plan = [], sp_state_override = None, sp_state_override_reason = None,
     sp_version = 1, sp_prov = sample_prov\<rparr>"

definition admission_plan :: plan_db where
  "admission_plan = \<lparr>pl_db = empty_db\<lparr>db_tasks := [\<lparr>t_id = 30, t_project_id = 5, t_title = ''t'', t_description = None,
         t_status = TaskStatus_CREATED, t_claimed_by_machine_id = None, t_claimed_by_agent_id = None, t_version = 1, t_updated_at = 0,
         t_handoff_cursor_seq = None\<rparr>], db_projects := [5]\<rparr>,
     pl_roadmaps = [\<lparr>rm_id = 60, rm_project_id = 5, rm_title = ''r'', rm_objective = None, rm_context = None, rm_status = RS_ACTIVE,
       rm_metadata = [], rm_revision_no = 1, rm_approved_revision_no = None, rm_version = 1, rm_created_at = 0, rm_prov = sample_prov\<rparr>],
     pl_phases = [\<lparr>ph_id = 61, ph_roadmap_id = 60, ph_key = ''p'', ph_position = 0, ph_title = ''p'', ph_objective = None, ph_version = 1,
       ph_prov = sample_prov\<rparr>],
     pl_steps = [admission_step 62 ''a'' 0, admission_step 63 ''b'' 1],
     pl_deps = [\<lparr>dp_step_id = 63, dp_depends_on_step_id = 62, dp_roadmap_id = 60\<rparr>],
     pl_links = [\<lparr>lk_id = 64, lk_step_id = 62, lk_task_id = 30, lk_hydration_key = None, lk_created_at = 0, lk_prov = sample_prov\<rparr>,
       \<lparr>lk_id = 65, lk_step_id = 63, lk_task_id = 30, lk_hydration_key = None, lk_created_at = 0, lk_prov = sample_prov\<rparr>],
     pl_revisions = []\<rparr>"

definition no_reviews :: review_tables where
  "no_reviews = \<lparr>rv_ai_work = [], rv_decisions = []\<rparr>"

definition admission_caller :: principal where
  "admission_caller = sample_principal\<lparr>p_machine := sample_machine\<lparr>m_launch_scope := None\<rparr>\<rparr>"

definition constant_digest :: "digest_payload \<Rightarrow> string" where
  "constant_digest g = ''d''"

definition no_pin :: "launch_create \<Rightarrow> profile_pin option fallible" where
  "no_pin r = Inr None"

definition admission_ids :: "nat \<Rightarrow> launch_ids" where
  "admission_ids k = \<lparr>id_launch = 100 + k, id_event = 200 + k, id_reservation = 300 + k\<rparr>"

definition admission_request :: batch_request where
  "admission_request = \<lparr>bq_plan_digest = ''d'', bq_harness_id = ''codex'', bq_items = [\<lparr>bi_task_id = 30, bi_machine_id = 10\<rparr>],
     bq_agent_stable_key = None, bq_profile_key = None, bq_expires_in_seconds = 3600\<rparr>"

definition sample_batch :: "plan_db \<times> (batch_error + batch_result)" where
  "sample_batch = admit_batch constant_digest no_pin admission_plan admission_accounts no_reviews admission_caller 1 default_settings
     admission_ids 60 admission_request"

lemma sample_batch_ok: "\<not> isl (snd sample_batch)"
  by code_simp

lemma batch_whole_or_nothing_witness:
  "\<exists>res. snd sample_batch = Inr res \<and> map (\<lambda>l. (l_task_id l, l_machine_id l)) (ab_launches res) = [(30, 10)]"
proof -
  have b: "admit_batch constant_digest no_pin admission_plan admission_accounts no_reviews admission_caller 1 default_settings
     admission_ids 60 admission_request = (fst sample_batch, snd sample_batch)" by (simp add: sample_batch_def)
  have "\<not> (\<exists>e. snd sample_batch = Inl e)" using sample_batch_ok by (cases "snd sample_batch") auto
  with batch_whole_or_nothing [OF b] show ?thesis by (auto simp: admission_request_def)
qed

lemma batch_one_active_launch_witness:
  "\<exists>pl' res. sample_batch = (pl', Inr res) \<and> length (filter (\<lambda>l. l_task_id l = 30 \<and> active_launch l) (db_launches (pl_db pl'))) = 1"
proof -
  obtain res where "snd sample_batch = Inr res" using sample_batch_ok by (cases "snd sample_batch") auto
  then obtain pl' where b: "sample_batch = (pl', Inr res)" by (metis prod.collapse)
  with batch_one_active_launch [OF b [unfolded sample_batch_def], of "\<lparr>bi_task_id = 30, bi_machine_id = 10\<rparr>"]
  show ?thesis by (auto simp: admission_request_def admission_ids_def admission_plan_def empty_db_def)
qed

definition sample_snapshot :: admission_snapshot where
  "sample_snapshot = snapshot_of admission_plan admission_accounts no_reviews admission_caller 1 default_settings (hd (pl_roadmaps admission_plan))
     (Some ''codex'')"

definition first_step :: step_facts where "first_step = hd (as_steps sample_snapshot)"

definition second_step :: step_facts where "second_step = hd (tl (as_steps sample_snapshot))"

definition shared_task :: task_facts where "shared_task = hd (sf_tasks first_step)"

lemma sample_shared:
  "list_ex (\<lambda>x. x = first_step) (open_steps sample_snapshot)" "list_ex (\<lambda>x. x = second_step) (open_steps sample_snapshot)"
  "list_ex (\<lambda>x. x = shared_task) (sf_tasks first_step)" "list_ex (\<lambda>x. x = shared_task) (sf_tasks second_step)"
  "sf_waiting_on second_step \<noteq> []" "exclusion_reasons sample_snapshot first_step shared_task = []"
  by code_simp+


end
