(* ===== verification/Library_Contract.thy ===== *)
theory Library_Contract
  imports Studio_Data
begin

section \<open>Library contract (\<open>studio_contracts/library.py\<close>)\<close>

text \<open>
  The vocabularies of the reusable definitions, the matrix of allowed bindings, the capability
  matcher, and the static checks of a version's content that go beyond its pydantic schema: the
  auxiliary files of a skill, the participants of a workflow and the scripts of a hook. The
  schemas themselves (pydantic) are parameters where a later theory needs them; here a parsed
  content is a record with the schema's fields.
\<close>

subsection \<open>Positions in a list\<close>

definition rank_in :: "'a list \<Rightarrow> 'a \<Rightarrow> nat" where
  "rank_in xs k = length (takeWhile (\<lambda>x. x \<noteq> k) xs)"

lemma rank_in_nth: "distinct xs \<Longrightarrow> i < length xs \<Longrightarrow> rank_in xs (xs ! i) = i"
  unfolding rank_in_def
  by (subst takeWhile_eq_take_P_nth [where n = i]) (auto simp: nth_eq_iff_index_eq)

lemma rank_acyclic: "(\<And>a b. (a, b) \<in> E \<Longrightarrow> rank_in xs a < rank_in xs b) \<Longrightarrow> acyclic E"
  by (intro wf_acyclic wf_subset [OF wf_measure [of "rank_in xs"]]) auto

subsection \<open>Vocabularies\<close>

datatype library_kind = Kind_RULE | Kind_SKILL | Kind_AGENT_DEFINITION | Kind_MODEL_PROFILE
  | Kind_WORKFLOW | Kind_HOOK

fun library_kind_value :: "library_kind \<Rightarrow> string" where
  "library_kind_value Kind_RULE = ''rule''"
| "library_kind_value Kind_SKILL = ''skill''"
| "library_kind_value Kind_AGENT_DEFINITION = ''agent_definition''"
| "library_kind_value Kind_MODEL_PROFILE = ''model_profile''"
| "library_kind_value Kind_WORKFLOW = ''workflow''"
| "library_kind_value Kind_HOOK = ''hook''"

datatype library_scope = Scope_STUDIO | Scope_PROJECT | Scope_USER

fun library_scope_value :: "library_scope \<Rightarrow> string" where
  "library_scope_value Scope_STUDIO = ''studio''"
| "library_scope_value Scope_PROJECT = ''project''"
| "library_scope_value Scope_USER = ''user''"

datatype library_status = Library_DRAFT | Library_ACTIVE | Library_DEPRECATED

datatype binding_relation = REQUIRES_MODEL_PROFILE | USES_SKILL | APPLIES_RULE | COMPOSES_AGENT
  | REFERENCES_WORKFLOW | REFINES_SKILL_RULE | USES_HOOK

datatype version_origin = Origin_LOCK | Origin_ACTIVE | Origin_PIN

text \<open>\<open>DependencyPin\<close> and \<open>ResourceDependencyPin\<close>, which adds the resource id.\<close>

record dependency_pin =
  dp_kind :: library_kind
  dp_stable_key :: string
  dp_version :: int
  dp_relation :: "binding_relation option"
  dp_resource_id :: "uuid option"

subsection \<open>Bindings\<close>

fun binding_relation_for :: "library_kind \<Rightarrow> library_kind \<Rightarrow> binding_relation option" where
  "binding_relation_for Kind_AGENT_DEFINITION Kind_RULE = Some APPLIES_RULE"
| "binding_relation_for Kind_AGENT_DEFINITION Kind_SKILL = Some USES_SKILL"
| "binding_relation_for Kind_AGENT_DEFINITION Kind_MODEL_PROFILE = Some REQUIRES_MODEL_PROFILE"
| "binding_relation_for Kind_AGENT_DEFINITION Kind_AGENT_DEFINITION = Some COMPOSES_AGENT"
| "binding_relation_for Kind_AGENT_DEFINITION Kind_WORKFLOW = Some REFERENCES_WORKFLOW"
| "binding_relation_for Kind_SKILL Kind_RULE = Some REFINES_SKILL_RULE"
| "binding_relation_for Kind_WORKFLOW Kind_RULE = Some APPLIES_RULE"
| "binding_relation_for Kind_WORKFLOW Kind_SKILL = Some USES_SKILL"
| "binding_relation_for Kind_WORKFLOW Kind_AGENT_DEFINITION = Some COMPOSES_AGENT"
| "binding_relation_for Kind_AGENT_DEFINITION Kind_HOOK = Some USES_HOOK"
| "binding_relation_for Kind_WORKFLOW Kind_HOOK = Some USES_HOOK"
| "binding_relation_for _ _ = None"

definition binding_scope_allows ::
  "library_scope \<Rightarrow> uuid option \<Rightarrow> library_scope \<Rightarrow> uuid option \<Rightarrow> bool" where
  "binding_scope_allows source_scope source_owner target_scope target_owner =
     (if target_scope = Scope_USER
      then source_scope = Scope_USER \<and> source_owner \<noteq> None \<and> source_owner = target_owner
      else True)"

subsection \<open>Capabilities\<close>

record capability_requirement =
  cr_reasoning :: "string option"
  cr_coding :: bool
  cr_context_window_min :: "int option"
  cr_tools_required :: "string list"
  cr_multimodal :: "string option"
  cr_local_compatible :: bool
  cr_cost :: "string option"
  cr_latency :: "string option"

definition no_requirement :: capability_requirement where
  "no_requirement = \<lparr>cr_reasoning = None, cr_coding = False, cr_context_window_min = None,
     cr_tools_required = [], cr_multimodal = None, cr_local_compatible = False, cr_cost = None,
     cr_latency = None\<rparr>"

record runtime_capabilities =
  rc_reasoning :: "string option"
  rc_coding :: bool
  rc_context_window :: "int option"
  rc_tools :: "string list"
  rc_multimodal :: "string option"
  rc_local :: bool
  rc_cost :: "string option"
  rc_latency :: "string option"

definition no_capabilities :: runtime_capabilities where
  "no_capabilities = \<lparr>rc_reasoning = None, rc_coding = False, rc_context_window = None,
     rc_tools = [], rc_multimodal = None, rc_local = False, rc_cost = None, rc_latency = None\<rparr>"

text \<open>The reasons are texts built from the requirement; they are kept symbolic.\<close>

datatype unsatisfied = Needs_reasoning string | Needs_coding | Needs_context_window int
  | Missing_tools "string list" | Needs_multimodal string | Needs_local | Needs_cost string
  | Needs_latency string

definition open_dimension ::
  "(string \<Rightarrow> unsatisfied) \<Rightarrow> string option \<Rightarrow> string option \<Rightarrow> unsatisfied list" where
  "open_dimension reason required offered =
     (case required of None \<Rightarrow> [] | Some r \<Rightarrow> if offered \<noteq> Some r then [reason r] else [])"

definition check_compatibility ::
  "capability_requirement \<Rightarrow> runtime_capabilities \<Rightarrow> unsatisfied list" where
  "check_compatibility requirement capabilities =
     open_dimension Needs_reasoning (cr_reasoning requirement) (rc_reasoning capabilities)
   @ (if cr_coding requirement \<and> \<not> rc_coding capabilities then [Needs_coding] else [])
   @ (case cr_context_window_min requirement of None \<Rightarrow> []
      | Some n \<Rightarrow>
          (case rc_context_window capabilities of None \<Rightarrow> [Needs_context_window n]
           | Some w \<Rightarrow> if w < n then [Needs_context_window n] else []))
   @ (let missing_tools = filter (\<lambda>t. t \<notin> set (rc_tools capabilities)) (cr_tools_required requirement)
      in if missing_tools \<noteq> [] then [Missing_tools missing_tools] else [])
   @ open_dimension Needs_multimodal (cr_multimodal requirement) (rc_multimodal capabilities)
   @ (if cr_local_compatible requirement \<and> \<not> rc_local capabilities then [Needs_local] else [])
   @ open_dimension Needs_cost (cr_cost requirement) (rc_cost capabilities)
   @ open_dimension Needs_latency (cr_latency requirement) (rc_latency capabilities)"

subsection \<open>Files of a skill\<close>

definition RULE_SKILL_TEXT_MAX_LENGTH :: int where
  "RULE_SKILL_TEXT_MAX_LENGTH = 65536"

definition SKILL_FILES_MAX :: int where
  "SKILL_FILES_MAX = 64"

definition SKILL_FILES_TOTAL_MAX_LENGTH :: int where
  "SKILL_FILES_TOTAL_MAX_LENGTH = 524288"

fun split_on :: "char \<Rightarrow> string \<Rightarrow> string list" where
  "split_on c [] = [[]]"
| "split_on c (x # xs) =
     (if x = c then [] # split_on c xs
      else (case split_on c xs of [] \<Rightarrow> [[x]] | s # ss \<Rightarrow> (x # s) # ss))"

definition ascii_alnum :: "char \<Rightarrow> bool" where
  "ascii_alnum c \<longleftrightarrow> (let n = of_char c :: nat in
     (65 \<le> n \<and> n \<le> 90) \<or> (97 \<le> n \<and> n \<le> 122) \<or> (48 \<le> n \<and> n \<le> 57))"

definition word_char :: "char \<Rightarrow> bool" where
  "word_char c \<longleftrightarrow> ascii_alnum c \<or> c = CHR ''_''"

definition dotted_char :: "char \<Rightarrow> bool" where
  "dotted_char c \<longleftrightarrow> word_char c \<or> c = CHR ''.'' \<or> c = CHR ''-''"

text \<open>Python's \<open>$\<close> matches at the end and before a final line feed.\<close>

definition chop_newline :: "string \<Rightarrow> string" where
  "chop_newline s = (if s \<noteq> [] \<and> last s = CHR 0x0A then butlast s else s)"

fun plain_segment :: "string \<Rightarrow> bool" where
  "plain_segment [] = False"
| "plain_segment (c # cs) =
     (word_char c \<and> length cs \<le> 127 \<and> list_all (\<lambda>x. dotted_char x \<or> x = CHR '' '') cs)"

fun dot_segment :: "string \<Rightarrow> bool" where
  "dot_segment (d # c # cs) =
     (d = CHR ''.'' \<and> word_char c \<and> length cs \<le> 127 \<and> list_all dotted_char cs)"
| "dot_segment _ = False"

definition skill_file_segment :: "string \<Rightarrow> bool" where
  "skill_file_segment s \<longleftrightarrow> plain_segment (chop_newline s) \<or> dot_segment (chop_newline s)"

definition ascii_upper :: "string \<Rightarrow> string" where
  "ascii_upper s = map (\<lambda>c. let n = of_char c :: nat in
     if 97 \<le> n \<and> n \<le> 122 then char_of (n - 32) else c) s"

definition ascii_lower :: "string \<Rightarrow> string" where
  "ascii_lower s = map (\<lambda>c. let n = of_char c :: nat in
     if 65 \<le> n \<and> n \<le> 90 then char_of (n + 32) else c) s"

definition windows_reserved :: "string list" where
  "windows_reserved = [''AUX'', ''CON'', ''NUL'', ''PRN'']
     @ map (\<lambda>i. ''COM'' @ show_nat i) [1..<10] @ map (\<lambda>i. ''LPT'' @ show_nat i) [1..<10]"

definition segment_error :: "string \<Rightarrow> string option" where
  "segment_error s =
     (if s \<in> {[], ''.'', ''..''} \<or> \<not> skill_file_segment s then Some ''unsafe path segment''
      else if last s \<in> {CHR ''.'', CHR '' ''}
              \<or> ascii_upper (takeWhile (\<lambda>c. c \<noteq> CHR ''.'') s) \<in> set windows_reserved
      then Some ''reserved or non-portable name''
      else None)"

fun first_some :: "('a \<Rightarrow> 'b option) \<Rightarrow> 'a list \<Rightarrow> 'b option" where
  "first_some f [] = None"
| "first_some f (x # xs) = (case f x of Some y \<Rightarrow> Some y | None \<Rightarrow> first_some f xs)"

definition skill_file_path_error :: "string \<Rightarrow> string option" where
  "skill_file_path_error path =
     (if path = [] \<or> hd path = CHR ''/'' \<or> CHR 0x5C \<in> set path \<or> CHR '':'' \<in> set path
         \<or> CHR 0x00 \<in> set path
      then Some ''must be a relative POSIX path''
      else (case first_some segment_error (split_on CHR ''/'' path) of
        Some e \<Rightarrow> Some e
      | None \<Rightarrow> if ascii_lower path = ''skill.md'' then Some ''SKILL.md is the main file'' else None))"

record skill_file =
  sf_path :: string
  sf_text :: string
  sf_sha256 :: string

datatype skill_error = Bad_Path string | Bad_Digest | Duplicate_Path string | Also_Directory string
  | Too_Large

definition skill_file_check :: "(string \<Rightarrow> string) \<Rightarrow> skill_file \<Rightarrow> skill_error option" where
  "skill_file_check sha256 f =
     (case skill_file_path_error (sf_path f) of
        Some e \<Rightarrow> Some (Bad_Path e)
      | None \<Rightarrow> if sha256 (sf_text f) \<noteq> sf_sha256 f then Some Bad_Digest else None)"

text \<open>
  The paths that reach this validator have passed \<open>skill_file_check\<close>, so they are ASCII and
  \<open>casefold\<close> is the ASCII lower case. The directory check walks a set; which of several
  offenders it names is left to the order of the list.
\<close>

fun fold_paths :: "string list \<Rightarrow> skill_file list \<Rightarrow> skill_error + string list" where
  "fold_paths seen [] = Inr seen"
| "fold_paths seen (f # fs) =
     (let folded = ascii_lower (sf_path f)
      in if folded \<in> set seen then Inl (Duplicate_Path (sf_path f)) else fold_paths (seen @ [folded]) fs)"

definition path_under :: "string \<Rightarrow> string \<Rightarrow> bool" where
  "path_under a b \<longleftrightarrow> take (length (a @ ''/'')) b = a @ ''/''"

definition skill_files_check :: "skill_file list \<Rightarrow> skill_error option" where
  "skill_files_check fs =
     (case fold_paths [] fs of
        Inl e \<Rightarrow> Some e
      | Inr seen \<Rightarrow>
          (case find (\<lambda>a. list_ex (path_under a) seen) seen of
             Some a \<Rightarrow> Some (Also_Directory a)
           | None \<Rightarrow>
               if sum_list (map (\<lambda>f. int (length (sf_text f))) fs) > SKILL_FILES_TOTAL_MAX_LENGTH
               then Some Too_Large else None))"

text \<open>\<open>SkillContent\<close>: the validators of the files, then the one of the whole.\<close>

definition skill_content_error :: "(string \<Rightarrow> string) \<Rightarrow> skill_file list \<Rightarrow> skill_error option" where
  "skill_content_error sha256 fs =
     (case first_some (skill_file_check sha256) fs of
        Some e \<Rightarrow> Some e | None \<Rightarrow> skill_files_check fs)"

subsection \<open>Workflows\<close>

record io_source =
  io_participant_id :: "string option"
  io_source_name :: string

record io_declaration =
  io_name :: string
  io_required :: bool
  io_source :: "io_source option"

record participant =
  wp_participant_id :: string
  wp_agent_stable_key :: string
  wp_depends_on :: "string list"
  wp_inputs :: "io_declaration list"
  wp_outputs :: "io_declaration list"

record workflow_content =
  wc_participants :: "participant list"
  wc_inputs :: "io_declaration list"
  wc_outputs :: "io_declaration list"

datatype workflow_reason = DUPLICATE_PARTICIPANT | UNKNOWN_DEPENDENCY | DEPENDENCY_CYCLE
  | UNKNOWN_PARTICIPANT_AGENT | UNUSED_AGENT_DEPENDENCY | DUPLICATE_IO_DECLARATION
  | INVALID_IO_REFERENCE

type_synonym workflow_error = "workflow_reason \<times> string"

text \<open>
  Kahn's sort. \<open>adjacency\<close> and \<open>indegree\<close> are the two dicts the function fills;
  \<open>relax\<close> is the inner loop over the dependents of one node.
\<close>

definition adjacency :: "participant list \<Rightarrow> string \<Rightarrow> string list" where
  "adjacency ps d = concat (map (\<lambda>p. map (\<lambda>_. wp_participant_id p) (filter (\<lambda>x. x = d) (wp_depends_on p))) ps)"

definition indegree :: "participant list \<Rightarrow> string \<Rightarrow> int" where
  "indegree ps n = sum_list (map (\<lambda>p. if wp_participant_id p = n then int (length (wp_depends_on p)) else 0) ps)"

fun relax :: "string list \<Rightarrow> (string \<Rightarrow> int) \<Rightarrow> string list \<Rightarrow> (string \<Rightarrow> int) \<times> string list" where
  "relax [] degree ready = (degree, ready)"
| "relax (x # xs) degree ready =
     (let degree' = degree(x := degree x - 1)
      in relax xs degree' (if degree' x = 0 then ready @ [x] else ready))"

definition pending_degree :: "participant list \<Rightarrow> (string \<Rightarrow> int) \<Rightarrow> nat" where
  "pending_degree ps degree = (\<Sum>n \<in> set (map wp_participant_id ps). nat (degree n))"

lemma pending_degree_drop:
  assumes "x \<in> set (map wp_participant_id ps)"
  shows "pending_degree ps (degree(x := degree x - 1)) =
    (if 0 < degree x then pending_degree ps degree - 1 else pending_degree ps degree)"
    and "0 < degree x \<Longrightarrow> 0 < pending_degree ps degree"
proof -
  let ?N = "set (map wp_participant_id ps)"
  have rest: "(\<Sum>n \<in> ?N - {x}. nat ((degree(x := degree x - 1)) n)) = (\<Sum>n \<in> ?N - {x}. nat (degree n))"
    by (rule sum.cong) auto
  have split: "pending_degree ps f = nat (f x) + (\<Sum>n \<in> ?N - {x}. nat (f n))" for f
    using assms by (simp add: pending_degree_def sum.remove)
  have "nat (degree x - 1) = nat (degree x) - 1" by simp
  then show "pending_degree ps (degree(x := degree x - 1)) =
    (if 0 < degree x then pending_degree ps degree - 1 else pending_degree ps degree)"
    using rest split [of degree] split [of "degree(x := degree x - 1)"]
    by (cases "0 < degree x") auto
  show "0 < degree x \<Longrightarrow> 0 < pending_degree ps degree"
    by (simp add: split)
qed

lemma relax_measure:
  assumes "set xs \<subseteq> set (map wp_participant_id ps)" and "relax xs degree ready = (degree', ready')"
  shows "pending_degree ps degree' + length ready' \<le> pending_degree ps degree + length ready"
  using assms
proof (induction xs degree ready rule: relax.induct)
  case (2 x xs degree ready)
  let ?d = "degree(x := degree x - 1)"
  from "2.prems" have step: "relax xs ?d (if ?d x = 0 then ready @ [x] else ready) = (degree', ready')"
    by (simp add: Let_def)
  have "set xs \<subseteq> set (map wp_participant_id ps)" using "2.prems"(1) by simp
  then have "pending_degree ps degree' + length ready'
      \<le> pending_degree ps ?d + length (if ?d x = 0 then ready @ [x] else ready)"
    using step by (rule "2.IH" [OF refl])
  also have "\<dots> \<le> pending_degree ps degree + length ready"
    using pending_degree_drop [of x ps degree] "2.prems"(1) by auto
  finally show ?case .
qed simp

lemma adjacency_nodes: "set (adjacency ps d) \<subseteq> set (map wp_participant_id ps)"
  by (auto simp: adjacency_def)

text \<open>The main loop: \<open>visited\<close> counts the nodes taken off the queue.\<close>

function kahn :: "participant list \<Rightarrow> (string \<Rightarrow> int) \<Rightarrow> string list \<Rightarrow> nat \<Rightarrow> nat" where
  "kahn ps degree [] visited = visited"
| "kahn ps degree (node # ready) visited =
     (let r = relax (sort (adjacency ps node)) degree ready
      in kahn ps (fst r) (snd r) (visited + 1))"
  by pat_completeness auto

termination
proof (relation "measure (\<lambda>(ps, degree, ready, visited). pending_degree ps degree + length ready)")
  fix ps degree node ready visited and r :: "(string \<Rightarrow> int) \<times> string list"
  assume "r = relax (sort (adjacency ps node)) degree ready"
  moreover have "set (sort (adjacency ps node)) \<subseteq> set (map wp_participant_id ps)"
    using adjacency_nodes [of ps node] by simp
  ultimately show "((ps, fst r, snd r, visited + 1), (ps, degree, node # ready, visited))
      \<in> measure (\<lambda>(ps, degree, ready, visited). pending_degree ps degree + length ready)"
    using relax_measure [of "sort (adjacency ps node)" ps degree ready "fst r" "snd r"] by simp
qed simp

definition workflow_has_cycle :: "participant list \<Rightarrow> bool" where
  "workflow_has_cycle ps \<longleftrightarrow>
     kahn ps (indegree ps)
       (sort (filter (\<lambda>n. indegree ps n = 0) (remdups (map wp_participant_id ps)))) 0 \<noteq> length ps"

text \<open>The checks of \<open>workflow_validation_errors\<close>, in its order; each gives its first failure.\<close>

fun duplicate_participant :: "string list \<Rightarrow> participant list \<Rightarrow> workflow_error option" where
  "duplicate_participant seen [] = None"
| "duplicate_participant seen (p # ps) =
     (if wp_participant_id p \<in> set seen
      then Some (DUPLICATE_PARTICIPANT, ''participants.'' @ wp_participant_id p)
      else duplicate_participant (wp_participant_id p # seen) ps)"

definition participant_by_id :: "participant list \<Rightarrow> string \<Rightarrow> participant option" where
  "participant_by_id ps n = find (\<lambda>p. wp_participant_id p = n) ps"

definition unknown_dependency :: "participant list \<Rightarrow> workflow_error option" where
  "unknown_dependency ps = first_some (\<lambda>p.
     if list_ex (\<lambda>d. participant_by_id ps d = None) (wp_depends_on p)
     then Some (UNKNOWN_DEPENDENCY, ''participants.'' @ wp_participant_id p @ ''.depends_on'')
     else None) ps"

definition repeated_names :: "string \<Rightarrow> io_declaration list \<Rightarrow> workflow_error option" where
  "repeated_names field ds =
     (if distinct (map io_name ds) then None else Some (DUPLICATE_IO_DECLARATION, field))"

definition duplicate_io :: "workflow_content \<Rightarrow> workflow_error option" where
  "duplicate_io w =
     first_some (\<lambda>c. c) ([repeated_names ''workflow.inputs'' (wc_inputs w),
        repeated_names ''workflow.outputs'' (wc_outputs w)]
      @ concat (map (\<lambda>p.
          [repeated_names (''participants.'' @ wp_participant_id p @ ''.inputs'') (wp_inputs p),
           repeated_names (''participants.'' @ wp_participant_id p @ ''.outputs'') (wp_outputs p)])
         (wc_participants w)))"

definition agent_key_errors ::
  "dependency_pin list \<Rightarrow> participant list \<Rightarrow> workflow_error option" where
  "agent_key_errors pins ps =
     (let agent_keys = map dp_stable_key (filter (\<lambda>d. dp_kind d = Kind_AGENT_DEFINITION) pins)
      in case first_some (\<lambda>p.
             if wp_agent_stable_key p \<notin> set agent_keys
             then Some (UNKNOWN_PARTICIPANT_AGENT,
                ''participants.'' @ wp_participant_id p @ ''.agent_stable_key'')
             else None) ps of
           Some e \<Rightarrow> Some e
         | None \<Rightarrow>
             (case py_sorted_set (filter (\<lambda>k. k \<notin> set (map wp_agent_stable_key ps)) agent_keys) of
                [] \<Rightarrow> None
              | k # _ \<Rightarrow> Some (UNUSED_AGENT_DEPENDENCY, ''dependencies.'' @ k)))"

definition declares_output :: "participant list \<Rightarrow> string \<Rightarrow> string \<Rightarrow> bool" where
  "declares_output ps producer name =
     (case participant_by_id ps producer of
        None \<Rightarrow> False | Some p \<Rightarrow> name \<in> set (map io_name (wp_outputs p)))"

definition workflow_input_error :: "io_declaration \<Rightarrow> workflow_error option" where
  "workflow_input_error d =
     (if io_source d \<noteq> None
      then Some (INVALID_IO_REFERENCE, ''workflow.inputs.'' @ io_name d @ ''.source'') else None)"

definition workflow_output_error ::
  "participant list \<Rightarrow> io_declaration \<Rightarrow> workflow_error option" where
  "workflow_output_error ps d =
     (let bad = Some (INVALID_IO_REFERENCE, ''workflow.outputs.'' @ io_name d @ ''.source'')
      in case io_source d of
           None \<Rightarrow> bad
         | Some s \<Rightarrow>
             (case io_participant_id s of
                None \<Rightarrow> bad
              | Some producer \<Rightarrow> if declares_output ps producer (io_source_name s) then None else bad))"

definition participant_output_error :: "participant \<Rightarrow> io_declaration \<Rightarrow> workflow_error option" where
  "participant_output_error p d =
     (if io_source d \<noteq> None
      then Some (INVALID_IO_REFERENCE,
        ''participants.'' @ wp_participant_id p @ ''.outputs.'' @ io_name d @ ''.source'')
      else None)"

definition participant_input_error ::
  "workflow_content \<Rightarrow> participant \<Rightarrow> io_declaration \<Rightarrow> workflow_error option" where
  "participant_input_error w p d =
     (let bad = Some (INVALID_IO_REFERENCE,
            ''participants.'' @ wp_participant_id p @ ''.inputs.'' @ io_name d @ ''.source'')
      in case io_source d of
           None \<Rightarrow> None
         | Some s \<Rightarrow>
             (case io_participant_id s of
                None \<Rightarrow> if io_source_name s \<in> set (map io_name (wc_inputs w)) then None else bad
              | Some producer \<Rightarrow>
                  if producer = wp_participant_id p then bad
                  else if declares_output (wc_participants w) producer (io_source_name s) then None
                  else bad))"

definition participant_io_error :: "workflow_content \<Rightarrow> participant \<Rightarrow> workflow_error option" where
  "participant_io_error w p =
     (case first_some (participant_output_error p) (wp_outputs p) of
        Some e \<Rightarrow> Some e
      | None \<Rightarrow> first_some (participant_input_error w p) (wp_inputs p))"

definition workflow_validation_errors ::
  "workflow_content \<Rightarrow> dependency_pin list \<Rightarrow> workflow_error option" where
  "workflow_validation_errors w pins =
     (let ps = wc_participants w
      in case duplicate_participant [] ps of
           Some e \<Rightarrow> Some e
         | None \<Rightarrow>
      (case unknown_dependency ps of
           Some e \<Rightarrow> Some e
         | None \<Rightarrow>
       if workflow_has_cycle ps then Some (DEPENDENCY_CYCLE, ''participants'')
       else first_some (\<lambda>c. c)
         [duplicate_io w, agent_key_errors pins ps,
          first_some workflow_input_error (wc_inputs w),
          first_some (workflow_output_error ps) (wc_outputs w),
          first_some (participant_io_error w) ps]))"

subsection \<open>Hooks\<close>

datatype hook_event = SESSION_START | SESSION_END | USER_PROMPT | PRE_TOOL | POST_TOOL | STOP
  | SUBAGENT_STOP | NOTIFICATION | PRE_COMPACT

datatype hook_mode = Hook_BLOCKING | Hook_ADVISORY

datatype hook_os = Os_ANY | Os_WINDOWS | Os_LINUX | Os_MACOS

datatype hook_shell = Shell_PWSH | Shell_BASH | Shell_SH | Shell_PYTHON | Shell_NODE

record hook_script =
  hs_os :: hook_os
  hs_shell :: hook_shell
  hs_body :: string

record hook_content =
  hk_event :: hook_event
  hk_matcher :: "string option"
  hk_mode :: hook_mode
  hk_scripts :: "hook_script list"

datatype hook_reason = DUPLICATE_SCRIPT_TARGET | MATCHER_NOT_SUPPORTED | BLOCKING_NOT_SUPPORTED
  | SECRET_MATERIAL

text \<open>\<open>contains_secret_material\<close> (regular expressions over the body) is a parameter.\<close>

fun script_errors ::
  "(string \<Rightarrow> bool) \<Rightarrow> (hook_os \<times> hook_shell) list \<Rightarrow> nat \<Rightarrow> hook_script list
     \<Rightarrow> (hook_reason \<times> string) option" where
  "script_errors secret seen i [] = None"
| "script_errors secret seen i (s # ss) =
     (if (hs_os s, hs_shell s) \<in> set seen then Some (DUPLICATE_SCRIPT_TARGET, ''scripts.'' @ show_nat i)
      else if secret (hs_body s) then Some (SECRET_MATERIAL, ''scripts.'' @ show_nat i @ ''.body'')
      else script_errors secret ((hs_os s, hs_shell s) # seen) (i + 1) ss)"

definition hook_validation_errors ::
  "(string \<Rightarrow> bool) \<Rightarrow> hook_content \<Rightarrow> (hook_reason \<times> string) option" where
  "hook_validation_errors secret h =
     (case script_errors secret [] 0 (hk_scripts h) of
        Some e \<Rightarrow> Some e
      | None \<Rightarrow>
          if hk_matcher h \<noteq> None \<and> hk_event h \<notin> {PRE_TOOL, POST_TOOL}
          then Some (MATCHER_NOT_SUPPORTED, ''matcher'')
          else if hk_mode h = Hook_BLOCKING \<and> hk_event h \<notin> {PRE_TOOL, USER_PROMPT, STOP}
          then Some (BLOCKING_NOT_SUPPORTED, ''mode'')
          else None)"

end
