(* ===== verification/Workflow_Laws.thy ===== *)
theory Workflow_Laws
  imports Library_Contract
begin

section \<open>Laws of the library contract\<close>

text \<open>
  Kahn's sort gives the exact verdict, so a workflow version is accepted exactly when a
  declarative condition holds; and what the path check of a skill file lets through.
\<close>

subsection \<open>Counting dependencies\<close>

definition depends :: "participant list \<Rightarrow> (string \<times> string) set" where
  "depends ps = {(d, n). \<exists>p \<in> set ps. wp_participant_id p = n \<and> d \<in> set (wp_depends_on p)}"

definition participant_ids :: "participant list \<Rightarrow> string set" where
  "participant_ids ps = set (map wp_participant_id ps)"

definition deps_known :: "participant list \<Rightarrow> bool" where
  "deps_known ps \<longleftrightarrow> (\<forall>p \<in> set ps. set (wp_depends_on p) \<subseteq> participant_ids ps)"

definition occurs :: "participant list \<Rightarrow> string \<Rightarrow> string \<Rightarrow> int" where
  "occurs ps d n = int (count_list (adjacency ps d) n)"

lemma count_list_concat: "count_list (concat xss) x = sum_list (map (\<lambda>xs. count_list xs x) xss)"
  by (induction xss) simp_all

lemma count_list_const: "count_list (map (\<lambda>_. a) xs) x = (if a = x then length xs else 0)"
  by (induction xs) auto

lemma length_filter_eq_count: "length (filter (\<lambda>x. x = d) xs) = count_list xs d"
  by (induction xs) auto

lemma occurs_sum:
  "occurs ps d n = sum_list (map (\<lambda>p. if wp_participant_id p = n then int (count_list (wp_depends_on p) d) else 0) ps)"
  by (induction ps)
    (auto simp: occurs_def adjacency_def count_list_const length_filter_eq_count)

lemma occurs_nonneg: "0 \<le> occurs ps d n"
  by (simp add: occurs_def)

lemma occurs_pos_iff: "occurs ps d n \<noteq> 0 \<longleftrightarrow> (d, n) \<in> depends ps"
  by (auto simp: occurs_def adjacency_def depends_def count_list_0_iff)

lemma length_as_counts:
  assumes "finite N" and "set xs \<subseteq> N"
  shows "int (length xs) = (\<Sum>d \<in> N. int (count_list xs d))"
  using assms
proof (induction xs)
  case (Cons x xs)
  then have "(\<Sum>d \<in> N. int (count_list (x # xs) d)) = (\<Sum>d \<in> N. (if d = x then 1 else 0) + int (count_list xs d))"
    by (intro sum.cong) auto
  also have "\<dots> = 1 + (\<Sum>d \<in> N. int (count_list xs d))"
    using Cons.prems by (simp add: sum.distrib)
  finally show ?case using Cons by simp
qed simp

lemma indegree_occurs:
  assumes "finite N" and "\<forall>p \<in> set ps. set (wp_depends_on p) \<subseteq> N"
  shows "indegree ps n = (\<Sum>d \<in> N. occurs ps d n)"
  using assms(2)
proof (induction ps)
  case (Cons p ps)
  then show ?case
    using length_as_counts [OF assms(1), of "wp_depends_on p"]
    by (simp add: indegree_def occurs_sum sum.distrib)
qed (simp add: indegree_def occurs_sum)

subsection \<open>One node's dependents\<close>

lemma relax_degree:
  "relax xs degree ready = (degree', ready') \<Longrightarrow> degree' n = degree n - int (count_list xs n)"
  by (induction xs degree ready rule: relax.induct) (auto simp: Let_def)

lemma count_list_sort: "count_list (sort xs) x = count_list xs x"
  by (simp add: filter_sort flip: length_filter_eq_count)

lemma relax_ready:
  assumes "\<forall>x. int (count_list xs x) \<le> degree x" and "relax xs degree ready = (degree', ready')"
  shows "\<exists>new. ready' = ready @ new \<and> distinct new
    \<and> set new = {x \<in> set xs. degree x = int (count_list xs x)}"
  using assms
proof (induction xs degree ready rule: relax.induct)
  case (2 x xs degree ready)
  let ?d = "degree(x := degree x - 1)"
  let ?r = "if ?d x = 0 then ready @ [x] else ready"
  have step: "relax xs ?d ?r = (degree', ready')" using "2.prems"(2) by (simp add: Let_def)
  have left: "\<forall>y. int (count_list xs y) \<le> ?d y" using "2.prems"(1) by (auto split: if_splits)
  from "2.IH" [OF refl left step] obtain new where
    new: "ready' = ?r @ new" "distinct new" "set new = {y \<in> set xs. ?d y = int (count_list xs y)}"
    by blast
  show ?case
  proof (cases "degree x = 1")
    case True
    have "int (count_list xs x) \<le> ?d x" using left by blast
    then have "count_list xs x = 0" using True by simp
    then have fresh: "x \<notin> set xs" by (simp add: count_list_0_iff)
    have "y \<in> set (x # new) \<longleftrightarrow> y \<in> set (x # xs) \<and> degree y = int (count_list (x # xs) y)" for y
    proof (cases "y = x")
      case True
      then show ?thesis using \<open>degree x = 1\<close> \<open>count_list xs x = 0\<close> by simp
    qed (simp add: new(3))
    then have "set (x # new) = {y \<in> set (x # xs). degree y = int (count_list (x # xs) y)}" by blast
    moreover have "ready' = ready @ x # new" "distinct (x # new)"
      using True fresh new by auto
    ultimately show ?thesis by blast
  next
    case False
    have xin: "x \<in> set xs" if "degree x = int (count_list xs x) + 1"
      using that False count_list_0_iff [of xs x] by (cases "x \<in> set xs") auto
    have "y \<in> set new \<longleftrightarrow> y \<in> set (x # xs) \<and> degree y = int (count_list (x # xs) y)" for y
    proof (cases "y = x")
      case True
      have "degree x = int (count_list (x # xs) x) \<longleftrightarrow> degree x = int (count_list xs x) + 1" by auto
      then show ?thesis using True new(3) xin by auto
    qed (simp add: new(3))
    then have "set new = {y \<in> set (x # xs). degree y = int (count_list (x # xs) y)}" by blast
    then show ?thesis using False new by auto
  qed
qed simp

subsection \<open>The queue\<close>

definition topological :: "participant list \<Rightarrow> string list \<Rightarrow> bool" where
  "topological ps P \<longleftrightarrow> (\<forall>i < length P. \<forall>d. (d, P ! i) \<in> depends ps \<longrightarrow> d \<in> set (take i P))"

definition kahn_inv :: "participant list \<Rightarrow> string list \<Rightarrow> (string \<Rightarrow> int) \<Rightarrow> string list \<Rightarrow> bool" where
  "kahn_inv ps P degree ready \<longleftrightarrow>
     distinct (P @ ready) \<and> topological ps P
     \<and> (\<forall>n. degree n = (\<Sum>d \<in> participant_ids ps - set P. occurs ps d n))
     \<and> set (P @ ready) = {n \<in> participant_ids ps. degree n = 0}"

lemma kahn_invD:
  assumes "kahn_inv ps P degree ready"
  shows "distinct (P @ ready)" "topological ps P"
    "set (P @ ready) = {n \<in> participant_ids ps. degree n = 0}"
    "degree n = (\<Sum>d \<in> participant_ids ps - set P. occurs ps d n)"
  using assms unfolding kahn_inv_def by blast+

lemma finite_participants [simp]: "finite (participant_ids ps)"
  by (simp add: participant_ids_def)

lemma kahn_inv_settled:
  assumes "kahn_inv ps P degree ready" and "deps_known ps"
    and "n \<in> set (P @ ready)" and "(d, n) \<in> depends ps"
  shows "d \<in> set P"
proof (rule ccontr)
  assume "d \<notin> set P"
  moreover have "d \<in> participant_ids ps"
    using assms(2,4) by (auto simp: deps_known_def depends_def)
  ultimately have "0 < (\<Sum>d \<in> participant_ids ps - set P. occurs ps d n)"
    using assms(4) occurs_pos_iff [of ps d n] occurs_nonneg
    by (intro sum_pos2 [of _ d]) (auto simp: order_less_le)
  moreover have "degree n = 0" using kahn_invD(3) [OF assms(1)] assms(3) by blast
  ultimately show False using kahn_invD(4) [OF assms(1), of n] by simp
qed

lemma topological_snoc:
  "topological ps P \<Longrightarrow> \<forall>d. (d, n) \<in> depends ps \<longrightarrow> d \<in> set P \<Longrightarrow> topological ps (P @ [n])"
  by (auto simp: topological_def nth_append less_Suc_eq)

lemma kahn_inv_step:
  assumes inv: "kahn_inv ps P degree (n # ready)" and known: "deps_known ps"
    and r: "relax (sort (adjacency ps n)) degree ready = (degree', ready')"
  shows "kahn_inv ps (P @ [n]) degree' ready'"
proof -
  let ?N = "participant_ids ps"
  have n: "n \<in> ?N" "n \<notin> set P" using kahn_invD(1,3) [OF inv] by auto
  have cnt: "int (count_list (sort (adjacency ps n)) x) = occurs ps n x" for x
    by (simp add: occurs_def count_list_sort)
  have sum_n: "degree x = occurs ps n x + (\<Sum>d \<in> ?N - set (P @ [n]). occurs ps d x)" for x
  proof -
    have "?N - set (P @ [n]) = (?N - set P) - {n}" by auto
    then show ?thesis using kahn_invD(4) [OF inv, of x] n by (simp add: sum.remove)
  qed
  have deg: "degree' x = (\<Sum>d \<in> ?N - set (P @ [n]). occurs ps d x)" for x
    using relax_degree [OF r, of x] sum_n [of x] cnt [of x] by simp
  have "\<forall>x. int (count_list (sort (adjacency ps n)) x) \<le> degree x"
    using sum_n cnt by (auto simp: occurs_nonneg intro: sum_nonneg)
  from relax_ready [OF this r] obtain new where new: "ready' = ready @ new" "distinct new"
      "set new = {x \<in> set (adjacency ps n). degree x = occurs ps n x}"
    using cnt by auto
  have occ: "x \<in> set (adjacency ps n) \<longleftrightarrow> occurs ps n x \<noteq> 0" for x
    using count_list_0_iff [of "adjacency ps n" x] by (simp add: occurs_def)
  have zero: "degree' x = 0 \<longleftrightarrow> degree x = occurs ps n x" for x
    using deg [of x] sum_n [of x] by simp
  have done': "set (P @ n # ready) = {x \<in> ?N. degree x = 0}" using kahn_invD(3) [OF inv] .
  have kept: "occurs ps n x = 0" if "degree x = 0" for x
  proof -
    have "0 \<le> (\<Sum>d \<in> ?N - set (P @ [n]). occurs ps d x)"
      by (intro sum_nonneg) (simp add: occurs_nonneg)
    then show ?thesis using sum_n [of x] that occurs_nonneg [of ps n x] by linarith
  qed
  have news: "x \<in> set new \<longleftrightarrow> x \<in> ?N \<and> degree' x = 0 \<and> degree x \<noteq> 0" for x
    using new(3) occ [of x] zero [of x] kept [of x] adjacency_nodes [of ps n]
    by (auto simp: participant_ids_def)
  have old: "x \<in> set (P @ n # ready) \<longleftrightarrow> x \<in> ?N \<and> degree x = 0" for x
    using done' by blast
  have "x \<in> set ((P @ [n]) @ ready') \<longleftrightarrow> x \<in> ?N \<and> degree' x = 0" for x
  proof -
    have "x \<in> set ((P @ [n]) @ ready') \<longleftrightarrow> x \<in> set (P @ n # ready) \<or> x \<in> set new"
      using new(1) by auto
    also have "\<dots> \<longleftrightarrow> x \<in> ?N \<and> degree' x = 0"
      using old [of x] news [of x] zero [of x] kept [of x] by auto
    finally show ?thesis .
  qed
  then have "set ((P @ [n]) @ ready') = {x \<in> ?N. degree' x = 0}" by blast
  moreover have "distinct ((P @ [n]) @ ready')"
    using kahn_invD(1) [OF inv] new(1,2) news old by auto
  moreover have "topological ps (P @ [n])"
  proof (rule topological_snoc)
    show "topological ps P" using kahn_invD(2) [OF inv] .
    show "\<forall>d. (d, n) \<in> depends ps \<longrightarrow> d \<in> set P"
      by (intro allI impI) (rule kahn_inv_settled [OF inv known], simp_all)
  qed
  ultimately show ?thesis using deg unfolding kahn_inv_def by blast
qed
lemma kahn_run:
  assumes "kahn_inv ps P degree ready" and "deps_known ps"
  shows "\<exists>P' degree'. kahn ps degree ready (length P) = length P' \<and> kahn_inv ps P' degree' []"
  using assms
proof (induction ps degree ready "length P" arbitrary: P rule: kahn.induct)
  case (1 ps degree)
  then show ?case by auto
next
  case (2 ps degree node ready)
  let ?r = "relax (sort (adjacency ps node)) degree ready"
  have "kahn_inv ps (P @ [node]) (fst ?r) (snd ?r)"
    using "2.prems" by (intro kahn_inv_step [of ps P degree node ready]) simp_all
  moreover have "length P + 1 = length (P @ [node])" by simp
  ultimately obtain P' degree' where
    "kahn ps (fst ?r) (snd ?r) (length (P @ [node])) = length P'" "kahn_inv ps P' degree' []"
    using "2.hyps" [OF refl] "2.prems"(2) by blast
  then show ?case by (auto simp: Let_def)
qed

lemma kahn_inv_start:
  assumes "deps_known ps" and "distinct (map wp_participant_id ps)"
  shows "kahn_inv ps [] (indegree ps)
    (sort (filter (\<lambda>n. indegree ps n = 0) (remdups (map wp_participant_id ps))))"
  using assms indegree_occurs [of "participant_ids ps" ps]
  by (auto simp: kahn_inv_def topological_def deps_known_def participant_ids_def)

lemma topological_acyclic:
  assumes "topological ps P" and "distinct P" and "\<And>d n. (d, n) \<in> depends ps \<Longrightarrow> n \<in> set P"
  shows "acyclic (depends ps)"
proof (rule rank_acyclic)
  fix d n assume e: "(d, n) \<in> depends ps"
  then obtain i where i: "i < length P" "n = P ! i"
    using assms(3) [of d n] by (auto simp: in_set_conv_nth)
  then have "d \<in> set (take i P)" using assms(1) e by (auto simp: topological_def)
  then obtain j where "j < i" "j < length P" "d = P ! j"
    by (auto simp: in_set_conv_nth)
  then show "rank_in P d < rank_in P n" using i rank_in_nth [OF assms(2)] by simp
qed

lemma kahn_exact:
  assumes known: "deps_known ps" and unique: "distinct (map wp_participant_id ps)"
  shows "workflow_has_cycle ps \<longleftrightarrow> \<not> acyclic (depends ps)"
proof -
  let ?N = "participant_ids ps"
  obtain P degree where P: "workflow_has_cycle ps \<longleftrightarrow> length P \<noteq> length ps" "kahn_inv ps P degree []"
    using kahn_run [OF kahn_inv_start [OF known unique] known]
    by (auto simp: workflow_has_cycle_def)
  have dP: "distinct P" and sub: "set P = {n \<in> ?N. degree n = 0}"
    using kahn_invD(1,3) [OF P(2)] by simp_all
  have "length P = card (set P)" using distinct_card [OF dP] by simp
  moreover have "set P \<subseteq> ?N" using sub by blast
  moreover have "length ps = card ?N"
    using distinct_card [OF unique] by (simp add: participant_ids_def)
  ultimately have all: "workflow_has_cycle ps \<longleftrightarrow> set P \<noteq> ?N"
    using P(1) card_subset_eq [of ?N "set P"] by auto
  show ?thesis
  proof (cases "set P = ?N")
    case True
    have "acyclic (depends ps)"
      using kahn_invD(2) [OF P(2)] dP True
      by (intro topological_acyclic [of ps P]) (auto simp: participant_ids_def depends_def)
    with True all show ?thesis by blast
  next
    case False
    have "depends ps \<subseteq> ?N \<times> ?N"
      using known by (auto simp: depends_def deps_known_def participant_ids_def)
    then have fin: "finite (depends ps)" by (rule finite_subset) simp
    have "\<not> acyclic (depends ps)"
    proof
      assume "acyclic (depends ps)"
      with fin have "wf (depends ps)" by (rule finite_acyclic_wf)
      moreover obtain m where "m \<in> ?N - set P" using False sub by blast
      ultimately obtain z where z: "z \<in> ?N - set P" "\<And>y. (y, z) \<in> depends ps \<Longrightarrow> y \<notin> ?N - set P"
        by (rule wfE_min) blast
      then have "occurs ps d z = 0" if "d \<in> ?N - set P" for d
        using that occurs_pos_iff [of ps d z] by blast
      then have "degree z = 0" using kahn_invD(4) [OF P(2), of z] by simp
      then show False using z(1) sub by blast
    qed
    with False all show ?thesis by blast
  qed
qed

subsection \<open>Accepted workflows\<close>

lemma first_some_None: "first_some f xs = None \<longleftrightarrow> (\<forall>x \<in> set xs. f x = None)"
  by (induction xs) (auto split: option.split)

lemma duplicate_participant_None:
  "duplicate_participant seen ps = None \<longleftrightarrow>
     distinct (map wp_participant_id ps) \<and> set seen \<inter> participant_ids ps = {}"
  by (induction ps arbitrary: seen) (auto simp: participant_ids_def)

lemma participant_by_id_None: "participant_by_id ps n = None \<longleftrightarrow> n \<notin> participant_ids ps"
  by (auto simp: participant_by_id_def participant_ids_def find_None_iff)

lemma unknown_dependency_None: "unknown_dependency ps = None \<longleftrightarrow> deps_known ps"
  by (auto simp: unknown_dependency_def first_some_None deps_known_def list_ex_iff
      participant_by_id_None)

text \<open>What a participant or the workflow declares under a name.\<close>

definition produces :: "participant list \<Rightarrow> string \<Rightarrow> string \<Rightarrow> bool" where
  "produces ps producer name \<longleftrightarrow>
     (\<exists>p \<in> set ps. wp_participant_id p = producer \<and> name \<in> io_name ` set (wp_outputs p))"

lemma declares_output_iff:
  assumes "distinct (map wp_participant_id ps)"
  shows "declares_output ps producer name \<longleftrightarrow> produces ps producer name"
proof (cases "participant_by_id ps producer")
  case None
  then have "producer \<notin> wp_participant_id ` set ps"
    by (simp add: participant_by_id_None participant_ids_def)
  then show ?thesis using None by (auto simp: declares_output_def produces_def)
next
  case (Some p)
  then have "p \<in> set ps" "wp_participant_id p = producer"
    by (auto simp: participant_by_id_def find_Some_iff)
  moreover have "q = p" if "q \<in> set ps" "wp_participant_id q = producer" for q
    using assms that calculation by (auto simp: distinct_map inj_on_def)
  ultimately have "produces ps producer name \<longleftrightarrow> name \<in> io_name ` set (wp_outputs p)"
    unfolding produces_def by blast
  then show ?thesis using Some by (simp add: declares_output_def)
qed

text \<open>Where a declared value comes from, for each of the four lists of declarations.\<close>

definition sources_ok :: "workflow_content \<Rightarrow> bool" where
  "sources_ok w \<longleftrightarrow>
     (\<forall>d \<in> set (wc_inputs w). io_source d = None)
   \<and> (\<forall>d \<in> set (wc_outputs w). \<exists>p n. produces (wc_participants w) p n
        \<and> io_source d = Some \<lparr>io_participant_id = Some p, io_source_name = n\<rparr>)
   \<and> (\<forall>p \<in> set (wc_participants w).
        (\<forall>d \<in> set (wp_outputs p). io_source d = None)
      \<and> (\<forall>d \<in> set (wp_inputs p). \<forall>s. io_source d = Some s \<longrightarrow>
           (case io_participant_id s of
              None \<Rightarrow> io_source_name s \<in> io_name ` set (wc_inputs w)
            | Some q \<Rightarrow> q \<noteq> wp_participant_id p
                \<and> produces (wc_participants w) q (io_source_name s))))"

definition workflow_well_formed :: "workflow_content \<Rightarrow> dependency_pin list \<Rightarrow> bool" where
  "workflow_well_formed w pins \<longleftrightarrow>
     (let ps = wc_participants w in
      distinct (map wp_participant_id ps) \<and> deps_known ps \<and> acyclic (depends ps)
    \<and> (\<forall>ds \<in> {wc_inputs w, wc_outputs w} \<union> (\<Union>p \<in> set ps. {wp_inputs p, wp_outputs p}).
         distinct (map io_name ds))
    \<and> wp_agent_stable_key ` set ps = dp_stable_key ` {d \<in> set pins. dp_kind d = Kind_AGENT_DEFINITION}
    \<and> sources_ok w)"

lemma duplicate_io_None:
  "duplicate_io w = None \<longleftrightarrow>
     (\<forall>ds \<in> {wc_inputs w, wc_outputs w}
        \<union> (\<Union>p \<in> set (wc_participants w). {wp_inputs p, wp_outputs p}). distinct (map io_name ds))"
  by (auto simp: duplicate_io_def first_some_None repeated_names_def)

lemma agent_key_errors_None:
  "agent_key_errors pins ps = None \<longleftrightarrow>
     wp_agent_stable_key ` set ps = dp_stable_key ` {d \<in> set pins. dp_kind d = Kind_AGENT_DEFINITION}"
proof -
  let ?keys = "map dp_stable_key (filter (\<lambda>d. dp_kind d = Kind_AGENT_DEFINITION) pins)"
  let ?unused = "filter (\<lambda>k. k \<notin> set (map wp_agent_stable_key ps)) ?keys"
  have unused: "py_sorted_set ?unused = [] \<longleftrightarrow> set ?unused = {}"
    by (metis set_empty set_py_sorted_set)
  have "agent_key_errors pins ps = None \<longleftrightarrow>
      first_some (\<lambda>p. if wp_agent_stable_key p \<notin> set ?keys
             then Some (UNKNOWN_PARTICIPANT_AGENT,
                ''participants.'' @ wp_participant_id p @ ''.agent_stable_key'')
             else None) ps = None \<and> py_sorted_set ?unused = []"
    unfolding agent_key_errors_def Let_def
    by (auto split: option.split list.split)
  also have "\<dots> \<longleftrightarrow>
      (\<forall>p \<in> set ps. wp_agent_stable_key p \<in> set ?keys) \<and> py_sorted_set ?unused = []"
    unfolding first_some_None by simp
  also have "\<dots> \<longleftrightarrow> wp_agent_stable_key ` set ps = set ?keys"
    unfolding unused by auto
  finally show ?thesis by simp
qed

lemma sources_ok_iff:
  assumes "distinct (map wp_participant_id (wc_participants w))"
  shows "sources_ok w \<longleftrightarrow>
    first_some workflow_input_error (wc_inputs w) = None
  \<and> first_some (workflow_output_error (wc_participants w)) (wc_outputs w) = None
  \<and> first_some (participant_io_error w) (wc_participants w) = None"
proof -
  have out: "workflow_output_error (wc_participants w) d = None \<longleftrightarrow>
      (\<exists>p n. produces (wc_participants w) p n
        \<and> io_source d = Some \<lparr>io_participant_id = Some p, io_source_name = n\<rparr>)" for d
  proof (cases "io_source d")
    case (Some s)
    then show ?thesis
      by (cases s; cases "io_participant_id s")
        (simp_all add: workflow_output_error_def Let_def declares_output_iff [OF assms])
  qed (simp add: workflow_output_error_def)
  have inp: "participant_input_error w p d = None \<longleftrightarrow>
      (\<forall>s. io_source d = Some s \<longrightarrow>
           (case io_participant_id s of
              None \<Rightarrow> io_source_name s \<in> io_name ` set (wc_inputs w)
            | Some q \<Rightarrow> q \<noteq> wp_participant_id p
                \<and> produces (wc_participants w) q (io_source_name s)))" for p d
    by (auto simp: participant_input_error_def Let_def declares_output_iff [OF assms]
        split: option.splits)
  have io: "participant_io_error w p = None \<longleftrightarrow>
      (\<forall>d \<in> set (wp_outputs p). io_source d = None)
    \<and> (\<forall>d \<in> set (wp_inputs p). participant_input_error w p d = None)" for p
  proof -
    have "participant_io_error w p = None \<longleftrightarrow>
        first_some (participant_output_error p) (wp_outputs p) = None
      \<and> first_some (participant_input_error w p) (wp_inputs p) = None"
      by (simp add: participant_io_error_def split: option.split)
    then show ?thesis unfolding first_some_None participant_output_error_def by simp
  qed
  show ?thesis
    unfolding sources_ok_def first_some_None out io inp workflow_input_error_def by simp
qed

lemma acceptance:
  "workflow_validation_errors w pins = None \<longleftrightarrow>
     distinct (map wp_participant_id (wc_participants w)) \<and> deps_known (wc_participants w)
   \<and> \<not> workflow_has_cycle (wc_participants w)
   \<and> duplicate_io w = None \<and> agent_key_errors pins (wc_participants w) = None
   \<and> first_some workflow_input_error (wc_inputs w) = None
   \<and> first_some (workflow_output_error (wc_participants w)) (wc_outputs w) = None
   \<and> first_some (participant_io_error w) (wc_participants w) = None"
  using duplicate_participant_None [of "[]" "wc_participants w"]
    unknown_dependency_None [of "wc_participants w"]
  by (auto simp: workflow_validation_errors_def Let_def split: option.splits)

text \<open>A workflow definition is accepted exactly when it is well formed: unique participants,
  known and acyclic dependencies, unique names, exactly the pinned agents used, and every declared
  source present: Property C0.\<close>

theorem workflow_accepted_iff:
  "workflow_validation_errors w pins = None \<longleftrightarrow> workflow_well_formed w pins"
proof (cases "distinct (map wp_participant_id (wc_participants w)) \<and> deps_known (wc_participants w)")
  case True
  then show ?thesis
    unfolding acceptance workflow_well_formed_def Let_def duplicate_io_None agent_key_errors_None
    using kahn_exact [of "wc_participants w"] sources_ok_iff [of w] by blast
next
  case False
  then show ?thesis unfolding acceptance workflow_well_formed_def Let_def by blast
qed

subsection \<open>Skill files\<close>

definition portable_segment :: "string \<Rightarrow> bool" where
  "portable_segment s \<longleftrightarrow> s \<notin> {[], ''.'', ''..''}
     \<and> (\<forall>c \<in> set (chop_newline s). dotted_char c \<or> c = CHR '' '')
     \<and> last s \<notin> {CHR ''.'', CHR '' ''}
     \<and> ascii_upper (takeWhile (\<lambda>c. c \<noteq> CHR ''.'') s) \<notin> set windows_reserved"

lemma segment_chars:
  "skill_file_segment s \<Longrightarrow> c \<in> set (chop_newline s) \<Longrightarrow> dotted_char c \<or> c = CHR '' ''"
  by (cases "chop_newline s" rule: plain_segment.cases; cases "chop_newline s" rule: dot_segment.cases)
    (auto simp: skill_file_segment_def list_all_iff dotted_char_def)

lemma segment_error_None: "segment_error s = None \<Longrightarrow> portable_segment s"
  by (auto simp: segment_error_def portable_segment_def dest: segment_chars split: if_splits)

lemma path_accepted:
  "skill_file_path_error path = None \<Longrightarrow>
     hd path \<noteq> CHR ''/'' \<and> list_all portable_segment (split_on CHR ''/'' path)
   \<and> ascii_lower path \<noteq> ''skill.md''"
  by (auto simp: skill_file_path_error_def first_some_None list_all_iff segment_error_None
      split: if_splits option.splits)

lemma fold_paths_ok:
  "fold_paths seen fs = Inr seen' \<Longrightarrow> distinct seen \<Longrightarrow>
     seen' = seen @ map (\<lambda>f. ascii_lower (sf_path f)) fs \<and> distinct seen'"
proof (induction seen fs rule: fold_paths.induct)
  case (2 seen f fs)
  let ?p = "ascii_lower (sf_path f)"
  from "2.prems" have new: "?p \<notin> set seen" and rest: "fold_paths (seen @ [?p]) fs = Inr seen'"
    by (simp_all add: Let_def split: if_splits)
  have "distinct (seen @ [?p])" using new "2.prems"(2) by simp
  note IH = "2.IH" [OF refl new rest this]
  have "seen' = seen @ map (\<lambda>f. ascii_lower (sf_path f)) (f # fs)" using IH [THEN conjunct1] by simp
  with IH [THEN conjunct2] show ?case by blast
qed simp

definition writable_files :: "skill_file list \<Rightarrow> bool" where
  "writable_files fs \<longleftrightarrow>
     (let paths = map (\<lambda>f. ascii_lower (sf_path f)) fs in
      distinct paths \<and> (\<forall>a \<in> set paths. \<forall>b \<in> set paths. \<not> path_under a b)
    \<and> (\<forall>f \<in> set fs. hd (sf_path f) \<noteq> CHR ''/'' \<and> list_all portable_segment (split_on CHR ''/'' (sf_path f))
         \<and> ascii_lower (sf_path f) \<noteq> ''skill.md'')
    \<and> sum_list (map (\<lambda>f. int (length (sf_text f))) fs) \<le> SKILL_FILES_TOTAL_MAX_LENGTH)"

text \<open>The auxiliary files of an accepted skill can be laid out below one directory: relative
  paths of portable segments, distinct whatever the case, none a directory of another, none the
  main file, within the size limit, each with its digest: Property C0.\<close>

theorem skill_files_writable:
  assumes "skill_content_error sha256 fs = None"
  shows "writable_files fs \<and> (\<forall>f \<in> set fs. sha256 (sf_text f) = sf_sha256 f)"
proof -
  from assms have each: "\<forall>f \<in> set fs. skill_file_check sha256 f = None" and all: "skill_files_check fs = None"
    by (simp_all add: skill_content_error_def first_some_None split: option.splits)
  from all obtain seen where seen: "fold_paths [] fs = Inr seen"
    "find (\<lambda>a. list_ex (path_under a) seen) seen = None"
    "sum_list (map (\<lambda>f. int (length (sf_text f))) fs) \<le> SKILL_FILES_TOTAL_MAX_LENGTH"
    by (auto simp: skill_files_check_def split: sum.splits option.splits if_splits)
  then have "seen = map (\<lambda>f. ascii_lower (sf_path f)) fs" "distinct seen"
    using fold_paths_ok [of "[]" fs seen] by auto
  moreover have "\<forall>f \<in> set fs. skill_file_path_error (sf_path f) = None \<and> sha256 (sf_text f) = sf_sha256 f"
    using each by (auto simp: skill_file_check_def split: option.splits if_splits)
  ultimately show ?thesis
    using seen(2,3) path_accepted
    by (simp add: writable_files_def Let_def find_None_iff list_ex_iff)
qed

definition sample_files :: "skill_file list" where
  "sample_files = [\<lparr>sf_path = ''refs/notes.md'', sf_text = ''a'', sf_sha256 = ''a''\<rparr>,
     \<lparr>sf_path = ''refs.md'', sf_text = ''b'', sf_sha256 = ''b''\<rparr>]"

lemma skill_files_writable_witness: "writable_files sample_files"
proof -
  have "skill_content_error (\<lambda>t. t) sample_files = None" by code_simp
  from skill_files_writable [OF this] show ?thesis by blast
qed

text \<open>The pattern's \<open>$\<close> stands before a final line feed, so one may end any segment.\<close>

lemma trailing_newline_accepted:
  "skill_file_path_error (''notes.md'' @ [CHR 0x0A]) = None
   \<and> skill_file_path_error (''CON'' @ [CHR 0x0A] @ ''/x'') = None"
  by code_simp

end
