(* ===== verification/Library.thy ===== *)
theory Library
  imports Library_Contract Events
begin

section \<open>AI library (\<open>services/library.py\<close>, \<open>db/models/library.py\<close>)\<close>

text \<open>
  Reusable definitions: a resource row holds the active pointer, a version row is an immutable
  snapshot, a link is a version-pinned dependency, a lock pins a project to a version. Handlers
  follow the router's order (read, authorize, act); the row lock of \<open>create_resource_version\<close> is
  the sequential step. Fresh ids and the clock are arguments. The pydantic schemas are parameters.
\<close>

subsection \<open>Rows\<close>

type_synonym content = "(string \<times> jval) list"

record library_row =
  lr_id :: uuid
  lr_kind :: library_kind
  lr_stable_key :: string
  lr_scope :: library_scope
  lr_status :: library_status
  lr_active_version :: int
  lr_owner_user_id :: "uuid option"
  lr_project_id :: "uuid option"
  lr_version :: int

record version_row =
  lv_id :: uuid
  lv_resource_id :: uuid
  lv_version :: int
  lv_title :: string
  lv_description :: "string option"
  lv_content :: content
  lv_created_by_user_id :: "uuid option"

text \<open>The relation column is text, written from the enum and parsed back.\<close>

record link_row =
  ll_from_version_id :: uuid
  ll_to_resource_id :: uuid
  ll_to_version :: int
  ll_relation :: string

record lock_row =
  lk_id :: uuid
  lk_project_id :: uuid
  lk_resource_id :: uuid
  lk_locked_version :: int
  lk_created_by_user_id :: "uuid option"

fun relation_value :: "binding_relation \<Rightarrow> string" where
  "relation_value REQUIRES_MODEL_PROFILE = ''requires_model_profile''"
| "relation_value USES_SKILL = ''uses_skill''"
| "relation_value APPLIES_RULE = ''applies_rule''"
| "relation_value COMPOSES_AGENT = ''composes_agent''"
| "relation_value REFERENCES_WORKFLOW = ''references_workflow''"
| "relation_value REFINES_SKILL_RULE = ''refines_skill_rule''"
| "relation_value USES_HOOK = ''uses_hook''"

definition all_relations :: "binding_relation list" where
  "all_relations = [REQUIRES_MODEL_PROFILE, USES_SKILL, APPLIES_RULE, COMPOSES_AGENT,
     REFERENCES_WORKFLOW, REFINES_SKILL_RULE, USES_HOOK]"

definition relation_of :: "string \<Rightarrow> binding_relation option" where
  "relation_of s = find (\<lambda>r. relation_value r = s) all_relations"

record library_db =
  lb_db :: db
  lb_resources :: "library_row list"
  lb_versions :: "version_row list"
  lb_links :: "link_row list"
  lb_locks :: "lock_row list"

text \<open>What pydantic and the regular expressions decide.\<close>

record library_schemas =
  sc_shape_errors :: "library_kind \<Rightarrow> content \<Rightarrow> jval list"
  sc_skill_files :: "content \<Rightarrow> skill_file list"
  sc_skill_detail :: "skill_error \<Rightarrow> jval"
  sc_workflow :: "content \<Rightarrow> workflow_content option"
  sc_hook :: "content \<Rightarrow> hook_content option"
  sc_sha256 :: "string \<Rightarrow> string"
  sc_secret :: "string \<Rightarrow> bool"

definition put_resource :: "library_row \<Rightarrow> 's library_db_scheme \<Rightarrow> 's library_db_scheme" where
  "put_resource r d = d\<lparr>lb_resources := tbl_put lr_id r (lb_resources d)\<rparr>"

definition get_resource_row :: "'s library_db_scheme \<Rightarrow> uuid \<Rightarrow> library_row option" where
  "get_resource_row d = tbl_get lr_id (lb_resources d)"

definition version_of :: "'s library_db_scheme \<Rightarrow> uuid \<Rightarrow> int \<Rightarrow> version_row option" where
  "version_of d rid v = find (\<lambda>x. lv_resource_id x = rid \<and> lv_version x = v) (lb_versions d)"

definition links_from :: "'s library_db_scheme \<Rightarrow> uuid \<Rightarrow> link_row list" where
  "links_from d vid = filter (\<lambda>l. ll_from_version_id l = vid) (lb_links d)"

subsection \<open>Reading\<close>

definition can_read :: "principal \<Rightarrow> library_row \<Rightarrow> bool" where
  "can_read p r =
     (if lr_scope r = Scope_USER then p_role p = Role_ADMIN \<or> lr_owner_user_id r = Some (u_id (p_user p))
      else (case lr_project_id r of Some pid \<Rightarrow> has_project_access p pid | None \<Rightarrow> has_any_project p))"

definition ensure_scope_access ::
  "principal \<Rightarrow> uuid option \<Rightarrow> bool \<Rightarrow> project_action \<Rightarrow> unit fallible" where
  "ensure_scope_access p project_id is_user_scope action =
     (if is_user_scope then Inr ()
      else (case project_id of Some pid \<Rightarrow> ensure_project_access p pid action
            | None \<Rightarrow> ensure_shared_access p action))"

definition ensure_resource_scope ::
  "principal \<Rightarrow> library_row \<Rightarrow> project_action \<Rightarrow> unit fallible" where
  "ensure_resource_scope p r action =
     ensure_scope_access p (lr_project_id r) (lr_scope r = Scope_USER) action"

definition read_clause :: "principal \<Rightarrow> (library_row \<Rightarrow> bool) option" where
  "read_clause p =
     (let own = (\<lambda>r. lr_scope r = Scope_USER \<and> lr_owner_user_id r = Some (u_id (p_user p))) in
      if p_role p = Role_ADMIN then None
      else (case p_scope p of
          ALL_PROJECTS \<Rightarrow> Some (\<lambda>r. own r \<or> lr_scope r \<noteq> Scope_USER)
        | Projects ps \<Rightarrow>
            if ps = {} then Some own
            else Some (\<lambda>r. own r
                   \<or> (lr_scope r = Scope_PROJECT \<and> (case lr_project_id r of None \<Rightarrow> False | Some pid \<Rightarrow> pid \<in> ps))
                   \<or> lr_scope r = Scope_STUDIO)))"

definition library_not_found :: http_error where
  "library_not_found = HTTPException 404 (JText ''library resource not found'')"

definition get_resource ::
  "'s library_db_scheme \<Rightarrow> principal \<Rightarrow> uuid \<Rightarrow> library_row option fallible" where
  "get_resource d p rid =
     (case get_resource_row d rid of
        None \<Rightarrow> Inr None
      | Some r \<Rightarrow>
          and_then (ensure_resource_scope p r ReadAction)
            (Inr (if can_read p r then Some r else None)))"

definition find_readable_resource ::
  "'s library_db_scheme \<Rightarrow> principal \<Rightarrow> uuid \<Rightarrow> library_row option" where
  "find_readable_resource d p rid =
     (case get_resource_row d rid of
        None \<Rightarrow> None | Some r \<Rightarrow> if can_read p r then Some r else None)"

definition matches_opt :: "'a option \<Rightarrow> 'a \<Rightarrow> bool" where
  "matches_opt wanted x \<longleftrightarrow> (case wanted of None \<Rightarrow> True | Some w \<Rightarrow> x = w)"

text \<open>Rows are kept in creation order.\<close>

definition list_resources ::
  "'s library_db_scheme \<Rightarrow> principal \<Rightarrow> library_kind option \<Rightarrow> library_scope option \<Rightarrow> uuid option
     \<Rightarrow> nat \<Rightarrow> nat \<Rightarrow> library_row list fallible" where
  "list_resources d p kind scope project_id limit offset =
     and_then (case project_id of None \<Rightarrow> Inr () | Some pid \<Rightarrow> ensure_project_access p pid ReadAction)
       (Inr (take limit (drop offset
          (where_clause (read_clause p)
            (filter (\<lambda>r. matches_opt kind (lr_kind r) \<and> matches_opt scope (lr_scope r)
                 \<and> (project_id = None \<or> lr_project_id r = project_id)) (lb_resources d))))))"

definition list_versions :: "'s library_db_scheme \<Rightarrow> uuid \<Rightarrow> version_row list" where
  "list_versions d rid = sort_key lv_version (filter (\<lambda>v. lv_resource_id v = rid) (lb_versions d))"

record version_detail_view =
  vd_row :: version_row
  vd_dependencies :: "dependency_pin list"

definition pin_of_link :: "'s library_db_scheme \<Rightarrow> link_row \<Rightarrow> dependency_pin option" where
  "pin_of_link d l =
     map_option (\<lambda>t. \<lparr>dp_kind = lr_kind t, dp_stable_key = lr_stable_key t,
        dp_version = ll_to_version l, dp_relation = relation_of (ll_relation l), dp_resource_id = None\<rparr>)
       (get_resource_row d (ll_to_resource_id l))"

definition version_detail :: "'s library_db_scheme \<Rightarrow> version_row \<Rightarrow> version_detail_view" where
  "version_detail d v =
     \<lparr>vd_row = v, vd_dependencies = List.map_filter (pin_of_link d) (links_from d (lv_id v))\<rparr>"

subsection \<open>Binding the dependencies of a new version\<close>

definition coded :: "nat \<Rightarrow> string \<Rightarrow> (string \<times> jval) list \<Rightarrow> http_error" where
  "coded status code details = HTTPException status (JObj ((''error_code'', JText code) # details))"

definition invalid_binding :: "string \<Rightarrow> http_error" where
  "invalid_binding reason = coded 422 ''invalid_binding'' [(''reason'', JText reason)]"

definition pin_candidates ::
  "'s library_db_scheme \<Rightarrow> principal \<Rightarrow> dependency_pin \<Rightarrow> library_row list" where
  "pin_candidates d p pin =
     filter (can_read p)
       (filter (\<lambda>r. lr_kind r = dp_kind pin \<and> lr_stable_key r = dp_stable_key pin
            \<and> matches_opt (dp_resource_id pin) (lr_id r)) (lb_resources d))"

definition resolve_pin ::
  "'s library_db_scheme \<Rightarrow> principal \<Rightarrow> dependency_pin \<Rightarrow> library_row fallible" where
  "resolve_pin d p pin =
     (case pin_candidates d p pin of
        [] \<Rightarrow> Inl (coded 404 ''pin_not_found'' [(''stable_key'', JText (dp_stable_key pin))])
      | [r] \<Rightarrow> Inr r
      | _ \<Rightarrow> Inl (coded 409 ''pin_ambiguous'' [(''stable_key'', JText (dp_stable_key pin))]))"

record bind_progress =
  bi_seen_targets :: "uuid list"
  bi_profiles :: nat
  bi_links :: "link_row list"

definition bind_pin ::
  "'s library_db_scheme \<Rightarrow> principal \<Rightarrow> library_row \<Rightarrow> uuid \<Rightarrow> dependency_pin \<Rightarrow> bind_progress
     \<Rightarrow> bind_progress fallible" where
  "bind_pin d p resource vid pin st =
     and_get (resolve_pin d p pin) (\<lambda>target.
     and_get (found (coded 404 ''pin_version_not_found'' [(''stable_key'', JText (dp_stable_key pin))])
        (version_of d (lr_id target) (dp_version pin))) (\<lambda>_.
     and_get (found (invalid_binding ''forbidden_kind_pair'')
        (binding_relation_for (lr_kind resource) (lr_kind target))) (\<lambda>expected.
     (let profiles = (if expected = REQUIRES_MODEL_PROFILE then bi_profiles st + 1 else bi_profiles st) in
      and_then (raise_if (dp_relation pin \<noteq> None \<and> dp_relation pin \<noteq> Some expected)
         (invalid_binding ''relation_mismatch''))
     (and_then (raise_if (expected = REQUIRES_MODEL_PROFILE \<and> profiles > 1)
         (invalid_binding ''too_many_model_profiles''))
     (and_then (raise_if (lr_id target \<in> set (bi_seen_targets st)) (invalid_binding ''duplicate_binding''))
     (and_then (raise_if (\<not> binding_scope_allows (lr_scope resource) (lr_owner_user_id resource)
            (lr_scope target) (lr_owner_user_id target)) (invalid_binding ''forbidden_scope''))
        (Inr \<lparr>bi_seen_targets = bi_seen_targets st @ [lr_id target], bi_profiles = profiles,
          bi_links = bi_links st @ [\<lparr>ll_from_version_id = vid, ll_to_resource_id = lr_id target,
            ll_to_version = dp_version pin, ll_relation = relation_value expected\<rparr>]\<rparr>))))))))"

fun bind_pins ::
  "'s library_db_scheme \<Rightarrow> principal \<Rightarrow> library_row \<Rightarrow> uuid \<Rightarrow> dependency_pin list \<Rightarrow> bind_progress
     \<Rightarrow> bind_progress fallible" where
  "bind_pins d p resource vid [] st = Inr st"
| "bind_pins d p resource vid (pin # pins) st =
     and_get (bind_pin d p resource vid pin st) (bind_pins d p resource vid pins)"

definition content_validation_errors :: "library_schemas \<Rightarrow> library_kind \<Rightarrow> content \<Rightarrow> jval list" where
  "content_validation_errors sc kind content =
     (if sc_shape_errors sc kind content \<noteq> [] then sc_shape_errors sc kind content
      else if kind = Kind_SKILL then
        (case skill_content_error (sc_sha256 sc) (sc_skill_files sc content) of
           None \<Rightarrow> [] | Some e \<Rightarrow> [sc_skill_detail sc e])
      else [])"

fun workflow_reason_value :: "workflow_reason \<Rightarrow> string" where
  "workflow_reason_value DUPLICATE_PARTICIPANT = ''duplicate_participant''"
| "workflow_reason_value UNKNOWN_DEPENDENCY = ''unknown_dependency''"
| "workflow_reason_value DEPENDENCY_CYCLE = ''dependency_cycle''"
| "workflow_reason_value UNKNOWN_PARTICIPANT_AGENT = ''unknown_participant_agent''"
| "workflow_reason_value UNUSED_AGENT_DEPENDENCY = ''unused_agent_dependency''"
| "workflow_reason_value DUPLICATE_IO_DECLARATION = ''duplicate_io_declaration''"
| "workflow_reason_value INVALID_IO_REFERENCE = ''invalid_io_reference''"

fun hook_reason_value :: "hook_reason \<Rightarrow> string" where
  "hook_reason_value DUPLICATE_SCRIPT_TARGET = ''duplicate_script_target''"
| "hook_reason_value MATCHER_NOT_SUPPORTED = ''matcher_not_supported''"
| "hook_reason_value BLOCKING_NOT_SUPPORTED = ''blocking_not_supported''"
| "hook_reason_value SECRET_MATERIAL = ''secret_material''"

definition ensure_content ::
  "library_schemas \<Rightarrow> library_kind \<Rightarrow> content \<Rightarrow> dependency_pin list \<Rightarrow> unit fallible" where
  "ensure_content sc kind content pins =
     and_then (raise_if (content_validation_errors sc kind content \<noteq> [])
        (coded 422 ''invalid_content'' [(''details'', JList (content_validation_errors sc kind content))]))
    (if kind = Kind_WORKFLOW then
       (case Option.bind (sc_workflow sc content) (\<lambda>w. workflow_validation_errors w pins) of
          None \<Rightarrow> Inr ()
        | Some (reason, field) \<Rightarrow> Inl (coded 422 ''invalid_workflow''
            [(''reason'', JText (workflow_reason_value reason)), (''field'', JText field)]))
     else if kind = Kind_HOOK then
       (case Option.bind (sc_hook sc content) (hook_validation_errors (sc_secret sc)) of
          None \<Rightarrow> Inr ()
        | Some (reason, field) \<Rightarrow> Inl (coded 422 ''invalid_hook''
            [(''field'', JText field), (''reason'', JText (hook_reason_value reason))]))
     else Inr ())"

record version_in =
  vi_title :: string
  vi_description :: "string option"
  vi_content :: content
  vi_dependencies :: "dependency_pin list"

text \<open>The version row is flushed before its dependencies are resolved, so it can see itself.\<close>

definition create_version_row ::
  "library_schemas \<Rightarrow> 's library_db_scheme \<Rightarrow> principal \<Rightarrow> library_row \<Rightarrow> uuid \<Rightarrow> int \<Rightarrow> version_in
     \<Rightarrow> ('s library_db_scheme \<times> version_row) fallible" where
  "create_version_row sc d p resource vid version data =
     and_then (ensure_content sc (lr_kind resource) (vi_content data) (vi_dependencies data))
       (let row = \<lparr>lv_id = vid, lv_resource_id = lr_id resource, lv_version = version,
              lv_title = vi_title data, lv_description = vi_description data,
              lv_content = vi_content data, lv_created_by_user_id = Some (u_id (p_user p))\<rparr>;
            d1 = d\<lparr>lb_versions := lb_versions d @ [row]\<rparr>
        in and_get (bind_pins d1 p resource vid (vi_dependencies data)
               \<lparr>bi_seen_targets = [], bi_profiles = 0, bi_links = []\<rparr>) (\<lambda>st.
           Inr (d1\<lparr>lb_links := lb_links d1 @ bi_links st\<rparr>, row)))"

subsection \<open>Events\<close>

abbreviation LIBRARY_VERSION_CREATED :: event_type where "LIBRARY_VERSION_CREATED \<equiv> ''library.version.created''"
abbreviation LIBRARY_VERSION_ACTIVATED :: event_type where "LIBRARY_VERSION_ACTIVATED \<equiv> ''library.version.activated''"
abbreviation LIBRARY_RESOURCE_DEPRECATED :: event_type where "LIBRARY_RESOURCE_DEPRECATED \<equiv> ''library.resource.deprecated''"
abbreviation LIBRARY_LOCK_SET :: event_type where "LIBRARY_LOCK_SET \<equiv> ''library.lock.set''"
abbreviation LIBRARY_LOCK_RELEASED :: event_type where "LIBRARY_LOCK_RELEASED \<equiv> ''library.lock.released''"

text \<open>The \<open>ref\<close> texts: a version, a lock, a released lock.\<close>

datatype library_ref = Ref_Version int | Ref_Lock uuid | Ref_Released uuid

fun library_ref_value :: "library_ref \<Rightarrow> jval" where
  "library_ref_value (Ref_Version v) = JList [JText ''v'', JInt v]"
| "library_ref_value (Ref_Lock i) = JList [JText ''lock'', JUuid i]"
| "library_ref_value (Ref_Released i) = JList [JText ''lock'', JUuid i, JText ''released'']"

definition library_event_id :: "library_row \<Rightarrow> event_type \<Rightarrow> library_ref \<Rightarrow> event_id" where
  "library_event_id r event_type ref =
     Uuid5 ''studio-os:library'' [JUuid (lr_id r), JText event_type, library_ref_value ref]"

definition emit_library_event ::
  "principal \<Rightarrow> timestamp \<Rightarrow> event_type \<Rightarrow> library_row \<Rightarrow> library_ref \<Rightarrow> (string \<times> jval) list
     \<Rightarrow> 's library_db_scheme \<Rightarrow> 's library_db_scheme" where
  "emit_library_event p now event_type r ref extra d =
     (case lr_project_id r of
        None \<Rightarrow> d
      | Some pid \<Rightarrow>
          d\<lparr>lb_db := fst (create_event (lb_db d)
            \<lparr>e_id = library_event_id r event_type ref, e_type = event_type, e_project_id = pid,
              e_task_id = None, e_machine_id = Some (m_id (p_machine p)), e_actor_type = Actor_user,
              e_actor_id = u_id (p_user p), e_client_timestamp = now,
              e_payload = [(''resource_id'', JUuid (lr_id r)),
                 (''kind'', JText (library_kind_value (lr_kind r))),
                 (''stable_key'', JText (lr_stable_key r)),
                 (''scope'', JText (library_scope_value (lr_scope r))),
                 (''ref'', library_ref_value ref)] @ extra\<rparr>)\<rparr>)"

subsection \<open>Creating\<close>

definition authorize_write :: "principal \<Rightarrow> library_row \<Rightarrow> unit fallible" where
  "authorize_write p r =
     and_then (ensure_resource_scope p r WriteAction) (ensure_can_write p ''library'')"

definition authorize_create :: "principal \<Rightarrow> library_scope \<Rightarrow> uuid option \<Rightarrow> unit fallible" where
  "authorize_create p scope project_id =
     and_then (ensure_scope_access p project_id (scope = Scope_USER) WriteAction)
       (if scope = Scope_STUDIO then ensure_can_provision p ''library'' else ensure_can_write p ''library'')"

definition ensure_owner_or_admin :: "principal \<Rightarrow> library_row \<Rightarrow> unit fallible" where
  "ensure_owner_or_admin p r =
     and_then (authorize_write p r)
       (raise_if (p_role p \<noteq> Role_ADMIN \<and> lr_owner_user_id r \<noteq> Some (u_id (p_user p)))
          (forbidden ''library'' ''write''))"

record resource_in =
  ri_kind :: library_kind
  ri_stable_key :: string
  ri_scope :: library_scope
  ri_project_id :: "uuid option"
  ri_first :: version_in

definition ensure_scope_context ::
  "'s library_db_scheme \<Rightarrow> principal \<Rightarrow> resource_in \<Rightarrow> unit fallible" where
  "ensure_scope_context d p data =
     (let invalid = coded 422 ''invalid_scope_context'' [] in
      case ri_scope data of
        Scope_STUDIO \<Rightarrow>
          and_then (ensure_can_provision p ''library'') (raise_if (ri_project_id data \<noteq> None) invalid)
      | Scope_PROJECT \<Rightarrow>
          and_then (ensure_can_write p ''library'')
            (case ri_project_id data of
               None \<Rightarrow> Inl invalid
             | Some pid \<Rightarrow> raise_if (pid \<notin> set (db_projects (lb_db d))) (coded 404 ''project_not_found'' []))
      | Scope_USER \<Rightarrow>
          and_then (ensure_can_write p ''library'') (raise_if (ri_project_id data \<noteq> None) invalid))"

text \<open>The three partial unique indexes of the table.\<close>

definition same_slot :: "library_row \<Rightarrow> library_row \<Rightarrow> bool" where
  "same_slot r r' \<longleftrightarrow> lr_kind r = lr_kind r' \<and> lr_stable_key r = lr_stable_key r' \<and> lr_scope r = lr_scope r'
     \<and> (case lr_scope r of
          Scope_STUDIO \<Rightarrow> True
        | Scope_PROJECT \<Rightarrow> lr_project_id r = lr_project_id r'
        | Scope_USER \<Rightarrow> lr_owner_user_id r = lr_owner_user_id r')"

definition new_resource :: "principal \<Rightarrow> uuid \<Rightarrow> resource_in \<Rightarrow> library_row" where
  "new_resource p rid data =
     \<lparr>lr_id = rid, lr_kind = ri_kind data, lr_stable_key = ri_stable_key data, lr_scope = ri_scope data,
      lr_status = Library_DRAFT, lr_active_version = 0, lr_owner_user_id = Some (u_id (p_user p)),
      lr_project_id = (if ri_scope data = Scope_PROJECT then ri_project_id data else None),
      lr_version = 1\<rparr>"

definition create_resource ::
  "library_schemas \<Rightarrow> 's library_db_scheme \<Rightarrow> principal \<Rightarrow> timestamp \<Rightarrow> uuid \<Rightarrow> uuid \<Rightarrow> resource_in
     \<Rightarrow> ('s library_db_scheme, library_row \<times> version_row) outcome" where
  "create_resource sc d p now rid vid data =
     guarded (and_then (authorize_create p (ri_scope data) (ri_project_id data))
        (ensure_scope_context d p data)) d
     (let r = new_resource p rid data;
          d1 = d\<lparr>lb_resources := lb_resources d @ [r]\<rparr>
      in guarded (raise_if (list_ex (same_slot r) (lb_resources d)) (coded 409 ''duplicate_stable_key'' [])) d
      (on_ok (create_version_row sc d1 p r vid 1 (ri_first data)) d (\<lambda>(d2, v).
        (emit_library_event p now LIBRARY_VERSION_CREATED r (Ref_Version 1) [(''version'', JInt 1)] d2,
         Inr (r, v)))))"

text \<open>A handler on one resource: read it, 404 when masked, authorize, act.\<close>

definition on_resource ::
  "'s library_db_scheme \<Rightarrow> principal \<Rightarrow> uuid \<Rightarrow> (library_row \<Rightarrow> ('s library_db_scheme, 'a) outcome)
     \<Rightarrow> ('s library_db_scheme, 'a) outcome" where
  "on_resource d p rid act =
     on_ok (and_get (get_resource d p rid) (found library_not_found)) d (\<lambda>r.
       guarded (authorize_write p r) d (act r))"

definition next_version_number :: "'s library_db_scheme \<Rightarrow> uuid \<Rightarrow> int" where
  "next_version_number d rid =
     (case filter (\<lambda>v. lv_resource_id v = rid) (lb_versions d) of
        [] \<Rightarrow> 1 | vs \<Rightarrow> Max (set (map lv_version vs)) + 1)"

definition create_resource_version ::
  "library_schemas \<Rightarrow> 's library_db_scheme \<Rightarrow> principal \<Rightarrow> timestamp \<Rightarrow> uuid \<Rightarrow> library_row \<Rightarrow> version_in
     \<Rightarrow> ('s library_db_scheme, version_row) outcome" where
  "create_resource_version sc d p now vid r data =
     guarded (ensure_owner_or_admin p r) d
     (let n = next_version_number d (lr_id r) in
      on_ok (create_version_row sc d p r vid n data) d (\<lambda>(d1, v).
        (let r' = r\<lparr>lr_version := lr_version r + 1\<rparr> in
         (emit_library_event p now LIBRARY_VERSION_CREATED r' (Ref_Version n) [(''version'', JInt n)]
            (put_resource r' d1), Inr v))))"

definition create_library_version ::
  "library_schemas \<Rightarrow> 's library_db_scheme \<Rightarrow> principal \<Rightarrow> timestamp \<Rightarrow> uuid \<Rightarrow> uuid \<Rightarrow> version_in
     \<Rightarrow> ('s library_db_scheme, version_detail_view) outcome" where
  "create_library_version sc d p now vid rid data =
     on_resource d p rid (\<lambda>r.
       (case create_resource_version sc d p now vid r data of
          (d', Inl e) \<Rightarrow> (d', Inl e)
        | (d', Inr v) \<Rightarrow> (d', Inr (version_detail d' v))))"

subsection \<open>The active pointer\<close>

definition version_conflict :: "int \<Rightarrow> http_error" where
  "version_conflict server_version = coded 409 ''version_conflict'' [(''server_version'', JInt server_version)]"

definition activate_resource_version ::
  "'s library_db_scheme \<Rightarrow> principal \<Rightarrow> timestamp \<Rightarrow> library_row \<Rightarrow> int \<Rightarrow> int
     \<Rightarrow> ('s library_db_scheme, library_row) outcome" where
  "activate_resource_version d p now r version expected =
     guarded (and_then (ensure_owner_or_admin p r)
        (and_then (raise_if (lr_version r \<noteq> expected) (version_conflict (lr_version r)))
          (raise_if (version_of d (lr_id r) version = None) (coded 404 ''version_not_found'' [])))) d
     (if lr_active_version r \<noteq> version \<or> lr_status r \<noteq> Library_ACTIVE then
        (let r' = r\<lparr>lr_active_version := version, lr_status := Library_ACTIVE, lr_version := lr_version r + 1\<rparr>
         in (emit_library_event p now LIBRARY_VERSION_ACTIVATED r' (Ref_Version version)
               [(''version'', JInt version)] (put_resource r' d), Inr r'))
      else (d, Inr r))"

definition deprecate_resource ::
  "'s library_db_scheme \<Rightarrow> principal \<Rightarrow> timestamp \<Rightarrow> library_row \<Rightarrow> int
     \<Rightarrow> ('s library_db_scheme, library_row) outcome" where
  "deprecate_resource d p now r expected =
     guarded (and_then (ensure_owner_or_admin p r)
        (raise_if (lr_version r \<noteq> expected) (version_conflict (lr_version r)))) d
     (if lr_status r \<noteq> Library_DEPRECATED then
        (let r' = r\<lparr>lr_status := Library_DEPRECATED, lr_version := lr_version r + 1\<rparr>
         in (emit_library_event p now LIBRARY_RESOURCE_DEPRECATED r' (Ref_Version (lr_active_version r'))
               [(''version'', JInt (lr_active_version r'))] (put_resource r' d), Inr r'))
      else (d, Inr r))"

definition activate_library_version ::
  "'s library_db_scheme \<Rightarrow> principal \<Rightarrow> timestamp \<Rightarrow> uuid \<Rightarrow> int \<Rightarrow> int
     \<Rightarrow> ('s library_db_scheme, library_row) outcome" where
  "activate_library_version d p now rid version expected =
     on_resource d p rid (\<lambda>r. activate_resource_version d p now r version expected)"

definition deprecate_library_resource ::
  "'s library_db_scheme \<Rightarrow> principal \<Rightarrow> timestamp \<Rightarrow> uuid \<Rightarrow> int
     \<Rightarrow> ('s library_db_scheme, library_row) outcome" where
  "deprecate_library_resource d p now rid expected =
     on_resource d p rid (\<lambda>r. deprecate_resource d p now r expected)"

subsection \<open>Dependency updates\<close>

record dependency_update =
  du_resource_id :: uuid
  du_scope :: library_scope
  du_pinned_version :: int
  du_active_version :: int
  du_deprecated :: bool
  du_update_available :: bool
  du_suggested_pin :: dependency_pin

record dependency_updates =
  dus_resource_id :: uuid
  dus_version :: int
  dus_items :: "dependency_update list"
  dus_offset :: nat
  dus_additional_available :: nat

definition update_of_link ::
  "'s library_db_scheme \<Rightarrow> principal \<Rightarrow> link_row \<Rightarrow> dependency_update fallible" where
  "update_of_link d p l =
     and_get (found (coded 404 ''pin_not_found'' []) (find_readable_resource d p (ll_to_resource_id l)))
       (\<lambda>target.
         (let deprecated = (lr_status target = Library_DEPRECATED);
              available = (\<not> deprecated \<and> ll_to_version l < lr_active_version target)
          in Inr \<lparr>du_resource_id = lr_id target, du_scope = lr_scope target,
               du_pinned_version = ll_to_version l, du_active_version = lr_active_version target,
               du_deprecated = deprecated, du_update_available = available,
               du_suggested_pin = \<lparr>dp_kind = lr_kind target, dp_stable_key = lr_stable_key target,
                 dp_version = (if available then lr_active_version target else ll_to_version l),
                 dp_relation = relation_of (ll_relation l), dp_resource_id = Some (lr_id target)\<rparr>\<rparr>))"

fun each_ok :: "('a \<Rightarrow> 'b fallible) \<Rightarrow> 'a list \<Rightarrow> 'b list fallible" where
  "each_ok f [] = Inr []"
| "each_ok f (x # xs) = and_get (f x) (\<lambda>y. and_get (each_ok f xs) (\<lambda>ys. Inr (y # ys)))"

definition preview_dependency_updates ::
  "'s library_db_scheme \<Rightarrow> principal \<Rightarrow> uuid \<Rightarrow> int \<Rightarrow> int \<Rightarrow> int \<Rightarrow> dependency_updates fallible" where
  "preview_dependency_updates d p rid version limit offset =
     and_then (raise_if (\<not> (1 \<le> limit \<and> limit \<le> 100) \<or> offset < 0) (coded 422 ''invalid_argument'' []))
     (and_get (get_resource d p rid) (\<lambda>r0.
      and_get (found (coded 404 ''resource_not_found'' []) r0) (\<lambda>r.
      and_get (found (coded 404 ''version_not_found'' []) (version_of d (lr_id r) version)) (\<lambda>source.
      (let all = sort_key ll_to_resource_id (links_from d (lv_id source)) in
       and_get (each_ok (update_of_link d p) (take (nat limit) (drop (nat offset) all))) (\<lambda>items.
       Inr \<lparr>dus_resource_id = lr_id r, dus_version = version, dus_items = items,
         dus_offset = nat offset,
         dus_additional_available = length all - nat offset - length items\<rparr>))))))"

subsection \<open>Project locks\<close>

definition list_locks ::
  "'s library_db_scheme \<Rightarrow> principal \<Rightarrow> uuid option \<Rightarrow> lock_row list fallible" where
  "list_locks d p project_id =
     and_then (case project_id of None \<Rightarrow> Inr () | Some pid \<Rightarrow> ensure_project_access p pid ReadAction)
       (Inr (filter (\<lambda>l.
          (case get_resource_row d (lk_resource_id l) of
             None \<Rightarrow> False
           | Some r \<Rightarrow> (case read_clause p of None \<Rightarrow> True | Some c \<Rightarrow> c r))
        \<and> (case project_id of
             Some pid \<Rightarrow> lk_project_id l = pid
           | None \<Rightarrow> (case p_scope p of ALL_PROJECTS \<Rightarrow> True | Projects ps \<Rightarrow> lk_project_id l \<in> ps)))
        (lb_locks d)))"

definition authorize_lock :: "principal \<Rightarrow> uuid \<Rightarrow> unit fallible" where
  "authorize_lock p project_id =
     and_then (ensure_project_access p project_id WriteAction) (ensure_can_write p ''library'')"

record lock_in =
  ki_project_id :: uuid
  ki_resource_id :: uuid
  ki_locked_version :: int

definition lock_payload :: "lock_row \<Rightarrow> (string \<times> jval) list" where
  "lock_payload k = [(''lock_id'', JUuid (lk_id k)), (''project_id'', JUuid (lk_project_id k)),
     (''locked_version'', JInt (lk_locked_version k))]"

definition set_lock ::
  "'s library_db_scheme \<Rightarrow> principal \<Rightarrow> timestamp \<Rightarrow> uuid \<Rightarrow> lock_in \<Rightarrow> ('s library_db_scheme, lock_row) outcome" where
  "set_lock d p now i data =
     guarded (and_then (authorize_lock p (ki_project_id data))
        (raise_if (ki_project_id data \<notin> set (db_projects (lb_db d))) (coded 404 ''project_not_found'' []))) d
     (on_ok (found (coded 404 ''lock_target_not_found'' [])
        (find_readable_resource d p (ki_resource_id data))) d (\<lambda>r.
      guarded (and_then
          (raise_if (version_of d (lr_id r) (ki_locked_version data) = None)
            (coded 404 ''pin_version_not_found'' []))
          (raise_if (list_ex (\<lambda>l. lk_project_id l = ki_project_id data
                \<and> lk_resource_id l = ki_resource_id data) (lb_locks d))
            (coded 409 ''already_locked'' []))) d
       (let k = \<lparr>lk_id = i, lk_project_id = ki_project_id data, lk_resource_id = ki_resource_id data,
              lk_locked_version = ki_locked_version data,
              lk_created_by_user_id = Some (u_id (p_user p))\<rparr>
        in (emit_library_event p now LIBRARY_LOCK_SET r (Ref_Lock i) (lock_payload k)
              (d\<lparr>lb_locks := lb_locks d @ [k]\<rparr>), Inr k))))"

definition release_lock ::
  "'s library_db_scheme \<Rightarrow> principal \<Rightarrow> timestamp \<Rightarrow> lock_row \<Rightarrow> ('s library_db_scheme, lock_row) outcome" where
  "release_lock d p now k =
     guarded (and_then (ensure_project_access p (lk_project_id k) WriteAction)
        (and_then (ensure_can_write p ''library'')
          (raise_if (p_role p \<noteq> Role_ADMIN \<and> lk_created_by_user_id k \<noteq> Some (u_id (p_user p)))
             (forbidden ''library'' ''release'')))) d
     (let d1 = d\<lparr>lb_locks := filter (\<lambda>l. lk_id l \<noteq> lk_id k) (lb_locks d)\<rparr> in
      (case get_resource_row d (lk_resource_id k) of
         None \<Rightarrow> d1
       | Some r \<Rightarrow> emit_library_event p now LIBRARY_LOCK_RELEASED r (Ref_Released (lk_id k))
           (lock_payload k) d1,
       Inr k))"

definition release_library_lock ::
  "'s library_db_scheme \<Rightarrow> principal \<Rightarrow> timestamp \<Rightarrow> uuid \<Rightarrow> ('s library_db_scheme, lock_row) outcome" where
  "release_library_lock d p now i =
     on_ok (found (HTTPException 404 (JText ''library lock not found'')) (tbl_get lk_id (lb_locks d) i)) d
       (release_lock d p now)"

subsection \<open>Scope resolution\<close>

fun scope_rank :: "library_scope \<Rightarrow> nat" where
  "scope_rank Scope_USER = 0"
| "scope_rank Scope_PROJECT = 1"
| "scope_rank Scope_STUDIO = 2"

record library_resolution =
  re_resource_id :: uuid
  re_kind :: library_kind
  re_stable_key :: string
  re_scope :: library_scope
  re_version :: int
  re_version_origin :: version_origin
  re_deprecated :: bool

definition definition_not_found :: http_error where
  "definition_not_found = coded 404 ''definition_not_found'' []"

definition visible_definitions ::
  "'s library_db_scheme \<Rightarrow> principal \<Rightarrow> library_kind \<Rightarrow> string \<Rightarrow> uuid option \<Rightarrow> library_row list" where
  "visible_definitions d p kind stable_key project_id =
     sort_key (\<lambda>r. scope_rank (lr_scope r))
       (filter (can_read p)
         (filter (\<lambda>r. lr_kind r = kind \<and> lr_stable_key r = stable_key
              \<and> (lr_scope r \<noteq> Scope_PROJECT \<or> (project_id \<noteq> None \<and> lr_project_id r = project_id)))
           (lb_resources d)))"

definition effective_version ::
  "'s library_db_scheme \<Rightarrow> library_row \<Rightarrow> uuid option \<Rightarrow> int \<times> version_origin" where
  "effective_version d r project_id =
     (case project_id of
        None \<Rightarrow> (lr_active_version r, Origin_ACTIVE)
      | Some pid \<Rightarrow>
          (case find (\<lambda>l. lk_project_id l = pid \<and> lk_resource_id l = lr_id r) (lb_locks d) of
             None \<Rightarrow> (lr_active_version r, Origin_ACTIVE)
           | Some l \<Rightarrow> (lk_locked_version l, Origin_LOCK)))"

definition link_resolvable :: "'s library_db_scheme \<Rightarrow> principal \<Rightarrow> link_row \<Rightarrow> bool" where
  "link_resolvable d p l \<longleftrightarrow>
     (case find_readable_resource d p (ll_to_resource_id l) of
        None \<Rightarrow> False | Some t \<Rightarrow> version_of d (lr_id t) (ll_to_version l) \<noteq> None)"

definition resolve_inner ::
  "'s library_db_scheme \<Rightarrow> principal \<Rightarrow> library_kind \<Rightarrow> string \<Rightarrow> uuid option \<Rightarrow> library_resolution option" where
  "resolve_inner d p kind stable_key project_id =
     (case visible_definitions d p kind stable_key project_id of
        [] \<Rightarrow> None
      | r # _ \<Rightarrow>
          (let (v, origin) = effective_version d r project_id in
           if v \<le> 0 then None
           else (case version_of d (lr_id r) v of
              None \<Rightarrow> None
            | Some target \<Rightarrow>
                if list_all (link_resolvable d p) (links_from d (lv_id target)) then
                  Some \<lparr>re_resource_id = lr_id r, re_kind = kind, re_stable_key = lr_stable_key r,
                    re_scope = lr_scope r, re_version = v, re_version_origin = origin,
                    re_deprecated = (lr_status r = Library_DEPRECATED)\<rparr>
                else None)))"

definition resolve_definition ::
  "'s library_db_scheme \<Rightarrow> principal \<Rightarrow> library_kind \<Rightarrow> string \<Rightarrow> uuid option \<Rightarrow> library_resolution fallible" where
  "resolve_definition d p kind stable_key project_id =
     and_then (case project_id of None \<Rightarrow> Inr () | Some pid \<Rightarrow> ensure_project_access p pid ReadAction)
       (found definition_not_found (resolve_inner d p kind stable_key project_id))"

end
