(* ===== verification/Library_Laws.thy ===== *)
theory Library_Laws
  imports Library "HOL-Library.Multiset"
begin

section \<open>Laws of the library\<close>

text \<open>
  What every history of requests keeps: versions are numbered without gaps and never change, a
  pointer or a lock names an existing version, a dependency names an existing version of a kind and
  scope the contract allows, and the graph of pins has no cycle but a version pinning itself. Then
  when the answer of the scope resolution is determined, and two places where it surprises.
\<close>

subsection \<open>What a pin obeys\<close>

definition version_key :: "version_row \<Rightarrow> uuid \<times> int" where
  "version_key v = (lv_resource_id v, lv_version v)"

text \<open>The columns of a resource that no operation changes.\<close>

definition same_identity :: "library_row \<Rightarrow> library_row \<Rightarrow> bool" where
  "same_identity r r' \<longleftrightarrow> lr_id r = lr_id r' \<and> lr_kind r = lr_kind r' \<and> lr_scope r = lr_scope r'
     \<and> lr_stable_key r = lr_stable_key r' \<and> lr_owner_user_id r = lr_owner_user_id r'
     \<and> lr_project_id r = lr_project_id r'"

definition pin_allowed :: "library_row \<Rightarrow> library_row \<Rightarrow> string \<Rightarrow> bool" where
  "pin_allowed s t relation \<longleftrightarrow>
     map_option relation_value (binding_relation_for (lr_kind s) (lr_kind t)) = Some relation
   \<and> binding_scope_allows (lr_scope s) (lr_owner_user_id s) (lr_scope t) (lr_owner_user_id t)"

definition link_ok :: "library_row list \<Rightarrow> version_row list \<Rightarrow> link_row \<Rightarrow> bool" where
  "link_ok rs vs l \<longleftrightarrow>
     (\<exists>i j s t. i < length vs \<and> j \<le> i \<and> lv_id (vs ! i) = ll_from_version_id l
        \<and> version_key (vs ! j) = (ll_to_resource_id l, ll_to_version l)
        \<and> s \<in> set rs \<and> lr_id s = lv_resource_id (vs ! i)
        \<and> t \<in> set rs \<and> lr_id t = ll_to_resource_id l \<and> pin_allowed s t (ll_relation l))"

definition row_ok :: "version_row list \<Rightarrow> library_row \<Rightarrow> bool" where
  "row_ok vs r \<longleftrightarrow>
     (lr_scope r = Scope_PROJECT \<longleftrightarrow> lr_project_id r \<noteq> None) \<and> lr_owner_user_id r \<noteq> None
   \<and> (\<exists>n \<ge> 1. {lv_version v |v. v \<in> set vs \<and> lv_resource_id v = lr_id r} = {1..n}
        \<and> 0 \<le> lr_active_version r \<and> lr_active_version r \<le> n)"

definition library_wf :: "'s library_db_scheme \<Rightarrow> bool" where
  "library_wf d \<longleftrightarrow>
     tbl_wf lr_id (lb_resources d)
   \<and> sorted_wrt (\<lambda>a b. \<not> same_slot b a) (lb_resources d)
   \<and> (\<forall>r \<in> set (lb_resources d). row_ok (lb_versions d) r)
   \<and> distinct (map lv_id (lb_versions d)) \<and> distinct (map version_key (lb_versions d))
   \<and> lv_resource_id ` set (lb_versions d) \<subseteq> lr_id ` set (lb_resources d)
   \<and> (\<forall>l \<in> set (lb_links d). link_ok (lb_resources d) (lb_versions d) l)
   \<and> distinct (map (\<lambda>l. (ll_from_version_id l, ll_to_resource_id l)) (lb_links d))
   \<and> (\<forall>k \<in> set (lb_locks d). (lk_resource_id k, lk_locked_version k) \<in> version_key ` set (lb_versions d))
   \<and> tbl_wf lk_id (lb_locks d)
   \<and> distinct (map (\<lambda>k. (lk_project_id k, lk_resource_id k)) (lb_locks d))"

subsection \<open>Reads\<close>

lemma version_of_Some: "version_of d rid v = Some x \<Longrightarrow> x \<in> set (lb_versions d) \<and> version_key x = (rid, v)"
  by (auto simp: version_of_def find_Some_iff version_key_def in_set_conv_nth)

lemma version_of_None: "version_of d rid v = None \<longleftrightarrow> (rid, v) \<notin> version_key ` set (lb_versions d)"
  by (auto simp: version_of_def find_None_iff version_key_def)

lemma get_resource_Some:
  "get_resource d p rid = Inr (Some r) \<Longrightarrow> r \<in> set (lb_resources d) \<and> lr_id r = rid \<and> can_read p r"
  by (auto simp: get_resource_def get_resource_row_def split: option.splits if_splits
      dest: tbl_get_mem tbl_get_key)

lemma find_readable_Some:
  "find_readable_resource d p rid = Some r \<Longrightarrow>
     get_resource_row d rid = Some r \<and> r \<in> set (lb_resources d) \<and> lr_id r = rid \<and> can_read p r"
  by (auto simp: find_readable_resource_def get_resource_row_def split: option.splits if_splits
      dest: tbl_get_mem tbl_get_key)

lemma resolve_pin_Inr:
  "resolve_pin d p pin = Inr t \<Longrightarrow> t \<in> set (lb_resources d) \<and> can_read p t
     \<and> lr_kind t = dp_kind pin \<and> lr_stable_key t = dp_stable_key pin"
proof -
  assume "resolve_pin d p pin = Inr t"
  then have "pin_candidates d p pin = [t]"
    by (auto simp: resolve_pin_def split: list.splits)
  then have "t \<in> set (pin_candidates d p pin)" by simp
  then show ?thesis by (auto simp: pin_candidates_def)
qed

lemma library_emit_frame [simp, frame_simps]:
  "lb_resources (emit_library_event p now ty r ref ex d) = lb_resources d"
  "lb_versions (emit_library_event p now ty r ref ex d) = lb_versions d"
  "lb_links (emit_library_event p now ty r ref ex d) = lb_links d"
  "lb_locks (emit_library_event p now ty r ref ex d) = lb_locks d"
  by (simp_all add: emit_library_event_def split: option.split)

lemma wf_cong:
  assumes "lb_resources d' = lb_resources d" "lb_versions d' = lb_versions d"
    "lb_links d' = lb_links d" "lb_locks d' = lb_locks d"
  shows "library_wf d' \<longleftrightarrow> library_wf d"
  using assms by (simp add: library_wf_def)

lemma wf_emit [simp]: "library_wf (emit_library_event p now ty r ref ex d) \<longleftrightarrow> library_wf d"
  by (rule wf_cong) simp_all

subsection \<open>The links of a new version\<close>

lemma bind_pin_Inr:
  assumes "bind_pin d p r vid pin st = Inr st'"
  obtains t where "t \<in> set (lb_resources d)" "lr_id t \<notin> set (bi_seen_targets st)"
    "(lr_id t, dp_version pin) \<in> version_key ` set (lb_versions d)"
    "bi_seen_targets st' = bi_seen_targets st @ [lr_id t]"
    "\<exists>l. bi_links st' = bi_links st @ [l] \<and> ll_from_version_id l = vid \<and> ll_to_resource_id l = lr_id t
       \<and> ll_to_version l = dp_version pin \<and> pin_allowed r t (ll_relation l)"
proof -
  from assms obtain t v e where t: "resolve_pin d p pin = Inr t"
    and v: "version_of d (lr_id t) (dp_version pin) = Some v"
    and e: "binding_relation_for (lr_kind r) (lr_kind t) = Some e"
    and rest: "lr_id t \<notin> set (bi_seen_targets st)"
      "binding_scope_allows (lr_scope r) (lr_owner_user_id r) (lr_scope t) (lr_owner_user_id t)"
    and st': "st' = \<lparr>bi_seen_targets = bi_seen_targets st @ [lr_id t],
        bi_profiles = (if e = REQUIRES_MODEL_PROFILE then bi_profiles st + 1 else bi_profiles st),
        bi_links = bi_links st @ [\<lparr>ll_from_version_id = vid, ll_to_resource_id = lr_id t,
            ll_to_version = dp_version pin, ll_relation = relation_value e\<rparr>]\<rparr>"
    by (auto simp: bind_pin_def Let_def and_get_eq_Inr)
  have "(lr_id t, dp_version pin) \<in> version_key ` set (lb_versions d)"
    using version_of_Some [OF v] by force
  then show ?thesis
    using resolve_pin_Inr [OF t] rest e
    by (intro that [of t]) (auto simp: st' pin_allowed_def)
qed

definition links_bound :: "'s library_db_scheme \<Rightarrow> library_row \<Rightarrow> uuid \<Rightarrow> link_row list \<Rightarrow> bool" where
  "links_bound d r vid ls \<longleftrightarrow> distinct (map ll_to_resource_id ls)
     \<and> (\<forall>l \<in> set ls. ll_from_version_id l = vid
        \<and> (\<exists>t \<in> set (lb_resources d). lr_id t = ll_to_resource_id l \<and> pin_allowed r t (ll_relation l))
        \<and> (ll_to_resource_id l, ll_to_version l) \<in> version_key ` set (lb_versions d))"

lemma bind_pins_bound:
  assumes "bind_pins d p r vid pins st = Inr st'" and "links_bound d r vid (bi_links st)"
    and "set (map ll_to_resource_id (bi_links st)) \<subseteq> set (bi_seen_targets st)"
  shows "links_bound d r vid (bi_links st')"
  using assms
proof (induction d p r vid pins st rule: bind_pins.induct)
  case (2 d p r vid pin pins st)
  from "2.prems"(1) obtain st1 where one: "bind_pin d p r vid pin st = Inr st1"
    and rest: "bind_pins d p r vid pins st1 = Inr st'"
    by (auto simp: and_get_eq_Inr)
  from one obtain t l where t: "t \<in> set (lb_resources d)" "lr_id t \<notin> set (bi_seen_targets st)"
    "(lr_id t, dp_version pin) \<in> version_key ` set (lb_versions d)"
    "bi_seen_targets st1 = bi_seen_targets st @ [lr_id t]"
    and l: "bi_links st1 = bi_links st @ [l]" "ll_from_version_id l = vid" "ll_to_resource_id l = lr_id t"
      "ll_to_version l = dp_version pin" "pin_allowed r t (ll_relation l)"
    by (rule bind_pin_Inr) blast
  have fresh: "lr_id t \<notin> set (map ll_to_resource_id (bi_links st))" using t(2) "2.prems"(3) by blast
  have "links_bound d r vid (bi_links st1)"
    using "2.prems"(2) fresh t(1,3) l by (auto simp: links_bound_def)
  moreover have "set (map ll_to_resource_id (bi_links st1)) \<subseteq> set (bi_seen_targets st1)"
    using "2.prems"(3) t(4) l(1,3) by auto
  ultimately show ?case using "2.IH" rest by blast
qed simp

lemma create_version_row_Inr:
  assumes "create_version_row sc d p r vid n data = Inr (d', v)"
  obtains ls where "d' = d\<lparr>lb_versions := lb_versions d @ [v], lb_links := lb_links d @ ls\<rparr>"
    "lv_id v = vid" "lv_resource_id v = lr_id r" "lv_version v = n"
    "links_bound (d\<lparr>lb_versions := lb_versions d @ [v]\<rparr>) r vid ls"
proof -
  let ?v = "\<lparr>lv_id = vid, lv_resource_id = lr_id r, lv_version = n, lv_title = vi_title data,
    lv_description = vi_description data, lv_content = vi_content data,
    lv_created_by_user_id = Some (u_id (p_user p))\<rparr>"
  let ?d = "d\<lparr>lb_versions := lb_versions d @ [?v]\<rparr>"
  from assms obtain st where st: "bind_pins ?d p r vid (vi_dependencies data)
      \<lparr>bi_seen_targets = [], bi_profiles = 0, bi_links = []\<rparr> = Inr st"
    and d': "d' = ?d\<lparr>lb_links := lb_links ?d @ bi_links st\<rparr>" and v: "v = ?v"
    by (auto simp: create_version_row_def Let_def and_get_eq_Inr)
  have "links_bound ?d r vid (bi_links st)"
    by (rule bind_pins_bound [OF st]) (simp_all add: links_bound_def)
  then show ?thesis using d' v by (intro that [of "bi_links st"]) simp_all
qed

subsection \<open>Changing a row in place\<close>

lemma tbl_put_as_map:
  "tbl_wf key rs \<Longrightarrow> key x \<in> key ` set rs \<Longrightarrow>
     tbl_put key x rs = map (\<lambda>r. if key r = key x then x else r) rs"
proof (induction rs)
  case (Cons r rs)
  show ?case
  proof (cases "key r = key x")
    case True
    then have "key x \<notin> key ` set rs" using Cons.prems(1) by (simp add: tbl_wf_def)
    then have "map (\<lambda>r. if key r = key x then x else r) rs = rs"
      by (intro map_idI) (metis imageI)
    with True show ?thesis by simp
  next
    case False
    with Cons show ?thesis by (auto simp: tbl_wf_def)
  qed
qed simp

lemma same_identity_refl [simp]: "same_identity r r"
  by (simp add: same_identity_def)

lemma same_slot_cong:
  "same_identity a a' \<Longrightarrow> same_identity b b' \<Longrightarrow> same_slot a' b' \<longleftrightarrow> same_slot a b"
  by (auto simp: same_slot_def same_identity_def split: library_scope.split)

lemma pin_allowed_cong:
  "same_identity s s' \<Longrightarrow> same_identity t t' \<Longrightarrow> pin_allowed s' t' x \<longleftrightarrow> pin_allowed s t x"
  by (simp add: pin_allowed_def same_identity_def)

lemma link_ok_map:
  assumes "link_ok rs vs l" and f: "\<And>r. r \<in> set rs \<Longrightarrow> same_identity r (f r)"
  shows "link_ok (map f rs) vs l"
proof -
  from assms(1) obtain i j s t where ij: "i < length vs" "j \<le> i" "lv_id (vs ! i) = ll_from_version_id l"
      "version_key (vs ! j) = (ll_to_resource_id l, ll_to_version l)"
    and s: "s \<in> set rs" "lr_id s = lv_resource_id (vs ! i)"
    and t: "t \<in> set rs" "lr_id t = ll_to_resource_id l" and "pin_allowed s t (ll_relation l)"
    by (auto simp: link_ok_def)
  then have "pin_allowed (f s) (f t) (ll_relation l)" "lr_id (f s) = lr_id s" "lr_id (f t) = lr_id t"
    using pin_allowed_cong [OF f [OF s(1)] f [OF t(1)]] f [OF s(1)] f [OF t(1)]
    by (auto simp: same_identity_def)
  then show ?thesis using ij s t unfolding link_ok_def by (intro exI [of _ i] exI [of _ j]) auto
qed

lemma row_ok_change:
  assumes "row_ok vs r" and same: "same_identity r r'"
    and active: "lr_active_version r' = lr_active_version r \<or> (lr_id r, lr_active_version r') \<in> version_key ` set vs"
  shows "row_ok vs r'"
proof -
  from assms(1) obtain n where n: "n \<ge> 1" "{lv_version v |v. v \<in> set vs \<and> lv_resource_id v = lr_id r} = {1..n}"
    "0 \<le> lr_active_version r" "lr_active_version r \<le> n"
    by (auto simp: row_ok_def)
  have "0 \<le> lr_active_version r' \<and> lr_active_version r' \<le> n"
    using active
  proof
    assume "(lr_id r, lr_active_version r') \<in> version_key ` set vs"
    then have "lr_active_version r' \<in> {1..n}" unfolding n(2) [symmetric] by (auto simp: version_key_def)
    then show ?thesis by simp
  qed (use n in simp)
  moreover have "lr_id r' = lr_id r" "(lr_scope r' = Scope_PROJECT \<longleftrightarrow> lr_project_id r' \<noteq> None)"
      "lr_owner_user_id r' \<noteq> None"
    using assms(1) same by (simp_all add: row_ok_def same_identity_def)
  ultimately show ?thesis using n(1,2) unfolding row_ok_def by metis
qed

lemma put_row_wf:
  assumes wf: "library_wf d" and r: "r \<in> set (lb_resources d)" and same: "same_identity r r'"
    and active: "lr_active_version r' = lr_active_version r
      \<or> (lr_id r, lr_active_version r') \<in> version_key ` set (lb_versions d)"
  shows "library_wf (put_resource r' d)"
proof -
  let ?f = "\<lambda>q. if lr_id q = lr_id r' then r' else q"
  have key: "lr_id r' = lr_id r" using same by (simp add: same_identity_def)
  have uniq: "q = r" if "q \<in> set (lb_resources d)" "lr_id q = lr_id r" for q
    using wf r that by (auto simp: library_wf_def tbl_wf_def distinct_map inj_on_def)
  have f: "same_identity q (?f q)" if "q \<in> set (lb_resources d)" for q
    using uniq [OF that] same key by auto
  have new: "lb_resources (put_resource r' d) = map ?f (lb_resources d)"
  proof -
    have "lr_id r' \<in> lr_id ` set (lb_resources d)" using r key by simp
    then show ?thesis
      using wf tbl_put_as_map [of lr_id "lb_resources d" r'] by (simp add: put_resource_def library_wf_def)
  qed
  have ids: "map lr_id (map ?f (lb_resources d)) = map lr_id (lb_resources d)"
    using f by (simp add: same_identity_def comp_def cong: map_cong)
  have "row_ok (lb_versions d) r'"
    using row_ok_change [of "lb_versions d" r r'] wf r active same by (simp add: library_wf_def)
  moreover have "sorted_wrt (\<lambda>a b. \<not> same_slot b a) (map ?f (lb_resources d))"
  proof -
    have "sorted_wrt (\<lambda>a b. \<not> same_slot b a) (lb_resources d)" using wf by (simp add: library_wf_def)
    then have "sorted_wrt (\<lambda>a b. \<not> same_slot (?f b) (?f a)) (lb_resources d)"
    proof (rule sorted_wrt_mono_rel [rotated])
      fix a b assume "a \<in> set (lb_resources d)" "b \<in> set (lb_resources d)" "\<not> same_slot b a"
      then show "\<not> same_slot (?f b) (?f a)" using same_slot_cong [OF f [of b] f [of a]] by blast
    qed
    then show ?thesis by (simp add: sorted_wrt_map)
  qed
  moreover have "\<forall>l \<in> set (lb_links d). link_ok (map ?f (lb_resources d)) (lb_versions d) l"
    using wf f link_ok_map [of "lb_resources d" "lb_versions d" _ ?f] by (auto simp: library_wf_def)
  moreover have "lr_id ` set (map ?f (lb_resources d)) = lr_id ` set (lb_resources d)"
    using ids by (metis set_map)
  moreover have "\<forall>q \<in> set (map ?f (lb_resources d)). row_ok (lb_versions d) q"
    using wf calculation(1) by (auto simp: library_wf_def)
  moreover have "tbl_wf lr_id (map ?f (lb_resources d))"
    using wf ids unfolding library_wf_def tbl_wf_def by metis
  moreover have "lb_versions (put_resource r' d) = lb_versions d" "lb_links (put_resource r' d) = lb_links d"
    "lb_locks (put_resource r' d) = lb_locks d" by (simp_all add: put_resource_def)
  ultimately show ?thesis
    using wf unfolding library_wf_def new by presburger
qed

subsection \<open>A new version\<close>

lemma link_ok_mono:
  assumes "link_ok rs vs l" and "set rs \<subseteq> set rs'"
  shows "link_ok rs' (vs @ ws) l"
proof -
  from assms(1) obtain i j s t where ij: "i < length vs" "j \<le> i" "lv_id (vs ! i) = ll_from_version_id l"
      "version_key (vs ! j) = (ll_to_resource_id l, ll_to_version l)"
    and st: "s \<in> set rs" "lr_id s = lv_resource_id (vs ! i)" "t \<in> set rs" "lr_id t = ll_to_resource_id l"
      "pin_allowed s t (ll_relation l)"
    by (auto simp: link_ok_def)
  then have "(vs @ ws) ! i = vs ! i" "(vs @ ws) ! j = vs ! j" by (simp_all add: nth_append)
  then show ?thesis
    using ij st assms(2) unfolding link_ok_def
    by (intro exI [of _ i] exI [of _ j] exI [of _ s] exI [of _ t]) auto
qed

lemma bound_link_ok:
  assumes "links_bound (d\<lparr>lb_versions := lb_versions d @ [v]\<rparr>) r (lv_id v) ls" and "l \<in> set ls"
    and "r \<in> set (lb_resources d)" and "lv_resource_id v = lr_id r"
  shows "link_ok (lb_resources d) (lb_versions d @ [v]) l"
proof -
  let ?vs = "lb_versions d @ [v]"
  from assms obtain t where t: "t \<in> set (lb_resources d)" "lr_id t = ll_to_resource_id l"
      "pin_allowed r t (ll_relation l)" "ll_from_version_id l = lv_id v"
      "(ll_to_resource_id l, ll_to_version l) \<in> version_key ` set ?vs"
    by (auto simp: links_bound_def)
  then obtain j where "j < length ?vs" "version_key (?vs ! j) = (ll_to_resource_id l, ll_to_version l)"
    by (metis (no_types, lifting) imageE in_set_conv_nth)
  then show ?thesis
    using t assms(3,4) unfolding link_ok_def
    by (intro exI [of _ "length (lb_versions d)"] exI [of _ j] exI [of _ r] exI [of _ t]) auto
qed

lemma new_version_wf:
  assumes wf: "library_wf (d\<lparr>lb_resources := rs\<rparr>)" and r: "r \<in> set rs'" "set rs \<subseteq> set rs'"
    and rows: "tbl_wf lr_id rs'" "sorted_wrt (\<lambda>a b. \<not> same_slot b a) rs'"
      "\<forall>q \<in> set rs'. row_ok (lb_versions d @ [v]) q"
    and v: "lv_resource_id v = lr_id r" "lv_id v \<notin> lv_id ` set (lb_versions d)"
      "version_key v \<notin> version_key ` set (lb_versions d)"
    and ls: "links_bound (d\<lparr>lb_resources := rs', lb_versions := lb_versions d @ [v]\<rparr>) r (lv_id v) ls"
  shows "library_wf (d\<lparr>lb_resources := rs', lb_versions := lb_versions d @ [v], lb_links := lb_links d @ ls\<rparr>)"
proof -
  have old: "link_ok rs' (lb_versions d @ [v]) l" if "l \<in> set (lb_links d)" for l
    using wf that r(2) by (intro link_ok_mono [of rs]) (auto simp: library_wf_def)
  have new: "link_ok rs' (lb_versions d @ [v]) l" if "l \<in> set ls" for l
    using bound_link_ok [of "d\<lparr>lb_resources := rs'\<rparr>" v r ls l] ls that r(1) v(1) by simp
  have from_old: "ll_from_version_id l \<in> lv_id ` set (lb_versions d)" if "l \<in> set (lb_links d)" for l
  proof -
    have "link_ok rs (lb_versions d) l" using wf that by (simp add: library_wf_def)
    then obtain i where "i < length (lb_versions d)" "lv_id (lb_versions d ! i) = ll_from_version_id l"
      by (auto simp: link_ok_def)
    then show ?thesis by (metis imageI nth_mem)
  qed
  have "distinct (map (\<lambda>l. (ll_from_version_id l, ll_to_resource_id l)) ls)"
    using ls by (auto simp: links_bound_def distinct_map inj_on_def)
  moreover have "(ll_from_version_id l, ll_to_resource_id l) \<noteq> (ll_from_version_id l', ll_to_resource_id l')"
    if "l \<in> set (lb_links d)" "l' \<in> set ls" for l l'
  proof -
    have "ll_from_version_id l' = lv_id v" using ls that(2) by (simp add: links_bound_def)
    then show ?thesis using from_old [OF that(1)] v(2) by auto
  qed
  moreover have "distinct (map (\<lambda>l. (ll_from_version_id l, ll_to_resource_id l)) (lb_links d))"
    using wf by (simp add: library_wf_def)
  ultimately have "distinct (map (\<lambda>l. (ll_from_version_id l, ll_to_resource_id l)) (lb_links d @ ls))"
    by auto
  moreover have "\<forall>l \<in> set (lb_links d @ ls). link_ok rs' (lb_versions d @ [v]) l"
    using old new by auto
  moreover have "lv_resource_id ` set (lb_versions d @ [v]) \<subseteq> lr_id ` set rs'"
  proof -
    have "lv_resource_id ` set (lb_versions d) \<subseteq> lr_id ` set rs" using wf by (simp add: library_wf_def)
    also have "\<dots> \<subseteq> lr_id ` set rs'" using r(2) by (rule image_mono)
    finally show ?thesis using r(1) v(1) by simp
  qed
  moreover have "\<forall>k \<in> set (lb_locks d). (lk_resource_id k, lk_locked_version k)
      \<in> version_key ` set (lb_versions d @ [v])"
    using wf by (auto simp: library_wf_def)
  ultimately show ?thesis
    using wf rows v(2,3) unfolding library_wf_def by simp
qed

lemma row_ok_more:
  assumes "row_ok vs r" and "lv_resource_id v = lr_id r \<Longrightarrow>
    lv_version v = Max {lv_version v |v. v \<in> set vs \<and> lv_resource_id v = lr_id r} + 1"
  shows "row_ok (vs @ [v]) r"
proof -
  let ?of = "\<lambda>vs. {lv_version v |v. v \<in> set vs \<and> lv_resource_id v = lr_id r}"
  from assms(1) obtain n where n: "n \<ge> 1" "?of vs = {1..n}" "0 \<le> lr_active_version r" "lr_active_version r \<le> n"
    by (auto simp: row_ok_def)
  have "?of (vs @ [v]) = (if lv_resource_id v = lr_id r then insert (lv_version v) (?of vs) else ?of vs)"
    by auto
  also have "\<dots> = {1..if lv_resource_id v = lr_id r then n + 1 else n}"
  proof -
    have "Max {1..n} = n" using n(1) by (intro Max_eqI) auto
    then have "lv_resource_id v = lr_id r \<Longrightarrow> lv_version v = n + 1" using assms(2) n(2) by simp
    then show ?thesis using n(1,2) by auto
  qed
  finally have "?of (vs @ [v]) = {1..if lv_resource_id v = lr_id r then n + 1 else n}" .
  then show ?thesis
    using assms(1) n unfolding row_ok_def
    by (intro conjI exI [of _ "if lv_resource_id v = lr_id r then n + 1 else n"]) auto
qed

lemma next_version_number_Max:
  assumes "row_ok (lb_versions d) r"
  shows "next_version_number d (lr_id r)
    = Max {lv_version v |v. v \<in> set (lb_versions d) \<and> lv_resource_id v = lr_id r} + 1"
proof -
  let ?vs = "filter (\<lambda>v. lv_resource_id v = lr_id r) (lb_versions d)"
  have set: "set (map lv_version ?vs) = {lv_version v |v. v \<in> set (lb_versions d) \<and> lv_resource_id v = lr_id r}"
    by auto
  have "?vs \<noteq> []"
  proof
    assume "?vs = []"
    then have "{lv_version v |v. v \<in> set (lb_versions d) \<and> lv_resource_id v = lr_id r} = {}"
      using set by simp
    with assms show False unfolding row_ok_def by force
  qed
  then have "next_version_number d (lr_id r) = Max (set (map lv_version ?vs)) + 1"
    by (cases ?vs) (simp_all add: next_version_number_def)
  then show ?thesis unfolding set .
qed

lemma next_number_fresh:
  assumes "row_ok (lb_versions d) r"
  shows "(lr_id r, next_version_number d (lr_id r)) \<notin> version_key ` set (lb_versions d)"
proof
  let ?of = "{lv_version v |v. v \<in> set (lb_versions d) \<and> lv_resource_id v = lr_id r}"
  assume "(lr_id r, next_version_number d (lr_id r)) \<in> version_key ` set (lb_versions d)"
  then have "next_version_number d (lr_id r) \<in> ?of" by (auto simp: version_key_def)
  moreover have "finite ?of" by simp
  ultimately have "next_version_number d (lr_id r) \<le> Max ?of" by (intro Max_ge)
  then show False using next_version_number_Max [OF assms] by simp
qed

subsection \<open>Every request\<close>

text \<open>Ids are drawn fresh; anyone may send anything.\<close>

inductive library_step :: "library_schemas \<Rightarrow> library_db \<Rightarrow> library_db \<Rightarrow> bool" for sc where
  step_create: "rid \<notin> lr_id ` set (lb_resources d) \<Longrightarrow> vid \<notin> lv_id ` set (lb_versions d) \<Longrightarrow>
     library_step sc d (fst (create_resource sc d p now rid vid data))"
| step_version: "vid \<notin> lv_id ` set (lb_versions d) \<Longrightarrow>
     library_step sc d (fst (create_library_version sc d p now vid rid vdata))"
| step_activate: "library_step sc d (fst (activate_library_version d p now rid n expected))"
| step_deprecate: "library_step sc d (fst (deprecate_library_resource d p now rid expected))"
| step_lock: "i \<notin> lk_id ` set (lb_locks d) \<Longrightarrow> library_step sc d (fst (set_lock d p now i kdata))"
| step_release: "library_step sc d (fst (release_library_lock d p now i))"

abbreviation library_steps :: "library_schemas \<Rightarrow> library_db \<Rightarrow> library_db \<Rightarrow> bool" where
  "library_steps sc \<equiv> (library_step sc)\<^sup>*\<^sup>*"

definition empty_library :: "db \<Rightarrow> library_db" where
  "empty_library d = \<lparr>lb_db = d, lb_resources = [], lb_versions = [], lb_links = [], lb_locks = []\<rparr>"

lemma empty_library_wf: "library_wf (empty_library d)"
  by (simp add: library_wf_def empty_library_def tbl_wf_def)

lemma on_resource_cases:
  assumes "on_resource d p rid act = (d', x)"
  obtains (refused) e where "d' = d" "x = Inl e"
  | (acted) r where "r \<in> set (lb_resources d)" "lr_id r = rid" "can_read p r" "authorize_write p r = Inr ()"
      "act r = (d', x)"
  using assms by (auto simp: on_resource_def on_ok_eq_pair and_get_eq_Inr guarded_eq_pair
      dest: get_resource_Some)

lemma create_resource_cases:
  assumes "create_resource sc d p now rid vid data = (d', x)"
  obtains (refused) e where "d' = d" "x = Inl e"
  | (created) v ls where "\<not> list_ex (same_slot (new_resource p rid data)) (lb_resources d)"
      "ri_scope data = Scope_PROJECT \<longrightarrow> ri_project_id data \<noteq> None"
      "x = Inr (new_resource p rid data, v)"
      "d' = emit_library_event p now LIBRARY_VERSION_CREATED (new_resource p rid data) (Ref_Version 1)
         [(''version'', JInt 1)] (d\<lparr>lb_resources := lb_resources d @ [new_resource p rid data],
            lb_versions := lb_versions d @ [v], lb_links := lb_links d @ ls\<rparr>)"
      "lv_id v = vid" "lv_resource_id v = rid" "lv_version v = 1"
      "links_bound (d\<lparr>lb_resources := lb_resources d @ [new_resource p rid data],
            lb_versions := lb_versions d @ [v]\<rparr>) (new_resource p rid data) vid ls"
proof -
  let ?r = "new_resource p rid data"
  let ?d = "d\<lparr>lb_resources := lb_resources d @ [?r]\<rparr>"
  consider (bad) e where "d' = d" "x = Inl e"
    | (good) v d2 where "\<not> list_ex (same_slot ?r) (lb_resources d)" "ensure_scope_context d p data = Inr ()"
      "create_version_row sc ?d p ?r vid 1 (ri_first data) = Inr (d2, v)" "x = Inr (?r, v)"
      "d' = emit_library_event p now LIBRARY_VERSION_CREATED ?r (Ref_Version 1) [(''version'', JInt 1)] d2"
    using assms unfolding create_resource_def
    by (auto simp: Let_def on_ok_eq_pair guarded_eq_pair)
  then show ?thesis
  proof cases
    case good
    have "ri_scope data = Scope_PROJECT \<longrightarrow> ri_project_id data \<noteq> None"
      using good(2) by (auto simp: ensure_scope_context_def Let_def split: option.splits)
    moreover obtain ls where "d2 = ?d\<lparr>lb_versions := lb_versions ?d @ [v], lb_links := lb_links ?d @ ls\<rparr>"
      "lv_id v = vid" "lv_resource_id v = lr_id ?r" "lv_version v = 1"
      "links_bound (?d\<lparr>lb_versions := lb_versions ?d @ [v]\<rparr>) ?r vid ls"
      using good(3) by (rule create_version_row_Inr)
    ultimately show ?thesis
      using good by (intro created [of v ls]) (simp_all add: new_resource_def)
  qed (rule refused)
qed

lemma new_version_cases:
  assumes "create_library_version sc d p now vid rid data = (d', x)"
  obtains (refused) e where "d' = d" "x = Inl e"
  | (created) r v ls where "r \<in> set (lb_resources d)" "lr_id r = rid"
      "d' = emit_library_event p now LIBRARY_VERSION_CREATED (r\<lparr>lr_version := lr_version r + 1\<rparr>)
         (Ref_Version (lv_version v)) [(''version'', JInt (lv_version v))]
         (put_resource (r\<lparr>lr_version := lr_version r + 1\<rparr>)
            (d\<lparr>lb_versions := lb_versions d @ [v], lb_links := lb_links d @ ls\<rparr>))"
      "lv_id v = vid" "lv_resource_id v = rid" "lv_version v = next_version_number d rid"
      "links_bound (d\<lparr>lb_versions := lb_versions d @ [v]\<rparr>) r vid ls"
  using assms unfolding create_library_version_def
proof (cases rule: on_resource_cases)
  case (acted r)
  let ?n = "next_version_number d (lr_id r)"
  consider (bad) e where "d' = d" "x = Inl e"
    | (good) v d1 where "create_version_row sc d p r vid ?n data = Inr (d1, v)"
      "d' = emit_library_event p now LIBRARY_VERSION_CREATED (r\<lparr>lr_version := lr_version r + 1\<rparr>)
         (Ref_Version ?n) [(''version'', JInt ?n)] (put_resource (r\<lparr>lr_version := lr_version r + 1\<rparr>) d1)"
  proof (cases "create_resource_version sc d p now vid r data")
    case (Pair d0 y)
    then have here: "d' = d0" "y = Inl e \<Longrightarrow> x = Inl e" for e
      using acted(5) by (auto split: sum.splits)
    from Pair consider e where "d0 = d" "y = Inl e"
      | v d1 where "create_version_row sc d p r vid ?n data = Inr (d1, v)"
        "d0 = emit_library_event p now LIBRARY_VERSION_CREATED (r\<lparr>lr_version := lr_version r + 1\<rparr>)
         (Ref_Version ?n) [(''version'', JInt ?n)] (put_resource (r\<lparr>lr_version := lr_version r + 1\<rparr>) d1)"
      unfolding create_resource_version_def by (auto simp: Let_def on_ok_eq_pair guarded_eq_pair)
    then show ?thesis using here by cases (auto intro: bad good)
  qed
  then show ?thesis
  proof cases
    case good
    obtain ls where "d1 = d\<lparr>lb_versions := lb_versions d @ [v], lb_links := lb_links d @ ls\<rparr>"
      "lv_id v = vid" "lv_resource_id v = lr_id r" "lv_version v = ?n"
      "links_bound (d\<lparr>lb_versions := lb_versions d @ [v]\<rparr>) r vid ls"
      using good(1) by (rule create_version_row_Inr)
    then show ?thesis using good(2) acted by (intro created [of r v ls]) simp_all
  qed (rule refused)
qed (rule refused)

lemma pointer_cases:
  assumes "activate_library_version d p now rid n expected = (d', x)
    \<or> deprecate_library_resource d p now rid expected = (d', x)"
  obtains (unchanged) "d' = d"
  | (changed) r r' ty ref ex where "r \<in> set (lb_resources d)" "lr_id r = rid" "same_identity r r'"
      "lr_active_version r' = lr_active_version r
        \<or> (lr_id r, lr_active_version r') \<in> version_key ` set (lb_versions d)"
      "d' = emit_library_event p now ty r' ref ex (put_resource r' d)"
  using assms
proof (elim disjE)
  assume "activate_library_version d p now rid n expected = (d', x)"
  then show ?thesis unfolding activate_library_version_def
  proof (cases rule: on_resource_cases)
    case (acted r)
    then consider "d' = d" | "version_of d (lr_id r) n \<noteq> None"
        "d' = emit_library_event p now LIBRARY_VERSION_ACTIVATED
          (r\<lparr>lr_active_version := n, lr_status := Library_ACTIVE, lr_version := lr_version r + 1\<rparr>)
          (Ref_Version n) [(''version'', JInt n)]
          (put_resource (r\<lparr>lr_active_version := n, lr_status := Library_ACTIVE, lr_version := lr_version r + 1\<rparr>) d)"
      by (auto simp: activate_resource_version_def Let_def guarded_eq_pair split: if_splits)
    then show ?thesis
    proof cases
      case 2
      then have "(lr_id r, n) \<in> version_key ` set (lb_versions d)"
        using version_of_None [of d "lr_id r" n] by simp
      then show ?thesis
        using acted 2(2)
        by (intro changed [of r _ LIBRARY_VERSION_ACTIVATED "Ref_Version n" "[(''version'', JInt n)]"])
          (simp_all add: same_identity_def)
    qed (rule unchanged)
  qed (rule unchanged)
next
  assume "deprecate_library_resource d p now rid expected = (d', x)"
  then show ?thesis unfolding deprecate_library_resource_def
  proof (cases rule: on_resource_cases)
    case (acted r)
    then consider "d' = d" | "d' = emit_library_event p now LIBRARY_RESOURCE_DEPRECATED
          (r\<lparr>lr_status := Library_DEPRECATED, lr_version := lr_version r + 1\<rparr>)
          (Ref_Version (lr_active_version r)) [(''version'', JInt (lr_active_version r))]
          (put_resource (r\<lparr>lr_status := Library_DEPRECATED, lr_version := lr_version r + 1\<rparr>) d)"
      by (auto simp: deprecate_resource_def Let_def guarded_eq_pair split: if_splits)
    then show ?thesis
    proof cases
      case 2
      then show ?thesis
        using acted by (intro changed [of r _ LIBRARY_RESOURCE_DEPRECATED "Ref_Version (lr_active_version r)"
            "[(''version'', JInt (lr_active_version r))]"]) (simp_all add: same_identity_def)
    qed (rule unchanged)
  qed (rule unchanged)
qed

subsection \<open>The invariant\<close>

lemma create_wf:
  assumes wf: "library_wf d" and fresh: "rid \<notin> lr_id ` set (lb_resources d)" "vid \<notin> lv_id ` set (lb_versions d)"
    and run: "create_resource sc d p now rid vid data = (d', x)"
  shows "library_wf d'"
  using run
proof (cases rule: create_resource_cases)
  case (created v ls)
  let ?r = "new_resource p rid data" and ?vs = "lb_versions d"
  have no_version: "rid \<notin> lv_resource_id ` set ?vs"
    using wf fresh(1) by (auto simp: library_wf_def)
  have "row_ok (?vs @ [v]) q" if "q \<in> set (lb_resources d)" for q
  proof (rule row_ok_more)
    show "row_ok ?vs q" using wf that by (simp add: library_wf_def)
    show "lv_version v = Max {lv_version v |v. v \<in> set ?vs \<and> lv_resource_id v = lr_id q} + 1"
      if "lv_resource_id v = lr_id q"
      using that created(6) fresh(1) \<open>q \<in> _\<close> by force
  qed
  moreover have "row_ok (?vs @ [v]) ?r"
  proof -
    have "{w \<in> set (?vs @ [v]). lv_resource_id w = lr_id ?r} = {v}"
      using no_version created(6) by (force simp: new_resource_def image_iff)
    then have "{lv_version w |w. w \<in> set (?vs @ [v]) \<and> lv_resource_id w = lr_id ?r} = {1..1}"
      using created(7) by (auto simp del: set_append)
    then show ?thesis using created(2)
      unfolding row_ok_def by (intro conjI exI [of _ 1]) (auto simp: new_resource_def)
  qed
  moreover have "tbl_wf lr_id (lb_resources d @ [?r])"
    using wf fresh(1) by (simp add: library_wf_def tbl_wf_def new_resource_def)
  moreover have "sorted_wrt (\<lambda>a b. \<not> same_slot b a) (lb_resources d @ [?r])"
    using wf created(1) by (simp add: library_wf_def sorted_wrt_append list_ex_iff)
  moreover have "version_key v \<notin> version_key ` set ?vs"
    using no_version created(6) by (auto simp: version_key_def)
  ultimately have "library_wf (d\<lparr>lb_resources := lb_resources d @ [?r],
      lb_versions := ?vs @ [v], lb_links := lb_links d @ ls\<rparr>)"
    using wf created(5,6,8) fresh(2)
    by (intro new_version_wf [where rs = "lb_resources d" and r = ?r]) (auto simp: new_resource_def)
  then show ?thesis unfolding created(4) by simp
qed (simp add: wf)

lemma version_wf:
  assumes wf: "library_wf d" and fresh: "vid \<notin> lv_id ` set (lb_versions d)"
    and run: "create_library_version sc d p now vid rid data = (d', x)"
  shows "library_wf d'"
  using run
proof (cases rule: new_version_cases)
  case (created r v ls)
  let ?d = "d\<lparr>lb_versions := lb_versions d @ [v], lb_links := lb_links d @ ls\<rparr>"
  have rows: "row_ok (lb_versions d) q" if "q \<in> set (lb_resources d)" for q
    using wf that by (simp add: library_wf_def)
  have "row_ok (lb_versions d @ [v]) q" if "q \<in> set (lb_resources d)" for q
    using rows [OF that] next_version_number_Max [OF rows [OF that]] created(2,5,6)
    by (intro row_ok_more) simp_all
  moreover have "version_key v \<notin> version_key ` set (lb_versions d)"
    using next_number_fresh [OF rows [OF created(1)]] created(2,5,6) by (simp add: version_key_def)
  ultimately have "library_wf (d\<lparr>lb_resources := lb_resources d, lb_versions := lb_versions d @ [v],
      lb_links := lb_links d @ ls\<rparr>)"
    using wf created(1,2,4,5,7) fresh
    by (intro new_version_wf [where rs = "lb_resources d" and r = r]) (auto simp: library_wf_def)
  then have "library_wf (put_resource (r\<lparr>lr_version := lr_version r + 1\<rparr>) ?d)"
    using created(1) by (intro put_row_wf [of ?d r]) (simp_all add: same_identity_def)
  then show ?thesis unfolding created(3) by simp
qed (simp add: wf)

lemma pointer_wf:
  assumes wf: "library_wf d" and "activate_library_version d p now rid n expected = (d', x)
    \<or> deprecate_library_resource d p now rid expected = (d', x)"
  shows "library_wf d'"
  using assms(2)
proof (cases rule: pointer_cases)
  case (changed r r' ty ref ex)
  have "library_wf (put_resource r' d)" using wf changed(1,3,4) by (rule put_row_wf)
  then show ?thesis unfolding changed(5) by simp
qed (simp add: wf)

lemma set_lock_cases:
  assumes "set_lock d p now i data = (d', x)"
  obtains (refused) e where "d' = d" "x = Inl e"
  | (locked) r k where "lk_id k = i" "x = Inr k" "lk_resource_id k = lr_id r"
      "lk_project_id k = ki_project_id data" "lr_id r = ki_resource_id data"
      "(lr_id r, lk_locked_version k) \<in> version_key ` set (lb_versions d)"
      "\<not> list_ex (\<lambda>l. lk_project_id l = ki_project_id data \<and> lk_resource_id l = ki_resource_id data) (lb_locks d)"
      "d' = emit_library_event p now LIBRARY_LOCK_SET r (Ref_Lock i) (lock_payload k)
         (d\<lparr>lb_locks := lb_locks d @ [k]\<rparr>)"
proof -
  let ?k = "\<lparr>lk_id = i, lk_project_id = ki_project_id data, lk_resource_id = ki_resource_id data,
              lk_locked_version = ki_locked_version data, lk_created_by_user_id = Some (u_id (p_user p))\<rparr>"
  consider (bad) e where "d' = d" "x = Inl e"
    | (good) r where "find_readable_resource d p (ki_resource_id data) = Some r"
      "version_of d (lr_id r) (ki_locked_version data) \<noteq> None" "x = Inr ?k"
      "\<not> list_ex (\<lambda>l. lk_project_id l = ki_project_id data \<and> lk_resource_id l = ki_resource_id data) (lb_locks d)"
      "d' = emit_library_event p now LIBRARY_LOCK_SET r (Ref_Lock i) (lock_payload ?k)
         (d\<lparr>lb_locks := lb_locks d @ [?k]\<rparr>)"
    using assms unfolding set_lock_def by (auto simp: Let_def on_ok_eq_pair guarded_eq_pair)
  then show ?thesis
  proof cases
    case (good r)
    have "lr_id r = ki_resource_id data" using find_readable_Some [OF good(1)] by blast
    moreover have "(lr_id r, ki_locked_version data) \<in> version_key ` set (lb_versions d)"
      using good(2) version_of_None [of d "lr_id r" "ki_locked_version data"] by simp
    ultimately show ?thesis using good by (intro locked [of ?k r]) simp_all
  qed (rule refused)
qed

lemma release_lock_cases:
  assumes "release_library_lock d p now i = (d', x)"
  obtains (refused) e where "d' = d" "x = Inl e"
  | (released) d1 where "d1 = d\<lparr>lb_locks := filter (\<lambda>l. lk_id l \<noteq> i) (lb_locks d)\<rparr>"
      "d' = d1 \<or> (\<exists>r ref ex. d' = emit_library_event p now LIBRARY_LOCK_RELEASED r ref ex d1)"
proof (cases "tbl_get lk_id (lb_locks d) i")
  case None
  then show ?thesis using assms refused by (auto simp: release_library_lock_def found_def)
next
  case (Some k)
  then have "release_lock d p now k = (d', x)"
    using assms by (simp add: release_library_lock_def found_def)
  then show ?thesis
    using tbl_get_key [OF Some] refused released unfolding release_lock_def
    by (auto simp: Let_def guarded_eq_pair split: option.splits)
qed

lemma lock_wf:
  assumes wf: "library_wf d" and "i \<notin> lk_id ` set (lb_locks d)" and "set_lock d p now i data = (d', x)"
  shows "library_wf d'"
  using assms(3)
proof (cases rule: set_lock_cases)
  case (locked r k)
  have "library_wf (d\<lparr>lb_locks := lb_locks d @ [k]\<rparr>)"
    using wf assms(2) locked(1,3-7) by (auto simp: library_wf_def tbl_wf_def list_ex_iff)
  then show ?thesis unfolding locked(8) by simp
qed (simp add: wf)

lemma release_wf:
  assumes wf: "library_wf d" and "release_library_lock d p now i = (d', x)"
  shows "library_wf d'"
  using assms(2)
proof (cases rule: release_lock_cases)
  case (released d1)
  have "library_wf d1"
    using wf unfolding released(1) library_wf_def tbl_wf_def by (auto simp: distinct_map_filter)
  then show ?thesis using released(2) by auto
qed (simp add: wf)

lemma library_step_wf:
  assumes "library_step sc d d'" and wf: "library_wf d"
  shows "library_wf d'"
  using assms(1)
proof (cases rule: library_step.cases)
  case (step_create rid vid p now data)
  then show ?thesis using create_wf [OF wf, of rid vid sc p now data] by (metis prod.collapse)
next
  case (step_version vid p now rid vdata)
  then show ?thesis using version_wf [OF wf, of vid sc p now rid vdata] by (metis prod.collapse)
next
  case (step_activate p now rid n expected)
  then show ?thesis using pointer_wf [OF wf, of p now rid n expected] by (metis prod.collapse)
next
  case (step_deprecate p now rid expected)
  then show ?thesis using pointer_wf [OF wf, of p now rid 0 expected] by (metis prod.collapse)
next
  case (step_lock i p now kdata)
  then show ?thesis using lock_wf [OF wf, of i p now kdata] by (metis prod.collapse)
next
  case (step_release p now i)
  then show ?thesis using release_wf [OF wf, of p now i] by (metis prod.collapse)
qed

lemma library_steps_wf: "library_steps sc d d' \<Longrightarrow> library_wf d \<Longrightarrow> library_wf d'"
  by (induction rule: rtranclp_induct) (auto intro: library_step_wf)

subsection \<open>The graph of pins\<close>

definition pin_edges :: "'s library_db_scheme \<Rightarrow> ((uuid \<times> int) \<times> (uuid \<times> int)) set" where
  "pin_edges d = {(version_key v, (ll_to_resource_id l, ll_to_version l)) |v l.
     v \<in> set (lb_versions d) \<and> l \<in> set (links_from d (lv_id v))}"

lemma pins_acyclic:
  assumes wf: "library_wf d"
  shows "acyclic (pin_edges d - Id)"
proof -
  let ?keys = "map version_key (lb_versions d)"
  have dist: "distinct ?keys" "distinct (map lv_id (lb_versions d))"
    using wf by (simp_all add: library_wf_def)
  have "acyclic ((pin_edges d - Id)\<inverse>)"
  proof (rule rank_acyclic)
    fix a b assume "(a, b) \<in> (pin_edges d - Id)\<inverse>"
    then obtain v l where e: "b = version_key v" "a = (ll_to_resource_id l, ll_to_version l)"
      "v \<in> set (lb_versions d)" "l \<in> set (lb_links d)" "ll_from_version_id l = lv_id v" "a \<noteq> b"
      by (auto simp: pin_edges_def links_from_def)
    have "link_ok (lb_resources d) (lb_versions d) l" using wf e(4) by (simp add: library_wf_def)
    then obtain i j where ij: "i < length (lb_versions d)" "j \<le> i"
      "lv_id (lb_versions d ! i) = lv_id v" "version_key (lb_versions d ! j) = a"
      using e(2,5) by (auto simp: link_ok_def)
    have v: "lb_versions d ! i = v"
      using dist(2) ij(1,3) e(3) by (auto simp: distinct_map inj_on_def)
    then have "j \<noteq> i" using ij(4) e(1,6) by auto
    moreover have "rank_in ?keys b = i" "rank_in ?keys a = j"
      using rank_in_nth [OF dist(1), of i] rank_in_nth [OF dist(1), of j] ij v e(1) by simp_all
    ultimately show "rank_in ?keys a < rank_in ?keys b" using ij(2) by simp
  qed
  then show ?thesis by simp
qed

definition library_sound :: "'s library_db_scheme \<Rightarrow> bool" where
  "library_sound d \<longleftrightarrow>
     (\<forall>r \<in> set (lb_resources d). \<exists>n \<ge> 1.
        {lv_version v |v. v \<in> set (lb_versions d) \<and> lv_resource_id v = lr_id r} = {1..n}
      \<and> 0 \<le> lr_active_version r \<and> lr_active_version r \<le> n)
   \<and> (\<forall>v \<in> set (lb_versions d). \<forall>l \<in> set (links_from d (lv_id v)).
        \<exists>s t. get_resource_row d (lv_resource_id v) = Some s
          \<and> get_resource_row d (ll_to_resource_id l) = Some t
          \<and> version_of d (ll_to_resource_id l) (ll_to_version l) \<noteq> None \<and> pin_allowed s t (ll_relation l))
   \<and> (\<forall>k \<in> set (lb_locks d). version_of d (lk_resource_id k) (lk_locked_version k) \<noteq> None)
   \<and> acyclic (pin_edges d - Id)"

lemma wf_row: "library_wf d \<Longrightarrow> r \<in> set (lb_resources d) \<Longrightarrow> get_resource_row d (lr_id r) = Some r"
  by (simp add: get_resource_row_def library_wf_def tbl_get_of_mem)

lemma wf_link:
  assumes wf: "library_wf d" and v: "v \<in> set (lb_versions d)" and l: "l \<in> set (links_from d (lv_id v))"
  shows "\<exists>s t. get_resource_row d (lv_resource_id v) = Some s
    \<and> get_resource_row d (ll_to_resource_id l) = Some t
    \<and> version_of d (ll_to_resource_id l) (ll_to_version l) \<noteq> None \<and> pin_allowed s t (ll_relation l)"
proof -
  have l': "l \<in> set (lb_links d)" "ll_from_version_id l = lv_id v" using l by (auto simp: links_from_def)
  then have "link_ok (lb_resources d) (lb_versions d) l" using wf by (simp add: library_wf_def)
  then obtain i j s t where ij: "i < length (lb_versions d)" "j \<le> i" "lv_id (lb_versions d ! i) = lv_id v"
    "version_key (lb_versions d ! j) = (ll_to_resource_id l, ll_to_version l)"
    and st: "s \<in> set (lb_resources d)" "lr_id s = lv_resource_id (lb_versions d ! i)"
      "t \<in> set (lb_resources d)" "lr_id t = ll_to_resource_id l" "pin_allowed s t (ll_relation l)"
    using l'(2) by (auto simp: link_ok_def)
  have "lb_versions d ! i = v"
    using wf ij(1,3) v by (auto simp: library_wf_def distinct_map inj_on_def)
  moreover have "(ll_to_resource_id l, ll_to_version l) \<in> version_key ` set (lb_versions d)"
    using ij(1,2,4) by (metis imageI nth_mem order_le_less_trans)
  ultimately show ?thesis
    using st wf_row [OF wf st(1)] wf_row [OF wf st(3)]
      version_of_None [of d "ll_to_resource_id l" "ll_to_version l"] by auto
qed

lemma wf_sound:
  assumes wf: "library_wf d"
  shows "library_sound d"
  unfolding library_sound_def
proof (intro conjI ballI)
  fix r assume "r \<in> set (lb_resources d)"
  then show "\<exists>n \<ge> 1. {lv_version v |v. v \<in> set (lb_versions d) \<and> lv_resource_id v = lr_id r} = {1..n}
      \<and> 0 \<le> lr_active_version r \<and> lr_active_version r \<le> n"
    using wf by (simp add: library_wf_def row_ok_def)
next
  fix k assume "k \<in> set (lb_locks d)"
  then have "(lk_resource_id k, lk_locked_version k) \<in> version_key ` set (lb_versions d)"
    using wf unfolding library_wf_def by blast
  then show "version_of d (lk_resource_id k) (lk_locked_version k) \<noteq> None"
    using version_of_None [of d "lk_resource_id k" "lk_locked_version k"] by simp
qed (use wf wf_link pins_acyclic in blast)+

text \<open>Whatever is requested: the versions of a definition are numbered from one without a gap, its
  pointer and every lock name existing versions, every dependency names an existing version allowed by
  the binding matrix and the scope rule, and no chain of pins leads back, but a version's pin of
  itself: Property C0.\<close>

theorem reachable_library_sound:
  assumes "library_steps sc (empty_library d0) d"
  shows "library_sound d"
  using library_steps_wf [OF assms empty_library_wf] by (rule wf_sound)

subsection \<open>What is published stays\<close>

lemma create_event_keeps: "find_event d i = Some e \<Longrightarrow> find_event (fst (create_event d ev)) i = Some e"
  by (auto simp: create_event_def insert_and_notify_def publish_event_def find_event_def tbl_get_append
      split: option.split)

lemma emit_keeps:
  "find_event (lb_db d) i = Some e \<Longrightarrow> find_event (lb_db (emit_library_event p now ty r ref ex d)) i = Some e"
  by (simp add: emit_library_event_def create_event_keeps split: option.split)

definition extends :: "library_db \<Rightarrow> library_db \<Rightarrow> bool" where
  "extends d d' \<longleftrightarrow>
     (\<exists>vs ls. lb_versions d' = lb_versions d @ vs \<and> lb_links d' = lb_links d @ ls
        \<and> (\<forall>l \<in> set ls. ll_from_version_id l \<notin> lv_id ` set (lb_versions d)))
   \<and> (\<forall>i e. find_event (lb_db d) i = Some e \<longrightarrow> find_event (lb_db d') i = Some e)"

lemma extendsI:
  assumes "lb_versions d' = lb_versions d @ vs" and "lb_links d' = lb_links d @ ls"
    and "\<And>l. l \<in> set ls \<Longrightarrow> ll_from_version_id l \<notin> lv_id ` set (lb_versions d)"
    and "\<And>i e. find_event (lb_db d) i = Some e \<Longrightarrow> find_event (lb_db d') i = Some e"
  shows "extends d d'"
  unfolding extends_def using assms by blast

lemma extends_refl [simp]: "extends d d"
  by (rule extendsI [of _ _ "[]" "[]"]) simp_all

lemma put_resource_frame [simp]:
  "lb_db (put_resource r d) = lb_db d" "lb_versions (put_resource r d) = lb_versions d"
  "lb_links (put_resource r d) = lb_links d" "lb_locks (put_resource r d) = lb_locks d"
  by (simp_all add: put_resource_def)

lemma extends_create:
  assumes "vid \<notin> lv_id ` set (lb_versions d)" and "create_resource sc d p now rid vid data = (d', x)"
  shows "extends d d'"
  using assms(2)
proof (cases rule: create_resource_cases)
  case (created v ls)
  then show ?thesis
    using assms(1) unfolding created(4)
    by (intro extendsI [of _ _ "[v]" ls]) (auto simp: links_bound_def intro: emit_keeps)
qed simp

lemma extends_version:
  assumes "vid \<notin> lv_id ` set (lb_versions d)" and "create_library_version sc d p now vid rid data = (d', x)"
  shows "extends d d'"
  using assms(2)
proof (cases rule: new_version_cases)
  case (created r v ls)
  then show ?thesis
    using assms(1) unfolding created(3)
    by (intro extendsI [of _ _ "[v]" ls]) (auto simp: links_bound_def intro: emit_keeps)
qed simp

lemma extends_emitted:
  assumes "lb_versions d1 = lb_versions d" "lb_links d1 = lb_links d" "lb_db d1 = lb_db d"
  shows "extends d d1" "extends d (emit_library_event p now ty r ref ex d1)"
  using assms by (auto intro!: extendsI [of _ _ "[]" "[]"] emit_keeps)

lemma library_step_extends:
  assumes "library_step sc d d'"
  shows "extends d d'"
  using assms
proof (cases rule: library_step.cases)
  case (step_create rid vid p now data)
  then show ?thesis using extends_create [of vid d sc p now rid data] by (metis prod.collapse)
next
  case (step_version vid p now rid vdata)
  then show ?thesis using extends_version [of vid d sc p now rid vdata] by (metis prod.collapse)
next
  case (step_activate p now rid n expected)
  have "activate_library_version d p now rid n expected = (d', snd (activate_library_version d p now rid n expected))
      \<or> deprecate_library_resource d p now rid expected = (d', snd (activate_library_version d p now rid n expected))"
    using step_activate by simp
  then show ?thesis by (cases rule: pointer_cases) (auto intro: extends_emitted)
next
  case (step_deprecate p now rid expected)
  have "activate_library_version d p now rid 0 expected = (d', snd (deprecate_library_resource d p now rid expected))
      \<or> deprecate_library_resource d p now rid expected = (d', snd (deprecate_library_resource d p now rid expected))"
    using step_deprecate by simp
  then show ?thesis by (cases rule: pointer_cases) (auto intro: extends_emitted)
next
  case (step_lock i p now kdata)
  have "set_lock d p now i kdata = (d', snd (set_lock d p now i kdata))" using step_lock by simp
  then show ?thesis by (cases rule: set_lock_cases) (auto intro!: extends_emitted)
next
  case (step_release p now i)
  have "release_library_lock d p now i = (d', snd (release_library_lock d p now i))" using step_release by simp
  then show ?thesis by (cases rule: release_lock_cases) (auto intro!: extends_emitted)
qed

lemma extends_versions: "extends d d' \<Longrightarrow> set (lb_versions d) \<subseteq> set (lb_versions d')"
  by (auto simp: extends_def)

lemma extends_trans: "extends d d1 \<Longrightarrow> extends d1 d2 \<Longrightarrow> extends d d2"
proof -
  assume a: "extends d d1" and b: "extends d1 d2"
  obtain vs ls where vs: "lb_versions d1 = lb_versions d @ vs" "lb_links d1 = lb_links d @ ls"
    "\<forall>l \<in> set ls. ll_from_version_id l \<notin> lv_id ` set (lb_versions d)" using a by (auto simp: extends_def)
  obtain ws ks where ws: "lb_versions d2 = lb_versions d1 @ ws" "lb_links d2 = lb_links d1 @ ks"
    "\<forall>l \<in> set ks. ll_from_version_id l \<notin> lv_id ` set (lb_versions d1)" using b by (auto simp: extends_def)
  show ?thesis
  proof (rule extendsI [of _ _ "vs @ ws" "ls @ ks"])
    show "find_event (lb_db d2) i = Some e" if "find_event (lb_db d) i = Some e" for i e
      using a b that by (simp add: extends_def)
    show "ll_from_version_id l \<notin> lv_id ` set (lb_versions d)" if "l \<in> set (ls @ ks)" for l
      using that vs ws by auto
  qed (simp_all add: vs ws)
qed

lemma library_steps_extends: "library_steps sc d d' \<Longrightarrow> extends d d'"
  by (induction rule: rtranclp_induct) (auto intro: library_step_extends extends_trans)

lemma find_append: "find P xs = Some x \<Longrightarrow> find P (xs @ ys) = Some x"
  by (induction xs) (auto split: if_splits)

text \<open>A published version is immutable: no later request of anyone changes or removes it, nor its
  pins: Property C0.\<close>

theorem versions_immutable:
  assumes "library_steps sc d d'" and "version_of d rid n = Some v"
  shows "version_of d' rid n = Some v \<and> links_from d' (lv_id v) = links_from d (lv_id v)"
proof -
  obtain vs ls where e: "lb_versions d' = lb_versions d @ vs" "lb_links d' = lb_links d @ ls"
    "\<forall>l \<in> set ls. ll_from_version_id l \<notin> lv_id ` set (lb_versions d)"
    using library_steps_extends [OF assms(1)] by (auto simp: extends_def)
  have "v \<in> set (lb_versions d)" using version_of_Some [OF assms(2)] by blast
  then have "filter (\<lambda>l. ll_from_version_id l = lv_id v) ls = []"
    using e(3) by (auto simp: filter_empty_conv)
  then show ?thesis
    using assms(2) e(1,2) by (simp add: version_of_def links_from_def find_append)
qed

subsection \<open>Events\<close>

lemma activated_logged:
  assumes "activate_library_version d p now rid n expected = (d', Inr r')"
    and "lb_resources d' \<noteq> lb_resources d" and "lr_project_id r' = Some pid"
  shows "find_event (lb_db d') (library_event_id r' LIBRARY_VERSION_ACTIVATED (Ref_Version n)) \<noteq> None"
  using assms(1) unfolding activate_library_version_def
proof (cases rule: on_resource_cases)
  case (acted r)
  then have "r' = r\<lparr>lr_active_version := n, lr_status := Library_ACTIVE, lr_version := lr_version r + 1\<rparr>"
    "d' = emit_library_event p now LIBRARY_VERSION_ACTIVATED r' (Ref_Version n) [(''version'', JInt n)]
       (put_resource r' d)"
    using assms(2) by (auto simp: activate_resource_version_def Let_def guarded_eq_pair split: if_splits)
  then show ?thesis
    using assms(3) by (auto simp: emit_library_event_def create_event_def find_event_def
        insert_and_notify_def publish_event_def tbl_get_append split: option.splits)
qed simp

text \<open>The event of an activation is keyed by the definition and the version. Going back to a version
  that was activated before changes the active pointer and tells nobody: the event is taken for the
  earlier one: Property C0.\<close>

theorem reactivation_is_silent:
  assumes "activate_library_version d p now rid n expected = (d1, Inr r1)"
    and "lb_resources d1 \<noteq> lb_resources d" and "lr_project_id r1 = Some pid" and "lr_id r1 = rid"
    and "library_steps sc d1 d2"
    and "activate_library_version d2 p2 now2 rid n expected2 = (d3, Inr r2)"
  shows "lb_db d3 = lb_db d2 \<and> lr_active_version r2 = n"
proof -
  let ?i = "library_event_id r1 LIBRARY_VERSION_ACTIVATED (Ref_Version n)"
  obtain e where "find_event (lb_db d1) ?i = Some e"
    using activated_logged [OF assms(1-3)] by auto
  then have logged: "find_event (lb_db d2) ?i = Some e"
    using library_steps_extends [OF assms(5)] by (simp add: extends_def)
  from assms(6) show ?thesis unfolding activate_library_version_def
  proof (cases rule: on_resource_cases)
    case (acted r)
    let ?r = "r\<lparr>lr_active_version := n, lr_status := Library_ACTIVE, lr_version := lr_version r + 1\<rparr>"
    have "library_event_id ?r LIBRARY_VERSION_ACTIVATED (Ref_Version n) = ?i"
      using acted(2) assms(4) by (simp add: library_event_id_def)
    then show ?thesis
      using acted(5) logged
      by (auto simp: activate_resource_version_def Let_def guarded_eq_pair emit_library_event_def
          create_event_def split: if_splits option.splits)
  qed simp
qed

subsection \<open>The order of the rows\<close>

lemma tbl_get_perm:
  assumes "tbl_wf key rs" and "mset rs' = mset rs"
  shows "tbl_get key rs' = tbl_get key rs"
proof
  fix k
  have wf': "tbl_wf key rs'" using assms unfolding tbl_wf_def by (metis mset_map mset_eq_imp_distinct_iff)
  have sets: "set rs' = set rs" using assms(2) by (rule mset_eq_setD)
  show "tbl_get key rs' k = tbl_get key rs k"
  proof (cases "tbl_get key rs k")
    case None
    then have "k \<notin> key ` set rs'" using sets by (simp add: tbl_get_None_iff)
    then have "tbl_get key rs' k = None" by (simp add: tbl_get_None_iff)
    then show ?thesis using None by simp
  next
    case (Some r)
    then have "r \<in> set rs'" "key r = k" using sets tbl_get_mem tbl_get_key by fastforce+
    then show ?thesis using tbl_get_of_mem [OF wf'] Some by metis
  qed
qed

lemma resolvable_perm:
  assumes "library_wf d" and "mset rows = mset (lb_resources d)"
  shows "link_resolvable (d\<lparr>lb_resources := rows\<rparr>) p = link_resolvable d p"
  using tbl_get_perm [of lr_id "lb_resources d" rows] assms
  by (auto simp: fun_eq_iff link_resolvable_def find_readable_resource_def get_resource_row_def
      version_of_def library_wf_def split: option.split)

lemma reads_perm [simp]:
  "effective_version (d\<lparr>lb_resources := rows\<rparr>) r pid = effective_version d r pid"
  "version_of (d\<lparr>lb_resources := rows\<rparr>) i n = version_of d i n"
  "links_from (d\<lparr>lb_resources := rows\<rparr>) j = links_from d j"
  by (simp_all add: effective_version_def version_of_def links_from_def split: option.split)

lemma same_slot_sym: "same_slot a b \<Longrightarrow> same_slot b a"
  by (auto simp: same_slot_def split: library_scope.splits)

lemma slot_unique:
  assumes "library_wf d" and "a \<in> set (lb_resources d)" "b \<in> set (lb_resources d)" and "same_slot a b"
  shows "a = b"
proof (rule ccontr)
  assume ne: "a \<noteq> b"
  from assms(2,3) obtain i j where ij: "i < length (lb_resources d)" "lb_resources d ! i = a"
    "j < length (lb_resources d)" "lb_resources d ! j = b" by (auto simp: in_set_conv_nth)
  have "i \<noteq> j" using ij ne by auto
  moreover have "sorted_wrt (\<lambda>a b. \<not> same_slot b a) (lb_resources d)" using assms(1) by (simp add: library_wf_def)
  ultimately have "\<not> same_slot (lb_resources d ! (max i j)) (lb_resources d ! (min i j))"
    using ij by (auto simp: sorted_wrt_iff_nth_less min_def max_def)
  then show False using assms(4) same_slot_sym [OF assms(4)] ij by (auto simp: min_def max_def split: if_splits)
qed

lemma visible_unique:
  assumes "library_wf d" and "p_role p \<noteq> Role_ADMIN"
    and "a \<in> set (visible_definitions d p kind key pid)" "b \<in> set (visible_definitions d p kind key pid)"
    and "scope_rank (lr_scope a) = scope_rank (lr_scope b)"
  shows "a = b"
proof (rule slot_unique [OF assms(1)])
  have "lr_scope a = lr_scope b" using assms(5) by (cases "lr_scope a"; cases "lr_scope b") auto
  then show "same_slot a b"
    using assms(2-4) by (auto simp: visible_definitions_def same_slot_def can_read_def split: library_scope.split)
qed (use assms(3,4) in \<open>auto simp: visible_definitions_def\<close>)

lemma visible_perm:
  assumes "library_wf d" and "p_role p \<noteq> Role_ADMIN" and "mset rows = mset (lb_resources d)"
  shows "visible_definitions (d\<lparr>lb_resources := rows\<rparr>) p kind key pid = visible_definitions d p kind key pid"
proof -
  let ?P = "\<lambda>r. lr_kind r = kind \<and> lr_stable_key r = key
      \<and> (lr_scope r \<noteq> Scope_PROJECT \<or> (pid \<noteq> None \<and> lr_project_id r = pid))"
  let ?keep = "\<lambda>rs. filter (can_read p) (filter ?P rs)"
  have "mset (?keep rows) = mset (?keep (lb_resources d))" using assms(3) by simp
  moreover have "inj_on (\<lambda>r. scope_rank (lr_scope r)) (set (?keep rows))"
  proof (rule inj_onI)
    fix a b assume "a \<in> set (?keep rows)" "b \<in> set (?keep rows)" "scope_rank (lr_scope a) = scope_rank (lr_scope b)"
    then show "a = b"
      using visible_unique [OF assms(1,2), of a kind key pid b] mset_eq_setD [OF assms(3)]
      by (auto simp: visible_definitions_def)
  qed
  ultimately show ?thesis
    unfolding visible_definitions_def by (auto intro: sort_key_inj_key_eq)
qed

text \<open>For anyone but an admin the answer of the scope resolution is a function of what is stored: it
  does not depend on the order the database returns the rows in: Property C0.\<close>

theorem resolution_determined:
  assumes "library_steps sc (empty_library d0) d" and "p_role p \<noteq> Role_ADMIN"
    and "mset rows = mset (lb_resources d)"
  shows "resolve_definition (d\<lparr>lb_resources := rows\<rparr>) p kind key pid = resolve_definition d p kind key pid"
proof -
  have wf: "library_wf d" using library_steps_wf [OF assms(1) empty_library_wf] .
  show ?thesis
    unfolding resolve_definition_def resolve_inner_def visible_perm [OF wf assms(2,3)]
      resolvable_perm [OF wf assms(3)] reads_perm ..
qed

lemma sort_key_least_first:
  fixes f :: "'a \<Rightarrow> nat"
  shows "f x = 0 \<Longrightarrow> sort_key f (x # xs) = x # sort_key f xs"
  by (cases "sort_key f xs") simp_all

text \<open>An admin sees everyone's private definitions, and they shadow the shared ones: the private
  definition of any user is the answer for some order of the rows, although resolution is specified as
  independent of it: Property C0.\<close>

theorem admin_resolution_depends_on_order:
  assumes "library_steps sc (empty_library d0) d" and "p_role p = Role_ADMIN"
    and "r \<in> set (lb_resources d)" and "lr_scope r = Scope_USER"
    and "0 < lr_active_version r" and "version_of d (lr_id r) (lr_active_version r) = Some v"
    and "list_all (link_resolvable d p) (links_from d (lv_id v))"
  shows "\<exists>rows x. mset rows = mset (lb_resources d)
    \<and> resolve_definition (d\<lparr>lb_resources := rows\<rparr>) p (lr_kind r) (lr_stable_key r) None = Inr x
    \<and> re_resource_id x = lr_id r"
proof -
  let ?rows = "r # remove1 r (lb_resources d)"
  have wf: "library_wf d" using library_steps_wf [OF assms(1) empty_library_wf] .
  have perm: "mset ?rows = mset (lb_resources d)" using assms(3) by simp
  have "can_read p r" using assms(2,4) by (simp add: can_read_def)
  then obtain rest where "visible_definitions (d\<lparr>lb_resources := ?rows\<rparr>) p (lr_kind r) (lr_stable_key r) None = r # rest"
    using assms(4) by (simp add: visible_definitions_def sort_key_least_first del: sort_key_simps)
  then have "\<exists>x. resolve_inner (d\<lparr>lb_resources := ?rows\<rparr>) p (lr_kind r) (lr_stable_key r) None = Some x
      \<and> re_resource_id x = lr_id r"
    using assms(5-7) by (simp add: resolve_inner_def resolvable_perm [OF wf perm] effective_version_def)
  then obtain x where "resolve_definition (d\<lparr>lb_resources := ?rows\<rparr>) p (lr_kind r) (lr_stable_key r) None = Inr x"
      "re_resource_id x = lr_id r"
    by (auto simp: resolve_definition_def)
  with perm show ?thesis by blast
qed

end
