(* ===== verification/Runtime_Bindings.thy ===== *)
theory Runtime_Bindings
  imports Library
begin

section \<open>Runtime registry and runtime choices
  (\<open>services/runtime_registry.py\<close>, \<open>services/runtime_bindings.py\<close>)\<close>

text \<open>
  A runtime is a declared, privately owned execution target; a binding stores the choice of one for
  a logical library key at one of four levels. Choosing a runtime loads every candidate, keeps those
  that are alive and picks by a total order. A machine whose credential is revoked is one of
  \<open>rd_revoked_machines\<close>. Each level's unique index lets a stored choice be read with \<open>find\<close>.
\<close>

subsection \<open>Contract\<close>

datatype runtime_level = Level_SESSION | Level_PROJECT_OVERRIDE | Level_USER | Level_PROJECT_DEFAULT
  | Level_STUDIO_DEFAULT

fun runtime_level_value :: "runtime_level \<Rightarrow> string" where
  "runtime_level_value Level_SESSION = ''session''"
| "runtime_level_value Level_PROJECT_OVERRIDE = ''project_override''"
| "runtime_level_value Level_USER = ''user''"
| "runtime_level_value Level_PROJECT_DEFAULT = ''project_default''"
| "runtime_level_value Level_STUDIO_DEFAULT = ''studio_default''"

record runtime_target =
  rt_runtime_id :: "uuid option"
  rt_machine_id :: "uuid option"
  rt_harness_ref :: "string option"
  rt_provider_ref :: "string option"
  rt_model_ref :: "string option"
  rt_capabilities :: runtime_capabilities

definition require_anchor :: "runtime_target \<Rightarrow> bool" where
  "require_anchor t \<longleftrightarrow> \<not> (rt_runtime_id t = None \<and> rt_machine_id t = None \<and> rt_harness_ref t = None
     \<and> rt_provider_ref t = None \<and> rt_model_ref t = None)"

definition forbidden_metadata :: "string list" where
  "forbidden_metadata = [''secret'', ''token'', ''password'', ''passwd'', ''private_key'',
     ''privatekey'', ''api_key'', ''apikey'', ''credential'', ''bearer'', ''authorization'', ''jwt'']"

fun occurs_in :: "string \<Rightarrow> string \<Rightarrow> bool" where
  "occurs_in part [] = (part = [])"
| "occurs_in part (c # cs) = (take (length part) (c # cs) = part \<or> occurs_in part cs)"

definition secret_metadata_key :: "string \<Rightarrow> bool" where
  "secret_metadata_key k \<longleftrightarrow>
     (let lowered = map (\<lambda>c. if c = CHR ''-'' then CHR ''_'' else c) (ascii_lower k)
      in lowered \<in> {''secret'', ''token'', ''password'', ''credentials'', ''authorization''}
         \<or> list_ex (\<lambda>part. occurs_in part lowered) forbidden_metadata)"

definition reject_secret_metadata :: "content \<Rightarrow> bool" where
  "reject_secret_metadata metadata \<longleftrightarrow> list_ex (\<lambda>e. secret_metadata_key (fst e)) metadata"

definition open_ref_ok :: "string option \<Rightarrow> bool" where
  "open_ref_ok v \<longleftrightarrow> (case v of None \<Rightarrow> True | Some s \<Rightarrow> py_strip s \<noteq> [] \<and> length s \<le> 200)"

record registration =
  rg_machine_id :: "uuid option"
  rg_harness_ref :: "string option"
  rg_provider_ref :: "string option"
  rg_model_ref :: "string option"
  rg_capabilities :: "runtime_capabilities option"
  rg_metadata :: "content option"

definition refs_ok :: "registration \<Rightarrow> bool" where
  "refs_ok g \<longleftrightarrow> open_ref_ok (rg_harness_ref g) \<and> open_ref_ok (rg_provider_ref g) \<and> open_ref_ok (rg_model_ref g)
     \<and> (case rg_metadata g of None \<Rightarrow> True | Some md \<Rightarrow> \<not> reject_secret_metadata md)"

text \<open>\<open>RuntimeRegistrationCreate\<close>: the flag is whether \<open>capability_source\<close> is \<open>declared\<close>.\<close>

definition validate_registry_create :: "bool \<Rightarrow> registration \<Rightarrow> bool" where
  "validate_registry_create declared g \<longleftrightarrow>
     \<not> (rg_machine_id g = None \<and> rg_harness_ref g = None \<and> rg_provider_ref g = None \<and> rg_model_ref g = None)
     \<and> declared \<and> refs_ok g"

definition validate_registry_update :: "registration \<Rightarrow> bool" where
  "validate_registry_update g \<longleftrightarrow> refs_ok g"

subsection \<open>Rows\<close>

record runtime_row =
  rn_id :: uuid
  rn_owner_user_id :: uuid
  rn_machine_id :: "uuid option"
  rn_harness_ref :: "string option"
  rn_provider_ref :: "string option"
  rn_model_ref :: "string option"
  rn_capabilities :: runtime_capabilities
  rn_metadata :: content
  rn_active :: bool
  rn_version :: int

record binding_row =
  rb_id :: uuid
  rb_level :: runtime_level
  rb_owner_user_id :: uuid
  rb_project_id :: "uuid option"
  rb_target_kind :: library_kind
  rb_target_stable_key :: string
  rb_target :: runtime_target

record runtime_db = library_db +
  rd_runtimes :: "runtime_row list"
  rd_bindings :: "binding_row list"
  rd_revoked_machines :: "uuid list"

definition put_runtime :: "runtime_row \<Rightarrow> runtime_db \<Rightarrow> runtime_db" where
  "put_runtime n d = d\<lparr>rd_runtimes := tbl_put rn_id n (rd_runtimes d)\<rparr>"

definition get_runtime_row :: "runtime_db \<Rightarrow> uuid \<Rightarrow> runtime_row option" where
  "get_runtime_row d = tbl_get rn_id (rd_runtimes d)"

definition get_machine :: "runtime_db \<Rightarrow> uuid \<Rightarrow> machine_row option" where
  "get_machine d = tbl_get m_id (db_machines (lb_db d))"

definition machine_live :: "runtime_db \<Rightarrow> uuid \<Rightarrow> bool" where
  "machine_live d i \<longleftrightarrow> get_machine d i \<noteq> None \<and> i \<notin> set (rd_revoked_machines d)"

subsection \<open>The registry\<close>

definition checked_machine :: "runtime_db \<Rightarrow> principal \<Rightarrow> uuid option \<Rightarrow> unit fallible" where
  "checked_machine d p machine_id =
     (case machine_id of
        None \<Rightarrow> Inr ()
      | Some i \<Rightarrow>
          (case get_machine d i of
             None \<Rightarrow> Inl (coded 404 ''runtime_target_not_found'' [])
           | Some m \<Rightarrow> raise_if (m_owner_user_id m \<noteq> u_id (p_user p)) (forbidden ''runtime'' ''attach'')))"

definition runtime_visible :: "principal \<Rightarrow> runtime_row \<Rightarrow> bool" where
  "runtime_visible p n \<longleftrightarrow> p_role p = Role_ADMIN \<or> rn_owner_user_id n = u_id (p_user p)"

definition register_runtime ::
  "runtime_db \<Rightarrow> principal \<Rightarrow> uuid \<Rightarrow> registration \<Rightarrow> (runtime_db, runtime_row) outcome" where
  "register_runtime d p i g =
     guarded (and_then (ensure_can_write p ''runtime'') (checked_machine d p (rg_machine_id g))) d
       (let n = \<lparr>rn_id = i, rn_owner_user_id = u_id (p_user p), rn_machine_id = rg_machine_id g,
              rn_harness_ref = rg_harness_ref g, rn_provider_ref = rg_provider_ref g,
              rn_model_ref = rg_model_ref g,
              rn_capabilities = (case rg_capabilities g of None \<Rightarrow> no_capabilities | Some c \<Rightarrow> c),
              rn_metadata = (case rg_metadata g of None \<Rightarrow> [] | Some md \<Rightarrow> md),
              rn_active = True, rn_version = 1\<rparr>
        in (d\<lparr>rd_runtimes := rd_runtimes d @ [n]\<rparr>, Inr n))"

definition get_runtime :: "runtime_db \<Rightarrow> principal \<Rightarrow> uuid \<Rightarrow> runtime_row option" where
  "get_runtime d p i =
     (case get_runtime_row d i of None \<Rightarrow> None | Some n \<Rightarrow> if runtime_visible p n then Some n else None)"

text \<open>The \<open>status\<close> filter: \<open>Some True\<close> is \<open>active\<close>.\<close>

definition list_runtimes :: "runtime_db \<Rightarrow> principal \<Rightarrow> bool option \<Rightarrow> bool \<Rightarrow> runtime_row list" where
  "list_runtimes d p status include_revoked =
     filter (\<lambda>n. (p_role p \<noteq> Role_ADMIN \<longrightarrow> rn_owner_user_id n = u_id (p_user p))
        \<and> (case status of Some s \<Rightarrow> rn_active n = s | None \<Rightarrow> include_revoked \<or> rn_active n)) (rd_runtimes d)"

definition ensure_runtime_owner :: "principal \<Rightarrow> runtime_row \<Rightarrow> string \<Rightarrow> unit fallible" where
  "ensure_runtime_owner p n action =
     and_then (ensure_can_write p ''runtime'')
       (raise_if (p_role p \<noteq> Role_ADMIN \<and> rn_owner_user_id n \<noteq> u_id (p_user p))
          (forbidden ''runtime'' action))"

definition keep :: "'a option \<Rightarrow> 'a option \<Rightarrow> 'a option" where
  "keep given stored = (case given of None \<Rightarrow> stored | Some v \<Rightarrow> Some v)"

definition updated_runtime :: "bool \<Rightarrow> registration \<Rightarrow> runtime_row \<Rightarrow> runtime_row" where
  "updated_runtime detach g n =
     n\<lparr>rn_machine_id := keep (rg_machine_id g) (if detach then None else rn_machine_id n),
       rn_harness_ref := keep (rg_harness_ref g) (rn_harness_ref n),
       rn_provider_ref := keep (rg_provider_ref g) (rn_provider_ref n),
       rn_model_ref := keep (rg_model_ref g) (rn_model_ref n),
       rn_capabilities := (case rg_capabilities g of None \<Rightarrow> rn_capabilities n | Some c \<Rightarrow> c),
       rn_metadata := (case rg_metadata g of None \<Rightarrow> rn_metadata n | Some md \<Rightarrow> md)\<rparr>"

definition unanchored :: "runtime_row \<Rightarrow> bool" where
  "unanchored n \<longleftrightarrow> rn_machine_id n = None \<and> rn_harness_ref n = None \<and> rn_provider_ref n = None
     \<and> rn_model_ref n = None"

definition update_runtime ::
  "runtime_db \<Rightarrow> principal \<Rightarrow> runtime_row \<Rightarrow> bool \<Rightarrow> registration \<Rightarrow> int
     \<Rightarrow> (runtime_db, runtime_row) outcome" where
  "update_runtime d p n detach g expected =
     guarded (and_then (ensure_runtime_owner p n ''update'')
        (and_then (raise_if (rn_version n \<noteq> expected) (version_conflict (rn_version n)))
          (checked_machine d p (rg_machine_id g)))) d
     (let n1 = updated_runtime detach g n in
      if unanchored n1
      then (d, Inl (coded 422 ''invalid_runtime'' [(''reason'', JText ''no_anchor_left'')]))
      else (let n2 = n1\<lparr>rn_version := rn_version n1 + 1\<rparr> in (put_runtime n2 d, Inr n2)))"

definition revoke_runtime ::
  "runtime_db \<Rightarrow> principal \<Rightarrow> runtime_row \<Rightarrow> (runtime_db, runtime_row) outcome" where
  "revoke_runtime d p n =
     guarded (ensure_runtime_owner p n ''revoke'') d
       (let n1 = n\<lparr>rn_active := False\<rparr> in (put_runtime n1 d, Inr n1))"

definition resolve_effective_target :: "runtime_db \<Rightarrow> uuid \<Rightarrow> runtime_row option" where
  "resolve_effective_target d i =
     (case get_runtime_row d i of
        None \<Rightarrow> None
      | Some n \<Rightarrow>
          if \<not> rn_active n then None
          else (case rn_machine_id n of
             None \<Rightarrow> Some n
           | Some m \<Rightarrow> if machine_live d m then Some n else None))"

subsection \<open>Stored choices\<close>

definition invalid_runtime_binding :: "string \<Rightarrow> http_error" where
  "invalid_runtime_binding reason = coded 422 ''invalid_runtime_binding'' [(''reason'', JText reason)]"

definition binding_visible :: "principal \<Rightarrow> binding_row \<Rightarrow> bool" where
  "binding_visible p b =
     (if rb_level b = Level_USER then p_role p = Role_ADMIN \<or> rb_owner_user_id b = u_id (p_user p)
      else (case rb_project_id b of Some pid \<Rightarrow> has_project_access p pid | None \<Rightarrow> has_any_project p))"

definition ensure_level_scope ::
  "principal \<Rightarrow> runtime_level \<Rightarrow> uuid option \<Rightarrow> project_action \<Rightarrow> unit fallible" where
  "ensure_level_scope p level project_id action =
     (if level \<in> {Level_USER, Level_SESSION} then Inr ()
      else (case project_id of
          Some pid \<Rightarrow> ensure_project_access p pid action
        | None \<Rightarrow> if level = Level_STUDIO_DEFAULT then ensure_shared_access p action else Inr ()))"

definition authorize_create_binding :: "principal \<Rightarrow> runtime_level \<Rightarrow> uuid option \<Rightarrow> unit fallible" where
  "authorize_create_binding p level project_id =
     and_then (ensure_level_scope p level project_id WriteAction)
       (if level = Level_STUDIO_DEFAULT then ensure_can_provision p ''runtime_binding''
        else ensure_can_write p ''runtime_binding'')"

definition binding_read_clause :: "principal \<Rightarrow> (binding_row \<Rightarrow> bool) option" where
  "binding_read_clause p =
     (let own = (\<lambda>b. rb_level b = Level_USER \<and> rb_owner_user_id b = u_id (p_user p)) in
      if p_role p = Role_ADMIN then None
      else (case p_scope p of
          ALL_PROJECTS \<Rightarrow> Some (\<lambda>b. own b \<or> rb_level b \<noteq> Level_USER)
        | Projects ps \<Rightarrow>
            if ps = {} then Some own
            else Some (\<lambda>b. own b \<or> (case rb_project_id b of None \<Rightarrow> False | Some pid \<Rightarrow> pid \<in> ps)
                   \<or> rb_level b = Level_STUDIO_DEFAULT)))"

definition checked_target :: "runtime_db \<Rightarrow> principal \<Rightarrow> runtime_target \<Rightarrow> unit fallible" where
  "checked_target d p t =
     (case rt_runtime_id t of
        Some i \<Rightarrow>
          and_then (raise_if (rt_machine_id t \<noteq> None \<or> rt_harness_ref t \<noteq> None \<or> rt_provider_ref t \<noteq> None
                \<or> rt_model_ref t \<noteq> None \<or> rt_capabilities t \<noteq> no_capabilities)
             (invalid_runtime_binding ''runtime_id_must_be_exclusive''))
          (case get_runtime_row d i of
             None \<Rightarrow> Inl (coded 404 ''runtime_not_found'' [])
           | Some n \<Rightarrow> raise_if (rn_owner_user_id n \<noteq> u_id (p_user p)) (forbidden ''runtime'' ''bind''))
      | None \<Rightarrow>
          (case rt_machine_id t of
             None \<Rightarrow> Inr ()
           | Some i \<Rightarrow>
               (case get_machine d i of
                  None \<Rightarrow> Inl (coded 404 ''runtime_target_not_found'' [])
                | Some m \<Rightarrow>
                    raise_if (m_owner_user_id m \<noteq> u_id (p_user p)) (forbidden ''runtime_binding'' ''bind''))))"

definition live_target :: "runtime_db \<Rightarrow> runtime_target \<Rightarrow> runtime_target option" where
  "live_target d t =
     (case rt_machine_id t of None \<Rightarrow> Some t | Some i \<Rightarrow> if machine_live d i then Some t else None)"

definition effective_target :: "runtime_db \<Rightarrow> runtime_target \<Rightarrow> runtime_target option" where
  "effective_target d t =
     (case rt_runtime_id t of
        Some i \<Rightarrow>
          map_option (\<lambda>n. \<lparr>rt_runtime_id = Some (rn_id n), rt_machine_id = rn_machine_id n,
              rt_harness_ref = rn_harness_ref n, rt_provider_ref = rn_provider_ref n,
              rt_model_ref = rn_model_ref n, rt_capabilities = rn_capabilities n\<rparr>)
            (resolve_effective_target d i)
      | None \<Rightarrow> live_target d t)"

record binding_in =
  bc_level :: runtime_level
  bc_project_id :: "uuid option"
  bc_target_kind :: library_kind
  bc_target_stable_key :: string
  bc_target :: runtime_target

definition ensure_level_context :: "runtime_db \<Rightarrow> principal \<Rightarrow> binding_in \<Rightarrow> unit fallible" where
  "ensure_level_context d p data =
     (case bc_level data of
        Level_USER \<Rightarrow>
          and_then (ensure_can_write p ''runtime_binding'')
            (raise_if (bc_project_id data \<noteq> None) (invalid_runtime_binding ''unexpected_project''))
      | Level_STUDIO_DEFAULT \<Rightarrow>
          and_then (ensure_can_provision p ''runtime_binding'')
            (raise_if (bc_project_id data \<noteq> None) (invalid_runtime_binding ''unexpected_project''))
      | _ \<Rightarrow>
          and_then (ensure_can_write p ''runtime_binding'')
            (case bc_project_id data of
               None \<Rightarrow> Inl (invalid_runtime_binding ''missing_project'')
             | Some pid \<Rightarrow> raise_if (pid \<notin> set (db_projects (lb_db d))) (coded 404 ''project_not_found'' [])))"

definition same_choice :: "binding_row \<Rightarrow> binding_row \<Rightarrow> bool" where
  "same_choice b b' \<longleftrightarrow> rb_level b = rb_level b' \<and> rb_target_kind b = rb_target_kind b'
     \<and> rb_target_stable_key b = rb_target_stable_key b'
     \<and> (case rb_level b of
          Level_USER \<Rightarrow> rb_owner_user_id b = rb_owner_user_id b'
        | Level_STUDIO_DEFAULT \<Rightarrow> True
        | _ \<Rightarrow> rb_project_id b = rb_project_id b')"

definition create_binding ::
  "runtime_db \<Rightarrow> principal \<Rightarrow> uuid \<Rightarrow> binding_in \<Rightarrow> (runtime_db, binding_row) outcome" where
  "create_binding d p i data =
     guarded (and_then (authorize_create_binding p (bc_level data) (bc_project_id data))
        (and_then (raise_if (bc_level data = Level_SESSION) (invalid_runtime_binding ''ephemeral_level_not_stored''))
        (and_then (raise_if (bc_target_kind data \<notin> {Kind_AGENT_DEFINITION, Kind_MODEL_PROFILE})
            (invalid_runtime_binding ''unsupported_target_kind''))
        (and_then (ensure_level_context d p data) (checked_target d p (bc_target data)))))) d
     (let b = \<lparr>rb_id = i, rb_level = bc_level data, rb_owner_user_id = u_id (p_user p),
            rb_project_id = (if bc_level data \<in> {Level_PROJECT_OVERRIDE, Level_PROJECT_DEFAULT}
               then bc_project_id data else None),
            rb_target_kind = bc_target_kind data, rb_target_stable_key = bc_target_stable_key data,
            rb_target = bc_target data\<rparr>
      in if list_ex (same_choice b) (rd_bindings d) then (d, Inl (coded 409 ''already_bound'' []))
         else (d\<lparr>rd_bindings := rd_bindings d @ [b]\<rparr>, Inr b))"

definition get_binding :: "runtime_db \<Rightarrow> principal \<Rightarrow> uuid \<Rightarrow> binding_row option fallible" where
  "get_binding d p i =
     (case tbl_get rb_id (rd_bindings d) i of
        None \<Rightarrow> Inr None
      | Some b \<Rightarrow>
          and_then (ensure_level_scope p (rb_level b) (rb_project_id b) ReadAction)
            (Inr (if binding_visible p b then Some b else None)))"

definition list_bindings ::
  "runtime_db \<Rightarrow> principal \<Rightarrow> runtime_level option \<Rightarrow> uuid option \<Rightarrow> library_kind option \<Rightarrow> string option
     \<Rightarrow> binding_row list fallible" where
  "list_bindings d p level project_id kind stable_key =
     and_then (case project_id of None \<Rightarrow> Inr () | Some pid \<Rightarrow> ensure_project_access p pid ReadAction)
       (Inr (where_clause (binding_read_clause p)
          (filter (\<lambda>b. matches_opt level (rb_level b) \<and> (project_id = None \<or> rb_project_id b = project_id)
              \<and> matches_opt kind (rb_target_kind b) \<and> matches_opt stable_key (rb_target_stable_key b))
            (rd_bindings d))))"

definition delete_binding ::
  "runtime_db \<Rightarrow> principal \<Rightarrow> binding_row \<Rightarrow> (runtime_db, binding_row) outcome" where
  "delete_binding d p b =
     guarded (and_then (ensure_level_scope p (rb_level b) (rb_project_id b) WriteAction)
        (if rb_level b \<in> {Level_USER, Level_PROJECT_OVERRIDE, Level_PROJECT_DEFAULT}
         then and_then (ensure_can_write p ''runtime_binding'')
           (raise_if (p_role p \<noteq> Role_ADMIN \<and> rb_owner_user_id b \<noteq> u_id (p_user p))
              (forbidden ''runtime_binding'' ''release''))
         else ensure_can_provision p ''runtime_binding'')) d
     (d\<lparr>rd_bindings := filter (\<lambda>b'. rb_id b' \<noteq> rb_id b) (rd_bindings d)\<rparr>, Inr b)"

subsection \<open>Candidates\<close>

record runtime_candidate =
  rq_level :: runtime_level
  rq_kind :: library_kind
  rq_stable_key :: string
  rq_target :: runtime_target
  rq_live :: bool

definition stored_choice ::
  "runtime_db \<Rightarrow> runtime_level \<Rightarrow> library_kind \<times> string \<Rightarrow> uuid option \<Rightarrow> uuid option \<Rightarrow> runtime_target option" where
  "stored_choice d level key owner_id project_id =
     map_option rb_target (find (\<lambda>b. rb_level b = level \<and> (rb_target_kind b, rb_target_stable_key b) = key
        \<and> matches_opt owner_id (rb_owner_user_id b)
        \<and> (project_id = None \<or> rb_project_id b = project_id)) (rd_bindings d))"

definition session_candidate ::
  "runtime_db \<Rightarrow> principal \<Rightarrow> ((library_kind \<times> string) \<times> runtime_target) list \<Rightarrow> library_kind \<times> string
     \<Rightarrow> runtime_candidate list fallible" where
  "session_candidate d p overrides key =
     (case map_of overrides key of
        None \<Rightarrow> Inr []
      | Some t \<Rightarrow>
          and_then (checked_target d p t)
            (Inr (case effective_target d t of
               None \<Rightarrow> []
             | Some e \<Rightarrow> [\<lparr>rq_level = Level_SESSION, rq_kind = fst key, rq_stable_key = snd key,
                            rq_target = e, rq_live = True\<rparr>])))"

definition stored_levels :: "(runtime_level \<times> bool) list" where
  "stored_levels = [(Level_PROJECT_OVERRIDE, True), (Level_USER, False), (Level_PROJECT_DEFAULT, True),
     (Level_STUDIO_DEFAULT, False)]"

definition stored_candidate ::
  "runtime_db \<Rightarrow> principal \<Rightarrow> uuid option \<Rightarrow> runtime_level \<Rightarrow> bool \<Rightarrow> library_kind \<times> string
     \<Rightarrow> runtime_candidate list" where
  "stored_candidate d p project_id level scoped key =
     (case (if level = Level_USER then stored_choice d level key (Some (u_id (p_user p))) None
            else if scoped then stored_choice d level key None project_id
            else stored_choice d level key None None) of
        None \<Rightarrow> []
      | Some t \<Rightarrow>
          [\<lparr>rq_level = level, rq_kind = fst key, rq_stable_key = snd key,
            rq_target = (case effective_target d t of None \<Rightarrow> t | Some e \<Rightarrow> e),
            rq_live = (effective_target d t \<noteq> None)\<rparr>])"

definition load_candidates ::
  "runtime_db \<Rightarrow> principal \<Rightarrow> (library_kind \<times> string) list \<Rightarrow> uuid option
     \<Rightarrow> ((library_kind \<times> string) \<times> runtime_target) list \<Rightarrow> runtime_candidate list fallible" where
  "load_candidates d p keys project_id overrides =
     and_then (case project_id of None \<Rightarrow> Inr () | Some pid \<Rightarrow> ensure_project_access p pid ReadAction)
     (and_get (each_ok (session_candidate d p overrides) keys) (\<lambda>session.
       Inr (concat session
         @ concat (map (\<lambda>(level, scoped).
             if scoped \<and> project_id = None then []
             else if level = Level_STUDIO_DEFAULT \<and> \<not> has_any_project p then []
             else concat (map (stored_candidate d p project_id level scoped) keys)) stored_levels))))"

end
