(* ===== verification/Resolution.thy ===== *)
theory Resolution
  imports Runtime_Bindings
begin

section \<open>Agent resolution (\<open>studio_contracts/resolution.py\<close>, \<open>services/resolution.py\<close>)\<close>

text \<open>
  The pure core assembles a loaded snapshot into one resolved agent definition, recursing into the
  agents it composes; the service loads that snapshot and maps failures to HTTP. The schema of a model
  profile's requirements is a parameter. The texts of unsatisfied requirements stay symbolic.
\<close>

subsection \<open>Failures\<close>

datatype resolution_error_code = DEFINITION_NOT_FOUND | UNRESOLVABLE_DEPENDENCY | RUNTIME_INCOMPATIBLE
  | INVALID_RESOLUTION_INPUT | COMPOSITION_CYCLE_DETECTED | COMPOSITION_DEPTH_EXCEEDED

fun resolution_error_value :: "resolution_error_code \<Rightarrow> string" where
  "resolution_error_value DEFINITION_NOT_FOUND = ''definition_not_found''"
| "resolution_error_value UNRESOLVABLE_DEPENDENCY = ''unresolvable_dependency''"
| "resolution_error_value RUNTIME_INCOMPATIBLE = ''runtime_incompatible''"
| "resolution_error_value INVALID_RESOLUTION_INPUT = ''invalid_resolution_input''"
| "resolution_error_value COMPOSITION_CYCLE_DETECTED = ''composition_cycle_detected''"
| "resolution_error_value COMPOSITION_DEPTH_EXCEEDED = ''composition_depth_exceeded''"

datatype resolution_failure = Failure (failure_code: resolution_error_code) (failure_details: content)

type_synonym 'a resolution = "resolution_failure + 'a"

definition invalid_input :: "string \<Rightarrow> content \<Rightarrow> resolution_failure" where
  "invalid_input reason details = Failure INVALID_RESOLUTION_INPUT ((''reason'', JText reason) # details)"

definition at_path :: "string \<Rightarrow> content" where
  "at_path via = [(''via'', JText via)]"

definition MAX_COMPOSITION_DEPTH :: nat where
  "MAX_COMPOSITION_DEPTH = 8"

definition bind_sum :: "'e + 'a \<Rightarrow> ('a \<Rightarrow> 'e + 'b) \<Rightarrow> 'e + 'b" where
  "bind_sum r k = (case r of Inl e \<Rightarrow> Inl e | Inr x \<Rightarrow> k x)"

lemma bind_sum_simps [simp]: "bind_sum (Inl e) k = Inl e" "bind_sum (Inr x) k = k x"
  by (simp_all add: bind_sum_def)

lemma bind_sum_Inr: "bind_sum r k = Inr y \<longleftrightarrow> (\<exists>x. r = Inr x \<and> k x = Inr y)"
  by (cases r) auto

lemma bind_sum_Inl: "bind_sum r k = Inl e \<longleftrightarrow> r = Inl e \<or> (\<exists>x. r = Inr x \<and> k x = Inl e)"
  by (cases r) auto

definition check :: "bool \<Rightarrow> 'e \<Rightarrow> 'e + unit" where
  "check ok e = (if ok then Inr () else Inl e)"

lemma check_simps [simp]: "check ok e = Inr u \<longleftrightarrow> ok" "check ok e = Inl e' \<longleftrightarrow> \<not> ok \<and> e' = e"
  by (auto simp: check_def)

fun each_sum :: "('a \<Rightarrow> 'e + 'b) \<Rightarrow> 'a list \<Rightarrow> 'e + 'b list" where
  "each_sum f [] = Inr []"
| "each_sum f (x # xs) = bind_sum (f x) (\<lambda>y. bind_sum (each_sum f xs) (\<lambda>ys. Inr (y # ys)))"

lemma each_sum_cong [fundef_cong]:
  "xs = ys \<Longrightarrow> (\<And>x. x \<in> set ys \<Longrightarrow> f x = g x) \<Longrightarrow> each_sum f xs = each_sum g ys"
  by (induction xs arbitrary: ys) auto

fun fold_sum :: "('a \<Rightarrow> 's \<Rightarrow> 'e + 's) \<Rightarrow> 'a list \<Rightarrow> 's \<Rightarrow> 'e + 's" where
  "fold_sum f [] s = Inr s"
| "fold_sum f (x # xs) s = bind_sum (f x s) (fold_sum f xs)"

subsection \<open>Snapshot\<close>

record node_binding =
  nb_relation :: binding_relation
  nb_target_resource_id :: uuid
  nb_target_version :: int

record resolution_node =
  nd_resource_id :: uuid
  nd_kind :: library_kind
  nd_stable_key :: string
  nd_scope :: library_scope
  nd_version :: int
  nd_version_origin :: version_origin
  nd_deprecated :: bool
  nd_title :: string
  nd_content :: content
  nd_bindings :: "node_binding list"

record agent_snapshot =
  sn_agent :: resolution_node
  sn_nodes :: "resolution_node list"
  sn_runtime_candidates :: "runtime_candidate list"

subsection \<open>Resolved definition\<close>

datatype provenance_source = Src_ACTIVE_POINTER | Src_PROJECT_LOCK | Src_VERSION_PIN
  | Src_RUNTIME_BINDING | Src_SESSION_OVERRIDE

record provenance =
  pv_source :: provenance_source
  pv_resource_id :: "uuid option"
  pv_stable_key :: "string option"
  pv_scope :: "library_scope option"
  pv_version :: "int option"
  pv_version_origin :: "version_origin option"
  pv_locked :: bool
  pv_relation :: "binding_relation option"
  pv_binding_level :: "runtime_level option"
  pv_via :: "string option"

text \<open>\<open>ResolvedAgent\<close>, \<open>ResolvedSkill\<close> and \<open>PreservedReference\<close>: the node and its provenance.\<close>

record resolved_element =
  el_node :: resolution_node
  el_provenance :: provenance

record rule_path =
  ru_relation :: binding_relation
  ru_via_kind :: library_kind
  ru_via_resource_id :: uuid
  ru_via_stable_key :: string
  ru_via_version :: int

record resolved_rule =
  rr_node :: resolution_node
  rr_paths :: "rule_path list"

fun unsatisfied_value :: "unsatisfied \<Rightarrow> jval" where
  "unsatisfied_value (Needs_reasoning r) = JList [JText ''reasoning: required'', JText r]"
| "unsatisfied_value Needs_coding = JText ''coding: required''"
| "unsatisfied_value (Needs_context_window n) = JList [JText ''context_window_min: required'', JInt n]"
| "unsatisfied_value (Missing_tools ts) = JList (JText ''tools_required: missing'' # map JText ts)"
| "unsatisfied_value (Needs_multimodal m) = JList [JText ''multimodal: required'', JText m]"
| "unsatisfied_value Needs_local = JText ''local_compatible: required''"
| "unsatisfied_value (Needs_cost c) = JList [JText ''cost: required'', JText c]"
| "unsatisfied_value (Needs_latency l) = JList [JText ''latency: required'', JText l]"

record resolved_runtime =
  ro_target :: runtime_target
  ro_level :: runtime_level
  ro_matched_kind :: library_kind
  ro_matched_stable_key :: string
  ro_compatible :: bool
  ro_unsatisfied :: "unsatisfied list"
  ro_provenance :: provenance

datatype resolved_definition = Resolved_Definition
  (df_agent: resolved_element)
  (df_rules: "resolved_rule list")
  (df_skills: "resolved_element list")
  (df_model_profile: "resolved_element option")
  (df_requirements: capability_requirement)
  (df_composed_agents: "(resolved_element \<times> resolved_definition) list")
  (df_workflows: "resolved_element list")
  (df_runtime: "resolved_runtime option")

subsection \<open>Choosing a runtime\<close>

definition LEVEL_ORDER :: "runtime_level list" where
  "LEVEL_ORDER = [Level_SESSION, Level_PROJECT_OVERRIDE, Level_USER, Level_PROJECT_DEFAULT,
     Level_STUDIO_DEFAULT]"

definition candidate_matches ::
  "runtime_candidate list \<Rightarrow> runtime_level \<times> library_kind \<times> string \<Rightarrow> runtime_candidate list" where
  "candidate_matches cs slot =
     filter (\<lambda>c. rq_live c \<and> (rq_level c, rq_kind c, rq_stable_key c) = slot) cs"

fun select_slot ::
  "runtime_candidate list \<Rightarrow> (runtime_level \<times> library_kind \<times> string) list
     \<Rightarrow> runtime_candidate option resolution" where
  "select_slot cs [] = Inr None"
| "select_slot cs (slot # slots) =
     (case candidate_matches cs slot of
        [] \<Rightarrow> select_slot cs slots
      | [c] \<Rightarrow> Inr (Some c)
      | _ \<Rightarrow> Inl (invalid_input ''duplicate_runtime_candidate''
               [(''level'', JText (runtime_level_value (fst slot))), (''stable_key'', JText (snd (snd slot)))]))"

definition runtime_slots ::
  "library_kind \<times> string \<Rightarrow> (library_kind \<times> string) option \<Rightarrow> (runtime_level \<times> library_kind \<times> string) list" where
  "runtime_slots agent_key profile_key =
     concat (map (\<lambda>level. map (\<lambda>key. (level, key))
        (agent_key # (case profile_key of None \<Rightarrow> [] | Some k \<Rightarrow> [k]))) LEVEL_ORDER)"

definition select_runtime ::
  "runtime_candidate list \<Rightarrow> library_kind \<times> string \<Rightarrow> (library_kind \<times> string) option
     \<Rightarrow> runtime_candidate option resolution" where
  "select_runtime cs agent_key profile_key = select_slot cs (runtime_slots agent_key profile_key)"

subsection \<open>One node\<close>

fun pin_source :: "version_origin \<Rightarrow> provenance_source" where
  "pin_source Origin_LOCK = Src_PROJECT_LOCK"
| "pin_source Origin_ACTIVE = Src_ACTIVE_POINTER"
| "pin_source Origin_PIN = Src_VERSION_PIN"

definition node_provenance ::
  "resolution_node \<Rightarrow> provenance_source \<Rightarrow> binding_relation option \<Rightarrow> string option \<Rightarrow> provenance" where
  "node_provenance n source relation via =
     \<lparr>pv_source = source, pv_resource_id = Some (nd_resource_id n), pv_stable_key = Some (nd_stable_key n),
      pv_scope = Some (nd_scope n), pv_version = Some (nd_version n),
      pv_version_origin = Some (nd_version_origin n), pv_locked = (nd_version_origin n = Origin_LOCK),
      pv_relation = relation, pv_binding_level = None, pv_via = via\<rparr>"

definition element :: "resolution_node \<Rightarrow> binding_relation option \<Rightarrow> string option \<Rightarrow> resolved_element" where
  "element n relation via =
     \<lparr>el_node = n, el_provenance = node_provenance n (pin_source (nd_version_origin n)) relation via\<rparr>"

type_synonym node_index = "uuid \<times> int \<Rightarrow> resolution_node option"

definition node_key :: "resolution_node \<Rightarrow> uuid \<times> int" where
  "node_key n = (nd_resource_id n, nd_version n)"

definition add_node :: "resolution_node \<Rightarrow> node_index \<Rightarrow> node_index resolution" where
  "add_node n index =
     (case index (node_key n) of
        None \<Rightarrow> Inr (index(node_key n \<mapsto> n))
      | Some m \<Rightarrow>
          if m \<noteq> n then Inl (invalid_input ''conflicting_snapshot_node''
              [(''resource_id'', JUuid (nd_resource_id n)), (''version'', JInt (nd_version n))])
          else Inr (index(node_key n \<mapsto> n)))"

definition build_index :: "resolution_node list \<Rightarrow> node_index resolution" where
  "build_index nodes = fold_sum add_node nodes (\<lambda>_. None)"

definition lookup_node :: "node_index \<Rightarrow> node_binding \<Rightarrow> string \<Rightarrow> resolution_node resolution" where
  "lookup_node index b via =
     (case index (nb_target_resource_id b, nb_target_version b) of
        Some n \<Rightarrow> Inr n
      | None \<Rightarrow> Inl (Failure UNRESOLVABLE_DEPENDENCY [(''reason'', JText ''missing_snapshot_node''),
          (''via'', JText via), (''resource_id'', JUuid (nb_target_resource_id b)),
          (''version'', JInt (nb_target_version b))]))"

definition checked_relation ::
  "library_kind \<Rightarrow> node_binding \<Rightarrow> resolution_node \<Rightarrow> string \<Rightarrow> binding_relation resolution" where
  "checked_relation source_kind b n via =
     (case binding_relation_for source_kind (nd_kind n) of
        None \<Rightarrow> Inl (invalid_input ''forbidden_kind_pair_or_relation_mismatch'' (at_path via))
      | Some expected \<Rightarrow>
          if expected \<noteq> nb_relation b then Inl (invalid_input ''forbidden_kind_pair_or_relation_mismatch'' (at_path via))
          else Inr expected)"

definition path_from :: "binding_relation \<Rightarrow> resolution_node \<Rightarrow> rule_path" where
  "path_from relation n =
     \<lparr>ru_relation = relation, ru_via_kind = nd_kind n, ru_via_resource_id = nd_resource_id n,
      ru_via_stable_key = nd_stable_key n, ru_via_version = nd_version n\<rparr>"

definition node_path :: "resolution_node \<Rightarrow> string" where
  "node_path n = library_kind_value (nd_kind n) @ '':'' @ nd_stable_key n"

record dependency_parts =
  pa_rules :: "(resolution_node \<times> rule_path) list"
  pa_skills :: "resolution_node list"
  pa_profiles :: "resolution_node list"
  pa_composed :: "resolution_node list"
  pa_workflows :: "resolution_node list"

definition no_parts :: dependency_parts where
  "no_parts = \<lparr>pa_rules = [], pa_skills = [], pa_profiles = [], pa_composed = [], pa_workflows = []\<rparr>"

definition place_binding ::
  "node_index \<Rightarrow> resolution_node \<Rightarrow> node_binding \<Rightarrow> dependency_parts \<Rightarrow> dependency_parts resolution" where
  "place_binding index agent b parts =
     bind_sum (lookup_node index b (node_path agent)) (\<lambda>n.
     bind_sum (checked_relation (nd_kind agent) b n (node_path agent)) (\<lambda>relation.
     case relation of
       APPLIES_RULE \<Rightarrow>
         if nd_kind n \<noteq> Kind_RULE then Inl (invalid_input ''rule_target_not_rule'' (at_path (node_path agent)))
         else Inr (parts\<lparr>pa_rules := pa_rules parts @ [(n, path_from relation agent)]\<rparr>)
     | USES_SKILL \<Rightarrow> Inr (parts\<lparr>pa_skills := pa_skills parts @ [n]\<rparr>)
     | REQUIRES_MODEL_PROFILE \<Rightarrow> Inr (parts\<lparr>pa_profiles := pa_profiles parts @ [n]\<rparr>)
     | COMPOSES_AGENT \<Rightarrow> Inr (parts\<lparr>pa_composed := pa_composed parts @ [n]\<rparr>)
     | REFERENCES_WORKFLOW \<Rightarrow> Inr (parts\<lparr>pa_workflows := pa_workflows parts @ [n]\<rparr>)
     | _ \<Rightarrow> Inl (invalid_input ''unexpected_agent_relation'' (at_path (node_path agent)))))"

definition partition_bindings :: "node_index \<Rightarrow> resolution_node \<Rightarrow> dependency_parts resolution" where
  "partition_bindings index agent = fold_sum (place_binding index agent) (nd_bindings agent) no_parts"

definition skill_rule ::
  "node_index \<Rightarrow> resolution_node \<Rightarrow> string \<Rightarrow> node_binding \<Rightarrow> (resolution_node \<times> rule_path) resolution" where
  "skill_rule index skill via b =
     bind_sum (lookup_node index b via) (\<lambda>rule.
     bind_sum (checked_relation (nd_kind skill) b rule via) (\<lambda>relation.
     if relation \<noteq> REFINES_SKILL_RULE \<or> nd_kind rule \<noteq> Kind_RULE
     then Inl (invalid_input ''skill_binding_not_rule'' (at_path via))
     else Inr (rule, path_from relation skill)))"

definition expand_skill ::
  "node_index \<Rightarrow> resolution_node \<Rightarrow> resolution_node
     \<Rightarrow> (resolved_element \<times> (resolution_node \<times> rule_path) list) resolution" where
  "expand_skill index agent skill =
     (if nd_kind skill \<noteq> Kind_SKILL then Inl (invalid_input ''skill_target_not_skill'' (at_path (node_path agent)))
      else bind_sum (each_sum (skill_rule index skill (node_path agent @ ''>'' @ node_path skill)) (nd_bindings skill))
        (\<lambda>rules. Inr (element skill (Some USES_SKILL) (Some (node_path agent)), rules)))"

definition merge_rule ::
  "resolution_node \<times> rule_path \<Rightarrow> resolved_rule list \<Rightarrow> resolved_rule list resolution" where
  "merge_rule np rules =
     (case np of (n, path) \<Rightarrow>
       if nd_kind n \<noteq> Kind_RULE then Inl (invalid_input ''rule_target_not_rule''
           (at_path (library_kind_value (ru_via_kind path) @ '':'' @ ru_via_stable_key path)))
       else (case find (\<lambda>r. nd_resource_id (rr_node r) = nd_resource_id n) rules of
          None \<Rightarrow> Inr (rules @ [\<lparr>rr_node = n, rr_paths = [path]\<rparr>])
        | Some r \<Rightarrow>
            if nd_version (rr_node r) \<noteq> nd_version n then Inl (invalid_input ''rule_pinned_at_two_versions''
                 [(''resource_id'', JUuid (nd_resource_id n))])
            else Inr (map (\<lambda>q. if nd_resource_id (rr_node q) = nd_resource_id n
                               then q\<lparr>rr_paths := rr_paths q @ [path]\<rparr> else q) rules)))"

definition merge_rules :: "(resolution_node \<times> rule_path) list \<Rightarrow> resolved_rule list resolution" where
  "merge_rules nps = fold_sum merge_rule nps []"

definition profile_requirements ::
  "(content \<Rightarrow> capability_requirement option) \<Rightarrow> string \<Rightarrow> resolution_node \<Rightarrow> capability_requirement resolution" where
  "profile_requirements parse via profile =
     (if nd_kind profile \<noteq> Kind_MODEL_PROFILE then Inl (invalid_input ''profile_target_not_model_profile'' (at_path via))
      else (case (case map_of (nd_content profile) ''requirements'' of None \<Rightarrow> JObj [] | Some v \<Rightarrow> v) of
          JObj fs \<Rightarrow>
            (case parse fs of
               None \<Rightarrow> Inl (invalid_input ''profile_requirements_invalid'' (at_path via))
             | Some r \<Rightarrow> Inr r)
        | _ \<Rightarrow> Inl (invalid_input ''profile_requirements_not_object'' (at_path via))))"

record node_parts =
  np_rules :: "resolved_rule list"
  np_skills :: "resolved_element list"
  np_profile :: "resolution_node option"
  np_requirements :: capability_requirement
  np_composed :: "resolution_node list"
  np_workflows :: "resolution_node list"

text \<open>The pipeline up to the composed agents.\<close>

definition prepare_node ::
  "(content \<Rightarrow> capability_requirement option) \<Rightarrow> node_index \<Rightarrow> resolution_node \<Rightarrow> node_parts resolution" where
  "prepare_node parse index agent =
     bind_sum (partition_bindings index agent) (\<lambda>parts.
     bind_sum (check (length (pa_profiles parts) \<le> 1) (invalid_input ''too_many_model_profiles''
         [(''stable_key'', JText (nd_stable_key agent))])) (\<lambda>_.
     bind_sum (each_sum (expand_skill index agent) (pa_skills parts)) (\<lambda>skills.
     bind_sum (merge_rules (pa_rules parts @ concat (map snd skills))) (\<lambda>rules.
     bind_sum (case pa_profiles parts of
         [] \<Rightarrow> Inr no_requirement | profile # _ \<Rightarrow> profile_requirements parse (node_path agent) profile) (\<lambda>requirements.
     Inr \<lparr>np_rules = rules, np_skills = map fst skills,
       np_profile = (case pa_profiles parts of [] \<Rightarrow> None | profile # _ \<Rightarrow> Some profile),
       np_requirements = requirements, np_composed = pa_composed parts,
       np_workflows = pa_workflows parts\<rparr>)))))"

definition runtime_of ::
  "runtime_candidate list \<Rightarrow> resolution_node \<Rightarrow> node_parts \<Rightarrow> resolved_runtime option resolution" where
  "runtime_of cs agent parts =
     bind_sum (select_runtime cs (Kind_AGENT_DEFINITION, nd_stable_key agent)
        (map_option (\<lambda>pr. (nd_kind pr, nd_stable_key pr)) (np_profile parts))) (\<lambda>winner.
     case winner of
       None \<Rightarrow> Inr None
     | Some c \<Rightarrow>
         (let missing = check_compatibility (np_requirements parts) (rt_capabilities (rq_target c)) in
          if missing \<noteq> []
          then Inl (Failure RUNTIME_INCOMPATIBLE [(''level'', JText (runtime_level_value (rq_level c))),
             (''matched_kind'', JText (library_kind_value (rq_kind c))),
             (''matched_stable_key'', JText (rq_stable_key c)),
             (''unsatisfied'', JList (map unsatisfied_value missing))])
          else Inr (Some \<lparr>ro_target = rq_target c, ro_level = rq_level c, ro_matched_kind = rq_kind c,
             ro_matched_stable_key = rq_stable_key c, ro_compatible = True, ro_unsatisfied = [],
             ro_provenance = \<lparr>pv_source = (if rq_level c = Level_SESSION then Src_SESSION_OVERRIDE
                   else Src_RUNTIME_BINDING),
                pv_resource_id = None, pv_stable_key = None, pv_scope = None, pv_version = None,
                pv_version_origin = None, pv_locked = False, pv_relation = None,
                pv_binding_level = Some (rq_level c),
                pv_via = Some (library_kind_value (rq_kind c) @ '':'' @ rq_stable_key c)\<rparr>\<rparr>)))"

definition assemble ::
  "resolution_node \<Rightarrow> node_parts \<Rightarrow> (resolved_element \<times> resolved_definition) list
     \<Rightarrow> resolved_runtime option \<Rightarrow> resolved_definition" where
  "assemble agent parts composed runtime =
     Resolved_Definition (element agent None None) (np_rules parts) (np_skills parts)
       (map_option (\<lambda>pr. element pr (Some REQUIRES_MODEL_PROFILE) (Some (node_path agent))) (np_profile parts))
       (np_requirements parts) composed
       (map (\<lambda>w. element w (Some REFERENCES_WORKFLOW) (Some (node_path agent))) (np_workflows parts)) runtime"

definition ensure_root :: "resolution_node \<Rightarrow> uuid set \<Rightarrow> nat \<Rightarrow> unit resolution" where
  "ensure_root agent visited depth =
     (if nd_kind agent \<noteq> Kind_AGENT_DEFINITION
      then Inl (invalid_input ''root_not_agent_definition''
          [(''kind'', JText (library_kind_value (nd_kind agent)))])
      else if nd_resource_id agent \<in> visited
      then Inl (Failure COMPOSITION_CYCLE_DETECTED [(''resource_id'', JUuid (nd_resource_id agent)),
          (''stable_key'', JText (nd_stable_key agent))])
      else if depth > MAX_COMPOSITION_DEPTH
      then Inl (Failure COMPOSITION_DEPTH_EXCEEDED [(''resource_id'', JUuid (nd_resource_id agent)),
          (''stable_key'', JText (nd_stable_key agent)), (''max_depth'', JInt (int MAX_COMPOSITION_DEPTH))])
      else Inr ())"

function resolve_node ::
  "(content \<Rightarrow> capability_requirement option) \<Rightarrow> runtime_candidate list \<Rightarrow> node_index \<Rightarrow> uuid set \<Rightarrow> nat
     \<Rightarrow> resolution_node \<Rightarrow> resolved_definition resolution" where
  "resolve_node parse cs index visited depth agent =
     (case ensure_root agent visited depth of
        Inl e \<Rightarrow> Inl e
      | Inr _ \<Rightarrow>
          (case prepare_node parse index agent of
             Inl e \<Rightarrow> Inl e
           | Inr parts \<Rightarrow>
               bind_sum (each_sum (\<lambda>n. resolve_node parse cs index (insert (nd_resource_id agent) visited) (Suc depth) n)
                   (np_composed parts)) (\<lambda>resolved.
               bind_sum (runtime_of cs agent parts) (\<lambda>runtime.
               Inr (assemble agent parts
                 (zip (map (\<lambda>n. element n (Some COMPOSES_AGENT) (Some (node_path agent))) (np_composed parts))
                    resolved) runtime)))))"
  by pat_completeness auto

termination
  by (relation "measure (\<lambda>(parse, cs, index, visited, depth, agent). Suc MAX_COMPOSITION_DEPTH - depth)")
    (auto simp: ensure_root_def MAX_COMPOSITION_DEPTH_def split: if_splits)

declare resolve_node.simps [simp del]

definition resolve_agent ::
  "(content \<Rightarrow> capability_requirement option) \<Rightarrow> agent_snapshot \<Rightarrow> resolved_definition resolution" where
  "resolve_agent parse snapshot =
     bind_sum (build_index (sn_agent snapshot # sn_nodes snapshot)) (\<lambda>index.
       resolve_node parse (sn_runtime_candidates snapshot) index {} 0 (sn_agent snapshot))"

subsection \<open>Loading\<close>

definition map_failure :: "resolution_failure \<Rightarrow> http_error" where
  "map_failure f =
     (case failure_code f of
        DEFINITION_NOT_FOUND \<Rightarrow> definition_not_found
      | UNRESOLVABLE_DEPENDENCY \<Rightarrow> definition_not_found
      | code \<Rightarrow> coded 422 (resolution_error_value code) (failure_details f))"

definition load_binding :: "runtime_db \<Rightarrow> principal \<Rightarrow> link_row \<Rightarrow> node_binding fallible" where
  "load_binding d p l =
     and_get (found definition_not_found (find_readable_resource d p (ll_to_resource_id l))) (\<lambda>target.
     and_get (found definition_not_found (version_of d (lr_id target) (ll_to_version l))) (\<lambda>_.
     and_get (found (coded 422 ''invalid_resolution_input'' [(''reason'', JText ''unknown_relation'')])
         (relation_of (ll_relation l))) (\<lambda>relation.
     Inr \<lparr>nb_relation = relation, nb_target_resource_id = lr_id target, nb_target_version = ll_to_version l\<rparr>)))"

definition load_node ::
  "runtime_db \<Rightarrow> principal \<Rightarrow> version_origin \<Rightarrow> uuid \<Rightarrow> int \<Rightarrow> resolution_node fallible" where
  "load_node d p origin rid version_number =
     and_get (found definition_not_found (find_readable_resource d p rid)) (\<lambda>r.
     and_get (found definition_not_found (version_of d (lr_id r) version_number)) (\<lambda>v.
     and_get (each_ok (load_binding d p) (links_from d (lv_id v))) (\<lambda>bindings.
     Inr \<lparr>nd_resource_id = lr_id r, nd_kind = lr_kind r, nd_stable_key = lr_stable_key r,
       nd_scope = lr_scope r, nd_version = version_number, nd_version_origin = origin,
       nd_deprecated = (lr_status r = Library_DEPRECATED), nd_title = lv_title v,
       nd_content = lv_content v, nd_bindings = bindings\<rparr>)))"

definition load_pinned :: "runtime_db \<Rightarrow> principal \<Rightarrow> node_binding \<Rightarrow> resolution_node fallible" where
  "load_pinned d p b = load_node d p Origin_PIN (nb_target_resource_id b) (nb_target_version b)"

lemma each_ok_cong [fundef_cong]:
  "xs = ys \<Longrightarrow> (\<And>x. x \<in> set ys \<Longrightarrow> f x = g x) \<Longrightarrow> each_ok f xs = each_ok g ys"
  by (induction xs arbitrary: ys) auto

lemma and_get_cong [fundef_cong]:
  "r = r' \<Longrightarrow> (\<And>x. r' = Inr x \<Longrightarrow> k x = k' x) \<Longrightarrow> and_get r k = and_get r' k'"
  by (cases r') auto

function load_composition_subgraph ::
  "runtime_db \<Rightarrow> principal \<Rightarrow> uuid set \<Rightarrow> nat \<Rightarrow> resolution_node \<Rightarrow> resolution_node list fallible" where
  "load_composition_subgraph d p visited depth agent =
     (if nd_resource_id agent \<in> visited \<or> depth > MAX_COMPOSITION_DEPTH then Inr []
      else and_get (each_ok (\<lambda>b.
          and_get (load_pinned d p b) (\<lambda>n.
          if nd_kind n = Kind_SKILL then
            and_get (each_ok (load_pinned d p) (nd_bindings n)) (\<lambda>rules. Inr (n # rules))
          else if nd_kind n = Kind_AGENT_DEFINITION then
            and_get (load_composition_subgraph d p (insert (nd_resource_id agent) visited) (Suc depth) n)
              (\<lambda>below. Inr (n # below))
          else Inr [n])) (nd_bindings agent))
        (\<lambda>nodes. Inr (concat nodes)))"
  by pat_completeness auto

termination
  by (relation "measure (\<lambda>(d, p, visited, depth, agent). Suc MAX_COMPOSITION_DEPTH - depth)")
    (auto simp: MAX_COMPOSITION_DEPTH_def)

declare load_composition_subgraph.simps [simp del]

definition profile_key_of ::
  "resolution_node \<Rightarrow> resolution_node list \<Rightarrow> (library_kind \<times> string) option" where
  "profile_key_of agent nodes =
     fold (\<lambda>b key.
       if nb_relation b = REQUIRES_MODEL_PROFILE then
         (case find (\<lambda>n. nd_resource_id n = nb_target_resource_id b) nodes of
            Some n \<Rightarrow> Some (nd_kind n, nd_stable_key n) | None \<Rightarrow> key)
       else key) (nd_bindings agent) None"

text \<open>The snapshot a request loads; \<open>resolve_full\<close> hands it to the core.\<close>

definition load_snapshot ::
  "runtime_db \<Rightarrow> principal \<Rightarrow> library_kind \<Rightarrow> string \<Rightarrow> uuid option
     \<Rightarrow> ((library_kind \<times> string) \<times> runtime_target) list \<Rightarrow> agent_snapshot fallible" where
  "load_snapshot d p kind stable_key project_id overrides =
     and_get (resolve_definition d p kind stable_key project_id) (\<lambda>resolved.
     and_get (load_node d p (re_version_origin resolved) (re_resource_id resolved) (re_version resolved)) (\<lambda>agent.
     and_get (load_composition_subgraph d p {} 0 agent) (\<lambda>nodes.
     and_get (load_candidates d p ((kind, stable_key)
         # (case profile_key_of agent nodes of None \<Rightarrow> [] | Some k \<Rightarrow> [k])) project_id overrides) (\<lambda>candidates.
     Inr \<lparr>sn_agent = agent, sn_nodes = nodes, sn_runtime_candidates = candidates\<rparr>))))"

definition resolve_full ::
  "(content \<Rightarrow> capability_requirement option) \<Rightarrow> runtime_db \<Rightarrow> principal \<Rightarrow> library_kind \<Rightarrow> string \<Rightarrow> uuid option
     \<Rightarrow> ((library_kind \<times> string) \<times> runtime_target) list \<Rightarrow> resolved_definition fallible" where
  "resolve_full parse d p kind stable_key project_id overrides =
     and_get (load_snapshot d p kind stable_key project_id overrides) (\<lambda>snapshot.
       (case resolve_agent parse snapshot of
          Inl failure \<Rightarrow> Inl (map_failure failure)
        | Inr definition \<Rightarrow> Inr definition))"

subsection \<open>The runtime alone (\<open>runtime_bindings.resolve_runtime\<close>)\<close>

record runtime_resolution =
  rz_target :: "runtime_target option"
  rz_level :: "runtime_level option"
  rz_matched_kind :: "library_kind option"
  rz_matched_stable_key :: "string option"
  rz_resource_id :: uuid
  rz_version :: int
  rz_compatible :: bool
  rz_unsatisfied :: "unsatisfied list"

definition verdict ::
  "library_resolution \<Rightarrow> runtime_candidate \<Rightarrow> capability_requirement \<Rightarrow> runtime_resolution" where
  "verdict resolved c requirements =
     (let missing = check_compatibility requirements (rt_capabilities (rq_target c)) in
      \<lparr>rz_target = Some (rq_target c), rz_level = Some (rq_level c), rz_matched_kind = Some (rq_kind c),
       rz_matched_stable_key = Some (rq_stable_key c), rz_resource_id = re_resource_id resolved,
       rz_version = re_version resolved, rz_compatible = (missing = []), rz_unsatisfied = missing\<rparr>)"

definition no_choice :: "library_resolution \<Rightarrow> runtime_resolution" where
  "no_choice resolved =
     \<lparr>rz_target = None, rz_level = None, rz_matched_kind = None, rz_matched_stable_key = None,
      rz_resource_id = re_resource_id resolved, rz_version = re_version resolved,
      rz_compatible = True, rz_unsatisfied = []\<rparr>"

text \<open>The content was checked when it was stored, so a failing parse is a server error here.\<close>

definition linked_profile ::
  "(content \<Rightarrow> capability_requirement option) \<Rightarrow> runtime_db \<Rightarrow> version_row
     \<Rightarrow> ((library_kind \<times> string) option \<times> capability_requirement) fallible" where
  "linked_profile parse d v =
     (case filter (\<lambda>l. ll_relation l = relation_value REQUIRES_MODEL_PROFILE) (links_from d (lv_id v)) of
        [] \<Rightarrow> Inr (None, no_requirement)
      | l # _ \<Rightarrow>
          and_get (found definition_not_found (get_resource_row d (ll_to_resource_id l))) (\<lambda>profile.
          and_get (found definition_not_found (version_of d (lr_id profile) (ll_to_version l))) (\<lambda>pv.
          (case (case map_of (lv_content pv) ''requirements'' of None \<Rightarrow> JObj [] | Some x \<Rightarrow> x) of
             JObj fs \<Rightarrow>
               (case parse fs of
                  None \<Rightarrow> Inl (HTTPException 500 (JText ''ValidationError''))
                | Some r \<Rightarrow> Inr (Some (lr_kind profile, lr_stable_key profile), r))
           | _ \<Rightarrow> Inl (HTTPException 500 (JText ''TypeError''))))))"

definition resolve_runtime ::
  "(content \<Rightarrow> capability_requirement option) \<Rightarrow> runtime_db \<Rightarrow> principal \<Rightarrow> library_kind \<Rightarrow> string
     \<Rightarrow> uuid option \<Rightarrow> ((library_kind \<times> string) \<times> runtime_target) list \<Rightarrow> runtime_resolution fallible" where
  "resolve_runtime parse d p kind stable_key project_id overrides =
     and_then (case project_id of None \<Rightarrow> Inr () | Some pid \<Rightarrow> ensure_project_access p pid ReadAction)
     (case resolve_definition d p kind stable_key project_id of
        Inl _ \<Rightarrow> Inl definition_not_found
      | Inr resolved \<Rightarrow>
          and_get (found definition_not_found (version_of d (re_resource_id resolved) (re_version resolved))) (\<lambda>v.
          and_get (linked_profile parse d v) (\<lambda>(profile_key, requirements).
          and_get (load_candidates d p ((kind, stable_key)
              # (case profile_key of None \<Rightarrow> [] | Some k \<Rightarrow> [k])) project_id overrides) (\<lambda>candidates.
          (case select_runtime candidates (kind, stable_key) profile_key of
             Inl _ \<Rightarrow> Inl (coded 500 ''runtime_resolution_failed'' [])
           | Inr None \<Rightarrow> Inr (no_choice resolved)
           | Inr (Some c) \<Rightarrow> Inr (verdict resolved c requirements))))))"

end
